(* ===== verification/Prelude.thy ===== *)
theory Prelude
  imports Complex_Main "HOL-Library.Char_ord" "HOL-Library.List_Lexorder"
    "HOL-Library.Code_Target_Numeral"
begin

text \<open>
  What every component shares: Python's exceptions as values of an error type, the
  exception monad as a sum with its simplification rules, ordered dictionaries as
  association lists, and the methods of Python's \<open>str\<close> the program calls, over
  \<^typ>\<open>string\<close>. A character is one of 256 code points; case mapping is the ASCII one.
\<close>

section \<open>Collections of rules\<close>

named_theorems res_simps "rules for results that may be an exception"
named_theorems dict_simps "lookup and update of ordered dictionaries"
named_theorems str_simps "string operations"

section \<open>Exceptions\<close>

text \<open>
  \<open>Inl e\<close> is a raised exception, \<open>Inr x\<close> a returned value. The message of an exception is
  kept only where the program dispatches on it.
\<close>

datatype pyerr =
    KeyError | TypeError | ValueError | AttributeError | IndexError
  | ZeroDivisionError | OverflowError | RuntimeError | NotImplementedError | StopIteration
  | PolicyValidationError | PolicyExecutionError | ResourceLimitExceeded | ClientError
  | AssertionError | ImportError | ExternalError | PyException

type_synonym 'a res = "pyerr + 'a"

definition rbind :: "'e + 'a \<Rightarrow> ('a \<Rightarrow> 'e + 'b) \<Rightarrow> 'e + 'b" where
  "rbind m f = (case m of Inl e \<Rightarrow> Inl e | Inr a \<Rightarrow> f a)"

lemma rbind_Inl [simp, res_simps]: "rbind (Inl e) f = Inl e"
  by (simp add: rbind_def)

lemma rbind_Inr [simp, res_simps]: "rbind (Inr a) f = f a"
  by (simp add: rbind_def)

lemma rbind_eq_Inr [res_simps]:
  "rbind m f = Inr b \<longleftrightarrow> (\<exists>a. m = Inr a \<and> f a = Inr b)"
  by (cases m) auto

lemma rbind_eq_Inl [res_simps]:
  "rbind m f = Inl e \<longleftrightarrow> m = Inl e \<or> (\<exists>a. m = Inr a \<and> f a = Inl e)"
  by (cases m) auto

lemma rbind_cong [fundef_cong]:
  "m = m' \<Longrightarrow> (\<And>a. m' = Inr a \<Longrightarrow> f a = g a) \<Longrightarrow> rbind m f = rbind m' g"
  by (cases m') auto

lemma rbind_return: "rbind m Inr = m"
  by (cases m) auto

lemma rbind_assoc: "rbind (rbind m f) g = rbind m (\<lambda>a. rbind (f a) g)"
  by (cases m) auto

text \<open>\<open>[f(x) for x in xs]\<close>: stops at the first exception.\<close>

fun rmap :: "('a \<Rightarrow> 'e + 'b) \<Rightarrow> 'a list \<Rightarrow> 'e + 'b list" where
  "rmap f [] = Inr []"
| "rmap f (x # xs) = rbind (f x) (\<lambda>y. rbind (rmap f xs) (\<lambda>ys. Inr (y # ys)))"

text \<open>\<open>[x for x in xs if f(x)]\<close>.\<close>

fun rfilter :: "('a \<Rightarrow> 'e + bool) \<Rightarrow> 'a list \<Rightarrow> 'e + 'a list" where
  "rfilter f [] = Inr []"
| "rfilter f (x # xs) =
     rbind (f x) (\<lambda>b. rbind (rfilter f xs) (\<lambda>ys. Inr (if b then x # ys else ys)))"

text \<open>\<open>any(f(x) for x in xs)\<close> and \<open>all(f(x) for x in xs)\<close>, with their early exit.\<close>

fun rany :: "('a \<Rightarrow> 'e + bool) \<Rightarrow> 'a list \<Rightarrow> 'e + bool" where
  "rany f [] = Inr False"
| "rany f (x # xs) = rbind (f x) (\<lambda>b. if b then Inr True else rany f xs)"

fun rall :: "('a \<Rightarrow> 'e + bool) \<Rightarrow> 'a list \<Rightarrow> 'e + bool" where
  "rall f [] = Inr True"
| "rall f (x # xs) = rbind (f x) (\<lambda>b. if b then rall f xs else Inr False)"

text \<open>\<open>for x in xs: s = f(s, x)\<close>.\<close>

fun rfold :: "('s \<Rightarrow> 'a \<Rightarrow> 'e + 's) \<Rightarrow> 's \<Rightarrow> 'a list \<Rightarrow> 'e + 's" where
  "rfold f s [] = Inr s"
| "rfold f s (x # xs) = rbind (f s x) (\<lambda>s'. rfold f s' xs)"

lemma rmap_cong [fundef_cong]:
  "xs = ys \<Longrightarrow> (\<And>x. x \<in> set ys \<Longrightarrow> f x = g x) \<Longrightarrow> rmap f xs = rmap g ys"
proof (induction ys arbitrary: xs)
  case Nil
  then show ?case by simp
next
  case (Cons a ys)
  then have "rmap f ys = rmap g ys" by auto
  with Cons show ?case by simp
qed

lemma rmap_Inr [res_simps]:
  "rmap f xs = Inr ys \<longleftrightarrow> list_all2 (\<lambda>x y. f x = Inr y) xs ys"
proof (induction xs arbitrary: ys)
  case Nil
  then show ?case by (cases ys) auto
next
  case (Cons x xs)
  then show ?case by (cases ys) (auto simp: rbind_eq_Inr)
qed

lemma rmap_pure: "(\<And>x. x \<in> set xs \<Longrightarrow> f x = Inr (g x)) \<Longrightarrow> rmap f xs = Inr (map g xs)"
  by (induction xs) auto

lemma rmap_map: "rmap f (map g xs) = rmap (\<lambda>x. f (g x)) xs"
  by (induction xs) auto

lemma rfilter_Inr_set:
  "rfilter f xs = Inr ys \<Longrightarrow> set ys = {x \<in> set xs. f x = Inr True}"
  by (induction xs arbitrary: ys) (auto simp: rbind_eq_Inr split: if_splits)

lemma rfilter_pure:
  "(\<And>x. x \<in> set xs \<Longrightarrow> f x = Inr (g x)) \<Longrightarrow> rfilter f xs = Inr (filter g xs)"
  by (induction xs) auto

lemma rfilter_total:
  "(\<And>x. x \<in> set xs \<Longrightarrow> \<exists>b. f x = Inr b) \<Longrightarrow> \<exists>ys. rfilter f xs = Inr ys"
proof (induction xs)
  case (Cons x xs)
  then obtain b ys where "f x = Inr b" "rfilter f xs = Inr ys" by fastforce
  then show ?case by simp
qed simp

lemma rany_pure:
  "(\<And>x. x \<in> set xs \<Longrightarrow> f x = Inr (g x)) \<Longrightarrow> rany f xs = Inr (\<exists>x \<in> set xs. g x)"
  by (induction xs) auto

lemma rall_pure:
  "(\<And>x. x \<in> set xs \<Longrightarrow> f x = Inr (g x)) \<Longrightarrow> rall f xs = Inr (\<forall>x \<in> set xs. g x)"
  by (induction xs) auto

text \<open>An invariant of a loop, and an exception none of its rounds raises.\<close>

lemma rfold_inv:
  assumes "\<And>s x. I s \<Longrightarrow> x \<in> set xs \<Longrightarrow> f s x \<noteq> Inl e \<and> (\<forall>s'. f s x = Inr s' \<longrightarrow> I s')" "I s"
  shows "rfold f s xs \<noteq> Inl e \<and> (\<forall>s'. rfold f s xs = Inr s' \<longrightarrow> I s')"
  using assms
proof (induction xs arbitrary: s)
  case (Cons x xs)
  have x: "f s x \<noteq> Inl e \<and> (\<forall>s'. f s x = Inr s' \<longrightarrow> I s')"
    by (rule Cons.prems(1)[OF Cons.prems(2)]) simp
  show ?case
  proof (cases "f s x")
    case (Inr s')
    have "rfold f s' xs \<noteq> Inl e \<and> (\<forall>t. rfold f s' xs = Inr t \<longrightarrow> I t)"
    proof (rule Cons.IH)
      fix s y assume "I s" "y \<in> set xs"
      then show "f s y \<noteq> Inl e \<and> (\<forall>s'. f s y = Inr s' \<longrightarrow> I s')"
        by (intro Cons.prems(1)) simp_all
    qed (use x Inr in blast)
    with Inr show ?thesis by simp
  qed (use x in simp)
qed simp

lemma rfold_keeps:
  "rfold f s xs = Inr t \<Longrightarrow> I s \<Longrightarrow> (\<And>s x s'. I s \<Longrightarrow> f s x = Inr s' \<Longrightarrow> I s') \<Longrightarrow> I t"
proof (induction xs arbitrary: s)
  case (Cons x xs)
  then obtain s1 where s1: "f s x = Inr s1" "rfold f s1 xs = Inr t" by (auto simp: rbind_eq_Inr)
  have "I s1" using Cons.prems(3)[OF Cons.prems(2) s1(1)] .
  from Cons.IH[OF s1(2) this Cons.prems(3)] show ?case .
qed simp

lemma rmap_inv:
  assumes "\<And>x. x \<in> set xs \<Longrightarrow> f x \<noteq> Inl e \<and> (\<forall>y. f x = Inr y \<longrightarrow> P y)"
  shows "rmap f xs \<noteq> Inl e \<and> (\<forall>ys. rmap f xs = Inr ys \<longrightarrow> (\<forall>y \<in> set ys. P y))"
  using assms
proof (induction xs)
  case (Cons x xs)
  have x: "f x \<noteq> Inl e \<and> (\<forall>y. f x = Inr y \<longrightarrow> P y)" by (rule Cons.prems) simp
  have xs: "rmap f xs \<noteq> Inl e \<and> (\<forall>ys. rmap f xs = Inr ys \<longrightarrow> (\<forall>y \<in> set ys. P y))"
    by (rule Cons.IH) (rule Cons.prems, simp)
  show ?case
  proof (cases "f x")
    case (Inr y)
    with x xs show ?thesis by (cases "rmap f xs") simp_all
  qed (use x in simp)
qed simp

section \<open>Ordered dictionaries\<close>

text \<open>
  A Python \<open>dict\<close> keeps insertion order: assigning to a present key keeps its place, a
  new key goes to the end.
\<close>

type_synonym ('k, 'v) odict = "('k \<times> 'v) list"

abbreviation dget :: "('k, 'v) odict \<Rightarrow> 'k \<Rightarrow> 'v option" where
  "dget \<equiv> map_of"

definition dkeys :: "('k, 'v) odict \<Rightarrow> 'k list" where
  "dkeys d = map fst d"

definition dvalues :: "('k, 'v) odict \<Rightarrow> 'v list" where
  "dvalues d = map snd d"

definition dhas :: "('k, 'v) odict \<Rightarrow> 'k \<Rightarrow> bool" where
  "dhas d k = (k \<in> set (dkeys d))"

fun dput :: "'k \<Rightarrow> 'v \<Rightarrow> ('k, 'v) odict \<Rightarrow> ('k, 'v) odict" where
  "dput k v [] = [(k, v)]"
| "dput k v ((k', v') # d) = (if k = k' then (k, v) # d else (k', v') # dput k v d)"

definition ddel :: "'k \<Rightarrow> ('k, 'v) odict \<Rightarrow> ('k, 'v) odict" where
  "ddel k d = filter (\<lambda>(k', v). k' \<noteq> k) d"

text \<open>\<open>d.update(e)\<close>: the items of \<open>e\<close> in order.\<close>

definition dupdate :: "('k, 'v) odict \<Rightarrow> ('k, 'v) odict \<Rightarrow> ('k, 'v) odict" where
  "dupdate d e = fold (\<lambda>(k, v). dput k v) e d"

text \<open>A dictionary has each key once.\<close>

definition dwf :: "('k, 'v) odict \<Rightarrow> bool" where
  "dwf d = distinct (dkeys d)"

lemma dkeys_simps [simp, dict_simps]: "dkeys [] = []" "dkeys ((k, v) # d) = k # dkeys d"
  by (simp_all add: dkeys_def)

lemma dhas_dget [dict_simps]: "dhas d k \<longleftrightarrow> dget d k \<noteq> None"
  by (simp add: dhas_def dkeys_def map_of_eq_None_iff)

lemma dget_None_iff: "dget d k = None \<longleftrightarrow> k \<notin> set (dkeys d)"
  by (simp add: dkeys_def map_of_eq_None_iff)

lemma dget_dput [simp, dict_simps]: "dget (dput k v d) = (dget d)(k \<mapsto> v)"
  by (induction d) (auto simp: fun_eq_iff)

lemma dkeys_dput:
  "dkeys (dput k v d) = (if k \<in> set (dkeys d) then dkeys d else dkeys d @ [k])"
  by (induction d) auto

lemma set_dkeys_dput [simp]: "set (dkeys (dput k v d)) = insert k (set (dkeys d))"
  by (auto simp: dkeys_dput)

lemma dwf_dput [simp, intro]: "dwf d \<Longrightarrow> dwf (dput k v d)"
  by (auto simp: dwf_def dkeys_dput)

lemma dwf_Nil [simp, intro]: "dwf []"
  by (simp add: dwf_def)

lemma dget_ddel [simp, dict_simps]: "dget (ddel k d) = (dget d)(k := None)"
  unfolding ddel_def by (induction d) (auto simp: fun_eq_iff)

lemma dkeys_ddel: "dkeys (ddel k d) = filter (\<lambda>k'. k' \<noteq> k) (dkeys d)"
  unfolding ddel_def dkeys_def by (induction d) auto

lemma dwf_ddel [simp, intro]: "dwf d \<Longrightarrow> dwf (ddel k d)"
  by (simp add: dwf_def dkeys_ddel)

lemma dupdate_Nil [simp]: "dupdate d [] = d"
  by (simp add: dupdate_def)

lemma dupdate_Cons [simp]: "dupdate d ((k, v) # e) = dupdate (dput k v d) e"
  by (simp add: dupdate_def)

lemma dwf_dupdate [simp, intro]: "dwf d \<Longrightarrow> dwf (dupdate d e)"
proof (induction e arbitrary: d)
  case (Cons p e)
  then show ?case by (cases p) auto
qed simp

lemma dget_dupdate: "dwf e \<Longrightarrow> dget (dupdate d e) = dget d ++ dget e"
proof (induction e arbitrary: d)
  case (Cons p e)
  obtain k v where p: "p = (k, v)" by (cases p)
  with Cons.prems have "dwf e" and k: "dget e k = None"
    by (auto simp: dwf_def dget_None_iff)
  then have "dget (dupdate (dput k v d) e) = dget (dput k v d) ++ dget e"
    by (intro Cons.IH)
  with k show ?case
    by (auto simp: p fun_eq_iff map_add_def split: option.splits)
qed simp

lemma dkeys_dupdate:
  "set (dkeys (dupdate d e)) = set (dkeys d) \<union> set (dkeys e)"
proof (induction e arbitrary: d)
  case (Cons p e)
  then show ?case by (cases p) auto
qed simp

end
