(* ===== verification/Pystr.thy ===== *)
theory Pystr
  imports Prelude
begin

text \<open>
  The methods of Python's \<open>str\<close> the program calls, and \<open>fnmatch\<close> from the standard
  library, as functions on \<^typ>\<open>string\<close>. Each is executable. Case mapping and the
  character classes are the ASCII ones, which is what tag keys, schedules, ARNs and
  policy patterns are written in.
\<close>

section \<open>Characters\<close>

definition is_digit :: "char \<Rightarrow> bool" where
  "is_digit c = (CHR ''0'' \<le> c \<and> c \<le> CHR ''9'')"

definition is_lower :: "char \<Rightarrow> bool" where
  "is_lower c = (CHR ''a'' \<le> c \<and> c \<le> CHR ''z'')"

definition is_upper :: "char \<Rightarrow> bool" where
  "is_upper c = (CHR ''A'' \<le> c \<and> c \<le> CHR ''Z'')"

definition is_alpha :: "char \<Rightarrow> bool" where
  "is_alpha c = (is_lower c \<or> is_upper c)"

text \<open>ASCII whitespace: tab to carriage return, the four separators and the blank.\<close>

definition is_space :: "char \<Rightarrow> bool" where
  "is_space c = (let n = (of_char c :: nat) in (9 \<le> n \<and> n \<le> 13) \<or> (28 \<le> n \<and> n \<le> 32))"

definition char_lower :: "char \<Rightarrow> char" where
  "char_lower c = (if is_upper c then char_of (of_char c + (32 :: nat)) else c)"

definition char_upper :: "char \<Rightarrow> char" where
  "char_upper c = (if is_lower c then char_of (of_char c - (32 :: nat)) else c)"

section \<open>Case\<close>

definition lower :: "string \<Rightarrow> string" where
  "lower = map char_lower"

definition upper :: "string \<Rightarrow> string" where
  "upper = map char_upper"

definition capitalize :: "string \<Rightarrow> string" where
  "capitalize s = (case s of [] \<Rightarrow> [] | c # cs \<Rightarrow> char_upper c # lower cs)"

text \<open>\<open>str.title()\<close>: a letter is upper case exactly when no letter precedes it.\<close>

fun title_from :: "bool \<Rightarrow> string \<Rightarrow> string" where
  "title_from prev [] = []"
| "title_from prev (c # cs) =
     (if prev then char_lower c else char_upper c) # title_from (is_alpha c) cs"

definition title :: "string \<Rightarrow> string" where
  "title = title_from False"

section \<open>Prefixes, substrings, splitting\<close>

fun starts_with :: "string \<Rightarrow> string \<Rightarrow> bool" where
  "starts_with s [] = True"
| "starts_with [] (p # ps) = False"
| "starts_with (c # cs) (p # ps) = (c = p \<and> starts_with cs ps)"

text \<open>\<open>p in s\<close> on strings.\<close>

fun has_substr :: "string \<Rightarrow> string \<Rightarrow> bool" where
  "has_substr [] p = (p = [])"
| "has_substr (c # cs) p = (starts_with (c # cs) p \<or> has_substr cs p)"

text \<open>\<open>s.count(c)\<close> for one character.\<close>

definition count_char :: "string \<Rightarrow> char \<Rightarrow> nat" where
  "count_char s c = length (filter (\<lambda>x. x = c) s)"

text \<open>\<open>s.split(c)\<close> with a one-character separator: always at least one piece.\<close>

fun split_char :: "char \<Rightarrow> string \<Rightarrow> string list" where
  "split_char sep [] = [[]]"
| "split_char sep (c # cs) =
     (if c = sep then [] # split_char sep cs
      else (case split_char sep cs of [] \<Rightarrow> [[c]] | p # ps \<Rightarrow> (c # p) # ps))"

text \<open>\<open>s.split(c, n)\<close>: at most \<open>n\<close> cuts, from the left.\<close>

fun split_max :: "char \<Rightarrow> nat \<Rightarrow> string \<Rightarrow> string list" where
  "split_max sep n [] = [[]]"
| "split_max sep n (c # cs) =
     (if c = sep \<and> 0 < n then [] # split_max sep (n - 1) cs
      else (case split_max sep n cs of [] \<Rightarrow> [[c]] | p # ps \<Rightarrow> (c # p) # ps))"

text \<open>\<open>s.rsplit(c, 1)\<close>.\<close>

definition rsplit1 :: "char \<Rightarrow> string \<Rightarrow> string list" where
  "rsplit1 sep s = rev (map rev (split_max sep 1 (rev s)))"

text \<open>\<open>s.split(sep)\<close> with a separator of several characters (\<open>sep\<close> is not empty).\<close>

function split_str :: "string \<Rightarrow> string \<Rightarrow> string list" where
  "split_str sep s =
     (case s of [] \<Rightarrow> [[]]
      | c # cs \<Rightarrow>
          if sep \<noteq> [] \<and> starts_with s sep then [] # split_str sep (drop (length sep) s)
          else (case split_str sep cs of [] \<Rightarrow> [[c]] | p # ps \<Rightarrow> (c # p) # ps))"
  by pat_completeness auto
termination
  by (relation "measure (\<lambda>(sep, s). length s)") auto

declare split_str.simps [simp del]

fun join :: "string \<Rightarrow> string list \<Rightarrow> string" where
  "join sep [] = []"
| "join sep [s] = s"
| "join sep (s # t # ts) = s @ sep @ join sep (t # ts)"

text \<open>\<open>s.replace(old, new)\<close> for a non-empty \<open>old\<close>: left to right, without overlap.\<close>

function replace_str :: "string \<Rightarrow> string \<Rightarrow> string \<Rightarrow> string" where
  "replace_str old new s =
     (case s of [] \<Rightarrow> []
      | c # cs \<Rightarrow>
          if old \<noteq> [] \<and> starts_with s old then new @ replace_str old new (drop (length old) s)
          else c # replace_str old new cs)"
  by pat_completeness auto
termination
  by (relation "measure (\<lambda>(old, new, s). length s)") auto

declare replace_str.simps [simp del]

definition remove_chars :: "string \<Rightarrow> string \<Rightarrow> string" where
  "remove_chars cs s = filter (\<lambda>c. c \<notin> set cs) s"

text \<open>\<open>s.strip(chars)\<close>, \<open>s.rstrip(chars)\<close> and \<open>s.strip()\<close>.\<close>

definition lstrip_by :: "(char \<Rightarrow> bool) \<Rightarrow> string \<Rightarrow> string" where
  "lstrip_by p s = dropWhile p s"

definition rstrip_by :: "(char \<Rightarrow> bool) \<Rightarrow> string \<Rightarrow> string" where
  "rstrip_by p s = rev (dropWhile p (rev s))"

definition strip_by :: "(char \<Rightarrow> bool) \<Rightarrow> string \<Rightarrow> string" where
  "strip_by p s = rstrip_by p (lstrip_by p s)"

definition strip_chars :: "string \<Rightarrow> string \<Rightarrow> string" where
  "strip_chars cs = strip_by (\<lambda>c. c \<in> set cs)"

definition strip :: "string \<Rightarrow> string" where
  "strip = strip_by is_space"

section \<open>Numbers in strings\<close>

definition digit_val :: "char \<Rightarrow> nat" where
  "digit_val c = of_char c - 48"

definition digit_char :: "nat \<Rightarrow> char" where
  "digit_char n = char_of (48 + n)"

definition isdigit :: "string \<Rightarrow> bool" where
  "isdigit s = (s \<noteq> [] \<and> list_all is_digit s)"

text \<open>\<open>int(s)\<close> of a string of digits.\<close>

definition nat_of_digits :: "string \<Rightarrow> nat" where
  "nat_of_digits s = foldl (\<lambda>n c. 10 * n + digit_val c) 0 s"

fun str_of_nat :: "nat \<Rightarrow> string" where
  "str_of_nat n = (if n < 10 then [digit_char n] else str_of_nat (n div 10) @ [digit_char (n mod 10)])"

declare str_of_nat.simps [simp del]

definition str_of_int :: "int \<Rightarrow> string" where
  "str_of_int i = (if i < 0 then CHR ''-'' # str_of_nat (nat (- i)) else str_of_nat (nat i))"

text \<open>
  Digits with single underscores between them, the digit part of Python's numeric
  literals, which \<open>int()\<close> and \<open>float()\<close> accept. \<open>None\<close>: not a digit part.
\<close>

fun digit_part_from :: "bool \<Rightarrow> string \<Rightarrow> string option" where
  "digit_part_from after_digit [] = (if after_digit then Some [] else None)"
| "digit_part_from after_digit (c # cs) =
     (if is_digit c then map_option (\<lambda>r. c # r) (digit_part_from True cs)
      else if c = CHR ''_'' \<and> after_digit then
        (case cs of [] \<Rightarrow> None
         | d # ds \<Rightarrow> if is_digit d then map_option (\<lambda>r. d # r) (digit_part_from True ds) else None)
      else None)"

definition digit_part :: "string \<Rightarrow> nat option" where
  "digit_part s = map_option nat_of_digits (digit_part_from False s)"

text \<open>\<open>int(s)\<close> on a string: surrounding blanks, a sign, a digit part; \<open>None\<close> is ValueError.\<close>

definition int_of_str :: "string \<Rightarrow> int option" where
  "int_of_str s =
     (let t = strip s in
      case t of [] \<Rightarrow> None
      | c # cs \<Rightarrow>
          if c = CHR ''-'' then map_option (\<lambda>n. - int n) (digit_part cs)
          else if c = CHR ''+'' then map_option int (digit_part cs)
          else map_option int (digit_part t))"

section \<open>Shell patterns\<close>

text \<open>
  \<open>fnmatch.fnmatch(name, pat)\<close> on POSIX: \<open>*\<close> any run of characters, \<open>?\<close> any one
  character, \<open>[seq]\<close> and \<open>[!seq]\<close> a character in or not in a set of characters and
  ranges; a bracket that is never closed stands for itself.
\<close>

datatype set_item = One char | Range char char

datatype glob_tok = GStar | GAny | GSet bool "set_item list" | GLit char

fun set_items :: "string \<Rightarrow> set_item list" where
  "set_items (a # CHR ''-'' # b # cs) = Range a b # set_items cs"
| "set_items (a # cs) = One a # set_items cs"
| "set_items [] = []"

fun in_item :: "char \<Rightarrow> set_item \<Rightarrow> bool" where
  "in_item c (One a) = (c = a)"
| "in_item c (Range a b) = (a \<le> c \<and> c \<le> b)"

text \<open>The text up to the next closing bracket and the rest after it.\<close>

fun upto_bracket :: "string \<Rightarrow> (string \<times> string) option" where
  "upto_bracket [] = None"
| "upto_bracket (c # cs) =
     (if c = CHR '']'' then Some ([], cs)
      else map_option (\<lambda>(a, b). (c # a, b)) (upto_bracket cs))"

text \<open>A bracket expression after its \<open>[\<close>: a \<open>]\<close> in first place (after \<open>!\<close>) is a member.\<close>

definition bracket_body :: "string \<Rightarrow> (string \<times> string) option" where
  "bracket_body s =
     (case s of [] \<Rightarrow> None
      | c # cs \<Rightarrow> if c = CHR '']'' then map_option (\<lambda>(a, b). (c # a, b)) (upto_bracket cs)
                  else upto_bracket s)"

definition bracket :: "string \<Rightarrow> (glob_tok \<times> string) option" where
  "bracket s =
     (case s of [] \<Rightarrow> None
      | c # cs \<Rightarrow>
          if c = CHR ''!'' then map_option (\<lambda>(a, b). (GSet True (set_items a), b)) (bracket_body cs)
          else map_option (\<lambda>(a, b). (GSet False (set_items a), b)) (bracket_body s))"

lemma upto_bracket_length: "upto_bracket s = Some (a, b) \<Longrightarrow> length b < length s"
  by (induction s arbitrary: a b) (auto split: if_splits)

lemma bracket_body_length: "bracket_body s = Some (a, b) \<Longrightarrow> length b < length s"
  by (auto simp: bracket_body_def split: list.splits if_splits dest!: upto_bracket_length)

lemma bracket_length: "bracket s = Some (t, b) \<Longrightarrow> length b < length s"
  by (auto simp: bracket_def split: list.splits if_splits dest!: bracket_body_length)

function glob_tokens :: "string \<Rightarrow> glob_tok list" where
  "glob_tokens s =
     (case s of [] \<Rightarrow> []
      | c # cs \<Rightarrow>
          if c = CHR ''*'' then GStar # glob_tokens cs
          else if c = CHR ''?'' then GAny # glob_tokens cs
          else if c = CHR ''['' then
            (case bracket cs of None \<Rightarrow> GLit c # glob_tokens cs
             | Some (t, rest) \<Rightarrow> t # glob_tokens rest)
          else GLit c # glob_tokens cs)"
  by pat_completeness auto
termination
  by (relation "measure length") (auto dest: bracket_length)

declare glob_tokens.simps [simp del]

fun glob_one :: "glob_tok \<Rightarrow> char \<Rightarrow> bool" where
  "glob_one GStar c = True"
| "glob_one GAny c = True"
| "glob_one (GSet neg items) c = (list_ex (in_item c) items \<noteq> neg)"
| "glob_one (GLit a) c = (c = a)"

text \<open>A star takes nothing, or one character and stays.\<close>

fun glob_match_toks :: "glob_tok list \<Rightarrow> string \<Rightarrow> bool" where
  "glob_match_toks [] s = (s = [])"
| "glob_match_toks (GStar # ts) s =
     (glob_match_toks ts s \<or> (case s of [] \<Rightarrow> False | c # cs \<Rightarrow> glob_match_toks (GStar # ts) cs))"
| "glob_match_toks (t # ts) s =
     (case s of [] \<Rightarrow> False | c # cs \<Rightarrow> glob_one t c \<and> glob_match_toks ts cs)"

definition fnmatch :: "string \<Rightarrow> string \<Rightarrow> bool" where
  "fnmatch name pat = glob_match_toks (glob_tokens pat) name"

section \<open>Lemmas\<close>

lemma starts_with_prefix: "starts_with s p \<longleftrightarrow> (\<exists>r. s = p @ r)"
  by (induction s p rule: starts_with.induct) auto

lemma split_char_not_Nil [simp]: "split_char sep s \<noteq> []"
  by (induction s) (auto split: list.splits)

lemma join_split_char [str_simps]: "join [sep] (split_char sep s) = s"
proof (induction s)
  case (Cons c cs)
  then show ?case
    by (cases "split_char sep cs"; cases "tl (split_char sep cs)") (auto)
qed simp

lemma split_char_no_sep: "sep \<notin> set s \<Longrightarrow> split_char sep s = [s]"
  by (induction s) auto

lemma split_char_pieces: "p \<in> set (split_char sep s) \<Longrightarrow> sep \<notin> set p"
  by (induction s arbitrary: p) (auto split: list.splits if_splits)

lemma split_char_append:
  "split_char sep (s @ sep # t) = split_char sep s @ split_char sep t"
  by (induction s) (auto split: list.splits)

lemma split_char_join:
  "ps \<noteq> [] \<Longrightarrow> (\<And>p. p \<in> set ps \<Longrightarrow> sep \<notin> set p) \<Longrightarrow> split_char sep (join [sep] ps) = ps"
proof (induction "[sep]" ps rule: join.induct)
  case (3 s t ts)
  then have "split_char sep (s @ sep # join [sep] (t # ts)) = [s] @ (t # ts)"
    by (subst split_char_append) (simp add: split_char_no_sep)
  then show ?case by simp
qed (auto simp: split_char_no_sep)

declare glob_match_toks.simps(2) [simp del]

lemma split_max_no_sep: "sep \<notin> set p \<Longrightarrow> split_max sep n p = [p]"
  by (induction p) auto

lemma split_max_cut:
  "sep \<notin> set p \<Longrightarrow> 0 < n \<Longrightarrow> split_max sep n (p @ sep # r) = p # split_max sep (n - 1) r"
  by (induction p) auto

lemma split_max_0: "split_max sep 0 s = [s]"
  by (induction s) auto

lemma takeWhile_stop: "c \<notin> set p \<Longrightarrow> takeWhile (\<lambda>x. x \<noteq> c) (p @ c # r) = p"
  by (induction p) auto

lemma rstrip_by_keep: "s \<noteq> [] \<Longrightarrow> \<not> P (last s) \<Longrightarrow> rstrip_by P s = s"
  by (cases s rule: rev_cases) (simp_all add: rstrip_by_def)

lemma rstrip_by_snoc: "P c \<Longrightarrow> rstrip_by P (s @ [c]) = rstrip_by P s"
  by (simp add: rstrip_by_def)

lemma has_substr_char: "has_substr s [c] \<longleftrightarrow> c \<in> set s"
  by (induction s) auto

lemma glob_star_Nil [simp]: "glob_match_toks (GStar # ts) [] = glob_match_toks ts []"
  by (simp add: glob_match_toks.simps(2))

lemma glob_star_Cons [simp]:
  "glob_match_toks (GStar # ts) (c # cs) =
     (glob_match_toks ts (c # cs) \<or> glob_match_toks (GStar # ts) cs)"
  by (subst glob_match_toks.simps(2)) simp

lemma glob_star_all [simp]: "glob_match_toks [GStar] s"
  by (induction s) auto

lemma fnmatch_star [str_simps]: "fnmatch s ''*''"
  by (simp add: fnmatch_def glob_tokens.simps glob_star_all)

lemma glob_literal: "glob_match_toks (map GLit p) s \<longleftrightarrow> s = p"
  by (induction p arbitrary: s) (auto split: list.splits)

definition glob_plain :: "string \<Rightarrow> bool" where
  "glob_plain p = list_all (\<lambda>c. c \<notin> set ''*?['') p"

lemma glob_tokens_plain: "glob_plain p \<Longrightarrow> glob_tokens p = map GLit p"
  by (induction p) (auto simp: glob_plain_def glob_tokens.simps)

lemma fnmatch_plain [str_simps]: "glob_plain p \<Longrightarrow> fnmatch s p \<longleftrightarrow> s = p"
  by (simp add: fnmatch_def glob_tokens_plain glob_literal)

lemma glob_prefix_star: "glob_match_toks (map GLit p @ [GStar]) s \<longleftrightarrow> starts_with s p"
proof (induction p arbitrary: s)
  case Nil
  show ?case by simp
next
  case (Cons a p)
  then show ?case by (cases s) auto
qed

lemma glob_tokens_prefix_star:
  "glob_plain p \<Longrightarrow> glob_tokens (p @ ''*'') = map GLit p @ [GStar]"
  by (induction p) (auto simp: glob_plain_def glob_tokens.simps)

lemma fnmatch_prefix_star [str_simps]:
  "glob_plain p \<Longrightarrow> fnmatch s (p @ ''*'') \<longleftrightarrow> starts_with s p"
  by (simp add: fnmatch_def glob_tokens_prefix_star glob_prefix_star)

end
