(* ===== verification/Floats.thy ===== *)
theory Floats
  imports Pystr
begin

text \<open>
  Python's \<open>float\<close>: an IEEE double. A finite one is the rational it denotes; the sign of
  zero is not kept. Arithmetic rounds the exact result to the nearest double, ties to
  even, as \<open>round_double\<close> does; the functions here are the ones the program uses.
\<close>

datatype pyfloat = Fin rat | PosInf | NegInf | NaN

text \<open>Evaluation of roundings of numeral fractions.\<close>

lemma floor_rat_numeral [simp]:
  "\<lfloor>numeral a / numeral b :: rat\<rfloor> = numeral a div numeral b"
  "\<lfloor>1 / numeral b :: rat\<rfloor> = 1 div numeral b"
  using floor_divide_of_int_eq[of "numeral a" "numeral b", where 'a = rat]
    floor_divide_of_int_eq[of 1 "numeral b", where 'a = rat] by simp_all

lemma ceiling_rat_numeral [simp]:
  "\<lceil>numeral a / numeral b :: rat\<rceil> = - (- numeral a div numeral b)"
  "\<lceil>1 / numeral b :: rat\<rceil> = - (- 1 div numeral b)"
  using ceiling_divide_eq_div[of "numeral a" "numeral b", where 'a = rat]
    ceiling_divide_eq_div[of 1 "numeral b", where 'a = rat] by simp_all

section \<open>Rounding\<close>

fun bitlen :: "nat \<Rightarrow> nat" where
  "bitlen n = (if n = 0 then 0 else Suc (bitlen (n div 2)))"

declare bitlen.simps [simp del]

lemma bitlen_numeral [simp]:
  "bitlen 0 = 0" "bitlen (Suc 0) = 1"
  "bitlen (numeral (num.Bit0 k)) = Suc (bitlen (numeral k))"
  "bitlen (numeral (num.Bit1 k)) = Suc (bitlen (numeral k))"
proof -
  show "bitlen 0 = 0" by (simp add: bitlen.simps)
  then show "bitlen (Suc 0) = 1" by (simp add: bitlen.simps[of "Suc 0"])
  show "bitlen (numeral (num.Bit0 k)) = Suc (bitlen (numeral k))"
    by (subst bitlen.simps) simp
  show "bitlen (numeral (num.Bit1 k)) = Suc (bitlen (numeral k))"
    by (subst bitlen.simps) simp
qed

definition pow2 :: "int \<Rightarrow> rat" where
  "pow2 k = (if 0 \<le> k then 2 ^ nat k else 1 / 2 ^ nat (- k))"

text \<open>The exponent \<open>e\<close> with \<open>2 ^ e \<le> x < 2 ^ (e + 1)\<close>, for a positive \<open>x\<close>.\<close>

definition ilog2 :: "rat \<Rightarrow> int" where
  "ilog2 x = (if 1 \<le> x then int (bitlen (nat \<lfloor>x\<rfloor>)) - 1
              else - int (bitlen (nat (\<lceil>1 / x\<rceil> - 1))))"

definition round_even :: "rat \<Rightarrow> int" where
  "round_even x =
     (let f = \<lfloor>x\<rfloor>; d = x - of_int f
      in if d < 1 / 2 then f else if 1 / 2 < d then f + 1 else if even f then f else f + 1)"

text \<open>53 bits of precision, and steps of \<open>2 ^ -1074\<close> below the normal range.\<close>

definition round_double :: "rat \<Rightarrow> pyfloat" where
  "round_double x =
     (if x = 0 then Fin 0
      else let u = pow2 (max (ilog2 \<bar>x\<bar> - 52) (- 1074));
               r = of_int (round_even (x / u)) * u
           in if pow2 1024 \<le> \<bar>r\<bar> then (if 0 < x then PosInf else NegInf) else Fin r)"

lemma bitlen_gt: "n < 2 ^ bitlen n"
proof (induction n rule: bitlen.induct)
  case (1 n)
  show ?case
  proof (cases "n = 0")
    case True
    then show ?thesis by (simp add: bitlen.simps)
  next
    case False
    with 1 have "n div 2 < 2 ^ bitlen (n div 2)" by simp
    then have "n < 2 * 2 ^ bitlen (n div 2)" by linarith
    with False show ?thesis by (simp add: bitlen.simps[of n])
  qed
qed

lemma bitlen_le: "n < 2 ^ k \<Longrightarrow> bitlen n \<le> k"
proof (induction n arbitrary: k rule: bitlen.induct)
  case (1 n)
  show ?case
  proof (cases "n = 0")
    case True
    then show ?thesis by (simp add: bitlen.simps)
  next
    case False
    with 1(2) obtain j where k: "k = Suc j" by (cases k) auto
    with 1(2) have "n div 2 < 2 ^ j" by simp
    with 1(1) False have "bitlen (n div 2) \<le> j" by simp
    with False show ?thesis by (simp add: bitlen.simps[of n] k)
  qed
qed

lemma pow2_pos [simp]: "0 < pow2 k"
  by (simp add: pow2_def)

lemma pow2_nonneg [simp]: "0 \<le> pow2 k" and pow2_nonzero [simp]: "pow2 k \<noteq> 0"
  using pow2_pos[of k] by linarith+

lemma pow2_neg_nat: "k \<le> 0 \<Longrightarrow> 1 / pow2 k = of_nat (2 ^ nat (- k))"
  by (cases "k = 0") (auto simp: pow2_def)

lemma round_even_le: "x \<le> of_int m \<Longrightarrow> round_even x \<le> m"
proof -
  assume x: "x \<le> of_int m"
  then have f: "\<lfloor>x\<rfloor> \<le> m" by (simp add: floor_le_iff)
  show ?thesis
  proof (cases "\<lfloor>x\<rfloor> = m")
    case True
    with x have "x - of_int \<lfloor>x\<rfloor> < 1 / 2" by simp
    with True show ?thesis by (simp add: round_even_def Let_def)
  next
    case False
    with f show ?thesis by (auto simp: round_even_def Let_def)
  qed
qed

lemma round_even_ge: "of_int m \<le> x \<Longrightarrow> m \<le> round_even x"
  by (auto simp: round_even_def Let_def le_floor_iff[symmetric])

lemma round_even_int [simp]: "round_even (of_int m) = m"
  by (simp add: round_even_def)

text \<open>Below \<open>2 ^ 53\<close> a bound that is a whole number survives rounding.\<close>

lemma ilog2_le_52: "0 < x \<Longrightarrow> x < 2 ^ 53 \<Longrightarrow> ilog2 x \<le> 52"
proof -
  assume x: "0 < x" "x < 2 ^ 53"
  show ?thesis
  proof (cases "1 \<le> x")
    case True
    from x have "\<lfloor>x\<rfloor> < 2 ^ 53" by (simp add: floor_less_iff)
    moreover from x have "0 \<le> \<lfloor>x\<rfloor>" by simp
    ultimately have "nat \<lfloor>x\<rfloor> < nat (2 ^ 53)" by (simp only: nat_less_eq_zless)
    then have "nat \<lfloor>x\<rfloor> < 2 ^ 53" by simp
    then have "bitlen (nat \<lfloor>x\<rfloor>) \<le> 53" by (rule bitlen_le)
    with True show ?thesis by (simp add: ilog2_def)
  next
    case False
    then show ?thesis by (simp add: ilog2_def)
  qed
qed

lemma scale_whole: "k \<le> 0 \<Longrightarrow> \<exists>m::int. (of_nat n :: rat) / pow2 k = of_int m"
  by (rule exI[of _ "int (n * 2 ^ nat (- k))"])
     (simp add: pow2_def field_simps)

lemma round_double_bounded:
  assumes "0 \<le> x" "x \<le> of_nat n" "n < 2 ^ 53"
  shows "\<exists>r. round_double x = Fin r \<and> 0 \<le> r \<and> r \<le> of_nat n"
proof (cases "x = 0")
  case True
  then show ?thesis by (simp add: round_double_def)
next
  case False
  with assms(1) have pos: "0 < x" by simp
  have n53: "(of_nat n :: rat) < 2 ^ 53" using assms(3)
    by (metis of_nat_less_iff of_nat_numeral of_nat_power)
  define k where "k = max (ilog2 \<bar>x\<bar> - 52) (- 1074)"
  have k: "k \<le> 0" using ilog2_le_52[OF pos] n53 assms(2) pos by (simp add: k_def)
  obtain m :: int where m: "(of_nat n :: rat) / pow2 k = of_int m" using scale_whole[OF k] by blast
  define r where "r = of_int (round_even (x / pow2 k)) * pow2 k"
  have "x / pow2 k \<le> of_int m" using assms(2) by (simp add: m[symmetric] divide_right_mono)
  then have "round_even (x / pow2 k) \<le> m" by (rule round_even_le)
  then have "r \<le> of_int m * pow2 k" by (simp add: r_def)
  also have "\<dots> = of_nat n" using m by (simp add: field_simps)
  finally have le: "r \<le> of_nat n" .
  have "0 \<le> round_even (x / pow2 k)" using pos by (intro round_even_ge) simp
  then have ge: "0 \<le> r" by (simp add: r_def)
  have "(2::rat) ^ 53 \<le> 2 ^ 1024" by (rule power_increasing) simp_all
  with le n53 have "r < pow2 1024" by (simp add: pow2_def)
  with ge False have "round_double x = Fin r"
    by (simp add: round_double_def Let_def k_def[symmetric] r_def[symmetric] not_le)
  with le ge show ?thesis by blast
qed

lemma round_double_nat:
  assumes "n < 2 ^ 53"
  shows "round_double (of_nat n) = Fin (of_nat n)"
proof (cases "n = 0")
  case True
  then show ?thesis by (simp add: round_double_def)
next
  case False
  then have pos: "0 < (of_nat n :: rat)" by simp
  have n53: "(of_nat n :: rat) < 2 ^ 53" using assms
    by (metis of_nat_less_iff of_nat_numeral of_nat_power)
  define k where "k = max (ilog2 (of_nat n) - 52) (- 1074)"
  have k: "k \<le> 0" using ilog2_le_52[OF pos n53] by (simp add: k_def)
  obtain m :: int where m: "(of_nat n :: rat) / pow2 k = of_int m" using scale_whole[OF k] by blast
  have r: "of_int (round_even (of_nat n / pow2 k)) * pow2 k = (of_nat n :: rat)"
    by (simp add: m) (simp add: m[symmetric])
  have "(2::rat) ^ 53 \<le> 2 ^ 1024" by (rule power_increasing) simp_all
  with n53 have "of_nat n < pow2 1024" by (simp add: pow2_def)
  with False r show ?thesis
    by (simp add: round_double_def Let_def k_def[symmetric] not_le)
qed

section \<open>Arithmetic the program uses\<close>

text \<open>\<open>a / b\<close> on two ints with \<open>b\<close> not zero, and \<open>f * n\<close> on a float and an int.\<close>

definition int_truediv :: "int \<Rightarrow> int \<Rightarrow> pyfloat" where
  "int_truediv a b = round_double (of_int a / of_int b)"

fun float_mul_int :: "pyfloat \<Rightarrow> int \<Rightarrow> pyfloat" where
  "float_mul_int (Fin x) n =
     (case round_double (of_int n) of Fin y \<Rightarrow> round_double (x * y)
      | f \<Rightarrow> (if x = 0 then NaN else if 0 < x then f else if f = PosInf then NegInf else PosInf))"
| "float_mul_int NaN n = NaN"
| "float_mul_int PosInf n = (if n = 0 then NaN else if 0 < n then PosInf else NegInf)"
| "float_mul_int NegInf n = (if n = 0 then NaN else if 0 < n then NegInf else PosInf)"

text \<open>\<open>int(f)\<close>: towards zero; infinities and NaN raise.\<close>

fun int_of_float :: "pyfloat \<Rightarrow> int res" where
  "int_of_float (Fin x) = Inr (if 0 \<le> x then \<lfloor>x\<rfloor> else \<lceil>x\<rceil>)"
| "int_of_float NaN = Inl ValueError"
| "int_of_float _ = Inl OverflowError"

section \<open>Parsing\<close>

text \<open>
  \<open>float(s)\<close>: blanks around, a sign, and then \<open>inf\<close>, \<open>infinity\<close>, \<open>nan\<close> in any case, or a
  decimal number with an optional fraction and exponent. \<open>None\<close> is ValueError.
\<close>

definition split_at_first :: "(char \<Rightarrow> bool) \<Rightarrow> string \<Rightarrow> string \<times> string option" where
  "split_at_first p s =
     (takeWhile (\<lambda>c. \<not> p c) s,
      case dropWhile (\<lambda>c. \<not> p c) s of [] \<Rightarrow> None | c # cs \<Rightarrow> Some cs)"

text \<open>The digits of a part, or no digits at all.\<close>

definition opt_digits :: "string \<Rightarrow> string option" where
  "opt_digits s = (if s = [] then Some [] else digit_part_from False s)"

definition mantissa :: "string \<Rightarrow> rat option" where
  "mantissa s =
     (case split_at_first (\<lambda>c. c = CHR ''.'') s of
        (w, None) \<Rightarrow> map_option of_nat (digit_part w)
      | (w, Some f) \<Rightarrow>
          (case (opt_digits w, opt_digits f) of
             (Some a, Some b) \<Rightarrow>
               if a = [] \<and> b = [] then None
               else Some (of_nat (nat_of_digits a) + of_nat (nat_of_digits b) / 10 ^ length b)
           | _ \<Rightarrow> None))"

definition exponent :: "string \<Rightarrow> int option" where
  "exponent s =
     (case s of [] \<Rightarrow> None
      | c # cs \<Rightarrow>
          if c = CHR ''-'' then map_option (\<lambda>n. - int n) (digit_part cs)
          else if c = CHR ''+'' then map_option int (digit_part cs)
          else map_option int (digit_part s))"

definition pow10 :: "int \<Rightarrow> rat" where
  "pow10 k = (if 0 \<le> k then 10 ^ nat k else 1 / 10 ^ nat (- k))"

definition unsigned_float :: "string \<Rightarrow> pyfloat option" where
  "unsigned_float s =
     (if lower s = ''inf'' \<or> lower s = ''infinity'' then Some PosInf
      else if lower s = ''nan'' then Some NaN
      else
        (case split_at_first (\<lambda>c. c = CHR ''e'' \<or> c = CHR ''E'') s of
           (m, None) \<Rightarrow> map_option round_double (mantissa m)
         | (m, Some e) \<Rightarrow>
             (case (mantissa m, exponent e) of
                (Some q, Some k) \<Rightarrow> Some (round_double (q * pow10 k))
              | _ \<Rightarrow> None)))"

fun float_neg :: "pyfloat \<Rightarrow> pyfloat" where
  "float_neg (Fin x) = Fin (- x)"
| "float_neg PosInf = NegInf"
| "float_neg NegInf = PosInf"
| "float_neg NaN = NaN"

definition float_of_str :: "string \<Rightarrow> pyfloat option" where
  "float_of_str s =
     (let t = strip s in
      case t of [] \<Rightarrow> None
      | c # cs \<Rightarrow>
          if c = CHR ''-'' then map_option float_neg (unsigned_float cs)
          else if c = CHR ''+'' then unsigned_float cs
          else unsigned_float t)"

section \<open>Order\<close>

text \<open>NaN is unordered with everything, itself included.\<close>

datatype ord3 = OLt | OEq | OGt | OUn

definition ord_of :: "'a::linorder \<Rightarrow> 'a \<Rightarrow> ord3" where
  "ord_of a b = (if a < b then OLt else if a = b then OEq else OGt)"

fun float_ord :: "pyfloat \<Rightarrow> pyfloat \<Rightarrow> ord3" where
  "float_ord NaN _ = OUn"
| "float_ord _ NaN = OUn"
| "float_ord (Fin x) (Fin y) = ord_of x y"
| "float_ord PosInf PosInf = OEq"
| "float_ord NegInf NegInf = OEq"
| "float_ord PosInf _ = OGt"
| "float_ord _ PosInf = OLt"
| "float_ord NegInf _ = OLt"
| "float_ord _ NegInf = OGt"

end
