(* ===== verification/Versions.thy ===== *)
theory Versions
  imports Floats
begin

text \<open>
  \<open>LooseVersion\<close> of \<open>c7n/vendored/distutils/version.py\<close>: a version string is cut into
  numbers, runs of lower case letters and runs of other characters, the dots dropped, and
  versions compare as lists of those components.
\<close>

section \<open>Parsing\<close>

datatype vcomp = VInt nat | VStr string

datatype vclass = CDigit | CLower | CDot | COther

definition vclass_of :: "char \<Rightarrow> vclass" where
  "vclass_of c = (if is_digit c then CDigit else if is_lower c then CLower
                  else if c = CHR ''.'' then CDot else COther)"

text \<open>
  \<open>component_re.split(vstring)\<close>: the maximal runs of one class; every dot is a run of its
  own and is filtered out with the empty strings.
\<close>

fun vruns :: "string \<Rightarrow> (vclass \<times> string) list" where
  "vruns [] = []"
| "vruns (c # cs) =
     (case vruns cs of
        (k, r) # rs \<Rightarrow>
          if k = vclass_of c \<and> k \<noteq> CDot then (k, c # r) # rs
          else (vclass_of c, [c]) # (k, r) # rs
      | [] \<Rightarrow> [(vclass_of c, [c])])"

definition vcomp_of :: "vclass \<times> string \<Rightarrow> vcomp" where
  "vcomp_of p = (case p of (k, s) \<Rightarrow> if k = CDigit then VInt (nat_of_digits s) else VStr s)"

definition version_parse :: "string \<Rightarrow> vcomp list" where
  "version_parse s = map vcomp_of (filter (\<lambda>(k, r). k \<noteq> CDot) (vruns s))"

section \<open>Comparison\<close>

text \<open>Python refuses to order a number and a string: \<open>None\<close> is its TypeError.\<close>

fun vcomp_ord :: "vcomp \<Rightarrow> vcomp \<Rightarrow> ord3 option" where
  "vcomp_ord (VInt a) (VInt b) = Some (ord_of a b)"
| "vcomp_ord (VStr a) (VStr b) = Some (ord_of a b)"
| "vcomp_ord _ _ = None"

fun version_ord :: "vcomp list \<Rightarrow> vcomp list \<Rightarrow> ord3 option" where
  "version_ord [] [] = Some OEq"
| "version_ord [] (y # ys) = Some OLt"
| "version_ord (x # xs) [] = Some OGt"
| "version_ord (x # xs) (y # ys) = (if x = y then version_ord xs ys else vcomp_ord x y)"

text \<open>\<open>_cmp\<close>: 0, -1 or 1, and a TypeError where list order is undefined.\<close>

definition version_cmp :: "vcomp list \<Rightarrow> vcomp list \<Rightarrow> int res" where
  "version_cmp v w =
     (if v = w then Inr 0
      else case version_ord v w of
        None \<Rightarrow> Inl TypeError
      | Some OLt \<Rightarrow> Inr (- 1)
      | Some _ \<Rightarrow> Inr 1)"

section \<open>Lemmas\<close>

lemma version_ord_refl [simp]: "version_ord v v = Some OEq"
  by (induction v) auto

lemma ord_of_eq [simp]: "ord_of a a = OEq"
  by (simp add: ord_of_def)

lemma ord_of_OEq [simp]: "ord_of a b = OEq \<longleftrightarrow> a = b"
  by (auto simp: ord_of_def)

lemma version_ord_OEq: "version_ord v w = Some OEq \<longleftrightarrow> v = w"
proof (induction v w rule: version_ord.induct)
  case (4 x xs y ys)
  then show ?case by (cases x; cases y) auto
qed auto

fun ord_flip :: "ord3 \<Rightarrow> ord3" where
  "ord_flip OLt = OGt"
| "ord_flip OGt = OLt"
| "ord_flip OEq = OEq"
| "ord_flip OUn = OUn"

lemma ord_of_flip: "ord_of b a = ord_flip (ord_of a b)"
  by (auto simp: ord_of_def)

lemma version_ord_flip: "version_ord w v = map_option ord_flip (version_ord v w)"
proof (induction v w rule: version_ord.induct)
  case (4 x xs y ys)
  then show ?case
    by (cases x; cases y) (auto simp: ord_of_def)
qed auto

text \<open>A version made of numbers only; such versions are always comparable.\<close>

definition numeric :: "vcomp list \<Rightarrow> bool" where
  "numeric v = list_all (\<lambda>c. case c of VInt n \<Rightarrow> True | VStr s \<Rightarrow> False) v"

lemma numeric_ord_total:
  "numeric v \<Longrightarrow> numeric w \<Longrightarrow> \<exists>r. version_ord v w = Some r"
  by (induction v w rule: version_ord.induct) (auto simp: numeric_def split: vcomp.splits)

end
