(* ===== verification/PyVal.thy ===== *)
theory PyVal
  imports Versions
begin

text \<open>
  Python values as the program handles them: what a policy file, a cloud API answer or an
  event holds (None, booleans, unbounded integers, floats, strings, lists, tuples,
  dictionaries with string keys) and what a filter makes of them (instants, durations, IP
  addresses and networks, versions). With them the built-in operators the program applies
  to values it knows nothing about: equality, order, truth, length, iteration and
  membership, with the exceptions Python raises.
\<close>

section \<open>Values\<close>

text \<open>
  \<open>PDate\<close> is an aware \<open>datetime\<close>, as microseconds since the epoch; \<open>PDelta\<close> a
  \<open>timedelta\<close> in microseconds; \<open>PAddr v n\<close> the address \<open>n\<close> of IP version \<open>v\<close>;
  \<open>PNet n p\<close> the IPv4 network at \<open>n\<close> with prefix length \<open>p\<close>; \<open>PNets\<close> an \<open>IPv4List\<close>;
  \<open>PVer None\<close> a \<open>ComparableVersion\<close> built from an empty value, which was never parsed.
\<close>

datatype pyval =
    PNone | PBool bool | PInt int | PFloat pyfloat | PStr string
  | PList "pyval list" | PTuple "pyval list" | PDict "(string \<times> pyval) list"
  | PDate int | PDelta int
  | PAddr nat nat | PNet nat nat | PNets "pyval list"
  | PVer "vcomp list option"

type_synonym pydict = "(string, pyval) odict"

definition is_str :: "pyval \<Rightarrow> bool" where
  "is_str v = (case v of PStr s \<Rightarrow> True | _ \<Rightarrow> False)"

definition is_list :: "pyval \<Rightarrow> bool" where
  "is_list v = (case v of PList xs \<Rightarrow> True | _ \<Rightarrow> False)"

definition is_dict :: "pyval \<Rightarrow> bool" where
  "is_dict v = (case v of PDict d \<Rightarrow> True | _ \<Rightarrow> False)"

text \<open>\<open>isinstance(v, int)\<close>: a bool is an int.\<close>

definition is_int :: "pyval \<Rightarrow> bool" where
  "is_int v = (case v of PInt i \<Rightarrow> True | PBool b \<Rightarrow> True | _ \<Rightarrow> False)"

text \<open>\<open>d.get(k, default)\<close>.\<close>

definition dget_or :: "pydict \<Rightarrow> string \<Rightarrow> pyval \<Rightarrow> pyval" where
  "dget_or d k v = (case dget d k of None \<Rightarrow> v | Some w \<Rightarrow> w)"

text \<open>\<open>d[k]\<close>.\<close>

definition dindex :: "('k, 'v) odict \<Rightarrow> 'k \<Rightarrow> 'v res" where
  "dindex d k = (case dget d k of None \<Rightarrow> Inl KeyError | Some v \<Rightarrow> Inr v)"

section \<open>Equality\<close>

text \<open>The number a value is, for the numeric types; ints compare exactly with floats.\<close>

definition num_of :: "pyval \<Rightarrow> pyfloat option" where
  "num_of v = (case v of
      PBool b \<Rightarrow> Some (Fin (if b then 1 else 0))
    | PInt i \<Rightarrow> Some (Fin (of_int i))
    | PFloat f \<Rightarrow> Some f
    | _ \<Rightarrow> None)"

definition num_eq :: "pyval \<Rightarrow> pyval \<Rightarrow> bool" where
  "num_eq x y = (case (num_of x, num_of y) of
      (Some a, Some b) \<Rightarrow> a = b \<and> a \<noteq> NaN
    | _ \<Rightarrow> False)"

text \<open>\<open>LooseVersion(s)\<close>: an empty string is never parsed.\<close>

definition ver_of_str :: "string \<Rightarrow> vcomp list option" where
  "ver_of_str s = (if s = [] then None else Some (version_parse s))"

definition ver_eq :: "vcomp list option \<Rightarrow> pyval \<Rightarrow> bool" where
  "ver_eq v y = (case y of
      PVer w \<Rightarrow> v \<noteq> None \<and> v = w
    | PStr s \<Rightarrow> v \<noteq> None \<and> v = ver_of_str s
    | _ \<Rightarrow> False)"

text \<open>
  \<open>x == y\<close>. Dictionaries are equal when they hold the same keys with equal values, in
  any order; an \<open>IPv4List\<close> equals only itself, and two of them are never the same object.
\<close>

fun py_eq :: "pyval \<Rightarrow> pyval \<Rightarrow> bool" where
  "py_eq PNone y = (y = PNone)"
| "py_eq (PBool b) y = num_eq (PBool b) y"
| "py_eq (PInt i) y = num_eq (PInt i) y"
| "py_eq (PFloat f) y = num_eq (PFloat f) y"
| "py_eq (PStr s) y = (case y of PStr t \<Rightarrow> s = t | PVer v \<Rightarrow> ver_eq v (PStr s) | _ \<Rightarrow> False)"
| "py_eq (PList xs) y = (case y of PList ys \<Rightarrow> list_all2 py_eq xs ys | _ \<Rightarrow> False)"
| "py_eq (PTuple xs) y = (case y of PTuple ys \<Rightarrow> list_all2 py_eq xs ys | _ \<Rightarrow> False)"
| "py_eq (PDict a) y =
     (case y of
        PDict b \<Rightarrow> length a = length b \<and>
          list_all (\<lambda>(k, v). case dget b k of None \<Rightarrow> False | Some w \<Rightarrow> py_eq v w) a
      | _ \<Rightarrow> False)"
| "py_eq (PDate i) y = (y = PDate i)"
| "py_eq (PDelta i) y = (y = PDelta i)"
| "py_eq (PAddr v n) y = (y = PAddr v n)"
| "py_eq (PNet n p) y = (y = PNet n p)"
| "py_eq (PNets xs) y = False"
| "py_eq (PVer v) y = ver_eq v y"

definition mem_eq :: "pyval \<Rightarrow> pyval list \<Rightarrow> bool" where
  "mem_eq x ys = list_ex (\<lambda>y. py_eq x y) ys"

section \<open>Truth, length, iteration\<close>

text \<open>\<open>bool(v)\<close>.\<close>

fun py_truth :: "pyval \<Rightarrow> bool" where
  "py_truth PNone = False"
| "py_truth (PBool b) = b"
| "py_truth (PInt i) = (i \<noteq> 0)"
| "py_truth (PFloat f) = (f \<noteq> Fin 0)"
| "py_truth (PStr s) = (s \<noteq> [])"
| "py_truth (PList xs) = (xs \<noteq> [])"
| "py_truth (PTuple xs) = (xs \<noteq> [])"
| "py_truth (PDict d) = (d \<noteq> [])"
| "py_truth (PDelta i) = (i \<noteq> 0)"
| "py_truth _ = True"

fun py_len :: "pyval \<Rightarrow> nat res" where
  "py_len (PStr s) = Inr (length s)"
| "py_len (PList xs) = Inr (length xs)"
| "py_len (PTuple xs) = Inr (length xs)"
| "py_len (PDict d) = Inr (length d)"
| "py_len _ = Inl TypeError"

text \<open>\<open>list(v)\<close>: a dictionary gives its keys, a network its addresses.\<close>

fun py_iter :: "pyval \<Rightarrow> pyval list res" where
  "py_iter (PStr s) = Inr (map (\<lambda>c. PStr [c]) s)"
| "py_iter (PList xs) = Inr xs"
| "py_iter (PTuple xs) = Inr xs"
| "py_iter (PDict d) = Inr (map PStr (dkeys d))"
| "py_iter (PNet n p) = Inr (map (\<lambda>i. PAddr 4 (n + i)) [0 ..< 2 ^ (32 - p)])"
| "py_iter _ = Inl TypeError"

text \<open>\<open>hash(v)\<close> exists; a version defines equality and no hash.\<close>

fun hashable :: "pyval \<Rightarrow> bool" where
  "hashable (PList xs) = False"
| "hashable (PDict d) = False"
| "hashable (PVer v) = False"
| "hashable (PTuple xs) = list_all hashable xs"
| "hashable _ = True"

text \<open>\<open>set(v)\<close>: one of each value, by equality; kept in order of first appearance.\<close>

fun dedup :: "pyval list \<Rightarrow> pyval list" where
  "dedup [] = []"
| "dedup (x # xs) = x # filter (\<lambda>y. \<not> py_eq x y) (dedup xs)"

definition py_set :: "pyval \<Rightarrow> pyval list res" where
  "py_set v = rbind (py_iter v) (\<lambda>xs. if list_all hashable xs then Inr (dedup xs) else Inl TypeError)"

text \<open>Equality and inclusion of sets, each as any list of its members.\<close>

definition same_set :: "pyval list \<Rightarrow> pyval list \<Rightarrow> bool" where
  "same_set xs ys \<longleftrightarrow> list_all (\<lambda>x. mem_eq x ys) xs \<and> list_all (\<lambda>y. mem_eq y xs) ys"

definition subset_of :: "pyval list \<Rightarrow> pyval list \<Rightarrow> bool" where
  "subset_of xs ys = list_all (\<lambda>x. mem_eq x ys) xs"

section \<open>Order\<close>

text \<open>
  \<open>None\<close> is Python's TypeError. Sequences compare at their first unequal elements, and
  networks by address and then prefix length; addresses of different versions do not
  compare.
\<close>

definition num_ord :: "pyval \<Rightarrow> pyval \<Rightarrow> ord3 option" where
  "num_ord x y = (case (num_of x, num_of y) of
      (Some a, Some b) \<Rightarrow> Some (float_ord a b)
    | _ \<Rightarrow> None)"

definition ver_ord :: "vcomp list option \<Rightarrow> vcomp list option \<Rightarrow> ord3 option" where
  "ver_ord v w = (case (v, w) of (Some a, Some b) \<Rightarrow> version_ord a b | _ \<Rightarrow> None)"

fun py_ord :: "pyval \<Rightarrow> pyval \<Rightarrow> ord3 option" and seq_ord :: "pyval list \<Rightarrow> pyval list \<Rightarrow> ord3 option" where
  "py_ord PNone y = None"
| "py_ord (PBool b) y = num_ord (PBool b) y"
| "py_ord (PInt i) y = num_ord (PInt i) y"
| "py_ord (PFloat f) y = num_ord (PFloat f) y"
| "py_ord (PStr s) y =
     (case y of PStr t \<Rightarrow> Some (ord_of s t) | PVer v \<Rightarrow> ver_ord (ver_of_str s) v | _ \<Rightarrow> None)"
| "py_ord (PList xs) y = (case y of PList ys \<Rightarrow> seq_ord xs ys | _ \<Rightarrow> None)"
| "py_ord (PTuple xs) y = (case y of PTuple ys \<Rightarrow> seq_ord xs ys | _ \<Rightarrow> None)"
| "py_ord (PDict d) y = None"
| "py_ord (PDate i) y = (case y of PDate j \<Rightarrow> Some (ord_of i j) | _ \<Rightarrow> None)"
| "py_ord (PDelta i) y = (case y of PDelta j \<Rightarrow> Some (ord_of i j) | _ \<Rightarrow> None)"
| "py_ord (PAddr v n) y =
     (case y of PAddr w m \<Rightarrow> if v = w then Some (ord_of n m) else None | _ \<Rightarrow> None)"
| "py_ord (PNet n p) y =
     (case y of PNet m q \<Rightarrow> Some (if n = m then ord_of p q else ord_of n m) | _ \<Rightarrow> None)"
| "py_ord (PNets xs) y = None"
| "py_ord (PVer v) y =
     (case y of PVer w \<Rightarrow> ver_ord v w | PStr s \<Rightarrow> ver_ord v (ver_of_str s) | _ \<Rightarrow> None)"
| "seq_ord [] [] = Some OEq"
| "seq_ord [] (y # ys) = Some OLt"
| "seq_ord (x # xs) [] = Some OGt"
| "seq_ord (x # xs) (y # ys) = (if py_eq x y then seq_ord xs ys else py_ord x y)"

text \<open>
  Comparing with a version that was never parsed reads its missing \<open>version\<close> attribute.
\<close>

definition unparsed :: "pyval \<Rightarrow> pyval \<Rightarrow> bool" where
  "unparsed x y = (case (x, y) of
      (PVer v, PVer w) \<Rightarrow> v = None \<or> w = None
    | (PVer v, PStr s) \<Rightarrow> v = None \<or> s = []
    | (PStr s, PVer v) \<Rightarrow> v = None \<or> s = []
    | _ \<Rightarrow> False)"

text \<open>\<open>x == y\<close> as it may raise.\<close>

definition py_eq_r :: "pyval \<Rightarrow> pyval \<Rightarrow> bool res" where
  "py_eq_r x y = (if unparsed x y then Inl AttributeError else Inr (py_eq x y))"

definition cmp_with :: "(ord3 \<Rightarrow> bool) \<Rightarrow> pyval \<Rightarrow> pyval \<Rightarrow> bool res" where
  "cmp_with p x y =
     (if unparsed x y then Inl AttributeError
      else case py_ord x y of None \<Rightarrow> Inl TypeError | Some r \<Rightarrow> Inr (p r))"

section \<open>Membership\<close>

text \<open>
  The network of a CIDR block with prefix length \<open>p\<close> has \<open>2 ^ (32 - p)\<close> addresses.
\<close>

definition net_size :: "nat \<Rightarrow> nat" where
  "net_size p = 2 ^ (32 - p)"

text \<open>
  \<open>IPv4Network.__contains__\<close> of \<open>c7n/utils.py\<close>: None is in no network; a network is in it
  when it is a subnet; an address when masking it gives the network's address.
\<close>

definition net_contains :: "nat \<Rightarrow> nat \<Rightarrow> pyval \<Rightarrow> bool res" where
  "net_contains n p x = (case x of
      PNone \<Rightarrow> Inr False
    | PNet m q \<Rightarrow> Inr (n \<le> m \<and> m + net_size q \<le> n + net_size p)
    | PAddr v m \<Rightarrow> Inr (v = 4 \<and> m div net_size p * net_size p = n)
    | _ \<Rightarrow> Inl AttributeError)"

text \<open>\<open>IPv4List.__contains__\<close>: in one of its networks, or equal to one of its addresses.\<close>

definition nets_contains :: "pyval list \<Rightarrow> pyval \<Rightarrow> bool res" where
  "nets_contains ys x =
     (if x = PNone then Inr False
      else rbind (rmap (\<lambda>y. case y of PNet n p \<Rightarrow> net_contains n p x | _ \<Rightarrow> Inr False) ys) (\<lambda>bs.
        Inr (list_ex id bs \<or> list_ex (\<lambda>y. case y of PAddr v n \<Rightarrow> v = 4 \<and> py_eq x y | _ \<Rightarrow> False) ys)))"

text \<open>\<open>x in y\<close>.\<close>

definition py_in :: "pyval \<Rightarrow> pyval \<Rightarrow> bool res" where
  "py_in x y = (case y of
      PStr s \<Rightarrow> (case x of PStr p \<Rightarrow> Inr (has_substr s p) | _ \<Rightarrow> Inl TypeError)
    | PList ys \<Rightarrow> Inr (mem_eq x ys)
    | PTuple ys \<Rightarrow> Inr (mem_eq x ys)
    | PDict d \<Rightarrow> if hashable x then Inr (mem_eq x (map PStr (dkeys d))) else Inl TypeError
    | PNet n p \<Rightarrow> net_contains n p x
    | PNets ys \<Rightarrow> nets_contains ys x
    | _ \<Rightarrow> Inl TypeError)"

section \<open>What is not in the repository\<close>

text \<open>
  The libraries and services the filters call, as one record of functions: the
  \<open>jmespath\<close> package (compile and search), regular expressions given by a policy
  (\<open>re.match\<close> with or without IGNORECASE, its first group, the number of groups or a
  compile error), \<open>dateutil.parser.parse\<close> followed by \<open>astimezone\<close>, IPv6 parsing of
  \<open>ipaddress\<close>, printf-style \<open>%\<close> on strings, \<open>str()\<close> of composite values and floats, the
  values a \<open>value_from\<close> block fetches, the clock, and \<open>DATE_FLOOR\<close>, which depends on the host's time zone.
\<close>

record ext =
  ext_jmes :: "string \<Rightarrow> pyval \<Rightarrow> pyval res"
  ext_re :: "bool \<Rightarrow> string \<Rightarrow> string \<Rightarrow> bool res"
  ext_re_group :: "string \<Rightarrow> string \<Rightarrow> string option res"
  ext_re_groups :: "string \<Rightarrow> nat option"
  ext_date :: "string \<Rightarrow> int option"
  ext_ip6 :: "string \<Rightarrow> nat option"
  ext_fmt :: "string \<Rightarrow> pyval \<Rightarrow> bool res"
  ext_str :: "pyval \<Rightarrow> string"
  ext_values :: "pyval \<Rightarrow> pyval res"
  ext_now :: int
  ext_date_floor :: rat

text \<open>A concrete one for examples: no expression finds anything, the clock is at \<open>t\<close>.\<close>

definition ext0 :: "int \<Rightarrow> ext" where
  "ext0 t = \<lparr>ext_jmes = (\<lambda>e v. Inr PNone), ext_re = (\<lambda>i p s. Inr (p = s)),
     ext_re_group = (\<lambda>p s. Inr None), ext_re_groups = (\<lambda>p. Some 0), ext_date = (\<lambda>s. None),
     ext_ip6 = (\<lambda>s. None), ext_fmt = (\<lambda>s v. Inl TypeError), ext_str = (\<lambda>v. []),
     ext_values = (\<lambda>v. Inl ExternalError),
     ext_now = t, ext_date_floor = 1142726400\<rparr>"

text \<open>\<open>str(v)\<close>.\<close>

definition py_str :: "ext \<Rightarrow> pyval \<Rightarrow> string" where
  "py_str E v = (case v of
      PNone \<Rightarrow> ''None''
    | PBool b \<Rightarrow> (if b then ''True'' else ''False'')
    | PInt i \<Rightarrow> str_of_int i
    | PStr s \<Rightarrow> s
    | _ \<Rightarrow> ext_str E v)"

section \<open>Lemmas\<close>

lemma py_eq_PStr [simp]: "py_eq (PStr a) (PStr b) \<longleftrightarrow> a = b"
  by simp

lemma py_eq_str_iff: "\<not> (\<exists>w. y = PVer w) \<Longrightarrow> py_eq (PStr a) y \<longleftrightarrow> y = PStr a"
  by (cases y) auto

lemma mem_eq_PStr: "mem_eq (PStr a) (map PStr ss) \<longleftrightarrow> a \<in> set ss"
  by (induction ss) (auto simp: mem_eq_def)

lemma py_in_dict [simp]: "py_in (PStr k) (PDict d) = Inr (dhas d k)"
  by (simp add: py_in_def mem_eq_PStr dhas_def)

end
