(* ===== verification/Operators.thy ===== *)
theory Operators
  imports PyVal
begin

text \<open>
  The operator table of \<open>c7n/filters/core.py\<close>, which every value filter dispatches
  through: each entry takes the resource's value and the policy's value.
\<close>

section \<open>The operators\<close>

definition glob_match :: "pyval \<Rightarrow> pyval \<Rightarrow> bool res" where
  "glob_match v p = (case v of
      PStr s \<Rightarrow> (case p of PStr q \<Rightarrow> Inr (fnmatch s q) | _ \<Rightarrow> Inl TypeError)
    | _ \<Rightarrow> Inr False)"

definition regex_match :: "ext \<Rightarrow> pyval \<Rightarrow> pyval \<Rightarrow> bool res" where
  "regex_match E v p = (case v of
      PStr s \<Rightarrow> (case p of PStr q \<Rightarrow> ext_re E True q s | _ \<Rightarrow> Inl TypeError)
    | _ \<Rightarrow> Inr False)"

definition regex_case_sensitive_match :: "ext \<Rightarrow> pyval \<Rightarrow> pyval \<Rightarrow> bool res" where
  "regex_case_sensitive_match E v p = (case v of
      PStr s \<Rightarrow> (case p of PStr q \<Rightarrow> ext_re E False q s | _ \<Rightarrow> Inl TypeError)
    | _ \<Rightarrow> Inr False)"

definition operator_in :: "pyval \<Rightarrow> pyval \<Rightarrow> bool res" where
  "operator_in x y = py_in x y"

definition operator_ni :: "pyval \<Rightarrow> pyval \<Rightarrow> bool res" where
  "operator_ni x y = rbind (py_in x y) (\<lambda>b. Inr (\<not> b))"

text \<open>
  \<open>set(x).difference(y)\<close> and \<open>set(x).intersection(y)\<close>: the second operand is any
  iterable of hashable values.
\<close>

definition hashed_iter :: "pyval \<Rightarrow> pyval list res" where
  "hashed_iter y = rbind (py_iter y) (\<lambda>ys. if list_all hashable ys then Inr ys else Inl TypeError)"

definition difference :: "pyval \<Rightarrow> pyval \<Rightarrow> bool res" where
  "difference x y = rbind (py_set x) (\<lambda>xs. rbind (hashed_iter y) (\<lambda>ys.
     Inr (filter (\<lambda>v. \<not> mem_eq v ys) xs \<noteq> [])))"

definition intersect :: "pyval \<Rightarrow> pyval \<Rightarrow> bool res" where
  "intersect x y = rbind (py_set x) (\<lambda>xs. rbind (hashed_iter y) (\<lambda>ys.
     Inr (filter (\<lambda>v. mem_eq v ys) xs \<noteq> [])))"

text \<open>The truth of \<open>x % y\<close>; on a string it is printf-style formatting.\<close>

fun float_mod_nonzero :: "pyfloat \<Rightarrow> pyfloat \<Rightarrow> bool res" where
  "float_mod_nonzero x (Fin b) =
     (if b = 0 then Inl ZeroDivisionError
      else case x of Fin a \<Rightarrow> Inr (a / b \<noteq> of_int \<lfloor>a / b\<rfloor>) | _ \<Rightarrow> Inr True)"
| "float_mod_nonzero x NaN = Inr True"
| "float_mod_nonzero x _ = (case x of Fin a \<Rightarrow> Inr (a \<noteq> 0) | _ \<Rightarrow> Inr True)"

definition mod_op :: "ext \<Rightarrow> pyval \<Rightarrow> pyval \<Rightarrow> bool res" where
  "mod_op E x y =
     (case (num_of x, num_of y) of
        (Some a, Some b) \<Rightarrow> float_mod_nonzero a b
      | _ \<Rightarrow> (case x of
          PStr s \<Rightarrow> ext_fmt E s y
        | PDelta a \<Rightarrow> (case y of
            PDelta b \<Rightarrow> if b = 0 then Inl ZeroDivisionError else Inr (a mod b \<noteq> 0)
          | _ \<Rightarrow> Inl TypeError)
        | _ \<Rightarrow> Inl TypeError))"

definition op_ne :: "pyval \<Rightarrow> pyval \<Rightarrow> bool res" where
  "op_ne x y = rbind (py_eq_r x y) (\<lambda>b. Inr (\<not> b))"

definition op_gt :: "pyval \<Rightarrow> pyval \<Rightarrow> bool res" where
  "op_gt = cmp_with (\<lambda>r. r = OGt)"

definition op_ge :: "pyval \<Rightarrow> pyval \<Rightarrow> bool res" where
  "op_ge = cmp_with (\<lambda>r. r = OGt \<or> r = OEq)"

definition op_lt :: "pyval \<Rightarrow> pyval \<Rightarrow> bool res" where
  "op_lt = cmp_with (\<lambda>r. r = OLt)"

definition op_le :: "pyval \<Rightarrow> pyval \<Rightarrow> bool res" where
  "op_le = cmp_with (\<lambda>r. r = OLt \<or> r = OEq)"

section \<open>The table\<close>

definition OPERATORS :: "ext \<Rightarrow> (string, pyval \<Rightarrow> pyval \<Rightarrow> bool res) odict" where
  "OPERATORS E =
    [(''eq'', py_eq_r),
     (''equal'', py_eq_r),
     (''ne'', op_ne),
     (''not-equal'', op_ne),
     (''gt'', op_gt),
     (''greater-than'', op_gt),
     (''ge'', op_ge),
     (''gte'', op_ge),
     (''le'', op_le),
     (''lte'', op_le),
     (''lt'', op_lt),
     (''less-than'', op_lt),
     (''glob'', glob_match),
     (''regex'', regex_match E),
     (''regex-case'', regex_case_sensitive_match E),
     (''in'', operator_in),
     (''ni'', operator_ni),
     (''not-in'', operator_ni),
     (''contains'', (\<lambda>x y. py_in y x)),
     (''difference'', difference),
     (''intersect'', intersect),
     (''mod'', mod_op E)]"

definition OPERATOR_NAMES :: "string list" where
  "OPERATOR_NAMES =
     [''eq'', ''equal'', ''ne'', ''not-equal'', ''gt'', ''greater-than'', ''ge'', ''gte'',
      ''le'', ''lte'', ''lt'', ''less-than'', ''glob'', ''regex'', ''regex-case'', ''in'', ''ni'',
      ''not-in'', ''contains'', ''difference'', ''intersect'', ''mod'']"

definition DURATION_OPERATORS :: "string list" where
  "DURATION_OPERATORS =
     [''eq'', ''equal'', ''ne'', ''not-equal'', ''gt'', ''greater-than'', ''ge'', ''gte'',
      ''le'', ''lte'', ''lt'', ''less-than'']"

text \<open>\<open>OPERATORS[op](x, y)\<close>.\<close>

definition apply_op :: "ext \<Rightarrow> string \<Rightarrow> pyval \<Rightarrow> pyval \<Rightarrow> bool res" where
  "apply_op E op x y = rbind (dindex (OPERATORS E) op) (\<lambda>f. f x y)"

section \<open>Lemmas\<close>

lemma OPERATORS_keys: "dkeys (OPERATORS E) = OPERATOR_NAMES"
  by (simp add: OPERATORS_def OPERATOR_NAMES_def)

lemma OPERATORS_Some: "op \<in> set OPERATOR_NAMES \<Longrightarrow> \<exists>f. dget (OPERATORS E) op = Some f"
  using dget_None_iff[of "OPERATORS E" op] by (auto simp: OPERATORS_keys)

lemma list_ex_filter: "filter P xs \<noteq> [] \<longleftrightarrow> (\<exists>x \<in> set xs. P x)"
  by (induction xs) auto

text \<open>
  On the durations, dates and other values with a total order the comparison operators
  are complements of each other.
\<close>

lemma cmp_complement:
  "py_ord x y = Some r \<Longrightarrow> r \<noteq> OUn \<Longrightarrow> \<not> unparsed x y \<Longrightarrow>
   op_le x y = rbind (op_gt x y) (\<lambda>b. Inr (\<not> b)) \<and>
   op_ge x y = rbind (op_lt x y) (\<lambda>b. Inr (\<not> b))"
  by (cases r) (auto simp: op_le_def op_gt_def op_ge_def op_lt_def cmp_with_def)

end
