(* ===== verification/Utils_Parse.thy ===== *)
theory Utils_Parse
  imports Operators
begin

text \<open>
  The parsers of \<open>c7n/utils.py\<close> that value filters convert their operands with: dates in
  their several serialisations, ISO 8601 durations, and IP addresses and CIDR blocks, with
  the parts of \<open>datetime\<close> and \<open>ipaddress\<close> they use.
\<close>

section \<open>Dates\<close>

text \<open>
  \<open>datetime.fromtimestamp\<close> of a float: microseconds, ties to even; years past 9999 raise
  ValueError, and past what the C library can split OverflowError (or OSError).
\<close>

definition fromtimestamp :: "pyfloat \<Rightarrow> int res" where
  "fromtimestamp f = (case f of
      Fin x \<Rightarrow> if x < 253402300800 then Inr (round_even (x * 1000000))
              else if x < 67768036191676800 then Inl ValueError
              else Inl OverflowError
    | NaN \<Rightarrow> Inl ValueError
    | _ \<Rightarrow> Inl OverflowError)"

text \<open>\<open>float(v)\<close> on an int, a bool, a float or a string.\<close>

definition as_float :: "pyval \<Rightarrow> pyfloat res" where
  "as_float v = (case v of
      PFloat f \<Rightarrow> Inr f
    | PBool b \<Rightarrow> Inr (Fin (if b then 1 else 0))
    | PInt i \<Rightarrow> (case round_double (of_int i) of Fin x \<Rightarrow> Inr (Fin x) | _ \<Rightarrow> Inl OverflowError)
    | PStr s \<Rightarrow> (case float_of_str s of None \<Rightarrow> Inl ValueError | Some f \<Rightarrow> Inr f)
    | _ \<Rightarrow> Inl TypeError)"

definition float_div :: "pyfloat \<Rightarrow> rat \<Rightarrow> pyfloat" where
  "float_div f d = (case f of Fin x \<Rightarrow> round_double (x / d) | _ \<Rightarrow> f)"

definition is_numeric_arg :: "pyval \<Rightarrow> bool" where
  "is_numeric_arg v = (case v of
      PInt i \<Rightarrow> True | PBool b \<Rightarrow> True | PFloat f \<Rightarrow> True | PStr s \<Rightarrow> True | _ \<Rightarrow> False)"

text \<open>
  One attempt to read \<open>v\<close> as an epoch in seconds (\<open>d = 1\<close>) or milliseconds
  (\<open>d = 1000\<close>); only ValueError is caught.
\<close>

definition epoch_step :: "ext \<Rightarrow> rat \<Rightarrow> pyval \<Rightarrow> pyval res" where
  "epoch_step E d v =
     (if \<not> is_numeric_arg v then Inr v
      else case as_float v of
        Inl e \<Rightarrow> (if e = ValueError then Inr v else Inl e)
      | Inr f \<Rightarrow>
          if float_ord f (Fin (ext_date_floor E)) = OGt then
            (case fromtimestamp (if d = 1 then f else float_div f d) of
               Inl e \<Rightarrow> (if e = ValueError then Inr v else Inl e)
             | Inr t \<Rightarrow> Inr (PDate t))
          else Inr v)"

definition parse_date :: "ext \<Rightarrow> pyval \<Rightarrow> pyval res" where
  "parse_date E v = (case v of
      PNone \<Rightarrow> Inr PNone
    | PDate t \<Rightarrow> Inr (PDate t)
    | _ \<Rightarrow>
      (case (case v of PStr s \<Rightarrow> if isdigit s then None else ext_date E s | _ \<Rightarrow> None) of
         Some t \<Rightarrow> Inr (PDate t)
       | None \<Rightarrow>
          rbind (epoch_step E 1 v) (\<lambda>w.
          rbind (epoch_step E 1000 w) (\<lambda>w.
          Inr (case w of PDate t \<Rightarrow> PDate t | _ \<Rightarrow> PNone)))))"

section \<open>Durations\<close>

text \<open>A number of the pattern: digits, and a fraction after a point or a comma.\<close>

definition num_tok :: "string \<Rightarrow> (string \<times> string) option" where
  "num_tok s =
     (let ds = takeWhile is_digit s; r = dropWhile is_digit s
      in if ds = [] then None
         else case r of
           c # r' \<Rightarrow>
             if (c = CHR ''.'' \<or> c = CHR '','') \<and> takeWhile is_digit r' \<noteq> []
             then Some (ds @ c # takeWhile is_digit r', dropWhile is_digit r')
             else Some (ds, r)
         | [] \<Rightarrow> Some (ds, r))"

text \<open>An optional group \<open>(?:(number)u)?\<close>.\<close>

definition unit_group :: "char \<Rightarrow> string \<Rightarrow> string option \<times> string" where
  "unit_group u s =
     (case num_tok s of
        Some (n, c # r) \<Rightarrow> if c = u then (Some n, r) else (None, s)
      | _ \<Rightarrow> (None, s))"

datatype dunit = Weeks | Days | Hours | Minutes | Seconds

text \<open>\<open>ISO_DURATION.fullmatch\<close>: the groups that took part, in the pattern's order.\<close>

definition iso_date_part :: "string \<Rightarrow> (dunit \<times> string option) list \<times> string" where
  "iso_date_part s =
     (let (w, r1) = unit_group CHR ''W'' s; (d, r2) = unit_group CHR ''D'' r1
      in ([(Weeks, w), (Days, d)], r2))"

definition iso_time_part :: "string \<Rightarrow> (dunit \<times> string option) list \<times> string" where
  "iso_time_part s =
     (let (h, r1) = unit_group CHR ''H'' s; (m, r2) = unit_group CHR ''M'' r1;
          (sec, r3) = unit_group CHR ''S'' r2
      in ([(Hours, h), (Minutes, m), (Seconds, sec)], r3))"

definition iso_duration :: "string \<Rightarrow> (dunit \<times> string option) list option" where
  "iso_duration s =
     (case s of [] \<Rightarrow> None
      | p # r \<Rightarrow>
          if p \<noteq> CHR ''P'' then None
          else
            (case iso_date_part r of (gs, rest) \<Rightarrow>
              (case rest of [] \<Rightarrow> Some gs
               | t # r' \<Rightarrow>
                  if t = CHR ''T'' \<and> r' \<noteq> [] \<and> is_digit (hd r') then
                    (case iso_time_part r' of (hs, rest') \<Rightarrow>
                      if rest' = [] then Some (gs @ hs) else None)
                  else None)))"

fun some_parts :: "('a \<times> 'b option) list \<Rightarrow> ('a \<times> 'b) list" where
  "some_parts [] = []"
| "some_parts ((u, None) # ps) = some_parts ps"
| "some_parts ((u, Some n) # ps) = (u, n) # some_parts ps"

fun unit_us :: "dunit \<Rightarrow> int" where
  "unit_us Weeks = 604800000000"
| "unit_us Days = 86400000000"
| "unit_us Hours = 3600000000"
| "unit_us Minutes = 60000000"
| "unit_us Seconds = 1000000"

text \<open>
  What one keyword of \<open>timedelta(weeks=.., days=..)\<close> adds: whole microseconds, and a
  left-over below one, as the constructor splits a float with \<open>modf\<close>. \<open>None\<close> is the
  OverflowError of an infinite number.
\<close>

definition unit_amount :: "dunit \<Rightarrow> string \<Rightarrow> (int \<times> rat) option" where
  "unit_amount u n =
     (case float_of_str (map (\<lambda>c. if c = CHR '','' then CHR ''.'' else c) n) of
        Some (Fin x) \<Rightarrow>
          (case round_double (of_int (unit_us u) * (x - of_int \<lfloor>x\<rfloor>)) of
             Fin y \<Rightarrow> Some (\<lfloor>x\<rfloor> * unit_us u + \<lfloor>y\<rfloor>, y - of_int \<lfloor>y\<rfloor>)
           | _ \<Rightarrow> None)
      | _ \<Rightarrow> None)"

fun sum_amounts :: "(dunit \<times> string) list \<Rightarrow> (int \<times> rat) option" where
  "sum_amounts [] = Some (0, 0)"
| "sum_amounts ((u, n) # ps) =
     (case (unit_amount u n, sum_amounts ps) of
        (Some (a, l), Some (b, m)) \<Rightarrow> Some (a + b, l + m)
      | _ \<Rightarrow> None)"

definition MAX_DELTA_DAYS :: int where
  "MAX_DELTA_DAYS = 999999999"

definition timedelta :: "(dunit \<times> string) list \<Rightarrow> int option" where
  "timedelta ps =
     (case sum_amounts ps of
        None \<Rightarrow> None
      | Some (us, l) \<Rightarrow>
          let t = round_even (of_int us + l)
          in if MAX_DELTA_DAYS < t div unit_us Days then None else Some t)"

definition has_sep :: "string \<Rightarrow> bool" where
  "has_sep n = (CHR ''.'' \<in> set n \<or> CHR '','' \<in> set n)"

definition duration_us :: "string \<Rightarrow> int option" where
  "duration_us s =
     (case iso_duration (strip s) of
        None \<Rightarrow> None
      | Some groups \<Rightarrow>
          let parts = some_parts groups
          in if parts = [] then None
             else if Weeks \<in> set (map fst parts) \<and> 1 < length parts then None
             else if list_ex has_sep (map snd (butlast parts)) then None
             else timedelta parts)"

definition parse_duration :: "pyval \<Rightarrow> pyval" where
  "parse_duration v = (case v of
      PStr s \<Rightarrow> (case duration_us s of None \<Rightarrow> PNone | Some t \<Rightarrow> PDelta t)
    | _ \<Rightarrow> PNone)"

text \<open>
  \<open>timedelta(v)\<close>: \<open>v\<close> days, an int or a float; anything but a number is a TypeError.
  A float's fraction is rounded to microseconds as above.
\<close>

definition rat_trunc :: "rat \<Rightarrow> int" where
  "rat_trunc x = (if 0 \<le> x then \<lfloor>x\<rfloor> else \<lceil>x\<rceil>)"

definition timedelta_days :: "pyval \<Rightarrow> int res" where
  "timedelta_days v =
     rbind (case v of
         PInt i \<Rightarrow> Inr (i * unit_us Days)
       | PBool b \<Rightarrow> Inr (if b then unit_us Days else 0)
       | PFloat (Fin x) \<Rightarrow>
           (case round_double (of_int (unit_us Days) * (x - of_int (rat_trunc x))) of
              Fin y \<Rightarrow> Inr (round_even (of_int (rat_trunc x * unit_us Days) + y))
            | _ \<Rightarrow> Inl OverflowError)
       | PFloat NaN \<Rightarrow> Inl ValueError
       | PFloat f \<Rightarrow> Inl OverflowError
       | _ \<Rightarrow> Inl TypeError)
     (\<lambda>t. if MAX_DELTA_DAYS < t div unit_us Days \<or> t div unit_us Days < - MAX_DELTA_DAYS
         then Inl OverflowError else Inr t)"

text \<open>A \<open>datetime\<close> lies in years 1 to 9999; leaving them is an OverflowError.\<close>

definition date_in_range :: "int \<Rightarrow> int res" where
  "date_in_range t =
     (if - 62135596800000000 \<le> t \<and> t < 253402300800000000 then Inr t else Inl OverflowError)"

section \<open>Addresses and networks\<close>

text \<open>\<open>ipaddress.IPv4Address\<close>: four decimal octets without leading zeros.\<close>

definition octet :: "string \<Rightarrow> nat option" where
  "octet s =
     (if isdigit s \<and> length s \<le> 3 \<and> \<not> (1 < length s \<and> hd s = CHR ''0'') \<and> nat_of_digits s \<le> 255
      then Some (nat_of_digits s) else None)"

definition ip4_parse :: "string \<Rightarrow> nat option" where
  "ip4_parse s =
     (case map octet (split_char CHR ''.'' s) of
        [Some a, Some b, Some c, Some d] \<Rightarrow> Some (((a * 256 + b) * 256 + c) * 256 + d)
      | _ \<Rightarrow> None)"

text \<open>The prefix length of a netmask given as an address, or of a host mask.\<close>

definition prefix_of_mask :: "nat \<Rightarrow> nat option" where
  "prefix_of_mask m = find (\<lambda>p. m = (2 ^ p - 1) * 2 ^ (32 - p)) [0 ..< 33]"

definition ip4_prefix :: "string \<Rightarrow> nat option" where
  "ip4_prefix s =
     (if isdigit s \<and> nat_of_digits s \<le> 32 then Some (nat_of_digits s)
      else case ip4_parse s of
        None \<Rightarrow> None
      | Some m \<Rightarrow>
          (case prefix_of_mask m of Some p \<Rightarrow> Some p | None \<Rightarrow> prefix_of_mask (2 ^ 32 - 1 - m)))"

text \<open>\<open>IPv4Network(s)\<close>, strict: bits below the prefix must be zero. \<open>None\<close>: ValueError.\<close>

definition net_parse :: "string \<Rightarrow> (nat \<times> nat) option" where
  "net_parse s =
     (case split_char CHR ''/'' s of
        [a, m] \<Rightarrow>
          (case (ip4_parse a, ip4_prefix m) of
             (Some n, Some p) \<Rightarrow> if n mod net_size p = 0 then Some (n, p) else None
           | _ \<Rightarrow> None)
      | _ \<Rightarrow> None)"

fun parse_cidr :: "ext \<Rightarrow> pyval \<Rightarrow> pyval res" where
  "parse_cidr E (PList xs) = rbind (rmap (parse_cidr E) xs) (\<lambda>ys. Inr (PNets ys))"
| "parse_cidr E (PStr s) =
     Inr (if CHR ''/'' \<in> set s then
            (case net_parse s of None \<Rightarrow> PNone | Some (n, p) \<Rightarrow> PNet n p)
          else
            (case ip4_parse s of Some n \<Rightarrow> PAddr 4 n
             | None \<Rightarrow> (case ext_ip6 E s of Some n \<Rightarrow> PAddr 6 n | None \<Rightarrow> PNone)))"
| "parse_cidr E (PTuple xs) = Inr PNone"
| "parse_cidr E (PDict d) = Inr PNone"
| "parse_cidr E (PNet n p) = Inl AttributeError"
| "parse_cidr E (PNets xs) = Inl AttributeError"
| "parse_cidr E _ = Inl TypeError"

section \<open>Lemmas on networks\<close>

lemma net_size_pos [simp]: "0 < net_size p"
  by (simp add: net_size_def)

lemma octet_bound: "octet s = Some n \<Longrightarrow> n \<le> 255"
  by (auto simp: octet_def split: if_splits)

lemma ip4_parse_bound: "ip4_parse s = Some n \<Longrightarrow> n < 2 ^ 32"
  by (auto simp: ip4_parse_def split: list.splits option.splits dest!: octet_bound)

lemma prefix_of_mask_bound: "prefix_of_mask m = Some p \<Longrightarrow> p \<le> 32"
  unfolding prefix_of_mask_def find_Some_iff by auto

lemma ip4_prefix_bound: "ip4_prefix s = Some p \<Longrightarrow> p \<le> 32"
  by (auto simp: ip4_prefix_def split: if_splits option.splits dest: prefix_of_mask_bound)

definition net_wf :: "nat \<Rightarrow> nat \<Rightarrow> bool" where
  "net_wf n p = (p \<le> 32 \<and> n < 2 ^ 32 \<and> n mod net_size p = 0)"

lemma net_parse_wf: "net_parse s = Some (n, p) \<Longrightarrow> net_wf n p"
  by (auto simp: net_parse_def net_wf_def split: list.splits option.splits if_splits
      dest: ip4_parse_bound ip4_prefix_bound)

lemma div_mult_self_iff:
  fixes m n k :: nat
  assumes "0 < k" "n mod k = 0"
  shows "m div k * k = n \<longleftrightarrow> n \<le> m \<and> m < n + k"
proof -
  obtain q where n: "n = q * k" using assms(2) by (metis dvd_def mod_eq_0_iff_dvd mult.commute)
  have "m div k = q \<longleftrightarrow> q * k \<le> m \<and> m < (q + 1) * k"
    using assms(1) div_nat_eqI[of k q m] dividend_less_div_times[of k m]
      div_times_less_eq_dividend[of m k]
    by (auto simp: algebra_simps)
  then show ?thesis using assms(1) by (auto simp: n algebra_simps)
qed

lemma net_contains_addr:
  "net_wf n p \<Longrightarrow> net_contains n p (PAddr 4 m) = Inr (n \<le> m \<and> m < n + net_size p)"
  by (simp add: net_contains_def net_wf_def div_mult_self_iff)

end
