(* ===== verification/Value_Filter.thy ===== *)
theory Value_Filter
  imports Utils_Parse
begin

text \<open>
  \<open>BaseValueFilter\<close>, \<open>NormalizeFilterTagKeys\<close>, \<open>ValueRegex\<close> and \<open>ValueFilter\<close> of
  \<open>c7n/filters/core.py\<close>: how a value is extracted from a resource, converted, and
  compared with what the policy asks for. A filter's configuration is its \<open>data\<close>
  dictionary; the attributes \<open>match\<close> sets on its first call are the state \<open>vstate\<close>.
\<close>

section \<open>Tag key transforms\<close>

definition transform_members :: "(string, string \<Rightarrow> string) odict" where
  "transform_members =
    [(''noop'', (\<lambda>v. v)),
     (''capitalize'', capitalize),
     (''lower'', lower),
     (''strip'', strip),
     (''title'', title),
     (''upper'', upper),
     (''nospaces'', remove_chars '' ''),
     (''nounderscores'', remove_chars ''_''),
     (''nodashes'', remove_chars ''-'')]"

definition is_not_valid_transform :: "string \<Rightarrow> bool" where
  "is_not_valid_transform t = (\<not> dhas transform_members t)"

text \<open>\<open>_combine\<close>: the functions in list order; \<open>reduce\<close> of an empty list is a TypeError.\<close>

fun combine :: "(string \<Rightarrow> string) list \<Rightarrow> (string \<Rightarrow> string) res" where
  "combine [] = Inl TypeError"
| "combine (f # fs) = Inr (foldl (\<lambda>g h. h \<circ> g) f fs)"

fun known_transforms :: "pyval list \<Rightarrow> (string \<Rightarrow> string) list" where
  "known_transforms [] = []"
| "known_transforms (t # ts) =
     (case t of
        PStr s \<Rightarrow> (case dget transform_members s of
                     Some f \<Rightarrow> f # known_transforms ts | None \<Rightarrow> known_transforms ts)
      | _ \<Rightarrow> known_transforms ts)"

definition transform_func_if_needed :: "pyval \<Rightarrow> (string \<Rightarrow> string) option res" where
  "transform_func_if_needed transforms =
     (if \<not> py_truth transforms then Inr None
      else rbind (py_iter transforms) (\<lambda>ts. rbind (combine (known_transforms ts)) (\<lambda>f. Inr (Some f))))"

text \<open>Tags whose key is missing or not a string are dropped when a transform is given.\<close>

fun normalize_aws_tags :: "(string \<Rightarrow> string) \<Rightarrow> pyval list \<Rightarrow> pyval list res" where
  "normalize_aws_tags f [] = Inr []"
| "normalize_aws_tags f (t # ts) =
     rbind (case t of
         PDict d \<Rightarrow>
           Inr (case (dget d ''Key'', dget d ''Value'') of
                  (Some (PStr k), Some v) \<Rightarrow> [PDict [(''Key'', PStr (f k)), (''Value'', v)]]
                | _ \<Rightarrow> [])
       | _ \<Rightarrow> Inl TypeError)
     (\<lambda>h. rbind (normalize_aws_tags f ts) (\<lambda>r. Inr (h @ r)))"

definition normalize_aws_tag_keys :: "pyval \<Rightarrow> (string \<Rightarrow> string) option \<Rightarrow> pyval list res" where
  "normalize_aws_tag_keys tags f =
     rbind (py_iter tags) (\<lambda>ts. case f of None \<Rightarrow> Inr ts | Some g \<Rightarrow> normalize_aws_tags g ts)"

definition normalize_tag_dict_keys :: "pydict \<Rightarrow> (string \<Rightarrow> string) option \<Rightarrow> pydict" where
  "normalize_tag_dict_keys tags f =
     (case f of None \<Rightarrow> tags | Some g \<Rightarrow> fold (\<lambda>(k, v). dput (g k) v) tags [])"

section \<open>Extracting a value\<close>

text \<open>\<open>ValueRegex.get_resource_value\<close>: a value that is not a string captures nothing.\<close>

definition value_regex_get :: "ext \<Rightarrow> string \<Rightarrow> pyval \<Rightarrow> pyval res" where
  "value_regex_get E rx v = (case v of
      PStr s \<Rightarrow> rbind (ext_re_group E rx s) (\<lambda>g. Inr (case g of None \<Rightarrow> PNone | Some t \<Rightarrow> PStr t))
    | _ \<Rightarrow> Inr PNone)"

text \<open>The first AWS style tag whose key is \<open>tk\<close>.\<close>

fun tag_value_of :: "string \<Rightarrow> pyval list \<Rightarrow> pyval res" where
  "tag_value_of tk [] = Inr PNone"
| "tag_value_of tk (t # ts) =
     (case t of
        PDict d \<Rightarrow> if py_eq (dget_or d ''Key'' PNone) (PStr tk) then Inr (dget_or d ''Value'' PNone)
                   else tag_value_of tk ts
      | _ \<Rightarrow> Inl AttributeError)"

definition as_dict :: "pyval \<Rightarrow> pydict res" where
  "as_dict v = (case v of PDict d \<Rightarrow> Inr d | _ \<Rightarrow> Inl AttributeError)"

definition get_tag_value :: "pyval \<Rightarrow> string \<Rightarrow> pydict \<Rightarrow> pyval res" where
  "get_tag_value transforms tk i =
     rbind (transform_func_if_needed transforms) (\<lambda>f.
       if dhas i ''Tags'' then
         rbind (normalize_aws_tag_keys (dget_or i ''Tags'' (PList [])) f) (tag_value_of tk)
       else if dhas i ''labels'' then
         rbind (as_dict (dget_or i ''labels'' (PDict []))) (\<lambda>d.
           Inr (dget_or (normalize_tag_dict_keys d f) tk PNone))
       else if dhas i ''tags'' then
         (let t = dget_or i ''tags'' (PDict [])
          in rbind (as_dict (if py_truth t then t else PDict [])) (\<lambda>d.
               Inr (dget_or (normalize_tag_dict_keys d f) tk PNone)))
       else Inr PNone)"

definition get_resource_value :: "ext \<Rightarrow> pydict \<Rightarrow> pyval \<Rightarrow> pyval \<Rightarrow> pydict \<Rightarrow> pyval res" where
  "get_resource_value E data rx kv i = (case kv of
      PStr k \<Rightarrow>
        rbind (if starts_with k ''tag:'' then
                 get_tag_value (dget_or data ''tag_key_transforms'' PNone) (drop 4 k) i
               else if dhas i k then Inr (dget_or i k PNone)
               else ext_jmes E k (PDict i))
          (\<lambda>r. case rx of
              PStr x \<Rightarrow> if x = [] then Inr r else value_regex_get E x r
            | _ \<Rightarrow> Inr r)
    | _ \<Rightarrow> Inl AttributeError)"

section \<open>Converting\<close>

text \<open>\<open>ComparableVersion(v)\<close>.\<close>

definition comparable_version :: "pyval \<Rightarrow> pyval res" where
  "comparable_version v =
     (if \<not> py_truth v then Inr (PVer None)
      else case v of PStr s \<Rightarrow> Inr (PVer (Some (version_parse s))) | _ \<Rightarrow> Inl TypeError)"

definition to_integer :: "ext \<Rightarrow> pyval \<Rightarrow> pyval" where
  "to_integer E v = PInt (case int_of_str (py_str E v) of None \<Rightarrow> 0 | Some i \<Rightarrow> i)"

definition to_float :: "ext \<Rightarrow> pyval \<Rightarrow> pyval" where
  "to_float E v = PFloat (case float_of_str (py_str E v) of None \<Rightarrow> Fin 0 | Some f \<Rightarrow> f)"

text \<open>\<open>len\<close> with TypeError read as 0.\<close>

definition size_or_zero :: "nat res \<Rightarrow> pyval res" where
  "size_or_zero r = (case r of
      Inr n \<Rightarrow> Inr (PInt (int n))
    | Inl e \<Rightarrow> if e = TypeError then Inr (PInt 0) else Inl e)"

text \<open>A number of days before (\<open>sgn = - 1\<close>) or after now, unless it is a date already.\<close>

definition shifted_now :: "ext \<Rightarrow> int \<Rightarrow> pyval \<Rightarrow> pyval res" where
  "shifted_now E s v = (case v of
      PDate t \<Rightarrow> Inr (PDate t)
    | _ \<Rightarrow> rbind (timedelta_days v) (\<lambda>d. rbind (date_in_range (ext_now E + s * d)) (\<lambda>t. Inr (PDate t))))"

definition date_or_zero :: "ext \<Rightarrow> pyval \<Rightarrow> pyval res" where
  "date_or_zero E v = rbind (parse_date E v) (\<lambda>d. Inr (if d = PNone then PInt 0 else d))"

text \<open>
  \<open>process_value_type\<close>: the pair of the policy's value (the sentinel) and the resource's
  value after conversion, in the order they are compared.
\<close>

definition process_value_type ::
  "ext \<Rightarrow> pydict \<Rightarrow> string \<Rightarrow> pyval \<Rightarrow> pyval \<Rightarrow> pydict \<Rightarrow> (pyval \<times> pyval) res" where
  "process_value_type E data vtype sentinel v resource =
     (if vtype = ''normalize'' \<and> is_str v then
        (case v of PStr s \<Rightarrow> Inr (sentinel, PStr (lower (strip s))) | _ \<Rightarrow> Inr (sentinel, v))
      else if vtype = ''expr'' then
        rbind (get_resource_value E data (dget_or data ''value_regex'' PNone) sentinel resource)
          (\<lambda>s. Inr (s, v))
      else if vtype = ''integer'' then Inr (sentinel, to_integer E v)
      else if vtype = ''float'' then Inr (sentinel, to_float E v)
      else if vtype = ''size'' then
        rbind (size_or_zero (py_len v)) (\<lambda>n. Inr (sentinel, n))
      else if vtype = ''unique_size'' then
        rbind (size_or_zero (rbind (py_set v) (\<lambda>xs. Inr (length xs)))) (\<lambda>n. Inr (sentinel, n))
      else if vtype = ''swap'' then Inr (v, sentinel)
      else if vtype = ''date'' then
        rbind (parse_date E sentinel) (\<lambda>s. rbind (parse_date E v) (\<lambda>d. Inr (s, d)))
      else if vtype = ''duration'' then Inr (parse_duration sentinel, parse_duration v)
      else if vtype = ''age'' then
        rbind (shifted_now E (- 1) sentinel) (\<lambda>s. rbind (date_or_zero E v) (\<lambda>d. Inr (d, s)))
      else if vtype = ''cidr'' then
        rbind (parse_cidr E sentinel) (\<lambda>s. rbind (parse_cidr E v) (\<lambda>w.
          Inr (case (s, w) of (PAddr a n, PNet m p) \<Rightarrow> (w, s) | _ \<Rightarrow> (s, w))))
      else if vtype = ''cidr_size'' then
        rbind (parse_cidr E v) (\<lambda>c. case c of
            PNet n p \<Rightarrow> Inr (sentinel, PInt (int p))
          | PNone \<Rightarrow> Inr (sentinel, PInt 0)
          | _ \<Rightarrow> Inl AttributeError)
      else if vtype = ''expiration'' then
        rbind (shifted_now E 1 sentinel) (\<lambda>s. rbind (date_or_zero E v) (\<lambda>d. Inr (s, d)))
      else if vtype = ''version'' then
        rbind (comparable_version sentinel) (\<lambda>s. rbind (comparable_version v) (\<lambda>w. Inr (s, w)))
      else Inr (sentinel, v))"

section \<open>Matching\<close>

text \<open>The comparison chain at the end of \<open>match\<close>; a TypeError of the operator is a mismatch.\<close>

definition op_result :: "bool res \<Rightarrow> bool res" where
  "op_result r = (case r of Inl e \<Rightarrow> if e = TypeError then Inr False else Inl e | Inr b \<Rightarrow> Inr b)"

definition value_match :: "ext \<Rightarrow> pyval \<Rightarrow> pyval \<Rightarrow> pyval \<Rightarrow> bool res" where
  "value_match E op v r =
     rbind (if r = PNone then py_eq_r v (PStr ''absent'') else py_eq_r v (PStr ''present'')) (\<lambda>b1.
       if b1 then Inr True else
     rbind (py_eq_r v (PStr ''not-null'')) (\<lambda>b2.
       if b2 \<and> py_truth r then Inr True else
     rbind (py_eq_r v (PStr ''empty'')) (\<lambda>b3.
       if b3 \<and> \<not> py_truth r then Inr True
       else if py_truth op then
         (case op of PStr o' \<Rightarrow> rbind (dindex (OPERATORS E) o') (\<lambda>f. op_result (f r v))
          | _ \<Rightarrow> Inl KeyError)
       else py_eq_r r v)))"

text \<open>The attributes \<open>k\<close>, \<open>v\<close>, \<open>op\<close>, \<open>vtype\<close> and \<open>content_initialized\<close> of a filter.\<close>

record vstate =
  vs_k :: pyval
  vs_v :: pyval
  vs_op :: pyval
  vs_vtype :: pyval
  vs_init :: bool

definition vstate0 :: vstate where
  "vstate0 = \<lparr>vs_k = PNone, vs_v = PNone, vs_op = PNone, vs_vtype = PNone, vs_init = False\<rparr>"

definition match_init :: "ext \<Rightarrow> pydict \<Rightarrow> vstate \<Rightarrow> vstate res" where
  "match_init E data s =
     (if vs_v s = PNone \<and> length data = 1 then
        Inr (s\<lparr>vs_k := PStr (fst (hd data)), vs_v := snd (hd data)\<rparr>)
      else if vs_v s = PNone \<and> \<not> vs_init s then
        rbind (case dget data ''value_from'' of
            Some src \<Rightarrow> ext_values E src
          | None \<Rightarrow> Inr (if dhas data ''value_path'' then PNone else dget_or data ''value'' PNone))
        (\<lambda>v. Inr (s\<lparr>vs_k := dget_or data ''key'' PNone, vs_op := dget_or data ''op'' PNone,
                    vs_v := v, vs_init := True, vs_vtype := dget_or data ''value_type'' PNone\<rparr>))
      else Inr s)"

text \<open>\<open>get_path_value\<close>: with a \<open>value_path\<close> the policy's value is read off the resource.\<close>

definition get_path_value :: "ext \<Rightarrow> pydict \<Rightarrow> pyval \<Rightarrow> pyval res" where
  "get_path_value E data i = (case dget_or data ''value_path'' PNone of
      PStr p \<Rightarrow> ext_jmes E p i
    | _ \<Rightarrow> Inl TypeError)"

definition match_path :: "ext \<Rightarrow> pydict \<Rightarrow> vstate \<Rightarrow> pyval \<Rightarrow> vstate res" where
  "match_path E data s i =
     (if dhas data ''value_path'' \<and> \<not> dhas data ''value_from'' then
        rbind (get_path_value E data i) (\<lambda>v. Inr (s\<lparr>vs_v := v\<rparr>))
      else Inr s)"

definition match_prep :: "ext \<Rightarrow> pydict \<Rightarrow> vstate \<Rightarrow> pyval \<Rightarrow> vstate res" where
  "match_prep E data s i = rbind (match_init E data s) (\<lambda>s1. match_path E data s1 i)"

text \<open>The rest of \<open>match\<close>, which reads the state and does not change it.\<close>

definition match_body :: "ext \<Rightarrow> pydict \<Rightarrow> vstate \<Rightarrow> pydict \<Rightarrow> bool res" where
  "match_body E data s i =
     rbind (get_resource_value E data (dget_or data ''value_regex'' PNone) (vs_k s) i) (\<lambda>r0.
     let r = (if r0 = PNone \<and> (vs_op s = PStr ''in'' \<or> vs_op s = PStr ''not-in'')
              then PTuple [] else r0)
     in if vs_vtype s \<noteq> PNone then
          rbind (process_value_type E data (case vs_vtype s of PStr t \<Rightarrow> t | _ \<Rightarrow> []) (vs_v s) r i)
            (\<lambda>(v, r'). if vs_vtype s = PStr ''duration'' \<and> r' = PNone then Inr False
                       else value_match E (vs_op s) v r')
        else value_match E (vs_op s) (vs_v s) r)"

definition vmatch :: "ext \<Rightarrow> pydict \<Rightarrow> vstate \<Rightarrow> pyval \<Rightarrow> (vstate \<times> bool) res" where
  "vmatch E data s i =
     rbind (match_prep E data s i) (\<lambda>s'.
       case i of
         PDict d \<Rightarrow> rbind (match_body E data s' d) (\<lambda>b. Inr (s', b))
       | _ \<Rightarrow> Inr (s', False))"

end
