(* ===== verification/Filter_Calls.thy ===== *)
theory Filter_Calls
  imports Value_Filter
begin

text \<open>
  How value filters are validated and run over a set of resources
  (\<open>c7n/filters/core.py\<close>). Resources are mutable dictionaries shared by every filter of a
  policy, so they live in a store, and a set of resources is a list of references into it.
  Filters write to a resource only under keys starting with \<open>c7n\<close>, its annotations.
\<close>

section \<open>The store and annotations\<close>

type_synonym ref = nat
type_synonym store = "ref \<Rightarrow> pydict"

definition ANNOTATION_KEY :: string where
  "ANNOTATION_KEY = ''c7n:MatchedFilters''"

definition is_annot :: "string \<Rightarrow> bool" where
  "is_annot k = starts_with k ''c7n''"

text \<open>A resource without its annotations, and the annotations alone.\<close>

definition bare :: "pydict \<Rightarrow> pydict" where
  "bare d = filter (\<lambda>(k, v). \<not> is_annot k) d"

definition annots :: "pydict \<Rightarrow> pydict" where
  "annots d = filter (\<lambda>(k, v). is_annot k) d"

text \<open>\<open>set_annotation\<close> of \<open>c7n/utils.py\<close> on a dictionary.\<close>

definition set_annotation :: "pydict \<Rightarrow> string \<Rightarrow> pyval \<Rightarrow> pydict" where
  "set_annotation i k v =
     (let vs = (case v of PList xs \<Rightarrow> xs | _ \<Rightarrow> [v])
      in case dget i k of
           Some (PList ev) \<Rightarrow> dput k (PList (ev @ vs)) i
         | Some _ \<Rightarrow> i
         | None \<Rightarrow> dput k (PList vs) i)"

section \<open>Running a value filter\<close>

definition is_resource_count :: "pydict \<Rightarrow> bool" where
  "is_resource_count data = (dget_or data ''value_type'' PNone = PStr ''resource_count'')"

text \<open>The comparison of a \<open>resource_count\<close> filter, on the number of resources.\<close>

definition count_check :: "ext \<Rightarrow> pydict \<Rightarrow> nat \<Rightarrow> bool res" where
  "count_check E data n = (case dget_or data ''op'' PNone of
      PStr op \<Rightarrow> rbind (dindex (OPERATORS E) op) (\<lambda>f. f (PInt (int n)) (dget_or data ''value'' PNone))
    | _ \<Rightarrow> Inl KeyError)"

text \<open>\<open>ValueFilter.__call__\<close> on one resource: a match is annotated with the filter's key.\<close>

definition vf_call ::
  "ext \<Rightarrow> pydict \<Rightarrow> bool \<Rightarrow> vstate \<Rightarrow> pydict \<Rightarrow> (vstate \<times> pydict \<times> bool) res" where
  "vf_call E data annotate s d =
     (if is_resource_count data then
        rbind (count_check E data (length d)) (\<lambda>b. Inr (s, d, b \<and> d \<noteq> []))
      else
        rbind (vmatch E data s (PDict d)) (\<lambda>(s', b).
          Inr (s', if b \<and> annotate then set_annotation d ANNOTATION_KEY (vs_k s') else d, b)))"

text \<open>\<open>Filter.process\<close>: \<open>list(filter(self, resources))\<close>.\<close>

fun vf_filter ::
  "ext \<Rightarrow> pydict \<Rightarrow> bool \<Rightarrow> vstate \<Rightarrow> store \<Rightarrow> ref list \<Rightarrow> (vstate \<times> store \<times> ref list) res" where
  "vf_filter E data annotate s st [] = Inr (s, st, [])"
| "vf_filter E data annotate s st (r # rs) =
     rbind (vf_call E data annotate s (st r)) (\<lambda>(s1, d, b).
     rbind (vf_filter E data annotate s1 (st(r := d)) rs) (\<lambda>(s2, st2, out).
       Inr (s2, st2, if b then r # out else out)))"

definition vf_process ::
  "ext \<Rightarrow> pydict \<Rightarrow> bool \<Rightarrow> vstate \<Rightarrow> store \<Rightarrow> ref list \<Rightarrow> (vstate \<times> store \<times> ref list) res" where
  "vf_process E data annotate s st rs =
     (if is_resource_count data then
        rbind (count_check E data (length rs)) (\<lambda>b. Inr (s, st, if b then rs else []))
      else vf_filter E data annotate s st rs)"

text \<open>
  \<open>EventFilter.process\<close>: the event is the resource that is matched (and annotated); the
  set of resources is kept or dropped as a whole. Without an event everything is kept.
\<close>

definition event_process ::
  "ext \<Rightarrow> pydict \<Rightarrow> vstate \<Rightarrow> pydict option \<Rightarrow> ref list \<Rightarrow> (vstate \<times> pydict option \<times> ref list) res" where
  "event_process E data s ev rs = (case ev of
      None \<Rightarrow> Inr (s, None, rs)
    | Some e \<Rightarrow> rbind (vf_call E data True s e) (\<lambda>(s', e', b). Inr (s', Some e', if b then rs else [])))"

section \<open>Validation\<close>

definition require :: "bool \<Rightarrow> unit res" where
  "require b = (if b then Inr () else Inl PolicyValidationError)"

definition data_op_in :: "pyval \<Rightarrow> string list \<Rightarrow> bool" where
  "data_op_in v names = (case v of PStr s \<Rightarrow> s \<in> set names | _ \<Rightarrow> False)"

definition validate_resource_count :: "pydict \<Rightarrow> unit res" where
  "validate_resource_count data =
     rbind (require (dhas data ''op'')) (\<lambda>_.
     rbind (require (dhas data ''value'')) (\<lambda>_.
     rbind (require (is_int (dget_or data ''value'' PNone) \<or> is_list (dget_or data ''value'' PNone))) (\<lambda>_.
       require (data_op_in (dget_or data ''op'' PNone) OPERATOR_NAMES \<and>
                \<not> data_op_in (dget_or data ''op'' PNone) [''regex'', ''regex-case''] \<and>
                \<not> dhas data ''value_regex''))))"

text \<open>\<open>_validate_value_regex\<close>: it compiles and has exactly one group.\<close>

definition validate_value_regex :: "ext \<Rightarrow> pyval \<Rightarrow> unit res" where
  "validate_value_regex E v = (case v of
      PStr rx \<Rightarrow> require (ext_re_groups E rx = Some 1)
    | _ \<Rightarrow> Inl TypeError)"

text \<open>\<open>_validate_tag_key_transforms\<close>.\<close>

definition validate_tag_key_transforms :: "pyval \<Rightarrow> unit res" where
  "validate_tag_key_transforms ts =
     (if \<not> py_truth ts then Inr ()
      else rbind (py_iter ts) (\<lambda>xs.
        require (list_all (\<lambda>t. case t of PStr s \<Rightarrow> \<not> is_not_valid_transform s | _ \<Rightarrow> False) xs)))"

text \<open>The checks of \<open>validate\<close> for the value types \<open>date\<close> and \<open>duration\<close>.\<close>

definition validate_value_type :: "ext \<Rightarrow> pydict \<Rightarrow> unit res" where
  "validate_value_type E data =
     (let vt = dget_or data ''value_type'' PNone in
      if vt = PStr ''date'' then
        rbind (parse_date E (dget_or data ''value'' PNone)) (\<lambda>d. require (py_truth d))
      else if vt = PStr ''duration'' then
        rbind (require (dhas data ''op'' \<longrightarrow> data_op_in (dget_or data ''op'' PNone) DURATION_OPERATORS)) (\<lambda>_.
        rbind (require (dhas data ''value'' \<and> \<not> dhas data ''value_from'' \<and> \<not> dhas data ''value_path'')) (\<lambda>_.
          require (parse_duration (dget_or data ''value'' PNone) \<noteq> PNone)))
      else Inr ())"

definition validate_op :: "ext \<Rightarrow> pydict \<Rightarrow> unit res" where
  "validate_op E data =
     (if \<not> dhas data ''op'' then Inr ()
      else rbind (require (data_op_in (dget_or data ''op'' PNone) OPERATOR_NAMES)) (\<lambda>_.
        if data_op_in (dget_or data ''op'' PNone) [''regex'', ''regex-case''] then
          rbind (dindex data ''value'') (\<lambda>v. case v of
              PStr p \<Rightarrow> require (ext_re_groups E p \<noteq> None)
            | _ \<Rightarrow> Inl TypeError)
        else Inr ()))"

text \<open>\<open>ValueFilter.validate\<close>, with \<open>required_keys = {'value', 'key'}\<close>.\<close>

definition vf_validate :: "ext \<Rightarrow> pydict \<Rightarrow> unit res" where
  "vf_validate E data =
     (if length data = 1 then Inr ()
      else if is_resource_count data then validate_resource_count data
      else
        rbind (validate_value_type E data) (\<lambda>_.
        rbind (require (dhas data ''key'')) (\<lambda>_.
        rbind (require (dhas data ''value'' \<or> dhas data ''value_from'' \<or> dhas data ''value_path'')) (\<lambda>_.
        rbind (validate_op E data) (\<lambda>_.
        rbind (if dhas data ''tag_key_transforms''
               then validate_tag_key_transforms (dget_or data ''tag_key_transforms'' PNone)
               else Inr ()) (\<lambda>_.
          if dhas data ''value_regex''
          then validate_value_regex E (dget_or data ''value_regex'' PNone)
          else Inr ()))))))"

section \<open>The age filter\<close>

text \<open>
  \<open>AgeFilter.__call__\<close>: the threshold date is computed at the first call and kept. The
  resource's date attribute is read with \<open>dateutil\<close> when it is a string.
\<close>

definition get_resource_date :: "ext \<Rightarrow> string \<Rightarrow> pydict \<Rightarrow> int res" where
  "get_resource_date E attr i = rbind (dindex i attr) (\<lambda>v. case v of
      PDate t \<Rightarrow> Inr t
    | PStr s \<Rightarrow> (case ext_date E s of Some t \<Rightarrow> Inr t | None \<Rightarrow> Inl ValueError)
    | _ \<Rightarrow> Inl TypeError)"

definition age_threshold :: "ext \<Rightarrow> int \<Rightarrow> int \<Rightarrow> int \<Rightarrow> int" where
  "age_threshold E days hours minutes =
     ext_now E - (days * unit_us Days + hours * unit_us Hours + minutes * unit_us Minutes)"

definition age_call ::
  "ext \<Rightarrow> string \<Rightarrow> string \<Rightarrow> int \<Rightarrow> int \<Rightarrow> int \<Rightarrow> int option \<Rightarrow> pydict \<Rightarrow> (int option \<times> bool) res" where
  "age_call E attr op days hours minutes th i =
     rbind (get_resource_date E attr i) (\<lambda>v.
     rbind (dindex (OPERATORS E) op) (\<lambda>f.
       let t = (case th of Some t \<Rightarrow> t | None \<Rightarrow> age_threshold E days hours minutes)
       in rbind (f (PDate t) (PDate v)) (\<lambda>b. Inr (Some t, b))))"

section \<open>Lemmas\<close>

lemma bare_Nil [simp]: "bare [] = []"
  by (simp add: bare_def)

lemma bare_Cons: "bare ((k, v) # d) = (if is_annot k then bare d else (k, v) # bare d)"
  by (simp add: bare_def)

lemma bare_dput_annot [simp]: "is_annot k \<Longrightarrow> bare (dput k v d) = bare d"
  by (induction k v d rule: dput.induct) (auto simp: bare_Cons)

lemma is_annot_ANNOTATION_KEY [simp]: "is_annot ANNOTATION_KEY"
  by (simp add: is_annot_def ANNOTATION_KEY_def)

lemma bare_set_annotation [simp]: "is_annot k \<Longrightarrow> bare (set_annotation d k v) = bare d"
  by (auto simp: set_annotation_def Let_def split: option.splits pyval.splits)

lemma dget_bare: "\<not> is_annot k \<Longrightarrow> dget (bare d) k = dget d k"
  by (induction d) (auto simp: bare_Cons)

lemma dget_or_bare: "\<not> is_annot k \<Longrightarrow> dget_or (bare d) k v = dget_or d k v"
  by (simp add: dget_or_def dget_bare)

lemma dhas_bare: "\<not> is_annot k \<Longrightarrow> dhas (bare d) k = dhas d k"
  by (simp add: dhas_dget dget_bare)

lemma dwf_set_annotation [simp]: "dwf d \<Longrightarrow> dwf (set_annotation d k v)"
  by (auto simp: set_annotation_def Let_def split: option.splits pyval.splits)

lemma require_Inr [res_simps]: "require b = Inr u \<longleftrightarrow> b"
  by (simp add: require_def)

text \<open>
  A second call prepares the same configuration as a first one, whatever the resource of
  the calls in between was.
\<close>

lemma match_prep_again:
  assumes "match_prep E data vstate0 i = Inr s"
  shows "match_prep E data s j = match_prep E data vstate0 j"
proof -
  from assms obtain s1 where s1: "match_init E data vstate0 = Inr s1"
    and s: "match_path E data s1 i = Inr s"
    by (auto simp: match_prep_def rbind_eq_Inr)
  have form: "s = s1 \<or> (\<exists>w. s = s1\<lparr>vs_v := w\<rparr> \<and> dhas data ''value_path'' \<and> \<not> dhas data ''value_from'')"
    using s by (auto simp: match_path_def rbind_eq_Inr split: if_splits)
  have again: "match_init E data s = Inr s \<or> match_init E data s = Inr (s1\<lparr>vs_v := vs_v s1\<rparr>)"
    using s1 form
    by (auto simp: match_init_def vstate0_def rbind_eq_Inr split: if_splits)
  have same: "match_path E data (s1\<lparr>vs_v := w\<rparr>) j = match_path E data s1 j"
    if "dhas data ''value_path'' \<and> \<not> dhas data ''value_from''" for w
    using that by (simp add: match_path_def)
  show ?thesis
    using again form same by (auto simp: match_prep_def s1)
qed

end
