(* ===== verification/Blocks.thy ===== *)
theory Blocks
  imports Filter_Calls
begin

text \<open>
  The boolean blocks of \<open>c7n/filters/core.py\<close>: \<open>or\<close>, \<open>and\<close>, \<open>not\<close> over sets of resources,
  with the sweeper that takes back the annotations of a block that did not match. The
  members of a block are other filters, behind the interface \<open>leaf_filter\<close>; that a
  tree of blocks selects exactly what its boolean reading says is proved over it.
\<close>

section \<open>The world filters act on\<close>

text \<open>
  The resources, the event (filters may annotate it), and the attributes of the filter
  objects, which are numbered.
\<close>

record world =
  wstore :: store
  wevent :: "pydict option"
  wstates :: "nat \<Rightarrow> vstate"

datatype 'f ftree = Leaf 'f | Or "'f ftree list" | And "'f ftree list" | Not "'f ftree list"

section \<open>Resource ids\<close>

text \<open>
  Ids are keys of Python dictionaries and sets; the ones resource models use are strings,
  ints (list items) and the None a path expression gives. Other values are refused.
\<close>

datatype rid = IdStr string | IdInt int | IdNone

definition rid_of :: "pyval \<Rightarrow> rid res" where
  "rid_of v = (case v of
      PStr s \<Rightarrow> Inr (IdStr s) | PInt i \<Rightarrow> Inr (IdInt i) | PNone \<Rightarrow> Inr IdNone | _ \<Rightarrow> Inl TypeError)"

definition get_rid :: "ext \<Rightarrow> string \<Rightarrow> pydict \<Rightarrow> rid res" where
  "get_rid E key d =
     rbind (if CHR ''.'' \<in> set key then ext_jmes E key (PDict d) else dindex d key) rid_of"

text \<open>\<open>{r[rtype_id]: r for r in resources}\<close>: the last resource with an id wins.\<close>

fun resource_map :: "ext \<Rightarrow> string \<Rightarrow> store \<Rightarrow> ref list \<Rightarrow> (rid, ref) odict \<Rightarrow> (rid, ref) odict res" where
  "resource_map E key st [] m = Inr m"
| "resource_map E key st (r # rs) m =
     rbind (get_rid E key (st r)) (\<lambda>i. resource_map E key st rs (dput i r m))"

section \<open>The annotation sweeper\<close>

text \<open>\<open>AnnotationSweeper\<close>: a copy of each resource's annotations, and the resource, by id.\<close>

record sweeper =
  ra_map :: "(rid, pydict) odict"
  sw_map :: "(rid, ref) odict"

fun sweeper_init :: "ext \<Rightarrow> string \<Rightarrow> store \<Rightarrow> ref list \<Rightarrow> sweeper \<Rightarrow> sweeper res" where
  "sweeper_init E key st [] sw = Inr sw"
| "sweeper_init E key st (r # rs) sw =
     rbind (get_rid E key (st r)) (\<lambda>i.
       sweeper_init E key st rs
         (sw\<lparr>ra_map := dput i (annots (st r)) (ra_map sw), sw_map := dput i r (sw_map sw)\<rparr>))"

definition sweeper0 :: sweeper where
  "sweeper0 = \<lparr>ra_map = [], sw_map = []\<rparr>"

text \<open>Clear the annotations and restore the saved ones.\<close>

definition restore :: "pydict \<Rightarrow> pydict \<Rightarrow> pydict" where
  "restore d saved = dupdate (bare d) saved"

fun sweep_ids :: "sweeper \<Rightarrow> rid list \<Rightarrow> store \<Rightarrow> store res" where
  "sweep_ids sw [] st = Inr st"
| "sweep_ids sw (i # is) st =
     rbind (dindex (sw_map sw) i) (\<lambda>r. rbind (dindex (ra_map sw) i) (\<lambda>saved.
       sweep_ids sw is (st(r := restore (st r) saved))))"

definition sweep :: "ext \<Rightarrow> string \<Rightarrow> sweeper \<Rightarrow> ref list \<Rightarrow> store \<Rightarrow> store res" where
  "sweep E key sw rs st =
     rbind (rmap (\<lambda>r. get_rid E key (st r)) rs) (\<lambda>ids.
       sweep_ids sw (filter (\<lambda>i. i \<notin> set ids) (dkeys (ra_map sw))) st)"

section \<open>Processing a block\<close>

text \<open>
  \<open>leaf\<close> runs a member that is not a block. The result of \<open>or\<close> and \<open>not\<close> is built from a
  Python set, whose iteration order is the parameter \<open>order\<close>.
\<close>

type_synonym 'f leafp = "'f \<Rightarrow> world \<Rightarrow> ref list \<Rightarrow> (world \<times> ref list) res"

fun process :: "'f leafp \<Rightarrow> ext \<Rightarrow> string \<Rightarrow> (rid list \<Rightarrow> rid list) \<Rightarrow>
      'f ftree \<Rightarrow> world \<Rightarrow> ref list \<Rightarrow> (world \<times> ref list) res"
  and and_loop :: "'f leafp \<Rightarrow> ext \<Rightarrow> string \<Rightarrow> (rid list \<Rightarrow> rid list) \<Rightarrow>
      'f ftree list \<Rightarrow> world \<Rightarrow> ref list \<Rightarrow> (world \<times> ref list) res"
  and or_loop :: "'f leafp \<Rightarrow> ext \<Rightarrow> string \<Rightarrow> (rid list \<Rightarrow> rid list) \<Rightarrow>
      'f ftree list \<Rightarrow> world \<Rightarrow> ref list \<Rightarrow> rid list \<Rightarrow> (world \<times> rid list) res" where
  "process leaf E key order (Leaf f) w rs = leaf f w rs"
| "process leaf E key order (Or fs) w rs =
     rbind (resource_map E key (wstore w) rs []) (\<lambda>m.
     rbind (or_loop leaf E key order fs w rs []) (\<lambda>(w1, results).
     rbind (rmap (dindex m) (order results)) (\<lambda>out.
       Inr (w1, out))))"
| "process leaf E key order (And fs) w rs =
     rbind (sweeper_init E key (wstore w) rs sweeper0) (\<lambda>sw.
     rbind (and_loop leaf E key order fs w rs) (\<lambda>(w1, out).
     rbind (sweep E key sw out (wstore w1)) (\<lambda>st.
       Inr (w1\<lparr>wstore := st\<rparr>, out))))"
| "process leaf E key order (Not fs) w rs =
     rbind (resource_map E key (wstore w) rs []) (\<lambda>m.
     rbind (sweeper_init E key (wstore w) rs sweeper0) (\<lambda>sw.
     rbind (and_loop leaf E key order fs w rs) (\<lambda>(w1, kept).
     rbind (rmap (\<lambda>r. get_rid E key (wstore w1 r)) kept) (\<lambda>after.
     rbind (sweep E key sw [] (wstore w1)) (\<lambda>st.
     rbind (rmap (dindex m) (order (filter (\<lambda>i. i \<notin> set after) (dkeys m)))) (\<lambda>out.
       Inr (w1\<lparr>wstore := st\<rparr>, out)))))))"
| "and_loop leaf E key order [] w rs = Inr (w, rs)"
| "and_loop leaf E key order (f # fs) w rs =
     rbind (process leaf E key order f w rs) (\<lambda>(w1, out).
       if out = [] then Inr (w1, []) else and_loop leaf E key order fs w1 out)"
| "or_loop leaf E key order [] w rs acc = Inr (w, acc)"
| "or_loop leaf E key order (f # fs) w rs acc =
     rbind (process leaf E key order f w rs) (\<lambda>(w1, out).
     rbind (rmap (\<lambda>r. get_rid E key (wstore w1 r)) out) (\<lambda>ids.
       or_loop leaf E key order fs w1 rs (remdups (acc @ ids))))"

section \<open>The reading of a tree\<close>

text \<open>The boolean formula a tree stands for.\<close>

fun feval :: "('f \<Rightarrow> bool) \<Rightarrow> 'f ftree \<Rightarrow> bool" where
  "feval v (Leaf f) = v f"
| "feval v (Or fs) = list_ex (feval v) fs"
| "feval v (And fs) = list_all (feval v) fs"
| "feval v (Not fs) = (\<not> list_all (feval v) fs)"

fun leaves :: "'f ftree \<Rightarrow> 'f list" where
  "leaves (Leaf f) = [f]"
| "leaves (Or fs) = concat (map leaves fs)"
| "leaves (And fs) = concat (map leaves fs)"
| "leaves (Not fs) = concat (map leaves fs)"

section \<open>Lemmas on ids and sweeping\<close>

text \<open>Two stores that agree on everything but annotations.\<close>

definition same_bare :: "store \<Rightarrow> store \<Rightarrow> bool" where
  "same_bare st st' = (\<forall>r. bare (st' r) = bare (st r))"

lemma same_bare_refl [simp]: "same_bare st st"
  by (simp add: same_bare_def)

lemma same_bare_trans: "same_bare a b \<Longrightarrow> same_bare b c \<Longrightarrow> same_bare a c"
  by (simp add: same_bare_def)

text \<open>Ids that annotations do not change, as for every id key not starting with \<open>c7n\<close>.\<close>

definition stable_id :: "ext \<Rightarrow> string \<Rightarrow> bool" where
  "stable_id E key = (\<forall>d. get_rid E key (bare d) = get_rid E key d)"

lemma stable_id_plain: "\<not> is_annot key \<Longrightarrow> CHR ''.'' \<notin> set key \<Longrightarrow> stable_id E key"
  by (simp add: stable_id_def get_rid_def dindex_def dget_bare)

lemma get_rid_same_bare:
  "stable_id E key \<Longrightarrow> same_bare st st' \<Longrightarrow> get_rid E key (st' r) = get_rid E key (st r)"
  by (metis same_bare_def stable_id_def)

text \<open>The ids of the resources exist and are pairwise different.\<close>

definition unique_ids :: "ext \<Rightarrow> string \<Rightarrow> store \<Rightarrow> ref list \<Rightarrow> (ref \<Rightarrow> rid) \<Rightarrow> bool" where
  "unique_ids E key st rs f =
     ((\<forall>r \<in> set rs. get_rid E key (st r) = Inr (f r)) \<and> inj_on f (set rs))"

lemma unique_ids_same_bare:
  "stable_id E key \<Longrightarrow> same_bare st st' \<Longrightarrow> unique_ids E key st rs f \<Longrightarrow> unique_ids E key st' rs f"
  by (simp add: unique_ids_def get_rid_same_bare)

lemma unique_ids_subset:
  "unique_ids E key st rs f \<Longrightarrow> set ss \<subseteq> set rs \<Longrightarrow> unique_ids E key st ss f"
  by (auto simp: unique_ids_def intro: inj_on_subset)

lemma bare_annots [simp]: "bare (annots d) = []"
  by (auto simp: bare_def annots_def filter_empty_conv)

lemma bare_bare [simp]: "bare (bare d) = bare d"
  by (simp add: bare_def)

lemma annots_all: "k \<in> set (dkeys (annots d)) \<Longrightarrow> is_annot k"
  by (auto simp: annots_def dkeys_def)

lemma bare_dupdate_annots:
  "(\<And>k. k \<in> set (dkeys e) \<Longrightarrow> is_annot k) \<Longrightarrow> bare (dupdate d e) = bare d"
proof (induction e arbitrary: d)
  case (Cons p e)
  then show ?case by (cases p) auto
qed simp

lemma bare_restore [simp]: "bare (restore d (annots e)) = bare d"
  by (simp add: restore_def bare_dupdate_annots annots_all)

lemma dget_filter_key:
  "dget (filter (\<lambda>(k, v). P k) d) x = (if P x then dget d x else None)"
  by (induction d) auto

lemma dwf_filter: "dwf d \<Longrightarrow> dwf (filter P d)"
  unfolding dwf_def dkeys_def by (induction d) auto

lemma dget_restore:
  assumes "dwf d" "bare d' = bare d"
  shows "dget (restore d' (annots d)) = dget d"
proof -
  have "dwf (annots d)" using assms(1) by (simp add: annots_def dwf_filter)
  then have "dget (restore d' (annots d)) = dget (bare d) ++ dget (annots d)"
    by (simp add: restore_def dget_dupdate assms(2))
  then show ?thesis
    by (auto simp: fun_eq_iff map_add_def bare_def annots_def dget_filter_key split: option.splits)
qed

end
