(* ===== verification/Block_Facts.thy ===== *)
theory Block_Facts
  imports Blocks
begin

text \<open>
  The contract of the members of a block, \<open>leaf_filter\<close>, and what follows from it for
  every tree of blocks: the selected set is the boolean reading, resources change in their
  annotations only, and the sweeper restores the annotations of a resource that an
  \<open>and\<close> rejects and of every resource of a \<open>not\<close>.
\<close>

section \<open>Maps built over resources with unique ids\<close>

definition ids_map :: "(ref \<Rightarrow> rid) \<Rightarrow> (ref \<Rightarrow> 'v) \<Rightarrow> ref list \<Rightarrow> (rid, 'v) odict \<Rightarrow> (rid, 'v) odict" where
  "ids_map f g rs m = fold (\<lambda>r. dput (f r) (g r)) rs m"

lemma ids_map_simps [simp]:
  "ids_map f g [] m = m"
  "ids_map f g (r # rs) m = ids_map f g rs (dput (f r) (g r) m)"
  by (simp_all add: ids_map_def)

lemma ids_map_other: "i \<notin> f ` set rs \<Longrightarrow> dget (ids_map f g rs m) i = dget m i"
  by (induction rs arbitrary: m) auto

lemma ids_map_get:
  "inj_on f (set rs) \<Longrightarrow> r \<in> set rs \<Longrightarrow> dget (ids_map f g rs m) (f r) = Some (g r)"
proof (induction rs arbitrary: m)
  case (Cons a rs)
  show ?case
  proof (cases "r \<in> set rs")
    case True
    with Cons show ?thesis by auto
  next
    case False
    with Cons.prems have "r = a" and "f a \<notin> f ` set rs" by (auto simp: inj_on_def)
    then show ?thesis by (simp add: ids_map_other)
  qed
qed simp

lemma ids_map_keys: "set (dkeys (ids_map f g rs m)) = set (dkeys m) \<union> f ` set rs"
  by (induction rs arbitrary: m) auto

lemma ids_map_dwf [simp]: "dwf m \<Longrightarrow> dwf (ids_map f g rs m)"
  by (induction rs arbitrary: m) auto

lemma resource_map_eq:
  "(\<forall>r \<in> set rs. get_rid E key (st r) = Inr (f r)) \<Longrightarrow>
   resource_map E key st rs m = Inr (ids_map f id rs m)"
  by (induction rs arbitrary: m) auto

lemma sweeper_init_eq:
  "(\<forall>r \<in> set rs. get_rid E key (st r) = Inr (f r)) \<Longrightarrow>
   sweeper_init E key st rs sw =
     Inr \<lparr>ra_map = ids_map f (\<lambda>r. annots (st r)) rs (ra_map sw), sw_map = ids_map f id rs (sw_map sw)\<rparr>"
  by (induction rs arbitrary: sw) auto

definition sweeper_of :: "(ref \<Rightarrow> rid) \<Rightarrow> store \<Rightarrow> ref list \<Rightarrow> sweeper" where
  "sweeper_of f st rs = \<lparr>ra_map = ids_map f (\<lambda>r. annots (st r)) rs [], sw_map = ids_map f id rs []\<rparr>"

lemma rmap_rids:
  "(\<forall>r \<in> set rs. get_rid E key (st r) = Inr (f r)) \<Longrightarrow> rmap (\<lambda>r. get_rid E key (st r)) rs = Inr (map f rs)"
  by (rule rmap_pure) simp

lemma sweep_ids_eq:
  assumes "inj_on f (set rs)" "distinct is" "set is \<subseteq> f ` set rs"
  shows "sweep_ids (sweeper_of f st0 rs) is st =
     Inr (\<lambda>r. if r \<in> set rs \<and> f r \<in> set is then restore (st r) (annots (st0 r)) else st r)"
  using assms(2,3)
proof (induction "is" arbitrary: st)
  case (Cons i "is")
  then obtain r where r: "r \<in> set rs" "i = f r" by auto
  let ?st = "st(r := restore (st r) (annots (st0 r)))"
  have "sweep_ids (sweeper_of f st0 rs) (i # is) st = sweep_ids (sweeper_of f st0 rs) is ?st"
    using assms(1) r by (simp add: sweeper_of_def dindex_def ids_map_get)
  also have "\<dots> = Inr (\<lambda>r'. if r' \<in> set rs \<and> f r' \<in> set is then restore (?st r') (annots (st0 r')) else ?st r')"
    using Cons by simp
  also have "\<dots> = Inr (\<lambda>r'. if r' \<in> set rs \<and> f r' \<in> set (i # is) then restore (st r') (annots (st0 r')) else st r')"
    using Cons.prems r assms(1) by (auto simp: fun_eq_iff inj_on_def)
  finally show ?case .
qed simp

text \<open>The store after a sweep that keeps \<open>out\<close>.\<close>

definition swept :: "store \<Rightarrow> ref list \<Rightarrow> ref list \<Rightarrow> store \<Rightarrow> store" where
  "swept st0 rs out st =
     (\<lambda>r. if r \<in> set rs \<and> r \<notin> set out then restore (st r) (annots (st0 r)) else st r)"

lemma sweep_eq:
  assumes "unique_ids E key st rs f" "set out \<subseteq> set rs"
  shows "sweep E key (sweeper_of f st0 rs) out st = Inr (swept st0 rs out st)"
proof -
  have ids: "\<forall>r \<in> set out. get_rid E key (st r) = Inr (f r)" and inj: "inj_on f (set rs)"
    using assms by (auto simp: unique_ids_def)
  let ?is = "filter (\<lambda>i. i \<notin> set (map f out)) (dkeys (ids_map f (\<lambda>r. annots (st0 r)) rs []))"
  have d: "distinct ?is" using ids_map_dwf[of "[]" f "\<lambda>r. annots (st0 r)" rs] by (simp add: dwf_def)
  have s: "set ?is = f ` (set rs - set out)"
    using inj assms(2) by (auto simp: ids_map_keys inj_on_def)
  then have mem: "f r \<in> set ?is \<longleftrightarrow> r \<notin> set out" if "r \<in> set rs" for r
    using inj assms(2) that by (auto simp: inj_on_def)
  have "sweep E key (sweeper_of f st0 rs) out st = sweep_ids (sweeper_of f st0 rs) ?is st"
    using rmap_rids[OF ids] by (simp add: sweep_def sweeper_of_def)
  also have "\<dots> = Inr (\<lambda>r. if r \<in> set rs \<and> f r \<in> set ?is then restore (st r) (annots (st0 r)) else st r)"
    using inj d s by (intro sweep_ids_eq) auto
  also have "\<dots> = Inr (swept st0 rs out st)"
    using mem by (auto simp: swept_def fun_eq_iff)
  finally show ?thesis .
qed

lemma same_bare_swept: "same_bare st0 st \<Longrightarrow> same_bare st0 (swept st0 rs out st)"
  by (simp add: same_bare_def swept_def)

lemma rmap_dindex_ids:
  assumes "inj_on f (set rs)" "set is \<subseteq> f ` set rs" "distinct is"
    and "rmap (dindex (ids_map f id rs [])) is = Inr out"
  shows "set out = {r \<in> set rs. f r \<in> set is} \<and> distinct out"
proof -
  have get: "dindex (ids_map f id rs []) (f r) = Inr r" if "r \<in> set rs" for r
    using assms(1) that by (simp add: dindex_def ids_map_get)
  have "\<exists>ss. is = map f ss \<and> set ss \<subseteq> set rs"
    using assms(2) by (induction "is") (auto, metis insert_subset list.set(2) list.simps(9))
  then obtain ss where ss: "is = map f ss" "set ss \<subseteq> set rs" by blast
  have "rmap (dindex (ids_map f id rs [])) (map f ss) = Inr ss"
    using ss(2) by (induction ss) (auto simp: get)
  with assms(4) ss(1) have "out = ss" by simp
  with ss assms(1,3) show ?thesis by (auto simp: inj_on_def distinct_map)
qed

lemma rmap_dindex_total:
  assumes "inj_on f (set rs)" "set is \<subseteq> f ` set rs"
  shows "\<exists>out. rmap (dindex (ids_map f id rs [])) is = Inr out"
proof -
  have "\<exists>ss. is = map f ss \<and> set ss \<subseteq> set rs"
    using assms(2) by (induction "is") (auto, metis insert_subset list.set(2) list.simps(9))
  then obtain ss where ss: "is = map f ss" "set ss \<subseteq> set rs" by blast
  have "rmap (dindex (ids_map f id rs [])) (map f ss) = Inr ss"
    using ss(2) by (induction ss) (auto simp: dindex_def ids_map_get[OF assms(1)])
  with ss(1) show ?thesis by blast
qed

section \<open>The contract of a filter in a block\<close>

text \<open>What is known of the order in which Python iterates over a set.\<close>

definition good_order :: "(rid list \<Rightarrow> rid list) \<Rightarrow> bool" where
  "good_order order = (\<forall>is. set (order is) = set is \<and> (distinct is \<longrightarrow> distinct (order is)))"

text \<open>A step that changes annotations only, of resources and event.\<close>

definition annot_step :: "(world \<Rightarrow> bool) \<Rightarrow> world \<Rightarrow> world \<Rightarrow> bool" where
  "annot_step winv w w' =
     (same_bare (wstore w) (wstore w') \<and> map_option bare (wevent w') = map_option bare (wevent w) \<and> winv w')"

lemma annot_step_refl: "winv w \<Longrightarrow> annot_step winv w w"
  by (simp add: annot_step_def)

lemma annot_step_trans: "annot_step winv a b \<Longrightarrow> annot_step winv b c \<Longrightarrow> annot_step winv a c"
  by (auto simp: annot_step_def intro: same_bare_trans)

text \<open>
  \<open>sat f ev d\<close> says whether the member \<open>f\<close> accepts a resource, given the event, both
  without annotations. A member selects those resources, in order, and only annotates.
\<close>

locale leaf_filter =
  fixes leaf :: "'f leafp"
    and sat :: "'f \<Rightarrow> pydict option \<Rightarrow> pydict \<Rightarrow> bool"
    and ok :: "'f \<Rightarrow> bool"
    and winv :: "world \<Rightarrow> bool"
  assumes leaf_select: "ok l \<Longrightarrow> winv w \<Longrightarrow> distinct rs \<Longrightarrow> leaf l w rs = Inr (w', out) \<Longrightarrow>
      out = filter (\<lambda>r. sat l (map_option bare (wevent w)) (bare (wstore w r))) rs"
    and leaf_step: "ok l \<Longrightarrow> winv w \<Longrightarrow> distinct rs \<Longrightarrow> leaf l w rs = Inr (w', out) \<Longrightarrow> annot_step winv w w'"
    and winv_store: "winv w \<Longrightarrow> winv (w\<lparr>wstore := st\<rparr>)"
begin

definition reads :: "'f ftree \<Rightarrow> world \<Rightarrow> ref \<Rightarrow> bool" where
  "reads t w r = feval (\<lambda>l. sat l (map_option bare (wevent w)) (bare (wstore w r))) t"

lemma reads_step: "annot_step winv w w' \<Longrightarrow> reads t w' r = reads t w r"
  by (simp add: reads_def annot_step_def same_bare_def)

lemma annot_step_store:
  "annot_step winv w w' \<Longrightarrow> same_bare (wstore w) st \<Longrightarrow> annot_step winv w (w'\<lparr>wstore := st\<rparr>)"
  by (simp add: annot_step_def winv_store)

text \<open>What a tree promises, for every run that returns.\<close>

definition selects :: "ext \<Rightarrow> string \<Rightarrow> (rid list \<Rightarrow> rid list) \<Rightarrow> 'f ftree \<Rightarrow> bool" where
  "selects E key order t = (\<forall>w w' rs out f.
     process leaf E key order t w rs = Inr (w', out) \<longrightarrow> winv w \<longrightarrow> distinct rs \<longrightarrow>
     unique_ids E key (wstore w) rs f \<longrightarrow>
     set out = {r \<in> set rs. reads t w r} \<and> distinct out \<and> annot_step winv w w')"

lemma selectsD:
  "selects E key order t \<Longrightarrow> process leaf E key order t w rs = Inr (w', out) \<Longrightarrow> winv w \<Longrightarrow>
   distinct rs \<Longrightarrow> unique_ids E key (wstore w) rs f \<Longrightarrow>
   set out = {r \<in> set rs. reads t w r} \<and> distinct out \<and> annot_step winv w w'"
  unfolding selects_def by blast

lemma annot_step_inv: "annot_step winv w w' \<Longrightarrow> winv w'"
  by (simp add: annot_step_def)

lemma unique_ids_step:
  "stable_id E key \<Longrightarrow> annot_step winv w w' \<Longrightarrow> unique_ids E key (wstore w) rs f \<Longrightarrow>
   unique_ids E key (wstore w') rs f"
  unfolding annot_step_def using unique_ids_same_bare by blast

lemma and_loop_selects:
  assumes id: "stable_id E key" and mem: "\<And>t. t \<in> set ts \<Longrightarrow> selects E key order t"
  shows "and_loop leaf E key order ts w rs = Inr (w', out) \<Longrightarrow> winv w \<Longrightarrow> distinct rs \<Longrightarrow>
     unique_ids E key (wstore w) rs f \<Longrightarrow>
     set out = {r \<in> set rs. list_all (\<lambda>t. reads t w r) ts} \<and> distinct out \<and> annot_step winv w w'"
  using mem
proof (induction ts arbitrary: w rs)
  case Nil
  then show ?case by (auto simp: annot_step_refl)
next
  case (Cons t ts)
  then obtain w1 o1 where p: "process leaf E key order t w rs = Inr (w1, o1)"
    and rest: "(if o1 = [] then Inr (w1, []) else and_loop leaf E key order ts w1 o1) = Inr (w', out)"
    by (auto simp: rbind_eq_Inr)
  have h: "set o1 = {r \<in> set rs. reads t w r}" "distinct o1" "annot_step winv w w1"
    using selectsD[OF Cons.prems(5) p Cons.prems(2-4)] by auto
  show ?case
  proof (cases "o1 = []")
    case True
    with rest h show ?thesis by auto
  next
    case False
    have u: "unique_ids E key (wstore w1) o1 f"
      using unique_ids_subset[OF unique_ids_step[OF id h(3) Cons.prems(4)], of o1] h(1) by auto
    have "set out = {r \<in> set o1. list_all (\<lambda>t. reads t w1 r) ts} \<and> distinct out \<and> annot_step winv w1 w'"
      using False rest h(2,3) u Cons.prems(5)
      by (intro Cons.IH) (auto intro: annot_step_inv)
    with h show ?thesis
      by (auto simp: reads_step intro: annot_step_trans)
  qed
qed

lemma or_loop_selects:
  assumes id: "stable_id E key" and mem: "\<And>t. t \<in> set ts \<Longrightarrow> selects E key order t"
  shows "or_loop leaf E key order ts w rs acc = Inr (w', res) \<Longrightarrow> winv w \<Longrightarrow> distinct rs \<Longrightarrow>
     unique_ids E key (wstore w) rs f \<Longrightarrow> distinct acc \<Longrightarrow>
     set res = set acc \<union> f ` {r \<in> set rs. list_ex (\<lambda>t. reads t w r) ts} \<and> distinct res \<and>
     annot_step winv w w'"
  using mem
proof (induction ts arbitrary: w acc)
  case Nil
  then show ?case by (auto simp: annot_step_refl)
next
  case (Cons t ts)
  then obtain w1 o1 ks where p: "process leaf E key order t w rs = Inr (w1, o1)"
    and ids: "rmap (\<lambda>r. get_rid E key (wstore w1 r)) o1 = Inr ks"
    and rest: "or_loop leaf E key order ts w1 rs (remdups (acc @ ks)) = Inr (w', res)"
    by (auto simp: rbind_eq_Inr)
  have h: "set o1 = {r \<in> set rs. reads t w r}" "annot_step winv w w1"
    using selectsD[OF Cons.prems(6) p Cons.prems(2-4)] by auto
  have u: "unique_ids E key (wstore w1) rs f"
    using unique_ids_step[OF id h(2) Cons.prems(4)] .
  have "ks = map f o1"
    using ids rmap_rids[of o1 E key "wstore w1" f] u h(1) by (auto simp: unique_ids_def)
  then have "set ks = f ` {r \<in> set rs. reads t w r}" using h(1) by simp
  moreover have "set res = set (remdups (acc @ ks)) \<union> f ` {r \<in> set rs. list_ex (\<lambda>t. reads t w1 r) ts} \<and>
      distinct res \<and> annot_step winv w1 w'"
    using rest u h(2) Cons.prems(3,6) by (intro Cons.IH) (auto intro: annot_step_inv)
  ultimately show ?case
    using h(2) by (auto simp: reads_step intro: annot_step_trans)
qed

lemma reads_simps [simp]:
  "reads (Or ts) w r = list_ex (\<lambda>t. reads t w r) ts"
  "reads (And ts) w r = list_all (\<lambda>t. reads t w r) ts"
  "reads (Not ts) w r = (\<not> list_all (\<lambda>t. reads t w r) ts)"
  by (simp_all add: reads_def)

lemma Or_selects:
  assumes id: "stable_id E key" and ord: "good_order order"
    and mem: "\<And>t. t \<in> set ts \<Longrightarrow> selects E key order t"
  shows "selects E key order (Or ts)"
  unfolding selects_def
proof (intro allI impI)
  fix w w' rs out f
  assume p: "process leaf E key order (Or ts) w rs = Inr (w', out)"
    and w: "winv w" "distinct rs" and u: "unique_ids E key (wstore w) rs f"
  have rids: "\<forall>r \<in> set rs. get_rid E key (wstore w r) = Inr (f r)" and inj: "inj_on f (set rs)"
    using u by (auto simp: unique_ids_def)
  from p obtain res where l: "or_loop leaf E key order ts w rs [] = Inr (w', res)"
    and o: "rmap (dindex (ids_map f id rs [])) (order res) = Inr out"
    by (auto simp: rbind_eq_Inr resource_map_eq[OF rids])
  have h: "set res = f ` {r \<in> set rs. reads (Or ts) w r}" "distinct res" "annot_step winv w w'"
    using or_loop_selects[OF id mem l w u] by auto
  have "set out = {r \<in> set rs. f r \<in> set (order res)} \<and> distinct out"
    using h(1,2) ord by (intro rmap_dindex_ids[OF inj _ _ o]) (auto simp: good_order_def)
  then show "set out = {r \<in> set rs. reads (Or ts) w r} \<and> distinct out \<and> annot_step winv w w'"
    using h ord inj by (auto simp: good_order_def inj_on_def)
qed

text \<open>How an \<open>and\<close> runs: its members in turn, then the sweep.\<close>

lemma And_run:
  assumes id: "stable_id E key" and mem: "\<And>t. t \<in> set ts \<Longrightarrow> selects E key order t"
    and p: "process leaf E key order (And ts) w rs = Inr (w', out)"
    and w: "winv w" "distinct rs" and u: "unique_ids E key (wstore w) rs f"
  obtains w1 where "and_loop leaf E key order ts w rs = Inr (w1, out)" "annot_step winv w w1"
    "w' = w1\<lparr>wstore := swept (wstore w) rs out (wstore w1)\<rparr>"
    "set out = {r \<in> set rs. reads (And ts) w r}" "distinct out"
proof -
  have rids: "\<forall>r \<in> set rs. get_rid E key (wstore w r) = Inr (f r)"
    using u by (auto simp: unique_ids_def)
  from p obtain w1 st where l: "and_loop leaf E key order ts w rs = Inr (w1, out)"
    and st: "sweep E key (sweeper_of f (wstore w) rs) out (wstore w1) = Inr st"
    and w': "w' = w1\<lparr>wstore := st\<rparr>"
    by (auto simp: rbind_eq_Inr sweeper_init_eq[OF rids] sweeper_of_def sweeper0_def)
  have h: "set out = {r \<in> set rs. reads (And ts) w r}" "distinct out" "annot_step winv w w1"
    using and_loop_selects[OF id mem l w u] by auto
  have "st = swept (wstore w) rs out (wstore w1)"
    using sweep_eq[OF unique_ids_step[OF id h(3) u], of out "wstore w"] st h(1) by auto
  then show thesis using that l h w' by blast
qed

lemma And_selects:
  assumes "stable_id E key" and "\<And>t. t \<in> set ts \<Longrightarrow> selects E key order t"
  shows "selects E key order (And ts)"
  unfolding selects_def
proof (intro allI impI)
  fix w w' rs out f
  assume p: "process leaf E key order (And ts) w rs = Inr (w', out)" "winv w" "distinct rs"
    "unique_ids E key (wstore w) rs f"
  show "set out = {r \<in> set rs. reads (And ts) w r} \<and> distinct out \<and> annot_step winv w w'"
    using And_run[OF assms p]
    by (metis annot_step_def annot_step_store same_bare_swept)
qed

text \<open>A resource an \<open>and\<close> rejects has its annotations of before the block again.\<close>

lemma And_restores:
  assumes "stable_id E key" "\<And>t. t \<in> set ts \<Longrightarrow> selects E key order t"
    "process leaf E key order (And ts) w rs = Inr (w', out)" "winv w" "distinct rs"
    "unique_ids E key (wstore w) rs f" "r \<in> set rs - set out" "dwf (wstore w r)"
  shows "dget (wstore w' r) = dget (wstore w r)"
proof -
  obtain w1 where "annot_step winv w w1" "w' = w1\<lparr>wstore := swept (wstore w) rs out (wstore w1)\<rparr>"
    using And_run[OF assms(1-6)] by metis
  then show ?thesis
    using assms(7,8) by (auto simp: swept_def annot_step_def same_bare_def intro!: dget_restore)
qed

lemma Not_run:
  assumes id: "stable_id E key" and ord: "good_order order"
    and mem: "\<And>t. t \<in> set ts \<Longrightarrow> selects E key order t"
    and p: "process leaf E key order (Not ts) w rs = Inr (w', out)"
    and w: "winv w" "distinct rs" and u: "unique_ids E key (wstore w) rs f"
  obtains w1 where "annot_step winv w w1" "w' = w1\<lparr>wstore := swept (wstore w) rs [] (wstore w1)\<rparr>"
    "set out = {r \<in> set rs. reads (Not ts) w r}" "distinct out"
proof -
  have rids: "\<forall>r \<in> set rs. get_rid E key (wstore w r) = Inr (f r)" and inj: "inj_on f (set rs)"
    using u by (auto simp: unique_ids_def)
  from p obtain w1 kept ks st where l: "and_loop leaf E key order ts w rs = Inr (w1, kept)"
    and ks: "rmap (\<lambda>r. get_rid E key (wstore w1 r)) kept = Inr ks"
    and st: "sweep E key (sweeper_of f (wstore w) rs) [] (wstore w1) = Inr st"
    and o: "rmap (dindex (ids_map f id rs []))
              (order (filter (\<lambda>i. i \<notin> set ks) (dkeys (ids_map f id rs [])))) = Inr out"
    and w': "w' = w1\<lparr>wstore := st\<rparr>"
    by (auto simp: rbind_eq_Inr sweeper_init_eq[OF rids] resource_map_eq[OF rids]
        sweeper_of_def sweeper0_def)
  have h: "set kept = {r \<in> set rs. list_all (\<lambda>t. reads t w r) ts}" "annot_step winv w w1"
    using and_loop_selects[OF id mem l w u] by auto
  have u1: "unique_ids E key (wstore w1) rs f" by (rule unique_ids_step[OF id h(2) u])
  have "ks = map f kept"
    using ks rmap_rids[of kept E key "wstore w1" f] u1 h(1) by (auto simp: unique_ids_def)
  then have mem': "f r \<in> set ks \<longleftrightarrow> r \<in> set kept" if "r \<in> set rs" for r
    using inj that h(1) by (auto simp: inj_on_def)
  let ?is = "filter (\<lambda>i. i \<notin> set ks) (dkeys (ids_map f id rs []))"
  have d: "distinct ?is" using ids_map_dwf[of "[]" f id rs] by (simp add: dwf_def)
  have "set out = {r \<in> set rs. f r \<in> set (order ?is)} \<and> distinct out"
    using ord d by (intro rmap_dindex_ids[OF inj _ _ o]) (auto simp: good_order_def ids_map_keys)
  moreover have "f r \<in> set (order ?is) \<longleftrightarrow> reads (Not ts) w r" if "r \<in> set rs" for r
    using that ord mem' h(1) by (auto simp: good_order_def ids_map_keys)
  ultimately have "set out = {r \<in> set rs. reads (Not ts) w r}" "distinct out" by auto
  moreover have "st = swept (wstore w) rs [] (wstore w1)"
    using sweep_eq[OF u1, of "[]" "wstore w"] st by simp
  ultimately show thesis using that h(2) w' by blast
qed

lemma Not_selects:
  assumes "stable_id E key" "good_order order"
    and "\<And>t. t \<in> set ts \<Longrightarrow> selects E key order t"
  shows "selects E key order (Not ts)"
  unfolding selects_def
proof (intro allI impI)
  fix w w' rs out f
  assume p: "process leaf E key order (Not ts) w rs = Inr (w', out)" "winv w" "distinct rs"
    "unique_ids E key (wstore w) rs f"
  show "set out = {r \<in> set rs. reads (Not ts) w r} \<and> distinct out \<and> annot_step winv w w'"
    using Not_run[OF assms p]
    by (metis annot_step_def annot_step_store same_bare_swept)
qed

text \<open>After a \<open>not\<close>, every resource has its annotations of before.\<close>

lemma Not_restores:
  assumes "stable_id E key" "good_order order" "\<And>t. t \<in> set ts \<Longrightarrow> selects E key order t"
    "process leaf E key order (Not ts) w rs = Inr (w', out)" "winv w" "distinct rs"
    "unique_ids E key (wstore w) rs f" "r \<in> set rs" "dwf (wstore w r)"
  shows "dget (wstore w' r) = dget (wstore w r)"
proof -
  obtain w1 where "annot_step winv w w1" "w' = w1\<lparr>wstore := swept (wstore w) rs [] (wstore w1)\<rparr>"
    using Not_run[OF assms(1-7)] by metis
  then show ?thesis
    using assms(8,9) by (auto simp: swept_def annot_step_def same_bare_def intro!: dget_restore)
qed

lemma tree_selects:
  assumes "stable_id E key" "good_order order"
  shows "list_all ok (leaves t) \<Longrightarrow> selects E key order t"
proof (induction t)
  case (Leaf l)
  then have l: "ok l" by simp
  show ?case
    unfolding selects_def
  proof (intro allI impI)
    fix w w' rs out f
    assume "process leaf E key order (Leaf l) w rs = Inr (w', out)" "winv w" "distinct rs"
    then have p: "leaf l w rs = Inr (w', out)" and w: "winv w" "distinct rs" by simp_all
    show "set out = {r \<in> set rs. reads (Leaf l) w r} \<and> distinct out \<and> annot_step winv w w'"
      using leaf_select[OF l w p] leaf_step[OF l w p] w(2) by (simp add: reads_def)
  qed
next
  case (Or ts)
  then show ?case by (intro Or_selects assms) (auto simp: list_all_iff)
next
  case (And ts)
  then show ?case by (intro And_selects assms) (auto simp: list_all_iff)
next
  case (Not ts)
  then show ?case by (intro Not_selects assms) (auto simp: list_all_iff)
qed

end

section \<open>Blocks that return\<close>

text \<open>\<open>defd f ev d\<close> says that the member raises nothing on a resource.\<close>

locale total_leaf = leaf_filter leaf sat ok winv
  for leaf :: "'f leafp" and sat :: "'f \<Rightarrow> pydict option \<Rightarrow> pydict \<Rightarrow> bool"
    and ok :: "'f \<Rightarrow> bool" and winv :: "world \<Rightarrow> bool" +
  fixes defd :: "'f \<Rightarrow> pydict option \<Rightarrow> pydict \<Rightarrow> bool"
  assumes leaf_total: "ok l \<Longrightarrow> winv w \<Longrightarrow> distinct rs \<Longrightarrow> rs \<noteq> [] \<Longrightarrow>
      (\<forall>r \<in> set rs. defd l (map_option bare (wevent w)) (bare (wstore w r))) \<Longrightarrow>
      \<exists>x. leaf l w rs = Inr x"
begin

definition all_defd :: "'f list \<Rightarrow> world \<Rightarrow> ref list \<Rightarrow> bool" where
  "all_defd ls w rs =
     (\<forall>l \<in> set ls. \<forall>r \<in> set rs. defd l (map_option bare (wevent w)) (bare (wstore w r)))"

lemma all_defd_step:
  "annot_step winv w w' \<Longrightarrow> all_defd ls w rs \<Longrightarrow> set ss \<subseteq> set rs \<Longrightarrow> all_defd ls w' ss"
  by (auto simp: all_defd_def annot_step_def same_bare_def)

lemma all_defd_sub: "all_defd ls w rs \<Longrightarrow> set ks \<subseteq> set ls \<Longrightarrow> all_defd ks w rs"
  by (auto simp: all_defd_def)

definition returns :: "ext \<Rightarrow> string \<Rightarrow> (rid list \<Rightarrow> rid list) \<Rightarrow> 'f ftree \<Rightarrow> bool" where
  "returns E key order t = (\<forall>w rs f. winv w \<longrightarrow> distinct rs \<longrightarrow> rs \<noteq> [] \<longrightarrow>
     unique_ids E key (wstore w) rs f \<longrightarrow> all_defd (leaves t) w rs \<longrightarrow>
     (\<exists>w' out. process leaf E key order t w rs = Inr (w', out)))"

lemma returnsD:
  "returns E key order t \<Longrightarrow> winv w \<Longrightarrow> distinct rs \<Longrightarrow> rs \<noteq> [] \<Longrightarrow>
   unique_ids E key (wstore w) rs f \<Longrightarrow> all_defd (leaves t) w rs \<Longrightarrow>
   \<exists>w' out. process leaf E key order t w rs = Inr (w', out)"
  unfolding returns_def by blast

lemma and_loop_returns:
  assumes id: "stable_id E key"
    and mem: "\<And>t. t \<in> set ts \<Longrightarrow> selects E key order t \<and> returns E key order t"
  shows "winv w \<Longrightarrow> distinct rs \<Longrightarrow> rs \<noteq> [] \<Longrightarrow> unique_ids E key (wstore w) rs f \<Longrightarrow>
     all_defd (concat (map leaves ts)) w rs \<Longrightarrow>
     \<exists>w' out. and_loop leaf E key order ts w rs = Inr (w', out)"
  using mem
proof (induction ts arbitrary: w rs)
  case (Cons t ts)
  have "all_defd (leaves t) w rs" by (rule all_defd_sub[OF Cons.prems(5)]) simp
  then obtain w1 o1 where p: "process leaf E key order t w rs = Inr (w1, o1)"
    using returnsD[of E key order t w rs f] Cons.prems by auto
  have h: "set o1 \<subseteq> set rs" "distinct o1" "annot_step winv w w1"
    using selectsD[of E key order t, OF _ p Cons.prems(1,2,4)] Cons.prems(6) by auto
  show ?case
  proof (cases "o1 = []")
    case True
    with p show ?thesis by simp
  next
    case False
    have "unique_ids E key (wstore w1) o1 f"
      by (rule unique_ids_subset[OF unique_ids_step[OF id h(3) Cons.prems(4)] h(1)])
    moreover have "all_defd (concat (map leaves ts)) w rs"
      by (rule all_defd_sub[OF Cons.prems(5)]) auto
    then have "all_defd (concat (map leaves ts)) w1 o1"
      by (rule all_defd_step[OF h(3) _ h(1)])
    ultimately have "\<exists>w' out. and_loop leaf E key order ts w1 o1 = Inr (w', out)"
      using False h Cons.prems(6) by (intro Cons.IH) (auto intro: annot_step_inv)
    with p False show ?thesis by simp
  qed
qed simp

lemma or_loop_returns:
  assumes id: "stable_id E key"
    and mem: "\<And>t. t \<in> set ts \<Longrightarrow> selects E key order t \<and> returns E key order t"
  shows "winv w \<Longrightarrow> distinct rs \<Longrightarrow> rs \<noteq> [] \<Longrightarrow> unique_ids E key (wstore w) rs f \<Longrightarrow>
     all_defd (concat (map leaves ts)) w rs \<Longrightarrow>
     \<exists>w' res. or_loop leaf E key order ts w rs acc = Inr (w', res)"
  using mem
proof (induction ts arbitrary: w acc)
  case (Cons t ts)
  have "all_defd (leaves t) w rs" by (rule all_defd_sub[OF Cons.prems(5)]) simp
  then obtain w1 o1 where p: "process leaf E key order t w rs = Inr (w1, o1)"
    using returnsD[of E key order t w rs f] Cons.prems by auto
  have h: "set o1 \<subseteq> set rs" "annot_step winv w w1"
    using selectsD[of E key order t, OF _ p Cons.prems(1,2,4)] Cons.prems(6) by auto
  have u: "unique_ids E key (wstore w1) rs f" by (rule unique_ids_step[OF id h(2) Cons.prems(4)])
  then have ids: "rmap (\<lambda>r. get_rid E key (wstore w1 r)) o1 = Inr (map f o1)"
    using h(1) by (intro rmap_rids) (auto simp: unique_ids_def)
  have "all_defd (concat (map leaves ts)) w rs"
    by (rule all_defd_sub[OF Cons.prems(5)]) auto
  then have "all_defd (concat (map leaves ts)) w1 rs"
    by (rule all_defd_step[OF h(2)]) simp
  then have "\<exists>w' res. or_loop leaf E key order ts w1 rs (remdups (acc @ map f o1)) = Inr (w', res)"
    using u h(2) Cons.prems(2,3,6) by (intro Cons.IH) (auto intro: annot_step_inv)
  with p ids show ?case by simp
qed simp

lemma Or_returns:
  assumes id: "stable_id E key" and ord: "good_order order"
    and mem: "\<And>t. t \<in> set ts \<Longrightarrow> selects E key order t \<and> returns E key order t"
  shows "returns E key order (Or ts)"
  unfolding returns_def
proof (intro allI impI)
  fix w rs f
  assume w: "winv w" "distinct rs" "rs \<noteq> []" and u: "unique_ids E key (wstore w) rs f"
    and d: "all_defd (leaves (Or ts)) w rs"
  have rids: "\<forall>r \<in> set rs. get_rid E key (wstore w r) = Inr (f r)" and inj: "inj_on f (set rs)"
    using u by (auto simp: unique_ids_def)
  obtain w1 res where l: "or_loop leaf E key order ts w rs [] = Inr (w1, res)"
    using or_loop_returns[OF id mem w u] d by fastforce
  have "set res = f ` {r \<in> set rs. list_ex (\<lambda>t. reads t w r) ts}"
    using or_loop_selects[OF id _ l w(1,2) u] mem by auto
  then have "set (order res) \<subseteq> f ` set rs" using ord by (auto simp: good_order_def)
  then obtain out where "rmap (dindex (ids_map f id rs [])) (order res) = Inr out"
    using rmap_dindex_total[OF inj] by blast
  then show "\<exists>w' out. process leaf E key order (Or ts) w rs = Inr (w', out)"
    by (simp add: resource_map_eq[OF rids] l)
qed

lemma And_returns:
  assumes id: "stable_id E key"
    and mem: "\<And>t. t \<in> set ts \<Longrightarrow> selects E key order t \<and> returns E key order t"
  shows "returns E key order (And ts)"
  unfolding returns_def
proof (intro allI impI)
  fix w rs f
  assume w: "winv w" "distinct rs" "rs \<noteq> []" and u: "unique_ids E key (wstore w) rs f"
    and d: "all_defd (leaves (And ts)) w rs"
  have rids: "\<forall>r \<in> set rs. get_rid E key (wstore w r) = Inr (f r)"
    using u by (auto simp: unique_ids_def)
  obtain w1 out where l: "and_loop leaf E key order ts w rs = Inr (w1, out)"
    using and_loop_returns[OF id mem w u] d by fastforce
  have h: "set out \<subseteq> set rs" "annot_step winv w w1"
    using and_loop_selects[OF id _ l w(1,2) u] mem by auto
  have "sweep E key (sweeper_of f (wstore w) rs) out (wstore w1) = Inr (swept (wstore w) rs out (wstore w1))"
    by (rule sweep_eq[OF unique_ids_step[OF id h(2) u] h(1)])
  then show "\<exists>w' out. process leaf E key order (And ts) w rs = Inr (w', out)"
    by (simp add: sweeper_init_eq[OF rids] l sweeper0_def sweeper_of_def)
qed

lemma Not_returns:
  assumes id: "stable_id E key" and ord: "good_order order"
    and mem: "\<And>t. t \<in> set ts \<Longrightarrow> selects E key order t \<and> returns E key order t"
  shows "returns E key order (Not ts)"
  unfolding returns_def
proof (intro allI impI)
  fix w rs f
  assume w: "winv w" "distinct rs" "rs \<noteq> []" and u: "unique_ids E key (wstore w) rs f"
    and d: "all_defd (leaves (Not ts)) w rs"
  have rids: "\<forall>r \<in> set rs. get_rid E key (wstore w r) = Inr (f r)" and inj: "inj_on f (set rs)"
    using u by (auto simp: unique_ids_def)
  obtain w1 kept where l: "and_loop leaf E key order ts w rs = Inr (w1, kept)"
    using and_loop_returns[OF id mem w u] d by fastforce
  have h: "set kept \<subseteq> set rs" "annot_step winv w w1"
    using and_loop_selects[OF id _ l w(1,2) u] mem by auto
  have u1: "unique_ids E key (wstore w1) rs f" by (rule unique_ids_step[OF id h(2) u])
  have ids: "rmap (\<lambda>r. get_rid E key (wstore w1 r)) kept = Inr (map f kept)"
    using u1 h(1) by (intro rmap_rids) (auto simp: unique_ids_def)
  have sw: "sweep E key (sweeper_of f (wstore w) rs) [] (wstore w1) = Inr (swept (wstore w) rs [] (wstore w1))"
    by (rule sweep_eq[OF u1]) simp
  let ?is = "order (filter (\<lambda>i. i \<notin> set (map f kept)) (dkeys (ids_map f id rs [])))"
  have "set ?is \<subseteq> f ` set rs" using ord by (auto simp: good_order_def ids_map_keys)
  then obtain out where "rmap (dindex (ids_map f id rs [])) ?is = Inr out"
    using rmap_dindex_total[OF inj] by blast
  then show "\<exists>w' out. process leaf E key order (Not ts) w rs = Inr (w', out)"
    using sw by (simp add: resource_map_eq[OF rids] sweeper_init_eq[OF rids] l ids sweeper0_def sweeper_of_def)
qed

lemma tree_returns:
  assumes "stable_id E key" "good_order order"
  shows "list_all ok (leaves t) \<Longrightarrow> returns E key order t"
proof (induction t)
  case (Leaf l)
  then have l: "ok l" by simp
  show ?case
    unfolding returns_def
  proof (intro allI impI)
    fix w rs f
    assume "winv w" "distinct rs" "rs \<noteq> []" "all_defd (leaves (Leaf l)) w rs"
    then show "\<exists>w' out. process leaf E key order (Leaf l) w rs = Inr (w', out)"
      using leaf_total[OF l, of w rs] by (auto simp: all_defd_def)
  qed
next
  case (Or ts)
  then show ?case by (intro Or_returns assms) (auto simp: list_all_iff intro!: tree_selects assms)
next
  case (And ts)
  then show ?case by (intro And_returns assms) (auto simp: list_all_iff intro!: tree_selects assms)
next
  case (Not ts)
  then show ?case by (intro Not_returns assms) (auto simp: list_all_iff intro!: tree_selects assms)
qed

end

end
