(* ===== verification/Leaves.thy ===== *)
theory Leaves
  imports Block_Facts
begin

text \<open>
  Value and event filters as members of blocks (\<open>c7n/filters/core.py\<close>): the filter objects
  of a policy, what running one does to the world, and the laws of \<open>leaf_filter\<close> for them.
  A filter object keeps the attributes its first call sets, so one call may depend on the
  ones before; that it does not is what the laws come down to.
\<close>

section \<open>Filter objects\<close>

text \<open>The class is ValueFilter or EventFilter; \<open>fo_annotate\<close> is the attribute \<open>annotate\<close>.\<close>

record fobj =
  fo_data :: pydict
  fo_annotate :: bool
  fo_event :: bool

definition leaf_process :: "ext \<Rightarrow> (nat \<Rightarrow> fobj) \<Rightarrow> nat leafp" where
  "leaf_process E cfg n w rs =
     (let o' = cfg n in
      if fo_event o' then
        rbind (event_process E (fo_data o') (wstates w n) (wevent w) rs) (\<lambda>(s, ev, out).
          Inr (w\<lparr>wevent := ev, wstates := (wstates w)(n := s)\<rparr>, out))
      else
        rbind (vf_process E (fo_data o') (fo_annotate o') (wstates w n) (wstore w) rs) (\<lambda>(s, st, out).
          Inr (w\<lparr>wstore := st, wstates := (wstates w)(n := s)\<rparr>, out)))"

section \<open>The reading of a value filter\<close>

text \<open>What a fresh filter object answers on a resource.\<close>

definition vf_matches :: "ext \<Rightarrow> pydict \<Rightarrow> pydict \<Rightarrow> bool res" where
  "vf_matches E data d = rbind (vmatch E data vstate0 (PDict d)) (\<lambda>(s, b). Inr b)"

text \<open>The attributes of a filter object that was called any number of times.\<close>

definition prepared :: "ext \<Rightarrow> pydict \<Rightarrow> vstate \<Rightarrow> bool" where
  "prepared E data s = (s = vstate0 \<or> (\<exists>i. match_prep E data vstate0 i = Inr s))"

text \<open>The key a match is annotated with.\<close>

definition filter_key :: "pydict \<Rightarrow> pyval" where
  "filter_key data = (if length data = 1 then PStr (fst (hd data)) else dget_or data ''key'' PNone)"

lemma prepared_0 [simp]: "prepared E data vstate0"
  by (simp add: prepared_def)

lemma vmatch_prepared:
  "prepared E data s \<Longrightarrow> vmatch E data s i = vmatch E data vstate0 i"
proof -
  assume "prepared E data s"
  then have "match_prep E data s i = match_prep E data vstate0 i"
    unfolding prepared_def using match_prep_again by blast
  then show ?thesis by (simp only: vmatch_def)
qed

lemma match_init_key:
  assumes "match_init E data vstate0 = Inr s"
  shows "vs_k s = filter_key data"
proof (cases "length data = 1")
  case True
  with assms show ?thesis by (auto simp: match_init_def vstate0_def filter_key_def)
next
  case False
  then have "match_init E data vstate0 =
      rbind (case dget data ''value_from'' of
          Some src \<Rightarrow> ext_values E src
        | None \<Rightarrow> Inr (if dhas data ''value_path'' then PNone else dget_or data ''value'' PNone))
      (\<lambda>v. Inr (vstate0\<lparr>vs_k := dget_or data ''key'' PNone, vs_op := dget_or data ''op'' PNone,
                  vs_v := v, vs_init := True, vs_vtype := dget_or data ''value_type'' PNone\<rparr>))"
    by (simp add: match_init_def vstate0_def)
  with assms have "\<exists>v. s = vstate0\<lparr>vs_k := dget_or data ''key'' PNone, vs_op := dget_or data ''op'' PNone,
      vs_v := v, vs_init := True, vs_vtype := dget_or data ''value_type'' PNone\<rparr>"
    by (auto simp only: rbind_eq_Inr sum.inject)
  with False show ?thesis by (auto simp: filter_key_def)
qed

lemma match_path_key: "match_path E data s i = Inr s' \<Longrightarrow> vs_k s' = vs_k s"
  by (auto simp: match_path_def rbind_eq_Inr split: if_splits)

lemma match_prep_key:
  "match_prep E data vstate0 i = Inr s \<Longrightarrow> vs_k s = filter_key data"
  unfolding match_prep_def rbind_eq_Inr by (metis match_init_key match_path_key)

lemma vmatch_Inr:
  assumes "prepared E data s" "vmatch E data s (PDict d) = Inr (s', b)"
  shows "prepared E data s'" "vf_matches E data d = Inr b" "vs_k s' = filter_key data"
proof -
  have v: "vmatch E data vstate0 (PDict d) = Inr (s', b)"
    using assms(2) unfolding vmatch_prepared[OF assms(1)] .
  then have p: "match_prep E data vstate0 (PDict d) = Inr s'"
    unfolding vmatch_def by (cases "match_prep E data vstate0 (PDict d)") (simp_all add: rbind_eq_Inr)
  show "prepared E data s'" unfolding prepared_def using p by blast
  show "vs_k s' = filter_key data" using p by (rule match_prep_key)
  show "vf_matches E data d = Inr b" using v by (simp add: vf_matches_def)
qed

text \<open>A match leaves its mark when the class annotates.\<close>

definition mark :: "pydict \<Rightarrow> bool \<Rightarrow> bool \<Rightarrow> pydict \<Rightarrow> pydict" where
  "mark data annotate b d =
     (if b \<and> annotate then set_annotation d ANNOTATION_KEY (filter_key data) else d)"

lemma vf_call_eq:
  assumes "\<not> is_resource_count data" "prepared E data s"
  shows "(\<exists>e. vf_matches E data d = Inl e \<and> vf_call E data a s d = Inl e) \<or>
    (\<exists>s' b. vf_matches E data d = Inr b \<and> prepared E data s' \<and>
       vf_call E data a s d = Inr (s', mark data a b d, b))"
proof (cases "vmatch E data s (PDict d)")
  case (Inl e)
  then have "vf_matches E data d = Inl e" unfolding vmatch_prepared[OF assms(2)] by (simp add: vf_matches_def)
  with Inl assms(1) show ?thesis by (simp add: vf_call_def)
next
  case (Inr x)
  then obtain s' b where x: "vmatch E data s (PDict d) = Inr (s', b)" by (cases x) auto
  with vmatch_Inr[OF assms(2) x] assms(1) show ?thesis
    by (auto simp: vf_call_def mark_def)
qed

text \<open>Marking the matches of a set of resources.\<close>

definition marked :: "pydict \<Rightarrow> bool \<Rightarrow> ref list \<Rightarrow> store \<Rightarrow> store" where
  "marked data a out st = (\<lambda>r. mark data a (r \<in> set out) (st r))"

lemma vf_filter_eq:
  assumes "\<not> is_resource_count data"
  shows "prepared E data s \<Longrightarrow> distinct rs \<Longrightarrow>
    (\<exists>e. rfilter (\<lambda>r. vf_matches E data (st r)) rs = Inl e \<and> vf_filter E data a s st rs = Inl e) \<or>
    (\<exists>s' out. rfilter (\<lambda>r. vf_matches E data (st r)) rs = Inr out \<and> prepared E data s' \<and>
       vf_filter E data a s st rs = Inr (s', marked data a out st, out))"
proof (induction rs arbitrary: s st)
  case Nil
  then show ?case by (auto simp: marked_def mark_def)
next
  case (Cons r rs)
  from vf_call_eq[OF assms Cons.prems(1), of "st r" a] show ?case
  proof (elim disjE exE conjE)
    fix e assume "vf_matches E data (st r) = Inl e" "vf_call E data a s (st r) = Inl e"
    then show ?thesis by simp
  next
    fix s1 b
    assume m: "vf_matches E data (st r) = Inr b" and p: "prepared E data s1"
      and c: "vf_call E data a s (st r) = Inr (s1, mark data a b (st r), b)"
    define st1 where "st1 = st(r := mark data a b (st r))"
    have same: "rfilter (\<lambda>x. vf_matches E data (st1 x)) rs = rfilter (\<lambda>x. vf_matches E data (st x)) rs"
      using Cons.prems(2) unfolding st1_def by (induction rs) auto
    have mk: "marked data a out st1 = marked data a (if b then r # out else out) st"
      if "rfilter (\<lambda>x. vf_matches E data (st x)) rs = Inr out" for out
      using rfilter_Inr_set[OF that] Cons.prems(2)
      by (auto simp: marked_def mark_def fun_eq_iff st1_def)
    have step: "vf_filter E data a s st (r # rs) =
        rbind (vf_filter E data a s1 st1 rs) (\<lambda>(s2, st2, out). Inr (s2, st2, if b then r # out else out))"
      using c by (simp add: st1_def)
    from Cons.IH[OF p, of st1] Cons.prems(2) m show ?thesis
      unfolding same step by (auto simp: mk)
  qed
qed

lemma bare_mark [simp]: "bare (mark data a b d) = bare d"
  by (simp add: mark_def)

lemma same_bare_marked: "same_bare st (marked data a out st)"
  by (simp add: same_bare_def marked_def)

section \<open>The laws of blocks\<close>

lemma rfilter_Inr_filter: "rfilter f xs = Inr ys \<Longrightarrow> ys = filter (\<lambda>x. f x = Inr True) xs"
  by (induction xs arbitrary: ys) (auto simp: rbind_eq_Inr split: if_splits)

text \<open>
  The members covered: no \<open>resource_count\<close>, whose answer is about the whole set, and an
  answer that does not look at annotations.
\<close>

definition blind :: "ext \<Rightarrow> pydict \<Rightarrow> bool" where
  "blind E data = (\<forall>d. vf_matches E data (bare d) = vf_matches E data d)"

definition leaf_ok :: "ext \<Rightarrow> (nat \<Rightarrow> fobj) \<Rightarrow> nat \<Rightarrow> bool" where
  "leaf_ok E cfg n = (\<not> is_resource_count (fo_data (cfg n)) \<and> blind E (fo_data (cfg n)))"

text \<open>Whether a filter object accepts a resource, given the event.\<close>

definition leaf_sat :: "ext \<Rightarrow> (nat \<Rightarrow> fobj) \<Rightarrow> nat \<Rightarrow> pydict option \<Rightarrow> pydict \<Rightarrow> bool" where
  "leaf_sat E cfg n ev d =
     (if fo_event (cfg n)
      then (case ev of None \<Rightarrow> True | Some e \<Rightarrow> vf_matches E (fo_data (cfg n)) e = Inr True)
      else vf_matches E (fo_data (cfg n)) d = Inr True)"

definition leaf_defd :: "ext \<Rightarrow> (nat \<Rightarrow> fobj) \<Rightarrow> nat \<Rightarrow> pydict option \<Rightarrow> pydict \<Rightarrow> bool" where
  "leaf_defd E cfg n ev d =
     (if fo_event (cfg n)
      then (case ev of None \<Rightarrow> True | Some e \<Rightarrow> \<exists>b. vf_matches E (fo_data (cfg n)) e = Inr b)
      else \<exists>b. vf_matches E (fo_data (cfg n)) d = Inr b)"

text \<open>Every filter object's attributes are those of calls with its own data.\<close>

definition states_ok :: "ext \<Rightarrow> (nat \<Rightarrow> fobj) \<Rightarrow> world \<Rightarrow> bool" where
  "states_ok E cfg w = (\<forall>n. prepared E (fo_data (cfg n)) (wstates w n))"

lemma states_ok_0: "states_ok E cfg \<lparr>wstore = st, wevent = ev, wstates = (\<lambda>n. vstate0)\<rparr>"
  by (simp add: states_ok_def)

text \<open>What running a leaf does, by class.\<close>

lemma leaf_value_run:
  assumes "leaf_ok E cfg n" "states_ok E cfg w" "distinct rs" "\<not> fo_event (cfg n)"
  shows "(\<exists>e. rfilter (\<lambda>r. vf_matches E (fo_data (cfg n)) (wstore w r)) rs = Inl e \<and>
            leaf_process E cfg n w rs = Inl e) \<or>
    (\<exists>s out. rfilter (\<lambda>r. vf_matches E (fo_data (cfg n)) (wstore w r)) rs = Inr out \<and>
       prepared E (fo_data (cfg n)) s \<and>
       leaf_process E cfg n w rs = Inr
         (w\<lparr>wstore := marked (fo_data (cfg n)) (fo_annotate (cfg n)) out (wstore w),
            wstates := (wstates w)(n := s)\<rparr>, out))"
proof -
  have rc: "\<not> is_resource_count (fo_data (cfg n))" and p: "prepared E (fo_data (cfg n)) (wstates w n)"
    using assms by (auto simp: leaf_ok_def states_ok_def)
  from vf_filter_eq[OF rc p assms(3), of "wstore w" "fo_annotate (cfg n)"] assms(4) rc
  show ?thesis by (auto simp: leaf_process_def vf_process_def Let_def)
qed

lemma leaf_event_run:
  assumes "leaf_ok E cfg n" "states_ok E cfg w" "fo_event (cfg n)" "wevent w = Some e"
  shows "(\<exists>x. vf_matches E (fo_data (cfg n)) e = Inl x \<and> leaf_process E cfg n w rs = Inl x) \<or>
    (\<exists>s b. vf_matches E (fo_data (cfg n)) e = Inr b \<and> prepared E (fo_data (cfg n)) s \<and>
       leaf_process E cfg n w rs = Inr
         (w\<lparr>wevent := Some (mark (fo_data (cfg n)) True b e), wstates := (wstates w)(n := s)\<rparr>,
          if b then rs else []))"
proof -
  have rc: "\<not> is_resource_count (fo_data (cfg n))" and p: "prepared E (fo_data (cfg n)) (wstates w n)"
    using assms by (auto simp: leaf_ok_def states_ok_def)
  from vf_call_eq[OF rc p, of e True] show ?thesis
  proof (elim disjE exE conjE)
    fix x assume "vf_matches E (fo_data (cfg n)) e = Inl x"
      "vf_call E (fo_data (cfg n)) True (wstates w n) e = Inl x"
    with assms(3,4) show ?thesis by (simp add: leaf_process_def event_process_def)
  next
    fix s b assume m: "vf_matches E (fo_data (cfg n)) e = Inr b" "prepared E (fo_data (cfg n)) s"
      "vf_call E (fo_data (cfg n)) True (wstates w n) e = Inr (s, mark (fo_data (cfg n)) True b e, b)"
    then have "leaf_process E cfg n w rs = Inr
        (w\<lparr>wevent := Some (mark (fo_data (cfg n)) True b e), wstates := (wstates w)(n := s)\<rparr>,
          if b then rs else [])"
      using assms(3,4) by (simp add: leaf_process_def event_process_def)
    with m(1,2) show ?thesis by blast
  qed
qed

lemma leaf_noevent_run:
  assumes "fo_event (cfg n)" "wevent w = None"
  shows "leaf_process E cfg n w rs = Inr (w, rs)"
  using assms by (cases w) (simp add: leaf_process_def event_process_def)

lemma states_ok_upd:
  "states_ok E cfg w \<Longrightarrow> prepared E (fo_data (cfg n)) s \<Longrightarrow>
   states_ok E cfg (w\<lparr>wstore := st, wevent := ev, wstates := (wstates w)(n := s)\<rparr>)"
  by (simp add: states_ok_def)

lemma leaf_process_select:
  assumes ok: "leaf_ok E cfg n" and inv: "states_ok E cfg w" and d: "distinct rs"
    and run: "leaf_process E cfg n w rs = Inr (w', out)"
  shows "out = filter (\<lambda>r. leaf_sat E cfg n (map_option bare (wevent w)) (bare (wstore w r))) rs"
proof -
  have b: "vf_matches E (fo_data (cfg n)) (bare x) = vf_matches E (fo_data (cfg n)) x" for x
    using ok by (simp add: leaf_ok_def blind_def)
  show ?thesis
  proof (cases "fo_event (cfg n)")
    case False
    with leaf_value_run[OF ok inv d False] run
    have f: "rfilter (\<lambda>r. vf_matches E (fo_data (cfg n)) (wstore w r)) rs = Inr out" by auto
    then have "out = filter (\<lambda>r. vf_matches E (fo_data (cfg n)) (wstore w r) = Inr True) rs"
      by (rule rfilter_Inr_filter)
    with False show ?thesis by (simp add: leaf_sat_def b)
  next
    case True
    show ?thesis
    proof (cases "wevent w")
      case None
      then show ?thesis using leaf_noevent_run[of cfg n w E rs] True run inv
        by (auto simp: leaf_sat_def b)
    next
      case (Some e)
      then show ?thesis using leaf_event_run[OF ok inv True Some, of rs] True run inv
        by (auto simp: leaf_sat_def b)
    qed
  qed
qed

lemma leaf_process_step:
  assumes ok: "leaf_ok E cfg n" and inv: "states_ok E cfg w" and d: "distinct rs"
    and run: "leaf_process E cfg n w rs = Inr (w', out)"
  shows "annot_step (states_ok E cfg) w w'"
proof (cases "fo_event (cfg n)")
  case False
  with leaf_value_run[OF ok inv d False] run inv show ?thesis
    by (auto simp: annot_step_def same_bare_marked states_ok_def)
next
  case True
  show ?thesis
  proof (cases "wevent w")
    case None
    then show ?thesis using leaf_noevent_run[of cfg n w E rs] True run inv
      by (auto simp: annot_step_def states_ok_def)
  next
    case (Some e)
    then show ?thesis using leaf_event_run[OF ok inv True Some, of rs] True run inv
      by (auto simp: annot_step_def states_ok_def)
  qed
qed

lemma leaf_process_total:
  assumes ok: "leaf_ok E cfg n" and inv: "states_ok E cfg w" and d: "distinct rs" and ne: "rs \<noteq> []"
    and def: "\<forall>r \<in> set rs. leaf_defd E cfg n (map_option bare (wevent w)) (bare (wstore w r))"
  shows "\<exists>x. leaf_process E cfg n w rs = Inr x"
proof -
  have b: "vf_matches E (fo_data (cfg n)) (bare x) = vf_matches E (fo_data (cfg n)) x" for x
    using ok by (simp add: leaf_ok_def blind_def)
  obtain r where r: "r \<in> set rs" using ne by (cases rs) auto
  show ?thesis
  proof (cases "fo_event (cfg n)")
    case False
    with def b have "\<exists>ys. rfilter (\<lambda>r. vf_matches E (fo_data (cfg n)) (wstore w r)) rs = Inr ys"
      by (intro rfilter_total) (auto simp: leaf_defd_def)
    with leaf_value_run[OF ok inv d False] show ?thesis by fastforce
  next
    case True
    show ?thesis
    proof (cases "wevent w")
      case None
      then show ?thesis using leaf_noevent_run[of cfg n w E rs] True by simp
    next
      case (Some e)
      with def r True b have "\<exists>x. vf_matches E (fo_data (cfg n)) e = Inr x"
        by (auto simp: leaf_defd_def)
      with leaf_event_run[OF ok inv True Some, of rs] show ?thesis by auto
    qed
  qed
qed

interpretation vf: total_leaf "leaf_process E cfg" "leaf_sat E cfg" "leaf_ok E cfg" "states_ok E cfg" "leaf_defd E cfg"
  for E cfg
proof unfold_locales
  fix w st assume "states_ok E cfg w"
  then show "states_ok E cfg (w\<lparr>wstore := st\<rparr>)" by (simp add: states_ok_def)
qed (blast intro: leaf_process_select leaf_process_step leaf_process_total)+

end
