(* ===== verification/Block_Semantics.thy ===== *)
theory Block_Semantics
  imports Leaves
begin

text \<open>
  What the blocks of a policy do, on value and event filters: the resources selected, the
  annotations left behind. With it, which filters have an answer that does not depend on
  annotations, the condition the statements need.
\<close>

section \<open>Filters that do not look at annotations\<close>

lemma plain_keys [simp]:
  "\<not> is_annot ''Tags''" "\<not> is_annot ''labels''" "\<not> is_annot ''tags''"
  by (simp_all add: is_annot_def)

lemma get_tag_value_bare: "get_tag_value ts k (bare i) = get_tag_value ts k i"
  by (simp add: get_tag_value_def dhas_bare dget_or_bare cong: if_cong)

lemma get_resource_value_bare:
  assumes "\<not> is_annot k" "\<And>d. ext_jmes E k (PDict (bare d)) = ext_jmes E k (PDict d)"
  shows "get_resource_value E data rx (PStr k) (bare i) = get_resource_value E data rx (PStr k) i"
  using assms by (simp add: get_resource_value_def get_tag_value_bare dhas_bare dget_or_bare del: dhas_dget)

lemma process_value_type_bare:
  assumes "vt \<noteq> ''expr''"
  shows "process_value_type E data vt s v (bare i) = process_value_type E data vt s v i"
  using assms by (simp add: process_value_type_def)

lemma match_body_bare:
  assumes "vs_k s = PStr k" "\<not> is_annot k"
    and "\<And>d. ext_jmes E k (PDict (bare d)) = ext_jmes E k (PDict d)"
    and "vs_vtype s \<noteq> PStr ''expr''"
  shows "match_body E data s (bare d) = match_body E data s d"
proof -
  have "(case vs_vtype s of PStr t \<Rightarrow> t | _ \<Rightarrow> []) \<noteq> ''expr''"
    using assms(4) by (cases "vs_vtype s") auto
  note pv = process_value_type_bare[OF this]
  have "get_resource_value E data rx (PStr k) (bare d) = get_resource_value E data rx (PStr k) d" for rx
    by (rule get_resource_value_bare[OF assms(2,3)])
  then show ?thesis unfolding match_body_def assms(1) pv by simp
qed

text \<open>A filter on a key of the resource, a tag, or a path no annotation changes.\<close>

lemma match_init_vtype:
  assumes "match_init E data vstate0 = Inr s"
  shows "vs_vtype s = PNone \<or> vs_vtype s = dget_or data ''value_type'' PNone"
  using assms
  by (auto simp: match_init_def vstate0_def rbind_def split: if_splits sum.splits)

lemma blind_key:
  assumes "filter_key data = PStr k" "\<not> is_annot k"
    and "\<And>d. ext_jmes E k (PDict (bare d)) = ext_jmes E k (PDict d)"
    and "\<not> dhas data ''value_path''" "dget_or data ''value_type'' PNone \<noteq> PStr ''expr''"
  shows "blind E data"
  unfolding blind_def
proof
  fix d
  have prep: "match_prep E data vstate0 i = match_init E data vstate0" for i
    using assms(4) by (cases "match_init E data vstate0") (auto simp: match_prep_def match_path_def)
  show "vf_matches E data (bare d) = vf_matches E data d"
  proof (cases "match_init E data vstate0")
    case (Inl e)
    then show ?thesis by (simp add: vf_matches_def vmatch_def prep)
  next
    case (Inr s)
    have "vs_k s = PStr k" using match_init_key[OF Inr] assms(1) by simp
    moreover have "vs_vtype s \<noteq> PStr ''expr''" using match_init_vtype[OF Inr] assms(5) by auto
    ultimately have "match_body E data s (bare d) = match_body E data s d"
      using assms(2,3) by (intro match_body_bare)
    with Inr show ?thesis by (simp add: vf_matches_def vmatch_def prep)
  qed
qed

section \<open>An example policy\<close>

text \<open>Two filters, \<open>Name: a\<close> and \<open>State in [x]\<close>, on three resources.\<close>

definition ex_cfg :: "nat \<Rightarrow> fobj" where
  "ex_cfg n =
     (if n = 0 then \<lparr>fo_data = [(''Name'', PStr ''a'')], fo_annotate = True, fo_event = False\<rparr>
      else \<lparr>fo_data = [(''key'', PStr ''State''), (''op'', PStr ''in''), (''value'', PList [PStr ''x''])],
            fo_annotate = True, fo_event = False\<rparr>)"

definition ex_resource :: "string \<Rightarrow> string \<Rightarrow> string \<Rightarrow> pydict" where
  "ex_resource i n s = [(''Id'', PStr i), (''Name'', PStr n), (''State'', PStr s)]"

definition ex_store :: store where
  "ex_store r = (if r = 0 then ex_resource ''i0'' ''a'' ''x''
                 else if r = 1 then ex_resource ''i1'' ''b'' ''x'' else ex_resource ''i2'' ''b'' ''y'')"

definition ex_world :: world where
  "ex_world = \<lparr>wstore = ex_store, wevent = None, wstates = (\<lambda>n. vstate0)\<rparr>"

definition ex_ids :: "ref \<Rightarrow> rid" where
  "ex_ids r = (if r = 0 then IdStr ''i0'' else if r = 1 then IdStr ''i1'' else IdStr ''i2'')"

lemma ex_keys [simp]:
  "\<not> is_annot ''Id''" "\<not> is_annot ''Name''" "\<not> is_annot ''State''"
  by (simp_all add: is_annot_def)

lemma ex_ok: "leaf_ok (ext0 t) ex_cfg n"
proof -
  have "blind (ext0 t) (fo_data (ex_cfg n))"
    by (rule blind_key[where k = "if n = 0 then ''Name'' else ''State''"])
       (auto simp: ex_cfg_def filter_key_def dget_or_def ext0_def dict_simps)
  then show ?thesis by (simp add: leaf_ok_def is_resource_count_def ex_cfg_def dget_or_def)
qed

lemma ex_unique: "unique_ids E ''Id'' ex_store [0, 1, 2] ex_ids"
  by (simp add: unique_ids_def get_rid_def dindex_def ex_store_def ex_resource_def rid_of_def ex_ids_def)

lemma ex_stable: "stable_id E ''Id''"
  by (rule stable_id_plain) simp_all

lemmas vf_eval = vf_matches_def vmatch_def match_prep_def match_init_def vstate0_def match_path_def
  match_body_def get_resource_value_def dget_or_def value_match_def py_eq_r_def unparsed_def
  OPERATORS_def dindex_def operator_in_def py_in_def mem_eq_def op_result_def dhas_dget

lemma ex_matches_0:
  "vf_matches (ext0 t) (fo_data (ex_cfg 0)) (ex_store r) = Inr (r = 0)"
  by (cases "r = 0"; cases "r = 1") (simp_all add: vf_eval ex_cfg_def ex_store_def ex_resource_def)

lemma ex_matches_1:
  "vf_matches (ext0 t) (fo_data (ex_cfg (Suc 0))) (ex_store r) = Inr (r < 2)"
proof -
  consider "r = 0" | "r = 1" | "r \<noteq> 0" "r \<noteq> 1" "\<not> r < 2" by linarith
  then show ?thesis
    by cases (simp_all add: vf_eval ex_cfg_def ex_store_def ex_resource_def)
qed

lemma bare_ex_store [simp]: "bare (ex_store r) = ex_store r"
  by (simp add: ex_store_def ex_resource_def bare_Cons)

lemma ex_defd: "leaf_defd (ext0 t) ex_cfg n None (ex_store r)"
proof -
  have "ex_cfg n = ex_cfg 0 \<or> ex_cfg n = ex_cfg (Suc 0)" "\<not> fo_event (ex_cfg n)" by (simp_all add: ex_cfg_def)
  then show ?thesis by (auto simp: leaf_defd_def ex_matches_0 ex_matches_1)
qed

lemma ex_sat:
  "leaf_sat (ext0 t) ex_cfg 0 None (ex_store r) = (r = 0)"
  "leaf_sat (ext0 t) ex_cfg (Suc 0) None (ex_store r) = (r < 2)"
  using ex_matches_0[of t r] ex_matches_1[of t r] by (simp_all add: leaf_sat_def ex_cfg_def)

section \<open>The properties\<close>

lemma ex_world_simps: "wstore ex_world = ex_store" "wevent ex_world = None" "states_ok E cfg ex_world"
  by (simp_all add: ex_world_def states_ok_0)

lemma ex_returns:
  "\<exists>w' out. process (leaf_process (ext0 t) ex_cfg) (ext0 t) ''Id'' id tr ex_world [0, 1, 2] = Inr (w', out)"
proof -
  have "vf.returns (ext0 t) ex_cfg (ext0 t) ''Id'' id tr"
    by (rule vf.tree_returns) (simp_all add: ex_stable good_order_def ex_ok list_all_iff)
  then show ?thesis
    by (rule vf.returnsD[where f = ex_ids])
       (auto simp: ex_world_simps ex_unique[simplified] vf.all_defd_def ex_defd)
qed

text \<open>C1: a tree of \<open>or\<close>, \<open>and\<close> and \<open>not\<close> blocks over value and event filters returns
  (when its members do on each resource) and selects, of resources with different ids, exactly
  those for which the tree's boolean formula over the members holds, each once, whatever
  the filter objects did before and in whatever order Python iterates over the id sets.\<close>
theorem blocks_select:
  assumes "list_all (leaf_ok E cfg) (leaves t)" "stable_id E key" "good_order order"
    and "states_ok E cfg w" "distinct rs" "rs \<noteq> []" "unique_ids E key (wstore w) rs f"
    and "\<forall>n \<in> set (leaves t). \<forall>r \<in> set rs.
           leaf_defd E cfg n (map_option bare (wevent w)) (bare (wstore w r))"
  shows "\<exists>w' out. process (leaf_process E cfg) E key order t w rs = Inr (w', out) \<and> distinct out \<and>
    set out = {r \<in> set rs. feval (\<lambda>n. leaf_sat E cfg n (map_option bare (wevent w)) (bare (wstore w r))) t}"
proof -
  obtain w' out where p: "process (leaf_process E cfg) E key order t w rs = Inr (w', out)"
    using vf.returnsD[OF vf.tree_returns[OF assms(2,3,1)] assms(4-7)] assms(8)
    by (auto simp: vf.all_defd_def)
  show ?thesis
    using vf.selectsD[OF vf.tree_selects[OF assms(2,3,1)] p assms(4,5,7)] p
    by (auto simp: vf.reads_def)
qed

lemma blocks_select_witness:
  "\<exists>w' out. process (leaf_process (ext0 0) ex_cfg) (ext0 0) ''Id'' id (Or [Leaf 0, Not [Leaf 1]]) ex_world [0, 1, 2]
     = Inr (w', out) \<and> distinct out \<and> set out = {0, 2}"
proof -
  have "{r \<in> set [0, 1, 2]. feval (\<lambda>n. leaf_sat (ext0 0) ex_cfg n None (ex_store r)) (Or [Leaf 0, Not [Leaf 1]])}
      = {0, 2 :: nat}"
    by (auto simp: ex_sat)
  then show ?thesis
    using blocks_select[of "ext0 0" ex_cfg "Or [Leaf 0, Not [Leaf 1]]" "''Id''" id ex_world "[0, 1, 2]" ex_ids]
    by (simp add: ex_ok ex_stable good_order_def ex_world_simps ex_unique[simplified] ex_defd)
qed

text \<open>C14: the sweeper. After an \<open>and\<close> block, a resource the block rejects has the contents
  it had before it, its annotations included; after a \<open>not\<close> block, every resource has,
  whatever annotations the members left on the way.\<close>
theorem blocks_restore:
  assumes "list_all (leaf_ok E cfg) (concat (map leaves ts))" "stable_id E key" "good_order order"
    and "states_ok E cfg w" "distinct rs" "unique_ids E key (wstore w) rs f"
    and "t = And ts \<or> t = Not ts" "process (leaf_process E cfg) E key order t w rs = Inr (w', out)"
    and "r \<in> set rs" "t = And ts \<Longrightarrow> r \<notin> set out" "dwf (wstore w r)"
  shows "dget (wstore w' r) = dget (wstore w r)"
proof -
  have mem: "vf.selects E cfg E key order t'" if "t' \<in> set ts" for t'
    using vf.tree_selects[OF assms(2,3)] assms(1) that by (auto simp: list_all_iff)
  show ?thesis
    using assms(7)
  proof
    assume t: "t = And ts"
    show ?thesis
      using vf.And_restores[OF assms(2) mem _ assms(4-6) _ assms(11)] assms(8-10) t by blast
  next
    assume t: "t = Not ts"
    show ?thesis
      using vf.Not_restores[OF assms(2,3) mem _ assms(4-6,9,11)] assms(8) t by blast
  qed
qed

lemma blocks_restore_witness:
  "\<exists>w' out. process (leaf_process (ext0 0) ex_cfg) (ext0 0) ''Id'' id (Not [Leaf 1, Leaf 0]) ex_world [0, 1, 2]
     = Inr (w', out) \<and> dget (wstore w' 1) = dget (ex_store 1)"
proof -
  obtain w' out where p: "process (leaf_process (ext0 0) ex_cfg) (ext0 0) ''Id'' id (Not [Leaf 1, Leaf 0])
      ex_world [0, 1, 2] = Inr (w', out)"
    using ex_returns by blast
  have "dget (wstore w' 1) = dget (wstore ex_world 1)"
    by (rule blocks_restore[OF _ ex_stable _ _ _ _ _ p, where f = ex_ids])
       (simp_all add: ex_ok good_order_def ex_world_simps ex_unique[simplified] ex_store_def ex_resource_def dwf_def)
  with p show ?thesis by (auto simp: ex_world_simps)
qed

end
