(* ===== verification/Digits.thy ===== *)
theory Digits
  imports Utils_Parse
begin

text \<open>
  Decimal numerals: what printing a number and reading it back as an int, a float, a
  version component or the amount of a duration gives.
\<close>

section \<open>Digits\<close>

lemma is_digit_code: "is_digit c \<longleftrightarrow> 48 \<le> (of_char c :: nat) \<and> of_char c \<le> (57 :: nat)"
  by (simp add: is_digit_def less_eq_char_def)

lemma digit_char_props: "k < 10 \<Longrightarrow> is_digit (digit_char k) \<and> digit_val (digit_char k) = k"
  by (simp add: is_digit_code digit_char_def digit_val_def)

lemma nat_of_digits_snoc: "nat_of_digits (xs @ [c]) = 10 * nat_of_digits xs + digit_val c"
  by (simp add: nat_of_digits_def)

lemma str_of_nat_digits: "list_all is_digit (str_of_nat n)"
proof (induction n rule: str_of_nat.induct)
  case (1 n)
  then show ?case by (subst str_of_nat.simps) (auto simp: digit_char_props)
qed

lemma str_of_nat_not_Nil [simp]: "str_of_nat n \<noteq> []"
  by (subst str_of_nat.simps) simp

lemma isdigit_str_of_nat [simp]: "isdigit (str_of_nat n)"
  by (simp add: isdigit_def str_of_nat_digits)

lemma nat_of_str_of_nat [simp]: "nat_of_digits (str_of_nat n) = n"
proof (induction n rule: str_of_nat.induct)
  case (1 n)
  show ?case
  proof (cases "n < 10")
    case True
    then show ?thesis by (subst str_of_nat.simps) (simp add: nat_of_digits_def digit_char_props)
  next
    case False
    with 1 show ?thesis
      by (subst str_of_nat.simps) (simp add: nat_of_digits_snoc digit_char_props)
  qed
qed

text \<open>A digit is none of the characters the grammars treat specially.\<close>

lemma digit_not_special:
  "is_digit c \<Longrightarrow> \<not> is_space c \<and> c \<notin> set ''+-.,_eEinfINFatyATYWDHMSTP''"
  by (auto simp: is_digit_code is_space_def Let_def)

lemma strip_no_space: "(\<And>c. c \<in> set s \<Longrightarrow> \<not> is_space c) \<Longrightarrow> strip s = s"
proof -
  assume ns: "\<And>c. c \<in> set s \<Longrightarrow> \<not> is_space c"
  have l: "dropWhile is_space xs = xs" if "set xs \<subseteq> set s" for xs
    using that ns by (cases xs) auto
  show ?thesis
    using l[of s] l[of "rev s"] by (simp add: strip_def strip_by_def lstrip_by_def rstrip_by_def)
qed

lemma strip_digits: "isdigit s \<Longrightarrow> strip s = s"
  by (rule strip_no_space) (use digit_not_special in \<open>auto simp: isdigit_def list_all_iff\<close>)

lemma digit_part_from_digits: "list_all is_digit s \<Longrightarrow> s \<noteq> [] \<or> b \<Longrightarrow> digit_part_from b s = Some s"
proof (induction s arbitrary: b)
  case (Cons c s)
  then have "digit_part_from True s = Some s" by (intro Cons.IH) auto
  with Cons.prems show ?case by simp
qed simp

lemma digit_part_digits: "isdigit s \<Longrightarrow> digit_part s = Some (nat_of_digits s)"
  by (simp add: digit_part_def isdigit_def digit_part_from_digits)

lemma int_of_digits: "isdigit s \<Longrightarrow> int_of_str s = Some (int (nat_of_digits s))"
proof -
  assume s: "isdigit s"
  then obtain c cs where c: "s = c # cs" "is_digit c" by (cases s) (auto simp: isdigit_def)
  then have "c \<noteq> CHR ''-''" "c \<noteq> CHR ''+''" using digit_not_special[of c] by auto
  with s c(1) show ?thesis by (simp add: int_of_str_def strip_digits digit_part_digits)
qed

lemma int_of_str_of_int: "int_of_str (str_of_int i) = Some i"
proof (cases "i < 0")
  case False
  then show ?thesis by (simp add: str_of_int_def int_of_digits)
next
  case True
  have "\<not> is_space c" if "c \<in> set (str_of_nat (nat (- i)))" for c
    using that str_of_nat_digits[of "nat (- i)"] digit_not_special by (auto simp: list_all_iff)
  then have "strip (CHR ''-'' # str_of_nat (nat (- i))) = CHR ''-'' # str_of_nat (nat (- i))"
    by (intro strip_no_space) (auto simp: is_space_def)
  with True show ?thesis by (simp add: int_of_str_def str_of_int_def digit_part_digits)
qed

lemma char_lower_digit: "is_digit c \<Longrightarrow> char_lower c = c"
  by (auto simp: is_digit_def char_lower_def is_upper_def less_eq_char_def)

lemma float_of_digits:
  assumes "isdigit s" "nat_of_digits s < 2 ^ 53"
  shows "float_of_str s = Some (Fin (of_nat (nat_of_digits s)))"
proof -
  obtain c cs where c: "s = c # cs" "is_digit c" using assms(1) by (cases s) (auto simp: isdigit_def)
  have no: "x \<notin> set s" if "x \<in> set ''+-.eEinf''" for x
    using assms(1) that digit_not_special by (auto simp: isdigit_def list_all_iff)
  have low: "lower s = s"
    using assms(1) unfolding lower_def isdigit_def list_all_iff by (intro map_idI) (auto simp: char_lower_digit)
  have first: "split_at_first P s = (s, None)" if "\<And>x. x \<in> set s \<Longrightarrow> \<not> P x" for P
    using that by (simp add: split_at_first_def takeWhile_eq_all_conv[THEN iffD2] dropWhile_eq_Nil_conv[THEN iffD2])
  have "c \<noteq> CHR ''-''" "c \<noteq> CHR ''+''" using no[of c] c(1) by auto
  moreover have "unsigned_float s = Some (Fin (of_nat (nat_of_digits s)))"
  proof -
    have "s \<noteq> ''inf''" "s \<noteq> ''infinity''" "s \<noteq> ''nan''" using no[of "CHR ''n''"] by auto
    moreover have "split_at_first (\<lambda>c. c = CHR ''e'' \<or> c = CHR ''E'') s = (s, None)"
      by (rule first) (use no in auto)
    moreover have "split_at_first (\<lambda>c. c = CHR ''.'') s = (s, None)"
      by (rule first) (use no in auto)
    ultimately show ?thesis
      using assms by (simp add: unsigned_float_def low mantissa_def digit_part_digits round_double_nat)
  qed
  ultimately show ?thesis
    using c(1) assms(1) by (simp add: float_of_str_def strip_digits)
qed

section \<open>Durations of whole amounts\<close>

lemma unit_amount_digits:
  assumes "isdigit s" "nat_of_digits s < 2 ^ 53"
  shows "unit_amount u s = Some (int (nat_of_digits s) * unit_us u, 0)"
proof -
  have "map (\<lambda>c. if c = CHR '','' then CHR ''.'' else c) s = s"
    using assms(1) digit_not_special by (intro map_idI) (auto simp: isdigit_def list_all_iff)
  then show ?thesis
    using float_of_digits[OF assms] by (simp add: unit_amount_def round_double_def)
qed

lemma takeWhile_digits:
  "isdigit s \<Longrightarrow> \<not> is_digit u \<Longrightarrow> takeWhile is_digit (s @ u # r) = s \<and> dropWhile is_digit (s @ u # r) = u # r"
  by (auto simp: isdigit_def list_all_iff)

lemma unit_group_digits:
  assumes "isdigit s" "\<not> is_digit u" "u \<noteq> CHR ''.''" "u \<noteq> CHR '',''"
  shows "unit_group u (s @ u # r) = (Some s, r)"
  using assms takeWhile_digits[OF assms(1,2), of r] unfolding unit_group_def num_tok_def
  by (auto simp: Let_def isdigit_def)

lemma unit_group_other:
  assumes "isdigit s" "\<not> is_digit u" "u \<noteq> CHR ''.''" "u \<noteq> CHR '',''" "u \<noteq> v"
  shows "unit_group v (s @ u # r) = (None, s @ u # r)"
  using assms takeWhile_digits[OF assms(1,2), of r] unfolding unit_group_def num_tok_def
  by (auto simp: Let_def isdigit_def)

lemma unit_group_Nil: "unit_group u [] = (None, [])"
  by (simp add: unit_group_def num_tok_def)

lemma unit_group_stop: "\<not> is_digit c \<Longrightarrow> unit_group u (c # r) = (None, c # r)"
  by (simp add: unit_group_def num_tok_def)

lemma letters_not_digits [simp]:
  "\<not> is_digit CHR ''W''" "\<not> is_digit CHR ''D''" "\<not> is_digit CHR ''H''" "\<not> is_digit CHR ''M''"
  "\<not> is_digit CHR ''S''" "\<not> is_digit CHR ''T''" "\<not> is_digit CHR ''P''" "\<not> is_digit CHR ''.''"
  by (simp_all add: is_digit_code)

text \<open>The duration of \<open>d\<close> days, \<open>h\<close> hours, \<open>m\<close> minutes and \<open>s\<close> seconds, written out.\<close>

definition iso_print :: "nat \<Rightarrow> nat \<Rightarrow> nat \<Rightarrow> nat \<Rightarrow> string" where
  "iso_print d h m s = ''P'' @ str_of_nat d @ ''DT'' @ str_of_nat h @ ''H'' @ str_of_nat m @ ''M'' @
     str_of_nat s @ ''S''"

lemma iso_duration_print:
  "iso_duration (iso_print d h m s) =
     Some [(Weeks, None), (Days, Some (str_of_nat d)), (Hours, Some (str_of_nat h)),
           (Minutes, Some (str_of_nat m)), (Seconds, Some (str_of_nat s))]"
proof -
  define t where "t = str_of_nat h @ CHR ''H'' # str_of_nat m @ CHR ''M'' # str_of_nat s @ ''S''"
  have t: "iso_time_part t = ([(Hours, Some (str_of_nat h)), (Minutes, Some (str_of_nat m)),
      (Seconds, Some (str_of_nat s))], [])"
    by (simp add: iso_time_part_def t_def unit_group_digits)
  have d: "iso_date_part (str_of_nat d @ CHR ''D'' # CHR ''T'' # t) =
      ([(Weeks, None), (Days, Some (str_of_nat d))], CHR ''T'' # t)"
    by (simp add: iso_date_part_def unit_group_digits unit_group_other)
  have "t \<noteq> [] \<and> is_digit (hd t)"
    using str_of_nat_digits[of h] by (cases "str_of_nat h") (auto simp: t_def)
  then have "iso_duration (CHR ''P'' # str_of_nat d @ CHR ''D'' # CHR ''T'' # t) =
     Some [(Weeks, None), (Days, Some (str_of_nat d)), (Hours, Some (str_of_nat h)),
           (Minutes, Some (str_of_nat m)), (Seconds, Some (str_of_nat s))]"
    by (simp add: iso_duration_def d t)
  then show ?thesis by (simp add: iso_print_def t_def)
qed

lemma no_sep_digits [simp]: "\<not> has_sep (str_of_nat n)"
  using str_of_nat_digits[of n] digit_not_special by (auto simp: has_sep_def list_all_iff)

lemma strip_iso_print: "strip (iso_print d h m s) = iso_print d h m s"
proof (rule strip_no_space)
  fix c assume "c \<in> set (iso_print d h m s)"
  then have "is_digit c \<or> c \<in> set ''PDTHMS''"
    using str_of_nat_digits by (auto simp: iso_print_def list_all_iff)
  then show "\<not> is_space c" using digit_not_special[of c] by (auto simp: is_space_def)
qed

lemma duration_us_print:
  assumes "d < 2 ^ 53" "h < 2 ^ 53" "m < 2 ^ 53" "s < 2 ^ 53"
    and "(int d * 86400 + int h * 3600 + int m * 60 + int s) div 86400 \<le> MAX_DELTA_DAYS"
  shows "duration_us (iso_print d h m s) = Some ((int d * 86400 + int h * 3600 + int m * 60 + int s) * 1000000)"
proof -
  let ?t = "int d * 86400000000 + (int h * 3600000000 + (int m * 60000000 + int s * 1000000))"
  have t: "?t = (int d * 86400 + int h * 3600 + int m * 60 + int s) * 1000000" by simp
  have div: "?t div 86400000000 = (int d * 86400 + int h * 3600 + int m * 60 + int s) div 86400"
    unfolding t by (subst div_mult_mult2[of "1000000::int", symmetric]) simp_all
  have "sum_amounts [(Days, str_of_nat d), (Hours, str_of_nat h), (Minutes, str_of_nat m), (Seconds, str_of_nat s)]
      = Some (?t, 0)"
    using assms(1-4) by (simp add: unit_amount_digits)
  moreover have "round_even (of_int ?t) = ?t" by (rule round_even_int)
  ultimately have "timedelta [(Days, str_of_nat d), (Hours, str_of_nat h), (Minutes, str_of_nat m), (Seconds, str_of_nat s)]
      = Some ?t"
    using assms(5) div by (simp only: timedelta_def option.case prod.case add_0_right Let_def unit_us.simps) simp
  then show ?thesis
    by (simp add: duration_us_def strip_iso_print iso_duration_print)
qed

section \<open>Dotted version numbers\<close>

definition dotted :: "nat list \<Rightarrow> string" where
  "dotted ns = join ''.'' (map str_of_nat ns)"

lemma vclass_digit: "is_digit c \<Longrightarrow> vclass_of c = CDigit"
  by (simp add: vclass_of_def)

lemma vruns_dot: "vruns (CHR ''.'' # r) = (CDot, ''.'') # vruns r"
  by (auto simp: vclass_of_def is_lower_def less_eq_char_def split: list.splits)

lemma vruns_digits_dot:
  "list_all is_digit ds \<Longrightarrow> ds \<noteq> [] \<Longrightarrow> vruns (ds @ CHR ''.'' # r) = (CDigit, ds) # (CDot, ''.'') # vruns r"
proof (induction ds)
  case (Cons c ds)
  show ?case
  proof (cases "ds = []")
    case True
    with Cons.prems show ?thesis by (simp only: append_Cons append_Nil vruns.simps(2)[of c] vruns_dot) (simp add: vclass_digit)
  next
    case False
    with Cons show ?thesis by (simp add: vclass_digit)
  qed
qed simp

lemma vruns_digits: "list_all is_digit ds \<Longrightarrow> ds \<noteq> [] \<Longrightarrow> vruns ds = [(CDigit, ds)]"
proof (induction ds)
  case (Cons c ds)
  then show ?case by (cases "ds = []") (simp_all add: vclass_digit)
qed simp

lemma version_parse_dotted: "version_parse (dotted ns) = map VInt ns"
proof (induction ns)
  case Nil
  then show ?case by (simp add: version_parse_def dotted_def)
next
  case (Cons n ns)
  show ?case
  proof (cases ns)
    case Nil
    then show ?thesis
      by (simp add: version_parse_def dotted_def vruns_digits str_of_nat_digits vcomp_of_def)
  next
    case (Cons k ks)
    then have "dotted (n # ns) = str_of_nat n @ CHR ''.'' # dotted ns" by (simp add: dotted_def)
    then show ?thesis
      using Cons.IH by (simp add: version_parse_def vruns_digits_dot str_of_nat_digits vcomp_of_def)
  qed
qed

lemma version_ord_numeric: "version_ord (map VInt v) (map VInt w) = Some (ord_of v w)"
proof (induction v arbitrary: w)
  case Nil
  then show ?case by (cases w) (simp_all add: ord_of_def)
next
  case (Cons x v)
  show ?case
  proof (cases w)
    case (Cons y ws)
    then show ?thesis using Cons.IH[of ws] by (auto simp: ord_of_def)
  qed (simp add: ord_of_def)
qed

end
