(* ===== verification/Value_Semantics.thy ===== *)
theory Value_Semantics
  imports Block_Semantics Digits
begin

text \<open>
  What value filters decide: that a filter object run over a set of resources is its
  stateless reading applied to each, and the reading of the typed filters (durations,
  networks, versions) in terms of numbers.
\<close>

section \<open>Stateful and stateless runs\<close>

text \<open>C18: a value filter object that has been called any number of times keeps, of distinct
  resources, those a fresh object matches, in order, raises what the first failing
  resource raises, and annotates exactly the resources it keeps.\<close>
theorem vf_process_reference:
  assumes "prepared E data s" "\<not> is_resource_count data" "distinct rs"
  shows "rbind (vf_process E data a s st rs) (\<lambda>(s', st', out). Inr (st', out)) =
         rbind (rfilter (\<lambda>r. vf_matches E data (st r)) rs) (\<lambda>out. Inr (marked data a out st, out))"
  using vf_filter_eq[OF assms(2,1,3), of st a] assms(2)
  by (auto simp: vf_process_def)

lemma vf_process_reference_witness:
  "rbind (vf_process (ext0 0) (fo_data (ex_cfg 0)) True vstate0 ex_store [0, 1]) (\<lambda>(s', st', out). Inr (st', out)) =
   Inr (marked (fo_data (ex_cfg 0)) True [0] ex_store, [0])"
proof -
  have "rfilter (\<lambda>r. vf_matches (ext0 0) (fo_data (ex_cfg 0)) (ex_store r)) [0, 1] = Inr [0]"
    by (simp add: ex_matches_0)
  moreover have "\<not> is_resource_count (fo_data (ex_cfg 0))"
    by (simp add: is_resource_count_def dget_or_def ex_cfg_def)
  ultimately show ?thesis
    using vf_process_reference[of "ext0 0" "fo_data (ex_cfg 0)" vstate0 "[0, 1]" True ex_store] by simp
qed

section \<open>Duration filters\<close>

lemma parse_duration_cases: "parse_duration v = PNone \<or> (\<exists>t. parse_duration v = PDelta t)"
  by (simp add: parse_duration_def split: pyval.splits option.splits)

text \<open>The comparison an operator name stands for, on microseconds.\<close>

definition duration_op :: "pyval \<Rightarrow> int \<Rightarrow> int \<Rightarrow> bool" where
  "duration_op op a b =
     (case op of
        PStr s \<Rightarrow>
          if s \<in> set [''eq'', ''equal''] then a = b
          else if s \<in> set [''ne'', ''not-equal''] then a \<noteq> b
          else if s \<in> set [''gt'', ''greater-than''] then a > b
          else if s \<in> set [''ge'', ''gte''] then a \<ge> b
          else if s \<in> set [''le'', ''lte''] then a \<le> b
          else a < b
      | _ \<Rightarrow> a = b)"

lemma delta_ops:
  "py_eq_r (PDelta a) (PDelta b) = Inr (a = b)" "op_ne (PDelta a) (PDelta b) = Inr (a \<noteq> b)"
  "op_gt (PDelta a) (PDelta b) = Inr (a > b)" "op_ge (PDelta a) (PDelta b) = Inr (a \<ge> b)"
  "op_lt (PDelta a) (PDelta b) = Inr (a < b)" "op_le (PDelta a) (PDelta b) = Inr (a \<le> b)"
  by (auto simp: py_eq_r_def op_ne_def op_gt_def op_ge_def op_lt_def op_le_def cmp_with_def unparsed_def ord_of_def)

lemma duration_operators:
  "list_all (\<lambda>op. \<exists>f. dindex (OPERATORS E) op = Inr f \<and>
     f (PDelta a) (PDelta b) = Inr (duration_op (PStr op) a b)) DURATION_OPERATORS"
  unfolding DURATION_OPERATORS_def list.pred_inject OPERATORS_def dindex_def
  by (intro conjI; simp add: delta_ops duration_op_def)

lemma duration_operator:
  "op \<in> set DURATION_OPERATORS \<Longrightarrow>
   \<exists>f. dindex (OPERATORS E) op = Inr f \<and> f (PDelta a) (PDelta b) = Inr (duration_op (PStr op) a b)"
  using duration_operators[of E a b] unfolding list_all_iff by blast

lemma value_match_duration:
  assumes "op = PNone \<or> (\<exists>s. op = PStr s \<and> s \<in> set DURATION_OPERATORS)"
  shows "value_match E op (PDelta b) (PDelta a) = Inr (duration_op op a b)"
proof -
  have no: "py_eq_r (PDelta b) (PStr s) = Inr False" for s by (simp add: py_eq_r_def unparsed_def)
  from assms show ?thesis
  proof (elim disjE exE conjE)
    assume "op = PNone"
    then show ?thesis by (simp add: value_match_def no duration_op_def delta_ops)
  next
    fix s assume s: "op = PStr s" "s \<in> set DURATION_OPERATORS"
    then have "s \<noteq> []" by (auto simp: DURATION_OPERATORS_def)
    with s duration_operator[OF s(2), of E a b] show ?thesis
      by (auto simp: value_match_def no op_result_def)
  qed
qed

lemma two_keys: "dhas d j \<Longrightarrow> dhas d k \<Longrightarrow> j \<noteq> k \<Longrightarrow> length d \<noteq> 1"
  unfolding dhas_def dkeys_def by (cases d) auto

text \<open>What validation leaves to a duration filter.\<close>

lemma validated_duration:
  assumes "vf_validate E data = Inr ()" "dget data ''value_type'' = Some (PStr ''duration'')"
    and "dhas data ''key''"
  obtains b where "parse_duration (dget_or data ''value'' PNone) = PDelta b"
    "dget_or data ''op'' PNone = PNone \<or> (\<exists>s. dget_or data ''op'' PNone = PStr s \<and> s \<in> set DURATION_OPERATORS)"
    "\<not> dhas data ''value_from''" "\<not> dhas data ''value_path''" "length data \<noteq> 1"
proof -
  have len: "length data \<noteq> 1" using assms(2,3) by (intro two_keys[of data "''key''" "''value_type''"]) (auto simp: dhas_dget)
  have vt: "dget_or data ''value_type'' PNone = PStr ''duration''" using assms(2) by (simp add: dget_or_def)
  from assms(1) len have v: "validate_value_type E data = Inr ()"
    by (cases "validate_value_type E data") (simp_all add: vf_validate_def is_resource_count_def vt)
  then have a: "dhas data ''op'' \<longrightarrow> data_op_in (dget_or data ''op'' PNone) DURATION_OPERATORS"
    and b: "\<not> dhas data ''value_from''" "\<not> dhas data ''value_path''"
    and c: "parse_duration (dget_or data ''value'' PNone) \<noteq> PNone"
    unfolding validate_value_type_def by (auto simp: Let_def vt rbind_eq_Inr require_Inr simp del: dhas_dget)
  have op: "dget_or data ''op'' PNone = PNone \<or> (\<exists>s. dget_or data ''op'' PNone = PStr s \<and> s \<in> set DURATION_OPERATORS)"
  proof (cases "dhas data ''op''")
    case True
    with a show ?thesis by (auto simp: data_op_in_def split: pyval.splits)
  next
    case False
    then show ?thesis by (simp add: dhas_dget dget_or_def)
  qed
  from c parse_duration_cases[of "dget_or data ''value'' PNone"] that op b len show thesis by blast
qed

text \<open>A duration filter that validation lets through never raises: on a resource whose
  value is \<open>r\<close> it answers the comparison of the two durations in microseconds, with equality
  when no operator is given, and no when \<open>r\<close> is not an ISO 8601 duration, for \<open>ne\<close> too.\<close>
theorem duration_filter_decides:
  assumes "vf_validate E data = Inr ()" "dget data ''value_type'' = Some (PStr ''duration'')"
    and "dhas data ''key''"
    and "get_resource_value E data (dget_or data ''value_regex'' PNone) (dget_or data ''key'' PNone) d = Inr r"
  shows "vf_matches E data d =
     Inr (\<exists>a b. parse_duration r = PDelta a \<and> parse_duration (dget_or data ''value'' PNone) = PDelta b \<and>
                duration_op (dget_or data ''op'' PNone) a b)"
proof -
  obtain b where b: "parse_duration (dget_or data ''value'' PNone) = PDelta b"
    and op: "dget_or data ''op'' PNone = PNone \<or> (\<exists>s. dget_or data ''op'' PNone = PStr s \<and> s \<in> set DURATION_OPERATORS)"
    and nv: "\<not> dhas data ''value_from''" "\<not> dhas data ''value_path''" and len: "length data \<noteq> 1"
    using validated_duration[OF assms(1-3)] by blast
  define op' where "op' = dget_or data ''op'' PNone"
  define v' where "v' = dget_or data ''value'' PNone"
  have vt: "dget_or data ''value_type'' PNone = PStr ''duration''" using assms(2) by (simp add: dget_or_def)
  have prep: "match_prep E data vstate0 i = Inr \<lparr>vs_k = dget_or data ''key'' PNone, vs_v = v', vs_op = op',
      vs_vtype = PStr ''duration'', vs_init = True\<rparr>" for i
    using nv len by (simp add: match_prep_def match_init_def match_path_def vstate0_def vt op'_def v'_def dhas_dget)
  have notin: "op' \<noteq> PStr ''in''" "op' \<noteq> PStr ''not-in''"
    using op by (auto simp: op'_def DURATION_OPERATORS_def)
  have ty: "process_value_type E data ''duration'' v' r d = Inr (parse_duration v', parse_duration r)"
    by (simp add: process_value_type_def)
  have vm: "value_match E op' (PDelta b) (PDelta a) = Inr (duration_op op' a b)" for a
    by (rule value_match_duration) (use op in \<open>simp add: op'_def\<close>)
  have "vf_matches E data d = rbind (Inr (parse_duration v', parse_duration r))
      (\<lambda>(v, r'). if r' = PNone then Inr False else value_match E op' v r')"
    using assms(4) notin by (simp add: vf_matches_def vmatch_def prep match_body_def ty rbind_assoc Let_def rbind_return)
  also have "\<dots> = Inr (\<exists>a. parse_duration r = PDelta a \<and> duration_op op' a b)"
    using parse_duration_cases[of r] b vm by (auto simp: v'_def)
  finally show ?thesis using b by (simp add: op'_def)
qed

definition ex_duration :: pydict where
  "ex_duration = [(''type'', PStr ''value''), (''key'', PStr ''Age''), (''value_type'', PStr ''duration''),
     (''op'', PStr ''gt''), (''value'', PStr (iso_print 0 0 30 0))]"

lemma parse_iso_print:
  assumes "d < 2 ^ 53" "h < 2 ^ 53" "m < 2 ^ 53" "s < 2 ^ 53"
    and "(int d * 86400 + int h * 3600 + int m * 60 + int s) div 86400 \<le> MAX_DELTA_DAYS"
  shows "parse_duration (PStr (iso_print d h m s)) =
         PDelta ((int d * 86400 + int h * 3600 + int m * 60 + int s) * 1000000)"
  using duration_us_print[OF assms] by (simp add: parse_duration_def)

lemma ex_duration_parts:
  "parse_duration (PStr (iso_print 0 0 30 0)) = PDelta 1800000000"
  "parse_duration (PStr (iso_print 0 2 0 0)) = PDelta 7200000000"
  using parse_iso_print[of 0 0 30 0] parse_iso_print[of 0 2 0 0] by (simp_all add: MAX_DELTA_DAYS_def)

lemma duration_filter_decides_witness:
  "vf_matches (ext0 0) ex_duration [(''Age'', PStr (iso_print 0 2 0 0))] = Inr True"
proof -
  have "vf_validate (ext0 0) ex_duration = Inr ()"
    by (simp add: vf_validate_def validate_value_type_def is_resource_count_def ex_duration_def
        dget_or_def dhas_dget data_op_in_def DURATION_OPERATORS_def require_def ex_duration_parts
        validate_op_def OPERATOR_NAMES_def)
  moreover have "get_resource_value (ext0 0) ex_duration (dget_or ex_duration ''value_regex'' PNone)
      (dget_or ex_duration ''key'' PNone) [(''Age'', PStr (iso_print 0 2 0 0))] = Inr (PStr (iso_print 0 2 0 0))"
    by (simp add: get_resource_value_def ex_duration_def dget_or_def dhas_dget)
  ultimately show ?thesis
    using duration_filter_decides[of "ext0 0" ex_duration "[(''Age'', PStr (iso_print 0 2 0 0))]"
        "PStr (iso_print 0 2 0 0)"]
    by (simp add: ex_duration_def dget_or_def dhas_dget ex_duration_parts duration_op_def)
qed

text \<open>Reading back a duration written as days, hours, minutes and seconds gives their sum
  in microseconds, exactly, for amounts a float holds exactly and sums that \<open>timedelta\<close>
  can hold.\<close>
theorem parse_duration_roundtrip:
  assumes "d < 2 ^ 53" "h < 2 ^ 53" "m < 2 ^ 53" "s < 2 ^ 53"
    and "(int d * 86400 + int h * 3600 + int m * 60 + int s) div 86400 \<le> MAX_DELTA_DAYS"
  shows "parse_duration (PStr (iso_print d h m s)) =
         PDelta ((int d * 86400 + int h * 3600 + int m * 60 + int s) * 1000000)"
  by (rule parse_iso_print[OF assms])

lemma parse_duration_roundtrip_witness:
  "parse_duration (PStr (iso_print 1 2 3 4)) = PDelta 93784000000"
  using parse_duration_roundtrip[of 1 2 3 4] by (simp add: MAX_DELTA_DAYS_def)

section \<open>Version filters\<close>

lemma dotted_not_Nil: "ns \<noteq> [] \<Longrightarrow> dotted ns \<noteq> []"
proof (cases ns)
  case (Cons n ks)
  then show ?thesis by (cases ks) (simp_all add: dotted_def)
qed simp

lemma comparable_dotted: "ns \<noteq> [] \<Longrightarrow> comparable_version (PStr (dotted ns)) = Inr (PVer (Some (map VInt ns)))"
  by (simp add: comparable_version_def dotted_not_Nil version_parse_dotted)

text \<open>Versions made of numbers compare as lists of numbers, not as strings: for
  \<open>value_type: version\<close> the conversion and the operators \<open>lt\<close> and \<open>eq\<close> give the
  lexicographic order of the components and their equality (\<open>1.10\<close> is after \<open>1.9\<close>).\<close>
theorem version_filter_order:
  assumes "ns \<noteq> []" "ms \<noteq> []"
  shows "rbind (process_value_type E data ''version'' (PStr (dotted ms)) (PStr (dotted ns)) d)
           (\<lambda>(v, r). apply_op E ''lt'' r v) = Inr (ns < ms) \<and>
         rbind (process_value_type E data ''version'' (PStr (dotted ms)) (PStr (dotted ns)) d)
           (\<lambda>(v, r). apply_op E ''eq'' r v) = Inr (ns = ms)"
  using assms
  by (auto simp: process_value_type_def comparable_dotted apply_op_def dindex_def OPERATORS_def op_lt_def
      cmp_with_def unparsed_def ver_ord_def version_ord_numeric ord_of_def py_eq_r_def ver_eq_def inj_map_eq_map inj_def)

lemma version_filter_order_witness:
  "rbind (process_value_type (ext0 0) [] ''version'' (PStr (dotted [1, 10])) (PStr (dotted [1, 9])) [])
     (\<lambda>(v, r). apply_op (ext0 0) ''lt'' r v) = Inr True \<and>
   rbind (process_value_type (ext0 0) [] ''version'' (PStr (dotted [1, 10])) (PStr (dotted [1, 9])) [])
     (\<lambda>(v, r). apply_op (ext0 0) ''eq'' r v) = Inr False"
  using version_filter_order[of "[1, 9]" "[1, 10]" "ext0 0" "[]" "[]"] by simp

section \<open>Network filters\<close>

text \<open>For \<open>value_type: cidr\<close> and \<open>op: in\<close>, an IPv4 address matches a network exactly
  when it lies between the network's first and last address, a block of \<open>2 ^ (32 - p)\<close>
  inside the IPv4 space, and the conversion itself never raises on strings.\<close>
theorem cidr_filter_range:
  assumes "net_parse s = Some (n, p)" "CHR ''/'' \<in> set s" "ip4_parse t = Some m" "CHR ''/'' \<notin> set t"
  shows "rbind (process_value_type E data ''cidr'' (PStr s) (PStr t) d) (\<lambda>(v, r). apply_op E ''in'' r v) =
           Inr (n \<le> m \<and> m < n + 2 ^ (32 - p)) \<and> p \<le> 32 \<and> n + 2 ^ (32 - p) \<le> 2 ^ 32"
proof -
  have wf: "net_wf n p" by (rule net_parse_wf[OF assms(1)])
  have split: "process_value_type E data ''cidr'' (PStr s) (PStr t) d = Inr (PNet n p, PAddr 4 m)"
    using assms by (simp add: process_value_type_def)
  have top: "n + 2 ^ (32 - p) \<le> 2 ^ 32"
  proof -
    have "(2::nat) ^ (32 - p) dvd 2 ^ 32" by (rule le_imp_power_dvd) simp
    moreover have "(2::nat) ^ (32 - p) dvd n" using wf by (simp add: net_wf_def net_size_def mod_eq_0_iff_dvd)
    ultimately obtain a b where ab: "n = 2 ^ (32 - p) * a" "(2::nat) ^ 32 = 2 ^ (32 - p) * b"
      by (auto simp only: dvd_def)
    have "n < 2 ^ 32" using wf by (simp add: net_wf_def)
    then have "a < b" unfolding ab by simp
    then have "2 ^ (32 - p) * (a + 1) \<le> 2 ^ (32 - p) * b" by (intro mult_le_mono) simp_all
    then show ?thesis unfolding ab by simp
  qed
  show ?thesis
    using wf top
    by (simp add: split apply_op_def dindex_def OPERATORS_def operator_in_def py_in_def net_contains_addr net_wf_def net_size_def)
qed

lemma cidr_filter_range_witness:
  "rbind (process_value_type (ext0 0) [] ''cidr'' (PStr ''10.0.0.0/8'') (PStr ''10.2.3.4'') [])
     (\<lambda>(v, r). apply_op (ext0 0) ''in'' r v) = Inr True"
proof -
  have "net_parse ''10.0.0.0/8'' = Some (167772160, 8)" "ip4_parse ''10.2.3.4'' = Some 167904004"
    by code_simp+
  then show ?thesis
    using cidr_filter_range[of "''10.0.0.0/8''" 167772160 8 "''10.2.3.4''" 167904004 "ext0 0" "[]" "[]"] by simp
qed

end
