(* ===== verification/Reduce.thy ===== *)
theory Reduce
  imports Value_Filter "HOL-Library.Multiset"
begin

text \<open>
  \<open>ReduceFilter\<close> of \<open>c7n/filters/core.py\<close>: resources are put into groups, each group is
  ordered, and a part of each is dropped and kept. The filter does not change resources,
  so they are values here. \<open>random.sample\<close> is the parameter \<open>perm\<close>: the indices it picks,
  for a list of a given length.
\<close>

section \<open>Sort keys\<close>

text \<open>
  Keys of one filter are all strings, all floats or all dates. \<open>SkTop\<close> is the string
  \<open>'\uffff'\<close>, above every string of eight-bit characters.
\<close>

datatype skey = SkStr string | SkTop | SkNum pyfloat | SkDate int

fun skey_lt :: "skey \<Rightarrow> skey \<Rightarrow> bool" where
  "skey_lt (SkStr a) (SkStr b) = (a < b)"
| "skey_lt (SkStr a) SkTop = True"
| "skey_lt (SkNum a) (SkNum b) = (float_ord a b = OLt)"
| "skey_lt (SkDate a) (SkDate b) = (a < b)"
| "skey_lt _ _ = False"

text \<open>\<open>str(v)\<close> of a key; None is \<open>'\uffff'\<close>.\<close>

definition skey_str :: "ext \<Rightarrow> skey \<Rightarrow> string option" where
  "skey_str E k = (case k of
      SkStr s \<Rightarrow> Some s | SkTop \<Rightarrow> None
    | SkNum f \<Rightarrow> Some (ext_str E (PFloat f)) | SkDate t \<Rightarrow> Some (ext_str E (PDate t)))"

record sort_config =
  sc_key :: pyval
  sc_vtype :: pyval
  sc_regex :: pyval
  sc_null :: skey

definition reduce_order :: "pydict \<Rightarrow> pyval" where
  "reduce_order data = dget_or data ''order'' (PStr ''asc'')"

definition DATETIME_MIN :: int where "DATETIME_MIN = - 62135596800000000"
definition DATETIME_MAX :: int where "DATETIME_MAX = 253402300799999999"

definition null_sort_value :: "pydict \<Rightarrow> pyval \<Rightarrow> skey" where
  "null_sort_value data vtype =
     (let last = (dget_or data ''null-order'' (PStr ''last'') = PStr ''last'');
          desc = (reduce_order data = PStr ''desc'')
      in if (last \<and> desc) \<or> (\<not> last \<and> \<not> desc) then
           (if vtype = PStr ''number'' then SkNum NegInf
            else if vtype = PStr ''date'' then SkDate DATETIME_MIN else SkStr [])
         else
           (if vtype = PStr ''number'' then SkNum PosInf
            else if vtype = PStr ''date'' then SkDate DATETIME_MAX else SkTop))"

definition get_sort_config :: "pydict \<Rightarrow> string \<Rightarrow> sort_config res" where
  "get_sort_config data key =
     (let conf = (\<lambda>d. let vt = dget_or d ''value_type'' (PStr ''string'') in
                    Inr \<lparr>sc_key = dget_or d ''key'' PNone, sc_vtype = vt,
                         sc_regex = dget_or d ''value_regex'' PNone, sc_null = null_sort_value data vt\<rparr>)
      in case dget_or data key (PDict []) of
           PStr s \<Rightarrow> conf [(''key'', PStr s)]
         | PDict d \<Rightarrow> conf d
         | _ \<Rightarrow> Inl AttributeError)"

text \<open>The conversion of an extracted value; None when there is nothing to convert.\<close>

definition convert_key :: "ext \<Rightarrow> pyval \<Rightarrow> pyval \<Rightarrow> skey option res" where
  "convert_key E vtype v =
     (if v = PNone then Inr None
      else if vtype = PStr ''number'' then rbind (as_float v) (\<lambda>f. Inr (Some (SkNum f)))
      else if vtype = PStr ''date'' then
        rbind (parse_date E v) (\<lambda>d. Inr (case d of PDate t \<Rightarrow> Some (SkDate t) | _ \<Rightarrow> None))
      else Inr (Some (SkStr (py_str E v))))"

definition value_to_sort :: "ext \<Rightarrow> pydict \<Rightarrow> sort_config \<Rightarrow> pydict \<Rightarrow> skey res" where
  "value_to_sort E data c r =
     (let v = (if py_truth (sc_key c) then get_resource_value E data (sc_regex c) (sc_key c) r else Inr PNone)
      in case rbind v (convert_key E (sc_vtype c)) of
           Inr (Some k) \<Rightarrow> Inr k
         | Inr None \<Rightarrow> Inr (sc_null c)
         | Inl e \<Rightarrow> if e = AttributeError \<or> e = ValueError then Inr (sc_null c) else Inl e)"

section \<open>Grouping\<close>

record group =
  g_sortkey :: skey
  g_resources :: "pydict list"

type_synonym groups = "(string option, group) odict"

fun group_res :: "ext \<Rightarrow> pydict \<Rightarrow> sort_config \<Rightarrow> groups \<Rightarrow> pydict list \<Rightarrow> groups res" where
  "group_res E data c gs [] = Inr gs"
| "group_res E data c gs (r # rs) =
     rbind (value_to_sort E data c r) (\<lambda>v.
       let vstr = skey_str E v;
           g = (case dget gs vstr of None \<Rightarrow> \<lparr>g_sortkey = v, g_resources = []\<rparr> | Some g \<Rightarrow> g)
       in group_res E data c (dput vstr (g\<lparr>g_resources := g_resources g @ [r]\<rparr>) gs) rs)"

section \<open>Ordering\<close>

text \<open>
  \<open>sorted\<close> is stable and compares with \<open><\<close>: an element goes before the first one it is
  smaller than. (On float keys with NaN, which is not ordered, Python's result depends on
  its algorithm; this one inserts from the left.)
\<close>

fun insert_by :: "('k \<Rightarrow> 'k \<Rightarrow> bool) \<Rightarrow> 'k \<times> 'a \<Rightarrow> ('k \<times> 'a) list \<Rightarrow> ('k \<times> 'a) list" where
  "insert_by lt x [] = [x]"
| "insert_by lt x (y # ys) = (if lt (fst x) (fst y) then x # y # ys else y # insert_by lt x ys)"

definition sort_by_key :: "('k \<Rightarrow> 'k \<Rightarrow> bool) \<Rightarrow> ('k \<times> 'a) list \<Rightarrow> ('k \<times> 'a) list" where
  "sort_by_key lt xs = foldl (\<lambda>acc x. insert_by lt x acc) [] xs"

text \<open>With \<open>reverse=True\<close> equal elements keep their order.\<close>

definition reorder :: "(nat \<Rightarrow> nat list) \<Rightarrow> pyval \<Rightarrow> ('a \<Rightarrow> skey res) \<Rightarrow> 'a list \<Rightarrow> 'a list res" where
  "reorder perm order key items =
     (if order = PStr ''randomize'' then Inr (map (\<lambda>i. items ! i) (perm (length items)))
      else if order = PStr ''reverse'' then Inr (rev items)
      else rbind (rmap (\<lambda>x. rbind (key x) (\<lambda>k. Inr (k, x))) items) (\<lambda>ps.
        Inr (map snd (if order = PStr ''desc'' then rev (sort_by_key skey_lt (rev ps))
                      else sort_by_key skey_lt ps))))"

fun sort_groups :: "(nat \<Rightarrow> nat list) \<Rightarrow> ext \<Rightarrow> pydict \<Rightarrow> sort_config \<Rightarrow> groups \<Rightarrow> groups res" where
  "sort_groups perm E data c [] = Inr []"
| "sort_groups perm E data c ((n, g) # gs) =
     rbind (reorder perm (reduce_order data) (value_to_sort E data c) (g_resources g)) (\<lambda>rs.
     rbind (sort_groups perm E data c gs) (\<lambda>gs'. Inr ((n, g\<lparr>g_resources := rs\<rparr>) # gs')))"

section \<open>Limits\<close>

definition gt_zero :: "pyval \<Rightarrow> bool res" where
  "gt_zero v = op_gt v (PInt 0)"

text \<open>\<open>int(pct / 100 * n)\<close>, in floats.\<close>

definition pct_of :: "pyval \<Rightarrow> nat \<Rightarrow> int res" where
  "pct_of pct n =
     (let f = (case pct of
          PInt i \<Rightarrow> (case int_truediv i 100 of Fin x \<Rightarrow> Inr (Fin x) | _ \<Rightarrow> Inl OverflowError)
        | PBool b \<Rightarrow> Inr (int_truediv (if b then 1 else 0) 100)
        | PFloat f \<Rightarrow> Inr (float_div f 100)
        | _ \<Rightarrow> Inl TypeError)
      in rbind f (\<lambda>q. int_of_float (float_mul_int q (int n))))"

text \<open>A slice bound has to be an int.\<close>

definition as_index :: "pyval \<Rightarrow> int res" where
  "as_index v = (case v of
      PInt i \<Rightarrow> Inr i | PBool b \<Rightarrow> Inr (if b then 1 else 0) | _ \<Rightarrow> Inl TypeError)"

definition group_discard :: "pydict \<Rightarrow> nat \<Rightarrow> pyval res" where
  "group_discard data n =
     (let dropn = dget_or data ''discard'' (PInt 0); droppct = dget_or data ''discard-percent'' (PInt 0)
      in rbind (gt_zero droppct) (\<lambda>b.
           if b then rbind (pct_of droppct n) (\<lambda>k. rbind (op_gt (PInt k) dropn) (\<lambda>c.
             Inr (if c then PInt k else dropn)))
           else Inr dropn))"

definition discarded :: "pydict \<Rightarrow> pydict list \<Rightarrow> pydict list res" where
  "discarded data rs =
     rbind (group_discard data (length rs)) (\<lambda>gdrop.
     rbind (gt_zero gdrop) (\<lambda>g.
       if g then rbind (as_index gdrop) (\<lambda>i. Inr (drop (nat i) rs)) else Inr rs))"

definition limit_count :: "pydict \<Rightarrow> nat \<Rightarrow> int res" where
  "limit_count data n =
     (let mx = dget_or data ''limit'' (PInt 0); pct = dget_or data ''limit-percent'' (PInt 0)
      in rbind (gt_zero pct) (\<lambda>p.
         rbind (if p then pct_of pct n else Inr (int n)) (\<lambda>count.
         rbind (gt_zero mx) (\<lambda>m.
         rbind (if m then op_lt mx (PInt count) else Inr False) (\<lambda>b.
           if b then as_index mx else Inr count)))))"

definition limit_group :: "pydict \<Rightarrow> pydict list \<Rightarrow> pydict list res" where
  "limit_group data rs =
     rbind (discarded data rs) (\<lambda>rs1.
     rbind (limit_count data (length rs1)) (\<lambda>c. Inr (take (nat c) rs1)))"

definition reduce_limit :: "(nat \<Rightarrow> nat list) \<Rightarrow> pydict \<Rightarrow> groups \<Rightarrow> pydict list res" where
  "reduce_limit perm data gs =
     rbind (if dhas data ''group-by'' \<or> dhas data ''order''
            then reorder perm (reduce_order data) (\<lambda>n. rbind (dindex gs n) (\<lambda>g. Inr (g_sortkey g))) (dkeys gs)
            else Inr (dkeys gs)) (\<lambda>ordered.
     rbind (rmap (\<lambda>n. rbind (dindex gs n) (\<lambda>g. limit_group data (g_resources g))) ordered) (\<lambda>parts.
       Inr (concat parts)))"

definition reduce_process :: "(nat \<Rightarrow> nat list) \<Rightarrow> ext \<Rightarrow> pydict \<Rightarrow> pydict list \<Rightarrow> pydict list res" where
  "reduce_process perm E data rs =
     rbind (get_sort_config data ''group-by'') (\<lambda>gc.
     rbind (get_sort_config data ''sort-by'') (\<lambda>sc.
     rbind (group_res E data gc [] rs) (\<lambda>gs.
     rbind (if dhas data ''sort-by'' \<or> dhas data ''order'' then sort_groups perm E data sc gs else Inr gs) (\<lambda>gs1.
     rbind (reduce_limit perm data gs1) (\<lambda>out.
       Inr (filter (\<lambda>r. r \<noteq> []) out))))))"

section \<open>Lemmas on sorting\<close>

lemma mset_insert_by: "mset (insert_by lt x ys) = add_mset x (mset ys)"
  by (induction ys) auto

lemma mset_sort_fold: "mset (foldl (\<lambda>acc x. insert_by lt x acc) ys xs) = mset ys + mset xs"
  by (induction xs arbitrary: ys) (auto simp: mset_insert_by)

lemma mset_sort_by_key [simp]: "mset (sort_by_key lt xs) = mset xs"
  by (simp add: sort_by_key_def mset_sort_fold)

text \<open>A strict weak order, which the keys of one kind have when no float is NaN.\<close>

definition weak_order :: "('k \<Rightarrow> 'k \<Rightarrow> bool) \<Rightarrow> 'k set \<Rightarrow> bool" where
  "weak_order lt S =
     ((\<forall>a \<in> S. \<forall>b \<in> S. lt a b \<longrightarrow> \<not> lt b a) \<and>
      (\<forall>a \<in> S. \<forall>b \<in> S. \<forall>c \<in> S. \<not> lt b a \<longrightarrow> \<not> lt c b \<longrightarrow> \<not> lt c a))"

lemma weak_asym: "weak_order lt S \<Longrightarrow> a \<in> S \<Longrightarrow> b \<in> S \<Longrightarrow> lt a b \<Longrightarrow> \<not> lt b a"
  unfolding weak_order_def by blast

lemma weak_trans:
  "weak_order lt S \<Longrightarrow> a \<in> S \<Longrightarrow> b \<in> S \<Longrightarrow> c \<in> S \<Longrightarrow> \<not> lt b a \<Longrightarrow> \<not> lt c b \<Longrightarrow> \<not> lt c a"
  unfolding weak_order_def by blast

definition in_order :: "('k \<Rightarrow> 'k \<Rightarrow> bool) \<Rightarrow> ('k \<times> 'a) list \<Rightarrow> bool" where
  "in_order lt ps = sorted_wrt (\<lambda>x y. \<not> lt (fst y) (fst x)) ps"

lemma set_insert_by [simp]: "set (insert_by lt x ys) = insert x (set ys)"
  by (induction ys) auto

lemma in_order_insert_by:
  assumes "weak_order lt S"
  shows "in_order lt ys \<Longrightarrow> fst x \<in> S \<Longrightarrow> fst ` set ys \<subseteq> S \<Longrightarrow> in_order lt (insert_by lt x ys)"
proof (induction ys)
  case Nil
  then show ?case by (simp add: in_order_def)
next
  case (Cons y ys)
  then have y: "fst y \<in> S" and ys: "\<forall>z \<in> set ys. fst z \<in> S \<and> \<not> lt (fst z) (fst y)" and x: "fst x \<in> S"
    by (auto simp: in_order_def)
  show ?case
  proof (cases "lt (fst x) (fst y)")
    case True
    then have yx: "\<not> lt (fst y) (fst x)" by (rule weak_asym[OF assms x y])
    moreover have "\<not> lt (fst z) (fst x)" if "z \<in> set ys" for z
      using weak_trans[OF assms x y _ yx, of "fst z"] ys that by blast
    ultimately show ?thesis using Cons.prems(1) True by (auto simp: in_order_def)
  next
    case False
    have "in_order lt (insert_by lt x ys)" using Cons by (auto simp: in_order_def)
    with False ys show ?thesis by (auto simp: in_order_def)
  qed
qed

lemma in_order_sort_by_key:
  assumes "weak_order lt S" "fst ` set ps \<subseteq> S"
  shows "in_order lt (sort_by_key lt ps)"
proof -
  have "in_order lt (foldl (\<lambda>acc x. insert_by lt x acc) ys ps)"
    if "in_order lt ys" "fst ` set ys \<subseteq> S" "fst ` set ps \<subseteq> S" for ys
    using that
  proof (induction ps arbitrary: ys)
    case (Cons p ps)
    have "in_order lt (insert_by lt p ys)"
      using Cons.prems by (intro in_order_insert_by[OF assms(1)]) auto
    then show ?case using Cons.prems by (simp add: Cons.IH)
  qed simp
  with assms(2) show ?thesis by (simp add: sort_by_key_def in_order_def)
qed

section \<open>The kinds of keys\<close>

fun kind_ok :: "pyval \<Rightarrow> skey \<Rightarrow> bool" where
  "kind_ok vt (SkNum f) = (vt = PStr ''number'' \<and> f \<noteq> NaN)"
| "kind_ok vt (SkDate t) = (vt = PStr ''date'')"
| "kind_ok vt k = (vt \<noteq> PStr ''number'' \<and> vt \<noteq> PStr ''date'')"

lemma kind_ok_iff:
  "kind_ok vt k \<longleftrightarrow>
     (if vt = PStr ''number'' then \<exists>f. k = SkNum f \<and> f \<noteq> NaN
      else if vt = PStr ''date'' then \<exists>t. k = SkDate t
      else k = SkTop \<or> (\<exists>s. k = SkStr s))"
  by (cases k) auto

lemma float_le_trans:
  "a \<noteq> NaN \<Longrightarrow> b \<noteq> NaN \<Longrightarrow> c \<noteq> NaN \<Longrightarrow> float_ord b a \<noteq> OLt \<Longrightarrow> float_ord c b \<noteq> OLt \<Longrightarrow> float_ord c a \<noteq> OLt"
  by (cases a; cases b; cases c) (auto simp: ord_of_def split: if_splits)

lemma float_lt_asym: "float_ord a b = OLt \<Longrightarrow> float_ord b a \<noteq> OLt"
  by (cases a; cases b) (auto simp: ord_of_def split: if_splits)

lemma weak_order_keys: "weak_order skey_lt {k. kind_ok vt k}"
proof -
  have asym: "\<not> skey_lt b a" if "kind_ok vt a" "kind_ok vt b" "skey_lt a b" for a b
    using that by (cases a; cases b) (auto dest: float_lt_asym)
  have trans: "\<not> skey_lt c a"
    if h: "kind_ok vt a" "kind_ok vt b" "kind_ok vt c" "\<not> skey_lt b a" "\<not> skey_lt c b" for a b c
    using h
  proof (cases a)
    case (SkNum x)
    then obtain y z where "b = SkNum y" "c = SkNum z" using h by (cases b; cases c) auto
    with SkNum h float_le_trans[of x y z] show ?thesis by auto
  qed (cases b; cases c; auto)+
  show ?thesis unfolding weak_order_def using asym trans by blast
qed

lemma get_sort_config_null:
  "get_sort_config data key = Inr c \<Longrightarrow> kind_ok (sc_vtype c) (sc_null c)"
  by (auto simp: get_sort_config_def Let_def null_sort_value_def split: pyval.splits if_splits)

lemma date_key: "(case d of PDate t \<Rightarrow> Some (SkDate t) | _ \<Rightarrow> None) = Some k \<Longrightarrow> \<exists>t. k = SkDate t"
  by (cases d) auto

lemma convert_key_kind:
  "convert_key E vt v = Inr (Some k) \<Longrightarrow> k \<noteq> SkNum NaN \<Longrightarrow> kind_ok vt k"
  unfolding convert_key_def by (auto simp: rbind_eq_Inr split: if_splits dest!: date_key)

lemma value_to_sort_kind:
  assumes "get_sort_config data key = Inr c" "value_to_sort E data c r = Inr k" "k \<noteq> SkNum NaN"
  shows "kind_ok (sc_vtype c) k"
proof -
  define v where "v = (if py_truth (sc_key c) then get_resource_value E data (sc_regex c) (sc_key c) r else Inr PNone)"
  have "value_to_sort E data c r = (case rbind v (convert_key E (sc_vtype c)) of
           Inr (Some k) \<Rightarrow> Inr k | Inr None \<Rightarrow> Inr (sc_null c)
         | Inl e \<Rightarrow> if e = AttributeError \<or> e = ValueError then Inr (sc_null c) else Inl e)"
    by (simp add: value_to_sort_def v_def)
  with assms(2) have "k = sc_null c \<or> rbind v (convert_key E (sc_vtype c)) = Inr (Some k)"
    by (auto split: sum.splits option.splits if_splits)
  then show ?thesis
    using get_sort_config_null[OF assms(1)] convert_key_kind[OF _ assms(3)] by (auto simp: rbind_eq_Inr)
qed

section \<open>Where resources go\<close>

definition resources_of :: "groups \<Rightarrow> pydict list" where
  "resources_of gs = concat (map (\<lambda>(n, g). g_resources g) gs)"

lemma resources_of_put:
  "mset (resources_of (dput n ((case dget gs n of None \<Rightarrow> \<lparr>g_sortkey = v, g_resources = []\<rparr> | Some g \<Rightarrow> g)
     \<lparr>g_resources := g_resources (case dget gs n of None \<Rightarrow> \<lparr>g_sortkey = v, g_resources = []\<rparr> | Some g \<Rightarrow> g) @ [r]\<rparr>) gs))
   = add_mset r (mset (resources_of gs))"
  by (induction gs) (auto simp: resources_of_def)

lemma group_res_mset:
  "group_res E data c gs rs = Inr gs' \<Longrightarrow>
   mset (resources_of gs') = mset (resources_of gs) + mset rs \<and> (dwf gs \<longrightarrow> dwf gs')"
proof (induction rs arbitrary: gs)
  case (Cons r rs)
  then obtain v where v: "value_to_sort E data c r = Inr v" by (auto simp: rbind_eq_Inr)
  from Cons.prems v Cons.IH show ?case by (fastforce simp: Let_def resources_of_put)
qed simp

lemma perm_indices:
  assumes "mset (perm (length items)) = mset [0 ..< length items]"
  shows "mset (map (\<lambda>i. items ! i) (perm (length items))) = mset items"
proof -
  have "mset (map (\<lambda>i. items ! i) (perm (length items))) = image_mset (\<lambda>i. items ! i) (mset (perm (length items)))"
    by simp
  also have "\<dots> = mset (map (\<lambda>i. items ! i) [0 ..< length items])" using assms by simp
  finally show ?thesis by (simp add: map_nth)
qed

lemma rmap_keyed:
  "rmap (\<lambda>x. rbind (key x) (\<lambda>k. Inr (k, x))) items = Inr ps \<Longrightarrow>
   map snd ps = items \<and> (\<forall>(k, x) \<in> set ps. key x = Inr k)"
  by (induction items arbitrary: ps) (auto simp: rbind_eq_Inr)

definition permutes_lists :: "(nat \<Rightarrow> nat list) \<Rightarrow> bool" where
  "permutes_lists perm = (\<forall>n. mset (perm n) = mset [0 ..< n])"

lemma reorder_mset:
  assumes "permutes_lists perm" "reorder perm order key items = Inr out"
  shows "mset out = mset items"
proof -
  have r: "mset (map (\<lambda>i. items ! i) (perm (length items))) = mset items"
    using assms(1) by (intro perm_indices) (simp add: permutes_lists_def)
  have s: "mset (map snd qs) = mset items" if "mset qs = mset ps"
    "rmap (\<lambda>x. rbind (key x) (\<lambda>k. Inr (k, x))) items = Inr ps" for ps qs
    using rmap_keyed[OF that(2)] that(1) by (metis mset_map)
  show ?thesis
    using assms(2) r s unfolding reorder_def by (fastforce simp: rbind_eq_Inr split: if_splits)
qed

lemma sort_groups_mset:
  "permutes_lists perm \<Longrightarrow> sort_groups perm E data c gs = Inr gs' \<Longrightarrow>
   mset (resources_of gs') = mset (resources_of gs) \<and> dkeys gs' = dkeys gs"
proof (induction gs arbitrary: gs')
  case (Cons p gs)
  obtain n g where p: "p = (n, g)" by (cases p)
  from Cons.prems obtain rs gs1 where
    "reorder perm (reduce_order data) (value_to_sort E data c) (g_resources g) = Inr rs"
    "sort_groups perm E data c gs = Inr gs1" "gs' = (n, g\<lparr>g_resources := rs\<rparr>) # gs1"
    by (auto simp: p rbind_eq_Inr)
  with Cons.IH[OF Cons.prems(1)] reorder_mset[OF Cons.prems(1)] show ?case
    by (simp add: p resources_of_def)
qed simp

text \<open>A group gives a contiguous piece of itself.\<close>

lemma discarded_drop: "discarded data rs = Inr rs1 \<Longrightarrow> \<exists>i. rs1 = drop i rs"
proof -
  assume d: "discarded data rs = Inr rs1"
  then obtain gdrop g where "(if g then rbind (as_index gdrop) (\<lambda>i. Inr (drop (nat i) rs)) else Inr rs) = Inr rs1"
    unfolding discarded_def rbind_eq_Inr by blast
  then show ?thesis
    by (cases g) (auto simp: rbind_eq_Inr intro: exI[of _ 0])
qed

lemma limit_group_slice:
  "limit_group data rs = Inr out \<Longrightarrow> \<exists>c i. out = take c (drop i rs)"
  unfolding limit_group_def rbind_eq_Inr using discarded_drop by blast

lemma mset_take_drop: "mset (take c (drop i rs)) \<subseteq># mset rs"
proof -
  have "mset xs = mset (take n xs) + mset (drop n xs)" for n and xs :: "'a list"
    by (simp flip: mset_append)
  then have "mset (take n xs) \<subseteq># mset xs" "mset (drop n xs) \<subseteq># mset xs" for n and xs :: "'a list"
    by (metis mset_subset_eq_add_left, metis mset_subset_eq_add_right)
  then show ?thesis by (meson subset_mset.order_trans)
qed

lemma resources_of_keys:
  "dwf gs \<Longrightarrow> resources_of gs = concat (map (\<lambda>n. g_resources (the (dget gs n))) (dkeys gs))"
proof (induction gs)
  case (Cons p gs)
  obtain n g where p: "p = (n, g)" by (cases p)
  with Cons.prems have "n \<notin> set (dkeys gs)" "dwf gs" by (auto simp: dwf_def)
  with Cons.IH show ?case by (auto simp: p resources_of_def intro!: arg_cong[of _ _ concat])
qed (simp add: resources_of_def)

lemma concat_parts_mset:
  "list_all2 (\<lambda>n out. mset out \<subseteq># mset (h n)) ns parts \<Longrightarrow>
   mset (concat parts) \<subseteq># mset (concat (map h ns))"
  by (induction rule: list_all2_induct) (auto intro: subset_mset.add_mono)

lemma reduce_limit_mset:
  assumes "permutes_lists perm" "dwf gs" "reduce_limit perm data gs = Inr out"
  shows "mset out \<subseteq># mset (resources_of gs)"
proof -
  define h where "h = (\<lambda>n. g_resources (the (dget gs n)))"
  obtain ordered parts where
    o: "(if dhas data ''group-by'' \<or> dhas data ''order''
         then reorder perm (reduce_order data) (\<lambda>n. rbind (dindex gs n) (\<lambda>g. Inr (g_sortkey g))) (dkeys gs)
         else Inr (dkeys gs)) = Inr ordered"
    and parts: "rmap (\<lambda>n. rbind (dindex gs n) (\<lambda>g. limit_group data (g_resources g))) ordered = Inr parts"
    and out: "out = concat parts"
    using assms(3) by (auto simp: reduce_limit_def rbind_eq_Inr)
  have perm: "mset ordered = mset (dkeys gs)"
    using o reorder_mset[OF assms(1)] by (auto split: if_splits)
  have "list_all2 (\<lambda>n out. mset out \<subseteq># mset (h n)) ordered parts"
    using parts unfolding rmap_Inr
  proof (rule list_all2_mono)
    fix n out
    assume "rbind (dindex gs n) (\<lambda>g. limit_group data (g_resources g)) = Inr out"
    then obtain g where "dget gs n = Some g" "limit_group data (g_resources g) = Inr out"
      by (auto simp: rbind_eq_Inr dindex_def split: option.splits)
    with limit_group_slice[of data "g_resources g" out] show "mset out \<subseteq># mset (h n)"
      by (auto simp: h_def mset_take_drop)
  qed
  then have "mset out \<subseteq># mset (concat (map h ordered))"
    unfolding out by (rule concat_parts_mset)
  also have "mset (concat (map h ordered)) = mset (concat (map h (dkeys gs)))"
  proof -
    have "mset (concat (map h ns)) = (\<Sum>n \<in># mset ns. mset (h n))" for ns
      by (induction ns) auto
    with perm show ?thesis by simp
  qed
  also have "concat (map h (dkeys gs)) = resources_of gs"
    using resources_of_keys[OF assms(2)] by (simp add: h_def)
  finally show ?thesis .
qed

section \<open>Percentages\<close>

lemma round_small: "0 \<le> x \<Longrightarrow> x \<le> 1 \<Longrightarrow> \<exists>r. round_double x = Fin r \<and> 0 \<le> r \<and> r \<le> 1"
  using round_double_bounded[of x 1] by simp

lemma pct_of_bounds:
  assumes "0 \<le> p" "p \<le> 100" "n < 2 ^ 53"
  shows "\<exists>k. pct_of (PInt p) n = Inr k \<and> 0 \<le> k \<and> k \<le> int n"
proof -
  have "0 \<le> rat_of_int p / 100" "rat_of_int p / 100 \<le> 1" using assms(1,2) by simp_all
  from round_small[OF this] obtain q where q: "round_double (rat_of_int p / 100) = Fin q" "0 \<le> q" "q \<le> 1"
    by blast
  have n: "round_double (of_int (int n)) = Fin (of_nat n)" using round_double_nat[OF assms(3)] by simp
  have "q * of_nat n \<le> 1 * of_nat n" using q by (intro mult_right_mono) simp_all
  with q round_double_bounded[of "q * of_nat n" n] assms(3)
  obtain r where r: "round_double (q * of_nat n) = Fin r" "0 \<le> r" "r \<le> of_nat n" by auto
  have "pct_of (PInt p) n = Inr \<lfloor>r\<rfloor>"
    using q n r by (simp add: pct_of_def int_truediv_def)
  moreover have "0 \<le> \<lfloor>r\<rfloor>" "\<lfloor>r\<rfloor> \<le> int n" using r by (simp_all add: floor_le_iff)
  ultimately show ?thesis by blast
qed

lemma int_cmp [simp]:
  "op_gt (PInt a) (PInt b) = Inr (b < a)" "op_lt (PInt a) (PInt b) = Inr (a < b)"
  by (auto simp: op_gt_def op_lt_def cmp_with_def unparsed_def num_ord_def num_of_def ord_of_def)

lemma group_discard_int:
  assumes "dget_or data ''discard'' (PInt 0) = PInt d" "dget_or data ''discard-percent'' (PInt 0) = PInt q"
    and "0 \<le> d" "0 \<le> q" "q \<le> 100" "n < 2 ^ 53"
  shows "\<exists>i \<ge> d. group_discard data n = Inr (PInt i) \<and> (q = 0 \<longrightarrow> i = d)"
proof -
  obtain k where "pct_of (PInt q) n = Inr k" using pct_of_bounds[OF assms(4-6)] by blast
  then show ?thesis
    using assms(1,2,4) by (auto simp: group_discard_def gt_zero_def Let_def)
qed

lemma limit_count_int:
  assumes "dget_or data ''limit'' (PInt 0) = PInt m" "dget_or data ''limit-percent'' (PInt 0) = PInt p"
    and "0 \<le> m" "0 \<le> p" "p \<le> 100" "n < 2 ^ 53"
  shows "\<exists>c \<ge> 0. limit_count data n = Inr c \<and> c \<le> int n \<and> (0 < m \<longrightarrow> c \<le> m) \<and>
    (p = 0 \<longrightarrow> c = (if 0 < m \<and> m < int n then m else int n))"
proof -
  obtain k where "pct_of (PInt p) n = Inr k" "0 \<le> k" "k \<le> int n"
    using pct_of_bounds[OF assms(4-6)] by blast
  then show ?thesis
    using assms(1-4) by (auto simp: limit_count_def gt_zero_def as_index_def Let_def)
qed

section \<open>The properties\<close>

text \<open>Reducing never invents or repeats a resource: what it returns is a sub-multiset of
  what it was given, for any data it accepts and any random choice.\<close>
theorem reduce_process_subset:
  assumes "permutes_lists perm" "reduce_process perm E data rs = Inr out"
  shows "mset out \<subseteq># mset rs"
proof -
  obtain gc sc gs gs1 out1 where
    g: "group_res E data gc [] rs = Inr gs"
    and s: "(if dhas data ''sort-by'' \<or> dhas data ''order'' then sort_groups perm E data sc gs else Inr gs) = Inr gs1"
    and l: "reduce_limit perm data gs1 = Inr out1" and out: "out = filter (\<lambda>r. r \<noteq> []) out1"
    using assms(2) by (auto simp: reduce_process_def rbind_eq_Inr)
  have gs: "mset (resources_of gs) = mset rs" "dwf gs"
    using group_res_mset[OF g] by (simp_all add: resources_of_def)
  then have "mset (resources_of gs1) = mset rs" "dwf gs1"
    using s sort_groups_mset[OF assms(1)] by (auto simp: dwf_def split: if_splits)
  with reduce_limit_mset[OF assms(1) _ l] have "mset out1 \<subseteq># mset rs" by simp
  moreover have "mset out \<subseteq># mset out1" by (simp add: out)
  ultimately show ?thesis by (rule subset_mset.order_trans[rotated])
qed

definition ex_reduce :: pydict where
  "ex_reduce = [(''type'', PStr ''reduce''), (''sort-by'', PStr ''N''), (''limit'', PInt 1)]"

definition ex_items :: "pydict list" where
  "ex_items = [[(''N'', PStr ''b'')], [(''N'', PStr ''a'')]]"

lemmas reduce_eval = ex_reduce_def ex_items_def reduce_process_def get_sort_config_def dget_or_def
  null_sort_value_def reduce_order_def value_to_sort_def get_resource_value_def convert_key_def dhas_dget
  skey_str_def reorder_def sort_by_key_def py_str_def reduce_limit_def limit_group_def discarded_def
  group_discard_def limit_count_def gt_zero_def as_index_def dindex_def Let_def

lemma ex_reduce_run: "reduce_process (\<lambda>n. [0 ..< n]) (ext0 0) ex_reduce ex_items = Inr [[(''N'', PStr ''a'')]]"
  by (simp add: reduce_eval less_char_def)

lemma reduce_process_subset_witness:
  "mset [[(''N'', PStr ''a'')]] \<subseteq># mset ex_items"
  by (rule reduce_process_subset[OF _ ex_reduce_run]) (simp add: permutes_lists_def)

text \<open>For whole limits, percentages from 0 to 100 and groups a float can count, limiting a
  group always returns a contiguous piece of it: past at least the \<open>discard\<close> first
  resources (exactly them without \<open>discard-percent\<close>), of at most \<open>limit\<close> resources, and,
  without \<open>limit-percent\<close>, of as many as there are up to the limit.\<close>
theorem limit_group_bounds:
  assumes "dget_or data ''limit'' (PInt 0) = PInt m" "dget_or data ''limit-percent'' (PInt 0) = PInt p"
    and "dget_or data ''discard'' (PInt 0) = PInt d" "dget_or data ''discard-percent'' (PInt 0) = PInt q"
    and "0 \<le> m" "0 \<le> p" "p \<le> 100" "0 \<le> d" "0 \<le> q" "q \<le> 100" "length rs < 2 ^ 53"
  shows "\<exists>i c. limit_group data rs = Inr (take c (drop i rs)) \<and> nat d \<le> i \<and> (q = 0 \<longrightarrow> i = nat d) \<and>
    (0 < m \<longrightarrow> c \<le> nat m) \<and>
    (p = 0 \<longrightarrow> c = (if 0 < m \<and> m < int (length rs - i) then nat m else length rs - i))"
proof -
  obtain i where i: "d \<le> i" "group_discard data (length rs) = Inr (PInt i)" "q = 0 \<longrightarrow> i = d"
    using group_discard_int[OF assms(3,4,8-11)] by blast
  have dis: "discarded data rs = Inr (drop (nat i) rs)"
    using i(1,2) assms(8) by (simp add: discarded_def gt_zero_def as_index_def)
  have "length (drop (nat i) rs) < 2 ^ 53" using assms(11) by simp
  from limit_count_int[OF assms(1,2,5-7) this]
  obtain c where c: "0 \<le> c" "limit_count data (length (drop (nat i) rs)) = Inr c" "0 < m \<longrightarrow> c \<le> m"
    "p = 0 \<longrightarrow> c = (if 0 < m \<and> m < int (length rs - nat i) then m else int (length rs - nat i))"
    by auto
  have "limit_group data rs = Inr (take (nat c) (drop (nat i) rs))"
    using dis c(2) by (simp add: limit_group_def)
  moreover have "nat d \<le> nat i \<and> (q = 0 \<longrightarrow> nat i = nat d) \<and> (0 < m \<longrightarrow> nat c \<le> nat m) \<and>
      (p = 0 \<longrightarrow> nat c = (if 0 < m \<and> m < int (length rs - nat i) then nat m else length rs - nat i))"
    using i c by auto
  ultimately show ?thesis by blast
qed

lemma limit_group_bounds_witness:
  "\<exists>i c. limit_group [(''limit'', PInt 1)] ex_items = Inr (take c (drop i ex_items)) \<and> i = 0 \<and> c = 1"
  using limit_group_bounds[of "[(''limit'', PInt 1)]" 1 0 0 0 ex_items] by (simp add: dget_or_def ex_items_def)

text \<open>Within a group, sorting returns the same resources, ordered by their sort keys,
  ascending or (for \<open>order: desc\<close>) descending, provided no key is the float NaN.\<close>
theorem reduce_group_sorted:
  assumes "get_sort_config data ''sort-by'' = Inr c"
    and "reduce_order data \<noteq> PStr ''randomize''" "reduce_order data \<noteq> PStr ''reverse''"
    and "\<forall>r \<in> set rs. value_to_sort E data c r \<noteq> Inr (SkNum NaN)"
    and "reorder perm (reduce_order data) (value_to_sort E data c) rs = Inr out"
  shows "mset out = mset rs \<and>
    sorted_wrt (\<lambda>x y. \<forall>k l. value_to_sort E data c x = Inr k \<longrightarrow> value_to_sort E data c y = Inr l \<longrightarrow>
      \<not> (if reduce_order data = PStr ''desc'' then skey_lt k l else skey_lt l k)) out"
proof -
  obtain ps where ps: "rmap (\<lambda>x. rbind (value_to_sort E data c x) (\<lambda>k. Inr (k, x))) rs = Inr ps"
    and out: "out = map snd (if reduce_order data = PStr ''desc'' then rev (sort_by_key skey_lt (rev ps))
                             else sort_by_key skey_lt ps)"
    using assms(2,3,5) by (auto simp: reorder_def rbind_eq_Inr)
  have keys: "map snd ps = rs" "\<forall>(k, x) \<in> set ps. value_to_sort E data c x = Inr k"
    using rmap_keyed[OF ps] by auto
  then have kinds: "fst ` set ps \<subseteq> {k. kind_ok (sc_vtype c) k}"
    using value_to_sort_kind[OF assms(1)] assms(4) by force
  have srt: "in_order skey_lt (sort_by_key skey_lt qs)" if "set qs = set ps" for qs
    by (rule in_order_sort_by_key[OF weak_order_keys]) (use kinds that in simp)
  have key_of: "value_to_sort E data c (snd q) = Inr k \<longleftrightarrow> k = fst q" if "q \<in> set ps" for q k
    using keys(2) that by (cases q) auto
  have sets: "set (sort_by_key skey_lt qs) = set qs" for qs :: "(skey \<times> pydict) list"
    by (metis mset_sort_by_key set_mset_mset)
  have "mset out = mset rs"
    unfolding out using arg_cong[OF keys(1), of mset] by simp
  moreover have "sorted_wrt (\<lambda>x y. \<forall>k l. value_to_sort E data c x = Inr k \<longrightarrow> value_to_sort E data c y = Inr l \<longrightarrow>
      \<not> (if reduce_order data = PStr ''desc'' then skey_lt k l else skey_lt l k)) out"
  proof (cases "reduce_order data = PStr ''desc''")
    case True
    have "in_order skey_lt (sort_by_key skey_lt (rev ps))" by (rule srt) simp
    then show ?thesis
      unfolding out in_order_def using True
      by (simp only: if_True sorted_wrt_map) (rule sorted_wrt_mono_rel; simp add: sets key_of sorted_wrt_rev)
  next
    case False
    have "in_order skey_lt (sort_by_key skey_lt ps)" by (rule srt) simp
    then show ?thesis
      unfolding out in_order_def using False
      by (simp only: if_False sorted_wrt_map) (rule sorted_wrt_mono_rel; simp add: sets key_of)
  qed
  ultimately show ?thesis by blast
qed

definition ex_config :: sort_config where
  "ex_config = \<lparr>sc_key = PStr ''N'', sc_vtype = PStr ''string'', sc_regex = PNone, sc_null = SkTop\<rparr>"

lemma reduce_group_sorted_witness:
  "mset (rev ex_items) = mset ex_items \<and>
   sorted_wrt (\<lambda>x y. \<forall>k l. value_to_sort (ext0 0) ex_reduce ex_config x = Inr k \<longrightarrow>
     value_to_sort (ext0 0) ex_reduce ex_config y = Inr l \<longrightarrow> \<not> skey_lt l k) (rev ex_items)"
proof -
  have o: "reduce_order ex_reduce = PStr ''asc''" by (simp add: reduce_eval)
  have c: "get_sort_config ex_reduce ''sort-by'' = Inr ex_config" by (simp add: reduce_eval ex_config_def)
  have v: "value_to_sort (ext0 0) ex_reduce ex_config [(''N'', PStr s)] = Inr (SkStr s)" for s
    by (simp add: reduce_eval ex_config_def)
  have r: "reorder (\<lambda>n. []) (PStr ''asc'') (value_to_sort (ext0 0) ex_reduce ex_config) ex_items = Inr (rev ex_items)"
    by (simp add: ex_items_def v reorder_def sort_by_key_def less_char_def)
  have n: "\<forall>r \<in> set ex_items. value_to_sort (ext0 0) ex_reduce ex_config r \<noteq> Inr (SkNum NaN)"
    by (simp add: ex_items_def v)
  show ?thesis
    using reduce_group_sorted[OF c _ _ n, of "\<lambda>n. []" "rev ex_items"] r by (simp add: o)
qed

end
