(* ===== verification/Registry.thy ===== *)
theory Registry
  imports PyVal
begin

text \<open>
  The plugin registry (\<open>c7n/registry.py\<close>) and the parsing of a policy's filters through it
  (\<open>FilterRegistry\<close> of \<open>c7n/filters/core.py\<close>). What a registry promises to its clients is
  the locale \<open>plugins\<close>; the parser uses nothing else of it.
\<close>

section \<open>Plugin registries\<close>

text \<open>
  Classes are objects shared between registries, numbered here; registering one writes its
  attributes \<open>type\<close> and \<open>type_aliases\<close>.
\<close>

record class_attrs =
  ca_type :: string
  ca_aliases :: "string list option"

record registry =
  reg_factories :: "(string, nat) odict"
  reg_subscribers :: "nat list"
  reg_classes :: "nat \<Rightarrow> class_attrs"

definition reg_init :: "(nat \<Rightarrow> class_attrs) \<Rightarrow> registry" where
  "reg_init cs = \<lparr>reg_factories = [], reg_subscribers = [], reg_classes = cs\<rparr>"

definition subscribe :: "nat \<Rightarrow> registry \<Rightarrow> registry" where
  "subscribe f R = R\<lparr>reg_subscribers := reg_subscribers R @ [f]\<rparr>"

text \<open>\<open>register\<close>, as a call or as a decorator: the class is returned in either case.\<close>

definition register :: "string \<Rightarrow> nat \<Rightarrow> bool \<Rightarrow> string list option \<Rightarrow> registry \<Rightarrow> registry" where
  "register name klass condition aliases R =
     (if \<not> condition then R
      else R\<lparr>reg_factories := dput name klass (reg_factories R),
             reg_classes := (reg_classes R)(klass := \<lparr>ca_type = name, ca_aliases = aliases\<rparr>)\<rparr>)"

definition unregister :: "string \<Rightarrow> registry \<Rightarrow> registry" where
  "unregister name R = R\<lparr>reg_factories := ddel name (reg_factories R)\<rparr>"

text \<open>\<open>notify\<close>: the calls made, in order.\<close>

definition notify :: "'k option \<Rightarrow> registry \<Rightarrow> (nat \<times> 'k option) list" where
  "notify key R = map (\<lambda>s. (s, key)) (reg_subscribers R)"

definition reg_contains :: "registry \<Rightarrow> string \<Rightarrow> bool" where
  "reg_contains R key = dhas (reg_factories R) key"

definition reg_len :: "registry \<Rightarrow> nat" where
  "reg_len R = length (reg_factories R)"

definition has_alias :: "registry \<Rightarrow> string \<Rightarrow> nat \<Rightarrow> bool" where
  "has_alias R name k = (case ca_aliases (reg_classes R k) of None \<Rightarrow> False | Some as \<Rightarrow> name \<in> set as)"

text \<open>\<open>get\<close>: by name, and else the first class, in registration order, with the alias.\<close>

definition reg_get :: "registry \<Rightarrow> string \<Rightarrow> nat option" where
  "reg_get R name = (case dget (reg_factories R) name of
      Some k \<Rightarrow> Some k
    | None \<Rightarrow> find (has_alias R name) (dvalues (reg_factories R)))"

definition reg_index :: "registry \<Rightarrow> string \<Rightarrow> nat res" where
  "reg_index R name = (case reg_get R name of None \<Rightarrow> Inl KeyError | Some k \<Rightarrow> Inr k)"

section \<open>What a registry promises\<close>

text \<open>\<open>pnames\<close> are the names registered, \<open>presolve\<close> the lookup by name or alias.\<close>

locale plugins =
  fixes pregister :: "string \<Rightarrow> nat \<Rightarrow> 'r \<Rightarrow> 'r"
    and punregister :: "string \<Rightarrow> 'r \<Rightarrow> 'r"
    and presolve :: "'r \<Rightarrow> string \<Rightarrow> nat option"
    and pnames :: "'r \<Rightarrow> string set"
  assumes resolve_register: "presolve (pregister n k r) n = Some k"
    and resolve_register_other: "m \<noteq> n \<Longrightarrow> m \<in> pnames r \<Longrightarrow> presolve (pregister n k r) m = presolve r m"
    and names_register: "pnames (pregister n k r) = insert n (pnames r)"
    and names_unregister: "pnames (punregister n r) = pnames r - {n}"
    and resolve_names: "m \<in> pnames r \<Longrightarrow> presolve r m \<noteq> None"
begin

text \<open>Registering a list of plugins makes every name resolve, to the last class it was given.\<close>

definition register_all :: "(string \<times> nat) list \<Rightarrow> 'r \<Rightarrow> 'r" where
  "register_all ps r = fold (\<lambda>(n, k). pregister n k) ps r"

lemma register_all_simps [simp]:
  "register_all [] r = r" "register_all ((n, k) # ps) r = register_all ps (pregister n k r)"
  by (simp_all add: register_all_def)

lemma names_register_all: "pnames (register_all ps r) = pnames r \<union> fst ` set ps"
proof (induction ps arbitrary: r)
  case (Cons p ps)
  then show ?case by (cases p) (auto simp: names_register)
qed simp

lemma resolve_kept:
  "m \<notin> fst ` set ps \<Longrightarrow> m \<in> pnames r \<Longrightarrow> presolve (register_all ps r) m = presolve r m"
proof (induction ps arbitrary: r)
  case (Cons p ps)
  obtain n k where p: "p = (n, k)" by (cases p)
  with Cons.prems have "presolve (register_all ps (pregister n k r)) m = presolve (pregister n k r) m"
    by (intro Cons.IH) (auto simp: names_register)
  with Cons.prems show ?case by (simp add: p resolve_register_other)
qed simp

lemma resolve_register_all:
  "distinct (map fst ps) \<Longrightarrow> (n, k) \<in> set ps \<Longrightarrow> presolve (register_all ps r) n = Some k"
proof (induction ps arbitrary: r)
  case (Cons p ps)
  obtain n' k' where p: "p = (n', k')" by (cases p)
  show ?case
  proof (cases "(n, k) = (n', k')")
    case True
    with Cons.prems have "n \<notin> fst ` set ps" by (auto simp: p image_iff)
    then have "presolve (register_all ps (pregister n k r)) n = presolve (pregister n k r) n"
      by (intro resolve_kept) (simp_all add: names_register)
    with True show ?thesis by (simp add: p resolve_register)
  next
    case False
    with Cons show ?thesis by (auto simp: p)
  qed
qed simp

end

definition reg_names :: "registry \<Rightarrow> string set" where
  "reg_names R = set (dkeys (reg_factories R))"

interpretation reg: plugins "\<lambda>n k. register n k True as" unregister reg_get reg_names
  for as
proof unfold_locales
  fix m n k r assume "m \<noteq> n" "m \<in> reg_names r"
  then show "reg_get (register n k True as r) m = reg_get r m"
    using dget_None_iff[of "reg_factories r" m]
    by (auto simp: reg_get_def register_def reg_names_def split: option.splits)
next
  fix m r assume "m \<in> reg_names r"
  then show "reg_get r m \<noteq> None"
    using dget_None_iff[of "reg_factories r" m]
    by (auto simp: reg_get_def reg_names_def split: option.splits)
qed (auto simp: reg_get_def register_def unregister_def reg_names_def dkeys_ddel)

section \<open>Parsing filters\<close>

text \<open>
  The classes the parser knows by their constructors; a block class takes a registry too.
  \<open>vfc\<close> is \<open>value_filter_class\<close>, which each provider sets.
\<close>

definition cls_or :: nat where "cls_or = 0"
definition cls_and :: nat where "cls_and = 1"
definition cls_not :: nat where "cls_not = 2"
definition cls_value :: nat where "cls_value = 3"
definition cls_event :: nat where "cls_event = 4"
definition cls_reduce :: nat where "cls_reduce = 5"
definition cls_list_item :: nat where "cls_list_item = 6"

definition filter_classes :: "(string \<times> nat) list" where
  "filter_classes =
     [(''value'', cls_value), (''or'', cls_or), (''and'', cls_and), (''not'', cls_not),
      (''event'', cls_event), (''reduce'', cls_reduce), (''list-item'', cls_list_item)]"

definition filter_registry :: "(nat \<Rightarrow> class_attrs) \<Rightarrow> registry" where
  "filter_registry cs = reg.register_all None filter_classes (reg_init cs)"

datatype pfilter = PLeaf nat pydict | PBlock nat "pfilter list"

text \<open>Calling a class on the data and a manager: block classes need one argument more.\<close>

definition new_filter :: "nat \<Rightarrow> pydict \<Rightarrow> pfilter res" where
  "new_filter c d = (if c \<in> {cls_or, cls_and, cls_not} then Inl TypeError else Inr (PLeaf c d))"

definition by_type :: "registry \<Rightarrow> pyval \<Rightarrow> pydict \<Rightarrow> pfilter res" where
  "by_type R t d =
     (if \<not> py_truth t then Inl PolicyValidationError
      else if \<not> hashable t then Inl TypeError
      else case t of
        PStr s \<Rightarrow> (case reg_get R s of Some c \<Rightarrow> new_filter c d | None \<Rightarrow> Inl PolicyValidationError)
      | _ \<Rightarrow> Inl PolicyValidationError)"

definition call_vfc :: "nat option \<Rightarrow> pydict \<Rightarrow> pfilter res" where
  "call_vfc vfc d = (case vfc of None \<Rightarrow> Inl TypeError | Some c \<Rightarrow> new_filter c d)"

definition factory_str :: "registry \<Rightarrow> string \<Rightarrow> pfilter res" where
  "factory_str R s = by_type R (PStr s) [(''type'', PStr s)]"

text \<open>
  \<open>factory\<close> and \<open>parse\<close>. Iterating over a string or a dictionary gives strings.
\<close>

function factory :: "registry \<Rightarrow> nat option \<Rightarrow> pyval \<Rightarrow> pfilter res"
  and parse :: "registry \<Rightarrow> nat option \<Rightarrow> pyval list \<Rightarrow> pfilter list res" where
  "factory R vfc data = (case data of
      PDict d \<Rightarrow>
        (case d of
           [(op, v)] \<Rightarrow>
             if op = ''type'' then by_type R v d
             else if op \<in> set [''or'', ''and'', ''not''] then
               rbind (reg_index R op) (\<lambda>c.
               rbind (case v of
                   PList xs \<Rightarrow> parse R vfc xs
                 | PTuple xs \<Rightarrow> parse R vfc xs
                 | _ \<Rightarrow> rbind (py_iter v) (\<lambda>xs. rmap (\<lambda>x. case x of
                       PStr s \<Rightarrow> factory_str R s | _ \<Rightarrow> Inl AttributeError) xs))
               (\<lambda>fs. Inr (PBlock c fs)))
             else call_vfc vfc d
         | _ \<Rightarrow> by_type R (dget_or d ''type'' PNone) d)
    | PStr s \<Rightarrow> factory_str R s
    | _ \<Rightarrow> Inl AttributeError)"
| "parse R vfc [] = Inr []"
| "parse R vfc (d # ds) = rbind (factory R vfc d) (\<lambda>f. rbind (parse R vfc ds) (\<lambda>fs. Inr (f # fs)))"
  by pat_completeness auto
termination
  by (relation "measure (\<lambda>x. case x of Inl (R, v, d) \<Rightarrow> size d | Inr (R, v, ds) \<Rightarrow> size_list size ds)")
     (auto simp: size_list_def)

declare factory.simps [simp del]

section \<open>The properties\<close>

text \<open>
  Filters written with the given type names: a string, a dictionary with a type, a
  one-entry dictionary (a key and the value it should have), or blocks of those.
\<close>

definition names_type :: "string list \<Rightarrow> pydict \<Rightarrow> bool" where
  "names_type ns d = (case dget d ''type'' of Some (PStr s) \<Rightarrow> s \<in> set ns | _ \<Rightarrow> False)"

fun written_with :: "string list \<Rightarrow> pyval \<Rightarrow> bool" where
  "written_with ns (PStr s) = (s \<in> set ns)"
| "written_with ns (PDict [(op, v)]) =
     (if op = ''type'' then (case v of PStr s \<Rightarrow> s \<in> set ns | _ \<Rightarrow> False)
      else if op \<in> set [''or'', ''and'', ''not''] then
        (case v of PList xs \<Rightarrow> list_all (written_with ns) xs | _ \<Rightarrow> False)
      else True)"
| "written_with ns (PDict d) = names_type ns d"
| "written_with ns _ = False"

text \<open>The registry of a resource type: the common filters and the plugins of its own.\<close>

definition resource_filters :: "(nat \<Rightarrow> class_attrs) \<Rightarrow> (string \<times> nat) list \<Rightarrow> registry" where
  "resource_filters cs ps = reg.register_all None (filter_classes @ ps) (reg_init cs)"

definition plugins_ok :: "(string \<times> nat) list \<Rightarrow> bool" where
  "plugins_ok ps =
     (distinct (map fst (filter_classes @ ps)) \<and> list_all (\<lambda>(n, k). n \<noteq> [] \<and> cls_list_item < k) ps)"

definition leaf_names :: "(string \<times> nat) list \<Rightarrow> string list" where
  "leaf_names ps = [''value'', ''event'', ''reduce'', ''list-item''] @ map fst ps"

lemma resolve_resource_filters:
  "plugins_ok ps \<Longrightarrow> (n, k) \<in> set (filter_classes @ ps) \<Longrightarrow> reg_get (resource_filters cs ps) n = Some k"
  unfolding resource_filters_def by (rule reg.resolve_register_all) (simp_all add: plugins_ok_def)

lemma block_names: "list_all (\<lambda>op. \<exists>c. (op, c) \<in> set filter_classes) [''or'', ''and'', ''not'']"
  by (simp add: filter_classes_def)

lemma resolve_block:
  assumes "plugins_ok ps" "op \<in> set [''or'', ''and'', ''not'']"
  shows "\<exists>c. reg_index (resource_filters cs ps) op = Inr c"
proof -
  obtain c where "(op, c) \<in> set (filter_classes @ ps)"
    using block_names assms(2) unfolding list_all_iff by auto
  from resolve_resource_filters[OF assms(1) this] show ?thesis by (simp add: reg_index_def)
qed

lemma common_names:
  "list_all (\<lambda>s. \<exists>c. (s, c) \<in> set filter_classes \<and> c \<notin> {cls_or, cls_and, cls_not} \<and> s \<noteq> [])
     [''value'', ''event'', ''reduce'', ''list-item'']"
  by (simp add: filter_classes_def cls_or_def cls_and_def cls_not_def cls_value_def cls_event_def
      cls_reduce_def cls_list_item_def)

lemma leaf_class:
  assumes "plugins_ok ps" "s \<in> set (leaf_names ps)"
  shows "\<exists>k. (s, k) \<in> set (filter_classes @ ps) \<and> k \<notin> {cls_or, cls_and, cls_not} \<and> s \<noteq> []"
proof (cases "s \<in> set (map fst ps)")
  case True
  then obtain k where "(s, k) \<in> set ps" by auto
  with assms(1) show ?thesis
    unfolding plugins_ok_def list_all_iff
    by (intro exI[of _ k]) (auto simp: cls_or_def cls_and_def cls_not_def cls_list_item_def)
next
  case False
  with assms(2) have "s \<in> set [''value'', ''event'', ''reduce'', ''list-item'']"
    unfolding leaf_names_def set_append by blast
  with common_names show ?thesis unfolding list_all_iff set_append by blast
qed

lemma by_type_leaf:
  assumes "plugins_ok ps" "s \<in> set (leaf_names ps)"
  shows "\<exists>c. by_type (resource_filters cs ps) (PStr s) d = Inr (PLeaf c d)"
proof -
  obtain k where k: "(s, k) \<in> set (filter_classes @ ps)" "k \<notin> {cls_or, cls_and, cls_not}" "s \<noteq> []"
    using leaf_class[OF assms] by blast
  with resolve_resource_filters[OF assms(1) k(1)] show ?thesis
    by (simp add: by_type_def new_filter_def)
qed

lemma parse_total:
  "(\<And>v. v \<in> set vs \<Longrightarrow> \<exists>f. factory R vfc v = Inr f) \<Longrightarrow>
   \<exists>fs. parse R vfc vs = Inr fs \<and> length fs = length vs"
proof (induction vs)
  case (Cons v vs)
  then obtain f fs where "factory R vfc v = Inr f" "parse R vfc vs = Inr fs" "length fs = length vs"
    by fastforce
  then show ?case by simp
qed simp

lemma factory_block:
  "op \<noteq> ''type'' \<Longrightarrow> op \<in> set [''or'', ''and'', ''not''] \<Longrightarrow> factory R vfc (PDict [(op, PList xs)]) =
     rbind (reg_index R op) (\<lambda>c. rbind (parse R vfc xs) (\<lambda>fs. Inr (PBlock c fs)))"
  by (simp only: factory.simps pyval.case list.case prod.case if_False if_True)

lemma factory_value:
  "op \<noteq> ''type'' \<Longrightarrow> op \<notin> set [''or'', ''and'', ''not''] \<Longrightarrow> factory R vfc (PDict [(op, v)]) = call_vfc vfc [(op, v)]"
  by (simp only: factory.simps pyval.case list.case prod.case if_False)

lemma factory_type1: "factory R vfc (PDict [(''type'', v)]) = by_type R v [(''type'', v)]"
  by (simp only: factory.simps pyval.case list.case prod.case if_True simp_thms)

lemma factory_many: "length d \<noteq> 1 \<Longrightarrow> factory R vfc (PDict d) = by_type R (dget_or d ''type'' PNone) d"
  by (cases d rule: remdups_adj.cases) (auto simp: factory.simps)

lemma names_type_factory:
  assumes "plugins_ok ps" "names_type (leaf_names ps) d" "length d \<noteq> 1"
  shows "\<exists>f. factory (resource_filters cs ps) vfc (PDict d) = Inr f"
proof -
  obtain s where "dget d ''type'' = Some (PStr s)" "s \<in> set (leaf_names ps)"
    using assms(2) by (auto simp: names_type_def split: option.splits pyval.splits)
  with by_type_leaf[OF assms(1), of s cs d] show ?thesis
    by (auto simp: factory_many[OF assms(3)] dget_or_def)
qed

lemma block_not_type: "op \<in> set [''or'', ''and'', ''not''] \<Longrightarrow> op \<noteq> ''type''"
  by auto

lemma factory_written:
  assumes "plugins_ok ps"
  shows "written_with ns v \<Longrightarrow> ns = leaf_names ps \<Longrightarrow>
    \<exists>f. factory (resource_filters cs ps) (Some cls_value) v = Inr f"
proof (induction ns v rule: written_with.induct)
  case (1 ns s)
  with by_type_leaf[OF assms, of s cs "[(''type'', PStr s)]"] show ?case
    by (auto simp: factory.simps factory_str_def)
next
  case (2 ns op v)
  consider "op = ''type''" | "op \<in> set [''or'', ''and'', ''not'']" | "op \<noteq> ''type''" "op \<notin> set [''or'', ''and'', ''not'']"
    by blast
  then show ?case
  proof cases
    case 1
    with 2 obtain s where "v = PStr s" "s \<in> set (leaf_names ps)" by (cases v) simp_all
    with 1 by_type_leaf[OF assms, of s cs "[(op, v)]"] show ?thesis by (auto simp: factory_type1)
  next
    case blk: 2
    note nt = block_not_type[OF blk]
    have "case v of PList xs \<Rightarrow> list_all (written_with ns) xs | _ \<Rightarrow> False"
      using "2.prems"(1) unfolding written_with.simps if_not_P[OF nt] if_P[OF blk] .
    then obtain xs where v: "v = PList xs" "list_all (written_with ns) xs" by (cases v) simp_all
    have "\<exists>fs. parse (resource_filters cs ps) (Some cls_value) xs = Inr fs \<and> length fs = length xs"
      by (rule parse_total) (use "2.IH"[OF nt blk v(1)] v(2) "2.prems"(2) in \<open>simp add: list_all_iff\<close>)
    moreover obtain c where "reg_index (resource_filters cs ps) op = Inr c"
      using resolve_block[OF assms blk] by blast
    ultimately show ?thesis by (auto simp: v(1) factory_block[OF nt blk])
  next
    case 3
    then show ?thesis
      by (simp add: factory_value[OF 3] call_vfc_def new_filter_def cls_value_def cls_or_def cls_and_def cls_not_def)
  qed
qed (auto intro!: names_type_factory[OF assms])

text \<open>Filters written with names of the common filters, of the resource type's plugins
  (which do not reuse them), as one-key value filters, or as blocks of those, parse: one
  filter per entry of the policy, and none is refused.\<close>
theorem parse_registered:
  assumes "plugins_ok ps" "list_all (written_with (leaf_names ps)) data"
  shows "\<exists>fs. parse (resource_filters cs ps) (Some cls_value) data = Inr fs \<and> length fs = length data"
  by (rule parse_total) (use factory_written[OF assms(1) _ refl] assms(2) in \<open>simp add: list_all_iff\<close>)

lemma parse_registered_witness:
  "\<exists>fs. parse (resource_filters (\<lambda>n. \<lparr>ca_type = [], ca_aliases = None\<rparr>) [(''image-age'', 7)]) (Some cls_value)
     [PStr ''image-age'', PDict [(''or'', PList [PDict [(''Name'', PStr ''a'')], PStr ''reduce''])]] = Inr fs \<and>
     length fs = 2"
proof -
  have "plugins_ok [(''image-age'', 7)]"
    by (simp add: plugins_ok_def filter_classes_def cls_list_item_def)
  moreover have "list_all (written_with (leaf_names [(''image-age'', 7)]))
      [PStr ''image-age'', PDict [(''or'', PList [PDict [(''Name'', PStr ''a'')], PStr ''reduce''])]]"
    by (simp add: leaf_names_def)
  ultimately show ?thesis
    using parse_registered[of "[(''image-age'', 7)]" _ "\<lambda>n. \<lparr>ca_type = [], ca_aliases = None\<rparr>"] by fastforce
qed

end
