(* ===== verification/Traversal.thy ===== *)
theory Traversal
  imports PyVal "HOL-Library.Multiset"
begin

text \<open>
  The tree of a policy's filter objects (\<open>c7n/manager.py\<close> \<open>iter_filters\<close>, \<open>c7n/filters/core.py\<close>
  \<open>Filter.get_block_parent\<close>, \<open>get_block_operator\<close>, \<open>merge_annotation\<close>, \<open>trim_runtime\<close>):
  filter objects are numbered, a block also has a type and its members.
\<close>

section \<open>Trees of filter objects\<close>

text \<open>The first result a search over a list gives.\<close>

fun first_some :: "('a \<Rightarrow> 'b option) \<Rightarrow> 'a list \<Rightarrow> 'b option" where
  "first_some g [] = None"
| "first_some g (x # xs) = (case g x of None \<Rightarrow> first_some g xs | Some y \<Rightarrow> Some y)"

lemma first_some_cong [fundef_cong]:
  "xs = ys \<Longrightarrow> (\<And>x. x \<in> set ys \<Longrightarrow> f x = g x) \<Longrightarrow> first_some f xs = first_some g ys"
proof (induction ys arbitrary: xs)
  case (Cons y ys)
  then have "first_some f ys = first_some g ys" by auto
  with Cons show ?case by (simp split: option.split)
qed simp

lemma first_some_None: "first_some g xs = None \<longleftrightarrow> (\<forall>x \<in> set xs. g x = None)"
  by (induction xs) (auto split: option.splits)

lemma first_some_append:
  "first_some g (xs @ ys) = (case first_some g xs of None \<Rightarrow> first_some g ys | Some y \<Rightarrow> Some y)"
  by (induction xs) (auto split: option.splits)

text \<open>A leaf has its identity and whether it is an EventFilter.\<close>

datatype flt = FLeaf nat bool | FGroup nat string "flt list"

fun fid :: "flt \<Rightarrow> nat" where
  "fid (FLeaf i e) = i"
| "fid (FGroup i t cs) = i"

fun fids :: "flt \<Rightarrow> nat list" where
  "fids (FLeaf i e) = [i]"
| "fids (FGroup i t cs) = i # concat (map fids cs)"

abbreviation ids_of :: "flt list \<Rightarrow> nat list" where
  "ids_of fs \<equiv> concat (map fids fs)"

fun fleaves :: "flt \<Rightarrow> (nat \<times> bool) list" where
  "fleaves (FLeaf i e) = [(i, e)]"
| "fleaves (FGroup i t cs) = concat (map fleaves cs)"

abbreviation leaves_of :: "flt list \<Rightarrow> (nat \<times> bool) list" where
  "leaves_of fs \<equiv> concat (map fleaves fs)"

section \<open>Iteration\<close>

text \<open>
  \<open>iter_filters\<close>: the queue holds filters and, with \<open>block_end\<close>, the None that marks where a
  block's members end. Members are pushed one by one on the left, so they come out reversed.
\<close>

fun fweight :: "flt option \<Rightarrow> nat" and tweight :: "flt \<Rightarrow> nat" where
  "fweight None = 1"
| "fweight (Some f) = tweight f"
| "tweight (FLeaf i e) = 1"
| "tweight (FGroup i t cs) = 2 + sum_list (map tweight cs)"

lemma tweight_pos [simp]: "0 < tweight f"
  by (cases f) auto

function iter_queue :: "bool \<Rightarrow> flt option list \<Rightarrow> flt option list" where
  "iter_queue be [] = []"
| "iter_queue be (None # q) = None # iter_queue be q"
| "iter_queue be (Some (FLeaf i e) # q) = Some (FLeaf i e) # iter_queue be q"
| "iter_queue be (Some (FGroup i t cs) # q) =
     Some (FGroup i t cs) # iter_queue be (rev (map Some cs) @ (if be then [None] else []) @ q)"
  by pat_completeness auto
termination
  by (relation "measure (\<lambda>(be, q). sum_list (map fweight q))") (auto simp: rev_map[symmetric] comp_def)

definition iter_filters :: "bool \<Rightarrow> flt list \<Rightarrow> flt option list" where
  "iter_filters be fs = iter_queue be (map Some fs)"

section \<open>The block of a filter\<close>

text \<open>
  \<open>get_block_parent\<close>: the stack starts with the manager (None) and follows the blocks that
  are open. The result is \<open>None\<close> when the filter is not in the tree.
\<close>

fun block_scan :: "nat \<Rightarrow> flt option list \<Rightarrow> nat option list \<Rightarrow> nat option option" where
  "block_scan x [] st = None"
| "block_scan x (None # q) st = block_scan x q (tl st)"
| "block_scan x (Some f # q) st =
     (if fid f = x then Some (hd st)
      else case f of
        FLeaf i e \<Rightarrow> block_scan x q st
      | FGroup i t cs \<Rightarrow> block_scan x q (Some i # st))"

definition get_block_parent :: "flt list \<Rightarrow> nat \<Rightarrow> nat option option" where
  "get_block_parent fs x = block_scan x (iter_filters True fs) [None]"

fun group_type :: "nat \<Rightarrow> flt \<Rightarrow> string option" where
  "group_type g (FLeaf i e) = None"
| "group_type g (FGroup i t cs) =
     (if i = g then Some t
      else first_some (group_type g) cs)"

definition type_of_group :: "nat \<Rightarrow> flt list \<Rightarrow> string option" where
  "type_of_group g fs = first_some (group_type g) fs"

text \<open>\<open>get_block_operator\<close>; \<open>mtype\<close> is the manager's \<open>type\<close>, which is never a block's.\<close>

definition get_block_operator :: "flt list \<Rightarrow> nat \<Rightarrow> string res" where
  "get_block_operator fs x = (case get_block_parent fs x of
      None \<Rightarrow> Inl AttributeError
    | Some None \<Rightarrow> Inr ''and''
    | Some (Some g) \<Rightarrow> (case type_of_group g fs of
        Some t \<Rightarrow> Inr (if t \<in> set [''and'', ''or'', ''not''] then t else ''and'')
      | None \<Rightarrow> Inl AttributeError))"

section \<open>Merging annotations\<close>

text \<open>\<open>intersect_list\<close> and \<open>union_list\<close>; None is an annotation that is not there.\<close>

definition intersect_list :: "pyval list option \<Rightarrow> pyval list option \<Rightarrow> pyval list option" where
  "intersect_list a b = (case (a, b) of
      (_, None) \<Rightarrow> a | (None, _) \<Rightarrow> b
    | (Some xs, Some ys) \<Rightarrow> Some (filter (\<lambda>x. mem_eq x ys) xs))"

definition union_list :: "pyval list option \<Rightarrow> pyval list option \<Rightarrow> pyval list option" where
  "union_list a b =
     (if b = None \<or> b = Some [] then a
      else if a = None \<or> a = Some [] then b
      else case (a, b) of
        (Some xs, Some ys) \<Rightarrow> Some (foldl (\<lambda>res x. if mem_eq x res then res else res @ [x]) xs ys)
      | _ \<Rightarrow> None)"

definition as_list_option :: "pyval option \<Rightarrow> pyval list option" where
  "as_list_option v = (case v of Some (PList xs) \<Rightarrow> Some xs | _ \<Rightarrow> None)"

text \<open>\<open>merge_annotation\<close>: \<open>key\<close> is the attribute \<open>matched_annotation_key\<close>.\<close>

definition merge_annotation :: "string \<Rightarrow> string \<Rightarrow> pyval list option \<Rightarrow> pydict \<Rightarrow> pydict" where
  "merge_annotation op key values r =
     (let old = as_list_option (dget r key);
          new = (if op = ''or'' then union_list values old else intersect_list values old)
      in dput key (case new of None \<Rightarrow> PNone | Some xs \<Rightarrow> PList xs) r)"

section \<open>Trimming runtime filters\<close>

text \<open>\<open>list.remove\<close>, by identity; the changed block is found by its identity.\<close>

fun remove_id :: "nat \<Rightarrow> flt list \<Rightarrow> flt list" where
  "remove_id x [] = []"
| "remove_id x (f # fs) = (if fid f = x then fs else f # remove_id x fs)"

fun in_group :: "nat \<Rightarrow> (flt list \<Rightarrow> flt list) \<Rightarrow> flt \<Rightarrow> flt" where
  "in_group g h (FLeaf i e) = FLeaf i e"
| "in_group g h (FGroup i t cs) = FGroup i t (if i = g then h cs else map (in_group g h) cs)"

fun group_members :: "nat \<Rightarrow> flt \<Rightarrow> flt list option" where
  "group_members g (FLeaf i e) = None"
| "group_members g (FGroup i t cs) = (if i = g then Some cs else first_some (group_members g) cs)"

text \<open>
  \<open>remove_filter\<close>: a block that becomes empty is removed in turn. Each round removes an
  object, so as many rounds as there are objects are enough.
\<close>

fun remove_filter :: "nat \<Rightarrow> nat \<Rightarrow> flt list \<Rightarrow> flt list res" where
  "remove_filter 0 x fs = Inl RuntimeError"
| "remove_filter (Suc n) x fs = (case get_block_parent fs x of
      None \<Rightarrow> Inl AttributeError
    | Some None \<Rightarrow> Inr (remove_id x fs)
    | Some (Some g) \<Rightarrow>
        (let fs' = map (in_group g (remove_id x)) fs
         in if first_some (group_members g) fs' = Some [] then remove_filter n g fs' else Inr fs'))"

text \<open>
  \<open>trim_runtime\<close>. The iteration runs while blocks change; an object is removed only after
  the iteration gave it out, and with it the members it had, so what is given out is what
  the tree held at the start.
\<close>

definition event_filters :: "flt list \<Rightarrow> nat list" where
  "event_filters fs = concat (map (\<lambda>o'. case o' of Some (FLeaf i True) \<Rightarrow> [i] | _ \<Rightarrow> []) (iter_filters False fs))"

definition trim_runtime :: "flt list \<Rightarrow> flt list res" where
  "trim_runtime fs = rfold (\<lambda>gs x. remove_filter (length (ids_of fs)) x gs) fs (event_filters fs)"

section \<open>The immediate block\<close>

fun parent_in :: "nat \<Rightarrow> nat option \<Rightarrow> flt \<Rightarrow> nat option option" where
  "parent_in x p (FLeaf i e) = (if i = x then Some p else None)"
| "parent_in x p (FGroup i t cs) =
     (if i = x then Some p else first_some (parent_in x (Some i)) cs)"

lemma parent_in_None: "parent_in x p f = None \<longleftrightarrow> x \<notin> set (fids f)"
  by (induction f arbitrary: p) (auto simp: first_some_None)

lemma scan_skip_list:
  assumes "\<And>f q st. f \<in> set fs \<Longrightarrow> block_scan x (iter_queue True (Some f # q)) st = block_scan x (iter_queue True q) st"
  shows "block_scan x (iter_queue True (map Some fs @ q)) st = block_scan x (iter_queue True q) st"
  using assms by (induction fs) auto

lemma scan_skip:
  "x \<notin> set (fids f) \<Longrightarrow> block_scan x (iter_queue True (Some f # q)) st = block_scan x (iter_queue True q) st"
proof (induction f arbitrary: q st)
  case (FGroup i t cs)
  have "block_scan x (iter_queue True (map Some (rev cs) @ None # q)) (Some i # st) =
        block_scan x (iter_queue True (None # q)) (Some i # st)"
    using FGroup by (intro scan_skip_list) auto
  with FGroup.prems show ?case by (simp add: rev_map)
qed simp

lemma split_at_child:
  assumes "distinct (concat (map fids cs))" "x \<in> set (concat (map fids cs))"
  obtains as c bs where "cs = as @ c # bs" "x \<in> set (fids c)" "\<forall>f \<in> set as \<union> set bs. x \<notin> set (fids f)"
proof -
  from assms(2) obtain c where "c \<in> set cs" "x \<in> set (fids c)" by auto
  then obtain as bs where cs: "cs = as @ c # bs" by (auto dest: split_list)
  with assms(1) \<open>x \<in> set (fids c)\<close> have "\<forall>f \<in> set as \<union> set bs. x \<notin> set (fids f)" by auto
  with cs \<open>x \<in> set (fids c)\<close> that show thesis by blast
qed

lemma scan_find:
  "x \<in> set (fids f) \<Longrightarrow> distinct (fids f) \<Longrightarrow>
   block_scan x (iter_queue True (Some f # q)) st = parent_in x (hd st) f"
proof (induction f arbitrary: q st)
  case (FGroup i t cs)
  show ?case
  proof (cases "i = x")
    case False
    with FGroup.prems have "distinct (concat (map fids cs))" "x \<in> set (concat (map fids cs))" by auto
    from split_at_child[OF this] obtain as c bs
      where cs: "cs = as @ c # bs" and c: "x \<in> set (fids c)"
        and others: "\<forall>f \<in> set as \<union> set bs. x \<notin> set (fids f)" by blast
    let ?q = "map Some (rev as) @ None # q"
    have "block_scan x (iter_queue True (map Some (rev bs) @ Some c # ?q)) (Some i # st) =
          block_scan x (iter_queue True (Some c # ?q)) (Some i # st)"
      using others by (intro scan_skip_list scan_skip) auto
    also have "\<dots> = parent_in x (hd (Some i # st)) c"
      using FGroup c by (intro FGroup.IH) (auto simp: cs)
    finally have "block_scan x (iter_queue True (rev (map Some cs) @ None # q)) (Some i # st) = parent_in x (Some i) c"
      by (simp add: cs rev_map)
    moreover have "first_some (parent_in x (Some i)) cs = parent_in x (Some i) c"
    proof -
      have "first_some (parent_in x (Some i)) as = None"
        using others by (auto simp: first_some_None parent_in_None)
      moreover have "parent_in x (Some i) c \<noteq> None" using c by (simp add: parent_in_None)
      ultimately show ?thesis by (auto simp: cs first_some_append)
    qed
    ultimately show ?thesis using False by simp
  qed simp
qed simp

lemma get_block_parent_eq:
  "distinct (ids_of fs) \<Longrightarrow> get_block_parent fs x = first_some (parent_in x None) fs"
proof -
  have "block_scan x (iter_queue True (map Some fs)) [None] = first_some (parent_in x None) fs"
    if "distinct (ids_of fs)"
    using that
  proof (induction fs)
    case (Cons f fs)
    show ?case
    proof (cases "x \<in> set (fids f)")
      case True
      with Cons.prems scan_find[of x f "map Some fs" "[None]"] show ?thesis
        using parent_in_None[of x None f] by auto
    next
      case False
      with Cons scan_skip[OF False, of "map Some fs" "[None]"] show ?thesis
        using parent_in_None[of x None f] by auto
    qed
  qed simp
  then show "distinct (ids_of fs) \<Longrightarrow> get_block_parent fs x = first_some (parent_in x None) fs"
    by (simp add: get_block_parent_def iter_filters_def)
qed

text \<open>All objects of a tree.\<close>

fun fnodes :: "flt \<Rightarrow> flt list" where
  "fnodes (FLeaf i e) = [FLeaf i e]"
| "fnodes (FGroup i t cs) = FGroup i t cs # concat (map fnodes cs)"

abbreviation nodes_of :: "flt list \<Rightarrow> flt list" where
  "nodes_of fs \<equiv> concat (map fnodes fs)"

lemma fids_nodes: "fids f = map fid (fnodes f)"
  by (induction f) (auto simp: map_concat intro!: arg_cong[of _ _ concat])

lemma ids_nodes: "ids_of fs = map fid (nodes_of fs)"
  by (induction fs) (auto simp: fids_nodes)

lemma root_node [simp]: "f \<in> set (fnodes f)"
  by (cases f) auto

lemma root_id [simp]: "fid f \<in> set (fids f)"
  by (cases f) auto

lemma member_id: "c \<in> set cs \<Longrightarrow> fid c \<in> set (ids_of cs)"
  by (auto intro!: bexI[of _ c])

lemma first_parent:
  assumes "distinct (ids_of cs)"
  shows "first_some (parent_in x p) cs = Some q \<longleftrightarrow> (\<exists>c \<in> set cs. parent_in x p c = Some q)"
  using assms
proof (induction cs)
  case (Cons c cs)
  show ?case
  proof (cases "x \<in> set (fids c)")
    case True
    with Cons.prems have "\<forall>d \<in> set cs. parent_in x p d = None" by (auto simp: parent_in_None)
    with True show ?thesis using parent_in_None[of x p c] by auto
  next
    case False
    then have "parent_in x p c = None" by (simp add: parent_in_None)
    with Cons show ?thesis by auto
  qed
qed simp

lemma parent_in_Some:
  "distinct (fids f) \<Longrightarrow> parent_in x p f = Some q \<longleftrightarrow>
     (x = fid f \<and> q = p) \<or> (\<exists>g t cs. q = Some g \<and> FGroup g t cs \<in> set (fnodes f) \<and> x \<in> fid ` set cs)"
proof (induction f arbitrary: p q)
  case (FGroup i t cs)
  have d: "distinct (ids_of cs)" "i \<notin> set (ids_of cs)" "\<And>c. c \<in> set cs \<Longrightarrow> distinct (fids c)"
    using FGroup.prems by (auto simp: distinct_concat_iff)
  have inner: "x \<in> set (ids_of cs)" if "c \<in> set cs" "FGroup g t' ds \<in> set (fnodes c)" "x \<in> fid ` set ds" for c g t' ds
  proof -
    have "set (concat (map fids ds)) \<subseteq> set (fids c)" if "FGroup g t' ds \<in> set (fnodes c)" for c
      using that
    proof (induction c)
      case (FGroup j u es)
      then show ?case by (auto; blast)
    qed simp
    moreover from that(3) obtain e where "e \<in> set ds" "x = fid e" by blast
    then have "x \<in> set (concat (map fids ds))" using member_id[of e ds] by simp
    ultimately show ?thesis using that(1,2) by auto
  qed
  show ?case
  proof (cases "i = x")
    case True
    have "x \<notin> fid ` set cs" using d(2) True member_id[of _ cs] by auto
    moreover have "\<not> (FGroup g t' ds \<in> set (fnodes c) \<and> x \<in> fid ` set ds)" if "c \<in> set cs" for c g t' ds
      using inner[OF that] d(2) True by blast
    ultimately have "\<not> (\<exists>g t' ds. FGroup g t' ds \<in> set (fnodes (FGroup i t cs)) \<and> x \<in> fid ` set ds)"
      by (simp del: fid.simps) blast
    then show ?thesis using True by (auto simp del: fnodes.simps)
  next
    case False
    have "parent_in x p (FGroup i t cs) = Some q \<longleftrightarrow> (\<exists>c \<in> set cs. parent_in x (Some i) c = Some q)"
      using False by (simp add: first_parent[OF d(1)])
    also have "\<dots> \<longleftrightarrow> (\<exists>c \<in> set cs. (x = fid c \<and> q = Some i) \<or>
        (\<exists>g t cs. q = Some g \<and> FGroup g t cs \<in> set (fnodes c) \<and> x \<in> fid ` set cs))"
      using FGroup.IH d(3) by auto
    also have "\<dots> \<longleftrightarrow> (\<exists>g t' ds. q = Some g \<and> FGroup g t' ds \<in> set (fnodes (FGroup i t cs)) \<and> x \<in> fid ` set ds)"
      by (auto; blast)
    finally show ?thesis using False by simp
  qed
qed auto

lemma parent_in_forest:
  assumes "distinct (ids_of fs)"
  shows "first_some (parent_in x None) fs = Some (Some g) \<longleftrightarrow>
      (\<exists>t cs. FGroup g t cs \<in> set (nodes_of fs) \<and> x \<in> fid ` set cs)"
    and "first_some (parent_in x None) fs = Some None \<longleftrightarrow> x \<in> fid ` set fs"
proof -
  have "distinct (fids f)" if "f \<in> set fs" for f using assms that by (auto simp: distinct_concat_iff)
  then have p: "parent_in x None f = Some q \<longleftrightarrow> (x = fid f \<and> q = None) \<or>
      (\<exists>g t cs. q = Some g \<and> FGroup g t cs \<in> set (fnodes f) \<and> x \<in> fid ` set cs)" if "f \<in> set fs" for f q
    using that by (intro parent_in_Some)
  show "first_some (parent_in x None) fs = Some (Some g) \<longleftrightarrow>
      (\<exists>t cs. FGroup g t cs \<in> set (nodes_of fs) \<and> x \<in> fid ` set cs)"
    using p by (auto simp: first_parent[OF assms])
  show "first_some (parent_in x None) fs = Some None \<longleftrightarrow> x \<in> fid ` set fs"
    using p by (auto simp: first_parent[OF assms])
qed

text \<open>A filter's block parent, found with the traversal's stack, is the block that holds it
  as a member, and the manager exactly for the filters at the top level.\<close>
theorem get_block_parent_immediate:
  assumes "distinct (ids_of fs)"
  shows "(get_block_parent fs x = Some (Some g) \<longleftrightarrow>
           (\<exists>t cs. FGroup g t cs \<in> set (nodes_of fs) \<and> x \<in> fid ` set cs)) \<and>
         (get_block_parent fs x = Some None \<longleftrightarrow> x \<in> fid ` set fs) \<and>
         (get_block_parent fs x = None \<longleftrightarrow> x \<notin> set (ids_of fs))"
proof -
  have "first_some (parent_in x None) fs = None \<longleftrightarrow> x \<notin> set (ids_of fs)"
    by (auto simp: first_some_None parent_in_None)
  with parent_in_forest[OF assms] get_block_parent_eq[OF assms] show ?thesis by simp
qed

definition ex_tree :: "flt list" where
  "ex_tree = [FLeaf 0 False, FGroup 1 ''or'' [FLeaf 2 True, FGroup 3 ''not'' [FLeaf 4 True]]]"

lemma get_block_parent_immediate_witness:
  "get_block_parent ex_tree 4 = Some (Some 3) \<and> get_block_parent ex_tree 1 = Some None"
  using get_block_parent_immediate[of ex_tree 4 3] get_block_parent_immediate[of ex_tree 1 3]
  by (simp add: ex_tree_def)

section \<open>What trimming leaves\<close>

text \<open>The object \<open>x\<close> holds no other.\<close>

definition single :: "nat \<Rightarrow> flt list \<Rightarrow> bool" where
  "single x fs = (\<forall>c \<in> set (nodes_of fs). fid c = x \<longrightarrow> fids c = [x])"

lemma leaf_ids: "fst ` set (fleaves f) \<subseteq> set (fids f)"
  by (induction f) auto

lemma leaf_ids_of: "fst ` set (leaves_of fs) \<subseteq> set (ids_of fs)"
  using leaf_ids by fastforce

abbreviation without :: "nat \<Rightarrow> (nat \<times> bool) list \<Rightarrow> (nat \<times> bool) list" where
  "without x ls \<equiv> filter (\<lambda>(i, e). i \<noteq> x) ls"

lemma without_id: "x \<notin> fst ` set ls \<Longrightarrow> without x ls = ls"
  by (induction ls) auto

lemma without_all: "fst ` set ls \<subseteq> {x} \<Longrightarrow> without x ls = []"
  by (induction ls) auto

lemma filter_absent: "x \<notin> set xs \<Longrightarrow> filter (\<lambda>i. i \<noteq> x) xs = xs"
  by (induction xs) auto

lemma remove_id_effect:
  assumes "distinct (ids_of cs)" "single x cs" "x \<in> fid ` set cs"
  shows "ids_of (remove_id x cs) = filter (\<lambda>i. i \<noteq> x) (ids_of cs) \<and>
         leaves_of (remove_id x cs) = without x (leaves_of cs)"
  using assms
proof (induction cs)
  case (Cons c cs)
  show ?case
  proof (cases "fid c = x")
    case True
    with Cons.prems(2) have c: "fids c = [x]" by (auto simp: single_def)
    then have "fst ` set (fleaves c) \<subseteq> {x}" using leaf_ids[of c] by simp
    moreover have x: "x \<notin> set (ids_of cs)" using Cons.prems(1) c by auto
    then have "x \<notin> fst ` set (leaves_of cs)" using leaf_ids_of by blast
    ultimately show ?thesis
      using True c filter_absent[OF x] by (simp add: without_id without_all)
  next
    case False
    with Cons.prems(3) have m: "x \<in> fid ` set cs" by auto
    then have "x \<in> set (ids_of cs)" using member_id[of _ cs] by auto
    with Cons.prems(1) have x: "x \<notin> set (fids c)" by auto
    then have "x \<notin> fst ` set (fleaves c)" using leaf_ids by blast
    moreover have "ids_of (remove_id x cs) = filter (\<lambda>i. i \<noteq> x) (ids_of cs) \<and>
        leaves_of (remove_id x cs) = without x (leaves_of cs)"
      using Cons.prems m by (intro Cons.IH) (auto simp: single_def)
    moreover have "filter (\<lambda>i. i \<noteq> x) (fids c) = fids c" using x by (rule filter_absent)
    ultimately show ?thesis using False by (simp add: without_id)
  qed
qed simp

lemma in_group_other: "x \<notin> set (fids f) \<Longrightarrow> in_group g (remove_id x) f = f"
proof (induction f)
  case (FGroup i t cs)
  have "remove_id x cs = cs" if "x \<notin> set (ids_of cs)" for cs
    using that
  proof (induction cs)
    case (Cons c cs)
    then show ?case using root_id[of c] by auto
  qed simp
  moreover have "map (in_group g (remove_id x)) cs = cs" using FGroup by (intro map_idI) auto
  ultimately show ?case using FGroup.prems by auto
qed simp

lemma in_group_effect:
  "distinct (fids f) \<Longrightarrow> single x [f] \<Longrightarrow> parent_in x p f = Some (Some g) \<Longrightarrow> p \<noteq> Some g \<Longrightarrow>
   fids (in_group g (remove_id x) f) = filter (\<lambda>i. i \<noteq> x) (fids f) \<and>
   fleaves (in_group g (remove_id x) f) = without x (fleaves f)"
proof (induction f arbitrary: p)
  case (FGroup i t cs)
  have ix: "i \<noteq> x" using FGroup.prems(3,4) by (auto split: if_splits)
  have d: "distinct (ids_of cs)" "i \<notin> set (ids_of cs)" using FGroup.prems(1) by auto
  have sg: "single x cs" using FGroup.prems(2) by (auto simp: single_def)
  have f: "first_some (parent_in x (Some i)) cs = Some (Some g)" using FGroup.prems(3) ix by simp
  then obtain c where c: "c \<in> set cs" "parent_in x (Some i) c = Some (Some g)"
    using first_parent[OF d(1)] by blast
  then have xc: "x \<in> set (fids c)" using parent_in_None[of x "Some i" c] by auto
  show ?case
  proof (cases "i = g")
    case True
    have "x \<in> fid ` set cs"
    proof -
      have "distinct (fids c)" using d(1) c(1) by (auto simp: distinct_concat_iff)
      from c(2) True parent_in_Some[OF this, of x "Some i" "Some g"]
      have "x = fid c \<or> (\<exists>t ds. FGroup g t ds \<in> set (fnodes c))" by auto
      moreover have "\<not> (\<exists>t ds. FGroup g t ds \<in> set (fnodes c))"
      proof
        assume "\<exists>t ds. FGroup g t ds \<in> set (fnodes c)"
        then have "g \<in> set (fids c)" unfolding fids_nodes by force
        with d(2) True c(1) show False by auto
      qed
      ultimately show ?thesis using c(1) by auto
    qed
    from remove_id_effect[OF d(1) sg this] True ix show ?thesis by simp
  next
    case False
    obtain as bs where cs: "cs = as @ c # bs" and others: "\<forall>e \<in> set as \<union> set bs. x \<notin> set (fids e)"
    proof -
      obtain as bs where "cs = as @ c # bs" using c(1) by (auto dest: split_list)
      moreover from this d(1) xc have "\<forall>e \<in> set as \<union> set bs. x \<notin> set (fids e)" by auto
      ultimately show thesis using that by blast
    qed
    have o: "map (in_group g (remove_id x)) es = es \<and> filter (\<lambda>i. i \<noteq> x) (ids_of es) = ids_of es \<and>
        without x (leaves_of es) = leaves_of es" if "set es \<subseteq> set as \<union> set bs" for es
    proof -
      have n: "x \<notin> set (ids_of es)" using that others by auto
      have "x \<notin> fst ` set (leaves_of es)" using leaf_ids_of n by blast
      moreover have "map (in_group g (remove_id x)) es = es"
        using n by (intro map_idI in_group_other) auto
      moreover have "filter (\<lambda>i. i \<noteq> x) (ids_of es) = ids_of es" using n by (rule filter_absent)
      ultimately show ?thesis by (simp add: without_id)
    qed
    have "fids (in_group g (remove_id x) c) = filter (\<lambda>i. i \<noteq> x) (fids c) \<and>
        fleaves (in_group g (remove_id x) c) = without x (fleaves c)"
      using c d(1) sg False by (intro FGroup.IH[of c "Some i"]) (auto simp: single_def distinct_concat_iff)
    with o[of as] o[of bs] False ix show ?thesis by (simp add: cs)
  qed
qed (auto split: if_splits)

text \<open>Removing a single object that is in the tree.\<close>

lemma single_sub: "single x fs \<Longrightarrow> f \<in> set fs \<Longrightarrow> single x [f]"
  by (auto simp: single_def)

lemma shared_id:
  "distinct (ids_of fs) \<Longrightarrow> f \<in> set fs \<Longrightarrow> c \<in> set fs \<Longrightarrow> x \<in> set (fids f) \<Longrightarrow> x \<in> set (fids c) \<Longrightarrow> c = f"
  by (induction fs) auto

lemma in_groups_effect:
  assumes "distinct (ids_of fs)" "single x fs" "get_block_parent fs x = Some (Some g)"
  shows "ids_of (map (in_group g (remove_id x)) fs) = filter (\<lambda>i. i \<noteq> x) (ids_of fs) \<and>
         leaves_of (map (in_group g (remove_id x)) fs) = without x (leaves_of fs)"
proof -
  have "first_some (parent_in x None) fs = Some (Some g)" using assms(3) get_block_parent_eq[OF assms(1)] by simp
  then have g: "\<exists>c \<in> set fs. parent_in x None c = Some (Some g)" by (simp add: first_parent[OF assms(1)])
  have "fids (in_group g (remove_id x) f) = filter (\<lambda>i. i \<noteq> x) (fids f) \<and>
      fleaves (in_group g (remove_id x) f) = without x (fleaves f)" if f: "f \<in> set fs" for f
  proof (cases "x \<in> set (fids f)")
    case True
    from g obtain c where c: "c \<in> set fs" "parent_in x None c = Some (Some g)" by blast
    have "x \<in> set (fids c)" using c(2) parent_in_None[of x None c] by auto
    with True f c(1) assms(1) have "c = f" by (intro shared_id)
    with c assms f show ?thesis
      by (intro in_group_effect[of f x None]) (auto simp: distinct_concat_iff intro: single_sub)
  next
    case False
    then have "x \<notin> fst ` set (fleaves f)" using leaf_ids by blast
    with False show ?thesis by (simp add: in_group_other filter_absent without_id)
  qed
  then show ?thesis by (induction fs) auto
qed

lemma group_members_node: "group_members g f = Some cs \<Longrightarrow> \<exists>t. FGroup g t cs \<in> set (fnodes f)"
proof (induction f)
  case (FGroup i t ds)
  show ?case
  proof (cases "i = g")
    case False
    with FGroup.prems have "first_some (group_members g) ds = Some cs" by simp
    then have "\<exists>d \<in> set ds. group_members g d = Some cs"
      by (induction ds) (auto split: option.splits)
    then obtain d u where "d \<in> set ds" "FGroup g u cs \<in> set (fnodes d)" using FGroup.IH by blast
    then show ?thesis by auto
  qed (use FGroup.prems in auto)
qed simp

lemma empty_group:
  assumes "first_some (group_members g) fs = Some []" "distinct (ids_of fs)"
  shows "single g fs" "g \<in> set (ids_of fs)" "g \<notin> fst ` set (leaves_of fs)"
proof -
  have "\<exists>f \<in> set fs. group_members g f = Some []"
    using assms(1) by (induction fs) (auto split: option.splits)
  then obtain t where n: "FGroup g t [] \<in> set (nodes_of fs)" using group_members_node by fastforce
  have inj: "inj_on fid (set (nodes_of fs))" using assms(2) unfolding ids_nodes by (simp add: distinct_map)
  have u: "c = FGroup g t []" if "c \<in> set (nodes_of fs)" "fid c = g" for c
    using inj_onD[OF inj _ that(1) n] that(2) by simp
  show "single g fs" unfolding single_def
  proof (intro ballI impI)
    fix c assume "c \<in> set (nodes_of fs)" "fid c = g"
    from u[OF this] show "fids c = [g]" by simp
  qed
  show "g \<in> set (ids_of fs)" unfolding ids_nodes using n by force
  have leafnode: "(i, e) \<in> set (fleaves f) \<Longrightarrow> FLeaf i e \<in> set (fnodes f)" for i e f
    by (induction f) auto
  show "g \<notin> fst ` set (leaves_of fs)"
  proof
    assume "g \<in> fst ` set (leaves_of fs)"
    then obtain f e where "f \<in> set fs" "(g, e) \<in> set (fleaves f)" by auto
    then have "FLeaf g e \<in> set (nodes_of fs)" using leafnode by auto
    with u[of "FLeaf g e"] show False by simp
  qed
qed

lemma remove_filter_effect:
  "distinct (ids_of fs) \<Longrightarrow> single x fs \<Longrightarrow> x \<in> set (ids_of fs) \<Longrightarrow> length (ids_of fs) \<le> n \<Longrightarrow>
   \<exists>gs. remove_filter n x fs = Inr gs \<and> leaves_of gs = without x (leaves_of fs) \<and>
        distinct (ids_of gs) \<and> length (ids_of gs) \<le> length (ids_of fs)"
proof (induction n arbitrary: x fs)
  case 0
  then show ?case by (cases "ids_of fs") auto
next
  case (Suc n)
  from Suc.prems(3) get_block_parent_immediate[OF Suc.prems(1), of x]
  obtain p where p: "get_block_parent fs x = Some p" by (cases "get_block_parent fs x") auto
  show ?case
  proof (cases p)
    case None
    with p get_block_parent_immediate[OF Suc.prems(1), of x] have "x \<in> fid ` set fs" by simp
    from remove_id_effect[OF Suc.prems(1,2) this] None p Suc.prems(1) show ?thesis by simp
  next
    case (Some g)
    define fs' where "fs' = map (in_group g (remove_id x)) fs"
    have e: "ids_of fs' = filter (\<lambda>i. i \<noteq> x) (ids_of fs)" "leaves_of fs' = without x (leaves_of fs)"
      using in_groups_effect[OF Suc.prems(1,2)] p Some unfolding fs'_def by blast+
    have d: "distinct (ids_of fs')" using e(1) Suc.prems(1) by simp
    have len: "length (ids_of fs') < length (ids_of fs)"
      unfolding e(1) using Suc.prems(3) by (rule length_filter_less) simp
    show ?thesis
    proof (cases "first_some (group_members g) fs' = Some []")
      case False
      then have "remove_filter (Suc n) x fs = Inr fs'" using p Some by (simp add: fs'_def)
      with e d len show ?thesis by auto
    next
      case True
      note eg = empty_group[OF True d]
      have "\<exists>gs. remove_filter n g fs' = Inr gs \<and> leaves_of gs = without g (leaves_of fs') \<and>
          distinct (ids_of gs) \<and> length (ids_of gs) \<le> length (ids_of fs')"
        using eg len Suc.prems(4) by (intro Suc.IH[OF d]) simp_all
      moreover have "without g (leaves_of fs') = leaves_of fs'" using eg(3) by (rule without_id)
      moreover have "remove_filter (Suc n) x fs = remove_filter n g fs'" using p Some True by (simp add: fs'_def)
      ultimately show ?thesis using e(2) len by auto
    qed
  qed
qed

lemma leaf_single:
  assumes "distinct (ids_of fs)" "(x, e) \<in> set (leaves_of fs)"
  shows "single x fs \<and> x \<in> set (ids_of fs)"
proof -
  have leafnode: "(i, e) \<in> set (fleaves f) \<Longrightarrow> FLeaf i e \<in> set (fnodes f)" for i e f
    by (induction f) auto
  have n: "FLeaf x e \<in> set (nodes_of fs)" using assms(2) leafnode by fastforce
  have inj: "inj_on fid (set (nodes_of fs))" using assms(1) unfolding ids_nodes by (simp add: distinct_map)
  have u: "c = FLeaf x e" if "c \<in> set (nodes_of fs)" "fid c = x" for c
    using inj_onD[OF inj _ that(1) n] that(2) by simp
  have "single x fs" unfolding single_def
  proof (intro ballI impI)
    fix c assume "c \<in> set (nodes_of fs)" "fid c = x"
    from u[OF this] show "fids c = [x]" by simp
  qed
  moreover have "x \<in> set (ids_of fs)" unfolding ids_nodes using n by force
  ultimately show ?thesis by blast
qed

text \<open>The iteration gives every object once.\<close>

fun somes :: "'a option list \<Rightarrow> 'a list" where
  "somes [] = []"
| "somes (None # xs) = somes xs"
| "somes (Some x # xs) = x # somes xs"

lemma somes_append [simp]: "somes (xs @ ys) = somes xs @ somes ys"
  by (induction xs rule: somes.induct) auto

lemma somes_map [simp]: "somes (map Some xs) = xs"
  by (induction xs) auto

lemma somes_rev [simp]: "somes (rev (map Some xs)) = rev xs"
  by (induction xs) auto

lemma mset_nodes_rev: "mset (nodes_of (rev cs)) = mset (nodes_of cs)"
  by (induction cs) auto

lemma iter_nodes: "mset (somes (iter_queue be q)) = mset (nodes_of (somes q))"
proof (induction be q rule: iter_queue.induct)
  case (4 be i t cs q)
  then show ?case by (cases be) (auto simp: mset_nodes_rev)
qed auto

lemma iter_filters_nodes: "mset (somes (iter_filters be fs)) = mset (nodes_of fs)"
  by (simp add: iter_filters_def iter_nodes)

fun events_in :: "flt list \<Rightarrow> nat list" where
  "events_in [] = []"
| "events_in (FLeaf i e # fs) = (if e then i # events_in fs else events_in fs)"
| "events_in (FGroup i t cs # fs) = events_in fs"

lemma events_in_append: "events_in (xs @ ys) = events_in xs @ events_in ys"
  by (induction xs rule: events_in.induct) auto

lemma event_filters_somes: "event_filters fs = events_in (somes (iter_filters False fs))"
proof -
  have "concat (map (\<lambda>o'. case o' of Some (FLeaf i True) \<Rightarrow> [i] | _ \<Rightarrow> []) q) = events_in (somes q)" for q
  proof (induction q rule: somes.induct)
    case (3 f q)
    then show ?case by (cases f) (auto split: bool.split)
  qed auto
  then show ?thesis by (simp add: event_filters_def)
qed

lemma events_in_mset: "mset xs = mset ys \<Longrightarrow> mset (events_in xs) = mset (events_in ys)"
proof -
  have "mset (events_in xs) = image_mset fid (filter_mset (\<lambda>f. case f of FLeaf i e \<Rightarrow> e | _ \<Rightarrow> False) (mset xs))" for xs
    by (induction xs rule: events_in.induct) auto
  then show "mset xs = mset ys \<Longrightarrow> mset (events_in xs) = mset (events_in ys)" by simp
qed

lemma events_in_nodes: "events_in (nodes_of fs) = map fst (filter snd (leaves_of fs))"
proof -
  have "events_in (fnodes f) = map fst (filter snd (fleaves f))" for f
  proof (induction f)
    case (FGroup i t cs)
    then have "events_in (nodes_of cs) = map fst (filter snd (leaves_of cs))"
      by (induction cs) (auto simp: events_in_append)
    then show ?case by simp
  qed simp
  then show ?thesis by (induction fs) (auto simp: events_in_append)
qed

lemma event_filters_mset: "mset (event_filters fs) = mset (map fst (filter snd (leaves_of fs)))"
  using events_in_mset[OF iter_filters_nodes[of False fs]]
  by (simp add: event_filters_somes events_in_nodes)

lemma distinct_leaves_Cons:
  assumes "set (fids c) \<inter> set (ids_of cs) = {}" "distinct (map fst (fleaves c))" "distinct (map fst (leaves_of cs))"
  shows "distinct (map fst (leaves_of (c # cs)))"
proof -
  have "fst ` set (fleaves c) \<inter> fst ` set (leaves_of cs) = {}"
    using leaf_ids[of c] leaf_ids_of[of cs] assms(1) by blast
  with assms(2,3) show ?thesis
    by (simp only: list.map concat.simps map_append distinct_append set_map)
qed

lemma distinct_leaves_list:
  "distinct (ids_of cs) \<Longrightarrow> (\<And>c. c \<in> set cs \<Longrightarrow> distinct (fids c) \<Longrightarrow> distinct (map fst (fleaves c))) \<Longrightarrow>
   distinct (map fst (leaves_of cs))"
proof (induction cs)
  case (Cons c cs)
  from Cons.prems(1) have d: "distinct (fids c)" "distinct (ids_of cs)" "set (fids c) \<inter> set (ids_of cs) = {}"
    by (simp_all only: list.map concat.simps distinct_append)
  have "distinct (map fst (fleaves c))" using Cons.prems(2)[of c] d(1) by simp
  moreover have "distinct (map fst (leaves_of cs))" using Cons.prems(2) by (intro Cons.IH[OF d(2)]) simp
  ultimately show ?case using d(3) by (intro distinct_leaves_Cons)
qed simp

lemma distinct_leaf_ids: "distinct (ids_of fs) \<Longrightarrow> distinct (map fst (leaves_of fs))"
proof -
  have "distinct (fids f) \<Longrightarrow> distinct (map fst (fleaves f))" for f
  proof (induction f)
    case (FGroup i t cs)
    then have "distinct (map fst (leaves_of cs))" by (intro distinct_leaves_list) simp_all
    then show ?case by simp
  qed simp
  then show "distinct (ids_of fs) \<Longrightarrow> distinct (map fst (leaves_of fs))" by (intro distinct_leaves_list)
qed

lemma trim_fold:
  "distinct (ids_of gs) \<Longrightarrow> distinct xs \<Longrightarrow> set xs \<subseteq> fst ` set (leaves_of gs) \<Longrightarrow> length (ids_of gs) \<le> n \<Longrightarrow>
   \<exists>hs. rfold (\<lambda>gs x. remove_filter n x gs) gs xs = Inr hs \<and>
        leaves_of hs = filter (\<lambda>(i, e). i \<notin> set xs) (leaves_of gs)"
proof (induction xs arbitrary: gs)
  case Nil
  then show ?case by (auto simp: filter_id_conv)
next
  case (Cons x xs)
  from Cons.prems(3) have "x \<in> fst ` set (leaves_of gs)" by simp
  then obtain p where "p \<in> set (leaves_of gs)" "x = fst p" by (rule imageE)
  then have "(x, snd p) \<in> set (leaves_of gs)" by simp
  with leaf_single[OF Cons.prems(1)] have "single x gs" "x \<in> set (ids_of gs)" by blast+
  with remove_filter_effect[OF Cons.prems(1) _ _ Cons.prems(4)]
  obtain gs' where g: "remove_filter n x gs = Inr gs'" "leaves_of gs' = without x (leaves_of gs)"
    "distinct (ids_of gs')" "length (ids_of gs') \<le> length (ids_of gs)" by blast
  have "\<exists>hs. rfold (\<lambda>gs x. remove_filter n x gs) gs' xs = Inr hs \<and>
      leaves_of hs = filter (\<lambda>(i, e). i \<notin> set xs) (leaves_of gs')"
  proof (intro Cons.IH)
    have "set xs \<subseteq> fst ` set (leaves_of gs)" "x \<notin> set xs" using Cons.prems(2,3) by simp_all
    then show "set xs \<subseteq> fst ` set (leaves_of gs')" unfolding g(2) by (force simp del: set_concat)
  qed (use Cons.prems(2,4) g(3,4) in simp_all)
  moreover have "filter (\<lambda>(i, e). i \<notin> set xs) (leaves_of gs') = filter (\<lambda>(i, e). i \<notin> set (x # xs)) (leaves_of gs)"
    by (simp add: g(2)) (rule filter_cong; auto)
  ultimately show ?case by (simp add: g(1))
qed

text \<open>Trimming returns, and leaves exactly the filters that are not event filters, in
  their order; the blocks that held only event filters go with them.\<close>
theorem trim_runtime_leaves:
  assumes "distinct (ids_of fs)"
  shows "\<exists>gs. trim_runtime fs = Inr gs \<and> leaves_of gs = filter (\<lambda>(i, e). \<not> e) (leaves_of fs)"
proof -
  have d: "distinct (map fst (leaves_of fs))" by (rule distinct_leaf_ids[OF assms])
  have s: "set (event_filters fs) = fst ` set (filter snd (leaves_of fs))"
    using mset_eq_setD[OF event_filters_mset[of fs]] by simp
  have "distinct (map fst (filter snd (leaves_of fs)))" using d by (rule distinct_map_filter)
  then have "distinct (event_filters fs)" using mset_eq_imp_distinct_iff[OF event_filters_mset[of fs]] by blast
  then obtain gs where g: "trim_runtime fs = Inr gs"
    "leaves_of gs = filter (\<lambda>(i, e). i \<notin> set (event_filters fs)) (leaves_of fs)"
    using trim_fold[OF assms, of "event_filters fs" "length (ids_of fs)"] s by (auto simp: trim_runtime_def)
  have "i \<in> set (event_filters fs) \<longleftrightarrow> e" if m: "(i, e) \<in> set (leaves_of fs)" for i e
  proof -
    have inj: "inj_on fst (set (leaves_of fs))" using d by (simp only: distinct_map)
    show ?thesis
    proof
      assume "i \<in> set (event_filters fs)"
      then obtain p where p: "p \<in> set (leaves_of fs)" "snd p" "fst p = i"
        unfolding s set_filter by blast
      from inj_onD[OF inj _ p(1) m] p(2,3) show e by simp
    next
      assume e
      with m have "(i, e) \<in> set (filter snd (leaves_of fs))" unfolding set_filter by simp
      then show "i \<in> set (event_filters fs)" unfolding s by (rule image_eqI[rotated]) simp
    qed
  qed
  then have "leaves_of gs = filter (\<lambda>(i, e). \<not> e) (leaves_of fs)"
    unfolding g(2) by (intro filter_cong) auto
  with g(1) show ?thesis by blast
qed

lemma trim_runtime_leaves_witness:
  "\<exists>gs. trim_runtime ex_tree = Inr gs \<and> leaves_of gs = [(0, False)]"
  using trim_runtime_leaves[of ex_tree] by (simp add: ex_tree_def)

end
