(* ===== verification/Utils_Data.thy ===== *)
theory Utils_Data
  imports Utils_Parse "HOL-Library.Multiset"
begin

text \<open>
  The functions of \<open>c7n/utils.py\<close> on lists and dictionaries: batching, grouping, merging,
  renaming keys, writing through a path, and mapping over nested values.
\<close>

section \<open>Batches\<close>

text \<open>\<open>chunks\<close>: a batch is given out when its length is a multiple of \<open>size\<close>.\<close>

fun chunks_from :: "nat \<Rightarrow> 'a list \<Rightarrow> 'a list \<Rightarrow> 'a list list" where
  "chunks_from k batch [] = (if batch \<noteq> [] then [batch] else [])"
| "chunks_from k batch (n # ns) =
     (let batch' = batch @ [n]
      in if length batch' mod k = 0 then batch' # chunks_from k [] ns else chunks_from k batch' ns)"

definition chunks :: "nat \<Rightarrow> 'a list \<Rightarrow> 'a list list res" where
  "chunks k xs = (if k = 0 \<and> xs \<noteq> [] then Inl ZeroDivisionError else Inr (chunks_from k [] xs))"

section \<open>Dictionaries\<close>

text \<open>\<open>filter_empty\<close> keeps the entries whose value is true.\<close>

definition filter_empty :: "pydict \<Rightarrow> pydict" where
  "filter_empty d = filter (\<lambda>(k, v). py_truth v) d"

definition select_keys :: "pydict \<Rightarrow> string list \<Rightarrow> pydict" where
  "select_keys d keys = fold (\<lambda>k. dput k (dget_or d k PNone)) keys []"

definition merge_dict_list :: "pydict list \<Rightarrow> pydict" where
  "merge_dict_list ds = fold (\<lambda>d result. dupdate result d) ds []"

definition annotation :: "pydict \<Rightarrow> string \<Rightarrow> pyval" where
  "annotation i k = dget_or i k (PTuple [])"

definition get_annotation_prefix :: "string \<Rightarrow> string" where
  "get_annotation_prefix s = ''c7n:'' @ s"

text \<open>
  \<open>group_by\<close>: the keys of the result are values, compared by \<open>==\<close>; a list or a dictionary
  cannot be one.
\<close>

fun walk :: "string list \<Rightarrow> pyval \<Rightarrow> pyval res" where
  "walk [] v = Inr v"
| "walk (k # ks) v = (case v of
      PDict d \<Rightarrow> (case dget_or d k PNone of PDict e \<Rightarrow> walk ks (PDict e) | w \<Rightarrow> Inr w)
    | _ \<Rightarrow> Inl AttributeError)"

fun vput :: "pyval \<Rightarrow> 'a \<Rightarrow> (pyval \<times> 'a list) list \<Rightarrow> (pyval \<times> 'a list) list" where
  "vput v r [] = [(v, [r])]"
| "vput v r ((w, rs) # m) = (if py_eq v w then (w, rs @ [r]) # m else (w, rs) # vput v r m)"

definition group_by :: "pydict list \<Rightarrow> string \<Rightarrow> (pyval \<times> pydict list) list res" where
  "group_by resources key =
     rfold (\<lambda>m r. rbind (walk (split_char CHR ''.'' key) (PDict r)) (\<lambda>v.
       if hashable v then Inr (vput v r m) else Inl TypeError)) [] resources"

section \<open>Merging\<close>

text \<open>\<open>merge_dict\<close>, one entry of the second dictionary at a time.\<close>

fun is_scalar :: "pyval \<Rightarrow> bool" where
  "is_scalar (PInt i) = True"
| "is_scalar (PBool b) = True"
| "is_scalar (PStr s) = True"
| "is_scalar (PFloat f) = True"
| "is_scalar _ = False"

fun merge_values :: "pyval list \<Rightarrow> pyval list \<Rightarrow> pyval list" where
  "merge_values xs [] = xs"
| "merge_values xs (v # vs) = merge_values (if mem_eq v xs then xs else xs @ [v]) vs"

function merge_dict :: "pydict \<Rightarrow> pydict \<Rightarrow> pydict res" where
  "merge_dict d [] = Inr d"
| "merge_dict d ((k, v) # b) =
     rbind (case dget d k of
         None \<Rightarrow> Inr v
       | Some w \<Rightarrow>
          (case (w, v) of
             (PDict x, PDict y) \<Rightarrow> rbind (merge_dict x y) (\<lambda>z. Inr (PDict z))
           | (PList xs, PList ys) \<Rightarrow> Inr (PList (merge_values xs ys))
           | (PList xs, PStr s) \<Rightarrow> Inr (PList (if mem_eq v xs then xs else xs @ [v]))
           | (PStr s, PList ys) \<Rightarrow> Inr (if mem_eq w ys then v else PList (w # ys))
           | _ \<Rightarrow> if is_scalar v then Inr v else Inl PyException))
     (\<lambda>u. merge_dict (dput k u d) b)"
  by pat_completeness auto
termination
  by (relation "measure (\<lambda>(d, b). size (PDict b))") auto

section \<open>Paths\<close>

text \<open>\<open>set_value_from_jmespath\<close>, on the parts of a dotted expression.\<close>

fun set_path :: "string list \<Rightarrow> pyval \<Rightarrow> pyval \<Rightarrow> pyval res" where
  "set_path [] value src = Inl ValueError"
| "set_path (k # ks) value src =
     (if k = [] then Inl ValueError
      else case src of
        PDict d \<Rightarrow>
          (if ks = [] \<or> ks = [[]] then Inr (PDict (dput k value d))
           else rbind (set_path ks value (dget_or d k (PDict []))) (\<lambda>v. Inr (PDict (dput k v d))))
      | _ \<Rightarrow> Inl TypeError)"

definition set_value_from_jmespath :: "pyval \<Rightarrow> string \<Rightarrow> pyval \<Rightarrow> pyval res" where
  "set_value_from_jmespath source expression value = set_path (split_char CHR ''.'' expression) value source"

text \<open>\<open>get_path\<close>.\<close>

definition get_path :: "ext \<Rightarrow> string \<Rightarrow> pydict \<Rightarrow> pyval res" where
  "get_path E path resource =
     (if CHR ''.'' \<in> set path then ext_jmes E path (PDict resource) else dindex resource path)"

section \<open>Mapping over nested values\<close>

text \<open>
  \<open>format_string_values\<close>: \<open>fmt\<close> is the formatter (or \<open>str.format\<close>); an IndexError or a
  KeyError of it leaves the string. (The caller's \<open>err_fallback\<close> is not passed down.)
\<close>

definition format_or_keep :: "pyerr list \<Rightarrow> (string \<Rightarrow> pyval res) \<Rightarrow> string \<Rightarrow> pyval res" where
  "format_or_keep fallback fmt s = (case fmt s of
      Inr v \<Rightarrow> Inr v | Inl e \<Rightarrow> if e \<in> set fallback then Inr (PStr s) else Inl e)"

function format_values :: "(string \<Rightarrow> pyval res) \<Rightarrow> pyval \<Rightarrow> pyval res"
  and format_items :: "(string \<Rightarrow> pyval res) \<Rightarrow> pydict \<Rightarrow> pydict res"
  and format_list :: "(string \<Rightarrow> pyval res) \<Rightarrow> pyval list \<Rightarrow> pyval list res" where
  "format_values fmt obj = (case obj of
      PDict d \<Rightarrow> rbind (format_items fmt d) (\<lambda>e. Inr (PDict e))
    | PList xs \<Rightarrow> rbind (format_list fmt xs) (\<lambda>ys. Inr (PList ys))
    | PStr s \<Rightarrow> format_or_keep [IndexError, KeyError] fmt s
    | _ \<Rightarrow> Inr obj)"
| "format_items fmt [] = Inr []"
| "format_items fmt ((k, v) # d) =
     rbind (format_values fmt v) (\<lambda>w. rbind (format_items fmt d) (\<lambda>e. Inr ((k, w) # e)))"
| "format_list fmt [] = Inr []"
| "format_list fmt (x # xs) =
     rbind (format_values fmt x) (\<lambda>y. rbind (format_list fmt xs) (\<lambda>ys. Inr (y # ys)))"
  by pat_completeness auto
termination
  by (relation "measure (\<lambda>x. case x of
        Inl (f, v) \<Rightarrow> 2 * size v
      | Inr (Inl (f, d)) \<Rightarrow> 2 * size (PDict d) - 1
      | Inr (Inr (f, xs)) \<Rightarrow> 2 * size (PList xs) - 1)") auto

definition format_string_values :: "pyerr list \<Rightarrow> (string \<Rightarrow> pyval res) \<Rightarrow> pyval \<Rightarrow> pyval res" where
  "format_string_values err_fallback fmt obj = (case obj of
      PStr s \<Rightarrow> format_or_keep err_fallback fmt s
    | _ \<Rightarrow> format_values fmt obj)"

section \<open>Renaming keys\<close>

definition title_key :: "string \<Rightarrow> string res" where
  "title_key k = (case k of [] \<Rightarrow> Inl IndexError | c # cs \<Rightarrow> Inr (char_upper c # cs))"

definition date_key_name :: "string \<Rightarrow> bool" where
  "date_key_name k = (has_substr (lower k) ''time'' \<or> has_substr (lower k) ''date'')"

text \<open>A string or an int under a date-like key becomes a date when it parses as one.\<close>

definition sniff_date :: "ext \<Rightarrow> bool \<Rightarrow> string \<Rightarrow> pyval \<Rightarrow> pyval res" where
  "sniff_date E implicit_date k v =
     (if implicit_date \<and> (is_str v \<or> is_int v) \<and> date_key_name k then
        rbind (parse_date E v) (\<lambda>dv. Inr (if py_truth dv then dv else v))
      else Inr v)"

fun height :: "pyval \<Rightarrow> nat" where
  "height (PList xs) = Suc (foldr max (map height xs) 0)"
| "height (PDict d) = Suc (foldr max (map (\<lambda>(k, v). height v) d) 0)"
| "height _ = 1"

text \<open>
  \<open>camelResource\<close>: each key of the dictionary as it was is taken out and put back under
  its new name, which may be the name of another key. The recursion is on the values the
  dictionary holds by then; the fuel is the depth of the value.
\<close>

fun camel :: "nat \<Rightarrow> ext \<Rightarrow> bool \<Rightarrow> bool \<Rightarrow> pyval \<Rightarrow> pyval res" where
  "camel 0 E dt tt v = Inl RuntimeError"
| "camel (Suc n) E dt tt v = (case v of
      PDict d \<Rightarrow>
        rbind (rfold (\<lambda>obj k.
            rbind (dindex obj k) (\<lambda>w.
            rbind (if tt then title_key k else Inr k) (\<lambda>ok.
            rbind (case w of
                PDict e \<Rightarrow> camel n E dt tt w
              | PList xs \<Rightarrow> rbind (rmap (camel n E dt tt) xs) (\<lambda>ys. Inr (PList ys))
              | _ \<Rightarrow> sniff_date E dt k w) (\<lambda>u.
              Inr (dput ok u (ddel k obj)))))) d (dkeys d))
          (\<lambda>obj. Inr (PDict obj))
    | _ \<Rightarrow> Inr v)"

definition camelResource :: "ext \<Rightarrow> bool \<Rightarrow> bool \<Rightarrow> pyval \<Rightarrow> pyval res" where
  "camelResource E implicitDate implicitTitle obj = camel (height obj) E implicitDate implicitTitle obj"

section \<open>Schemas\<close>

text \<open>\<open>reformat_schema\<close>, on the model's \<open>schema\<close> attribute when it has one.\<close>

fun mark_required :: "pyval list \<Rightarrow> pydict \<Rightarrow> pydict res" where
  "mark_required [] ret = Inr ret"
| "mark_required (key # ks) ret = (case key of
      PStr k \<Rightarrow> (case dget ret k of
          Some (PDict e) \<Rightarrow> mark_required ks (dput k (PDict (dput ''required'' (PBool True) e)) ret)
        | Some _ \<Rightarrow> Inl TypeError
        | None \<Rightarrow> mark_required ks ret)
    | _ \<Rightarrow> if hashable key then mark_required ks ret else Inl TypeError)"

definition reformat_schema :: "pydict option \<Rightarrow> pyval res" where
  "reformat_schema schema = (case schema of
      None \<Rightarrow> Inr (PStr ''Model does not have a schema'')
    | Some s \<Rightarrow> (case dget s ''properties'' of
        None \<Rightarrow> Inr (PStr ''Schema in unexpected format.'')
      | Some (PDict ps) \<Rightarrow>
          rbind (py_iter (dget_or s ''required'' (PList []))) (\<lambda>ks.
          rbind (mark_required ks (ddel ''type'' ps)) (\<lambda>ret. Inr (PDict ret)))
      | Some _ \<Rightarrow> Inl TypeError))"

text \<open>\<open>type_schema\<close>; a property given as None is removed.\<close>

definition type_schema ::
  "string \<Rightarrow> string list \<Rightarrow> pydict option \<Rightarrow> string list \<Rightarrow> pyval list \<Rightarrow> pydict \<Rightarrow> pydict res" where
  "type_schema type_name inherits rinherit aliases required props =
     (let names = PDict [(''enum'', PList (map PStr (type_name # aliases)))]
      in rbind (case rinherit of
           Some s \<Rightarrow>
             if s = [] then Inr [(''type'', PStr ''object''), (''properties'', PDict [(''type'', names)])]
             else rbind (dindex s ''properties'') (\<lambda>ps. case ps of
                 PDict d \<Rightarrow> Inr (dput ''properties'' (PDict (dput ''type'' names d)) s)
               | _ \<Rightarrow> Inl TypeError)
         | None \<Rightarrow> Inr [(''type'', PStr ''object''), (''properties'', PDict [(''type'', names)])])
      (\<lambda>s0.
        let s1 = (if inherits = [] then dput ''additionalProperties'' (PBool False) s0 else s0);
            ps = (case dget_or s1 ''properties'' PNone of PDict d \<Rightarrow> d | _ \<Rightarrow> []);
            ps1 = filter (\<lambda>(k, v). \<not> (dhas props k \<and> dget_or props k PNone = PNone)) (dupdate ps props);
            s2 = dput ''required'' (PList (required @ [PStr ''type''])) (dput ''properties'' (PDict ps1) s1)
        in Inr (if inherits = [] then s2
                else [(''allOf'', PList (map (\<lambda>i. PDict [(''$ref'', PStr i)]) inherits @ [PDict s2]))])))"

section \<open>The properties\<close>

lemma chunks_from_batches:
  assumes "0 < k"
  shows "length batch < k \<Longrightarrow>
    concat (chunks_from k batch xs) = batch @ xs \<and>
    (\<forall>c \<in> set (chunks_from k batch xs). 0 < length c \<and> length c \<le> k) \<and>
    (\<forall>c \<in> set (butlast (chunks_from k batch xs)). length c = k)"
proof (induction xs arbitrary: batch)
  case Nil
  then show ?case by auto
next
  case (Cons x xs)
  show ?case
  proof (cases "Suc (length batch) = k")
    case True
    have "concat (chunks_from k [] xs) = [] @ xs \<and>
        (\<forall>c \<in> set (chunks_from k [] xs). 0 < length c \<and> length c \<le> k) \<and>
        (\<forall>c \<in> set (butlast (chunks_from k [] xs)). length c = k)"
      by (rule Cons.IH) (use assms in simp)
    with True show ?thesis by (auto simp: Let_def)
  next
    case False
    then have "Suc (length batch) < k" using Cons.prems by simp
    with Cons.IH[of "batch @ [x]"] show ?thesis by (auto simp: Let_def)
  qed
qed

text \<open>Cutting into chunks loses and reorders nothing: the chunks put together are the
  input, none is empty, all have at most the size asked for, and only the last may have less.\<close>
theorem chunks_partition:
  assumes "0 < k"
  shows "\<exists>cs. chunks k xs = Inr cs \<and> concat cs = xs \<and> (\<forall>c \<in> set cs. 0 < length c \<and> length c \<le> k) \<and>
    (\<forall>c \<in> set (butlast cs). length c = k)"
  using chunks_from_batches[OF assms, of "[]" xs] assms by (auto simp: chunks_def)

lemma chunks_partition_witness:
  "\<exists>cs. chunks 2 [1, 2, 3 :: nat] = Inr cs \<and> concat cs = [1, 2, 3]"
  using chunks_partition[of 2 "[1, 2, 3 :: nat]"] by auto

text \<open>What two values under one key become.\<close>

definition merge_pair :: "pyval \<Rightarrow> pyval \<Rightarrow> pyval res" where
  "merge_pair w v = (case (w, v) of
      (PDict x, PDict y) \<Rightarrow> rbind (merge_dict x y) (\<lambda>z. Inr (PDict z))
    | (PList xs, PList ys) \<Rightarrow> Inr (PList (merge_values xs ys))
    | (PList xs, PStr s) \<Rightarrow> Inr (PList (if mem_eq v xs then xs else xs @ [v]))
    | (PStr s, PList ys) \<Rightarrow> Inr (if mem_eq w ys then v else PList (w # ys))
    | _ \<Rightarrow> if is_scalar v then Inr v else Inl PyException)"

lemma merge_dict_Cons:
  "merge_dict d ((k, v) # b) =
     rbind (case dget d k of None \<Rightarrow> Inr v | Some w \<Rightarrow> merge_pair w v) (\<lambda>u. merge_dict (dput k u d) b)"
  by (simp only: merge_dict.simps merge_pair_def)

definition merge_option :: "pyval option \<Rightarrow> pyval option \<Rightarrow> pyval option res" where
  "merge_option w v = (case (w, v) of
      (Some a, Some b) \<Rightarrow> rbind (merge_pair a b) (\<lambda>c. Inr (Some c))
    | (None, _) \<Rightarrow> Inr v
    | (_, None) \<Rightarrow> Inr w)"

text \<open>Merging acts key by key: a key of one dictionary keeps its value, and a key of both
  gets the merge of its two values, for dictionaries recursively; nothing else appears.\<close>
theorem merge_dict_lookup:
  assumes "dwf b" "merge_dict a b = Inr d"
  shows "merge_option (dget a k) (dget b k) = Inr (dget d k)"
  using assms
proof (induction b arbitrary: a)
  case Nil
  then show ?case by (simp add: merge_option_def split: option.splits)
next
  case (Cons p b)
  obtain k' v where p: "p = (k', v)" by (cases p)
  from Cons.prems(2) obtain u where u: "(case dget a k' of None \<Rightarrow> Inr v | Some w \<Rightarrow> merge_pair w v) = Inr u"
    and rest: "merge_dict (dput k' u a) b = Inr d"
    unfolding p merge_dict_Cons rbind_eq_Inr by blast
  have wf: "dwf b" "k' \<notin> set (dkeys b)" using Cons.prems(1) by (auto simp: p dwf_def)
  have IH: "merge_option (dget (dput k' u a) k) (dget b k) = Inr (dget d k)"
    by (rule Cons.IH[OF wf(1) rest])
  show ?case
  proof (cases "k = k'")
    case True
    then have "dget b k = None" using wf(2) by (simp add: dget_None_iff)
    with IH True u show ?thesis by (auto simp: p merge_option_def split: option.splits)
  next
    case False
    with IH show ?thesis by (simp add: p)
  qed
qed

lemma merge_dict_lookup_witness:
  "merge_option (dget [(''a'', PList [PInt 1]), (''b'', PInt 2)] ''a'') (dget [(''a'', PList [PInt 3, PInt 1])] ''a'') =
   Inr (dget [(''a'', PList [PInt 1, PInt 3]), (''b'', PInt 2)] ''a'')"
  by (rule merge_dict_lookup) (simp_all add: dwf_def mem_eq_def num_eq_def num_of_def)

text \<open>Reading along a path.\<close>

fun path_get :: "string list \<Rightarrow> pyval \<Rightarrow> pyval option" where
  "path_get [] v = Some v"
| "path_get (k # ks) v = (case v of
      PDict d \<Rightarrow> (case dget d k of None \<Rightarrow> None | Some w \<Rightarrow> path_get ks w)
    | _ \<Rightarrow> None)"

text \<open>A value written through a dotted path is what reading along the path finds, and
  every entry of the top dictionary off the path is as before.\<close>
theorem set_value_roundtrip:
  assumes "set_path ks value src = Inr src'" "last ks \<noteq> []"
  shows "path_get ks src' = Some value \<and>
    (\<forall>d. src = PDict d \<longrightarrow> (\<exists>d'. src' = PDict d' \<and> (\<forall>j. j \<noteq> hd ks \<longrightarrow> dget d' j = dget d j)))"
  using assms
proof (induction ks arbitrary: src src')
  case (Cons k ks)
  then obtain d where k: "k \<noteq> []" and d: "src = PDict d" by (auto split: if_splits pyval.splits)
  show ?case
  proof (cases "ks = []")
    case True
    with Cons.prems k d show ?thesis by auto
  next
    case False
    with Cons.prems(2) have "ks \<noteq> [[]]" by auto
    with False Cons.prems k d obtain v where v: "set_path ks value (dget_or d k (PDict [])) = Inr v"
      "src' = PDict (dput k v d)" by (auto simp: rbind_eq_Inr)
    with Cons.IH[OF v(1)] Cons.prems(2) False d show ?thesis by auto
  qed
qed simp

lemma set_value_roundtrip_witness:
  "path_get [''a'', ''b''] (PDict [(''x'', PInt 1), (''a'', PDict [(''b'', PInt 2)])]) = Some (PInt 2) \<and>
    (\<exists>d'. PDict [(''x'', PInt 1), (''a'', PDict [(''b'', PInt 2)])] = PDict d' \<and>
       (\<forall>j. j \<noteq> ''a'' \<longrightarrow> dget d' j = dget [(''x'', PInt 1)] j))"
  using set_value_roundtrip[of "[''a'', ''b'']" "PInt 2" "PDict [(''x'', PInt 1)]"
      "PDict [(''x'', PInt 1), (''a'', PDict [(''b'', PInt 2)])]"]
  by (simp add: dget_or_def)

lemma foldr_max_le: "foldr max xs (0::nat) \<le> n \<longleftrightarrow> (\<forall>x \<in> set xs. x \<le> n)"
  by (induction xs) auto

lemma height_dict: "height (PDict d) \<le> Suc n \<longleftrightarrow> (\<forall>v \<in> set (dvalues d). height v \<le> n)"
  by (auto simp: foldr_max_le dvalues_def)

lemma height_list: "height (PList xs) \<le> Suc n \<longleftrightarrow> (\<forall>v \<in> set xs. height v \<le> n)"
  by (simp add: foldr_max_le)

lemma height_pos [simp]: "0 < height v"
  by (cases v) auto

lemma dvalues_dput: "set (dvalues (dput k v d)) \<subseteq> insert v (set (dvalues d))"
  unfolding dvalues_def
proof (induction d)
  case (Cons p d)
  then show ?case by (cases p) (simp; blast)
qed simp

lemma dvalues_ddel: "set (dvalues (ddel k d)) \<subseteq> set (dvalues d)"
  unfolding dvalues_def ddel_def by auto

lemma dindex_value: "dindex d k = Inr v \<Longrightarrow> v \<in> set (dvalues d)"
  unfolding dindex_def dvalues_def by (auto split: option.splits dest!: map_of_SomeD intro: rev_image_eqI)

lemma epoch_step_safe: "epoch_step E d v \<noteq> Inl RuntimeError"
  by (auto simp: epoch_step_def as_float_def fromtimestamp_def split: pyval.splits pyfloat.splits option.splits if_splits sum.splits)

lemma parse_date_safe: "parse_date E v \<noteq> Inl RuntimeError"
  using epoch_step_safe[of E 1] epoch_step_safe[of E 1000]
  by (auto simp: parse_date_def rbind_eq_Inl split: pyval.splits option.splits)

lemma parse_date_flat: "parse_date E v = Inr d \<Longrightarrow> height d = 1"
proof -
  have h: "height (case w of PDate t \<Rightarrow> PDate t | _ \<Rightarrow> PNone) = 1" for w by (cases w) auto
  show "parse_date E v = Inr d \<Longrightarrow> height d = 1"
    unfolding parse_date_def by (cases v) (auto simp: rbind_eq_Inr h split: option.splits)
qed

lemma sniff_date_safe:
  "sniff_date E dt k v \<noteq> Inl RuntimeError \<and> (sniff_date E dt k v = Inr u \<longrightarrow> height u \<le> height v)"
  using parse_date_safe[of E v] parse_date_flat[of E v] height_pos[of v]
  unfolding sniff_date_def by (auto simp: rbind_eq_Inl rbind_eq_Inr Suc_le_eq)

lemma camel_fuel:
  "height v \<le> n \<Longrightarrow> camel n E dt tt v \<noteq> Inl RuntimeError \<and>
     (\<forall>u. camel n E dt tt v = Inr u \<longrightarrow> height u \<le> height v)"
proof (induction n arbitrary: v)
  case 0
  then show ?case using height_pos[of v] by simp
next
  case (Suc n)
  show ?case
  proof (cases "\<exists>d. v = PDict d")
    case False
    then have "camel (Suc n) E dt tt v = Inr v" by (cases v) auto
    then show ?thesis by simp
  next
    case True
    then obtain d where d: "v = PDict d" by blast
    define sub where "sub = (\<lambda>k w. case w of
        PDict e \<Rightarrow> camel n E dt tt w
      | PList xs \<Rightarrow> rbind (rmap (camel n E dt tt) xs) (\<lambda>ys. Inr (PList ys))
      | _ \<Rightarrow> sniff_date E dt k w)"
    have sub: "sub k w \<noteq> Inl RuntimeError \<and> (\<forall>u. sub k w = Inr u \<longrightarrow> height u \<le> height w)"
      if h: "height w \<le> n" for k w
    proof (cases "\<exists>xs. w = PList xs")
      case True
      then obtain xs where w: "w = PList xs" by blast
      obtain m where n: "n = Suc m" using h height_pos[of w] by (cases n) auto
      have le: "height x \<le> n" if "x \<in> set xs" for x
        using h that unfolding n w height_list by auto
      define b where "b = foldr max (map height xs) 0"
      have b: "height x \<le> b" if "x \<in> set xs" for x
        using foldr_max_le[of "map height xs" b] that by (simp add: b_def)
      have "rmap (camel n E dt tt) xs \<noteq> Inl RuntimeError \<and>
          (\<forall>ys. rmap (camel n E dt tt) xs = Inr ys \<longrightarrow> (\<forall>y \<in> set ys. height y \<le> b))"
        by (rule rmap_inv) (use Suc.IH[OF le] b le_trans in blast)
      moreover have "height (PList ys) \<le> height (PList xs)" if "\<forall>y \<in> set ys. height y \<le> b" for ys
        using that height_list[of ys b] by (simp add: b_def)
      ultimately show ?thesis by (auto simp: sub_def w rbind_eq_Inl rbind_eq_Inr)
    next
      case False
      then show ?thesis
        using Suc.IH[OF h] sniff_date_safe[of E dt k w] unfolding sub_def by (cases w) auto
    qed
    define b where "b = foldr max (map (\<lambda>(k, v). height v) d) 0"
    have hb: "height v = Suc b" by (simp add: d b_def)
    define below where "below = (\<lambda>obj :: pydict. \<forall>w \<in> set (dvalues obj). height w \<le> b)"
    have step: "rbind (dindex obj k) (\<lambda>w. rbind (if tt then title_key k else Inr k) (\<lambda>ok.
        rbind (sub k w) (\<lambda>u. Inr (dput ok u (ddel k obj))))) \<noteq> Inl RuntimeError \<and>
      (\<forall>obj'. rbind (dindex obj k) (\<lambda>w. rbind (if tt then title_key k else Inr k) (\<lambda>ok.
        rbind (sub k w) (\<lambda>u. Inr (dput ok u (ddel k obj))))) = Inr obj' \<longrightarrow> below obj')"
      if "below obj" for obj k
    proof -
      have val: "height w \<le> b" if "dindex obj k = Inr w" for w
        using dindex_value[OF that] \<open>below obj\<close> by (auto simp: below_def)
      have "b \<le> n" using Suc.prems hb by simp
      then have s: "sub k w \<noteq> Inl RuntimeError \<and> (\<forall>u. sub k w = Inr u \<longrightarrow> height u \<le> b)" if "dindex obj k = Inr w" for w
        using sub[of w k] val[OF that] le_trans by blast
      have keep: "below (dput ok u (ddel k obj))" if "height u \<le> b" for ok u
        using dvalues_dput[of ok u "ddel k obj"] dvalues_ddel[of k obj] \<open>below obj\<close> that
        by (auto simp: below_def)
      have tk: "(if tt then title_key k else Inr k) \<noteq> Inl RuntimeError"
        by (simp add: title_key_def split: list.split)
      show ?thesis
      proof (cases "dindex obj k")
        case (Inl e)
        then have "e \<noteq> RuntimeError" by (auto simp: dindex_def split: option.splits)
        with Inl show ?thesis by simp
      next
        case (Inr w)
        note sw = s[OF Inr]
        show ?thesis
        proof (cases "if tt then title_key k else Inr k")
          case (Inl e)
          with tk \<open>dindex obj k = Inr w\<close> show ?thesis by auto
        next
          case (Inr ok)
          with sw \<open>dindex obj k = Inr w\<close> show ?thesis
            by (cases "sub k w") (simp_all add: keep)
        qed
      qed
    qed
    have "below d" using height_dict[of d b] hb d by (simp add: below_def)
    from rfold_inv[where I = below and xs = "dkeys d" and e = RuntimeError, OF step this]
    have "rfold (\<lambda>obj k. rbind (dindex obj k) (\<lambda>w. rbind (if tt then title_key k else Inr k) (\<lambda>ok.
        rbind (sub k w) (\<lambda>u. Inr (dput ok u (ddel k obj)))))) d (dkeys d) \<noteq> Inl RuntimeError \<and>
      (\<forall>obj'. rfold (\<lambda>obj k. rbind (dindex obj k) (\<lambda>w. rbind (if tt then title_key k else Inr k) (\<lambda>ok.
        rbind (sub k w) (\<lambda>u. Inr (dput ok u (ddel k obj)))))) d (dkeys d) = Inr obj' \<longrightarrow> below obj')" .
    moreover have "height (PDict obj') \<le> height v" if "below obj'" for obj'
      using that height_dict[of obj' b] hb by (simp add: below_def)
    moreover have "camel (Suc n) E dt tt v =
      rbind (rfold (\<lambda>obj k. rbind (dindex obj k) (\<lambda>w. rbind (if tt then title_key k else Inr k) (\<lambda>ok.
        rbind (sub k w) (\<lambda>u. Inr (dput ok u (ddel k obj)))))) d (dkeys d)) (\<lambda>obj. Inr (PDict obj))"
      by (simp add: d sub_def)
    ultimately show ?thesis by (auto simp: rbind_eq_Inl rbind_eq_Inr)
  qed
qed

text \<open>Renaming the keys of a nested answer always ends: the recursion, which follows the
  dictionary while it changes, never goes deeper than the value, and the result is no deeper.\<close>
theorem camelResource_terminates:
  "camelResource E dt tt v \<noteq> Inl RuntimeError \<and>
   (\<forall>u. camelResource E dt tt v = Inr u \<longrightarrow> height u \<le> height v)"
  unfolding camelResource_def by (rule camel_fuel) simp

lemma camelResource_example:
  "camelResource (ext0 0) False True (PDict [(''state'', PDict [(''Name'', PStr ''on'')])]) =
     Inr (PDict [(''State'', PDict [(''Name'', PStr ''on'')])])"
  by code_simp

lemma camelResource_terminates_witness:
  "height (PDict [(''State'', PDict [(''Name'', PStr ''on'')])]) \<le>
     height (PDict [(''state'', PDict [(''Name'', PStr ''on'')])])"
  using camelResource_terminates[of "ext0 0" False True "PDict [(''state'', PDict [(''Name'', PStr ''on'')])]"]
  unfolding camelResource_example by blast

end
