(* ===== verification/Utils_Aws.thy ===== *)
theory Utils_Aws
  imports Utils_Data
begin

text \<open>
  Names of the cloud in \<open>c7n/utils.py\<close> and \<open>c7n/resources/aws.py\<close>: S3 paths, resource names
  (ARNs) built and parsed, partitions and regions, what a network interface belongs to, the
  provider of a policy, output locations and proxies.
\<close>

section \<open>S3 paths\<close>

text \<open>\<open>s.find(c, i)\<close>; None is Python's -1.\<close>

definition find_from :: "string \<Rightarrow> char \<Rightarrow> nat \<Rightarrow> nat option" where
  "find_from s c i =
     (let k = length (takeWhile (\<lambda>x. x \<noteq> c) (drop i s))
      in if i + k < length s then Some (i + k) else None)"

text \<open>\<open>s[i:]\<close> for the result of a \<open>find\<close>: at -1 it is the last character.\<close>

definition slice_from :: "string \<Rightarrow> nat option \<Rightarrow> string" where
  "slice_from s i = (case i of Some k \<Rightarrow> drop k s | None \<Rightarrow> drop (length s - 1) s)"

definition parse_s3 :: "string \<Rightarrow> (string \<times> string \<times> string) res" where
  "parse_s3 s3_path =
     (if \<not> starts_with s3_path ''s3://'' then Inl ValueError
      else
        let ridx = find_from s3_path CHR ''/'' 5;
            bucket = (case ridx of None \<Rightarrow> drop 5 s3_path | Some r \<Rightarrow> take (r - 5) (drop 5 s3_path));
            path = rstrip_by (\<lambda>c. c = CHR ''/'') s3_path;
            key_prefix = (if ridx = None then [] else slice_from path (find_from path CHR ''/'' 5))
        in Inr (path, bucket, key_prefix))"

section \<open>Partitions\<close>

definition REGION_PARTITION_MAP :: "(string, string) odict" where
  "REGION_PARTITION_MAP =
     map (\<lambda>r. (r, ''aws''))
       [''af-south-1'', ''ap-east-1'', ''ap-east-2'', ''ap-northeast-1'', ''ap-northeast-2'',
        ''ap-northeast-3'', ''ap-south-1'', ''ap-south-2'', ''ap-southeast-1'', ''ap-southeast-2'',
        ''ap-southeast-3'', ''ap-southeast-4'', ''ap-southeast-5'', ''ap-southeast-6'', ''ap-southeast-7'',
        ''ca-central-1'', ''ca-west-1'', ''eu-central-1'', ''eu-central-2'', ''eu-north-1'', ''eu-south-1'',
        ''eu-south-2'', ''eu-west-1'', ''eu-west-2'', ''eu-west-3'', ''il-central-1'', ''me-central-1'',
        ''me-south-1'', ''mx-central-1'', ''sa-east-1'', ''us-east-1'', ''us-east-2'', ''us-west-1'', ''us-west-2''] @
     [(''cn-north-1'', ''aws-cn''), (''cn-northwest-1'', ''aws-cn''), (''eu-isoe-west-1'', ''aws-iso-e''),
      (''eusc-de-east-1'', ''aws-eusc''), (''us-gov-east-1'', ''aws-us-gov''), (''us-gov-west-1'', ''aws-us-gov''),
      (''us-iso-east-1'', ''aws-iso''), (''us-iso-west-1'', ''aws-iso''), (''us-isob-east-1'', ''aws-iso-b''),
      (''us-isob-west-1'', ''aws-iso-b''), (''us-isof-east-1'', ''aws-iso-f''), (''us-isof-south-1'', ''aws-iso-f'')]"

text \<open>An absent region and an empty one are the same to the code; both are \<open>[]\<close> here.\<close>

definition get_partition :: "string \<Rightarrow> string" where
  "get_partition region =
     (if region = [] then []
      else case dget REGION_PARTITION_MAP region of Some p \<Rightarrow> p | None \<Rightarrow> ''aws'')"

definition get_support_region :: "string \<Rightarrow> string option" where
  "get_support_region region =
     (let part = get_partition region
      in if part = ''aws'' then Some ''us-east-1''
         else if part = ''aws-us-gov'' then Some ''us-gov-west-1''
         else if part = ''aws-cn'' then Some ''cn-north-1''
         else None)"

definition get_resource_tagging_region :: "bool \<Rightarrow> string \<Rightarrow> string" where
  "get_resource_tagging_region global_resource region =
     (let part = get_partition region
      in if part = ''aws'' then (if global_resource then ''us-east-1'' else region)
         else if part = ''aws-us-gov'' then (if global_resource then ''us-gov-west-1'' else region)
         else region)"

section \<open>Resource names\<close>

text \<open>\<open>generate_arn\<close>; an absent region, account or type is \<open>[]\<close>.\<close>

definition generate_arn ::
  "string \<Rightarrow> string \<Rightarrow> string \<Rightarrow> string \<Rightarrow> string \<Rightarrow> string \<Rightarrow> string \<Rightarrow> string" where
  "generate_arn service resource part region account_id resource_type separator =
     (let partition' = (if region \<noteq> [] then get_partition region else part);
          region' = (if service = ''s3'' then [] else region);
          arn = ''arn:'' @ partition' @ '':'' @ service @ '':'' @ region' @ '':'' @ account_id @ '':''
      in if resource_type \<noteq> []
         then arn @ resource_type @ (if starts_with resource separator then [] else separator) @ resource
         else arn @ resource)"

record arn =
  arn_text :: string
  arn_partition :: string
  arn_service :: string
  arn_region :: string
  arn_account_id :: string
  arn_resource :: string
  arn_resource_type :: "string option"
  arn_separator :: "string option"

text \<open>\<open>cls(*parts)\<close> needs the first six parts, then the type and the separator.\<close>

definition mk_arn :: "string \<Rightarrow> string list \<Rightarrow> string option \<Rightarrow> string option \<Rightarrow> arn res" where
  "mk_arn s parts t sep = (case parts of
      [a, p, svc, r, acc, rsc] \<Rightarrow>
        Inr \<lparr>arn_text = s, arn_partition = p, arn_service = svc, arn_region = r,
             arn_account_id = acc, arn_resource = rsc, arn_resource_type = t, arn_separator = sep\<rparr>
    | _ \<Rightarrow> Inl TypeError)"

text \<open>The last part cut once at the separator, the type first.\<close>

definition cut_last :: "string \<Rightarrow> string list \<Rightarrow> char \<Rightarrow> arn res" where
  "cut_last s parts sep = (case split_max sep 1 (last parts) of
      [t, r] \<Rightarrow> mk_arn s (butlast parts @ [r]) (Some t) (Some [sep])
    | _ \<Rightarrow> Inl TypeError)"

definition arn_parse :: "string \<Rightarrow> arn res" where
  "arn_parse s =
     (let parts = split_max CHR '':'' 5 s
      in if length parts < 3 then Inl ValueError
         else if parts ! 2 \<in> set [''s3'', ''apigateway'', ''execute-api'', ''emr-serverless'']
           then mk_arn s parts None None
         else if CHR ''/'' \<in> set (last parts) then cut_last s parts CHR ''/''
         else if CHR '':'' \<in> set (last parts) then cut_last s parts CHR '':''
         else if length parts = 6 then mk_arn s parts (Some []) (Some [])
         else Inl TypeError)"

section \<open>Errors and interfaces\<close>

definition is_not_found :: "string \<Rightarrow> bool" where
  "is_not_found code = (has_substr code ''NotFound'' \<or> has_substr code ''NoSuch'')"

text \<open>\<open>get_eni_resource_type\<close>: the first description that applies.\<close>

datatype dtest = DPre string | DIs string

fun dtest_ok :: "dtest \<Rightarrow> string \<Rightarrow> bool" where
  "dtest_ok (DPre p) s = starts_with s p"
| "dtest_ok (DIs p) s = (s = p)"

definition ENI_TYPES :: "(dtest \<times> string) list" where
  "ENI_TYPES =
    [(DPre ''ELB app/'', ''elb-app''), (DPre ''ELB net/'', ''elb-net''), (DPre ''ELB gwy/'', ''elb-gwy''),
     (DPre ''ELB'', ''elb''), (DIs ''ENI managed by APIGateway'', ''apigw''),
     (DPre ''AWS CodeStar Connections'', ''codestar''), (DPre ''DAX'', ''dax''),
     (DPre ''AWS created network interface for directory'', ''dir''), (DIs ''DMSNetworkInterface'', ''dms''),
     (DPre ''arn:aws:ecs:'', ''ecs''), (DPre ''EFS mount target for'', ''fsmt''),
     (DPre ''ElastiCache'', ''elasticache''), (DPre ''AWS ElasticMapReduce'', ''emr''),
     (DPre ''CloudHSM Managed Interface'', ''hsm''), (DPre ''CloudHsm ENI'', ''hsmv2''),
     (DPre ''AWS Lambda VPC ENI'', ''lambda''), (DPre ''AWS Lambda VPC'', ''lambda''),
     (DPre ''Interface for NAT Gateway'', ''nat''), (DIs ''RDSNetworkInterface'', ''rds''),
     (DPre ''Network interface for DBProxy'', ''rds''), (DIs ''RedshiftNetworkInterface'', ''redshift''),
     (DPre ''Network Interface for Transit Gateway Attachment'', ''tgw''),
     (DPre ''VPC Endpoint Interface'', ''vpce''), (DPre ''aws-k8s-branch-eni'', ''eks'')]"

definition get_eni_resource_type :: "pydict \<Rightarrow> string res" where
  "get_eni_resource_type eni =
     (let att = dget_or eni ''Attachment'' PNone
      in rbind (if py_truth att
                then (case att of PDict a \<Rightarrow> Inr (dget_or a ''InstanceId'' PNone) | _ \<Rightarrow> Inl AttributeError)
                else Inr PNone) (\<lambda>instance_id.
         if py_truth instance_id then Inr ''ec2''
         else case dget_or eni ''Description'' PNone of
             PStr s \<Rightarrow> Inr (case find (\<lambda>(t, n). dtest_ok t s) ENI_TYPES of Some (t, n) \<Rightarrow> n | None \<Rightarrow> ''unknown'')
           | _ \<Rightarrow> Inl AttributeError))"

text \<open>\<open>query_instances\<close>: the instances of the reservations of the pages, in order.\<close>

definition key_list :: "string \<Rightarrow> pyval \<Rightarrow> pyval list res" where
  "key_list k p = (case p of
      PDict d \<Rightarrow> rbind (dindex d k) py_iter
    | _ \<Rightarrow> Inl TypeError)"

definition query_instances :: "pyval list \<Rightarrow> pyval list res" where
  "query_instances pages =
     rbind (rmap (key_list ''Reservations'') pages) (\<lambda>rs.
     rbind (rmap (key_list ''Instances'') (concat rs)) (\<lambda>ls. Inr (concat ls)))"

section \<open>Policies, outputs, proxies\<close>

text \<open>\<open>a, _ = s.split('.', 1)\<close>.\<close>

definition before_dot :: "pyval \<Rightarrow> string res" where
  "before_dot v = (case v of
      PStr s \<Rightarrow> (case split_max CHR ''.'' 1 s of [a, b] \<Rightarrow> Inr a | _ \<Rightarrow> Inl ValueError)
    | _ \<Rightarrow> Inl AttributeError)"

definition get_policy_provider :: "pydict \<Rightarrow> string res" where
  "get_policy_provider policy_data =
     rbind (dindex policy_data ''resource'') (\<lambda>r. case r of
         PList [] \<Rightarrow> Inl IndexError
       | PList (x # xs) \<Rightarrow> before_dot x
       | _ \<Rightarrow> rbind (py_in (PStr ''.'') r) (\<lambda>b. if b then before_dot r else Inr ''aws''))"

text \<open>\<open>os.path.join\<close> on POSIX.\<close>

definition path_join1 :: "string \<Rightarrow> string \<Rightarrow> string" where
  "path_join1 a b =
     (if starts_with b ''/'' then b
      else if a = [] \<or> last a = CHR ''/'' then a @ b else a @ ''/'' @ b)"

definition os_path_join :: "string \<Rightarrow> string list \<Rightarrow> string" where
  "os_path_join a parts = foldl path_join1 a parts"

text \<open>
  \<open>urlparse\<close> of the standard library and its inverse are arguments: the six parts of a URL,
  the path third.
\<close>

definition join_output_path ::
  "(string \<Rightarrow> string list) \<Rightarrow> (string list \<Rightarrow> string) \<Rightarrow> string \<Rightarrow> string list \<Rightarrow> string" where
  "join_output_path urlparse urlunparse output_path parts =
     (if has_substr output_path ''{'' then output_path
      else if \<not> has_substr output_path ''://'' then os_path_join output_path parts
      else let parsed = urlparse output_path
           in urlunparse (parsed[2 := join ''/'' ((parsed ! 2) # parts)]))"

record url =
  url_scheme :: string
  url_netloc :: string
  url_path :: string
  url_query :: "(string \<times> string list) list"
  url_port :: "int option"
  url_hostname :: "string option"

text \<open>\<open>parse_url_config\<close>; the query is the result of \<open>parse_qs\<close>.\<close>

definition parse_url_config :: "(string \<Rightarrow> url) \<Rightarrow> string \<Rightarrow> (string, string) odict" where
  "parse_url_config urlparse url =
     (let u = (if url \<noteq> [] \<and> \<not> has_substr url ''://'' then url @ ''://'' else url);
          p = urlparse u;
          conf = [(''scheme'', url_scheme p), (''netloc'', url_netloc p), (''path'', url_path p)]
      in dput ''url'' u (fold (\<lambda>(k, v). dput k (hd v)) (url_query p) conf))"

definition get_proxy_url ::
  "(string \<Rightarrow> url) \<Rightarrow> (string, string) odict \<Rightarrow> (string \<Rightarrow> bool) \<Rightarrow> string \<Rightarrow> string option" where
  "get_proxy_url urlparse proxies proxy_bypass url =
     (let parsed = urlparse url;
          proxy_keys = [url_scheme parsed @ ''://'' @ url_netloc parsed, url_scheme parsed,
                        ''all://'' @ url_netloc parsed, ''all''];
          port = (case url_port parsed of
              Some p \<Rightarrow> str_of_int p
            | None \<Rightarrow> if url_scheme parsed = ''http'' then ''80''
                else if url_scheme parsed = ''https'' then ''443'' else ''None'');
          hostname = (case url_hostname parsed of Some h \<Rightarrow> h | None \<Rightarrow> [])
      in if proxy_bypass (hostname @ '':'' @ port) then None
         else case find (dhas proxies) proxy_keys of Some k \<Rightarrow> dget proxies k | None \<Rightarrow> None)"

section \<open>The properties\<close>

lemma starts_with_append [str_simps]: "starts_with (p @ r) p"
  by (simp add: starts_with_prefix)

lemma find_from_s3:
  "CHR ''/'' \<notin> set b \<Longrightarrow> find_from (''s3://'' @ b @ CHR ''/'' # k) CHR ''/'' 5 = Some (5 + length b)"
  using takeWhile_stop[of "CHR ''/''" b k] by (simp add: find_from_def Let_def)

lemma find_from_s3_none:
  "CHR ''/'' \<notin> set b \<Longrightarrow> find_from (''s3://'' @ b) CHR ''/'' 5 = None"
proof -
  assume "CHR ''/'' \<notin> set b"
  then have b: "takeWhile (\<lambda>x. x \<noteq> CHR ''/'') b = b" by (auto simp: takeWhile_eq_all_conv)
  have "\<not> length (takeWhile (\<lambda>x. x \<noteq> CHR ''/'') b) < length b" unfolding b by simp
  then show ?thesis by (simp add: find_from_def Let_def)
qed

text \<open>An S3 path made of a bucket and a key is taken apart into that bucket and the key
  with its slash, and is itself unchanged.\<close>
theorem parse_s3_roundtrip:
  assumes "CHR ''/'' \<notin> set bucket" "key \<noteq> []" "last key \<noteq> CHR ''/''"
  shows "parse_s3 (''s3://'' @ bucket @ ''/'' @ key) =
    Inr (''s3://'' @ bucket @ ''/'' @ key, bucket, ''/'' @ key)"
proof -
  have "rstrip_by (\<lambda>c. c = CHR ''/'') (''s3://'' @ bucket @ ''/'' @ key) = ''s3://'' @ bucket @ ''/'' @ key"
    by (rule rstrip_by_keep) (use assms in simp_all)
  moreover have "find_from (''s3://'' @ bucket @ ''/'' @ key) CHR ''/'' 5 = Some (5 + length bucket)"
    using find_from_s3[OF assms(1), of key] by simp
  moreover have "slice_from (''s3://'' @ bucket @ ''/'' @ key) (Some (5 + length bucket)) = ''/'' @ key"
    by (simp add: slice_from_def numeral_eq_Suc)
  moreover have "take (5 + length bucket - 5) (drop 5 (''s3://'' @ bucket @ ''/'' @ key)) = bucket"
    by (simp add: numeral_eq_Suc)
  moreover have "starts_with (''s3://'' @ bucket @ ''/'' @ key) ''s3://''"
    by (rule starts_with_append)
  ultimately show ?thesis
    by (simp only: parse_s3_def Let_def option.case option.distinct simp_thms if_False if_True)
qed

lemma parse_s3_roundtrip_witness:
  "parse_s3 ''s3://logs/a/b'' = Inr (''s3://logs/a/b'', ''logs'', ''/a/b'')"
  using parse_s3_roundtrip[of "''logs''" "''a/b''"] by simp

text \<open>A path that is a bucket with a slash and no key does not give the empty key prefix a
  bucket alone gives: once the slash is stripped the search for it fails, and slicing at
  -1 leaves the last letter of the bucket.\<close>
theorem parse_s3_bare_bucket:
  assumes "CHR ''/'' \<notin> set bucket" "bucket \<noteq> []"
  shows "parse_s3 (''s3://'' @ bucket @ ''/'') = Inr (''s3://'' @ bucket, bucket, [last bucket])"
proof -
  have l: "last bucket \<noteq> CHR ''/''" using assms last_in_set by metis
  have "rstrip_by (\<lambda>c. c = CHR ''/'') ((''s3://'' @ bucket) @ [CHR ''/'']) = ''s3://'' @ bucket"
    unfolding rstrip_by_snoc[of "\<lambda>c. c = CHR ''/''", OF refl]
    by (rule rstrip_by_keep) (use assms l in simp_all)
  moreover have "find_from (''s3://'' @ bucket @ ''/'') CHR ''/'' 5 = Some (5 + length bucket)"
    using find_from_s3[OF assms(1), of "[]"] by simp
  moreover have "slice_from (''s3://'' @ bucket) None = [last bucket]"
    using assms(2) by (cases bucket rule: rev_cases) (simp_all add: slice_from_def)
  moreover have "starts_with (''s3://'' @ bucket @ ''/'') ''s3://''"
    by (rule starts_with_append)
  ultimately show ?thesis
    using find_from_s3_none[OF assms(1)] by (simp only: parse_s3_def Let_def append_assoc) simp
qed

lemma parse_s3_bare_bucket_witness:
  "parse_s3 ''s3://logs/'' = Inr (''s3://logs'', ''logs'', ''s'')"
  using parse_s3_bare_bucket[of "''logs''"] by simp

lemma split_arn:
  assumes "CHR '':'' \<notin> set p" "CHR '':'' \<notin> set svc" "CHR '':'' \<notin> set r" "CHR '':'' \<notin> set acc"
  shows "split_max CHR '':'' 5 (''arn:'' @ p @ '':'' @ svc @ '':'' @ r @ '':'' @ acc @ '':'' @ x) =
    [''arn'', p, svc, r, acc, x]"
proof -
  have "split_max CHR '':'' 5 (''arn'' @ CHR '':'' # p @ CHR '':'' # svc @ CHR '':'' # r @ CHR '':'' # acc @ CHR '':'' # x) =
      [''arn'', p, svc, r, acc, x]"
    using assms by (simp add: split_max_cut split_max_0 del: append_Cons append_Nil)
  then show ?thesis by simp
qed

lemma get_partition_no_colon: "CHR '':'' \<notin> set (get_partition region)"
proof -
  have "list_all (\<lambda>(r, p). CHR '':'' \<notin> set p) REGION_PARTITION_MAP"
    by (simp add: REGION_PARTITION_MAP_def)
  then have "CHR '':'' \<notin> set p" if "dget REGION_PARTITION_MAP region = Some p" for p
    using map_of_SomeD[OF that] by (auto simp: list_all_iff)
  then show ?thesis by (auto simp: get_partition_def split: option.splits)
qed

text \<open>A resource name generated with a type parses back to its parts: the partition of the
  region, the service, the region, the account, the type, the separator and the resource.\<close>
theorem arn_roundtrip:
  assumes "region \<noteq> []"
    and "service \<notin> set [''s3'', ''apigateway'', ''execute-api'', ''emr-serverless'']"
    and "list_all (\<lambda>s. CHR '':'' \<notin> set s) [service, region, account, rtype]"
    and "rtype \<noteq> []" "CHR ''/'' \<notin> set rtype"
    and "sep = CHR ''/'' \<or> sep = CHR '':'' \<and> CHR ''/'' \<notin> set resource"
    and "\<not> starts_with resource [sep]"
  shows "arn_parse (generate_arn service resource part region account rtype [sep]) =
    Inr \<lparr>arn_text = generate_arn service resource part region account rtype [sep],
         arn_partition = get_partition region, arn_service = service, arn_region = region,
         arn_account_id = account, arn_resource = resource,
         arn_resource_type = Some rtype, arn_separator = Some [sep]\<rparr>"
proof -
  let ?x = "rtype @ sep # resource"
  let ?s = "generate_arn service resource part region account rtype [sep]"
  have "service \<noteq> ''s3''" using assms(2) by simp
  then have s: "?s = ''arn:'' @ get_partition region @ '':'' @ service @ '':'' @ region @ '':'' @ account @ '':'' @ ?x"
    using assms by (simp add: generate_arn_def Let_def)
  have parts: "split_max CHR '':'' 5 ?s = [''arn'', get_partition region, service, region, account, ?x]"
    unfolding s by (rule split_arn) (use assms(3) get_partition_no_colon in simp_all)
  have cut: "split_max sep 1 ?x = [rtype, resource]"
    using split_max_cut[of sep rtype 1 resource] assms(3,5,6) by (auto simp: split_max_0)
  have "cut_last ?s [''arn'', get_partition region, service, region, account, ?x] sep =
    Inr \<lparr>arn_text = ?s, arn_partition = get_partition region, arn_service = service, arn_region = region,
         arn_account_id = account, arn_resource = resource,
         arn_resource_type = Some rtype, arn_separator = Some [sep]\<rparr>"
    using cut by (simp add: cut_last_def mk_arn_def)
  moreover have "arn_parse ?s = cut_last ?s [''arn'', get_partition region, service, region, account, ?x] sep"
    unfolding arn_parse_def parts Let_def using assms(2,3,5,6) by (elim disjE conjE) simp_all
  ultimately show ?thesis by simp
qed

lemma arn_roundtrip_witness:
  "arn_parse (generate_arn ''ec2'' ''i-1'' ''aws'' ''us-east-1'' ''123'' ''instance'' ''/'') =
    Inr \<lparr>arn_text = generate_arn ''ec2'' ''i-1'' ''aws'' ''us-east-1'' ''123'' ''instance'' ''/'',
         arn_partition = get_partition ''us-east-1'', arn_service = ''ec2'', arn_region = ''us-east-1'',
         arn_account_id = ''123'', arn_resource = ''i-1'',
         arn_resource_type = Some ''instance'', arn_separator = Some ''/''\<rparr>"
  by (rule arn_roundtrip) simp_all

end
