(* ===== verification/Sessions.thy ===== *)
theory Sessions
  imports Prelude
begin

text \<open>
  Talking to the cloud in \<open>c7n/utils.py\<close>: the per-thread cache of sessions and the retry
  wrapper with its geometric delays. The world the calls act on is a type parameter.
\<close>

section \<open>Sessions\<close>

text \<open>
  \<open>CONN_CACHE\<close>: the attribute of a region is absent, emptied by a reset, or holds a session
  with the time it was made, in seconds.
\<close>

type_synonym 's conn_cache = "(string, ('s \<times> rat) option) odict"

definition SESSION_AGE :: rat where
  "SESSION_AGE = 60 * 45"

definition local_session ::
  "('w \<Rightarrow> 's \<times> 'w) \<Rightarrow> string \<Rightarrow> string \<Rightarrow> rat \<Rightarrow> 's conn_cache \<times> 'w \<Rightarrow> 's \<times> ('s conn_cache \<times> 'w)" where
  "local_session factory factory_region region now st =
     (let key = (if region \<noteq> [] then region else factory_region);
          fresh = (let (s, w) = factory (snd st) in (s, (dput key (Some (s, now)) (fst st), w)))
      in case dget (fst st) key of
           Some (Some (s, t)) \<Rightarrow> if now < t + SESSION_AGE then (s, st) else fresh
         | _ \<Rightarrow> fresh)"

definition reset_session_cache :: "'s conn_cache \<Rightarrow> 's conn_cache" where
  "reset_session_cache cache = map (\<lambda>(k, v). (k, if k \<noteq> [] \<and> hd k = CHR 0x5F then v else None)) cache"

text \<open>A thread asking for its session again and again.\<close>

fun ask_sessions ::
  "('w \<Rightarrow> 's \<times> 'w) \<Rightarrow> string \<Rightarrow> string \<Rightarrow> rat list \<Rightarrow> 's conn_cache \<times> 'w \<Rightarrow> 's list \<times> ('s conn_cache \<times> 'w)" where
  "ask_sessions factory fr region [] st = ([], st)"
| "ask_sessions factory fr region (t # ts) st =
     (let (s, st1) = local_session factory fr region t st;
          (ss, st2) = ask_sessions factory fr region ts st1
      in (s # ss, st2))"

section \<open>Retries\<close>

text \<open>What one call of the wrapped function does, and what the wrapper gives back.\<close>

datatype 'a attempt = Returned 'a | ClientErr string | OtherErr pyerr

datatype 'a outcome = Value 'a | Ignored | Raised string | RaisedOther pyerr | Exhausted

text \<open>
  The loop over \<open>enumerate(backoff_delays(...))\<close>: \<open>cur\<close> is the delay before its jitter,
  \<open>rnd idx\<close> the random number of round \<open>idx\<close>; the log holds the delays slept. With
  \<open>max_attempts\<close> zero and a zero delay the loop does not end. Delays are exact rationals.
\<close>

partial_function (option) retry_loop ::
  "('w \<Rightarrow> 'a attempt \<times> 'w) \<Rightarrow> string list \<Rightarrow> string list \<Rightarrow> nat \<Rightarrow> rat \<Rightarrow> (nat \<Rightarrow> rat) \<Rightarrow>
   nat \<Rightarrow> rat \<Rightarrow> 'w \<Rightarrow> rat list \<Rightarrow> ('a outcome \<times> 'w \<times> rat list) option" where
  "retry_loop func retry_codes ignore max_attempts max_delay rnd idx cur w slept =
     (if max_delay < cur then Some (Exhausted, w, slept)
      else case func w of
          (Returned a, w') \<Rightarrow> Some (Value a, w', slept)
        | (OtherErr e, w') \<Rightarrow> Some (RaisedOther e, w', slept)
        | (ClientErr c, w') \<Rightarrow>
            if c \<in> set ignore then Some (Ignored, w', slept)
            else if c \<notin> set retry_codes then Some (Raised c, w', slept)
            else if Suc idx = max_attempts then Some (Raised c, w', slept)
            else
              let delay = cur - cur * rnd idx / 5
              in if delay < 0 then Some (RaisedOther ValueError, w', slept)
                 else retry_loop func retry_codes ignore max_attempts max_delay rnd (Suc idx) (cur * 2) w' (slept @ [delay]))"

definition get_retry ::
  "string list \<Rightarrow> nat \<Rightarrow> rat \<Rightarrow> (nat \<Rightarrow> rat) \<Rightarrow> string list \<Rightarrow> ('w \<Rightarrow> 'a attempt \<times> 'w) \<Rightarrow> 'w \<Rightarrow>
   ('a outcome \<times> 'w \<times> rat list) option" where
  "get_retry retry_codes max_attempts min_delay rnd ignore func w =
     retry_loop func retry_codes ignore max_attempts (max min_delay 2 ^ max_attempts) rnd 0 min_delay w []"

text \<open>What the wrapper promises: up to \<open>n\<close> calls, the last error raised.\<close>

fun attempts :: "('w \<Rightarrow> 'a attempt \<times> 'w) \<Rightarrow> string list \<Rightarrow> string list \<Rightarrow> nat \<Rightarrow> 'w \<Rightarrow> 'a outcome \<times> 'w" where
  "attempts func retry_codes ignore 0 w = (Exhausted, w)"
| "attempts func retry_codes ignore (Suc n) w = (case func w of
      (Returned a, w') \<Rightarrow> (Value a, w')
    | (OtherErr e, w') \<Rightarrow> (RaisedOther e, w')
    | (ClientErr c, w') \<Rightarrow>
        if c \<in> set ignore then (Ignored, w')
        else if c \<notin> set retry_codes \<or> n = 0 then (Raised c, w')
        else attempts func retry_codes ignore n w')"

section \<open>The properties\<close>

lemma local_session_hit:
  "dget cache (if region \<noteq> [] then region else fr) = Some (Some (s, t)) \<Longrightarrow> now < t + SESSION_AGE \<Longrightarrow>
   local_session factory fr region now (cache, w) = (s, (cache, w))"
  by (simp add: local_session_def Let_def)

lemma ask_sessions_hit:
  "dget cache (if region \<noteq> [] then region else fr) = Some (Some (s, t)) \<Longrightarrow>
   list_all (\<lambda>now. now < t + SESSION_AGE) ts \<Longrightarrow>
   ask_sessions factory fr region ts (cache, w) = (replicate (length ts) s, (cache, w))"
  by (induction ts) (simp_all add: local_session_hit)

text \<open>Within 45 minutes of the first request every request gets the session that one made,
  and the factory is called once.\<close>
theorem session_reused:
  assumes "dget cache (if region \<noteq> [] then region else fr) \<in> {None, Some None}"
    and "factory w = (s, w')"
    and "list_all (\<lambda>now. now < t + SESSION_AGE) ts"
  shows "ask_sessions factory fr region (t # ts) (cache, w) =
    (replicate (Suc (length ts)) s,
     (dput (if region \<noteq> [] then region else fr) (Some (s, t)) cache, w'))"
proof -
  let ?k = "if region \<noteq> [] then region else fr"
  have "local_session factory fr region t (cache, w) = (s, (dput ?k (Some (s, t)) cache, w'))"
    using assms(1,2) by (auto simp: local_session_def Let_def)
  moreover have "dget (dput ?k (Some (s, t)) cache) ?k = Some (Some (s, t))"
    by (simp add: dict_simps)
  ultimately show ?thesis
    using ask_sessions_hit[OF _ assms(3), of "dput ?k (Some (s, t)) cache" region fr s factory w'] by simp
qed

lemma session_reused_witness:
  "ask_sessions (\<lambda>n. (n, Suc n)) ''us-east-1'' [] [0, 60, 2699] ([], 7) =
     ([7, 7, 7], ([(''us-east-1'', Some (7, 0))], 8))"
  using session_reused[of "[]" "[]" "''us-east-1''" "\<lambda>n. (n, Suc n)" 7 7 8 0 "[60, 2699]"]
  by (simp add: SESSION_AGE_def dict_simps)

text \<open>The delays are the geometric ones less at most a fifth.\<close>

definition jittered :: "rat \<Rightarrow> rat list \<Rightarrow> bool" where
  "jittered min_delay slept \<longleftrightarrow>
     (\<forall>i < length slept. 4 / 5 * min_delay * 2 ^ i \<le> slept ! i \<and> slept ! i \<le> min_delay * 2 ^ i)"

lemma jittered_snoc:
  assumes "jittered m slept" "0 \<le> m" "0 \<le> r" "r < 1"
  shows "jittered m (slept @ [m * 2 ^ length slept - m * 2 ^ length slept * r / 5])"
proof -
  let ?x = "m * 2 ^ length slept"
  have "0 \<le> ?x" using assms by simp
  then have "?x * r \<le> ?x * 1" "0 \<le> ?x * r" using assms by (blast intro: mult_left_mono less_imp_le mult_nonneg_nonneg)+
  then have "4 / 5 * ?x \<le> ?x - ?x * r / 5 \<and> ?x - ?x * r / 5 \<le> ?x" by (simp add: field_simps)
  with assms(1) show ?thesis by (auto simp: jittered_def nth_append less_Suc_eq mult.assoc)
qed

lemma retry_loop_stop:
  assumes "\<not> stop < cur" "func w = (res, w')"
    and "(\<exists>a. res = Returned a \<and> out = Value a) \<or> (\<exists>e. res = OtherErr e \<and> out = RaisedOther e) \<or>
      (\<exists>c. res = ClientErr c \<and> (if c \<in> set ign then out = Ignored
         else (c \<notin> set codes \<or> Suc idx = n) \<and> out = Raised c))"
  shows "retry_loop func codes ign n stop rnd idx cur w slept = Some (out, w', slept)"
  using assms by (subst retry_loop.simps) (auto split: if_splits)

lemma retry_loop_again:
  assumes "\<not> stop < cur" "func w = (ClientErr c, w')" "c \<notin> set ign" "c \<in> set codes" "Suc idx \<noteq> n"
    and "\<not> cur - cur * rnd idx / 5 < 0"
  shows "retry_loop func codes ign n stop rnd idx cur w slept =
    retry_loop func codes ign n stop rnd (Suc idx) (cur * 2) w' (slept @ [cur - cur * rnd idx / 5])"
  using assms by (subst retry_loop.simps) (simp add: Let_def)

lemma retry_loop_attempts:
  assumes "\<And>i. 0 \<le> rnd i \<and> rnd i < 1" "0 \<le> m" "\<And>i. i < n0 \<Longrightarrow> m * 2 ^ i \<le> stop"
  shows "idx + n = n0 \<Longrightarrow> 0 < n \<Longrightarrow> length slept = idx \<Longrightarrow> jittered m slept \<Longrightarrow>
    \<exists>slept'. retry_loop func codes ign n0 stop rnd idx (m * 2 ^ idx) w slept =
        Some (fst (attempts func codes ign n w), snd (attempts func codes ign n w), slept') \<and>
      length slept' < n0 \<and> jittered m slept'"
proof (induction n arbitrary: idx w slept)
  case (Suc n)
  have le: "\<not> stop < m * 2 ^ idx" using assms(3)[of idx] Suc.prems by (simp add: not_less)
  have lt: "length slept < n0" using Suc.prems by simp
  obtain res w' where f: "func w = (res, w')" by (cases "func w")
  show ?case
  proof (cases "\<exists>c. res = ClientErr c \<and> c \<notin> set ign \<and> c \<in> set codes \<and> n \<noteq> 0")
    case False
    then have "retry_loop func codes ign n0 stop rnd idx (m * 2 ^ idx) w slept =
        Some (fst (attempts func codes ign (Suc n) w), w', slept)"
      using Suc.prems(1) by (intro retry_loop_stop[where func = func and w = w, OF le f]) (cases res; auto simp: f)
    moreover have "snd (attempts func codes ign (Suc n) w) = w'"
      using False by (cases res) (auto simp: f)
    ultimately show ?thesis using lt Suc.prems(4) by auto
  next
    case True
    then obtain c where c: "res = ClientErr c" "c \<notin> set ign" "c \<in> set codes" "n \<noteq> 0" by blast
    let ?d = "m * 2 ^ idx - m * 2 ^ idx * rnd idx / 5"
    have j: "jittered m (slept @ [?d])"
      using jittered_snoc[of m slept "rnd idx"] assms(1)[of idx] assms(2) Suc.prems(3,4) by simp
    have "(0::rat) \<le> 4 / 5 * m * 2 ^ length slept" using assms(2) by simp
    also have "\<dots> \<le> (slept @ [?d]) ! length slept"
      using j unfolding jittered_def by (elim allE[of _ "length slept"]) simp
    also have "\<dots> = ?d" by (rule nth_append_length)
    finally have pos: "\<not> ?d < 0" by simp
    have "Suc idx \<noteq> n0" using Suc.prems(1) c(4) by simp
    from retry_loop_again[where slept = slept and rnd = rnd and func = func and w = w, OF le f[unfolded c(1)] c(2,3) this pos]
    have "retry_loop func codes ign n0 stop rnd idx (m * 2 ^ idx) w slept =
        retry_loop func codes ign n0 stop rnd (Suc idx) (m * 2 ^ Suc idx) w' (slept @ [?d])"
      by (simp add: mult.commute mult.left_commute)
    moreover have "attempts func codes ign (Suc n) w = attempts func codes ign n w'"
      using c by (simp add: f)
    ultimately show ?thesis
      using Suc.IH[of "Suc idx" "slept @ [?d]" w'] Suc.prems j c(4) by simp
  qed
qed simp

text \<open>C16: the retry wrapper, run on a function that may fail in any way, returns: it makes at
  most the number of attempts asked for, gives what a plain loop of that many attempts gives
  (so the delays never run out first), and sleeps between attempts for the doubling delay
  less at most a fifth.\<close>
theorem retry_refines_attempts:
  assumes "0 < max_attempts" "0 \<le> min_delay" "\<And>i. 0 \<le> rnd i \<and> rnd i < 1"
  shows "\<exists>slept. get_retry retry_codes max_attempts min_delay rnd ignore func w =
      Some (fst (attempts func retry_codes ignore max_attempts w),
            snd (attempts func retry_codes ignore max_attempts w), slept) \<and>
    length slept < max_attempts \<and> jittered min_delay slept"
proof -
  have "min_delay * 2 ^ i \<le> max min_delay 2 ^ max_attempts" if "i < max_attempts" for i
  proof -
    let ?m = "max min_delay 2"
    have "min_delay * 2 ^ i \<le> ?m * ?m ^ i" by (intro mult_mono power_mono) (use assms in auto)
    also have "\<dots> = ?m ^ Suc i" by simp
    also have "\<dots> \<le> ?m ^ max_attempts" by (rule power_increasing) (use that in auto)
    finally show ?thesis .
  qed
  from retry_loop_attempts[of rnd min_delay max_attempts "max min_delay 2 ^ max_attempts" 0 max_attempts "[]"
      func retry_codes ignore w, OF assms(3,2) this] assms(1)
  show ?thesis by (simp add: get_retry_def jittered_def)
qed

lemma retry_refines_attempts_witness:
  "\<exists>slept. get_retry [''Throttling''] 3 1 (\<lambda>i. 1 / 2) []
      (\<lambda>n. (if n < 2 then ClientErr ''Throttling'' else Returned n, Suc n)) (0::nat) = Some (Value 2, 3, slept) \<and>
    length slept < 3 \<and> jittered 1 slept"
  using retry_refines_attempts[of 3 1 "\<lambda>i. 1 / 2" "[''Throttling'']" "[]"
      "\<lambda>n. (if n < 2 then ClientErr ''Throttling'' else Returned n, Suc n)" "0::nat"]
  by (simp add: numeral_3_eq_3 numeral_2_eq_2)

end
