(* ===== verification/Query_Parser.thy ===== *)
theory Query_Parser
  imports Utils_Data
begin

text \<open>
  The \<open>query\<close> block of a policy: \<open>QueryParser\<close> of \<open>c7n/utils.py\<close>, which checks the block
  against the schema of a resource and brings its older spellings into one form, with the
  schemas of the resources that have one.
\<close>

section \<open>Schemas\<close>

text \<open>
  The type of a field: a tuple of allowed values, \<open>'date'\<close>, a Python type, or the table of
  the filters (which is no type: \<open>isinstance\<close> raises).
\<close>

datatype pytype = TStr | TInt | TBool

datatype vtype = VChoice "pyval list" | VDate | VIs pytype | VTable

fun isinstance :: "pyval \<Rightarrow> pytype \<Rightarrow> bool" where
  "isinstance v TStr = is_str v"
| "isinstance v TInt = is_int v"
| "isinstance v TBool = (case v of PBool b \<Rightarrow> True | _ \<Rightarrow> False)"

text \<open>A parser class; \<open>qs_filters\<close> is the entry \<open>Filters\<close> of its schema.\<close>

record qschema =
  qs_fields :: "(string, vtype) odict"
  qs_filters :: "(string, vtype) odict option"
  qs_type_name :: string
  qs_multi_value :: bool
  qs_single_value_fields :: pyval

definition qs_get :: "qschema \<Rightarrow> string \<Rightarrow> vtype option" where
  "qs_get S key = (if key = ''Filters'' then (case qs_filters S of None \<Rightarrow> None | Some t \<Rightarrow> Some VTable)
     else dget (qs_fields S) key)"

definition choice :: "string list \<Rightarrow> vtype" where
  "choice ss = VChoice (map PStr ss)"

definition EC2QueryParser :: qschema where
  "EC2QueryParser =
    \<lparr>qs_fields = [(''InstanceIds'', VIs TStr), (''MaxResults'', VIs TInt)],
     qs_filters = Some
       [(''architecture'', choice [''i386'', ''x86_64'']), (''availability-zone'', VIs TStr),
        (''ebs-optimized'', VIs TStr), (''iam-instance-profile.arn'', VIs TStr), (''image-id'', VIs TStr),
        (''instance-id'', VIs TStr), (''instance-lifecycle'', choice [''spot'', ''scheduled'', ''capacity-block'']),
        (''instance-state-name'', choice [''pending'', ''terminated'', ''running'', ''shutting-down'', ''stopping'', ''stopped'']),
        (''instance-type'', VIs TStr), (''instance.group-id'', VIs TStr), (''instance.group-name'', VIs TStr),
        (''owner-id'', VIs TStr), (''platform'', VIs TStr), (''tag-key'', VIs TStr), (''tag-value'', VIs TStr),
        (''tenancy'', choice [''dedicated'', ''default'', ''host'']), (''vpc-id'', VIs TStr)],
     qs_type_name = ''EC2'', qs_multi_value = True,
     qs_single_value_fields = PTuple [PStr ''MaxResults'']\<rparr>"

definition SnapshotQueryParser :: qschema where
  "SnapshotQueryParser =
    \<lparr>qs_fields = [(''OwnerIds'', VIs TStr), (''RestorableByUserIds'', VIs TStr), (''SnapshotIds'', VIs TStr),
       (''MaxResults'', VIs TInt)],
     qs_filters = Some
       [(''description'', VIs TStr), (''owner-alias'', choice [''amazon'', ''amazon-marketplace'', ''microsoft'']),
        (''owner-id'', VIs TStr), (''progress'', VIs TStr), (''snapshot-id'', VIs TStr), (''start-time'', VIs TStr),
        (''status'', choice [''pending'', ''completed'', ''error'']), (''tag'', VIs TStr), (''tag-key'', VIs TStr),
        (''volume-id'', VIs TStr), (''volume-size'', VIs TStr)],
     qs_type_name = ''EBS Snapshot'', qs_multi_value = True,
     qs_single_value_fields = PTuple [PStr ''MaxResults'']\<rparr>"

definition VolumeQueryParser :: qschema where
  "VolumeQueryParser =
    \<lparr>qs_fields = [(''MaxResults'', VIs TInt)],
     qs_filters = Some
       [(''attachment.attach-time'', VIs TStr), (''attachment.delete-on-termination'', choice [''true'', ''false'']),
        (''attachment.device'', VIs TStr), (''attachment.instance-id'', VIs TStr),
        (''attachment.status'', choice [''attaching'', ''attached'', ''detaching'']), (''availability-zone'', VIs TStr),
        (''create-time'', VIs TStr), (''encrypted'', choice [''true'', ''false'']),
        (''multi-attach-enabled'', choice [''true'', ''false'']), (''size'', VIs TInt), (''snapshot-id'', VIs TStr),
        (''status'', choice [''creating'', ''available'', ''in-use'', ''deleting'', ''deleted'', ''error'']),
        (''tag'', VIs TStr), (''tag-key'', VIs TStr), (''volume-id'', VIs TStr),
        (''volume-type'', choice [''standard'', ''io1'', ''io2'', ''gp2'', ''gp3'', ''sc1'', ''st1''])],
     qs_type_name = ''EBS Volume'', qs_multi_value = True,
     qs_single_value_fields = PTuple [PStr ''MaxResults'']\<rparr>"

definition PolicyQueryParser :: qschema where
  "PolicyQueryParser =
    \<lparr>qs_fields = [(''Scope'', choice [''All'', ''AWS'', ''Local'']),
       (''PolicyUsageFilter'', choice [''PermissionsPolicy'', ''PermissionsBoundary'']),
       (''PathPrefix'', VIs TStr), (''OnlyAttached'', VIs TBool), (''MaxItems'', VIs TInt)],
     qs_filters = None, qs_type_name = ''IAM Policy'', qs_multi_value = False,
     qs_single_value_fields = PTuple []\<rparr>"

definition ElastiCacheQueryParser :: qschema where
  "ElastiCacheQueryParser =
    \<lparr>qs_fields = [(''ShowCacheNodeInfo'', VIs TBool), (''ShowCacheClustersNotInReplicationGroups'', VIs TBool)],
     qs_filters = None, qs_type_name = ''ElastiCache'', qs_multi_value = False,
     qs_single_value_fields = PTuple []\<rparr>"

definition EMRQueryParser :: qschema where
  "EMRQueryParser =
    \<lparr>qs_fields = [(''ClusterStates'', choice [''STARTING'', ''BOOTSTRAPPING'', ''RUNNING'', ''WAITING'',
         ''TERMINATING'', ''TERMINATED'', ''TERMINATED_WITH_ERRORS'']),
       (''CreatedBefore'', VDate), (''CreatedAfter'', VDate)],
     qs_filters = None, qs_type_name = [], qs_multi_value = True,
     qs_single_value_fields = PTuple [PStr ''CreatedBefore'', PStr ''CreatedAfter'']\<rparr>"

text \<open>Here \<open>single_value_fields\<close> is a string, so that \<open>in\<close> is a search for a part of it.\<close>

definition HealthQueryParser :: qschema where
  "HealthQueryParser =
    \<lparr>qs_fields = [(''availabilityZones'', VIs TStr),
       (''eventTypeCategories'', choice [''issue'', ''accountNotification'', ''scheduledChange'', ''investigation'']),
       (''regions'', VIs TStr), (''services'', VIs TStr), (''eventStatusCodes'', choice [''open'', ''closed'', ''upcoming'']),
       (''eventTypeCodes'', VIs TStr), (''maxResults'', VIs TInt)],
     qs_filters = None, qs_type_name = ''Health Event'', qs_multi_value = True,
     qs_single_value_fields = PStr ''maxResults''\<rparr>"

definition SagemakerJobQueryParser :: qschema where
  "SagemakerJobQueryParser =
    \<lparr>qs_fields = [(''NameContains'', VIs TStr),
       (''StatusEquals'', choice [''InProgress'', ''Completed'', ''Failed'', ''Stopping'', ''Stopped'']),
       (''CreationTimeAfter'', VDate), (''CreationTimeBefore'', VDate), (''LastModifiedTimeAfter'', VDate),
       (''LastModifiedTimeBefore'', VDate), (''MaxResults'', VIs TInt)],
     qs_filters = None, qs_type_name = ''Sagemaker Job'', qs_multi_value = False,
     qs_single_value_fields = PTuple []\<rparr>"

definition CompilationJobQueryParser :: qschema where
  "CompilationJobQueryParser = SagemakerJobQueryParser
    \<lparr>qs_fields := [(''NameContains'', VIs TStr),
       (''StatusEquals'', choice [''INPROGRESS'', ''COMPLETED'', ''FAILED'', ''STARTING'', ''STOPPING'', ''STOPPED'']),
       (''CreationTimeAfter'', VDate), (''CreationTimeBefore'', VDate), (''LastModifiedTimeAfter'', VDate),
       (''LastModifiedTimeBefore'', VDate), (''MaxResults'', VIs TInt)]\<rparr>"

definition CloudDirectoryQueryParser :: qschema where
  "CloudDirectoryQueryParser =
    \<lparr>qs_fields = [(''state'', choice [''ENABLED'', ''DISABLED'', ''DELETED'']), (''MaxResults'', VIs TInt)],
     qs_filters = None, qs_type_name = ''CloudDirectory'', qs_multi_value = False,
     qs_single_value_fields = PTuple []\<rparr>"

definition FoundationModelQueryParser :: qschema where
  "FoundationModelQueryParser =
    \<lparr>qs_fields = [(''byProvider'', VIs TStr), (''byCustomizationType'', choice [''FINE_TUNING'', ''CONTINUED_PRE_TRAINING'']),
       (''byOutputModality'', choice [''TEXT'', ''IMAGE'', ''EMBEDDING'']),
       (''byInferenceType'', choice [''ON_DEMAND'', ''PROVISIONED''])],
     qs_filters = None, qs_type_name = ''Bedrock Foundation Model'', qs_multi_value = False,
     qs_single_value_fields = PTuple []\<rparr>"

section \<open>Values\<close>

text \<open>The message of a value that is not among the choices joins them: they must be strings.\<close>

definition type_check :: "ext \<Rightarrow> vtype \<Rightarrow> pyval \<Rightarrow> unit res" where
  "type_check E vt v = (case vt of
      VChoice ws \<Rightarrow>
        if mem_eq v ws then Inr ()
        else if list_all is_str ws then Inl PolicyValidationError else Inl TypeError
    | VDate \<Rightarrow> rbind (parse_date E v) (\<lambda>d. if py_truth d then Inr () else Inl PolicyValidationError)
    | VIs t \<Rightarrow> if isinstance v t then Inr () else Inl PolicyValidationError
    | VTable \<Rightarrow> Inl TypeError)"

fun type_checks :: "ext \<Rightarrow> vtype \<Rightarrow> pyval list \<Rightarrow> unit res" where
  "type_checks E vt [] = Inr ()"
| "type_checks E vt (v # vs) = rbind (type_check E vt v) (\<lambda>_. type_checks E vt vs)"

section \<open>Filters of a query\<close>

text \<open>
  One filter of the list: its name and its values. A name that is not a string is hashed for
  the lookup and then has no \<open>startswith\<close>; a tag filter needs the table \<open>Filters\<close>.
\<close>

definition qfilter_type :: "qschema \<Rightarrow> string \<Rightarrow> vtype res" where
  "qfilter_type S key = (case qs_filters S of
      None \<Rightarrow> Inl KeyError
    | Some t \<Rightarrow> Inr (case dget t key of None \<Rightarrow> VIs TStr | Some vt \<Rightarrow> vt))"

definition qfilter_known :: "qschema \<Rightarrow> string \<Rightarrow> bool" where
  "qfilter_known S key \<longleftrightarrow>
     dhas (case qs_filters S of None \<Rightarrow> [] | Some t \<Rightarrow> t) key \<or> starts_with key ''tag:''"

definition parse_qfilter :: "ext \<Rightarrow> qschema \<Rightarrow> pyval \<Rightarrow> (string \<times> pyval list) res" where
  "parse_qfilter E S f = (case f of
      PDict d \<Rightarrow>
        (case (dget d ''Name'', dget d ''Values'') of
           (Some (PStr key), Some values) \<Rightarrow>
             if \<not> qfilter_known S key then Inl PolicyValidationError
             else (case values of
                 PList vs \<Rightarrow>
                   rbind (qfilter_type S key) (\<lambda>vt. rbind (type_checks E vt vs) (\<lambda>_. Inr (key, vs)))
               | _ \<Rightarrow> Inl PolicyValidationError)
         | (Some k, Some values) \<Rightarrow> if hashable k then Inl AttributeError else Inl TypeError
         | _ \<Rightarrow> Inl PolicyValidationError)
    | _ \<Rightarrow> Inl PolicyValidationError)"

text \<open>\<open>{'Name': key, 'Values': values}\<close>, extended when the name is known already.\<close>

fun add_qfilter :: "string \<Rightarrow> pyval list \<Rightarrow> (string \<times> pyval list) list \<Rightarrow> (string \<times> pyval list) list" where
  "add_qfilter key vs [] = [(key, vs)]"
| "add_qfilter key vs ((k, ws) # qs) =
     (if k = key then (k, ws @ vs) # qs else (k, ws) # add_qfilter key vs qs)"

definition parse_qfilters :: "ext \<Rightarrow> qschema \<Rightarrow> pyval \<Rightarrow> (string \<times> pyval list) list res" where
  "parse_qfilters E S data = (case data of
      PList fs \<Rightarrow> rfold (\<lambda>qs f. rbind (parse_qfilter E S f) (\<lambda>(key, vs). Inr (add_qfilter key vs qs))) [] fs
    | PTuple fs \<Rightarrow> rfold (\<lambda>qs f. rbind (parse_qfilter E S f) (\<lambda>(key, vs). Inr (add_qfilter key vs qs))) [] fs
    | _ \<Rightarrow> Inl PolicyValidationError)"

definition qfilters_value :: "(string \<times> pyval list) list \<Rightarrow> pyval" where
  "qfilters_value qs = PList (map (\<lambda>(k, vs). PDict [(''Name'', PStr k), (''Values'', PList vs)]) qs)"

section \<open>Queries\<close>

definition single_valued :: "qschema \<Rightarrow> string \<Rightarrow> bool res" where
  "single_valued S key =
     (if \<not> qs_multi_value S then Inr True else py_in (PStr key) (qs_single_value_fields S))"

definition parse_query :: "ext \<Rightarrow> qschema \<Rightarrow> string \<Rightarrow> pyval \<Rightarrow> pyval res" where
  "parse_query E S key values =
     rbind (single_valued S key) (\<lambda>single.
       if single \<and> is_list values then Inl PolicyValidationError
       else
         let values' = (if \<not> single \<and> \<not> is_list values then PList [values] else values)
         in case qs_get S key of
              None \<Rightarrow> Inl PolicyValidationError
            | Some vt \<Rightarrow>
                rbind (case values' of PList vs \<Rightarrow> type_checks E vt vs | v \<Rightarrow> type_check E vt v) (\<lambda>_. Inr values'))"

text \<open>\<open>q[key].append(v)\<close> for the entries under \<open>key\<close>.\<close>

fun append_query :: "string \<Rightarrow> pyval \<Rightarrow> (string \<times> pyval) list \<Rightarrow> (string \<times> pyval) list res" where
  "append_query key v [] = Inr []"
| "append_query key v ((k, w) # qs) =
     (if k = key
      then (case w of PList ws \<Rightarrow> rbind (append_query key v qs) (\<lambda>r. Inr ((k, PList (ws @ [v])) # r))
            | _ \<Rightarrow> Inl AttributeError)
      else rbind (append_query key v qs) (\<lambda>r. Inr ((k, w) # r)))"

text \<open>
  The state of the loop: the one-key results so far, and the names seen. \<open>QForeign\<close> is a
  one-key dictionary whose key is not a string, which only the translation of \<open>Name\<close>
  and \<open>Value\<close> makes; no schema has such a key.
\<close>

datatype qitem = QItem pyval | QForeign

definition query_step ::
  "ext \<Rightarrow> qschema \<Rightarrow> (string \<times> pyval) list \<times> string list \<Rightarrow> qitem \<Rightarrow> ((string \<times> pyval) list \<times> string list) res" where
  "query_step E S st d = (case (st, d) of
      ((results, names), QItem (PDict [(key, v)])) \<Rightarrow>
        if key = ''Filters'' \<and> py_truth v
        then rbind (parse_qfilters E S v) (\<lambda>qs. Inr (results @ [(''Filters'', qfilters_value qs)], names))
        else rbind (parse_query E S key v) (\<lambda>value.
          if key \<in> set names then
            rbind (single_valued S key) (\<lambda>single.
              if single then Inl PolicyValidationError
              else rbind (append_query key v results) (\<lambda>r. Inr (r, names)))
          else Inr (results @ [(key, value)], names @ [key]))
    | _ \<Rightarrow> Inl PolicyValidationError)"

section \<open>Older spellings\<close>

definition first_key :: "pydict \<Rightarrow> string res" where
  "first_key d = (case d of [] \<Rightarrow> Inl IndexError | (k, v) # r \<Rightarrow> Inr k)"

definition is_implicit_query_filter :: "qschema \<Rightarrow> pydict \<Rightarrow> bool res" where
  "is_implicit_query_filter S d0 =
     rbind (first_key d0) (\<lambda>key.
       Inr (qs_get S key = None \<and> (case qs_filters S of
           None \<Rightarrow> False | Some t \<Rightarrow> dhas t key \<or> starts_with key ''tag:'')))"

definition implicit_filter :: "pyval \<Rightarrow> pyval res" where
  "implicit_filter d = (case d of
      PDict ((k, v) # r) \<Rightarrow>
        Inr (PDict [(''Name'', PStr k), (''Values'', if is_list v then v else PList [v])])
    | PDict [] \<Rightarrow> Inl IndexError
    | _ \<Rightarrow> Inl AttributeError)"

definition implicit_qfilter_translate :: "pyval list \<Rightarrow> pyval list res" where
  "implicit_qfilter_translate ds =
     rbind (rmap implicit_filter ds) (\<lambda>fs. Inr [PDict [(''Filters'', PList fs)]])"

text \<open>\<open>{d['Name']: d['Value']}\<close>; a missing key is a validation error.\<close>

definition name_value :: "pyval \<Rightarrow> qitem res" where
  "name_value d = (case d of
      PDict e \<Rightarrow>
        (case (dget e ''Name'', dget e ''Value'') of
           (Some (PStr k), Some v) \<Rightarrow> Inr (QItem (PDict [(k, v)]))
         | (Some k, Some v) \<Rightarrow> if hashable k then Inr QForeign else Inl TypeError
         | _ \<Rightarrow> Inl PolicyValidationError)
    | _ \<Rightarrow> Inl TypeError)"

definition modern_form :: "qschema \<Rightarrow> (pyval list \<Rightarrow> pyval) \<Rightarrow> pyval list \<Rightarrow> qitem list res" where
  "modern_form S seq ds = (case ds of
      [] \<Rightarrow> Inr []
    | PDict d0 # _ \<Rightarrow>
        rbind (is_implicit_query_filter S d0) (\<lambda>b.
        rbind (if b then rbind (implicit_qfilter_translate ds) (\<lambda>es. Inr (PList, es)) else Inr (seq, ds)) (\<lambda>(sq, es).
        let first = (case es of PDict d # _ \<Rightarrow> d | _ \<Rightarrow> [])
        in if py_truth (dget_or first ''Value'' PNone) \<and> qs_type_name S \<in> set [''IAM Policy'', ''ElastiCache'']
           then rmap name_value es
           else if py_truth (dget_or first ''Values'' PNone) \<and> qs_type_name S \<in> set [''EBS Snapshot'', ''EBS Volume'']
           then Inr [QItem (PDict [(''Filters'', sq es)])]
           else Inr (map QItem es)))
    | _ \<Rightarrow> Inl PolicyValidationError)"

definition qparse :: "ext \<Rightarrow> qschema \<Rightarrow> pyval \<Rightarrow> (string \<times> pyval) list res" where
  "qparse E S data =
     rbind (case data of PList ds \<Rightarrow> modern_form S PList ds | PTuple ds \<Rightarrow> modern_form S PTuple ds
            | _ \<Rightarrow> Inl PolicyValidationError) (\<lambda>items.
     rbind (rfold (query_step E S) ([], []) items) (\<lambda>(results, names). Inr results))"

section \<open>The properties\<close>

definition values_of :: "string \<Rightarrow> (string \<times> pyval list) list \<Rightarrow> pyval list" where
  "values_of key qs = concat (map snd (filter (\<lambda>q. fst q = key) qs))"

text \<open>A filter whose values have the type of its name.\<close>

definition qfilter_ok :: "ext \<Rightarrow> qschema \<Rightarrow> string \<times> pyval list \<Rightarrow> bool" where
  "qfilter_ok E S q \<longleftrightarrow> qfilter_known S (fst q) \<and>
     (\<exists>vt. qfilter_type S (fst q) = Inr vt \<and> type_checks E vt (snd q) = Inr ())"

lemma type_checks_append:
  "type_checks E vt (vs @ ws) = rbind (type_checks E vt vs) (\<lambda>_. type_checks E vt ws)"
  by (induction vs) (simp_all add: rbind_assoc)

lemma add_qfilter_names:
  "map fst (add_qfilter k vs qs) = (if k \<in> fst ` set qs then map fst qs else map fst qs @ [k])"
  by (induction k vs qs rule: add_qfilter.induct) auto

lemma add_qfilter_ok:
  "list_all (qfilter_ok E S) qs \<Longrightarrow> qfilter_ok E S (k, vs) \<Longrightarrow> list_all (qfilter_ok E S) (add_qfilter k vs qs)"
  by (induction k vs qs rule: add_qfilter.induct) (auto simp: qfilter_ok_def type_checks_append)

lemma add_qfilter_values:
  "distinct (map fst qs) \<Longrightarrow> values_of k' (add_qfilter k vs qs) = values_of k' qs @ (if k = k' then vs else [])"
proof (induction k vs qs rule: add_qfilter.induct)
  case (2 key vs k ws qs)
  show ?case
  proof (cases "k = key")
    case True
    then have "filter (\<lambda>q. fst q = key) qs = []"
      using 2(2) by (force simp: filter_empty_conv)
    with True show ?thesis by (auto simp: values_of_def)
  next
    case False
    have "values_of k' ((k, ws) # rs) = (if k = k' then ws else []) @ values_of k' rs" for rs
      by (simp add: values_of_def)
    with 2 False show ?thesis by simp
  qed
qed (simp add: values_of_def)

lemma parse_qfilter_ok: "parse_qfilter E S f = Inr q \<Longrightarrow> qfilter_ok E S q"
  by (auto simp: parse_qfilter_def qfilter_ok_def rbind_eq_Inr split: pyval.splits option.splits if_splits)

lemma qfilters_fold:
  "rfold (\<lambda>qs f. rbind (parse_qfilter E S f) (\<lambda>(key, vs). Inr (add_qfilter key vs qs))) qs fs = Inr rs \<Longrightarrow>
   distinct (map fst qs) \<Longrightarrow> list_all (qfilter_ok E S) qs \<Longrightarrow>
   distinct (map fst rs) \<and> list_all (qfilter_ok E S) rs \<and>
   (\<exists>ps. rmap (parse_qfilter E S) fs = Inr ps \<and> (\<forall>k. values_of k rs = values_of k qs @ values_of k ps))"
proof (induction fs arbitrary: qs)
  case Nil
  then show ?case by (simp add: values_of_def)
next
  case (Cons f fs)
  from Cons.prems(1) obtain key vs where f: "parse_qfilter E S f = Inr (key, vs)"
    and rest: "rfold (\<lambda>qs f. rbind (parse_qfilter E S f) (\<lambda>(key, vs). Inr (add_qfilter key vs qs)))
      (add_qfilter key vs qs) fs = Inr rs"
    by (auto simp: rbind_eq_Inr)
  have d: "distinct (map fst (add_qfilter key vs qs))"
    using Cons.prems(2) by (simp add: add_qfilter_names)
  have ok: "list_all (qfilter_ok E S) (add_qfilter key vs qs)"
    by (rule add_qfilter_ok[OF Cons.prems(3) parse_qfilter_ok[OF f]])
  from Cons.IH[OF rest d ok] obtain ps where
    ps: "distinct (map fst rs)" "list_all (qfilter_ok E S) rs" "rmap (parse_qfilter E S) fs = Inr ps"
      "\<forall>k. values_of k rs = values_of k (add_qfilter key vs qs) @ values_of k ps"
    by blast
  have "values_of k rs = values_of k qs @ values_of k ((key, vs) # ps)" for k
    using ps(4) add_qfilter_values[OF Cons.prems(2), of k key vs] by (simp add: values_of_def)
  moreover have "rmap (parse_qfilter E S) (f # fs) = Inr ((key, vs) # ps)" using f ps(3) by simp
  ultimately show ?case using ps(1,2) by blast
qed

lemma qfilters_fold_start:
  "parse_qfilters E S (PList fs) = Inr rs \<Longrightarrow>
   distinct (map fst rs) \<and> list_all (qfilter_ok E S) rs \<and>
   (\<exists>ps. rmap (parse_qfilter E S) fs = Inr ps \<and> (\<forall>k. values_of k rs = values_of k ps))"
  using qfilters_fold[of E S "[]" fs rs] by (simp add: parse_qfilters_def values_of_def)


definition volume_query :: pyval where
  "volume_query = PList
    [PDict [(''Name'', PStr ''status''), (''Values'', PList [PStr ''available''])],
     PDict [(''Name'', PStr ''tag:team''), (''Values'', PList [PStr ''a''])],
     PDict [(''Name'', PStr ''status''), (''Values'', PList [PStr ''in-use''])]]"

lemma volume_query_parsed:
  "parse_qfilters (ext0 0) VolumeQueryParser volume_query =
     Inr [(''status'', [PStr ''available'', PStr ''in-use'']), (''tag:team'', [PStr ''a''])]"
  by code_simp


text \<open>No value of a filter is lost or moved: under every name the parsed query has the values
  the filters of that name have, in the order they were written.\<close>
theorem qfilters_complete:
  assumes "parse_qfilters E S (PList fs) = Inr qs"
  shows "\<exists>ps. rmap (parse_qfilter E S) fs = Inr ps \<and> (\<forall>key. values_of key qs = values_of key ps)"
  using qfilters_fold_start[OF assms] by blast

lemma qfilters_complete_witness:
  "\<exists>fs ps. volume_query = PList fs \<and> rmap (parse_qfilter (ext0 0) VolumeQueryParser) fs = Inr ps \<and>
     values_of ''status'' ps = [PStr ''available'', PStr ''in-use'']"
proof -
  obtain ps where ps: "rmap (parse_qfilter (ext0 0) VolumeQueryParser)
      [PDict [(''Name'', PStr ''status''), (''Values'', PList [PStr ''available''])],
       PDict [(''Name'', PStr ''tag:team''), (''Values'', PList [PStr ''a''])],
       PDict [(''Name'', PStr ''status''), (''Values'', PList [PStr ''in-use''])]] = Inr ps"
    "\<forall>key. values_of key [(''status'', [PStr ''available'', PStr ''in-use'']), (''tag:team'', [PStr ''a''])] = values_of key ps"
    using qfilters_complete[OF volume_query_parsed[unfolded volume_query_def]] by blast
  have "values_of ''status'' ps = [PStr ''available'', PStr ''in-use'']"
    using ps(2)[THEN spec, of "''status''"] by (simp add: values_of_def)
  with ps(1) show ?thesis unfolding volume_query_def by blast
qed

lemma add_qfilter_new: "k \<notin> fst ` set qs \<Longrightarrow> add_qfilter k vs qs = qs @ [(k, vs)]"
  by (induction k vs qs rule: add_qfilter.induct) auto

lemma parse_qfilter_again:
  "qfilter_ok E S q \<Longrightarrow> parse_qfilter E S (PDict [(''Name'', PStr (fst q)), (''Values'', PList (snd q))]) = Inr q"
  by (auto simp: parse_qfilter_def qfilter_ok_def)

lemma qfilters_again:
  "distinct (map fst (rs @ qs)) \<Longrightarrow> list_all (qfilter_ok E S) qs \<Longrightarrow>
   rfold (\<lambda>qs f. rbind (parse_qfilter E S f) (\<lambda>(key, vs). Inr (add_qfilter key vs qs))) rs
     (map (\<lambda>(k, vs). PDict [(''Name'', PStr k), (''Values'', PList vs)]) qs) = Inr (rs @ qs)"
proof (induction qs arbitrary: rs)
  case (Cons q qs)
  obtain k vs where q: "q = (k, vs)" by (cases q)
  have "parse_qfilter E S (PDict [(''Name'', PStr k), (''Values'', PList vs)]) = Inr (k, vs)"
    using parse_qfilter_again[of E S "(k, vs)"] Cons.prems(2) q by simp
  moreover have "add_qfilter k vs rs = rs @ [(k, vs)]"
    by (rule add_qfilter_new) (use Cons.prems(1) q in auto)
  moreover have "rfold (\<lambda>qs f. rbind (parse_qfilter E S f) (\<lambda>(key, vs). Inr (add_qfilter key vs qs))) (rs @ [q])
     (map (\<lambda>(k, vs). PDict [(''Name'', PStr k), (''Values'', PList vs)]) qs) = Inr ((rs @ [q]) @ qs)"
    by (rule Cons.IH) (use Cons.prems in simp_all)
  ultimately show ?case by (simp add: q)
qed simp

text \<open>The form parsing leaves a query in is a fixed point: written out as a query again it
  parses to itself.\<close>
theorem qfilters_fixpoint:
  assumes "parse_qfilters E S (PList fs) = Inr qs"
  shows "parse_qfilters E S (qfilters_value qs) = Inr qs"
  using qfilters_fold_start[OF assms] qfilters_again[of "[]" qs E S]
  by (simp add: parse_qfilters_def qfilters_value_def)

lemma qfilters_fixpoint_witness:
  "parse_qfilters (ext0 0) VolumeQueryParser
     (qfilters_value [(''status'', [PStr ''available'', PStr ''in-use'']), (''tag:team'', [PStr ''a''])]) =
   Inr [(''status'', [PStr ''available'', PStr ''in-use'']), (''tag:team'', [PStr ''a''])]"
  by (rule qfilters_fixpoint[OF volume_query_parsed[unfolded volume_query_def]])

text \<open>A field that takes several values and is given twice, as lists, is not merged the way a
  filter is: the second list becomes one more value of the first.\<close>
theorem repeated_query_nests:
  assumes "qs_get S key = Some vt" "single_valued S key = Inr False" "key \<noteq> ''Filters''"
    and "qs_type_name S \<notin> set [''IAM Policy'', ''ElastiCache'', ''EBS Snapshot'', ''EBS Volume'']"
    and "type_checks E vt vs = Inr ()" "type_checks E vt ws = Inr ()"
  shows "qparse E S (PList [PDict [(key, PList vs)], PDict [(key, PList ws)]]) =
    Inr [(key, PList (vs @ [PList ws]))]"
proof -
  let ?ds = "[PDict [(key, PList vs)], PDict [(key, PList ws)]]"
  have "modern_form S PList ?ds = Inr (map QItem ?ds)"
    using assms(1,4) by (simp add: modern_form_def is_implicit_query_filter_def first_key_def)
  moreover have "parse_query E S key (PList xs) = Inr (PList xs)" if "type_checks E vt xs = Inr ()" for xs
    using that assms(1,2) by (simp add: parse_query_def is_list_def)
  ultimately show ?thesis
    using assms(2,3,5,6) by (simp add: qparse_def query_step_def)
qed

lemma repeated_query_nests_witness:
  "qparse (ext0 0) EC2QueryParser
     (PList [PDict [(''InstanceIds'', PList [PStr ''i-1''])], PDict [(''InstanceIds'', PList [PStr ''i-2''])]]) =
   Inr [(''InstanceIds'', PList [PStr ''i-1'', PList [PStr ''i-2'']])]"
  using repeated_query_nests[of EC2QueryParser "''InstanceIds''" "VIs TStr" "ext0 0" "[PStr ''i-1'']" "[PStr ''i-2'']"]
  by (simp add: EC2QueryParser_def qs_get_def single_valued_def py_in_def mem_eq_def type_check_def is_str_def)

end
