(* ===== verification/Offhours.thy ===== *)
theory Offhours
  imports Digits Utils_Parse
begin

text \<open>
  Off hours and on hours (\<open>c7n/filters/offhours.py\<close>): the schedule a resource carries in a
  tag, its parser with the cache of parsed values, and the filter that compares the
  schedule with the clock.
\<close>

section \<open>Days and hours\<close>

definition DAY_MAP :: "(string, nat) odict" where
  "DAY_MAP = [(''m'', 0), (''t'', 1), (''w'', 2), (''h'', 3), (''f'', 4), (''s'', 5), (''u'', 6)]"

text \<open>\<open>range(a, b)\<close>.\<close>

abbreviation range_nat :: "nat \<Rightarrow> nat \<Rightarrow> nat list" where
  "range_nat a b \<equiv> [a ..< b]"

text \<open>\<open>expand_day_range\<close>; the parts that name no day are dropped before the parts are counted.\<close>

definition expand_day_range :: "string \<Rightarrow> nat list option" where
  "expand_day_range days = (case dget DAY_MAP days of
      Some d \<Rightarrow> Some [d]
    | None \<Rightarrow>
        (case List.map_filter (dget DAY_MAP) (split_char CHR ''-'' days) of
           [a, b] \<Rightarrow> Some (if b < a then range_nat a 7 @ range_nat 0 (b + 1) else range_nat (min a b) (max a b + 1))
         | _ \<Rightarrow> None))"

text \<open>An entry of a schedule: the days and the hour (a default hour is a policy's value).\<close>

record sched_item =
  si_days :: "nat list"
  si_hour :: pyval

definition brackets_removed :: "string \<Rightarrow> string" where
  "brackets_removed u = remove_chars ''[]'' u"

definition parens_removed :: "string \<Rightarrow> string" where
  "parens_removed u = remove_chars ''()'' u"

definition parse_item :: "string \<Rightarrow> sched_item option" where
  "parse_item e = (case split_char CHR '','' (parens_removed e) of
      [days, hour] \<Rightarrow>
        if \<not> isdigit hour then None
        else if \<not> nat_of_digits hour < 24 then None
        else (case expand_day_range days of
            None \<Rightarrow> None
          | Some ds \<Rightarrow> if ds = [] then None else Some \<lparr>si_days = ds, si_hour = PInt (int (nat_of_digits hour))\<rparr>)
    | _ \<Rightarrow> None)"

fun parse_items :: "string list \<Rightarrow> sched_item list option" where
  "parse_items [] = Some []"
| "parse_items (e # es) = (case parse_item e of
      None \<Rightarrow> None
    | Some it \<Rightarrow> (case parse_items es of None \<Rightarrow> None | Some r \<Rightarrow> Some (it # r)))"

definition parse_resource_schedule :: "string \<Rightarrow> sched_item list option" where
  "parse_resource_schedule lexeme = parse_items (split_str '',('' (brackets_removed lexeme))"

section \<open>Schedules\<close>

text \<open>A schedule is a dictionary: the time zone under \<open>tz\<close>, entries under any other key.\<close>

datatype sched_val = STz pyval | SItems "sched_item list"

type_synonym schedule = "(string, sched_val) odict"

text \<open>\<open>raw_data\<close>: components are cut at spaces and semicolons.\<close>

definition raw_data :: "string \<Rightarrow> (string, string) odict" where
  "raw_data tag_value =
     fold (\<lambda>piece d. case split_char CHR ''='' piece of [key, v] \<Rightarrow> dput key v d | _ \<Rightarrow> d)
       (concat (map (split_char CHR '';'') (split_char CHR '' '' tag_value))) []"

definition keys_are_valid :: "string \<Rightarrow> bool" where
  "keys_are_valid tag_value = list_all (\<lambda>k. k \<in> set [''on'', ''off'', ''tz'']) (dkeys (raw_data tag_value))"

definition has_resource_schedule :: "string \<Rightarrow> string \<Rightarrow> bool" where
  "has_resource_schedule tag_value time_type = dhas (raw_data tag_value) time_type"

text \<open>\<open>parse\<close>: here the components are cut at semicolons only.\<close>

fun parse_pieces :: "string list \<Rightarrow> schedule \<Rightarrow> schedule option" where
  "parse_pieces [] s = Some s"
| "parse_pieces (p # ps) s = (case split_char CHR ''='' p of
      [key, v] \<Rightarrow>
        if key = ''tz'' then parse_pieces ps (dput key (STz (PStr v)) s)
        else (case parse_resource_schedule v of
            None \<Rightarrow> None
          | Some items \<Rightarrow> parse_pieces ps (dput key (SItems items) s))
    | _ \<Rightarrow> None)"

definition with_default_tz :: "pyval \<Rightarrow> schedule \<Rightarrow> schedule" where
  "with_default_tz default_tz s = (case dget s ''tz'' of
      Some (STz v) \<Rightarrow> if py_truth v then s else dput ''tz'' (STz default_tz) s
    | _ \<Rightarrow> dput ''tz'' (STz default_tz) s)"

definition parse_fresh :: "pyval \<Rightarrow> string \<Rightarrow> schedule option" where
  "parse_fresh default_tz tag_value =
     (if \<not> keys_are_valid tag_value then None
      else map_option (with_default_tz default_tz) (parse_pieces (split_char CHR '';'' tag_value) []))"

text \<open>With the cache of the parser: only schedules are kept, not failures.\<close>

type_synonym sched_cache = "(string, schedule) odict"

definition sched_parse :: "pyval \<Rightarrow> sched_cache \<Rightarrow> string \<Rightarrow> schedule option \<times> sched_cache" where
  "sched_parse default_tz cache tag_value = (case dget cache tag_value of
      Some s \<Rightarrow> (Some s, cache)
    | None \<Rightarrow>
        (case parse_fresh default_tz tag_value of
           None \<Rightarrow> (None, cache)
         | Some s \<Rightarrow> (Some s, dput tag_value s cache)))"

section \<open>The filters\<close>

text \<open>
  What is outside the program: the time zone data of \<open>dateutil\<close> (\<open>gettz\<close> and the zone
  names), the clock in a time zone (weekday, hour, date), the values a \<open>skip-days-from\<close>
  block fetches.
\<close>

record 'tz tenv =
  te_gettz :: "string \<Rightarrow> 'tz option"
  te_zones :: "string list"
  te_now :: "'tz \<Rightarrow> nat \<times> nat \<times> string"
  te_values :: "pyval \<Rightarrow> pyval res"

datatype time_kind = OffHour | OnHour

fun time_type :: "time_kind \<Rightarrow> string" where
  "time_type OffHour = ''off''"
| "time_type OnHour = ''on''"

fun DEFAULT_HR :: "time_kind \<Rightarrow> int" where
  "DEFAULT_HR OffHour = 19"
| "DEFAULT_HR OnHour = 7"

fun weekend_start :: "time_kind \<Rightarrow> nat" where
  "weekend_start OffHour = 4"
| "weekend_start OnHour = 0"

definition TZ_ALIASES :: "(string, string) odict" where
  "TZ_ALIASES =
    [(''pdt'', ''America/Los_Angeles''), (''pt'', ''America/Los_Angeles''), (''pst'', ''America/Los_Angeles''),
     (''ast'', ''America/Phoenix''), (''at'', ''America/Phoenix''), (''est'', ''America/New_York''),
     (''edt'', ''America/New_York''), (''et'', ''America/New_York''), (''cst'', ''America/Chicago''),
     (''cdt'', ''America/Chicago''), (''ct'', ''America/Chicago''), (''mst'', ''America/Denver''),
     (''mdt'', ''America/Denver''), (''mt'', ''America/Denver''), (''gmt'', ''Etc/GMT''), (''gt'', ''Etc/GMT''),
     (''bst'', ''Europe/London''), (''ist'', ''Europe/Dublin''), (''cet'', ''Europe/Berlin''),
     (''it'', ''Asia/Kolkata''), (''jst'', ''Asia/Tokyo''), (''kst'', ''Asia/Seoul''), (''sgt'', ''Asia/Singapore''),
     (''aet'', ''Australia/Sydney''), (''brt'', ''America/Sao_Paulo''), (''nzst'', ''Pacific/Auckland''),
     (''utc'', ''Etc/UTC'')]"

text \<open>The aliases, with the zones whose names are not in title case under their lower case.\<close>

definition tz_aliases :: "'tz tenv \<Rightarrow> (string, string) odict" where
  "tz_aliases T = fold (\<lambda>z. dput (lower z) z)
     (filter (\<lambda>z. title z \<noteq> z \<and> \<not> dhas TZ_ALIASES (lower z)) (te_zones T)) TZ_ALIASES"

definition get_tz :: "'tz tenv \<Rightarrow> pyval \<Rightarrow> 'tz option res" where
  "get_tz T tz = (case tz of
      PStr s \<Rightarrow> Inr (te_gettz T (case dget (tz_aliases T) s of Some z \<Rightarrow> z | None \<Rightarrow> title s))
    | _ \<Rightarrow> if hashable tz then Inl AttributeError else Inl TypeError)"

text \<open>The attributes \<open>__init__\<close> sets from the policy's data.\<close>

record time_conf =
  tc_data :: pydict
  tc_default_tz :: pyval
  tc_weekends :: bool
  tc_weekends_only :: bool
  tc_opt_out :: bool
  tc_tag_key :: string
  tc_fallback_schedule :: pyval
  tc_hour :: pyval

definition time_init :: "time_kind \<Rightarrow> pydict \<Rightarrow> time_conf res" where
  "time_init k data =
     (case dget_or data ''tag'' (PStr ''maid_offhours'') of
        PStr tag \<Rightarrow> Inr
          \<lparr>tc_data = data,
           tc_default_tz = dget_or data ''default_tz'' (PStr ''et''),
           tc_weekends = py_truth (dget_or data ''weekends'' (PBool True)),
           tc_weekends_only = py_truth (dget_or data ''weekends-only'' (PBool False)),
           tc_opt_out = py_truth (dget_or data ''opt-out'' (PBool False)),
           tc_tag_key = lower tag,
           tc_fallback_schedule =
             (let v = dget_or data ''fallback-schedule'' PNone
              in if py_truth v then v else dget_or data ''fallback_schedule'' PNone),
           tc_hour = dget_or data (time_type k @ ''hour'') (PInt (DEFAULT_HR k))\<rparr>
      | _ \<Rightarrow> Inl AttributeError)"

definition get_default_schedule :: "time_kind \<Rightarrow> time_conf \<Rightarrow> schedule" where
  "get_default_schedule k c =
     [(''tz'', STz (tc_default_tz c)),
      (time_type k, SItems [\<lparr>si_days = (if tc_weekends_only c then [weekend_start k]
            else if tc_weekends c then range_nat 0 5 else range_nat 0 7),
          si_hour = tc_hour c\<rparr>])]"

definition time_validate :: "'tz tenv \<Rightarrow> time_kind \<Rightarrow> time_conf \<Rightarrow> unit res" where
  "time_validate T k c =
     rbind (get_tz T (tc_default_tz c)) (\<lambda>tz.
       if tz = None then Inl PolicyValidationError
       else if \<not> mem_eq (tc_hour c) (map PInt [0..23]) then Inl PolicyValidationError
       else if dhas (tc_data c) ''skip-days'' \<and> dhas (tc_data c) ''skip-days-from'' then Inl PolicyValidationError
       else Inr ())"

text \<open>What the filter changes while it runs.\<close>

record tstate =
  ts_cache :: sched_cache
  ts_opted_out :: "pydict list"
  ts_parse_errors :: "(pyval \<times> string) list"
  ts_enabled_count :: nat

definition tag_escapes :: "(string \<times> string) list" where
  "tag_escapes = [(''u28'', ''(''), (''u29'', '')''), (''u5b'', ''[''), (''u5d'', '']''), (''u2c'', '',''),
     (''u3b'', '';''), (''u3d'', ''=''), (''u2f'', ''/''), (''u2d'', ''-'')]"

definition unescape_tag_restrictions :: "string \<Rightarrow> string" where
  "unescape_tag_restrictions v = fold (\<lambda>(esc, c). replace_str esc c) tag_escapes v"

fun find_tag :: "string \<Rightarrow> pyval list \<Rightarrow> pyval option res" where
  "find_tag key [] = Inr None"
| "find_tag key (t # ts) = (case t of
      PDict d \<Rightarrow>
        rbind (dindex d ''Key'') (\<lambda>k. case k of
            PStr s \<Rightarrow> if lower s = key then rbind (dindex d ''Value'') (\<lambda>v. Inr (Some v)) else find_tag key ts
          | _ \<Rightarrow> Inl AttributeError)
    | _ \<Rightarrow> Inl TypeError)"

definition label_value :: "pydict \<Rightarrow> string \<Rightarrow> pyval \<Rightarrow> pyval res" where
  "label_value i key found = (case dget i ''labels'' of
      None \<Rightarrow> Inr found
    | Some (PDict labels) \<Rightarrow> (let v = dget_or labels key PNone in Inr (if py_truth v then v else found))
    | Some _ \<Rightarrow> Inl AttributeError)"

text \<open>\<open>get_tag_value\<close>; None is the code's \<open>False\<close>.\<close>

definition sched_tag_value :: "time_conf \<Rightarrow> pydict \<Rightarrow> string option res" where
  "sched_tag_value c i =
     rbind (py_iter (dget_or i ''Tags'' (PTuple []))) (\<lambda>ts.
     rbind (find_tag (tc_tag_key c) ts) (\<lambda>t.
     let found = (case t of None \<Rightarrow> tc_fallback_schedule c | Some v \<Rightarrow> v)
     in rbind (if py_eq found (tc_fallback_schedule c) then label_value i (tc_tag_key c) found else Inr found) (\<lambda>v.
        if mem_eq v [PBool False, PNone] then Inr None
        else case v of
            PStr s \<Rightarrow> Inr (Some (strip_chars [CHR 0x22] (strip_chars [CHR 0x27] (unescape_tag_restrictions (lower s)))))
          | _ \<Rightarrow> Inl AttributeError)))"

text \<open>\<open>match\<close>, on the weekday and the hour it is.\<close>

definition sched_match :: "string \<Rightarrow> nat \<Rightarrow> nat \<Rightarrow> schedule \<Rightarrow> bool" where
  "sched_match ttype weekday hour s = (case dget s ttype of
      Some (SItems items) \<Rightarrow> list_ex (\<lambda>it. weekday \<in> set (si_days it) \<and> py_eq (PInt (int hour)) (si_hour it)) items
    | _ \<Rightarrow> False)"

definition skip_days :: "'tz tenv \<Rightarrow> time_conf \<Rightarrow> pyval res" where
  "skip_days T c = (case dget (tc_data c) ''skip-days-from'' of
      Some v \<Rightarrow> te_values T v
    | None \<Rightarrow> Inr (dget_or (tc_data c) ''skip-days'' (PList [])))"

text \<open>The schedule of a tag value: its own, or the default one in its time zone.\<close>

definition choose_schedule ::
  "time_kind \<Rightarrow> time_conf \<Rightarrow> sched_cache \<Rightarrow> string \<Rightarrow> schedule option \<times> sched_cache" where
  "choose_schedule k c cache v =
     (if has_resource_schedule v (time_type k) then sched_parse (tc_default_tz c) cache v
      else if keys_are_valid v
      then (case dget (raw_data v) ''tz'' of
          Some tz \<Rightarrow> (Some (dput ''tz'' (STz (PStr tz)) (get_default_schedule k c)), cache)
        | None \<Rightarrow> (Some (get_default_schedule k c), cache))
      else (None, cache))"

definition sched_tz :: "schedule \<Rightarrow> pyval" where
  "sched_tz s = (case dget s ''tz'' of Some (STz v) \<Rightarrow> v | _ \<Rightarrow> PNone)"

definition on_schedule :: "'tz tenv \<Rightarrow> time_kind \<Rightarrow> time_conf \<Rightarrow> 'tz \<Rightarrow> schedule \<Rightarrow> bool res" where
  "on_schedule T k c tz s =
     (let (weekday, hour, date) = te_now T tz
      in rbind (skip_days T c) (\<lambda>skip.
         rbind (py_in (PStr date) skip) (\<lambda>b.
           Inr (\<not> b \<and> sched_match (time_type k) weekday hour s))))"

definition normalize_value :: "string \<Rightarrow> string" where
  "normalize_value v = join '';'' (filter (\<lambda>p. p \<noteq> []) (split_char CHR '';'' v))"

definition process_resource_schedule ::
  "'tz tenv \<Rightarrow> time_kind \<Rightarrow> time_conf \<Rightarrow> tstate \<Rightarrow> pyval \<Rightarrow> string \<Rightarrow> bool res \<times> tstate" where
  "process_resource_schedule T k c st rid value =
     (let v = normalize_value value;
          (s, cache) = choose_schedule k c (ts_cache st) v;
          st1 = st\<lparr>ts_cache := cache\<rparr>;
          failed = st1\<lparr>ts_parse_errors := ts_parse_errors st1 @ [(rid, v)]\<rparr>
      in case s of
           None \<Rightarrow> (Inr False, failed)
         | Some schedule \<Rightarrow>
             (case get_tz T (sched_tz schedule) of
                Inl e \<Rightarrow> (Inl e, st1)
              | Inr None \<Rightarrow> (Inr False, failed)
              | Inr (Some tz) \<Rightarrow> (on_schedule T k c tz schedule, st1)))"

text \<open>
  \<open>__call__\<close>: an exception of the schedule is logged with the resource's id and means no
  match; without an id the logging itself fails.
\<close>

definition time_call ::
  "'tz tenv \<Rightarrow> time_kind \<Rightarrow> time_conf \<Rightarrow> string \<Rightarrow> tstate \<Rightarrow> pydict \<Rightarrow> (bool \<times> tstate) res" where
  "time_call T k c id_key st i =
     rbind (sched_tag_value c i) (\<lambda>found.
       if found = None \<and> \<not> tc_opt_out c then Inr (False, st)
       else
         let value = (case found of None \<Rightarrow> [] | Some v \<Rightarrow> v)
         in if value = ''off'' then Inr (False, st\<lparr>ts_opted_out := ts_opted_out st @ [i]\<rparr>)
            else
              let st1 = st\<lparr>ts_enabled_count := ts_enabled_count st + 1\<rparr>
              in rbind (dindex i id_key) (\<lambda>rid.
                   let (r, st2) = process_resource_schedule T k c st1 rid value
                   in Inr (case r of Inl e \<Rightarrow> False | Inr b \<Rightarrow> b, st2)))"

fun time_filter ::
  "'tz tenv \<Rightarrow> time_kind \<Rightarrow> time_conf \<Rightarrow> string \<Rightarrow> tstate \<Rightarrow> pydict list \<Rightarrow> (pydict list \<times> tstate) res" where
  "time_filter T k c id_key st [] = Inr ([], st)"
| "time_filter T k c id_key st (i # ix) =
     rbind (time_call T k c id_key st i) (\<lambda>(b, st1).
     rbind (time_filter T k c id_key st1 ix) (\<lambda>(rs, st2). Inr (if b then i # rs else rs, st2)))"

text \<open>
  \<open>process\<close>: with a log directory the parse errors and the opted-out resources are written
  there and forgotten; the third and fourth results are what is written.
\<close>

definition time_process ::
  "'tz tenv \<Rightarrow> time_kind \<Rightarrow> time_conf \<Rightarrow> string \<Rightarrow> bool \<Rightarrow> tstate \<Rightarrow> pydict list \<Rightarrow>
   (pydict list \<times> tstate \<times> (pyval \<times> string) list \<times> pydict list) res" where
  "time_process T k c id_key log_dir st resources =
     rbind (time_filter T k c id_key st resources) (\<lambda>(rs, st1).
       Inr (if log_dir
            then (rs, st1\<lparr>ts_parse_errors := [], ts_opted_out := []\<rparr>, ts_parse_errors st1, ts_opted_out st1)
            else (rs, st1, [], [])))"

end
