(* ===== verification/Offhours_Facts.thy ===== *)
theory Offhours_Facts
  imports Offhours
begin

text \<open>
  Properties of off hours: schedules written out parse to what they say, a schedule in that
  form decides by the day and the hour, the cache of the parser changes no result, and what
  a space between two components does.
\<close>

section \<open>Schedules written out\<close>

definition day_char :: "nat \<Rightarrow> char" where
  "day_char d = ''mtwhfsu'' ! d"

text \<open>An entry as it is written: from one day to another, at an hour.\<close>

type_synonym entry = "nat \<times> nat \<times> nat"

fun entry_ok :: "entry \<Rightarrow> bool" where
  "entry_ok (a, b, h) \<longleftrightarrow> a < 7 \<and> b < 7 \<and> h < 24"

fun print_body :: "entry \<Rightarrow> string" where
  "print_body (a, b, h) = [day_char a, CHR ''-'', day_char b] @ '','' @ str_of_nat h @ '')''"

definition print_entry :: "entry \<Rightarrow> string" where
  "print_entry e = ''('' @ print_body e"

definition print_entries :: "entry list \<Rightarrow> string" where
  "print_entries es = ''['' @ join '','' (map print_entry es) @ '']''"

text \<open>What it says: the days of the span, which may go over the end of the week.\<close>

fun in_span :: "nat \<Rightarrow> nat \<Rightarrow> nat \<Rightarrow> bool" where
  "in_span a b d \<longleftrightarrow> (if a \<le> b then a \<le> d \<and> d \<le> b else a \<le> d \<and> d < 7 \<or> d \<le> b)"

definition day_span :: "nat \<Rightarrow> nat \<Rightarrow> nat list" where
  "day_span a b = (if b < a then [a ..< 7] @ [0 ..< Suc b] else [a ..< Suc b])"

fun entry_item :: "entry \<Rightarrow> sched_item" where
  "entry_item (a, b, h) = \<lparr>si_days = day_span a b, si_hour = PInt (int h)\<rparr>"

lemma day_span_set: "set (day_span a b) = {d. in_span a b d}"
  by (auto simp: day_span_def)

lemma day_span_not_Nil: "a < 7 \<Longrightarrow> day_span a b \<noteq> []"
  by (simp add: day_span_def)

section \<open>Parsing what was written\<close>

lemma day_char_facts:
  "list_all (\<lambda>a. dget DAY_MAP [day_char a] = Some a \<and>
     list_all (\<lambda>c. day_char a \<noteq> c) ''-,()[] ;='') [0 ..< 7]"
  by (simp add: day_char_def DAY_MAP_def numeral_eq_Suc upt_rec nth_Cons')

lemma day_charD:
  assumes "a < 7"
  shows "dget DAY_MAP [day_char a] = Some a" "list_all (\<lambda>c. day_char a \<noteq> c) ''-,()[] ;=''"
proof -
  have "a \<in> set [0 ..< 7]" using assms by simp
  with day_char_facts show "dget DAY_MAP [day_char a] = Some a" "list_all (\<lambda>c. day_char a \<noteq> c) ''-,()[] ;=''"
    unfolding list_all_iff by blast+
qed

lemma digits_not:
  "c \<in> set ''-,()[] ;='' \<Longrightarrow> c \<notin> set (str_of_nat n)"
proof -
  assume c: "c \<in> set ''-,()[] ;=''"
  have "list_all (\<lambda>c. \<not> is_digit c) ''-,()[] ;=''" by (simp add: is_digit_code)
  then have "\<not> is_digit c" using c unfolding list_all_iff by blast
  then show ?thesis using str_of_nat_digits[of n] unfolding list_all_iff by blast
qed

lemma day_range_parsed:
  assumes "a < 7" "b < 7"
  shows "expand_day_range [day_char a, CHR ''-'', day_char b] = Some (day_span a b)"
proof -
  have "dget DAY_MAP [day_char a, CHR ''-'', day_char b] = None"
    by (simp add: DAY_MAP_def)
  moreover have "split_char CHR ''-'' [day_char a, CHR ''-'', day_char b] = [[day_char a], [day_char b]]"
    using day_charD(2)[OF assms(1)] day_charD(2)[OF assms(2)] by simp
  ultimately show ?thesis
    using day_charD(1)[OF assms(1)] day_charD(1)[OF assms(2)]
    by (auto simp: expand_day_range_def List.map_filter_def day_span_def)
qed

lemma remove_chars_simps [simp]:
  "remove_chars cs [] = []"
  "remove_chars cs (c # s) = (if c \<in> set cs then remove_chars cs s else c # remove_chars cs s)"
  "remove_chars cs (s @ t) = remove_chars cs s @ remove_chars cs t"
  by (simp_all add: remove_chars_def)

lemma remove_chars_keep: "(\<And>c. c \<in> set cs \<Longrightarrow> c \<notin> set s) \<Longrightarrow> remove_chars cs s = s"
  by (auto simp: remove_chars_def filter_id_conv)

lemma body_stripped:
  assumes "entry_ok e"
  shows "parens_removed (print_body e) = (case e of (a, b, h) \<Rightarrow>
    [day_char a, CHR ''-'', day_char b] @ '','' @ str_of_nat h)"
proof (cases e)
  case (fields a b h)
  have "remove_chars ''()'' (str_of_nat h) = str_of_nat h"
    by (rule remove_chars_keep) (use digits_not in auto)
  with assms fields show ?thesis
    using day_charD(2)[of a] day_charD(2)[of b] by (simp add: parens_removed_def)
qed

lemma body_parsed:
  assumes "entry_ok e"
  shows "parse_item (print_body e) = Some (entry_item e)"
proof (cases e)
  case (fields a b h)
  then have ok: "a < 7" "b < 7" "h < 24" using assms by simp_all
  have "split_char CHR '','' ([day_char a, CHR ''-'', day_char b] @ CHR '','' # str_of_nat h) =
      [[day_char a, CHR ''-'', day_char b], str_of_nat h]"
    using day_charD(2)[OF ok(1)] day_charD(2)[OF ok(2)] split_char_no_sep[OF digits_not, of "CHR '',''" h]
    by simp
  then show ?thesis
    using ok body_stripped[OF assms] day_range_parsed[OF ok(1,2)] day_span_not_Nil[OF ok(1)]
    by (simp add: parse_item_def fields)
qed

lemma entry_parsed: "parse_item (print_entry e) = parse_item (print_body e)"
  by (simp add: parse_item_def print_entry_def parens_removed_def)

text \<open>Cutting at \<open>,(\<close>: a piece without it is taken whole.\<close>

fun glue :: "string \<Rightarrow> string list \<Rightarrow> string list" where
  "glue p [] = [p]"
| "glue p (q # qs) = (p @ q) # qs"

lemma glue_glue: "glue p (glue q xs) = glue (p @ q) xs"
  by (cases xs) simp_all

lemma split_skip1:
  "\<not> starts_with (c # s) '',('' \<Longrightarrow> split_str '',('' (c # s) = glue [c] (split_str '',('' s)"
  by (subst split_str.simps) (simp split: list.split)

lemma split_skip: "CHR '','' \<notin> set p \<Longrightarrow> split_str '',('' (p @ s) = glue p (split_str '',('' s)"
proof (induction p)
  case Nil
  have "split_str '',('' s \<noteq> []" by (subst split_str.simps) (auto split: list.split)
  then show ?case by (cases "split_str '',('' s") simp_all
next
  case (Cons c p)
  then have "split_str '',('' (c # p @ s) = glue [c] (split_str '',('' (p @ s))"
    by (intro split_skip1) auto
  with Cons show ?case by (simp add: glue_glue)
qed

lemma split_body:
  assumes "entry_ok e"
  shows "split_str '',('' (print_body e @ s) = glue (print_body e) (split_str '',('' s)"
proof (cases e)
  case (fields a b h)
  then have ok: "a < 7" "b < 7" using assms by simp_all
  have d: "CHR '','' \<notin> set (str_of_nat h @ '')'')" using digits_not[of "CHR '',''" h] by simp
  obtain c cs where c: "str_of_nat h = c # cs" using str_of_nat_not_Nil[of h] by (cases "str_of_nat h") auto
  then have "c \<noteq> CHR ''(''" using digits_not[of "CHR ''(''" h] by auto
  then have "\<not> starts_with (CHR '','' # str_of_nat h @ '')'' @ s) '',(''"
    by (simp add: c)
  then have "split_str '',('' (CHR '','' # str_of_nat h @ '')'' @ s) =
      glue '','' (split_str '',('' ((str_of_nat h @ '')'') @ s))"
    using split_skip1 by simp
  also have "\<dots> = glue ('','' @ str_of_nat h @ '')'') (split_str '',('' s)"
    using split_skip[OF d, of s] by (simp add: glue_glue)
  finally have tail: "split_str '',('' (CHR '','' # str_of_nat h @ '')'' @ s) =
      glue ('','' @ str_of_nat h @ '')'') (split_str '',('' s)" .
  have "CHR '','' \<notin> set [day_char a, CHR ''-'', day_char b]"
    using day_charD(2)[OF ok(1)] day_charD(2)[OF ok(2)] by auto
  from split_skip[OF this, of "CHR '','' # str_of_nat h @ '')'' @ s"]
  show ?thesis unfolding fields print_body.simps append_assoc append_Cons append_Nil
    using tail by (simp add: glue_glue)
qed

lemma split_cut: "split_str '',('' ('',('' @ s) = [] # split_str '',('' s"
  by (subst split_str.simps) simp

lemma split_Nil: "split_str '',('' [] = [[]]"
  by (subst split_str.simps) simp

lemma split_bodies:
  assumes "list_all entry_ok (e # es)"
  shows "split_str '',('' (print_body e @ concat (map (\<lambda>e. '','' @ print_entry e) es)) =
    print_body e # map print_body es"
  using assms
proof (induction es arbitrary: e)
  case Nil
  then show ?case using split_body[of e "[]"] by (simp add: split_Nil)
next
  case (Cons f es)
  then show ?case
    using split_body[of e "concat (map (\<lambda>e. '','' @ print_entry e) (f # es))"]
      split_cut[of "print_body f @ concat (map (\<lambda>e. '','' @ print_entry e) es)"]
    by (simp add: print_entry_def)
qed

lemma join_entries: "join '','' (map print_entry (e # es)) = print_entry e @ concat (map (\<lambda>e. '','' @ print_entry e) es)"
  by (induction es arbitrary: e) simp_all

lemma split_entries:
  assumes "list_all entry_ok (e # es)"
  shows "split_str '',('' (join '','' (map print_entry (e # es))) = print_entry e # map print_body es"
proof -
  let ?r = "print_body e @ concat (map (\<lambda>e. '','' @ print_entry e) es)"
  have "split_str '',('' (''('' @ ?r) = glue ''('' (split_str '',('' ?r)"
    by (rule split_skip) simp
  with split_bodies[OF assms] show ?thesis
    unfolding join_entries by (simp add: print_entry_def)
qed

lemma parse_items_map:
  "list_all (\<lambda>e. parse_item (f e) = Some (g e)) es \<Longrightarrow> parse_items (map f es) = Some (map g es)"
  by (induction es) simp_all

lemma entries_chars:
  assumes "list_all entry_ok es"
  shows "list_all (\<lambda>c. c \<notin> set '' ;=[]'') (join '','' (map print_entry es))"
proof -
  have one: "list_all (\<lambda>c. c \<notin> set '' ;=[]'') (print_entry e)" if "entry_ok e" for e
  proof (cases e)
    case (fields a b h)
    have "list_all (\<lambda>c. c \<notin> set '' ;=[]'') (str_of_nat h)"
      unfolding list_all_iff using digits_not by auto
    with fields that show ?thesis
      using day_charD(2)[of a] day_charD(2)[of b] by (simp add: print_entry_def)
  qed
  show ?thesis
  proof (cases es)
    case (Cons e es')
    have "list_all (\<lambda>c. c \<notin> set '' ;=[]'') (concat (map (\<lambda>e. '','' @ print_entry e) es'))"
      if "list_all entry_ok es'" for es'
      using that one by (induction es') simp_all
    with assms Cons one show ?thesis unfolding Cons join_entries by simp
  qed simp
qed

lemma entries_parsed:
  assumes "list_all entry_ok es" "es \<noteq> []"
  shows "parse_resource_schedule (print_entries es) = Some (map entry_item es)"
proof -
  obtain e es' where es: "es = e # es'" using assms(2) by (cases es) auto
  have "remove_chars ''[]'' (join '','' (map print_entry es)) = join '','' (map print_entry es)"
    by (rule remove_chars_keep) (use entries_chars[OF assms(1)] in \<open>auto simp: list_all_iff\<close>)
  then have b: "brackets_removed (print_entries es) = join '','' (map print_entry es)"
    by (simp add: brackets_removed_def print_entries_def)
  have "parse_items (map print_body es') = Some (map entry_item es')"
    by (rule parse_items_map) (use assms(1) es body_parsed in \<open>simp add: list_all_iff\<close>)
  moreover have "parse_item (print_entry e) = Some (entry_item e)"
    using body_parsed[of e] assms(1) by (simp add: es entry_parsed)
  moreover have "parse_resource_schedule (print_entries es) = parse_items (print_entry e # map print_body es')"
    unfolding parse_resource_schedule_def b using split_entries[of e es'] assms(1) unfolding es by simp
  ultimately show ?thesis by (simp add: es)
qed

section \<open>Whole schedules\<close>

definition plain :: "string \<Rightarrow> bool" where
  "plain s \<longleftrightarrow> list_all (\<lambda>c. c \<notin> set '' ;='') s"

text \<open>A tag with an off part, an on part and a time zone.\<close>

definition print_tag :: "entry list \<Rightarrow> entry list \<Rightarrow> string \<Rightarrow> string" where
  "print_tag offs ons tz = ''off='' @ print_entries offs @ '';on='' @ print_entries ons @ '';tz='' @ tz"

lemma plainD: "plain s \<Longrightarrow> c \<in> set '' ;='' \<Longrightarrow> c \<notin> set s"
  by (auto simp: plain_def list_all_iff)

lemma plain_entries: "list_all entry_ok es \<Longrightarrow> plain (print_entries es)"
  using entries_chars[of es] by (auto simp: plain_def print_entries_def list_all_iff)

lemma split_three:
  assumes "sep \<notin> set p" "sep \<notin> set q" "sep \<notin> set r"
  shows "split_char sep (p @ sep # q @ sep # r) = [p, q, r]"
  using assms by (simp add: split_char_append split_char_no_sep)

lemma tag_pieces:
  assumes "list_all entry_ok offs" "list_all entry_ok ons" "plain tz"
  shows "split_char CHR '';'' (print_tag offs ons tz) =
    [''off='' @ print_entries offs, ''on='' @ print_entries ons, ''tz='' @ tz]"
proof -
  have "CHR '';'' \<notin> set (''off='' @ print_entries offs)" "CHR '';'' \<notin> set (''on='' @ print_entries ons)"
    "CHR '';'' \<notin> set (''tz='' @ tz)"
    using plainD[OF plain_entries[OF assms(1)], of "CHR '';''"] plainD[OF plain_entries[OF assms(2)], of "CHR '';''"]
      plainD[OF assms(3), of "CHR '';''"] by simp_all
  from split_three[OF this] show ?thesis by (simp add: print_tag_def)
qed

lemma key_value:
  assumes "CHR ''='' \<notin> set k" "plain v"
  shows "split_char CHR ''='' (k @ CHR ''='' # v) = [k, v]"
  using assms(1) plainD[OF assms(2), of "CHR ''=''"] by (simp add: split_char_append split_char_no_sep)

lemma tag_raw_data:
  assumes "list_all entry_ok offs" "list_all entry_ok ons" "plain tz"
  shows "raw_data (print_tag offs ons tz) =
    [(''off'', print_entries offs), (''on'', print_entries ons), (''tz'', tz)]"
proof -
  have "CHR '' '' \<notin> set (print_tag offs ons tz)"
    using plainD[OF plain_entries[OF assms(1)], of "CHR '' ''"] plainD[OF plain_entries[OF assms(2)], of "CHR '' ''"]
      plainD[OF assms(3), of "CHR '' ''"] by (simp add: print_tag_def)
  then show ?thesis
    using key_value[OF _ plain_entries[OF assms(1)], of "''off''"] key_value[OF _ plain_entries[OF assms(2)], of "''on''"]
      key_value[OF _ assms(3), of "''tz''"]
    by (simp add: raw_data_def split_char_no_sep tag_pieces[OF assms])
qed

section \<open>The properties\<close>

lemma tag_keys_valid:
  assumes "list_all entry_ok offs" "list_all entry_ok ons" "plain tz"
  shows "keys_are_valid (print_tag offs ons tz)"
  unfolding keys_are_valid_def tag_raw_data[OF assms] by simp

definition tag_schedule :: "entry list \<Rightarrow> entry list \<Rightarrow> string \<Rightarrow> schedule" where
  "tag_schedule offs ons tz =
    [(''off'', SItems (map entry_item offs)), (''on'', SItems (map entry_item ons)), (''tz'', STz (PStr tz))]"

lemma tag_parsed:
  assumes "list_all entry_ok offs" "list_all entry_ok ons" "plain tz" "offs \<noteq> []" "ons \<noteq> []" "tz \<noteq> []"
  shows "parse_fresh default_tz (print_tag offs ons tz) = Some (tag_schedule offs ons tz)"
proof -
  have "split_char CHR ''='' (''off='' @ print_entries offs) = [''off'', print_entries offs]"
    "split_char CHR ''='' (''on='' @ print_entries ons) = [''on'', print_entries ons]"
    "split_char CHR ''='' (''tz='' @ tz) = [''tz'', tz]"
    using key_value[OF _ plain_entries[OF assms(1)], of "''off''"] key_value[OF _ plain_entries[OF assms(2)], of "''on''"]
      key_value[OF _ assms(3), of "''tz''"] by simp_all
  then have "parse_pieces (split_char CHR '';'' (print_tag offs ons tz)) [] = Some (tag_schedule offs ons tz)"
    unfolding tag_pieces[OF assms(1-3)] parse_pieces.simps
    using entries_parsed[OF assms(1,4)] entries_parsed[OF assms(2,5)] by (simp add: tag_schedule_def)
  then show ?thesis
    using assms(6) tag_keys_valid[OF assms(1-3)]
    by (simp add: parse_fresh_def with_default_tz_def tag_schedule_def)
qed



text \<open>The parser's cache holds what parsing gives.\<close>

definition cache_ok :: "pyval \<Rightarrow> sched_cache \<Rightarrow> bool" where
  "cache_ok default_tz cache \<longleftrightarrow> (\<forall>v s. dget cache v = Some s \<longrightarrow> parse_fresh default_tz v = Some s)"

lemma cache_ok_Nil [simp]: "cache_ok default_tz []"
  by (simp add: cache_ok_def)

lemma sched_parse_fresh:
  "cache_ok default_tz cache \<Longrightarrow> fst (sched_parse default_tz cache v) = parse_fresh default_tz v"
  by (auto simp: sched_parse_def cache_ok_def split: option.split)

lemma sched_parse_ok:
  "cache_ok default_tz cache \<Longrightarrow> cache_ok default_tz (snd (sched_parse default_tz cache v))"
  by (auto simp: sched_parse_def cache_ok_def split: option.split)

lemma choose_schedule_fresh:
  "cache_ok (tc_default_tz c) cache \<Longrightarrow>
   fst (choose_schedule k c cache v) = fst (choose_schedule k c [] v) \<and>
   cache_ok (tc_default_tz c) (snd (choose_schedule k c cache v))"
  using sched_parse_fresh[of "tc_default_tz c" cache v] sched_parse_fresh[of "tc_default_tz c" "[]" v]
    sched_parse_ok[of "tc_default_tz c" cache v]
  by (auto simp: choose_schedule_def split: option.split)

text \<open>What a value says, without the state of the filter.\<close>

definition schedule_result :: "'tz tenv \<Rightarrow> time_kind \<Rightarrow> time_conf \<Rightarrow> string \<Rightarrow> bool res" where
  "schedule_result T k c value = (case fst (choose_schedule k c [] (normalize_value value)) of
      None \<Rightarrow> Inr False
    | Some s \<Rightarrow> rbind (get_tz T (sched_tz s)) (\<lambda>tz.
        case tz of None \<Rightarrow> Inr False | Some z \<Rightarrow> on_schedule T k c z s))"

lemma process_schedule_fresh:
  assumes "cache_ok (tc_default_tz c) (ts_cache st)"
  shows "fst (process_resource_schedule T k c st rid value) = schedule_result T k c value \<and>
    cache_ok (tc_default_tz c) (ts_cache (snd (process_resource_schedule T k c st rid value)))"
proof -
  let ?v = "normalize_value value"
  obtain s cache where s: "choose_schedule k c (ts_cache st) ?v = (s, cache)"
    by (cases "choose_schedule k c (ts_cache st) ?v")
  have f: "fst (choose_schedule k c [] ?v) = s" "cache_ok (tc_default_tz c) cache"
    using choose_schedule_fresh[OF assms, of k ?v] by (simp_all add: s)
  show ?thesis
  proof (cases s)
    case None
    with f show ?thesis by (simp add: process_resource_schedule_def s schedule_result_def Let_def)
  next
    case (Some schedule)
    then show ?thesis
      using f by (cases "get_tz T (sched_tz schedule)")
        (auto simp: process_resource_schedule_def s schedule_result_def Let_def split: option.split)
  qed
qed

definition resource_result ::
  "'tz tenv \<Rightarrow> time_kind \<Rightarrow> time_conf \<Rightarrow> string \<Rightarrow> pydict \<Rightarrow> bool res" where
  "resource_result T k c id_key i =
     rbind (sched_tag_value c i) (\<lambda>found.
       if found = None \<and> \<not> tc_opt_out c then Inr False
       else
         let value = (case found of None \<Rightarrow> [] | Some v \<Rightarrow> v)
         in if value = ''off'' then Inr False
            else rbind (dindex i id_key) (\<lambda>rid. Inr (schedule_result T k c value = Inr True)))"

lemma time_call_fresh:
  assumes "cache_ok (tc_default_tz c) (ts_cache st)"
  shows "rbind (time_call T k c id_key st i) (\<lambda>r. Inr (fst r)) = resource_result T k c id_key i \<and>
    (\<forall>b st'. time_call T k c id_key st i = Inr (b, st') \<longrightarrow> cache_ok (tc_default_tz c) (ts_cache st'))"
proof (cases "sched_tag_value c i")
  case (Inr found)
  let ?st = "st\<lparr>ts_enabled_count := ts_enabled_count st + 1\<rparr>"
  have ok: "cache_ok (tc_default_tz c) (ts_cache ?st)" using assms by simp
  have truth: "(case r of Inl e \<Rightarrow> False | Inr b \<Rightarrow> b) = (r = Inr True)" for r :: "bool res"
    by (cases r) auto
  define v where "v = (case found of None \<Rightarrow> [] | Some v \<Rightarrow> v)"
  consider "found = None \<and> \<not> tc_opt_out c \<or> v = ''off''" | e where "\<not> (found = None \<and> \<not> tc_opt_out c)" "v \<noteq> ''off''" "dindex i id_key = Inl e"
    | rid where "\<not> (found = None \<and> \<not> tc_opt_out c)" "v \<noteq> ''off''" "dindex i id_key = Inr rid"
    by (cases "dindex i id_key") blast+
  then show ?thesis
  proof cases
    case (3 rid)
    obtain r st2 where p: "process_resource_schedule T k c ?st rid v = (r, st2)"
      by (cases "process_resource_schedule T k c ?st rid v")
    have "time_call T k c id_key st i = Inr (r = Inr True, st2)"
      using 3(2,3) Inr p truth[of r] by (simp only: time_call_def v_def[symmetric] rbind_Inr if_not_P[OF 3(1)] Let_def if_not_P[OF 3(2)] if_False prod.case)
    moreover have "resource_result T k c id_key i = Inr (schedule_result T k c v = Inr True)"
      using 3(2,3) Inr by (simp only: resource_result_def v_def[symmetric] rbind_Inr if_not_P[OF 3(1)] Let_def if_not_P[OF 3(2)] if_False)
    ultimately show ?thesis using process_schedule_fresh[OF ok, of T k rid v] p by simp
  qed (use assms Inr in \<open>auto simp: time_call_def resource_result_def v_def[symmetric]\<close>)
qed (simp add: time_call_def resource_result_def)

lemma time_filter_fresh:
  "cache_ok (tc_default_tz c) (ts_cache st) \<Longrightarrow>
   rbind (time_filter T k c id_key st resources) (\<lambda>r. Inr (fst r)) = rfilter (resource_result T k c id_key) resources"
proof (induction resources arbitrary: st)
  case (Cons i rest)
  show ?case
  proof (cases "time_call T k c id_key st i")
    case (Inl e)
    then have "resource_result T k c id_key i = Inl e"
      using time_call_fresh[OF Cons.prems, of T k id_key i] by simp
    with Inl show ?thesis by simp
  next
    case (Inr r)
    obtain b st' where r: "r = (b, st')" by (cases r)
    have b: "resource_result T k c id_key i = Inr b" and ok: "cache_ok (tc_default_tz c) (ts_cache st')"
      using time_call_fresh[OF Cons.prems, of T k id_key i] Inr r by auto
    show ?thesis
      using Inr r b by (cases "time_filter T k c id_key st' rest") (auto simp flip: Cons.IH[OF ok] split: prod.split)
  qed
qed simp

text \<open>The filter decides every resource by its own tag: with the schedules it has cached, the
  errors and the counts it has gathered before, it selects what deciding each resource
  afresh selects, and raises what that raises.\<close>
theorem time_process_stateless:
  assumes "cache_ok (tc_default_tz c) (ts_cache st)"
  shows "rbind (time_process T k c id_key log_dir st resources) (\<lambda>r. Inr (fst r)) =
    rfilter (resource_result T k c id_key) resources"
  unfolding time_filter_fresh[OF assms, symmetric] time_process_def
  by (cases "time_filter T k c id_key st resources") auto

definition tenv0 :: "nat \<Rightarrow> nat \<Rightarrow> string tenv" where
  "tenv0 weekday hour = \<lparr>te_gettz = Some, te_zones = [], te_now = (\<lambda>z. (weekday, hour, ''2024-05-06'')),
     te_values = (\<lambda>v. Inl ExternalError)\<rparr>"

definition conf0 :: time_conf where
  "conf0 = \<lparr>tc_data = [], tc_default_tz = PStr ''et'', tc_weekends = True, tc_weekends_only = False,
     tc_opt_out = True, tc_tag_key = ''maid_offhours'', tc_fallback_schedule = PNone, tc_hour = PInt 19\<rparr>"

lemma time_process_stateless_witness:
  "rbind (time_process (tenv0 0 19) OffHour conf0 ''InstanceId'' False
      \<lparr>ts_cache = [], ts_opted_out = [], ts_parse_errors = [], ts_enabled_count = 3\<rparr>
      [[(''InstanceId'', PStr ''i-1'')]]) (\<lambda>r. Inr (fst r)) =
    rfilter (resource_result (tenv0 0 19) OffHour conf0 ''InstanceId'') [[(''InstanceId'', PStr ''i-1'')]]"
  by (rule time_process_stateless) simp

lemma get_tz_str: "(\<And>s. te_gettz T s \<noteq> None) \<Longrightarrow> \<exists>z. get_tz T (PStr s) = Inr (Some z)"
  by (auto simp: get_tz_def)

lemma normalize_tag:
  assumes "list_all entry_ok offs" "list_all entry_ok ons" "plain tz"
  shows "normalize_value (print_tag offs ons tz) = print_tag offs ons tz"
proof -
  have "filter (\<lambda>p. p \<noteq> []) (split_char CHR '';'' (print_tag offs ons tz)) = split_char CHR '';'' (print_tag offs ons tz)"
    unfolding tag_pieces[OF assms] by simp
  then show ?thesis by (simp add: normalize_value_def join_split_char)
qed

lemma items_match:
  "list_ex (\<lambda>it. d \<in> set (si_days it) \<and> num_eq (PInt (int h)) (si_hour it)) (map entry_item es) \<longleftrightarrow>
   (\<exists>(a, b, h') \<in> set es. in_span a b d \<and> h = h')"
  by (induction es) (auto simp: day_span_set num_eq_def num_of_def)

text \<open>C6: a resource tagged with such a schedule is selected exactly when, by the clock of the
  zone it names, the weekday lies in the span of one of its entries (which may go over
  the end of the week), the hour is that entry's, and the day is not one to skip.\<close>
theorem schedule_decides:
  assumes "list_all entry_ok (offs @ ons)" "offs \<noteq> []" "ons \<noteq> []" "tz \<noteq> []" "plain tz"
    and "get_tz T (PStr tz) = Inr (Some z)" "te_now T z = (weekday, hour, date)"
    and "skip_days T c = Inr (PList (map PStr skip))"
    and "cache_ok (tc_default_tz c) (ts_cache st)"
  shows "fst (process_resource_schedule T k c st rid (print_tag offs ons tz)) =
    Inr (date \<notin> set skip \<and>
      (\<exists>(a, b, h) \<in> set (case k of OffHour \<Rightarrow> offs | OnHour \<Rightarrow> ons). in_span a b weekday \<and> hour = h))"
proof -
  have ok: "list_all entry_ok offs" "list_all entry_ok ons" using assms(1) by simp_all
  have "has_resource_schedule (print_tag offs ons tz) (time_type k)"
    by (cases k) (simp_all add: has_resource_schedule_def tag_raw_data[OF ok assms(5)] dhas_dget)
  then have c: "fst (choose_schedule k c [] (print_tag offs ons tz)) = Some (tag_schedule offs ons tz)"
    using tag_parsed[OF ok assms(5,2,3,4)] sched_parse_fresh[OF cache_ok_Nil, of "tc_default_tz c"]
    by (simp add: choose_schedule_def)
  have "get_tz T (sched_tz (tag_schedule offs ons tz)) = Inr (Some z)"
    using assms(6) by (simp add: sched_tz_def tag_schedule_def)
  moreover have "sched_match (time_type k) weekday hour (tag_schedule offs ons tz) \<longleftrightarrow>
      (\<exists>(a, b, h) \<in> set (case k of OffHour \<Rightarrow> offs | OnHour \<Rightarrow> ons). in_span a b weekday \<and> hour = h)"
    by (cases k) (simp_all add: sched_match_def tag_schedule_def items_match del: in_span.simps)
  moreover have "py_in (PStr date) (PList (map PStr skip)) = Inr (date \<in> set skip)"
    by (simp add: py_in_def mem_eq_PStr)
  ultimately have "schedule_result T k c (print_tag offs ons tz) =
    Inr (date \<notin> set skip \<and>
      (\<exists>(a, b, h) \<in> set (case k of OffHour \<Rightarrow> offs | OnHour \<Rightarrow> ons). in_span a b weekday \<and> hour = h))"
    using assms(7,8) by (simp add: schedule_result_def normalize_tag[OF ok assms(5)] c on_schedule_def)
  with process_schedule_fresh[OF assms(9), of T k rid "print_tag offs ons tz"] show ?thesis by metis
qed

lemma schedule_decides_witness:
  "fst (process_resource_schedule (tenv0 6 21) OffHour conf0
      \<lparr>ts_cache = [], ts_opted_out = [], ts_parse_errors = [], ts_enabled_count = 0\<rparr> PNone
      (print_tag [(4, 0, 21)] [(0, 4, 6)] ''pt'')) = Inr True"
proof -
  have "get_tz (tenv0 6 21) (PStr ''pt'') = Inr (Some ''America/Los_Angeles'')"
    by (simp add: get_tz_def tz_aliases_def TZ_ALIASES_def tenv0_def)
  from schedule_decides[where offs = "[(4, 0, 21)]" and ons = "[(0, 4, 6)]" and skip = "[]" and k = OffHour and c = conf0
      and st = "\<lparr>ts_cache = [], ts_opted_out = [], ts_parse_errors = [], ts_enabled_count = 0\<rparr>" and rid = PNone
      and T = "tenv0 6 21" and weekday = 6 and hour = 21 and date = "''2024-05-06''", OF _ _ _ _ _ this]
  show ?thesis by (simp add: plain_def tenv0_def skip_days_def conf0_def dget_or_def)
qed

text \<open>A space after the semicolon is accepted, the value counts as having an on part, and yet
  the resource is never turned on by it: the parser files the entries under a key with
  the space in it.\<close>
theorem space_drops_part:
  "has_resource_schedule ''off=(m-f,19); on=(m-f,7)'' ''on'' \<and>
   (case parse_fresh default_tz ''off=(m-f,19); on=(m-f,7)'' of
      None \<Rightarrow> False | Some s \<Rightarrow> \<not> sched_match ''on'' weekday hour s)"
proof -
  let ?v = "''off=(m-f,19); on=(m-f,7)''"
  have "has_resource_schedule ?v ''on'' \<and> keys_are_valid ?v" by code_simp
  moreover have "parse_pieces (split_char CHR '';'' ?v) [] =
      Some [(''off'', SItems [entry_item (0, 4, 19)]), ('' on'', SItems [entry_item (0, 4, 7)])]"
    by code_simp
  ultimately show ?thesis
    by (simp add: parse_fresh_def with_default_tz_def sched_match_def)
qed

end
