(* ===== verification/Iam_Access.thy ===== *)
theory Iam_Access
  imports Utils_Parse
begin

text \<open>
  Cross-account access (\<open>c7n/filters/iamaccess.py\<close>): which statements of a resource policy
  grant access beyond the accounts, networks and organizations a policy trusts. The checker
  is a function of its configuration and the statement; the filter builds the configuration
  from its data and annotates the resource.
\<close>

section \<open>Configuration\<close>

record checker =
  ck_return_allowed :: bool
  ck_allowed_accounts :: "string list"
  ck_everyone_only :: bool
  ck_check_actions :: "string list"
  ck_whitelist_conditions :: "string list"
  ck_allowed_vpce :: "string list"
  ck_allowed_vpc :: "string list"
  ck_allowed_orgid :: "string list"
  ck_allowed_org_units :: "string list"
  ck_whitelist_patterns :: "string list"

text \<open>\<open>_account\<close>: the account of an ARN; what has too few colons is taken as it is.\<close>

definition account_of :: "string \<Rightarrow> string" where
  "account_of arn = (if count_char arn CHR '':'' < 4 then arn else split_max CHR '':'' 5 arn ! 4)"

text \<open>\<open>set(map(_account, values))\<close>: a list has a \<open>count\<close> too, and is then not hashable.\<close>

definition account_r :: "pyval \<Rightarrow> string res" where
  "account_r v = (case v of PStr s \<Rightarrow> Inr (account_of s) | PList xs \<Rightarrow> Inl TypeError | _ \<Rightarrow> Inl AttributeError)"

definition accounts_r :: "pyval \<Rightarrow> string list res" where
  "accounts_r values = rbind (py_iter values) (rmap account_r)"

text \<open>\<open>bool(set(map(_account, values)).difference(allowed))\<close>.\<close>

definition some_outside :: "pyval \<Rightarrow> string list \<Rightarrow> bool res" where
  "some_outside values allowed =
     rbind (accounts_r values) (\<lambda>accs. Inr (list_ex (\<lambda>a. a \<notin> set allowed) accs))"

section \<open>Principals, effects, actions\<close>

definition handle_action :: "checker \<Rightarrow> pydict \<Rightarrow> bool res" where
  "handle_action k s =
     (if ck_check_actions k = [] then Inr True
      else
        let actions = dget_or s ''Action'' PNone
        in rbind (if is_str actions then Inr [actions] else py_iter actions) (rany (\<lambda>a. case a of
             PStr p \<Rightarrow> Inr (list_ex (\<lambda>n. fnmatch n p) (ck_check_actions k))
           | _ \<Rightarrow> Inl TypeError)))"

definition handle_effect :: "pydict \<Rightarrow> bool res" where
  "handle_effect s = rbind (dindex s ''Effect'') (\<lambda>e. Inr (py_eq e (PStr ''Allow'')))"

text \<open>The principals of one type, as they are added to the set.\<close>

definition principal_ids :: "pyval \<Rightarrow> pyval list res" where
  "principal_ids p = (if is_str p then Inr [p]
     else rbind (py_iter p) (\<lambda>ps. if list_all hashable ps then Inr ps else Inl TypeError))"

definition pid_ok :: "checker \<Rightarrow> pyval \<Rightarrow> bool res" where
  "pid_ok k pid =
     (if py_eq pid (PStr ''*'') then Inr False
      else if ck_everyone_only k then Inr True
      else case pid of
          PStr p \<Rightarrow> Inr (starts_with p ''arn:aws:iam::cloudfront:user''
             \<or> list_ex (\<lambda>pattern. fnmatch p pattern) (ck_whitelist_patterns k)
             \<or> account_of p \<in> set (ck_allowed_accounts k))
        | _ \<Rightarrow> Inl AttributeError)"

definition handle_principal :: "checker \<Rightarrow> pydict \<Rightarrow> bool res" where
  "handle_principal k s =
     (if dhas s ''NotPrincipal'' then Inr True
      else
        let principals = dget_or s ''Principal'' PNone
        in if \<not> py_truth principals then Inr True
           else
             let d = (case principals of PDict d \<Rightarrow> d | _ \<Rightarrow> [(''AWS'', principals)])
             in rbind (rmap (\<lambda>(t, p). principal_ids p) (filter (\<lambda>(t, p). t \<noteq> ''Service'') d)) (\<lambda>pss.
                if concat pss = [] then Inr False
                else rbind (rmap (pid_ok k) (concat pss)) (\<lambda>oks. Inr (\<not> list_all id oks))))"

section \<open>Conditions\<close>

record cond =
  c_op :: string
  c_key :: string
  c_values :: pyval

definition CONDITION_OPS :: "string list" where
  "CONDITION_OPS = [''StringEquals'', ''StringEqualsIgnoreCase'', ''StringLike'', ''ArnEquals'', ''ArnLike'',
     ''IpAddress'', ''NotIpAddress'']"

definition known_op :: "string \<Rightarrow> bool" where
  "known_op op \<longleftrightarrow> op \<in> set CONDITION_OPS \<or> list_ex (starts_with op) [''ForAllValues'', ''ForAnyValue'']"

definition normalize_op :: "string \<times> pyval \<Rightarrow> cond list res" where
  "normalize_op ov = (case ov of (op, v) \<Rightarrow>
     if \<not> known_op op then Inr []
     else (case v of
         PDict d \<Rightarrow> Inr (map (\<lambda>(key, v). \<lparr>c_op = op, c_key = lower key,
             c_values = (if is_str v then PTuple [v] else v)\<rparr>) d)
       | _ \<Rightarrow> Inl AttributeError))"

definition normalize_conditions :: "pydict \<Rightarrow> cond list res" where
  "normalize_conditions s = (case dget s ''Condition'' of
      None \<Rightarrow> Inr []
    | Some (PDict ops) \<Rightarrow> rbind (rmap normalize_op ops) (\<lambda>cs. Inr (concat cs))
    | Some _ \<Rightarrow> Inl AttributeError)"

text \<open>\<open>_org_path_allowed\<close>.\<close>

definition org_path_allowed :: "checker \<Rightarrow> string \<Rightarrow> bool" where
  "org_path_allowed k path =
     (let segs = split_char CHR ''/'' path; org = hd segs
      in org \<in> set (ck_allowed_orgid k) \<or>
         list_ex (\<lambda>w. let ws = split_char CHR ''/'' (strip_chars ''/'' w)
           in hd ws = org \<and> last ws \<in> set (tl segs)) (ck_allowed_org_units k))"

text \<open>
  The handler of a key, True for a violation; None when the class has no such method. A key
  may also name a method that is no condition handler: \<open>getattr\<close> finds it, and calling it
  with two arguments fails (\<open>handle_condition\<close> calls itself for ever).
\<close>

definition handler_name :: "string \<Rightarrow> string" where
  "handler_name key = map (\<lambda>c. if c = CHR ''-'' \<or> c = CHR '':'' then CHR 0x5F else c) key"

definition run_handler :: "checker \<Rightarrow> string \<Rightarrow> pyval \<Rightarrow> bool res option" where
  "run_handler k name vs =
     (if name \<in> set [''aws_sourceowner'', ''aws_sourceaccount'', ''aws_sourcearn'', ''aws_principalarn'',
          ''aws_principalaccount'', ''s3_dataaccesspointaccount'']
        then Some (some_outside vs (ck_allowed_accounts k))
      else if name = ''aws_sourceip'' then Some (Inr False)
      else if name = ''aws_sourcevpce''
        then Some (if ck_allowed_vpce k = [] then Inr False else some_outside vs (ck_allowed_vpce k))
      else if name = ''aws_sourcevpc''
        then Some (if ck_allowed_vpc k = [] then Inr False else some_outside vs (ck_allowed_vpc k))
      else if name = ''aws_principalorgid''
        then Some (if ck_allowed_orgid k = [] then Inr True else some_outside vs (ck_allowed_orgid k))
      else if name = ''aws_principalorgpaths''
        then Some (if ck_allowed_orgid k = [] \<and> ck_allowed_org_units k = [] then Inr True
          else rbind (py_iter vs) (rany (\<lambda>v. case v of
              PStr p \<Rightarrow> Inr (\<not> org_path_allowed k p) | _ \<Rightarrow> Inl AttributeError)))
      else if name = ''aws_resourceorgid'' then Some (some_outside vs (ck_allowed_orgid k))
      else if name \<in> set [''statement'', ''action'', ''effect'', ''principal'', ''conditions'']
        then Some (Inl TypeError)
      else if name = ''condition'' then Some (Inl RuntimeError)
      else None)"

text \<open>\<open>handle_condition\<close>: whether the condition makes the statement acceptable.\<close>

definition handle_condition :: "checker \<Rightarrow> cond \<Rightarrow> bool option res" where
  "handle_condition k c =
     (if c_op c = [] then Inr (Some False)
      else if c_key c \<in> set (ck_whitelist_conditions k) then Inr (Some True)
      else case run_handler k (handler_name (c_key c)) (c_values c) of
          None \<Rightarrow> Inr None
        | Some r \<Rightarrow> rbind r (\<lambda>b. Inr (Some (\<not> b))))"

text \<open>The results of all conditions, or None as soon as one has no handler.\<close>

fun condition_results :: "checker \<Rightarrow> cond list \<Rightarrow> bool list option res" where
  "condition_results k [] = Inr (Some [])"
| "condition_results k (c # cs) =
     rbind (handle_condition k c) (\<lambda>r. case r of
         None \<Rightarrow> Inr None
       | Some b \<Rightarrow> rbind (condition_results k cs) (\<lambda>rs. Inr (map_option (Cons b) rs)))"

definition org_keys :: "string list" where
  "org_keys = [''aws:principalorgid'', ''aws:resourceorgid'', ''aws:principalorgpaths'']"

definition principal_keys :: "string list" where
  "principal_keys = [''aws:principalarn'', ''aws:principalaccount'', ''aws:sourceaccount'', ''aws:sourcearn'',
     ''s3:dataaccesspointaccount'']"

text \<open>A failed condition an allowed organization makes up for: wildcards or allowed accounts.\<close>

definition org_saves :: "ext \<Rightarrow> checker \<Rightarrow> cond \<times> bool \<Rightarrow> bool res" where
  "org_saves E k cb = (case cb of (c, b) \<Rightarrow>
     if b then Inr True
     else if c_key c \<notin> set principal_keys then Inr False
     else rbind (py_iter (c_values c)) (\<lambda>vs.
       Inr (list_all (\<lambda>v. has_substr (py_str E v) ''*'' \<or>
         account_of (py_str E v) \<in> set (ck_allowed_accounts k)) vs)))"

definition handle_conditions :: "ext \<Rightarrow> checker \<Rightarrow> pydict \<Rightarrow> bool res" where
  "handle_conditions E k s =
     rbind (normalize_conditions s) (\<lambda>cs.
       if cs = [] then Inr False
       else rbind (condition_results k cs) (\<lambda>res. case res of
           None \<Rightarrow> Inr False
         | Some rs \<Rightarrow>
             if list_all id rs then Inr True
             else if list_ex (\<lambda>(c, b). b \<and> c_key c \<in> set org_keys) (zip cs rs)
             then rall (org_saves E k) (zip cs rs)
             else Inr False))"

section \<open>Statements and policies\<close>

text \<open>The three tests are all made before their results are combined.\<close>

definition handle_statement :: "ext \<Rightarrow> checker \<Rightarrow> pydict \<Rightarrow> bool res" where
  "handle_statement E k s =
     rbind (handle_principal k s) (\<lambda>p.
     rbind (handle_effect s) (\<lambda>e.
     rbind (handle_action k s) (\<lambda>a.
       if p \<and> e \<and> a then rbind (handle_conditions E k s) (\<lambda>c. Inr (\<not> c)) else Inr False)))"

text \<open>What is not a dictionary fails on its first use as one.\<close>

definition statement_violates :: "ext \<Rightarrow> checker \<Rightarrow> pyval \<Rightarrow> bool res" where
  "statement_violates E k v = (case v of
      PDict s \<Rightarrow> handle_statement E k s
    | _ \<Rightarrow> rbind (py_in (PStr ''NotPrincipal'') v) (\<lambda>b. if b then Inl TypeError else Inl AttributeError))"

definition policy_statements :: "(string \<Rightarrow> pyval res) \<Rightarrow> pyval \<Rightarrow> pyval list res" where
  "policy_statements json policy_text =
     rbind (case policy_text of PStr t \<Rightarrow> json t | _ \<Rightarrow> Inr policy_text) (\<lambda>policy. case policy of
         PDict d \<Rightarrow> py_iter (dget_or d ''Statement'' (PTuple []))
       | _ \<Rightarrow> Inl AttributeError)"

definition check :: "ext \<Rightarrow> (string \<Rightarrow> pyval res) \<Rightarrow> checker \<Rightarrow> pyval \<Rightarrow> pyval list res" where
  "check E json k policy_text =
     rbind (policy_statements json policy_text) (\<lambda>ss.
       rfilter (\<lambda>s. rbind (statement_violates E k s) (\<lambda>b. Inr (if ck_return_allowed k then \<not> b else b))) ss)"

section \<open>The filter\<close>

text \<open>Lists of the policy's data are lists of strings; fetched values are a parameter.\<close>

definition data_strings :: "pydict \<Rightarrow> string \<Rightarrow> string list \<Rightarrow> string list res" where
  "data_strings data key dflt = (case dget data key of
      None \<Rightarrow> Inr dflt
    | Some v \<Rightarrow> rbind (py_iter v) (rmap (\<lambda>x. case x of PStr s \<Rightarrow> Inr s | _ \<Rightarrow> Inl TypeError)))"

definition whitelist_of :: "(pyval \<Rightarrow> string list res) \<Rightarrow> pydict \<Rightarrow> string \<Rightarrow> string list res" where
  "whitelist_of fetch data key =
     rbind (data_strings data key []) (\<lambda>xs.
       case dget data (key @ ''_from'') of
         None \<Rightarrow> Inr xs
       | Some v \<Rightarrow> rbind (fetch v) (\<lambda>ys. Inr (xs @ ys)))"

definition validate_org_unit_path :: "string \<Rightarrow> unit res" where
  "validate_org_unit_path path =
     (if has_substr path ''*'' \<or> has_substr path ''?'' then Inl PolicyValidationError
      else
        let segments = split_char CHR ''/'' (strip_chars ''/'' path)
        in if length segments < 2 \<or> \<not> starts_with (hd segments) ''o-'' then Inl PolicyValidationError
           else Inr ())"

definition cross_account_validate :: "pydict \<Rightarrow> unit res" where
  "cross_account_validate data =
     rbind (data_strings data ''whitelist_org_units'' []) (\<lambda>ps.
     rbind (rmap validate_org_unit_path ps) (\<lambda>_. Inr ()))"

definition checker_config ::
  "(pyval \<Rightarrow> string list res) \<Rightarrow> string \<Rightarrow> pydict \<Rightarrow> checker res" where
  "checker_config fetch owner_id data =
     rbind (data_strings data ''whitelist_conditions'' [''aws:userid'', ''aws:username'']) (\<lambda>conditions.
     rbind (data_strings data ''actions'' []) (\<lambda>actions.
     rbind (whitelist_of fetch data ''whitelist'') (\<lambda>accounts.
     rbind (whitelist_of fetch data ''whitelist_vpc'') (\<lambda>vpcs.
     rbind (whitelist_of fetch data ''whitelist_vpce'') (\<lambda>vpces.
     rbind (whitelist_of fetch data ''whitelist_orgids'') (\<lambda>orgids.
     rbind (whitelist_of fetch data ''whitelist_org_units'') (\<lambda>org_units.
     rbind (rmap validate_org_unit_path org_units) (\<lambda>_.
     rbind (whitelist_of fetch data ''whitelist_patterns'') (\<lambda>patterns.
       Inr \<lparr>ck_return_allowed = py_truth (dget_or data ''return_allowed'' (PBool False)),
            ck_allowed_accounts = accounts @ [owner_id],
            ck_everyone_only = py_truth (dget_or data ''everyone_only'' (PBool False)),
            ck_check_actions = actions,
            ck_whitelist_conditions = map lower conditions,
            ck_allowed_vpce = vpces, ck_allowed_vpc = vpcs, ck_allowed_orgid = orgids,
            ck_allowed_org_units = org_units, ck_whitelist_patterns = patterns\<rparr>)))))))))"

text \<open>\<open>__call__\<close>, with the resource it annotates.\<close>

definition cross_account_call ::
  "ext \<Rightarrow> (string \<Rightarrow> pyval res) \<Rightarrow> checker \<Rightarrow> string \<Rightarrow> pydict \<Rightarrow> (bool \<times> pydict) res" where
  "cross_account_call E json k policy_attribute r =
     (let p = dget_or r policy_attribute PNone
      in if p = PNone then Inr (False, r)
         else rbind (check E json k p) (\<lambda>results.
           if results = [] then Inr (False, r)
           else Inr (True, dput (if ck_return_allowed k then ''CrossAccountAllowlists'' else ''CrossAccountViolations'')
                       (PList results) r)))"

fun cross_account_filter ::
  "ext \<Rightarrow> (string \<Rightarrow> pyval res) \<Rightarrow> checker \<Rightarrow> string \<Rightarrow> pydict list \<Rightarrow> pydict list res" where
  "cross_account_filter E json k attr [] = Inr []"
| "cross_account_filter E json k attr (r # rs) =
     rbind (cross_account_call E json k attr r) (\<lambda>(b, r').
     rbind (cross_account_filter E json k attr rs) (\<lambda>rs'. Inr (if b then r' # rs' else rs')))"

definition cross_account_process ::
  "ext \<Rightarrow> (string \<Rightarrow> pyval res) \<Rightarrow> (pyval \<Rightarrow> string list res) \<Rightarrow> string \<Rightarrow> string \<Rightarrow> pydict \<Rightarrow>
   pydict list \<Rightarrow> pydict list res" where
  "cross_account_process E json fetch owner_id attr data resources =
     rbind (checker_config fetch owner_id data) (\<lambda>k. cross_account_filter E json k attr resources)"

end
