(* ===== verification/Iam_Facts.thy ===== *)
theory Iam_Facts
  imports Iam_Access
begin

text \<open>
  Properties of cross-account access: public statements are reported whatever is trusted,
  trusting more accounts never reports more, the two modes of the checker split the
  statements between them, and a negated condition that trusts the wrong side.
\<close>

section \<open>Public statements\<close>

text \<open>A statement that allows everyone something, without a condition.\<close>

definition names_everyone :: "pyval \<Rightarrow> bool" where
  "names_everyone p \<longleftrightarrow> p = PStr ''*'' \<or> (\<exists>ps. p = PList ps \<and> PStr ''*'' \<in> set ps)"

definition public_statement :: "pydict \<Rightarrow> bool" where
  "public_statement s \<longleftrightarrow>
     dget s ''Effect'' = Some (PStr ''Allow'') \<and> \<not> dhas s ''Condition'' \<and>
     (dhas s ''NotPrincipal'' \<or> names_everyone (dget_or s ''Principal'' PNone) \<or>
      (\<exists>d t p. dget_or s ''Principal'' PNone = PDict d \<and> (t, p) \<in> set d \<and> t \<noteq> ''Service'' \<and> names_everyone p))"

lemma no_conditions: "\<not> dhas s ''Condition'' \<Longrightarrow> handle_conditions E k s = Inr False"
  by (simp add: handle_conditions_def normalize_conditions_def dhas_dget)

lemma everyone_ids:
  assumes "names_everyone p" "principal_ids p = Inr ps"
  shows "PStr ''*'' \<in> set ps"
  using assms by (auto simp: names_everyone_def principal_ids_def is_str_def split: if_splits)

lemma rmap_member: "rmap f xs = Inr ys \<Longrightarrow> x \<in> set xs \<Longrightarrow> \<exists>y \<in> set ys. f x = Inr y"
  by (induction xs arbitrary: ys) (auto simp: rbind_eq_Inr)

lemma everyone_principal:
  assumes d: "rmap (\<lambda>(t, p). principal_ids p) (filter (\<lambda>(t, p). t \<noteq> ''Service'') d) = Inr pss"
    and p: "(t, p) \<in> set d" "t \<noteq> ''Service''" "names_everyone p"
    and oks: "rmap (pid_ok k) (concat pss) = Inr oks"
  shows "concat pss \<noteq> [] \<and> \<not> list_all id oks"
proof -
  have "(t, p) \<in> set (filter (\<lambda>(t, p). t \<noteq> ''Service'') d)" using p by simp
  from rmap_member[OF d this] obtain ps where ps: "ps \<in> set pss" "principal_ids p = Inr ps" by auto
  then have star: "PStr ''*'' \<in> set (concat pss)" using everyone_ids[OF p(3)] by auto
  from rmap_member[OF oks star] have "\<exists>y \<in> set oks. \<not> y" by (simp add: pid_ok_def)
  then have "\<not> list_all id oks" by (auto simp: list_all_iff)
  moreover have "concat pss \<noteq> []" using star by (metis empty_iff empty_set)
  ultimately show ?thesis by blast
qed

lemma handle_principal_any:
  assumes "dhas s ''NotPrincipal'' \<or> \<not> py_truth (dget_or s ''Principal'' PNone)"
  shows "handle_principal k s = Inr True"
  using assms by (cases "dhas s ''NotPrincipal''") (simp_all add: handle_principal_def Let_def)

lemma public_principal:
  assumes "public_statement s" "handle_principal k s = Inr b"
  shows b
proof (cases "dhas s ''NotPrincipal'' \<or> \<not> py_truth (dget_or s ''Principal'' PNone)")
  case True
  from handle_principal_any[OF this, of k] assms(2) show ?thesis by simp
next
  case False
  let ?pr = "dget_or s ''Principal'' PNone"
  let ?d = "case ?pr of PDict d \<Rightarrow> d | _ \<Rightarrow> [(''AWS'', ?pr)]"
  have "\<exists>t p. (t, p) \<in> set ?d \<and> t \<noteq> ''Service'' \<and> names_everyone p"
  proof (cases "names_everyone ?pr")
    case True
    then have "?d = [(''AWS'', ?pr)]" by (auto simp: names_everyone_def)
    with True show ?thesis by auto
  next
    case False
    with assms(1) \<open>\<not> (dhas s ''NotPrincipal'' \<or> \<not> py_truth ?pr)\<close> obtain d t p
      where "?pr = PDict d" "(t, p) \<in> set d" "t \<noteq> ''Service''" "names_everyone p"
      unfolding public_statement_def by blast
    then show ?thesis by (simp only: pyval.case) blast
  qed
  then obtain t p where p: "(t, p) \<in> set ?d" "t \<noteq> ''Service''" "names_everyone p" by blast
  from assms(2) False obtain pss where
    pss: "rmap (\<lambda>(t, p). principal_ids p) (filter (\<lambda>(t, p). t \<noteq> ''Service'') ?d) = Inr pss"
    and r: "(if concat pss = [] then Inr False
       else rbind (rmap (pid_ok k) (concat pss)) (\<lambda>oks. Inr (\<not> list_all id oks))) = Inr b"
    by (auto simp: handle_principal_def Let_def rbind_eq_Inr)
  show b
  proof (cases "rmap (pid_ok k) (concat pss)")
    case (Inl e)
    with r have "concat pss = []" by (auto split: if_splits)
    with Inl show ?thesis by simp
  next
    case (Inr oks)
    have ne: "concat pss \<noteq> []" and no: "\<not> list_all id oks"
      using everyone_principal[OF pss p Inr] by blast+
    from r have "Inr (\<not> list_all id oks) = (Inr b :: bool res)"
      by (simp only: ne Inr if_False rbind_Inr simp_thms)
    with no show ?thesis by simp
  qed
qed

lemma rfilter_mem: "rfilter f xs = Inr ys \<Longrightarrow> x \<in> set xs \<Longrightarrow> \<exists>b. f x = Inr b \<and> (b \<longrightarrow> x \<in> set ys)"
  by (induction xs arbitrary: ys) (auto simp: rbind_eq_Inr)

text \<open>C3: whatever accounts, networks, organizations and patterns are trusted, a statement that
  allows everyone something without a condition is reported, as long as the check is not
  limited to some actions.\<close>
theorem public_statement_reported:
  assumes "check E json k (PDict [(''Statement'', PList ss)]) = Inr vs"
    and "PDict s \<in> set ss" "public_statement s"
    and "ck_check_actions k = []" "\<not> ck_return_allowed k"
  shows "PDict s \<in> set vs"
proof -
  have f: "rfilter (\<lambda>s. rbind (statement_violates E k s) (\<lambda>b. Inr b)) ss = Inr vs"
    using assms(1,5) by (simp add: check_def policy_statements_def dget_or_def)
  from rfilter_mem[OF f assms(2)] obtain b where
    b: "rbind (statement_violates E k (PDict s)) Inr = Inr b" "b \<longrightarrow> PDict s \<in> set vs" by auto
  then obtain p where p: "handle_principal k s = Inr p"
    by (auto simp: statement_violates_def handle_statement_def rbind_eq_Inr)
  have p: "handle_principal k s = Inr True" using public_principal[OF assms(3) p] p by simp
  have "handle_effect s = Inr True" "handle_action k s = Inr True" "handle_conditions E k s = Inr False"
    using assms(3,4) no_conditions[of s E k]
    by (simp_all add: public_statement_def handle_effect_def handle_action_def dindex_def)
  with p b show ?thesis by (simp add: statement_violates_def handle_statement_def)
qed

definition checker0 :: checker where
  "checker0 = \<lparr>ck_return_allowed = False, ck_allowed_accounts = [''111''], ck_everyone_only = False,
     ck_check_actions = [], ck_whitelist_conditions = [], ck_allowed_vpce = [], ck_allowed_vpc = [],
     ck_allowed_orgid = [], ck_allowed_org_units = [], ck_whitelist_patterns = []\<rparr>"

definition statement0 :: pydict where
  "statement0 = [(''Effect'', PStr ''Allow''), (''Principal'', PDict [(''AWS'', PList [PStr ''111'', PStr ''*''])]),
     (''Action'', PStr ''s3:GetObject'')]"

lemma check_statement0:
  "check (ext0 0) (\<lambda>t. Inl ValueError) checker0 (PDict [(''Statement'', PList [PDict statement0])]) =
     Inr [PDict statement0]"
  by code_simp

lemma public_statement_reported_witness:
  "public_statement statement0 \<and> PDict statement0 \<in> set [PDict statement0]"
proof
  show p: "public_statement statement0"
    by (simp add: public_statement_def statement0_def dhas_def dget_or_def names_everyone_def)
  show "PDict statement0 \<in> set [PDict statement0]"
    by (rule public_statement_reported[OF check_statement0 _ p]) (simp_all add: checker0_def)
qed

section \<open>Trusting more accounts\<close>

abbreviation trusting :: "checker \<Rightarrow> string list \<Rightarrow> checker" where
  "trusting k accounts \<equiv> k\<lparr>ck_allowed_accounts := accounts\<rparr>"

text \<open>A result that only goes from acceptable to acceptable.\<close>

lemma some_outside_mono:
  assumes "set xs \<subseteq> set ys" "some_outside vs xs = Inr b" "some_outside vs ys = Inr b'" "b'"
  shows b
  using assms by (auto simp: some_outside_def rbind_eq_Inr list_ex_iff)

lemma pid_ok_mono:
  assumes "set (ck_allowed_accounts k) \<subseteq> set ys" "pid_ok k p = Inr b" "pid_ok (trusting k ys) p = Inr b'" "b"
  shows b'
proof (cases "py_eq p (PStr ''*'') \<or> ck_everyone_only k")
  case True
  then have "pid_ok (trusting k ys) p = pid_ok k p" by (auto simp: pid_ok_def)
  with assms show ?thesis by simp
next
  case False
  then have e: "pid_ok k' p = (case p of
      PStr p \<Rightarrow> Inr (starts_with p ''arn:aws:iam::cloudfront:user''
        \<or> list_ex (\<lambda>pattern. fnmatch p pattern) (ck_whitelist_patterns k)
        \<or> account_of p \<in> set (ck_allowed_accounts k'))
    | _ \<Rightarrow> Inl AttributeError)"
    if "ck_everyone_only k' = ck_everyone_only k" "ck_whitelist_patterns k' = ck_whitelist_patterns k" for k'
    using that False by (simp only: pid_ok_def if_False simp_thms de_Morgan_disj)
  show ?thesis
  proof (cases p)
    case (PStr s)
    have k: "pid_ok k p = Inr (starts_with s ''arn:aws:iam::cloudfront:user''
        \<or> list_ex (fnmatch s) (ck_whitelist_patterns k) \<or> account_of s \<in> set (ck_allowed_accounts k))"
      using e[of k] by (simp add: PStr)
    have "pid_ok (trusting k ys) p = Inr (starts_with s ''arn:aws:iam::cloudfront:user''
        \<or> list_ex (fnmatch s) (ck_whitelist_patterns k) \<or> account_of s \<in> set ys)"
      using e[of "trusting k ys"] by (simp add: PStr)
    with k assms show ?thesis by (simp only: sum.inject) blast
  qed (use assms(2) e[of k] in simp_all)
qed

lemma rmap_mono:
  assumes "rmap f xs = Inr bs" "rmap g xs = Inr cs" "\<And>x b c. f x = Inr b \<Longrightarrow> g x = Inr c \<Longrightarrow> b \<Longrightarrow> c"
  shows "list_all2 (\<longrightarrow>) bs cs"
  using assms(1,2)
proof (induction xs arbitrary: bs cs)
  case (Cons x xs)
  then obtain b bs' c cs' where "f x = Inr b" "rmap f xs = Inr bs'" "bs = b # bs'"
    "g x = Inr c" "rmap g xs = Inr cs'" "cs = c # cs'"
    by (auto simp: rbind_eq_Inr)
  with Cons.IH[of bs' cs'] assms(3)[of x b c] show ?case by simp
qed simp

lemma all_mono: "list_all2 (\<longrightarrow>) bs cs \<Longrightarrow> list_all id bs \<Longrightarrow> list_all id cs"
  by (induction bs cs rule: list_all2_induct) auto

lemma handle_principal_mono:
  assumes sub: "set (ck_allowed_accounts k) \<subseteq> set ys"
    and "handle_principal k s = Inr b" "handle_principal (trusting k ys) s = Inr b'" "b'"
  shows b
proof (cases "dhas s ''NotPrincipal'' \<or> \<not> py_truth (dget_or s ''Principal'' PNone)")
  case True
  from handle_principal_any[OF this, of k] assms(2) show ?thesis by simp
next
  case False
  let ?pr = "dget_or s ''Principal'' PNone"
  let ?d = "case ?pr of PDict d \<Rightarrow> d | _ \<Rightarrow> [(''AWS'', ?pr)]"
  from assms(3) \<open>b'\<close> False obtain pss oks' where
    pss: "rmap (\<lambda>(t, p). principal_ids p) (filter (\<lambda>(t, p). t \<noteq> ''Service'') ?d) = Inr pss"
    and ne: "concat pss \<noteq> []" and o: "rmap (pid_ok (trusting k ys)) (concat pss) = Inr oks'" "\<not> list_all id oks'"
    by (auto simp: handle_principal_def Let_def rbind_eq_Inr split: if_splits)
  from assms(2) False pss ne obtain oks where
    oks: "rmap (pid_ok k) (concat pss) = Inr oks" "b = (\<not> list_all id oks)"
    by (auto simp: handle_principal_def Let_def rbind_eq_Inr split: if_splits)
  have "list_all2 (\<longrightarrow>) oks oks'"
    using oks(1) o(1) by (rule rmap_mono) (rule pid_ok_mono[OF sub])
  with all_mono o(2) oks(2) show b by blast
qed

definition account_handlers :: "string list" where
  "account_handlers = [''aws_sourceowner'', ''aws_sourceaccount'', ''aws_sourcearn'', ''aws_principalarn'',
     ''aws_principalaccount'', ''s3_dataaccesspointaccount'']"

lemma run_handler_accounts:
  "name \<in> set account_handlers \<Longrightarrow> run_handler k name vs = Some (some_outside vs (ck_allowed_accounts k))"
  by (simp only: run_handler_def account_handlers_def if_True simp_thms)

lemma trusting_same [simp]:
  "ck_allowed_vpce (trusting k ys) = ck_allowed_vpce k" "ck_allowed_vpc (trusting k ys) = ck_allowed_vpc k"
  "ck_allowed_orgid (trusting k ys) = ck_allowed_orgid k"
  "ck_allowed_org_units (trusting k ys) = ck_allowed_org_units k"
  "ck_whitelist_conditions (trusting k ys) = ck_whitelist_conditions k"
  "ck_check_actions (trusting k ys) = ck_check_actions k"
  "ck_allowed_accounts (trusting k ys) = ys"
  by simp_all

lemma run_handler_others:
  "name \<notin> set account_handlers \<Longrightarrow> run_handler (trusting k ys) name vs = run_handler k name vs"
  unfolding run_handler_def account_handlers_def org_path_allowed_def
  by (simp only: if_False trusting_same simp_thms)

lemma handle_condition_mono:
  assumes sub: "set (ck_allowed_accounts k) \<subseteq> set ys"
    and "handle_condition k c = Inr r" "handle_condition (trusting k ys) c = Inr r'"
  shows "(r = None \<longleftrightarrow> r' = None) \<and> (r = Some True \<longrightarrow> r' = Some True) \<and>
    (handler_name (c_key c) \<notin> set account_handlers \<longrightarrow> r' = r)"
proof (cases "c_op c = [] \<or> c_key c \<in> set (ck_whitelist_conditions k)")
  case True
  then have "handle_condition (trusting k ys) c = handle_condition k c"
    by (cases "c_op c = []") (simp_all add: handle_condition_def)
  with assms(2,3) show ?thesis by simp
next
  case False
  then have e: "handle_condition k' c = (case run_handler k' (handler_name (c_key c)) (c_values c) of
      None \<Rightarrow> Inr None | Some r \<Rightarrow> rbind r (\<lambda>b. Inr (Some (\<not> b))))"
    if "ck_whitelist_conditions k' = ck_whitelist_conditions k" for k'
    using that by (simp add: handle_condition_def)
  show ?thesis
  proof (cases "handler_name (c_key c) \<in> set account_handlers")
    case True
    then show ?thesis
      using assms(2,3) some_outside_mono[OF sub, of "c_values c"]
      by (auto simp: e run_handler_accounts rbind_eq_Inr)
  next
    case False
    then show ?thesis using assms(2,3) by (simp add: e run_handler_others)
  qed
qed

lemma condition_results_mono:
  assumes sub: "set (ck_allowed_accounts k) \<subseteq> set ys"
  shows "condition_results k cs = Inr r \<Longrightarrow> condition_results (trusting k ys) cs = Inr r' \<Longrightarrow>
    (r = None \<longleftrightarrow> r' = None) \<and>
    (\<forall>rs rs'. r = Some rs \<longrightarrow> r' = Some rs' \<longrightarrow> length rs = length cs \<and> list_all2 (\<longrightarrow>) rs rs' \<and>
      (\<forall>i < length cs. handler_name (c_key (cs ! i)) \<notin> set account_handlers \<longrightarrow> rs' ! i = rs ! i))"
proof (induction cs arbitrary: r r')
  case (Cons c cs)
  from Cons.prems(1) obtain x where x: "handle_condition k c = Inr x"
    "(case x of None \<Rightarrow> Inr None
      | Some b \<Rightarrow> rbind (condition_results k cs) (\<lambda>rs. Inr (map_option (Cons b) rs))) = Inr r"
    by (auto simp: rbind_eq_Inr)
  from Cons.prems(2) obtain x' where x': "handle_condition (trusting k ys) c = Inr x'"
    "(case x' of None \<Rightarrow> Inr None
      | Some b \<Rightarrow> rbind (condition_results (trusting k ys) cs) (\<lambda>rs. Inr (map_option (Cons b) rs))) = Inr r'"
    by (auto simp: rbind_eq_Inr)
  note m = handle_condition_mono[OF sub x(1) x'(1)]
  show ?case
  proof (cases x)
    case None
    with m x(2) x'(2) show ?thesis by auto
  next
    case (Some b)
    with m obtain b' where b': "x' = Some b'" by (cases x') auto
    from x(2) Some obtain q where q: "condition_results k cs = Inr q" "r = map_option (Cons b) q"
      by (auto simp: rbind_eq_Inr)
    from x'(2) b' obtain q' where q': "condition_results (trusting k ys) cs = Inr q'" "r' = map_option (Cons b') q'"
      by (auto simp: rbind_eq_Inr)
    from Cons.IH[OF q(1) q'(1)] m show ?thesis
      by (auto simp: q(2) q'(2) Some b' nth_Cons split: nat.split)
  qed
qed simp

lemma org_key_handlers: "key \<in> set org_keys \<Longrightarrow> handler_name key \<notin> set account_handlers"
proof -
  have "list_all (\<lambda>key. handler_name key \<notin> set account_handlers) org_keys"
    by (simp add: org_keys_def handler_name_def account_handlers_def)
  then show "key \<in> set org_keys \<Longrightarrow> handler_name key \<notin> set account_handlers"
    unfolding list_all_iff by blast
qed

lemma org_saves_mono:
  assumes "set (ck_allowed_accounts k) \<subseteq> set ys" "org_saves E k (c, b) = Inr True" "b \<longrightarrow> b'"
    "org_saves E (trusting k ys) (c, b') = Inr x"
  shows x
  using assms by (auto simp: org_saves_def rbind_eq_Inr list_all_iff split: if_splits)

lemma rall_zip_mono:
  assumes "\<And>c b b'. org_saves E k (c, b) = Inr True \<Longrightarrow> (b \<longrightarrow> b') \<Longrightarrow>
      org_saves E (trusting k ys) (c, b') \<noteq> Inr False"
  shows "list_all2 (\<longrightarrow>) rs rs' \<Longrightarrow> rall (org_saves E k) (zip cs rs) = Inr True \<Longrightarrow>
    rall (org_saves E (trusting k ys)) (zip cs rs') = Inr x \<Longrightarrow> x"
proof (induction rs rs' arbitrary: cs rule: list_all2_induct)
  case (Cons b bs b' bs')
  show ?case
  proof (cases cs)
    case (Cons c cs')
    from Cons.prems(1) have h: "org_saves E k (c, b) = Inr True" "rall (org_saves E k) (zip cs' bs) = Inr True"
      by (auto simp: \<open>cs = c # cs'\<close> rbind_eq_Inr split: if_splits)
    from Cons.prems(2) obtain y where y: "org_saves E (trusting k ys) (c, b') = Inr y"
      "(if y then rall (org_saves E (trusting k ys)) (zip cs' bs') else Inr False) = Inr x"
      by (auto simp: \<open>cs = c # cs'\<close> rbind_eq_Inr)
    with assms[OF h(1)] Cons.hyps(1) have "y" by (cases y) auto
    with y Cons.IH[OF h(2)] show ?thesis by simp
  qed (use Cons.prems in simp)
qed (simp add: zip_Nil)

lemma has_org_same:
  assumes "length rs = length cs" "length rs' = length cs"
    "\<forall>i < length cs. handler_name (c_key (cs ! i)) \<notin> set account_handlers \<longrightarrow> rs' ! i = rs ! i"
  shows "list_ex (\<lambda>(c, b). b \<and> c_key c \<in> set org_keys) (zip cs rs') \<longleftrightarrow>
    list_ex (\<lambda>(c, b). b \<and> c_key c \<in> set org_keys) (zip cs rs)"
proof -
  have "list_ex (\<lambda>(c, b). b \<and> c_key c \<in> set org_keys) (zip cs qs) \<longleftrightarrow>
      (\<exists>i < length cs. qs ! i \<and> c_key (cs ! i) \<in> set org_keys)" if "length qs = length cs" for qs
    using that by (force simp: list_ex_iff set_zip)
  with assms org_key_handlers show ?thesis by metis
qed

lemma handle_conditions_mono:
  assumes sub: "set (ck_allowed_accounts k) \<subseteq> set ys"
    and "handle_conditions E k s = Inr True" "handle_conditions E (trusting k ys) s = Inr b'"
  shows b'
proof -
  from assms(2) obtain cs rs where cs: "normalize_conditions s = Inr cs" "cs \<noteq> []"
    and rs: "condition_results k cs = Inr (Some rs)"
    and r: "(if list_all id rs then Inr True
      else if list_ex (\<lambda>(c, b). b \<and> c_key c \<in> set org_keys) (zip cs rs) then rall (org_saves E k) (zip cs rs)
      else Inr False) = Inr True"
    by (auto simp: handle_conditions_def rbind_eq_Inr split: if_splits option.splits)
  from assms(3) cs obtain res' where res': "condition_results (trusting k ys) cs = Inr res'"
    by (auto simp: handle_conditions_def rbind_eq_Inr)
  note m = condition_results_mono[OF sub rs res']
  then obtain rs' where rs': "res' = Some rs'" by (cases res') auto
  with m have len: "length rs = length cs" and imp: "list_all2 (\<longrightarrow>) rs rs'"
    and same: "\<forall>i < length cs. handler_name (c_key (cs ! i)) \<notin> set account_handlers \<longrightarrow> rs' ! i = rs ! i"
    by auto
  have len': "length rs' = length cs" using imp len list_all2_lengthD by fastforce
  have r': "(if list_all id rs' then Inr True
      else if list_ex (\<lambda>(c, b). b \<and> c_key c \<in> set org_keys) (zip cs rs')
      then rall (org_saves E (trusting k ys)) (zip cs rs') else Inr False) = Inr b'"
    using assms(3) cs res' rs' by (simp add: handle_conditions_def)
  show b'
  proof (cases "list_all id rs'")
    case True
    with r' show ?thesis by simp
  next
    case False
    then have "\<not> list_all id rs" using all_mono[OF imp] by blast
    then have org: "list_ex (\<lambda>(c, b). b \<and> c_key c \<in> set org_keys) (zip cs rs)"
      and all: "rall (org_saves E k) (zip cs rs) = Inr True"
      using r by (auto split: if_splits)
    have "rall (org_saves E (trusting k ys)) (zip cs rs') = Inr b'"
      using r' False org has_org_same[OF len len' same] by simp
    from rall_zip_mono[OF _ imp all this] org_saves_mono[OF sub, of E] show ?thesis by blast
  qed
qed

lemma handle_statementD:
  assumes "handle_statement E k s = Inr True"
  shows "handle_principal k s = Inr True \<and> handle_effect s = Inr True \<and> handle_action k s = Inr True \<and>
    handle_conditions E k s = Inr False"
proof -
  from assms obtain p e a where pea: "handle_principal k s = Inr p" "handle_effect s = Inr e" "handle_action k s = Inr a"
    and r: "(if p \<and> e \<and> a then rbind (handle_conditions E k s) (\<lambda>c. Inr (\<not> c)) else Inr False) = Inr True"
    unfolding handle_statement_def rbind_eq_Inr by blast
  from r have all: "p \<and> e \<and> a" by (cases "p \<and> e \<and> a") simp_all
  with r have "rbind (handle_conditions E k s) (\<lambda>c. Inr (\<not> c)) = Inr True" by simp
  then have "handle_conditions E k s = Inr False" by (cases "handle_conditions E k s") simp_all
  with pea all show ?thesis by simp
qed

lemma statement_mono:
  assumes sub: "set (ck_allowed_accounts k) \<subseteq> set ys"
    and k: "handle_statement E k s = Inr b" and k': "handle_statement E (trusting k ys) s = Inr True"
  shows b
proof -
  note t = handle_statementD[OF k']
  from k obtain p where p: "handle_principal k s = Inr p"
    unfolding handle_statement_def rbind_eq_Inr by blast
  have "handle_action k s = Inr True"
    using t by (simp only: handle_action_def trusting_same)
  moreover have "p" using handle_principal_mono[OF sub p, of True] t by simp
  ultimately have "rbind (handle_conditions E k s) (\<lambda>c. Inr (\<not> c)) = Inr b"
    using k p t by (simp add: handle_statement_def)
  then obtain c where c: "handle_conditions E k s = Inr c" "b = (\<not> c)"
    by (cases "handle_conditions E k s") simp_all
  show b
  proof (cases c)
    case True
    with c have "handle_conditions E k s = Inr True" by simp
    from handle_conditions_mono[OF sub this, of False] t show ?thesis by simp
  qed (use c in simp)
qed

lemma statement_violates_mono:
  assumes "set (ck_allowed_accounts k) \<subseteq> set ys"
    and "statement_violates E k v = Inr b" "statement_violates E (trusting k ys) v = Inr b'" "b'"
  shows b
proof (cases "\<exists>s. v = PDict s")
  case True
  then obtain s where "v = PDict s" by blast
  with assms(2,3) have "handle_statement E k s = Inr b" "handle_statement E (trusting k ys) s = Inr True"
    using assms(4) by (simp_all add: statement_violates_def)
  from statement_mono[OF assms(1) this] show ?thesis .
next
  case False
  then have "statement_violates E (trusting k ys) v = statement_violates E k v"
    unfolding statement_violates_def by (cases v) auto
  with assms show ?thesis by simp
qed

lemma check_statements:
  "check E json k p = Inr vs \<Longrightarrow> \<exists>ss. policy_statements json p = Inr ss \<and>
     rfilter (\<lambda>s. rbind (statement_violates E k s) (\<lambda>b. Inr (if ck_return_allowed k then \<not> b else b))) ss = Inr vs"
  by (auto simp: check_def rbind_eq_Inr)

text \<open>Trusting more accounts never makes the checker report a statement it did not report
  before, for any policy both checks get through.\<close>
theorem trusting_more_reports_less:
  assumes "set (ck_allowed_accounts k) \<subseteq> set accounts" "\<not> ck_return_allowed k"
    and "check E json k p = Inr vs" "check E json (k\<lparr>ck_allowed_accounts := accounts\<rparr>) p = Inr vs'"
  shows "set vs' \<subseteq> set vs"
proof -
  from check_statements[OF assms(3)] assms(2) obtain ss where ss: "policy_statements json p = Inr ss"
    and f: "rfilter (\<lambda>s. rbind (statement_violates E k s) (\<lambda>b. Inr b)) ss = Inr vs" by auto
  from check_statements[OF assms(4)] assms(2) ss
  have f': "rfilter (\<lambda>s. rbind (statement_violates E (trusting k accounts) s) (\<lambda>b. Inr b)) ss = Inr vs'" by auto
  show ?thesis
  proof
    fix s assume "s \<in> set vs'"
    with rfilter_Inr_set[OF f'] have s: "s \<in> set ss" "statement_violates E (trusting k accounts) s = Inr True"
      by (auto simp: rbind_eq_Inr)
    from rfilter_mem[OF f s(1)] obtain b where b: "statement_violates E k s = Inr b" "b \<longrightarrow> s \<in> set vs"
      by (auto simp: rbind_eq_Inr)
    with statement_violates_mono[OF assms(1) b(1) s(2)] show "s \<in> set vs" by simp
  qed
qed

lemma trusting_more_reports_less_witness:
  "set [] \<subseteq> set [PDict [(''Effect'', PStr ''Allow''), (''Principal'', PStr ''222'')]]"
proof (rule trusting_more_reports_less[where k = checker0 and accounts = "[''111'', ''222'']" and E = "ext0 0"
      and json = "\<lambda>t. Inl ValueError"
      and p = "PDict [(''Statement'', PList [PDict [(''Effect'', PStr ''Allow''), (''Principal'', PStr ''222'')]])]"])
  show "check (ext0 0) (\<lambda>t. Inl ValueError) checker0
     (PDict [(''Statement'', PList [PDict [(''Effect'', PStr ''Allow''), (''Principal'', PStr ''222'')]])]) =
     Inr [PDict [(''Effect'', PStr ''Allow''), (''Principal'', PStr ''222'')]]"
    by code_simp
  show "check (ext0 0) (\<lambda>t. Inl ValueError) (checker0\<lparr>ck_allowed_accounts := [''111'', ''222'']\<rparr>)
     (PDict [(''Statement'', PList [PDict [(''Effect'', PStr ''Allow''), (''Principal'', PStr ''222'')]])]) = Inr []"
    by code_simp
qed (simp_all add: checker0_def)

text \<open>A set operator is taken for its positive form: a statement open to everyone but the
  account named, whose condition is \<open>ForAnyValue:StringNotEquals\<close>, is found acceptable when
  that account is a trusted one.\<close>
theorem negated_condition_trusted:
  assumes "account \<in> set (ck_allowed_accounts k)" "count_char account CHR '':'' < 4"
    and "ck_check_actions k = []" "\<not> ck_return_allowed k"
  shows "check E json k (PDict [(''Statement'', PList [PDict
      [(''Effect'', PStr ''Allow''), (''Principal'', PStr ''*''), (''Action'', PStr ''s3:GetObject''),
       (''Condition'', PDict [(''ForAnyValue:StringNotEquals'', PDict [(''aws:SourceAccount'', PStr account)])])]])]) = Inr []"
proof -
  let ?c = "\<lparr>c_op = ''ForAnyValue:StringNotEquals'', c_key = ''aws:sourceaccount'', c_values = PTuple [PStr account]\<rparr>"
  let ?cond = "PDict [(''ForAnyValue:StringNotEquals'', PDict [(''aws:SourceAccount'', PStr account)])]"
  let ?s = "[(''Effect'', PStr ''Allow''), (''Principal'', PStr ''*''), (''Action'', PStr ''s3:GetObject''), (''Condition'', ?cond)]"
  have "lower ''aws:SourceAccount'' = ''aws:sourceaccount''" by code_simp
  moreover have "known_op ''ForAnyValue:StringNotEquals''" by (simp add: known_op_def)
  ultimately have n: "normalize_conditions ?s = Inr [?c]"
    by (simp add: normalize_conditions_def normalize_op_def is_str_def)
  have "handler_name ''aws:sourceaccount'' = ''aws_sourceaccount''" by (simp add: handler_name_def)
  moreover have "run_handler k ''aws_sourceaccount'' (PTuple [PStr account]) = Some (Inr False)"
    using run_handler_accounts[of "''aws_sourceaccount''" k "PTuple [PStr account]"] assms(1,2)
    by (simp add: account_handlers_def some_outside_def accounts_r_def account_r_def account_of_def)
  ultimately have "handle_condition k ?c = Inr (Some True)"
    by (simp add: handle_condition_def)
  then have "handle_conditions E k ?s = Inr True" by (simp add: handle_conditions_def n)
  moreover have "handle_principal k ?s = Inr True"
    by (simp add: handle_principal_def dhas_def dget_or_def principal_ids_def is_str_def pid_ok_def)
  moreover have "handle_effect ?s = Inr True" by (simp add: handle_effect_def dindex_def)
  moreover have "handle_action k ?s = Inr True" using assms(3) by (simp add: handle_action_def)
  ultimately have "statement_violates E k (PDict ?s) = Inr False"
    by (simp only: statement_violates_def pyval.case handle_statement_def rbind_Inr simp_thms if_True)
  then show ?thesis
    using assms(4) by (simp add: check_def policy_statements_def dget_or_def)
qed

lemma negated_condition_trusted_witness:
  "check (ext0 0) (\<lambda>t. Inl ValueError) checker0 (PDict [(''Statement'', PList [PDict
      [(''Effect'', PStr ''Allow''), (''Principal'', PStr ''*''), (''Action'', PStr ''s3:GetObject''),
       (''Condition'', PDict [(''ForAnyValue:StringNotEquals'', PDict [(''aws:SourceAccount'', PStr ''111'')])])]])]) = Inr []"
  by (rule negated_condition_trusted) (simp_all add: checker0_def count_char_def)

end
