(* ===== verification/SG_Permission.thy ===== *)
theory SG_Permission
  imports Filter_Calls
begin

text \<open>
  Security group rules (\<open>SGPermission\<close> of \<open>c7n/resources/vpc.py\<close>): a group's rules are taken
  apart into one rule per address range, prefix list or group, each is held against the
  ports, ranges, references and value filters of the policy, and those that match are
  annotated on the group.
\<close>

section \<open>Value filters on parts of a rule\<close>

text \<open>\<open>bool(vf(v))\<close> of a value filter that does not annotate.\<close>

definition vf_value :: "ext \<Rightarrow> pydict \<Rightarrow> vstate \<Rightarrow> pyval \<Rightarrow> (vstate \<times> bool) res" where
  "vf_value E data s v =
     (if is_resource_count data
      then rbind (py_len v) (\<lambda>n. rbind (count_check E data n) (\<lambda>b. Inr (s, b \<and> n \<noteq> 0)))
      else if is_dict v \<or> v = PNone then vmatch E data s v
      else Inl AttributeError)"

fun vf_any :: "ext \<Rightarrow> pydict \<Rightarrow> vstate \<Rightarrow> pyval list \<Rightarrow> bool res" where
  "vf_any E data s [] = Inr False"
| "vf_any E data s (v # vs) =
     rbind (vf_value E data s v) (\<lambda>(s', b). if b then Inr True else vf_any E data s' vs)"

text \<open>The data of the filter on an attribute: a block gets the attribute as its key.\<close>

definition attr_filter :: "string \<Rightarrow> pyval \<Rightarrow> pydict" where
  "attr_filter f v = (case v of PDict d \<Rightarrow> dput ''key'' (PStr f) d | _ \<Rightarrow> [(f, v)])"

section \<open>Parts of the match\<close>

text \<open>\<open>process_ports\<close>. The first port inside the range decides.\<close>

fun ports_found :: "pyval \<Rightarrow> pyval \<Rightarrow> pyval list \<Rightarrow> bool option \<Rightarrow> bool option res" where
  "ports_found lo hi [] found = Inr found"
| "ports_found lo hi (port # ps) found =
     rbind (op_ge port lo) (\<lambda>a. rbind (if a then op_le port hi else Inr False) (\<lambda>b.
       if b then Inr (Some True) else ports_found lo hi ps (Some False)))"

definition process_ports :: "pyval \<Rightarrow> pyval \<Rightarrow> pydict \<Rightarrow> bool option res" where
  "process_ports ports only_ports perm = (case (dget perm ''FromPort'', dget perm ''ToPort'') of
      (Some lo, Some hi) \<Rightarrow>
        rbind (py_iter ports) (\<lambda>ps.
        rbind (ports_found lo hi ps None) (\<lambda>found.
        rbind (py_iter only_ports) (\<lambda>os.
          let only_found = list_ex (\<lambda>port. py_eq port lo \<and> py_eq port hi) os
          in Inr (if os \<noteq> [] \<and> \<not> only_found then Some (found = None \<or> found = Some True)
                  else if os \<noteq> [] \<and> only_found then Some False
                  else found))))
    | _ \<Rightarrow> Inr None)"

definition process_cidr :: "ext \<Rightarrow> pydict \<Rightarrow> string \<Rightarrow> string \<Rightarrow> string \<Rightarrow> pydict \<Rightarrow> bool res" where
  "process_cidr E data cidr_key cidr_type range_type perm =
     (let ip_perms = dget_or perm range_type (PList [])
      in if \<not> py_truth ip_perms then Inr False
         else rbind (dindex data cidr_key) (\<lambda>m.
              rbind (py_iter ip_perms) (vf_any E (attr_filter cidr_type m) vstate0)))"

definition match_and :: "pydict \<Rightarrow> bool" where
  "match_and data = py_eq (dget_or data ''match-operator'' (PStr ''and'')) (PStr ''and'')"

text \<open>\<open>match_op\<close>: \<open>all\<close> or \<open>any\<close>.\<close>

definition match_op :: "pydict \<Rightarrow> bool list \<Rightarrow> bool" where
  "match_op data bs = (if match_and data then list_all id bs else list_ex id bs)"

definition process_cidrs :: "ext \<Rightarrow> pydict \<Rightarrow> pydict \<Rightarrow> bool option res" where
  "process_cidrs E data perm =
     rbind (if dhas data ''CidrV6''
            then rbind (process_cidr E data ''CidrV6'' ''CidrIpv6'' ''Ipv6Ranges'' perm) (\<lambda>b. Inr [b]) else Inr []) (\<lambda>v6.
     rbind (if dhas data ''Cidr''
            then rbind (process_cidr E data ''Cidr'' ''CidrIp'' ''IpRanges'' perm) (\<lambda>b. Inr [b]) else Inr []) (\<lambda>v4.
       Inr (if v6 @ v4 = [] then None else Some (match_op data (v6 @ v4)))))"

text \<open>
  \<open>process_description\<close> looks at the first entry of the first list that has one. What
  \<open>dict()\<close> would make of a list of pairs is not followed.
\<close>

definition first_entry :: "pydict \<Rightarrow> pyval option" where
  "first_entry perm = (case List.map_filter (\<lambda>k. case dget perm k of Some (PList (x # xs)) \<Rightarrow> Some x | _ \<Rightarrow> None)
       [''Ipv6Ranges'', ''IpRanges'', ''UserIdGroupPairs'', ''PrefixListIds''] of
     [] \<Rightarrow> None | x # xs \<Rightarrow> Some x)"

definition process_description :: "ext \<Rightarrow> pydict \<Rightarrow> pydict \<Rightarrow> bool option res" where
  "process_description E data perm = (case dget data ''Description'' of
      None \<Rightarrow> Inr None
    | Some (PDict d) \<Rightarrow>
        (case first_entry perm of
           None \<Rightarrow> Inr (Some False)
         | Some e \<Rightarrow> rbind (vf_value E (dput ''key'' (PStr ''Description'') d) vstate0 e) (\<lambda>(s, b). Inr (Some b)))
    | Some v \<Rightarrow> Inl (if is_str v then ValueError else TypeError))"

definition group_id :: "pyval \<Rightarrow> pyval res" where
  "group_id p = (case p of PDict d \<Rightarrow> dindex d ''GroupId'' | _ \<Rightarrow> Inl TypeError)"

definition process_self_reference :: "pydict \<Rightarrow> pydict \<Rightarrow> pyval \<Rightarrow> bool option res" where
  "process_self_reference data perm sg_id =
     (let ref_match = dget_or data ''SelfReference'' PNone;
          found = (if ref_match = PNone then None else Some False)
      in case dget perm ''UserIdGroupPairs'' of
           Some pairs \<Rightarrow>
             if dhas data ''SelfReference''
             then rbind (py_iter pairs) (\<lambda>ps. rbind (rmap group_id ps) (\<lambda>ids.
               let self_reference = mem_eq sg_id ids
               in Inr (if ref_match = PBool False \<and> \<not> self_reference \<or> ref_match = PBool True \<and> self_reference
                       then Some True else found)))
             else Inr found
         | None \<Rightarrow> Inr found)"

text \<open>The groups a rule refers to are looked up through the manager, a parameter.\<close>

definition owned_group :: "pyval \<Rightarrow> pyval \<Rightarrow> pyval list res" where
  "owned_group owner_id p = (case p of
      PDict d \<Rightarrow> if py_eq (dget_or d ''UserId'' (PStr [])) owner_id
                 then rbind (dindex d ''GroupId'') (\<lambda>g. Inr [g]) else Inr []
    | _ \<Rightarrow> Inl AttributeError)"

definition process_sg_references ::
  "ext \<Rightarrow> (pyval list \<Rightarrow> pyval list res) \<Rightarrow> pydict \<Rightarrow> pydict \<Rightarrow> pyval \<Rightarrow> bool option res" where
  "process_sg_references E get_resources data perm owner_id =
     (let sg_refs = dget_or data ''SGReferences'' PNone;
          sg_perm = dget_or perm ''UserIdGroupPairs'' (PList [])
      in if \<not> py_truth sg_refs then Inr None
         else if \<not> py_truth sg_perm then Inr (Some False)
         else
           rbind (py_iter sg_perm) (\<lambda>ps.
           rbind (rmap (owned_group owner_id) ps) (\<lambda>ids.
           rbind (get_resources (concat ids)) (\<lambda>sgs. case sg_refs of
               PDict d \<Rightarrow> rbind (vf_any E d vstate0 sgs) (\<lambda>b. Inr (Some b))
             | _ \<Rightarrow> if sgs = [] then Inr (Some False) else Inl AttributeError))))"

section \<open>Expansion\<close>

definition GROUPED :: "string list" where
  "GROUPED = [''IpRanges'', ''Ipv6Ranges'', ''PrefixListIds'', ''UserIdGroupPairs'']"

text \<open>The rule with its four lists emptied, at the end of its keys.\<close>

definition stripped :: "pydict \<Rightarrow> pydict" where
  "stripped p = fold (\<lambda>k np. dput k (PList []) (ddel k np)) GROUPED p"

definition expand_one :: "pydict \<Rightarrow> pydict list res" where
  "expand_one p =
     rbind (rmap (\<lambda>k.
         let v = dget_or p k (PTuple [])
         in if \<not> py_truth v then Inr []
            else rbind (py_iter v) (\<lambda>es. Inr (map (\<lambda>e. dput k (PList [e]) (stripped p)) es))) GROUPED)
     (\<lambda>pss. Inr (concat pss))"

definition expand_permissions :: "pyval \<Rightarrow> pydict list res" where
  "expand_permissions permissions =
     rbind (py_iter permissions) (\<lambda>ps.
     rbind (rmap (\<lambda>p. case p of PDict d \<Rightarrow> expand_one d | _ \<Rightarrow> Inl TypeError) ps) (\<lambda>pss. Inr (concat pss)))"

section \<open>The filter\<close>

text \<open>The value filters of the rule's own attributes, in the order of their names.\<close>

definition sg_vfilters :: "pydict \<Rightarrow> (pydict \<times> vstate) list" where
  "sg_vfilters data =
     map (\<lambda>f. (attr_filter f (dget_or data f PNone), vstate0))
       (filter (dhas data) [''FromPort'', ''IpProtocol'', ''IpRanges'', ''PrefixListIds'', ''ToPort'', ''UserIdGroupPairs''])"

fun run_vfilters :: "ext \<Rightarrow> (pydict \<times> vstate) list \<Rightarrow> pydict \<Rightarrow> ((pydict \<times> vstate) list \<times> bool list) res" where
  "run_vfilters E [] perm = Inr ([], [])"
| "run_vfilters E ((d, s) # fs) perm =
     rbind (vf_value E d s (PDict perm)) (\<lambda>(s', b).
     rbind (run_vfilters E fs perm) (\<lambda>(fs', bs). Inr ((d, s') # fs', b # bs)))"

definition data_ports :: "pydict \<Rightarrow> string \<Rightarrow> pyval" where
  "data_ports data k = (let v = dget_or data k PNone in if py_truth v then v else PTuple [])"

text \<open>The values of the tests that say something about one rule.\<close>

definition perm_values ::
  "ext \<Rightarrow> (pyval list \<Rightarrow> pyval list res) \<Rightarrow> pydict \<Rightarrow> pyval \<Rightarrow> pyval \<Rightarrow> (pydict \<times> vstate) list \<Rightarrow> pydict \<Rightarrow>
   ((pydict \<times> vstate) list \<times> bool list) res" where
  "perm_values E get_resources data sg_id owner_id fs perm =
     rbind (run_vfilters E fs perm) (\<lambda>(fs', bs).
     rbind (process_description E data perm) (\<lambda>description.
     rbind (process_ports (data_ports data ''Ports'') (data_ports data ''OnlyPorts'') perm) (\<lambda>ports.
     rbind (process_cidrs E data perm) (\<lambda>cidrs.
     rbind (process_self_reference data perm sg_id) (\<lambda>self_refs.
     rbind (process_sg_references E get_resources data perm owner_id) (\<lambda>sg_refs.
       Inr (fs', bs @ List.map_filter id [description, ports, cidrs, self_refs, sg_refs])))))))"

text \<open>The rules that match; a rule nothing is said about does not match.\<close>

fun matched_perms ::
  "ext \<Rightarrow> (pyval list \<Rightarrow> pyval list res) \<Rightarrow> pydict \<Rightarrow> pyval \<Rightarrow> pyval \<Rightarrow> (pydict \<times> vstate) list \<Rightarrow> pydict list \<Rightarrow>
   ((pydict \<times> vstate) list \<times> pydict list) res" where
  "matched_perms E get data sg_id owner_id fs [] = Inr (fs, [])"
| "matched_perms E get data sg_id owner_id fs (perm # perms) =
     rbind (perm_values E get data sg_id owner_id fs perm) (\<lambda>(fs', bs).
     rbind (matched_perms E get data sg_id owner_id fs' perms) (\<lambda>(fs'', ms).
       Inr (fs'', if (match_and data \<longrightarrow> bs \<noteq> []) \<and> match_op data bs then perm # ms else ms)))"

text \<open>\<open>extend\<close> with the rules that are not there; the list grows while it is searched.\<close>

definition add_matches :: "pyval list \<Rightarrow> pydict list \<Rightarrow> pyval list" where
  "add_matches old ms = fold (\<lambda>m acc. if mem_eq (PDict m) acc then acc else acc @ [PDict m]) ms old"

definition annotate_matches :: "string \<Rightarrow> pydict list \<Rightarrow> pydict \<Rightarrow> pydict res" where
  "annotate_matches key ms resource = (case dget_or resource key (PList []) of
      PList old \<Rightarrow> Inr (dput key (PList (add_matches old ms)) resource)
    | _ \<Rightarrow> Inl AttributeError)"

definition sg_call ::
  "ext \<Rightarrow> (pyval list \<Rightarrow> pyval list res) \<Rightarrow> string \<Rightarrow> pydict \<Rightarrow> (pydict \<times> vstate) list \<Rightarrow> pydict \<Rightarrow>
   ((pydict \<times> vstate) list \<times> pydict \<times> bool) res" where
  "sg_call E get key data fs resource =
     rbind (dindex resource ''GroupId'') (\<lambda>sg_id.
     rbind (dindex resource ''OwnerId'') (\<lambda>owner_id.
     rbind (dindex resource key) (\<lambda>permissions.
     rbind (expand_permissions permissions) (\<lambda>perms.
     rbind (matched_perms E get data sg_id owner_id fs perms) (\<lambda>(fs', ms).
       if ms = [] then Inr (fs', resource, False)
       else rbind (annotate_matches (''Matched'' @ key) ms resource) (\<lambda>r. Inr (fs', r, True)))))))"

fun sg_filter ::
  "ext \<Rightarrow> (pyval list \<Rightarrow> pyval list res) \<Rightarrow> string \<Rightarrow> pydict \<Rightarrow> (pydict \<times> vstate) list \<Rightarrow> pydict list \<Rightarrow> pydict list res" where
  "sg_filter E get key data fs [] = Inr []"
| "sg_filter E get key data fs (r # rs) =
     rbind (sg_call E get key data fs r) (\<lambda>(fs', r', b).
     rbind (sg_filter E get key data fs' rs) (\<lambda>rs'. Inr (if b then r' # rs' else rs')))"

datatype direction = Ingress | Egress

fun ip_permissions_key :: "direction \<Rightarrow> string" where
  "ip_permissions_key Ingress = ''IpPermissions''"
| "ip_permissions_key Egress = ''IpPermissionsEgress''"

definition sg_process ::
  "ext \<Rightarrow> (pyval list \<Rightarrow> pyval list res) \<Rightarrow> direction \<Rightarrow> pydict \<Rightarrow> pydict list \<Rightarrow> pydict list res" where
  "sg_process E get dir data resources = sg_filter E get (ip_permissions_key dir) data (sg_vfilters data) resources"

definition SG_ATTRS :: "string list" where
  "SG_ATTRS = [''IpProtocol'', ''FromPort'', ''ToPort'', ''UserIdGroupPairs'', ''IpRanges'', ''PrefixListIds'',
     ''Cidr'', ''CidrV6'', ''Ports'', ''OnlyPorts'', ''SelfReference'', ''Description'', ''SGReferences'', ''match-operator'']"

text \<open>\<open>delta.remove('type')\<close> needs the key to be there.\<close>

definition sg_validate :: "pydict \<Rightarrow> unit res" where
  "sg_validate data =
     (let delta = filter (\<lambda>k. k \<notin> set SG_ATTRS) (dkeys data)
      in if ''type'' \<notin> set delta then Inl KeyError
         else if list_all (\<lambda>k. k = ''type'') delta then Inr () else Inl PolicyValidationError)"

section \<open>Removing what matched\<close>

text \<open>\<open>RemovePermissions\<close>: the calls it makes, the direction and the rules of each.\<close>

definition removal :: "direction \<Rightarrow> pyval \<Rightarrow> pydict \<Rightarrow> pyval option" where
  "removal dir perms r =
     (let key = ip_permissions_key dir;
          groups = (if perms = PStr ''matched'' then dget_or r (''Matched'' @ key) (PTuple [])
            else if perms = PStr ''all'' then dget_or r key (PTuple [])
            else if is_list perms then perms else PNone)
      in if py_truth groups then Some groups else None)"

definition remove_permissions :: "pydict \<Rightarrow> pydict list \<Rightarrow> (direction \<times> pyval \<times> pyval) list res" where
  "remove_permissions data resources =
     rbind (rmap (\<lambda>r.
       rbind (case removal Ingress (dget_or data ''ingress'' (PStr ''matched'')) r of
           None \<Rightarrow> Inr [] | Some g \<Rightarrow> rbind (dindex r ''GroupId'') (\<lambda>i. Inr [(Ingress, i, g)])) (\<lambda>a.
       rbind (case removal Egress (dget_or data ''egress'' (PStr ''matched'')) r of
           None \<Rightarrow> Inr [] | Some g \<Rightarrow> rbind (dindex r ''GroupId'') (\<lambda>i. Inr [(Egress, i, g)])) (\<lambda>b.
         Inr (a @ b)))) resources) (\<lambda>css. Inr (concat css))"

end
