(* ===== verification/SG_Facts.thy ===== *)
theory SG_Facts
  imports SG_Permission
begin

text \<open>
  Properties of security group rules: what the port tests decide, that expanding a rule
  loses and invents nothing, and that annotating matches twice is annotating them once.
\<close>

section \<open>Ports\<close>

lemma int_ge: "op_ge (PInt a) (PInt b) = Inr (b \<le> a)"
  by (auto simp: op_ge_def cmp_with_def unparsed_def num_ord_def num_of_def ord_of_def)

lemma int_le: "op_le (PInt a) (PInt b) = Inr (a \<le> b)"
  by (auto simp: op_le_def cmp_with_def unparsed_def num_ord_def num_of_def ord_of_def)

lemma ports_found_ints:
  "ports_found (PInt lo) (PInt hi) (map PInt ps) found =
     Inr (if ps = [] then found else Some (\<exists>port \<in> set ps. lo \<le> port \<and> port \<le> hi))"
  by (induction ps arbitrary: found) (auto simp: int_ge int_le)

text \<open>On a rule with a port range, \<open>Ports\<close> holds when any one of the given ports lies in the
  range, and \<open>OnlyPorts\<close> is a negative test: it excludes the rules that are exactly one of
  its ports, and lets every other rule pass unless \<open>Ports\<close> fails.\<close>
theorem process_ports_spec:
  assumes "dget perm ''FromPort'' = Some (PInt lo)" "dget perm ''ToPort'' = Some (PInt hi)"
  shows "process_ports (PList (map PInt ports)) (PList (map PInt only)) perm =
    Inr (if only = [] then (if ports = [] then None else Some (\<exists>port \<in> set ports. lo \<le> port \<and> port \<le> hi))
         else Some (\<not> (lo = hi \<and> lo \<in> set only) \<and>
           (ports = [] \<or> (\<exists>port \<in> set ports. lo \<le> port \<and> port \<le> hi))))"
proof -
  have "list_ex (\<lambda>port. num_eq port (PInt lo) \<and> num_eq port (PInt hi)) (map PInt only) \<longleftrightarrow> lo = hi \<and> lo \<in> set only"
    by (induction only) (auto simp: num_eq_def num_of_def)
  moreover have "list_ex (\<lambda>port. py_eq port (PInt lo) \<and> py_eq port (PInt hi)) (map PInt only) =
      list_ex (\<lambda>port. num_eq port (PInt lo) \<and> num_eq port (PInt hi)) (map PInt only)"
    by (induction only) simp_all
  ultimately have o: "list_ex (\<lambda>port. py_eq port (PInt lo) \<and> py_eq port (PInt hi)) (map PInt only) \<longleftrightarrow>
      lo = hi \<and> lo \<in> set only" by (rule trans[rotated])
  have "process_ports (PList (map PInt ports)) (PList (map PInt only)) perm =
    (let found = (if ports = [] then None else Some (\<exists>port \<in> set ports. lo \<le> port \<and> port \<le> hi));
         only_found = (lo = hi \<and> lo \<in> set only)
     in Inr (if map PInt only \<noteq> [] \<and> \<not> only_found then Some (found = None \<or> found = Some True)
             else if map PInt only \<noteq> [] \<and> only_found then Some False else found))"
    by (simp only: process_ports_def assms prod.case option.case py_iter.simps rbind_Inr ports_found_ints o Let_def)
  then show ?thesis by (simp add: Let_def)
qed

lemma process_ports_spec_witness:
  "process_ports (PList [PInt 22, PInt 3389]) (PList []) [(''FromPort'', PInt 20), (''ToPort'', PInt 25)] =
     Inr (Some True)"
  using process_ports_spec[of "[(''FromPort'', PInt 20), (''ToPort'', PInt 25)]" 20 25 "[22, 3389]" "[]"] by simp

section \<open>Expansion\<close>

definition entries :: "pydict \<Rightarrow> string \<Rightarrow> pyval list" where
  "entries p k = (case dget p k of Some (PList es) \<Rightarrow> es | _ \<Rightarrow> [])"

lemma dget_stripped:
  "dget (stripped p) k = (if k \<in> set GROUPED then Some (PList []) else dget p k)"
  by (simp add: stripped_def GROUPED_def)

lemma expand_one_entries:
  assumes "\<And>k. k \<in> set GROUPED \<Longrightarrow> dget p k = None \<or> (\<exists>es. dget p k = Some (PList es))"
  shows "expand_one p =
    Inr (concat (map (\<lambda>k. map (\<lambda>e. dput k (PList [e]) (stripped p)) (entries p k)) GROUPED))"
proof -
  have "(let v = dget_or p k (PTuple [])
         in if \<not> py_truth v then Inr []
            else rbind (py_iter v) (\<lambda>es. Inr (map (\<lambda>e. dput k (PList [e]) (stripped p)) es))) =
      Inr (map (\<lambda>e. dput k (PList [e]) (stripped p)) (entries p k))" if "k \<in> set GROUPED" for k
    using assms[OF that] by (auto simp: dget_or_def entries_def Let_def)
  then show ?thesis by (simp add: expand_one_def rmap_pure)
qed

lemma entries_expanded:
  "k \<in> set GROUPED \<Longrightarrow> k' \<in> set GROUPED \<Longrightarrow>
   entries (dput k' (PList [e]) (stripped p)) k = (if k = k' then [e] else [])"
  by (simp add: entries_def dget_stripped)

lemma concat_expanded:
  assumes "k \<in> set GROUPED" "set ks \<subseteq> set GROUPED" "distinct ks"
  shows "concat (map (\<lambda>r. entries r k) (concat (map (\<lambda>k'. map (\<lambda>e. dput k' (PList [e]) (stripped p)) (entries p k')) ks))) =
    (if k \<in> set ks then entries p k else [])"
  using assms(2,3)
proof (induction ks)
  case (Cons k' ks)
  have "concat (map (\<lambda>r. entries r k) (map (\<lambda>e. dput k' (PList [e]) (stripped p)) es)) = (if k = k' then es else [])" for es
    using assms(1) Cons.prems(1) by (induction es) (simp_all add: entries_expanded)
  with Cons show ?case by simp
qed simp

text \<open>A rule with one entry, in one of its lists.\<close>

definition single_rule :: "pydict \<Rightarrow> pydict \<Rightarrow> bool" where
  "single_rule p r \<longleftrightarrow> (\<exists>k e. k \<in> set GROUPED \<and> e \<in> set (entries p k) \<and>
     (\<forall>k'. dget r k' = (if k' = k then Some (PList [e])
        else if k' \<in> set GROUPED then Some (PList []) else dget p k')))"

text \<open>Expanding a rule gives rules of one entry each that agree with it in everything else, and
  list by list they hold its entries, each once and in order.\<close>
theorem expand_one_spec:
  assumes "\<And>k. k \<in> set GROUPED \<Longrightarrow> dget p k = None \<or> (\<exists>es. dget p k = Some (PList es))"
  shows "\<exists>rs. expand_one p = Inr rs \<and> list_all (single_rule p) rs \<and>
    list_all (\<lambda>k. concat (map (\<lambda>r. entries r k) rs) = entries p k) GROUPED"
proof (intro exI conjI)
  let ?rs = "concat (map (\<lambda>k. map (\<lambda>e. dput k (PList [e]) (stripped p)) (entries p k)) GROUPED)"
  show "expand_one p = Inr ?rs" by (rule expand_one_entries) (rule assms)
  show "list_all (single_rule p) ?rs"
    unfolding list_all_iff
  proof
    fix r assume "r \<in> set ?rs"
    then obtain k e where k: "k \<in> set GROUPED" "e \<in> set (entries p k)" "r = dput k (PList [e]) (stripped p)" by auto
    then have "\<forall>k'. dget r k' = (if k' = k then Some (PList [e])
        else if k' \<in> set GROUPED then Some (PList []) else dget p k')"
      by (simp add: dget_stripped)
    with k show "single_rule p r" unfolding single_rule_def by blast
  qed
  have d: "distinct GROUPED" by (simp add: GROUPED_def)
  show "list_all (\<lambda>k. concat (map (\<lambda>r. entries r k) ?rs) = entries p k) GROUPED"
    unfolding list_all_iff using concat_expanded[OF _ order_refl d, of _ p] by simp
qed

lemma expand_one_spec_witness:
  "\<exists>rs. expand_one [(''FromPort'', PInt 22), (''IpRanges'', PList [PStr ''a'', PStr ''b'']), (''UserIdGroupPairs'', PList [PStr ''c''])] = Inr rs \<and>
    list_all (single_rule [(''FromPort'', PInt 22), (''IpRanges'', PList [PStr ''a'', PStr ''b'']), (''UserIdGroupPairs'', PList [PStr ''c''])]) rs \<and>
    list_all (\<lambda>k. concat (map (\<lambda>r. entries r k) rs) =
      entries [(''FromPort'', PInt 22), (''IpRanges'', PList [PStr ''a'', PStr ''b'']), (''UserIdGroupPairs'', PList [PStr ''c''])] k) GROUPED"
  by (rule expand_one_spec) (auto simp: GROUPED_def)

section \<open>Annotation\<close>

text \<open>Values of a cloud answer are equal to themselves: nothing in them compares otherwise.\<close>

lemma add_matches_mem:
  "mem_eq v old \<Longrightarrow> mem_eq v (add_matches old ms)"
  by (induction ms arbitrary: old) (auto simp: add_matches_def mem_eq_def)

lemma add_matches_all:
  assumes "\<And>m. m \<in> set ms \<Longrightarrow> py_eq (PDict m) (PDict m)"
  shows "m \<in> set ms \<Longrightarrow> mem_eq (PDict m) (add_matches old ms)"
  using assms
proof (induction ms arbitrary: old)
  case (Cons a ms)
  let ?old = "if mem_eq (PDict a) old then old else old @ [PDict a]"
  have step: "add_matches old (a # ms) = add_matches ?old ms" by (simp add: add_matches_def)
  show ?case
  proof (cases "m = a")
    case True
    have "mem_eq (PDict a) ?old"
      using Cons.prems(2)[of a] by (simp add: mem_eq_def del: py_eq.simps)
    with True show ?thesis unfolding step by (simp add: add_matches_mem)
  next
    case False
    with Cons.prems have "m \<in> set ms" by simp
    with Cons.IH[of ?old] Cons.prems(2) show ?thesis unfolding step by simp
  qed
qed simp

lemma add_matches_known: "\<forall>m \<in> set ms. mem_eq (PDict m) acc \<Longrightarrow> add_matches acc ms = acc"
  by (induction ms) (auto simp: add_matches_def)

text \<open>Annotating the rules that matched is idempotent: when a second filter of a policy finds
  the same rules, the annotation stays as it is.\<close>
theorem annotate_matches_idempotent:
  assumes "\<And>m. m \<in> set ms \<Longrightarrow> py_eq (PDict m) (PDict m)" "annotate_matches key ms resource = Inr r"
  shows "annotate_matches key ms r = Inr r"
proof -
  from assms(2) obtain old where old: "dget_or resource key (PList []) = PList old"
    and r: "r = dput key (PList (add_matches old ms)) resource"
    by (auto simp: annotate_matches_def split: pyval.splits)
  have "dget_or r key (PList []) = PList (add_matches old ms)" by (simp add: r dget_or_def)
  moreover have "add_matches (add_matches old ms) ms = add_matches old ms"
    by (rule add_matches_known) (use add_matches_all[OF assms(1)] in blast)
  moreover have "dput key v (dput key v d) = dput key v d" for v :: pyval and d
    by (induction d) auto
  ultimately show ?thesis by (simp add: annotate_matches_def r)
qed

lemma annotate_matches_idempotent_witness:
  "annotate_matches ''MatchedIpPermissions'' [[(''FromPort'', PInt 22)], [(''FromPort'', PInt 22)]]
     [(''MatchedIpPermissions'', PList [PDict [(''FromPort'', PInt 22)]])] =
   Inr [(''MatchedIpPermissions'', PList [PDict [(''FromPort'', PInt 22)]])]"
  by (rule annotate_matches_idempotent[where resource = "[]"])
    (auto simp: annotate_matches_def dget_or_def add_matches_def mem_eq_def num_eq_def num_of_def)

end
