(* ===== verification/Caches.thy ===== *)
theory Caches
  imports Prelude
begin

text \<open>
  The caches of fetched resources (\<open>c7n/cache.py\<close>), and what the resource manager relies on
  in them. A key is a type parameter: the program encodes account, region, resource type,
  source and query into it. A saved list is a value here; that the in-memory cache hands
  out the very list it was given is not followed.
\<close>

section \<open>What a cache promises\<close>

text \<open>It gives back nothing but what was saved under the key.\<close>

locale cache =
  fixes cget :: "'c \<Rightarrow> 'k \<Rightarrow> 'v option"
    and csave :: "'c \<Rightarrow> 'k \<Rightarrow> 'v \<Rightarrow> 'c"
  assumes honest: "cget (csave c k v) m = Some x \<Longrightarrow> m = k \<and> x = v \<or> cget c m = Some x"
begin

text \<open>The entries agree with what producing them gives.\<close>

definition coherent :: "('k \<Rightarrow> 'e + 'v) \<Rightarrow> 'c \<Rightarrow> bool" where
  "coherent produce c \<longleftrightarrow> (\<forall>k v. cget c k = Some v \<longrightarrow> produce k = Inr v)"

lemma coherent_get: "coherent produce c \<Longrightarrow> cget c k = Some v \<Longrightarrow> produce k = Inr v"
  by (simp add: coherent_def)

lemma coherent_save: "coherent produce c \<Longrightarrow> produce k = Inr v \<Longrightarrow> coherent produce (csave c k v)"
  using honest[of c k v] by (auto simp: coherent_def)

end

text \<open>One that also keeps what was saved last.\<close>

locale keeping_cache = cache +
  assumes kept: "cget (csave c k v) k = Some v"
begin

lemma save_twice: "cget (csave (csave c k v) k w) k = Some w"
  by (rule kept)

end

section \<open>The caches of the program\<close>

datatype cache_kind = NullCache | InMemoryCache | SqlKvCache

text \<open>\<open>factory\<close>; an absent configuration, cache or period is None.\<close>

definition cache_factory :: "(string option \<times> nat option) option \<Rightarrow> cache_kind" where
  "cache_factory config = (case config of
      None \<Rightarrow> NullCache
    | Some (path, period) \<Rightarrow>
        if path \<in> {None, Some []} \<or> period \<in> {None, Some 0} then NullCache
        else if path = Some ''memory'' then InMemoryCache
        else SqlKvCache)"

definition null_get :: "unit \<Rightarrow> 'k \<Rightarrow> 'v option" where
  "null_get c k = None"

definition null_save :: "unit \<Rightarrow> 'k \<Rightarrow> 'v \<Rightarrow> unit" where
  "null_save c k v = ()"

type_synonym ('k, 'v) mem_cache = "('k, 'v) odict"

definition mem_get :: "('k, 'v) mem_cache \<Rightarrow> 'k \<Rightarrow> 'v option" where
  "mem_get c k = dget c k"

definition mem_save :: "('k, 'v) mem_cache \<Rightarrow> 'k \<Rightarrow> 'v \<Rightarrow> ('k, 'v) mem_cache" where
  "mem_save c k v = dput k v c"

definition mem_size :: "('k, 'v list) mem_cache \<Rightarrow> nat" where
  "mem_size c = sum_list (map length (dvalues c))"

text \<open>
  The SQL cache: the rows of its table with their dates in minutes, whether the file is an
  SQLite one, and whether the connection is open.
\<close>

record ('k, 'v) sql_cache =
  sc_rows :: "('k, 'v \<times> rat) odict"
  sc_sqlite :: bool
  sc_open :: bool
  sc_period :: nat

text \<open>\<open>init\<close>: a file of another format is removed, rows past the period are deleted.\<close>

definition sql_init :: "rat \<Rightarrow> ('k, 'v) sql_cache \<Rightarrow> ('k, 'v) sql_cache" where
  "sql_init now c =
     (let rows = (if sc_sqlite c then sc_rows c else [])
      in c\<lparr>sc_rows := filter (\<lambda>(k, v, t). \<not> t < now - of_nat (sc_period c)) rows, sc_sqlite := True, sc_open := True\<rparr>)"

definition sql_load :: "rat \<Rightarrow> ('k, 'v) sql_cache \<Rightarrow> ('k, 'v) sql_cache" where
  "sql_load now c = (if sc_open c then c else sql_init now c)"

definition sql_close :: "('k, 'v) sql_cache \<Rightarrow> ('k, 'v) sql_cache" where
  "sql_close c = c\<lparr>sc_open := False\<rparr>"

definition sql_get :: "rat \<Rightarrow> ('k, 'v) sql_cache \<Rightarrow> 'k \<Rightarrow> 'v option" where
  "sql_get now c k = (case dget (sc_rows c) k of
      None \<Rightarrow> None
    | Some (v, t) \<Rightarrow> if of_nat (sc_period c) < now - t then None else Some v)"

definition sql_save :: "rat \<Rightarrow> ('k, 'v) sql_cache \<Rightarrow> 'k \<Rightarrow> 'v \<Rightarrow> ('k, 'v) sql_cache" where
  "sql_save now c k v = c\<lparr>sc_rows := dput k (v, now) (sc_rows c)\<rparr>"

text \<open>Using a closed one fails: there is no connection.\<close>

definition sql_get_r :: "rat \<Rightarrow> ('k, 'v) sql_cache \<Rightarrow> 'k \<Rightarrow> 'v option res" where
  "sql_get_r now c k = (if sc_open c then Inr (sql_get now c k) else Inl AttributeError)"

definition sql_save_r :: "rat \<Rightarrow> ('k, 'v) sql_cache \<Rightarrow> 'k \<Rightarrow> 'v \<Rightarrow> ('k, 'v) sql_cache res" where
  "sql_save_r now c k v = (if sc_open c then Inr (sql_save now c k v) else Inl AttributeError)"

section \<open>They keep the promise\<close>

interpretation null_cache: cache null_get null_save
  by unfold_locales (simp add: null_get_def)

interpretation mem_cache: keeping_cache mem_get mem_save
  by unfold_locales (auto simp: mem_get_def mem_save_def split: if_splits)

interpretation sql_cache: keeping_cache "sql_get now" "sql_save now"
  for now
  by unfold_locales (auto simp: sql_get_def sql_save_def split: if_splits option.splits prod.splits)

text \<open>Opening and closing invent no entry either.\<close>

lemma map_of_filter_Some:
  "map_of (filter P d) k = Some v \<Longrightarrow> distinct (map fst d) \<Longrightarrow> map_of d k = Some v"
  by (metis filter_is_subset map_of_SomeD map_of_is_SomeI subsetD)

lemma sql_init_honest:
  assumes "distinct (dkeys (sc_rows c))" "sql_get now (sql_init now' c) k = Some v"
  shows "sql_get now c k = Some v"
proof -
  from assms(2) obtain t where t: "dget (filter (\<lambda>(k, v, t). \<not> t < now' - of_nat (sc_period c))
      (if sc_sqlite c then sc_rows c else [])) k = Some (v, t)" "\<not> of_nat (sc_period c) < now - t"
    by (auto simp: sql_get_def sql_init_def Let_def split: option.splits if_splits)
  then have "sc_sqlite c" by (auto split: if_splits)
  with t(1) have "dget (filter (\<lambda>(k, v, t). \<not> t < now' - of_nat (sc_period c)) (sc_rows c)) k = Some (v, t)"
    by simp
  from map_of_filter_Some[OF this] assms(1) have "dget (sc_rows c) k = Some (v, t)"
    by (simp add: dkeys_def)
  with t show ?thesis by (simp add: sql_get_def)
qed

end
