(* ===== verification/Query_Manager.thy ===== *)
theory Query_Manager
  imports Caches Utils_Parse
begin

text \<open>
  How a resource manager comes by its resources (\<open>QueryResourceManager\<close> of \<open>c7n/query.py\<close>):
  from the cache or the source, through the filters of the policy, within the limits the
  policy sets on its execution.
\<close>

section \<open>Limits\<close>

record limits =
  lim_op :: string
  lim_amount :: pyval
  lim_percent :: pyval

definition int_like :: "pyval \<Rightarrow> bool" where
  "int_like v = is_int v"

text \<open>\<open>_parse_policy\<close>; the default operator comes from the environment.\<close>

definition parse_limits :: "string \<Rightarrow> pyval \<Rightarrow> pyval \<Rightarrow> limits res" where
  "parse_limits default_op max_resources max_resources_percent =
     rbind (case max_resources of
         PDict d \<Rightarrow>
           (case dget_or d ''op'' (PStr default_op) of
              PStr s \<Rightarrow> Inr \<lparr>lim_op = lower s, lim_amount = dget_or d ''amount'' PNone, lim_percent = dget_or d ''percent'' PNone\<rparr>
            | _ \<Rightarrow> Inl AttributeError)
       | _ \<Rightarrow> Inr \<lparr>lim_op = default_op, lim_amount = (if int_like max_resources then max_resources else PNone),
                  lim_percent = PNone\<rparr>) (\<lambda>l.
       Inr (case max_resources_percent of
           PInt i \<Rightarrow> l\<lparr>lim_percent := PInt i\<rparr>
         | PBool b \<Rightarrow> l\<lparr>lim_percent := PBool b\<rparr>
         | PFloat f \<Rightarrow> l\<lparr>lim_percent := PFloat f\<rparr>
         | _ \<Rightarrow> l))"

text \<open>\<open>population_count * (percent / 100.0)\<close>.\<close>

definition percentage_amount :: "pyval \<Rightarrow> nat \<Rightarrow> pyval res" where
  "percentage_amount percent population =
     (if \<not> py_truth percent then Inr PNone
      else case num_of percent of
          None \<Rightarrow> Inl TypeError
        | Some (Fin x) \<Rightarrow> (case round_double x of
              Fin y \<Rightarrow> Inr (PFloat (float_mul_int (float_div (Fin y) 100) (int population)))
            | _ \<Rightarrow> Inl OverflowError)
        | Some f \<Rightarrow> Inr (PFloat (float_mul_int (float_div f 100) (int population))))"

definition over :: "nat \<Rightarrow> pyval \<Rightarrow> bool res" where
  "over selection limit = op_gt (PInt (int selection)) limit"

text \<open>\<open>check_resource_limits\<close>: the three tests in their order.\<close>

definition check_resource_limits :: "limits \<Rightarrow> nat \<Rightarrow> nat \<Rightarrow> unit res" where
  "check_resource_limits l selection population =
     rbind (percentage_amount (lim_percent l) population) (\<lambda>pa.
     let amount = lim_amount l; both = (py_truth pa \<and> py_truth amount)
     in rbind (if both then rbind (over selection amount) (\<lambda>a.
               rbind (if a then over selection pa else Inr False) (\<lambda>b. Inr (b \<and> lim_op l = ''and''))) else Inr False) (\<lambda>x.
        if x then Inl ResourceLimitExceeded
        else rbind (if py_truth amount then rbind (over selection amount) (\<lambda>a. Inr (a \<and> lim_op l \<noteq> ''and'')) else Inr False) (\<lambda>y.
        if y then Inl ResourceLimitExceeded
        else rbind (if py_truth pa then rbind (over selection pa) (\<lambda>a. Inr (a \<and> lim_op l \<noteq> ''and'')) else Inr False) (\<lambda>z.
        if z then Inl ResourceLimitExceeded else Inr ()))))"

section \<open>Filters\<close>

text \<open>\<open>filter_resources\<close>: the filters in turn, until nothing is left.\<close>

fun filter_resources :: "('r list \<Rightarrow> 'r list res) list \<Rightarrow> 'r list \<Rightarrow> 'r list res" where
  "filter_resources [] rs = Inr rs"
| "filter_resources (f # fs) rs = (if rs = [] then Inr [] else rbind (f rs) (filter_resources fs))"

section \<open>Resources\<close>

text \<open>
  \<open>resources\<close>: what the cache has, or else what the source gives, augmented and saved unless
  the caller asked for it plain.
\<close>

definition fetch_resources ::
  "('c \<Rightarrow> 'k \<Rightarrow> 'r list option) \<Rightarrow> ('c \<Rightarrow> 'k \<Rightarrow> 'r list \<Rightarrow> 'c) \<Rightarrow> ('k \<Rightarrow> 'r list res) \<Rightarrow> ('r list \<Rightarrow> 'r list res) \<Rightarrow>
   bool \<Rightarrow> 'k \<Rightarrow> 'c \<Rightarrow> ('r list \<times> 'c) res" where
  "fetch_resources cget csave source augment aug key c = (case cget c key of
      Some rs \<Rightarrow> Inr (rs, c)
    | None \<Rightarrow> rbind (source key) (\<lambda>rs.
        if aug then rbind (augment rs) (\<lambda>rs'. Inr (rs', csave c key rs')) else Inr (rs, c)))"

definition manager_resources ::
  "('c \<Rightarrow> 'k \<Rightarrow> 'r list option) \<Rightarrow> ('c \<Rightarrow> 'k \<Rightarrow> 'r list \<Rightarrow> 'c) \<Rightarrow> ('k \<Rightarrow> 'r list res) \<Rightarrow> ('r list \<Rightarrow> 'r list res) \<Rightarrow>
   ('r list \<Rightarrow> 'r list res) list \<Rightarrow> limits option \<Rightarrow> bool \<Rightarrow> 'k \<Rightarrow> 'c \<Rightarrow> ('r list \<times> 'c) res" where
  "manager_resources cget csave source augment filters own_limits aug key c =
     rbind (fetch_resources cget csave source augment aug key c) (\<lambda>(rs, c').
     rbind (filter_resources filters rs) (\<lambda>selected.
     rbind (case own_limits of None \<Rightarrow> Inr ()
            | Some l \<Rightarrow> check_resource_limits l (length selected) (length rs)) (\<lambda>_. Inr (selected, c'))))"

text \<open>\<open>get_resources\<close>: by id, from the cached population when there is one; the ids of an event
  that do not resolve give nothing.\<close>

definition get_resources ::
  "('c \<Rightarrow> 'k \<Rightarrow> 'r list option) \<Rightarrow> ('r \<Rightarrow> string res) \<Rightarrow> (string list \<Rightarrow> 'r list res) \<Rightarrow> ('r list \<Rightarrow> 'r list res) \<Rightarrow>
   bool \<Rightarrow> bool \<Rightarrow> 'k \<Rightarrow> 'c \<Rightarrow> string list \<Rightarrow> 'r list res" where
  "get_resources cget rid source augment use_cache aug key c ids =
     (if ids = [] then Inr []
      else case (if use_cache then cget c key else None) of
          Some rs \<Rightarrow> rfilter (\<lambda>r. rbind (rid r) (\<lambda>i. Inr (i \<in> set ids))) rs
        | None \<Rightarrow>
            (case rbind (source ids) (\<lambda>rs. if aug then augment rs else Inr rs) of
               Inl ClientError \<Rightarrow> Inr [] | r \<Rightarrow> r))"

section \<open>The properties\<close>

text \<open>What the manager gives without a cache.\<close>

definition fresh_resources ::
  "('k \<Rightarrow> 'r list res) \<Rightarrow> ('r list \<Rightarrow> 'r list res) \<Rightarrow> ('r list \<Rightarrow> 'r list res) list \<Rightarrow> limits option \<Rightarrow> 'k \<Rightarrow> 'r list res" where
  "fresh_resources source augment filters own_limits key =
     rbind (rbind (source key) augment) (\<lambda>rs.
     rbind (filter_resources filters rs) (\<lambda>selected.
     rbind (case own_limits of None \<Rightarrow> Inr ()
            | Some l \<Rightarrow> check_resource_limits l (length selected) (length rs)) (\<lambda>_. Inr selected)))"

text \<open>A manager over any cache of resource lists.\<close>

locale managed_cache = cache cget csave
  for cget :: "'c \<Rightarrow> 'k \<Rightarrow> 'r list option" and csave :: "'c \<Rightarrow> 'k \<Rightarrow> 'r list \<Rightarrow> 'c"
begin

lemma fetch_coherent:
  assumes "coherent (\<lambda>k. rbind (source k) augment) c"
  shows "case fetch_resources cget csave source augment True key c of
      Inr (rs, c') \<Rightarrow> rbind (source key) augment = Inr rs \<and> coherent (\<lambda>k. rbind (source k) augment) c'
    | Inl e \<Rightarrow> rbind (source key) augment = Inl e"
proof (cases "cget c key")
  case (Some rs)
  with assms coherent_get[OF assms Some] show ?thesis by (simp add: fetch_resources_def)
next
  case None
  show ?thesis
  proof (cases "rbind (source key) augment")
    case (Inl e)
    with None show ?thesis
      by (cases "source key") (simp_all add: fetch_resources_def)
  next
    case (Inr rs)
    then obtain rs0 where "source key = Inr rs0" "augment rs0 = Inr rs" by (cases "source key") auto
    with None Inr coherent_save[OF assms Inr] show ?thesis by (simp add: fetch_resources_def)
  qed
qed

lemma manager_coherent:
  assumes "coherent (\<lambda>k. rbind (source k) augment) c"
  shows "rbind (manager_resources cget csave source augment filters own True key c) (\<lambda>r. Inr (fst r)) =
      fresh_resources source augment filters own key \<and>
    (\<forall>rs c'. manager_resources cget csave source augment filters own True key c = Inr (rs, c') \<longrightarrow>
      coherent (\<lambda>k. rbind (source k) augment) c')"
proof (cases "fetch_resources cget csave source augment True key c")
  case (Inl e)
  with fetch_coherent[OF assms, of key] show ?thesis
    by (simp add: manager_resources_def fresh_resources_def)
next
  case (Inr r)
  obtain rs c' where r: "r = (rs, c')" by (cases r)
  with fetch_coherent[OF assms, of key] Inr
  have f: "rbind (source key) augment = Inr rs" "coherent (\<lambda>k. rbind (source k) augment) c'" by simp_all
  then show ?thesis
    by (auto simp: manager_resources_def fresh_resources_def Inr r rbind_assoc rbind_eq_Inr
        split: sum.splits option.splits)
qed

end

interpretation null_manager: managed_cache null_get null_save ..

interpretation mem_manager: managed_cache mem_get mem_save ..

interpretation sql_manager: managed_cache "sql_get now" "sql_save now" for now ..

text \<open>C15: with any cached entries that agree with the source, the manager gives what it would give
  without a cache, and the entries it leaves agree with the source again.\<close>
theorem sql_resources_fresh:
  assumes "\<forall>k v. sql_get now c k = Some v \<longrightarrow> rbind (source k) augment = Inr v"
  shows "rbind (manager_resources (sql_get now) (sql_save now) source augment filters own True key c) (\<lambda>r. Inr (fst r)) =
      fresh_resources source augment filters own key \<and>
    (\<forall>rs c'. manager_resources (sql_get now) (sql_save now) source augment filters own True key c = Inr (rs, c') \<longrightarrow>
      (\<forall>k v. sql_get now c' k = Some v \<longrightarrow> rbind (source k) augment = Inr v))"
  by (rule sql_manager.manager_coherent[unfolded sql_cache.coherent_def]) (rule assms)

definition sql0 :: "(nat, nat list) sql_cache" where
  "sql0 = \<lparr>sc_rows = [(3, ([3, 4], 8))], sc_sqlite = True, sc_open = True, sc_period = 15\<rparr>"

lemma sql0_entries: "sql_get 10 sql0 k = (if k = 3 then Some [3, 4] else None)"
  by (simp add: sql_get_def sql0_def)

lemma sql_resources_fresh_witness:
  "rbind (manager_resources (sql_get 10) (sql_save 10) (\<lambda>k. Inr [k, k + 1]) Inr [\<lambda>rs. Inr (tl rs)] None True 3 sql0)
      (\<lambda>r. Inr (fst r)) =
    fresh_resources (\<lambda>k. Inr [k, k + 1]) Inr [\<lambda>rs. Inr (tl rs)] None (3::nat)"
  by (rule sql_resources_fresh[THEN conjunct1]) (simp add: sql0_entries)

lemma over_int: "over n (PInt a) = Inr (a < int n)"
  by (auto simp: over_def op_gt_def cmp_with_def unparsed_def num_ord_def num_of_def ord_of_def)

lemma check_limit_amount:
  assumes "lim_op l \<noteq> ''and''" "lim_amount l = PInt a" "0 < a" "check_resource_limits l selection population = Inr ()"
  shows "int selection \<le> a"
proof (rule ccontr)
  assume "\<not> int selection \<le> a"
  then have o: "over selection (PInt a) = Inr True" by (simp add: over_int)
  have t: "py_truth (lim_amount l)" using assms(2,3) by simp
  from assms(4) obtain pa x where
    "(if x then Inl ResourceLimitExceeded
        else rbind (if py_truth (lim_amount l) then rbind (over selection (lim_amount l)) (\<lambda>a. Inr (a \<and> lim_op l \<noteq> ''and'')) else Inr False) (\<lambda>y.
        if y then Inl ResourceLimitExceeded
        else rbind (if py_truth pa then rbind (over selection pa) (\<lambda>a. Inr (a \<and> lim_op l \<noteq> ''and'')) else Inr False) (\<lambda>z.
        if z then Inl ResourceLimitExceeded else Inr ()))) = Inr ()"
    unfolding check_resource_limits_def Let_def rbind_eq_Inr by blast
  then show False using assms(1,2) o t by (cases x) simp_all
qed

text \<open>When the policy gives a number of resources and the operator is not \<open>and\<close>, no run that
  passes the check affects more than that number.\<close>
theorem resource_limit_enforced:
  assumes "lim_op l \<noteq> ''and''" "lim_amount l = PInt a" "0 < a" "check_resource_limits l selection population = Inr ()"
  shows "int selection \<le> a"
  by (rule check_limit_amount[OF assms])

lemma resource_limit_enforced_witness:
  "check_resource_limits \<lparr>lim_op = ''or'', lim_amount = PInt 5, lim_percent = PNone\<rparr> 4 10 = Inr () \<and> int 4 \<le> 5"
proof
  show c: "check_resource_limits \<lparr>lim_op = ''or'', lim_amount = PInt 5, lim_percent = PNone\<rparr> 4 10 = Inr ()"
    by (simp add: check_resource_limits_def percentage_amount_def over_int Let_def)
  show "int 4 \<le> 5" by (rule resource_limit_enforced[OF _ _ _ c]) simp_all
qed

text \<open>With the operator \<open>and\<close> and a number alone there is no limit: every selection passes.\<close>
theorem lone_limit_with_and:
  assumes "lim_op l = ''and''" "lim_amount l = PInt a" "lim_percent l = PNone"
  shows "check_resource_limits l selection population = Inr ()"
  using assms by (simp add: check_resource_limits_def percentage_amount_def over_int Let_def)

lemma lone_limit_with_and_witness:
  "check_resource_limits \<lparr>lim_op = ''and'', lim_amount = PInt 1, lim_percent = PNone\<rparr> 1000 1000 = Inr ()"
  by (rule lone_limit_with_and) simp_all

end
