(* ===== verification/Sqs_Executor.thy ===== *)
theory Sqs_Executor
  imports PyVal
begin

text \<open>
  The executor over two queues (\<open>c7n/sqsexec.py\<close>) and the one on the calling thread
  (\<open>c7n/executor.py\<close>). Submitting sends a message and keeps a future, gathering reads the
  answers and resolves the futures; the worker is a machine that reads messages and runs
  them. The queues themselves are a parameter: the answers to successive receives.
\<close>

section \<open>Messages\<close>

record sqs_msg =
  m_id :: int
  m_op :: string
  m_body :: pyval

text \<open>\<open>MessageIterator\<close>: the messages of the answers up to the first empty one.\<close>

fun drain :: "'m list list \<Rightarrow> 'm list" where
  "drain [] = []"
| "drain (b # bs) = (if b = [] then [] else b @ drain bs)"

section \<open>The executor\<close>

record sqs_exec =
  sq_start :: int
  sq_seq :: int
  sq_futures :: "(int, sqs_msg option) odict"
  sq_sent :: "sqs_msg list"
  sq_acked :: "sqs_msg list"

definition sqs_new :: "int \<Rightarrow> sqs_exec" where
  "sqs_new start = \<lparr>sq_start = start, sq_seq = start, sq_futures = [], sq_sent = [], sq_acked = []\<rparr>"

definition submit :: "sqs_exec \<Rightarrow> string \<times> pyval \<Rightarrow> sqs_exec" where
  "submit st call =
     (let seq = sq_seq st + 1
      in st\<lparr>sq_seq := seq,
            sq_sent := sq_sent st @ [\<lparr>m_id = seq, m_op = fst call, m_body = snd call\<rparr>],
            sq_futures := dput seq None (sq_futures st)\<rparr>)"

text \<open>One answer: it must be for a future of this executor, and a future is resolved once.\<close>

definition gather_one :: "sqs_exec \<Rightarrow> sqs_msg \<Rightarrow> sqs_exec res" where
  "gather_one st m =
     (if \<not> sq_start st < m_id m \<or> \<not> m_id m \<le> sq_seq st then Inl RuntimeError
      else case dget (sq_futures st) (m_id m) of
          None \<Rightarrow> Inl RuntimeError
        | Some (Some r) \<Rightarrow> Inl PyException
        | Some None \<Rightarrow> Inr (st\<lparr>sq_futures := dput (m_id m) (Some m) (sq_futures st), sq_acked := sq_acked st @ [m]\<rparr>))"

definition gather :: "sqs_exec \<Rightarrow> sqs_msg list list \<Rightarrow> sqs_exec res" where
  "gather st batches = rfold gather_one st (drain batches)"

section \<open>The worker\<close>

text \<open>
  The worker's loop: the message it is on, what it has run and acknowledged, what is still
  to come, and whether it was told to stop.
\<close>

record worker =
  wk_stopped :: bool
  wk_current :: "sqs_msg option"
  wk_ran :: "sqs_msg list"
  wk_acked :: "sqs_msg list"
  wk_queue :: "sqs_msg list"

definition worker_new :: "sqs_msg list list \<Rightarrow> worker" where
  "worker_new batches = \<lparr>wk_stopped = False, wk_current = None, wk_ran = [], wk_acked = [], wk_queue = drain batches\<rparr>"

inductive worker_step :: "worker \<Rightarrow> worker \<Rightarrow> bool" where
  receive: "wk_current w = None \<Longrightarrow> wk_queue w = m # ms \<Longrightarrow>
    worker_step w (w\<lparr>wk_current := Some m, wk_queue := ms\<rparr>)"
| run_message: "wk_current w = Some m \<Longrightarrow> \<not> wk_stopped w \<Longrightarrow>
    worker_step w (w\<lparr>wk_ran := wk_ran w @ [m], wk_acked := wk_acked w @ [m]\<rparr>)"
| leave: "wk_current w = Some m \<Longrightarrow> wk_stopped w \<Longrightarrow> worker_step w (w\<lparr>wk_current := None\<rparr>)"
| stop: "worker_step w (w\<lparr>wk_stopped := True\<rparr>)"

code_pred worker_step .

inductive_cases worker_stepE: "worker_step w w'"

inductive worker_reach :: "sqs_msg list list \<Rightarrow> worker \<Rightarrow> bool" for batches where
  start: "worker_reach batches (worker_new batches)"
| step: "worker_reach batches w \<Longrightarrow> worker_step w w' \<Longrightarrow> worker_reach batches w'"

section \<open>The executor on the calling thread\<close>

datatype 'a mt_future = MtValue 'a | MtException pyerr

text \<open>\<open>submit\<close> and \<open>result\<close>; without \<open>c7n_async\<close> the exception is raised at once.\<close>

definition mt_submit :: "bool \<Rightarrow> ('x \<Rightarrow> 'a res) \<Rightarrow> 'x \<Rightarrow> 'a mt_future res" where
  "mt_submit c7n_async func x = (case func x of
      Inr a \<Rightarrow> Inr (MtValue a)
    | Inl e \<Rightarrow> if c7n_async then Inr (MtException e) else Inl e)"

fun mt_result :: "'a mt_future \<Rightarrow> 'a res" where
  "mt_result (MtValue a) = Inr a"
| "mt_result (MtException e) = Inl e"

definition mt_map :: "('x \<Rightarrow> 'a res) \<Rightarrow> 'x list \<Rightarrow> 'a list res" where
  "mt_map func xs = rmap func xs"

section \<open>The properties\<close>

lemma submits_state:
  "let st = foldl submit (sqs_new start) calls
   in sq_start st = start \<and> sq_seq st = start + int (length calls) \<and>
      (\<forall>i. dget (sq_futures st) i = (if start < i \<and> i \<le> start + int (length calls) then Some None else None))"
proof (induction calls rule: rev_induct)
  case (snoc c cs)
  then show ?case by (auto simp: submit_def Let_def)
qed (simp add: sqs_new_def)

lemma gather_open:
  assumes "distinct (map m_id ms)"
    and "\<And>m. m \<in> set ms \<Longrightarrow> sq_start st < m_id m \<and> m_id m \<le> sq_seq st \<and> dget (sq_futures st) (m_id m) = Some None"
  shows "\<exists>st'. rfold gather_one st ms = Inr st' \<and>
    (\<forall>i. dget (sq_futures st') i = (case find (\<lambda>m. m_id m = i) ms of Some m \<Rightarrow> Some (Some m) | None \<Rightarrow> dget (sq_futures st) i)) \<and>
    sq_acked st' = sq_acked st @ ms"
  using assms
proof (induction ms arbitrary: st)
  case (Cons m ms)
  let ?st = "st\<lparr>sq_futures := dput (m_id m) (Some m) (sq_futures st), sq_acked := sq_acked st @ [m]\<rparr>"
  have m: "gather_one st m = Inr ?st" using Cons.prems(2)[of m] by (simp add: gather_one_def)
  have nd: "m_id n \<noteq> m_id m" if "n \<in> set ms" for n
  proof
    assume "m_id n = m_id m"
    with that have "m_id m \<in> m_id ` set ms" by (metis imageI)
    with Cons.prems(1) show False by simp
  qed
  have "\<exists>st'. rfold gather_one ?st ms = Inr st' \<and>
    (\<forall>i. dget (sq_futures st') i = (case find (\<lambda>m. m_id m = i) ms of Some m \<Rightarrow> Some (Some m) | None \<Rightarrow> dget (sq_futures ?st) i)) \<and>
    sq_acked st' = sq_acked ?st @ ms"
  proof (rule Cons.IH)
    show "distinct (map m_id ms)" using Cons.prems(1) by simp
    fix n assume "n \<in> set ms"
    with Cons.prems(2)[of n] nd show "sq_start ?st < m_id n \<and> m_id n \<le> sq_seq ?st \<and> dget (sq_futures ?st) (m_id n) = Some None"
      by simp
  qed
  then obtain st' where st': "rfold gather_one ?st ms = Inr st'"
    "\<And>i. dget (sq_futures st') i = (case find (\<lambda>m. m_id m = i) ms of Some m \<Rightarrow> Some (Some m) | None \<Rightarrow> dget (sq_futures ?st) i)"
    "sq_acked st' = sq_acked ?st @ ms" by blast
  have none: "find (\<lambda>n. m_id n = m_id m) ms = None" using nd by (auto simp: find_None_iff)
  have "dget (sq_futures st') i =
      (case find (\<lambda>m. m_id m = i) (m # ms) of Some m \<Rightarrow> Some (Some m) | None \<Rightarrow> dget (sq_futures st) i)" for i
    using none by (cases "m_id m = i") (auto simp: st'(2) split: option.split)
  with m st' show ?case by simp
qed simp

text \<open>C34: when one answer for each submitted call arrives, in any order and in any batches before an
  empty one, gathering succeeds, resolves every future with its own answer and acknowledges
  every answer.\<close>
theorem gather_resolves:
  assumes "distinct (map m_id (drain batches))" "set (map m_id (drain batches)) = {start <.. start + int (length calls)}"
  shows "\<exists>st'. gather (foldl submit (sqs_new start) calls) batches = Inr st' \<and>
    (\<forall>m \<in> set (drain batches). dget (sq_futures st') (m_id m) = Some (Some m)) \<and>
    (\<forall>i \<in> {start <.. start + int (length calls)}. \<exists>m. dget (sq_futures st') i = Some (Some m)) \<and>
    sq_acked st' = sq_acked (foldl submit (sqs_new start) calls) @ drain batches"
proof -
  let ?st = "foldl submit (sqs_new start) calls"
  have st: "sq_start ?st = start" "sq_seq ?st = start + int (length calls)"
    "\<And>i. dget (sq_futures ?st) i = (if start < i \<and> i \<le> start + int (length calls) then Some None else None)"
    using submits_state[of start calls] by (simp_all add: Let_def)
  have ok: "sq_start ?st < m_id m \<and> m_id m \<le> sq_seq ?st \<and> dget (sq_futures ?st) (m_id m) = Some None"
    if "m \<in> set (drain batches)" for m
  proof -
    have "m_id m \<in> {start <.. start + int (length calls)}" using assms(2) that by auto
    then show ?thesis by (simp add: st)
  qed
  from gather_open[OF assms(1) ok] obtain st' where st': "gather ?st batches = Inr st'"
    "\<And>i. dget (sq_futures st') i = (case find (\<lambda>m. m_id m = i) (drain batches) of Some m \<Rightarrow> Some (Some m) | None \<Rightarrow> dget (sq_futures ?st) i)"
    "sq_acked st' = sq_acked ?st @ drain batches"
    unfolding gather_def by blast
  have own: "dget (sq_futures st') (m_id m) = Some (Some m)" if m: "m \<in> set (drain batches)" for m
  proof -
    have "find (\<lambda>n. m_id n = m_id m) (drain batches) \<noteq> None" using m by (auto simp: find_None_iff)
    then obtain n where n: "find (\<lambda>n. m_id n = m_id m) (drain batches) = Some n" by auto
    then have "n \<in> set (drain batches)" "m_id n = m_id m"
      by (auto simp: find_Some_iff)
    with assms(1) m have "n = m" by (auto simp: distinct_map inj_on_def)
    with n st'(2) show ?thesis by simp
  qed
  have "\<exists>m. dget (sq_futures st') i = Some (Some m)" if "i \<in> {start <.. start + int (length calls)}" for i
    using that own unfolding assms(2)[symmetric] by auto
  with st' own show ?thesis by blast
qed

lemma gather_resolves_witness:
  "\<exists>st'. gather (foldl submit (sqs_new 7) [(''m:f'', PNone), (''m:g'', PNone)])
      [[\<lparr>m_id = 9, m_op = ''m:g'', m_body = PInt 2\<rparr>], [\<lparr>m_id = 8, m_op = ''m:f'', m_body = PInt 1\<rparr>], []] = Inr st'"
proof -
  let ?bs = "[[\<lparr>m_id = 9, m_op = ''m:g'', m_body = PInt 2\<rparr>], [\<lparr>m_id = 8, m_op = ''m:f'', m_body = PInt 1\<rparr>], []]"
  have "set (map m_id (drain ?bs)) = {7 <.. 7 + int (length [(''m:f'', PNone), (''m:g'', PNone)])}"
    by auto
  from gather_resolves[OF _ this] show ?thesis by auto
qed

lemma worker_invariant:
  "worker_reach batches w \<Longrightarrow>
    wk_stopped w \<or>
    (case wk_current w of None \<Rightarrow> wk_ran w = [] \<and> wk_queue w = drain batches
     | Some m \<Rightarrow> drain batches \<noteq> [] \<and> m = hd (drain batches))"
proof (induction rule: worker_reach.induct)
  case start
  then show ?case by (simp add: worker_new_def)
next
  case (step w w')
  from step.hyps(2) show ?case
  proof (cases rule: worker_step.cases)
    case (receive m ms)
    with step.IH show ?thesis by (cases "drain batches") auto
  qed (use step.IH in \<open>auto split: option.splits\<close>)
qed

lemma worker_ran_first:
  "worker_reach batches w \<Longrightarrow> set (wk_ran w) \<subseteq> set (take 1 (drain batches))"
proof (induction rule: worker_reach.induct)
  case start
  then show ?case by (simp add: worker_new_def)
next
  case (step w w')
  from step.hyps(2) show ?case
  proof (cases rule: worker_step.cases)
    case (run_message m)
    with worker_invariant[OF step.hyps(1)] have "drain batches \<noteq> []" "m = hd (drain batches)" by auto
    then have "m \<in> set (take 1 (drain batches))" by (cases "drain batches") auto
    with step.IH run_message show ?thesis by simp
  qed (use step.IH in auto)
qed

text \<open>The worker never runs any message but the first: its inner loop runs that one again and
  again until it is told to stop, and once stopped it reads the others without running
  them.\<close>
theorem worker_stuck_on_first:
  assumes "worker_reach batches w"
  shows "set (wk_ran w) \<subseteq> set (take 1 (drain batches)) \<and> wk_acked w = wk_ran w"
proof -
  have "wk_acked w = wk_ran w"
    using assms
  proof (induction rule: worker_reach.induct)
    case (step w w')
    from step.hyps(2) step.IH show ?case by (cases rule: worker_step.cases) auto
  qed (simp add: worker_new_def)
  with worker_ran_first[OF assms] show ?thesis by blast
qed

lemma worker_stuck_on_first_witness:
  "worker_reach [[\<lparr>m_id = 1, m_op = ''m:f'', m_body = PNone\<rparr>, \<lparr>m_id = 2, m_op = ''m:g'', m_body = PNone\<rparr>]]
     \<lparr>wk_stopped = False, wk_current = Some \<lparr>m_id = 1, m_op = ''m:f'', m_body = PNone\<rparr>,
      wk_ran = [\<lparr>m_id = 1, m_op = ''m:f'', m_body = PNone\<rparr>], wk_acked = [\<lparr>m_id = 1, m_op = ''m:f'', m_body = PNone\<rparr>],
      wk_queue = [\<lparr>m_id = 2, m_op = ''m:g'', m_body = PNone\<rparr>]\<rparr> \<and>
   set [\<lparr>m_id = 1, m_op = ''m:f'', m_body = PNone\<rparr>] \<subseteq> set (take 1 [\<lparr>m_id = 1, m_op = ''m:f'', m_body = PNone\<rparr>])"
proof -
  let ?a = "\<lparr>m_id = 1, m_op = ''m:f'', m_body = PNone\<rparr>" and ?b = "\<lparr>m_id = 2, m_op = ''m:g'', m_body = PNone\<rparr>"
  let ?w1 = "\<lparr>wk_stopped = False, wk_current = Some ?a, wk_ran = [], wk_acked = [], wk_queue = [?b]\<rparr>"
  let ?w2 = "\<lparr>wk_stopped = False, wk_current = Some ?a, wk_ran = [?a], wk_acked = [?a], wk_queue = [?b]\<rparr>"
  have "worker_step (worker_new [[?a, ?b]]) ?w1"
    using worker_step.receive[of "worker_new [[?a, ?b]]" ?a "[?b]"] by (simp add: worker_new_def)
  moreover have "worker_step ?w1 ?w2"
    using worker_step.run_message[of ?w1 ?a] by simp
  ultimately have r: "worker_reach [[?a, ?b]] ?w2"
    using worker_reach.start worker_reach.step by blast
  with worker_stuck_on_first[OF r] show ?thesis by simp
qed

end
