(* ===== verification/Policy_Files.thy ===== *)
theory Policy_Files
  imports Utils_Aws
begin

text \<open>
  Policy files: the structure checks made before any schema (\<open>c7n/structure.py\<close>), the types of
  resources a file uses, and how the classes for them are found among the providers
  (\<open>c7n/provider.py\<close>, \<open>c7n/resources/__init__.py\<close>, \<open>c7n/loader.py\<close>). A provider's
  resource map is data; which modules can be imported and which classes they define are
  parameters.
\<close>

section \<open>Structure\<close>

definition allowed_file_keys :: "string list" where
  "allowed_file_keys = [''vars'', ''policies'']"

definition required_policy_keys :: "string list" where
  "required_policy_keys = [''name'', ''resource'']"

definition allowed_policy_keys :: "string list" where
  "allowed_policy_keys = [''name'', ''resource'', ''title'', ''description'', ''mode'',
     ''tags'', ''max-resources'', ''metadata'', ''query'',
     ''filters'', ''actions'', ''source'', ''conditions'',
     ''region'', ''start'', ''end'', ''tz'', ''max-resources-percent'',
     ''comments'', ''comment'']"

text \<open>\<open>json.dumps\<close> of a value that is only put in a message: it may raise.\<close>

fun json_ok :: "pyval \<Rightarrow> bool" where
  "json_ok (PList xs) = list_all json_ok xs"
| "json_ok (PTuple xs) = list_all json_ok xs"
| "json_ok (PDict d) = list_all (\<lambda>(k, v). json_ok v) d"
| "json_ok PNone = True"
| "json_ok (PBool b) = True"
| "json_ok (PInt i) = True"
| "json_ok (PFloat f) = True"
| "json_ok (PStr s) = True"
| "json_ok _ = False"

text \<open>The error whose message shows the policy.\<close>

definition shown :: "pyval \<Rightarrow> 'a res" where
  "shown p = Inl (if json_ok p then PolicyValidationError else TypeError)"

definition list_or_none :: "pyval \<Rightarrow> bool" where
  "list_or_none v = (case v of PList xs \<Rightarrow> True | PNone \<Rightarrow> True | _ \<Rightarrow> False)"

text \<open>\<open>p.get(key, ()) or []\<close>, a list or None by now.\<close>

definition elements :: "pydict \<Rightarrow> string \<Rightarrow> pyval list" where
  "elements p key = (case dget p key of Some (PList xs) \<Rightarrow> xs | _ \<Rightarrow> [])"

definition is_element :: "pyval \<Rightarrow> bool" where
  "is_element v \<longleftrightarrow> is_dict v \<or> is_str v"

definition mode_ok :: "pyval \<Rightarrow> bool" where
  "mode_ok m = (case m of PDict d \<Rightarrow> dhas d ''type'' | _ \<Rightarrow> False)"

text \<open>\<open>pr.split('.')[0]\<close>.\<close>

definition provider_part :: "pyval \<Rightarrow> string res" where
  "provider_part v = (case v of PStr s \<Rightarrow> Inr (hd (split_char CHR ''.'' s)) | _ \<Rightarrow> Inl AttributeError)"

definition validate_policy :: "pyval \<Rightarrow> unit res" where
  "validate_policy p = (case p of
      PDict d \<Rightarrow>
        if \<not> list_all (dhas d) required_policy_keys then shown p
        else if \<not> list_all (\<lambda>k. k \<in> set allowed_policy_keys) (dkeys d) then Inl PolicyValidationError
        else if dhas d ''mode'' \<and> \<not> mode_ok (dget_or d ''mode'' PNone) then Inl PolicyValidationError
        else if \<not> list_or_none (dget_or d ''filters'' (PList [])) then Inl PolicyValidationError
        else if \<not> list_all is_element (elements d ''filters'') then Inl PolicyValidationError
        else if \<not> list_or_none (dget_or d ''actions'' (PList [])) then Inl PolicyValidationError
        else if \<not> list_all is_element (elements d ''actions'') then Inl PolicyValidationError
        else (case dget_or d ''resource'' (PStr []) of
            PList rs \<Rightarrow> rbind (rmap provider_part rs) (\<lambda>ps.
              if 1 < length (remdups ps) then Inl PolicyValidationError else Inr ())
          | _ \<Rightarrow> Inr ())
    | _ \<Rightarrow> shown p)"

definition structure_validate :: "pyval \<Rightarrow> unit res" where
  "structure_validate data = (case data of
      PDict d \<Rightarrow>
        if \<not> list_all (\<lambda>k. k \<in> set allowed_file_keys) (dkeys d) then Inl PolicyValidationError
        else (case dget d ''policies'' of
            None \<Rightarrow> Inl PolicyValidationError
          | Some (PList ps) \<Rightarrow> rfold (\<lambda>_ p. validate_policy p) () ps
          | Some _ \<Rightarrow> Inl PolicyValidationError)
    | _ \<Rightarrow> Inl PolicyValidationError)"

text \<open>
  \<open>get_resource_types\<close>: a type without a provider is one of AWS, unless it stands in a list
  of types, which is taken over as it is. A dictionary in place of a type is printed; a file
  holds no tuples.
\<close>

definition policy_types :: "ext \<Rightarrow> pyval \<Rightarrow> pyval list res" where
  "policy_types E p = (case p of
      PDict d \<Rightarrow> rbind (dindex d ''resource'') (\<lambda>rtype. case rtype of
          PList rs \<Rightarrow> if list_all hashable rs then Inr rs else Inl TypeError
        | PStr s \<Rightarrow> Inr [PStr (if CHR ''.'' \<in> set s then s else ''aws.'' @ s)]
        | PDict r \<Rightarrow> if dhas r ''.'' then Inl TypeError else Inr [PStr (''aws.'' @ py_str E (PDict r))]
        | _ \<Rightarrow> Inl TypeError)
    | _ \<Rightarrow> Inl TypeError)"

definition get_resource_types :: "ext \<Rightarrow> pydict \<Rightarrow> pyval list res" where
  "get_resource_types E data =
     rbind (py_iter (dget_or data ''policies'' (PList []))) (\<lambda>ps.
     rbind (rmap (policy_types E) ps) (\<lambda>tss. Inr (dedup (concat tss))))"

section \<open>Finding resource classes\<close>

text \<open>
  A value of a resource map: a class, or the dotted path of one. \<open>importable\<close> says which
  modules exist and \<open>attr\<close> gives a module's classes; classes are named by strings.
\<close>

datatype rclass = Class string | Dotted string

type_synonym rmap_t = "(string, rclass) odict"

definition module_of :: "string \<Rightarrow> (string \<times> string) res" where
  "module_of path = (case rsplit1 CHR ''.'' path of [m, c] \<Rightarrow> Inr (m, c) | _ \<Rightarrow> Inl ValueError)"

text \<open>\<open>xs.remove(x)\<close>.\<close>

definition py_remove :: "'a \<Rightarrow> 'a list \<Rightarrow> 'a list res" where
  "py_remove x xs = (if x \<in> set xs then Inr (remove1 x xs) else Inl ValueError)"

text \<open>A module that cannot be imported takes its types off the list of those wanted.\<close>

definition drop_module :: "rmap_t \<Rightarrow> string \<Rightarrow> string list \<Rightarrow> string list res" where
  "drop_module rm emod types =
     rfold (\<lambda>ts (rtype, c). case c of
         Class k \<Rightarrow> Inl AttributeError
       | Dotted p \<Rightarrow> if emod = hd (rsplit1 CHR ''.'' p) then py_remove rtype ts else Inr ts) types rm"

definition find_class ::
  "(string \<Rightarrow> bool) \<Rightarrow> (string \<Rightarrow> string \<Rightarrow> string option) \<Rightarrow> rclass \<Rightarrow> string option res" where
  "find_class importable attr c = (case c of
      Class k \<Rightarrow> Inr (Some k)
    | Dotted p \<Rightarrow> rbind (module_of p) (\<lambda>(m, k). if importable m then Inr (attr m k) else Inl KeyError))"

definition import_resource_classes ::
  "(string \<Rightarrow> bool) \<Rightarrow> (string \<Rightarrow> string \<Rightarrow> string option) \<Rightarrow> rmap_t \<Rightarrow> string list \<Rightarrow>
   (string list \<times> string list) res" where
  "import_resource_classes importable attr rm wanted =
     (let types = (if ''*'' \<in> set wanted then dkeys rm else wanted);
          unknown = filter (\<lambda>r. \<not> dhas rm r) types;
          paths = concat (map (\<lambda>r. case dget rm r of Some (Dotted p) \<Rightarrow> [p] | _ \<Rightarrow> []) types)
      in rbind (rmap module_of paths) (\<lambda>mods.
         let errs = filter (\<lambda>m. \<not> importable m) (remdups (map fst mods))
         in rbind (rfold (\<lambda>ts m. drop_module rm m ts) types errs) (\<lambda>left.
            let known = filter (\<lambda>r. r \<notin> set unknown) left
            in rbind (rmap (\<lambda>r. rbind (dindex rm r) (find_class importable attr)) known) (\<lambda>cs.
               Inr (List.map_filter id cs,
                    remdups (unknown @ map fst (filter (\<lambda>(r, c). c = None) (zip known cs))))))))"

section \<open>Loading\<close>

text \<open>
  \<open>load_providers\<close>: the packages entered, in order, and the names loaded from then on.
  \<open>entry\<close> tells whether a provider's package is installed; the flag marks the one a
  wildcard does not load.
\<close>

definition should_load_provider :: "string list \<Rightarrow> string \<Rightarrow> string list \<Rightarrow> bool \<Rightarrow> bool" where
  "should_load_provider loaded name types no_wild \<longleftrightarrow>
     name \<notin> set loaded \<and> (''*'' \<in> set types \<and> \<not> no_wild \<or> name \<in> set types)"

definition PROVIDER_ENTRIES :: "(string \<times> bool) list" where
  "PROVIDER_ENTRIES = [(''aws'', False), (''awscc'', False), (''azure'', False), (''gcp'', False),
     (''k8s'', False), (''openstack'', False), (''terraform'', True), (''tencentcloud'', False),
     (''oci'', False), (''c7n'', False)]"

definition load_providers :: "(string \<Rightarrow> bool) \<Rightarrow> string list \<Rightarrow> string list \<Rightarrow> string list res" where
  "load_providers entry loaded types =
     (let wanted = map fst (filter (\<lambda>(n, no_wild). should_load_provider loaded n types no_wild) PROVIDER_ENTRIES)
      in if list_all entry wanted then Inr (remdups (loaded @ types)) else Inl ImportError)"

text \<open>
  \<open>load_resources\<close>: the types asked for, by provider, any \<open>aws.*\<close> being \<open>*\<close>. Loading a
  provider's package registers it, so the registered providers, each with its resource map,
  are a function of the names loaded.
\<close>

type_synonym clouds = "(string, rmap_t) odict"

definition add_type :: "string \<Rightarrow> (string, string list) odict \<Rightarrow> (string, string list) odict" where
  "add_type r m =
     (let parts = split_max CHR ''.'' 1 r; pname = hd parts;
          r' = (if last parts = ''*'' then ''*'' else r)
      in dput pname ((case dget m pname of Some rs \<Rightarrow> rs | None \<Rightarrow> []) @ [r']) m)"

definition by_provider :: "string list \<Rightarrow> (string, string list) odict" where
  "by_provider types = fold add_type types []"

definition missing_of ::
  "(string \<Rightarrow> bool) \<Rightarrow> (string \<Rightarrow> string \<Rightarrow> string option) \<Rightarrow> (string, string list) odict \<Rightarrow>
   string \<times> rmap_t \<Rightarrow> string list res" where
  "missing_of importable attr pmap = (\<lambda>(pname, rm).
     if dhas pmap ''*'' then rbind (import_resource_classes importable attr rm [''*'']) (\<lambda>_. Inr [])
     else case dget pmap pname of
         None \<Rightarrow> Inr []
       | Some rs \<Rightarrow> rbind (import_resource_classes importable attr rm rs) (\<lambda>(found, missing). Inr missing))"

definition load_resources ::
  "(string \<Rightarrow> bool) \<Rightarrow> (string \<Rightarrow> bool) \<Rightarrow> (string \<Rightarrow> string \<Rightarrow> string option) \<Rightarrow> (string list \<Rightarrow> clouds) \<Rightarrow>
   string list \<Rightarrow> string list \<Rightarrow> (string list \<times> string list) res" where
  "load_resources entry importable attr clouds loaded types =
     (let pmap = by_provider types
      in rbind (load_providers entry loaded (dkeys pmap)) (\<lambda>loaded'.
         rbind (rmap (missing_of importable attr pmap) (clouds loaded')) (\<lambda>mss.
           Inr (loaded', concat mss))))"

definition PROVIDER_NAMES :: "string list" where
  "PROVIDER_NAMES = [''aws'', ''azure'', ''gcp'', ''k8s'', ''openstack'', ''awscc'', ''tencentcloud'',
     ''oci'', ''terraform'']"

text \<open>\<open>load_available\<close>: the providers that are installed, and the names loaded.\<close>

definition load_available ::
  "(string \<Rightarrow> bool) \<Rightarrow> (string \<Rightarrow> bool) \<Rightarrow> (string \<Rightarrow> string \<Rightarrow> string option) \<Rightarrow> (string list \<Rightarrow> clouds) \<Rightarrow>
   bool \<Rightarrow> string list \<Rightarrow> (string list \<times> string list) res" where
  "load_available entry importable attr clouds resources loaded =
     (let (found, loaded1) = foldl (\<lambda>(found, loaded) p. case load_providers entry loaded [p] of
            Inl e \<Rightarrow> (found, loaded) | Inr loaded' \<Rightarrow> (found @ [p], loaded')) ([], loaded) PROVIDER_NAMES
      in if resources
         then rbind (load_resources entry importable attr clouds loaded1 (map (\<lambda>s. s @ ''.*'') found))
           (\<lambda>(loaded2, _). Inr (found, loaded2))
         else Inr (found, loaded1))"

text \<open>\<open>get_resource_class\<close>: the class registered for a type, or for the first of a list.\<close>

definition get_resource_class :: "clouds \<Rightarrow> (string \<Rightarrow> string \<Rightarrow> string option) \<Rightarrow> pyval \<Rightarrow> string res" where
  "get_resource_class clouds registered resource_type =
     rbind (case resource_type of PList [] \<Rightarrow> Inl IndexError | PList (t # ts) \<Rightarrow> Inr t | t \<Rightarrow> Inr t) (\<lambda>t.
     case t of
       PStr s \<Rightarrow>
         let (pname, resource) = (if CHR ''.'' \<in> set s
               then (hd (split_max CHR ''.'' 1 s), last (split_max CHR ''.'' 1 s)) else (''aws'', s));
             qualified = (if CHR ''.'' \<in> set s then s else pname @ ''.'' @ s)
         in (case dget clouds pname of
               None \<Rightarrow> Inl KeyError
             | Some rm \<Rightarrow> if \<not> dhas rm qualified then Inl KeyError
                 else (case registered pname resource of Some k \<Rightarrow> Inr k | None \<Rightarrow> Inl AssertionError))
     | _ \<Rightarrow> Inl TypeError)"

section \<open>Loading policies\<close>

text \<open>\<open>_handle_missing_resources\<close>: the first policy of a missing type is named in an error.\<close>

definition uses_missing :: "ext \<Rightarrow> string list \<Rightarrow> pyval \<Rightarrow> bool res" where
  "uses_missing E missing p = (case p of
      PDict d \<Rightarrow> rbind (dindex d ''resource'') (\<lambda>pr.
        rbind (py_in (PStr ''.'') pr) (\<lambda>dot. case pr of
            PStr s \<Rightarrow> Inr ((if dot then s else ''aws.'' @ s) \<in> set missing)
          | _ \<Rightarrow> Inr (\<not> dot \<and> ''aws.'' @ py_str E pr \<in> set missing)))
    | _ \<Rightarrow> Inl TypeError)"

definition handle_missing_resources :: "ext \<Rightarrow> pydict \<Rightarrow> string list \<Rightarrow> unit res" where
  "handle_missing_resources E data missing =
     rbind (py_iter (dget_or data ''policies'' (PTuple []))) (\<lambda>ps.
     rbind (rany (uses_missing E missing) ps) (\<lambda>b. if b then Inl PolicyValidationError else Inr ()))"

text \<open>
  \<open>load_data\<close> up to the collection, whose policies it gives: \<open>schema_ok\<close> is the answer of
  the JSON schema validator (true when validation is switched off).
\<close>

definition type_names :: "pyval list \<Rightarrow> string list res" where
  "type_names = rmap (\<lambda>v. case v of PStr s \<Rightarrow> Inr s | _ \<Rightarrow> Inl AttributeError)"

definition load_data ::
  "ext \<Rightarrow> (string list \<Rightarrow> string list \<Rightarrow> (string list \<times> string list) res) \<Rightarrow> (pydict \<Rightarrow> string list \<Rightarrow> bool) \<Rightarrow>
   string list \<Rightarrow> pyval \<Rightarrow> (string list \<times> pyval list) res" where
  "load_data E load schema_ok loaded data =
     rbind (structure_validate data) (\<lambda>_. case data of
        PDict d \<Rightarrow>
          rbind (get_resource_types E d) (\<lambda>rtypes.
          rbind (type_names rtypes) (\<lambda>names.
          rbind (load loaded names) (\<lambda>(loaded', missing).
          rbind (if missing \<noteq> [] then handle_missing_resources E d missing else Inr ()) (\<lambda>_.
          if schema_ok d names
          then rbind (py_iter (dget_or d ''policies'' (PTuple []))) (\<lambda>ps. Inr (loaded', ps))
          else Inl PolicyValidationError))))
      | _ \<Rightarrow> Inl TypeError)"

section \<open>Directories\<close>

definition is_hidden :: "string \<Rightarrow> bool" where
  "is_hidden path =
     (let tail = last (split_char CHR ''/'' path);
          head = rstrip_by (\<lambda>c. c = CHR ''/'') (take (length path - length tail) path)
      in list_ex (\<lambda>part. part \<noteq> ''.'' \<and> starts_with part ''.'') [head, tail])"

text \<open>
  A file system is the listing of each directory: its directories and its files. \<open>os.walk\<close>
  from the top goes through a directory and then the directories it was left with; the
  loader calls itself on each as well, by the absolute path of its bare name. Both
  recursions are by fuel, None when it runs out.
\<close>

type_synonym listing = "string \<Rightarrow> string list \<times> string list"

fun concat_opt :: "'a list option list \<Rightarrow> 'a list option" where
  "concat_opt [] = Some []"
| "concat_opt (None # xs) = None"
| "concat_opt (Some x # xs) = map_option (\<lambda>y. x @ y) (concat_opt xs)"

definition policy_file :: "string \<Rightarrow> bool" where
  "policy_file name \<longleftrightarrow> \<not> is_hidden name \<and> last (rsplit1 CHR ''.'' name) \<in> set [''yaml'', ''yml'', ''json'']"

text \<open>The directories walked, each with the directories in it that are not hidden.\<close>

fun walk_dirs :: "nat \<Rightarrow> listing \<Rightarrow> string \<Rightarrow> (string \<times> string list) list option" where
  "walk_dirs 0 fs path = None"
| "walk_dirs (Suc n) fs path =
     (let dirs = filter (\<lambda>d. \<not> is_hidden d) (fst (fs path))
      in map_option (Cons (path, dirs))
           (concat_opt (map (\<lambda>d. walk_dirs n fs (path_join1 path d)) dirs)))"

definition files_in :: "listing \<Rightarrow> string \<Rightarrow> string list" where
  "files_in fs dir = map (path_join1 dir) (filter policy_file (snd (fs dir)))"

text \<open>\<open>_load\<close>: the files it reads, in order.\<close>

fun load_paths :: "nat \<Rightarrow> listing \<Rightarrow> string \<Rightarrow> bool \<Rightarrow> string \<Rightarrow> string list option" where
  "load_paths 0 fs cwd recurse path = None"
| "load_paths (Suc n) fs cwd recurse path = (case walk_dirs n fs path of
      None \<Rightarrow> None
    | Some ws \<Rightarrow>
        if \<not> recurse then Some (case ws of [] \<Rightarrow> [] | (dir, _) # _ \<Rightarrow> files_in fs dir)
        else concat_opt (map (\<lambda>(dir, dirs).
          map_option (\<lambda>rest. files_in fs dir @ rest)
            (concat_opt (map (\<lambda>d. load_paths n fs cwd recurse (path_join1 cwd d)) dirs))) ws))"

text \<open>
  \<open>load_directory\<close> on the files read: those with errors are refused, policies are put in one
  list, and no two may share a name.
\<close>

definition file_policies :: "pyval \<Rightarrow> pyval list res" where
  "file_policies data = (case data of
      PDict d \<Rightarrow> if py_truth (dget_or d ''policies'' PNone) then py_iter (dget_or d ''policies'' PNone) else Inr []
    | _ \<Rightarrow> Inl AttributeError)"

definition policy_name :: "pyval \<Rightarrow> pyval res" where
  "policy_name p = (case p of PDict d \<Rightarrow> dindex d ''name'' | _ \<Rightarrow> Inl TypeError)"

definition add_name :: "pyval list \<Rightarrow> pyval \<Rightarrow> pyval list res" where
  "add_name names p = rbind (policy_name p) (\<lambda>n.
     if mem_eq n names then Inl PolicyValidationError else Inr (names @ [n]))"

definition load_directory ::
  "(pyval \<Rightarrow> bool res) \<Rightarrow> (pyval \<Rightarrow> 'c res) \<Rightarrow> bool \<Rightarrow> pyval list \<Rightarrow> 'c res" where
  "load_directory validate load do_validate datas =
     rbind (if do_validate then rmap validate datas else Inr []) (\<lambda>oks.
     if \<not> list_all id oks then Inl PolicyValidationError
     else rbind (rmap file_policies datas) (\<lambda>pss.
       rbind (rfold add_name [] (concat pss)) (\<lambda>_. load (PDict [(''policies'', PList (concat pss))]))))"

section \<open>What loading promises\<close>

lemma rany_member:
  "rany f xs = Inr False \<Longrightarrow> x \<in> set xs \<Longrightarrow> f x = Inr False"
  by (induction xs) (auto simp: rbind_eq_Inr split: if_splits)

lemma rmap_each: "rmap f xs = Inr ys \<Longrightarrow> x \<in> set xs \<Longrightarrow> \<exists>y \<in> set ys. f x = Inr y"
  by (induction xs arbitrary: ys) (auto simp: rbind_eq_Inr)

text \<open>The provider of a type, and what is asked of it.\<close>

definition prov :: "string \<Rightarrow> string" where
  "prov r = hd (split_max CHR ''.'' 1 r)"

definition asked :: "string \<Rightarrow> string" where
  "asked r = (if last (split_max CHR ''.'' 1 r) = ''*'' then ''*'' else r)"

lemma dget_add_type:
  "dget (add_type r m) k =
     (if k = prov r then Some ((case dget m k of Some rs \<Rightarrow> rs | None \<Rightarrow> []) @ [asked r]) else dget m k)"
  by (simp add: add_type_def prov_def asked_def Let_def dget_dput)

lemma by_provider_fold:
  "(case dget (fold add_type types m) k of Some rs \<Rightarrow> rs | None \<Rightarrow> []) =
     (case dget m k of Some rs \<Rightarrow> rs | None \<Rightarrow> []) @ map asked (filter (\<lambda>r. prov r = k) types)"
  by (induction types arbitrary: m) (auto simp: dget_add_type)

lemma by_provider_known: "dget (fold add_type types m) k \<noteq> None \<longleftrightarrow> dget m k \<noteq> None \<or> k \<in> prov ` set types"
  by (induction types arbitrary: m) (auto simp: dget_add_type simp del: not_None_eq)

lemma by_provider_get:
  "dget (by_provider types) k =
     (if k \<in> prov ` set types then Some (map asked (filter (\<lambda>r. prov r = k) types)) else None)"
  using by_provider_fold[of types "[]" k] by_provider_known[of types "[]" k]
  by (auto simp: by_provider_def)

text \<open>A type without a wildcard.\<close>

definition plain_type :: "string \<Rightarrow> bool" where
  "plain_type r \<longleftrightarrow> CHR ''*'' \<notin> set r"

lemma split_max_chars: "x \<in> set (split_max c n s) \<Longrightarrow> set x \<subseteq> set s"
  by (induction c n s arbitrary: x rule: split_max.induct) (fastforce split: if_splits list.splits)+

lemma split_max_nonempty: "split_max c n s \<noteq> []"
  by (induction c n s rule: split_max.induct) (auto split: if_splits list.splits)

lemma plain_parts:
  assumes "plain_type r"
  shows "asked r = r" "prov r \<noteq> ''*''"
proof -
  have "x \<noteq> ''*''" if "x \<in> set (split_max CHR ''.'' 1 r)" for x
    using split_max_chars[OF that] assms by (auto simp: plain_type_def)
  with split_max_nonempty[of "CHR ''.''" 1 r]
  show "asked r = r" "prov r \<noteq> ''*''"
    by (metis asked_def last_in_set, metis prov_def hd_in_set)
qed

lemma import_missing:
  assumes "import_resource_classes importable attr rm wanted = Inr (found, missing)"
    and "''*'' \<notin> set wanted" "r \<in> set wanted" "\<not> dhas rm r"
  shows "r \<in> set missing"
  using assms by (auto simp: import_resource_classes_def Let_def rbind_eq_Inr)

lemma load_resources_missing:
  assumes "load_resources entry importable attr clouds loaded types = Inr (loaded', missing)"
    and "list_all plain_type types" "r \<in> set types"
    and "dget (clouds loaded') (prov r) = Some rm" "\<not> dhas rm r"
  shows "r \<in> set missing"
proof -
  let ?m = "by_provider types" and ?rs = "filter (\<lambda>t. prov t = prov r) types"
  obtain mss where mss: "rmap (missing_of importable attr ?m) (clouds loaded') = Inr mss" "missing = concat mss"
    using assms(1) by (auto simp: load_resources_def Let_def rbind_eq_Inr)
  have "map asked ?rs = ?rs"
    using assms(2) plain_parts(1) by (auto simp: list_all_iff intro: map_idI)
  then have "dget ?m (prov r) = Some ?rs" using assms(3) by (simp add: by_provider_get)
  moreover have "''*'' \<notin> prov ` set types" using assms(2) plain_parts(2) by (force simp: list_all_iff)
  then have "\<not> dhas ?m ''*''" by (simp add: dhas_dget by_provider_get)
  moreover have "''*'' \<notin> set ?rs" using assms(2) by (auto simp: list_all_iff plain_type_def)
  moreover obtain ms where ms: "ms \<in> set mss" "missing_of importable attr ?m (prov r, rm) = Inr ms"
    using rmap_each[OF mss(1)] assms(4) by (metis map_of_SomeD)
  ultimately have "r \<in> set ms"
    using import_missing[of importable attr rm ?rs _ ms r] assms(3,5)
    by (auto simp: missing_of_def rbind_eq_Inr)
  with mss(2) ms(1) show ?thesis by auto
qed

text \<open>The type a policy's \<open>resource\<close> stands for.\<close>

definition full_type :: "string \<Rightarrow> string" where
  "full_type s = (if CHR ''.'' \<in> set s then s else ''aws.'' @ s)"

lemma rmap_result: "rmap f xs = Inr ys \<Longrightarrow> y \<in> set ys \<Longrightarrow> \<exists>x \<in> set xs. f x = Inr y"
  by (induction xs arbitrary: ys) (auto simp: rbind_eq_Inr)

lemma dedup_str: "list_all hashable vs \<Longrightarrow> PStr x \<in> set vs \<Longrightarrow> PStr x \<in> set (dedup vs)"
proof (induction vs)
  case (Cons a vs)
  have "\<not> py_eq a (PStr x)" if "a \<noteq> PStr x"
    using that Cons.prems(1) by (cases a) (auto simp: num_eq_def num_of_def)
  with Cons show ?case by auto
qed simp

lemma policy_types_hashable: "policy_types E p = Inr ts \<Longrightarrow> list_all hashable ts"
proof -
  assume p: "policy_types E p = Inr ts"
  then obtain d v where d: "p = PDict d" "dindex d ''resource'' = Inr v"
    by (cases p) (auto simp: policy_types_def rbind_eq_Inr)
  with p show ?thesis by (cases v) (simp_all add: policy_types_def split: if_splits, auto)
qed

lemma policy_type_listed:
  assumes "get_resource_types E d = Inr rtypes" "type_names rtypes = Inr names"
    and "py_iter (dget_or d ''policies'' (PList [])) = Inr ps" "PDict p \<in> set ps"
    and "dget p ''resource'' = Some (PStr s)"
  shows "full_type s \<in> set names"
proof -
  let ?q = "full_type s"
  obtain tss where t: "rmap (policy_types E) ps = Inr tss" "rtypes = dedup (concat tss)"
    using assms(1,3) by (auto simp: get_resource_types_def rbind_eq_Inr)
  obtain ts where "ts \<in> set tss" "policy_types E (PDict p) = Inr ts"
    using rmap_each[OF t(1) assms(4)] by blast
  moreover from this(2) have "ts = [PStr ?q]" using assms(5) by (simp add: policy_types_def dindex_def full_type_def)
  ultimately have "PStr ?q \<in> set (concat tss)" by force
  moreover have "list_all hashable ts'" if "ts' \<in> set tss" for ts'
    using rmap_result[OF t(1) that] policy_types_hashable by blast
  then have "list_all hashable (concat tss)" by (auto simp: list_all_iff)
  ultimately have "PStr ?q \<in> set rtypes" using dedup_str t(2) by simp
  from rmap_each[OF assms(2)[unfolded type_names_def] this] show ?thesis by simp
qed

lemma missing_refused:
  assumes "handle_missing_resources E d missing = Inr ()"
    and "py_iter (dget_or d ''policies'' (PTuple [])) = Inr ps" "PDict p \<in> set ps"
    and "dget p ''resource'' = Some (PStr s)"
  shows "full_type s \<notin> set missing"
proof -
  have "rany (uses_missing E missing) ps = Inr False"
    using assms(1,2) by (auto simp: handle_missing_resources_def rbind_eq_Inr split: if_splits)
  from rany_member[OF this assms(3)] assms(4) show ?thesis
    by (auto simp: uses_missing_def dindex_def py_in_def has_substr_char full_type_def split: if_splits)
qed

text \<open>When a policy file is accepted, the resource type of each policy in it, with AWS for a
  missing provider, is in the resource map of its provider, as long as the provider is
  registered and the file uses no wildcard.\<close>
theorem accepted_types_known:
  assumes "load_data E (load_resources entry importable attr clouds) schema_ok loaded (PDict d) = Inr (loaded', ps)"
    and "get_resource_types E d = Inr (map PStr names)" "list_all plain_type names"
    and "PDict p \<in> set ps" "dget p ''resource'' = Some (PStr s)"
    and "dget (clouds loaded') (prov (full_type s)) = Some rm"
  shows "dhas rm (full_type s)"
proof (rule ccontr)
  assume no: "\<not> dhas rm (full_type s)"
  have names: "type_names (map PStr names) = Inr names"
    by (simp add: type_names_def rmap_Inr list_all2_conv_all_nth)
  with assms(1,2) obtain missing where
    load: "load_resources entry importable attr clouds loaded names = Inr (loaded', missing)"
    and miss: "missing \<noteq> [] \<longrightarrow> handle_missing_resources E d missing = Inr ()"
    and it: "py_iter (dget_or d ''policies'' (PTuple [])) = Inr ps"
    by (auto simp: load_data_def rbind_eq_Inr split: if_splits)
  have "py_iter (dget_or d ''policies'' (PList [])) = Inr ps"
    using it assms(4) by (auto simp: dget_or_def split: option.splits)
  from policy_type_listed[OF assms(2) names this assms(4,5)] have "full_type s \<in> set missing"
    using load_resources_missing[OF load assms(3) _ assms(6) no] by simp
  moreover from this have "missing \<noteq> []" by auto
  ultimately show False using missing_refused[OF _ it assms(4,5), of E missing] miss by simp
qed

definition ex_file :: pydict where
  "ex_file = [(''policies'', PList [PDict [(''name'', PStr ''p''), (''resource'', PStr ''ec2'')]])]"

definition ex_clouds :: "string list \<Rightarrow> clouds" where
  "ex_clouds loaded = [(''aws'', [(''aws.ec2'', Dotted ''c7n.resources.ec2.EC2'')])]"

lemma accepted_types_known_witness:
  "load_data (ext0 0) (load_resources (\<lambda>_. True) (\<lambda>_. True) (\<lambda>m k. Some k) ex_clouds) (\<lambda>_ _. True) [] (PDict ex_file) =
     Inr ([''aws''], [PDict [(''name'', PStr ''p''), (''resource'', PStr ''ec2'')]]) \<and>
   dhas [(''aws.ec2'', Dotted ''c7n.resources.ec2.EC2'')] (full_type ''ec2'')"
proof -
  have l: "load_data (ext0 0) (load_resources (\<lambda>_. True) (\<lambda>_. True) (\<lambda>m k. Some k) ex_clouds) (\<lambda>_ _. True) [] (PDict ex_file) =
     Inr ([''aws''], [PDict [(''name'', PStr ''p''), (''resource'', PStr ''ec2'')]])"
    by code_simp
  moreover have "dhas [(''aws.ec2'', Dotted ''c7n.resources.ec2.EC2'')] (full_type ''ec2'')"
    by (rule accepted_types_known[OF l, of "[''aws.ec2'']" "[(''name'', PStr ''p''), (''resource'', PStr ''ec2'')]"])
       (simp_all add: get_resource_types_def ex_file_def dget_or_def policy_types_def dindex_def plain_type_def
          full_type_def ex_clouds_def prov_def)
  ultimately show ?thesis by simp
qed

text \<open>
  A directory that holds one of its own name, in the working directory: the loader's own
  recursion comes back to it for ever.
\<close>

lemma concat_opt_None: "None \<in> set xs \<Longrightarrow> concat_opt xs = None"
  by (induction xs rule: concat_opt.induct) auto

theorem nested_namesake_loops:
  assumes "d \<in> set (fst (fs (path_join1 cwd d)))" "\<not> is_hidden d"
  shows "load_paths n fs cwd True (path_join1 cwd d) = None"
proof (induction n)
  case (Suc n)
  let ?p = "path_join1 cwd d" and ?dirs = "filter (\<lambda>d. \<not> is_hidden d) (fst (fs (path_join1 cwd d)))"
  have "concat_opt (map (\<lambda>d. load_paths n fs cwd True (path_join1 cwd d)) ?dirs) = None"
    by (rule concat_opt_None) (use Suc assms in force)
  then have "concat_opt (map (\<lambda>(dir, dirs).
          map_option (\<lambda>rest. files_in fs dir @ rest)
            (concat_opt (map (\<lambda>d. load_paths n fs cwd True (path_join1 cwd d)) dirs))) ((?p, ?dirs) # ws)) = None" for ws
    by simp
  then show ?case by (cases n) (auto simp: Let_def split: option.splits)
qed simp

end
