(* ===== verification/Policies.thy ===== *)
theory Policies
  imports Policy_Files Block_Semantics
begin

text \<open>
  Policies and collections of them (\<open>c7n/policy.py\<close>): what a command selects of a
  collection, the conditions a policy runs under, and the checks made of a policy that the
  schema does not make. Conditions are blocks over one resource, the policy's variables.
\<close>

section \<open>Policies\<close>

text \<open>A policy's data, by the numbers of the policy objects.\<close>

type_synonym policies = "nat \<Rightarrow> pydict"

definition policy_mode :: "pydict \<Rightarrow> pyval res" where
  "policy_mode d = (case dget d ''mode'' of
      None \<Rightarrow> Inr (PStr ''pull'')
    | Some (PDict m) \<Rightarrow> dindex m ''type''
    | Some _ \<Rightarrow> Inl TypeError)"

text \<open>
  The type of \<open>get_execution_mode\<close>: a registered mode has the name it is registered under;
  without one there is no mode object to ask.
\<close>

definition mode_type :: "string list \<Rightarrow> pydict \<Rightarrow> string res" where
  "mode_type registered d = (case policy_mode d of
      Inr (PStr m) \<Rightarrow> if m \<in> set registered then Inr m else Inl AttributeError
    | Inr _ \<Rightarrow> Inl AttributeError
    | Inl KeyError \<Rightarrow> Inl AttributeError
    | Inl e \<Rightarrow> Inl e)"

text \<open>\<open>Policy.__init__\<close>: its name, the session factory of its provider, its resource class.\<close>

definition policy_init ::
  "clouds \<Rightarrow> (string \<Rightarrow> string \<Rightarrow> string option) \<Rightarrow> bool \<Rightarrow> pyval \<Rightarrow> (pydict \<times> string) res" where
  "policy_init clouds registered has_session p = (case p of
      PDict d \<Rightarrow>
        if \<not> dhas d ''name'' then Inl AssertionError
        else rbind (if has_session then Inr ()
                    else rbind (get_policy_provider d) (\<lambda>pname.
                      if dhas clouds pname then Inr () else Inl RuntimeError)) (\<lambda>_.
             rbind (get_resource_class clouds registered (dget_or d ''resource'' PNone)) (\<lambda>k. Inr (d, k)))
    | _ \<Rightarrow> Inl TypeError)"

definition from_data ::
  "clouds \<Rightarrow> (string \<Rightarrow> string \<Rightarrow> string option) \<Rightarrow> bool \<Rightarrow> pydict \<Rightarrow> (pydict \<times> string) list res" where
  "from_data clouds registered has_session data =
     rbind (py_iter (dget_or data ''policies'' (PTuple []))) (rmap (policy_init clouds registered has_session))"

section \<open>Collections\<close>

text \<open>\<open>results.extend(x for x in result if x not in results)\<close>.\<close>

definition extend_new :: "'a list \<Rightarrow> 'a list \<Rightarrow> 'a list" where
  "extend_new results result = foldl (\<lambda>acc x. if x \<in> set acc then acc else acc @ [x]) results result"

definition filter_by :: "('p \<Rightarrow> nat \<Rightarrow> bool res) \<Rightarrow> 'p list \<Rightarrow> nat list \<Rightarrow> nat list res" where
  "filter_by test patterns ps =
     (if patterns = [] then Inr ps
      else rfold (\<lambda>results pat. rbind (rfilter (test pat) ps) (\<lambda>result. Inr (extend_new results result))) [] patterns)"

definition matches_pattern :: "policies \<Rightarrow> string \<Rightarrow> nat \<Rightarrow> bool res" where
  "matches_pattern D pattern p = rbind (dindex (D p) ''name'') (\<lambda>n. case n of
      PStr s \<Rightarrow> Inr (fnmatch s pattern) | _ \<Rightarrow> Inl TypeError)"

definition matches_resource_type :: "policies \<Rightarrow> pyval \<Rightarrow> nat \<Rightarrow> bool res" where
  "matches_resource_type D rtype p = rbind (dindex (D p) ''resource'') (\<lambda>t. Inr (py_eq t rtype))"

definition matches_mode :: "string list \<Rightarrow> policies \<Rightarrow> string \<Rightarrow> nat \<Rightarrow> bool res" where
  "matches_mode registered D m p = rbind (mode_type registered (D p)) (\<lambda>t. Inr (t = m))"

definition collection_filter ::
  "string list \<Rightarrow> policies \<Rightarrow> string list \<Rightarrow> pyval list \<Rightarrow> string list \<Rightarrow> nat list \<Rightarrow> nat list res" where
  "collection_filter registered D patterns rtypes modes ps =
     rbind (filter_by (matches_pattern D) patterns ps) (\<lambda>rs1.
     rbind (filter_by (matches_resource_type D) rtypes rs1) (\<lambda>rs2.
     rbind (filter_by (matches_mode registered D) modes rs2) (\<lambda>rs3.
       Inr (filter (\<lambda>x. x \<in> set rs3) ps))))"

definition collection_contains :: "policies \<Rightarrow> nat list \<Rightarrow> pyval \<Rightarrow> bool res" where
  "collection_contains D ps name = rany (\<lambda>p. rbind (dindex (D p) ''name'') (\<lambda>n. Inr (py_eq n name))) ps"

definition collection_types :: "policies \<Rightarrow> nat list \<Rightarrow> pyval list res" where
  "collection_types D ps = rbind (rmap (\<lambda>p. dindex (D p) ''resource'') ps) (\<lambda>ts. py_set (PList ts))"

lemma extend_new_set: "set (extend_new xs ys) = set xs \<union> set ys"
proof -
  have "set (foldl (\<lambda>acc x. if x \<in> set acc then acc else acc @ [x]) xs ys) = set xs \<union> set ys"
    by (induction ys arbitrary: xs) auto
  then show ?thesis by (simp add: extend_new_def)
qed

lemma filter_by_set:
  assumes "filter_by test patterns ps = Inr rs"
  shows "set rs = {p \<in> set ps. patterns = [] \<or> (\<exists>pat \<in> set patterns. test pat p = Inr True)}"
proof -
  have "set out = set acc \<union> {p \<in> set ps. \<exists>pat \<in> set pats. test pat p = Inr True}"
    if "rfold (\<lambda>results pat. rbind (rfilter (test pat) ps) (\<lambda>result. Inr (extend_new results result))) acc pats = Inr out"
    for acc out pats
    using that
  proof (induction pats arbitrary: acc)
    case (Cons pat pats)
    then obtain r where r: "rfilter (test pat) ps = Inr r"
      and "rfold (\<lambda>results pat. rbind (rfilter (test pat) ps) (\<lambda>result. Inr (extend_new results result)))
             (extend_new acc r) pats = Inr out"
      by (auto simp: rbind_eq_Inr)
    with Cons.IH show ?case using rfilter_Inr_set[OF r] by (auto simp: extend_new_set)
  qed simp
  with assms show ?thesis by (auto simp: filter_by_def split: if_splits)
qed

text \<open>Filtering a collection by name patterns, resource types and modes keeps, in their
  order, exactly the policies that match one of each kind given.\<close>
theorem collection_filter_selects:
  assumes "collection_filter registered D patterns rtypes modes ps = Inr out"
  shows "out = filter (\<lambda>p.
      (patterns = [] \<or> (\<exists>n pat. dget (D p) ''name'' = Some (PStr n) \<and> pat \<in> set patterns \<and> fnmatch n pat)) \<and>
      (rtypes = [] \<or> (\<exists>t rt. dget (D p) ''resource'' = Some t \<and> rt \<in> set rtypes \<and> py_eq t rt)) \<and>
      (modes = [] \<or> (\<exists>m \<in> set modes. mode_type registered (D p) = Inr m))) ps"
proof -
  obtain rs1 rs2 rs3 where
    r: "filter_by (matches_pattern D) patterns ps = Inr rs1"
      "filter_by (matches_resource_type D) rtypes rs1 = Inr rs2"
      "filter_by (matches_mode registered D) modes rs2 = Inr rs3"
    and out: "out = filter (\<lambda>x. x \<in> set rs3) ps"
    using assms by (auto simp: collection_filter_def rbind_eq_Inr)
  have name: "matches_pattern D pat p = Inr True \<longleftrightarrow>
      (\<exists>n. dget (D p) ''name'' = Some (PStr n) \<and> fnmatch n pat)" for pat p
    by (cases "dget (D p) ''name''") (auto simp: matches_pattern_def dindex_def split: pyval.splits)
  have type: "matches_resource_type D rt p = Inr True \<longleftrightarrow>
      (\<exists>t. dget (D p) ''resource'' = Some t \<and> py_eq t rt)" for rt p
    by (cases "dget (D p) ''resource''") (auto simp: matches_resource_type_def dindex_def)
  have mode: "matches_mode registered D m p = Inr True \<longleftrightarrow> mode_type registered (D p) = Inr m" for m p
    by (cases "mode_type registered (D p)") (auto simp: matches_mode_def)
  show ?thesis
    unfolding out using filter_by_set[OF r(1)] filter_by_set[OF r(2)] filter_by_set[OF r(3)]
    by (intro filter_cong[OF refl]) (auto simp: name type mode)
qed

definition ex_policies :: policies where
  "ex_policies p = [(''name'', PStr (if p = 0 then ''tag-ec2'' else if p = 1 then ''old-ec2'' else ''tag-s3'')),
     (''resource'', PStr (if p < 2 then ''ec2'' else ''s3''))]"

lemma collection_filter_selects_witness:
  "[0] = filter (\<lambda>p.
      ([''tag-*''] = [] \<or> (\<exists>n pat. dget (ex_policies p) ''name'' = Some (PStr n) \<and> pat \<in> set [''tag-*''] \<and> fnmatch n pat)) \<and>
      ([PStr ''ec2''] = [] \<or> (\<exists>t rt. dget (ex_policies p) ''resource'' = Some t \<and> rt \<in> set [PStr ''ec2''] \<and> py_eq t rt)) \<and>
      ([''pull''] = [] \<or> (\<exists>m \<in> set [''pull'']. mode_type [''pull''] (ex_policies p) = Inr m))) [2, 1, 0]"
  by (rule collection_filter_selects) code_simp

section \<open>Conditions\<close>

text \<open>The deprecated attributes of a policy, as conditions.\<close>

definition date_condition :: "string \<Rightarrow> pyval \<Rightarrow> pyval" where
  "date_condition op v = PDict [(''type'', PStr ''value''), (''key'', PStr ''now''), (''value_type'', PStr ''date''),
     (''op'', PStr op), (''value'', v)]"

definition convert_deprecated :: "pydict \<Rightarrow> pyval list" where
  "convert_deprecated d =
     (case dget d ''region'' of Some v \<Rightarrow> [PDict [(''region'', v)]] | None \<Rightarrow> []) @
     (case dget d ''start'' of Some v \<Rightarrow> [date_condition ''gte'' v] | None \<Rightarrow> []) @
     (case dget d ''end'' of Some v \<Rightarrow> [date_condition ''lte'' v] | None \<Rightarrow> [])"

text \<open>
  \<open>PolicyConditions\<close>: its data and filters, and whether they were parsed. Before that the
  filters are the list in the policy's data itself, which \<open>validate\<close> extends in place;
  \<open>parse\<close> builds the filter objects.
\<close>

datatype 'f cond_filters = Raw "pyval list" | Parsed "'f ftree list"

record 'f conditions =
  cn_data :: pydict
  cn_filters :: "'f cond_filters"
  cn_initialized :: bool

definition conditions_update :: "pydict \<Rightarrow> 'f conditions res" where
  "conditions_update data = (case dget_or data ''conditions'' (PList []) of
      PList fs \<Rightarrow> Inr \<lparr>cn_data = data, cn_filters = Raw fs, cn_initialized = False\<rparr>
    | _ \<Rightarrow> Inl AttributeError)"

definition conditions_validate :: "(pyval list \<Rightarrow> 'f ftree list res) \<Rightarrow> pydict \<Rightarrow> 'f conditions \<Rightarrow> 'f conditions res" where
  "conditions_validate parse policy_data c =
     (if cn_initialized c then Inr c
      else case cn_filters c of
          Parsed fs \<Rightarrow> Inl TypeError
        | Raw fs \<Rightarrow>
            let fs' = fs @ convert_deprecated policy_data
            in rbind (parse fs') (\<lambda>ts. Inr
              (c\<lparr>cn_data := (if dhas (cn_data c) ''conditions'' then dput ''conditions'' (PList fs') (cn_data c) else cn_data c),
                 cn_filters := Parsed ts, cn_initialized := True\<rparr>)))"

definition policy_vars :: "ext \<Rightarrow> pydict \<Rightarrow> pydict \<Rightarrow> pyval \<Rightarrow> pyval \<Rightarrow> pydict res" where
  "policy_vars E env_vars d region account_id =
     rbind (dindex d ''name'') (\<lambda>name.
     rbind (dindex d ''resource'') (\<lambda>resource.
     rbind (get_policy_provider d) (\<lambda>provider.
       Inr (dupdate env_vars [(''name'', name), (''region'', region), (''resource'', resource),
         (''provider'', PStr provider), (''account_id'', account_id), (''now'', PDate (ext_now E)),
         (''policy'', PDict d)]))))"

text \<open>
  \<open>evaluate\<close>: every filter is run on the variables, the resource \<open>v\<close> of the world; they are
  told apart by \<open>name\<close>.
\<close>

fun run_conditions ::
  "'f leafp \<Rightarrow> ext \<Rightarrow> (rid list \<Rightarrow> rid list) \<Rightarrow> 'f ftree list \<Rightarrow> world \<Rightarrow> ref \<Rightarrow> (world \<times> bool list) res" where
  "run_conditions leaf E order [] w v = Inr (w, [])"
| "run_conditions leaf E order (t # ts) w v =
     rbind (process leaf E ''name'' order t w [v]) (\<lambda>(w1, out).
     rbind (run_conditions leaf E order ts w1 v) (\<lambda>(w2, oks). Inr (w2, (out \<noteq> []) # oks)))"

definition conditions_evaluate ::
  "'f leafp \<Rightarrow> ext \<Rightarrow> (rid list \<Rightarrow> rid list) \<Rightarrow> 'f ftree list \<Rightarrow> world \<Rightarrow> ref \<Rightarrow> pydict \<Rightarrow> (world \<times> bool) res" where
  "conditions_evaluate leaf E order ts w v vars =
     rbind (run_conditions leaf E order ts (w\<lparr>wstore := (wstore w)(v := vars)\<rparr>) v) (\<lambda>(w', oks).
       Inr (w', list_all id oks))"

context total_leaf
begin

lemma run_conditions_reads:
  assumes "stable_id E ''name''" "good_order order"
  shows "list_all ok (concat (map leaves ts)) \<Longrightarrow> winv w \<Longrightarrow> unique_ids E ''name'' (wstore w) [v] f \<Longrightarrow>
    all_defd (concat (map leaves ts)) w [v] \<Longrightarrow>
    \<exists>w'. run_conditions leaf E order ts w v = Inr (w', map (\<lambda>t. reads t w v) ts)"
proof (induction ts arbitrary: w)
  case (Cons t ts)
  have sel: "selects E ''name'' order t" and ret: "returns E ''name'' order t"
    using Cons.prems(1) tree_selects[OF assms] tree_returns[OF assms] by simp_all
  have "all_defd (leaves t) w [v]" by (rule all_defd_sub[OF Cons.prems(4)]) simp
  then obtain w1 out where p: "process leaf E ''name'' order t w [v] = Inr (w1, out)"
    using returnsD[OF ret Cons.prems(2) _ _ Cons.prems(3)] by auto
  have h: "set out = {r \<in> set [v]. reads t w r}" "annot_step winv w w1"
    using selectsD[OF sel p Cons.prems(2) _ Cons.prems(3)] by simp_all
  have "all_defd (concat (map leaves ts)) w [v]" by (rule all_defd_sub[OF Cons.prems(4)]) auto
  then have "all_defd (concat (map leaves ts)) w1 [v]" using all_defd_step[OF h(2)] by blast
  moreover have "list_all ok (concat (map leaves ts))" using Cons.prems(1) by simp
  ultimately obtain w2 where "run_conditions leaf E order ts w1 v = Inr (w2, map (\<lambda>t. reads t w1 v) ts)"
    using Cons.IH[OF _ annot_step_inv[OF h(2)] unique_ids_step[OF assms(1) h(2) Cons.prems(3)]] by blast
  moreover have "set out \<noteq> {} \<longleftrightarrow> reads t w v" unfolding h(1) by simp
  then have "out \<noteq> [] \<longleftrightarrow> reads t w v" by simp
  ultimately show ?case using p reads_step[OF h(2)] by simp
qed simp

end

text \<open>C8: the conditions of a policy, any blocks of value and event filters, hold exactly when
  the boolean formula of every one of them holds of the policy's variables, annotations
  left by earlier ones notwithstanding.\<close>
theorem conditions_decide:
  assumes "list_all (leaf_ok E cfg) (concat (map leaves ts))" "good_order order" "states_ok E cfg w"
    and "policy_vars E env d region account = Inr vars" "dget d ''name'' = Some (PStr name)"
    and "\<forall>n \<in> set (concat (map leaves ts)). leaf_defd E cfg n (map_option bare (wevent w)) (bare vars)"
  shows "\<exists>w'. conditions_evaluate (leaf_process E cfg) E order ts w v vars = Inr (w',
    list_all (feval (\<lambda>n. leaf_sat E cfg n (map_option bare (wevent w)) (bare vars))) ts)"
proof -
  let ?w = "w\<lparr>wstore := (wstore w)(v := vars)\<rparr>"
  obtain resource provider where vars: "vars = dupdate env [(''name'', PStr name), (''region'', region), (''resource'', resource),
         (''provider'', PStr provider), (''account_id'', account), (''now'', PDate (ext_now E)), (''policy'', PDict d)]"
    using assms(4) unfolding policy_vars_def rbind_eq_Inr dindex_def assms(5) by (force simp del: dupdate_Cons)
  have name: "dget vars ''name'' = Some (PStr name)"
    unfolding vars by (subst dget_dupdate) (simp_all add: dwf_def dkeys_def)
  have "stable_id E ''name''" by (rule stable_id_plain) (simp_all add: is_annot_def)
  moreover have "states_ok E cfg ?w" using assms(3) by (rule vf.winv_store)
  moreover have "unique_ids E ''name'' (wstore ?w) [v] (\<lambda>_. IdStr name)"
    using name by (simp add: unique_ids_def get_rid_def dindex_def rid_of_def)
  moreover have "vf.all_defd E cfg (concat (map leaves ts)) ?w [v]"
    using assms(6) by (simp add: vf.all_defd_def)
  ultimately obtain w' where
    "run_conditions (leaf_process E cfg) E order ts ?w v = Inr (w', map (\<lambda>t. vf.reads E cfg t ?w v) ts)"
    using vf.run_conditions_reads[OF _ assms(2,1)] by blast
  then show ?thesis
    by (simp add: conditions_evaluate_def vf.reads_def list_all_iff)
qed

definition ex_policy :: pydict where
  "ex_policy = [(''name'', PStr ''p''), (''resource'', PStr ''ec2'')]"

definition ex_vars :: pydict where
  "ex_vars = [(''name'', PStr ''p''), (''region'', PNone), (''resource'', PStr ''ec2''), (''provider'', PStr ''aws''),
     (''account_id'', PNone), (''now'', PDate 0), (''policy'', PDict ex_policy)]"

lemma ex_vars_eq: "policy_vars (ext0 0) [] ex_policy PNone PNone = Inr ex_vars"
  by code_simp

lemma ex_vars_bare: "bare ex_vars = ex_vars"
  by code_simp

lemma ex_cfg_no_event: "\<not> fo_event (ex_cfg n)"
  by (simp add: ex_cfg_def)

lemma ex_vars_match: "vf_matches (ext0 0) (fo_data (ex_cfg 0)) ex_vars = Inr False"
  by code_simp

lemma conditions_decide_witness:
  "\<exists>w'. conditions_evaluate (leaf_process (ext0 0) ex_cfg) (ext0 0) id [Not [Leaf 0], Or [Leaf 0, Not [Leaf 0]]] ex_world 5 ex_vars
     = Inr (w', True)"
proof -
  have "leaf_defd (ext0 0) ex_cfg 0 (map_option bare (wevent ex_world)) (bare ex_vars)"
    by (auto simp: leaf_defd_def ex_vars_bare ex_vars_match ex_cfg_no_event intro: exI[of _ False])
  moreover have "\<not> leaf_sat (ext0 0) ex_cfg 0 (map_option bare (wevent ex_world)) (bare ex_vars)"
    by (simp add: leaf_sat_def ex_vars_bare ex_vars_match ex_cfg_no_event)
  ultimately show ?thesis
    using conditions_decide[of "ext0 0" ex_cfg "[Not [Leaf 0], Or [Leaf 0, Not [Leaf 0]]]" id ex_world "[]" ex_policy
        PNone PNone ex_vars "''p''" 5]
    by (simp add: ex_ok good_order_def ex_world_simps ex_vars_eq) (simp add: ex_policy_def)
qed

section \<open>Checks of a policy\<close>

text \<open>\<open>len\<close> of a string and of what may stand for one.\<close>

definition str_len :: "pyval \<Rightarrow> nat res" where
  "str_len v = (case v of PStr s \<Rightarrow> Inr (length s) | _ \<Rightarrow> Inl TypeError)"

definition policy_mode_data :: "pydict \<Rightarrow> pydict res" where
  "policy_mode_data d = rbind (dindex d ''mode'') (\<lambda>m. case m of PDict md \<Rightarrow> Inr md | _ \<Rightarrow> Inl AttributeError)"

text \<open>\<open>LambdaMode.validate\<close>: the length of the function's name and description.\<close>

definition lambda_validate :: "pydict \<Rightarrow> unit res" where
  "lambda_validate d =
     rbind (policy_mode_data d) (\<lambda>m.
     rbind (str_len (dget_or m ''function-prefix'' (PStr ''custodian-''))) (\<lambda>p.
     rbind (rbind (dindex d ''name'') str_len) (\<lambda>n.
     if 64 < p + n then Inl PolicyValidationError
     else rbind (py_len (dget_or d ''description'' (PStr []))) (\<lambda>k.
       if 256 < k then Inl PolicyValidationError
       else let tags = dget_or m ''tags'' PNone
            in if \<not> py_truth tags then Inr ()
               else rbind (py_iter tags) (\<lambda>ts.
                 if list_all is_str ts then Inr () else Inl AttributeError)))))"

text \<open>\<open>PHDMode.validate\<close>; \<open>health\<close> tells whether the resource has the health-event filter.\<close>

definition phd_validate :: "bool \<Rightarrow> pydict \<Rightarrow> unit res" where
  "phd_validate health d =
     rbind (lambda_validate d) (\<lambda>_.
     rbind (dindex d ''resource'') (\<lambda>r.
     if py_eq r (PStr ''account'') then Inr ()
     else if \<not> health then Inl PolicyValidationError
     else rbind (policy_mode_data d) (\<lambda>m. if dhas m ''events'' then Inr () else Inl PolicyValidationError)))"

text \<open>
  \<open>CloudTrailMode.validate\<close>: \<open>known\<close> are the shortcuts, \<open>compile_ok\<close> compiles an expression,
  \<open>child_ok\<close> is false for a child resource without trail events.
\<close>

definition trail_event_ok :: "string list \<Rightarrow> (pyval \<Rightarrow> unit res) \<Rightarrow> pyval \<Rightarrow> unit res" where
  "trail_event_ok known compile_ok e = (case e of
      PStr s \<Rightarrow> if s \<in> set known then Inr () else Inl AssertionError
    | PDict d \<Rightarrow> rbind (dindex d ''ids'') compile_ok
    | _ \<Rightarrow> Inr ())"

definition trail_validate :: "string list \<Rightarrow> (pyval \<Rightarrow> unit res) \<Rightarrow> bool \<Rightarrow> pydict \<Rightarrow> unit res" where
  "trail_validate known compile_ok child_ok d =
     rbind (lambda_validate d) (\<lambda>_.
     rbind (policy_mode_data d) (\<lambda>m.
     let events = dget_or m ''events'' PNone
     in if \<not> py_truth events then Inl AssertionError
        else rbind (py_iter events) (\<lambda>es.
             rbind (rmap (trail_event_ok known compile_ok) es) (\<lambda>_.
             if child_ok then Inr () else Inl ValueError))))"

definition guard_duty_validate :: "pydict \<Rightarrow> unit res" where
  "guard_duty_validate d =
     rbind (lambda_validate d) (\<lambda>_.
     rbind (dindex d ''resource'') (\<lambda>r.
     if mem_eq r [PStr ''account'', PStr ''ec2'', PStr ''iam-user''] then Inr () else Inl ValueError))"

definition config_poll_validate :: "bool \<Rightarrow> bool \<Rightarrow> pydict \<Rightarrow> unit res" where
  "config_poll_validate config_type cfn_type d =
     rbind (lambda_validate d) (\<lambda>_.
     rbind (policy_mode_data d) (\<lambda>m.
     if \<not> py_truth (dget_or m ''schedule'' PNone) then Inl PolicyValidationError
     else if config_type \<and> \<not> py_truth (dget_or m ''ignore-support-check'' PNone) then Inl PolicyValidationError
     else if py_truth (dget_or m ''pattern'' PNone) then Inl PolicyValidationError
     else if \<not> cfn_type then Inl PolicyValidationError
     else Inr ()))"

definition config_rule_validate :: "bool \<Rightarrow> pydict \<Rightarrow> unit res" where
  "config_rule_validate config_type d =
     rbind (lambda_validate d) (\<lambda>_.
     if \<not> config_type then Inl PolicyValidationError
     else rbind (policy_mode_data d) (\<lambda>m.
       if py_truth (dget_or m ''pattern'' PNone) then Inl PolicyValidationError else Inr ()))"

text \<open>
  \<open>validate_policy_start_stop\<close>: \<open>tz_ok\<close> says whether \<open>tz.gettz\<close> gives a zone of a file,
  \<open>date_ok\<close> whether the date parser accepts a value.
\<close>

definition validate_start_stop :: "(pyval \<Rightarrow> bool) \<Rightarrow> (pyval \<Rightarrow> bool) \<Rightarrow> pydict \<Rightarrow> unit res" where
  "validate_start_stop tz_ok date_ok d =
     (let tz = dget_or d ''tz'' PNone
      in if py_truth tz \<and> \<not> tz_ok tz then Inl PolicyValidationError
         else if list_ex (\<lambda>v. py_truth v \<and> \<not> date_ok v) [dget_or d ''start'' PNone, dget_or d ''end'' PNone]
              then Inl ValueError else Inr ())"

text \<open>
  \<open>Policy.validate\<close>: conditions, the mode, the dates, the resource manager, the filters and
  the actions, each with its own check, in this order.
\<close>

definition policy_validate ::
  "'c res \<Rightarrow> unit res option \<Rightarrow> unit res \<Rightarrow> unit res \<Rightarrow> unit res list \<Rightarrow> unit res list \<Rightarrow> 'c res" where
  "policy_validate conditions mode dates manager filters actions =
     rbind conditions (\<lambda>c. case mode of
         None \<Rightarrow> Inl PolicyValidationError
       | Some m \<Rightarrow> rbind m (\<lambda>_. rbind dates (\<lambda>_. rbind manager (\<lambda>_.
           rbind (rmap id filters) (\<lambda>_. rbind (rmap id actions) (\<lambda>_. Inr c))))))"

end
