(* ===== verification/Policy_Runs.thy ===== *)
theory Policy_Runs
  imports Policies Query_Manager
begin

text \<open>
  Running a policy (\<open>c7n/policy.py\<close>, \<open>c7n/cwe.py\<close>): the execution modes, from the event or
  the resource manager to the actions and the evaluations reported. What a run does is the
  list of its effects, in order, beside its result, so that what was done before an
  exception is part of it. Actions, sources and services are parameters.
\<close>

section \<open>Effects\<close>

text \<open>
  A metric with its value where it is a count, a file of the output, the call of an action on
  resources, a provisioned function, a delay, and an evaluation for the Config service
  (the type, the id and the compliance of a resource).
\<close>

datatype 'r effect =
    Metric string "nat option" | Wrote string | Acted string "'r list" | Provisioned
  | Slept pyval | Evaluated pyval pyval string

type_synonym ('r, 'a) run = "'r effect list \<times> 'a res"

definition ret :: "'a res \<Rightarrow> ('r, 'a) run" where
  "ret m = ([], m)"

definition emit :: "'r effect list \<Rightarrow> ('r, unit) run" where
  "emit es = (es, Inr ())"

definition seq :: "('r, 'a) run \<Rightarrow> ('a \<Rightarrow> ('r, 'b) run) \<Rightarrow> ('r, 'b) run" where
  "seq m f = (case snd m of Inl e \<Rightarrow> (fst m, Inl e) | Inr a \<Rightarrow> (fst m @ fst (f a), snd (f a)))"

lemma seq_simps [simp]:
  "seq (ret (Inl e)) f = ([], Inl e)"
  "seq (ret (Inr a)) f = f a"
  "seq (emit es) g = (es @ fst (g ()), snd (g ()))"
  by (simp_all add: seq_def ret_def emit_def)

lemma run_parts [simp]:
  "fst (ret m) = []" "snd (ret m) = m" "fst (emit es) = es" "snd (emit es) = Inr ()"
  by (simp_all add: ret_def emit_def)

lemma fst_seq: "fst (seq m f) = fst m @ (case snd m of Inl e \<Rightarrow> [] | Inr a \<Rightarrow> fst (f a))"
  and snd_seq: "snd (seq m f) = rbind (snd m) (\<lambda>a. snd (f a))"
  by (auto simp: seq_def rbind_def split: sum.splits)

text \<open>\<open>with self.policy.ctx\<close>: leaving the context writes the run's metadata.\<close>

definition in_context :: "('r, 'a) run \<Rightarrow> ('r, 'a) run" where
  "in_context m = (fst m @ (case snd m of Inl e \<Rightarrow> [Metric ''PolicyException'' (Some 1)] | Inr _ \<Rightarrow> []) @
     [Wrote ''metadata.json''], snd m)"

section \<open>Actions\<close>

text \<open>An action, whether it takes the event, and whether it gives results to be written.\<close>

record 'r action =
  ac_name :: string
  ac_event :: bool
  ac_process :: "pydict option \<Rightarrow> 'r list \<Rightarrow> bool res"

fun pull_actions :: "'r action list \<Rightarrow> 'r list \<Rightarrow> ('r, unit) run" where
  "pull_actions [] rs = ret (Inr ())"
| "pull_actions (a # as) rs =
     seq (emit [Acted (ac_name a) rs]) (\<lambda>_.
     seq (ret (ac_process a None rs)) (\<lambda>b.
     seq (emit (if b then [Wrote (''action-'' @ ac_name a)] else [])) (\<lambda>_. pull_actions as rs)))"

fun push_actions :: "pydict \<Rightarrow> 'r action list \<Rightarrow> 'r list \<Rightarrow> ('r, unit) run" where
  "push_actions event [] rs = ret (Inr ())"
| "push_actions event (a # as) rs =
     seq (emit [Acted (ac_name a) rs]) (\<lambda>_.
     seq (ret (ac_process a (if ac_event a then Some event else None) rs)) (\<lambda>b.
     seq (emit [Wrote (''action-'' @ ac_name a)]) (\<lambda>_. push_actions event as rs)))"

section \<open>Pull mode\<close>

text \<open>\<open>PullMode.run\<close>; \<open>fetch\<close> is what the resource manager gives.\<close>

definition pull_run :: "bool res \<Rightarrow> 'r list res \<Rightarrow> bool \<Rightarrow> 'r action list \<Rightarrow> ('r, 'r list) run" where
  "pull_run runnable fetch dryrun actions =
     seq (ret runnable) (\<lambda>ok.
     if \<not> ok then ret (Inr [])
     else in_context (
       seq (emit (if fetch = Inl ResourceLimitExceeded then [Metric ''ResourceLimitExceeded'' None] else [])) (\<lambda>_.
       seq (ret fetch) (\<lambda>rs.
       seq (emit [Metric ''ResourceCount'' (Some (length rs)), Metric ''ResourceTime'' None, Wrote ''resources.json'']) (\<lambda>_.
       if rs = [] \<or> dryrun then ret (Inr rs)
       else seq (pull_actions actions rs) (\<lambda>_.
            seq (emit [Metric ''ActionTime'' None]) (\<lambda>_. ret (Inr rs))))))))"

section \<open>Events\<close>

text \<open>\<open>trail_events\<close>: the API calls known by name, with the expression of their ids.\<close>

definition trail_events :: "(string, string \<times> string) odict" where
  "trail_events = [
     (''ConsoleLogin'', (''userIdentity.arn'', ''signin.amazonaws.com'')),
     (''CreateAutoScalingGroup'', (''requestParameters.autoScalingGroupName'', ''autoscaling.amazonaws.com'')),
     (''UpdateAutoScalingGroup'', (''requestParameters.autoScalingGroupName'', ''autoscaling.amazonaws.com'')),
     (''CreateBucket'', (''requestParameters.bucketName'', ''s3.amazonaws.com'')),
     (''CreateCluster'', (''requestParameters.clusterIdentifier'', ''redshift.amazonaws.com'')),
     (''CreateLoadBalancer'', (''requestParameters.loadBalancerName'', ''elasticloadbalancing.amazonaws.com'')),
     (''CreateLoadBalancerPolicy'', (''requestParameters.loadBalancerName'', ''elasticloadbalancing.amazonaws.com'')),
     (''CreateDBInstance'', (''requestParameters.dBInstanceIdentifier'', ''rds.amazonaws.com'')),
     (''CreateVolume'', (''responseElements.volumeId'', ''ec2.amazonaws.com'')),
     (''SetLoadBalancerPoliciesOfListener'', (''requestParameters.loadBalancerName'', ''elasticloadbalancing.amazonaws.com'')),
     (''CreateElasticsearchDomain'', (''requestParameters.domainName'', ''es.amazonaws.com'')),
     (''CreateTable'', (''requestParameters.tableName'', ''dynamodb.amazonaws.com'')),
     (''CreateFunction'', (''requestParameters.functionName'', ''lambda.amazonaws.com'')),
     (''RunInstances'', (''responseElements.instancesSet.items[].instanceId'', ''ec2.amazonaws.com''))]"

text \<open>\<open>match\<close>: the expression for the ids of an event the table knows, compiled as it is used.\<close>

definition cwe_match :: "pydict \<Rightarrow> string option res" where
  "cwe_match event = (case dget event ''detail'' of
      None \<Rightarrow> Inr None
    | Some (PDict d) \<Rightarrow> (case dget d ''eventName'' of
          None \<Rightarrow> Inr None
        | Some (PStr k) \<Rightarrow> Inr (case dget trail_events k of
              Some (ids, _) \<Rightarrow> Some (''detail.'' @ ids) | None \<Rightarrow> None)
        | Some v \<Rightarrow> if hashable v then Inr None else Inl TypeError)
    | Some v \<Rightarrow> rbind (py_in (PStr ''eventName'') v) (\<lambda>b. if b then Inl TypeError else Inr None))"

text \<open>\<open>get_trail_ids\<close> on the events of a mode, with the ids found so far.\<close>

fun trail_ids :: "ext \<Rightarrow> pydict \<Rightarrow> pyval \<Rightarrow> pyval \<Rightarrow> pyval list \<Rightarrow> pyval \<Rightarrow> pyval res" where
  "trail_ids E event ename esource [] ids = Inr ids"
| "trail_ids E event ename esource (PDict e # es) ids =
     (if \<not> py_eq ename (dget_or e ''event'' PNone) then trail_ids E event ename esource es ids
      else if \<not> py_eq esource (dget_or e ''source'' PNone) then trail_ids E event ename esource es ids
      else case dget_or e ''ids'' PNone of
          PStr q \<Rightarrow>
            if q = [] then Inl ValueError
            else rbind (ext_jmes E q (if starts_with q ''detail.'' then PDict event else dget_or event ''detail'' (PDict []))) (\<lambda>ids'.
              if py_truth ids' then Inr ids' else trail_ids E event ename esource es ids')
        | q \<Rightarrow> if py_truth q then Inl AttributeError else Inl ValueError)"
| "trail_ids E event ename esource (e # es) ids =
     rbind (cwe_match event) (\<lambda>info. case info of
         Some q \<Rightarrow> ext_jmes E q (PDict event)
       | None \<Rightarrow> trail_ids E event ename esource es ids)"

definition item_of :: "pyval \<Rightarrow> string \<Rightarrow> pyval res" where
  "item_of v k = (case v of PDict d \<Rightarrow> dindex d k | _ \<Rightarrow> Inl TypeError)"

definition get_trail_ids :: "ext \<Rightarrow> pydict \<Rightarrow> pydict \<Rightarrow> pyval res" where
  "get_trail_ids E event mode =
     rbind (dindex event ''detail'') (\<lambda>detail.
     rbind (item_of detail ''eventName'') (\<lambda>ename.
     rbind (item_of detail ''eventSource'') (\<lambda>esource.
     rbind (py_iter (dget_or mode ''events'' (PList []))) (\<lambda>es.
       trail_ids E event ename esource es (PTuple [])))))"

text \<open>\<open>event.get('detail', {}).get(k)\<close>.\<close>

definition detail_get :: "pydict \<Rightarrow> string \<Rightarrow> pyval res" where
  "detail_get event k = (case dget_or event ''detail'' (PDict []) of
      PDict d \<Rightarrow> Inr (dget_or d k PNone) | _ \<Rightarrow> Inl AttributeError)"

definition get_ids :: "ext \<Rightarrow> pydict \<Rightarrow> pydict \<Rightarrow> pyval list option res" where
  "get_ids E event mode =
     (let mode_type = dget_or mode ''type'' PNone
      in if py_eq mode_type (PStr ''ec2-instance-state'')
         then rbind (detail_get event ''instance-id'') (\<lambda>i. Inr (Some (filter py_truth [i])))
         else if py_eq mode_type (PStr ''asg-instance-state'')
         then rbind (detail_get event ''AutoScalingGroupName'') (\<lambda>i. Inr (Some (filter py_truth [i])))
         else if \<not> py_eq mode_type (PStr ''cloudtrail'') then Inr None
         else rbind (get_trail_ids E event mode) (\<lambda>ids.
           Inr (Some (filter py_truth (case ids of PTuple xs \<Rightarrow> xs | PList xs \<Rightarrow> xs | i \<Rightarrow> [i])))))"

section \<open>Push modes\<close>

text \<open>
  \<open>assume_member\<close>: the role to assume, with the account and region of the event, when the
  policy names one; \<open>fmt\<close> is \<open>str.format\<close> with \<open>account_id\<close>.
\<close>

definition assume_member ::
  "(string \<Rightarrow> pyval \<Rightarrow> string res) \<Rightarrow> (pydict \<Rightarrow> pyval res) \<Rightarrow> pydict \<Rightarrow> pydict \<Rightarrow> (string \<times> pyval \<times> pyval) option res" where
  "assume_member fmt member_id_of mode event =
     (let role = dget_or mode ''member-role'' PNone in
      rbind (member_id_of event) (\<lambda>member_id.
      let region = dget_or event ''region'' PNone
      in if py_truth role \<and> py_truth member_id \<and> py_truth region
         then (case role of PStr s \<Rightarrow> rbind (fmt s member_id) (\<lambda>r. Inr (Some (r, member_id, region)))
               | _ \<Rightarrow> Inl AttributeError)
         else Inr None))"

definition guard_duty_member :: "pydict \<Rightarrow> pyval res" where
  "guard_duty_member event = rbind (dindex event ''detail'') (\<lambda>d. item_of d ''accountId'')"

text \<open>\<open>LambdaMode.resolve_resources\<close>, after the member account was assumed.\<close>

definition resolve_resources ::
  "ext \<Rightarrow> (pyval list \<Rightarrow> pyval list res) \<Rightarrow> (pyval list \<Rightarrow> 'r list res) \<Rightarrow> pydict \<Rightarrow> pydict \<Rightarrow> 'r list res" where
  "resolve_resources E match_ids by_ids event mode =
     rbind (get_ids E event mode) (\<lambda>ids. case ids of
         None \<Rightarrow> Inl ValueError
       | Some is \<Rightarrow> rbind (match_ids is) (\<lambda>ms. if ms = [] then Inr [] else by_ids ms))"

text \<open>\<open>CloudTrailMode.resolve_resources\<close>: with the delay of the mode before.\<close>

definition trail_resolve :: "pydict \<Rightarrow> 'r list res \<Rightarrow> ('r, 'r list) run" where
  "trail_resolve mode resolve =
     (let delay = dget_or mode ''delay'' PNone
      in seq (emit (if py_truth delay then [Slept delay] else [])) (\<lambda>_. ret resolve))"

definition run_resource_set :: "pydict \<Rightarrow> 'r action list \<Rightarrow> 'r list \<Rightarrow> ('r, 'r list) run" where
  "run_resource_set event actions rs =
     seq (in_context (
       seq (emit [Metric ''ResourceCount'' (Some (length rs)), Wrote ''resources.json'']) (\<lambda>_.
         push_actions event actions rs))) (\<lambda>_. ret (Inr rs))"

text \<open>\<open>LambdaMode.run\<close>: None is Python's None, for a policy that does not run or match.\<close>

definition lambda_run ::
  "bool res \<Rightarrow> ('r, 'r list) run \<Rightarrow> ('r list \<Rightarrow> 'r list res) \<Rightarrow> 'r action list \<Rightarrow> pydict \<Rightarrow> ('r, 'r list option) run" where
  "lambda_run runnable resolve filt actions event =
     seq (ret runnable) (\<lambda>ok.
     if \<not> ok then ret (Inr None)
     else seq resolve (\<lambda>rs.
       if rs = [] then ret (Inr (Some []))
       else seq (ret (filt rs)) (\<lambda>rs'.
         if rs' = [] then ret (Inr None)
         else seq (run_resource_set event actions rs') (\<lambda>out. ret (Inr (Some out))))))"

text \<open>
  \<open>PHDMode\<close>: the entities of events, asked for in chunks of ten, every chunk with all the
  events; \<open>pages\<close> is the service's answer.
\<close>

definition process_event_arns :: "('a list \<Rightarrow> 'e list) \<Rightarrow> 'a list \<Rightarrow> 'e list res" where
  "process_event_arns pages event_arns =
     rbind (chunks 10 event_arns) (\<lambda>sets. Inr (concat (map (\<lambda>_. pages event_arns) sets)))"

definition phd_ids :: "string \<Rightarrow> string list \<Rightarrow> string list" where
  "phd_ids id_field entities =
     (if has_substr (lower id_field) ''arn'' then map (\<lambda>e. last (rsplit1 CHR ''/'' e)) entities else entities)"

section \<open>Config rules\<close>

definition left_scope :: "pydict \<Rightarrow> pydict \<Rightarrow> bool res" where
  "left_scope event item =
     (if py_truth (dget_or event ''eventLeftScope'' PNone) then Inr True
      else rbind (dindex item ''configurationItemStatus'') (\<lambda>s.
        Inr (mem_eq s [PStr ''ResourceDeleted'', PStr ''ResourceNotRecorded'', PStr ''ResourceDeletedNotRecorded''])))"

text \<open>
  \<open>ConfigRuleMode.run\<close>: \<open>item\<close> is the configuration item of the event and \<open>push\<close> the run of
  the policy on it. The evaluation is what the service is told.
\<close>

definition config_rule_run ::
  "pydict \<Rightarrow> pydict \<Rightarrow> bool \<Rightarrow> ('r, 'r list option) run \<Rightarrow> ('r, 'r list option) run" where
  "config_rule_run event item match_compliant push =
     seq (ret (left_scope event item)) (\<lambda>gone.
     seq (if gone then ret (Inr (Some [], ''NOT_APPLICABLE''))
          else seq push (\<lambda>out.
            let found = (out \<noteq> None \<and> out \<noteq> Some [])
            in ret (Inr (out, if found = match_compliant then ''COMPLIANT'' else ''NON_COMPLIANT'')))) (\<lambda>(out, compliance).
     seq (ret (dindex item ''resourceType'')) (\<lambda>rtype.
     seq (ret (dindex item ''resourceId'')) (\<lambda>rid.
     seq (ret (dindex item ''configurationItemCaptureTime'')) (\<lambda>_.
     seq (emit [Evaluated rtype rid compliance]) (\<lambda>_. ret (Inr out)))))))"

text \<open>
  \<open>ConfigPollRuleMode.run\<close>: \<open>pull\<close> is the policy in pull mode, \<open>population\<close> all resources of
  the type, \<open>olds\<close> the evaluations the service has (type and id), \<open>token\<close> whether the event
  has a result token.
\<close>

definition obsolete_evaluations :: "(pyval \<times> pyval) list \<Rightarrow> pyval list \<Rightarrow> (pyval \<times> pyval) list" where
  "obsolete_evaluations olds latest = filter (\<lambda>(t, i). \<not> mem_eq i latest) olds"

definition config_poll_run ::
  "('r, 'r list) run \<Rightarrow> 'r list res \<Rightarrow> ('r \<Rightarrow> pyval res) \<Rightarrow> pyval \<Rightarrow> (pyval \<times> pyval) list res \<Rightarrow> bool \<Rightarrow>
   ('r, pyval list) run" where
  "config_poll_run pull population rid rtype olds token =
     seq pull (\<lambda>rs.
     seq (ret (rmap rid rs)) (\<lambda>ids.
     seq (ret (py_set (PList ids))) (\<lambda>matched.
     seq (ret population) (\<lambda>all.
     seq (ret (rmap rid all)) (\<lambda>all_ids.
     seq (ret (py_set (PList (filter (\<lambda>i. \<not> mem_eq i matched) all_ids)))) (\<lambda>unmatched.
     seq (ret olds) (\<lambda>olds.
     let evals = map (\<lambda>i. Evaluated rtype i ''NON_COMPLIANT'') matched @
           map (\<lambda>i. Evaluated rtype i ''COMPLIANT'') unmatched @
           map (\<lambda>(t, i). Evaluated t i ''NOT_APPLICABLE'') (obsolete_evaluations olds (matched @ unmatched))
     in seq (emit (if token then evals else [])) (\<lambda>_. ret (Inr matched)))))))))"

section \<open>Running a policy\<close>

datatype 'r lambda_outcome = Resources "'r list" | Deployed

text \<open>
  \<open>Policy.__call__\<close>: \<open>runnable\<close> and \<open>fetch\<close> take whether the runtime filters were trimmed.
\<close>

definition policy_call ::
  "bool \<Rightarrow> bool \<Rightarrow> (bool \<Rightarrow> bool res) \<Rightarrow> (bool \<Rightarrow> 'r list res) \<Rightarrow> 'r action list \<Rightarrow> unit res \<Rightarrow> ('r, 'r list) run \<Rightarrow>
   ('r, 'r lambda_outcome) run" where
  "policy_call dryrun serverless runnable fetch actions publish mode_run =
     (let trimmed = (serverless \<or> dryrun)
      in if dryrun then seq (pull_run (runnable trimmed) (fetch trimmed) True actions) (\<lambda>rs. ret (Inr (Resources rs)))
         else seq (ret (runnable trimmed)) (\<lambda>ok.
           if \<not> ok then ret (Inr (Resources []))
           else if serverless then seq (emit [Provisioned]) (\<lambda>_. seq (ret publish) (\<lambda>_. ret (Inr Deployed)))
           else seq mode_run (\<lambda>rs. ret (Inr (Resources rs)))))"

section \<open>What runs promise\<close>

text \<open>The calls of actions in a run.\<close>

fun acted :: "'r effect list \<Rightarrow> (string \<times> 'r list) list" where
  "acted [] = []"
| "acted (Acted n rs # es) = (n, rs) # acted es"
| "acted (e # es) = acted es"

lemma acted_append [simp]: "acted (a @ b) = acted a @ acted b"
  by (induction a rule: acted.induct) auto

lemma acted_in_context [simp]: "acted (fst (in_context m)) = acted (fst m)"
  by (cases "snd m") (auto simp: in_context_def)

lemma snd_in_context [simp]: "snd (in_context m) = snd m"
  by (simp add: in_context_def)

text \<open>Actions in a row: each is called on the same resources until one raises.\<close>

lemma pull_actions_acted:
  "\<exists>k \<le> length as. acted (fst (pull_actions as rs)) = map (\<lambda>a. (ac_name a, rs)) (take k as) \<and>
     (snd (pull_actions as rs) = Inr () \<and> k = length as \<and> (\<forall>a \<in> set as. \<exists>b. ac_process a None rs = Inr b) \<or>
      (\<exists>e. snd (pull_actions as rs) = Inl e \<and> 0 < k \<and> ac_process (as ! (k - 1)) None rs = Inl e \<and>
        (\<forall>a \<in> set (take (k - 1) as). \<exists>b. ac_process a None rs = Inr b)))"
proof (induction as)
  case Nil
  then show ?case by (simp add: ret_def)
next
  case (Cons a as)
  show ?case
  proof (cases "ac_process a None rs")
    case (Inl e)
    then show ?thesis by (intro exI[of _ 1]) simp
  next
    case (Inr b)
    from Cons obtain k where k: "k \<le> length as"
      "acted (fst (pull_actions as rs)) = map (\<lambda>a. (ac_name a, rs)) (take k as)"
      "snd (pull_actions as rs) = Inr () \<and> k = length as \<and> (\<forall>a \<in> set as. \<exists>b. ac_process a None rs = Inr b) \<or>
      (\<exists>e. snd (pull_actions as rs) = Inl e \<and> 0 < k \<and> ac_process (as ! (k - 1)) None rs = Inl e \<and>
        (\<forall>a \<in> set (take (k - 1) as). \<exists>b. ac_process a None rs = Inr b))" by blast
    show ?thesis
      using Inr k by (intro exI[of _ "Suc k"]) (cases k; auto)
  qed
qed

lemma acted_pull_run:
  "acted (fst (pull_run runnable fetch dryrun actions)) =
     (case (runnable, fetch) of
        (Inr True, Inr rs) \<Rightarrow> if rs = [] \<or> dryrun then [] else acted (fst (pull_actions actions rs))
      | _ \<Rightarrow> [])"
  by (cases runnable; cases fetch) (auto simp: pull_run_def fst_seq split: sum.splits)

lemma snd_pull_run:
  "snd (pull_run runnable fetch dryrun actions) =
     rbind runnable (\<lambda>ok. if \<not> ok then Inr [] else rbind fetch (\<lambda>rs.
       if rs = [] \<or> dryrun then Inr rs else rbind (snd (pull_actions actions rs)) (\<lambda>_. Inr rs)))"
  by (cases runnable; cases fetch) (auto simp: pull_run_def snd_seq)


definition ex_actions :: "nat action list" where
  "ex_actions = [\<lparr>ac_name = ''tag'', ac_event = False, ac_process = (\<lambda>e rs. Inr True)\<rparr>,
     \<lparr>ac_name = ''stop'', ac_event = False, ac_process = (\<lambda>e rs. Inl ClientError)\<rparr>,
     \<lparr>ac_name = ''notify'', ac_event = False, ac_process = (\<lambda>e rs. Inr False)\<rparr>]"


text \<open>C2: a policy with a limit on the number of resources, counted alone, never hands more
  resources than that to an action, whatever is cached, fetched or filtered.\<close>
theorem limit_bounds_actions:
  assumes "lim_op l \<noteq> ''and''" "lim_amount l = PInt a" "0 < a"
    and "fetch = rbind (manager_resources cget csave source augment filters (Some l) True key c) (\<lambda>x. Inr (fst x))"
    and "(n, rs) \<in> set (acted (fst (pull_run runnable fetch dryrun actions)))"
  shows "int (length rs) \<le> a"
proof -
  obtain sel where sel: "fetch = Inr sel" "(n, rs) \<in> set (acted (fst (pull_actions actions sel)))"
    using assms(5) by (auto simp: acted_pull_run split: sum.splits bool.splits if_splits)
  obtain k where "acted (fst (pull_actions actions sel)) = map (\<lambda>a. (ac_name a, sel)) (take k actions)"
    using pull_actions_acted[of actions sel] by blast
  with sel(2) have rs: "rs = sel" by auto
  from sel(1) assms(4) obtain population where "check_resource_limits l (length sel) population = Inr ()"
    by (auto simp: manager_resources_def rbind_eq_Inr split: prod.splits)
  then show ?thesis using check_limit_amount[OF assms(1-3)] rs by blast
qed

lemma limit_bounds_actions_witness:
  "(''tag'', [3]) \<in> set (acted (fst (pull_run (Inr True)
      (rbind (manager_resources null_get null_save (\<lambda>k. Inr [k, 4]) Inr [\<lambda>rs. Inr (butlast rs)]
         (Some \<lparr>lim_op = ''or'', lim_amount = PInt 1, lim_percent = PNone\<rparr>) True 3 ()) (\<lambda>x. Inr (fst x))) False ex_actions))) \<and>
   int (length [3 :: nat]) \<le> 1"
proof (rule conjI)
  let ?l = "\<lparr>lim_op = ''or'', lim_amount = PInt 1, lim_percent = PNone\<rparr>"
  let ?f = "rbind (manager_resources null_get null_save (\<lambda>k. Inr [k, 4]) Inr [\<lambda>rs. Inr (butlast rs)] (Some ?l) True 3 ())
      (\<lambda>x. Inr (fst x))"
  show act: "(''tag'', [3]) \<in> set (acted (fst (pull_run (Inr True) ?f False ex_actions)))"
    by (simp add: acted_pull_run manager_resources_def fetch_resources_def null_get_def null_save_def
        check_resource_limits_def percentage_amount_def over_int Let_def ex_actions_def fst_seq)
  show "int (length [3 :: nat]) \<le> 1"
    by (rule limit_bounds_actions[OF _ _ _ refl act]) simp_all
qed

text \<open>C4: a dry run, of any policy in any mode, runs no action, provisions nothing and reports no
  evaluation; it gives what the resource manager gives with the runtime filters trimmed.\<close>
theorem dryrun_is_safe:
  "acted (fst (policy_call True serverless runnable fetch actions publish mode_run)) = [] \<and>
   Provisioned \<notin> set (fst (policy_call True serverless runnable fetch actions publish mode_run)) \<and>
   (\<forall>t i c. Evaluated t i c \<notin> set (fst (policy_call True serverless runnable fetch actions publish mode_run))) \<and>
   snd (policy_call True serverless runnable fetch actions publish mode_run) =
     rbind (runnable True) (\<lambda>ok. if ok then rbind (fetch True) (\<lambda>rs. Inr (Resources rs)) else Inr (Resources []))"
proof -
  let ?p = "pull_run (runnable True) (fetch True) True actions"
  have e: "fst (policy_call True serverless runnable fetch actions publish mode_run) = fst ?p"
    by (simp add: policy_call_def fst_seq split: sum.splits)
  have "x \<in> set (fst ?p) \<Longrightarrow> (\<exists>n v. x = Metric n v) \<or> (\<exists>f. x = Wrote f)" for x
    by (cases "runnable True"; cases "fetch True")
       (auto simp: pull_run_def fst_seq in_context_def split: sum.splits if_splits)
  then have "Provisioned \<notin> set (fst ?p)" "Evaluated t i c \<notin> set (fst ?p)" for t i c
    by blast+
  moreover have "acted (fst ?p) = []" by (simp add: acted_pull_run split: sum.splits bool.splits)
  moreover have "snd (policy_call True serverless runnable fetch actions publish mode_run) =
     rbind (runnable True) (\<lambda>ok. if ok then rbind (fetch True) (\<lambda>rs. Inr (Resources rs)) else Inr (Resources []))"
    by (cases "runnable True"; cases "fetch True") (simp_all add: policy_call_def snd_seq snd_pull_run)
  ultimately show ?thesis unfolding e by blast
qed

text \<open>The evaluations of a run, as id and compliance.\<close>

fun evaluated :: "'r effect list \<Rightarrow> (pyval \<times> string) list" where
  "evaluated [] = []"
| "evaluated (Evaluated t i c # es) = (i, c) # evaluated es"
| "evaluated (e # es) = evaluated es"

lemma evaluated_append [simp]: "evaluated (a @ b) = evaluated a @ evaluated b"
  by (induction a rule: evaluated.induct) auto

lemma evaluated_map [simp]: "evaluated (map (\<lambda>x. Evaluated (f x) (g x) c) xs) = map (\<lambda>x. (g x, c)) xs"
  by (induction xs) auto

lemma evaluated_push: "evaluated (fst (push_actions event as rs)) = []"
  by (induction "as") (auto simp: fst_seq split: sum.splits)

lemma evaluated_context [simp]: "evaluated (fst (in_context m)) = evaluated (fst m)"
  by (cases "snd m") (auto simp: in_context_def)

lemma evaluated_lambda: "evaluated (fst (lambda_run runnable (ret resolve) filt actions event)) = []"
  by (auto simp: lambda_run_def run_resource_set_def fst_seq evaluated_push split: sum.splits)

text \<open>A config rule reports one evaluation for each item, whatever its actions do unless
  they raise: non-compliant, without \<open>match-compliant\<close>, exactly when the policy runs and its
  filters keep the resource, and the other way round with it.\<close>
theorem config_rule_verdict:
  assumes "left_scope event item = Inr False"
    and "dget item ''resourceType'' = Some rtype" "dget item ''resourceId'' = Some rid"
    and "dget item ''configurationItemCaptureTime'' = Some t"
    and "filt [r] = Inr kept" "snd (push_actions event actions kept) = Inr ()"
  shows "evaluated (fst (config_rule_run event item match_compliant
      (lambda_run (Inr ok) (ret (Inr [r])) filt actions event))) =
    [(rid, if (ok \<and> kept \<noteq> []) = match_compliant then ''COMPLIANT'' else ''NON_COMPLIANT'')]"
proof -
  let ?p = "lambda_run (Inr ok) (ret (Inr [r])) filt actions event"
  have "\<exists>out. snd ?p = Inr out \<and> (out \<noteq> None \<and> out \<noteq> Some []) = (ok \<and> kept \<noteq> [])"
    using assms(5,6) by (auto simp: lambda_run_def run_resource_set_def snd_seq)
  then obtain out where "snd ?p = Inr out" "(out \<noteq> None \<and> out \<noteq> Some []) = (ok \<and> kept \<noteq> [])" by blast
  moreover have "evaluated (fst ?p) = []" by (rule evaluated_lambda)
  ultimately show ?thesis
    using assms(1-4) by (simp add: config_rule_run_def fst_seq snd_seq dindex_def Let_def)
qed

definition ex_item :: pydict where
  "ex_item = [(''configurationItemStatus'', PStr ''OK''), (''resourceType'', PStr ''AWS::EC2::Instance''),
     (''resourceId'', PStr ''i-1''), (''configurationItemCaptureTime'', PStr ''t'')]"

lemma config_rule_verdict_witness:
  "evaluated (fst (config_rule_run [] ex_item False (lambda_run (Inr True) (ret (Inr [7 :: nat])) Inr [] []))) =
     [(PStr ''i-1'', if (True \<and> [7 :: nat] \<noteq> []) = False then ''COMPLIANT'' else ''NON_COMPLIANT'')]"
  by (rule config_rule_verdict)
     (simp_all add: left_scope_def ex_item_def dindex_def mem_eq_def dget_or_def)

lemma dedup_strings: "\<exists>zs. dedup (map PStr xs) = map PStr zs \<and> set zs = set xs \<and> distinct zs"
proof (induction xs)
  case (Cons x xs)
  then obtain zs where z: "dedup (map PStr xs) = map PStr zs" "set zs = set xs" "distinct zs" by blast
  have "filter (\<lambda>y. \<not> py_eq (PStr x) y) (map PStr zs) = map PStr (filter (\<lambda>y. x \<noteq> y) zs)" for zs
    by (induction zs) auto
  with z show ?case by (intro exI[of _ "x # filter (\<lambda>y. x \<noteq> y) zs"]) auto
qed simp

lemma filter_mem_eq: "filter (\<lambda>i. \<not> mem_eq i (map PStr zs)) (map PStr ys) = map PStr (filter (\<lambda>y. y \<notin> set zs) ys)"
  by (induction ys) (auto simp: mem_eq_PStr)

lemma obsolete_strings:
  "obsolete_evaluations (map (\<lambda>(t, i). (t, PStr i)) olds) (map PStr zs) =
     map (\<lambda>(t, i). (t, PStr i)) (filter (\<lambda>(t, i). i \<notin> set zs) olds)"
  by (induction olds) (auto simp: obsolete_evaluations_def mem_eq_PStr)

text \<open>C7: polling for a config rule reports, of all resources of the type, those the policy
  matches as non-compliant and the others as compliant, calls not applicable what the
  service remembers and is gone, and reports no resource twice.\<close>
theorem poll_evaluations:
  assumes "snd pull = Inr rs" "evaluated (fst pull) = []" "rmap rid rs = Inr (map PStr xs)"
    and "rmap rid everything = Inr (map PStr ys)"
    and "evs = evaluated (fst (config_poll_run pull (Inr everything) rid rtype
      (Inr (map (\<lambda>(t, i). (t, PStr i)) olds)) True))"
  shows "(\<forall>i. ((PStr i, ''NON_COMPLIANT'') \<in> set evs \<longleftrightarrow> i \<in> set xs) \<and>
      ((PStr i, ''COMPLIANT'') \<in> set evs \<longleftrightarrow> i \<in> set ys \<and> i \<notin> set xs) \<and>
      ((PStr i, ''NOT_APPLICABLE'') \<in> set evs \<longleftrightarrow> i \<in> snd ` set olds \<and> i \<notin> set xs \<and> i \<notin> set ys)) \<and>
    (distinct (map snd olds) \<longrightarrow> distinct (map fst evs))"
proof -
  obtain zs where z: "dedup (map PStr xs) = map PStr zs" "set zs = set xs" "distinct zs"
    using dedup_strings by blast
  obtain us where u: "dedup (map PStr (filter (\<lambda>y. y \<notin> set zs) ys)) = map PStr us"
      "set us = set ys - set xs" "distinct us"
    using dedup_strings[of "filter (\<lambda>y. y \<notin> set zs) ys"] z(2) by auto
  have h: "list_all hashable (map PStr vs)" for vs by (simp add: list_all_iff)
  have "snd (config_poll_run pull (Inr everything) rid rtype (Inr (map (\<lambda>(t, i). (t, PStr i)) olds)) True) = Inr (map PStr zs)"
    using assms(1,3,4) z u by (simp add: config_poll_run_def snd_seq py_set_def h filter_mem_eq Let_def)
  have "map PStr zs @ map PStr us = map PStr (zs @ us)" by simp
  then have evs: "evs = map (\<lambda>i. (PStr i, ''NON_COMPLIANT'')) zs @ map (\<lambda>i. (PStr i, ''COMPLIANT'')) us @
      map (\<lambda>(t, i). (PStr i, ''NOT_APPLICABLE'')) (filter (\<lambda>(t, i). i \<notin> set (zs @ us)) olds)"
    using assms(1-4) z u unfolding assms(5)
    by (simp add: config_poll_run_def fst_seq py_set_def h filter_mem_eq Let_def obsolete_strings comp_def
        case_prod_beta del: map_append)
  have "map fst evs = map PStr (zs @ us @ map snd (filter (\<lambda>(t, i). i \<notin> set (zs @ us)) olds))"
    by (simp add: evs comp_def case_prod_beta)
  then have "distinct (map fst evs) \<longleftrightarrow> distinct (zs @ us @ map snd (filter (\<lambda>(t, i). i \<notin> set (zs @ us)) olds))"
    by (simp only: distinct_map inj_on_def pyval.inject) blast
  moreover have "distinct (zs @ us @ map snd (filter (\<lambda>(t, i). i \<notin> set (zs @ us)) olds))" if "distinct (map snd olds)"
    unfolding distinct_append using z(2,3) u(2,3) distinct_map_filter[OF that] by force
  ultimately have "distinct (map snd olds) \<longrightarrow> distinct (map fst evs)" by blast
  moreover have "((PStr i, ''NON_COMPLIANT'') \<in> set evs \<longleftrightarrow> i \<in> set xs)"
      "((PStr i, ''COMPLIANT'') \<in> set evs \<longleftrightarrow> i \<in> set ys \<and> i \<notin> set xs)"
      "((PStr i, ''NOT_APPLICABLE'') \<in> set evs \<longleftrightarrow> i \<in> snd ` set olds \<and> i \<notin> set xs \<and> i \<notin> set ys)" for i
    using z(2) u(2) by (force simp: evs)+
  ultimately show ?thesis by blast
qed

definition ex_poll :: "(pyval \<times> string) list" where
  "ex_poll = evaluated (fst (config_poll_run (ret (Inr [''a''])) (Inr [''a'', ''b'']) (\<lambda>r. Inr (PStr r)) PNone
      (Inr (map (\<lambda>(t, i). (t, PStr i)) [(PNone, ''b''), (PNone, ''c'')])) True))"

lemma poll_evaluations_witness:
  "(PStr ''a'', ''NON_COMPLIANT'') \<in> set ex_poll \<and> (PStr ''b'', ''COMPLIANT'') \<in> set ex_poll \<and>
   (PStr ''c'', ''NOT_APPLICABLE'') \<in> set ex_poll \<and> distinct (map fst ex_poll)"
proof -
  have "snd (ret (Inr [''a''])) = Inr [''a'']" "evaluated (fst (ret (Inr [''a'']))) = []"
      "rmap (\<lambda>r. Inr (PStr r)) [''a''] = Inr (map PStr [''a''])"
      "rmap (\<lambda>r. Inr (PStr r)) [''a'', ''b''] = Inr (map PStr [''a'', ''b''])" by simp_all
  from poll_evaluations[OF this ex_poll_def] show ?thesis by simp
qed

text \<open>
  The name of a known API call among a mode's events answers for every known call: events
  listed after it with ids of their own do not count.
\<close>

lemma alias_takes_over:
  assumes "\<not> is_dict a" "cwe_match event = Inr (Some q)"
  shows "trail_ids E event ename esource (a # es) ids = ext_jmes E q (PDict event)"
  using assms by (cases a) (simp_all add: is_dict_def)

end
