(* ===== verification/Lookups.thy ===== *)
theory Lookups
  imports PyVal
begin

text \<open>
  Values looked up on a resource (\<open>c7n/lookup.py\<close>), the implicit filter of actions
  (\<open>c7n/element.py\<close>) and the records of the data provider (\<open>c7n/data.py\<close>).
\<close>

section \<open>Lookups\<close>

text \<open>\<open>SKIP\<close>, the sentinel for a value to leave out, is None here.\<close>

definition is_lookup :: "pyval \<Rightarrow> bool" where
  "is_lookup source = is_dict source"

definition has_lookups :: "pydict \<Rightarrow> bool" where
  "has_lookups spec_map = list_ex is_lookup (dvalues spec_map)"

definition get_value_from_resource :: "ext \<Rightarrow> pydict \<Rightarrow> pydict \<Rightarrow> pyval res" where
  "get_value_from_resource E source resource =
     rbind (case dget source ''key'' of
         None \<Rightarrow> Inr PNone
       | Some (PStr k) \<Rightarrow> ext_jmes E k (PDict resource)
       | Some _ \<Rightarrow> Inl TypeError) (\<lambda>value.
     if value \<noteq> PNone then Inr value
     else case dget source ''default-value'' of
         Some v \<Rightarrow> Inr v
       | None \<Rightarrow> if dhas source ''key'' then Inl PyException else Inl KeyError)"

definition get_value :: "ext \<Rightarrow> pydict \<Rightarrow> pydict \<Rightarrow> pyval res" where
  "get_value E source resource =
     rbind (dindex source ''type'') (\<lambda>t.
     if py_eq t (PStr ''resource'') then get_value_from_resource E source resource else Inr PNone)"

definition lookup_extract :: "ext \<Rightarrow> pyval \<Rightarrow> pydict \<Rightarrow> pyval res" where
  "lookup_extract E source resource = (case source of PDict s \<Rightarrow> get_value E s resource | _ \<Rightarrow> Inr source)"

definition resolve_value :: "ext \<Rightarrow> pyval \<Rightarrow> pydict \<Rightarrow> string \<Rightarrow> string list \<Rightarrow> pyval option res" where
  "resolve_value E spec resource name current_names = (case spec of
      PDict s \<Rightarrow>
        if \<not> dhas s ''key'' \<and> name \<in> set current_names then Inr None
        else rbind (lookup_extract E spec resource) (\<lambda>v. Inr (Some v))
    | _ \<Rightarrow> Inr (Some spec))"

section \<open>Filtering in actions\<close>

text \<open>\<open>Element.filter_resources\<close>: the resources whose value of an expression is allowed.\<close>

definition element_filter :: "ext \<Rightarrow> string \<Rightarrow> pyval list \<Rightarrow> pydict list \<Rightarrow> pydict list res" where
  "element_filter E key_expr allowed rs =
     (let search_expr = (if starts_with key_expr ''[].'' then key_expr else ''[].'' @ key_expr)
      in rfilter (\<lambda>r. rbind (ext_jmes E search_expr (PList [PDict r])) (\<lambda>values.
           if \<not> py_truth values then Inr (mem_eq PNone allowed)
           else case values of
               PList (v # vs) \<Rightarrow> Inr (mem_eq v allowed)
             | PTuple (v # vs) \<Rightarrow> Inr (mem_eq v allowed)
             | PStr (c # cs) \<Rightarrow> Inr (mem_eq (PStr [c]) allowed)
             | PDict d \<Rightarrow> Inl KeyError
             | _ \<Rightarrow> Inl TypeError)) rs)"

section \<open>Records of the data provider\<close>

definition query_records :: "pyval \<Rightarrow> pyval list res" where
  "query_records q = (case q of PDict d \<Rightarrow> py_iter (dget_or d ''records'' (PTuple [])) | _ \<Rightarrow> Inl AttributeError)"

definition static_records :: "pyval list \<Rightarrow> pyval list res" where
  "static_records queries = rbind (rmap query_records queries) (\<lambda>rss. Inr (concat rss))"

definition query_ok :: "pyval \<Rightarrow> unit res" where
  "query_ok q = (case q of
      PDict d \<Rightarrow> (case dget_or d ''records'' PNone of
          PList rs \<Rightarrow> Inr () | PTuple rs \<Rightarrow> Inr () | _ \<Rightarrow> Inl PolicyValidationError)
    | _ \<Rightarrow> Inl AttributeError)"

definition static_validate :: "pyval list \<Rightarrow> unit res" where
  "static_validate queries = rbind (rmap query_ok queries) (\<lambda>_. Inr ())"

text \<open>
  \<open>DiskSource\<close>: \<open>exists\<close>, \<open>is_dir\<close> and \<open>is_file\<close> describe the file system, \<open>globbed\<close> the
  files a pattern matches in a directory, \<open>read\<close> the data of a file.
\<close>

definition disk_validate :: "(pyval \<Rightarrow> bool) \<Rightarrow> (pyval \<Rightarrow> bool) \<Rightarrow> pydict list \<Rightarrow> unit res" where
  "disk_validate exists is_dir queries =
     rbind (rmap (\<lambda>q. rbind (dindex q ''path'') (\<lambda>p.
       if \<not> exists p then Inl PolicyValidationError
       else if is_dir p \<and> \<not> dhas q ''glob'' then Inl PolicyValidationError
       else Inr ())) queries) (\<lambda>_. Inr ())"

definition disk_file :: "ext \<Rightarrow> (pyval \<Rightarrow> pyval res) \<Rightarrow> pyval \<Rightarrow> pyval \<Rightarrow> pyval list res" where
  "disk_file E read resource_key path =
     rbind (read path) (\<lambda>data.
     rbind (case resource_key of
         PStr k \<Rightarrow> if k = [] then Inr data else ext_jmes E k data
       | k \<Rightarrow> if py_truth k then Inl TypeError else Inr data) (\<lambda>d.
     case d of PList xs \<Rightarrow> Inr xs | _ \<Rightarrow> Inl PolicyExecutionError))"

definition disk_records ::
  "ext \<Rightarrow> (pyval \<Rightarrow> bool) \<Rightarrow> (pyval \<Rightarrow> pyval \<Rightarrow> pyval list) \<Rightarrow> (pyval \<Rightarrow> pyval res) \<Rightarrow> pydict list \<Rightarrow> pyval list res" where
  "disk_records E is_file globbed read queries =
     rbind (rmap (\<lambda>q. rbind (dindex q ''path'') (\<lambda>p.
       let key = dget_or q ''key'' PNone;
           files = (if is_file p then [p] else globbed p (dget_or q ''glob'' PNone))
       in rbind (rmap (disk_file E read key) files) (\<lambda>rss. Inr (concat rss)))) queries) (\<lambda>rsss. Inr (concat rsss))"

definition data_source :: "pydict \<Rightarrow> string res" where
  "data_source data = (case dget_or data ''source'' (PStr ''disk'') of
      PStr s \<Rightarrow> if s \<in> set [''static'', ''disk''] then Inr s else Inl PolicyValidationError
    | v \<Rightarrow> Inl (if hashable v then PolicyValidationError else TypeError))"

text \<open>A checked static source gives its records, query by query.\<close>

lemma query_ok_records:
  assumes "query_ok q = Inr u" shows "\<exists>r. query_records q = Inr r"
proof -
  from assms obtain d where q: "q = PDict d" by (cases q) (simp_all add: query_ok_def)
  with assms show ?thesis
    by (cases "dget d ''records''"; cases "the (dget d ''records'')")
       (simp_all add: query_ok_def query_records_def dget_or_def)
qed

lemma static_records_checked:
  assumes "static_validate queries = Inr ()"
  shows "\<exists>rs. static_records queries = Inr rs"
proof -
  from assms obtain us where "rmap query_ok queries = Inr us"
    by (auto simp: static_validate_def rbind_eq_Inr)
  then have "\<exists>rss. rmap query_records queries = Inr rss"
  proof (induction queries arbitrary: us)
    case (Cons q qs)
    then obtain u us' where "query_ok q = Inr u" "rmap query_ok qs = Inr us'" by (auto simp: rbind_eq_Inr)
    with Cons.IH query_ok_records show ?case by fastforce
  qed simp
  then show ?thesis by (auto simp: static_records_def)
qed

end
