(* ===== verification/Tags.thy ===== *)
theory Tags
  imports Lookups Utils_Data Offhours
begin

text \<open>
  Tags (\<open>c7n/tags.py\<close>): reading the tags of a resource, resolving the values to write and
  grouping resources by them, the calls to a tagging service and what they do about
  resources that are gone, marking a resource for a later action and finding it again,
  trimming, renaming and copying tags.
\<close>

definition DEFAULT_TAG :: string where
  "DEFAULT_TAG = ''maid_status''"

section \<open>The tags of a resource\<close>

definition tag_field :: "pyval \<Rightarrow> string \<Rightarrow> pyval res" where
  "tag_field t k = (case t of PDict d \<Rightarrow> dindex d k | _ \<Rightarrow> Inl TypeError)"

definition field_get :: "pyval \<Rightarrow> string \<Rightarrow> pyval \<Rightarrow> pyval res" where
  "field_get v k w = (case v of PDict d \<Rightarrow> Inr (dget_or d k w) | _ \<Rightarrow> Inl AttributeError)"

definition tag_key :: "pyval \<Rightarrow> string res" where
  "tag_key t = rbind (tag_field t ''Key'') (\<lambda>k. case k of PStr s \<Rightarrow> Inr s | _ \<Rightarrow> Inl AttributeError)"

definition tag_list :: "pydict \<Rightarrow> pyval list res" where
  "tag_list r = py_iter (dget_or r ''Tags'' (PList []))"

text \<open>\<open>{t['Key']: t['Value'] for t in tags}\<close>, leaving out those of AWS itself.\<close>

definition own_tags :: "pyval list \<Rightarrow> (string, pyval) odict res" where
  "own_tags ts = rfold (\<lambda>m t. rbind (tag_key t) (\<lambda>k.
      if starts_with k ''aws:'' then Inr m
      else rbind (tag_field t ''Value'') (\<lambda>v. Inr (dput k v m)))) [] ts"

definition resource_tag_keys :: "pydict \<Rightarrow> string list res" where
  "resource_tag_keys r = (case dget_or r ''Tags'' (PList []) of
      PDict d \<Rightarrow> Inr (dkeys d)
    | v \<Rightarrow> if \<not> py_truth v then Inr []
           else rbind (py_iter v) (\<lambda>ts.
             rbind (rmap (\<lambda>t. case t of
                 PDict d \<Rightarrow> (case dget d ''Key'' of
                     None \<Rightarrow> Inr []
                   | Some (PStr s) \<Rightarrow> Inr [s]
                   | Some k \<Rightarrow> if hashable k then Inr [] else Inl TypeError)
               | _ \<Rightarrow> Inr []) ts) (\<lambda>kss. Inr (concat kss))))"

section \<open>Templates\<close>

text \<open>
  \<open>str.format\<close> with named fields: \<open>{name}\<close> is replaced, doubled braces are single ones. Fields
  with a conversion, a format or a path are not modelled and raise.
\<close>

fun upto_brace :: "string \<Rightarrow> (string \<times> string) option" where
  "upto_brace [] = None"
| "upto_brace (c # cs) =
     (if c = CHR ''}'' then Some ([], cs)
      else map_option (\<lambda>(f, rest). (c # f, rest)) (upto_brace cs))"

lemma upto_brace_length: "upto_brace s = Some (f, rest) \<Longrightarrow> length rest < length s"
  by (induction s arbitrary: f) (auto split: if_splits)

function format_named :: "(string, string) odict \<Rightarrow> string \<Rightarrow> string res" where
  "format_named vs [] = Inr []"
| "format_named vs (c # cs) =
     (if c = CHR ''{'' then
        (if cs \<noteq> [] \<and> hd cs = CHR ''{'' then rbind (format_named vs (tl cs)) (\<lambda>s. Inr (CHR ''{'' # s))
         else case upto_brace cs of
             None \<Rightarrow> Inl ValueError
           | Some (f, rest) \<Rightarrow>
               if list_ex (\<lambda>x. x \<in> set f) ''{!:.['' then Inl NotImplementedError
               else rbind (dindex vs f) (\<lambda>v. rbind (format_named vs rest) (\<lambda>s. Inr (v @ s))))
      else if c = CHR ''}'' then
        (if cs \<noteq> [] \<and> hd cs = CHR ''}'' then rbind (format_named vs (tl cs)) (\<lambda>s. Inr (CHR ''}'' # s))
         else Inl ValueError)
      else rbind (format_named vs cs) (\<lambda>s. Inr (c # s)))"
  by pat_completeness auto

termination
  by (relation "measure (\<lambda>(vs, s). length s)") (auto dest: upto_brace_length)

section \<open>Resources that are gone\<close>

definition ends_with :: "string \<Rightarrow> string \<Rightarrow> bool" where
  "ends_with s suffix = starts_with (rev s) (rev suffix)"

definition is_resource_gone :: "string \<Rightarrow> bool" where
  "is_resource_gone code = list_ex (ends_with code) [''NotFound'', ''NotFoundFault'', ''NotFoundException'']"

definition bad_id_code :: "string \<Rightarrow> bool" where
  "bad_id_code code \<longleftrightarrow> starts_with code ''Invalid'' \<and>
     list_ex (\<lambda>suffix. ends_with code suffix \<and> 7 + length suffix < length code) [''.NotFound'', ''.Malformed'']"

definition is_quote :: "char \<Rightarrow> bool" where
  "is_quote c \<longleftrightarrow> c \<in> {CHR 0x27, CHR 0x22}"

text \<open>The non-empty texts between quotes, as \<open>findall\<close> gives them.\<close>

function quoted :: "string \<Rightarrow> string list" where
  "quoted [] = []"
| "quoted (c # cs) =
     (if is_quote c \<and> takeWhile (\<lambda>x. \<not> is_quote x) cs \<noteq> [] \<and> dropWhile (\<lambda>x. \<not> is_quote x) cs \<noteq> []
      then takeWhile (\<lambda>x. \<not> is_quote x) cs # quoted (tl (dropWhile (\<lambda>x. \<not> is_quote x) cs))
      else quoted cs)"
  by pat_completeness auto

termination
  by (relation "measure length") (auto simp: less_Suc_eq_le intro: le_trans[OF diff_le_self length_dropWhile_le])

definition extract_bad_resource_ids :: "string \<Rightarrow> string \<Rightarrow> string list" where
  "extract_bad_resource_ids code message =
     (if bad_id_code code then map (strip_chars '' []'') (concat (map (split_char CHR '','') (quoted message))) else [])"

text \<open>
  A batched call to the service, on some ids: it is done, fails with a code and a message, or
  raises something else. \<open>retry_skip_bad_ids\<close> gives the ids of the call that succeeded.
\<close>

datatype call_result = Done | Failed string string | Raises pyerr

function retry_skip_bad_ids ::
  "(string list \<Rightarrow> 'w \<Rightarrow> call_result \<times> 'w) \<Rightarrow> string list \<Rightarrow> 'w \<Rightarrow> string list res \<times> 'w" where
  "retry_skip_bad_ids call ids w =
     (if ids = [] then (Inr [], w)
      else case call ids w of
          (Done, w') \<Rightarrow> (Inr ids, w')
        | (Raises e, w') \<Rightarrow> (Inl e, w')
        | (Failed code message, w') \<Rightarrow>
            if filter (\<lambda>i. i \<in> set (extract_bad_resource_ids code message)) ids = [] then (Inl ClientError, w')
            else retry_skip_bad_ids call
                   (filter (\<lambda>i. i \<notin> set (extract_bad_resource_ids code message)) ids) w')"
  by pat_completeness auto

termination
proof (relation "measure (\<lambda>(call, ids, w). length ids)")
  fix call :: "string list \<Rightarrow> 'w \<Rightarrow> call_result \<times> 'w" and ids w x w' r code message
  assume "filter (\<lambda>i. i \<in> set (extract_bad_resource_ids code message)) ids \<noteq> []"
  then have "length (filter (\<lambda>i. i \<notin> set (extract_bad_resource_ids code message)) ids) < length ids"
    by (auto simp: filter_empty_conv intro: length_filter_less)
  then show "((call, filter (\<lambda>i. i \<notin> set (extract_bad_resource_ids code message)) ids, w'), call, ids, w)
      \<in> measure (\<lambda>(call, ids, w). length ids)" by simp
qed simp

declare retry_skip_bad_ids.simps [simp del]

text \<open>
  \<open>universal_retry\<close>: a call answers with the resources that failed and their codes. The
  delays of \<open>backoff_delays(1.5, 256)\<close> are eight, whatever their jitter, and the loop raises
  at the sixth call.
\<close>

fun universal_loop ::
  "(string list \<Rightarrow> 'w \<Rightarrow> (string \<times> string) list \<times> 'w) \<Rightarrow> nat \<Rightarrow> nat \<Rightarrow> string list \<Rightarrow> 'w \<Rightarrow>
   (string \<times> string) list option res \<times> 'w" where
  "universal_loop api 0 idx arns w = (Inr None, w)"
| "universal_loop api (Suc n) idx arns w =
     (case api arns w of (failures, w') \<Rightarrow>
        let throttles = map fst (filter (\<lambda>(a, c). c = ''ThrottlingException'') failures);
            errors = filter (\<lambda>(a, c). c \<noteq> ''ThrottlingException'' \<and> \<not> is_resource_gone c) failures
        in if failures = [] then (Inr (Some []), w')
           else if errors \<noteq> [] then (Inl PyException, w')
           else if throttles = [] then (Inr (Some failures), w')
           else if idx = 5 then (Inl PyException, w')
           else universal_loop api n (Suc idx) throttles w')"

definition universal_retry ::
  "(string list \<Rightarrow> 'w \<Rightarrow> (string \<times> string) list \<times> 'w) \<Rightarrow> string list \<Rightarrow> 'w \<Rightarrow> (string \<times> string) list option res \<times> 'w" where
  "universal_retry api arns w = universal_loop api 8 0 arns w"

section \<open>Values to write\<close>

text \<open>\<open>params\<close> are the placeholders of a run: the account, the region and the time.\<close>

definition interpolate :: "ext \<Rightarrow> (string, string) odict \<Rightarrow> pyval \<Rightarrow> string res" where
  "interpolate E params v = format_named params (py_str E v)"

definition resolve_resource_tags ::
  "ext \<Rightarrow> (string, string) odict \<Rightarrow> pydict \<Rightarrow> pydict \<Rightarrow> (string, string) odict res" where
  "resolve_resource_tags E params spec_map r =
     rbind (resource_tag_keys r) (\<lambda>current.
     rfold (\<lambda>resolved (name, spec). rbind (resolve_value E spec r name current) (\<lambda>v. case v of
         None \<Rightarrow> Inr resolved
       | Some v \<Rightarrow> rbind (interpolate E params v) (\<lambda>s. Inr (dput name s resolved)))) [] spec_map)"

definition add_group ::
  "pydict \<Rightarrow> (string, string) odict \<Rightarrow> ((string \<times> string) list, pydict list \<times> (string, string) odict) odict \<Rightarrow>
   ((string \<times> string) list, pydict list \<times> (string, string) odict) odict" where
  "add_group r resolved gs =
     (let sig = sort_key fst resolved
      in case dget gs sig of
          None \<Rightarrow> dput sig ([r], resolved) gs
        | Some (rs, t) \<Rightarrow> dput sig (rs @ [r], t) gs)"

definition resolve_and_group ::
  "ext \<Rightarrow> (string, string) odict \<Rightarrow> pydict \<Rightarrow> pydict list \<Rightarrow> (pydict list \<times> (string, string) odict) list res" where
  "resolve_and_group E params spec_map rs =
     rbind (rfold (\<lambda>gs r. rbind (resolve_resource_tags E params spec_map r) (\<lambda>resolved.
         Inr (if resolved = [] then gs else add_group r resolved gs))) [] rs) (\<lambda>gs. Inr (dvalues gs))"

text \<open>
  \<open>Tag.process\<close> and \<open>UniversalTag.process\<close>: the tags a policy asks for, and the batches
  of resources with the tags to write on them.
\<close>

definition spec_tag :: "pydict \<Rightarrow> pyval" where
  "spec_tag data = (let k = dget_or data ''key'' PNone in
     if py_truth k then k else dget_or data ''tag'' (PStr DEFAULT_TAG))"

definition spec_msg :: "pydict \<Rightarrow> pyval" where
  "spec_msg data = (let v = dget_or data ''value'' PNone in
     if py_truth v then v else dget_or data ''msg'' PNone)"

definition tag_spec :: "bool \<Rightarrow> pydict \<Rightarrow> pydict res" where
  "tag_spec universal data =
     rbind (case dget data ''tags'' of
         None \<Rightarrow> Inr []
       | Some (PDict d) \<Rightarrow> Inr d
       | Some v \<Rightarrow> if \<not> universal \<and> \<not> py_truth v then Inr [] else Inl TypeError) (\<lambda>spec.
     let msg = spec_msg data
     in if \<not> py_truth msg then Inr spec
        else case spec_tag data of PStr k \<Rightarrow> Inr (dput k msg spec) | _ \<Rightarrow> Inl TypeError)"

text \<open>The sets of resources to write tags on, with the tags.\<close>

definition tag_groups ::
  "ext \<Rightarrow> (string, string) odict \<Rightarrow> bool \<Rightarrow> pydict \<Rightarrow> pydict list \<Rightarrow>
   (pydict list \<times> (string, string) odict) list res" where
  "tag_groups E params universal data rs =
     rbind (tag_spec universal data) (\<lambda>spec.
     if \<not> has_lookups spec
     then rbind (rmap (\<lambda>(k, v). rbind (interpolate E params v) (\<lambda>s. Inr (k, s))) spec) (\<lambda>tags.
          Inr [(rs, tags)])
     else resolve_and_group E params spec rs)"

text \<open>
  \<open>_common_tag_processer\<close>: every batch is processed, and the last error raised. The batches
  run on a pool; the order in which they end is taken to be the one they were given in.
\<close>

fun run_batches :: "('b \<Rightarrow> 'w \<Rightarrow> unit res \<times> 'w) \<Rightarrow> 'b list \<Rightarrow> pyerr option \<Rightarrow> 'w \<Rightarrow> pyerr option \<times> 'w" where
  "run_batches f [] err w = (err, w)"
| "run_batches f (b # bs) err w = (case f b w of
      (Inl e, w') \<Rightarrow> run_batches f bs (Some e) w'
    | (Inr _, w') \<Rightarrow> run_batches f bs err w')"

definition common_tag_processer ::
  "('r list \<Rightarrow> 'w \<Rightarrow> unit res \<times> 'w) \<Rightarrow> nat \<Rightarrow> 'r list \<Rightarrow> 'w \<Rightarrow> unit res \<times> 'w" where
  "common_tag_processer f n rs w = (case chunks n rs of
      Inl e \<Rightarrow> (Inl e, w)
    | Inr cs \<Rightarrow> (case run_batches f cs None w of
          (None, w') \<Rightarrow> (Inr (), w')
        | (Some e, w') \<Rightarrow> (Inl e, w')))"

text \<open>The groups are processed one after the other, up to one that fails.\<close>

fun process_groups ::
  "('t \<Rightarrow> 'r list \<Rightarrow> 'w \<Rightarrow> unit res \<times> 'w) \<Rightarrow> nat \<Rightarrow> ('r list \<times> 't) list \<Rightarrow> 'w \<Rightarrow> unit res \<times> 'w" where
  "process_groups f n [] w = (Inr (), w)"
| "process_groups f n ((rs, tags) # gs) w = (case common_tag_processer (f tags) n rs w of
      (Inl e, w') \<Rightarrow> (Inl e, w')
    | (Inr _, w') \<Rightarrow> process_groups f n gs w')"

definition no_value :: "'a res \<Rightarrow> unit res" where
  "no_value r = rbind r (\<lambda>_. Inr ())"

text \<open>\<open>process_resource_set\<close> of \<open>Tag\<close> and \<open>UniversalTag\<close>.\<close>

definition tag_resource_set ::
  "(pydict \<Rightarrow> string res) \<Rightarrow>
   ((string, string) odict \<Rightarrow> string list \<Rightarrow> 'w \<Rightarrow> call_result \<times> 'w) \<Rightarrow>
   (string, string) odict \<Rightarrow> pydict list \<Rightarrow> 'w \<Rightarrow> unit res \<times> 'w" where
  "tag_resource_set id_of create tags rs w = (case rmap id_of rs of
      Inl e \<Rightarrow> (Inl e, w)
    | Inr ids \<Rightarrow> map_prod no_value id (retry_skip_bad_ids (create tags) ids w))"

text \<open>A resource whose ARNs are none is left alone by \<open>UniversalTag\<close> and \<open>UniversalUntag\<close>.\<close>

definition universal_resource_set ::
  "(pydict list \<Rightarrow> string list) \<Rightarrow> ('t \<Rightarrow> string list \<Rightarrow> 'w \<Rightarrow> (string \<times> string) list \<times> 'w) \<Rightarrow>
   't \<Rightarrow> pydict list \<Rightarrow> 'w \<Rightarrow> unit res \<times> 'w" where
  "universal_resource_set arns_of call tags rs w =
     (if arns_of rs = [] then (Inr (), w)
      else map_prod no_value id (universal_retry (call tags) (arns_of rs) w))"

text \<open>\<open>Tag.process\<close>, and \<open>RemoveTag.process\<close> with the keys to remove.\<close>

definition batch_size_of :: "pydict \<Rightarrow> nat \<Rightarrow> nat res" where
  "batch_size_of data n = (case dget data ''batch_size'' of
      None \<Rightarrow> Inr n | Some (PInt i) \<Rightarrow> Inr (nat i) | Some _ \<Rightarrow> Inl TypeError)"

definition tag_process ::
  "ext \<Rightarrow> (string, string) odict \<Rightarrow> bool \<Rightarrow> nat \<Rightarrow>
   ((string, string) odict \<Rightarrow> pydict list \<Rightarrow> 'w \<Rightarrow> unit res \<times> 'w) \<Rightarrow> pydict \<Rightarrow> pydict list \<Rightarrow> 'w \<Rightarrow> unit res \<times> 'w" where
  "tag_process E params universal n resource_set data rs w =
     (case rbind (batch_size_of data n) (\<lambda>k. rbind (tag_groups E params universal data rs) (\<lambda>gs. Inr (k, gs))) of
        Inl e \<Rightarrow> (Inl e, w)
      | Inr (k, gs) \<Rightarrow> process_groups resource_set k gs w)"

definition remove_tag_process ::
  "nat \<Rightarrow> (pyval \<Rightarrow> pydict list \<Rightarrow> 'w \<Rightarrow> unit res \<times> 'w) \<Rightarrow> pydict \<Rightarrow> pydict list \<Rightarrow> 'w \<Rightarrow> unit res \<times> 'w" where
  "remove_tag_process n resource_set data rs w = (case batch_size_of data n of
      Inl e \<Rightarrow> (Inl e, w)
    | Inr k \<Rightarrow> common_tag_processer (resource_set (dget_or data ''tags'' (PList [PStr DEFAULT_TAG]))) k rs w)"

section \<open>Facts\<close>

text \<open>Tagging a batch of which some resources are gone: when the service refuses a call with an
  unusable id by naming unusable ids that were asked for, and does any other, the resources left
  are tagged in one call and no others, and nothing is tagged when none is left.
\<close>

theorem bad_ids_skipped:
  assumes "\<And>ids w. list_ex unusable ids \<Longrightarrow> \<exists>code message. call ids w = (Failed code message, w) \<and>
      (let bad = filter (\<lambda>i. i \<in> set (extract_bad_resource_ids code message)) ids
       in bad \<noteq> [] \<and> list_all unusable bad)"
    and "\<And>ids w. \<not> list_ex unusable ids \<Longrightarrow> call ids w = (Done, w @ [ids])"
  shows "retry_skip_bad_ids call ids w =
    (let left = filter (\<lambda>i. \<not> unusable i) ids in (Inr left, if left = [] then w else w @ [left]))"
proof (induction ids arbitrary: w rule: measure_induct_rule[of length])
  case (less ids)
  show ?case
  proof (cases "list_ex unusable ids")
    case True
    then obtain code message where call: "call ids w = (Failed code message, w)"
      and bad: "filter (\<lambda>i. i \<in> set (extract_bad_resource_ids code message)) ids \<noteq> []"
        "list_all unusable (filter (\<lambda>i. i \<in> set (extract_bad_resource_ids code message)) ids)"
      using assms(1)[of ids w] by (auto simp: Let_def)
    let ?rest = "filter (\<lambda>i. i \<notin> set (extract_bad_resource_ids code message)) ids"
    have "ids \<noteq> []" using bad(1) by auto
    then have "retry_skip_bad_ids call ids w = retry_skip_bad_ids call ?rest w"
      by (subst retry_skip_bad_ids.simps) (simp only: call bad(1) prod.case call_result.case if_False)
    moreover have "length ?rest < length ids"
      using bad(1) by (auto simp: filter_empty_conv intro: length_filter_less)
    moreover have "filter (\<lambda>i. \<not> unusable i) ?rest = filter (\<lambda>i. \<not> unusable i) ids"
      using bad(2) by (auto simp: list_all_iff intro: filter_cong)
    ultimately show ?thesis using less.IH[of ?rest w] by simp
  next
    case False
    then have "filter (\<lambda>i. \<not> unusable i) ids = ids"
      by (simp add: list_ex_iff)
    with False show ?thesis
      by (cases "ids = []") (simp_all add: retry_skip_bad_ids.simps assms(2))
  qed
qed

definition ex_message :: string where
  "ex_message = ''The instance ID '' @ [CHR 0x27] @ ''i-2'' @ [CHR 0x27] @ '' does not exist''"

definition ex_service :: "string list \<Rightarrow> string list list \<Rightarrow> call_result \<times> string list list" where
  "ex_service ids w = (if list_ex (\<lambda>i. i = ''i-2'') ids
     then (Failed ''InvalidInstanceID.NotFound'' ex_message, w)
     else (Done, w @ [ids]))"

lemma ex_bad_ids:
  "extract_bad_resource_ids ''InvalidInstanceID.NotFound''
     ex_message = [''i-2'']"
  by code_simp

lemma bad_ids_skipped_witness:
  "retry_skip_bad_ids ex_service [''i-1'', ''i-2'', ''i-3''] [] = (Inr [''i-1'', ''i-3''], [[''i-1'', ''i-3'']])"
  by (subst bad_ids_skipped[where unusable = "\<lambda>i. i = ''i-2''"])
     (simp_all add: ex_service_def ex_bad_ids list_ex_iff filter_empty_conv list_all_iff Let_def)

text \<open>C39: Tagging through the resource groups api: the loop always ends with an answer or an error,
  never by running out of delays, after at most six calls.
\<close>

definition counted ::
  "(string list \<Rightarrow> 'w \<Rightarrow> (string \<times> string) list \<times> 'w) \<Rightarrow> string list \<Rightarrow> 'w \<times> nat \<Rightarrow>
   (string \<times> string) list \<times> ('w \<times> nat)" where
  "counted api arns w = (case api arns (fst w) of (fs, w') \<Rightarrow> (fs, (w', Suc (snd w))))"

lemma universal_loop_bounded:
  "idx \<le> 5 \<Longrightarrow> 5 - idx < n \<Longrightarrow> universal_loop (counted api) n idx arns w = (r, w') \<Longrightarrow>
     r \<noteq> Inr None \<and> snd w' \<le> snd w + (6 - idx)"
proof (induction n arbitrary: idx arns w)
  case (Suc n)
  obtain fs v where step: "counted api arns w = (fs, v)" by (cases "counted api arns w")
  then have v: "snd v = Suc (snd w)" by (auto simp: counted_def split: prod.splits)
  show ?case
  proof (cases "universal_loop (counted api) (Suc n) idx arns w =
      universal_loop (counted api) n (Suc idx) (map fst (filter (\<lambda>(a, c). c = ''ThrottlingException'') fs)) v \<and> idx \<noteq> 5")
    case True
    with Suc.IH[of "Suc idx" _ v] Suc.prems v show ?thesis by fastforce
  next
    case False
    with Suc.prems step v show ?thesis by (auto simp: Let_def split: if_splits)
  qed
qed simp

theorem universal_retry_ends:
  assumes "universal_retry (counted api) arns (w, 0) = (r, (w', calls))"
  shows "r \<noteq> Inr None \<and> calls \<le> 6"
  using universal_loop_bounded[of 0 8 api arns "(w, 0)"] assms by (simp add: universal_retry_def)

lemma universal_retry_ends_witness:
  "universal_retry (counted (\<lambda>arns w. (map (\<lambda>a. (a, ''ThrottlingException'')) arns, w))) [''a''] ((), 0)
     = (Inl PyException, ((), 6)) \<and> (6::nat) \<le> 6"
proof -
  have run: "universal_retry (counted (\<lambda>arns w. (map (\<lambda>a. (a, ''ThrottlingException'')) arns, w))) [''a''] ((), 0)
     = (Inl PyException, ((), 6))" by code_simp
  show ?thesis using run universal_retry_ends[OF run] by blast
qed

text \<open>What the groups hold: each resource with the sorted tags it is to get.\<close>

definition grouped :: "((string \<times> string) list, pydict list \<times> (string, string) odict) odict \<Rightarrow> (pydict \<times> (string \<times> string) list) list" where
  "grouped gs = concat (map (\<lambda>(sig, g, t). map (\<lambda>r. (r, sig)) g) gs)"

definition groups_ok :: "((string \<times> string) list, pydict list \<times> (string, string) odict) odict \<Rightarrow> bool" where
  "groups_ok gs \<longleftrightarrow> dwf gs \<and> list_all (\<lambda>(sig, g, t). sig = sort_key fst t) gs"

lemma grouped_dput:
  "dwf gs \<Longrightarrow> dget gs sig = Some (g, t) \<Longrightarrow> mset (grouped (dput sig (g @ [r], t) gs)) = add_mset (r, sig) (mset (grouped gs))"
  by (induction gs) (auto simp: grouped_def dwf_def split: if_splits)

lemma grouped_new: "dget gs sig = None \<Longrightarrow> mset (grouped (dput sig ([r], t) gs)) = add_mset (r, sig) (mset (grouped gs))"
  by (induction gs) (auto simp: grouped_def split: if_splits)

lemma list_all_dput: "list_all (\<lambda>(k, v). P k v) d \<Longrightarrow> P k v \<Longrightarrow> list_all (\<lambda>(k, v). P k v) (dput k v d)"
  by (induction d) auto

lemma add_group_ok:
  assumes "groups_ok gs"
  shows "groups_ok (add_group r t gs) \<and>
    mset (grouped (add_group r t gs)) = add_mset (r, sort_key fst t) (mset (grouped gs))"
proof (cases "dget gs (sort_key fst t)")
  case None
  then have new: "add_group r t gs = dput (sort_key fst t) ([r], t) gs" by (simp add: add_group_def Let_def)
  have "groups_ok (dput (sort_key fst t) ([r], t) gs)"
    using assms list_all_dput[of "\<lambda>sig (g, t). sig = sort_key fst t" gs "sort_key fst t" "([r], t)"]
    by (simp add: groups_ok_def dwf_dput)
  with grouped_new[OF None] new show ?thesis by simp
next
  case (Some p)
  obtain g t' where p: "p = (g, t')" by (cases p)
  with Some have old: "add_group r t gs = dput (sort_key fst t) (g @ [r], t') gs"
    by (simp add: add_group_def Let_def)
  have "sort_key fst t = sort_key fst t'"
    using assms Some p map_of_SomeD[of gs "sort_key fst t"] by (auto simp: groups_ok_def list_all_iff)
  then have "groups_ok (dput (sort_key fst t) (g @ [r], t') gs)"
    using assms list_all_dput[of "\<lambda>sig (g, t). sig = sort_key fst t" gs "sort_key fst t" "(g @ [r], t')"]
    by (simp add: groups_ok_def dwf_dput)
  with grouped_dput[of gs "sort_key fst t" g t' r] assms Some p old show ?thesis
    by (simp add: groups_ok_def)
qed

lemma group_fold:
  assumes "rfold (\<lambda>gs r. rbind (f r) (\<lambda>t. Inr (if t = [] then gs else add_group r t gs))) gs rs = Inr gs'" "groups_ok gs"
  shows "\<exists>ts. rmap f rs = Inr ts \<and> groups_ok gs' \<and>
    mset (grouped gs') = mset (grouped gs) + mset (map (\<lambda>(r, t). (r, sort_key fst t)) (filter (\<lambda>(r, t). t \<noteq> []) (zip rs ts)))"
  using assms
proof (induction rs arbitrary: gs)
  case (Cons r rs)
  then obtain t where t: "f r = Inr t"
    "rfold (\<lambda>gs r. rbind (f r) (\<lambda>t. Inr (if t = [] then gs else add_group r t gs)))
       (if t = [] then gs else add_group r t gs) rs = Inr gs'"
    by (auto simp: rbind_eq_Inr)
  have "groups_ok (if t = [] then gs else add_group r t gs)"
    using add_group_ok[OF Cons.prems(2)] Cons.prems(2) by simp
  from Cons.IH[OF t(2) this] add_group_ok[OF Cons.prems(2), of r t] t(1) show ?case
    by (auto split: if_splits)
qed simp

text \<open>C11: Grouping resources by the tags they are to get: when every value resolves, the groups hold
  each resource that gets some tag exactly once, in a group whose tags are its own, no resource
  that gets none, and no two groups have the same tags.
\<close>

theorem groups_partition:
  assumes "resolve_and_group E params spec rs = Inr gs"
  shows "\<exists>ts. rmap (resolve_resource_tags E params spec) rs = Inr ts \<and>
    mset (concat (map (\<lambda>(g, tags). map (\<lambda>r. (r, sort_key fst tags)) g) gs)) =
      mset (map (\<lambda>(r, t). (r, sort_key fst t)) (filter (\<lambda>(r, t). t \<noteq> []) (zip rs ts))) \<and>
    distinct (map (\<lambda>(g, tags). sort_key fst tags) gs)"
proof -
  from assms obtain d where d: "gs = dvalues d"
    "rfold (\<lambda>gs r. rbind (resolve_resource_tags E params spec r) (\<lambda>t. Inr (if t = [] then gs else add_group r t gs))) [] rs = Inr d"
    by (auto simp: resolve_and_group_def rbind_eq_Inr)
  from group_fold[OF d(2)] obtain ts where ts: "rmap (resolve_resource_tags E params spec) rs = Inr ts" "groups_ok d"
    "mset (grouped d) = mset (map (\<lambda>(r, t). (r, sort_key fst t)) (filter (\<lambda>(r, t). t \<noteq> []) (zip rs ts)))"
    by (auto simp: groups_ok_def grouped_def)
  have "concat (map (\<lambda>(g, tags). map (\<lambda>r. (r, sort_key fst tags)) g) (dvalues d)) = grouped d
      \<and> map (\<lambda>(g, tags). sort_key fst tags) (dvalues d) = dkeys d" if "groups_ok d" for d
    using that by (induction d) (auto simp: groups_ok_def grouped_def dvalues_def dwf_def)
  from this[OF ts(2)] d(1) ts show ?thesis by (simp add: groups_ok_def dwf_def)
qed

definition ex_team :: "string \<Rightarrow> string \<Rightarrow> pydict" where
  "ex_team rid team = [(''InstanceId'', PStr rid), (''Team'', PStr team)]"

definition ex_lookup :: ext where
  "ex_lookup = (ext0 0)\<lparr>ext_jmes := (\<lambda>e v. case v of PDict d \<Rightarrow> Inr (dget_or d e PNone) | _ \<Rightarrow> Inr PNone)\<rparr>"

definition ex_spec :: pydict where
  "ex_spec = [(''Owner'', PDict [(''type'', PStr ''resource''), (''key'', PStr ''Team'')])]"

definition ex_groups :: "(pydict list \<times> (string, string) odict) list" where
  "ex_groups = [([ex_team ''a'' ''x'', ex_team ''c'' ''x''], [(''Owner'', ''x'')]), ([ex_team ''b'' ''y''], [(''Owner'', ''y'')])]"

lemma groups_partition_witness:
  "distinct (map (\<lambda>(g, tags). sort_key fst tags) ex_groups)"
proof -
  have "resolve_and_group ex_lookup [] ex_spec [ex_team ''a'' ''x'', ex_team ''b'' ''y'', ex_team ''c'' ''x''] = Inr ex_groups"
    by code_simp
  from groups_partition[OF this] show ?thesis by blast
qed

end
