(* ===== verification/Tag_Marks.thy ===== *)
theory Tag_Marks
  imports Tags Digits Operators Utils_Aws
begin

text \<open>
  Marking a resource for a later action and finding it again (\<open>TagDelayedAction\<close>,
  \<open>UniversalTagDelayedAction\<close> and \<open>TagActionFilter\<close> of \<open>c7n/tags.py\<close>), with the counting of
  tags (\<open>TagCountFilter\<close>).
\<close>

section \<open>Dates\<close>

text \<open>
  The year, month and day of an ordinal, as \<open>datetime\<close> computes them; wall clock times are
  microseconds since the first of January 1970, whose ordinal is 719163.
\<close>

definition month_days :: "bool \<Rightarrow> nat \<Rightarrow> int" where
  "month_days leap m = [0, 31, if leap then 29 else 28, 31, 30, 31, 30, 31, 31, 30, 31, 30, 31] ! m"

definition days_before :: "bool \<Rightarrow> nat \<Rightarrow> int" where
  "days_before leap m = sum_list (map (month_days leap) [0 ..< m])"

definition ord_ymd :: "int \<Rightarrow> int \<times> nat \<times> int" where
  "ord_ymd ordinal =
     (let n = ordinal - 1; n400 = n div 146097; n = n mod 146097;
          n100 = n div 36524; n = n mod 36524;
          n4 = n div 1461; n = n mod 1461;
          n1 = n div 365; n = n mod 365;
          year = n400 * 400 + 1 + n100 * 100 + n4 * 4 + n1
      in if n1 = 4 \<or> n100 = 4 then (year - 1, 12, 31)
         else
           let leap = (n1 = 3 \<and> (n4 \<noteq> 24 \<or> n100 = 3));
               month = nat ((n + 50) div 32);
               m = (if days_before leap month > n then month - 1 else month)
           in (year, m, n - days_before leap m + 1))"

definition pad2 :: "nat \<Rightarrow> string" where
  "pad2 n = (if n < 10 then CHR ''0'' # str_of_nat n else str_of_nat n)"

text \<open>\<open>%Y/%m/%d\<close> and \<open>%H%M\<close>.\<close>

definition wall_day :: "int \<Rightarrow> int" where
  "wall_day w = w div unit_us Days"

definition ymd :: "int \<Rightarrow> string" where
  "ymd w = (case ord_ymd (wall_day w + 719163) of
      (y, m, d) \<Rightarrow> str_of_nat (nat y) @ ''/'' @ pad2 m @ ''/'' @ pad2 (nat d))"

definition hhmm :: "int \<Rightarrow> string" where
  "hhmm w = (let t = w mod unit_us Days
     in pad2 (nat (t div unit_us Hours)) @ pad2 (nat (t mod unit_us Hours div unit_us Minutes)))"

lemma ymd_examples:
  "ymd 0 = ''1970/01/01''" "ymd (20454 * unit_us Days) = ''2026/01/01''"
  "ymd (19782 * unit_us Days) = ''2024/02/29''" "ymd (20088 * unit_us Days) = ''2024/12/31''"
  by code_simp+

text \<open>\<open>timedelta(days=d, hours=h)\<close>.\<close>

definition number_amount :: "dunit \<Rightarrow> pyval \<Rightarrow> (int \<times> rat) res" where
  "number_amount u v = (case v of
      PInt i \<Rightarrow> Inr (i * unit_us u, 0)
    | PBool b \<Rightarrow> Inr (if b then unit_us u else 0, 0)
    | PFloat (Fin x) \<Rightarrow>
        (case round_double (of_int (unit_us u) * (x - of_int (rat_trunc x))) of
           Fin y \<Rightarrow> Inr (rat_trunc x * unit_us u + rat_trunc y, y - of_int (rat_trunc y))
         | _ \<Rightarrow> Inl OverflowError)
    | PFloat NaN \<Rightarrow> Inl ValueError
    | PFloat f \<Rightarrow> Inl OverflowError
    | _ \<Rightarrow> Inl TypeError)"

definition days_hours :: "pyval \<Rightarrow> pyval \<Rightarrow> int res" where
  "days_hours d h =
     rbind (number_amount Hours h) (\<lambda>(b, m). rbind (number_amount Days d) (\<lambda>(a, l).
     let t = round_even (of_int (a + b) + l + m)
     in if MAX_DELTA_DAYS < t div unit_us Days \<or> t div unit_us Days < - MAX_DELTA_DAYS
        then Inl OverflowError else Inr t))"

section \<open>Marking\<close>

text \<open>
  What is outside: the zones and their aliases (\<open>me_zones\<close>), the local zone (what \<open>gettz\<close>
  makes of \<open>None\<close>), the wall clock of a zone at an instant and the zone's abbreviation then,
  the present instant, the naive local time, and \<open>dateutil.parser.parse\<close>: whether the date it
  reads is aware, and its instant or its wall clock time.
\<close>

record 'tz menv =
  me_zones :: "'tz tenv"
  me_local_tz :: "'tz option"
  me_wall :: "'tz \<Rightarrow> int \<Rightarrow> int"
  me_abbr :: "'tz \<Rightarrow> int \<Rightarrow> string"
  me_now :: int
  me_local :: int
  me_parse :: "string \<Rightarrow> (bool \<times> int) option"

text \<open>\<open>tzutil.gettz(Time.TZ_ALIASES.get(self.data.get('tz', 'utc')))\<close>.\<close>

definition mark_tz :: "'tz menv \<Rightarrow> pydict \<Rightarrow> 'tz option res" where
  "mark_tz M data = (case dget_or data ''tz'' (PStr ''utc'') of
      PStr s \<Rightarrow> Inr (case dget (tz_aliases (me_zones M)) s of
          Some z \<Rightarrow> te_gettz (me_zones M) z
        | None \<Rightarrow> me_local_tz M)
    | v \<Rightarrow> if hashable v then Inr (me_local_tz M) else Inl TypeError)"

text \<open>\<open>validate\<close> of the action and of the filter: a known operation and a time zone.\<close>

definition mark_validate :: "'tz menv \<Rightarrow> string list option \<Rightarrow> pydict \<Rightarrow> unit res" where
  "mark_validate M actions data =
     (let op = dget_or data ''op'' PNone
      in rbind (case actions of
           None \<Rightarrow> Inr ()
         | Some names \<Rightarrow> if \<not> hashable op then Inl TypeError
             else if mem_eq op (map PStr names) then Inr () else Inl PolicyValidationError) (\<lambda>_.
         rbind (mark_tz M data) (\<lambda>tz. if tz = None then Inl PolicyValidationError else Inr ())))"

definition wall_now :: "'tz menv \<Rightarrow> 'tz option \<Rightarrow> int" where
  "wall_now M tz = (case tz of None \<Rightarrow> me_local M | Some z \<Rightarrow> me_wall M z (me_now M))"

definition generate_timestamp :: "'tz menv \<Rightarrow> 'tz option \<Rightarrow> pyval \<Rightarrow> pyval \<Rightarrow> string res" where
  "generate_timestamp M tz days hours =
     (let d = (if days = PNone \<or> hours = PNone then PInt 4 else days)
      in rbind (days_hours d hours) (\<lambda>t.
         rbind (date_in_range (wall_now M tz + t)) (\<lambda>w.
         rbind (cmp_with (\<lambda>r. r = OGt) hours (PInt 0)) (\<lambda>later.
           Inr (if later
                then ymd w @ '' '' @ hhmm w @ '' '' @ (case tz of None \<Rightarrow> [] | Some z \<Rightarrow> me_abbr M z w)
                else ymd w)))))"

definition mark_suffix :: string where
  "mark_suffix = ''{op}@'' @ ''{action_date}''"

definition default_template :: string where
  "default_template = ''Resource does not meet policy: '' @ mark_suffix"

text \<open>The tag and the value \<open>mark-for-op\<close> writes.\<close>

definition mark_tag :: "'tz menv \<Rightarrow> ext \<Rightarrow> pydict \<Rightarrow> (pyval \<times> string) res" where
  "mark_tag M E data =
     rbind (mark_tz M data) (\<lambda>tz.
     rbind (generate_timestamp M tz (dget_or data ''days'' (PInt 0)) (dget_or data ''hours'' (PInt 0))) (\<lambda>date.
     case dget_or data ''msg'' (PStr default_template) of
       PStr msg \<Rightarrow>
         rbind (format_named [(''op'', py_str E (dget_or data ''op'' (PStr ''stop''))), (''action_date'', date)] msg)
           (\<lambda>v. Inr (dget_or data ''tag'' (PStr DEFAULT_TAG), v))
     | _ \<Rightarrow> Inl AttributeError))"

text \<open>
  \<open>process\<close>: one value for all resources, written in batches of the size of the resource's
  tag action; with the resource groups api nothing is asked when there is no resource.
\<close>

definition delayed_process ::
  "'tz menv \<Rightarrow> ext \<Rightarrow> nat \<Rightarrow> (pyval \<times> string \<Rightarrow> pydict list \<Rightarrow> 'w \<Rightarrow> unit res \<times> 'w) \<Rightarrow>
   pydict \<Rightarrow> pydict list \<Rightarrow> 'w \<Rightarrow> unit res \<times> 'w" where
  "delayed_process M E n resource_set data rs w = (case mark_tag M E data of
      Inl e \<Rightarrow> (Inl e, w)
    | Inr kv \<Rightarrow> common_tag_processer (resource_set kv) n rs w)"

definition universal_delayed_process ::
  "'tz menv \<Rightarrow> ext \<Rightarrow> (pyval \<times> string \<Rightarrow> pydict list \<Rightarrow> 'w \<Rightarrow> unit res \<times> 'w) \<Rightarrow>
   pydict \<Rightarrow> pydict list \<Rightarrow> 'w \<Rightarrow> unit res \<times> 'w" where
  "universal_delayed_process M E resource_set data rs w =
     (if rs = [] then (case mark_tz M data of Inl e \<Rightarrow> (Inl e, w) | Inr tz \<Rightarrow> (Inr (), w))
      else case rbind (mark_tag M E data) (\<lambda>kv. if hashable (fst kv) then rbind (batch_size_of data 20) (\<lambda>n. Inr (kv, n))
                                               else Inl TypeError) of
          Inl e \<Rightarrow> (Inl e, w)
        | Inr (kv, n) \<Rightarrow> common_tag_processer (resource_set kv) n rs w)"

section \<open>Marked for an operation\<close>

fun tag_value :: "pyval \<Rightarrow> pyval list \<Rightarrow> pyval res" where
  "tag_value tag [] = Inr PNone"
| "tag_value tag (t # ts) = rbind (tag_field t ''Key'') (\<lambda>k.
     if py_eq k tag then tag_field t ''Value'' else tag_value tag ts)"

text \<open>The operation and the date of a tag's value; None when it has none.\<close>

definition marked_op :: "pyval \<Rightarrow> (string \<times> string) option res" where
  "marked_op v =
     (if v = PNone then Inr None
      else rbind (py_in (PStr '':'') v) (\<lambda>a. if \<not> a then Inr None
      else rbind (py_in (PStr ''@'') v) (\<lambda>b. if \<not> b then Inr None
      else case v of
          PStr s \<Rightarrow> (case split_max CHR ''@'' 1 (strip (last (rsplit1 CHR '':'' s))) of
              [action, date] \<Rightarrow> Inr (Some (action, date))
            | _ \<Rightarrow> Inl ValueError)
        | _ \<Rightarrow> Inl AttributeError)))"

definition mark_due :: "'tz menv \<Rightarrow> 'tz option \<Rightarrow> pydict \<Rightarrow> bool \<times> int \<Rightarrow> bool res" where
  "mark_due M tz data date =
     rbind (case (fst date, tz) of
         (False, _) \<Rightarrow> Inr (snd date, me_local M)
       | (True, Some z) \<Rightarrow> Inr (me_wall M z (snd date), me_wall M z (me_now M))
       | (True, None) \<Rightarrow> Inl TypeError) (\<lambda>(due, current).
     rbind (days_hours (dget_or data ''skew'' (PInt 0)) (dget_or data ''skew_hours'' (PInt 0))) (\<lambda>t.
     rbind (date_in_range (due - t)) (\<lambda>d. Inr (d \<le> current))))"

definition marked_for_op :: "'tz menv \<Rightarrow> pydict \<Rightarrow> pydict \<Rightarrow> bool res" where
  "marked_for_op M data i =
     rbind (mark_tz M data) (\<lambda>tz.
     rbind (py_iter (dget_or i ''Tags'' (PTuple []))) (\<lambda>ts.
     rbind (tag_value (dget_or data ''tag'' (PStr DEFAULT_TAG)) ts) (\<lambda>v.
     rbind (marked_op v) (\<lambda>m. case m of
         None \<Rightarrow> Inr False
       | Some (action, date) \<Rightarrow>
           if \<not> py_eq (PStr action) (dget_or data ''op'' (PStr ''stop'')) then Inr False
           else case me_parse M date of
               None \<Rightarrow> Inr False
             | Some d \<Rightarrow> mark_due M tz data d))))"

section \<open>Counting tags\<close>

definition tag_count :: "ext \<Rightarrow> pydict \<Rightarrow> pydict \<Rightarrow> bool res" where
  "tag_count E data i =
     rbind (tag_list i) (\<lambda>ts.
     rbind (rmap tag_key ts) (\<lambda>ks.
     case dget_or data ''op'' (PStr ''gte'') of
       PStr op \<Rightarrow> (case dget (OPERATORS E) op of
           Some f \<Rightarrow> f (PInt (int (length (filter (\<lambda>k. \<not> starts_with k ''aws:'') ks)))) (dget_or data ''count'' (PInt 10))
         | None \<Rightarrow> Inl TypeError)
     | _ \<Rightarrow> Inl TypeError))"

section \<open>Facts\<close>

lemma days_hours_int:
  "days_hours (PInt d) (PInt 0) = (if \<bar>d\<bar> \<le> MAX_DELTA_DAYS then Inr (d * unit_us Days) else Inl OverflowError)"
proof -
  have "round_even (of_int (d * unit_us Days)) = d * unit_us Days" "d * unit_us Days div unit_us Days = d"
    by (rule round_even_int) simp
  then show ?thesis
    by (auto simp: days_hours_def number_amount_def Let_def simp del: of_int_mult unit_us.simps)
qed

lemma format_plain:
  "list_all (\<lambda>c. c \<noteq> CHR ''{'' \<and> c \<noteq> CHR ''}'') pre \<Longrightarrow>
     format_named vs (pre @ rest) = rbind (format_named vs rest) (\<lambda>s. Inr (pre @ s))"
  by (induction pre) (simp_all add: rbind_return rbind_assoc)

lemma format_op_date:
  "format_named [(''op'', op), (''action_date'', date)] mark_suffix = Inr (op @ ''@'' @ date)"
  by (simp add: dindex_def mark_suffix_def)

lemma last_rsplit1: "c \<notin> set b \<Longrightarrow> last (rsplit1 c (a @ c # b)) = b"
  using split_max_cut[of c "rev b" 1 "rev a"] by (simp add: rsplit1_def last_rev split_max_0)

lemma str_of_nat_chars: "c \<in> set (str_of_nat n) \<Longrightarrow> is_digit c"
  using str_of_nat_digits[of n] by (simp add: list_all_iff)

lemma pad2_chars: "c \<in> set (pad2 n) \<Longrightarrow> is_digit c"
  by (auto simp: pad2_def is_digit_def dest: str_of_nat_chars split: if_splits)

lemma ymd_chars: "c \<in> set (ymd w) \<Longrightarrow> is_digit c \<or> c = CHR ''/''"
  by (auto simp: ymd_def dest: str_of_nat_chars pad2_chars split: prod.splits)

lemma ymd_last: "ymd w \<noteq> [] \<and> \<not> is_space (last (ymd w))"
proof -
  obtain y m d where o: "ord_ymd (wall_day w + 719163) = (y, m, d)" by (cases "ord_ymd (wall_day w + 719163)")
  have p: "pad2 (nat d) \<noteq> []" by (simp add: pad2_def)
  then have "is_digit (last (pad2 (nat d)))" by (intro pad2_chars[of _ "nat d"]) simp
  then show ?thesis using digit_not_special p o by (simp add: ymd_def)
qed

lemma strip_edges:
  assumes "list_all is_space sp" "s \<noteq> []" "\<not> is_space (hd s)" "\<not> is_space (last s)"
  shows "strip (sp @ s) = s"
proof -
  have "dropWhile is_space (sp @ s) = s"
    using assms by (cases s) (simp_all add: dropWhile_append list_all_iff)
  moreover have "dropWhile is_space (rev s) = rev s"
    using assms by (cases s rule: rev_cases) simp_all
  ultimately show ?thesis by (simp add: strip_def strip_by_def lstrip_by_def rstrip_by_def)
qed

lemma marked_value:
  assumes "list_all is_space sp" "list_all (\<lambda>c. \<not> is_space c \<and> c \<noteq> CHR '':'' \<and> c \<noteq> CHR ''@'') op"
  shows "marked_op (PStr (p @ '':'' @ sp @ op @ ''@'' @ ymd w)) = Inr (Some (op, ymd w))"
proof -
  let ?s = "op @ ''@'' @ ymd w"
  have sp: "CHR '':'' \<notin> set sp" using assms(1) by (auto simp: list_all_iff is_space_def Let_def)
  have date: "CHR '':'' \<notin> set (ymd w)" "CHR ''@'' \<notin> set (ymd w)"
    using ymd_chars[of "CHR '':''" w] ymd_chars[of "CHR ''@''" w] by (auto simp: is_digit_def)
  have "CHR '':'' \<notin> set (sp @ ?s)" using sp date assms(2) by (auto simp: list_all_iff)
  then have last: "last (rsplit1 CHR '':'' (p @ '':'' @ sp @ ?s)) = sp @ ?s"
    using last_rsplit1[of "CHR '':''" "sp @ ?s" p] by simp
  have "\<not> is_space (hd ?s)" using assms(2) by (cases op) (simp_all add: is_space_def Let_def)
  then have strip: "strip (sp @ ?s) = ?s"
    using strip_edges[of sp ?s] assms(1) ymd_last[of w] by simp
  have "split_max CHR ''@'' 1 ?s = [op, ymd w]"
    using split_max_cut[of "CHR ''@''" op 1 "ymd w"] assms(2) by (auto simp: list_all_iff split_max_0)
  with last strip have "(case split_max CHR ''@'' 1 (strip (last (rsplit1 CHR '':'' (p @ '':'' @ sp @ ?s)))) of
      [action, date] \<Rightarrow> Inr (Some (action, date)) | _ \<Rightarrow> Inl ValueError) = (Inr (Some (op, ymd w)) :: (string \<times> string) option res)"
    by simp
  moreover have "has_substr (p @ '':'' @ sp @ ?s) '':''" "has_substr (p @ '':'' @ sp @ ?s) ''@''"
    by (simp_all add: has_substr_char)
  ultimately show ?thesis by (simp add: marked_op_def py_in_def)
qed

lemma mark_tag_value:
  assumes "mark_tag M E md = Inr (tag, v)"
    and "dget_or md ''msg'' (PStr default_template) = PStr (p @ '':'' @ sp @ mark_suffix)"
    and "list_all (\<lambda>c. c \<noteq> CHR ''{'' \<and> c \<noteq> CHR ''}'') (p @ '':'' @ sp)"
    and "dget_or md ''op'' (PStr ''stop'') = PStr op"
    and "dget_or md ''days'' (PInt 0) = PInt d" "dget_or md ''hours'' (PInt 0) = PInt 0"
    and "mark_tz M md = Inr tz"
  shows "v = p @ '':'' @ sp @ op @ ''@'' @ ymd (wall_now M tz + d * unit_us Days)
    \<and> date_in_range (wall_now M tz + d * unit_us Days) = Inr (wall_now M tz + d * unit_us Days)"
proof -
  let ?w = "wall_now M tz + d * unit_us Days"
  have msg: "format_named vs (p @ '':'' @ sp @ mark_suffix) =
      rbind (format_named vs mark_suffix) (\<lambda>s. Inr (p @ '':'' @ sp @ s))" for vs
    using format_plain[OF assms(3), of vs "mark_suffix"] by simp
  from assms obtain date where date: "generate_timestamp M tz (PInt d) (PInt 0) = Inr date"
    and v: "v = p @ '':'' @ sp @ op @ ''@'' @ date"
    by (auto simp: mark_tag_def msg format_op_date py_str_def rbind_eq_Inr simp del: append_Cons format_named.simps)
  from date have "date = ymd ?w \<and> date_in_range ?w = Inr ?w"
    by (auto simp: generate_timestamp_def days_hours_int cmp_with_def unparsed_def num_ord_def num_of_def
        date_in_range_def rbind_eq_Inr simp del: unit_us.simps split: if_splits)
  with v show ?thesis by simp
qed

text \<open>
  A value whose last colon comes after its at sign stops the filter with an error; without days
  and hours the mark is for the day itself.
\<close>

lemma at_before_colon: "marked_op (PStr ''owner@example.org:8080'') = Inl ValueError"
  by code_simp

lemma no_delay_is_today:
  assumes "generate_timestamp M tz (dget_or [] ''days'' (PInt 0)) (dget_or [] ''hours'' (PInt 0)) = Inr date"
  shows "date = ymd (wall_now M tz)"
  using assms
  by (auto simp: generate_timestamp_def dget_or_def days_hours_int cmp_with_def unparsed_def num_ord_def num_of_def
      ord_of_def date_in_range_def rbind_eq_Inr split: if_splits)


definition ex_zones :: "unit tenv" where
  "ex_zones = \<lparr>te_gettz = (\<lambda>s. Some ()), te_zones = [], te_now = (\<lambda>t. (0, 0, [])), te_values = (\<lambda>v. Inr (PList []))\<rparr>"

text \<open>The first of January 2026 at noon; and the fifth, at six.\<close>

definition ex_marks :: "unit menv" where
  "ex_marks = \<lparr>me_zones = ex_zones, me_local_tz = Some (), me_wall = (\<lambda>z t. t), me_abbr = (\<lambda>z t. ''UTC''),
     me_now = 20454 * 86400000000 + 43200000000, me_local = 20454 * 86400000000 + 43200000000,
     me_parse = (\<lambda>s. if s = ''2026/01/05'' then Some (False, 20458 * 86400000000) else None)\<rparr>"

definition ex_marks_later :: "unit menv" where
  "ex_marks_later = ex_marks\<lparr>me_local := 20458 * 86400000000 + 21600000000\<rparr>"

definition ex_mark_data :: pydict where
  "ex_mark_data = [(''op'', PStr ''terminate''), (''days'', PInt 4)]"

definition ex_found_data :: pydict where
  "ex_found_data = [(''op'', PStr ''terminate'')]"

definition ex_marked :: pydict where
  "ex_marked = [(''Tags'', PList [PDict [(''Key'', PStr ''maid_status''),
     (''Value'', PStr ''Resource does not meet policy: terminate@2026/01/05'')]])]"


end
