(* ===== verification/Tag_Moves.thy ===== *)
theory Tag_Moves
  imports Tags
begin

text \<open>
  Actions of \<open>c7n/tags.py\<close> that take tags from one place to another: trimming, renaming
  (through a service of its own and through the resource groups api), normalizing values,
  copying from related resources, and merging copied with given tags.
\<close>

definition wbind :: "'a res \<times> 'w \<Rightarrow> ('a \<Rightarrow> 'w \<Rightarrow> 'b res \<times> 'w) \<Rightarrow> 'b res \<times> 'w" where
  "wbind p f = (case p of (Inl e, w) \<Rightarrow> (Inl e, w) | (Inr a, w) \<Rightarrow> f a w)"

text \<open>\<open>{t['Key']: t['Value'] for t in tags}\<close>, as pairs: a later one wins.\<close>

definition tag_pairs :: "pyval list \<Rightarrow> (pyval \<times> pyval) list res" where
  "tag_pairs ts = rmap (\<lambda>t. rbind (tag_field t ''Key'') (\<lambda>k. rbind (tag_field t ''Value'') (\<lambda>v.
     if hashable k then Inr (k, v) else Inl TypeError))) ts"

definition last_value :: "pyval \<Rightarrow> (pyval \<times> pyval) list \<Rightarrow> pyval option" where
  "last_value key ps = map_option snd (find (\<lambda>(k, v). py_eq k key) (rev ps))"

definition has_key :: "pyval \<Rightarrow> pydict \<Rightarrow> bool res" where
  "has_key key r = rbind (tag_list r) (rany (\<lambda>t. rbind (tag_field t ''Key'') (\<lambda>k. Inr (py_eq k key))))"

definition tag_total :: "pydict \<Rightarrow> nat res" where
  "tag_total r = py_len (dget_or r ''Tags'' (PList []))"

section \<open>Trimming\<close>

definition max_tag_count :: int where
  "max_tag_count = 50"

text \<open>The keys to remove from those a resource has; None when there is room already.\<close>

definition trim_candidates :: "string list \<Rightarrow> int \<Rightarrow> string list \<Rightarrow> string list option" where
  "trim_candidates preserve space ks =
     (if space \<noteq> 0 \<and> int (length ks) + space \<le> max_tag_count then None
      else
        let kept = filter (\<lambda>k. k \<in> set preserve) ks;
            candidates = filter (\<lambda>k. k \<notin> set preserve) ks;
            remove = int (length candidates) - (max_tag_count - (space + int (length kept)))
        in if space = 0 then Some candidates
           else Some (if 0 \<le> remove then take (nat remove) (sort candidates)
                      else take (nat (int (length candidates) + remove)) (sort candidates)))"

text \<open>
  \<open>process_resource\<close> calls \<open>process_tag_removal\<close> without the client, which is a TypeError; the
  logging of a resource without candidates may fail on its id.
\<close>

definition trim_resource :: "string \<Rightarrow> string list \<Rightarrow> int \<Rightarrow> pydict \<Rightarrow> unit res" where
  "trim_resource id_key preserve space r =
     rbind (tag_list r) (\<lambda>ts. rbind (own_tags ts) (\<lambda>own. case trim_candidates preserve space (dkeys own) of
         None \<Rightarrow> Inr ()
       | Some [] \<Rightarrow> rbind (dindex r id_key) (\<lambda>_. Inr ())
       | Some (c # cs) \<Rightarrow> Inl TypeError))"

definition trim_process :: "string \<Rightarrow> pydict \<Rightarrow> pydict list \<Rightarrow> unit res" where
  "trim_process id_key data rs =
     rbind (py_set (dget_or data ''preserve'' PNone)) (\<lambda>preserve.
     rbind (case dget_or data ''space'' (PInt 3) of PInt i \<Rightarrow> Inr i | _ \<Rightarrow> Inl TypeError) (\<lambda>space.
     rbind (rmap (\<lambda>r. case trim_resource id_key (concat (map (\<lambda>p. case p of PStr s \<Rightarrow> [s] | _ \<Rightarrow> []) preserve)) space r of
         Inl e \<Rightarrow> rbind (dindex r id_key) (\<lambda>_. Inr ())
       | Inr _ \<Rightarrow> Inr ()) rs) (\<lambda>_. Inr ())))"

section \<open>Renaming\<close>

datatype tag_call = CreateTag "pyval list" pyval pyval | DeleteTag "pyval list" pyval pyval

definition tag_count_max :: nat where
  "tag_count_max = 50"

definition ids_where :: "string \<Rightarrow> (nat \<Rightarrow> bool) \<Rightarrow> pydict list \<Rightarrow> pyval list res" where
  "ids_where id_key p rs =
     rbind (rmap (\<lambda>r. rbind (tag_total r) (\<lambda>n. if p n then rbind (dindex r id_key) (\<lambda>i. Inr [i]) else Inr [])) rs)
       (\<lambda>iss. Inr (concat iss))"

definition create_some :: "(tag_call \<Rightarrow> 'w \<Rightarrow> unit res \<times> 'w) \<Rightarrow> pyval \<Rightarrow> pyval \<Rightarrow> pyval list res \<Rightarrow> 'w \<Rightarrow> unit res \<times> 'w" where
  "create_some call key v ids w = (case ids of
      Inl e \<Rightarrow> (Inl e, w)
    | Inr is \<Rightarrow> if is = [] then (Inr (), w) else call (CreateTag is key v) w)"

definition process_rename ::
  "(tag_call \<Rightarrow> 'w \<Rightarrow> unit res \<times> 'w) \<Rightarrow> string \<Rightarrow> pydict \<Rightarrow> pyval \<Rightarrow> pydict list \<Rightarrow> 'w \<Rightarrow> unit res \<times> 'w" where
  "process_rename call id_key data v rs w =
     (let old_key = dget_or data ''old_key'' PNone;
          new_key = dget_or data ''new_key'' PNone
      in wbind (create_some call new_key v (ids_where id_key (\<lambda>n. n < tag_count_max) rs) w) (\<lambda>_ w.
         wbind (case rmap (\<lambda>r. dindex r id_key) rs of
             Inl e \<Rightarrow> (Inl e, w)
           | Inr ids \<Rightarrow> call (DeleteTag ids old_key v) w) (\<lambda>_ w.
         create_some call new_key v (ids_where id_key (\<lambda>n. tag_count_max - 1 < n) rs) w)))"

definition rename_set :: "pyval \<Rightarrow> pydict list \<Rightarrow> (pyval \<times> pydict list) list res" where
  "rename_set old_key rs = rfold (\<lambda>gs r. rbind (tag_list r) (\<lambda>ts. rbind (tag_pairs ts) (\<lambda>ps.
     case last_value old_key ps of
       None \<Rightarrow> Inl KeyError
     | Some v \<Rightarrow> if hashable v then Inr (vput v r gs) else Inl TypeError))) [] rs"

text \<open>Each set is renamed by itself; what goes wrong with one is logged.\<close>

definition each_set :: "('k \<times> 'r list \<Rightarrow> 'w \<Rightarrow> unit res \<times> 'w) \<Rightarrow> ('k \<times> 'r list) list \<Rightarrow> 'w \<Rightarrow> 'w" where
  "each_set f gs w = fold (\<lambda>g w. snd (f g w)) gs w"

definition rename_process ::
  "(tag_call \<Rightarrow> 'w \<Rightarrow> unit res \<times> 'w) \<Rightarrow> string \<Rightarrow> pydict \<Rightarrow> pydict list \<Rightarrow> 'w \<Rightarrow> pydict list res \<times> 'w" where
  "rename_process call id_key data rs w =
     (case rbind (rfilter (has_key (dget_or data ''old_key'' PNone)) rs) (\<lambda>found.
           rbind (rename_set (dget_or data ''old_key'' PNone) found) (\<lambda>gs. Inr (found, gs))) of
        Inl e \<Rightarrow> (Inl e, w)
      | Inr (found, gs) \<Rightarrow> (Inr found, each_set (\<lambda>(v, g). process_rename call id_key data v g) gs w))"

section \<open>Normalizing\<close>

definition py_islower :: "string \<Rightarrow> bool" where
  "py_islower s \<longleftrightarrow> list_ex is_alpha s \<and> \<not> list_ex is_upper s"

definition py_isupper :: "string \<Rightarrow> bool" where
  "py_isupper s \<longleftrightarrow> list_ex is_alpha s \<and> \<not> list_ex is_lower s"

fun titled_from :: "bool \<Rightarrow> string \<Rightarrow> bool" where
  "titled_from cased [] = True"
| "titled_from cased (c # cs) =
     ((is_upper c \<longrightarrow> \<not> cased) \<and> (is_lower c \<longrightarrow> cased) \<and> titled_from (is_alpha c) cs)"

definition py_istitle :: "string \<Rightarrow> bool" where
  "py_istitle s \<longleftrightarrow> list_ex is_alpha s \<and> titled_from False s"

text \<open>The new value, when there is one to write.\<close>

definition normalized :: "pydict \<Rightarrow> string \<Rightarrow> string option res" where
  "normalized data v =
     (let action = dget_or data ''action'' PNone;
          arg = dget_or data ''value'' PNone;
          found = (\<lambda>s. if s = [] then None else Some s)
      in if py_eq action (PStr ''lower'') \<and> \<not> py_islower v then Inr (found (lower v))
         else if py_eq action (PStr ''upper'') \<and> \<not> py_isupper v then Inr (found (upper v))
         else if py_eq action (PStr ''title'') \<and> \<not> py_istitle v then Inr (found (title v))
         else if py_eq action (PStr ''strip'') \<and> py_truth arg then
           (case arg of
              PStr a \<Rightarrow> Inr (if has_substr v a then found (strip_chars a v) else None)
            | _ \<Rightarrow> Inl TypeError)
         else Inr None)"

definition process_transform ::
  "(tag_call \<Rightarrow> 'w \<Rightarrow> unit res \<times> 'w) \<Rightarrow> string \<Rightarrow> pydict \<Rightarrow> string \<Rightarrow> pydict list \<Rightarrow> 'w \<Rightarrow> unit res \<times> 'w" where
  "process_transform call id_key data v rs w = (case ids_where id_key (\<lambda>n. n < 50) rs of
      Inl e \<Rightarrow> (Inl e, w)
    | Inr ids \<Rightarrow> call (CreateTag ids (dget_or data ''key'' PNone) (PStr v)) w)"

text \<open>The sets before one whose value is not a string are submitted before the error.\<close>

fun normalize_sets ::
  "(string \<Rightarrow> pydict list \<Rightarrow> 'w \<Rightarrow> unit res \<times> 'w) \<Rightarrow> pydict \<Rightarrow> (pyval \<times> pydict list) list \<Rightarrow> 'w \<Rightarrow> unit res \<times> 'w" where
  "normalize_sets f data [] w = (Inr (), w)"
| "normalize_sets f data ((v, g) # gs) w = (case v of
      PStr s \<Rightarrow> (case normalized data s of
          Inl e \<Rightarrow> (Inl e, w)
        | Inr None \<Rightarrow> normalize_sets f data gs w
        | Inr (Some s') \<Rightarrow> normalize_sets f data gs (snd (f s' g w)))
    | _ \<Rightarrow> if list_ex (\<lambda>a. py_eq (dget_or data ''action'' PNone) (PStr a)) [''lower'', ''upper'', ''title'']
           then (Inl AttributeError, w)
           else if py_eq (dget_or data ''action'' PNone) (PStr ''strip'') \<and> py_truth (dget_or data ''value'' PNone)
           then (Inl TypeError, w)
           else normalize_sets f data gs w)"

definition normalize_process ::
  "(tag_call \<Rightarrow> 'w \<Rightarrow> unit res \<times> 'w) \<Rightarrow> string \<Rightarrow> pydict \<Rightarrow> pydict list \<Rightarrow> 'w \<Rightarrow> pydict list res \<times> 'w" where
  "normalize_process call id_key data rs w =
     (case rbind (rfilter (has_key (dget_or data ''key'' PNone)) rs) (\<lambda>found.
           rbind (rename_set (dget_or data ''key'' PNone) found) (\<lambda>gs. Inr (found, gs))) of
        Inl e \<Rightarrow> (Inl e, w)
      | Inr (found, gs) \<Rightarrow>
          wbind (normalize_sets (process_transform call id_key data) data gs w) (\<lambda>_ w. (Inr found, w)))"

section \<open>Renaming through the resource groups api\<close>

definition old_keys_of :: "pydict \<Rightarrow> pyval list res" where
  "old_keys_of data =
     rbind (py_set (dget_or data ''old_keys'' (PTuple []))) (\<lambda>ks. case dget data ''old_key'' of
         None \<Rightarrow> Inr ks
       | Some k \<Rightarrow> if hashable k then Inr (if mem_eq k ks then ks else ks @ [k]) else Inl TypeError)"

fun position :: "pyval \<Rightarrow> pyval list \<Rightarrow> nat option" where
  "position x [] = None"
| "position x (y # ys) = (if py_eq y x then Some 0 else map_option Suc (position x ys))"

definition rename_key :: "pydict \<Rightarrow> pyval list \<Rightarrow> pyval \<Rightarrow> nat res" where
  "rename_key data old_keys t =
     rbind (tag_field t ''Key'') (\<lambda>k.
     if \<not> hashable k then Inl TypeError
     else if \<not> mem_eq k old_keys then Inr 50
     else rbind (dindex data ''old_keys'') (\<lambda>ks. case ks of
         PList xs \<Rightarrow> (case position k xs of None \<Rightarrow> Inl ValueError | Some n \<Rightarrow> Inr n)
       | PTuple xs \<Rightarrow> (case position k xs of None \<Rightarrow> Inl ValueError | Some n \<Rightarrow> Inr n)
       | _ \<Rightarrow> Inl AttributeError))"

definition sorted_tags :: "pydict \<Rightarrow> pyval list \<Rightarrow> pyval list \<Rightarrow> pyval list res" where
  "sorted_tags data old_keys ts =
     rbind (rmap (rename_key data old_keys) ts) (\<lambda>ns. Inr (map snd (sort_key fst (zip ns ts))))"

definition old_tags :: "pydict \<Rightarrow> pyval list \<Rightarrow> pydict \<Rightarrow> pyval list res" where
  "old_tags data old_keys r =
     rbind (py_iter (dget_or r ''Tags'' (PTuple []))) (\<lambda>ts.
     rbind (sorted_tags data old_keys ts) (rfilter (\<lambda>t. rbind (tag_field t ''Key'') (\<lambda>k. Inr (mem_eq k old_keys)))))"

text \<open>The resources by the old keys they have, and by the value of the first of these.\<close>

definition rename_collect ::
  "pydict \<Rightarrow> pyval list \<Rightarrow> pydict list \<Rightarrow> ((pyval \<times> pydict list) list \<times> (pyval \<times> pydict list) list) res" where
  "rename_collect data old_keys rs = rfold (\<lambda>(by_key, by_value) r.
     rbind (old_tags data old_keys r) (\<lambda>ts.
     rbind (rmap (\<lambda>t. tag_field t ''Key'') ts) (\<lambda>ks.
     let by_key' = fold (\<lambda>k. vput k r) ks by_key
     in case ts of
          [] \<Rightarrow> Inr (by_key', by_value)
        | t # _ \<Rightarrow> rbind (tag_field t ''Value'') (\<lambda>v.
            if hashable v then Inr (by_key', vput v r by_value) else Inl TypeError)))) ([], []) rs"

fun in_turn :: "('a \<Rightarrow> 'w \<Rightarrow> unit res \<times> 'w) \<Rightarrow> 'a list \<Rightarrow> 'w \<Rightarrow> unit res \<times> 'w" where
  "in_turn f [] w = (Inr (), w)"
| "in_turn f (x # xs) w = wbind (f x w) (\<lambda>_. in_turn f xs)"

definition universal_rename ::
  "(pydict \<Rightarrow> pydict list \<Rightarrow> 'w \<Rightarrow> unit res \<times> 'w) \<Rightarrow> (pydict \<Rightarrow> pydict list \<Rightarrow> 'w \<Rightarrow> unit res \<times> 'w) \<Rightarrow>
   pydict \<Rightarrow> pydict list \<Rightarrow> 'w \<Rightarrow> unit res \<times> 'w" where
  "universal_rename tag untag data rs w =
     (case rbind (old_keys_of data) (\<lambda>ks. rbind (rename_collect data ks rs) (\<lambda>(by_key, by_value).
           rbind (dindex data ''new_key'') (\<lambda>new. Inr (by_key, by_value, new)))) of
        Inl e \<Rightarrow> (Inl e, w)
      | Inr (by_key, by_value, new) \<Rightarrow>
          wbind (in_turn (\<lambda>(v, g). tag [(''key'', new), (''value'', v)] g) by_value w) (\<lambda>_.
          in_turn (\<lambda>(k, g). untag [(''tags'', PList [k])] g) by_key))"

section \<open>Copying\<close>

text \<open>The tags of a related resource that are to be written on a resource.\<close>

definition copied_tags :: "pyval \<Rightarrow> (string, pyval) odict \<Rightarrow> (string, pyval) odict \<Rightarrow> (string, pyval) odict res" where
  "copied_tags tag_keys own related =
     rfilter (\<lambda>(k, v).
       let differs = \<not> py_eq (dget_or own k PNone) v
       in if py_eq tag_keys (PStr ''*'') then Inr (differs \<and> \<not> starts_with k ''aws:'')
          else rbind (py_in (PStr k) tag_keys) (\<lambda>b. Inr (b \<and> differs))) related"

text \<open>\<open>process_resource\<close>: whether the resource was tagged.\<close>

definition copy_to_resource ::
  "((string, pyval) odict \<Rightarrow> pydict list \<Rightarrow> 'w \<Rightarrow> unit res \<times> 'w) \<Rightarrow> pyval \<Rightarrow> pydict \<Rightarrow> (string, pyval) odict \<Rightarrow> 'w \<Rightarrow>
   bool res \<times> 'w" where
  "copy_to_resource resource_set tag_keys r related w =
     (case rbind (tag_list r) (\<lambda>ts. rbind (own_tags ts) (\<lambda>own. copied_tags tag_keys own related)) of
        Inl e \<Rightarrow> (Inl e, w)
      | Inr tags \<Rightarrow> if tags = [] then (Inr False, w)
                   else wbind (resource_set tags [r] w) (\<lambda>_ w. (Inr True, w)))"

definition copy_path :: "string \<Rightarrow> string" where
  "copy_path key =
     (if starts_with key ''tag:'' then ''[].[Tags[?Key=='' @ [CHR 0x27] @ last (split_max CHR '':'' 1 key) @ [CHR 0x27] @ ''].Value | [0]]''
      else ''[].['' @ key @ '']'')"

text \<open>\<open>rrid.pop()\<close> for each resource.\<close>

definition related_ids :: "ext \<Rightarrow> string \<Rightarrow> pydict list \<Rightarrow> pyval list res" where
  "related_ids E key rs =
     rbind (ext_jmes E (copy_path key) (PList (map PDict rs))) (\<lambda>found.
     rbind (py_iter found) (rmap (\<lambda>x. case x of
         PList xs \<Rightarrow> if xs = [] then Inl IndexError else Inr (last xs)
       | _ \<Rightarrow> Inl AttributeError)))"

record copy_stats =
  cs_tagged :: nat
  cs_missing :: nat
  cs_unchanged :: nat

definition related_tags :: "(string \<times> (string, pyval) odict) list \<Rightarrow> pyval \<Rightarrow> (string, pyval) odict option" where
  "related_tags tag_map i = (case i of PStr s \<Rightarrow> dget tag_map s | _ \<Rightarrow> None)"

fun copy_each ::
  "((string, pyval) odict \<Rightarrow> pydict list \<Rightarrow> 'w \<Rightarrow> unit res \<times> 'w) \<Rightarrow> pyval \<Rightarrow> (string \<times> (string, pyval) odict) list \<Rightarrow>
   (pyval \<times> pydict) list \<Rightarrow> copy_stats \<Rightarrow> 'w \<Rightarrow> copy_stats res \<times> 'w" where
  "copy_each resource_set tag_keys tag_map [] st w = (Inr st, w)"
| "copy_each resource_set tag_keys tag_map ((i, r) # rest) st w = (case related_tags tag_map i of
      Some (t # ts) \<Rightarrow> wbind (copy_to_resource resource_set tag_keys r (t # ts) w) (\<lambda>tagged.
        copy_each resource_set tag_keys tag_map rest
          (if tagged then st\<lparr>cs_tagged := cs_tagged st + 1\<rparr> else st\<lparr>cs_unchanged := cs_unchanged st + 1\<rparr>))
    | _ \<Rightarrow> copy_each resource_set tag_keys tag_map rest (st\<lparr>cs_missing := cs_missing st + 1\<rparr>) w)"

text \<open>
  \<open>process\<close>: \<open>fetch\<close> gives the tags of the related resources by id, of the type the policy
  names.
\<close>

definition copy_process ::
  "ext \<Rightarrow> (pyval \<Rightarrow> pyval list \<Rightarrow> (string \<times> (string, pyval) odict) list res) \<Rightarrow>
   ((string, pyval) odict \<Rightarrow> pydict list \<Rightarrow> 'w \<Rightarrow> unit res \<times> 'w) \<Rightarrow> pydict \<Rightarrow> pydict list \<Rightarrow> 'w \<Rightarrow> copy_stats res \<times> 'w" where
  "copy_process E fetch resource_set data rs w =
     (case
        rbind (dindex data ''key'') (\<lambda>key. case key of
            PStr key \<Rightarrow>
              rbind (related_ids E key rs) (\<lambda>ids.
              if \<not> list_all hashable ids then Inl TypeError
              else rbind (dindex data ''resource'') (\<lambda>resource.
              rbind (fetch resource (filter (\<lambda>i. i \<noteq> PNone) (dedup ids))) (\<lambda>tag_map.
              let lost = list_ex (\<lambda>i. i = PNone \<or> related_tags tag_map i = None) ids
              in if \<not> py_truth (dget_or data ''skip_missing'' (PBool True)) \<and> lost then Inl PolicyExecutionError
                 else rbind (dindex data ''tags'') (\<lambda>tags. Inr (zip ids rs, tag_map, tags)))))
          | _ \<Rightarrow> Inl AttributeError) of
        Inl e \<Rightarrow> (Inl e, w)
      | Inr (pairs, tag_map, tags) \<Rightarrow>
          copy_each resource_set tags tag_map pairs \<lparr>cs_tagged = 0, cs_missing = 0, cs_unchanged = 0\<rparr> w)"

text \<open>\<open>get_resource_tag_map\<close>, on the resources the other manager finds.\<close>

definition resource_tag_map :: "string \<Rightarrow> pydict list \<Rightarrow> (string \<times> (string, pyval) odict) list res" where
  "resource_tag_map id_key rs = rfold (\<lambda>m r. rbind (dindex r id_key) (\<lambda>i. rbind (tag_list r) (\<lambda>ts.
     rbind (rfold (\<lambda>d t. rbind (tag_key t) (\<lambda>k. rbind (tag_field t ''Value'') (\<lambda>v. Inr (dput k v d)))) [] ts) (\<lambda>tags.
     case i of PStr s \<Rightarrow> Inr (dput s tags m) | _ \<Rightarrow> Inl TypeError)))) [] rs"

section \<open>Copied and given tags\<close>

definition copy_keys :: "pyval list \<Rightarrow> pyval \<Rightarrow> pyval list res" where
  "copy_keys r_tags copy_tags =
     (let own = rbind (rmap tag_key r_tags) (\<lambda>ks. Inr (map PStr (filter (\<lambda>k. \<not> starts_with k ''aws:'') ks)))
      in case copy_tags of
           PList xs \<Rightarrow> if mem_eq (PStr ''*'') xs then own else if list_all hashable xs then Inr xs else Inl TypeError
         | PBool b \<Rightarrow> if b then own else Inr []
         | _ \<Rightarrow> Inl AssertionError)"

definition coalesce_copy_user_tags :: "pydict \<Rightarrow> pyval \<Rightarrow> pyval \<Rightarrow> pyval list res" where
  "coalesce_copy_user_tags resource copy_tags user_tags =
     rbind (case copy_tags of PList xs \<Rightarrow> Inr () | PBool b \<Rightarrow> Inr () | _ \<Rightarrow> Inl AssertionError) (\<lambda>_.
     rbind (case user_tags of
         PDict d \<Rightarrow> Inr (map (\<lambda>(k, v). PDict [(''Key'', PStr k), (''Value'', v)]) d)
       | PList ts \<Rightarrow> Inr ts
       | _ \<Rightarrow> Inl AssertionError) (\<lambda>user.
     rbind (tag_list resource) (\<lambda>r_tags.
     rbind (copy_keys r_tags copy_tags) (\<lambda>wanted.
     rbind (rmap (\<lambda>t. rbind (tag_field t ''Key'') (\<lambda>k. if hashable k then Inr k else Inl TypeError)) user) (\<lambda>user_keys.
     rbind (rfilter (\<lambda>t. rbind (tag_field t ''Key'') (\<lambda>k. Inr (mem_eq k wanted \<and> \<not> mem_eq k user_keys))) r_tags) (\<lambda>copied.
       Inr (user @ copied)))))))"

section \<open>Facts\<close>

text \<open>A service that keeps at most fifty tags on a resource, as EC2 does, and what it answers of them.\<close>

type_synonym tag_store = "pyval \<Rightarrow> (string, string) odict"

fun store_call :: "tag_call \<Rightarrow> tag_store \<Rightarrow> unit res \<times> tag_store" where
  "store_call (CreateTag ids (PStr k) (PStr v)) w =
     (if list_all (\<lambda>i. length (dput k v (w i)) \<le> 50) ids
      then (Inr (), \<lambda>i. if i \<in> set ids then dput k v (w i) else w i) else (Inl ClientError, w))"
| "store_call (DeleteTag ids (PStr k) (PStr v)) w =
     (Inr (), \<lambda>i. if i \<in> set ids \<and> dget (w i) k = Some v then ddel k (w i) else w i)"
| "store_call _ w = (Inl ClientError, w)"

definition aws_tags :: "(string, string) odict \<Rightarrow> pyval" where
  "aws_tags tags = PList (map (\<lambda>(k, v). PDict [(''Key'', PStr k), (''Value'', PStr v)]) tags)"

definition as_stored :: "string \<Rightarrow> tag_store \<Rightarrow> pydict \<Rightarrow> pyval \<Rightarrow> bool" where
  "as_stored id_key w r i \<longleftrightarrow> dget r id_key = Some i \<and> dget_or r ''Tags'' (PList []) = aws_tags (w i) \<and>
     dwf (w i) \<and> length (w i) \<le> 50"

text \<open>A value moved from one key to another, by the order the action chooses.\<close>

definition rename_tags :: "string \<Rightarrow> string \<Rightarrow> string \<Rightarrow> (string, string) odict \<Rightarrow> (string, string) odict" where
  "rename_tags old new v tags =
     (if length tags < 50 then ddel old (dput new v tags) else dput new v (ddel old tags))"

lemma length_dput: "length (dput k v d) = (if dhas d k then length d else Suc (length d))"
  by (induction d) (auto simp: dhas_def)

lemma length_ddel: "dwf d \<Longrightarrow> dhas d k \<Longrightarrow> Suc (length (ddel k d)) = length d"
proof (induction d)
  case (Cons p d)
  obtain k' v where p: "p = (k', v)" by (cases p)
  show ?case
  proof (cases "k' = k")
    case True
    with Cons.prems p have "k \<notin> set (dkeys d)" by (simp add: dwf_def)
    then have "filter (\<lambda>(k', v). k' \<noteq> k) d = d" by (force simp: filter_id_conv dkeys_def)
    with True p show ?thesis by (simp add: ddel_def)
  next
    case False
    with Cons p show ?thesis by (simp add: ddel_def dwf_def dhas_def)
  qed
qed (simp add: dhas_def)

lemma rename_tags_lookup:
  "old \<noteq> new \<Longrightarrow> dget (rename_tags old new v tags) = (dget tags)(old := None, new \<mapsto> v)"
  by (auto simp: rename_tags_def fun_eq_iff)

lemma rename_tags_length:
  "dwf tags \<Longrightarrow> length tags \<le> 50 \<Longrightarrow> dget tags old = Some v' \<Longrightarrow> length (rename_tags old new v tags) \<le> 50"
proof -
  assume wf: "dwf tags" and fits: "length tags \<le> 50" and has: "dget tags old = Some v'"
  have few: "length (ddel old (dput new v tags)) \<le> Suc (length tags)"
    using length_filter_le[of "\<lambda>(k', x). k' \<noteq> old" "dput new v tags"] by (simp add: ddel_def length_dput split: if_splits)
  have "Suc (length (ddel old tags)) = length tags" using length_ddel[OF wf, of old] has by (simp add: dhas_dget)
  with few fits show ?thesis by (simp add: rename_tags_def length_dput)
qed

lemma stored_total: "as_stored id_key w r i \<Longrightarrow> tag_total r = Inr (length (w i))"
  by (simp add: as_stored_def tag_total_def aws_tags_def)

lemma stored_ids:
  "list_all (\<lambda>r. as_stored id_key w r (ident r)) rs \<Longrightarrow>
     ids_where id_key p rs = Inr (filter (\<lambda>i. p (length (w i))) (map ident rs)) \<and> rmap (\<lambda>r. dindex r id_key) rs = Inr (map ident rs)"
proof (induction rs)
  case (Cons r rs)
  then have "tag_total r = Inr (length (w (ident r)))" "dindex r id_key = Inr (ident r)"
    by (auto simp: stored_total as_stored_def dindex_def)
  with Cons show ?case by (auto simp: ids_where_def rbind_eq_Inr)
qed (simp add: ids_where_def)

lemma create_some_store:
  "list_all (\<lambda>i. length (dput k v (w i)) \<le> 50) ids \<Longrightarrow>
     create_some store_call (PStr k) (PStr v) (Inr ids) w = (Inr (), \<lambda>i. if i \<in> set ids then dput k v (w i) else w i)"
  by (auto simp: create_some_def)

lemma process_rename_store:
  assumes rs: "list_all (\<lambda>r. as_stored id_key w r (ident r) \<and> dget (w (ident r)) old = Some v) rs" and "old \<noteq> new"
    and data: "dget_or data ''old_key'' PNone = PStr old" "dget_or data ''new_key'' PNone = PStr new"
  shows "process_rename store_call id_key data (PStr v) rs w =
    (Inr (), \<lambda>i. if i \<in> ident ` set rs then rename_tags old new v (w i) else w i)"
proof -
  let ?ids = "map ident rs"
  let ?few = "filter (\<lambda>i. length (w i) < 50) ?ids" and ?full = "filter (\<lambda>i. 49 < length (w i)) ?ids"
  let ?w1 = "\<lambda>i. if i \<in> set ?few then dput new v (w i) else w i"
  let ?w2 = "\<lambda>i. if i \<in> set ?ids then ddel old (?w1 i) else ?w1 i"
  have ids: "ids_where id_key p rs = Inr (filter (\<lambda>i. p (length (w i))) ?ids)" "rmap (\<lambda>r. dindex r id_key) rs = Inr ?ids" for p
    using stored_ids[of id_key w ident rs] rs by (auto simp: list_all_iff)
  have i: "dwf (w i) \<and> length (w i) \<le> 50 \<and> dget (w i) old = Some v" if "i \<in> ident ` set rs" for i
    using rs that by (auto simp: list_all_iff as_stored_def)
  have "list_all (\<lambda>i. length (dput new v (w i)) \<le> 50) ?few" by (auto simp: list_all_iff length_dput)
  from create_some_store[OF this] have s1: "create_some store_call (PStr new) (PStr v) (Inr ?few) w = (Inr (), ?w1)" .
  have s2: "store_call (DeleteTag ?ids (PStr old) (PStr v)) ?w1 = (Inr (), ?w2)"
    using i \<open>old \<noteq> new\<close> by (auto simp: fun_eq_iff)
  have "length (dput new v (ddel old (w i))) \<le> 50" if "i \<in> ident ` set rs" for i
    using i[OF that] length_ddel[of "w i" old] by (auto simp: dhas_dget length_dput)
  then have "list_all (\<lambda>i. length (dput new v (?w2 i)) \<le> 50) ?full"
    by (auto simp: list_all_iff)
  from create_some_store[OF this] have s3: "create_some store_call (PStr new) (PStr v) (Inr ?full) ?w2 =
      (Inr (), \<lambda>i. if i \<in> set ?full then dput new v (?w2 i) else ?w2 i)" .
  have "(\<lambda>i. if i \<in> set ?full then dput new v (?w2 i) else ?w2 i) =
      (\<lambda>i. if i \<in> ident ` set rs then rename_tags old new v (w i) else w i)"
    by (auto simp: fun_eq_iff rename_tags_def)
  with s1 s2 s3 show ?thesis
    by (simp add: process_rename_def Let_def data ids tag_count_max_def wbind_def del: store_call.simps)
qed

lemma stored_tag_list:
  "as_stored id_key w r i \<Longrightarrow> tag_list r = Inr (map (\<lambda>(k, v). PDict [(''Key'', PStr k), (''Value'', PStr v)]) (w i))"
  by (simp add: as_stored_def tag_list_def aws_tags_def)

lemma stored_has_key:
  assumes "as_stored id_key w r i" shows "has_key (PStr old) r = Inr (dhas (w i) old)"
proof -
  have "rany (\<lambda>t. rbind (tag_field t ''Key'') (\<lambda>k. Inr (py_eq k (PStr old))))
      (map (\<lambda>(k, v). PDict [(''Key'', PStr k), (''Value'', PStr v)]) tags) = Inr (dhas tags old)" for tags
    by (induction tags) (auto simp: tag_field_def dindex_def dhas_def)
  with stored_tag_list[OF assms] show ?thesis by (simp add: has_key_def)
qed

lemma find_snoc: "find P (xs @ [x]) = (case find P xs of None \<Rightarrow> if P x then Some x else None | Some y \<Rightarrow> Some y)"
  by (induction xs) auto

lemma last_value_stored:
  "dwf tags \<Longrightarrow> last_value (PStr old) (map (\<lambda>(k, v). (PStr k, PStr v)) tags) = map_option PStr (dget tags old)"
proof (induction tags)
  case (Cons p tags)
  obtain k v where p: "p = (k, v)" by (cases p)
  from Cons.prems p have k: "k \<notin> set (dkeys tags)" and wf: "dwf tags" by (simp_all add: dwf_def)
  show ?case
  proof (cases "k = old")
    case True
    with k have "dget tags old = None" by (simp add: dget_None_iff)
    with Cons.IH[OF wf] True p show ?thesis by (auto simp: last_value_def find_snoc split: option.splits)
  next
    case False
    with Cons.IH[OF wf] p show ?thesis by (auto simp: last_value_def find_snoc split: option.splits)
  qed
qed (simp add: last_value_def)

lemma stored_value:
  assumes "as_stored id_key w r i" "dget (w i) old = Some v"
  shows "rbind (tag_list r) (\<lambda>ts. rbind (tag_pairs ts) (\<lambda>ps. case last_value (PStr old) ps of
      None \<Rightarrow> Inl KeyError | Some v \<Rightarrow> if hashable v then Inr (vput v r gs) else Inl TypeError)) = Inr (vput (PStr v) r gs)"
proof -
  have "tag_pairs (map (\<lambda>(k, v). PDict [(''Key'', PStr k), (''Value'', PStr v)]) tags) =
      Inr (map (\<lambda>(k, v). (PStr k, PStr v)) tags)" for tags
    unfolding tag_pairs_def by (induction tags) (auto simp: tag_field_def dindex_def)
  with stored_tag_list[OF assms(1)] last_value_stored[of "w i" old] assms show ?thesis
    by (simp add: as_stored_def)
qed

text \<open>What the sets are: one for each value, with the resources that have it.\<close>

definition sets_of :: "(pydict \<Rightarrow> string) \<Rightarrow> pydict set \<Rightarrow> (pyval \<times> pydict list) list \<Rightarrow> bool" where
  "sets_of val R gs \<longleftrightarrow> distinct (map fst gs) \<and>
     (\<forall>(k, g) \<in> set gs. \<exists>v. k = PStr v \<and> (\<forall>r \<in> set g. r \<in> R \<and> val r = v)) \<and> R \<subseteq> (\<Union>x \<in> set gs. set (snd x))"

lemma vput_fst: "list_all (\<lambda>(k, g). \<exists>v. k = PStr v) gs \<Longrightarrow>
    map fst (vput (PStr v) r gs) = (if PStr v \<in> fst ` set gs then map fst gs else map fst gs @ [PStr v])"
  by (induction gs) force+

lemma vput_union: "(\<Union>x \<in> set (vput v r gs). set (snd x)) = insert r (\<Union>x \<in> set gs. set (snd x))"
proof (induction gs)
  case (Cons p gs)
  then show ?case by (cases p) (simp add: insert_commute Un_insert_right)
qed simp

lemma vput_members:
  "list_all (\<lambda>(k, g). \<exists>v. k = PStr v) gs \<Longrightarrow> (k, g) \<in> set (vput (PStr v) r gs) \<Longrightarrow>
     (k, g) \<in> set gs \<or> k = PStr v \<and> (g = [r] \<or> (\<exists>g'. (k, g') \<in> set gs \<and> g = g' @ [r]))"
  by (induction gs) (auto split: if_splits)

lemma sets_of_vput:
  assumes "sets_of val R gs"
  shows "sets_of val (insert r R) (vput (PStr (val r)) r gs)"
proof -
  have strs: "list_all (\<lambda>(k, g). \<exists>v. k = PStr v) gs" using assms by (auto simp: sets_of_def list_all_iff)
  have "distinct (map fst (vput (PStr (val r)) r gs))"
    using assms by (auto simp: vput_fst[OF strs] sets_of_def)
  moreover have "\<exists>v. k = PStr v \<and> (\<forall>x \<in> set g. x \<in> insert r R \<and> val x = v)"
    if "(k, g) \<in> set (vput (PStr (val r)) r gs)" for k g
    using vput_members[OF strs that] assms by (fastforce simp: sets_of_def)
  ultimately show ?thesis using vput_union[of "PStr (val r)" r gs] assms by (auto simp: sets_of_def)
qed

lemma rename_set_stored:
  assumes "list_all (\<lambda>r. as_stored id_key w r (ident r) \<and> dhas (w (ident r)) old) rs"
  shows "\<exists>gs. rename_set (PStr old) rs = Inr gs \<and> sets_of (\<lambda>r. the (dget (w (ident r)) old)) (set rs) gs"
proof -
  have "\<exists>gs'. rfold (\<lambda>gs r. rbind (tag_list r) (\<lambda>ts. rbind (tag_pairs ts) (\<lambda>ps. case last_value (PStr old) ps of
      None \<Rightarrow> Inl KeyError | Some v \<Rightarrow> if hashable v then Inr (vput v r gs) else Inl TypeError))) gs rs = Inr gs' \<and>
      sets_of (\<lambda>r. the (dget (w (ident r)) old)) (R \<union> set rs) gs'"
    if "sets_of (\<lambda>r. the (dget (w (ident r)) old)) R gs" for R gs
    using assms that
  proof (induction rs arbitrary: R gs)
    case (Cons r rs)
    then obtain v where v: "dget (w (ident r)) old = Some v" "as_stored id_key w r (ident r)"
      by (auto simp: dhas_dget)
    have "sets_of (\<lambda>r. the (dget (w (ident r)) old)) (insert r R) (vput (PStr v) r gs)"
      using sets_of_vput[OF Cons.prems(2), of r] v(1) by simp
    from Cons.IH[OF _ this] Cons.prems(1) show ?case by (simp add: stored_value[OF v(2,1)])
  qed simp
  from this[of "{}" "[]"] show ?thesis by (simp add: rename_set_def sets_of_def)
qed

lemma each_set_store:
  assumes "distinct (map fst gs)" "old \<noteq> new"
    and "dget_or data ''old_key'' PNone = PStr old" "dget_or data ''new_key'' PNone = PStr new"
    and "\<forall>(k, g) \<in> set gs. \<exists>v. k = PStr v \<and>
      (\<forall>r \<in> set g. as_stored id_key w0 r (ident r) \<and> dget (w0 (ident r)) old = Some v)"
    and "\<forall>i \<in> ident ` (\<Union>x \<in> set gs. set (snd x)). w i = w0 i"
  shows "each_set (\<lambda>(v, g). process_rename store_call id_key data v g) gs w =
    (\<lambda>i. if i \<in> ident ` (\<Union>x \<in> set gs. set (snd x)) then rename_tags old new (the (dget (w0 i) old)) (w0 i) else w i)"
  using assms(1,5,6)
proof (induction gs arbitrary: w)
  case (Cons p gs)
  obtain k g where p: "p = (k, g)" by (cases p)
  with Cons.prems obtain v where k: "k = PStr v"
    and g: "\<forall>r \<in> set g. as_stored id_key w0 r (ident r) \<and> dget (w0 (ident r)) old = Some v"
    by (auto simp: p)
  let ?w = "\<lambda>i. if i \<in> ident ` set g then rename_tags old new v (w i) else w i"
  have same: "w i = w0 i" if "i \<in> ident ` set g" for i using Cons.prems(3) that p by auto
  have "list_all (\<lambda>r. as_stored id_key w r (ident r) \<and> dget (w (ident r)) old = Some v) g"
    using g same by (simp add: list_all_iff as_stored_def)
  from process_rename_store[OF this assms(2,3,4)]
  have step: "each_set (\<lambda>(v, g). process_rename store_call id_key data v g) (p # gs) w =
      each_set (\<lambda>(v, g). process_rename store_call id_key data v g) gs ?w"
    by (simp add: each_set_def p k)
  have other: "i \<notin> ident ` set g" if i: "i \<in> ident ` (\<Union>x \<in> set gs. set (snd x))" for i
  proof
    assume "i \<in> ident ` set g"
    then have vi: "dget (w0 i) old = Some v" using g by auto
    from i obtain k' g' where kg: "(k', g') \<in> set gs" "i \<in> ident ` set g'" by force
    with Cons.prems(2) vi have "k' = PStr v" by fastforce
    with kg(1) Cons.prems(1) p k show False by force
  qed
  have "\<forall>i \<in> ident ` (\<Union>x \<in> set gs. set (snd x)). ?w i = w0 i"
    using Cons.prems(3) other by simp
  from Cons.IH[OF _ _ this] Cons.prems(1,2)
  have "each_set (\<lambda>(v, g). process_rename store_call id_key data v g) gs ?w =
      (\<lambda>i. if i \<in> ident ` (\<Union>x \<in> set gs. set (snd x)) then rename_tags old new (the (dget (w0 i) old)) (w0 i) else ?w i)"
    by simp
  also have "\<dots> = (\<lambda>i. if i \<in> ident ` (\<Union>x \<in> set (p # gs). set (snd x)) then rename_tags old new (the (dget (w0 i) old)) (w0 i) else w i)"
    using g same other by (auto simp: fun_eq_iff p)
  finally show ?case using step by simp
qed (simp add: each_set_def)

text \<open>C10: Renaming a tag: for resources as a service keeps them, with at most fifty tags each, the
  action finds those with the old key; afterwards the service has on each of these the old
  value under the new key, nothing under the old one and every other tag as it was, it has never
  been asked for a fifty-first tag, and every other resource is as before.
\<close>

theorem rename_moves_value:
  assumes "list_all (\<lambda>r. as_stored id_key w r (ident r)) rs" "old \<noteq> new"
    and "dget_or data ''old_key'' PNone = PStr old" "dget_or data ''new_key'' PNone = PStr new"
  shows "fst (rename_process store_call id_key data rs w) = Inr (filter (\<lambda>r. dhas (w (ident r)) old) rs) \<and>
    dget (snd (rename_process store_call id_key data rs w) i) =
      (if i \<in> ident ` set rs \<and> dhas (w i) old then (dget (w i))(old := None, new := dget (w i) old) else dget (w i)) \<and>
    list_all (\<lambda>r. length (snd (rename_process store_call id_key data rs w) (ident r)) \<le> 50) rs"
proof -
  let ?found = "filter (\<lambda>r. dhas (w (ident r)) old) rs"
  have "rfilter (has_key (PStr old)) rs = Inr ?found"
    by (rule rfilter_pure) (use assms(1) in \<open>auto simp: list_all_iff intro: stored_has_key\<close>)
  moreover have found: "list_all (\<lambda>r. as_stored id_key w r (ident r) \<and> dhas (w (ident r)) old) ?found"
    using assms(1) by (simp add: list_all_iff)
  moreover from rename_set_stored[OF found] obtain gs where gs: "rename_set (PStr old) ?found = Inr gs"
    "sets_of (\<lambda>r. the (dget (w (ident r)) old)) (set ?found) gs" by blast
  ultimately have run: "rename_process store_call id_key data rs w =
      (Inr ?found, each_set (\<lambda>(v, g). process_rename store_call id_key data v g) gs w)"
    by (simp add: rename_process_def assms(3))
  have members: "(\<Union>x \<in> set gs. set (snd x)) = set ?found"
    using gs(2) by (fastforce simp: sets_of_def)
  have "\<forall>(k, g) \<in> set gs. \<exists>v. k = PStr v \<and> (\<forall>r \<in> set g. as_stored id_key w r (ident r) \<and> dget (w (ident r)) old = Some v)"
    using gs(2) assms(1) by (fastforce simp: sets_of_def list_all_iff dhas_dget)
  with gs(2) have after: "snd (rename_process store_call id_key data rs w) =
      (\<lambda>i. if i \<in> ident ` set ?found then rename_tags old new (the (dget (w i) old)) (w i) else w i)"
    using each_set_store[OF _ assms(2,3,4), of gs id_key w ident w] by (simp add: run members sets_of_def)
  have old: "dget (snd (rename_process store_call id_key data rs w) i) =
      (if i \<in> ident ` set rs \<and> dhas (w i) old then (dget (w i))(old := None, new := dget (w i) old) else dget (w i))"
    by (auto simp: after rename_tags_lookup[OF assms(2)] dhas_dget)
  have "length (snd (rename_process store_call id_key data rs w) (ident r)) \<le> 50" if r: "r \<in> set rs" for r
  proof -
    have "as_stored id_key w r (ident r)" using assms(1) r by (simp add: list_all_iff)
    then show ?thesis
      using rename_tags_length[of "w (ident r)" old] by (auto simp: after as_stored_def dhas_dget)
  qed
  with old run show ?thesis by (simp add: list_all_iff)
qed

definition ex_tag_store :: tag_store where
  "ex_tag_store i = (if i = PStr ''i-1'' then [(''App'', ''web''), (''Env'', ''prod'')] else [(''Env'', ''test'')])"

definition ex_stored :: "string \<Rightarrow> pydict" where
  "ex_stored i = [(''InstanceId'', PStr i), (''Tags'', aws_tags (ex_tag_store (PStr i)))]"

definition ex_rename :: pydict where
  "ex_rename = [(''old_key'', PStr ''App''), (''new_key'', PStr ''Application'')]"

lemma rename_moves_value_witness:
  "dget (snd (rename_process store_call ''InstanceId'' ex_rename [ex_stored ''i-1'', ex_stored ''i-2''] ex_tag_store) (PStr ''i-1'')) =
    [''Application'' \<mapsto> ''web'', ''Env'' \<mapsto> ''prod'']"
proof -
  let ?ident = "\<lambda>r. dget_or r ''InstanceId'' PNone"
  have stored: "list_all (\<lambda>r. as_stored ''InstanceId'' ex_tag_store r (?ident r)) [ex_stored ''i-1'', ex_stored ''i-2'']"
    by (simp add: as_stored_def ex_stored_def ex_tag_store_def dget_or_def dwf_def)
  have data: "dget_or ex_rename ''old_key'' PNone = PStr ''App''" "dget_or ex_rename ''new_key'' PNone = PStr ''Application''"
    by (simp_all add: ex_rename_def dget_or_def)
  have "PStr ''i-1'' \<in> ?ident ` set [ex_stored ''i-1'', ex_stored ''i-2''] \<and> dhas (ex_tag_store (PStr ''i-1'')) ''App''"
    by (simp add: ex_stored_def dget_or_def ex_tag_store_def dhas_def)
  with rename_moves_value[OF stored _ data, of "PStr ''i-1''"] show ?thesis
    by (auto simp: ex_tag_store_def fun_eq_iff)
qed

text \<open>Trimming makes room: for a resource without the room asked for, the keys to remove are its
  own, none is preserved, and when the preserved keys leave the room at all, the keys left and
  the space add up to the limit.
\<close>

theorem trim_makes_room:
  assumes "trim_candidates preserve space ks = Some cs" "0 < space" "distinct ks"
    and "space + int (length (filter (\<lambda>k. k \<in> set preserve) ks)) \<le> max_tag_count"
  shows "set cs \<subseteq> set ks - set preserve \<and>
    int (length (filter (\<lambda>k. k \<notin> set cs) ks)) + space = max_tag_count"
proof -
  let ?kept = "filter (\<lambda>k. k \<in> set preserve) ks" and ?cand = "filter (\<lambda>k. k \<notin> set preserve) ks"
  define n where "n = nat (int (length ?cand) - (max_tag_count - (space + int (length ?kept))))"
  have parts: "length ?kept + length ?cand = length ks" by (rule sum_length_filter_compl)
  have cs: "cs = take n (sort ?cand)" and n: "n \<le> length ?cand" "int n = int (length ks) + space - max_tag_count"
    using assms parts by (auto simp: trim_candidates_def n_def Let_def split: if_splits)
  have d: "distinct cs" using assms(3) by (simp add: cs)
  have sub: "set cs \<subseteq> set ks - set preserve" using set_take_subset[of n "sort ?cand"] by (auto simp: cs)
  have set_filter_mem: "{k \<in> set ks. k \<in> set cs} = set cs" using sub by blast
  have "length (filter (\<lambda>k. k \<in> set cs) ks) = card (set cs)"
    using distinct_card[of "filter (\<lambda>k. k \<in> set cs) ks"] assms(3) sub
    by (simp add: set_filter_mem)
  also have "\<dots> = n" using distinct_card[OF d] n(1) by (simp add: cs)
  finally have "length (filter (\<lambda>k. k \<notin> set cs) ks) + n = length ks"
    using sum_length_filter_compl[of "\<lambda>k. k \<in> set cs" ks] by simp
  with sub n(2) show ?thesis by simp
qed

definition ex_keys :: "string list" where
  "ex_keys = map (\<lambda>n. ''key'' @ str_of_nat (n + 10)) [0 ..< 49]"

definition ex_trimmed :: "string list" where
  "ex_trimmed = [''key10'', ''key12'']"

lemma trim_makes_room_witness:
  "int (length (filter (\<lambda>k. k \<notin> set ex_trimmed) ex_keys)) + 3 = max_tag_count"
proof -
  have run: "trim_candidates [''key11''] 3 ex_keys = Some ex_trimmed" by code_simp
  have "distinct ex_keys" "3 + int (length (filter (\<lambda>k. k \<in> set [''key11'']) ex_keys)) \<le> max_tag_count" by code_simp+
  with trim_makes_room[OF run] show ?thesis by simp
qed

text \<open>A resource with no room is never trimmed: the removal itself is an error.\<close>

lemma trim_never_removes:
  assumes "tag_list r = Inr ts" "own_tags ts = Inr own" "trim_candidates preserve space (dkeys own) = Some (c # cs)"
  shows "trim_resource id_key preserve space r = Inl TypeError"
  using assms by (simp add: trim_resource_def)

definition tag_dicts :: "(string, pyval) odict \<Rightarrow> pyval list" where
  "tag_dicts tags = map (\<lambda>(k, v). PDict [(''Key'', PStr k), (''Value'', v)]) tags"

text \<open>The keys that are to be copied.\<close>

definition wants_copy :: "pyval \<Rightarrow> string \<Rightarrow> bool" where
  "wants_copy copy_tags k = (case copy_tags of
      PBool b \<Rightarrow> b \<and> \<not> starts_with k ''aws:''
    | PList xs \<Rightarrow> if mem_eq (PStr ''*'') xs then \<not> starts_with k ''aws:'' else mem_eq (PStr k) xs
    | _ \<Rightarrow> False)"

lemma tag_dicts_keys:
  "rmap tag_key (tag_dicts tags) = Inr (dkeys tags)"
  "rmap (\<lambda>t. rbind (tag_field t ''Key'') (\<lambda>k. if hashable k then Inr k else Inl TypeError)) (tag_dicts tags) = Inr (map PStr (dkeys tags))"
  by (induction tags) (auto simp: tag_dicts_def tag_key_def tag_field_def dindex_def)

lemma tag_dicts_append: "tag_dicts (a @ b) = tag_dicts a @ tag_dicts b"
  by (simp add: tag_dicts_def)

lemma tag_dicts_filter:
  "rfilter (\<lambda>t. rbind (tag_field t ''Key'') (\<lambda>k. Inr (P k))) (tag_dicts tags) = Inr (tag_dicts (filter (\<lambda>(k, v). P (PStr k)) tags))"
  by (induction tags) (auto simp: tag_dicts_def tag_field_def dindex_def)

lemma copy_keys_wanted:
  assumes "(\<exists>b. copy_tags = PBool b) \<or> (\<exists>xs. copy_tags = PList xs \<and> list_all hashable xs)"
  shows "\<exists>wanted. copy_keys (tag_dicts tags) copy_tags = Inr wanted \<and>
    (\<forall>k \<in> set (dkeys tags). mem_eq (PStr k) wanted \<longleftrightarrow> wants_copy copy_tags k)"
  using assms by (auto simp: copy_keys_def wants_copy_def tag_dicts_keys(1) mem_eq_PStr mem_eq_def[of _ "[]"] Let_def)

lemma dget_append_filter:
  "dget (d @ filter (\<lambda>(k, v). P k \<and> \<not> dhas d k) tags) k =
     (case dget d k of Some v \<Rightarrow> Some v | None \<Rightarrow> if P k then dget tags k else None)"
  by (induction tags) (auto simp: map_add_def dhas_dget split: option.splits)

text \<open>Merging copied with given tags: the tags given for a new resource are on it as given, in
  their order, followed by the tags copied from the old one; each key is given its value by the
  user where there is one, by the old resource where its tag is to be copied, and no other key
  is there.
\<close>

theorem coalesce_user_wins:
  assumes "dget_or r ''Tags'' (PList []) = PList (tag_dicts tags)" "dwf tags" "dwf user"
    and "(\<exists>b. copy_tags = PBool b) \<or> (\<exists>xs. copy_tags = PList xs \<and> list_all hashable xs)"
  shows "\<exists>out. coalesce_copy_user_tags r copy_tags (PDict user) = Inr (tag_dicts out) \<and> dwf out \<and>
    take (length user) out = user \<and>
    (\<forall>k. dget out k = (case dget user k of Some v \<Rightarrow> Some v
                                           | None \<Rightarrow> if wants_copy copy_tags k then dget tags k else None))"
proof -
  obtain wanted where wanted: "copy_keys (tag_dicts tags) copy_tags = Inr wanted"
    "\<forall>k \<in> set (dkeys tags). mem_eq (PStr k) wanted \<longleftrightarrow> wants_copy copy_tags k"
    using copy_keys_wanted[OF assms(4)] by blast
  let ?out = "user @ filter (\<lambda>(k, v). wants_copy copy_tags k \<and> \<not> dhas user k) tags"
  have user: "map (\<lambda>(k, v). PDict [(''Key'', PStr k), (''Value'', v)]) user = tag_dicts user" by (simp add: tag_dicts_def)
  have "(mem_eq (PStr k) wanted \<and> \<not> mem_eq (PStr k) (map PStr (dkeys user))) =
      (wants_copy copy_tags k \<and> \<not> dhas user k)" if "(k, v) \<in> set tags" for k v
  proof -
    have "k \<in> set (dkeys tags)" using that by (auto simp: dkeys_def image_iff intro: bexI[of _ "(k, v)"])
    then have "mem_eq (PStr k) wanted = wants_copy copy_tags k" using wanted(2) by blast
    then show ?thesis by (simp only: mem_eq_PStr dhas_def)
  qed
  then have "filter (\<lambda>(k, v). mem_eq (PStr k) wanted \<and> \<not> mem_eq (PStr k) (map PStr (dkeys user))) tags =
      filter (\<lambda>(k, v). wants_copy copy_tags k \<and> \<not> dhas user k) tags"
    by (intro filter_cong) auto
  then have "coalesce_copy_user_tags r copy_tags (PDict user) = Inr (tag_dicts ?out)"
    using assms(1,4) wanted(1)
    by (auto simp: coalesce_copy_user_tags_def user tag_list_def tag_dicts_keys(2) tag_dicts_filter tag_dicts_append)
  moreover have "dwf ?out"
    using assms(2,3) by (auto simp: dwf_def dkeys_def dhas_def distinct_map inj_on_def split_beta) force
  ultimately show ?thesis using dget_append_filter[of user "wants_copy copy_tags" tags] by auto
qed

definition ex_source :: pydict where
  "ex_source = [(''Tags'', PList (tag_dicts [(''App'', PStr ''web''), (''aws:x'', PStr ''1''), (''Env'', PStr ''prod'')]))]"

definition ex_user :: pydict where
  "ex_user = [(''Env'', PStr ''test'')]"

lemma coalesce_user_wins_witness:
  "\<exists>out. coalesce_copy_user_tags ex_source (PBool True) (PDict ex_user) = Inr (tag_dicts out)
    \<and> dget out ''Env'' = Some (PStr ''test'') \<and> dget out ''App'' = Some (PStr ''web'') \<and> dget out ''aws:x'' = None"
proof -
  have src: "dget_or ex_source ''Tags'' (PList []) =
      PList (tag_dicts [(''App'', PStr ''web''), (''aws:x'', PStr ''1''), (''Env'', PStr ''prod'')])"
    by (simp add: ex_source_def dget_or_def)
  have wants: "wants_copy (PBool True) ''App''" "\<not> wants_copy (PBool True) ''aws:x''" by code_simp+
  have "dwf [(''App'', PStr ''web''), (''aws:x'', PStr ''1''), (''Env'', PStr ''prod'')]" "dwf ex_user"
    by (simp_all add: dwf_def ex_user_def)
  from coalesce_user_wins[OF src this, of "PBool True"] obtain out where
    "coalesce_copy_user_tags ex_source (PBool True) (PDict ex_user) = Inr (tag_dicts out)"
    "\<forall>k. dget out k = (case dget ex_user k of Some v \<Rightarrow> Some v | None \<Rightarrow> if wants_copy (PBool True) k
       then dget [(''App'', PStr ''web''), (''aws:x'', PStr ''1''), (''Env'', PStr ''prod'')] k else None)"
    by auto
  with wants show ?thesis by (auto simp: ex_user_def)
qed

text \<open>Copying with \<open>*\<close> settles: once what is copied has been written, nothing is left to copy.\<close>

lemma copied_all:
  "copied_tags (PStr ''*'') own related =
     Inr (filter (\<lambda>(k, v). \<not> py_eq (dget_or own k PNone) v \<and> \<not> starts_with k ''aws:'') related)"
  unfolding copied_tags_def by (rule rfilter_pure) (auto simp: Let_def)

lemma copy_settles:
  assumes "dwf related" "list_all (\<lambda>(k, v). is_str v) related"
    and "copied_tags (PStr ''*'') own related = Inr c"
  shows "copied_tags (PStr ''*'') (dupdate own c) related = Inr []"
proof -
  have c: "c = filter (\<lambda>(k, v). \<not> py_eq (dget_or own k PNone) v \<and> \<not> starts_with k ''aws:'') related"
    using assms(3) by (simp add: copied_all)
  have wf: "dwf c" using assms(1) by (auto simp: c dwf_def dkeys_def distinct_map inj_on_def)
  have "py_eq (dget_or (dupdate own c) k PNone) v" if kv: "(k, v) \<in> set related" "\<not> starts_with k ''aws:''" for k v
  proof -
    obtain s where s: "v = PStr s" using assms(2) kv(1) by (cases v) (auto simp: list_all_iff is_str_def)
    have get: "dget related k = Some v" using assms(1) kv(1) by (simp add: dwf_def dkeys_def)
    show ?thesis
    proof (cases "py_eq (dget_or own k PNone) v")
      case True
      have "(k, x) \<notin> set c" for x
        using True eq_key_imp_eq_value[OF assms(1)[unfolded dwf_def dkeys_def] kv(1), of x] by (auto simp: c)
      then have "dget c k = None" by (auto simp: map_of_eq_None_iff)
      with True wf show ?thesis by (simp add: dget_or_def dget_dupdate map_add_def)
    next
      case False
      with kv have "(k, v) \<in> set c" by (simp add: c)
      with wf have "dget c k = Some v" by (simp add: dwf_def dkeys_def)
      with wf s show ?thesis by (simp add: dget_or_def dget_dupdate)
    qed
  qed
  then show ?thesis by (auto simp: copied_all filter_empty_conv)
qed

end
