(* ===== verification/SG_Actions.thy ===== *)
theory SG_Actions
  imports PyVal "HOL-Library.Multiset"
begin

text \<open>
  Changing the security groups of resources (\<open>c7n/actions/network.py\<close>): names resolved to
  the groups of a resource's network, symbolic names, groups chosen by tag, and the groups each
  resource is to have. The lists the code shares are written out: the groups to add may be the
  list in the policy's own data, and the groups to remove the very list they are removed from.
\<close>

section \<open>The groups a policy names\<close>

record sgroup =
  sg_name :: string
  sg_gid :: string
  sg_vpc :: string

definition SYMBOLIC_SGS :: "string list" where
  "SYMBOLIC_SGS = [''all'', ''matched'', ''network-location'']"

text \<open>\<open>_get_array\<close>: one string or a list of strings.\<close>

definition strings_of :: "pyval list \<Rightarrow> string list res" where
  "strings_of = rmap (\<lambda>v. case v of PStr s \<Rightarrow> Inr s | _ \<Rightarrow> Inl AttributeError)"

definition get_array :: "pydict \<Rightarrow> string \<Rightarrow> string list res" where
  "get_array data k = (case dget_or data k (PList []) of
      PStr s \<Rightarrow> Inr [s]
    | v \<Rightarrow> rbind (py_iter v) strings_of)"

definition get_group_names :: "string list \<Rightarrow> string list" where
  "get_group_names groups = filter (\<lambda>g. \<not> starts_with g ''sg-'' \<and> g \<notin> set SYMBOLIC_SGS) groups"

definition get_action_group_names :: "pydict \<Rightarrow> string list res" where
  "get_action_group_names data =
     rbind (get_array data ''add'') (\<lambda>a. rbind (get_array data ''remove'') (\<lambda>r. rbind (get_array data ''isolation-group'') (\<lambda>i.
       Inr (get_group_names (a @ r @ i)))))"

text \<open>
  \<open>validate\<close>: whether the resource has a \<open>security-group\<close> filter and a \<open>vpc\<close> filter with an
  expression for the related ids.
\<close>

definition sg_action_validate :: "bool \<Rightarrow> bool \<Rightarrow> pydict \<Rightarrow> unit res" where
  "sg_action_validate has_sg has_vpc data =
     (if \<not> has_sg then Inl PolicyValidationError
      else rbind (get_action_group_names data) (\<lambda>names.
        if names \<noteq> [] \<and> \<not> has_vpc then Inl PolicyValidationError
        else rbind (get_array data ''remove'') (\<lambda>r. rbind (get_array data ''isolation-group'') (\<lambda>i.
          if ''all'' \<in> set r \<and> i = [] then Inl PolicyValidationError else Inr ()))))"

text \<open>\<open>describe\<close> answers with the groups that have one of some names.\<close>

definition get_groups_by_names :: "(string list \<Rightarrow> sgroup list) \<Rightarrow> string list \<Rightarrow> sgroup list res" where
  "get_groups_by_names describe names =
     (if names = [] then Inr []
      else let sgs = describe names
           in if list_all (\<lambda>n. n \<in> set (map sg_name sgs)) names then Inr sgs else Inl PolicyExecutionError)"

section \<open>Names of one resource\<close>

text \<open>
  The loop keeps the group found for one name while it looks for the next. \<open>remove1\<close> is
  \<open>list.remove\<close>.
\<close>

fun resolve_names :: "sgroup list \<Rightarrow> string \<Rightarrow> string list \<Rightarrow> string option \<Rightarrow> string list \<Rightarrow> string list res" where
  "resolve_names groups vpc [] found ids = Inr ids"
| "resolve_names groups vpc (n # ns) found ids =
     (case fold (\<lambda>g f. if sg_name g = n \<and> sg_vpc g = vpc then Some (sg_gid g) else f) groups found of
        None \<Rightarrow> Inl PolicyExecutionError
      | Some i \<Rightarrow> resolve_names groups vpc ns (Some i) (remove1 n ids @ [i]))"

definition resolve_group_names :: "(pydict \<Rightarrow> pyval res) \<Rightarrow> sgroup list \<Rightarrow> pydict \<Rightarrow> string list \<Rightarrow> string list res" where
  "resolve_group_names vpc_expr groups r ids =
     (let names = get_group_names ids
      in if names = [] then Inr ids
         else rbind (vpc_expr r) (\<lambda>vpc.
           if \<not> py_truth vpc then Inl PolicyExecutionError
           else case vpc of
               PStr v \<Rightarrow> resolve_names groups v names None ids
             | _ \<Rightarrow> Inl PolicyExecutionError))"

text \<open>The groups to remove: those of the resource itself, or some ids.\<close>

datatype removed_groups = Own | Ids "string list"

definition location_groups :: "pydict \<Rightarrow> string list option res" where
  "location_groups r =
     rbind (py_iter (dget_or r ''c7n:NetworkLocation'' (PTuple []))) (\<lambda>reasons.
     rbind (rfilter (\<lambda>x. case x of PDict d \<Rightarrow> rbind (dindex d ''reason'') (\<lambda>v. Inr (py_eq v (PStr ''SecurityGroupMismatch'')))
                                | _ \<Rightarrow> Inl TypeError) reasons) (\<lambda>found.
     case found of
       PDict d # _ \<Rightarrow> rbind (dindex d ''security-groups'') (\<lambda>g. rbind (py_iter g) (\<lambda>gs. rbind (strings_of gs) (\<lambda>ids. Inr (Some ids))))
     | _ \<Rightarrow> Inr None))"

definition resolve_remove_symbols :: "pydict \<Rightarrow> string list \<Rightarrow> removed_groups res" where
  "resolve_remove_symbols r ids =
     (if ''matched'' \<in> set ids
      then rbind (py_iter (dget_or r ''c7n:matched-security-groups'' (PTuple []))) (\<lambda>gs. rbind (strings_of gs) (\<lambda>m. Inr (Ids m)))
      else if ''network-location'' \<in> set ids
      then rbind (location_groups r) (\<lambda>g. Inr (Ids (case g of None \<Rightarrow> ids | Some m \<Rightarrow> m)))
      else if ''all'' \<in> set ids then Inr Own
      else Inr (Ids ids))"

text \<open>
  Removing from the list that is being walked: after each step the next element has moved into
  the place of the one removed.
\<close>

function remove_own :: "nat \<Rightarrow> 'a list \<Rightarrow> 'a list" where
  "remove_own i gs = (if i < length gs then remove_own (Suc i) (remove1 (gs ! i) gs) else gs)"
  by pat_completeness auto

termination
  by (relation "measure (\<lambda>(i, gs). length gs - i)") (auto simp: length_remove1)

declare remove_own.simps [simp del]

definition remove_groups :: "removed_groups \<Rightarrow> string list \<Rightarrow> string list" where
  "remove_groups rm gs = (case rm of
      Own \<Rightarrow> remove_own 0 gs
    | Ids ids \<Rightarrow> fold remove1 ids gs)"

definition add_missing :: "string list \<Rightarrow> string list \<Rightarrow> string list" where
  "add_missing new gs = fold (\<lambda>g gs. if g \<in> set gs then gs else gs @ [g]) new gs"

text \<open>The groups one resource is to have, from what is to be added, removed and put instead.\<close>

definition new_groups :: "string list \<Rightarrow> removed_groups \<Rightarrow> string list \<Rightarrow> string list \<Rightarrow> string list" where
  "new_groups add rm isolation gs =
     (let left = add_missing add (remove_groups rm gs) in if left = [] then isolation else left)"

section \<open>All resources\<close>

text \<open>
  \<open>sg_expr\<close> and \<open>vpc_expr\<close> search a resource for its groups and its network. The groups found
  by tag are appended to the list of groups to add; without names to resolve that is the list in
  the policy's data, when it has one, and the next resource sees it so.
\<close>

definition vpc_groups :: "(pydict \<Rightarrow> pyval res) \<Rightarrow> sgroup list \<Rightarrow> pydict \<Rightarrow> string list res" where
  "vpc_groups vpc_expr tagged r =
     rbind (rfilter (\<lambda>g. rbind (vpc_expr r) (\<lambda>v. Inr (py_eq (PStr (sg_vpc g)) v))) tagged) (\<lambda>gs. Inr (map sg_gid gs))"

definition resource_groups ::
  "(pydict \<Rightarrow> pyval res) \<Rightarrow> (pydict \<Rightarrow> pyval res) \<Rightarrow> sgroup list \<Rightarrow> sgroup list \<Rightarrow> pydict \<Rightarrow> pydict \<Rightarrow> (string list \<times> pydict) res" where
  "resource_groups sg_expr vpc_expr groups tagged r data =
     rbind (sg_expr r) (\<lambda>v.
     rbind (if py_truth v then rbind (py_iter v) strings_of else Inr []) (\<lambda>gs.
     rbind (get_array data ''add'') (\<lambda>add_data.
     rbind (resolve_group_names vpc_expr groups r add_data) (\<lambda>add.
     rbind (get_array data ''remove'') (\<lambda>remove.
     rbind (resolve_group_names vpc_expr groups r remove) (\<lambda>remove.
     rbind (resolve_remove_symbols r remove) (\<lambda>rm.
     rbind (get_array data ''isolation-group'') (\<lambda>isolation.
     rbind (resolve_group_names vpc_expr groups r isolation) (\<lambda>isolation.
     rbind (vpc_groups vpc_expr tagged r) (\<lambda>by_tag.
     let shared = (get_group_names add_data = [] \<and> is_list (dget_or data ''add'' PNone));
         data' = (if shared then dput ''add'' (PList (map PStr (add @ by_tag))) data else data)
     in Inr (new_groups (add @ by_tag) rm isolation gs, data')))))))))))"

fun groups_in_turn ::
  "(pydict \<Rightarrow> pydict \<Rightarrow> (string list \<times> pydict) res) \<Rightarrow> pydict list \<Rightarrow> pydict \<Rightarrow> (string list list \<times> pydict) res" where
  "groups_in_turn f [] data = Inr ([], data)"
| "groups_in_turn f (r # rs) data =
     rbind (f r data) (\<lambda>(gs, data'). rbind (groups_in_turn f rs data') (\<lambda>(gss, data''). Inr (gs # gss, data'')))"

text \<open>\<open>get_groups\<close>, with what \<open>describe_security_groups\<close> answers for names and for a tag.\<close>

definition get_groups ::
  "(string list \<Rightarrow> sgroup list) \<Rightarrow> (pyval \<Rightarrow> pyval \<Rightarrow> sgroup list res) \<Rightarrow> (pydict \<Rightarrow> pyval res) \<Rightarrow> (pydict \<Rightarrow> pyval res) \<Rightarrow>
   pydict \<Rightarrow> pydict list \<Rightarrow> (string list list \<times> pydict) res" where
  "get_groups by_name by_tag sg_expr vpc_expr data rs =
     rbind (rbind (get_action_group_names data) (get_groups_by_names by_name)) (\<lambda>groups.
     rbind (case dget_or data ''add-by-tag'' (PList []) of
         PDict t \<Rightarrow> if t = [] then Inr [] else rbind (dindex t ''key'') (\<lambda>k. rbind (dindex t ''values'') (by_tag k))
       | v \<Rightarrow> if py_truth v then Inl TypeError else Inr []) (\<lambda>tagged.
     groups_in_turn (resource_groups sg_expr vpc_expr groups tagged) rs data))"

section \<open>Facts\<close>

text \<open>The id a name or id stands for in a network: that of the last group with the name.\<close>

definition named_group :: "sgroup list \<Rightarrow> string \<Rightarrow> string \<Rightarrow> string" where
  "named_group groups vpc n =
     (if get_group_names [n] = [] then n else sg_gid (last (filter (\<lambda>g. sg_name g = n \<and> sg_vpc g = vpc) groups)))"

definition resolves :: "sgroup list \<Rightarrow> string \<Rightarrow> string list \<Rightarrow> bool" where
  "resolves groups vpc ids =
     list_all (\<lambda>n. list_ex (\<lambda>g. sg_name g = n \<and> sg_vpc g = vpc) groups) (get_group_names ids)"

lemma found_group:
  "fold (\<lambda>g f. if sg_name g = n \<and> sg_vpc g = vpc then Some (sg_gid g) else f) groups found =
     (case filter (\<lambda>g. sg_name g = n \<and> sg_vpc g = vpc) groups of [] \<Rightarrow> found | gs \<Rightarrow> Some (sg_gid (last gs)))"
  by (induction groups arbitrary: found) (auto split: list.splits)

lemma names_filter: "n \<in> set (get_group_names ids) \<Longrightarrow> get_group_names [n] = [n] \<and> n \<in> set ids"
  by (simp add: get_group_names_def)

lemma resolve_names_mset:
  assumes "list_all (\<lambda>n. list_ex (\<lambda>g. sg_name g = n \<and> sg_vpc g = vpc) groups \<and> get_group_names [n] = [n]) ns"
    and "mset ns \<subseteq># mset ids"
  shows "\<exists>out. resolve_names groups vpc ns found ids = Inr out \<and>
    mset out = mset ids - mset ns + mset (map (named_group groups vpc) ns)"
  using assms
proof (induction ns arbitrary: found ids)
  case (Cons n ns)
  have "filter (\<lambda>g. sg_name g = n \<and> sg_vpc g = vpc) groups \<noteq> []"
    using Cons.prems(1) by (auto simp: list_ex_iff filter_empty_conv)
  then have found: "fold (\<lambda>g f. if sg_name g = n \<and> sg_vpc g = vpc then Some (sg_gid g) else f) groups found =
      Some (named_group groups vpc n)"
    using Cons.prems(1) by (auto simp: found_group named_group_def split: list.splits)
  have n: "n \<in># mset ids" "mset ns \<subseteq># mset ids - {#n#}"
    using Cons.prems(2) by (auto simp: insert_subset_eq_iff)
  then have sub: "mset ns \<subseteq># mset (remove1 n ids @ [named_group groups vpc n])"
    using subset_mset.order_trans[OF n(2), of "add_mset (named_group groups vpc n) (mset ids - {#n#})"] by simp
  from Cons.IH[OF _ sub] Cons.prems(1) obtain out where
    "resolve_names groups vpc ns (Some (named_group groups vpc n)) (remove1 n ids @ [named_group groups vpc n]) = Inr out"
    "mset out = mset (remove1 n ids @ [named_group groups vpc n]) - mset ns + mset (map (named_group groups vpc) ns)"
    by fastforce
  moreover have "add_mset (named_group groups vpc n) (mset ids - {#n#}) - mset ns =
      add_mset (named_group groups vpc n) (mset ids - add_mset n (mset ns))"
    using subset_mset.diff_add_assoc2[OF n(2), of "{#named_group groups vpc n#}"] by simp
  ultimately show ?case using found n by simp
qed simp

lemma resolve_group_names_set:
  assumes "vpc_expr r = Inr (PStr vpc)" "vpc \<noteq> []" "resolves groups vpc ids"
  shows "\<exists>out. resolve_group_names vpc_expr groups r ids = Inr out \<and> set out = named_group groups vpc ` set ids"
proof (cases "get_group_names ids = []")
  case True
  then have "named_group groups vpc n = n" if "n \<in> set ids" for n
    using that by (auto simp: named_group_def get_group_names_def filter_empty_conv)
  with True show ?thesis by (auto simp: resolve_group_names_def image_iff)
next
  case False
  let ?ns = "get_group_names ids"
  have names: "list_all (\<lambda>n. list_ex (\<lambda>g. sg_name g = n \<and> sg_vpc g = vpc) groups \<and> get_group_names [n] = [n]) ?ns"
    using assms(3) names_filter[of _ ids] by (simp add: resolves_def list_all_iff)
  have sub: "mset ?ns \<subseteq># mset ids" by (simp add: get_group_names_def multiset_filter_subset)
  from resolve_names_mset[OF names sub] obtain out where out: "resolve_names groups vpc ?ns None ids = Inr out"
    "mset out = mset ids - mset ?ns + mset (map (named_group groups vpc) ?ns)" by blast
  have "mset ids - mset ?ns = mset (filter (\<lambda>n. get_group_names [n] = []) ids)"
  proof -
    have "mset ids = mset ?ns + mset (filter (\<lambda>n. get_group_names [n] = []) ids)"
      by (induction ids) (auto simp: get_group_names_def)
    then show ?thesis by (simp only: add_diff_cancel_left')
  qed
  with out(2) have "set out = set (filter (\<lambda>n. get_group_names [n] = []) ids) \<union> named_group groups vpc ` set ?ns"
    using mset_eq_setD[of out "filter (\<lambda>n. get_group_names [n] = []) ids @ map (named_group groups vpc) ?ns"] by simp
  also have "\<dots> = named_group groups vpc ` set ids"
    by (auto simp: named_group_def get_group_names_def image_iff split: if_splits)
  finally show ?thesis using out(1) False assms by (auto simp: resolve_group_names_def)
qed

lemma set_fold_remove1: "distinct gs \<Longrightarrow> distinct (fold remove1 ids gs) \<and> set (fold remove1 ids gs) = set gs - set ids"
  by (induction ids arbitrary: gs) auto

lemma set_add_missing: "distinct gs \<Longrightarrow> distinct (add_missing new gs) \<and> set (add_missing new gs) = set gs \<union> set new"
  unfolding add_missing_def by (induction new arbitrary: gs) auto

lemma add_missing_set: "set (add_missing new gs) = set gs \<union> set new"
  unfolding add_missing_def by (induction new arbitrary: gs) auto

text \<open>C35: The groups a resource is given: when every name the action uses resolves in the network of
  the resource and no symbolic name is removed, they are its own, less those removed, with
  those added by id, name or tag of its network, and the isolation groups when that leaves none.
\<close>

theorem groups_assigned:
  assumes "get_array data ''add'' = Inr add" "get_array data ''remove'' = Inr remove" "get_array data ''isolation-group'' = Inr isolation"
    and "list_all (\<lambda>n. named_group groups vpc n \<notin> set SYMBOLIC_SGS) remove"
    and "sg_expr r = Inr (PList (map PStr gs))" "distinct gs" "vpc_expr r = Inr (PStr vpc)" "vpc \<noteq> []"
    and "resolves groups vpc add" "resolves groups vpc remove" "resolves groups vpc isolation"
  shows "\<exists>out data'. resource_groups sg_expr vpc_expr groups tagged r data = Inr (out, data') \<and>
    set out = (let left = set gs - named_group groups vpc ` set remove \<union> named_group groups vpc ` set add
                      \<union> sg_gid ` {g \<in> set tagged. sg_vpc g = vpc}
               in if left = {} then named_group groups vpc ` set isolation else left)"
proof -
  note resolved = resolve_group_names_set[of vpc_expr r vpc, OF assms(7,8)]
  obtain add' where add': "resolve_group_names vpc_expr groups r add = Inr add'" "set add' = named_group groups vpc ` set add"
    using resolved[OF assms(9)] by blast
  obtain remove' where rm: "resolve_group_names vpc_expr groups r remove = Inr remove'" "set remove' = named_group groups vpc ` set remove"
    using resolved[OF assms(10)] by blast
  obtain iso' where iso: "resolve_group_names vpc_expr groups r isolation = Inr iso'" "set iso' = named_group groups vpc ` set isolation"
    using resolved[OF assms(11)] by blast
  have plain: "n \<notin> set SYMBOLIC_SGS" if "n \<in> set remove'" for n
    using that rm(2) assms(4) by (auto simp: list_all_iff)
  have symbols: "resolve_remove_symbols r remove' = Inr (Ids remove')"
    using plain[of "''matched''"] plain[of "''network-location''"] plain[of "''all''"]
    by (auto simp: resolve_remove_symbols_def SYMBOLIC_SGS_def)
  have by_tag: "vpc_groups vpc_expr tagged r = Inr (map sg_gid (filter (\<lambda>g. sg_vpc g = vpc) tagged))"
  proof -
    have "rfilter (\<lambda>g. rbind (vpc_expr r) (\<lambda>v. Inr (py_eq (PStr (sg_vpc g)) v))) tagged = Inr (filter (\<lambda>g. sg_vpc g = vpc) tagged)"
      by (rule rfilter_pure) (simp add: assms(7))
    then show ?thesis by (simp add: vpc_groups_def)
  qed
  have strs: "strings_of (map PStr gs) = Inr gs" unfolding strings_of_def by (induction gs) auto
  then have own: "(if py_truth (PList (map PStr gs)) then rbind (py_iter (PList (map PStr gs))) strings_of else Inr []) = Inr gs"
    by simp
  let ?out = "new_groups (add' @ map sg_gid (filter (\<lambda>g. sg_vpc g = vpc) tagged)) (Ids remove') iso' gs"
  have "\<exists>data'. resource_groups sg_expr vpc_expr groups tagged r data = Inr (?out, data')"
    by (simp add: resource_groups_def assms(1,2,3,5) own add'(1) rm(1) iso(1) symbols by_tag Let_def del: py_iter.simps py_truth.simps)
  moreover have "set ?out = (let left = set gs - named_group groups vpc ` set remove \<union> named_group groups vpc ` set add
                      \<union> sg_gid ` {g \<in> set tagged. sg_vpc g = vpc}
               in if left = {} then named_group groups vpc ` set isolation else left)"
    using set_fold_remove1[OF assms(6), of remove'] add'(2) rm(2) iso(2)
    by (auto simp: new_groups_def remove_groups_def add_missing_set Let_def simp flip: set_empty)
  ultimately show ?thesis by blast
qed

definition ex_groups_known :: "sgroup list" where
  "ex_groups_known = [\<lparr>sg_name = ''web'', sg_gid = ''sg-1'', sg_vpc = ''vpc-a''\<rparr>, \<lparr>sg_name = ''web'', sg_gid = ''sg-2'', sg_vpc = ''vpc-b''\<rparr>]"

definition ex_sg_data :: pydict where
  "ex_sg_data = [(''add'', PStr ''web''), (''remove'', PList [PStr ''sg-9''])]"

definition ex_sg_search :: "string \<Rightarrow> pydict \<Rightarrow> pyval res" where
  "ex_sg_search k r = Inr (dget_or r k PNone)"

definition ex_instance :: pydict where
  "ex_instance = [(''Groups'', PList (map PStr [''sg-9'', ''sg-5''])), (''VpcId'', PStr ''vpc-b'')]"

lemma groups_assigned_witness:
  "\<exists>out data'. resource_groups (ex_sg_search ''Groups'') (ex_sg_search ''VpcId'') ex_groups_known [] ex_instance ex_sg_data
      = Inr (out, data') \<and> set out = {''sg-5'', ''sg-2''}"
proof -
  have data: "get_array ex_sg_data ''add'' = Inr [''web'']" "get_array ex_sg_data ''remove'' = Inr [''sg-9'']"
      "get_array ex_sg_data ''isolation-group'' = Inr []"
    by code_simp+
  have search: "ex_sg_search ''Groups'' ex_instance = Inr (PList (map PStr [''sg-9'', ''sg-5'']))"
      "ex_sg_search ''VpcId'' ex_instance = Inr (PStr ''vpc-b'')"
    by (simp_all add: ex_sg_search_def ex_instance_def dget_or_def)
  have ids: "named_group ex_groups_known ''vpc-b'' ''web'' = ''sg-2''" "named_group ex_groups_known ''vpc-b'' ''sg-9'' = ''sg-9''"
    by code_simp+
  have names: "resolves ex_groups_known ''vpc-b'' [''web'']" "resolves ex_groups_known ''vpc-b'' [''sg-9'']" "resolves ex_groups_known ''vpc-b'' []"
    by code_simp+
  have "list_all (\<lambda>n. named_group ex_groups_known ''vpc-b'' n \<notin> set SYMBOLIC_SGS) [''sg-9'']"
    by (simp add: ids SYMBOLIC_SGS_def)
  from groups_assigned[where sg_expr = "ex_sg_search ''Groups''" and vpc_expr = "ex_sg_search ''VpcId''" and r = ex_instance
      and tagged = "[]", OF data this search(1) _ search(2) _ names] show ?thesis
    by (simp add: ids insert_Diff_if insert_commute)
qed

text \<open>What is left when a list is walked while its elements are removed.\<close>

fun every_second :: "'a list \<Rightarrow> 'a list" where
  "every_second (a # b # xs) = b # every_second xs"
| "every_second xs = []"

lemma remove_own_few: "remove_own (length p) p = p" "a \<notin> set p \<Longrightarrow> remove_own (length p) (p @ [a]) = p"
proof -
  have past: "length p \<le> i \<Longrightarrow> remove_own i p = p" for p :: "'a list" and i by (subst remove_own.simps) simp
  show "remove_own (length p) p = p" by (simp add: past)
  assume "a \<notin> set p"
  then have "remove1 a (p @ [a]) = p" by (simp add: remove1_append)
  then show "remove_own (length p) (p @ [a]) = p"
    by (subst remove_own.simps) (simp add: nth_append past)
qed

lemma remove_own_second: "distinct (p @ gs) \<Longrightarrow> remove_own (length p) (p @ gs) = p @ every_second gs"
proof (induction gs arbitrary: p rule: every_second.induct)
  case (1 a b xs)
  have "remove1 a (p @ a # b # xs) = p @ b # xs" using "1.prems" by (simp add: remove1_append)
  then have "remove_own (length p) (p @ a # b # xs) = remove_own (length (p @ [b])) ((p @ [b]) @ xs)"
    by (subst remove_own.simps) (simp add: nth_append)
  also have "\<dots> = (p @ [b]) @ every_second xs"
    by (rule "1.IH") (use "1.prems" in auto)
  finally show ?case by simp
qed (auto simp: remove_own_few)

text \<open>C40: Removing all groups of a resource does not: every second of its groups is left, and the
  isolation groups are put in place only when it had at most one.
\<close>

theorem remove_all_leaves_half:
  assumes "distinct gs"
  shows "new_groups [] Own isolation gs = (if length gs \<le> 1 then isolation else every_second gs)"
  using remove_own_second[of "[]" gs] assms
  by (cases gs rule: every_second.cases) (auto simp: new_groups_def remove_groups_def add_missing_def Let_def)

lemma remove_all_leaves_half_witness:
  "new_groups [] Own [''sg-iso''] [''sg-1'', ''sg-2'', ''sg-3''] = [''sg-2'']"
  using remove_all_leaves_half[of "[''sg-1'', ''sg-2'', ''sg-3'']" "[''sg-iso'']"] by simp

text \<open>
  A name without a group in the resource's network is given the id of the name before it; and the
  groups found by tag for one resource are added to the next, whatever its network.
\<close>

lemma stale_group:
  assumes "list_ex (\<lambda>g. sg_name g = n \<and> sg_vpc g = vpc) groups" "\<not> list_ex (\<lambda>g. sg_name g = m \<and> sg_vpc g = vpc) groups" "n \<noteq> m"
  shows "\<exists>i. resolve_names groups vpc [n, m] None [n, m] = Inr [i, i]"
proof -
  let ?of = "\<lambda>n. filter (\<lambda>g. sg_name g = n \<and> sg_vpc g = vpc) groups"
  have "?of m = []" using assms(2) by (auto simp: filter_empty_conv list_ex_iff)
  moreover have "?of n \<noteq> []" using assms(1) by (auto simp: filter_empty_conv list_ex_iff)
  ultimately show ?thesis using assms(3) by (auto simp: found_group split: list.splits)
qed

definition ex_tagged :: "sgroup list" where
  "ex_tagged = [\<lparr>sg_name = ''a'', sg_gid = ''sg-a'', sg_vpc = ''vpc-a''\<rparr>, \<lparr>sg_name = ''b'', sg_gid = ''sg-b'', sg_vpc = ''vpc-b''\<rparr>]"

definition ex_add_data :: pydict where
  "ex_add_data = [(''add'', PList [PStr ''sg-x'']), (''add-by-tag'', PDict [(''key'', PStr ''env''), (''values'', PList [PStr ''prod''])])]"

definition ex_in :: "string \<Rightarrow> pydict" where
  "ex_in vpc = [(''Groups'', PList []), (''VpcId'', PStr vpc)]"

lemma tagged_groups_leak:
  "rbind (get_groups (\<lambda>ns. []) (\<lambda>k v. Inr ex_tagged) (ex_sg_search ''Groups'') (ex_sg_search ''VpcId'') ex_add_data [ex_in ''vpc-a'', ex_in ''vpc-b''])
     (\<lambda>(gss, data). Inr gss) = Inr [[''sg-x'', ''sg-a''], [''sg-x'', ''sg-a'', ''sg-b'']]"
  by code_simp

end
