(* ===== verification/Statements.thy ===== *)
theory Statements
  imports Utils_Data "HOL-Library.Multiset"
begin

text \<open>
  Statements of resource policies: finding resources that have some
  (\<open>c7n/filters/policystatement.py\<close>, with the comparison of values as sets of
  \<open>c7n/utils.py\<close>), and removing and adding them (\<open>c7n/actions/policy.py\<close>).
\<close>

section \<open>Values as sets\<close>

text \<open>What comparing statements makes of their values.\<close>

datatype sval = SSet "pyval list" | SDict "(string \<times> sval) list" | SVal pyval

fun sv_eq :: "sval \<Rightarrow> sval \<Rightarrow> bool" where
  "sv_eq (SSet xs) y = (case y of SSet ys \<Rightarrow> same_set xs ys | _ \<Rightarrow> False)"
| "sv_eq (SDict a) y = (case y of
      SDict b \<Rightarrow> length a = length b \<and> list_all (\<lambda>(k, v). case dget b k of None \<Rightarrow> False | Some w \<Rightarrow> sv_eq v w) a
    | _ \<Rightarrow> False)"
| "sv_eq (SVal x) y = (case y of SVal z \<Rightarrow> py_eq x z | _ \<Rightarrow> False)"

definition set_of_list :: "pyval list \<Rightarrow> sval res" where
  "set_of_list xs = (if list_all hashable xs then Inr (SSet xs) else Inl TypeError)"

definition format_to_set :: "pyval \<Rightarrow> sval res" where
  "format_to_set x = (case x of
      PStr s \<Rightarrow> Inr (SSet [x])
    | PList xs \<Rightarrow> set_of_list xs
    | _ \<Rightarrow> Inr (SVal x))"

function format_dict_with_sets :: "pydict \<Rightarrow> (string \<times> sval) list res" where
  "format_dict_with_sets [] = Inr []"
| "format_dict_with_sets ((k, v) # d) =
     rbind (case v of
         PDict e \<Rightarrow> rbind (format_dict_with_sets e) (\<lambda>f. Inr (SDict f))
       | _ \<Rightarrow> format_to_set v) (\<lambda>w.
     rbind (format_dict_with_sets d) (\<lambda>r. Inr ((k, w) # r)))"
  by pat_completeness auto
termination by (relation "measure (\<lambda>d. size (PDict d))") auto

definition as_sets :: "pyval \<Rightarrow> sval res" where
  "as_sets v = (case v of PDict d \<Rightarrow> rbind (format_dict_with_sets d) (\<lambda>e. Inr (SDict e)) | _ \<Rightarrow> format_to_set v)"

text \<open>
  \<open>compare_dicts_using_sets\<close> of \<open>a\<close> with \<open>b\<close>, one entry of \<open>b\<close> at a time: a list on either side
  makes a set of it and of a string on the other.
\<close>

function compare_entries :: "pydict \<Rightarrow> pydict \<Rightarrow> bool res" where
  "compare_entries a [] = Inr True"
| "compare_entries a ((k, v) # b) =
     rbind (dindex a k) (\<lambda>w.
     rbind (case (w, v) of
         (PDict x, PDict y) \<Rightarrow>
           if set (dkeys x) \<noteq> set (dkeys y) then Inr (py_eq v w)
           else rbind (compare_entries x y) (\<lambda>c. Inr (c \<or> py_eq v w))
       | _ \<Rightarrow> if is_list v \<or> is_list w
              then rbind (format_to_set w) (\<lambda>x. rbind (format_to_set v) (\<lambda>y. Inr (sv_eq y x)))
              else Inr (py_eq v w)) (\<lambda>c.
     if c then compare_entries a b else Inr False))"
  by pat_completeness auto
termination by (relation "measure (\<lambda>(a, b). size (PDict b))") auto

definition compare_dicts_using_sets :: "pydict \<Rightarrow> pydict \<Rightarrow> bool res" where
  "compare_dicts_using_sets a b =
     (if set (dkeys a) \<noteq> set (dkeys b) then Inr False else compare_entries a b)"

section \<open>Finding statements\<close>

text \<open>\<open>action_resource_case_insensitive\<close>: a set of names in lower case.\<close>

definition lower_all :: "pyval \<Rightarrow> pyval list res" where
  "lower_all actions =
     (let low = (\<lambda>v. case v of PStr s \<Rightarrow> Inr (PStr (lower s)) | _ \<Rightarrow> Inl AttributeError)
      in case actions of
           PStr s \<Rightarrow> Inr [PStr (lower s)]
         | v \<Rightarrow> rbind (py_iter v) (rmap low))"

function normalize_condition_keys :: "pyval \<Rightarrow> pyval"
  and normalize_entries :: "pydict \<Rightarrow> pydict \<Rightarrow> pydict"
  and normalize_each :: "pyval list \<Rightarrow> pyval list" where
  "normalize_condition_keys v = (case v of
      PDict d \<Rightarrow> PDict (normalize_entries [] d)
    | PList xs \<Rightarrow> PList (normalize_each xs)
    | _ \<Rightarrow> v)"
| "normalize_entries acc [] = acc"
| "normalize_entries acc ((k, v) # d) = normalize_entries (dput (lower k) (normalize_condition_keys v) acc) d"
| "normalize_each [] = []"
| "normalize_each (x # xs) = normalize_condition_keys x # normalize_each xs"
  by pat_completeness auto
termination
  by (relation "measure (\<lambda>x. case x of
        Inl v \<Rightarrow> 2 * size v
      | Inr (Inl (acc, d)) \<Rightarrow> 2 * size (PDict d) - 1
      | Inr (Inr xs) \<Rightarrow> 2 * size (PList xs) - 1)") auto

definition normalize_statement_value :: "string \<Rightarrow> pyval \<Rightarrow> pyval" where
  "normalize_statement_value key v = (if key = ''Condition'' then normalize_condition_keys v else v)"

definition is_action_key :: "string \<Rightarrow> bool" where
  "is_action_key key \<longleftrightarrow> key = ''Action'' \<or> key = ''NotAction''"

text \<open>
  \<open>__match_partial_statement\<close> on a value and the value the statement has under the key: a list
  or an action must be part of it, a dictionary must merge into it, anything else be in it.
\<close>

definition as_members :: "pyval \<Rightarrow> pyval list res" where
  "as_members v = (case v of
      PStr s \<Rightarrow> Inr [v]
    | _ \<Rightarrow> rbind (py_iter v) (\<lambda>xs. if list_all hashable xs then Inr xs else Inl TypeError))"

definition match_partial :: "string \<Rightarrow> pyval \<Rightarrow> pyval \<Rightarrow> bool res" where
  "match_partial key v stmt_v =
     (let req = normalize_statement_value key v; held = normalize_statement_value key stmt_v
      in if is_action_key key
         then rbind (lower_all held) (\<lambda>hs. rbind (lower_all req) (\<lambda>rs. Inr (subset_of rs hs)))
         else case req of
             PList xs \<Rightarrow> rbind (as_members held) (\<lambda>hs. if list_all hashable xs then Inr (subset_of xs hs) else Inl TypeError)
           | PDict d \<Rightarrow> (case held of
               PDict h \<Rightarrow> rbind (merge_dict h d) (\<lambda>m. compare_dicts_using_sets m h)
             | _ \<Rightarrow> Inl AttributeError)
           | _ \<Rightarrow> (case held of
               PStr s \<Rightarrow> if hashable req then Inr (mem_eq req [held]) else Inl TypeError
             | PList hs \<Rightarrow> if list_all hashable hs \<and> hashable req then Inr (mem_eq req hs) else Inl TypeError
             | _ \<Rightarrow> py_in req held))"

text \<open>One key of a required statement against a statement of the resource.\<close>

definition match_exact :: "string \<Rightarrow> pyval \<Rightarrow> pydict \<Rightarrow> bool res" where
  "match_exact key v stmt = (case dget stmt key of
      None \<Rightarrow> Inr (py_eq (normalize_statement_value key v) PNone)
    | Some w \<Rightarrow>
        if is_action_key key then rbind (lower_all w) (\<lambda>ws. rbind (lower_all v) (\<lambda>vs. Inr (same_set vs ws)))
        else rbind (as_sets (normalize_statement_value key v)) (\<lambda>x.
             rbind (as_sets (normalize_statement_value key w)) (\<lambda>y. Inr (sv_eq x y))))"

definition match_key :: "string list \<Rightarrow> pydict \<Rightarrow> string \<times> pyval \<Rightarrow> bool res" where
  "match_key partials stmt kv = (case kv of (key, v) \<Rightarrow>
     if key \<in> set partials
     then (case dget stmt key of None \<Rightarrow> Inr False | Some w \<Rightarrow> match_partial key v w)
     else match_exact key v stmt)"

text \<open>
  Every key is compared, and all must match. (An action of the statement is also put in lower
  case when the key is a partial one, as \<open>match_partial\<close> does.)
\<close>

definition match_statement :: "string list \<Rightarrow> pydict \<Rightarrow> pyval \<Rightarrow> bool res" where
  "match_statement partials req stmt = (case stmt of
      PDict s \<Rightarrow> rbind (rmap (match_key partials s) req) (\<lambda>bs. Inr (bs \<noteq> [] \<and> list_all id bs))
    | _ \<Rightarrow> if req = [] then Inr False else Inl AttributeError)"

definition partial_elements :: "pydict \<Rightarrow> string list res" where
  "partial_elements req = (case dget_or req ''PartialMatch'' (PList []) of
      PStr s \<Rightarrow> Inr [s]
    | v \<Rightarrow> rbind (py_iter v) (\<lambda>xs. Inr (concat (map (\<lambda>x. case x of PStr s \<Rightarrow> [s] | _ \<Rightarrow> []) xs))))"

definition find_statement :: "pyval list \<Rightarrow> pyval \<Rightarrow> bool res" where
  "find_statement stmts req = (case req of
      PDict r \<Rightarrow> rbind (partial_elements r) (\<lambda>partials.
        rany (match_statement partials (ddel ''PartialMatch'' r)) stmts)
    | _ \<Rightarrow> Inl AttributeError)"

text \<open>The required ids that no statement has: each statement takes one of them away.\<close>

fun take_ids :: "pyval list \<Rightarrow> pyval list \<Rightarrow> pyval list res" where
  "take_ids [] ids = Inr ids"
| "take_ids (s # ss) ids = (case s of
      PDict d \<Rightarrow> (let sid = dget_or d ''Sid'' PNone;
                      before = takeWhile (\<lambda>i. \<not> py_eq i sid) ids;
                      after = dropWhile (\<lambda>i. \<not> py_eq i sid) ids
                  in take_ids ss (before @ tl after))
    | _ \<Rightarrow> Inl AttributeError)"

text \<open>
  \<open>process_resource\<close>: \<open>loads\<close> reads a document, \<open>fmt\<close> puts the values of a run into the required
  statements. The statements found are the required ones, in order, exactly when each was found.
\<close>

definition has_statement ::
  "(pyval \<Rightarrow> pyval res) \<Rightarrow> (string \<Rightarrow> pyval res) \<Rightarrow> string \<Rightarrow> pydict \<Rightarrow> pydict \<Rightarrow> bool res" where
  "has_statement loads fmt policy_attribute data r = (case dget_or r policy_attribute PNone of
      PNone \<Rightarrow> Inr False
    | text \<Rightarrow>
        rbind (loads text) (\<lambda>p. case p of
          PDict d \<Rightarrow>
            rbind (py_iter (dget_or data ''statement_ids'' (PList []))) (\<lambda>ids.
            rbind (py_iter (dget_or d ''Statement'' (PList []))) (\<lambda>stmts.
            rbind (take_ids stmts ids) (\<lambda>missing.
            rbind (py_iter (dget_or data ''statements'' (PList []))) (\<lambda>req.
            rbind (format_values fmt (PList req)) (\<lambda>req.
            rbind (py_iter req) (\<lambda>req.
            rbind (rmap (find_statement stmts) req) (\<lambda>found.
              Inr (missing = [] \<and> list_all id found))))))))
        | _ \<Rightarrow> Inl AttributeError))"

definition has_statement_process ::
  "(pyval \<Rightarrow> pyval res) \<Rightarrow> (string \<Rightarrow> pyval res) \<Rightarrow> string \<Rightarrow> pydict \<Rightarrow> pydict list \<Rightarrow> pydict list res" where
  "has_statement_process loads fmt policy_attribute data rs =
     rbind (rfilter (has_statement loads fmt policy_attribute data) rs) (\<lambda>found. Inr (filter (\<lambda>r. r \<noteq> []) found))"

section \<open>Removing and adding statements\<close>

text \<open>\<open>list.remove\<close>: the first equal element goes.\<close>

fun premove :: "pyval \<Rightarrow> pyval list \<Rightarrow> pyval list" where
  "premove x [] = []"
| "premove x (y # ys) = (if y = x \<or> py_eq y x then ys else y # premove x ys)"

definition statement_chosen :: "pyval \<Rightarrow> pyval list \<Rightarrow> pyval \<Rightarrow> bool res" where
  "statement_chosen match_ids matched s =
     (if py_eq match_ids (PStr ''*'') then Inr True
      else if py_eq match_ids (PStr ''matched'') then Inr (mem_eq s matched)
      else case s of
          PDict d \<Rightarrow> (case dget d ''Sid'' of None \<Rightarrow> Inr False | Some i \<Rightarrow> py_in i match_ids)
        | PStr t \<Rightarrow> if has_substr t ''Sid'' then Inl TypeError else Inr False
        | _ \<Rightarrow> rbind (py_in (PStr ''Sid'') s) (\<lambda>b. if b then Inl TypeError else Inr False))"

fun remove_each :: "pyval \<Rightarrow> pyval list \<Rightarrow> pyval list \<Rightarrow> pyval list \<Rightarrow> pyval list \<Rightarrow> (pyval list \<times> pyval list) res" where
  "remove_each match_ids matched [] statements found = Inr (statements, found)"
| "remove_each match_ids matched (s # ss) statements found =
     rbind (statement_chosen match_ids matched s) (\<lambda>b.
       if b then remove_each match_ids matched ss (premove s statements) (found @ [s])
       else remove_each match_ids matched ss statements found)"

definition remove_statements :: "pyval \<Rightarrow> pyval list \<Rightarrow> pyval list \<Rightarrow> (pyval list option \<times> pyval list) res" where
  "remove_statements match_ids statements matched =
     rbind (remove_each match_ids matched statements statements []) (\<lambda>(left, found).
       Inr (if found = [] then (None, found) else (Some left, found)))"

text \<open>
  Statements by their ids, \<open>digest\<close> for those without one; the added ones take the place of those
  with the same id.
\<close>

definition by_sid :: "(pyval \<Rightarrow> pyval res) \<Rightarrow> pyval list \<Rightarrow> (pyval \<times> pyval) list res" where
  "by_sid digest ss = rmap (\<lambda>s. case s of
      PDict d \<Rightarrow> rbind (digest s) (\<lambda>h. let i = dget_or d ''Sid'' h in if hashable i then Inr (i, s) else Inl TypeError)
    | _ \<Rightarrow> Inl AttributeError) ss"

fun kput :: "pyval \<Rightarrow> 'a \<Rightarrow> (pyval \<times> 'a) list \<Rightarrow> (pyval \<times> 'a) list" where
  "kput k v [] = [(k, v)]"
| "kput k v ((l, w) # m) = (if py_eq k l then (l, v) # m else (l, w) # kput k v m)"

definition add_statements :: "(pyval \<Rightarrow> pyval res) \<Rightarrow> pydict \<Rightarrow> pyval list \<Rightarrow> (pyval list \<times> bool) res" where
  "add_statements digest data statements =
     rbind (by_sid digest statements) (\<lambda>current.
     rbind (py_iter (dget_or data ''add-statements'' (PList []))) (\<lambda>new.
     rbind (by_sid digest new) (\<lambda>additional.
       Inr (map snd (fold (\<lambda>(k, v). kput k v) (current @ additional) []), additional \<noteq> []))))"

definition modify_remove :: "pydict \<Rightarrow> pyval list \<Rightarrow> pydict \<Rightarrow> string \<Rightarrow> (pyval list option \<times> pyval list) res" where
  "modify_remove data statements r matched_key =
     (let ids = dget_or data ''remove-statements'' (PList [])
      in rbind (py_len ids) (\<lambda>n.
         if n = 0 then Inr (Some statements, [])
         else rbind (py_iter (dget_or r matched_key (PTuple []))) (\<lambda>matched. remove_statements ids statements matched)))"

definition process_policy :: "pydict \<Rightarrow> pydict \<Rightarrow> pydict \<Rightarrow> string \<Rightarrow> (pyval list option \<times> pyval list) res" where
  "process_policy data policy r matched_key =
     rbind (py_iter (dget_or policy ''Statement'' (PList []))) (\<lambda>statements.
     rbind (py_iter (dget_or r matched_key (PTuple []))) (\<lambda>matched.
     rbind (dindex data ''statement_ids'') (\<lambda>ids. remove_statements ids statements matched)))"

section \<open>Facts\<close>

text \<open>The strings of a value that is one string or a list of them, and a value's set of actions or others.\<close>

definition strs :: "pyval \<Rightarrow> string list option" where
  "strs v = (case v of
      PStr s \<Rightarrow> Some [s]
    | PList xs \<Rightarrow> if list_all is_str xs then Some (map (\<lambda>x. case x of PStr s \<Rightarrow> s | _ \<Rightarrow> []) xs) else None
    | _ \<Rightarrow> None)"

definition meaning :: "string \<Rightarrow> pyval \<Rightarrow> string set" where
  "meaning key v = (let ss = (case strs v of Some ss \<Rightarrow> ss | None \<Rightarrow> [])
     in set (if is_action_key key then map lower ss else ss))"

text \<open>A statement that has every key of another with the same meaning.\<close>

definition covers :: "pydict \<Rightarrow> pydict \<Rightarrow> bool" where
  "covers req s \<longleftrightarrow> req \<noteq> [] \<and> list_all (\<lambda>(k, v). case dget s k of None \<Rightarrow> False | Some w \<Rightarrow> meaning k v = meaning k w) req"

definition plain_values :: "pydict \<Rightarrow> bool" where
  "plain_values d \<longleftrightarrow> list_all (\<lambda>(k, v). strs v \<noteq> None) d"

lemma strs_cases: "strs v = Some ss \<Longrightarrow> v = PList (map PStr ss) \<or> (\<exists>s. v = PStr s \<and> ss = [s])"
proof (cases v)
  case (PList xs)
  assume "strs v = Some ss"
  with PList have xs: "list_all is_str xs" "ss = map (\<lambda>x. case x of PStr s \<Rightarrow> s | _ \<Rightarrow> []) xs"
    by (auto simp: strs_def split: if_splits)
  have "map PStr (map (\<lambda>x. case x of PStr s \<Rightarrow> s | _ \<Rightarrow> []) xs) = xs"
    using xs(1) by (induction xs) (auto simp: is_str_def split: pyval.splits)
  with xs(2) PList show ?thesis by simp
qed (auto simp: strs_def)

lemma same_set_strs: "same_set (map PStr a) (map PStr b) \<longleftrightarrow> set a = set b"
  by (auto simp: same_set_def list_all_iff mem_eq_PStr)

lemma lower_all_strs: "strs v = Some ss \<Longrightarrow> lower_all v = Inr (map PStr (map lower ss))"
proof -
  have "rmap (\<lambda>v. case v of PStr s \<Rightarrow> Inr (PStr (lower s)) | _ \<Rightarrow> Inl AttributeError) (map PStr ss) = Inr (map PStr (map lower ss))"
    by (induction ss) auto
  then show "strs v = Some ss \<Longrightarrow> lower_all v = Inr (map PStr (map lower ss))"
    using strs_cases[of v ss] by (auto simp: lower_all_def)
qed

lemma as_sets_strs: "strs v = Some ss \<Longrightarrow> as_sets v = Inr (SSet (map PStr ss))"
  using strs_cases[of v ss] by (auto simp: as_sets_def format_to_set_def set_of_list_def list_all_iff)

lemma normalize_strs: "strs v = Some ss \<Longrightarrow> normalize_statement_value key v = v"
proof -
  have "normalize_each (map PStr ss) = map PStr ss" by (induction ss) simp_all
  then show "strs v = Some ss \<Longrightarrow> normalize_statement_value key v = v"
    using strs_cases[of v ss] by (auto simp: normalize_statement_value_def)
qed

lemma match_exact_strs:
  assumes "strs v = Some vs" "dget s key = Some w" "strs w = Some ws"
  shows "match_exact key v s = Inr (meaning key v = meaning key w)"
  using assms same_set_strs[of "map lower vs" "map lower ws"] same_set_strs[of vs ws]
  by (simp add: match_exact_def meaning_def lower_all_strs as_sets_strs normalize_strs)

lemma match_exact_none: "strs v = Some vs \<Longrightarrow> dget s key = None \<Longrightarrow> match_exact key v s = Inr False"
  using strs_cases[of v vs] by (auto simp: match_exact_def normalize_strs)

lemma match_statement_covers:
  assumes "plain_values req" "plain_values s"
  shows "match_statement [] req (PDict s) = Inr (covers req s)"
proof -
  have "match_key [] s kv = Inr (case kv of (k, v) \<Rightarrow> case dget s k of None \<Rightarrow> False | Some w \<Rightarrow> meaning k v = meaning k w)"
    if "kv \<in> set req" for kv
  proof -
    obtain k v where kv: "kv = (k, v)" by (cases kv)
    with that assms(1) obtain vs where vs: "strs v = Some vs" by (auto simp: plain_values_def list_all_iff)
    show ?thesis
    proof (cases "dget s k")
      case None
      with match_exact_none[OF vs] kv show ?thesis by (simp add: match_key_def)
    next
      case (Some w)
      then have "(k, w) \<in> set s" by (rule map_of_SomeD)
      with assms(2) obtain ws where "strs w = Some ws" by (auto simp: plain_values_def list_all_iff)
      from match_exact_strs[OF vs Some this] kv Some show ?thesis by (simp add: match_key_def)
    qed
  qed
  from rmap_pure[of req, OF this] show ?thesis
    by (auto simp: match_statement_def covers_def list_all_iff)
qed

lemma find_covers:
  assumes "plain_values req" "\<not> dhas req ''PartialMatch''" "list_all plain_values ss"
  shows "find_statement (map PDict ss) (PDict req) = Inr (list_ex (covers req) ss)"
proof -
  have "partial_elements req = Inr []"
    using assms(2) by (simp add: partial_elements_def dget_or_def dhas_dget)
  moreover have "ddel ''PartialMatch'' req = req"
    using assms(2) by (force simp: ddel_def dhas_def dkeys_def filter_id_conv)
  moreover have "rany (match_statement [] req) (map PDict ss) = Inr (list_ex (covers req) ss)"
    using assms(3) by (induction ss) (simp_all add: match_statement_covers[OF assms(1)])
  ultimately show ?thesis by (simp add: find_statement_def)
qed

text \<open>The ids of the statements that have one.\<close>

definition sids :: "pydict list \<Rightarrow> string list" where
  "sids ss = concat (map (\<lambda>s. case dget s ''Sid'' of Some (PStr t) \<Rightarrow> [t] | _ \<Rightarrow> []) ss)"

definition sid_ok :: "pydict \<Rightarrow> bool" where
  "sid_ok s = (case dget s ''Sid'' of None \<Rightarrow> True | Some v \<Rightarrow> is_str v)"

lemma drop_first_str:
  "takeWhile (\<lambda>i. \<not> py_eq i (PStr t)) (map PStr ids) @ tl (dropWhile (\<lambda>i. \<not> py_eq i (PStr t)) (map PStr ids)) = map PStr (remove1 t ids)"
  by (induction ids) auto

lemma drop_first_none:
  "takeWhile (\<lambda>i. \<not> py_eq i PNone) (map PStr ids) @ tl (dropWhile (\<lambda>i. \<not> py_eq i PNone) (map PStr ids)) = map PStr ids"
  by (induction ids) auto

lemma take_ids_strs:
  "list_all sid_ok ss \<Longrightarrow> take_ids (map PDict ss) (map PStr ids) = Inr (map PStr (fold remove1 (sids ss) ids))"
proof (induction ss arbitrary: ids)
  case (Cons s ss)
  show ?case
  proof (cases "dget s ''Sid''")
    case None
    with Cons show ?thesis by (simp add: dget_or_def drop_first_none sids_def del: py_eq.simps)
  next
    case (Some v)
    with Cons.prems obtain t where "v = PStr t" by (cases v) (auto simp: sid_ok_def is_str_def)
    with Some Cons show ?thesis by (simp add: dget_or_def drop_first_str sids_def del: py_eq.simps)
  qed
qed (simp add: sids_def)

lemma mset_fold_remove1: "mset (fold remove1 ts ids) = mset ids - mset ts"
  by (induction ts arbitrary: ids) simp_all

text \<open>Which resources have the required statements: for a policy document whose statements have
  strings or lists of strings under their keys, and a filter with such statements and no partial
  elements, a resource is kept exactly when the ids asked for are among those of its statements,
  each as often, and every statement asked for has a statement that covers it: one with all its
  keys and under each the same values, in any order, actions in any case.
\<close>

theorem has_statement_decides:
  assumes "dget_or r attribute PNone = doc" "doc \<noteq> PNone" "loads doc = Inr (PDict d)"
    and "dget_or d ''Statement'' (PList []) = PList (map PDict ss)"
    and "dget_or data ''statement_ids'' (PList []) = PList (map PStr ids)"
    and "dget_or data ''statements'' (PList []) = PList (map PDict reqs)"
    and "format_values fmt (PList (map PDict reqs)) = Inr (PList (map PDict reqs))"
    and "list_all plain_values ss" "list_all sid_ok ss" "list_all plain_values reqs" "list_all (\<lambda>q. \<not> dhas q ''PartialMatch'') reqs"
  shows "has_statement loads fmt attribute data r =
    Inr (mset ids \<subseteq># mset (sids ss) \<and> list_all (\<lambda>q. list_ex (covers q) ss) reqs)"
proof -
  have found: "rmap (find_statement (map PDict ss)) (map PDict reqs) = Inr (map (\<lambda>q. list_ex (covers q) ss) reqs)"
    using assms(8,10,11) by (induction reqs) (auto simp: find_covers)
  have "map PStr (fold remove1 (sids ss) ids) = [] \<longleftrightarrow> mset ids \<subseteq># mset (sids ss)"
    using mset_fold_remove1[of "sids ss" ids] by (metis Diff_eq_empty_iff_mset map_is_Nil_conv mset_zero_iff)
  with assms(1-7) found show ?thesis
    by (cases doc) (auto simp: has_statement_def take_ids_strs[OF assms(9)] list_all_iff simp del: format_values.simps)
qed

definition ex_doc :: pydict where
  "ex_doc = [(''Statement'', PList (map PDict [[(''Sid'', PStr ''a''), (''Effect'', PStr ''Deny''), (''Action'', PList [PStr ''S3:Put'', PStr ''s3:get''])]]))]"

definition ex_required :: pydict where
  "ex_required = [(''statement_ids'', PList (map PStr [''a''])),
     (''statements'', PList (map PDict [[(''Effect'', PStr ''Deny''), (''Action'', PList [PStr ''s3:Get'', PStr ''s3:put''])]]))]"

lemma has_statement_decides_witness:
  "has_statement (\<lambda>t. Inr (PDict ex_doc)) (\<lambda>s. Inr (PStr s)) ''Policy'' ex_required [(''Policy'', PStr ''text'')] = Inr True"
proof -
  let ?s = "[(''Sid'', PStr ''a''), (''Effect'', PStr ''Deny''), (''Action'', PList [PStr ''S3:Put'', PStr ''s3:get''])]"
  let ?q = "[(''Effect'', PStr ''Deny''), (''Action'', PList [PStr ''s3:Get'', PStr ''s3:put''])]"
  have data: "dget_or ex_doc ''Statement'' (PList []) = PList (map PDict [?s])"
      "dget_or ex_required ''statement_ids'' (PList []) = PList (map PStr [''a''])"
      "dget_or ex_required ''statements'' (PList []) = PList (map PDict [?q])"
    by (simp_all add: ex_doc_def ex_required_def dget_or_def)
  have fmt: "format_values (\<lambda>s. Inr (PStr s)) (PList (map PDict [?q])) = Inr (PList (map PDict [?q]))"
    by (simp add: format_or_keep_def)
  have ok: "list_all plain_values [?s]" "list_all sid_ok [?s]" "list_all plain_values [?q]" "list_all (\<lambda>q. \<not> dhas q ''PartialMatch'') [?q]"
    by (simp_all add: plain_values_def strs_def is_str_def sid_ok_def dhas_def)
  have covers: "covers ?q ?s" "sids [?s] = [''a'']" by code_simp+
  show ?thesis
    by (subst has_statement_decides[OF _ _ _ data fmt ok, of _ _ "PStr ''text''"])
       (simp_all add: covers dget_or_def del: format_values.simps)
qed

lemma premove_mid: "(\<And>y. y \<in> set ys \<Longrightarrow> y \<noteq> s \<and> \<not> py_eq y s) \<Longrightarrow> premove s (ys @ s # rest) = ys @ rest"
  by (induction ys) auto

text \<open>Removing statements parts them: of statements that are equal only when they are the same,
  those chosen are reported, in order, and the others are left, in order; nothing is reported
  as left when nothing is chosen.
\<close>

theorem remove_statements_parts:
  assumes "\<forall>x \<in> set statements. \<forall>y \<in> set statements. py_eq x y \<longrightarrow> x = y"
    and "\<forall>s \<in> set statements. statement_chosen ids matched s = Inr (c s)"
  shows "remove_statements ids statements matched =
    Inr (if list_ex c statements then Some (filter (\<lambda>s. \<not> c s) statements) else None, filter c statements)"
proof -
  have "remove_each ids matched rest (filter (\<lambda>s. \<not> c s) gone @ rest) (filter c gone) =
      Inr (filter (\<lambda>s. \<not> c s) (gone @ rest), filter c (gone @ rest))"
    if "set (gone @ rest) \<subseteq> set statements" for gone rest
    using that
  proof (induction rest arbitrary: gone)
    case (Cons s rest)
    have "premove s (filter (\<lambda>s. \<not> c s) gone @ s # rest) = filter (\<lambda>s. \<not> c s) gone @ rest" if "c s"
    proof -
      have "y \<noteq> s \<and> \<not> py_eq y s" if "y \<in> set (filter (\<lambda>s. \<not> c s) gone)" for y
        using that \<open>c s\<close> assms(1) Cons.prems by auto
      then show ?thesis by (rule premove_mid)
    qed
    with Cons.IH[of "gone @ [s]"] Cons.prems assms(2) show ?case by auto
  qed simp
  from this[of "[]" statements] show ?thesis
    by (auto simp: remove_statements_def filter_empty_conv list_ex_iff)
qed

definition ex_statements :: "pyval list" where
  "ex_statements = [PDict [(''Sid'', PStr ''a'')], PDict [(''Sid'', PStr ''b'')]]"

lemma remove_statements_parts_witness:
  "remove_statements (PList [PStr ''b'']) ex_statements [] = Inr (Some [PDict [(''Sid'', PStr ''a'')]], [PDict [(''Sid'', PStr ''b'')]])"
proof -
  have "list_all (\<lambda>s. statement_chosen (PList [PStr ''b'']) [] s = Inr (s = PDict [(''Sid'', PStr ''b'')])) ex_statements"
    by code_simp
  moreover have "list_all (\<lambda>x. list_all (\<lambda>y. \<not> py_eq x y \<or> x = y) ex_statements) ex_statements" by code_simp
  ultimately show ?thesis
    using remove_statements_parts[of ex_statements "PList [PStr ''b'']" "[]" "\<lambda>s. s = PDict [(''Sid'', PStr ''b'')]"]
    by (auto simp: ex_statements_def)
qed

end
