(* ===== verification/Related.thy ===== *)
theory Related
  imports Leaves
begin

text \<open>
  Filters by the resources a resource refers to (\<open>c7n/filters/related.py\<close>), the subnet filter
  and the comparison of a resource with its subnets and security groups
  (\<open>c7n/filters/vpc.py\<close>). The filter object keeps the state of a value filter, and its own data,
  which it changes with \<open>match-resource\<close>; both are threaded through.
\<close>

section \<open>Related resources\<close>

text \<open>Related resources by their ids, which are strings.\<close>

type_synonym related = "(pyval, pydict) odict"

definition get_related_ids :: "ext \<Rightarrow> string \<Rightarrow> pydict list \<Rightarrow> pyval list res" where
  "get_related_ids E expr rs = rbind (ext_jmes E (''[].'' @ expr) (PList (map PDict rs))) py_set"

definition FetchThreshold :: nat where
  "FetchThreshold = 10"

text \<open>Few are asked for by their ids; \<open>by_ids\<close> and \<open>every\<close> are the manager of the related type.\<close>

definition get_related ::
  "ext \<Rightarrow> string \<Rightarrow> string \<Rightarrow> (pyval list \<Rightarrow> pydict list option res) \<Rightarrow> pydict list option res \<Rightarrow> pydict list \<Rightarrow> related res" where
  "get_related E expr model_id by_ids every rs =
     rbind (get_related_ids E expr rs) (\<lambda>ids.
     rbind (if length ids < FetchThreshold then by_ids ids else every) (\<lambda>found. case found of
         None \<Rightarrow> Inr []
       | Some ds \<Rightarrow> rfold (\<lambda>m d. rbind (dindex d model_id) (\<lambda>i.
           if \<not> hashable i then Inl TypeError
           else Inr (if mem_eq i ids then dput i d m else m))) [] ds))"

text \<open>
  The ids of a resource whose related resource matches. One that is not there is taken to match
  \<open>absent\<close>; otherwise it is logged with the id of the resource.
\<close>

type_synonym matcher = "pydict \<Rightarrow> vstate \<Rightarrow> pydict \<Rightarrow> (vstate \<times> bool) res"

fun matching_ids ::
  "matcher \<Rightarrow> pydict \<Rightarrow> related \<Rightarrow> string \<Rightarrow> pydict \<Rightarrow> pyval list \<Rightarrow> vstate \<Rightarrow> (vstate \<times> pyval list) res" where
  "matching_ids match data related model_id r [] s = Inr (s, [])"
| "matching_ids match data related model_id r (i # ids) s =
     rbind (case dget related i of
         None \<Rightarrow> rbind (dindex data ''value'') (\<lambda>v.
           if py_eq v (PStr ''absent'') then Inr (s, True)
           else rbind (dindex r model_id) (\<lambda>_. Inr (s, False)))
       | Some d \<Rightarrow> match data s d) (\<lambda>(s1, b).
     rbind (matching_ids match data related model_id r ids s1) (\<lambda>(s2, found).
       Inr (s2, if b then i # found else found)))"

definition add_annotations :: "string option \<Rightarrow> pyval list \<Rightarrow> pydict \<Rightarrow> pydict res" where
  "add_annotations key ids r = (case key of
      None \<Rightarrow> Inr r
    | Some k \<Rightarrow>
        rbind (py_iter (dget_or r (''c7n:'' @ k) (PList []))) (\<lambda>old.
        if list_all hashable old then Inr (dput (''c7n:'' @ k) (PList (dedup (ids @ old))) r) else Inl TypeError))"

text \<open>With \<open>match-resource\<close> the value to compare with is the resource's own.\<close>

definition own_value :: "ext \<Rightarrow> pydict \<Rightarrow> pydict \<Rightarrow> pydict res" where
  "own_value E data r =
     (if dget data ''match-resource'' = Some (PBool True)
      then rbind (dindex data ''key'') (\<lambda>k.
           rbind (get_resource_value E data (dget_or data ''value_regex'' PNone) k r) (\<lambda>v. Inr (dput ''value'' v data)))
      else Inr data)"

record related_conf =
  rc_expr :: string
  rc_id :: string
  rc_annotation :: "string option"

text \<open>What processing one resource gives: the data, the state, the resource, whether it is kept.\<close>

definition related_resource ::
  "ext \<Rightarrow> matcher \<Rightarrow> related_conf \<Rightarrow> related \<Rightarrow> pydict \<Rightarrow> vstate \<Rightarrow> pydict \<Rightarrow> (pydict \<times> vstate \<times> pydict \<times> bool) res" where
  "related_resource E match c related data0 s r =
     rbind (get_related_ids E (rc_expr c) [r]) (\<lambda>ids.
     rbind (own_value E data0 r) (\<lambda>data.
     if is_resource_count data
     then rbind (count_check E data (length ids)) (\<lambda>b.
          rbind (if b then add_annotations (rc_annotation c) ids r else Inr r) (\<lambda>r'. Inr (data, s, r', b)))
     else rbind (matching_ids match data related (rc_id c) r ids s) (\<lambda>(s', found).
          rbind (if found \<noteq> [] then add_annotations (rc_annotation c) found r else Inr r) (\<lambda>r'.
          let op = dget_or data ''operator'' (PStr ''or'')
          in Inr (data, s', r',
               py_eq op (PStr ''or'') \<and> found \<noteq> [] \<or> py_eq op (PStr ''and'') \<and> length found = length ids)))))"

fun related_filter ::
  "(pydict \<Rightarrow> vstate \<Rightarrow> pydict \<Rightarrow> (pydict \<times> vstate \<times> pydict \<times> bool) res) \<Rightarrow> pydict \<Rightarrow> vstate \<Rightarrow> store \<Rightarrow> ref list \<Rightarrow>
   (pydict \<times> vstate \<times> store \<times> ref list) res" where
  "related_filter f data s st [] = Inr (data, s, st, [])"
| "related_filter f data s st (r # rs) =
     rbind (f data s (st r)) (\<lambda>(data1, s1, d, b).
     rbind (related_filter f data1 s1 (st(r := d)) rs) (\<lambda>(data2, s2, st2, out).
       Inr (data2, s2, st2, if b then r # out else out)))"

definition related_process ::
  "ext \<Rightarrow> matcher \<Rightarrow> related_conf \<Rightarrow> (pydict list \<Rightarrow> related res) \<Rightarrow> pydict \<Rightarrow> vstate \<Rightarrow> store \<Rightarrow> ref list \<Rightarrow>
   (pydict \<times> vstate \<times> store \<times> ref list) res" where
  "related_process E match c fetch data s st rs =
     rbind (fetch (map st rs)) (\<lambda>related. related_filter (related_resource E match c related) data s st rs)"

text \<open>The class itself matches as a value filter, without annotating.\<close>

definition value_matcher :: "ext \<Rightarrow> matcher" where
  "value_matcher E data s d = vmatch E data s (PDict d)"

text \<open>
  \<open>RelatedResourceByIdFilter\<close>: here several resources may refer to one id, and a missing one is
  passed over.
\<close>

type_synonym related_many = "(pyval, pydict list) odict"

definition related_keys :: "ext \<Rightarrow> string \<Rightarrow> pydict \<Rightarrow> pyval list res" where
  "related_keys E expr d =
     rbind (ext_jmes E expr (PDict d)) (\<lambda>ids. case ids of PStr s \<Rightarrow> Inr [ids] | _ \<Rightarrow> py_set ids)"

definition get_related_by_id :: "ext \<Rightarrow> string \<Rightarrow> string \<Rightarrow> pydict list res \<Rightarrow> pydict list \<Rightarrow> related_many res" where
  "get_related_by_id E expr by_expr every rs =
     rbind (get_related_ids E expr rs) (\<lambda>ids. rbind every (\<lambda>ds.
     rfold (\<lambda>m d. rbind (related_keys E by_expr d) (\<lambda>ks.
       Inr (fold (\<lambda>k m. dput k ((case dget m k of None \<Rightarrow> [] | Some l \<Rightarrow> l) @ [d]) m) (filter (\<lambda>k. mem_eq k ids) ks) m))) [] ds))"

fun matching_each :: "matcher \<Rightarrow> pydict \<Rightarrow> pyval \<Rightarrow> pydict list \<Rightarrow> vstate \<Rightarrow> (vstate \<times> pyval list) res" where
  "matching_each match data i [] s = Inr (s, [])"
| "matching_each match data i (d # ds) s =
     rbind (match data s d) (\<lambda>(s1, b).
     rbind (matching_each match data i ds s1) (\<lambda>(s2, found). Inr (s2, if b then i # found else found)))"

fun matching_many :: "matcher \<Rightarrow> pydict \<Rightarrow> related_many \<Rightarrow> pyval list \<Rightarrow> vstate \<Rightarrow> (vstate \<times> pyval list) res" where
  "matching_many match data related [] s = Inr (s, [])"
| "matching_many match data related (i # ids) s =
     rbind (matching_each match data i (case dget related i of None \<Rightarrow> [] | Some ds \<Rightarrow> ds) s) (\<lambda>(s1, a).
     rbind (matching_many match data related ids s1) (\<lambda>(s2, b). Inr (s2, a @ b)))"

definition related_by_id_resource ::
  "ext \<Rightarrow> matcher \<Rightarrow> related_conf \<Rightarrow> related_many \<Rightarrow> pydict \<Rightarrow> vstate \<Rightarrow> pydict \<Rightarrow> (pydict \<times> vstate \<times> pydict \<times> bool) res" where
  "related_by_id_resource E match c related data0 s r =
     rbind (get_related_ids E (rc_expr c) [r]) (\<lambda>ids.
     rbind (own_value E data0 r) (\<lambda>data.
     if is_resource_count data
     then rbind (count_check E data (length ids)) (\<lambda>b.
          rbind (if b then add_annotations (rc_annotation c) ids r else Inr r) (\<lambda>r'. Inr (data, s, r', b)))
     else rbind (matching_many match data related ids s) (\<lambda>(s', found).
          rbind (if found \<noteq> [] then add_annotations (rc_annotation c) found r else Inr r) (\<lambda>r'.
          let op = dget_or data ''operator'' (PStr ''or'')
          in Inr (data, s', r',
               py_eq op (PStr ''or'') \<and> found \<noteq> [] \<or> py_eq op (PStr ''and'') \<and> length found = length ids)))))"

text \<open>\<open>ChildResourceFilter\<close>: the children of the resources by their parents; all of them annotate it.\<close>

definition child_related ::
  "ext \<Rightarrow> string \<Rightarrow> string \<Rightarrow> (pyval list \<Rightarrow> pydict list res) \<Rightarrow> pydict list \<Rightarrow> related_many res" where
  "child_related E expr parent_key children rs =
     rbind (get_related_ids E expr rs) (\<lambda>ids. rbind (children ids) (\<lambda>ds.
     rfold (\<lambda>m d. rbind (dindex d parent_key) (\<lambda>i.
       if \<not> hashable i then Inl TypeError
       else Inr (dput i ((case dget m i of None \<Rightarrow> [] | Some l \<Rightarrow> l) @ [d]) m))) [] ds))"

definition child_annotations :: "string option \<Rightarrow> string \<Rightarrow> related_many \<Rightarrow> pydict \<Rightarrow> pydict res" where
  "child_annotations key model_id children r = (case key of
      None \<Rightarrow> Inr r
    | Some k \<Rightarrow> rbind (dindex r model_id) (\<lambda>i.
        if \<not> hashable i then Inl TypeError
        else Inr (dput (''c7n:'' @ k) (PList (map PDict (case dget children i of None \<Rightarrow> [] | Some l \<Rightarrow> l))) r)))"

section \<open>Subnets\<close>

text \<open>\<open>get_route_tables\<close>: the table of a subnet, or the main one of a network.\<close>

definition get_route_tables :: "pydict list \<Rightarrow> related res" where
  "get_route_tables tables = rfold (\<lambda>m t.
     rbind (dindex t ''Associations'') (\<lambda>as. rbind (py_iter as) (\<lambda>as. rfold (\<lambda>m a. case a of
         PDict d \<Rightarrow> rbind (dindex d ''Main'') (\<lambda>main.
           if py_truth main then rbind (dindex t ''VpcId'') (\<lambda>v. Inr (dput v t m))
           else Inr (case dget d ''SubnetId'' of None \<Rightarrow> m | Some i \<Rightarrow> dput i t m))
       | _ \<Rightarrow> Inl TypeError) m as))) [] tables"

text \<open>\<open>match_igw\<close> and \<open>match_nat\<close>, by a test on a route; without a table there is no answer, which is false.\<close>

definition match_route :: "(pydict \<Rightarrow> bool res) \<Rightarrow> pyval \<Rightarrow> related \<Rightarrow> pydict \<Rightarrow> bool res" where
  "match_route has check tables subnet =
     (if check = PNone then Inr True
      else rbind (dindex subnet ''VpcId'') (\<lambda>vpc. rbind (dindex subnet ''SubnetId'') (\<lambda>i.
        case (case dget tables i of Some t \<Rightarrow> Some t | None \<Rightarrow> dget tables vpc) of
          None \<Rightarrow> Inr False
        | Some t \<Rightarrow> rbind (dindex t ''Routes'') (\<lambda>rs. rbind (py_iter rs) (\<lambda>rs.
            rbind (rany (\<lambda>r. case r of PDict d \<Rightarrow> has d | _ \<Rightarrow> Inl AttributeError) rs) (\<lambda>found.
              Inr (py_truth check = found)))))))"

definition igw_route :: "pydict \<Rightarrow> bool res" where
  "igw_route d = (let g = dget_or d ''GatewayId'' PNone
     in if \<not> py_truth g then Inr False
        else case g of PStr s \<Rightarrow> Inr (starts_with s ''igw-'') | _ \<Rightarrow> Inl AttributeError)"

definition nat_route :: "pydict \<Rightarrow> bool res" where
  "nat_route d = Inr (py_truth (dget_or d ''NatGatewayId'' PNone))"

text \<open>\<open>SubnetFilter.match\<close>: the value is compared only when both \<open>key\<close> and \<open>value\<close> are given.\<close>

definition subnet_match :: "ext \<Rightarrow> related \<Rightarrow> matcher" where
  "subnet_match E tables data s d =
     rbind (if dhas data ''key'' \<and> dhas data ''value'' then vmatch E data s (PDict d) else Inr (s, True)) (\<lambda>(s', value).
     rbind (match_route igw_route (dget_or data ''igw'' PNone) tables d) (\<lambda>igw.
     rbind (match_route nat_route (dget_or data ''nat'' PNone) tables d) (\<lambda>nat.
       Inr (s', if py_eq (dget_or data ''operator'' (PStr ''and'')) (PStr ''and'') then igw \<and> nat \<and> value else igw \<or> nat \<or> value))))"

text \<open>
  \<open>DefaultVpcBase.match\<close>: the default network is asked for until one is found, and kept; it is
  the last one that is marked.
\<close>

definition default_vpc_match :: "pydict list \<Rightarrow> pyval \<Rightarrow> pyval \<Rightarrow> (pyval \<times> bool) res" where
  "default_vpc_match vpcs known vpc =
     (if known \<noteq> PNone then Inr (known, py_eq vpc known)
      else rbind (rfilter (\<lambda>v. rbind (dindex v ''IsDefault'') (\<lambda>d. Inr (py_truth d))) vpcs) (\<lambda>found.
           rbind (rmap (\<lambda>v. dindex v ''VpcId'') found) (\<lambda>ids.
             let known' = (if ids = [] then PNone else last ids) in Inr (known', py_eq vpc known'))))"

section \<open>What the filters keep\<close>

text \<open>Whether an id counts: the related resource matches, or there is none and none is asked for.\<close>

definition hit :: "ext \<Rightarrow> pydict \<Rightarrow> related \<Rightarrow> pyval \<Rightarrow> bool" where
  "hit E data related i = (case dget related i of
      None \<Rightarrow> py_eq (dget_or data ''value'' PNone) (PStr ''absent'')
    | Some d \<Rightarrow> vf_matches E data d = Inr True)"

lemma value_matcher_Inr:
  "prepared E data s \<Longrightarrow> value_matcher E data s d = Inr (s', b) \<Longrightarrow> prepared E data s' \<and> vf_matches E data d = Inr b"
  unfolding value_matcher_def using vmatch_Inr by blast

lemma matching_ids_hits:
  "prepared E data s \<Longrightarrow> matching_ids (value_matcher E) data related m r ids s = Inr (s', found) \<Longrightarrow>
     prepared E data s' \<and> found = filter (hit E data related) ids"
proof (induction ids arbitrary: s s' found)
  case (Cons i ids)
  from Cons.prems(2) obtain s1 b s2 rest where
    one: "(case dget related i of
         None \<Rightarrow> rbind (dindex data ''value'') (\<lambda>v.
           if py_eq v (PStr ''absent'') then Inr (s, True)
           else rbind (dindex r m) (\<lambda>_. Inr (s, False)))
       | Some d \<Rightarrow> value_matcher E data s d) = Inr (s1, b)"
    and rest: "matching_ids (value_matcher E) data related m r ids s1 = Inr (s2, rest)"
    and out: "s' = s2" "found = (if b then i # rest else rest)"
    by (auto simp: rbind_eq_Inr)
  have "prepared E data s1 \<and> b = hit E data related i"
  proof (cases "dget related i")
    case None
    with one obtain v where v: "dget data ''value'' = Some v"
      "(if py_eq v (PStr ''absent'') then Inr (s, True) else rbind (dindex r m) (\<lambda>_. Inr (s, False))) = Inr (s1, b)"
      by (auto simp: rbind_eq_Inr dindex_def split: option.splits)
    from v(2) have "s1 = s" "b = py_eq v (PStr ''absent'')"
      by (simp_all only: rbind_eq_Inr split: if_splits) auto
    then show ?thesis using Cons.prems(1) None v(1) by (simp add: hit_def dget_or_def)
  next
    case (Some d)
    with one have "value_matcher E data s d = Inr (s1, b)" by simp
    from value_matcher_Inr[OF Cons.prems(1) this] Some show ?thesis by (simp add: hit_def)
  qed
  with Cons.IH[OF _ rest] out show ?case by auto
qed simp

text \<open>The ids of a resource, and what the operator makes of them.\<close>

definition related_selects :: "ext \<Rightarrow> related_conf \<Rightarrow> pydict \<Rightarrow> related \<Rightarrow> pydict \<Rightarrow> bool" where
  "related_selects E c data related r =
     (case get_related_ids E (rc_expr c) [r] of
        Inl e \<Rightarrow> False
      | Inr ids \<Rightarrow>
          let op = dget_or data ''operator'' (PStr ''or'')
          in py_eq op (PStr ''or'') \<and> list_ex (hit E data related) ids \<or>
             py_eq op (PStr ''and'') \<and> list_all (hit E data related) ids)"

lemma filter_full: "length (filter P xs) = length xs \<longleftrightarrow> list_all P xs"
proof (induction xs)
  case (Cons x xs)
  have "length (filter P xs) \<noteq> Suc (length xs)" using length_filter_le[of P xs] by linarith
  with Cons show ?case by auto
qed simp

lemma related_resource_selects:
  assumes "dget data ''match-resource'' \<noteq> Some (PBool True)" "\<not> is_resource_count data" "prepared E data s"
    and "related_resource E (value_matcher E) c related data s r = Inr (data', s', r', b)"
  shows "data' = data \<and> prepared E data s' \<and> b = related_selects E c data related r"
proof -
  from assms(1,2,4) obtain ids found where ids: "get_related_ids E (rc_expr c) [r] = Inr ids"
    and found: "matching_ids (value_matcher E) data related (rc_id c) r ids s = Inr (s', found)"
    and out: "data' = data" "b = (let op = dget_or data ''operator'' (PStr ''or'')
       in py_eq op (PStr ''or'') \<and> found \<noteq> [] \<or> py_eq op (PStr ''and'') \<and> length found = length ids)"
    unfolding related_resource_def own_value_def by (simp only: rbind_eq_Inr Let_def if_False rbind_Inr) (auto simp: rbind_eq_Inr)
  from matching_ids_hits[OF assms(3) found] have hits: "prepared E data s'" "found = filter (hit E data related) ids" by auto
  then show ?thesis using hits out ids
    by (auto simp: related_selects_def Let_def filter_full filter_empty_conv list_ex_iff)
qed

text \<open>C29: A filter by related resources keeps those that refer to a match: with \<open>operator: or\<close> one of
  the ids of the resource has to match (or to be missing, when \<open>absent\<close> is asked for), with
  \<open>and\<close> all of them, and its own data does not change.
\<close>

theorem related_filter_selects:
  assumes "related_process E (value_matcher E) c fetch data s st rs = Inr (data', s', st', out)"
    and "dget data ''match-resource'' \<noteq> Some (PBool True)" "\<not> is_resource_count data" "prepared E data s" "distinct rs"
  shows "data' = data \<and> (\<exists>related. fetch (map st rs) = Inr related \<and> out = filter (\<lambda>r. related_selects E c data related (st r)) rs)"
proof -
  from assms(1) obtain related where related: "fetch (map st rs) = Inr related"
    "related_filter (related_resource E (value_matcher E) c related) data s st rs = Inr (data', s', st', out)"
    by (auto simp: related_process_def rbind_eq_Inr)
  have "related_filter (related_resource E (value_matcher E) c related) data s st rs = Inr (data', s', st', out) \<Longrightarrow>
      distinct rs \<Longrightarrow> prepared E data s \<Longrightarrow> data' = data \<and> out = filter (\<lambda>r. related_selects E c data related (st r)) rs" for st s out
  proof (induction rs arbitrary: s st out)
    case (Cons r rs)
    from Cons.prems(1) obtain data1 s1 d b rest where
      one: "related_resource E (value_matcher E) c related data s (st r) = Inr (data1, s1, d, b)" and
      rest: "related_filter (related_resource E (value_matcher E) c related) data1 s1 (st(r := d)) rs = Inr (data', s', st', rest)" and
      out: "out = (if b then r # rest else rest)"
      by (auto simp: rbind_eq_Inr)
    from related_resource_selects[OF assms(2,3) Cons.prems(3) one]
    have sel: "data1 = data" "prepared E data s1" "b = related_selects E c data related (st r)" by auto
    from Cons.IH[OF rest[unfolded sel(1)] _ sel(2)] Cons.prems(2)
    have "data' = data \<and> rest = filter (\<lambda>q. related_selects E c data related ((st(r := d)) q)) rs" by simp
    moreover have "filter (\<lambda>q. related_selects E c data related ((st(r := d)) q)) rs = filter (\<lambda>q. related_selects E c data related (st q)) rs"
      using Cons.prems(2) by (intro filter_cong) auto
    ultimately show ?case using out sel(3) by simp
  qed simp
  from this[OF related(2) assms(5,4)] related(1) show ?thesis by blast
qed

text \<open>An example: instances with their groups, which are compared by name.\<close>

definition ex_groups_of :: "pyval \<Rightarrow> pyval list" where
  "ex_groups_of x = (case x of PDict d \<Rightarrow> (case dget_or d ''Groups'' PNone of PList l \<Rightarrow> l | _ \<Rightarrow> []) | _ \<Rightarrow> [])"

definition ex_related_ext :: ext where
  "ex_related_ext = (ext0 0)\<lparr>ext_jmes := (\<lambda>e v. case v of PList xs \<Rightarrow> Inr (PList (concat (map ex_groups_of xs))) | _ \<Rightarrow> Inr PNone)\<rparr>"

definition ex_named :: "string \<Rightarrow> string list \<Rightarrow> pydict" where
  "ex_named name groups = [(''Name'', PStr name), (''Groups'', PList (map PStr groups))]"

definition ex_related :: related where
  "ex_related = [(PStr ''sg-1'', ex_named ''web'' []), (PStr ''sg-2'', ex_named ''db'' [])]"

definition ex_instances :: store where
  "ex_instances = (\<lambda>n. if n = 0 then ex_named ''web'' [''sg-1'', ''sg-2''] else ex_named ''db'' [''sg-2''])"

definition ex_related_data :: pydict where
  "ex_related_data = [(''type'', PStr ''security-group''), (''key'', PStr ''Name''), (''value'', PStr ''web'')]"

definition ex_related_conf :: related_conf where
  "ex_related_conf = \<lparr>rc_expr = ''Groups[]'', rc_id = ''Name'', rc_annotation = None\<rparr>"

lemma related_filter_selects_witness:
  "\<exists>s' st'. related_process ex_related_ext (value_matcher ex_related_ext) ex_related_conf (\<lambda>ds. Inr ex_related)
     ex_related_data vstate0 ex_instances [0, 1] = Inr (ex_related_data, s', st', [0]) \<and>
   related_selects ex_related_ext ex_related_conf ex_related_data ex_related (ex_instances 0)"
proof -
  let ?run = "related_process ex_related_ext (value_matcher ex_related_ext) ex_related_conf (\<lambda>ds. Inr ex_related)
     ex_related_data vstate0 ex_instances [0, 1]"
  have "case ?run of Inr (d, s, st, out) \<Rightarrow> out = [0] | Inl e \<Rightarrow> False" by code_simp
  then obtain d s' st' where run: "?run = Inr (d, s', st', [0])" by (auto split: sum.splits prod.splits)
  have "dget ex_related_data ''match-resource'' \<noteq> Some (PBool True)" "\<not> is_resource_count ex_related_data" by code_simp+
  from related_filter_selects[OF run this] run show ?thesis by (auto split: if_splits)
qed

text \<open>
  With \<open>match-resource\<close> every resource is compared with the value of the first: the data is
  changed for each, but the match was prepared once. Both of these have a group of their name.
\<close>

definition ex_own_data :: pydict where
  "ex_own_data = [(''type'', PStr ''security-group''), (''key'', PStr ''Name''), (''match-resource'', PBool True)]"

definition ex_own_instances :: store where
  "ex_own_instances = (\<lambda>n. if n = 0 then ex_named ''web'' [''sg-1''] else ex_named ''db'' [''sg-2''])"

lemma match_resource_stale:
  "case related_process ex_related_ext (value_matcher ex_related_ext) ex_related_conf (\<lambda>ds. Inr ex_related)
     ex_own_data vstate0 ex_own_instances [0, 1] of
     Inr (d, s, st, out) \<Rightarrow> out = [0] \<and> dget d ''value'' = Some (PStr ''db'')
   | Inl e \<Rightarrow> False"
  by code_simp

lemma match_route_None: "match_route has PNone tables d = Inr True"
  by (simp add: match_route_def)

text \<open>A subnet filter with \<open>operator: or\<close> that leaves out one of its three conditions matches
  every subnet for which it does not raise: what is left out counts as true. So of the example
  of public or private subnets, with \<open>igw\<close> and \<open>nat\<close> and no value, nothing is excluded.
\<close>

theorem subnet_or_matches_all:
  assumes "subnet_match E tables data s d = Inr (s', b)" "dget data ''operator'' = Some (PStr ''or'')"
    and "dget data ''igw'' = None \<or> dget data ''nat'' = None \<or> \<not> (dhas data ''key'' \<and> dhas data ''value'')"
  shows "b"
proof -
  from assms(1,2) obtain compared igw nat where parts:
    "(if dhas data ''key'' \<and> dhas data ''value'' then vmatch E data s (PDict d) else Inr (s, True)) = Inr (s', compared)"
    "match_route igw_route (dget_or data ''igw'' PNone) tables d = Inr igw"
    "match_route nat_route (dget_or data ''nat'' PNone) tables d = Inr nat"
    and b: "b = (igw \<or> nat \<or> compared)"
    unfolding subnet_match_def by (auto simp: rbind_eq_Inr dget_or_def)
  from assms(3) show ?thesis
  proof (elim disjE)
    assume "dget data ''igw'' = None"
    with parts(2) b show ?thesis by (simp add: dget_or_def match_route_None)
  next
    assume "dget data ''nat'' = None"
    with parts(3) b show ?thesis by (simp add: dget_or_def match_route_None)
  next
    assume "\<not> (dhas data ''key'' \<and> dhas data ''value'')"
    with parts(1) b show ?thesis by auto
  qed
qed

lemma subnet_or_matches_all_witness:
  "\<exists>s'. subnet_match (ext0 0) [] [(''type'', PStr ''subnet''), (''operator'', PStr ''or''), (''igw'', PBool True), (''nat'', PBool True)]
     vstate0 [(''SubnetId'', PStr ''subnet-1''), (''VpcId'', PStr ''vpc-1'')] = Inr (s', True)"
proof -
  let ?data = "[(''type'', PStr ''subnet''), (''operator'', PStr ''or''), (''igw'', PBool True), (''nat'', PBool True)]"
  have "\<exists>b. subnet_match (ext0 0) [] ?data vstate0 [(''SubnetId'', PStr ''subnet-1''), (''VpcId'', PStr ''vpc-1'')] = Inr (vstate0, b)"
    by (auto simp: subnet_match_def match_route_def dhas_def dindex_def dget_or_def)
  then obtain b where run: "subnet_match (ext0 0) [] ?data vstate0 [(''SubnetId'', PStr ''subnet-1''), (''VpcId'', PStr ''vpc-1'')] = Inr (vstate0, b)"
    by blast
  from subnet_or_matches_all[OF run] have b by (simp add: dhas_def)
  with run show ?thesis by auto
qed

end
