(* ===== verification/Locations.thy ===== *)
theory Locations
  imports Related SG_Actions
begin

text \<open>
  \<open>NetworkLocation\<close> of \<open>c7n/filters/vpc.py\<close>: the values of a key on a resource, its subnets and
  its security groups compared, with what the removal of security groups
  (\<open>c7n/actions/network.py\<close>) makes of the answer.
\<close>

definition location_value :: "ext \<Rightarrow> pyval \<Rightarrow> pydict \<Rightarrow> pyval res" where
  "location_value E key d = get_resource_value E [] PNone key d"

text \<open>\<open>filter_ignored\<close>: dropped are the resources with one of the ignored values.\<close>

definition ignored :: "ext \<Rightarrow> pyval list \<Rightarrow> pydict \<Rightarrow> bool res" where
  "ignored E ignores d = rany (\<lambda>i. case i of
      PDict kvs \<Rightarrow> rbind (rmap (\<lambda>(k, v). rbind (location_value E (PStr k) d) (\<lambda>w. Inr (py_eq w v))) kvs) (\<lambda>bs. Inr (list_ex id bs))
    | _ \<Rightarrow> Inl AttributeError) ignores"

definition filter_ignored :: "ext \<Rightarrow> pydict \<Rightarrow> pydict list \<Rightarrow> pydict list res" where
  "filter_ignored E data ds =
     rbind (py_iter (dget_or data ''ignore'' (PTuple []))) (\<lambda>ignores.
     rfilter (\<lambda>d. rbind (ignored E ignores d) (\<lambda>b. Inr (\<not> b))) ds)"

text \<open>\<open>{r[id]: value}\<close> of some resources; ids are strings.\<close>

definition values_by_id :: "ext \<Rightarrow> pyval \<Rightarrow> string \<Rightarrow> pydict list \<Rightarrow> pydict res" where
  "values_by_id E key id_key ds = rfold (\<lambda>m d. rbind (dindex d id_key) (\<lambda>i. rbind (location_value E key d) (\<lambda>v.
     case i of PStr s \<Rightarrow> Inr (dput s v m) | _ \<Rightarrow> Inl TypeError))) [] ds"

definition space_of :: "pydict \<Rightarrow> pyval list res" where
  "space_of vs = (let xs = filter py_truth (dvalues vs)
     in if list_all hashable xs then Inr (dedup xs) else Inl TypeError)"

record location_conf =
  lc_compare :: "string list"
  lc_max :: int
  lc_match :: pyval
  lc_missing_ok :: bool

definition strings_in :: "pyval \<Rightarrow> string list res" where
  "strings_in v = rbind (py_iter v) (\<lambda>xs. Inr (concat (map (\<lambda>x. case x of PStr s \<Rightarrow> [s] | _ \<Rightarrow> []) xs)))"

definition location_init :: "pydict \<Rightarrow> location_conf res" where
  "location_init data =
     rbind (strings_in (dget_or data ''compare'' (PList (map PStr [''subnet'', ''security-group'', ''resource''])))) (\<lambda>compare.
     rbind (case dget_or data ''max-cardinality'' (PInt 1) of PInt i \<Rightarrow> Inr i | _ \<Rightarrow> Inl TypeError) (\<lambda>m.
       Inr \<lparr>lc_compare = compare, lc_max = m, lc_match = dget_or data ''match'' (PStr ''not-equal''),
            lc_missing_ok = py_truth (dget_or data ''missing-ok'' (PBool False))\<rparr>))"

definition reason :: "string \<Rightarrow> pydict \<Rightarrow> pyval" where
  "reason name kvs = PDict ((''reason'', PStr name) # kvs)"

definition has_none :: "pydict \<Rightarrow> bool" where
  "has_none vs = list_ex (\<lambda>v. v = PNone) (dvalues vs)"

text \<open>What is said of the subnets or of the groups, under the names of each kind.\<close>

definition kind_reasons :: "location_conf \<Rightarrow> string \<Rightarrow> string \<Rightarrow> string \<Rightarrow> pydict \<Rightarrow> pyval list \<Rightarrow> pyval list" where
  "kind_reasons c absent many label vs space =
     (if \<not> lc_missing_ok c \<and> has_none vs then [reason absent [(label, PDict vs)]] else []) @
     (if int (length space) > lc_max c then [reason many [(label, PDict vs)]] else [])"

definition mismatched :: "pydict \<Rightarrow> pyval \<Rightarrow> pydict" where
  "mismatched sg_values v = filter (\<lambda>(k, w). \<not> py_eq w v) sg_values"

text \<open>
  What is said of the resource itself; \<open>has_sgs\<close> and \<open>has_subnets\<close> tell whether it has groups and
  subnets that are not ignored. \<open>in_space\<close> is the membership in a set.
\<close>

definition in_space :: "pyval \<Rightarrow> pyval list \<Rightarrow> bool res" where
  "in_space v space = (if hashable v then Inr (mem_eq v space) else Inl TypeError)"

definition resource_reasons ::
  "location_conf \<Rightarrow> bool \<Rightarrow> bool \<Rightarrow> pydict \<Rightarrow> pydict \<Rightarrow> pyval list \<Rightarrow> pyval list \<Rightarrow> pyval \<Rightarrow> pyval list res" where
  "resource_reasons c has_sgs has_subnets sg_values subnet_values sg_space subnet_space v =
     (let sgs = (''security-group'' \<in> set (lc_compare c) \<and> has_sgs);
          subnets = (''subnet'' \<in> set (lc_compare c) \<and> has_subnets)
      in rbind (if \<not> lc_missing_ok c \<and> v = PNone then Inr [reason ''ResourceLocationAbsent'' [(''resource'', v)]]
                else rbind (if sgs then in_space v sg_space else Inr True) (\<lambda>in_sgs.
                  if \<not> in_sgs then Inr [reason ''ResourceLocationMismatch'' [(''resource'', v), (''security-groups'', PDict sg_values)]]
                  else rbind (if subnets then in_space v subnet_space else Inr True) (\<lambda>in_subnets.
                    if \<not> in_subnets then Inr [reason ''ResourceLocationMismatch'' [(''resource'', v), (''subnet'', PDict subnet_values)]]
                    else Inr []))) (\<lambda>first.
         let wrong = mismatched sg_values v
         in Inr (first @ (if sgs \<and> wrong \<noteq> []
                  then [reason ''SecurityGroupMismatch'' [(''resource'', v), (''security-groups'', PDict wrong)]] else []))))"

definition evaluate_location ::
  "ext \<Rightarrow> location_conf \<Rightarrow> pyval \<Rightarrow> string \<Rightarrow> string \<Rightarrow> pydict list \<Rightarrow> pydict list \<Rightarrow> pydict \<Rightarrow> pyval list res" where
  "evaluate_location E c key sg_id subnet_id sgs subnets r =
     (let cmp = set (lc_compare c)
      in rbind (if ''subnet'' \<in> cmp then values_by_id E key subnet_id subnets else Inr []) (\<lambda>subnet_values.
         rbind (space_of subnet_values) (\<lambda>subnet_space.
         rbind (if ''security-group'' \<in> cmp then values_by_id E key sg_id sgs else Inr []) (\<lambda>sg_values.
         rbind (space_of sg_values) (\<lambda>sg_space.
         rbind (if ''resource'' \<in> cmp
                then rbind (location_value E key r) (resource_reasons c (sgs \<noteq> []) (subnets \<noteq> []) sg_values subnet_values sg_space subnet_space)
                else Inr []) (\<lambda>own.
           Inr ((if ''subnet'' \<in> cmp then kind_reasons c ''SubnetLocationAbsent'' ''SubnetLocationCardinality'' ''subnets'' subnet_values subnet_space else []) @
                (if ''security-group'' \<in> cmp then kind_reasons c ''SecurityGroupLocationAbsent'' ''SecurityGroupLocationCardinality'' ''security-groups'' sg_values sg_space else []) @
                (if ''subnet'' \<in> cmp \<and> ''security-group'' \<in> cmp \<and> \<not> same_set sg_space subnet_space
                 then [reason ''LocationMismatch'' [(''subnets'', PDict subnet_values), (''security-groups'', PDict sg_values)]] else []) @
                own)))))))"

text \<open>\<open>process_match_in\<close>: every value, and the resource's own, is one of those listed.\<close>

definition location_in ::
  "ext \<Rightarrow> location_conf \<Rightarrow> pyval list \<Rightarrow> pyval \<Rightarrow> string \<Rightarrow> string \<Rightarrow> pydict list \<Rightarrow> pydict list \<Rightarrow> pydict \<Rightarrow> bool res" where
  "location_in E c allowed key sg_id subnet_id sgs subnets r =
     (let kind = (\<lambda>name id_key ds.
            if name \<in> set (lc_compare c)
            then rbind (values_by_id E key id_key ds) (\<lambda>vs.
                 if \<not> lc_missing_ok c \<and> has_none vs then Inr False
                 else rbind (space_of vs) (\<lambda>space. Inr (subset_of space allowed)))
            else Inr True)
      in rbind (kind ''subnet'' subnet_id subnets) (\<lambda>a. if \<not> a then Inr False
         else rbind (kind ''security-group'' sg_id sgs) (\<lambda>b. if \<not> b then Inr False
         else if ''resource'' \<in> set (lc_compare c)
         then rbind (location_value E key r) (\<lambda>v.
              if \<not> lc_missing_ok c \<and> v = PNone then Inr False else in_space v allowed)
         else Inr True)))"

text \<open>The resource as it is kept, with what was found when it is not equal.\<close>

definition location_resource ::
  "ext \<Rightarrow> location_conf \<Rightarrow> pydict \<Rightarrow> string \<Rightarrow> string \<Rightarrow> pydict list \<Rightarrow> pydict list \<Rightarrow> pydict \<Rightarrow> pydict option res" where
  "location_resource E c data sg_id subnet_id sgs subnets r =
     (let key = dget_or data ''key'' PNone
      in if py_eq (lc_match c) (PStr ''in'')
         then rbind (py_set (dget_or data ''value'' (PList []))) (\<lambda>allowed.
              rbind (location_in E c allowed key sg_id subnet_id sgs subnets r) (\<lambda>b. Inr (if b then Some r else None)))
         else rbind (evaluate_location E c key sg_id subnet_id sgs subnets r) (\<lambda>found.
              Inr (if found \<noteq> [] \<and> py_eq (lc_match c) (PStr ''not-equal'') then Some (dput ''c7n:NetworkLocation'' (PList found) r)
                   else if found = [] \<and> py_eq (lc_match c) (PStr ''equal'') then Some r else None)))"

text \<open>\<open>process\<close>, with the related groups and subnets and the expressions for their ids.\<close>

definition related_of :: "ext \<Rightarrow> string \<Rightarrow> related \<Rightarrow> pydict \<Rightarrow> pydict list res" where
  "related_of E expr related r =
     rbind (get_related_ids E expr [r]) (\<lambda>ids. Inr (concat (map (\<lambda>i. case dget related i of None \<Rightarrow> [] | Some d \<Rightarrow> [d]) ids)))"

definition location_process ::
  "ext \<Rightarrow> pydict \<Rightarrow> related_conf \<Rightarrow> related_conf \<Rightarrow> related \<Rightarrow> related \<Rightarrow> pydict list \<Rightarrow> pydict list res" where
  "location_process E data sg subnet related_sg related_subnet rs =
     rbind (location_init data) (\<lambda>c.
     rbind (rmap (\<lambda>r.
       rbind (rbind (related_of E (rc_expr sg) related_sg r) (filter_ignored E data)) (\<lambda>sgs.
       rbind (rbind (related_of E (rc_expr subnet) related_subnet r) (filter_ignored E data)) (\<lambda>subnets.
       rbind (location_resource E c data (rc_id sg) (rc_id subnet) sgs subnets r) (\<lambda>found.
         Inr (case found of Some (x # xs) \<Rightarrow> [x # xs] | _ \<Rightarrow> []))))) rs) (\<lambda>founds. Inr (concat founds)))"

section \<open>Facts\<close>

lemma rfilter_append:
  "rfilter f (xs @ ys) = rbind (rfilter f xs) (\<lambda>a. rbind (rfilter f ys) (\<lambda>b. Inr (a @ b)))"
proof (induction xs)
  case (Cons x xs)
  then show ?case by (cases "f x"; cases "rfilter f xs"; cases "rfilter f ys") auto
qed (simp add: rbind_return)

text \<open>The test \<open>location_groups\<close> makes of a reason.\<close>

definition says_mismatch :: "pyval \<Rightarrow> bool res" where
  "says_mismatch x = (case x of
      PDict d \<Rightarrow> rbind (dindex d ''reason'') (\<lambda>v. Inr (py_eq v (PStr ''SecurityGroupMismatch'')))
    | _ \<Rightarrow> Inl TypeError)"

lemma says_mismatch_reason [simp]: "says_mismatch (reason name kvs) = Inr (name = ''SecurityGroupMismatch'')"
  by (simp add: says_mismatch_def reason_def dindex_def)

definition other_reasons :: "pyval list \<Rightarrow> bool" where
  "other_reasons xs \<longleftrightarrow> rfilter says_mismatch xs = Inr []"

lemma other_reasons_append: "other_reasons xs \<Longrightarrow> other_reasons ys \<Longrightarrow> other_reasons (xs @ ys)"
  by (simp add: other_reasons_def rfilter_append)

lemma other_reasons_simps:
  "other_reasons []" "name \<noteq> ''SecurityGroupMismatch'' \<Longrightarrow> other_reasons [reason name kvs]"
  by (simp_all add: other_reasons_def)

lemma kind_reasons_other:
  "absent \<noteq> ''SecurityGroupMismatch'' \<Longrightarrow> many \<noteq> ''SecurityGroupMismatch'' \<Longrightarrow>
     other_reasons (kind_reasons c absent many label vs space)"
  by (simp add: kind_reasons_def other_reasons_append other_reasons_simps)

text \<open>What \<open>evaluate_location\<close> says at its end, about groups of another value.\<close>

definition group_reasons :: "pydict \<Rightarrow> pyval \<Rightarrow> pyval list" where
  "group_reasons vs v = (if mismatched vs v = [] then []
     else [reason ''SecurityGroupMismatch'' [(''resource'', v), (''security-groups'', PDict (mismatched vs v))]])"

lemma resource_reasons_mismatch:
  assumes "resource_reasons c True has_subnets sg_values subnet_values sg_space subnet_space v = Inr own"
    and "''security-group'' \<in> set (lc_compare c)"
  shows "\<exists>first. other_reasons first \<and> own = first @ group_reasons sg_values v"
proof -
  define first where "first = (if \<not> lc_missing_ok c \<and> v = PNone then Inr [reason ''ResourceLocationAbsent'' [(''resource'', v)]]
      else rbind (in_space v sg_space) (\<lambda>in_sgs.
        if \<not> in_sgs then Inr [reason ''ResourceLocationMismatch'' [(''resource'', v), (''security-groups'', PDict sg_values)]]
        else rbind (if ''subnet'' \<in> set (lc_compare c) \<and> has_subnets then in_space v subnet_space else Inr True) (\<lambda>in_subnets.
          if \<not> in_subnets then Inr [reason ''ResourceLocationMismatch'' [(''resource'', v), (''subnet'', PDict subnet_values)]]
          else Inr [])))"
  have "resource_reasons c True has_subnets sg_values subnet_values sg_space subnet_space v =
      rbind first (\<lambda>xs. Inr (xs @ group_reasons sg_values v))"
    using assms(2) by (simp add: resource_reasons_def first_def group_reasons_def Let_def)
  with assms(1) obtain xs where xs: "first = Inr xs" "own = xs @ group_reasons sg_values v"
    by (auto simp: rbind_eq_Inr)
  from xs(1) have "other_reasons xs"
    unfolding first_def by (auto simp: rbind_eq_Inr other_reasons_simps split: if_splits)
  with xs(2) show ?thesis by blast
qed

lemma values_by_id_wf: "values_by_id E key i ds = Inr vs \<Longrightarrow> dwf vs"
proof -
  have "(case k of PStr s \<Rightarrow> Inr (dput s v m) | _ \<Rightarrow> Inl TypeError) = Inr m' \<Longrightarrow> dwf m \<Longrightarrow> dwf m'" for k v m m'
    by (cases k) (auto simp: dwf_dput)
  then show "values_by_id E key i ds = Inr vs \<Longrightarrow> dwf vs"
    unfolding values_by_id_def by (elim rfold_keeps) (auto simp only: rbind_eq_Inr dwf_Nil)
qed

lemma evaluate_mismatch:
  assumes "evaluate_location E c key sg_id subnet_id sgs subnets r = Inr found"
    and "''security-group'' \<in> set (lc_compare c)" "''resource'' \<in> set (lc_compare c)" "sgs \<noteq> []"
    and "values_by_id E key sg_id sgs = Inr vs" "location_value E key r = Inr v"
  shows "\<exists>first. other_reasons first \<and> found = first @ group_reasons vs v"
proof -
  define subs where "subs = (\<lambda>held space. if ''subnet'' \<in> set (lc_compare c)
    then kind_reasons c ''SubnetLocationAbsent'' ''SubnetLocationCardinality'' ''subnets'' held space else [])"
  define groups where "groups = kind_reasons c ''SecurityGroupLocationAbsent'' ''SecurityGroupLocationCardinality'' ''security-groups'' vs"
  define both where "both = (\<lambda>held space sg_space. if ''subnet'' \<in> set (lc_compare c) \<and> \<not> same_set sg_space space
    then [reason ''LocationMismatch'' [(''subnets'', PDict held), (''security-groups'', PDict vs)]] else [])"
  from assms obtain held space sg_space own where
    own: "resource_reasons c True (subnets \<noteq> []) vs held sg_space space v = Inr own" and
    found: "found = subs held space @ groups sg_space @ both held space sg_space @ own"
    unfolding evaluate_location_def subs_def groups_def both_def by (simp only: rbind_eq_Inr Let_def if_True simp_thms sum.inject ex_simps) blast
  from resource_reasons_mismatch[OF own assms(2)] obtain first where first: "other_reasons first" "own = first @ group_reasons vs v"
    by blast
  have "other_reasons (subs held space @ groups sg_space @ both held space sg_space @ first)"
    using first(1) by (simp add: subs_def groups_def both_def other_reasons_append other_reasons_simps kind_reasons_other)
  with found first(2) show ?thesis by (metis append.assoc)
qed

lemma reason_case [simp]:
  "(case reason name kvs of PDict d \<Rightarrow> f d | _ \<Rightarrow> y) = f ((''reason'', PStr name) # kvs)"
  by (simp add: reason_def)

lemma location_groups_mismatch:
  assumes "other_reasons first"
  shows "location_groups (dput ''c7n:NetworkLocation'' (PList (first @ group_reasons vs v)) r)
    = Inr (if mismatched vs v = [] then None else Some (dkeys (mismatched vs v)))"
proof -
  have strs: "strings_of (map PStr ks) = Inr ks" for ks unfolding strings_of_def by (induction ks) auto
  have "(\<lambda>x. case x of PDict d \<Rightarrow> rbind (dindex d ''reason'') (\<lambda>v. Inr (py_eq v (PStr ''SecurityGroupMismatch'')))
      | _ \<Rightarrow> Inl TypeError) = says_mismatch"
    by (simp add: says_mismatch_def fun_eq_iff)
  with assms show ?thesis
    by (simp add: location_groups_def dget_or_def other_reasons_def rfilter_append strs group_reasons_def dindex_def)
qed

text \<open>What removing the groups of the wrong location leaves: a resource the \<open>network-location\<close>
  filter found not equal, comparing it with its security groups, keeps under \<open>remove:
  network-location\<close> exactly the groups that were not compared or whose value is its own.
\<close>

theorem wrong_location_removed:
  assumes "location_resource E c data sg_id subnet_id sgs subnets r = Inr (Some r')" "lc_match c = PStr ''not-equal''"
    and "''security-group'' \<in> set (lc_compare c)" "''resource'' \<in> set (lc_compare c)" "sgs \<noteq> []"
    and "values_by_id E (dget_or data ''key'' PNone) sg_id sgs = Inr vs" "location_value E (dget_or data ''key'' PNone) r = Inr v"
    and "distinct gs"
  shows "\<exists>rm. resolve_remove_symbols r' [''network-location''] = Inr (Ids rm) \<and>
    set (remove_groups (Ids rm) gs) - {''network-location''} =
      {g \<in> set gs. case dget vs g of None \<Rightarrow> True | Some w \<Rightarrow> py_eq w v} - {''network-location''}"
proof -
  from assms(1,2) obtain found where found: "evaluate_location E c (dget_or data ''key'' PNone) sg_id subnet_id sgs subnets r = Inr found"
    "r' = dput ''c7n:NetworkLocation'' (PList found) r"
    by (auto simp: location_resource_def Let_def rbind_eq_Inr split: if_splits)
  from evaluate_mismatch[OF found(1) assms(3-7)] obtain first where first: "other_reasons first"
    "found = first @ group_reasons vs v"
    by blast
  let ?rm = "if mismatched vs v = [] then [''network-location''] else dkeys (mismatched vs v)"
  have "resolve_remove_symbols r' [''network-location''] = Inr (Ids ?rm)"
    using location_groups_mismatch[OF first(1), of vs v r]
    by (simp add: resolve_remove_symbols_def found(2) first(2))
  moreover have mem: "g \<in> set (dkeys (mismatched vs v)) \<longleftrightarrow> (\<exists>w. dget vs g = Some w \<and> \<not> py_eq w v)" for g
    using values_by_id_wf[OF assms(6)] by (force simp: mismatched_def dkeys_def dwf_def)
  have "set (remove_groups (Ids ?rm) gs) = set gs - set ?rm"
    using set_fold_remove1[OF assms(8)] by (simp add: remove_groups_def)
  with mem have "set (remove_groups (Ids ?rm) gs) - {''network-location''} =
      {g \<in> set gs. case dget vs g of None \<Rightarrow> True | Some w \<Rightarrow> py_eq w v} - {''network-location''}"
    by (cases "mismatched vs v = []") (auto simp: dkeys_def split: option.splits)
  ultimately show ?thesis by blast
qed

text \<open>An instance of one place with a group of its place and one of another.\<close>

definition ex_placed :: "string \<Rightarrow> string \<Rightarrow> pydict" where
  "ex_placed i place = [(''Id'', PStr i), (''Place'', PStr place)]"

definition ex_place_data :: pydict where
  "ex_place_data = [(''type'', PStr ''network-location''), (''key'', PStr ''Place'')]"

definition ex_place_conf :: location_conf where
  "ex_place_conf = \<lparr>lc_compare = [''resource'', ''security-group''], lc_max = 2, lc_match = PStr ''not-equal'', lc_missing_ok = False\<rparr>"

lemma wrong_location_removed_witness:
  "\<exists>r' rm. location_resource (ext0 0) ex_place_conf ex_place_data ''Id'' ''Id''
     [ex_placed ''sg-1'' ''east'', ex_placed ''sg-2'' ''west''] [] (ex_placed ''i-1'' ''east'') = Inr (Some r') \<and>
   resolve_remove_symbols r' [''network-location''] = Inr (Ids rm) \<and>
   set (remove_groups (Ids rm) [''sg-1'', ''sg-2'', ''sg-3'']) - {''network-location''} = {''sg-1'', ''sg-3''}"
proof -
  let ?sgs = "[ex_placed ''sg-1'' ''east'', ex_placed ''sg-2'' ''west'']"
  let ?run = "location_resource (ext0 0) ex_place_conf ex_place_data ''Id'' ''Id'' ?sgs [] (ex_placed ''i-1'' ''east'')"
  have "\<exists>r'. ?run = Inr (Some r')"
  proof -
    have "case ?run of Inr (Some r') \<Rightarrow> True | _ \<Rightarrow> False" by code_simp
    then show ?thesis by (auto split: sum.splits option.splits)
  qed
  then obtain r' where run: "?run = Inr (Some r')" by blast
  have conf: "lc_match ex_place_conf = PStr ''not-equal''" "''security-group'' \<in> set (lc_compare ex_place_conf)"
      "''resource'' \<in> set (lc_compare ex_place_conf)" "?sgs \<noteq> []"
    by (simp_all add: ex_place_conf_def)
  have vals: "values_by_id (ext0 0) (dget_or ex_place_data ''key'' PNone) ''Id'' ?sgs = Inr [(''sg-1'', PStr ''east''), (''sg-2'', PStr ''west'')]"
      "location_value (ext0 0) (dget_or ex_place_data ''key'' PNone) (ex_placed ''i-1'' ''east'') = Inr (PStr ''east'')"
    by code_simp+
  have dist: "distinct [''sg-1'', ''sg-2'', ''sg-3'']" by simp
  have kept: "{g \<in> set [''sg-1'', ''sg-2'', ''sg-3'']. case dget [(''sg-1'', PStr ''east''), (''sg-2'', PStr ''west'')] g of
      None \<Rightarrow> True | Some w \<Rightarrow> py_eq w (PStr ''east'')} - {''network-location''} = {''sg-1'', ''sg-3''}"
    by auto
  from wrong_location_removed[OF run conf vals dist] run show ?thesis unfolding kept by blast
qed

end
