(* ===== verification/Metrics.thy ===== *)
theory Metrics
  imports Filter_Calls Utils_Data "HOL-Library.Multiset"
begin

text \<open>
  Filters by metrics (\<open>c7n/filters/metrics.py\<close>): the window asked for, the datapoints of a
  resource, which are kept on it as an annotation, and the sets of resources that are worked
  on apart. The service that answers with datapoints is a function of its parameters.
\<close>

section \<open>Numbers\<close>

text \<open>\<open>x / y\<close> and \<open>x * y\<close> of floats.\<close>

definition inf_signed :: "bool \<Rightarrow> pyfloat" where
  "inf_signed positive = (if positive then PosInf else NegInf)"

fun float_times :: "pyfloat \<Rightarrow> pyfloat \<Rightarrow> pyfloat" where
  "float_times (Fin x) (Fin y) = round_double (x * y)"
| "float_times NaN y = NaN"
| "float_times x NaN = NaN"
| "float_times (Fin x) y = (if x = 0 then NaN else inf_signed ((0 < x) = (y = PosInf)))"
| "float_times x (Fin y) = (if y = 0 then NaN else inf_signed ((0 < y) = (x = PosInf)))"
| "float_times x y = inf_signed (x = y)"

fun float_over :: "pyfloat \<Rightarrow> pyfloat \<Rightarrow> pyfloat res" where
  "float_over x (Fin y) =
     (if y = 0 then Inl ZeroDivisionError
      else case x of
          Fin a \<Rightarrow> Inr (round_double (a / y))
        | NaN \<Rightarrow> Inr NaN
        | _ \<Rightarrow> Inr (inf_signed ((0 < y) = (x = PosInf))))"
| "float_over (Fin x) NaN = Inr NaN"
| "float_over (Fin x) y = Inr (Fin 0)"
| "float_over x y = Inr NaN"

definition to_double :: "pyval \<Rightarrow> pyfloat res" where
  "to_double v = (case num_of v of
      None \<Rightarrow> Inl TypeError
    | Some (Fin x) \<Rightarrow> (case v of
          PFloat f \<Rightarrow> Inr f
        | _ \<Rightarrow> (case round_double x of Fin y \<Rightarrow> Inr (Fin y) | _ \<Rightarrow> Inl OverflowError))
    | Some f \<Rightarrow> Inr f)"

definition int_of :: "pyval \<Rightarrow> int option" where
  "int_of v = (case v of PInt i \<Rightarrow> Some i | PBool b \<Rightarrow> Some (if b then 1 else 0) | _ \<Rightarrow> None)"

definition num_truediv :: "pyval \<Rightarrow> pyval \<Rightarrow> pyval res" where
  "num_truediv a b = (case (int_of a, int_of b) of
      (Some i, Some j) \<Rightarrow>
        if j = 0 then Inl ZeroDivisionError
        else (case int_truediv i j of Fin x \<Rightarrow> Inr (PFloat (Fin x)) | _ \<Rightarrow> Inl OverflowError)
    | _ \<Rightarrow> rbind (to_double a) (\<lambda>x. rbind (to_double b) (\<lambda>y. rbind (float_over x y) (\<lambda>z. Inr (PFloat z)))))"

definition num_mul :: "pyval \<Rightarrow> pyval \<Rightarrow> pyval res" where
  "num_mul a b = (case (int_of a, int_of b) of
      (Some i, Some j) \<Rightarrow> Inr (PInt (i * j))
    | _ \<Rightarrow> rbind (to_double a) (\<lambda>x. rbind (to_double b) (\<lambda>y. Inr (PFloat (float_times x y)))))"

text \<open>\<open>int(v)\<close>.\<close>

definition to_int :: "pyval \<Rightarrow> int res" where
  "to_int v = (case v of
      PInt i \<Rightarrow> Inr i
    | PBool b \<Rightarrow> Inr (if b then 1 else 0)
    | PFloat f \<Rightarrow> int_of_float f
    | PStr s \<Rightarrow> (case int_of_str s of None \<Rightarrow> Inl ValueError | Some i \<Rightarrow> Inr i)
    | _ \<Rightarrow> Inl TypeError)"

section \<open>The window\<close>

definition second_us :: int where "second_us = 1000000"
definition day_us :: int where "day_us = 86400 * second_us"

text \<open>\<open>snap_to_period_start\<close> of \<open>c7n/utils.py\<close>, on times in microseconds since the epoch.\<close>

definition start_of_day :: "int \<Rightarrow> int" where
  "start_of_day t = t - t mod day_us"

definition snap_to_period_start :: "int \<Rightarrow> int \<Rightarrow> pyval \<Rightarrow> int \<times> int" where
  "snap_to_period_start start stop period_start =
     (if py_eq period_start (PStr ''start-of-day'') then (start_of_day start, start_of_day stop) else (start, stop))"

text \<open>
  \<open>get_metric_window\<close>: the end is moved to the next second, minute, five minutes or hour, by
  the length of the window.
\<close>

definition granule :: "int \<Rightarrow> int" where
  "granule duration =
     (if duration \<le> 3 * 3600 * second_us then second_us
      else if duration \<le> 15 * day_us then 60 * second_us
      else if duration \<le> 63 * day_us then 300 * second_us
      else 3600 * second_us)"

definition next_granule :: "int \<Rightarrow> int \<Rightarrow> int" where
  "next_granule g now = now - now mod g + g"

definition metric_days :: "pydict \<Rightarrow> pyval" where
  "metric_days data = dget_or data ''days'' (PInt 14)"

definition get_metric_window :: "int \<Rightarrow> pydict \<Rightarrow> (int \<times> int) res" where
  "get_metric_window now data =
     rbind (timedelta_days (metric_days data)) (\<lambda>duration.
     rbind (date_in_range (next_granule (granule duration) now)) (\<lambda>stop.
     rbind (date_in_range (stop - duration)) (\<lambda>start.
       Inr (snap_to_period_start start stop (dget_or data ''period-start'' (PStr ''auto''))))))"

section \<open>Validation\<close>

definition standard_stats :: "string list" where
  "standard_stats = [''Average'', ''Sum'', ''Maximum'', ''Minimum'', ''SampleCount'']"

text \<open>\<open>extended_stats_re\<close>: p, one to three digits, a point or none, a digit or none.\<close>

definition extended_stat :: "string \<Rightarrow> bool" where
  "extended_stat s = (case s of
      [] \<Rightarrow> False
    | c # cs \<Rightarrow> c = CHR ''p'' \<and>
        (let line = (if cs \<noteq> [] \<and> last cs = CHR 0x0A then butlast cs else cs);
             ds = takeWhile is_digit line; rest = dropWhile is_digit line
         in rest = [] \<and> 1 \<le> length ds \<and> length ds \<le> 4 \<or>
            rest \<noteq> [] \<and> hd rest = CHR ''.'' \<and> 1 \<le> length ds \<and> length ds \<le> 3 \<and>
              (tl rest = [] \<or> (\<exists>d. tl rest = [d] \<and> is_digit d))))"

definition metrics_validate :: "ext \<Rightarrow> pydict \<Rightarrow> unit res" where
  "metrics_validate E data =
     rbind (case dget_or data ''statistics'' (PStr ''Average'') of
         PStr s \<Rightarrow> if s \<in> set standard_stats \<or> extended_stat s then Inr () else Inl PolicyValidationError
       | _ \<Rightarrow> Inl TypeError) (\<lambda>_.
     rbind (op_gt (metric_days data) (PInt 455)) (\<lambda>b. if b then Inl PolicyValidationError else Inr ()))"

section \<open>Datapoints\<close>

definition DEFAULT_NAMESPACE :: "(string, string) odict" where
  "DEFAULT_NAMESPACE =
    [(''apigateway'', ''AWS/ApiGateway''), (''cloudfront'', ''AWS/CloudFront''), (''cloudsearch'', ''AWS/CloudSearch''),
     (''dynamodb'', ''AWS/DynamoDB''), (''ecs'', ''AWS/ECS''), (''ecr'', ''AWS/ECR''), (''efs'', ''AWS/EFS''),
     (''elasticache'', ''AWS/ElastiCache''), (''ec2'', ''AWS/EC2''), (''elb'', ''AWS/ELB''), (''elbv2'', ''AWS/ApplicationELB''),
     (''emr'', ''AWS/ElasticMapReduce''), (''es'', ''AWS/ES''), (''events'', ''AWS/Events''), (''firehose'', ''AWS/Firehose''),
     (''fsx'', ''AWS/FSx''), (''kinesis'', ''AWS/Kinesis''), (''lambda'', ''AWS/Lambda''), (''logs'', ''AWS/Logs''),
     (''redshift'', ''AWS/Redshift''), (''rds'', ''AWS/RDS''), (''route53'', ''AWS/Route53''), (''s3'', ''AWS/S3''),
     (''sns'', ''AWS/SNS''), (''sqs'', ''AWS/SQS''), (''workspaces'', ''AWS/WorkSpaces''), (''bedrock'', ''AWS/Bedrock'')]"

text \<open>What \<open>process\<close> sets on the filter before it looks at resources.\<close>

record metric_conf =
  mc_namespace :: pyval
  mc_metric :: pyval
  mc_stat :: string
  mc_start :: int
  mc_end :: int
  mc_period :: int
  mc_op :: "pyval \<Rightarrow> pyval \<Rightarrow> bool res"
  mc_value :: pyval

text \<open>\<open>own\<close> is the namespace of the resource type, if it has one; \<open>service\<close> its service.\<close>

definition metric_namespace :: "pyval \<Rightarrow> string \<Rightarrow> pydict \<Rightarrow> pyval res" where
  "metric_namespace own service data =
     (let ns = dget_or data ''namespace'' PNone
      in if py_truth ns then Inr ns
         else if py_truth own then Inr own
         else rbind (dindex DEFAULT_NAMESPACE service) (\<lambda>n. Inr (PStr n)))"

definition metric_init :: "ext \<Rightarrow> pyval \<Rightarrow> string \<Rightarrow> pydict \<Rightarrow> metric_conf res" where
  "metric_init E own service data =
     rbind (get_metric_window (ext_now E) data) (\<lambda>(start, stop).
     rbind (dindex data ''name'') (\<lambda>metric.
     rbind (to_int (dget_or data ''period'' (PFloat (int_truediv (stop - start) second_us)))) (\<lambda>period.
     rbind (case dget_or data ''statistics'' (PStr ''Average'') of PStr s \<Rightarrow> Inr s | _ \<Rightarrow> Inl TypeError) (\<lambda>stat.
     rbind (case dget_or data ''op'' (PStr ''less-than'') of PStr s \<Rightarrow> dindex (OPERATORS E) s | _ \<Rightarrow> Inl KeyError) (\<lambda>f.
     rbind (dindex data ''value'') (\<lambda>v.
     rbind (metric_namespace own service data) (\<lambda>ns.
       Inr \<lparr>mc_namespace = ns, mc_metric = metric, mc_stat = stat, mc_start = start, mc_end = stop,
            mc_period = period, mc_op = f, mc_value = v\<rparr>)))))))"

text \<open>\<open>get_dimensions\<close> of the class itself and \<open>get_user_dimensions\<close>.\<close>

definition dimension :: "pyval \<Rightarrow> pyval \<Rightarrow> pyval" where
  "dimension name v = PDict [(''Name'', name), (''Value'', v)]"

definition get_dimensions :: "string \<Rightarrow> pydict \<Rightarrow> pyval list res" where
  "get_dimensions name d = rbind (dindex d name) (\<lambda>v. Inr [dimension (PStr name) v])"

definition get_user_dimensions :: "pydict \<Rightarrow> pyval list res" where
  "get_user_dimensions data = (case dget data ''dimensions'' of
      None \<Rightarrow> Inr []
    | Some (PDict ds) \<Rightarrow> Inr (map (\<lambda>(k, v). dimension (PStr k) v) ds)
    | Some _ \<Rightarrow> Inl AttributeError)"

definition metric_params :: "metric_conf \<Rightarrow> pyval list \<Rightarrow> pydict" where
  "metric_params c dims =
     [(''Namespace'', mc_namespace c), (''MetricName'', mc_metric c), (''StartTime'', PDate (mc_start c)),
      (''EndTime'', PDate (mc_end c)), (''Period'', PInt (mc_period c)), (''Dimensions'', PList dims),
      (if mc_stat c \<in> set standard_stats then ''Statistics'' else ''ExtendedStatistics'', PList [PStr (mc_stat c)])]"

text \<open>The key of the annotation: the window and the dimensions are not in it.\<close>

definition metric_key :: "ext \<Rightarrow> metric_conf \<Rightarrow> pydict \<Rightarrow> string" where
  "metric_key E c data =
     py_str E (mc_namespace c) @ ''.'' @ py_str E (mc_metric c) @ ''.'' @ mc_stat c @ ''.'' @ py_str E (metric_days data)"

text \<open>\<open>op\<close> on one datapoint, as it is or as a percentage of an attribute.\<close>

definition plain_point :: "metric_conf \<Rightarrow> pyval \<Rightarrow> bool res" where
  "plain_point c p = (case p of
      PDict q \<Rightarrow>
        rbind (case dget q ''ExtendedStatistics'' of None \<Rightarrow> Inr q | Some (PDict x) \<Rightarrow> Inr x | Some _ \<Rightarrow> Inl TypeError) (\<lambda>x.
        rbind (dindex x (mc_stat c)) (\<lambda>v. mc_op c v (mc_value c)))
    | _ \<Rightarrow> Inl TypeError)"

definition percent_point :: "metric_conf \<Rightarrow> pyval \<Rightarrow> pyval \<Rightarrow> bool res" where
  "percent_point c rvalue p = (case p of
      PDict q \<Rightarrow> rbind (dindex q (mc_stat c)) (\<lambda>x. rbind (num_truediv x rvalue) (\<lambda>y.
        rbind (num_mul y (PInt 100)) (\<lambda>z. mc_op c z (mc_value c))))
    | _ \<Rightarrow> Inl TypeError)"

definition all_points :: "metric_conf \<Rightarrow> pydict \<Rightarrow> pydict \<Rightarrow> pyval list \<Rightarrow> bool res" where
  "all_points c data d points =
     (let attr = dget_or data ''percent-attr'' PNone; by = dget_or data ''attr-multiplier'' PNone
      in if py_truth attr
         then rbind (case attr of PStr k \<Rightarrow> dindex d k | _ \<Rightarrow> Inl KeyError) (\<lambda>v.
              rbind (if py_truth by then num_mul v by else Inr v) (\<lambda>rvalue. rall (percent_point c rvalue) points))
         else rall (plain_point c) points)"

definition fill_point :: "metric_conf \<Rightarrow> pyval \<Rightarrow> pyval" where
  "fill_point c v =
     PDict (dput ''c7n:detail'' (PStr ''Fill value for missing data'') (dput (mc_stat c) v [(''Timestamp'', PDate (mc_start c))]))"

text \<open>
  One resource of \<open>process_resource_set\<close>: what becomes of it, and whether it matches. What was
  collected for the key before is used again.
\<close>

type_synonym datapoints = "pydict \<Rightarrow> pyval list res"

definition metric_resource ::
  "ext \<Rightarrow> datapoints \<Rightarrow> (pydict \<Rightarrow> pyval list res) \<Rightarrow> metric_conf \<Rightarrow> pydict \<Rightarrow> pydict \<Rightarrow> pydict \<times> bool res" where
  "metric_resource E client dims c data d =
     (case rbind (dims d) (\<lambda>ds. rbind (get_user_dimensions data) (\<lambda>us. Inr (ds @ us))) of
        Inl e \<Rightarrow> (d, Inl e)
      | Inr ds \<Rightarrow>
          let key = metric_key E c data;
              d1 = (if dhas d ''c7n.metrics'' then d else dput ''c7n.metrics'' (PDict []) d)
          in case dget d1 ''c7n.metrics'' of
               Some (PDict m) \<Rightarrow>
                 (case (case dget m key of
                     Some (PList ps) \<Rightarrow> Inr ps | Some _ \<Rightarrow> Inl TypeError | None \<Rightarrow> client (metric_params c ds)) of
                    Inl e \<Rightarrow> (d1, Inl e)
                  | Inr points \<Rightarrow>
                      let keep = (\<lambda>ps. dput ''c7n.metrics'' (PDict (dput key (PList ps) m)) d1)
                      in if points \<noteq> [] then (keep points, all_points c data (keep points) points)
                         else (case dget data ''missing-value'' of
                             None \<Rightarrow> (keep [], Inr False)
                           | Some v \<Rightarrow> (keep [fill_point c v], all_points c data (keep [fill_point c v]) [fill_point c v])))
             | _ \<Rightarrow> (d1, Inl TypeError))"

fun process_resource_set ::
  "(pydict \<Rightarrow> pydict \<times> bool res) \<Rightarrow> store \<Rightarrow> ref list \<Rightarrow> store \<times> ref list res" where
  "process_resource_set f st [] = (st, Inr [])"
| "process_resource_set f st (r # rs) =
     (let (d, b) = f (st r); st1 = st(r := d)
      in case b of
           Inl e \<Rightarrow> (st1, Inl e)
         | Inr b \<Rightarrow> let (st2, out) = process_resource_set f st1 rs
                    in (st2, rbind out (\<lambda>qs. Inr (if b then r # qs else qs))))"

fun process_sets :: "(pydict \<Rightarrow> pydict \<times> bool res) \<Rightarrow> store \<Rightarrow> ref list list \<Rightarrow> store \<times> ref list res list" where
  "process_sets f st [] = (st, [])"
| "process_sets f st (rs # rss) =
     (let (st1, out) = process_resource_set f st rs; (st2, outs) = process_sets f st1 rss in (st2, out # outs))"

text \<open>
  \<open>process\<close>: sets of fifty are worked on by three threads, each on its own resources; their
  results are taken in the order the sets are done, and a set that raised has none.
\<close>

definition metric_process ::
  "ext \<Rightarrow> datapoints \<Rightarrow> (pydict \<Rightarrow> pyval list res) \<Rightarrow> pyval \<Rightarrow> string \<Rightarrow> (ref list res list \<Rightarrow> ref list res list) \<Rightarrow>
   pydict \<Rightarrow> store \<Rightarrow> ref list \<Rightarrow> (store \<times> ref list) res" where
  "metric_process E client dims own service done data st rs =
     rbind (metric_init E own service data) (\<lambda>c.
     rbind (chunks 50 rs) (\<lambda>sets.
       let (st', outs) = process_sets (metric_resource E client dims c data) st sets
       in Inr (st', concat (map (\<lambda>out. case out of Inl e \<Rightarrow> [] | Inr qs \<Rightarrow> qs) (done outs)))))"

text \<open>The metrics of \<open>ShieldMetrics\<close>, with its own namespace and dimension.\<close>

definition shield_names :: "string list" where
  "shield_names = [''DDoSAttackBitsPerSecond'', ''DDoSAttackRequestsPerSecond'', ''DDoSDetected'']"

definition shield_validate :: "pydict \<Rightarrow> unit res" where
  "shield_validate data =
     (case dget data ''name'' of
        Some (PStr s) \<Rightarrow> if s \<in> set shield_names then Inr () else Inl PolicyValidationError
      | Some _ \<Rightarrow> Inl PolicyValidationError
      | None \<Rightarrow> Inl KeyError)"

definition shield_data :: "pydict \<Rightarrow> pydict" where
  "shield_data data = dput ''namespace'' (PStr ''AWS/DDoSProtection'') data"

definition shield_dimensions :: "(pydict \<Rightarrow> pyval list res) \<Rightarrow> pydict \<Rightarrow> pyval list res" where
  "shield_dimensions get_arns d = rbind (get_arns d) (\<lambda>as. case as of
      [] \<Rightarrow> Inl IndexError | a # _ \<Rightarrow> Inr [dimension (PStr ''ResourceArn'') a])"

section \<open>Facts about the window\<close>

lemma granule_divides: "granule t dvd day_us" "0 < granule t" "granule t < day_us"
proof -
  have "second_us dvd day_us" "60 * second_us dvd day_us" "300 * second_us dvd day_us" "3600 * second_us dvd day_us"
    by (simp_all add: day_us_def second_us_def)
  then show "granule t dvd day_us" by (simp add: granule_def)
  show "0 < granule t" "granule t < day_us" by (simp_all add: granule_def day_us_def second_us_def)
qed

lemma next_granule_bounds:
  assumes "0 < g"
  shows "now < next_granule g now" "next_granule g now \<le> now + g" "g dvd next_granule g now"
  using assms pos_mod_bound[of g now] pos_mod_sign[of g now]
  by (auto simp: next_granule_def dvd_minus_mod)

lemma start_of_next:
  assumes "g dvd day_us" "0 < g" "g < day_us"
  shows "start_of_day (next_granule g now) =
    (if now mod day_us < day_us - g then start_of_day now else start_of_day now + day_us)"
proof -
  define q r where "q = now div day_us" and "r = now mod day_us"
  have now: "now = q * day_us + r" and r: "0 \<le> r" "r < day_us" and pos: "0 < day_us"
    using assms(2,3) by (simp_all add: q_def r_def)
  have next_r: "r < next_granule g r" "next_granule g r \<le> r + g" "g dvd next_granule g r"
    using next_granule_bounds[OF assms(2), of r] by simp_all
  have "now mod g = r mod g" using assms(1) by (simp add: r_def mod_mod_cancel)
  then have split: "next_granule g now = q * day_us + next_granule g r"
    by (simp add: next_granule_def now)
  from assms(1) next_r(3) obtain a b where ab: "day_us = g * a" "next_granule g r = g * b" by (auto simp: dvd_def)
  have "next_granule g r \<le> day_us"
  proof -
    have "g * b < g * (a + 1)" using next_r(2) r(2) ab by (simp add: algebra_simps)
    then have "b \<le> a" using assms(2) by simp
    from mult_left_mono[OF this, of g] show ?thesis using ab assms(2) by (simp only: less_imp_le)
  qed
  moreover have "next_granule g r = day_us \<longleftrightarrow> day_us - g \<le> r"
  proof
    assume "day_us - g \<le> r"
    then have "g * a < g * b + g" using next_r(1) ab by (simp add: algebra_simps)
    then have "g * a < g * (b + 1)" by (simp add: algebra_simps)
    then have "a \<le> b" using assms(2) by simp
    then show "next_granule g r = day_us" using \<open>next_granule g r \<le> day_us\<close> ab assms(2) mult_left_mono[of a b g] by (simp only: antisym less_imp_le)
  qed (use next_r(2) in simp)
  ultimately have "next_granule g now mod day_us = (if r < day_us - g then next_granule g r else 0)"
    using next_r(1) r(1) by (auto simp: split not_less)
  then show ?thesis
    using \<open>next_granule g r = day_us \<longleftrightarrow> day_us - g \<le> r\<close> split now
    using r by (auto simp: start_of_day_def)
qed

text \<open>The window of a metrics filter: by default it has the length asked for and ends at the
  next full second, minute, five minutes or hour; aligned to days it ends at the start of this
  day, except in the last such piece of the day, when it ends at the start of the next one and
  so takes in the day that is not over.
\<close>

theorem metric_window_aligned:
  assumes "get_metric_window now data = Inr (start, stop)" "timedelta_days (metric_days data) = Inr t"
    and "dget_or data ''period-start'' (PStr ''auto'') = PStr aligned"
  shows "if aligned = ''start-of-day''
    then start = start_of_day start \<and>
      stop = (if now mod day_us < day_us - granule t then start_of_day now else start_of_day now + day_us)
    else stop - start = t \<and> now < stop \<and> stop \<le> now + granule t \<and> granule t dvd stop"
proof -
  from assms have window: "(start, stop) = snap_to_period_start (next_granule (granule t) now - t) (next_granule (granule t) now)
      (dget_or data ''period-start'' (PStr ''auto''))"
    by (auto simp: get_metric_window_def date_in_range_def rbind_eq_Inr split: if_splits)
  have again: "start_of_day (start_of_day x) = start_of_day x" for x by (simp add: start_of_day_def)
  show ?thesis
    using window start_of_next[OF granule_divides[of t], of now] next_granule_bounds[OF granule_divides(2)[of t], of now]
    by (simp add: snap_to_period_start_def assms(3) again split: if_splits)
qed

lemma metric_window_aligned_witness:
  "get_metric_window (day_us - 30 * second_us) [(''period-start'', PStr ''start-of-day'')] = Inr (day_us - 14 * day_us, day_us) \<and>
   start_of_day (day_us - 30 * second_us) = 0"
proof -
  let ?data = "[(''period-start'', PStr ''start-of-day'')]"
  have delta: "timedelta_days (metric_days ?data) = Inr (14 * day_us)"
    by (simp add: metric_days_def dget_or_def timedelta_days_def MAX_DELTA_DAYS_def day_us_def second_us_def)
  then have run: "get_metric_window (day_us - 30 * second_us) ?data = Inr (day_us - 14 * day_us, day_us)"
    by (simp add: get_metric_window_def granule_def next_granule_def date_in_range_def snap_to_period_start_def
        dget_or_def start_of_day_def day_us_def second_us_def)
  have "dget_or ?data ''period-start'' (PStr ''auto'') = PStr ''start-of-day''" by (simp add: dget_or_def)
  from metric_window_aligned[OF run delta this] run show ?thesis
    by (simp add: granule_def day_us_def second_us_def split: if_splits)
qed

section \<open>Facts about matching\<close>

text \<open>
  What the filter is to say of a resource nothing was collected for: the datapoints it gets, or
  the value for missing data, all meet the condition.
\<close>

definition metric_verdict ::
  "datapoints \<Rightarrow> (pydict \<Rightarrow> pyval list res) \<Rightarrow> metric_conf \<Rightarrow> pydict \<Rightarrow> pydict \<Rightarrow> bool res" where
  "metric_verdict client dims c data d =
     rbind (dims d) (\<lambda>ds. rbind (get_user_dimensions data) (\<lambda>us. rbind (client (metric_params c (ds @ us))) (\<lambda>points.
       if points \<noteq> [] then all_points c data d points
       else case dget data ''missing-value'' of None \<Rightarrow> Inr False | Some v \<Rightarrow> all_points c data d [fill_point c v])))"

lemma all_points_annotated:
  "dget_or data ''percent-attr'' PNone \<noteq> PStr ''c7n.metrics'' \<Longrightarrow>
     all_points c data (dput ''c7n.metrics'' v d) points = all_points c data d points"
  by (cases "dget_or data ''percent-attr'' PNone") (auto simp: all_points_def dindex_def dget_dput Let_def)

lemma metric_resource_fresh:
  assumes "\<not> dhas d ''c7n.metrics''" "dget_or data ''percent-attr'' PNone \<noteq> PStr ''c7n.metrics''"
  shows "snd (metric_resource E client dims c data d) = metric_verdict client dims c data d"
proof (cases "rbind (dims d) (\<lambda>ds. rbind (get_user_dimensions data) (\<lambda>us. Inr (ds @ us)))")
  case (Inl e)
  then show ?thesis
    by (cases "dims d"; cases "get_user_dimensions data") (auto simp: metric_resource_def metric_verdict_def)
next
  case (Inr ds)
  then have verdict: "metric_verdict client dims c data d = rbind (client (metric_params c ds)) (\<lambda>points.
       if points \<noteq> [] then all_points c data d points
       else case dget data ''missing-value'' of None \<Rightarrow> Inr False | Some v \<Rightarrow> all_points c data d [fill_point c v])"
    by (auto simp: metric_verdict_def rbind_eq_Inr)
  show ?thesis
    unfolding verdict metric_resource_def Inr
    using assms by (cases "client (metric_params c ds)") (auto simp: Let_def dget_dput all_points_annotated split: option.splits)
qed

lemma rfilter_cong: "xs = ys \<Longrightarrow> (\<And>x. x \<in> set ys \<Longrightarrow> f x = g x) \<Longrightarrow> rfilter f xs = rfilter g ys"
proof (induction ys arbitrary: xs)
  case (Cons y ys)
  then have "rfilter f ys = rfilter g ys" by auto
  with Cons show ?case by simp
qed simp

lemma process_resource_set_run:
  "distinct rs \<Longrightarrow> snd (process_resource_set f st rs) = rfilter (\<lambda>r. snd (f (st r))) rs \<and>
     (\<forall>q. q \<notin> set rs \<longrightarrow> fst (process_resource_set f st rs) q = st q)"
proof (induction rs arbitrary: st)
  case (Cons r rs)
  obtain d b where fr: "f (st r) = (d, b)" by force
  have same: "rfilter (\<lambda>q. snd (f ((st(r := d)) q))) rs = rfilter (\<lambda>q. snd (f (st q))) rs"
    using Cons.prems by (intro rfilter_cong) auto
  from Cons.IH[of "st(r := d)"] Cons.prems
  have IH: "snd (process_resource_set f (st(r := d)) rs) = rfilter (\<lambda>q. snd (f (st q))) rs"
    "\<forall>q. q \<notin> set rs \<longrightarrow> fst (process_resource_set f (st(r := d)) rs) q = (st(r := d)) q"
    by (simp_all del: fun_upd_apply add: same)
  show ?case
    using IH by (cases b) (auto simp: fr Let_def split: prod.splits)
qed simp

lemma process_sets_run:
  "distinct (concat rss) \<Longrightarrow> snd (process_sets f st rss) = map (rfilter (\<lambda>r. snd (f (st r)))) rss"
proof (induction rss arbitrary: st)
  case (Cons rs rss)
  from process_resource_set_run[of rs f st] Cons.prems
  have one: "snd (process_resource_set f st rs) = rfilter (\<lambda>r. snd (f (st r))) rs"
    "\<forall>q. q \<notin> set rs \<longrightarrow> fst (process_resource_set f st rs) q = st q" by auto
  have "fst (process_resource_set f st rs) q = st q" if "q \<in> set (concat rss)" for q
    using one(2) Cons.prems that by (auto simp: disjoint_iff)
  then have "map (rfilter (\<lambda>r. snd (f (fst (process_resource_set f st rs) r)))) rss = map (rfilter (\<lambda>r. snd (f (st r)))) rss"
    by (intro map_cong refl rfilter_cong) (metis UN_I set_concat)
  with Cons.IH[of "fst (process_resource_set f st rs)"] Cons.prems one(1) show ?case
    by (auto simp: Let_def split: prod.splits)
qed simp

text \<open>The resources of a set, unless one of it raises.\<close>

definition set_kept :: "(ref \<Rightarrow> bool res) \<Rightarrow> ref list \<Rightarrow> ref list" where
  "set_kept verdict rs = (if \<forall>r \<in> set rs. \<exists>b. verdict r = Inr b then filter (\<lambda>r. verdict r = Inr True) rs else [])"

lemma set_kept_rfilter: "(case rfilter verdict rs of Inl e \<Rightarrow> [] | Inr qs \<Rightarrow> qs) = set_kept verdict rs"
proof (cases "\<forall>r \<in> set rs. \<exists>b. verdict r = Inr b")
  case True
  then have "rfilter verdict rs = Inr (filter (\<lambda>r. verdict r = Inr True) rs)" by (intro rfilter_pure) auto
  with True show ?thesis by (simp add: set_kept_def)
next
  case False
  then have "\<exists>e. rfilter verdict rs = Inl e"
  proof (induction rs)
    case (Cons r rs)
    then show ?case by (cases "verdict r") auto
  qed simp
  with False show ?thesis by (auto simp: set_kept_def)
qed


text \<open>An example: a balancer of no requests is kept with a value for missing data.\<close>

definition ex_metric_data :: pydict where
  "ex_metric_data = [(''name'', PStr ''RequestCount''), (''statistics'', PStr ''Sum''), (''days'', PInt 7), (''value'', PInt 7),
     (''missing-value'', PInt 0), (''period'', PInt 86400)]"

definition ex_datapoints :: datapoints where
  "ex_datapoints p = (if dget p ''Dimensions'' = Some (PList [dimension (PStr ''Name'') (PStr ''busy'')])
     then Inr [PDict [(''Sum'', PInt 9)]] else Inr [])"

definition ex_balancers :: store where
  "ex_balancers = (\<lambda>n. [(''Name'', PStr (if n = 0 then ''busy'' else ''idle''))])"


text \<open>
  The value for missing data is kept with what was collected: a second filter on the same
  metric without such a value, which by itself would not match, finds it there.
\<close>

lemma fill_found_by_next:
  "case metric_init (ext0 0) PNone ''elb'' ex_metric_data of
     Inl e \<Rightarrow> False
   | Inr c \<Rightarrow>
       let plain = ddel ''missing-value'' ex_metric_data;
           (d, b) = metric_resource (ext0 0) ex_datapoints (get_dimensions ''Name'') c ex_metric_data (ex_balancers 1)
       in b = Inr True \<and> snd (metric_resource (ext0 0) ex_datapoints (get_dimensions ''Name'') c plain d) = Inr True \<and>
          snd (metric_resource (ext0 0) ex_datapoints (get_dimensions ''Name'') c plain (ex_balancers 1)) = Inr False"
  by code_simp

end
