(* ===== verification/List_Items.thy ===== *)
theory List_Items
  imports Block_Semantics
begin

text \<open>
  Filters over the parts of a resource: the items of a list in it (\<open>ListItemFilter\<close> of
  \<open>c7n/filters/core.py\<close>), which are filtered as resources of their own, and several of its
  attributes at once (\<open>c7n/filters/multiattr.py\<close>).
\<close>

section \<open>List items\<close>

definition item_id_key :: string where
  "item_id_key = ''c7n:_id''"

definition item_annotation_key :: string where
  "item_annotation_key = ''c7n:ListItemMatches''"

definition check_count :: "ext \<Rightarrow> pydict \<Rightarrow> nat \<Rightarrow> bool res" where
  "check_count E data n = (case dget data ''count'' of
      None \<Rightarrow> Inr False
    | Some c \<Rightarrow> rbind (case dget_or data ''count_op'' (PStr ''eq'') of PStr s \<Rightarrow> dindex (OPERATORS E) s | _ \<Rightarrow> Inl KeyError) (\<lambda>f.
        f (PInt (int n)) c))"

text \<open>The items get their places as ids for the time they are filtered.\<close>

fun number_items :: "nat \<Rightarrow> pyval list \<Rightarrow> pydict list res" where
  "number_items i [] = Inr []"
| "number_items i (v # vs) = (case v of
      PDict d \<Rightarrow> rbind (number_items (Suc i) vs) (\<lambda>ds. Inr (dput item_id_key (PInt (int i)) d # ds))
    | _ \<Rightarrow> Inl TypeError)"

definition item_store :: "pydict list \<Rightarrow> store" where
  "item_store ds = (\<lambda>i. if i < length ds then ds ! i else [])"

definition pop_id :: "pydict \<Rightarrow> pydict res" where
  "pop_id d = rbind (dindex d item_id_key) (\<lambda>_. Inr (ddel item_id_key d))"

definition add_item_matches :: "pyval list \<Rightarrow> pydict \<Rightarrow> pydict res" where
  "add_item_matches xs d = (case dget_or d item_annotation_key (PList []) of
      PList ys \<Rightarrow> Inr (dput item_annotation_key (PList (ys @ xs)) d)
    | _ \<Rightarrow> Inl AttributeError)"

definition item_label :: "ext \<Rightarrow> pydict \<Rightarrow> int \<Rightarrow> pyval" where
  "item_label E data i = PStr (py_str E (dget_or data ''key'' (PStr ''list-item'')) @ ''['' @ str_of_int i @ '']'')"

text \<open>
  The filters of the items are those of the attributes, one after another until nothing is
  left, which is how an \<open>and\<close> block runs its members; they keep their state from one resource
  to the next. Items are shared with the resource: \<open>put\<close> is the resource with the items its
  expression finds replaced by these.
\<close>

record item_conf =
  ic_annotate :: bool
  ic_put :: "pydict \<Rightarrow> pyval list \<Rightarrow> pydict"
  ic_order :: "rid list \<Rightarrow> rid list"

type_synonym item_result = "(nat \<Rightarrow> vstate) \<times> pydict option \<times> pydict \<times> bool"

definition list_item_found ::
  "ext \<Rightarrow> item_conf \<Rightarrow> 'f leafp \<Rightarrow> 'f ftree list \<Rightarrow> pydict \<Rightarrow> (nat \<Rightarrow> vstate) \<Rightarrow> pydict option \<Rightarrow> pydict \<Rightarrow> pyval list \<Rightarrow>
   item_result res" where
  "list_item_found E c leaf trees data states ev d items =
     rbind (number_items 0 items) (\<lambda>ds.
     rbind (and_loop leaf E item_id_key (ic_order c) trees
             \<lparr>wstore = item_store ds, wevent = ev, wstates = states\<rparr> [0 ..< length ds]) (\<lambda>(w, kept).
     rbind (rmap (\<lambda>i. dindex (wstore w i) item_id_key) kept) (\<lambda>ids.
     rbind (rmap (\<lambda>i. pop_id (wstore w i)) [0 ..< length ds]) (\<lambda>after.
     let d1 = ic_put c d (map PDict after)
     in if dhas data ''count'' then rbind (check_count E data (length kept)) (\<lambda>b. Inr (wstates w, wevent w, d1, b))
        else if kept = [] then Inr (wstates w, wevent w, d1, False)
        else rbind (if ic_annotate c then Inr (map (\<lambda>i. PDict (after ! i)) kept)
                    else rmap (\<lambda>v. case v of PInt i \<Rightarrow> Inr (item_label E data i) | _ \<Rightarrow> Inl TypeError) ids) (\<lambda>xs.
             rbind (add_item_matches xs d1) (\<lambda>d2. Inr (wstates w, wevent w, d2, True)))))))"

definition list_item_resource ::
  "ext \<Rightarrow> item_conf \<Rightarrow> 'f leafp \<Rightarrow> 'f ftree list \<Rightarrow> pydict \<Rightarrow> (nat \<Rightarrow> vstate) \<Rightarrow> pydict option \<Rightarrow> pydict \<Rightarrow> item_result res" where
  "list_item_resource E c leaf trees data states ev d =
     rbind (case dget data ''key'' of None \<Rightarrow> Inl KeyError | Some (PStr k) \<Rightarrow> ext_jmes E k (PDict d) | Some _ \<Rightarrow> Inl TypeError) (\<lambda>items.
     if \<not> py_truth items then rbind (check_count E data 0) (\<lambda>b. Inr (states, ev, d, b))
     else case items of
         PList vs \<Rightarrow> list_item_found E c leaf trees data states ev d vs
       | _ \<Rightarrow> Inl PolicyExecutionError)"

fun list_item_resources ::
  "((nat \<Rightarrow> vstate) \<Rightarrow> pydict option \<Rightarrow> pydict \<Rightarrow> item_result res) \<Rightarrow>
   (nat \<Rightarrow> vstate) \<Rightarrow> pydict option \<Rightarrow> store \<Rightarrow> ref list \<Rightarrow> (pydict option \<times> store \<times> ref list) res" where
  "list_item_resources f states ev st [] = Inr (ev, st, [])"
| "list_item_resources f states ev st (r # rs) =
     rbind (f states ev (st r)) (\<lambda>(states1, ev1, d, b).
     rbind (list_item_resources f states1 ev1 (st(r := d)) rs) (\<lambda>(ev2, st2, out).
       Inr (ev2, st2, if b then r # out else out)))"

text \<open>\<open>process\<close>: the filters of the items are made anew.\<close>

definition list_item_process ::
  "ext \<Rightarrow> item_conf \<Rightarrow> 'f leafp \<Rightarrow> 'f ftree list \<Rightarrow> pydict \<Rightarrow> pydict option \<Rightarrow> store \<Rightarrow> ref list \<Rightarrow>
   (pydict option \<times> store \<times> ref list) res" where
  "list_item_process E c leaf trees data ev st rs =
     list_item_resources (list_item_resource E c leaf trees data) (\<lambda>n. vstate0) ev st rs"

section \<open>Several attributes\<close>

definition multi_attr_validate :: "string list \<Rightarrow> pydict \<Rightarrow> unit res" where
  "multi_attr_validate attrs data =
     (let delta = filter (\<lambda>k. k \<notin> set attrs) (dkeys data)
      in if ''type'' \<notin> set delta then Inl KeyError
         else if list_ex (\<lambda>k. k \<noteq> ''type'' \<and> k \<noteq> ''match-operator'') delta then Inl PolicyValidationError
         else Inr ())"

text \<open>A value filter for each attribute; the block of one is given its key, in the data itself.\<close>

definition attr_block :: "string \<Rightarrow> pyval \<Rightarrow> pydict" where
  "attr_block k v = (case v of PDict d \<Rightarrow> dput ''key'' (PStr k) d | _ \<Rightarrow> [(k, v)])"

definition get_attr_filters :: "string list \<Rightarrow> pydict \<Rightarrow> pydict list" where
  "get_attr_filters attrs data = map (\<lambda>(k, v). attr_block k v) (filter (\<lambda>(k, v). k \<in> set attrs) data)"

definition keyed_data :: "string list \<Rightarrow> pydict \<Rightarrow> pydict" where
  "keyed_data attrs data = map (\<lambda>(k, v). (k, if k \<in> set attrs \<and> is_dict v then PDict (attr_block k v) else v)) data"

text \<open>Every filter is called on the target, with the state its calls leave.\<close>

fun call_attrs :: "ext \<Rightarrow> pydict list \<Rightarrow> vstate list \<Rightarrow> pydict \<Rightarrow> (vstate list \<times> bool list) res" where
  "call_attrs E (f # fs) (s # ss) d =
     rbind (vf_call E f False s d) (\<lambda>(s1, _, b).
     rbind (call_attrs E fs ss d) (\<lambda>(ss1, bs). Inr (s1 # ss1, b # bs)))"
| "call_attrs E _ _ d = Inr ([], [])"

definition match_all :: "pydict \<Rightarrow> bool" where
  "match_all data = py_eq (dget_or data ''match-operator'' (PStr ''and'')) (PStr ''and'')"

fun multi_attr_resources ::
  "ext \<Rightarrow> bool \<Rightarrow> (pydict \<Rightarrow> pydict res) \<Rightarrow> pydict list \<Rightarrow> vstate list \<Rightarrow> store \<Rightarrow> ref list \<Rightarrow> ref list res" where
  "multi_attr_resources E every target fs ss st [] = Inr []"
| "multi_attr_resources E every target fs ss st (r # rs) =
     rbind (target (st r)) (\<lambda>d.
     rbind (call_attrs E fs ss d) (\<lambda>(ss1, bs).
     rbind (multi_attr_resources E every target fs ss1 st rs) (\<lambda>out.
       Inr (if (if every then list_all id bs else list_ex id bs) then r # out else out))))"

definition multi_attr_process ::
  "ext \<Rightarrow> (pydict \<Rightarrow> pydict res) \<Rightarrow> string list \<Rightarrow> pydict \<Rightarrow> store \<Rightarrow> ref list \<Rightarrow> (pydict \<times> ref list) res" where
  "multi_attr_process E target attrs data st rs =
     (let fs = get_attr_filters attrs data
      in rbind (multi_attr_resources E (match_all data) target fs (map (\<lambda>_. vstate0) fs) st rs) (\<lambda>out.
         Inr (keyed_data attrs data, out)))"

section \<open>What list items select\<close>

definition satisfies :: "ext \<Rightarrow> (nat \<Rightarrow> fobj) \<Rightarrow> nat list \<Rightarrow> pydict option \<Rightarrow> pydict \<Rightarrow> bool" where
  "satisfies E cfg ns ev d = list_all (\<lambda>n. leaf_sat E cfg n (map_option bare ev) (bare d)) ns"

lemma and_loop_leaves:
  "and_loop (leaf_process E cfg) X key order (map Leaf ns) w rs = Inr (w', out) \<Longrightarrow> list_all (leaf_ok E cfg) ns \<Longrightarrow>
     states_ok E cfg w \<Longrightarrow> distinct rs \<Longrightarrow>
   out = filter (\<lambda>r. satisfies E cfg ns (wevent w) (wstore w r)) rs \<and> annot_step (states_ok E cfg) w w'"
proof (induction ns arbitrary: w rs)
  case Nil
  then show ?case by (simp add: satisfies_def annot_step_refl)
next
  case (Cons n ns)
  then obtain w1 out1 where one: "leaf_process E cfg n w rs = Inr (w1, out1)"
    and rest: "(if out1 = [] then Inr (w1, []) else and_loop (leaf_process E cfg) X key order (map Leaf ns) w1 out1) = Inr (w', out)"
    by (auto simp: rbind_eq_Inr)
  have ok: "leaf_ok E cfg n" "list_all (leaf_ok E cfg) ns" using Cons.prems(2) by simp_all
  note sel = leaf_process_select[OF ok(1) Cons.prems(3,4) one] and step = leaf_process_step[OF ok(1) Cons.prems(3,4) one]
  from step have same: "satisfies E cfg ns (wevent w1) (wstore w1 r) = satisfies E cfg ns (wevent w) (wstore w r)" for r
    by (simp add: satisfies_def annot_step_def same_bare_def)
  show ?case
  proof (cases "out1 = []")
    case True
    with rest have none: "w' = w1" "out = []" by simp_all
    from sel True have "\<forall>r \<in> set rs. \<not> leaf_sat E cfg n (map_option bare (wevent w)) (bare (wstore w r))"
      by (metis filter_empty_conv)
    with none step show ?thesis by (auto simp: satisfies_def)
  next
    case False
    with rest have run: "and_loop (leaf_process E cfg) X key order (map Leaf ns) w1 out1 = Inr (w', out)" by simp
    have "states_ok E cfg w1" "distinct out1" using step sel Cons.prems(4) by (simp_all add: annot_step_def)
    from Cons.IH[OF run ok(2) this]
    have "out = filter (\<lambda>r. satisfies E cfg ns (wevent w) (wstore w r)) out1" and last: "annot_step (states_ok E cfg) w1 w'"
      by (simp_all add: same)
    then have "out = filter (\<lambda>r. satisfies E cfg (n # ns) (wevent w) (wstore w r)) rs"
      by (simp add: sel satisfies_def)
    with annot_step_trans[OF step last] show ?thesis by simp
  qed
qed

lemma number_items_ids: "number_items i vs = Inr ds \<Longrightarrow>
    length ds = length vs \<and> (\<forall>j < length ds. \<exists>d. vs ! j = PDict d \<and> ds ! j = dput item_id_key (PInt (int (i + j))) d)"
proof (induction vs arbitrary: i ds)
  case (Cons v vs)
  then obtain d es where v: "v = PDict d" "number_items (Suc i) vs = Inr es" "ds = dput item_id_key (PInt (int i)) d # es"
    by (cases v) (auto simp: rbind_eq_Inr)
  from Cons.IH[OF v(2)] v show ?case by (auto simp: nth_Cons algebra_simps split: nat.splits)
qed simp

text \<open>The ids of items are theirs as long as filters only annotate with other keys.\<close>

text \<open>C20: A resource is kept by a list-item filter of value filters exactly when one of its items
  satisfies all of them (without \<open>count\<close>), or when the number of such items compares with it;
  an item is taken without the annotations that were left on it. A resource whose list is empty
  or missing counts as having none.
\<close>

theorem list_item_keeps:
  assumes "list_item_resource E c (leaf_process E cfg) (map Leaf ns) data states ev d = Inr (states', ev', d', b)"
    and "dget data ''key'' = Some (PStr k)" "ext_jmes E k (PDict d) = Inr (PList (map PDict items))"
    and "list_all (leaf_ok E cfg) ns" "\<forall>n. prepared E (fo_data (cfg n)) (states n)"
  shows "case dget data ''count'' of
      None \<Rightarrow> b = list_ex (satisfies E cfg ns ev) items
    | Some n \<Rightarrow> check_count E data (length (filter (satisfies E cfg ns ev) items)) = Inr b"
proof (cases "items = []")
  case True
  with assms(1-3) show ?thesis
    by (auto simp: list_item_resource_def check_count_def rbind_eq_Inr split: option.splits)
next
  case False
  with assms(1-3) have "list_item_found E c (leaf_process E cfg) (map Leaf ns) data states ev d (map PDict items) = Inr (states', ev', d', b)"
    by (simp add: list_item_resource_def)
  then obtain ds w kept where ds: "number_items 0 (map PDict items) = Inr ds"
    and run: "and_loop (leaf_process E cfg) E item_id_key (ic_order c) (map Leaf ns)
             \<lparr>wstore = item_store ds, wevent = ev, wstates = states\<rparr> [0 ..< length ds] = Inr (w, kept)"
    and b: "if dhas data ''count'' then check_count E data (length kept) = Inr b else b = (kept \<noteq> [])"
    by (auto simp: list_item_found_def rbind_eq_Inr Let_def split: if_splits)
  from number_items_ids[OF ds] have len: "length ds = length items"
    and nth: "\<And>j. j < length items \<Longrightarrow> ds ! j = dput item_id_key (PInt (int j)) (items ! j)" by auto
  have "states_ok E cfg \<lparr>wstore = item_store ds, wevent = ev, wstates = states\<rparr>"
    using assms(5) by (simp add: states_ok_def)
  from and_loop_leaves[OF run assms(4) this] have kept: "kept = filter (\<lambda>i. satisfies E cfg ns ev (item_store ds i)) [0 ..< length ds]"
    by simp
  have "satisfies E cfg ns ev (item_store ds i) = satisfies E cfg ns ev (items ! i)" if "i < length items" for i
    using that by (simp add: satisfies_def item_store_def len nth item_id_key_def is_annot_def)
  then have "kept = filter (\<lambda>i. satisfies E cfg ns ev (items ! i)) [0 ..< length items]"
    unfolding kept len by (intro filter_cong) auto
  then have count: "length kept = length (filter (satisfies E cfg ns ev) items)"
    using filter_map[of "satisfies E cfg ns ev" "(!) items" "[0 ..< length items]"]
    by (simp add: map_nth comp_def)
  then have "kept \<noteq> [] \<longleftrightarrow> list_ex (satisfies E cfg ns ev) items"
    by (metis length_0_conv list_ex_iff list_ex_filter)
  with b count show ?thesis by (auto simp: dhas_dget split: if_splits option.splits)
qed

text \<open>An example: groups that open the ssh port.\<close>

definition ex_item_ext :: ext where
  "ex_item_ext = (ext0 0)\<lparr>ext_jmes := (\<lambda>e v. case v of PDict d \<Rightarrow> Inr (dget_or d e PNone) | _ \<Rightarrow> Inr PNone)\<rparr>"

definition ex_item_cfg :: "nat \<Rightarrow> fobj" where
  "ex_item_cfg n = \<lparr>fo_data = [(''key'', PStr ''Port''), (''value'', PInt 22)], fo_annotate = True, fo_event = False\<rparr>"

definition ex_item_conf :: item_conf where
  "ex_item_conf = \<lparr>ic_annotate = False, ic_put = (\<lambda>d xs. dput ''Rules'' (PList xs) d), ic_order = id\<rparr>"

definition ex_rules :: "pydict list" where
  "ex_rules = [[(''Port'', PInt 80)], [(''Port'', PInt 22)]]"

lemma ex_item_ok: "leaf_ok ex_item_ext ex_item_cfg n"
proof -
  have "blind ex_item_ext (fo_data (ex_item_cfg n))"
    by (rule blind_key[where k = "''Port''"]) (auto simp: ex_item_cfg_def filter_key_def dget_or_def is_annot_def ex_item_ext_def dget_bare dhas_def)
  then show ?thesis by (simp add: leaf_ok_def is_resource_count_def ex_item_cfg_def dget_or_def)
qed

lemma list_item_keeps_witness:
  "\<exists>states' ev' d'. list_item_resource ex_item_ext ex_item_conf (leaf_process ex_item_ext ex_item_cfg) (map Leaf [0])
     [(''type'', PStr ''list-item''), (''key'', PStr ''Rules'')] (\<lambda>n. vstate0) None [(''Rules'', PList (map PDict ex_rules))]
     = Inr (states', ev', d', True) \<and> dget d' item_annotation_key = Some (PList [PStr ''Rules[1]'']) \<and>
   list_ex (satisfies ex_item_ext ex_item_cfg [0] None) ex_rules"
proof -
  let ?data = "[(''type'', PStr ''list-item''), (''key'', PStr ''Rules'')]" and ?d = "[(''Rules'', PList (map PDict ex_rules))]"
  let ?run = "list_item_resource ex_item_ext ex_item_conf (leaf_process ex_item_ext ex_item_cfg) (map Leaf [0]) ?data (\<lambda>n. vstate0) None ?d"
  have "case ?run of Inr (s, ev, d, b) \<Rightarrow> b \<and> dget d item_annotation_key = Some (PList [PStr ''Rules[1]'']) | Inl e \<Rightarrow> False"
    by code_simp
  then obtain states' ev' d' where run: "?run = Inr (states', ev', d', True)"
    and label: "dget d' item_annotation_key = Some (PList [PStr ''Rules[1]''])"
    by (auto split: sum.splits)
  have "ext_jmes ex_item_ext ''Rules'' (PDict ?d) = Inr (PList (map PDict ex_rules))"
    by (simp add: ex_item_ext_def dget_or_def)
  from list_item_keeps[OF run _ this] run label show ?thesis by (simp add: ex_item_ok)
qed

section \<open>What several attributes select\<close>

lemma call_attrs_matches:
  "length ss = length fs \<Longrightarrow> list_all (\<lambda>f. \<not> is_resource_count f) fs \<Longrightarrow> list_all2 (prepared E) fs ss \<Longrightarrow>
     call_attrs E fs ss d = Inr (ss', bs) \<Longrightarrow>
     list_all2 (prepared E) fs ss' \<and> bs = map (\<lambda>f. vf_matches E f d = Inr True) fs"
proof (induction fs arbitrary: ss ss' bs)
  case (Cons f fs)
  then obtain s ss0 where ss: "ss = s # ss0" "prepared E f s" "list_all2 (prepared E) fs ss0" by (cases ss) auto
  with Cons.prems(4) obtain s1 d1 b ss1 bs1 where call: "vf_call E f False s d = Inr (s1, d1, b)"
    and rest: "call_attrs E fs ss0 d = Inr (ss1, bs1)" and out: "ss' = s1 # ss1" "bs = b # bs1"
    by (auto simp: rbind_eq_Inr)
  from vf_call_eq[of f E s d False] call Cons.prems(2) ss(2) have "vf_matches E f d = Inr b" "prepared E f s1" by auto
  with Cons.IH[OF _ _ ss(3) rest] Cons.prems(1,2) out ss(1) show ?case by auto
qed simp

text \<open>A filter over several attributes keeps the resources whose target every one of the
  attributes' value filters matches, or, with a \<open>match-operator\<close> other than \<open>and\<close>, any of them.
\<close>

theorem multi_attr_decides:
  assumes "multi_attr_process E target attrs data st rs = Inr (data', out)"
    and "list_all (\<lambda>f. \<not> is_resource_count f) (get_attr_filters attrs data)" "\<forall>r \<in> set rs. target (st r) = Inr (t r)"
  shows "out = filter (\<lambda>r. (if match_all data then list_all else list_ex)
     (\<lambda>f. vf_matches E f (t r) = Inr True) (get_attr_filters attrs data)) rs"
proof -
  let ?fs = "get_attr_filters attrs data"
  have each: "multi_attr_resources E every target fs ss st rs = Inr out \<Longrightarrow> list_all (\<lambda>f. \<not> is_resource_count f) fs \<Longrightarrow>
      length ss = length fs \<Longrightarrow> list_all2 (prepared E) fs ss \<Longrightarrow> \<forall>r \<in> set rs. target (st r) = Inr (t r) \<Longrightarrow>
      out = filter (\<lambda>r. (if every then list_all else list_ex) (\<lambda>f. vf_matches E f (t r) = Inr True) fs) rs" for every fs ss out
  proof (induction rs arbitrary: ss out)
    case (Cons r rs)
    then obtain ss1 bs rest where call: "call_attrs E fs ss (t r) = Inr (ss1, bs)"
      and rest: "multi_attr_resources E every target fs ss1 st rs = Inr rest"
      and out: "out = (if (if every then list_all id bs else list_ex id bs) then r # rest else rest)"
      by (auto simp: rbind_eq_Inr)
    from call_attrs_matches[OF Cons.prems(3,2,4) call] have call': "list_all2 (prepared E) fs ss1" "bs = map (\<lambda>f. vf_matches E f (t r) = Inr True) fs"
      by auto
    from Cons.IH[OF rest Cons.prems(2) _ call'(1)] Cons.prems(5) list_all2_lengthD[OF call'(1)] out call'(2) show ?case
      by (auto simp: list_all_iff list_ex_iff)
  qed simp
  have start: "list_all2 (prepared E) fs (map (\<lambda>_. vstate0) fs)" for fs by (induction fs) auto
  from assms(1) have "multi_attr_resources E (match_all data) target ?fs (map (\<lambda>_. vstate0) ?fs) st rs = Inr out"
    by (auto simp: multi_attr_process_def Let_def rbind_eq_Inr)
  from each[OF this assms(2) _ start assms(3)] show ?thesis by simp
qed

lemma multi_attr_decides_witness:
  "multi_attr_process (ext0 0) Inr [''Name'', ''Port''] [(''type'', PStr ''settings''), (''Name'', PStr ''a''), (''Port'', PInt 22)]
     (\<lambda>r. [(''Name'', PStr ''a''), (''Port'', PInt (if r = 0 then 22 else 80))]) [0, 1] =
   Inr ([(''type'', PStr ''settings''), (''Name'', PStr ''a''), (''Port'', PInt 22)], [0]) \<and>
   list_all (\<lambda>f. vf_matches (ext0 0) f [(''Name'', PStr ''a''), (''Port'', PInt 22)] = Inr True) [[(''Name'', PStr ''a'')], [(''Port'', PInt 22)]]"
proof -
  let ?data = "[(''type'', PStr ''settings''), (''Name'', PStr ''a''), (''Port'', PInt 22)]"
  let ?st = "\<lambda>r. [(''Name'', PStr ''a''), (''Port'', PInt (if r = 0 then 22 else 80))]"
  let ?run = "multi_attr_process (ext0 0) Inr [''Name'', ''Port''] ?data ?st [0, 1 :: nat]"
  have run: "?run = Inr (?data, [0])" by code_simp
  have "list_all (\<lambda>f. \<not> is_resource_count f) (get_attr_filters [''Name'', ''Port''] ?data)" by code_simp
  from multi_attr_decides[OF run this, of ?st] run show ?thesis
    by (auto simp: match_all_def get_attr_filters_def attr_block_def dget_or_def split: if_splits)
qed

end
