(* ===== verification/Var_Format.thy ===== *)
theory Var_Format
  imports Utils_Data Utils_Aws
begin

text \<open>
  The formatter of policy variables (\<open>c7n/varfmt.py\<close>), with the parser of format strings it
  has from the standard library, the strings that defer their own formatting
  (\<open>c7n/utils.py\<close>), and the expansion of a policy's variables (\<open>c7n/policy.py\<close>).
\<close>

section \<open>Format strings\<close>

text \<open>A field: its name, its format and its conversion, if it has one.\<close>

record field =
  f_name :: string
  f_spec :: string
  f_conv :: "char option"

definition brace :: "char \<Rightarrow> bool" where
  "brace c \<longleftrightarrow> c = CHR ''{'' \<or> c = CHR ''}''"

text \<open>The name ends at a colon, a conversion or the end; brackets may hold any of them.\<close>

fun name_end :: "bool \<Rightarrow> string \<Rightarrow> (string \<times> char \<times> string) res" where
  "name_end inside [] = Inl ValueError"
| "name_end inside (c # cs) =
     (if inside then rbind (name_end (c \<noteq> CHR '']'') cs) (\<lambda>(n, e, rest). Inr (c # n, e, rest))
      else if c = CHR ''{'' then Inl ValueError
      else if c = CHR ''}'' \<or> c = CHR '':'' \<or> c = CHR ''!'' then Inr ([], c, cs)
      else rbind (name_end (c = CHR ''['') cs) (\<lambda>(n, e, rest). Inr (c # n, e, rest)))"

fun spec_end :: "nat \<Rightarrow> string \<Rightarrow> (string \<times> string) res" where
  "spec_end n [] = Inl ValueError"
| "spec_end n (c # cs) =
     (if c = CHR ''}'' \<and> n = 0 then Inr ([], cs)
      else rbind (spec_end (if c = CHR ''{'' then Suc n else if c = CHR ''}'' then n - 1 else n) cs) (\<lambda>(s, rest). Inr (c # s, rest)))"

definition parse_field :: "string \<Rightarrow> (field \<times> string) res" where
  "parse_field s =
     rbind (name_end False s) (\<lambda>(n, e, rest).
     if e = CHR ''}'' then Inr (\<lparr>f_name = n, f_spec = [], f_conv = None\<rparr>, rest)
     else if e = CHR '':'' then rbind (spec_end 0 rest) (\<lambda>(sp, rest). Inr (\<lparr>f_name = n, f_spec = sp, f_conv = None\<rparr>, rest))
     else case rest of
         [] \<Rightarrow> Inl ValueError
       | [c] \<Rightarrow> Inl ValueError
       | c # d # rest' \<Rightarrow>
           if d = CHR ''}'' then Inr (\<lparr>f_name = n, f_spec = [], f_conv = Some c\<rparr>, rest')
           else if d = CHR '':'' then rbind (spec_end 0 rest') (\<lambda>(sp, rest). Inr (\<lparr>f_name = n, f_spec = sp, f_conv = Some c\<rparr>, rest))
           else Inl ValueError)"

text \<open>One step of \<open>Formatter.parse\<close>: a literal, perhaps a field, and what is left.\<close>

definition parse_step :: "string \<Rightarrow> (string \<times> field option \<times> string) res" where
  "parse_step s = (case dropWhile (\<lambda>c. \<not> brace c) s of
      [] \<Rightarrow> Inr (s, None, [])
    | [c] \<Rightarrow> Inl ValueError
    | c # d # rest \<Rightarrow>
        let lit = takeWhile (\<lambda>c. \<not> brace c) s
        in if c = d then Inr (lit @ [c], None, rest)
           else if c = CHR ''}'' then Inl ValueError
           else rbind (parse_field (d # rest)) (\<lambda>(f, rest'). Inr (lit, Some f, rest')))"

lemma name_end_length: "name_end b s = Inr (n, e, rest) \<Longrightarrow> length rest < length s"
  by (induction b s arbitrary: n rule: name_end.induct) (auto simp: rbind_eq_Inr less_Suc_eq split: if_splits)

lemma spec_end_length: "spec_end k s = Inr (sp, rest) \<Longrightarrow> length rest < length s"
  by (induction k s arbitrary: sp rule: spec_end.induct) (auto simp: rbind_eq_Inr less_Suc_eq split: if_splits)

lemma parse_field_length: "parse_field s = Inr (f, rest) \<Longrightarrow> length rest < length s"
  by (auto simp: parse_field_def rbind_eq_Inr split: if_splits list.splits dest!: name_end_length spec_end_length)

lemma parse_step_length:
  assumes "s \<noteq> []" "parse_step s = Inr (l, f, rest)"
  shows "length rest < length s"
proof -
  have "length (dropWhile (\<lambda>c. \<not> brace c) s) \<le> length s" by (rule length_dropWhile_le)
  with assms show ?thesis
    by (auto simp: parse_step_def Let_def rbind_eq_Inr split: list.splits if_splits dest!: parse_field_length)
qed

text \<open>
  The pieces, as far as they can be read, and the exception that ends them: the pieces before it
  are formatted first.
\<close>

function format_parts :: "string \<Rightarrow> (string \<times> field option) list \<times> pyerr option" where
  "format_parts s =
     (if s = [] then ([], None)
      else case parse_step s of
          Inl e \<Rightarrow> ([], Some e)
        | Inr (l, f, rest) \<Rightarrow> let (ps, e) = format_parts rest in ((l, f) # ps, e))"
  by pat_completeness auto
termination
  by (relation "measure length") (auto dest: parse_step_length)

declare format_parts.simps [simp del]

section \<open>Fields\<close>

text \<open>
  What a variable may be: a value, a \<open>DeferredFormatString\<close>, or a \<open>FormatDate\<close> by its time.
  \<open>fe_attr\<close>, \<open>fe_repr\<close> and \<open>fe_format\<close> are the attributes, the \<open>repr\<close> and the formatting of
  the objects of Python.
\<close>

datatype fval = Val pyval | Deferred string | When int

record 'x fenv =
  fe_ext :: ext
  fe_attr :: "fval \<Rightarrow> string \<Rightarrow> fval res"
  fe_repr :: "char \<Rightarrow> fval \<Rightarrow> string"
  fe_str :: "fval \<Rightarrow> string"
  fe_format :: "fval \<Rightarrow> string \<Rightarrow> string res"
  fe_strftime :: "int \<Rightarrow> string \<Rightarrow> string res"

fun fval_truth :: "fval \<Rightarrow> bool" where
  "fval_truth (Val v) = py_truth v"
| "fval_truth (Deferred s) = (s \<noteq> [])"
| "fval_truth (When t) = True"

text \<open>\<open>DeferredFormatString.__format__\<close>.\<close>

definition deferred_format :: "string \<Rightarrow> string \<Rightarrow> string" where
  "deferred_format s spec = ''{'' @ s @ (if spec = [] then [] else '':'' @ spec) @ ''}''"

text \<open>
  \<open>FormatDate.__format__\<close>: what matches \<open>\\+[0-9]+[Mdh]\<close> is added to the time and taken out of
  the format.
\<close>

definition increment_unit :: "char \<Rightarrow> dunit option" where
  "increment_unit c =
     (if c = CHR ''M'' then Some Minutes else if c = CHR ''h'' then Some Hours else if c = CHR ''d'' then Some Days else None)"

definition increment_at :: "string \<Rightarrow> ((dunit \<times> string) \<times> string) option" where
  "increment_at s = (case s of
      [] \<Rightarrow> None
    | c # cs \<Rightarrow>
        if c \<noteq> CHR ''+'' \<or> takeWhile is_digit cs = [] then None
        else case dropWhile is_digit cs of
            [] \<Rightarrow> None
          | u # rest \<Rightarrow> map_option (\<lambda>d. ((d, takeWhile is_digit cs), rest)) (increment_unit u))"

function date_increments :: "string \<Rightarrow> (dunit \<times> string) list \<times> string" where
  "date_increments [] = ([], [])"
| "date_increments (c # cs) = (case increment_at (c # cs) of
      Some (i, rest) \<Rightarrow> let (is, fmt) = date_increments rest in (i # is, fmt)
    | None \<Rightarrow> let (is, fmt) = date_increments cs in (is, c # fmt))"
  by pat_completeness auto

lemma increment_at_length:
  assumes "increment_at s = Some (i, rest)"
  shows "length rest < length s"
proof -
  from assms obtain c cs u where "s = c # cs" "dropWhile is_digit cs = u # rest"
    by (auto simp: increment_at_def split: list.splits if_splits)
  moreover have "length (dropWhile is_digit cs) \<le> length cs" by (rule length_dropWhile_le)
  ultimately show ?thesis by simp
qed

termination date_increments
  by (relation "measure length") (auto dest: increment_at_length)

definition format_date :: "'x fenv \<Rightarrow> int \<Rightarrow> string \<Rightarrow> string res" where
  "format_date X t fmt =
     (let (is, rest) = date_increments fmt
      in rbind (rfold (\<lambda>t i. case timedelta [i] of None \<Rightarrow> Inl OverflowError | Some d \<Rightarrow> date_in_range (t + d)) t is) (\<lambda>t'.
         fe_strftime X t' rest))"

text \<open>\<open>format_field\<close>: a format has to be a string.\<close>

definition format_field :: "'x fenv \<Rightarrow> fval \<Rightarrow> fval \<Rightarrow> string res" where
  "format_field X obj spec = (case spec of
      Val (PStr sp) \<Rightarrow> (case obj of
          Deferred s \<Rightarrow> Inr (deferred_format s sp)
        | When t \<Rightarrow> format_date X t sp
        | Val (PStr s) \<Rightarrow> if sp = [] then Inr s else fe_format X obj sp
        | _ \<Rightarrow> fe_format X obj sp)
    | _ \<Rightarrow> Inl TypeError)"

definition convert_field :: "'x fenv \<Rightarrow> fval \<Rightarrow> char option \<Rightarrow> fval res" where
  "convert_field X obj conv = (case conv of
      None \<Rightarrow> Inr obj
    | Some c \<Rightarrow>
        if c = CHR ''s'' then Inr (Val (PStr (fe_str X obj)))
        else if c = CHR ''r'' \<or> c = CHR ''a'' then Inr (Val (PStr (fe_repr X c obj)))
        else Inl ValueError)"

definition fval_item :: "fval \<Rightarrow> string \<Rightarrow> fval res" where
  "fval_item obj k = (case obj of
      Val (PDict d) \<Rightarrow> if isdigit k then Inl KeyError else rbind (dindex d k) (\<lambda>v. Inr (Val v))
    | Val (PList xs) \<Rightarrow>
        if isdigit k then (if nat_of_digits k < length xs then Inr (Val (xs ! nat_of_digits k)) else Inl IndexError) else Inl TypeError
    | Val (PTuple xs) \<Rightarrow>
        if isdigit k then (if nat_of_digits k < length xs then Inr (Val (xs ! nat_of_digits k)) else Inl IndexError) else Inl TypeError
    | Val (PStr s) \<Rightarrow>
        if isdigit k then (if nat_of_digits k < length s then Inr (Val (PStr [s ! nat_of_digits k])) else Inl IndexError) else Inl TypeError
    | _ \<Rightarrow> Inl TypeError)"

text \<open>The attributes and items after the name of a variable, taken as they are read.\<close>

definition not_step :: "char \<Rightarrow> bool" where
  "not_step c \<longleftrightarrow> c \<noteq> CHR ''.'' \<and> c \<noteq> CHR ''[''"

function access_fields :: "'x fenv \<Rightarrow> fval \<Rightarrow> string \<Rightarrow> fval res" where
  "access_fields X obj [] = Inr obj"
| "access_fields X obj (c # cs) =
     (if c = CHR ''.''
      then let n = takeWhile not_step cs
           in if n = [] then Inl ValueError
              else rbind (fe_attr X obj n) (\<lambda>v. access_fields X v (dropWhile not_step cs))
      else if c = CHR ''[''
      then let n = takeWhile (\<lambda>x. x \<noteq> CHR '']'') cs
           in if n = [] \<or> dropWhile (\<lambda>x. x \<noteq> CHR '']'') cs = [] then Inl ValueError
              else rbind (fval_item obj n) (\<lambda>v. access_fields X v (tl (dropWhile (\<lambda>x. x \<noteq> CHR '']'') cs)))
      else Inl ValueError)"
  by pat_completeness auto
termination
  by (relation "measure (\<lambda>(X, obj, s). length s)")
     (auto simp: less_Suc_eq_le intro: length_dropWhile_le le_trans[OF diff_le_self length_dropWhile_le])

type_synonym fvars = "(string, fval) odict"

definition field_first :: "string \<Rightarrow> string" where
  "field_first name = takeWhile not_step name"

text \<open>There are no positional arguments, so a number is out of range.\<close>

definition get_field :: "'x fenv \<Rightarrow> fvars \<Rightarrow> string \<Rightarrow> fval res" where
  "get_field X vars name =
     rbind (if isdigit (field_first name) then Inl IndexError else dindex vars (field_first name)) (\<lambda>obj.
       access_fields X obj (dropWhile not_step name))"

section \<open>VarFormat\<close>

text \<open>The number for the next field without a name; None once fields are numbered by hand.\<close>

definition auto_name :: "string \<Rightarrow> nat option \<Rightarrow> (string \<times> nat option) res" where
  "auto_name name auto =
     (if name = [] then (case auto of None \<Rightarrow> Inl ValueError | Some n \<Rightarrow> Inr (str_of_nat n, Some (Suc n)))
      else if isdigit name then (case auto of Some (Suc n) \<Rightarrow> Inl ValueError | _ \<Rightarrow> Inr (name, None))
      else Inr (name, auto))"

datatype fpart = Literal string | Formatted fval fval

fun vparts ::
  "'x fenv \<Rightarrow> fvars \<Rightarrow> (string \<Rightarrow> nat option \<Rightarrow> (fval \<times> nat option) res) \<Rightarrow> (string \<times> field option) list \<Rightarrow> nat option \<Rightarrow>
   (fpart list \<times> nat option) res" where
  "vparts X vars nested [] auto = Inr ([], auto)"
| "vparts X vars nested ((l, f) # ps) auto =
     rbind (case f of
         None \<Rightarrow> Inr ([], auto)
       | Some f \<Rightarrow>
           rbind (auto_name (f_name f) auto) (\<lambda>(name, auto).
           rbind (get_field X vars name) (\<lambda>obj.
           rbind (convert_field X obj (f_conv f)) (\<lambda>obj.
           rbind (nested (f_spec f) auto) (\<lambda>(spec, auto). Inr ([Formatted obj spec], auto)))))) (\<lambda>(field, auto).
     rbind (vparts X vars nested ps auto) (\<lambda>(rest, auto).
       Inr ((if l = [] then [] else [Literal l]) @ field @ rest, auto)))"

fun part_text :: "'x fenv \<Rightarrow> fpart \<Rightarrow> string res" where
  "part_text X (Literal s) = Inr s"
| "part_text X (Formatted obj spec) = format_field X obj spec"

definition is_deferred :: "fval \<Rightarrow> bool" where
  "is_deferred v = (case v of Deferred s \<Rightarrow> True | _ \<Rightarrow> False)"

text \<open>A single expression keeps the type of its object, unless it has a format or is deferred.\<close>

definition join_parts :: "'x fenv \<Rightarrow> fpart list \<Rightarrow> fval res" where
  "join_parts X ps = (case ps of
      [Literal s] \<Rightarrow> Inr (Val (PStr s))
    | [Formatted obj spec] \<Rightarrow>
        if fval_truth spec \<or> is_deferred obj then rbind (format_field X obj spec) (\<lambda>s. Inr (Val (PStr s))) else Inr obj
    | _ \<Rightarrow> rbind (rmap (part_text X) ps) (\<lambda>ss. Inr (Val (PStr (concat ss)))))"

fun vformat_at :: "nat \<Rightarrow> 'x fenv \<Rightarrow> fvars \<Rightarrow> string \<Rightarrow> nat option \<Rightarrow> (fval \<times> nat option) res" where
  "vformat_at 0 X vars s auto = Inl ValueError"
| "vformat_at (Suc depth) X vars s auto =
     (let (ps, err) = format_parts s
      in rbind (vparts X vars (vformat_at depth X vars) ps auto) (\<lambda>(parts, auto).
         case err of
           Some e \<Rightarrow> Inl e
         | None \<Rightarrow> rbind (join_parts X parts) (\<lambda>v. Inr (v, auto))))"

text \<open>\<open>format\<close>, which allows formats in formats twice.\<close>

definition vformat :: "'x fenv \<Rightarrow> fvars \<Rightarrow> string \<Rightarrow> fval res" where
  "vformat X vars s = rbind (vformat_at 3 X vars s (Some 0)) (\<lambda>(v, _). Inr v)"

section \<open>Variables of a policy\<close>

text \<open>The variables whose expansion is left to when the policy runs stand for themselves.\<close>

definition later_variables :: "string list" where
  "later_variables = [''service'', ''bucket_region'', ''bucket_name'', ''source_bucket_name'', ''source_bucket_region'',
     ''target_bucket_name'', ''target_prefix'', ''LoadBalancerName'']"

definition mode_role :: "string \<Rightarrow> string \<Rightarrow> pydict \<Rightarrow> pydict res" where
  "mode_role part account data = (case dget data ''mode'' of
      None \<Rightarrow> Inr data
    | Some (PDict m) \<Rightarrow> (case dget m ''role'' of
          None \<Rightarrow> Inr data
        | Some (PStr r) \<Rightarrow>
            if starts_with r ''arn:aws'' then Inr data
            else Inr (dput ''mode'' (PDict (dput ''role'' (PStr (''arn:'' @ part @ '':iam::'' @ account @ '':role/'' @ r)) m)) data)
        | Some _ \<Rightarrow> Inl AttributeError)
    | Some _ \<Rightarrow> Inl TypeError)"

definition get_variables :: "string \<Rightarrow> string \<Rightarrow> bool \<Rightarrow> int \<Rightarrow> pydict \<Rightarrow> fvars \<Rightarrow> (pydict \<times> fvars) res" where
  "get_variables account region serverless now data given =
     (let self = (\<lambda>k. (k, Val (PStr (''{'' @ k @ ''}''))))
      in rbind (mode_role (get_partition region) account data) (\<lambda>data.
         Inr (data, dupdate given
           ([self ''account'', (''account_id'', Val (PStr account)), (''partition'', Val (PStr (get_partition region))),
             (''region'', Val (PStr region)), (''policy'', Val (PDict data)), self ''event'', self ''op'', self ''action_date'',
             (''now'', if serverless then Deferred ''now'' else When now)] @ map self later_variables))))"

text \<open>
  \<open>expand_variables\<close> on the data of the policy; a date that is a whole expression stays a date.
\<close>

definition fval_value :: "fval \<Rightarrow> pyval" where
  "fval_value v = (case v of Val v \<Rightarrow> v | Deferred s \<Rightarrow> PStr s | When t \<Rightarrow> PDate t)"

definition expand_variables :: "'x fenv \<Rightarrow> fvars \<Rightarrow> pydict \<Rightarrow> pydict res" where
  "expand_variables X vars data =
     rbind (format_string_values [IndexError, KeyError] (\<lambda>s. rbind (vformat X vars s) (\<lambda>v. Inr (fval_value v))) (PDict data)) (\<lambda>updated.
     case updated of
       PDict u \<Rightarrow> (case dget_or u ''mode'' (PDict []) of
           PDict m \<Rightarrow>
             if dhas m ''member-role''
             then (case dget data ''mode'' of
                 Some (PDict m0) \<Rightarrow> rbind (dindex m0 ''member-role'') (\<lambda>v. Inr (dput ''mode'' (PDict (dput ''member-role'' v m)) u))
               | _ \<Rightarrow> Inl TypeError)
             else Inr u
         | v \<Rightarrow> Inr u)
     | _ \<Rightarrow> Inl TypeError)"

section \<open>Reading a text of fields\<close>

text \<open>Literals and fields with plain names and formats, and the format string they are.\<close>

datatype seg = Lit string | Fld string string

fun render_seg :: "seg \<Rightarrow> string" where
  "render_seg (Lit s) = s"
| "render_seg (Fld n spec) = deferred_format n spec"

definition render :: "seg list \<Rightarrow> string" where
  "render ss = concat (map render_seg ss)"

definition no_braces :: "string \<Rightarrow> bool" where
  "no_braces s = list_all (\<lambda>c. \<not> brace c) s"

definition plain_name :: "string \<Rightarrow> bool" where
  "plain_name n \<longleftrightarrow> n \<noteq> [] \<and> \<not> isdigit n \<and>
     list_all (\<lambda>c. \<not> brace c \<and> c \<noteq> CHR '':'' \<and> c \<noteq> CHR ''!'' \<and> not_step c) n"

fun plain_seg :: "seg \<Rightarrow> bool" where
  "plain_seg (Lit s) = no_braces s"
| "plain_seg (Fld n spec) = (plain_name n \<and> no_braces spec)"

lemma name_end_plain:
  "list_all (\<lambda>c. \<not> brace c \<and> c \<noteq> CHR '':'' \<and> c \<noteq> CHR ''!'' \<and> not_step c) n \<Longrightarrow> e = CHR ''}'' \<or> e = CHR '':'' \<Longrightarrow>
     name_end False (n @ e # rest) = Inr (n, e, rest)"
  by (induction n) (auto simp: brace_def not_step_def)

lemma spec_end_plain: "no_braces sp \<Longrightarrow> spec_end 0 (sp @ CHR ''}'' # rest) = Inr (sp, rest)"
  by (induction sp) (auto simp: brace_def no_braces_def)

lemma parse_field_plain:
  assumes "plain_name n" "no_braces sp"
  shows "parse_field (tl (deferred_format n sp) @ rest) = Inr (\<lparr>f_name = n, f_spec = sp, f_conv = None\<rparr>, rest)"
  using assms name_end_plain[of n "CHR ''}''" rest] name_end_plain[of n "CHR '':''" "sp @ CHR ''}'' # rest"] spec_end_plain[of sp rest]
  by (auto simp: parse_field_def deferred_format_def plain_name_def)

lemma parse_step_field:
  assumes "no_braces l" "plain_name n" "no_braces sp"
  shows "parse_step (l @ deferred_format n sp @ rest) = Inr (l, Some \<lparr>f_name = n, f_spec = sp, f_conv = None\<rparr>, rest)"
proof -
  obtain d ds where n: "n = d # ds" "\<not> brace d" using assms(2) by (cases n) (auto simp: plain_name_def)
  then obtain body where body: "deferred_format n sp = CHR ''{'' # d # body" by (simp add: deferred_format_def)
  have "dropWhile (\<lambda>c. \<not> brace c) (l @ deferred_format n sp @ rest) = CHR ''{'' # d # body @ rest"
    "takeWhile (\<lambda>c. \<not> brace c) (l @ deferred_format n sp @ rest) = l"
    using assms(1) by (simp_all add: body no_braces_def list_all_iff dropWhile_append2 takeWhile_append2 brace_def)
  moreover have "parse_field (d # body @ rest) = Inr (\<lparr>f_name = n, f_spec = sp, f_conv = None\<rparr>, rest)"
    using parse_field_plain[OF assms(2,3), of rest] by (simp add: body)
  moreover have "CHR ''{'' \<noteq> d" using n(2) by (auto simp: brace_def)
  ultimately show ?thesis by (simp add: parse_step_def Let_def)
qed

lemma parse_step_plain: "no_braces l \<Longrightarrow> parse_step l = Inr (l, None, [])"
proof -
  assume "no_braces l"
  then have "dropWhile (\<lambda>c. \<not> brace c) l = []" by (simp add: no_braces_def list_all_iff dropWhile_eq_Nil_conv)
  then show ?thesis by (simp only: parse_step_def list.case)
qed

fun parts_of :: "string \<Rightarrow> seg list \<Rightarrow> (string \<times> field option) list" where
  "parts_of acc [] = (if acc = [] then [] else [(acc, None)])"
| "parts_of acc (Lit l # ss) = parts_of (acc @ l) ss"
| "parts_of acc (Fld n sp # ss) = (acc, Some \<lparr>f_name = n, f_spec = sp, f_conv = None\<rparr>) # parts_of [] ss"

lemma format_parts_render:
  "no_braces acc \<Longrightarrow> list_all plain_seg ss \<Longrightarrow> format_parts (acc @ render ss) = (parts_of acc ss, None)"
proof (induction acc ss rule: parts_of.induct)
  case (1 acc)
  have "format_parts [] = ([], None)" by (simp add: format_parts.simps)
  with 1 parse_step_plain[of acc] show ?case
    by (cases "acc = []") (simp_all add: render_def format_parts.simps[of acc])
next
  case (2 acc l ss)
  then show ?case by (simp add: render_def no_braces_def)
next
  case (3 acc n sp ss)
  have "no_braces []" by (simp add: no_braces_def)
  with 3 have IH: "format_parts (render ss) = (parts_of [] ss, None)" by simp
  have whole: "acc @ render (Fld n sp # ss) = acc @ deferred_format n sp @ render ss" by (simp add: render_def)
  have "acc @ deferred_format n sp @ render ss \<noteq> []" by (simp add: deferred_format_def)
  then show ?case
    unfolding whole using parse_step_field[of acc n sp "render ss"] 3 IH
    by (subst format_parts.simps) simp
qed

text \<open>What the parts are formatted to, and the text of a segment.\<close>

fun fparts_of :: "fvars \<Rightarrow> string \<Rightarrow> seg list \<Rightarrow> fpart list" where
  "fparts_of vars acc [] = (if acc = [] then [] else [Literal acc])"
| "fparts_of vars acc (Lit l # ss) = fparts_of vars (acc @ l) ss"
| "fparts_of vars acc (Fld n sp # ss) =
     (if acc = [] then [] else [Literal acc]) @ Formatted (the (dget vars n)) (Val (PStr sp)) # fparts_of vars [] ss"

fun seg_text :: "'x fenv \<Rightarrow> fvars \<Rightarrow> seg \<Rightarrow> string res" where
  "seg_text X vars (Lit s) = Inr s"
| "seg_text X vars (Fld n sp) = format_field X (the (dget vars n)) (Val (PStr sp))"

fun bound_in :: "fvars \<Rightarrow> seg \<Rightarrow> bool" where
  "bound_in vars (Lit s) = True"
| "bound_in vars (Fld n sp) = dhas vars n"

lemma get_field_plain:
  assumes "plain_name n" "dget vars n = Some obj"
  shows "get_field X vars n = Inr obj"
proof -
  have "takeWhile not_step n = n" "dropWhile not_step n = []"
    using assms(1) by (simp_all add: plain_name_def list_all_iff takeWhile_eq_all_conv dropWhile_eq_Nil_conv)
  with assms show ?thesis
    unfolding get_field_def field_first_def by (simp only: plain_name_def dindex_def if_False rbind_Inr option.case access_fields.simps)
qed

lemma vformat_plain: "no_braces sp \<Longrightarrow> vformat_at (Suc d) X vars sp auto = Inr (Val (PStr sp), auto)"
  using format_parts_render[of sp "[]"] by (simp add: render_def join_parts_def)

lemma vparts_render:
  "list_all plain_seg ss \<Longrightarrow> list_all (bound_in vars) ss \<Longrightarrow>
     vparts X vars (vformat_at (Suc d) X vars) (parts_of acc ss) auto = Inr (fparts_of vars acc ss, auto)"
proof (induction acc ss rule: parts_of.induct)
  case (3 acc n sp ss)
  then obtain obj where obj: "dget vars n = Some obj" by (auto simp: dhas_dget)
  from 3 have n: "plain_name n" "no_braces sp" by simp_all
  have "auto_name n auto = Inr (n, auto)" using n(1) by (simp add: auto_name_def plain_name_def)
  with 3 obj show ?case
    by (simp add: get_field_plain[OF n(1) obj] convert_field_def vformat_plain[OF n(2)] del: vformat_at.simps)
qed simp_all

lemma fparts_text:
  "rbind (rmap (part_text X) (fparts_of vars acc ss)) (\<lambda>ts. Inr (concat ts)) =
   rbind (rmap (seg_text X vars) ss) (\<lambda>ts. Inr (acc @ concat ts))"
proof (induction vars acc ss rule: fparts_of.induct)
  case (2 vars acc l ss)
  then show ?case by (simp add: rbind_assoc)
next
  case (3 vars acc n sp ss)
  then show ?case
    by (cases "format_field X (the (dget vars n)) (Val (PStr sp))"; cases "rmap (part_text X) (fparts_of vars [] ss)";
        cases "rmap (seg_text X vars) ss") auto
qed simp

lemma fparts_literal:
  "\<exists>l. Lit l \<in> set ss \<and> l \<noteq> [] \<or> acc \<noteq> [] \<Longrightarrow> \<exists>l. Literal l \<in> set (fparts_of vars acc ss)"
proof (induction vars acc ss rule: fparts_of.induct)
  case (2 vars acc l ss)
  then show ?case by (cases "acc @ l = []") auto
next
  case (3 vars acc n sp ss)
  then show ?case by (cases "acc = []") auto
qed auto

lemma join_literal:
  assumes "Literal l \<in> set ps"
  shows "join_parts X ps = rbind (rbind (rmap (part_text X) ps) (\<lambda>ts. Inr (concat ts))) (\<lambda>s. Inr (Val (PStr s)))"
  using assms by (auto simp: join_parts_def rbind_assoc split: list.splits fpart.splits)

lemma vformat_render:
  assumes "list_all plain_seg ss" "list_all (bound_in vars) ss" "Lit l \<in> set ss" "l \<noteq> []"
  shows "vformat X vars (render ss) = rbind (rmap (seg_text X vars) ss) (\<lambda>ts. Inr (Val (PStr (concat ts))))"
proof -
  have "no_braces []" by (simp add: no_braces_def)
  from format_parts_render[OF this assms(1)] have parts: "format_parts (render ss) = (parts_of [] ss, None)" by simp
  obtain k where "Literal k \<in> set (fparts_of vars [] ss)" using fparts_literal[of ss "[]" vars] assms(3,4) by blast
  from join_literal[OF this, of X]
  have "join_parts X (fparts_of vars [] ss) = rbind (rmap (seg_text X vars) ss) (\<lambda>ts. Inr (Val (PStr (concat ts))))"
    by (simp add: fparts_text rbind_assoc)
  moreover have "vformat X vars (render ss) = rbind (join_parts X (fparts_of vars [] ss)) Inr"
    using vparts_render[OF assms(1,2), of X 1 "[]" "Some 0"]
    by (simp add: vformat_def numeral_3_eq_3 parts rbind_assoc del: vformat_at.simps(2) add: vformat_at.simps(2)[of "Suc (Suc 0)"])
  ultimately show ?thesis by (simp add: rbind_return)
qed

section \<open>Expanding in two steps\<close>

text \<open>
  A segment as the first expansion leaves it: fields that are deferred stay, the others become
  their text.
\<close>

fun expand_seg :: "'x fenv \<Rightarrow> fvars \<Rightarrow> seg \<Rightarrow> seg" where
  "expand_seg X vars (Lit s) = Lit s"
| "expand_seg X vars (Fld n sp) =
     (if is_deferred (the (dget vars n)) then Fld n sp
      else case format_field X (the (dget vars n)) (Val (PStr sp)) of Inr s \<Rightarrow> Lit s | Inl e \<Rightarrow> Fld n sp)"

text \<open>
  The variables before (\<open>early\<close>) and when the policy runs (\<open>late\<close>): those that are not deferred
  have a text without braces, and the same later; the deferred ones defer themselves.
\<close>

fun agree_on :: "'x fenv \<Rightarrow> fvars \<Rightarrow> fvars \<Rightarrow> seg \<Rightarrow> bool" where
  "agree_on X early late (Lit s) = True"
| "agree_on X early late (Fld n sp) = (case dget early n of
      None \<Rightarrow> False
    | Some obj \<Rightarrow>
        if is_deferred obj then obj = Deferred n \<and> dhas late n
        else dget late n = Some obj \<and>
          (case format_field X obj (Val (PStr sp)) of Inr s \<Rightarrow> no_braces s | Inl e \<Rightarrow> False))"

lemma agree_cases:
  assumes "agree_on X early late (Fld n sp)"
  shows "dget early n = Some (Deferred n) \<and> (\<exists>v. dget late n = Some v) \<or>
    (\<exists>obj t. dget early n = Some obj \<and> dget late n = Some obj \<and> \<not> is_deferred obj \<and>
       format_field X obj (Val (PStr sp)) = Inr t \<and> no_braces t)"
  using assms by (auto simp: dhas_dget split: option.splits if_splits sum.splits)

lemma agree_seg:
  assumes "plain_seg g" "agree_on X early late g"
  shows "bound_in early g \<and> bound_in late g \<and> plain_seg (expand_seg X early g) \<and> bound_in late (expand_seg X early g) \<and>
    seg_text X early g = Inr (render_seg (expand_seg X early g)) \<and> seg_text X late (expand_seg X early g) = seg_text X late g"
proof (cases g)
  case (Fld n sp)
  from agree_cases[of X early late n sp] assms(2) Fld consider
      (deferred) v where "dget early n = Some (Deferred n)" "dget late n = Some v"
    | (known) obj t where "dget early n = Some obj" "dget late n = Some obj" "\<not> is_deferred obj"
        "format_field X obj (Val (PStr sp)) = Inr t" "no_braces t"
    by blast
  then show ?thesis
  proof cases
    case deferred
    then show ?thesis using assms(1) Fld by (simp add: is_deferred_def dhas_dget format_field_def)
  next
    case known
    then show ?thesis using assms(1) Fld by (simp add: dhas_dget)
  qed
qed (use assms(1) in auto)


text \<open>An example: the account is known, the time is not.\<close>

definition ex_fenv :: "unit fenv" where
  "ex_fenv = \<lparr>fe_ext = ext0 0, fe_attr = (\<lambda>v n. Inl AttributeError), fe_repr = (\<lambda>c v. []), fe_str = (\<lambda>v. []),
     fe_format = (\<lambda>v s. Inl TypeError), fe_strftime = (\<lambda>t s. Inr (str_of_int t @ s)), \<dots> = ()\<rparr>"

definition ex_early :: fvars where
  "ex_early = [(''account'', Val (PStr ''42'')), (''now'', Deferred ''now'')]"

definition ex_late :: fvars where
  "ex_late = [(''account'', Val (PStr ''42'')), (''now'', When 5)]"


section \<open>Formats in formats\<close>

text \<open>
  A format that is itself a single field keeps the type of its value, which \<open>format\<close> then
  refuses: a width given by a number fails, and so does a deferred one.
\<close>

lemma nested_format_refused:
  assumes "plain_name n" "plain_name w" "dget vars n = Some obj" "dget vars w = Some (Val v)"
    and "py_truth v" "\<not> is_str v"
  shows "vformat X vars (''{'' @ n @ '':'' @ deferred_format w [] @ ''}'') = Inl TypeError"
proof -
  have w: "no_braces w" using assms(2) by (auto simp: plain_name_def no_braces_def list_all_iff)
  have "spec_end (Suc 0) (w @ CHR ''}'' # rest) = rbind (spec_end 0 rest) (\<lambda>(s, r). Inr (w @ CHR ''}'' # s, r))" for rest
    using w by (induction w) (auto simp: no_braces_def brace_def rbind_assoc intro!: rbind_cong)
  then have spec: "spec_end 0 (deferred_format w [] @ ''}'') = Inr (deferred_format w [], [])"
    by (simp add: deferred_format_def)
  obtain d ds where n: "n = d # ds" "\<not> brace d" using assms(1) by (cases n) (auto simp: plain_name_def)
  have "name_end False (n @ '':'' @ deferred_format w [] @ ''}'') = Inr (n, CHR '':'', deferred_format w [] @ ''}'')"
    using name_end_plain[of n "CHR '':''"] assms(1) by (simp add: plain_name_def)
  then have "parse_field (n @ '':'' @ deferred_format w [] @ ''}'') = Inr (\<lparr>f_name = n, f_spec = deferred_format w [], f_conv = None\<rparr>, [])"
    by (simp add: parse_field_def spec)
  with n have "parse_step (''{'' @ n @ '':'' @ deferred_format w [] @ ''}'') =
      Inr ([], Some \<lparr>f_name = n, f_spec = deferred_format w [], f_conv = None\<rparr>, [])"
    by (auto simp: parse_step_def brace_def)
  then have parts: "format_parts (''{'' @ n @ '':'' @ deferred_format w [] @ ''}'') =
      ([([], Some \<lparr>f_name = n, f_spec = deferred_format w [], f_conv = None\<rparr>)], None)"
    by (subst format_parts.simps) (simp add: format_parts.simps[of "[]"])
  have "no_braces []" "render [Fld w []] = deferred_format w []" by (simp_all add: no_braces_def render_def)
  with format_parts_render[of "[]" "[Fld w []]"] assms(2)
  have inner: "format_parts (deferred_format w []) = (parts_of [] [Fld w []], None)" by simp
  have "list_all plain_seg [Fld w []]" "list_all (bound_in vars) [Fld w []]"
    using assms(2,4) by (simp_all add: no_braces_def dhas_dget)
  from vparts_render[OF this, of X 0 "[]" "Some 0"]
  have nested: "vformat_at (Suc (Suc 0)) X vars (deferred_format w []) (Some 0) = Inr (Val v, Some 0)"
    by (subst vformat_at.simps) (simp add: inner assms(4) join_parts_def is_deferred_def del: vformat_at.simps)
  have "auto_name n (Some 0) = Inr (n, Some 0)" using assms(1) by (simp add: auto_name_def plain_name_def)
  moreover have "format_field X obj (Val v) = Inl TypeError"
    using assms(6) by (cases v) (simp_all add: format_field_def is_str_def)
  ultimately show ?thesis
    unfolding vformat_def numeral_3_eq_3
    by (subst vformat_at.simps) (simp add: parts[simplified] get_field_plain[OF assms(1,3)] convert_field_def nested join_parts_def assms(5)
        del: vformat_at.simps)
qed

lemma number_width: "vformat ex_fenv [(''x'', Val (PStr ''a'')), (''w'', Val (PInt 8))] ''{x:{w}}'' = Inl TypeError"
  by code_simp

end
