(* ===== verification/Deprecations.thy ===== *)
theory Deprecations
  imports PyVal
begin

text \<open>
  Deprecations of the elements of a policy (\<open>c7n/deprecated.py\<close>): which hold for an element's
  data, and the report of a policy, whose lines refer to numbered footnotes. Where a policy
  stands in its file is the \<open>SourceLocator\<close> of \<open>c7n/loader.py\<close>.
\<close>

section \<open>Deprecations\<close>

datatype deprecation_kind =
    DAlias string | DField string string | DElement string string | DOptionality "string list"

record deprecation =
  dep_id :: nat
  dep_kind :: deprecation_kind
  dep_removed :: "string option"
  dep_link :: "string option"

text \<open>Every deprecation takes the next id of the class.\<close>

definition new_deprecation :: "deprecation_kind \<Rightarrow> string option \<Rightarrow> string option \<Rightarrow> nat \<Rightarrow> deprecation \<times> nat" where
  "new_deprecation k removed link counter =
     (\<lparr>dep_id = counter, dep_kind = k, dep_removed = removed, dep_link = link\<rparr>, Suc counter)"

fun define_deprecations :: "(deprecation_kind \<times> string option \<times> string option) list \<Rightarrow> nat \<Rightarrow> deprecation list" where
  "define_deprecations [] n = []"
| "define_deprecations ((k, removed, link) # ks) n =
     (let (d, m) = new_deprecation k removed link n in d # define_deprecations ks m)"

definition remove_text :: "deprecation \<Rightarrow> string" where
  "remove_text d = (case dep_removed d of
      None \<Rightarrow> []
    | Some s \<Rightarrow> (case dep_kind d of
          DOptionality fs \<Rightarrow> ''Will become an error after '' @ s
        | _ \<Rightarrow> ''Will be removed after '' @ s))"

definition dep_check :: "deprecation \<Rightarrow> pydict \<Rightarrow> bool" where
  "dep_check d data = (case dep_kind d of
      DAlias name \<Rightarrow> py_eq (dget_or data ''type'' PNone) (PStr name)
    | DField name replacement \<Rightarrow> dhas data name
    | DElement name replacement \<Rightarrow> True
    | DOptionality fs \<Rightarrow> list_all (\<lambda>k. \<not> dhas data k) fs)"

definition in_quotes :: "string \<Rightarrow> string" where
  "in_quotes s = [CHR 0x27] @ s @ [CHR 0x27]"

definition dep_text :: "deprecation \<Rightarrow> string res" where
  "dep_text d = (case dep_kind d of
      DAlias name \<Rightarrow> Inr (''alias '' @ in_quotes name @ '' has been deprecated'')
    | DField name replacement \<Rightarrow>
        Inr (''field '' @ in_quotes name @ '' has been deprecated (replaced by '' @
          (if CHR '' '' \<in> set replacement then replacement else in_quotes replacement) @ '')'')
    | DElement name replacement \<Rightarrow> Inr (name @ '' has been deprecated ('' @ replacement @ '')'')
    | DOptionality fs \<Rightarrow>
        if 1 < length fs
        then Inr (''optional fields deprecated (one of '' @ join '' or '' (map in_quotes fs) @ '' must be specified)'')
        else (case fs of
            [] \<Rightarrow> Inl IndexError
          | f # _ \<Rightarrow> Inr (''optional field '' @ in_quotes f @ '' deprecated (must be specified)'')))"

text \<open>A deprecation, perhaps in a context, which is put before its text.\<close>

datatype mention = Plain deprecation | In_Context string deprecation

fun shown_dep :: "mention \<Rightarrow> deprecation" where
  "shown_dep (Plain d) = d"
| "shown_dep (In_Context c d) = d"

fun shown_text :: "mention \<Rightarrow> string res" where
  "shown_text (Plain d) = dep_text d"
| "shown_text (In_Context c d) = rbind (dep_text d) (\<lambda>s. Inr (c @ '' '' @ s))"

definition check_deprecations :: "deprecation list \<Rightarrow> string option \<Rightarrow> pydict \<Rightarrow> mention list" where
  "check_deprecations ds context data =
     map (\<lambda>d. case context of None \<Rightarrow> Plain d | Some c \<Rightarrow> In_Context c d) (filter (\<lambda>d. dep_check d data) ds)"

section \<open>Footnotes\<close>

record footnotes =
  fn_seen :: "(nat, nat option) odict"
  fn_notes :: "string list"

definition footnotes0 :: footnotes where
  "footnotes0 = \<lparr>fn_seen = [], fn_notes = []\<rparr>"

definition note_text :: "deprecation \<Rightarrow> string" where
  "note_text d =
     (let removed = remove_text d
      in case dep_link d of
           None \<Rightarrow> removed
         | Some link \<Rightarrow> ''See '' @ link @
             (case removed of [] \<Rightarrow> [] | c # cs \<Rightarrow> '', '' @ char_lower c # cs))"

definition ref_text :: "nat option \<Rightarrow> string" where
  "ref_text r = (case r of None \<Rightarrow> [] | Some n \<Rightarrow> '' ['' @ str_of_nat n @ '']'')"

definition refer :: "deprecation \<Rightarrow> footnotes \<Rightarrow> string \<times> footnotes" where
  "refer d F = (case dget (fn_seen F) (dep_id d) of
      Some r \<Rightarrow> (ref_text r, F)
    | None \<Rightarrow>
        if note_text d = [] then ([], F\<lparr>fn_seen := dput (dep_id d) None (fn_seen F)\<rparr>)
        else let n = Suc (length (fn_notes F))
             in (ref_text (Some n), F\<lparr>fn_seen := dput (dep_id d) (Some n) (fn_seen F), fn_notes := fn_notes F @ [note_text d]\<rparr>))"

definition footnote_lines :: "footnotes \<Rightarrow> string list" where
  "footnote_lines F = map (\<lambda>(i, s). ''['' @ str_of_nat (Suc i) @ ''] '' @ s) (enumerate 0 (fn_notes F))"

section \<open>The report\<close>

record report =
  rep_name :: string
  rep_fields :: "mention list"
  rep_conditions :: "mention list"
  rep_mode :: "mention list"
  rep_resource :: "mention list"
  rep_filters :: "mention list"
  rep_actions :: "mention list"

definition report_any :: "report \<Rightarrow> bool" where
  "report_any r \<longleftrightarrow> rep_filters r \<noteq> [] \<or> rep_actions r \<noteq> [] \<or> rep_fields r \<noteq> [] \<or> rep_conditions r \<noteq> [] \<or>
     rep_resource r \<noteq> [] \<or> rep_mode r \<noteq> []"

text \<open>The lines of a section; without footnotes there are no references.\<close>

fun section_lines :: "mention list \<Rightarrow> footnotes option \<Rightarrow> (string list \<times> footnotes option) res" where
  "section_lines [] F = Inr ([], F)"
| "section_lines (s # ss) F =
     rbind (shown_text s) (\<lambda>t.
     let (r, F') = (case F of None \<Rightarrow> ([], None) | Some F \<Rightarrow> let (r, F') = refer (shown_dep s) F in (r, Some F'))
     in rbind (section_lines ss F') (\<lambda>(ls, F''). Inr ((''    '' @ t @ r) # ls, F'')))"

definition report_section :: "string \<Rightarrow> mention list \<Rightarrow> footnotes option \<Rightarrow> (string list \<times> footnotes option) res" where
  "report_section name ss F =
     (if ss = [] then Inr ([], F)
      else rbind (section_lines ss F) (\<lambda>(ls, F'). Inr ((''  '' @ name @ '':'') # ls, F')))"

fun report_sections :: "(string \<times> mention list) list \<Rightarrow> footnotes option \<Rightarrow> (string list \<times> footnotes option) res" where
  "report_sections [] F = Inr ([], F)"
| "report_sections ((name, ss) # rest) F =
     rbind (report_section name ss F) (\<lambda>(ls, F1). rbind (report_sections rest F1) (\<lambda>(ms, F2). Inr (ls @ ms, F2)))"

definition sections_of :: "report \<Rightarrow> (string \<times> mention list) list" where
  "sections_of r = [(''attributes'', rep_fields r), (''condition'', rep_conditions r), (''mode'', rep_mode r),
     (''resource'', rep_resource r), (''filters'', rep_filters r), (''actions'', rep_actions r)]"

definition report_format :: "string \<Rightarrow> report \<Rightarrow> footnotes option \<Rightarrow> (string list \<times> footnotes option) res" where
  "report_format place r F =
     rbind (report_sections (sections_of r) F) (\<lambda>(ls, F').
       Inr ((''policy '' @ in_quotes (rep_name r) @ (if place = [] then [] else '' ('' @ place @ '')'')) # ls, F'))"

fun format_reports :: "(string \<Rightarrow> string) \<Rightarrow> report list \<Rightarrow> footnotes option \<Rightarrow> (string list list \<times> footnotes option) res" where
  "format_reports place [] F = Inr ([], F)"
| "format_reports place (r # rs) F =
     rbind (report_format (place (rep_name r)) r F) (\<lambda>(ls, F1).
     rbind (format_reports place rs F1) (\<lambda>(lss, F2). Inr (ls # lss, F2)))"

section \<open>Where policies are\<close>

text \<open>
  A line that names a policy: blanks, perhaps a dash and blanks, \<open>name:\<close> and one word. The last
  one of a name counts.
\<close>

definition word_char :: "char \<Rightarrow> bool" where
  "word_char c \<longleftrightarrow> is_digit c \<or> is_lower c \<or> is_upper c \<or> c = CHR ''_'' \<or> c = CHR ''-''"

definition name_rest :: "string \<Rightarrow> string option" where
  "name_rest s =
     (if \<not> starts_with s ''name: '' then None
      else let w = takeWhile word_char (drop 6 s)
           in if w \<noteq> [] \<and> list_all is_space (dropWhile word_char (drop 6 s)) then Some w else None)"

definition named_policy :: "string \<Rightarrow> string option" where
  "named_policy line =
     (case line of
        [] \<Rightarrow> None
      | c # _ \<Rightarrow>
          if \<not> is_space c then None
          else (case dropWhile is_space line of
              [] \<Rightarrow> None
            | d # rest \<Rightarrow>
                if d = CHR ''-'' \<and> rest \<noteq> [] \<and> is_space (hd rest) then name_rest (dropWhile is_space rest)
                else name_rest (d # rest)))"

definition locate_policies :: "string list \<Rightarrow> (string, nat) odict" where
  "locate_policies lines =
     fold (\<lambda>(i, l) m. case named_policy l of None \<Rightarrow> m | Some n \<Rightarrow> dput n (Suc i) m) (enumerate 0 lines) []"

definition find_policy :: "string \<Rightarrow> string list \<Rightarrow> string \<Rightarrow> string" where
  "find_policy file lines name = (case dget (locate_policies lines) name of
      None \<Rightarrow> [] | Some n \<Rightarrow> file @ '':'' @ str_of_nat n)"

section \<open>The validate command\<close>

text \<open>
  A file as the command finds it: whether its structure is valid, what its schema says, and its
  policies by name, each with the report of its deprecations or what was raised.
\<close>

record config_file =
  cf_path :: string
  cf_yaml :: bool
  cf_lines :: "string list"
  cf_structure :: bool
  cf_schema :: "string list"
  cf_policies :: "(string \<times> (pyerr + report)) list"

datatype file_error = Bad_Structure | Schema_Error string | Duplicate_Names | Bad_Policy string

datatype dep_option = Dep_Skip | Dep_Yes | Dep_Strict

record validation =
  va_used :: "string list"
  va_notes :: footnotes
  va_found :: bool
  va_errors :: "(string \<times> file_error list) list"

definition place_of :: "config_file \<Rightarrow> string \<Rightarrow> string" where
  "place_of f name = (if cf_yaml f then find_policy (cf_path f) (cf_lines f) name else [])"

text \<open>
  One policy: what is raised, by the report as well, is an error of the file. (A report raises
  only for an optionality without fields; the footnotes it made before are then left out.)
\<close>

definition validate_one ::
  "dep_option \<Rightarrow> config_file \<Rightarrow> string \<times> (pyerr + report) \<Rightarrow> footnotes \<times> bool \<Rightarrow> file_error list \<times> footnotes \<times> bool" where
  "validate_one opt f p state = (case (p, state) of ((name, outcome), (F, found)) \<Rightarrow> (case outcome of
      Inl e \<Rightarrow> ([Bad_Policy name], F, found)
    | Inr r \<Rightarrow>
        if opt = Dep_Skip \<or> \<not> report_any r then ([], F, found)
        else (case report_format (place_of f (rep_name r)) r (Some F) of
            Inl e \<Rightarrow> ([Bad_Policy name], F, True)
          | Inr (ls, F') \<Rightarrow> ([], case F' of None \<Rightarrow> F | Some G \<Rightarrow> G, True))))"

fun validate_policies ::
  "dep_option \<Rightarrow> config_file \<Rightarrow> (string \<times> (pyerr + report)) list \<Rightarrow> footnotes \<times> bool \<Rightarrow> file_error list \<times> footnotes \<times> bool" where
  "validate_policies opt f [] state = ([], state)"
| "validate_policies opt f (p # ps) state =
     (let (es, state1) = validate_one opt f p state; (es', state2) = validate_policies opt f ps state1 in (es @ es', state2))"

definition validate_file :: "dep_option \<Rightarrow> config_file \<Rightarrow> validation \<Rightarrow> validation" where
  "validate_file opt f v =
     (if \<not> cf_structure f then v\<lparr>va_errors := va_errors v @ [(cf_path f, [Bad_Structure])]\<rparr>
      else let names = map fst (cf_policies f);
               early = map Schema_Error (cf_schema f) @ (if list_ex (\<lambda>n. n \<in> set (va_used v)) names then [Duplicate_Names] else []);
               (late, F, found) = (if early = [] then validate_policies opt f (cf_policies f) (va_notes v, va_found v)
                                   else ([], va_notes v, va_found v));
               errors = early @ late
           in v\<lparr>va_used := va_used v @ names, va_notes := F, va_found := found,
                va_errors := va_errors v @ (if errors = [] then [] else [(cf_path f, errors)])\<rparr>)"

definition validate_files :: "dep_option \<Rightarrow> config_file list \<Rightarrow> validation" where
  "validate_files opt fs = fold (validate_file opt) fs \<lparr>va_used = [], va_notes = footnotes0, va_found = False, va_errors = []\<rparr>"

text \<open>The exit code; no files are an error.\<close>

definition validate_exit :: "dep_option \<Rightarrow> config_file list \<Rightarrow> nat" where
  "validate_exit opt fs =
     (let v = validate_files opt fs
      in if fs = [] \<or> opt = Dep_Strict \<and> va_found v \<or> va_errors v \<noteq> [] then 1 else 0)"

section \<open>References\<close>

text \<open>The numbers given out, and what they promise for the deprecations seen.\<close>

definition numbers :: "footnotes \<Rightarrow> nat list" where
  "numbers F = concat (map (\<lambda>(i, r). case r of None \<Rightarrow> [] | Some n \<Rightarrow> [n]) (fn_seen F))"

definition ref_ok :: "string list \<Rightarrow> deprecation \<Rightarrow> nat option \<Rightarrow> bool" where
  "ref_ok notes d r = (case r of
      None \<Rightarrow> note_text d = []
    | Some n \<Rightarrow> note_text d \<noteq> [] \<and> 0 < n \<and> n \<le> length notes \<and> notes ! (n - 1) = note_text d)"

definition notes_ok :: "deprecation set \<Rightarrow> footnotes \<Rightarrow> bool" where
  "notes_ok D F \<longleftrightarrow> (\<forall>d \<in> D. \<forall>r. dget (fn_seen F) (dep_id d) = Some r \<longrightarrow> ref_ok (fn_notes F) d r) \<and>
     numbers F = [1 ..< Suc (length (fn_notes F))]"

definition ids_apart :: "deprecation set \<Rightarrow> bool" where
  "ids_apart D \<longleftrightarrow> (\<forall>d \<in> D. \<forall>d' \<in> D. dep_id d = dep_id d' \<longrightarrow> d = d')"

text \<open>Footnotes only grow.\<close>

definition notes_le :: "footnotes \<Rightarrow> footnotes \<Rightarrow> bool" where
  "notes_le F G \<longleftrightarrow> (\<forall>i r. dget (fn_seen F) i = Some r \<longrightarrow> dget (fn_seen G) i = Some r)"

lemma notes_le_refl: "notes_le F F"
  by (simp add: notes_le_def)

lemma notes_le_trans: "notes_le F G \<Longrightarrow> notes_le G H \<Longrightarrow> notes_le F H"
  by (auto simp: notes_le_def)

lemma dput_new: "dget d k = None \<Longrightarrow> dput k v d = d @ [(k, v)]"
  by (induction d) (auto split: if_splits)

lemma numbers_new:
  assumes "dget (fn_seen F) i = None"
  shows "numbers (F\<lparr>fn_seen := dput i r (fn_seen F)\<rparr>) = numbers F @ (case r of None \<Rightarrow> [] | Some n \<Rightarrow> [n])"
  using assms by (simp add: numbers_def dput_new)

lemma refer_ok:
  assumes "notes_ok D F" "d \<in> D" "ids_apart D" "refer d F = (t, G)"
  shows "notes_ok D G \<and> notes_le F G \<and> (\<exists>r. dget (fn_seen G) (dep_id d) = Some r \<and> t = ref_text r)"
proof (cases "dget (fn_seen F) (dep_id d)")
  case (Some r)
  with assms show ?thesis by (auto simp: refer_def notes_le_refl)
next
  case None
  from None assms(4) have G: "G = (if note_text d = [] then F\<lparr>fn_seen := dput (dep_id d) None (fn_seen F)\<rparr>
      else F\<lparr>fn_seen := dput (dep_id d) (Some (Suc (length (fn_notes F)))) (fn_seen F), fn_notes := fn_notes F @ [note_text d]\<rparr>)"
    and t: "t = ref_text (if note_text d = [] then None else Some (Suc (length (fn_notes F))))"
    by (auto simp: refer_def Let_def ref_text_def split: if_splits)
  have "notes_le F G" using None by (auto simp: G notes_le_def dget_dput)
  moreover have "notes_ok D G"
    unfolding notes_ok_def
  proof (intro conjI ballI allI impI)
    fix d' r assume d': "d' \<in> D" "dget (fn_seen G) (dep_id d') = Some r"
    show "ref_ok (fn_notes G) d' r"
    proof (cases "dep_id d' = dep_id d")
      case True
      with assms(2,3) d'(1) have "d' = d" unfolding ids_apart_def by blast
      with d'(2) show ?thesis by (auto simp: G ref_ok_def split: if_splits)
    next
      case False
      with d'(2) have "dget (fn_seen F) (dep_id d') = Some r" by (auto simp: G split: if_splits)
      with assms(1) d'(1) have "ref_ok (fn_notes F) d' r" by (simp add: notes_ok_def)
      then show ?thesis by (auto simp: G ref_ok_def nth_append split: option.splits)
    qed
  next
    have "numbers F = [1 ..< Suc (length (fn_notes F))]" using assms(1) by (simp add: notes_ok_def)
    then show "numbers G = [1 ..< Suc (length (fn_notes G))]"
      using numbers_new[OF None, of None] numbers_new[OF None, of "Some (Suc (length (fn_notes F)))"]
      by (auto simp: G numbers_def)
  qed
  ultimately show ?thesis by (auto simp: G t)
qed

text \<open>The lines of a report, with the references the footnotes \<open>H\<close> give.\<close>

definition reference :: "footnotes \<Rightarrow> deprecation \<Rightarrow> string" where
  "reference H d = (case dget (fn_seen H) (dep_id d) of None \<Rightarrow> [] | Some r \<Rightarrow> ref_text r)"

definition shown_line :: "footnotes \<Rightarrow> mention \<Rightarrow> string" where
  "shown_line H s = ''    '' @ (case shown_text s of Inl e \<Rightarrow> [] | Inr t \<Rightarrow> t) @ reference H (shown_dep s)"

definition section_reading :: "footnotes \<Rightarrow> string \<times> mention list \<Rightarrow> string list" where
  "section_reading H sec = (case sec of (name, ss) \<Rightarrow> if ss = [] then [] else (''  '' @ name @ '':'') # map (shown_line H) ss)"

definition report_reading :: "footnotes \<Rightarrow> string \<Rightarrow> report \<Rightarrow> string list" where
  "report_reading H place r =
     (''policy '' @ in_quotes (rep_name r) @ (if place = [] then [] else '' ('' @ place @ '')'')) # concat (map (section_reading H) (sections_of r))"

definition report_deps :: "report \<Rightarrow> deprecation set" where
  "report_deps r = shown_dep ` (\<Union>(name, ss) \<in> set (sections_of r). set ss)"

text \<open>
  What a printing function promises: it prints the lines read under the footnotes it leaves, and
  under any later ones.
\<close>

definition prints :: "deprecation set \<Rightarrow> footnotes \<Rightarrow> (footnotes \<Rightarrow> 'a) \<Rightarrow> deprecation set \<Rightarrow> 'a \<Rightarrow> footnotes option \<Rightarrow> bool" where
  "prints D F reading E ls F' \<longleftrightarrow> (\<exists>G. F' = Some G \<and> notes_ok D G \<and> notes_le F G \<and>
     (\<forall>H. notes_le G H \<longrightarrow> ls = reading H) \<and> (\<forall>d \<in> E. dhas (fn_seen G) (dep_id d)))"

lemma notes_le_has: "notes_le F G \<Longrightarrow> dhas (fn_seen F) i \<Longrightarrow> dhas (fn_seen G) i"
  by (auto simp: notes_le_def dhas_dget)

lemma prints_seq:
  assumes "prints D F f E1 ls (Some G)" "prints D G g E2 ms F'"
  shows "prints D F (\<lambda>H. h (f H) (g H)) (E1 \<union> E2) (h ls ms) F'"
proof -
  from assms(2) obtain K where K: "F' = Some K" "notes_ok D K" "notes_le G K" "\<forall>H. notes_le K H \<longrightarrow> ms = g H"
    "\<forall>d \<in> E2. dhas (fn_seen K) (dep_id d)" by (auto simp: prints_def)
  from assms(1) K(3) have "\<forall>H. notes_le K H \<longrightarrow> ls = f H" "\<forall>d \<in> E1. dhas (fn_seen K) (dep_id d)" "notes_le F K"
    by (auto simp: prints_def intro: notes_le_trans notes_le_has)
  with K show ?thesis by (auto simp: prints_def)
qed

lemma prints_nothing: "notes_ok D F \<Longrightarrow> prints D F (\<lambda>H. x) {} x (Some F)"
  by (simp add: prints_def notes_le_refl)

lemma prints_ok: "prints D F f E ls F' \<Longrightarrow> \<exists>G. F' = Some G \<and> notes_ok D G"
  by (auto simp: prints_def)

lemma section_lines_print:
  "notes_ok D F \<Longrightarrow> ids_apart D \<Longrightarrow> shown_dep ` set ss \<subseteq> D \<Longrightarrow> section_lines ss (Some F) = Inr (ls, F') \<Longrightarrow>
     prints D F (\<lambda>H. map (shown_line H) ss) (shown_dep ` set ss) ls F'"
proof (induction ss arbitrary: F ls F')
  case Nil
  then show ?case by (auto simp: prints_nothing)
next
  case (Cons s ss)
  obtain r F1 where refer: "refer (shown_dep s) F = (r, F1)" by force
  with Cons.prems(4) obtain t rest where t: "shown_text s = Inr t" and rest: "section_lines ss (Some F1) = Inr (rest, F')"
    and ls: "ls = (''    '' @ t @ r) # rest"
    by (auto simp: rbind_eq_Inr Let_def)
  from refer_ok[OF Cons.prems(1) _ Cons.prems(2) refer] Cons.prems(3) obtain q
    where F1: "notes_ok D F1" "notes_le F F1" and q: "dget (fn_seen F1) (dep_id (shown_dep s)) = Some q" "r = ref_text q" by auto
  have "prints D F (\<lambda>H. shown_line H s) {shown_dep s} (''    '' @ t @ r) (Some F1)"
    using F1 q by (auto simp: prints_def shown_line_def reference_def t notes_le_def dhas_dget)
  from prints_seq[OF this Cons.IH[OF F1(1) Cons.prems(2) _ rest], of "(#)"] Cons.prems(3) ls show ?case by simp
qed

lemma report_sections_print:
  "notes_ok D F \<Longrightarrow> ids_apart D \<Longrightarrow> shown_dep ` (\<Union>(name, ss) \<in> set secs. set ss) \<subseteq> D \<Longrightarrow>
     report_sections secs (Some F) = Inr (ls, F') \<Longrightarrow>
     prints D F (\<lambda>H. concat (map (section_reading H) secs)) (shown_dep ` (\<Union>(name, ss) \<in> set secs. set ss)) ls F'"
proof (induction secs arbitrary: F ls F')
  case Nil
  then show ?case by (auto simp: prints_nothing)
next
  case (Cons sec secs)
  obtain name ss where sec: "sec = (name, ss)" by (cases sec)
  with Cons.prems(4) obtain xs F1 ys where one: "report_section name ss (Some F) = Inr (xs, F1)"
    and rest: "report_sections secs F1 = Inr (ys, F')" and ls: "ls = xs @ ys"
    by (auto simp: rbind_eq_Inr)
  have "prints D F (\<lambda>H. section_reading H sec) (shown_dep ` set ss) xs F1"
  proof (cases "ss = []")
    case True
    with one Cons.prems(1) show ?thesis by (auto simp: report_section_def section_reading_def sec prints_nothing)
  next
    case False
    with one obtain zs where zs: "section_lines ss (Some F) = Inr (zs, F1)" "xs = (''  '' @ name @ '':'') # zs"
      by (auto simp: report_section_def rbind_eq_Inr)
    have "shown_dep ` set ss \<subseteq> D" using Cons.prems(3) sec by auto
    from section_lines_print[OF Cons.prems(1,2) this zs(1)] False zs(2) show ?thesis
      by (auto simp: prints_def section_reading_def sec)
  qed
  moreover from prints_ok[OF this] obtain G where G: "F1 = Some G" "notes_ok D G" by blast
  moreover have "shown_dep ` (\<Union>(name, ss) \<in> set secs. set ss) \<subseteq> D" using Cons.prems(3) by fastforce
  ultimately show ?case
    using prints_seq[of D F "\<lambda>H. section_reading H sec" "shown_dep ` set ss" xs G _ _ ys F' "(@)"]
      Cons.IH[OF G(2) Cons.prems(2) _ rest[unfolded G(1)]] ls
    by (simp add: sec image_Un)
qed

lemma report_format_prints:
  assumes "notes_ok D F" "ids_apart D" "report_deps r \<subseteq> D" "report_format place r (Some F) = Inr (ls, F')"
  shows "prints D F (\<lambda>H. report_reading H place r) (report_deps r) ls F'"
proof -
  from assms(4) obtain xs where xs: "report_sections (sections_of r) (Some F) = Inr (xs, F')"
    "ls = (''policy '' @ in_quotes (rep_name r) @ (if place = [] then [] else '' ('' @ place @ '')'')) # xs"
    by (auto simp: report_format_def rbind_eq_Inr)
  from report_sections_print[OF assms(1,2) assms(3)[unfolded report_deps_def] xs(1)] xs(2) show ?thesis
    by (auto simp: prints_def report_reading_def report_deps_def)
qed

lemma format_reports_print:
  "notes_ok D F \<Longrightarrow> ids_apart D \<Longrightarrow> \<Union> (report_deps ` set rs) \<subseteq> D \<Longrightarrow> format_reports place rs (Some F) = Inr (lss, F') \<Longrightarrow>
     prints D F (\<lambda>H. map (\<lambda>r. report_reading H (place (rep_name r)) r) rs) (\<Union> (report_deps ` set rs)) lss F'"
proof (induction rs arbitrary: F lss F')
  case (Cons r rs)
  then obtain ls F1 rest where one: "report_format (place (rep_name r)) r (Some F) = Inr (ls, F1)"
    and rest: "format_reports place rs F1 = Inr (rest, F')" and lss: "lss = ls # rest"
    by (auto simp: rbind_eq_Inr)
  have "report_deps r \<subseteq> D" using Cons.prems(3) by simp
  from report_format_prints[OF Cons.prems(1,2) this one]
  have head: "prints D F (\<lambda>H. report_reading H (place (rep_name r)) r) (report_deps r) ls F1" .
  from prints_ok[OF head] obtain G where G: "F1 = Some G" "notes_ok D G" by blast
  have "\<Union> (report_deps ` set rs) \<subseteq> D" using Cons.prems(3) by simp
  from prints_seq[OF head[unfolded G(1)] Cons.IH[OF G(2) Cons.prems(2) this rest[unfolded G(1)]], of "(#)"] lss
  show ?case by simp
qed (auto simp: prints_nothing)

text \<open>The footnotes of all reports printed together are right: there is one reading of them,
  under which every line of every report is what it should be; a deprecation with a date or a
  link refers to the number of its own note, the others have no reference; and the notes are
  numbered from one on, each given to one deprecation.
\<close>

theorem footnotes_right:
  assumes "format_reports place rs (Some footnotes0) = Inr (lss, F')" "ids_apart (\<Union> (report_deps ` set rs))"
  shows "\<exists>G. F' = Some G \<and> lss = map (\<lambda>r. report_reading G (place (rep_name r)) r) rs \<and>
    (\<forall>d \<in> \<Union> (report_deps ` set rs).
       if note_text d = [] then reference G d = []
       else \<exists>n. reference G d = '' ['' @ str_of_nat n @ '']'' \<and> 0 < n \<and> n \<le> length (fn_notes G) \<and> fn_notes G ! (n - 1) = note_text d) \<and>
    numbers G = [1 ..< Suc (length (fn_notes G))]"
proof -
  let ?D = "\<Union> (report_deps ` set rs)"
  have "notes_ok ?D footnotes0" by (simp add: notes_ok_def footnotes0_def numbers_def)
  from format_reports_print[OF this assms(2) subset_refl assms(1)] obtain G where
    G: "F' = Some G" "notes_ok ?D G" "\<forall>H. notes_le G H \<longrightarrow> lss = map (\<lambda>r. report_reading H (place (rep_name r)) r) rs"
      "\<forall>d \<in> ?D. dhas (fn_seen G) (dep_id d)"
    by (auto simp: prints_def)
  have refs: "if note_text d = [] then reference G d = []
       else \<exists>n. reference G d = '' ['' @ str_of_nat n @ '']'' \<and> 0 < n \<and> n \<le> length (fn_notes G) \<and> fn_notes G ! (n - 1) = note_text d"
    if d: "d \<in> ?D" for d
  proof -
    from G(4) d obtain r where r: "dget (fn_seen G) (dep_id d) = Some r" by (auto simp: dhas_dget)
    with G(2) d have "ref_ok (fn_notes G) d r" by (auto simp: notes_ok_def)
    with r show ?thesis by (cases r) (auto simp: ref_ok_def reference_def ref_text_def)
  qed
  from G(3) notes_le_refl have "lss = map (\<lambda>r. report_reading G (place (rep_name r)) r) rs" by blast
  moreover have "numbers G = [1 ..< Suc (length (fn_notes G))]" using G(2) by (simp only: notes_ok_def)
  ultimately show ?thesis using G(1) refs by blast
qed

text \<open>An example: two policies with the same deprecated field and one with an alias.\<close>

definition ex_deps :: "deprecation list" where
  "ex_deps = define_deprecations
     [(DField ''whitelist'' ''allow'', Some ''2021-06-30'', None), (DAlias ''untag'', None, None)] 0"

definition ex_report :: "string \<Rightarrow> pydict \<Rightarrow> report" where
  "ex_report name data = \<lparr>rep_name = name, rep_fields = [], rep_conditions = [], rep_mode = [], rep_resource = [],
     rep_filters = check_deprecations ex_deps (Some ''filter:'') data, rep_actions = []\<rparr>"

definition ex_reports :: "report list" where
  "ex_reports = [ex_report ''a'' [(''type'', PStr ''untag''), (''whitelist'', PList [])], ex_report ''b'' [(''whitelist'', PList [])]]"

lemma footnotes_right_witness:
  "\<exists>G. format_reports (\<lambda>n. []) ex_reports (Some footnotes0) =
     Inr (map (\<lambda>r. report_reading G [] r) ex_reports, Some G) \<and> numbers G = [1] \<and>
     fn_notes G = [''Will be removed after 2021-06-30'']"
proof -
  have "case format_reports (\<lambda>n. []) ex_reports (Some footnotes0) of
      Inr (lss, Some G) \<Rightarrow> fn_notes G = [''Will be removed after 2021-06-30''] | _ \<Rightarrow> False" by code_simp
  then obtain lss G where run: "format_reports (\<lambda>n. []) ex_reports (Some footnotes0) = Inr (lss, Some G)"
    and one: "fn_notes G = [''Will be removed after 2021-06-30'']"
    by (auto split: sum.splits prod.splits option.splits)
  have "ids_apart (\<Union> (report_deps ` set ex_reports))"
    by (simp add: ex_reports_def ex_report_def report_deps_def sections_of_def check_deprecations_def ex_deps_def
        new_deprecation_def dep_check_def dget_or_def dhas_def ids_apart_def)
  from footnotes_right[OF run this] run one show ?thesis by auto
qed

section \<open>What validation answers\<close>

text \<open>What a file is to be, given the names used before, for it to have no errors.\<close>

definition clean_file :: "string list \<Rightarrow> config_file \<Rightarrow> bool" where
  "clean_file used f \<longleftrightarrow> cf_structure f \<and> cf_schema f = [] \<and> (\<forall>p \<in> set (cf_policies f). fst p \<notin> set used \<and> (\<exists>r. snd p = Inr r))"

fun clean_files :: "string list \<Rightarrow> config_file list \<Rightarrow> bool" where
  "clean_files used [] = True"
| "clean_files used (f # fs) = (clean_file used f \<and> clean_files (used @ map fst (cf_policies f)) fs)"

definition deprecated_use :: "config_file \<Rightarrow> bool" where
  "deprecated_use f \<longleftrightarrow> (\<exists>p \<in> set (cf_policies f). \<exists>r. snd p = Inr r \<and> report_any r)"

text \<open>Reports that can be printed, as all of the program's can.\<close>

definition printable :: "report \<Rightarrow> bool" where
  "printable r \<longleftrightarrow> (\<forall>d \<in> report_deps r. \<exists>t. dep_text d = Inr t)"

lemma shown_text_total: "\<exists>t. dep_text (shown_dep s) = Inr t \<Longrightarrow> \<exists>t. shown_text s = Inr t"
  by (cases s) auto

lemma section_lines_total:
  "\<forall>s \<in> set ss. \<exists>t. dep_text (shown_dep s) = Inr t \<Longrightarrow> \<exists>ls G. section_lines ss (Some F) = Inr (ls, Some G)"
proof (induction ss arbitrary: F)
  case (Cons s ss)
  then obtain t where t: "shown_text s = Inr t" using shown_text_total[of s] by auto
  obtain r F1 where r: "refer (shown_dep s) F = (r, F1)" by force
  from Cons.IH[of F1] Cons.prems obtain ls G where "section_lines ss (Some F1) = Inr (ls, Some G)" by auto
  with t r show ?case by simp
qed simp

lemma report_sections_total:
  "\<forall>s \<in> (\<Union>(name, ss) \<in> set secs. set ss). \<exists>t. dep_text (shown_dep s) = Inr t \<Longrightarrow>
     \<exists>ls G. report_sections secs (Some F) = Inr (ls, Some G)"
proof (induction secs arbitrary: F)
  case (Cons sec secs)
  obtain name ss where sec: "sec = (name, ss)" by (cases sec)
  with Cons.prems section_lines_total[of ss F] obtain xs K where "section_lines ss (Some F) = Inr (xs, Some K)" by auto
  then have "\<exists>ls G. report_section name ss (Some F) = Inr (ls, Some G)" by (simp add: report_section_def)
  then obtain ls G where "report_section name ss (Some F) = Inr (ls, Some G)" by blast
  with Cons.IH[of G] Cons.prems sec show ?case by auto
qed simp

lemma report_format_total: "printable r \<Longrightarrow> \<exists>ls G. report_format place r (Some F) = Inr (ls, Some G)"
  using report_sections_total[of "sections_of r" F] by (auto simp: printable_def report_deps_def report_format_def)

lemma validate_policies_clean:
  "\<forall>p \<in> set ps. \<forall>r. snd p = Inr r \<longrightarrow> printable r \<Longrightarrow> validate_policies opt f ps (F, found) = (es, F', found') \<Longrightarrow>
     (es = [] \<longleftrightarrow> (\<forall>p \<in> set ps. \<exists>r. snd p = Inr r)) \<and>
     (found' \<longleftrightarrow> found \<or> opt \<noteq> Dep_Skip \<and> (\<exists>p \<in> set ps. \<exists>r. snd p = Inr r \<and> report_any r))"
proof (induction ps arbitrary: F found es)
  case (Cons p ps)
  obtain name outcome where p: "p = (name, outcome)" by (cases p)
  obtain e1 F1 found1 where one: "validate_one opt f p (F, found) = (e1, F1, found1)" by (metis prod_cases3)
  obtain e2 where rest: "validate_policies opt f ps (F1, found1) = (e2, F', found')" and es: "es = e1 @ e2"
    using Cons.prems(2) by (auto simp: one split: prod.splits)
  have "(e1 = [] \<longleftrightarrow> (\<exists>r. outcome = Inr r)) \<and>
      (found1 \<longleftrightarrow> found \<or> opt \<noteq> Dep_Skip \<and> (\<exists>r. outcome = Inr r \<and> report_any r))"
  proof (cases outcome)
    case (Inl e)
    with one show ?thesis by (auto simp: validate_one_def p)
  next
    case (Inr r)
    with Cons.prems(1) have "printable r" by (simp add: p)
    from report_format_total[OF this] obtain ls G where "report_format (place_of f (rep_name r)) r (Some F) = Inr (ls, Some G)" by blast
    with one Inr show ?thesis by (auto simp: validate_one_def p split: if_splits)
  qed
  with Cons.IH[OF _ rest] Cons.prems(1) es show ?case by (auto simp: p)
qed simp

lemma validate_file_clean:
  assumes "\<forall>p \<in> set (cf_policies f). \<forall>r. snd p = Inr r \<longrightarrow> printable r"
  shows "(va_errors (validate_file opt f v) = [] \<longleftrightarrow> va_errors v = [] \<and> clean_file (va_used v) f) \<and>
    (clean_file (va_used v) f \<longrightarrow> va_used (validate_file opt f v) = va_used v @ map fst (cf_policies f) \<and>
       (va_found (validate_file opt f v) \<longleftrightarrow> va_found v \<or> opt \<noteq> Dep_Skip \<and> deprecated_use f))"
proof -
  obtain es F found where ps: "validate_policies opt f (cf_policies f) (va_notes v, va_found v) = (es, F, found)" by (metis prod_cases3)
  from validate_policies_clean[OF assms ps] have "(es = [] \<longleftrightarrow> (\<forall>p \<in> set (cf_policies f). \<exists>r. snd p = Inr r))"
    "(found \<longleftrightarrow> va_found v \<or> opt \<noteq> Dep_Skip \<and> deprecated_use f)" by (auto simp: deprecated_use_def)
  then show ?thesis
    by (auto simp: validate_file_def clean_file_def ps Let_def list_ex_iff)
qed

lemma validate_fold_clean:
  "\<forall>f \<in> set fs. \<forall>p \<in> set (cf_policies f). \<forall>r. snd p = Inr r \<longrightarrow> printable r \<Longrightarrow>
     (va_errors (fold (validate_file opt) fs v) = [] \<longleftrightarrow> va_errors v = [] \<and> clean_files (va_used v) fs) \<and>
     (clean_files (va_used v) fs \<longrightarrow>
       (va_found (fold (validate_file opt) fs v) \<longleftrightarrow> va_found v \<or> opt \<noteq> Dep_Skip \<and> (\<exists>f \<in> set fs. deprecated_use f)))"
proof (induction fs arbitrary: v)
  case (Cons f fs)
  have one: "\<forall>p \<in> set (cf_policies f). \<forall>r. snd p = Inr r \<longrightarrow> printable r" using Cons.prems by simp
  from Cons.IH[of "validate_file opt f v"] Cons.prems validate_file_clean[OF one, of opt v]
  show ?case by (cases "clean_file (va_used v) f") auto
qed simp

text \<open>C33: The validate command exits with 0 exactly when there is a file, every file has a valid
  structure and schema, no policy of it is refused or has the name of a policy of an earlier
  file, and, when deprecations are errors, no policy uses a deprecated element.
\<close>

theorem validate_exit_ok:
  assumes "\<forall>f \<in> set fs. \<forall>p \<in> set (cf_policies f). \<forall>r. snd p = Inr r \<longrightarrow> printable r"
  shows "validate_exit opt fs = 0 \<longleftrightarrow> fs \<noteq> [] \<and> clean_files [] fs \<and> \<not> (opt = Dep_Strict \<and> (\<exists>f \<in> set fs. deprecated_use f))"
  using validate_fold_clean[OF assms, of opt "\<lparr>va_used = [], va_notes = footnotes0, va_found = False, va_errors = []\<rparr>"]
  by (auto simp: validate_exit_def validate_files_def Let_def)

definition ex_checked_file :: config_file where
  "ex_checked_file = \<lparr>cf_path = ''c.yml'', cf_yaml = True, cf_lines = [''policies:'', '' - name: a''], cf_structure = True, cf_schema = [],
     cf_policies = map (\<lambda>r. (rep_name r, Inr r)) ex_reports\<rparr>"

lemma validate_exit_ok_witness:
  "validate_exit Dep_Yes [ex_checked_file] = 0 \<and> validate_exit Dep_Strict [ex_checked_file] \<noteq> 0"
proof -
  have "\<forall>f \<in> set [ex_checked_file]. \<forall>p \<in> set (cf_policies f). \<forall>r. snd p = Inr r \<longrightarrow> printable r"
    by (simp add: ex_checked_file_def ex_reports_def ex_report_def printable_def report_deps_def sections_of_def check_deprecations_def
        ex_deps_def new_deprecation_def dep_check_def dget_or_def dhas_def dep_text_def)
  from validate_exit_ok[OF this, of Dep_Yes] validate_exit_ok[OF this, of Dep_Strict] show ?thesis
    by (auto simp: clean_file_def deprecated_use_def ex_checked_file_def ex_reports_def ex_report_def check_deprecations_def
        ex_deps_def new_deprecation_def dep_check_def dget_or_def dhas_def report_any_def)
qed

text \<open>A policy whose item starts at the edge of the file has no line.\<close>

lemma unindented_not_found: "named_policy ''- name: a'' = None \<and> named_policy '' - name: a'' = Some ''a''"
  by code_simp

end
