(* ===== verification/Service.thy ===== *)
theory Service
  imports Utils_Data Sessions Tags
begin

text \<open>
  What the actions of resources share: requests to a cloud service, which answers or refuses
  and is in another state afterwards, their sequence, and a service that only writes down
  what it is asked.
\<close>

section \<open>Requests in sequence\<close>

type_synonym request = "string \<times> pydict"

type_synonym ('w, 'a) eff = "'w \<Rightarrow> 'a res \<times> 'w"

type_synonym 'w service = "request \<Rightarrow> 'w \<Rightarrow> pyval attempt \<times> 'w"

definition lift :: "'a res \<Rightarrow> ('w, 'a) eff" where
  "lift r = (\<lambda>w. (r, w))"

definition andthen :: "('w, 'a) eff \<Rightarrow> ('a \<Rightarrow> ('w, 'b) eff) \<Rightarrow> ('w, 'b) eff" where
  "andthen m f = (\<lambda>w. case m w of (Inl e, w') \<Rightarrow> (Inl e, w') | (Inr a, w') \<Rightarrow> f a w')"

text \<open>\<open>try: m except e: h\<close>.\<close>

definition rescue :: "pyerr \<Rightarrow> ('w, 'a) eff \<Rightarrow> ('w, 'a) eff \<Rightarrow> ('w, 'a) eff" where
  "rescue e m h = (\<lambda>w. case m w of (Inl e', w') \<Rightarrow> if e' = e then h w' else (Inl e', w') | (Inr a, w') \<Rightarrow> (Inr a, w'))"

text \<open>\<open>for r in rs: f(r)\<close>, which ends at the first exception.\<close>

fun each :: "('r \<Rightarrow> ('w, unit) eff) \<Rightarrow> 'r list \<Rightarrow> ('w, unit) eff" where
  "each f [] = lift (Inr ())"
| "each f (r # rs) = andthen (f r) (\<lambda>_. each f rs)"

text \<open>The same in an executor whose futures have their exceptions logged: none ends it.\<close>

fun each_logged :: "('r \<Rightarrow> ('w, 'a) eff) \<Rightarrow> 'r list \<Rightarrow> ('w, unit) eff" where
  "each_logged f [] = lift (Inr ())"
| "each_logged f (r # rs) = (\<lambda>w. each_logged f rs (snd (f r w)))"

text \<open>\<open>[f(r) for r in rs]\<close>.\<close>

fun each_value :: "('r \<Rightarrow> ('w, 'a) eff) \<Rightarrow> 'r list \<Rightarrow> ('w, 'a list) eff" where
  "each_value f [] = lift (Inr [])"
| "each_value f (r # rs) = andthen (f r) (\<lambda>a. andthen (each_value f rs) (\<lambda>as. lift (Inr (a # as))))"

definition unless :: "bool \<Rightarrow> ('w, unit) eff \<Rightarrow> ('w, unit) eff" where
  "unless b m = (if b then lift (Inr ()) else m)"

text \<open>One request, whose answer is read or not; some error codes may be ignored.\<close>

definition fetch_answer :: "'w service \<Rightarrow> string \<Rightarrow> pydict \<Rightarrow> ('w, pyval) eff" where
  "fetch_answer call name params = (\<lambda>w. case call (name, params) w of
      (Returned v, w') \<Rightarrow> (Inr v, w')
    | (ClientErr c, w') \<Rightarrow> (Inl ClientError, w')
    | (OtherErr e, w') \<Rightarrow> (Inl e, w'))"

definition ask_ignoring :: "string list \<Rightarrow> 'w service \<Rightarrow> string \<Rightarrow> pydict \<Rightarrow> ('w, unit) eff" where
  "ask_ignoring codes call name params = (\<lambda>w. case call (name, params) w of
      (Returned v, w') \<Rightarrow> (Inr (), w')
    | (ClientErr c, w') \<Rightarrow> (if c \<in> set codes then Inr () else Inl ClientError, w')
    | (OtherErr e, w') \<Rightarrow> (Inl e, w'))"

definition ask :: "'w service \<Rightarrow> string \<Rightarrow> pydict \<Rightarrow> ('w, unit) eff" where
  "ask call name params = ask_ignoring [] call name params"

definition answer_field :: "'w service \<Rightarrow> string \<Rightarrow> pydict \<Rightarrow> string \<Rightarrow> ('w, pyval) eff" where
  "answer_field call name params k = andthen (fetch_answer call name params) (\<lambda>v. lift (tag_field v k))"

section \<open>Values of expected types\<close>

definition is_text :: "pyval \<Rightarrow> string \<Rightarrow> bool" where
  "is_text v s = py_eq v (PStr s)"

definition text_of :: "pyval \<Rightarrow> string res" where
  "text_of v = (case v of PStr s \<Rightarrow> Inr s | _ \<Rightarrow> Inl TypeError)"

definition dict_of :: "pyval \<Rightarrow> pydict res" where
  "dict_of v = (case v of PDict d \<Rightarrow> Inr d | _ \<Rightarrow> Inl AttributeError)"

section \<open>Answers by resource\<close>

text \<open>\<open>m.setdefault(x[k], []).append(x)\<close> for some answers, and \<open>m.get(v, [])\<close>.\<close>

definition group_answers :: "(pyval \<Rightarrow> pyval res) \<Rightarrow> pyval list \<Rightarrow> (pyval \<times> pyval list) list res" where
  "group_answers key xs = rfold (\<lambda>m x. rbind (key x) (\<lambda>v. if hashable v then Inr (vput v x m) else Inl TypeError)) [] xs"

definition answers_for :: "(pyval \<times> pyval list) list \<Rightarrow> pyval \<Rightarrow> pyval list res" where
  "answers_for m v = (if hashable v then Inr (case find (\<lambda>(w, xs). py_eq v w) m of None \<Rightarrow> [] | Some (w, xs) \<Rightarrow> xs) else Inl TypeError)"

section \<open>A service that writes down its requests\<close>

definition recorder :: "request list service" where
  "recorder q w = (Returned PNone, w @ [q])"

section \<open>Facts\<close>

named_theorems eff_simps "effects on a given state"

lemma lift_apply [simp, eff_simps]: "lift r w = (r, w)"
  by (simp add: lift_def)

lemma andthen_lift [simp, eff_simps]: "andthen (lift (Inr a)) f = f a"
  by (simp add: andthen_def lift_def)

lemma andthen_lift_error [simp, eff_simps]: "andthen (lift (Inl e)) f = lift (Inl e)"
  by (simp add: andthen_def lift_def)

lemma andthen_apply: "m w = (Inr a, w') \<Longrightarrow> andthen m f w = f a w'"
  by (simp add: andthen_def)

lemma andthen_error: "m w = (Inl e, w') \<Longrightarrow> andthen m f w = (Inl e, w')"
  by (simp add: andthen_def)

lemma andthen_assoc: "andthen (andthen m f) g = andthen m (\<lambda>a. andthen (f a) g)"
  by (auto simp: andthen_def fun_eq_iff split: prod.splits sum.splits)

lemma unless_simps [simp, eff_simps]: "unless True m = lift (Inr ())" "unless False m = m"
  by (simp_all add: unless_def)

lemma ask_ignoring_recorder [simp, eff_simps]: "ask_ignoring cs recorder name params w = (Inr (), w @ [(name, params)])"
  by (simp add: ask_ignoring_def recorder_def)

lemma ask_recorder [simp, eff_simps]: "ask recorder name params w = (Inr (), w @ [(name, params)])"
  by (simp add: ask_def)

lemma fetch_recorder [simp, eff_simps]: "fetch_answer recorder name params w = (Inr PNone, w @ [(name, params)])"
  by (simp add: fetch_answer_def recorder_def)

text \<open>A loop whose every round writes down some requests writes them all down, in order.\<close>

lemma each_records:
  "(\<And>r w. r \<in> set rs \<Longrightarrow> f r w = (Inr (), w @ g r)) \<Longrightarrow> each f rs w = (Inr (), w @ concat (map g rs))"
proof (induction rs arbitrary: w)
  case (Cons r rs)
  then show ?case by (simp add: andthen_apply[where w' = "w @ g r" and a = "()"])
qed simp

lemma each_logged_records:
  "(\<And>r w. r \<in> set rs \<Longrightarrow> snd (f r w) = w @ g r) \<Longrightarrow> each_logged f rs w = (Inr (), w @ concat (map g rs))"
  by (induction rs arbitrary: w) simp_all

lemma concat_if: "concat (map (\<lambda>r. if P r then [g r] else []) rs) = map g (filter P rs)"
  by (induction rs) auto

end
