(* ===== verification/Rds.thy ===== *)
theory Rds
  imports Service Metrics
begin

text \<open>
  Database instances (\<open>c7n/resources/rds.py\<close>): which of them a backup, a final snapshot, a
  stop or a start is for; the engine versions they can be upgraded to; and the actions that
  upgrade, stop, delete and modify them and set how long backups are kept.
\<close>

section \<open>What an instance is eligible for\<close>

text \<open>\<open>re.match(major.minor.*)\<close>: what it finds of both numbers.\<close>

definition major_minor :: "string \<Rightarrow> (nat \<times> nat) option" where
  "major_minor s =
     (let a = takeWhile is_digit s; s1 = dropWhile is_digit s
      in if a = [] then None
         else case s1 of
             c # s2 \<Rightarrow> (let b = takeWhile is_digit s2; s3 = dropWhile is_digit s2
                in if c = CHR ''.'' \<and> b \<noteq> [] \<and> take 1 s3 = ''.'' then Some (nat_of_digits a, nat_of_digits b) else None)
           | [] \<Rightarrow> None)"

text \<open>
  The condition on the version reads \<open>a and b or c\<close>: a version without two dots goes on to
  read the groups of no match.
\<close>

definition old_mysql :: "pydict \<Rightarrow> bool res" where
  "old_mysql r = (case dget_or r ''EngineVersion'' (PStr []) of
      PStr s \<Rightarrow> (case major_minor s of
          None \<Rightarrow> Inl AttributeError
        | Some (a, b) \<Rightarrow> Inr (a < 5 \<or> (a = 5 \<and> b < 6)))
    | _ \<Rightarrow> Inl TypeError)"

definition eligible_for_backup :: "pydict \<Rightarrow> bool res" where
  "eligible_for_backup r =
     rbind (dindex r ''DBInstanceIdentifier'') (\<lambda>_.
     let replica = py_truth (dget_or r ''ReadReplicaSourceDBInstanceIdentifier'' (PStr []));
         engine = dget_or r ''Engine'' (PStr [])
     in if \<not> is_text (dget_or r ''DBInstanceStatus'' (PStr [])) ''available'' then Inr False
        else if py_truth (dget_or r ''DBClusterIdentifier'' (PStr [])) then Inr False
        else if replica \<and> is_text engine ''postgres'' then Inr False
        else if replica \<and> is_text engine ''mysql'' then rbind (old_mysql r) (\<lambda>old. Inr (\<not> old))
        else Inr True)"

definition unfinished :: "string list" where
  "unfinished = [''creating'', ''failed'', ''incompatible-restore'', ''incompatible-network'']"

definition eligible_for_final_snapshot :: "pydict \<Rightarrow> bool" where
  "eligible_for_final_snapshot r \<longleftrightarrow>
     \<not> mem_eq (dget_or r ''DBInstanceStatus'' (PStr [])) (map PStr unfinished) \<and>
     \<not> py_truth (dget_or r ''ReadReplicaSourceDBInstanceIdentifier'' (PStr [])) \<and>
     \<not> py_truth (dget_or r ''DBClusterIdentifier'' (PBool False))"

definition START_STOP_ELIGIBLE_ENGINES :: "string list" where
  "START_STOP_ELIGIBLE_ENGINES =
     [''postgres'', ''sqlserver-ee'', ''oracle-se2'', ''mariadb'', ''oracle-ee'', ''sqlserver-ex'', ''sqlserver-se'',
      ''oracle-se'', ''mysql'', ''oracle-se1'', ''sqlserver-web'', ''db2-ae'', ''db2-se'', ''oracle-ee-cdb'', ''oracle-se2-cdb'']"

definition eligible_start_stop :: "string \<Rightarrow> pydict \<Rightarrow> bool res" where
  "eligible_start_stop state r =
     (if \<not> is_text (dget_or r ''DBInstanceStatus'' PNone) state then Inr False
      else rbind (if py_truth (dget_or r ''MultiAZ'' PNone)
                  then rbind (dindex r ''Engine'') (\<lambda>e. case e of PStr s \<Rightarrow> Inr (starts_with s ''sqlserver-'') | _ \<Rightarrow> Inl AttributeError)
                  else Inr False) (\<lambda>mirrored.
        if mirrored then Inr False
        else rbind (dindex r ''Engine'') (\<lambda>e.
          if \<not> hashable e then Inl TypeError
          else if \<not> mem_eq e (map PStr START_STOP_ELIGIBLE_ENGINES) then Inr False
          else if py_truth (dget_or r ''ReadReplicaDBInstanceIdentifiers'' PNone) then Inr False
          else if py_truth (dget_or r ''ReadReplicaSourceDBInstanceIdentifier'' PNone) then Inr False
          else if py_truth (dget_or r ''DBClusterIdentifier'' PNone) then rbind (dindex r ''DBInstanceIdentifier'') (\<lambda>_. Inr False)
          else Inr True)))"

text \<open>
  \<open>Stop\<close> and \<open>Start\<close>: \<open>filter\<close> tests an instance when its turn comes; a refusal by the service
  is logged with the instance's id.
\<close>

definition start_stop_one :: "'w service \<Rightarrow> string \<Rightarrow> string \<Rightarrow> pydict \<Rightarrow> ('w, unit) eff" where
  "start_stop_one call name state r =
     andthen (lift (eligible_start_stop state r)) (\<lambda>b.
     unless (\<not> b) (rescue ClientError
       (andthen (lift (dindex r ''DBInstanceIdentifier'')) (\<lambda>i. ask call name [(''DBInstanceIdentifier'', i)]))
       (lift (rbind (dindex r ''DBInstanceIdentifier'') (\<lambda>_. Inr ())))))"

definition rds_stop :: "'w service \<Rightarrow> pydict list \<Rightarrow> ('w, unit) eff" where
  "rds_stop call rs = each (start_stop_one call ''stop_db_instance'' ''available'') rs"

definition rds_start :: "'w service \<Rightarrow> pydict list \<Rightarrow> ('w, unit) eff" where
  "rds_start call rs = each (start_stop_one call ''start_db_instance'' ''stopped'') rs"

section \<open>Engine upgrades\<close>

text \<open>What \<open>describe_db_engine_versions\<close> answers: versions of engines with what they upgrade to.\<close>

record upgrade_target =
  ut_version :: string
  ut_major :: bool

record engine_entry =
  ee_engine :: string
  ee_version :: string
  ee_targets :: "upgrade_target list option"

type_synonym upgrades = "(string, (string, string) odict) odict"

definition version_gt :: "string \<Rightarrow> string \<Rightarrow> bool res" where
  "version_gt a b = cmp_with (\<lambda>r. r = OGt) (PVer (ver_of_str a)) (PVer (ver_of_str b))"

definition known_upgrade :: "(string, string) odict \<Rightarrow> string \<Rightarrow> string" where
  "known_upgrade m v = (case dget m v of None \<Rightarrow> ''0.0.0'' | Some t \<Rightarrow> t)"

definition better_target :: "bool \<Rightarrow> string \<Rightarrow> (string, string) odict \<Rightarrow> upgrade_target \<Rightarrow> (string, string) odict res" where
  "better_target major v m t =
     (if \<not> major \<and> ut_major t then Inr m
      else rbind (version_gt (ut_version t) (known_upgrade m v)) (\<lambda>b.
        Inr (if b then dput v (ut_version t) m else m)))"

definition engine_map :: "upgrades \<Rightarrow> string \<Rightarrow> (string, string) odict" where
  "engine_map res e = (case dget res e of None \<Rightarrow> [] | Some m \<Rightarrow> m)"

definition upgrade_entry :: "bool \<Rightarrow> upgrades \<Rightarrow> engine_entry \<Rightarrow> upgrades res" where
  "upgrade_entry major res v =
     (let m = engine_map res (ee_engine v);
          res1 = (if dhas res (ee_engine v) then res else dput (ee_engine v) [] res)
      in case ee_targets v of
          None \<Rightarrow> Inr res1
        | Some ts \<Rightarrow> if ts = [] then Inr res1
            else rbind (rfold (better_target major (ee_version v)) m ts) (\<lambda>m'. Inr (dput (ee_engine v) m' res1)))"

definition get_available_engine_upgrades :: "bool \<Rightarrow> engine_entry list list \<Rightarrow> upgrades res" where
  "get_available_engine_upgrades major pages = rfold (upgrade_entry major) [] (concat pages)"

text \<open>\<open>engine_upgrades.get(r['Engine'], {}).get(r['EngineVersion'])\<close>.\<close>

definition upgrade_for :: "upgrades \<Rightarrow> pydict \<Rightarrow> string option res" where
  "upgrade_for res r =
     rbind (dindex r ''Engine'') (\<lambda>e.
     if \<not> hashable e then Inl TypeError
     else rbind (dindex r ''EngineVersion'') (\<lambda>v.
       case (e, v) of
         (PStr es, PStr vs) \<Rightarrow> Inr (dget (engine_map res es) vs)
       | _ \<Rightarrow> if hashable v then Inr None else Inl TypeError))"

definition upgrade_key :: string where
  "upgrade_key = ''c7n-rds-engine-upgrade''"

text \<open>\<open>UpgradeAvailable\<close>: the instances it keeps, with what it notes on them.\<close>

definition upgrade_available :: "pydict \<Rightarrow> upgrades \<Rightarrow> pydict list \<Rightarrow> pydict list res" where
  "upgrade_available data res rs =
     rbind (rmap (\<lambda>r. rbind (upgrade_for res r) (\<lambda>t. case t of
         None \<Rightarrow> Inr (if dget_or data ''value'' (PBool True) = PBool False then [r] else [])
       | Some s \<Rightarrow> Inr [dput upgrade_key (PStr s) r])) rs) (\<lambda>rss. Inr (concat rss))"

text \<open>
  \<open>UpgradeMinor\<close>: an instance that waits for an upgrade is left alone, one that the filter has
  noted an upgrade on gets it, for the others the upgrades are looked up, once, and noted.
\<close>

definition upgrade_target_of :: "upgrades res \<Rightarrow> pydict \<Rightarrow> pyval option res" where
  "upgrade_target_of res r = (case dget r upgrade_key of
      Some t \<Rightarrow> Inr (Some t)
    | None \<Rightarrow> rbind res (\<lambda>m. rbind (upgrade_for m r) (\<lambda>t. case t of
          None \<Rightarrow> rbind (dindex r ''DBInstanceIdentifier'') (\<lambda>_. Inr None)
        | Some s \<Rightarrow> Inr (Some (PStr s)))))"

definition upgrade_one :: "'w service \<Rightarrow> pydict \<Rightarrow> upgrades res \<Rightarrow> pydict \<Rightarrow> ('w, pydict) eff" where
  "upgrade_one call data res r =
     andthen (lift (rbind (dindex r ''PendingModifiedValues'') (py_in (PStr ''EngineVersion'')))) (\<lambda>pending.
     if pending then lift (Inr r)
     else andthen (lift (upgrade_target_of res r)) (\<lambda>target.
       case target of
         None \<Rightarrow> lift (Inr r)
       | Some t \<Rightarrow> andthen (lift (dindex r ''DBInstanceIdentifier'')) (\<lambda>i.
           andthen (ask call ''modify_db_instance''
             [(''DBInstanceIdentifier'', i), (''EngineVersion'', t),
              (''ApplyImmediately'', dget_or data ''immediate'' (PBool False))]) (\<lambda>_.
           lift (Inr (dput upgrade_key t r))))))"

definition rds_upgrade :: "'w service \<Rightarrow> pydict \<Rightarrow> upgrades res \<Rightarrow> pydict list \<Rightarrow> ('w, pydict list) eff" where
  "rds_upgrade call data res rs = each_value (upgrade_one call data res) rs"

definition auto_patch :: "'w service \<Rightarrow> pydict \<Rightarrow> pydict list \<Rightarrow> ('w, unit) eff" where
  "auto_patch call data rs =
     each (\<lambda>r. andthen (lift (dindex r ''DBInstanceIdentifier'')) (\<lambda>i.
       ask call ''modify_db_instance''
         ((''DBInstanceIdentifier'', i) # (''AutoMinorVersionUpgrade'', dget_or data ''minor'' (PBool True)) #
          (let window = dget_or data ''window'' PNone in if py_truth window then [(''PreferredMaintenanceWindow'', window)] else [])))) rs"

section \<open>How long backups are kept\<close>

text \<open>\<open>max(a, b)\<close> and \<open>min(a, b)\<close>: the first unless the second is strictly beyond.\<close>

definition py_max :: "pyval \<Rightarrow> pyval \<Rightarrow> pyval res" where
  "py_max a b = rbind (cmp_with (\<lambda>r. r = OGt) b a) (\<lambda>g. Inr (if g then b else a))"

definition py_min :: "pyval \<Rightarrow> pyval \<Rightarrow> pyval res" where
  "py_min a b = rbind (cmp_with (\<lambda>r. r = OLt) b a) (\<lambda>g. Inr (if g then b else a))"

definition lower_of :: "pyval \<Rightarrow> string res" where
  "lower_of v = (case v of PStr s \<Rightarrow> Inr (lower s) | _ \<Rightarrow> Inl AttributeError)"

text \<open>What \<open>process_snapshot_retention\<close> sets: the period and whether tags are copied.\<close>

definition retention_of :: "pydict \<Rightarrow> pydict \<Rightarrow> (pyval \<times> pyval) option res" where
  "retention_of data r =
     rbind (to_int (dget_or r ''BackupRetentionPeriod'' (PInt 0))) (\<lambda>current.
     rbind (dindex r ''CopyTagsToSnapshot'') (\<lambda>current_copy.
     rbind (dindex data ''days'') (\<lambda>new.
     let copy = dget_or data ''copy-tags'' (PBool True); differs = \<not> py_eq current_copy copy
     in rbind (lower_of (dget_or data ''enforce'' (PStr ''min''))) (\<lambda>kind.
        let test = (\<lambda>k. if kind = k \<or> differs then eligible_for_backup r else Inr False)
        in rbind (test ''min'') (\<lambda>a.
           if a then rbind (py_max (PInt current) new) (\<lambda>n. Inr (Some (n, copy)))
           else rbind (test ''max'') (\<lambda>b.
           if b then rbind (py_min (PInt current) new) (\<lambda>n. Inr (Some (n, copy)))
           else rbind (test ''exact'') (\<lambda>c. Inr (if c then Some (new, copy) else None))))))))"

definition set_retention :: "'w service \<Rightarrow> pydict \<Rightarrow> pydict \<Rightarrow> ('w, unit) eff" where
  "set_retention call data r =
     andthen (lift (retention_of data r)) (\<lambda>x. case x of
       None \<Rightarrow> lift (Inr ())
     | Some (n, copy) \<Rightarrow> andthen (lift (dindex r ''DBInstanceIdentifier'')) (\<lambda>i.
         ask call ''modify_db_instance''
           [(''DBInstanceIdentifier'', i), (''BackupRetentionPeriod'', n), (''CopyTagsToSnapshot'', copy)]))"

definition retention_process :: "'w service \<Rightarrow> pydict \<Rightarrow> pydict list \<Rightarrow> ('w, unit) eff" where
  "retention_process call data rs = each_logged (set_retention call data) rs"

section \<open>Snapshots, access and deletion\<close>

text \<open>\<open>snapshot_identifier\<close>, with the minute \<open>now\<close> as it is printed.\<close>

definition snapshot_identifier :: "ext \<Rightarrow> string \<Rightarrow> pyval \<Rightarrow> pyval \<Rightarrow> pyval" where
  "snapshot_identifier E now prefix i = PStr (py_str E prefix @ ''-'' @ py_str E i @ ''-'' @ now)"

definition rds_snapshot :: "'w service \<Rightarrow> ext \<Rightarrow> string \<Rightarrow> pydict \<Rightarrow> pydict \<Rightarrow> ('w, unit) eff" where
  "rds_snapshot call E now data r =
     andthen (lift (eligible_for_backup r)) (\<lambda>b.
     unless (\<not> b) (andthen (lift (dindex r ''DBInstanceIdentifier'')) (\<lambda>i.
       ask call ''create_db_snapshot''
         [(''DBSnapshotIdentifier'', snapshot_identifier E now (dget_or data ''snapshot-prefix'' (PStr ''Backup'')) i),
          (''DBInstanceIdentifier'', i)])))"

definition rds_snapshot_process :: "'w service \<Rightarrow> ext \<Rightarrow> string \<Rightarrow> pydict \<Rightarrow> pydict list \<Rightarrow> ('w, unit) eff" where
  "rds_snapshot_process call E now data rs = each_logged (rds_snapshot call E now data) rs"

definition set_accessibility :: "'w service \<Rightarrow> pydict \<Rightarrow> pydict \<Rightarrow> ('w, unit) eff" where
  "set_accessibility call data r =
     andthen (lift (dindex r ''DBInstanceIdentifier'')) (\<lambda>i.
       ask call ''modify_db_instance''
         [(''DBInstanceIdentifier'', i), (''PubliclyAccessible'', dget_or data ''state'' (PBool False))])"

definition public_access_process :: "'w service \<Rightarrow> pydict \<Rightarrow> pydict list \<Rightarrow> ('w, unit) eff" where
  "public_access_process call data rs = each_logged (set_accessibility call data) rs"

section \<open>Facts\<close>

subsection \<open>The latest upgrade\<close>

text \<open>Versions made of numbers compare as lists of numbers.\<close>

definition comp_number :: "vcomp \<Rightarrow> nat" where
  "comp_number c = (case c of VInt n \<Rightarrow> n | VStr s \<Rightarrow> 0)"

definition version_numbers :: "string \<Rightarrow> nat list" where
  "version_numbers s = map comp_number (version_parse s)"

definition plain_version :: "string \<Rightarrow> bool" where
  "plain_version s \<longleftrightarrow> s \<noteq> [] \<and> numeric (version_parse s)"

lemma version_ord_numbers:
  "numeric v \<Longrightarrow> numeric w \<Longrightarrow> version_ord v w = Some (ord_of (map comp_number v) (map comp_number w))"
proof (induction v w rule: version_ord.induct)
  case (4 x xs y ys)
  obtain a b where "x = VInt a" "y = VInt b" using 4(2,3) by (cases x; cases y) (simp_all add: numeric_def)
  then show ?case using 4 by (auto simp: numeric_def comp_number_def ord_of_def)
qed (auto simp: ord_of_def)

lemma version_gt_plain: "plain_version a \<Longrightarrow> plain_version b \<Longrightarrow> version_gt a b = Inr (version_numbers b < version_numbers a)"
  by (auto simp: version_gt_def cmp_with_def unparsed_def ver_of_str_def ver_ord_def plain_version_def version_ord_numbers
      version_numbers_def ord_of_def)

lemma plain_zero: "plain_version ''0.0.0''" "version_numbers ''0.0.0'' = [0, 0, 0]"
  by code_simp+

definition allowed_versions :: "bool \<Rightarrow> upgrade_target list \<Rightarrow> string list" where
  "allowed_versions major ts = map ut_version (filter (\<lambda>t. major \<or> \<not> ut_major t) ts)"

text \<open>The best of some versions, from the one known so far.\<close>

fun best_of :: "string option \<Rightarrow> string list \<Rightarrow> string option" where
  "best_of b [] = b"
| "best_of b (t # ts) =
     best_of (if version_numbers (case b of None \<Rightarrow> ''0.0.0'' | Some s \<Rightarrow> s) < version_numbers t then Some t else b) ts"

lemma rfold_better:
  "list_all (\<lambda>t. plain_version (ut_version t)) ts \<Longrightarrow> (\<forall>s. dget m v = Some s \<longrightarrow> plain_version s) \<Longrightarrow>
   \<exists>m'. rfold (better_target major v) m ts = Inr m' \<and>
     dget m' = (dget m)(v := best_of (dget m v) (allowed_versions major ts))"
proof (induction ts arbitrary: m)
  case (Cons t ts)
  have known: "plain_version (known_upgrade m v)"
    using Cons(3) by (auto simp: known_upgrade_def plain_zero split: option.splits)
  define m1 where "m1 = (if \<not> major \<and> ut_major t then m
    else if version_numbers (known_upgrade m v) < version_numbers (ut_version t) then dput v (ut_version t) m else m)"
  have step: "better_target major v m t = Inr m1"
    using Cons(2) known by (simp add: better_target_def version_gt_plain m1_def)
  have "\<forall>s. dget m1 v = Some s \<longrightarrow> plain_version s"
    using Cons(2,3) by (auto simp: m1_def)
  then obtain m' where m': "rfold (better_target major v) m1 ts = Inr m'"
    "dget m' = (dget m1)(v := best_of (dget m1 v) (allowed_versions major ts))"
    using Cons.IH[of m1] Cons.prems(1) by (auto simp: fun_upd_def)
  have "(dget m1)(v := best_of (dget m1 v) (allowed_versions major ts)) =
      (dget m)(v := best_of (dget m v) (allowed_versions major (t # ts)))"
    by (auto simp: m1_def allowed_versions_def known_upgrade_def split: option.splits)
  with step m' show ?case by (auto simp: fun_upd_def)
qed (auto simp: allowed_versions_def)

lemma best_of_spec:
  "case best_of b ts of
     None \<Rightarrow> b = None \<and> list_all (\<lambda>u. version_numbers u \<le> [0, 0, 0]) ts
   | Some t \<Rightarrow> (b = Some t \<or> t \<in> set ts \<and> version_numbers (case b of None \<Rightarrow> ''0.0.0'' | Some s \<Rightarrow> s) < version_numbers t) \<and>
       list_all (\<lambda>u. version_numbers u \<le> version_numbers t) ts"
proof (induction ts arbitrary: b)
  case (Cons u ts)
  let ?b = "if version_numbers (case b of None \<Rightarrow> ''0.0.0'' | Some s \<Rightarrow> s) < version_numbers u then Some u else b"
  show ?case using Cons[of ?b] by (auto simp: plain_zero split: option.splits if_splits)
qed (auto split: option.splits)

lemma best_of_append [simp]: "best_of b (xs @ ys) = best_of (best_of b xs) ys"
  by (induction xs arbitrary: b) auto

definition targets_of :: "engine_entry \<Rightarrow> upgrade_target list" where
  "targets_of x = (case ee_targets x of None \<Rightarrow> [] | Some ts \<Rightarrow> ts)"

text \<open>The versions one of an engine may be upgraded to, from all pages.\<close>

definition offered :: "bool \<Rightarrow> engine_entry list list \<Rightarrow> string \<Rightarrow> string \<Rightarrow> string list" where
  "offered major pages e v = concat (map (\<lambda>x. if ee_engine x = e \<and> ee_version x = v then allowed_versions major (targets_of x) else [])
     (concat pages))"

definition plain_entry :: "engine_entry \<Rightarrow> bool" where
  "plain_entry x = list_all (\<lambda>t. plain_version (ut_version t)) (targets_of x)"

definition plain_upgrades :: "upgrades \<Rightarrow> bool" where
  "plain_upgrades res \<longleftrightarrow> (\<forall>e v s. dget (engine_map res e) v = Some s \<longrightarrow> plain_version s)"

lemma upgrade_entry_best:
  assumes "plain_entry x" "plain_upgrades res"
  shows "\<exists>res'. upgrade_entry major res x = Inr res' \<and> plain_upgrades res' \<and>
    (\<forall>e v. dget (engine_map res' e) v = best_of (dget (engine_map res e) v)
       (if ee_engine x = e \<and> ee_version x = v then allowed_versions major (targets_of x) else []))"
proof -
  let ?res1 = "if dhas res (ee_engine x) then res else dput (ee_engine x) [] res"
  have res1: "engine_map ?res1 e = engine_map res e" for e
    by (auto simp: engine_map_def dhas_dget)
  show ?thesis
  proof (cases "targets_of x = []")
    case True
    then have "upgrade_entry major res x = Inr ?res1"
      by (auto simp: upgrade_entry_def targets_of_def Let_def split: option.splits)
    with True assms res1 show ?thesis by (simp add: plain_upgrades_def allowed_versions_def)
  next
    case False
    let ?m = "engine_map res (ee_engine x)"
    obtain m' where m': "rfold (better_target major (ee_version x)) ?m (targets_of x) = Inr m'"
      "dget m' = (dget ?m)(ee_version x := best_of (dget ?m (ee_version x)) (allowed_versions major (targets_of x)))"
      using rfold_better[of "targets_of x" ?m "ee_version x" major] assms by (auto simp: plain_entry_def plain_upgrades_def)
    have step: "upgrade_entry major res x = Inr (dput (ee_engine x) m' ?res1)"
      using False m'(1) by (auto simp: upgrade_entry_def targets_of_def Let_def split: option.splits)
    have at: "dget (engine_map (dput (ee_engine x) m' ?res1) e) v = best_of (dget (engine_map res e) v)
        (if ee_engine x = e \<and> ee_version x = v then allowed_versions major (targets_of x) else [])" for e v
      using m'(2) by (auto simp: engine_map_def dhas_dget)
    have "plain_version s" if "dget (engine_map (dput (ee_engine x) m' ?res1) e) v = Some s" for e v s
      using that assms best_of_spec[of "dget (engine_map res e) v" "allowed_versions major (targets_of x)"]
      unfolding at by (auto simp: plain_upgrades_def plain_entry_def allowed_versions_def list_all_iff split: if_splits option.splits)
    with step at show ?thesis by (auto simp: plain_upgrades_def)
  qed
qed

lemma upgrade_entries_best:
  "list_all plain_entry xs \<Longrightarrow> plain_upgrades res \<Longrightarrow>
   \<exists>res'. rfold (upgrade_entry major) res xs = Inr res' \<and>
     (\<forall>e v. dget (engine_map res' e) v = best_of (dget (engine_map res e) v) (offered major [xs] e v))"
proof (induction xs arbitrary: res)
  case (Cons x xs)
  obtain r1 where r1: "upgrade_entry major res x = Inr r1" "plain_upgrades r1"
    "\<And>e v. dget (engine_map r1 e) v = best_of (dget (engine_map res e) v)
       (if ee_engine x = e \<and> ee_version x = v then allowed_versions major (targets_of x) else [])"
    using upgrade_entry_best[of x res major] Cons.prems by auto
  obtain r2 where r2: "rfold (upgrade_entry major) r1 xs = Inr r2"
    "\<And>e v. dget (engine_map r2 e) v = best_of (dget (engine_map r1 e) v) (offered major [xs] e v)"
    using Cons.IH[OF _ r1(2)] Cons.prems by auto
  have "dget (engine_map r2 e) v = best_of (dget (engine_map res e) v) (offered major [x # xs] e v)" for e v
    unfolding r2(2) r1(3) by (simp add: offered_def)
  with r1(1) r2(1) show ?case by simp
qed (auto simp: offered_def)

text \<open>C31: When the versions are numbers and dots, the upgrades found for the versions of all engines are the latest
  ones: the upgrade of a version is one the service offers for it (a minor one unless major ones are asked for), and
  none it offers is later; a version has none when nothing later than 0.0.0 is offered.\<close>

theorem upgrades_latest:
  assumes "list_all plain_entry (concat pages)"
  shows "\<exists>res. get_available_engine_upgrades major pages = Inr res \<and>
    (\<forall>e v. case dget (engine_map res e) v of
       None \<Rightarrow> list_all (\<lambda>u. version_gt u ''0.0.0'' = Inr False) (offered major pages e v)
     | Some t \<Rightarrow> t \<in> set (offered major pages e v) \<and>
         list_all (\<lambda>u. version_gt u t = Inr False) (offered major pages e v))"
proof -
  obtain res where res: "get_available_engine_upgrades major pages = Inr res"
    "\<And>e v. dget (engine_map res e) v = best_of None (offered major [concat pages] e v)"
    using upgrade_entries_best[OF assms, of "[]" major]
    by (auto simp: get_available_engine_upgrades_def engine_map_def plain_upgrades_def)
  have plain: "list_all plain_version (offered major pages e v)" for e v
    using assms by (auto simp: offered_def plain_entry_def allowed_versions_def list_all_iff split: if_splits)
  have "case dget (engine_map res e) v of
       None \<Rightarrow> list_all (\<lambda>u. version_gt u ''0.0.0'' = Inr False) (offered major pages e v)
     | Some t \<Rightarrow> t \<in> set (offered major pages e v) \<and>
         list_all (\<lambda>u. version_gt u t = Inr False) (offered major pages e v)" for e v
  proof -
    have same: "offered major [concat pages] e v = offered major pages e v" by (simp add: offered_def)
    show ?thesis
      using best_of_spec[of None "offered major pages e v"] plain[of e v] unfolding res(2) same
      by (auto simp: list_all_iff version_gt_plain plain_zero not_less split: option.splits)
  qed
  with res(1) show ?thesis by blast
qed

definition ex_versions :: "engine_entry list list" where
  "ex_versions =
     [[\<lparr>ee_engine = ''postgres'', ee_version = ''9.3.2'',
        ee_targets = Some [\<lparr>ut_version = ''9.3.9'', ut_major = False\<rparr>, \<lparr>ut_version = ''9.3.14'', ut_major = False\<rparr>]\<rparr>],
      [\<lparr>ee_engine = ''postgres'', ee_version = ''9.3.2'',
        ee_targets = Some [\<lparr>ut_version = ''9.3.10'', ut_major = False\<rparr>, \<lparr>ut_version = ''9.4.1'', ut_major = True\<rparr>]\<rparr>]]"

lemma ex_versions_plain: "list_all plain_entry (concat ex_versions)"
  by code_simp

theorem upgrades_latest_witness:
  "list_all plain_entry (concat ex_versions) \<and>
   get_available_engine_upgrades False ex_versions = Inr [(''postgres'', [(''9.3.2'', ''9.3.14'')])] \<and>
   (\<exists>res. get_available_engine_upgrades False ex_versions = Inr res)"
proof -
  have "get_available_engine_upgrades False ex_versions = Inr [(''postgres'', [(''9.3.2'', ''9.3.14'')])]"
    by code_simp
  with upgrades_latest[OF ex_versions_plain, of False] ex_versions_plain show ?thesis by blast
qed

subsection \<open>Stopping, starting and backups\<close>

lemma start_stop_records:
  assumes "\<And>r. r \<in> set rs \<Longrightarrow> eligible_start_stop state r = Inr (P r)"
    and "\<And>r. r \<in> set rs \<Longrightarrow> dget r ''DBInstanceIdentifier'' = Some (ident r)"
  shows "each (start_stop_one recorder name state) rs w =
    (Inr (), w @ map (\<lambda>r. (name, [(''DBInstanceIdentifier'', ident r)])) (filter P rs))"
proof -
  have "start_stop_one recorder name state r w =
      (Inr (), w @ (if P r then [(name, [(''DBInstanceIdentifier'', ident r)])] else []))" if "r \<in> set rs" for r w
    using assms that by (simp add: start_stop_one_def rescue_def dindex_def)
  then have "each (start_stop_one recorder name state) rs w =
      (Inr (), w @ concat (map (\<lambda>r. if P r then [(name, [(''DBInstanceIdentifier'', ident r)])] else []) rs))"
    by (rule each_records)
  then show ?thesis by (simp add: concat_if)
qed

text \<open>An instance the model stops or starts is in the right state, of a known engine and by itself.\<close>

lemma eligible_start_stop_alone:
  "eligible_start_stop state r = Inr True \<Longrightarrow>
     is_text (dget_or r ''DBInstanceStatus'' PNone) state \<and>
     \<not> py_truth (dget_or r ''ReadReplicaDBInstanceIdentifiers'' PNone) \<and>
     \<not> py_truth (dget_or r ''ReadReplicaSourceDBInstanceIdentifier'' PNone) \<and>
     \<not> py_truth (dget_or r ''DBClusterIdentifier'' PNone)"
  by (auto simp: eligible_start_stop_def rbind_eq_Inr split: if_splits)

text \<open>A replica of a version without two dots is not merely old or not: testing it fails.\<close>

lemma backup_of_odd_version:
  assumes "dget r ''DBInstanceIdentifier'' = Some i" "dget r ''DBInstanceStatus'' = Some (PStr ''available'')"
    "dget r ''DBClusterIdentifier'' = None" "dget r ''ReadReplicaSourceDBInstanceIdentifier'' = Some (PStr (c # s))"
    "dget r ''Engine'' = Some (PStr ''mysql'')" "dget r ''EngineVersion'' = Some (PStr v)" "major_minor v = None"
  shows "eligible_for_backup r = Inl AttributeError"
  using assms by (simp add: eligible_for_backup_def dindex_def dget_or_def is_text_def old_mysql_def)

lemma py_max_ints [simp]: "py_max (PInt a) (PInt b) = Inr (PInt (max a b))"
  by (auto simp: py_max_def cmp_with_def unparsed_def num_ord_def num_of_def ord_of_def)

lemma py_min_ints [simp]: "py_min (PInt a) (PInt b) = Inr (PInt (min a b))"
  by (auto simp: py_min_def cmp_with_def unparsed_def num_ord_def num_of_def ord_of_def)

text \<open>An eligible instance gets the longer of its retention and the days asked for with \<open>enforce: min\<close>, and also with
  any other \<open>enforce\<close> when copying tags has to change too; otherwise \<open>max\<close> gives the shorter one and \<open>exact\<close> the
  days; an instance that is not eligible gets nothing.\<close>

theorem retention_decides:
  assumes "to_int (dget_or r ''BackupRetentionPeriod'' (PInt 0)) = Inr current"
    "dget r ''CopyTagsToSnapshot'' = Some k" "dget data ''days'' = Some (PInt n)"
    "lower_of (dget_or data ''enforce'' (PStr ''min'')) = Inr kind" "kind \<in> {''min'', ''max'', ''exact''}"
    "eligible_for_backup r = Inr b" "copy = dget_or data ''copy-tags'' (PBool True)"
  shows "retention_of data r = Inr (if \<not> b then None
    else Some (PInt (if kind = ''min'' \<or> \<not> py_eq k copy then max current n
                     else if kind = ''max'' then min current n else n), copy))"
  using assms by (cases b) (auto simp: retention_of_def dindex_def Let_def)

definition ex_rds_data :: pydict where
  "ex_rds_data = [(''days'', PInt 7), (''enforce'', PStr ''max''), (''copy-tags'', PBool True)]"

definition ex_db :: "int \<Rightarrow> bool \<Rightarrow> pydict" where
  "ex_db n copied = [(''DBInstanceIdentifier'', PStr ''db-1''), (''DBInstanceStatus'', PStr ''available''),
     (''BackupRetentionPeriod'', PInt n), (''CopyTagsToSnapshot'', PBool copied)]"

theorem retention_decides_witness:
  "retention_of ex_rds_data (ex_db 30 True) = Inr (Some (PInt 7, PBool True)) \<and>
   retention_of ex_rds_data (ex_db 30 False) = Inr (Some (PInt 30, PBool True))"
proof -
  have facts: "to_int (dget_or (ex_db 30 c) ''BackupRetentionPeriod'' (PInt 0)) = Inr 30"
    "dget (ex_db 30 c) ''CopyTagsToSnapshot'' = Some (PBool c)" "dget ex_rds_data ''days'' = Some (PInt 7)"
    "lower_of (dget_or ex_rds_data ''enforce'' (PStr ''min'')) = Inr ''max''"
    "eligible_for_backup (ex_db 30 c) = Inr True" "PBool True = dget_or ex_rds_data ''copy-tags'' (PBool True)" for c
    by (simp add: ex_db_def dget_or_def to_int_def, simp add: ex_db_def, simp add: ex_rds_data_def,
        simp add: ex_rds_data_def dget_or_def lower_of_def lower_def char_lower_def is_upper_def,
        simp add: ex_db_def eligible_for_backup_def dindex_def dget_or_def is_text_def,
        simp add: ex_rds_data_def dget_or_def)
  have kind: "''max'' \<in> {''min'', ''max'', ''exact''}" by simp
  show ?thesis
    using retention_decides[OF facts(1-4) kind facts(5,6), of True]
      retention_decides[OF facts(1-4) kind facts(5,6), of False]
    by (simp add: num_eq_def num_of_def)
qed

end
