(* ===== verification/Rds_Filters.thy ===== *)
theory Rds_Filters
  imports Rds Filter_Calls Tags Caches
begin

text \<open>
  Filters of database instances that ask the service about them (\<open>c7n/resources/rds.py\<close>,
  \<open>c7n/filters/backup.py\<close>): daily snapshots and backups, recommendations, pending maintenance,
  and the parameter and option groups, whose contents are kept in the policy's cache.
\<close>

section \<open>Resources annotated in sets\<close>

text \<open>Some resources get new contents.\<close>

fun put_all :: "store \<Rightarrow> ref list \<Rightarrow> pydict list \<Rightarrow> store" where
  "put_all st (r # rs) (d # ds) = put_all (st(r := d)) rs ds"
| "put_all st _ _ = st"

fun annotate_sets :: "(pydict list \<Rightarrow> pydict list res) \<Rightarrow> store \<Rightarrow> ref list list \<Rightarrow> store res" where
  "annotate_sets f st [] = Inr st"
| "annotate_sets f st (rs # rss) = rbind (f (map st rs)) (\<lambda>ds. annotate_sets f (put_all st rs ds) rss)"

definition annotate_missing :: "string \<Rightarrow> (pydict list \<Rightarrow> pydict list res) \<Rightarrow> store \<Rightarrow> ref list \<Rightarrow> store res" where
  "annotate_missing key f st rs =
     rbind (chunks 50 (filter (\<lambda>r. \<not> dhas (st r) key) rs)) (annotate_sets f st)"

section \<open>Consecutive snapshots and backups\<close>

definition snapshots_key :: string where
  "snapshots_key = ''c7n:DBSnapshots''"

definition snapshots_set :: "(pyval list \<Rightarrow> pyval list res) \<Rightarrow> pydict list \<Rightarrow> pydict list res" where
  "snapshots_set describe ds =
     rbind (rmap (\<lambda>d. dindex d ''DBInstanceIdentifier'') ds) (\<lambda>ids.
     rbind (rbind (describe ids) (group_answers (\<lambda>s. tag_field s ''DBInstanceIdentifier''))) (\<lambda>m.
     rmap (\<lambda>d. rbind (rbind (dindex d ''DBInstanceIdentifier'') (answers_for m)) (\<lambda>ss.
       Inr (dput snapshots_key (PList ss) d))) ds))"

text \<open>\<open>strftime\<close> on a moment: only the units of a period it is printed with count.\<close>

definition unit_of :: "int \<Rightarrow> pyval \<Rightarrow> int res" where
  "unit_of u v = (case v of PDate t \<Rightarrow> Inr (t div u) | _ \<Rightarrow> Inl AttributeError)"

text \<open>The units one to \<open>n\<close> periods ago.\<close>

definition expected_units :: "int \<Rightarrow> int \<Rightarrow> int \<Rightarrow> pyval \<Rightarrow> int list res" where
  "expected_units now period u n = (case int_of n of
      None \<Rightarrow> Inl TypeError
    | Some k \<Rightarrow> rmap (\<lambda>i. rbind (date_in_range (now - i * period)) (\<lambda>t. Inr (t div u))) [1..k])"

definition dated_units :: "int \<Rightarrow> pyval \<Rightarrow> string \<Rightarrow> pyval list \<Rightarrow> int list res" where
  "dated_units u status date_key xs =
     rbind (rmap (\<lambda>x. rbind (tag_field x ''Status'') (\<lambda>s.
       if py_eq s status then rbind (rbind (tag_field x date_key) (unit_of u)) (\<lambda>d. Inr [d]) else Inr [])) xs)
       (\<lambda>dss. Inr (concat dss))"

definition all_units :: "int \<Rightarrow> pyval \<Rightarrow> string \<Rightarrow> string \<Rightarrow> int list \<Rightarrow> pydict \<Rightarrow> bool res" where
  "all_units u status date_key key expected d =
     rbind (rbind (dindex d key) py_iter) (\<lambda>xs.
     rbind (dated_units u status date_key xs) (\<lambda>found. Inr (list_all (\<lambda>e. e \<in> set found) expected)))"

definition consecutive_snapshots ::
  "(pyval list \<Rightarrow> pyval list res) \<Rightarrow> int \<Rightarrow> pydict \<Rightarrow> store \<Rightarrow> ref list \<Rightarrow> (store \<times> ref list) res" where
  "consecutive_snapshots describe now data st rs =
     rbind (expected_units now day_us day_us (dget_or data ''days'' PNone)) (\<lambda>expected.
     rbind (annotate_missing snapshots_key (snapshots_set describe) st rs) (\<lambda>st1.
     rbind (rfilter (\<lambda>r. all_units day_us (PStr ''available'') ''SnapshotCreateTime'' snapshots_key expected (st1 r)) rs) (\<lambda>out.
       Inr (st1, out))))"

text \<open>\<open>ConsecutiveAwsBackupsFilter\<close>, with the arns of the resources and the points listed for each.\<close>

definition backups_key :: string where
  "backups_key = ''c7n:AwsBackups''"

definition backups_set :: "(pydict \<Rightarrow> pyval) \<Rightarrow> (pyval \<Rightarrow> pyval list res) \<Rightarrow> pydict list \<Rightarrow> pydict list res" where
  "backups_set arn points ds = rmap (\<lambda>d. rbind (points (arn d)) (\<lambda>ps. Inr (dput backups_key (PList ps) d))) ds"

definition hour_us :: int where
  "hour_us = 3600 * second_us"

definition backup_period :: "pydict \<Rightarrow> int \<times> int" where
  "backup_period data =
     (let p = dget_or data ''period'' PNone
      in if is_text p ''weeks'' then (7 * day_us, day_us)
         else if is_text p ''hours'' then (hour_us, hour_us)
         else (day_us, day_us))"

definition consecutive_backups ::
  "(pydict \<Rightarrow> pyval) \<Rightarrow> (pyval \<Rightarrow> pyval list res) \<Rightarrow> int \<Rightarrow> pydict \<Rightarrow> store \<Rightarrow> ref list \<Rightarrow> (store \<times> ref list) res" where
  "consecutive_backups arn points now data st rs =
     (case backup_period data of (period, u) \<Rightarrow>
       rbind (expected_units now period u (dget_or data ''count'' PNone)) (\<lambda>expected.
       rbind (annotate_missing backups_key (backups_set arn points) st rs) (\<lambda>st1.
       rbind (rfilter (\<lambda>r. all_units u (dget_or data ''status'' PNone) ''CreationDate'' backups_key expected (st1 r)) rs) (\<lambda>out.
         Inr (st1, out)))))"

section \<open>Recommendations and maintenance\<close>

definition recommendations_key :: string where
  "recommendations_key = ''c7n:db-recommendations''"

definition matched_recommendations_key :: string where
  "matched_recommendations_key = ''c7n:matched-db-recommendations''"

definition field_or :: "string \<Rightarrow> pyval \<Rightarrow> pyval \<Rightarrow> pyval res" where
  "field_or k v x = (case x of PDict d \<Rightarrow> Inr (dget_or d k v) | _ \<Rightarrow> Inl AttributeError)"

definition recommendations_set :: "(pyval list \<Rightarrow> pyval list res) \<Rightarrow> pydict list \<Rightarrow> pydict list res" where
  "recommendations_set describe ds =
     (let ids = filter py_truth (map (\<lambda>d. dget_or d ''DbiResourceId'' PNone) ds)
      in if ids = [] then Inr (map (\<lambda>d. if dhas d recommendations_key then d else dput recommendations_key (PList []) d) ds)
         else rbind (rbind (describe ids) (group_answers (field_or ''ResourceArn'' PNone))) (\<lambda>m.
           rmap (\<lambda>d. rbind (answers_for m (dget_or d ''DBInstanceArn'' PNone)) (\<lambda>es.
             Inr (dput recommendations_key (PList es) d))) ds))"

text \<open>A value filter over the recommendations of an instance; its state goes from one to the next.\<close>

fun matched_parts :: "ext \<Rightarrow> pydict \<Rightarrow> vstate \<Rightarrow> pyval list \<Rightarrow> (vstate \<times> pyval list) res" where
  "matched_parts E data s [] = Inr (s, [])"
| "matched_parts E data s (x # xs) = (case x of
      PDict d \<Rightarrow> rbind (vf_call E data False s d) (\<lambda>(s1, _, b).
         rbind (matched_parts E data s1 xs) (\<lambda>(s2, ys). Inr (s2, if b then x # ys else ys)))
    | _ \<Rightarrow> Inl AttributeError)"

fun recommended :: "ext \<Rightarrow> pydict \<Rightarrow> vstate \<Rightarrow> store \<Rightarrow> ref list \<Rightarrow> (store \<times> ref list) res" where
  "recommended E data s st [] = Inr (st, [])"
| "recommended E data s st (r # rs) =
     rbind (py_iter (dget_or (st r) recommendations_key (PTuple []))) (\<lambda>es.
     rbind (matched_parts E data s es) (\<lambda>(s1, matched).
     rbind (recommended E data s1 (if matched \<noteq> [] then st(r := dput matched_recommendations_key (PList matched) (st r)) else st) rs)
       (\<lambda>(st2, out). Inr (st2, if matched \<noteq> [] then r # out else out))))"

definition recommendations_process ::
  "ext \<Rightarrow> (pyval list \<Rightarrow> pyval list res) \<Rightarrow> pydict \<Rightarrow> store \<Rightarrow> ref list \<Rightarrow> (store \<times> ref list) res" where
  "recommendations_process E describe data st rs =
     rbind (annotate_missing recommendations_key (recommendations_set describe) st rs) (\<lambda>st1.
     recommended E data vstate0 st1 rs)"

definition maintenance_key :: string where
  "maintenance_key = ''c7n:PendingMaintenance''"

definition pending_maintenance :: "pyval list list \<Rightarrow> pydict list \<Rightarrow> pydict list res" where
  "pending_maintenance pages rs =
     rbind (group_answers (\<lambda>a. tag_field a ''ResourceIdentifier'') (concat pages)) (\<lambda>m.
     rbind (rmap (\<lambda>r. rbind (rbind (dindex r ''DBInstanceArn'') (answers_for m)) (\<lambda>actions.
       Inr (if actions = [] then [] else [dput maintenance_key (PList actions) r]))) rs) (\<lambda>rss. Inr (concat rss)))"

section \<open>Parameter and option groups\<close>

text \<open>\<open>recast\<close>: a value as the service gives it, which is text.\<close>

definition recast :: "string \<Rightarrow> string \<Rightarrow> pyval res" where
  "recast v datatype =
     (if datatype = ''boolean'' then
        Inr (if isdigit v then PBool (nat_of_digits v \<noteq> 0) else if v = ''TRUE'' then PBool True
             else if v = ''FALSE'' then PBool False else PStr v)
      else if datatype = ''integer'' then Inr (if isdigit v then PInt (int (nat_of_digits v)) else PStr v)
      else if datatype = ''float'' then
        (if v = [] then Inr (PFloat (Fin 0))
         else case float_of_str v of None \<Rightarrow> Inl ValueError | Some f \<Rightarrow> Inr (PFloat f))
      else Inr (PStr v))"

record db_parameter =
  pa_name :: string
  pa_value :: "string option"
  pa_type :: string

definition recast_all :: "db_parameter list \<Rightarrow> pydict res" where
  "recast_all ps = rfold (\<lambda>d p. case pa_value p of
      None \<Rightarrow> Inr d
    | Some v \<Rightarrow> rbind (recast v (pa_type p)) (\<lambda>x. Inr (dput (pa_name p) x d))) [] ps"

text \<open>The key of both kinds of groups in the cache is the same: region and account, which do not change, and \<open>rds-pg\<close>.\<close>

definition group_cache_key :: "string \<Rightarrow> string \<times> string" where
  "group_cache_key name = (''rds-pg'', name)"

fun groups_cached ::
  "('c \<Rightarrow> string \<times> string \<Rightarrow> pydict option) \<Rightarrow> ('c \<Rightarrow> string \<times> string \<Rightarrow> pydict \<Rightarrow> 'c) \<Rightarrow> (string \<Rightarrow> pydict res) \<Rightarrow>
   string list \<Rightarrow> 'c \<Rightarrow> (string, pydict) odict \<Rightarrow> ((string, pydict) odict \<times> 'c) res" where
  "groups_cached cget csave load [] c found = Inr (found, c)"
| "groups_cached cget csave load (n # ns) c found = (case cget c (group_cache_key n) of
      Some d \<Rightarrow> groups_cached cget csave load ns c (dput n d found)
    | None \<Rightarrow> rbind (load n) (\<lambda>d.
        groups_cached cget csave load ns (csave c (group_cache_key n) d) (dput n d found)))"

definition paramgroup_cache where
  "paramgroup_cache cget csave describe names c =
     groups_cached cget csave (\<lambda>n. rbind (describe n) recast_all) names c []"

text \<open>The last of the option groups of an answer is the one kept.\<close>

definition optiongroup_cache where
  "optiongroup_cache cget csave describe names c =
     groups_cached cget csave (\<lambda>n. rbind (describe n) (\<lambda>gs. Inr (if gs = [] then [] else last gs))) names c []"

definition group_name :: "string \<Rightarrow> pyval \<Rightarrow> string res" where
  "group_name key g = rbind (tag_field g key) (\<lambda>n. case n of PStr s \<Rightarrow> Inr s | _ \<Rightarrow> Inl TypeError)"

definition first_group :: "string \<Rightarrow> string \<Rightarrow> pydict \<Rightarrow> string res" where
  "first_group groups_key name_key d =
     rbind (rbind (dindex d groups_key) py_iter) (\<lambda>gs. case gs of [] \<Rightarrow> Inl IndexError | g # _ \<Rightarrow> group_name name_key g)"

text \<open>
  The groups of an instance up to the first whose contents match: which that is. Only the
  first groups of the instances were looked up.
\<close>

fun match_groups ::
  "ext \<Rightarrow> pydict \<Rightarrow> string \<Rightarrow> (string, pydict) odict \<Rightarrow> vstate \<Rightarrow> pyval list \<Rightarrow> (vstate \<times> pydict option) res" where
  "match_groups E data name_key found s [] = Inr (s, None)"
| "match_groups E data name_key found s (g # gs) =
     rbind (rbind (group_name name_key g) (dindex found)) (\<lambda>d.
     rbind (vmatch E data s (PDict d)) (\<lambda>(s1, b).
       if b then Inr (s1, Some d) else match_groups E data name_key found s1 gs))"

definition append_note :: "string \<Rightarrow> pyval \<Rightarrow> pydict \<Rightarrow> pydict res" where
  "append_note key x d = (case dget_or d key (PList []) of
      PList xs \<Rightarrow> Inr (dput key (PList (xs @ [x])) d)
    | _ \<Rightarrow> Inl AttributeError)"

fun group_filter ::
  "ext \<Rightarrow> pydict \<Rightarrow> string \<Rightarrow> string \<Rightarrow> string \<Rightarrow> (pydict \<Rightarrow> pyval res) \<Rightarrow> (string, pydict) odict \<Rightarrow> vstate \<Rightarrow>
   pydict list \<Rightarrow> pydict list res" where
  "group_filter E data groups_key name_key note_key noted found s [] = Inr []"
| "group_filter E data groups_key name_key note_key noted found s (r # rs) =
     rbind (rbind (dindex r groups_key) py_iter) (\<lambda>gs.
     rbind (match_groups E data name_key found s gs) (\<lambda>(s1, hit).
     rbind (case hit of None \<Rightarrow> Inr [] | Some d \<Rightarrow> rbind (noted d) (\<lambda>x. rbind (append_note note_key x r) (\<lambda>r'. Inr [r']))) (\<lambda>out.
     rbind (group_filter E data groups_key name_key note_key noted found s1 rs) (\<lambda>outs. Inr (out @ outs)))))"

text \<open>\<open>ParameterFilter\<close>: the instances kept, with what it notes on them.\<close>

definition parameter_filter where
  "parameter_filter E cget csave describe order data c rs =
     rbind (rmap (first_group ''DBParameterGroups'' ''DBParameterGroupName'') rs) (\<lambda>names.
     rbind (paramgroup_cache cget csave describe (order (remdups names)) c) (\<lambda>(found, c1).
     rbind (group_filter E data ''DBParameterGroups'' ''DBParameterGroupName'' ''c7n:MatchedDBParameter''
              (\<lambda>d. Inr (dget_or data ''key'' PNone)) found vstate0 rs) (\<lambda>out. Inr (out, c1))))"

definition option_note :: "ext \<Rightarrow> pydict \<Rightarrow> pydict \<Rightarrow> pyval res" where
  "option_note E data d =
     rbind (rmap (\<lambda>k. case k of PStr e \<Rightarrow> rbind (ext_jmes E e (PDict d)) (\<lambda>v. Inr (e, v)) | _ \<Rightarrow> Inl ExternalError)
       (dedup [PStr ''OptionGroupName'', dget_or data ''key'' PNone])) (\<lambda>kvs. Inr (PDict kvs))"

definition option_filter where
  "option_filter E cget csave describe data c rs =
     rbind (rmap (first_group ''OptionGroupMemberships'' ''OptionGroupName'') rs) (\<lambda>names.
     rbind (optiongroup_cache cget csave describe names c) (\<lambda>(found, c1).
     rbind (group_filter E data ''OptionGroupMemberships'' ''OptionGroupName'' ''c7n:MatchedDBOptionGroups''
              (option_note E data) found vstate0 rs) (\<lambda>out. Inr (out, c1))))"

section \<open>Facts\<close>

subsection \<open>Answers by resource\<close>

definition looked_up :: "(pyval \<times> pyval list) list \<Rightarrow> pyval \<Rightarrow> pyval list" where
  "looked_up m v = (case find (\<lambda>(w, xs). py_eq v w) m of None \<Rightarrow> [] | Some (w, xs) \<Rightarrow> xs)"

lemma looked_up_vput:
  "list_all (\<lambda>(w, xs). is_str w) m \<Longrightarrow>
   list_all (\<lambda>(w, xs). is_str w) (vput (PStr w) x m) \<and>
   looked_up (vput (PStr w) x m) (PStr v) = (if v = w then looked_up m (PStr v) @ [x] else looked_up m (PStr v))"
proof (induction m)
  case (Cons p m)
  obtain k xs where p: "p = (PStr k, xs)" using Cons.prems by (cases p) (auto simp: is_str_def split: pyval.splits)
  show ?case using Cons by (auto simp: p looked_up_def is_str_def)
qed (simp add: looked_up_def is_str_def)

lemma group_answers_by:
  assumes "\<And>x. x \<in> set xs \<Longrightarrow> key x = Inr (PStr (owner x))"
  shows "\<exists>m. group_answers key xs = Inr m \<and> (\<forall>v. answers_for m (PStr v) = Inr (filter (\<lambda>x. owner x = v) xs))"
proof -
  have "\<exists>m'. rfold (\<lambda>m x. rbind (key x) (\<lambda>v. if hashable v then Inr (vput v x m) else Inl TypeError)) m xs = Inr m' \<and>
      (\<forall>v. looked_up m' (PStr v) = looked_up m (PStr v) @ filter (\<lambda>x. owner x = v) xs)"
    if "list_all (\<lambda>(w, xs). is_str w) m" "\<And>x. x \<in> set xs \<Longrightarrow> key x = Inr (PStr (owner x))" for m
    using that
  proof (induction xs arbitrary: m)
    case (Cons x xs)
    have "list_all (\<lambda>(w, xs). is_str w) (vput (PStr (owner x)) x m)" using looked_up_vput Cons.prems(1) by blast
    from Cons.IH[OF this] obtain m' where
      "rfold (\<lambda>m x. rbind (key x) (\<lambda>v. if hashable v then Inr (vput v x m) else Inl TypeError)) (vput (PStr (owner x)) x m) xs = Inr m'"
      "\<And>v. looked_up m' (PStr v) = looked_up (vput (PStr (owner x)) x m) (PStr v) @ filter (\<lambda>x. owner x = v) xs"
      using Cons.prems(2) by fastforce
    moreover have "looked_up (vput (PStr (owner x)) x m) (PStr v) = (if v = owner x then looked_up m (PStr v) @ [x] else looked_up m (PStr v))" for v
      using looked_up_vput[OF Cons.prems(1)] by blast
    ultimately show ?case using Cons.prems(2)[of x] by simp
  qed simp
  from this[of "[]"] assms show ?thesis
    by (auto simp: group_answers_def answers_for_def looked_up_def)
qed

lemma put_all_map: "distinct rs \<Longrightarrow> put_all st rs (map (\<lambda>r. g (st r)) rs) = (\<lambda>r. if r \<in> set rs then g (st r) else st r)"
proof (induction rs arbitrary: st)
  case (Cons r rs)
  let ?st = "st(r := g (st r))"
  have same: "map (\<lambda>q. g (st q)) rs = map (\<lambda>q. g (?st q)) rs" using Cons.prems by auto
  have "put_all st (r # rs) (map (\<lambda>q. g (st q)) (r # rs)) = put_all ?st rs (map (\<lambda>q. g (st q)) rs)" by simp
  also have "\<dots> = put_all ?st rs (map (\<lambda>q. g (?st q)) rs)" by (simp only: same)
  also have "\<dots> = (\<lambda>q. if q \<in> set rs then g (?st q) else ?st q)"
    by (rule Cons.IH) (use Cons.prems in simp)
  also have "\<dots> = (\<lambda>q. if q \<in> set (r # rs) then g (st q) else st q)" using Cons.prems by (auto simp: fun_eq_iff)
  finally show ?case .
qed simp

text \<open>Sets annotated one after the other: each resource gets what it gets by itself.\<close>

lemma annotate_sets_each:
  assumes "\<And>rs. set rs \<subseteq> A \<Longrightarrow> f (map st rs) = Inr (map (\<lambda>r. g (st r)) rs)" "set (concat rss) \<subseteq> A" "distinct (concat rss)"
  shows "annotate_sets f st rss = Inr (\<lambda>r. if r \<in> set (concat rss) then g (st r) else st r)"
proof -
  have "annotate_sets f st' rss = Inr (\<lambda>r. if r \<in> set (concat rss) then g (st r) else st' r)"
    if "\<And>r. r \<in> set (concat rss) \<Longrightarrow> st' r = st r" "set (concat rss) \<subseteq> A" "distinct (concat rss)" for st'
    using that
  proof (induction rss arbitrary: st')
    case (Cons rs rss)
    have same: "map st' rs = map st rs" "map (\<lambda>r. g (st r)) rs = map (\<lambda>r. g (st' r)) rs" using Cons.prems(1) by auto
    have "f (map st rs) = Inr (map (\<lambda>r. g (st r)) rs)" using assms(1)[of rs] Cons.prems(2) by simp
    then have "f (map st' rs) = Inr (map (\<lambda>r. g (st' r)) rs)" by (simp only: same)
    moreover have "put_all st' rs (map (\<lambda>r. g (st' r)) rs) = (\<lambda>r. if r \<in> set rs then g (st' r) else st' r)"
      using Cons.prems(3) by (intro put_all_map) simp
    moreover have "annotate_sets f (\<lambda>r. if r \<in> set rs then g (st' r) else st' r) rss =
        Inr (\<lambda>r. if r \<in> set (concat rss) then g (st r) else (if r \<in> set rs then g (st' r) else st' r))"
      using Cons.prems by (intro Cons.IH) auto
    ultimately have "annotate_sets f st' (rs # rss) =
        Inr (\<lambda>r. if r \<in> set (concat rss) then g (st r) else (if r \<in> set rs then g (st' r) else st' r))"
      by simp
    also have "\<dots> = Inr (\<lambda>r. if r \<in> set (concat (rs # rss)) then g (st r) else st' r)"
      using Cons.prems(1) by (auto simp: fun_eq_iff)
    finally show ?case .
  qed (simp add: fun_eq_iff)
  from this[of st] assms(2,3) show ?thesis by blast
qed

lemma annotate_missing_each:
  assumes "\<And>qs. set qs \<subseteq> set rs \<Longrightarrow> f (map st qs) = Inr (map (\<lambda>r. g (st r)) qs)" "distinct rs"
    "\<And>r. r \<in> set rs \<Longrightarrow> \<not> dhas (st r) key"
  shows "annotate_missing key f st rs = Inr (\<lambda>r. if r \<in> set rs then g (st r) else st r)"
proof -
  have all: "filter (\<lambda>r. \<not> dhas (st r) key) rs = rs" using assms(3) by (auto simp: filter_id_conv)
  have "concat (chunks_from 50 [] rs) = rs" using chunks_from_batches[of 50 "[]" rs] by simp
  with annotate_sets_each[of "set rs" f st g "chunks_from 50 [] rs"] assms(1,2) show ?thesis
    by (simp add: annotate_missing_def all chunks_def)
qed

subsection \<open>Consecutive snapshots\<close>

lemma snapshots_set_each:
  assumes "\<And>ids. describe (map PStr ids) = Inr (filter (\<lambda>s. owner s \<in> set ids) snaps)"
    and "\<And>s. s \<in> set snaps \<Longrightarrow> tag_field s ''DBInstanceIdentifier'' = Inr (PStr (owner s))"
    and "\<And>r. r \<in> set qs \<Longrightarrow> dget (st r) ''DBInstanceIdentifier'' = Some (PStr (ident r))"
  shows "snapshots_set describe (map st qs) =
    Inr (map (\<lambda>r. dput snapshots_key (PList (filter (\<lambda>s. PStr (owner s) = dget_or (st r) ''DBInstanceIdentifier'' PNone) snaps)) (st r)) qs)"
proof -
  have ids: "rmap (\<lambda>d. dindex d ''DBInstanceIdentifier'') (map st qs) = Inr (map PStr (map ident qs))"
    using assms(3) by (induction qs) (auto simp: dindex_def)
  obtain m where m: "group_answers (\<lambda>s. tag_field s ''DBInstanceIdentifier'') (filter (\<lambda>s. owner s \<in> set (map ident qs)) snaps) = Inr m"
    "\<And>v. answers_for m (PStr v) = Inr (filter (\<lambda>x. owner x = v) (filter (\<lambda>s. owner s \<in> set (map ident qs)) snaps))"
    using group_answers_by[of "filter (\<lambda>s. owner s \<in> set (map ident qs)) snaps" "\<lambda>s. tag_field s ''DBInstanceIdentifier''" owner]
      assms(2) by auto
  have own: "filter (\<lambda>x. owner x = ident r) (filter (\<lambda>s. owner s \<in> set (map ident qs)) snaps) = filter (\<lambda>s. owner s = ident r) snaps"
    if "r \<in> set qs" for r
    using that by (auto intro!: filter_cong)
  have "rmap (\<lambda>d. rbind (rbind (dindex d ''DBInstanceIdentifier'') (answers_for m)) (\<lambda>ss. Inr (dput snapshots_key (PList ss) d))) (map st qs) =
      Inr (map (\<lambda>r. dput snapshots_key (PList (filter (\<lambda>s. PStr (owner s) = dget_or (st r) ''DBInstanceIdentifier'' PNone) snaps)) (st r)) qs)"
    unfolding rmap_map using assms(3) own m(2) by (intro rmap_pure) (simp add: dindex_def dget_or_def)
  then show ?thesis by (simp only: snapshots_set_def ids assms(1) m(1) rbind_Inr)
qed

lemma dated_units_found:
  assumes "\<And>s. s \<in> set xs \<Longrightarrow> tag_field s ''Status'' = Inr (state s) \<and> tag_field s date_key = Inr (PDate (made s))"
  shows "\<exists>us. dated_units u status date_key xs = Inr us \<and> set us = (\<lambda>s. made s div u) ` {s \<in> set xs. py_eq (state s) status}"
proof -
  have "rmap (\<lambda>x. rbind (tag_field x ''Status'') (\<lambda>s.
       if py_eq s status then rbind (rbind (tag_field x date_key) (unit_of u)) (\<lambda>d. Inr [d]) else Inr [])) xs =
      Inr (map (\<lambda>s. if py_eq (state s) status then [made s div u] else []) xs)"
    using assms by (intro rmap_pure) (auto simp: unit_of_def)
  then show ?thesis by (auto simp: dated_units_def concat_if)
qed

definition in_calendar :: "int \<Rightarrow> bool" where
  "in_calendar t \<longleftrightarrow> date_in_range t = Inr t"

lemma in_calendar_between: "in_calendar a \<Longrightarrow> in_calendar b \<Longrightarrow> a \<le> t \<Longrightarrow> t \<le> b \<Longrightarrow> in_calendar t"
  by (auto simp: in_calendar_def date_in_range_def split: if_splits)

lemma expected_days:
  assumes "in_calendar (now - n * day_us)" "in_calendar now"
  shows "expected_units now day_us day_us (PInt n) = Inr (map (\<lambda>i. now div day_us - i) [1..n])"
proof -
  have "date_in_range (now - i * day_us) = Inr (now - i * day_us)" if "i \<in> set [1..n]" for i
    using in_calendar_between[OF assms, of "now - i * day_us"] that by (auto simp: in_calendar_def day_us_def second_us_def)
  moreover have "(now - i * day_us) div day_us = now div day_us - i" for i
    by (simp add: day_us_def second_us_def diff_mult_distrib2)
  ultimately have "rmap (\<lambda>i. rbind (date_in_range (now - i * day_us)) (\<lambda>t. Inr (t div day_us))) [1..n] =
      Inr (map (\<lambda>i. now div day_us - i) [1..n])"
    by (intro rmap_pure) simp
  then show ?thesis by (simp add: expected_units_def int_of_def)
qed

text \<open>Of instances whose snapshots were not fetched yet, the filter for \<open>n\<close> consecutive snapshots keeps those that
  have an available snapshot made on each of the \<open>n\<close> days before today, whatever sets of fifty their snapshots are
  asked for in, when the service answers with the snapshots of the instances it is asked for.\<close>

theorem consecutive_days_kept:
  assumes "\<And>ids. describe (map PStr ids) = Inr (filter (\<lambda>s. owner s \<in> set ids) snaps)"
    and "\<And>s. s \<in> set snaps \<Longrightarrow> tag_field s ''DBInstanceIdentifier'' = Inr (PStr (owner s)) \<and>
      tag_field s ''Status'' = Inr (state s) \<and> tag_field s ''SnapshotCreateTime'' = Inr (PDate (made s))"
    and "distinct rs" "\<And>r. r \<in> set rs \<Longrightarrow> dget (st r) ''DBInstanceIdentifier'' = Some (PStr (ident r)) \<and> \<not> dhas (st r) snapshots_key"
    and "dget data ''days'' = Some (PInt n)" "in_calendar (now - n * day_us)" "in_calendar now"
  shows "\<exists>st1. consecutive_snapshots describe now data st rs = Inr (st1,
    filter (\<lambda>r. \<forall>i \<in> set [1..n]. \<exists>s \<in> set snaps. owner s = ident r \<and> py_eq (state s) (PStr ''available'') \<and>
      made s div day_us = now div day_us - i) rs)"
proof -
  let ?own = "\<lambda>d. filter (\<lambda>s. PStr (owner s) = dget_or d ''DBInstanceIdentifier'' PNone) snaps"
  let ?g = "\<lambda>d. dput snapshots_key (PList (?own d)) d" and ?expected = "map (\<lambda>i. now div day_us - i) [1..n]"
  let ?st1 = "\<lambda>r. if r \<in> set rs then ?g (st r) else st r"
  have st1: "annotate_missing snapshots_key (snapshots_set describe) st rs = Inr ?st1"
  proof (rule annotate_missing_each)
    show "snapshots_set describe (map st qs) = Inr (map (\<lambda>r. ?g (st r)) qs)" if "set qs \<subseteq> set rs" for qs
      by (rule snapshots_set_each[where ident = ident]) (use assms(1,2,4) that in auto)
  qed (use assms(3,4) in auto)
  have kept: "all_units day_us (PStr ''available'') ''SnapshotCreateTime'' snapshots_key ?expected (?st1 r) =
      Inr (\<forall>i \<in> set [1..n]. \<exists>s \<in> set snaps. owner s = ident r \<and> py_eq (state s) (PStr ''available'') \<and>
        made s div day_us = now div day_us - i)" if "r \<in> set rs" for r
  proof -
    have own: "?own (st r) = filter (\<lambda>s. owner s = ident r) snaps"
      using assms(4) that by (simp add: dget_or_def)
    obtain us where us: "dated_units day_us (PStr ''available'') ''SnapshotCreateTime'' (?own (st r)) = Inr us"
      "set us = (\<lambda>s. made s div day_us) ` {s \<in> set (?own (st r)). py_eq (state s) (PStr ''available'')}"
      using dated_units_found[of "?own (st r)" state "''SnapshotCreateTime''" made day_us "PStr ''available''"] assms(2) by auto
    have at: "dindex (?st1 r) snapshots_key = Inr (PList (?own (st r)))"
      using that by (simp add: dindex_def)
    have "all_units day_us (PStr ''available'') ''SnapshotCreateTime'' snapshots_key ?expected (?st1 r) =
        Inr (list_all (\<lambda>e. e \<in> set us) ?expected)"
      by (simp only: all_units_def at us(1) rbind_Inr py_iter.simps)
    moreover have "e \<in> set us \<longleftrightarrow> (\<exists>s \<in> set snaps. owner s = ident r \<and> py_eq (state s) (PStr ''available'') \<and>
        made s div day_us = e)" for e
      unfolding us(2) own image_iff set_filter by blast
    then have "list_all (\<lambda>e. e \<in> set us) ?expected \<longleftrightarrow> (\<forall>i \<in> set [1..n]. \<exists>s \<in> set snaps. owner s = ident r \<and>
        py_eq (state s) (PStr ''available'') \<and> made s div day_us = now div day_us - i)"
      by (simp only: list_all_iff set_map ball_simps)
    ultimately show ?thesis by simp
  qed
  have days: "expected_units now day_us day_us (dget_or data ''days'' PNone) = Inr ?expected"
    using expected_days[OF assms(6,7)] assms(5) by (simp add: dget_or_def)
  have "rfilter (\<lambda>r. all_units day_us (PStr ''available'') ''SnapshotCreateTime'' snapshots_key ?expected (?st1 r)) rs =
      Inr (filter (\<lambda>r. \<forall>i \<in> set [1..n]. \<exists>s \<in> set snaps. owner s = ident r \<and> py_eq (state s) (PStr ''available'') \<and>
        made s div day_us = now div day_us - i) rs)"
    using kept by (rule rfilter_pure)
  with st1 days show ?thesis by (simp only: consecutive_snapshots_def rbind_Inr) blast
qed

definition ex_snap :: "string \<Rightarrow> int \<Rightarrow> pyval" where
  "ex_snap i day = PDict [(''DBInstanceIdentifier'', PStr i), (''Status'', PStr ''available''),
     (''SnapshotCreateTime'', PDate (day * day_us + 5))]"

definition ex_snaps :: "pyval list" where
  "ex_snaps = [ex_snap ''db-1'' 8, ex_snap ''db-2'' 8, ex_snap ''db-1'' 9]"

definition ex_snap_owner :: "pyval \<Rightarrow> string" where
  "ex_snap_owner s = (case tag_field s ''DBInstanceIdentifier'' of Inr (PStr i) \<Rightarrow> i | _ \<Rightarrow> [])"

definition ex_snap_time :: "pyval \<Rightarrow> int" where
  "ex_snap_time s = (case tag_field s ''SnapshotCreateTime'' of Inr (PDate t) \<Rightarrow> t | _ \<Rightarrow> 0)"

definition ex_describe :: "pyval list \<Rightarrow> pyval list res" where
  "ex_describe ids = Inr (filter (\<lambda>s. mem_eq (PStr (ex_snap_owner s)) ids) ex_snaps)"

definition ex_dbs :: store where
  "ex_dbs = (\<lambda>r. [(''DBInstanceIdentifier'', PStr (if r = 0 then ''db-1'' else ''db-2''))])"

theorem consecutive_days_kept_witness:
  "\<exists>st1. consecutive_snapshots ex_describe (10 * day_us) [(''days'', PInt 2)] ex_dbs [0, 1] = Inr (st1, [0])"
proof -
  have snap: "tag_field (ex_snap i d) ''DBInstanceIdentifier'' = Inr (PStr i)"
    "tag_field (ex_snap i d) ''Status'' = Inr (PStr ''available'')"
    "tag_field (ex_snap i d) ''SnapshotCreateTime'' = Inr (PDate (d * day_us + 5))"
    "ex_snap_owner (ex_snap i d) = i" "ex_snap_time (ex_snap i d) = d * day_us + 5" for i d
    by (simp_all add: ex_snap_def tag_field_def dindex_def ex_snap_owner_def ex_snap_time_def)
  have days: "(d * day_us + 5) div day_us = d" for d by (simp add: day_us_def second_us_def)
  have cal: "in_calendar (10 * day_us - 2 * day_us)" "in_calendar (10 * day_us)"
    by (simp_all add: in_calendar_def date_in_range_def day_us_def second_us_def)
  have "\<exists>st1. consecutive_snapshots ex_describe (10 * day_us) [(''days'', PInt 2)] ex_dbs [0, 1] = Inr (st1,
    filter (\<lambda>r. \<forall>i \<in> set [1..2]. \<exists>s \<in> set ex_snaps. ex_snap_owner s = (if r = 0 then ''db-1'' else ''db-2'') \<and>
      py_eq (PStr ''available'') (PStr ''available'') \<and> ex_snap_time s div day_us = 10 * day_us div day_us - i) [0, 1])"
  proof (rule consecutive_days_kept)
    show "ex_describe (map PStr ids) = Inr (filter (\<lambda>s. ex_snap_owner s \<in> set ids) ex_snaps)" for ids
      by (simp add: ex_describe_def mem_eq_PStr)
  qed (use snap cal in \<open>auto simp: ex_snaps_def ex_dbs_def snapshots_key_def dhas_def\<close>)
  moreover have "[1..2] = [1, 2::int]" by code_simp
  moreover have "10 * day_us div day_us = 10" by (simp add: day_us_def second_us_def)
  ultimately show ?thesis by (simp add: ex_snaps_def snap days)
qed

subsection \<open>Groups in the cache\<close>

text \<open>
  What the two filters keep in the cache has the same keys: after a parameter group was looked
  up, the option group of the same name is its parameters, whatever the service has of it.
\<close>

lemma option_group_mistaken:
  assumes "paramgroup_cache mem_get mem_save describe [n] c = Inr (found, c1)"
  shows "optiongroup_cache mem_get mem_save options [n] c1 = Inr (found, c1)"
  using assms
  by (auto simp: paramgroup_cache_def optiongroup_cache_def mem_get_def mem_save_def rbind_eq_Inr split: option.splits)

text \<open>Only first groups are looked up: an instance whose first group does not match and that has one more is a KeyError.\<close>

lemma second_group_unknown:
  assumes "group_name key g = Inr n" "dget found n = Some d" "vmatch E data s (PDict d) = Inr (s1, False)"
    "group_name key g2 = Inr n2" "dget found n2 = None"
  shows "match_groups E data key found s (g # g2 # gs) = Inl KeyError"
  using assms by (simp add: dindex_def)

text \<open>A negative integer parameter stays text.\<close>

lemma recast_negative: "recast (CHR ''-'' # s) ''integer'' = Inr (PStr (CHR ''-'' # s))"
  by (simp add: recast_def isdigit_def is_digit_def)

end
