(* ===== verification/Rds_Actions.thy ===== *)
theory Rds_Actions
  imports Rds Tags SG_Actions
begin

text \<open>
  Actions on database instances and their snapshots (\<open>c7n/resources/rds.py\<close>): deleting an
  instance with a final snapshot that remembers its settings in tags, restoring one from
  such a snapshot, modifying instances, and sharing, copying and deleting snapshots. A
  request is one that the manager retries where the code says so.
\<close>

section \<open>Tags that remember an instance\<close>

definition first_item :: "string \<Rightarrow> string \<Rightarrow> pydict \<Rightarrow> pyval res" where
  "first_item list_key key r =
     rbind (rbind (dindex r list_key) py_iter) (\<lambda>xs. case xs of [] \<Rightarrow> Inl IndexError | x # _ \<Rightarrow> tag_field x key)"

definition mk_tag :: "string \<Rightarrow> pyval \<Rightarrow> pyval" where
  "mk_tag k v = PDict [(''Key'', PStr k), (''Value'', v)]"

text \<open>\<open>copy_restore_info\<close>: the ids of the security groups are put together without a separator.\<close>

definition restore_tags :: "ext \<Rightarrow> pydict \<Rightarrow> pyval list res" where
  "restore_tags E r =
     rbind (rbind (rbind (dindex r ''VpcSecurityGroups'') py_iter)
              (rmap (\<lambda>g. rbind (tag_field g ''VpcSecurityGroupId'') text_of))) (\<lambda>groups.
     rbind (first_item ''OptionGroupMemberships'' ''OptionGroupName'' r) (\<lambda>option_group.
     rbind (first_item ''DBParameterGroups'' ''DBParameterGroupName'' r) (\<lambda>parameter_group.
     rbind (dindex r ''DBInstanceClass'') (\<lambda>instance_class.
     rbind (dindex r ''StorageType'') (\<lambda>storage.
     rbind (dindex r ''MultiAZ'') (\<lambda>multi.
     rbind (rbind (dindex r ''DBSubnetGroup'') (\<lambda>g. tag_field g ''DBSubnetGroupName'')) (\<lambda>subnets.
       Inr [mk_tag ''VPCSecurityGroups'' (PStr (join [] groups)), mk_tag ''OptionGroupName'' option_group,
            mk_tag ''ParameterGroupName'' parameter_group, mk_tag ''InstanceClass'' instance_class,
            mk_tag ''StorageType'' storage, mk_tag ''MultiAZ'' (PStr (py_str E multi)),
            mk_tag ''DBSubnetGroupName'' subnets])))))))"

definition copy_restore_info :: "'w service \<Rightarrow> ext \<Rightarrow> (pyval \<Rightarrow> pyval) \<Rightarrow> pydict \<Rightarrow> ('w, unit) eff" where
  "copy_restore_info call E arn r =
     andthen (lift (restore_tags E r)) (\<lambda>ts.
     andthen (lift (dindex r ''DBInstanceIdentifier'')) (\<lambda>i.
       ask call ''add_tags_to_resource'' [(''ResourceName'', arn i), (''Tags'', PList ts)]))"

definition rds_delete_validate :: "pydict \<Rightarrow> unit res" where
  "rds_delete_validate data =
     (if py_truth (dget_or data ''skip-snapshot'' (PBool False)) \<and> py_truth (dget_or data ''copy-restore-info'' PNone)
      then Inl PolicyValidationError else Inr ())"

definition delete_params :: "ext \<Rightarrow> string \<Rightarrow> bool \<Rightarrow> pydict \<Rightarrow> pyval \<Rightarrow> pydict" where
  "delete_params E now skip r i =
     [(''DBInstanceIdentifier'', i),
      if skip \<or> \<not> eligible_for_final_snapshot r then (''SkipFinalSnapshot'', PBool True)
      else (''FinalDBSnapshotIdentifier'', snapshot_identifier E now (PStr ''Final'') i)]"

definition rds_delete_one :: "'w service \<Rightarrow> ext \<Rightarrow> string \<Rightarrow> (pyval \<Rightarrow> pyval) \<Rightarrow> pydict \<Rightarrow> pydict \<Rightarrow> ('w, unit) eff" where
  "rds_delete_one call E now arn data r =
     andthen (lift (dindex r ''DBInstanceIdentifier'')) (\<lambda>i.
     andthen (unless (\<not> py_truth (dget_or data ''copy-restore-info'' (PBool False)))
       (andthen (copy_restore_info call E arn r) (\<lambda>_.
        andthen (lift (dindex r ''CopyTagsToSnapshot'')) (\<lambda>copies.
        unless (py_truth copies) (ask call ''modify_db_instance''
          [(''DBInstanceIdentifier'', i), (''CopyTagsToSnapshot'', PBool True)]))))) (\<lambda>_.
     ask_ignoring [''InvalidDBInstanceState''] call ''delete_db_instance''
       (delete_params E now (py_truth (dget_or data ''skip-snapshot'' (PBool False))) r i)))"

text \<open>Members of a cluster are left to the cluster.\<close>

definition rds_delete :: "'w service \<Rightarrow> ext \<Rightarrow> string \<Rightarrow> (pyval \<Rightarrow> pyval) \<Rightarrow> pydict \<Rightarrow> pydict list \<Rightarrow> ('w, pydict list) eff" where
  "rds_delete call E now arn data rs =
     andthen (lift (element_filter E ''DBClusterIdentifier'' [PNone] rs)) (\<lambda>dbs.
     andthen (each (rds_delete_one call E now arn data) dbs) (\<lambda>_. lift (Inr dbs)))"

section \<open>Restoring\<close>

definition restore_keys :: "string list" where
  "restore_keys = [''VPCSecurityGroups'', ''MultiAZ'', ''DBSubnetGroupName'', ''InstanceClass'', ''StorageType'',
     ''ParameterGroupName'', ''OptionGroupName'']"

definition tags_dict :: "pydict \<Rightarrow> pydict res" where
  "tags_dict r = rbind (rbind (dindex r ''Tags'') py_iter)
     (rfold (\<lambda>d t. rbind (tag_key t) (\<lambda>k. rbind (tag_field t ''Value'') (\<lambda>v. Inr (dput k v d)))) [])"

definition options_of :: "pydict \<Rightarrow> string \<Rightarrow> pydict res" where
  "options_of data k = (case dget_or data k (PDict []) of PDict d \<Rightarrow> Inr d | _ \<Rightarrow> Inl TypeError)"

definition get_restore_from_tags :: "pydict \<Rightarrow> pydict \<Rightarrow> (pydict \<times> pydict) res" where
  "get_restore_from_tags data r =
     rbind (tags_dict r) (\<lambda>tags.
     rbind (dindex r ''DBInstanceIdentifier'') (\<lambda>i.
     rbind (dindex r ''DBSnapshotIdentifier'') (\<lambda>snapshot.
     rbind (dindex tags ''MultiAZ'') (\<lambda>multi.
     rbind (dindex tags ''DBSubnetGroupName'') (\<lambda>subnets.
     rbind (dindex tags ''InstanceClass'') (\<lambda>instance_class.
     rbind (dindex tags ''StorageType'') (\<lambda>storage.
     rbind (dindex tags ''OptionGroupName'') (\<lambda>option_group.
     rbind (dindex tags ''ParameterGroupName'') (\<lambda>parameter_group.
     rbind (rbind (dindex tags ''VPCSecurityGroups'') (\<lambda>v. case v of PStr s \<Rightarrow> Inr s | _ \<Rightarrow> Inl AttributeError)) (\<lambda>groups.
     rbind (options_of data ''restore_options'') (\<lambda>restore_options.
     rbind (options_of data ''modify_options'') (\<lambda>modify_options.
       Inr (dupdate
              [(''DBInstanceIdentifier'', i), (''DBSnapshotIdentifier'', snapshot), (''MultiAZ'', PBool (is_text multi ''True'')),
               (''DBSubnetGroupName'', subnets), (''DBInstanceClass'', instance_class), (''CopyTagsToSnapshot'', PBool True),
               (''StorageType'', storage), (''OptionGroupName'', option_group),
               (''Tags'', PList (map (\<lambda>(k, v). mk_tag k v) (filter (\<lambda>(k, v). k \<notin> set restore_keys) tags)))]
              restore_options,
            dupdate
              [(''DBParameterGroupName'', parameter_group),
               (''VpcSecurityGroupIds'', PList (map PStr (split_char CHR '','' groups)))]
              modify_options)))))))))))))"

text \<open>\<open>process_instance\<close>; an option that is also given by name is a TypeError.\<close>

definition restore_instance :: "'w service \<Rightarrow> pydict \<Rightarrow> pydict \<Rightarrow> ('w, unit) eff" where
  "restore_instance call data r =
     andthen (lift (get_restore_from_tags data r)) (\<lambda>(params, post_modify).
     andthen (ask call ''restore_db_instance_from_db_snapshot'' params) (\<lambda>_.
     andthen (lift (dindex params ''DBInstanceIdentifier'')) (\<lambda>i.
     andthen (ask call ''wait_db_instance_available'' [(''DBInstanceIdentifier'', i)]) (\<lambda>_.
     andthen (if dhas post_modify ''DBInstanceIdentifier'' \<or> dhas post_modify ''ApplyImmediately'' then lift (Inl TypeError)
              else ask call ''modify_db_instance''
                ([(''DBInstanceIdentifier'', i), (''ApplyImmediately'', PBool True)] @ post_modify)) (\<lambda>_.
     ask call ''reboot_db_instance'' [(''DBInstanceIdentifier'', i), (''ForceFailover'', PBool False)])))))"

definition restore_validate :: "bool \<Rightarrow> unit res" where
  "restore_validate has_latest = (if has_latest then Inr () else Inl PolicyValidationError)"

text \<open>
  \<open>process\<close>: a snapshot without all the tags is passed over, an exception of a restore is
  logged.
\<close>

definition restorable :: "pydict \<Rightarrow> bool res" where
  "restorable r = rbind (tags_dict r) (\<lambda>tags.
     if list_all (dhas tags) restore_keys then Inr True
     else rbind (dindex r ''DBSnapshotIdentifier'') (\<lambda>_. Inr False))"

definition restore_process :: "'w service \<Rightarrow> pydict \<Rightarrow> pydict list \<Rightarrow> ('w, unit) eff" where
  "restore_process call data rs =
     each (\<lambda>r. andthen (lift (restorable r)) (\<lambda>b. unless (\<not> b) (\<lambda>w. (Inr (), snd (restore_instance call data r w))))) rs"

section \<open>Modifying instances\<close>

definition conversion_map :: "(string, string) odict" where
  "conversion_map =
     [(''DBSubnetGroupName'', ''DBSubnetGroup.DBSubnetGroupName''),
      (''VpcSecurityGroupIds'', ''VpcSecurityGroups[].VpcSecurityGroupId''),
      (''DBParameterGroupName'', ''DBParameterGroups[].DBParameterGroupName''),
      (''OptionGroupName'', ''OptionGroupMemberships[].OptionGroupName''),
      (''NewDBInstanceIdentifier'', ''DBInstanceIdentifier''), (''Domain'', ''DomainMemberships[].DomainName''),
      (''DBPortNumber'', ''Endpoint.Port''), (''EnablePerformanceInsights'', ''PerformanceInsightsEnabled''),
      (''CloudwatchLogsExportConfiguration'', ''EnabledCloudwatchLogsExports'')]"

text \<open>The pairs of the update; a property is a text, by the schema.\<close>

definition update_pair :: "pyval \<Rightarrow> (string \<times> pyval) res" where
  "update_pair u = rbind (rbind (tag_field u ''property'') text_of) (\<lambda>p. rbind (tag_field u ''value'') (\<lambda>v. Inr (p, v)))"

definition updates_of :: "pydict \<Rightarrow> (string \<times> pyval) list res" where
  "updates_of data = rbind (py_iter (dget_or data ''update'' PNone)) (rmap update_pair)"

definition modify_validate :: "pydict \<Rightarrow> unit res" where
  "modify_validate data =
     (if \<not> py_truth (dget_or data ''update'' PNone) then Inr ()
      else rbind (updates_of data) (\<lambda>us.
        let d = dupdate [] us
        in rbind (case dget d ''MonitoringInterval'' of
             None \<Rightarrow> Inr False
           | Some v \<Rightarrow> rbind (cmp_with (\<lambda>r. r = OGt) v (PInt 0)) (\<lambda>b. Inr (b \<and> \<not> dhas d ''MonitoringRoleARN''))) (\<lambda>no_role.
           if no_role then Inl PolicyValidationError
           else rbind (case dget d ''CloudwatchLogsExportConfiguration'' of
               None \<Rightarrow> Inr False
             | Some v \<Rightarrow> rall (\<lambda>k. rbind (py_in (PStr k) v) (\<lambda>b. Inr (\<not> b))) [''EnableLogTypes'', ''DisableLogTypes'']) (\<lambda>no_types.
             if no_types then Inl PolicyValidationError else Inr ()))))"

definition current_value :: "ext \<Rightarrow> pydict \<Rightarrow> string \<Rightarrow> pyval res" where
  "current_value E r p =
     rbind (ext_jmes E (case dget conversion_map p of None \<Rightarrow> ''None'' | Some e \<Rightarrow> e) (PDict r)) (\<lambda>v. Inr (dget_or r p v))"

definition modify_params :: "ext \<Rightarrow> (string \<times> pyval) list \<Rightarrow> pydict \<Rightarrow> pydict res" where
  "modify_params E us r =
     rfold (\<lambda>d (p, v). rbind (current_value E r p) (\<lambda>c. Inr (if py_eq c v then d else dput p v d))) [] us"

definition modify_one :: "'w service \<Rightarrow> ext \<Rightarrow> pydict \<Rightarrow> pydict \<Rightarrow> ('w, unit) eff" where
  "modify_one call E data r =
     andthen (lift (rbind (updates_of data) (\<lambda>us. modify_params E us r))) (\<lambda>param.
     unless (param = []) (andthen (lift (dindex r ''DBInstanceIdentifier'')) (\<lambda>i.
       ask call ''modify_db_instance''
         (dput ''DBInstanceIdentifier'' i (dput ''ApplyImmediately'' (dget_or data ''immediate'' (PBool False)) param)))))"

definition modify_process :: "'w service \<Rightarrow> ext \<Rightarrow> pydict \<Rightarrow> pydict list \<Rightarrow> ('w, unit) eff" where
  "modify_process call E data rs = each (modify_one call E data) rs"

text \<open>\<open>CopySnapshotTags\<close>: all instances are tried, and the last error is raised.\<close>

definition copy_tags_process :: "'w service \<Rightarrow> pydict \<Rightarrow> pydict list \<Rightarrow> ('w, pydict list) eff" where
  "copy_tags_process call data rs w =
     (let enable = dget_or data ''enable'' (PBool True)
      in case rfilter (\<lambda>r. rbind (dindex r ''CopyTagsToSnapshot'') (\<lambda>c. Inr (\<not> py_eq c enable))) rs of
           Inl e \<Rightarrow> (Inl e, w)
         | Inr todo \<Rightarrow>
             (case run_batches (\<lambda>r. andthen (lift (dindex r ''DBInstanceIdentifier'')) (\<lambda>i.
                  ask call ''modify_db_instance'' [(''DBInstanceIdentifier'', i), (''CopyTagsToSnapshot'', enable)])) todo None w of
                (None, w') \<Rightarrow> (Inr todo, w')
              | (Some e, w') \<Rightarrow> (Inl e, w')))"

text \<open>The groups of instances are those of the group action; a cluster gets those of its last member.\<close>

definition group_request :: "pydict \<Rightarrow> string list \<Rightarrow> ('w, unit) eff \<Rightarrow> ('w, unit) eff" where
  "group_request r gs m = unless (py_truth (dget_or r ''DBClusterIdentifier'' PNone)) m"

definition cluster_groups :: "(pydict \<times> string list) list \<Rightarrow> (pyval \<times> string list) list" where
  "cluster_groups ps = fold (\<lambda>(r, gs) m. let c = dget_or r ''DBClusterIdentifier'' PNone
     in if \<not> py_truth c then m
        else if list_ex (\<lambda>(k, x). py_eq c k) m then map (\<lambda>(k, x). (k, if py_eq c k then gs else x)) m
        else m @ [(c, gs)]) ps []"

definition modify_security_groups :: "'w service \<Rightarrow> string list list \<Rightarrow> pydict list \<Rightarrow> ('w, unit) eff" where
  "modify_security_groups call groups rs =
     andthen (each (\<lambda>(r, gs). group_request r gs (andthen (lift (dindex r ''DBInstanceIdentifier'')) (\<lambda>i.
        ask call ''modify_db_instance'' [(''DBInstanceIdentifier'', i), (''VpcSecurityGroupIds'', PList (map PStr gs))])))
        (zip rs groups)) (\<lambda>_.
     each (\<lambda>(c, gs). ask call ''modify_db_cluster''
        [(''DBClusterIdentifier'', c), (''VpcSecurityGroupIds'', PList (map PStr gs))]) (cluster_groups (zip rs groups)))"

section \<open>Facts\<close>

subsection \<open>What a restored instance gets\<close>

lemma rfold_tags: "rfold (\<lambda>d t. rbind (tag_key t) (\<lambda>k. rbind (tag_field t ''Value'') (\<lambda>v. Inr (dput k v d)))) d
    (map (\<lambda>(k, v). mk_tag k v) kvs) = Inr (dupdate d kvs)"
  by (induction kvs arbitrary: d) (auto simp: mk_tag_def tag_key_def tag_field_def dindex_def)

lemma dget_dupdate_other: "k \<notin> fst ` set kvs \<Longrightarrow> dget (dupdate d kvs) k = dget d k"
  by (induction kvs arbitrary: d) auto

lemma join_nothing: "join [] gs = concat gs"
  by (induction gs rule: induct_list012) auto

lemma split_joined: "list_all (\<lambda>g. CHR '','' \<notin> set g) gs \<Longrightarrow> split_char CHR '','' (join [] gs) = [concat gs]"
  by (simp add: join_nothing split_char_no_sep list_all_iff)

text \<open>The seven tags an instance is remembered by.\<close>

definition restore_pairs :: "ext \<Rightarrow> string list \<Rightarrow> pyval \<Rightarrow> pyval \<Rightarrow> pyval \<Rightarrow> pyval \<Rightarrow> pyval \<Rightarrow> pyval \<Rightarrow> pydict" where
  "restore_pairs E groups option_group parameter_group instance_class storage multi subnets =
     [(''VPCSecurityGroups'', PStr (join [] groups)), (''OptionGroupName'', option_group),
      (''ParameterGroupName'', parameter_group), (''InstanceClass'', instance_class),
      (''StorageType'', storage), (''MultiAZ'', PStr (py_str E multi)), (''DBSubnetGroupName'', subnets)]"

lemma restore_pairs_keys: "map fst (restore_pairs E gs a b c d m e) =
  [''VPCSecurityGroups'', ''OptionGroupName'', ''ParameterGroupName'', ''InstanceClass'', ''StorageType'', ''MultiAZ'', ''DBSubnetGroupName'']"
  by (simp add: restore_pairs_def)

lemma dget_restore_pairs:
  "dget (restore_pairs E gs a b c d m e) ''VPCSecurityGroups'' = Some (PStr (join [] gs))"
  "dget (restore_pairs E gs a b c d m e) ''OptionGroupName'' = Some a"
  "dget (restore_pairs E gs a b c d m e) ''ParameterGroupName'' = Some b"
  "dget (restore_pairs E gs a b c d m e) ''InstanceClass'' = Some c"
  "dget (restore_pairs E gs a b c d m e) ''StorageType'' = Some d"
  "dget (restore_pairs E gs a b c d m e) ''MultiAZ'' = Some (PStr (py_str E m))"
  "dget (restore_pairs E gs a b c d m e) ''DBSubnetGroupName'' = Some e"
  by (simp_all add: restore_pairs_def)

lemma restore_tags_pairs:
  assumes "restore_tags E r = Inr ts"
    "rbind (rbind (dindex r ''VpcSecurityGroups'') py_iter) (rmap (\<lambda>g. rbind (tag_field g ''VpcSecurityGroupId'') text_of)) = Inr gs"
  obtains a b c d m e where "ts = map (\<lambda>(k, v). mk_tag k v) (restore_pairs E gs a b c d m e)"
    "first_item ''OptionGroupMemberships'' ''OptionGroupName'' r = Inr a"
    "first_item ''DBParameterGroups'' ''DBParameterGroupName'' r = Inr b"
    "dindex r ''DBInstanceClass'' = Inr c" "dindex r ''StorageType'' = Inr d" "dindex r ''MultiAZ'' = Inr m"
    "rbind (dindex r ''DBSubnetGroup'') (\<lambda>g. tag_field g ''DBSubnetGroupName'') = Inr e"
  using assms(1) unfolding restore_tags_def assms(2) rbind_Inr
  by (elim rbind_eq_Inr[THEN iffD1, elim_format] exE conjE) (auto simp: restore_pairs_def)

lemma dupdate_pairs: "distinct (map fst kvs) \<Longrightarrow> dget (dupdate [] kvs) k = dget kvs k"
  using dget_dupdate[of kvs "[]"] by (simp add: dwf_def dkeys_def)

lemma restored_tags:
  assumes "dget s ''Tags'' = Some (PList (map (\<lambda>(k, v). mk_tag k v) (restore_pairs E gs a b c d m e @ others)))"
    "\<forall>(k, v) \<in> set others. k \<notin> set restore_keys" "k \<in> set restore_keys"
  shows "\<exists>tags. tags_dict s = Inr tags \<and> dget tags k = dget (restore_pairs E gs a b c d m e) k"
proof -
  have "tags_dict s = Inr (dupdate (dupdate [] (restore_pairs E gs a b c d m e)) others)"
    using assms(1) by (simp only: tags_dict_def dindex_def option.case rbind_Inr py_iter.simps rfold_tags)
      (simp add: dupdate_def)
  moreover have "k \<notin> fst ` set others" using assms(2,3) by auto
  ultimately show ?thesis
    by (simp add: dget_dupdate_other dupdate_pairs restore_pairs_keys)
qed

lemma one_group_iff: "PList [PStr (concat gs)] = PList (map PStr gs) \<longleftrightarrow> length gs = 1"
proof (cases gs)
  case (Cons g hs)
  then show ?thesis by (cases hs) simp_all
qed simp

text \<open>C12: An instance deleted with its settings in tags and restored from the snapshot gets its class, storage type,
  option group, parameter group, subnet group and whether it was in several zones back, whatever other tags the
  snapshot has; but it gets one security group, all the ids written together: its own groups exactly when it had one.\<close>

theorem restore_returns_settings:
  assumes "restore_tags E r = Inr ts"
    "rbind (rbind (dindex r ''VpcSecurityGroups'') py_iter) (rmap (\<lambda>g. rbind (tag_field g ''VpcSecurityGroupId'') text_of)) = Inr gs"
    "list_all (\<lambda>g. CHR '','' \<notin> set g) gs" "dget r ''MultiAZ'' = Some (PBool multi)"
    and "dget s ''Tags'' = Some (PList (ts @ map (\<lambda>(k, v). mk_tag k v) others))" "\<forall>(k, v) \<in> set others. k \<notin> set restore_keys"
    "dget s ''DBInstanceIdentifier'' = Some i" "dget s ''DBSnapshotIdentifier'' = Some n"
    "dget data ''restore_options'' = None" "dget data ''modify_options'' = None"
  shows "\<exists>params post. get_restore_from_tags data s = Inr (params, post) \<and>
    dget params ''DBInstanceClass'' = dget r ''DBInstanceClass'' \<and> dget params ''StorageType'' = dget r ''StorageType'' \<and>
    dget params ''MultiAZ'' = Some (PBool multi) \<and>
    map_option Inr (dget params ''OptionGroupName'') = Some (first_item ''OptionGroupMemberships'' ''OptionGroupName'' r) \<and>
    map_option Inr (dget post ''DBParameterGroupName'') = Some (first_item ''DBParameterGroups'' ''DBParameterGroupName'' r) \<and>
    map_option Inr (dget params ''DBSubnetGroupName'') =
      Some (rbind (dindex r ''DBSubnetGroup'') (\<lambda>g. tag_field g ''DBSubnetGroupName'')) \<and>
    dget post ''VpcSecurityGroupIds'' = Some (PList [PStr (concat gs)]) \<and>
    (dget post ''VpcSecurityGroupIds'' = Some (PList (map PStr gs)) \<longleftrightarrow> length gs = 1)"
proof -
  obtain a b c d m e where ts: "ts = map (\<lambda>(k, v). mk_tag k v) (restore_pairs E gs a b c d m e)"
    and was: "first_item ''OptionGroupMemberships'' ''OptionGroupName'' r = Inr a"
      "first_item ''DBParameterGroups'' ''DBParameterGroupName'' r = Inr b"
      "dindex r ''DBInstanceClass'' = Inr c" "dindex r ''StorageType'' = Inr d" "dindex r ''MultiAZ'' = Inr m"
      "rbind (dindex r ''DBSubnetGroup'') (\<lambda>g. tag_field g ''DBSubnetGroupName'') = Inr e"
    using restore_tags_pairs[OF assms(1,2)] .
  have tags_at: "dget s ''Tags'' = Some (PList (map (\<lambda>(k, v). mk_tag k v) (restore_pairs E gs a b c d m e @ others)))"
    using assms(5) by (simp only: ts map_append)
  obtain tags where tags: "tags_dict s = Inr tags"
    using restored_tags[OF tags_at assms(6), of "''MultiAZ''"] by (auto simp: restore_keys_def)
  have found: "dget tags k = dget (restore_pairs E gs a b c d m e) k" if "k \<in> set restore_keys" for k
    using restored_tags[OF tags_at assms(6) that] tags by simp
  have multi: "m = PBool multi" using was(5) assms(4) by (simp add: dindex_def)
  have in_tags: "dindex tags ''VPCSecurityGroups'' = Inr (PStr (join [] gs))" "dindex tags ''OptionGroupName'' = Inr a"
    "dindex tags ''ParameterGroupName'' = Inr b" "dindex tags ''InstanceClass'' = Inr c" "dindex tags ''StorageType'' = Inr d"
    "dindex tags ''MultiAZ'' = Inr (PStr (py_str E (PBool multi)))" "dindex tags ''DBSubnetGroupName'' = Inr e"
    by (simp_all add: dindex_def found restore_keys_def dget_restore_pairs multi)
  have own: "dindex s ''DBInstanceIdentifier'' = Inr i" "dindex s ''DBSnapshotIdentifier'' = Inr n"
    "options_of data ''restore_options'' = Inr []" "options_of data ''modify_options'' = Inr []"
    using assms(7-10) by (simp_all add: dindex_def options_of_def dget_or_def)
  have true: "is_text (PStr (py_str E (PBool multi))) ''True'' = multi" by (simp add: is_text_def py_str_def)
  have r: "dget r ''DBInstanceClass'' = Some c" "dget r ''StorageType'' = Some d"
    using was(3,4) by (auto simp: dindex_def split: option.splits)
  show ?thesis
    unfolding get_restore_from_tags_def tags in_tags own rbind_Inr sum.case pyval.case split_joined[OF assms(3)] true was(1,2,6)
    by (intro exI conjI) (rule refl, simp_all add: r one_group_iff del: One_nat_def pyval.inject)
qed

definition ex_remembered :: pydict where
  "ex_remembered = [(''DBInstanceIdentifier'', PStr ''db-1''),
     (''VpcSecurityGroups'', PList [PDict [(''VpcSecurityGroupId'', PStr ''sg-1'')], PDict [(''VpcSecurityGroupId'', PStr ''sg-2'')]]),
     (''OptionGroupMemberships'', PList [PDict [(''OptionGroupName'', PStr ''og'')]]),
     (''DBParameterGroups'', PList [PDict [(''DBParameterGroupName'', PStr ''pg'')]]),
     (''DBInstanceClass'', PStr ''db.t3''), (''StorageType'', PStr ''gp2''), (''MultiAZ'', PBool False),
     (''DBSubnetGroup'', PDict [(''DBSubnetGroupName'', PStr ''nets'')])]"

definition ex_remembered_tags :: "pyval list" where
  "ex_remembered_tags = [mk_tag ''VPCSecurityGroups'' (PStr ''sg-1sg-2''), mk_tag ''OptionGroupName'' (PStr ''og''),
     mk_tag ''ParameterGroupName'' (PStr ''pg''), mk_tag ''InstanceClass'' (PStr ''db.t3''), mk_tag ''StorageType'' (PStr ''gp2''),
     mk_tag ''MultiAZ'' (PStr ''False''), mk_tag ''DBSubnetGroupName'' (PStr ''nets'')]"

definition ex_final :: pydict where
  "ex_final = [(''DBInstanceIdentifier'', PStr ''db-1''), (''DBSnapshotIdentifier'', PStr ''final-1''),
     (''Tags'', PList (ex_remembered_tags @ map (\<lambda>(k, v). mk_tag k v) [(''env'', PStr ''dev'')]))]"

theorem restore_returns_settings_witness:
  "\<exists>params post. get_restore_from_tags [] ex_final = Inr (params, post) \<and>
     dget params ''DBInstanceClass'' = Some (PStr ''db.t3'') \<and>
     dget post ''VpcSecurityGroupIds'' = Some (PList [PStr ''sg-1sg-2''])"
proof -
  have tags: "restore_tags (ext0 0) ex_remembered = Inr ex_remembered_tags" by code_simp
  have groups: "rbind (rbind (dindex ex_remembered ''VpcSecurityGroups'') py_iter)
      (rmap (\<lambda>g. rbind (tag_field g ''VpcSecurityGroupId'') text_of)) = Inr [''sg-1'', ''sg-2'']" by code_simp
  have rest: "list_all (\<lambda>g. CHR '','' \<notin> set g) [''sg-1'', ''sg-2'']" "dget ex_remembered ''MultiAZ'' = Some (PBool False)"
    "dget ex_final ''Tags'' = Some (PList (ex_remembered_tags @ map (\<lambda>(k, v). mk_tag k v) [(''env'', PStr ''dev'')]))"
    "\<forall>(k, v) \<in> set [(''env'', PStr ''dev'')]. k \<notin> set restore_keys"
    "dget ex_final ''DBInstanceIdentifier'' = Some (PStr ''db-1'')" "dget ex_final ''DBSnapshotIdentifier'' = Some (PStr ''final-1'')"
    "dget ([] :: pydict) ''restore_options'' = None" "dget ([] :: pydict) ''modify_options'' = None"
    by (simp_all add: ex_remembered_def ex_final_def restore_keys_def)
  have db_class: "dget ex_remembered ''DBInstanceClass'' = Some (PStr ''db.t3'')" by (simp add: ex_remembered_def)
  from restore_returns_settings[OF tags groups rest] db_class show ?thesis by auto
qed

subsection \<open>Modifying what differs\<close>

text \<open>The entries whose value is not what the instance has.\<close>

definition differing :: "ext \<Rightarrow> pydict \<Rightarrow> (string \<times> pyval) list \<Rightarrow> (string \<times> pyval) list" where
  "differing E r us = filter (\<lambda>(p, v). case current_value E r p of Inl e \<Rightarrow> False | Inr c \<Rightarrow> \<not> py_eq c v) us"

lemma modify_params_differing:
  assumes "\<And>p v. (p, v) \<in> set us \<Longrightarrow> \<exists>c. current_value E r p = Inr c"
  shows "modify_params E us r = Inr (dupdate [] (differing E r us))"
proof -
  have "rfold (\<lambda>d (p, v). rbind (current_value E r p) (\<lambda>c. Inr (if py_eq c v then d else dput p v d))) d us =
      Inr (dupdate d (differing E r us))" for d
    using assms
  proof (induction us arbitrary: d)
    case (Cons u us)
    obtain p v c where u: "u = (p, v)" "current_value E r p = Inr c" using Cons.prems by (cases u) fastforce
    have "\<And>p v. (p, v) \<in> set us \<Longrightarrow> \<exists>c. current_value E r p = Inr c" using Cons.prems by auto
    from Cons.IH[OF this] show ?case by (simp add: u differing_def)
  qed (simp add: differing_def)
  then show ?thesis by (simp add: modify_params_def)
qed

text \<open>Modifying instances sends one request for each instance some entry of the update differs from, with exactly
  the differing entries, and none for one that has all the values already.\<close>

theorem modify_sends_differences:
  assumes "updates_of data = Inr us" "distinct (map fst us)"
    "\<And>r p v. r \<in> set rs \<Longrightarrow> (p, v) \<in> set us \<Longrightarrow> \<exists>c. current_value E r p = Inr c"
    "\<And>r. r \<in> set rs \<Longrightarrow> dget r ''DBInstanceIdentifier'' = Some (ident r)"
  shows "modify_process recorder E data rs w = (Inr (), w @
    concat (map (\<lambda>r. if differing E r us = [] then [] else [(''modify_db_instance'',
      dput ''DBInstanceIdentifier'' (ident r) (dput ''ApplyImmediately'' (dget_or data ''immediate'' (PBool False)) (differing E r us)))]) rs))"
proof -
  have plain: "dupdate [] kvs = kvs" if "distinct (map fst kvs)" for kvs :: pydict
  proof -
    have "dupdate d kvs = d @ kvs" if "distinct (map fst (d @ kvs))" for d
      using that
    proof (induction kvs arbitrary: d)
      case (Cons p kvs)
      obtain k v where p: "p = (k, v)" by (cases p)
      have "dput k v d = d @ [(k, v)]" using Cons.prems by (induction d) (auto simp: p)
      with Cons.IH[of "d @ [p]"] Cons.prems show ?case by (simp add: p)
    qed simp
    from this[of "[]"] that show ?thesis by simp
  qed
  have "distinct (map fst (differing E r us))" for r
    using assms(2) unfolding differing_def by (induction us) auto
  then have params: "rbind (updates_of data) (\<lambda>us. modify_params E us r) = Inr (differing E r us)" if "r \<in> set rs" for r
    using modify_params_differing[of us E r] assms(1,3) plain that by simp
  have "modify_one recorder E data r w = (Inr (), w @ (if differing E r us = [] then [] else [(''modify_db_instance'',
      dput ''DBInstanceIdentifier'' (ident r) (dput ''ApplyImmediately'' (dget_or data ''immediate'' (PBool False)) (differing E r us)))]))"
    if "r \<in> set rs" for r w
    using that assms(4)[OF that] by (simp add: modify_one_def params dindex_def)
  then show ?thesis unfolding modify_process_def by (rule each_records)
qed

definition ex_protect :: pydict where
  "ex_protect = [(''update'', PList [PDict [(''property'', PStr ''MultiAZ''), (''value'', PBool True)]])]"

theorem modify_sends_differences_witness:
  "modify_process recorder (ext0 0) ex_protect [ex_remembered, [(''DBInstanceIdentifier'', PStr ''db-2''), (''MultiAZ'', PBool True)]] [] =
    (Inr (), [(''modify_db_instance'', [(''MultiAZ'', PBool True), (''ApplyImmediately'', PBool False), (''DBInstanceIdentifier'', PStr ''db-1'')])])"
proof -
  let ?us = "[(''MultiAZ'', PBool True)]" and ?db2 = "[(''DBInstanceIdentifier'', PStr ''db-2''), (''MultiAZ'', PBool True)]"
  have us: "updates_of ex_protect = Inr ?us" "distinct (map fst ?us)"
    by (code_simp, simp)
  have now: "current_value (ext0 0) ex_remembered ''MultiAZ'' = Inr (PBool False)" "current_value (ext0 0) ?db2 ''MultiAZ'' = Inr (PBool True)"
    by code_simp+
  have ids: "dget ex_remembered ''DBInstanceIdentifier'' = Some (PStr ''db-1'')" by (simp add: ex_remembered_def)
  have "modify_process recorder (ext0 0) ex_protect [ex_remembered, ?db2] [] = (Inr (), [] @
    concat (map (\<lambda>r. if differing (ext0 0) r ?us = [] then [] else [(''modify_db_instance'',
      dput ''DBInstanceIdentifier'' (dget_or r ''DBInstanceIdentifier'' PNone)
        (dput ''ApplyImmediately'' (dget_or ex_protect ''immediate'' (PBool False)) (differing (ext0 0) r ?us)))]) [ex_remembered, ?db2]))"
    by (rule modify_sends_differences[OF us]) (auto simp: now ids dget_or_def)
  then show ?thesis
    by (simp add: differing_def now ids dget_or_def ex_protect_def num_eq_def num_of_def)
qed

end
