(* ===== verification/Rds_Snapshots.thy ===== *)
theory Rds_Snapshots
  imports Rds_Actions Filter_Calls
begin

text \<open>
  Snapshots of database instances (\<open>c7n/resources/rds.py\<close>): the latest of each instance, the
  accounts they are shared with and the action that takes shares back, copies to another
  region, and deletion; and the small resources beside them.
\<close>

section \<open>The latest snapshot\<close>

text \<open>\<open>itertools.groupby\<close>: runs of neighbours with the same key.\<close>

fun neighbours :: "(pyval \<times> 'a) list \<Rightarrow> 'a list list" where
  "neighbours [] = []"
| "neighbours [(k, x)] = [[x]]"
| "neighbours ((k, x) # (k2, y) # ps) =
     (if py_eq k k2 then (case neighbours ((k2, y) # ps) of [] \<Rightarrow> [[x]] | g # gs \<Rightarrow> (x # g) # gs)
      else [x] # neighbours ((k2, y) # ps))"

text \<open>\<open>sorted(snapshots, key=...)[-1]\<close>: of the latest ones the last.\<close>

definition later_snapshot :: "pydict \<Rightarrow> pydict \<Rightarrow> pydict res" where
  "later_snapshot a b =
     rbind (dindex a ''SnapshotCreateTime'') (\<lambda>s. rbind (dindex b ''SnapshotCreateTime'') (\<lambda>t.
     rbind (cmp_with (\<lambda>r. r = OLt) t s) (\<lambda>before. Inr (if before then a else b))))"

definition latest_of :: "pydict list \<Rightarrow> pydict res" where
  "latest_of ss = (case ss of
      [] \<Rightarrow> Inl IndexError
    | s # rest \<Rightarrow> rbind (dindex s ''SnapshotCreateTime'') (\<lambda>_. rfold later_snapshot s rest))"

definition latest_snapshots :: "pydict \<Rightarrow> pydict list \<Rightarrow> pydict list res" where
  "latest_snapshots data rs =
     rbind (if py_truth (dget_or data ''automatic'' (PBool True)) then Inr rs
            else rfilter (\<lambda>r. rbind (dindex r ''SnapshotType'') (\<lambda>t. Inr (is_text t ''manual''))) rs) (\<lambda>rs.
     rbind (rmap (\<lambda>r. rbind (dindex r ''DBInstanceIdentifier'') (\<lambda>k. Inr (k, r))) rs) (\<lambda>ps.
       rmap latest_of (neighbours ps)))"

section \<open>Shared snapshots\<close>

definition attributes_key :: string where
  "attributes_key = ''c7n:attributes''"

definition violations_key :: string where
  "violations_key = ''c7n:CrossAccountViolations''"

definition attributes_of :: "pyval \<Rightarrow> pydict res" where
  "attributes_of answer =
     rbind (rbind (tag_field answer ''DBSnapshotAttributesResult'') (\<lambda>x. rbind (tag_field x ''DBSnapshotAttributes'') py_iter))
       (rfold (\<lambda>d t. rbind (rbind (tag_field t ''AttributeName'') text_of) (\<lambda>k.
          rbind (tag_field t ''AttributeValues'') (\<lambda>v. Inr (dput k v d)))) [])"

definition fetch_attributes :: "'w service \<Rightarrow> pydict \<Rightarrow> ('w, pydict) eff" where
  "fetch_attributes call r =
     andthen (lift (dindex r ''DBSnapshotIdentifier'')) (\<lambda>i.
     andthen (fetch_answer call ''describe_db_snapshot_attributes'' [(''DBSnapshotIdentifier'', i)]) (\<lambda>answer.
     lift (attributes_of answer)))"

text \<open>
  \<open>CrossAccountAccess\<close> on one snapshot: what is noted on it, and whether it is shared with an
  account that is not allowed; \<open>order\<close> is the order a set is listed in.
\<close>

definition shared_beyond :: "pyval list \<Rightarrow> bool \<Rightarrow> (pyval list \<Rightarrow> pyval list) \<Rightarrow> pydict \<Rightarrow> pydict \<Rightarrow> pydict \<times> bool res" where
  "shared_beyond accounts everyone order attrs r =
     (let r1 = dput attributes_key (PDict attrs) r
      in case py_set (dget_or attrs ''restore'' (PList [])) of
           Inl e \<Rightarrow> (r1, Inl e)
         | Inr shared \<Rightarrow>
             let delta = filter (\<lambda>a. \<not> mem_eq a accounts) (if everyone then filter (\<lambda>a. is_text a ''all'') shared else shared)
             in if delta = [] then (r1, Inr False) else (dput violations_key (PList (order delta)) r1, Inr True))"

definition access_one ::
  "'w service \<Rightarrow> pyval list \<Rightarrow> bool \<Rightarrow> (pyval list \<Rightarrow> pyval list) \<Rightarrow> pydict \<Rightarrow> 'w \<Rightarrow> (pydict \<times> bool res) \<times> 'w" where
  "access_one call accounts everyone order r w = (case fetch_attributes call r w of
      (Inl e, w') \<Rightarrow> ((r, Inl e), w')
    | (Inr attrs, w') \<Rightarrow> (shared_beyond accounts everyone order attrs r, w'))"

fun access_set :: "(pydict \<Rightarrow> 'w \<Rightarrow> (pydict \<times> bool res) \<times> 'w) \<Rightarrow> store \<Rightarrow> ref list \<Rightarrow> 'w \<Rightarrow> (store \<times> ref list res) \<times> 'w" where
  "access_set f st [] w = ((st, Inr []), w)"
| "access_set f st (r # rs) w = (case f (st r) w of
      ((d, Inl e), w1) \<Rightarrow> ((st(r := d), Inl e), w1)
    | ((d, Inr b), w1) \<Rightarrow> (case access_set f (st(r := d)) rs w1 of
          ((st2, out), w2) \<Rightarrow> ((st2, rbind out (\<lambda>qs. Inr (if b then r # qs else qs))), w2)))"

fun access_sets :: "(pydict \<Rightarrow> 'w \<Rightarrow> (pydict \<times> bool res) \<times> 'w) \<Rightarrow> store \<Rightarrow> ref list list \<Rightarrow> 'w \<Rightarrow> (store \<times> ref list res list) \<times> 'w" where
  "access_sets f st [] w = ((st, []), w)"
| "access_sets f st (rs # rss) w = (case access_set f st rs w of
      ((st1, out), w1) \<Rightarrow> (case access_sets f st1 rss w1 of ((st2, outs), w2) \<Rightarrow> ((st2, out # outs), w2)))"

text \<open>Sets of twenty; a set with an exception gives nothing.\<close>

definition access_process ::
  "'w service \<Rightarrow> pyval list \<Rightarrow> pydict \<Rightarrow> (pyval list \<Rightarrow> pyval list) \<Rightarrow> (ref list res list \<Rightarrow> ref list res list) \<Rightarrow>
   store \<Rightarrow> ref list \<Rightarrow> 'w \<Rightarrow> (store \<times> ref list) res \<times> 'w" where
  "access_process call accounts data order done st rs w = (case chunks 20 rs of
      Inl e \<Rightarrow> (Inl e, w)
    | Inr sets \<Rightarrow>
        (case access_sets (access_one call accounts (py_truth (dget_or data ''everyone_only'' (PBool False))) order) st sets w of
           ((st', outs), w') \<Rightarrow> (Inr (st', concat (map (\<lambda>out. case out of Inl e \<Rightarrow> [] | Inr qs \<Rightarrow> qs) (done outs))), w')))"

text \<open>\<open>SetPermissions\<close>.\<close>

definition permissions_validate :: "bool \<Rightarrow> pydict \<Rightarrow> unit res" where
  "permissions_validate has_access data =
     (if is_text (dget_or data ''remove'' PNone) ''matched'' \<and> \<not> has_access then Inl PolicyValidationError else Inr ())"

definition share_request :: "'w service \<Rightarrow> pyval \<Rightarrow> pyval \<Rightarrow> pydict \<Rightarrow> ('w, pydict) eff" where
  "share_request call add remove r =
     andthen (unless (\<not> (py_truth add \<or> py_truth remove)) (andthen (lift (dindex r ''DBSnapshotIdentifier'')) (\<lambda>i.
       ask call ''modify_db_snapshot_attribute''
         [(''DBSnapshotIdentifier'', i), (''AttributeName'', PStr ''restore''), (''ValuesToRemove'', remove), (''ValuesToAdd'', add)]))) (\<lambda>_.
     lift (Inr r))"

definition set_permissions :: "'w service \<Rightarrow> pydict \<Rightarrow> pydict \<Rightarrow> ('w, pydict) eff" where
  "set_permissions call data r =
     (let add = dget_or data ''add'' (PList []); remove = dget_or data ''remove'' (PList [])
      in if \<not> (py_truth add \<or> py_truth remove) then
           andthen (if dhas r attributes_key then lift (Inr r)
                    else andthen (fetch_attributes call r) (\<lambda>attrs. lift (Inr (dput attributes_key (PDict attrs) r)))) (\<lambda>r.
           andthen (lift (rbind (dindex r attributes_key) dict_of)) (\<lambda>attrs.
           share_request call add (dget_or attrs ''restore'' (PList [])) r))
         else if is_text remove ''matched'' then share_request call add (dget_or r violations_key (PList [])) r
         else share_request call add remove r)"

definition permissions_process :: "'w service \<Rightarrow> pydict \<Rightarrow> pydict list \<Rightarrow> ('w, pydict list) eff" where
  "permissions_process call data rs = each_value (set_permissions call data) rs"

section \<open>Copies in another region\<close>

definition copy_validate :: "bool \<Rightarrow> pydict \<Rightarrow> unit res" where
  "copy_validate has_mode data =
     (if py_truth (dget_or data ''target_region'' PNone) \<and> has_mode then Inl PolicyValidationError else Inr ())"

text \<open>The tags a copy gets: with tags of its own, the snapshot's are added to them.\<close>

definition copy_tags :: "pydict \<Rightarrow> pyval list \<Rightarrow> pydict \<Rightarrow> pyval option res" where
  "copy_tags data tags r =
     (if tags = [] then Inr None
      else if py_truth (dget_or data ''copy_tags'' (PBool True))
        then rbind (rbind (dindex r ''Tags'') py_iter) (\<lambda>own. Inr (Some (PList (tags @ own))))
      else Inr (Some (PList tags)))"

definition copy_params :: "string \<Rightarrow> pydict \<Rightarrow> pyval option \<Rightarrow> pydict \<Rightarrow> pydict res" where
  "copy_params region data rtags r =
     rbind (rbind (dindex r ''DBSnapshotIdentifier'') (\<lambda>i. case i of PStr s \<Rightarrow> Inr (replace_str s '':'' ''-'') | _ \<Rightarrow> Inl AttributeError)) (\<lambda>target.
     rbind (dindex r ''DBSnapshotArn'') (\<lambda>arn.
     let key = dget_or data ''target_key'' PNone
     in Inr ((if py_truth key then [(''KmsKeyId'', key)] else []) @
          [(''TargetDBSnapshotIdentifier'', PStr target), (''SourceRegion'', PStr region), (''SourceDBSnapshotIdentifier'', arn)] @
          (if py_truth (dget_or data ''copy_tags'' (PBool True)) then [(''CopyTags'', PBool True)] else []) @
          (case rtags of None \<Rightarrow> [] | Some t \<Rightarrow> [(''Tags'', t)]))))"

text \<open>A copy that exists is logged with the snapshot's id; otherwise its arn is noted on the snapshot.\<close>

definition copy_one :: "'w service \<Rightarrow> string \<Rightarrow> pydict \<Rightarrow> pyval list \<Rightarrow> pydict \<Rightarrow> ('w, pydict) eff" where
  "copy_one call region data tags r =
     andthen (lift (copy_tags data tags r)) (\<lambda>rtags.
     andthen (lift (copy_params region data rtags r)) (\<lambda>p.
     (\<lambda>w. case call (''copy_db_snapshot'', p) w of
        (Returned v, w') \<Rightarrow> (rbind (rbind (tag_field v ''DBSnapshot'') (\<lambda>s. tag_field s ''DBSnapshotArn''))
           (\<lambda>arn. Inr (dput ''c7n:CopiedSnapshot'' arn r)), w')
      | (ClientErr c, w') \<Rightarrow> (if c = ''DBSnapshotAlreadyExists'' then Inr r else Inl ClientError, w')
      | (OtherErr e, w') \<Rightarrow> (Inl e, w'))))"

definition copy_sets :: "'w service \<Rightarrow> string \<Rightarrow> pydict \<Rightarrow> pyval list \<Rightarrow> pydict list \<Rightarrow> ('w, pydict list) eff" where
  "copy_sets call region data tags rs =
     andthen (lift (chunks 5 rs)) (\<lambda>sets.
     andthen (each_value (each_value (copy_one call region data tags)) sets) (\<lambda>rss. lift (Inr (concat rss))))"

definition region_copy :: "'w service \<Rightarrow> string \<Rightarrow> pydict \<Rightarrow> pydict list \<Rightarrow> ('w, pydict list) eff" where
  "region_copy call region data rs =
     andthen (lift (dindex data ''target_region'')) (\<lambda>target.
     if is_text target region then lift (Inr rs)
     else andthen (lift (chunks 20 rs)) (\<lambda>sets.
       andthen (lift (options_of data ''tags'')) (\<lambda>tags.
       andthen (each_value (copy_sets call region data (map (\<lambda>(k, v). mk_tag k v) tags)) sets) (\<lambda>rss.
       lift (Inr (concat rss))))))"

section \<open>Deletion\<close>

text \<open>Only manual snapshots are deleted, from the last in sets of fifty; a set ends at its first exception.\<close>

definition snapshot_delete :: "'w service \<Rightarrow> ext \<Rightarrow> pydict list \<Rightarrow> ('w, pydict list) eff" where
  "snapshot_delete call E rs =
     andthen (lift (element_filter E ''SnapshotType'' [PStr ''manual''] rs)) (\<lambda>snapshots.
     if snapshots = [] then lift (Inr [])
     else andthen (lift (chunks 50 (rev snapshots))) (\<lambda>sets.
       andthen (each_logged (each (\<lambda>s. andthen (lift (dindex s ''DBSnapshotIdentifier'')) (\<lambda>i.
         ask call ''delete_db_snapshot'' [(''DBSnapshotIdentifier'', i)]))) sets) (\<lambda>_.
       lift (Inr snapshots))))"

definition subscription_delete :: "'w service \<Rightarrow> pydict list \<Rightarrow> ('w, unit) eff" where
  "subscription_delete call rs = each (\<lambda>r. andthen (lift (dindex r ''CustSubscriptionId'')) (\<lambda>i.
     ask_ignoring [''SubscriptionNotFoundFault'', ''InvalidEventSubscriptionStateFault''] call ''delete_event_subscription''
       [(''SubscriptionName'', i)])) rs"

definition proxy_delete :: "'w service \<Rightarrow> pydict list \<Rightarrow> ('w, unit) eff" where
  "proxy_delete call rs = each (\<lambda>r. andthen (lift (dindex r ''DBProxyName'')) (\<lambda>i.
     ask_ignoring [''DBProxyNotFoundFault'', ''InvalidDBProxyStateFault''] call ''delete_db_proxy'' [(''DBProxyName'', i)])) rs"

definition subnet_group_delete :: "'w service \<Rightarrow> pydict list \<Rightarrow> ('w, unit) eff" where
  "subnet_group_delete call rs = each (\<lambda>r. andthen (lift (dindex r ''DBSubnetGroupName'')) (\<lambda>i.
     ask call ''delete_db_subnet_group'' [(''DBSubnetGroupName'', i)])) rs"

text \<open>\<open>UnusedRDSSubnetGroup\<close>: the groups no instance and no cluster is in.\<close>

definition unused_subnet_groups :: "ext \<Rightarrow> pydict list \<Rightarrow> pydict list \<Rightarrow> pydict list \<Rightarrow> pydict list res" where
  "unused_subnet_groups E instances clusters rs =
     (let names = (\<lambda>ds. rbind (ext_jmes E ''[].DBSubnetGroup.DBSubnetGroupName'' (PList (map PDict ds))) py_set)
      in rbind (names instances) (\<lambda>used. rbind (names clusters) (\<lambda>more_used.
         rfilter (\<lambda>r. rbind (dindex r ''DBSubnetGroupName'') (\<lambda>n. Inr (\<not> mem_eq n (used @ more_used)))) rs)))"

section \<open>Where instances and snapshots come from\<close>

text \<open>\<open>s['Tags'] = s.pop('TagList', ())\<close>.\<close>

definition take_tags :: "pydict \<Rightarrow> pydict" where
  "take_tags d = dput ''Tags'' (dget_or d ''TagList'' (PTuple [])) (ddel ''TagList'' d)"

text \<open>\<open>ConfigRDS\<close>: every key that begins with Db is also there with DB.\<close>

definition config_names :: "pydict \<Rightarrow> pydict" where
  "config_names d = fold (\<lambda>k d. if starts_with k ''Db'' then dput (''DB'' @ drop 2 k) (dget_or d k PNone) d else d) (dkeys d) d"

definition finding_fields :: "string list" where
  "finding_fields =
     [''AssociatedRoles'', ''CACertificateIdentifier'', ''DBClusterIdentifier'', ''DBInstanceIdentifier'', ''DBInstanceClass'',
      ''DbInstancePort'', ''DbiResourceId'', ''DBName'', ''DeletionProtection'', ''Endpoint'', ''Engine'', ''EngineVersion'',
      ''IAMDatabaseAuthenticationEnabled'', ''InstanceCreateTime'', ''KmsKeyId'', ''PubliclyAccessible'', ''StorageEncrypted'',
      ''TdeCredentialArn'', ''VpcSecurityGroups'', ''MultiAz'', ''EnhancedMonitoringResourceArn'', ''DbInstanceStatus'',
      ''MasterUsername'', ''AllocatedStorage'', ''PreferredBackupWindow'', ''BackupRetentionPeriod'', ''DbSecurityGroups'',
      ''DbParameterGroups'', ''AvailabilityZone'', ''DbSubnetGroup'', ''PreferredMaintenanceWindow'', ''PendingModifiedValues'',
      ''LatestRestorableTime'', ''AutoMinorVersionUpgrade'', ''ReadReplicaSourceDBInstanceIdentifier'',
      ''ReadReplicaDBInstanceIdentifiers'', ''ReadReplicaDBClusterIdentifiers'', ''LicenseModel'', ''Iops'',
      ''OptionGroupMemberships'', ''CharacterSetName'', ''SecondaryAvailabilityZone'', ''StatusInfos'', ''StorageType'',
      ''DomainMemberships'', ''CopyTagsToSnapshot'', ''MonitoringInterval'', ''MonitoringRoleArn'', ''PromotionTier'', ''Timezone'',
      ''PerformanceInsightsEnabled'', ''PerformanceInsightsKmsKeyId'', ''PerformanceInsightsRetentionPeriod'',
      ''EnabledCloudWatchLogsExports'', ''ProcessorFeatures'', ''ListenerEndpoint'', ''MaxAllocatedStorage'']"

text \<open>\<open>DbInstanceFinding.format_resource\<close>, with \<open>isoformat\<close> given.\<close>

definition finding_details :: "(int \<Rightarrow> string) \<Rightarrow> pydict \<Rightarrow> pydict" where
  "finding_details isoformat r = concat (map (\<lambda>f. let v = dget_or r f PNone
     in if py_truth v then [(f, case v of PDate t \<Rightarrow> PStr (isoformat t) | _ \<Rightarrow> v)] else []) finding_fields)"

definition finding_resource :: "(int \<Rightarrow> string) \<Rightarrow> string \<Rightarrow> pydict \<Rightarrow> pydict res" where
  "finding_resource isoformat region r =
     rbind (dindex r ''DBInstanceArn'') (\<lambda>arn.
     rbind (tags_dict [(''Tags'', dget_or r ''Tags'' (PList []))]) (\<lambda>tags.
       Inr (filter_empty
         [(''Type'', PStr ''AwsRdsDbInstance''), (''Id'', arn), (''Region'', PStr region), (''Tags'', PDict tags),
          (''Details'', PDict [(''AwsRdsDbInstance'', PDict (filter_empty (finding_details isoformat r)))])])))"

section \<open>Facts\<close>

text \<open>Snapshots of one instance that are not neighbours give more than one latest snapshot.\<close>

lemma not_neighbours:
  "a \<noteq> b \<Longrightarrow> latest_snapshots []
     [[(''DBInstanceIdentifier'', PStr a), (''SnapshotCreateTime'', PDate s)],
      [(''DBInstanceIdentifier'', PStr b), (''SnapshotCreateTime'', PDate t)],
      [(''DBInstanceIdentifier'', PStr a), (''SnapshotCreateTime'', PDate u)]] =
   Inr [[(''DBInstanceIdentifier'', PStr a), (''SnapshotCreateTime'', PDate s)],
      [(''DBInstanceIdentifier'', PStr b), (''SnapshotCreateTime'', PDate t)],
      [(''DBInstanceIdentifier'', PStr a), (''SnapshotCreateTime'', PDate u)]]"
  by (simp add: latest_snapshots_def dget_or_def dindex_def latest_of_def)

lemma dedup_texts: "\<exists>us. dedup (map PStr ss) = map PStr us \<and> set us = set ss"
proof (induction ss)
  case (Cons s ss)
  then obtain us where us: "dedup (map PStr ss) = map PStr us" "set us = set ss" by blast
  have "filter (\<lambda>y. \<not> py_eq (PStr s) y) (map PStr us) = map PStr (filter (\<lambda>u. u \<noteq> s) us)"
    by (induction us) auto
  then have "dedup (map PStr (s # ss)) = map PStr (s # filter (\<lambda>u. u \<noteq> s) us)" by (simp add: us(1))
  moreover have "set (s # filter (\<lambda>u. u \<noteq> s) us) = set (s # ss)" using us(2) by auto
  ultimately show ?case by blast
qed simp

text \<open>C30: The filter for shared snapshots followed by the action that takes matched shares back: a snapshot is kept
  exactly when it is shared with an account that is not allowed, and then the one request of the action takes back
  its shares with all those accounts and with no allowed one.\<close>

theorem matched_shares_removed:
  assumes "dget attrs ''restore'' = Some (PList (map PStr shared))" "\<And>xs. set (order xs) = set xs"
    "dget r ''DBSnapshotIdentifier'' = Some i" "shared_beyond (map PStr allowed) False order attrs r = (r1, kept)"
  shows "kept = Inr (\<not> set shared \<subseteq> set allowed) \<and>
    (\<not> set shared \<subseteq> set allowed \<longrightarrow> (\<exists>removed r2. set removed = PStr ` (set shared - set allowed) \<and>
      set_permissions recorder [(''remove'', PStr ''matched'')] r1 w =
        (Inr r2, w @ [(''modify_db_snapshot_attribute'', [(''DBSnapshotIdentifier'', i), (''AttributeName'', PStr ''restore''),
          (''ValuesToRemove'', PList removed), (''ValuesToAdd'', PList [])])])))"
proof -
  obtain us where us: "dedup (map PStr shared) = map PStr us" "set us = set shared" using dedup_texts by blast
  define beyond where "beyond = filter (\<lambda>u. u \<notin> set allowed) us"
  have set: "py_set (dget_or attrs ''restore'' (PList [])) = Inr (map PStr us)"
    using assms(1) us(1) by (simp add: py_set_def dget_or_def list_all_iff)
  have delta: "filter (\<lambda>a. \<not> mem_eq a (map PStr allowed)) (map PStr us) = map PStr beyond"
    unfolding beyond_def by (induction us) (auto simp: mem_eq_PStr)
  have run: "(r1, kept) = (if beyond = [] then (dput attributes_key (PDict attrs) r, Inr False)
      else (dput violations_key (PList (order (map PStr beyond))) (dput attributes_key (PDict attrs) r), Inr True))"
    using assms(4) by (simp add: shared_beyond_def set delta Let_def split: if_splits)
  have beyond: "set beyond = set shared - set allowed" using us(2) by (auto simp: beyond_def)
  have kept: "kept = Inr (beyond \<noteq> [])" using run by (auto split: if_splits)
  have none: "beyond = [] \<longleftrightarrow> set shared \<subseteq> set allowed" using beyond by (metis Diff_eq_empty_iff set_empty)
  have "\<exists>removed r2. set removed = PStr ` (set shared - set allowed) \<and>
      set_permissions recorder [(''remove'', PStr ''matched'')] r1 w =
        (Inr r2, w @ [(''modify_db_snapshot_attribute'', [(''DBSnapshotIdentifier'', i), (''AttributeName'', PStr ''restore''),
          (''ValuesToRemove'', PList removed), (''ValuesToAdd'', PList [])])])" if "beyond \<noteq> []"
  proof -
    have r1: "r1 = dput violations_key (PList (order (map PStr beyond))) (dput attributes_key (PDict attrs) r)"
      using run that by simp
    have id: "dindex r1 ''DBSnapshotIdentifier'' = Inr i"
      using assms(3) by (simp add: r1 dindex_def violations_key_def attributes_key_def)
    have found: "dget_or r1 violations_key (PList []) = PList (order (map PStr beyond))" by (simp add: r1 dget_or_def)
    have members: "set (order (map PStr beyond)) = PStr ` (set shared - set allowed)" using assms(2) beyond by simp
    then have "order (map PStr beyond) \<noteq> []" using that by (metis set_empty set_map image_is_empty beyond)
    then have "set_permissions recorder [(''remove'', PStr ''matched'')] r1 w =
        (Inr r1, w @ [(''modify_db_snapshot_attribute'', [(''DBSnapshotIdentifier'', i), (''AttributeName'', PStr ''restore''),
          (''ValuesToRemove'', PList (order (map PStr beyond))), (''ValuesToAdd'', PList [])])])"
      by (simp add: set_permissions_def dget_or_def[of "[(''remove'', PStr ''matched'')]"] is_text_def found share_request_def id andthen_def lift_def ask_def
          ask_ignoring_def recorder_def)
    with members show ?thesis by blast
  qed
  with kept none show ?thesis by blast
qed

definition ex_shared_snapshot :: pydict where
  "ex_shared_snapshot = [(''DBSnapshotIdentifier'', PStr ''snap-1'')]"

definition ex_shares :: pydict where
  "ex_shares = [(''restore'', PList (map PStr [''111'', ''222'']))]"

theorem matched_shares_removed_witness:
  "\<exists>r1. shared_beyond (map PStr [''111'']) False rev ex_shares ex_shared_snapshot = (r1, Inr True) \<and>
    (\<exists>removed r2. set removed = {PStr ''222''} \<and>
      set_permissions recorder [(''remove'', PStr ''matched'')] r1 [] =
        (Inr r2, [(''modify_db_snapshot_attribute'', [(''DBSnapshotIdentifier'', PStr ''snap-1''), (''AttributeName'', PStr ''restore''),
          (''ValuesToRemove'', PList removed), (''ValuesToAdd'', PList [])])]))"
proof -
  obtain r1 kept where run: "shared_beyond (map PStr [''111'']) False rev ex_shares ex_shared_snapshot = (r1, kept)" by fastforce
  have facts: "dget ex_shares ''restore'' = Some (PList (map PStr [''111'', ''222'']))"
    "dget ex_shared_snapshot ''DBSnapshotIdentifier'' = Some (PStr ''snap-1'')"
    by (simp_all add: ex_shares_def ex_shared_snapshot_def)
  have beyond: "\<not> set [''111'', ''222''] \<subseteq> set [''111'']" "PStr ` (set [''111'', ''222''] - set [''111'']) = {PStr ''222''}" by auto
  from matched_shares_removed[OF facts(1) _ facts(2) run, of "[]"] beyond have "kept = Inr True \<and>
    (\<exists>removed r2. set removed = {PStr ''222''} \<and>
      set_permissions recorder [(''remove'', PStr ''matched'')] r1 [] =
        (Inr r2, [(''modify_db_snapshot_attribute'', [(''DBSnapshotIdentifier'', PStr ''snap-1''), (''AttributeName'', PStr ''restore''),
          (''ValuesToRemove'', PList removed), (''ValuesToAdd'', PList [])])]))"
    by (simp only: set_rev beyond append_Nil simp_thms)
  with run show ?thesis by blast
qed

end
