(* ===== verification/Asg.thy ===== *)
theory Asg
  imports Service Related Tags
begin

text \<open>
  Auto scaling groups and their filters (\<open>c7n/resources/asg.py\<close>): the launch configuration or
  template a group launches with, whether what it names exists, encryption, images, networks,
  propagated tags, capacity and scaling policies.
\<close>

section \<open>What a group launches with\<close>

text \<open>The id of a launch configuration, or of a template with a version.\<close>

datatype launch_id = LConfig pyval | LTemplate pyval pyval

record launch_info =
  li_configs :: "(pyval, pydict) odict"
  li_templates :: "(pyval \<times> pyval, pydict) odict"

definition strip_text :: "pyval \<Rightarrow> string res" where
  "strip_text v = (case v of PStr s \<Rightarrow> Inr (strip s) | _ \<Rightarrow> Inl AttributeError)"

definition template_spec :: "pyval \<Rightarrow> launch_id res" where
  "template_spec v =
     rbind (tag_field v ''LaunchTemplateId'') (\<lambda>i. rbind (field_get v ''Version'' (PStr ''$Default'')) (\<lambda>n. Inr (LTemplate i n)))"

definition get_launch_id :: "pydict \<Rightarrow> launch_id res" where
  "get_launch_id a =
     (let config = dget_or a ''LaunchConfigurationName'' PNone; template = dget_or a ''LaunchTemplate'' PNone
      in if config \<noteq> PNone then rbind (strip_text config) (\<lambda>s. Inr (LConfig (PStr s)))
         else if template \<noteq> PNone then template_spec template
         else case dget a ''MixedInstancesPolicy'' of
             Some p \<Rightarrow> rbind (rbind (tag_field p ''LaunchTemplate'') (\<lambda>t. tag_field t ''LaunchTemplateSpecification'')) template_spec
           | None \<Rightarrow> rbind (dindex a ''AutoScalingGroupName'') (\<lambda>n. Inr (LConfig n)))"

definition launch_get :: "launch_info \<Rightarrow> pydict \<Rightarrow> pydict option res" where
  "launch_get info a = rbind (get_launch_id a) (\<lambda>i. case i of
      LConfig n \<Rightarrow> if hashable n then Inr (dget (li_configs info) n) else Inl TypeError
    | LTemplate t v \<Rightarrow> if hashable t \<and> hashable v then Inr (dget (li_templates info) (t, v)) else Inl TypeError)"

text \<open>The configurations named by some groups, few by their names; names are taken as they are written.\<close>

definition config_names_of :: "pydict list \<Rightarrow> pyval list res" where
  "config_names_of asgs =
     rbind (rmap (\<lambda>n. if hashable n then Inr n else Inl TypeError)
              (concat (map (\<lambda>a. case dget a ''LaunchConfigurationName'' of None \<Rightarrow> [] | Some n \<Rightarrow> [n]) asgs)))
       (\<lambda>ns. Inr (dedup ns))"

definition get_launch_configs ::
  "(pyval list \<Rightarrow> pydict list res) \<Rightarrow> pydict list res \<Rightarrow> pydict list \<Rightarrow> (pyval, pydict) odict res" where
  "get_launch_configs by_ids every asgs =
     rbind (config_names_of asgs) (\<lambda>names.
     if names = [] then Inr []
     else rbind (if length names < 5 then by_ids names else every) (\<lambda>cfgs.
       rfold (\<lambda>m c. rbind (dindex c ''LaunchConfigurationName'') (\<lambda>n.
         if \<not> hashable n then Inl TypeError else Inr (if mem_eq n names then dput n c m else m))) [] cfgs))"

definition get_launch_templates ::
  "ext \<Rightarrow> pyval list \<Rightarrow> (pyval list \<Rightarrow> pydict list res) \<Rightarrow> (pyval \<times> pyval, pydict) odict res" where
  "get_launch_templates E ids by_ids =
     (if ids = [] then Inr []
      else rbind (by_ids ids) (rfold (\<lambda>m t.
        rbind (dindex t ''LaunchTemplateId'') (\<lambda>i. rbind (dindex t ''VersionNumber'') (\<lambda>n.
        rbind (rbind (dindex t ''LaunchTemplateData'') (\<lambda>d. case d of PDict d \<Rightarrow> Inr d | _ \<Rightarrow> Inl TypeError)) (\<lambda>d.
          Inr (dput (i, PStr (py_str E (dget_or t ''c7n:VersionAlias'' n))) d m))))) []))"

text \<open>\<open>items\<close>: the configurations and then the templates.\<close>

definition launch_items :: "launch_info \<Rightarrow> (launch_id \<times> pydict) list" where
  "launch_items info = map (\<lambda>(n, c). (LConfig n, c)) (li_configs info) @ map (\<lambda>((i, v), c). (LTemplate i v, c)) (li_templates info)"

definition get_image_ids :: "launch_info \<Rightarrow> pyval list" where
  "get_image_ids info = dedup (filter py_truth (map (\<lambda>(i, c). dget_or c ''ImageId'' PNone) (launch_items info)))"

definition get_image_map :: "(pyval list \<Rightarrow> pydict list res) \<Rightarrow> launch_info \<Rightarrow> (pyval, pydict) odict res" where
  "get_image_map describe info =
     rbind (describe (get_image_ids info)) (rfold (\<lambda>m i. rbind (dindex i ''ImageId'') (\<lambda>n. Inr (dput n i m))) [])"

definition launch_group_ids :: "launch_info \<Rightarrow> pyval list res" where
  "launch_group_ids info =
     rbind (rmap (\<lambda>(i, c). rbind (py_iter (dget_or c ''SecurityGroupIds'' (PTuple []))) (\<lambda>a.
       rbind (py_iter (dget_or c ''SecurityGroups'' (PTuple []))) (\<lambda>b. Inr (a @ b)))) (launch_items info)) (\<lambda>gss.
     if list_all hashable (concat gss) then Inr (dedup (concat gss)) else Inl TypeError)"

section \<open>Filters by groups and subnets\<close>

text \<open>
  \<open>process_resource\<close> of a filter by related resources with some ids; \<open>related_with_own\<close> below
  says that with the ids of the resource it is that of \<open>Related\<close>.
\<close>

definition related_with ::
  "ext \<Rightarrow> matcher \<Rightarrow> related_conf \<Rightarrow> related \<Rightarrow> pyval list \<Rightarrow> pydict \<Rightarrow> vstate \<Rightarrow> pydict \<Rightarrow> (pydict \<times> vstate \<times> pydict \<times> bool) res" where
  "related_with E match c related ids data0 s r =
     rbind (own_value E data0 r) (\<lambda>data.
     if is_resource_count data
     then rbind (count_check E data (length ids)) (\<lambda>b.
          rbind (if b then add_annotations (rc_annotation c) ids r else Inr r) (\<lambda>r'. Inr (data, s, r', b)))
     else rbind (matching_ids match data related (rc_id c) r ids s) (\<lambda>(s', found).
          rbind (if found \<noteq> [] then add_annotations (rc_annotation c) found r else Inr r) (\<lambda>r'.
          let op = dget_or data ''operator'' (PStr ''or'')
          in Inr (data, s', r',
               py_eq op (PStr ''or'') \<and> found \<noteq> [] \<or> py_eq op (PStr ''and'') \<and> length found = length ids))))"

text \<open>The security groups of a group of instances are those of every launch configuration the filter looked up.\<close>

definition asg_security_groups ::
  "ext \<Rightarrow> related_conf \<Rightarrow> (pyval list \<Rightarrow> related res) \<Rightarrow> launch_info \<Rightarrow> pydict \<Rightarrow> vstate \<Rightarrow> store \<Rightarrow> ref list \<Rightarrow>
   (pydict \<times> vstate \<times> store \<times> ref list) res" where
  "asg_security_groups E c fetch info data s st rs =
     rbind (launch_group_ids info) (\<lambda>ids. rbind (fetch ids) (\<lambda>related.
     related_filter (related_with E (value_matcher E) c related ids) data s st rs))"

definition asg_subnet_ids :: "pydict list \<Rightarrow> pyval list res" where
  "asg_subnet_ids asgs =
     rbind (rmap (\<lambda>a. case dget_or a ''VPCZoneIdentifier'' (PStr []) of
         PStr s \<Rightarrow> Inr (map (\<lambda>i. PStr (strip i)) (split_char CHR '','' s))
       | _ \<Rightarrow> Inl AttributeError) asgs) (\<lambda>iss. Inr (dedup (concat iss)))"

section \<open>Groups that can launch\<close>

text \<open>What there is: sets of ids and names.\<close>

record there_is =
  ti_subnets :: "string list"
  ti_zones :: "pyval list"
  ti_groups :: "string list"
  ti_keys :: "string list"
  ti_elbs :: "string list"
  ti_targets :: "string list"
  ti_images :: "string list"
  ti_image_snaps :: "string list"
  ti_snaps :: "string list"

text \<open>The snapshots of the devices of a configuration or an image.\<close>

definition ebs_snapshot :: "pyval \<Rightarrow> pyval option res" where
  "ebs_snapshot bd = rbind (py_in (PStr ''Ebs'') bd) (\<lambda>b.
     if \<not> b then Inr None
     else rbind (tag_field bd ''Ebs'') (\<lambda>ebs. rbind (py_in (PStr ''SnapshotId'') ebs) (\<lambda>b.
       if b then rbind (tag_field ebs ''SnapshotId'') (\<lambda>v. Inr (Some v)) else Inr None)))"

definition device_snapshots :: "pydict \<Rightarrow> pyval list res" where
  "device_snapshots c =
     rbind (py_iter (dget_or c ''BlockDeviceMappings'' (PTuple []))) (\<lambda>bds.
     rbind (rmap ebs_snapshot bds) (\<lambda>vs. Inr (concat (map (\<lambda>v. case v of None \<Rightarrow> [] | Some x \<Rightarrow> [x]) vs))))"

definition all_snapshots :: "pydict list \<Rightarrow> string list res" where
  "all_snapshots cs = rbind (rmap (\<lambda>c. rbind (device_snapshots c) (rmap strip_text)) cs) (\<lambda>sss. Inr (remdups (concat sss)))"

type_synonym asg_error = "string \<times> pyval"

definition unknown :: "string \<Rightarrow> string list \<Rightarrow> pyval list \<Rightarrow> asg_error list res" where
  "unknown label known xs =
     rbind (rmap (\<lambda>x. rbind (strip_text x) (\<lambda>s. Inr (if s \<in> set known then [] else [(label, PStr s)]))) xs) (\<lambda>ess. Inr (concat ess))"

definition unknown_field :: "string \<Rightarrow> string list \<Rightarrow> pydict \<Rightarrow> string \<Rightarrow> asg_error list res" where
  "unknown_field label known c key =
     (let v = dget_or c key PNone
      in if \<not> py_truth v then Inr []
         else rbind (strip_text v) (\<lambda>s. Inr (if s \<in> set known then [] else [(label, v)])))"

definition subnet_errors :: "there_is \<Rightarrow> pydict option \<Rightarrow> pydict \<Rightarrow> asg_error list res" where
  "subnet_errors T cfg a = (case dget_or a ''VPCZoneIdentifier'' (PStr []) of
      PStr s \<Rightarrow>
        let subnets = split_char CHR '','' s
        in if hd subnets \<noteq> [] then unknown ''invalid-subnet'' (ti_subnets T) (map PStr subnets)
           else (case cfg of
               None \<Rightarrow> Inl TypeError
             | Some c \<Rightarrow>
                 if dhas c ''NetworkInterfaces'' then Inr []
                 else rbind (py_iter (dget_or a ''AvailabilityZones'' (PList []))) (\<lambda>zones.
                   Inr (map (\<lambda>z. (''invalid-availability-zone'', z)) (filter (\<lambda>z. \<not> mem_eq z (ti_zones T)) zones))))
    | _ \<Rightarrow> Inl AttributeError)"

definition config_errors :: "there_is \<Rightarrow> pydict \<Rightarrow> asg_error list res" where
  "config_errors T c =
     rbind (py_iter (dget_or c ''SecurityGroups'' (PTuple []))) (\<lambda>a.
     rbind (py_iter (dget_or c ''SecurityGroupIds'' (PTuple []))) (\<lambda>b.
     rbind (unknown ''invalid-security-group'' (ti_groups T) (a @ b)) (\<lambda>groups.
     rbind (unknown_field ''invalid-key-pair'' (ti_keys T) c ''KeyName'') (\<lambda>keys.
     rbind (unknown_field ''invalid-image'' (ti_images T) c ''ImageId'') (\<lambda>images.
     rbind (device_snapshots c) (\<lambda>snaps.
     rbind (rmap (\<lambda>v. rbind (strip_text v) (\<lambda>s.
       Inr (if s \<in> set (ti_image_snaps T) \<or> s \<in> set (ti_snaps T) then [] else [(''invalid-snapshot'', v)]))) snaps) (\<lambda>ess.
       Inr (groups @ keys @ images @ concat ess))))))))"

definition error_values :: "asg_error list \<Rightarrow> pyval" where
  "error_values es = PList (map (\<lambda>(k, v). PTuple [PStr k, v]) es)"

definition launch_value :: "launch_id \<Rightarrow> pyval" where
  "launch_value i = (case i of LConfig n \<Rightarrow> n | LTemplate t v \<Rightarrow> PTuple [t, v])"

text \<open>
  \<open>get_asg_errors\<close>: the group and the errors. Without a launch configuration it notes them on
  the group itself and answers True.
\<close>

definition get_asg_errors :: "there_is \<Rightarrow> launch_info \<Rightarrow> pydict \<Rightarrow> (pydict \<times> pyval) res" where
  "get_asg_errors T info a =
     rbind (get_launch_id a) (\<lambda>i.
     rbind (launch_get info a) (\<lambda>cfg.
     rbind (subnet_errors T cfg a) (\<lambda>subnets.
     rbind (rbind (rbind (dindex a ''LoadBalancerNames'') py_iter) (unknown ''invalid-elb'' (ti_elbs T))) (\<lambda>elbs.
     rbind (rbind (py_iter (dget_or a ''TargetGroupARNs'' (PList []))) (unknown ''invalid-appelb-target-group'' (ti_targets T))) (\<lambda>targets.
     case cfg of
       None \<Rightarrow> rbind (dindex a ''AutoScalingGroupName'') (\<lambda>_.
         Inr (dput ''Invalid'' (error_values (subnets @ elbs @ targets @ [(''invalid-config'', launch_value i)])) a, PBool True))
     | Some c \<Rightarrow> rbind (config_errors T c) (\<lambda>es. Inr (a, error_values (subnets @ elbs @ targets @ es))))))))"

definition valid_one :: "there_is \<Rightarrow> launch_info \<Rightarrow> pydict \<Rightarrow> (pydict \<times> bool) res" where
  "valid_one T info a = rbind (get_asg_errors T info a) (\<lambda>(a', es). Inr (a', \<not> py_truth es))"

definition invalid_one :: "there_is \<Rightarrow> launch_info \<Rightarrow> pydict \<Rightarrow> (pydict \<times> bool) res" where
  "invalid_one T info a = rbind (get_asg_errors T info a) (\<lambda>(a', es).
     Inr (if py_truth es then (dput ''Invalid'' es a', True) else (a', False)))"

section \<open>Encryption\<close>

definition ebs_of :: "pyval \<Rightarrow> pyval option res" where
  "ebs_of bd = rbind (py_in (PStr ''Ebs'') bd) (\<lambda>b. if b then rbind (tag_field bd ''Ebs'') (\<lambda>e. Inr (Some e)) else Inr None)"

definition plain_ebs :: "pyval \<Rightarrow> bool res" where
  "plain_ebs bd = rbind (ebs_of bd) (\<lambda>e. case e of
      None \<Rightarrow> Inr False
    | Some e \<Rightarrow> rbind (field_get e ''Encrypted'' PNone) (\<lambda>v. Inr (\<not> py_truth v)))"

definition get_unencrypted_images :: "(pyval, pydict) odict \<Rightarrow> pyval list res" where
  "get_unencrypted_images images =
     rbind (rmap (\<lambda>(n, i). rbind (rbind (dindex i ''BlockDeviceMappings'') py_iter) (\<lambda>bds.
       rbind (rany plain_ebs bds) (\<lambda>b. if b then rbind (dindex i ''ImageId'') (\<lambda>x. Inr [x]) else Inr []))) images)
       (\<lambda>xss. Inr (concat xss))"

text \<open>The devices an image has; it precedes those of the configuration.\<close>

definition image_devices :: "(pyval, pydict) odict \<Rightarrow> pydict \<Rightarrow> pyval list res" where
  "image_devices images c = (case dget images (dget_or c ''ImageId'' (PStr [])) of
      None \<Rightarrow> Inr []
    | Some i \<Rightarrow> rbind (rbind (dindex i ''BlockDeviceMappings'') py_iter) (\<lambda>bds.
        rbind (rfilter (\<lambda>bd. rbind (ebs_of bd) (\<lambda>e. Inr (e \<noteq> None))) bds) (rmap (\<lambda>bd. tag_field bd ''DeviceName''))))"

text \<open>Of a configuration: whether a device of its own is not encrypted, and the snapshots it starts from.\<close>

definition device_state :: "pyval list \<Rightarrow> pyval \<Rightarrow> (bool \<times> string list) res" where
  "device_state shadowed bd =
     rbind (ebs_of bd) (\<lambda>e. case e of
       None \<Rightarrow> Inr (False, [])
     | Some ebs \<Rightarrow> rbind (tag_field bd ''DeviceName'') (\<lambda>name.
         if mem_eq name shadowed then Inr (False, [])
         else rbind (py_in (PStr ''SnapshotId'') ebs) (\<lambda>from_snapshot.
           if from_snapshot then rbind (rbind (tag_field ebs ''SnapshotId'') strip_text) (\<lambda>s. Inr (False, [s]))
           else rbind (field_get ebs ''Encrypted'' PNone) (\<lambda>v. Inr (\<not> py_truth v, [])))))"

definition config_state :: "(pyval, pydict) odict \<Rightarrow> pydict \<Rightarrow> (bool \<times> string list) res" where
  "config_state images c =
     rbind (image_devices images c) (\<lambda>shadowed.
     rbind (rbind (py_iter (dget_or c ''BlockDeviceMappings'' (PTuple []))) (rmap (device_state shadowed))) (\<lambda>ps.
       Inr (list_ex fst ps, concat (map snd ps))))"

definition get_unencrypted_configs ::
  "(string list \<Rightarrow> pydict list res) \<Rightarrow> launch_info \<Rightarrow> (pyval, pydict) odict \<Rightarrow> launch_id list res" where
  "get_unencrypted_configs snapshots info images =
     rbind (rmap (\<lambda>(i, c). rbind (config_state images c) (\<lambda>(bad, snaps). Inr (i, bad, snaps))) (launch_items info)) (\<lambda>states.
     let names = remdups (concat (map (\<lambda>(i, bad, snaps). snaps) states));
         own = map fst (filter (\<lambda>(i, bad, snaps). bad) states)
     in if names = [] then Inr own
        else rbind (snapshots names) (\<lambda>found.
          rbind (rmap (\<lambda>s. if py_truth (dget_or s ''Encrypted'' PNone) then Inr []
            else rbind (dindex s ''SnapshotId'') (\<lambda>n. case n of
                PStr n \<Rightarrow> if n \<in> set names then Inr (map fst (filter (\<lambda>(i, bad, snaps). n \<in> set snaps) states)) else Inl KeyError
              | _ \<Rightarrow> Inl KeyError)) found) (\<lambda>iss. Inr (own @ concat iss))))"

definition not_encrypted_one :: "pydict \<Rightarrow> launch_info \<Rightarrow> pyval list \<Rightarrow> launch_id list \<Rightarrow> pydict \<Rightarrow> (pydict \<times> bool) res" where
  "not_encrypted_one data info bad_images bad_configs a =
     rbind (launch_get info a) (\<lambda>launch.
     if launch = None \<or> launch = Some [] then
       rbind (dindex a ''AutoScalingGroupName'') (\<lambda>_. rbind (rbind (dindex a ''Instances'') py_len) (\<lambda>_. Inr (a, False)))
     else rbind (get_launch_id a) (\<lambda>i.
       rbind (if py_truth (dget_or data ''exclude_image'' PNone) then Inr []
              else rbind (dindex (the launch) ''ImageId'') (\<lambda>v. Inr (if mem_eq v bad_images then [PStr ''Image''] else []))) (\<lambda>by_image.
       let found = by_image @ (if i \<in> set bad_configs then [PStr ''LaunchConfig''] else [])
       in Inr (if found \<noteq> [] then (dput ''Unencrypted'' (PList found) a, True) else (a, False)))))"

section \<open>Other filters\<close>

text \<open>A filter called on one group after the other.\<close>

fun keep_each :: "(pydict \<Rightarrow> (pydict \<times> bool) res) \<Rightarrow> store \<Rightarrow> ref list \<Rightarrow> (store \<times> ref list) res" where
  "keep_each f st [] = Inr (st, [])"
| "keep_each f st (r # rs) =
     rbind (f (st r)) (\<lambda>(d, b). rbind (keep_each f (st(r := d)) rs) (\<lambda>(st2, out). Inr (st2, if b then r # out else out)))"

definition asg_valid :: "there_is \<Rightarrow> launch_info \<Rightarrow> store \<Rightarrow> ref list \<Rightarrow> (store \<times> ref list) res" where
  "asg_valid T info st rs = keep_each (valid_one T info) st rs"

definition asg_invalid :: "there_is \<Rightarrow> launch_info \<Rightarrow> store \<Rightarrow> ref list \<Rightarrow> (store \<times> ref list) res" where
  "asg_invalid T info st rs = keep_each (invalid_one T info) st rs"

definition not_encrypted where
  "not_encrypted describe snapshots data info st rs =
     rbind (get_image_map describe info) (\<lambda>images.
     rbind (if py_truth (dget_or data ''exclude_image'' PNone) then Inr [] else get_unencrypted_images images) (\<lambda>bad_images.
     rbind (get_unencrypted_configs snapshots info images) (\<lambda>bad_configs.
       keep_each (not_encrypted_one data info bad_images bad_configs) st rs)))"

text \<open>\<open>ImageAgeFilter.get_resource_date\<close>: the text of the date.\<close>

definition image_date :: "launch_info \<Rightarrow> (pyval, pydict) odict \<Rightarrow> pydict \<Rightarrow> pyval res" where
  "image_date info images a =
     rbind (launch_get info a) (\<lambda>cfg.
     let c = (case cfg of None \<Rightarrow> [] | Some c \<Rightarrow> c);
         image = (case dget images (dget_or c ''ImageId'' PNone) of None \<Rightarrow> [] | Some i \<Rightarrow> i)
     in Inr (dget_or image ''CreationDate'' (PStr ''2000-01-01T01:01:01.000Z'')))"

text \<open>Filters that match something of the group by value, with the state their matches leave.\<close>

fun match_each :: "(vstate \<Rightarrow> pydict \<Rightarrow> (vstate \<times> pydict \<times> bool) res) \<Rightarrow> vstate \<Rightarrow> store \<Rightarrow> ref list \<Rightarrow> (store \<times> ref list) res" where
  "match_each f s st [] = Inr (st, [])"
| "match_each f s st (r # rs) =
     rbind (f s (st r)) (\<lambda>(s1, d, b). rbind (match_each f s1 (st(r := d)) rs) (\<lambda>(st2, out). Inr (st2, if b then r # out else out)))"

definition launch_config_one :: "ext \<Rightarrow> pydict \<Rightarrow> launch_info \<Rightarrow> vstate \<Rightarrow> pydict \<Rightarrow> (vstate \<times> pydict \<times> bool) res" where
  "launch_config_one E data info s a =
     rbind (launch_get info a) (\<lambda>c. rbind (vmatch E data s (case c of None \<Rightarrow> PNone | Some d \<Rightarrow> PDict d)) (\<lambda>(s1, b). Inr (s1, a, b)))"

definition image_one :: "ext \<Rightarrow> pydict \<Rightarrow> launch_info \<Rightarrow> (pyval, pydict) odict \<Rightarrow> vstate \<Rightarrow> pydict \<Rightarrow> (vstate \<times> pydict \<times> bool) res" where
  "image_one E data info images s a =
     rbind (launch_get info a) (\<lambda>c. case c of
       None \<Rightarrow> Inl AttributeError
     | Some c \<Rightarrow> (case dget images (dget_or c ''ImageId'' PNone) of
           Some (x # d) \<Rightarrow> rbind (vmatch E data s (PDict (x # d))) (\<lambda>(s1, b). Inr (s1, a, b))
         | _ \<Rightarrow> rbind (dindex a ''AutoScalingGroupName'') (\<lambda>_. Inr (s, a, False))))"

definition user_data_key :: string where
  "user_data_key = ''c7n:user-data''"

definition user_data_one :: "ext \<Rightarrow> (pyval \<Rightarrow> pyval res) \<Rightarrow> pydict \<Rightarrow> launch_info \<Rightarrow> vstate \<Rightarrow> pydict \<Rightarrow> (vstate \<times> pydict \<times> bool) res" where
  "user_data_one E decode data info s a =
     rbind (launch_get info a) (\<lambda>c. case c of
       None \<Rightarrow> Inl TypeError
     | Some c \<Rightarrow>
         rbind (if dhas c user_data_key then Inr a
                else let u = dget_or c ''UserData'' PNone
                     in if \<not> py_truth u then Inr (dput user_data_key PNone a)
                        else rbind (decode u) (\<lambda>t. Inr (dput user_data_key t a))) (\<lambda>a1.
         rbind (vmatch E data s (PDict a1)) (\<lambda>(s1, b). Inr (s1, a1, b))))"

text \<open>\<open>VpcIdFilter\<close>: a group gets the network of its first subnet.\<close>

definition first_subnet :: "pydict \<Rightarrow> string option res" where
  "first_subnet a =
     (let v = dget_or a ''VPCZoneIdentifier'' (PStr [])
      in if \<not> py_truth v then Inr None
         else case v of PStr s \<Rightarrow> Inr (Some (hd (split_char CHR '','' s))) | _ \<Rightarrow> Inl AttributeError)"

definition note_vpc :: "(string, pydict) odict \<Rightarrow> pydict \<Rightarrow> pydict res" where
  "note_vpc subnets a = rbind (first_subnet a) (\<lambda>s. case s of
      None \<Rightarrow> Inr a
    | Some s \<Rightarrow> (case dget subnets s of
          None \<Rightarrow> rbind (dindex a ''AutoScalingGroupName'') (\<lambda>_. Inr a)
        | Some d \<Rightarrow> rbind (dindex d ''VpcId'') (\<lambda>v. Inr (dput ''VpcId'' v a))))"

fun note_vpcs :: "(string, pydict) odict \<Rightarrow> store \<Rightarrow> ref list \<Rightarrow> store res" where
  "note_vpcs subnets st [] = Inr st"
| "note_vpcs subnets st (r # rs) = rbind (note_vpc subnets (st r)) (\<lambda>a. note_vpcs subnets (st(r := a)) rs)"

definition vpc_id_process :: "ext \<Rightarrow> pydict \<Rightarrow> (string, pydict) odict \<Rightarrow> store \<Rightarrow> ref list \<Rightarrow> (vstate \<times> store \<times> ref list) res" where
  "vpc_id_process E data subnets st rs =
     rbind (note_vpcs subnets st rs) (\<lambda>st1. vf_process E (dput ''key'' (PStr ''VpcId'') data) True vstate0 st1 rs)"

text \<open>\<open>PropagatedTagFilter\<close>.\<close>

definition asg_tags :: "pydict \<Rightarrow> pyval list res" where
  "asg_tags a = py_iter (dget_or a ''Tags'' (PList []))"

definition launched_keys :: "pyval list \<Rightarrow> bool \<Rightarrow> pydict \<Rightarrow> pyval list res" where
  "launched_keys keys propagate a =
     rbind (asg_tags a) (\<lambda>ts.
     rbind (rfilter (\<lambda>t. rbind (tag_field t ''Key'') (\<lambda>k.
         if \<not> mem_eq k keys then Inr False
         else rbind (tag_field t ''PropagateAtLaunch'') (\<lambda>p. Inr (py_truth p = propagate)))) ts)
       (rmap (\<lambda>t. tag_field t ''Key'')))"

definition propagated_one :: "pydict \<Rightarrow> pydict \<Rightarrow> bool res" where
  "propagated_one data a =
     rbind (py_iter (dget_or data ''keys'' (PList []))) (\<lambda>keys.
     rbind (launched_keys keys (py_truth (dget_or data ''propagate'' (PBool True))) a) (\<lambda>tags.
       Inr (py_truth (dget_or data ''match'' (PBool True)) = list_all (\<lambda>k. mem_eq k tags) keys)))"

definition capacity_one :: "pydict \<Rightarrow> bool res" where
  "capacity_one a =
     rbind (rbind (dindex a ''Instances'') py_len) (\<lambda>n.
     rbind (rbind (dindex a ''DesiredCapacity'') (cmp_with (\<lambda>r. r = OLt) (PInt (int n)))) (\<lambda>b.
     if b then Inr True else rbind (dindex a ''MinSize'') (cmp_with (\<lambda>r. r = OLt) (PInt (int n)))))"

text \<open>\<open>ScalingPolicyFilter\<close>: the policies of a group that match.\<close>

fun match_policies :: "ext \<Rightarrow> pydict \<Rightarrow> vstate \<Rightarrow> pyval list \<Rightarrow> (vstate \<times> pyval list) res" where
  "match_policies E data s [] = Inr (s, [])"
| "match_policies E data s (p # ps) =
     rbind (vmatch E data s p) (\<lambda>(s1, b). rbind (match_policies E data s1 ps) (\<lambda>(s2, out). Inr (s2, if b then p # out else out)))"

definition policy_map :: "pyval list \<Rightarrow> (pyval \<times> pyval list) list res" where
  "policy_map ps = group_answers (\<lambda>p. tag_field p ''AutoScalingGroupName'') ps"

definition scaling_policy_one :: "ext \<Rightarrow> pydict \<Rightarrow> (pyval \<times> pyval list) list \<Rightarrow> vstate \<Rightarrow> pydict \<Rightarrow> (vstate \<times> pydict \<times> bool) res" where
  "scaling_policy_one E data m s a =
     rbind (dindex a ''AutoScalingGroupName'') (\<lambda>n.
     rbind (rbind (answers_for m n) (match_policies E data s)) (\<lambda>(s1, matched).
       Inr (s1, if matched \<noteq> [] then dput ''c7n:matched-policies'' (PList matched) a else a, matched \<noteq> [])))"

text \<open>\<open>UnusedLaunchConfig\<close>.\<close>

definition unused_launch_configs :: "pydict list \<Rightarrow> pydict list \<Rightarrow> pydict list res" where
  "unused_launch_configs asgs configs =
     rbind (rmap (\<lambda>a. if py_truth (dget_or a ''LaunchTemplate'' PNone) then Inr []
        else rbind (dindex a ''AutoScalingGroupName'') (\<lambda>n. Inr [dget_or a ''LaunchConfigurationName'' n])) asgs) (\<lambda>used.
     rfilter (\<lambda>c. rbind (dindex c ''LaunchConfigurationName'') (\<lambda>n. Inr (\<not> mem_eq n (concat used)))) configs)"

section \<open>Facts\<close>

lemma related_with_own:
  "related_resource E match c related data s r =
     rbind (get_related_ids E (rc_expr c) [r]) (\<lambda>ids. related_with E match c related ids data s r)"
  by (simp add: related_resource_def related_with_def)

subsection \<open>All groups share the ids\<close>

definition ids_select :: "ext \<Rightarrow> pydict \<Rightarrow> related \<Rightarrow> pyval list \<Rightarrow> bool" where
  "ids_select E data related ids =
     (let op = dget_or data ''operator'' (PStr ''or'')
      in py_eq op (PStr ''or'') \<and> list_ex (hit E data related) ids \<or> py_eq op (PStr ''and'') \<and> list_all (hit E data related) ids)"

lemma related_with_selects:
  assumes "dget data ''match-resource'' \<noteq> Some (PBool True)" "\<not> is_resource_count data" "prepared E data s"
    and "related_with E (value_matcher E) c related ids data s r = Inr (data', s', r', b)"
  shows "data' = data \<and> prepared E data s' \<and> b = ids_select E data related ids"
proof -
  from assms(1,2,4) obtain found where
    found: "matching_ids (value_matcher E) data related (rc_id c) r ids s = Inr (s', found)"
    and out: "data' = data" "b = (let op = dget_or data ''operator'' (PStr ''or'')
       in py_eq op (PStr ''or'') \<and> found \<noteq> [] \<or> py_eq op (PStr ''and'') \<and> length found = length ids)"
    unfolding related_with_def own_value_def by (simp only: rbind_eq_Inr Let_def if_False rbind_Inr) (auto simp: rbind_eq_Inr)
  from matching_ids_hits[OF assms(3) found] have "prepared E data s'" "found = filter (hit E data related) ids" by auto
  then show ?thesis using out
    by (auto simp: ids_select_def Let_def filter_full filter_empty_conv list_ex_iff)
qed

text \<open>Filtering auto scaling groups by their security groups keeps all of them or none: every group is tested with the
  security groups of all the launch configurations and templates, those of the others included.\<close>

theorem asg_groups_all_or_none:
  assumes "asg_security_groups E c fetch info data s st rs = Inr (data', s', st', out)"
    and "dget data ''match-resource'' \<noteq> Some (PBool True)" "\<not> is_resource_count data" "prepared E data s"
  shows "\<exists>ids related. launch_group_ids info = Inr ids \<and> fetch ids = Inr related \<and>
    out = (if ids_select E data related ids then rs else [])"
proof -
  from assms(1) obtain ids related where ids: "launch_group_ids info = Inr ids" "fetch ids = Inr related"
    "related_filter (related_with E (value_matcher E) c related ids) data s st rs = Inr (data', s', st', out)"
    by (auto simp: asg_security_groups_def rbind_eq_Inr)
  have "related_filter (related_with E (value_matcher E) c related ids) data s st rs = Inr (data', s', st', out) \<Longrightarrow>
      prepared E data s \<Longrightarrow> out = (if ids_select E data related ids then rs else [])" for s st out
  proof (induction rs arbitrary: s st out)
    case (Cons r rs)
    from Cons.prems(1) obtain data1 s1 d b rest where
      one: "related_with E (value_matcher E) c related ids data s (st r) = Inr (data1, s1, d, b)" and
      rest: "related_filter (related_with E (value_matcher E) c related ids) data1 s1 (st(r := d)) rs = Inr (data', s', st', rest)" and
      out: "out = (if b then r # rest else rest)"
      by (auto simp: rbind_eq_Inr)
    from related_with_selects[OF assms(2,3) Cons.prems(2) one]
    have sel: "data1 = data" "prepared E data s1" "b = ids_select E data related ids" by auto
    from Cons.IH[OF rest[unfolded sel(1)] sel(2)] out sel(3) show ?case by simp
  qed simp
  from this[OF ids(3) assms(4)] ids(1,2) show ?thesis by blast
qed

definition ex_launch :: launch_info where
  "ex_launch = \<lparr>li_configs = [(PStr ''a'', [(''SecurityGroups'', PList [PStr ''sg-1''])]), (PStr ''b'', [(''SecurityGroups'', PList [PStr ''sg-2''])])],
     li_templates = []\<rparr>"

definition ex_asg_groups :: "pyval list \<Rightarrow> related res" where
  "ex_asg_groups ids = Inr [(PStr ''sg-1'', [(''Name'', PStr ''web'')]), (PStr ''sg-2'', [(''Name'', PStr ''db'')])]"

definition ex_asgs :: store where
  "ex_asgs = (\<lambda>r. [(''AutoScalingGroupName'', PStr (if r = 0 then ''x'' else ''y'')), (''LaunchConfigurationName'', PStr (if r = 0 then ''a'' else ''b''))])"

definition ex_asg_data :: pydict where
  "ex_asg_data = [(''type'', PStr ''security-group''), (''key'', PStr ''Name''), (''value'', PStr ''web'')]"

definition ex_asg_conf :: related_conf where
  "ex_asg_conf = \<lparr>rc_expr = [], rc_id = ''AutoScalingGroupName'', rc_annotation = None\<rparr>"

theorem asg_groups_all_or_none_witness:
  "\<exists>data' s' st'. asg_security_groups (ext0 0) ex_asg_conf ex_asg_groups ex_launch ex_asg_data vstate0 ex_asgs [0, 1] =
     Inr (data', s', st', [0, 1])"
proof -
  let ?run = "asg_security_groups (ext0 0) ex_asg_conf ex_asg_groups ex_launch ex_asg_data vstate0 ex_asgs [0, 1]"
  have "case ?run of Inr (d, s, st, out) \<Rightarrow> out \<noteq> [] | Inl e \<Rightarrow> False" by code_simp
  then obtain d s st out where run: "?run = Inr (d, s, st, out)" "out \<noteq> []" by (auto split: sum.splits prod.splits)
  have "dget ex_asg_data ''match-resource'' \<noteq> Some (PBool True)" "\<not> is_resource_count ex_asg_data" by code_simp+
  from asg_groups_all_or_none[OF run(1) this] run show ?thesis by (auto split: if_splits)
qed

subsection \<open>Names with spaces, and lost errors\<close>

lemma dedup_subset: "set (dedup xs) \<subseteq> set xs"
  by (induction xs) auto

text \<open>
  A name with a space at its end is strip_text when the configuration is looked up, but not when
  the configurations are collected, so it is not found, whatever the service has.
\<close>

lemma spaced_name_not_found:
  assumes "dget a ''LaunchConfigurationName'' = Some (PStr s)" "strip s \<noteq> s" "get_launch_configs by_ids every [a] = Inr m"
    "li_configs info = m"
  shows "launch_get info a = Inr None"
proof -
  have names: "config_names_of [a] = Inr [PStr s]" using assms(1) by (simp add: config_names_of_def)
  have "dget m' (PStr (strip s)) = None"
    if "rfold (\<lambda>m c. rbind (dindex c ''LaunchConfigurationName'') (\<lambda>n.
         if \<not> hashable n then Inl TypeError else Inr (if mem_eq n [PStr s] then dput n c m else m))) m0 cs = Inr m'"
      "dget m0 (PStr (strip s)) = None" for cs m0 m'
    using that
  proof (induction cs arbitrary: m0)
    case (Cons c cs)
    from Cons.prems(1) obtain n where n: "dindex c ''LaunchConfigurationName'' = Inr n" "hashable n"
      "rfold (\<lambda>m c. rbind (dindex c ''LaunchConfigurationName'') (\<lambda>n.
         if \<not> hashable n then Inl TypeError else Inr (if mem_eq n [PStr s] then dput n c m else m)))
         (if mem_eq n [PStr s] then dput n c m0 else m0) cs = Inr m'"
      by (auto simp: rbind_eq_Inr split: if_splits)
    have "dget (if mem_eq n [PStr s] then dput n c m0 else m0) (PStr (strip s)) = None"
      using Cons.prems(2) assms(2) by (auto simp: mem_eq_def)
    from Cons.IH[OF n(3) this] show ?case .
  qed simp
  from this[of "[]"] assms(3) have "dget m (PStr (strip s)) = None"
    by (auto simp: get_launch_configs_def names rbind_eq_Inr)
  then show ?thesis using assms(1,4) by (simp add: launch_get_def get_launch_id_def dget_or_def strip_text_def)
qed

text \<open>The errors noted on a group without a configuration are replaced by True.\<close>

lemma invalid_note_lost:
  assumes "launch_get info a = Inr None" "get_asg_errors T info a = Inr (a', es)"
  shows "es = PBool True \<and> invalid_one T info a = Inr (dput ''Invalid'' (PBool True) a', True)"
proof -
  from assms have "es = PBool True"
    by (auto simp: get_asg_errors_def rbind_eq_Inr)
  with assms(2) show ?thesis by (simp add: invalid_one_def)
qed

lemma no_config_no_subnets:
  assumes "launch_get info a = Inr None" "get_launch_id a = Inr i" "dget a ''VPCZoneIdentifier'' = None"
  shows "get_asg_errors T info a = Inl TypeError"
  using assms by (simp add: get_asg_errors_def subnet_errors_def dget_or_def)

lemma valid_not_invalid: "valid_one T info a = Inr (a', b) \<Longrightarrow> \<exists>a''. invalid_one T info a = Inr (a'', \<not> b)"
  by (auto simp: valid_one_def invalid_one_def rbind_eq_Inr)

subsection \<open>When a group can launch\<close>

lemma unknown_strings:
  "unknown label known (map PStr xs) = Inr (map (\<lambda>x. (label, PStr (strip x))) (filter (\<lambda>x. strip x \<notin> set known) xs))"
proof -
  have "rmap (\<lambda>x. rbind (strip_text x) (\<lambda>s. Inr (if s \<in> set known then [] else [(label, PStr s)]))) (map PStr xs) =
      Inr (map (\<lambda>x. if strip x \<notin> set known then [(label, PStr (strip x))] else []) xs)"
    by (induction xs) (auto simp: strip_text_def)
  then show ?thesis by (simp add: unknown_def concat_if)
qed

definition known_text :: "string list \<Rightarrow> pyval \<Rightarrow> bool" where
  "known_text known v = (case v of PStr s \<Rightarrow> s = [] \<or> strip s \<in> set known | _ \<Rightarrow> True)"

lemma unknown_field_text:
  "dget c key = None \<or> (\<exists>s. dget c key = Some (PStr s)) \<Longrightarrow>
   \<exists>es. unknown_field label known c key = Inr es \<and> (es = [] \<longleftrightarrow> known_text known (dget_or c key PNone))"
  by (auto simp: unknown_field_def dget_or_def strip_text_def known_text_def Let_def)

text \<open>A group in some subnets whose launch configuration is there is valid exactly when its subnets, balancers and target
  groups and the security groups, key pair, image and snapshots of the configuration all exist, spaces around their
  names aside; otherwise it is invalid, and neither filter changes it when it is valid.\<close>

theorem valid_when_all_exist:
  assumes "get_launch_id a = Inr i" "launch_get info a = Inr (Some c)"
    and "dget a ''VPCZoneIdentifier'' = Some (PStr s)" "hd (split_char CHR '','' s) \<noteq> []"
    and "dget a ''LoadBalancerNames'' = Some (PList (map PStr elbs))" "dget_or a ''TargetGroupARNs'' (PList []) = PList (map PStr targets)"
    and "dget_or c ''SecurityGroups'' (PTuple []) = PList (map PStr gs)" "dget_or c ''SecurityGroupIds'' (PTuple []) = PTuple (map PStr hs)"
    and "dget c ''KeyName'' = None \<or> (\<exists>k. dget c ''KeyName'' = Some (PStr k))" "dget c ''ImageId'' = None \<or> (\<exists>k. dget c ''ImageId'' = Some (PStr k))"
    and "device_snapshots c = Inr (map PStr snaps)"
  shows "valid_one T info a = Inr (a,
      list_all (\<lambda>x. strip x \<in> set (ti_subnets T)) (split_char CHR '','' s) \<and>
      list_all (\<lambda>x. strip x \<in> set (ti_elbs T)) elbs \<and> list_all (\<lambda>x. strip x \<in> set (ti_targets T)) targets \<and>
      list_all (\<lambda>x. strip x \<in> set (ti_groups T)) (gs @ hs) \<and>
      known_text (ti_keys T) (dget_or c ''KeyName'' PNone) \<and> known_text (ti_images T) (dget_or c ''ImageId'' PNone) \<and>
      list_all (\<lambda>x. strip x \<in> set (ti_image_snaps T) \<or> strip x \<in> set (ti_snaps T)) snaps)"
proof -
  obtain keys where keys: "unknown_field ''invalid-key-pair'' (ti_keys T) c ''KeyName'' = Inr keys"
    "keys = [] \<longleftrightarrow> known_text (ti_keys T) (dget_or c ''KeyName'' PNone)" using unknown_field_text[OF assms(9)] by blast
  obtain images where images: "unknown_field ''invalid-image'' (ti_images T) c ''ImageId'' = Inr images"
    "images = [] \<longleftrightarrow> known_text (ti_images T) (dget_or c ''ImageId'' PNone)" using unknown_field_text[OF assms(10)] by blast
  let ?bad = "\<lambda>x. strip x \<notin> set (ti_image_snaps T) \<and> strip x \<notin> set (ti_snaps T)"
  have snaps: "rmap (\<lambda>v. rbind (strip_text v) (\<lambda>s. Inr (if s \<in> set (ti_image_snaps T) \<or> s \<in> set (ti_snaps T) then []
      else [(''invalid-snapshot'', v)]))) (map PStr snaps) = Inr (map (\<lambda>x. if ?bad x then [(''invalid-snapshot'', PStr x)] else []) snaps)"
    by (induction snaps) (auto simp: strip_text_def)
  have "config_errors T c = Inr (map (\<lambda>x. (''invalid-security-group'', PStr (strip x))) (filter (\<lambda>x. strip x \<notin> set (ti_groups T)) (gs @ hs)) @
      keys @ images @ map (\<lambda>x. (''invalid-snapshot'', PStr x)) (filter ?bad snaps))"
    by (simp only: config_errors_def assms(7,8,11) py_iter.simps rbind_Inr map_append[symmetric] unknown_strings keys(1) images(1) snaps concat_if)
  moreover have "subnet_errors T (Some c) a = Inr (map (\<lambda>x. (''invalid-subnet'', PStr (strip x))) (filter (\<lambda>x. strip x \<notin> set (ti_subnets T)) (split_char CHR '','' s)))"
    using assms(3,4) by (simp add: subnet_errors_def dget_or_def unknown_strings)
  moreover have "rbind (rbind (dindex a ''LoadBalancerNames'') py_iter) (unknown ''invalid-elb'' (ti_elbs T)) =
      Inr (map (\<lambda>x. (''invalid-elb'', PStr (strip x))) (filter (\<lambda>x. strip x \<notin> set (ti_elbs T)) elbs))"
    using assms(5) by (simp add: dindex_def unknown_strings)
  moreover have "rbind (py_iter (dget_or a ''TargetGroupARNs'' (PList []))) (unknown ''invalid-appelb-target-group'' (ti_targets T)) =
      Inr (map (\<lambda>x. (''invalid-appelb-target-group'', PStr (strip x))) (filter (\<lambda>x. strip x \<notin> set (ti_targets T)) targets))"
    by (simp only: assms(6) py_iter.simps rbind_Inr unknown_strings)
  ultimately have "get_asg_errors T info a = Inr (a, error_values (
      map (\<lambda>x. (''invalid-subnet'', PStr (strip x))) (filter (\<lambda>x. strip x \<notin> set (ti_subnets T)) (split_char CHR '','' s)) @
      map (\<lambda>x. (''invalid-elb'', PStr (strip x))) (filter (\<lambda>x. strip x \<notin> set (ti_elbs T)) elbs) @
      map (\<lambda>x. (''invalid-appelb-target-group'', PStr (strip x))) (filter (\<lambda>x. strip x \<notin> set (ti_targets T)) targets) @
      map (\<lambda>x. (''invalid-security-group'', PStr (strip x))) (filter (\<lambda>x. strip x \<notin> set (ti_groups T)) (gs @ hs)) @
      keys @ images @ map (\<lambda>x. (''invalid-snapshot'', PStr x)) (filter ?bad snaps)))"
    by (simp only: get_asg_errors_def assms(1,2) rbind_Inr option.case)
  then show ?thesis
    by (simp only: valid_one_def rbind_Inr prod.case error_values_def py_truth.simps map_is_Nil_conv append_is_Nil_conv
        filter_empty_conv keys(2) images(2) list_all_iff not_not de_Morgan_conj set_append) blast
qed

definition ex_there :: there_is where
  "ex_there = \<lparr>ti_subnets = [''subnet-1''], ti_zones = [], ti_groups = [''sg-1''], ti_keys = [], ti_elbs = [], ti_targets = [],
     ti_images = [''ami-1''], ti_image_snaps = [], ti_snaps = []\<rparr>"

definition ex_asg_launch :: launch_info where
  "ex_asg_launch = \<lparr>li_configs = [(PStr ''a'', [(''SecurityGroups'', PList (map PStr [''sg-1''])), (''ImageId'', PStr ''ami-1'')])], li_templates = []\<rparr>"

definition ex_asg :: "string \<Rightarrow> pydict" where
  "ex_asg subnets = [(''AutoScalingGroupName'', PStr ''x''), (''LaunchConfigurationName'', PStr ''a''),
     (''VPCZoneIdentifier'', PStr subnets), (''LoadBalancerNames'', PList (map PStr []))]"

theorem valid_when_all_exist_witness:
  "valid_one ex_there ex_asg_launch (ex_asg ''subnet-1, subnet-2'') = Inr (ex_asg ''subnet-1, subnet-2'', False)"
proof -
  let ?a = "ex_asg ''subnet-1, subnet-2''" and ?c = "[(''SecurityGroups'', PList (map PStr [''sg-1''])), (''ImageId'', PStr ''ami-1'')]"
  have facts: "get_launch_id ?a = Inr (LConfig (PStr ''a''))" "launch_get ex_asg_launch ?a = Inr (Some ?c)" by code_simp+
  have a: "dget ?a ''VPCZoneIdentifier'' = Some (PStr ''subnet-1, subnet-2'')" "hd (split_char CHR '','' ''subnet-1, subnet-2'') \<noteq> []"
    "dget ?a ''LoadBalancerNames'' = Some (PList (map PStr []))" "dget_or ?a ''TargetGroupARNs'' (PList []) = PList (map PStr [])"
    by (simp_all add: ex_asg_def dget_or_def)
  have c: "dget_or ?c ''SecurityGroups'' (PTuple []) = PList (map PStr [''sg-1''])" "dget_or ?c ''SecurityGroupIds'' (PTuple []) = PTuple (map PStr [])"
    "dget ?c ''KeyName'' = None \<or> (\<exists>k. dget ?c ''KeyName'' = Some (PStr k))" "dget ?c ''ImageId'' = None \<or> (\<exists>k. dget ?c ''ImageId'' = Some (PStr k))"
    "device_snapshots ?c = Inr (map PStr [])"
    by (simp_all add: dget_or_def device_snapshots_def)
  have "\<not> list_all (\<lambda>x. strip x \<in> set (ti_subnets ex_there)) (split_char CHR '','' ''subnet-1, subnet-2'')" by code_simp
  with valid_when_all_exist[OF facts a c, of ex_there] show ?thesis by (simp only: simp_thms)
qed

end
