(* ===== verification/Asg_Actions.thy ===== *)
theory Asg_Actions
  imports Service Tags Rds Digits Related
begin

text \<open>
  Actions on auto scaling groups (\<open>c7n/resources/asg.py\<close>): resizing with the sizes saved in
  a tag and restored from it, tags of groups and of their instances, suspending and resuming,
  deletion and settings. Requests are those the manager retries.
\<close>

section \<open>Resizing\<close>

definition asg_params :: "string list" where
  "asg_params = [''MinSize'', ''MaxSize'', ''DesiredCapacity'']"

text \<open>\<open>{t['Key']: t['Value'] for t in a.get('Tags', [])}\<close>.\<close>

definition asg_tag_map :: "pydict \<Rightarrow> pydict res" where
  "asg_tag_map a = rbind (py_iter (dget_or a ''Tags'' (PList [])))
     (rfold (\<lambda>d t. rbind (tag_key t) (\<lambda>k. rbind (tag_field t ''Value'') (\<lambda>v. Inr (dput k v d)))) [])"

text \<open>\<open>'%d' % v\<close>.\<close>

definition percent_d :: "pyval \<Rightarrow> string res" where
  "percent_d v = (case v of
      PInt i \<Rightarrow> Inr (str_of_int i)
    | PBool b \<Rightarrow> Inr (str_of_int (if b then 1 else 0))
    | PFloat f \<Rightarrow> rbind (to_int v) (\<lambda>i. Inr (str_of_int i))
    | _ \<Rightarrow> Inl TypeError)"

text \<open>Support for the earlier name of a parameter.\<close>

definition resize_data :: "pydict \<Rightarrow> pydict" where
  "resize_data data =
     (if dhas data ''desired_size'' \<and> \<not> dhas data ''desired-size''
      then dput ''desired-size'' (dget_or data ''desired_size'' PNone) data else data)"

definition restore_field :: "pydict \<Rightarrow> string \<Rightarrow> pydict res" where
  "restore_field update field = (case split_char CHR ''='' field of
      [param, v] \<Rightarrow> if param \<in> set asg_params
        then (case int_of_str v of None \<Rightarrow> Inl ValueError | Some i \<Rightarrow> Inr (dput param (PInt i) update))
        else Inr update
    | _ \<Rightarrow> Inl ValueError)"

definition restored_sizes :: "pyval \<Rightarrow> pydict res" where
  "restored_sizes v = (case v of
      PStr s \<Rightarrow> rfold restore_field [] (split_char CHR '';'' s)
    | _ \<Rightarrow> Inl AttributeError)"

definition given_sizes :: "pydict \<Rightarrow> pydict \<Rightarrow> nat \<Rightarrow> pydict res" where
  "given_sizes data a current =
     (let u1 = (case dget data ''min-size'' of None \<Rightarrow> [] | Some v \<Rightarrow> [(''MinSize'', v)]);
          u2 = (case dget data ''max-size'' of None \<Rightarrow> u1 | Some v \<Rightarrow> dput ''MaxSize'' v u1)
      in case dget data ''desired-size'' of
           None \<Rightarrow> Inr u2
         | Some v \<Rightarrow>
             if is_text v ''current'' then
               rbind (rbind (dindex a ''DesiredCapacity'') (py_min (PInt (int current)))) (\<lambda>d.
               let u3 = dput ''DesiredCapacity'' d u2
               in if dhas u3 ''MinSize'' then Inr u3
                  else rbind (rbind (dindex a ''MinSize'') (py_min (PInt (int current)))) (\<lambda>m. Inr (dput ''MinSize'' m u3)))
             else Inr (if is_int v then dput ''DesiredCapacity'' v u2 else u2))"

text \<open>The sizes a group is to get.\<close>

definition resize_update :: "pydict \<Rightarrow> pydict \<Rightarrow> pydict res" where
  "resize_update data a =
     rbind (asg_tag_map a) (\<lambda>tags.
     rbind (rbind (dindex a ''Instances'') py_len) (\<lambda>current.
     case dget data ''restore-options-tag'' of
       Some t \<Rightarrow> rbind (dindex a ''AutoScalingGroupName'') (\<lambda>_.
         case t of
           PStr k \<Rightarrow> (case dget tags k of None \<Rightarrow> Inr [] | Some v \<Rightarrow> restored_sizes v)
         | _ \<Rightarrow> if hashable t then Inr [] else Inl TypeError)
     | None \<Rightarrow> given_sizes data a current))"

text \<open>The text of a tag that saves the sizes: those of a set, in the \<open>order\<close> it is listed in.\<close>

definition saved_sizes :: "(string list \<Rightarrow> string list) \<Rightarrow> pydict \<Rightarrow> string res" where
  "saved_sizes order a =
     rbind (rmap (\<lambda>p. rbind (rbind (dindex a p) percent_d) (\<lambda>s. Inr (p @ ''='' @ s))) asg_params) (\<lambda>fields.
       Inr (join '';'' (order fields)))"

definition group_tag :: "pyval \<Rightarrow> pyval \<Rightarrow> (string \<times> pyval) list \<Rightarrow> pyval" where
  "group_tag name key extra = PDict ((''Key'', key) # extra @ [(''ResourceId'', name), (''ResourceType'', PStr ''auto-scaling-group'')])"

definition save_sizes :: "'w service \<Rightarrow> (string list \<Rightarrow> string list) \<Rightarrow> pydict \<Rightarrow> pydict \<Rightarrow> ('w, unit) eff" where
  "save_sizes call order data a = (case dget data ''save-options-tag'' of
      None \<Rightarrow> lift (Inr ())
    | Some t \<Rightarrow>
        andthen (lift (dindex a ''AutoScalingGroupName'')) (\<lambda>name.
        andthen (lift (saved_sizes order a)) (\<lambda>s.
        ask call ''create_or_update_tags''
          [(''Tags'', PList [group_tag name t [(''PropagateAtLaunch'', PBool False), (''Value'', PStr s)]])])))"

text \<open>The sizes a group has are logged, so it has to have numbers for them.\<close>

definition logged_sizes :: "pydict \<Rightarrow> unit res" where
  "logged_sizes a =
     rbind (dindex a ''AutoScalingGroupName'') (\<lambda>_. rbind (rmap (\<lambda>p. rbind (dindex a p) percent_d) asg_params) (\<lambda>_. Inr ()))"

definition resize_one :: "'w service \<Rightarrow> (string list \<Rightarrow> string list) \<Rightarrow> pydict \<Rightarrow> pydict \<Rightarrow> ('w, unit) eff" where
  "resize_one call order data a =
     andthen (lift (resize_update data a)) (\<lambda>update.
     unless (update = [])
       (andthen (lift (logged_sizes a)) (\<lambda>_.
        andthen (save_sizes call order data a) (\<lambda>_.
        andthen (lift (dindex a ''AutoScalingGroupName'')) (\<lambda>name.
        ask call ''update_auto_scaling_group'' ((''AutoScalingGroupName'', name) # update))))))"

definition resize_process :: "'w service \<Rightarrow> (string list \<Rightarrow> string list) \<Rightarrow> pydict \<Rightarrow> pydict list \<Rightarrow> ('w, unit) eff" where
  "resize_process call order data asgs = each (resize_one call order (resize_data data)) asgs"

section \<open>Tags of groups\<close>

definition asg_untag_set :: "'w service \<Rightarrow> pyval list \<Rightarrow> pydict list \<Rightarrow> ('w, unit) eff" where
  "asg_untag_set call tags asgs =
     andthen (lift (rmap (\<lambda>a. if tags = [] then Inr [] else rbind (dindex a ''AutoScalingGroupName'') (\<lambda>name.
        Inr (map (\<lambda>t. group_tag name t []) tags))) asgs)) (\<lambda>tss.
     ask call ''delete_tags'' [(''Tags'', PList (concat tss))])"

text \<open>All sets are tried; the last error is raised.\<close>

definition asg_untag :: "'w service \<Rightarrow> pydict \<Rightarrow> pydict list \<Rightarrow> ('w, unit) eff" where
  "asg_untag call data asgs =
     andthen (lift (py_iter (dget_or data ''tags'' (PList [])))) (\<lambda>given.
     let tags = (if given = [] then [dget_or data ''key'' (PStr DEFAULT_TAG)] else given)
     in common_tag_processer (asg_untag_set call tags) 1 asgs)"

text \<open>\<open>get_tag_spec_map\<close>: the default message is for the single tag only.\<close>

definition asg_tag_spec :: "pydict \<Rightarrow> pydict res" where
  "asg_tag_spec data =
     rbind (case dget_or data ''tags'' (PDict []) of PDict d \<Rightarrow> Inr d | _ \<Rightarrow> Inl TypeError) (\<lambda>tags.
     let key = dget_or data ''key'' (dget_or data ''tag'' (PStr DEFAULT_TAG));
         given = dget_or data ''value'' (dget_or data ''msg'' PNone);
         v = (if given = PNone \<and> tags = [] then PStr ''AutoScaleGroup does not meet policy guidelines'' else given)
     in if py_truth key \<and> py_truth v
        then (case key of PStr k \<Rightarrow> Inr (dupdate [(k, v)] tags) | _ \<Rightarrow> Inl TypeError)
        else Inr (dupdate [] tags))"

definition asg_tag_sets ::
  "ext \<Rightarrow> (string, string) odict \<Rightarrow> pydict \<Rightarrow> pydict list \<Rightarrow> (pydict list \<times> (string, string) odict) list res" where
  "asg_tag_sets E params spec asgs =
     rbind (if \<not> has_lookups spec
            then rbind (rmap (\<lambda>(k, v). rbind (interpolate E params v) (\<lambda>s. Inr (k, s))) spec) (\<lambda>tags. Inr [(asgs, tags)])
            else resolve_and_group E params spec asgs) (\<lambda>groups.
     rbind (rmap (\<lambda>(rs, tags). rbind (chunks 1 rs) (\<lambda>sets. Inr (map (\<lambda>c. (c, tags)) sets))) groups) (\<lambda>pss. Inr (concat pss)))"

definition asg_tag_set :: "'w service \<Rightarrow> pydict \<Rightarrow> pydict list \<times> (string, string) odict \<Rightarrow> ('w, unit) eff" where
  "asg_tag_set call data p = (case p of (asgs, tags) \<Rightarrow>
     andthen (lift (rmap (\<lambda>(k, v). rmap (\<lambda>a. rbind (dindex a ''AutoScalingGroupName'') (\<lambda>name.
        Inr (group_tag name (PStr k) [(''Value'', PStr v), (''PropagateAtLaunch'', dget_or data ''propagate'' (PBool False))]))) asgs) tags)) (\<lambda>tss.
     ask call ''create_or_update_tags'' [(''Tags'', PList (concat tss))]))"

text \<open>What goes wrong with a set is logged; the error that would be raised is never set.\<close>

definition asg_tag_process :: "'w service \<Rightarrow> ext \<Rightarrow> (string, string) odict \<Rightarrow> pydict \<Rightarrow> pydict list \<Rightarrow> ('w, unit) eff" where
  "asg_tag_process call E params data asgs =
     andthen (lift (rbind (asg_tag_spec data) (\<lambda>spec. asg_tag_sets E params spec asgs))) (\<lambda>sets.
     each_logged (asg_tag_set call data) sets)"

definition rename_asg_tag :: "'w service \<Rightarrow> pydict \<Rightarrow> pydict \<Rightarrow> ('w, unit) eff" where
  "rename_asg_tag call data a =
     (let source = dget_or data ''source'' PNone; dest = dget_or data ''dest'' PNone;
          propagate = dget_or data ''propagate'' (PBool True)
      in andthen (lift (rbind (asg_tag_map a) (\<lambda>tags. case source of PStr k \<Rightarrow> dindex tags k | _ \<Rightarrow> Inl KeyError))) (\<lambda>v.
         andthen (lift (dindex a ''AutoScalingGroupName'')) (\<lambda>name.
         andthen (ask call ''delete_tags'' [(''Tags'', PList [group_tag name source [(''Value'', v)]])]) (\<lambda>_.
         andthen (ask call ''create_or_update_tags''
           [(''Tags'', PList [group_tag name dest [(''PropagateAtLaunch'', propagate), (''Value'', v)]])]) (\<lambda>_.
         unless (\<not> py_truth propagate) (andthen (lift (rbind (dindex a ''Instances'') py_iter)) (\<lambda>is.
           unless (is = []) (andthen (lift (rmap (\<lambda>i. tag_field i ''InstanceId'') is)) (\<lambda>ids.
             andthen (ask call ''delete_instance_tags''
               [(''Resources'', PList ids), (''Tags'', PList [PDict [(''Key'', source)]])]) (\<lambda>_.
             ask call ''create_instance_tags''
               [(''Resources'', PList ids), (''Tags'', PList [PDict [(''Key'', dest), (''Value'', v)]])]))))))))))"

definition has_source :: "pydict \<Rightarrow> pydict \<Rightarrow> bool res" where
  "has_source data a = rbind (py_iter (dget_or a ''Tags'' PNone))
     (rany (\<lambda>t. rbind (tag_field t ''Key'') (\<lambda>k. Inr (py_eq k (dget_or data ''source'' PNone)))))"

definition rename_asg_process :: "'w service \<Rightarrow> pydict \<Rightarrow> pydict list \<Rightarrow> ('w, unit) eff" where
  "rename_asg_process call data asgs =
     andthen (lift (rfilter (has_source data) asgs)) (\<lambda>found. each (rename_asg_tag call data) found)"

section \<open>Tags of instances\<close>

text \<open>The tags a group gives to its instances.\<close>

definition launch_tags :: "pydict \<Rightarrow> pydict \<Rightarrow> pydict res" where
  "launch_tags data a =
     rbind (py_iter (dget_or a ''Tags'' (PList []))) (\<lambda>ts.
     rbind (rfold (\<lambda>d t. rbind (tag_field t ''PropagateAtLaunch'') (\<lambda>p.
         if \<not> py_truth p then Inr d
         else rbind (tag_key t) (\<lambda>k. if starts_with k ''aws:'' then Inr d
           else rbind (tag_field t ''Value'') (\<lambda>v. Inr (dput k v d))))) [] ts) (\<lambda>tags.
     let wanted = dget_or data ''tags'' PNone
     in if \<not> py_truth wanted then Inr tags
        else rbind (py_iter wanted) (\<lambda>ks. Inr (filter (\<lambda>(k, v). mem_eq (PStr k) ks) tags))))"

definition own_keys :: "pydict \<Rightarrow> string list res" where
  "own_keys i = rbind (rbind (rbind (dindex i ''Tags'') py_iter) (rmap tag_key)) (\<lambda>ks.
     Inr (filter (\<lambda>k. \<not> starts_with k ''aws:'') ks))"

text \<open>
  The keys to remove from the instances, by how many of them have a key: those all have that
  are not tags of the group, and those only some have.
\<close>

definition keys_to_prune :: "string list \<Rightarrow> string list list \<Rightarrow> string list" where
  "keys_to_prune tag_set kss =
     (let all_keys = remdups (concat kss); everywhere = (\<lambda>k. length kss \<le> count_list (concat kss) k)
      in filter (\<lambda>k. everywhere k \<and> k \<notin> set tag_set) all_keys @ filter (\<lambda>k. \<not> everywhere k) all_keys)"

definition prune_instance_tags :: "'w service \<Rightarrow> bool \<Rightarrow> string list \<Rightarrow> pydict list \<Rightarrow> ('w, unit) eff" where
  "prune_instance_tags call dryrun tag_set instances =
     andthen (lift (rmap own_keys instances)) (\<lambda>kss.
     unless dryrun (andthen (lift (rmap (\<lambda>i. dindex i ''InstanceId'') instances)) (\<lambda>ids.
       ask call ''delete_instance_tags''
         [(''Resources'', PList ids), (''Tags'', PList (map (\<lambda>k. PDict [(''Key'', PStr k)]) (keys_to_prune tag_set kss)))])))"

definition instance_map_of :: "(pyval list \<Rightarrow> pydict list res) \<Rightarrow> pydict list \<Rightarrow> (pyval, pydict) odict res" where
  "instance_map_of describe asgs =
     rbind (rmap (\<lambda>a. rbind (rbind (dindex a ''Instances'') py_iter) (rmap (\<lambda>i. tag_field i ''InstanceId''))) asgs) (\<lambda>idss.
     if concat idss = [] then Inr []
     else rbind (describe (concat idss)) (rfold (\<lambda>m i. rbind (dindex i ''InstanceId'') (\<lambda>n. Inr (dput n i m))) []))"

definition propagate_one ::
  "'w service \<Rightarrow> bool \<Rightarrow> (pyval, pydict) odict \<Rightarrow> pydict \<Rightarrow> pydict \<Rightarrow> ('w, unit) eff" where
  "propagate_one call dryrun known data a =
     (let trim = py_truth (dget_or data ''trim'' (PBool False))
      in andthen (lift (rbind (rbind (dindex a ''Instances'') py_iter) (rmap (\<lambda>i. tag_field i ''InstanceId'')))) (\<lambda>ids.
         andthen (lift (launch_tags data a)) (\<lambda>tags.
         andthen (lift (if tags = [] \<and> \<not> trim then rbind (dindex a ''AutoScalingGroupName'') (\<lambda>_. Inr ()) else Inr ())) (\<lambda>_.
         andthen (unless (\<not> trim) (andthen (lift (rmap (dindex known) ids)) (prune_instance_tags call dryrun (dkeys tags)))) (\<lambda>_.
         unless (dryrun \<or> ids = [] \<or> tags = [])
           (ask call ''create_instance_tags''
             [(''Resources'', PList ids), (''Tags'', PList (map (\<lambda>(k, v). PDict [(''Key'', PStr k), (''Value'', v)]) tags))]))))))"

definition propagate_process ::
  "'w service \<Rightarrow> (pyval list \<Rightarrow> pydict list res) \<Rightarrow> bool \<Rightarrow> pydict \<Rightarrow> pydict list \<Rightarrow> ('w, unit) eff" where
  "propagate_process call describe dryrun data asgs =
     (if asgs = [] then lift (Inr ())
      else andthen (lift (if py_truth (dget_or data ''trim'' (PBool False)) then instance_map_of describe asgs else Inr [])) (\<lambda>known.
        each (propagate_one call dryrun known data) asgs))"

section \<open>Suspending and resuming\<close>

definition ASG_PROCESSES :: "string list" where
  "ASG_PROCESSES = [''Launch'', ''Terminate'', ''HealthCheck'', ''ReplaceUnhealthy'', ''AZRebalance'', ''AlarmNotification'',
     ''ScheduledActions'', ''AddToLoadBalancer'', ''InstanceRefresh'']"

definition processes_of :: "pydict \<Rightarrow> string list res" where
  "processes_of data =
     rbind (py_iter (dget_or data ''exclude'' (PTuple []))) (\<lambda>ex. Inr (filter (\<lambda>p. \<not> mem_eq (PStr p) ex) ASG_PROCESSES))"

text \<open>Some codes of a refusal end an action quietly: whether it went on.\<close>

definition ask_or_end :: "string list \<Rightarrow> 'w service \<Rightarrow> string \<Rightarrow> pydict \<Rightarrow> ('w, bool) eff" where
  "ask_or_end codes call name params = (\<lambda>w. case call (name, params) w of
      (Returned v, w') \<Rightarrow> (Inr True, w')
    | (ClientErr c, w') \<Rightarrow> (if c \<in> set codes then Inr False else Inl ClientError, w')
    | (OtherErr e, w') \<Rightarrow> (Inl e, w'))"

definition stop_refused :: "string list" where
  "stop_refused = [''UnsupportedOperation'', ''InvalidInstanceID.NotFound'', ''IncorrectInstanceState'']"

text \<open>With \<open>force\<close> the protection of each instance is taken away; a refusal of any is one of the stop.\<close>

fun unprotect_all :: "'w service \<Rightarrow> pyval list \<Rightarrow> ('w, bool) eff" where
  "unprotect_all call [] = lift (Inr True)"
| "unprotect_all call (i # is) =
     andthen (ask_or_end stop_refused call ''modify_instance_attribute''
       [(''InstanceId'', i), (''Attribute'', PStr ''disableApiStop''), (''Value'', PStr ''false'')]) (\<lambda>b.
     if b then unprotect_all call is else lift (Inr False))"

definition suspend_one :: "'w service \<Rightarrow> pydict \<Rightarrow> pydict \<Rightarrow> ('w, unit) eff" where
  "suspend_one call data a =
     andthen (lift (processes_of data)) (\<lambda>ps.
     andthen (lift (dindex a ''AutoScalingGroupName'')) (\<lambda>name.
     andthen (ask_or_end [''ValidationError''] call ''suspend_processes''
       [(''ScalingProcesses'', PList (map PStr ps)), (''AutoScalingGroupName'', name)]) (\<lambda>suspended.
     unless (\<not> suspended) (andthen (lift (rbind (rbind (dindex a ''Instances'') py_iter) (rmap (\<lambda>i. tag_field i ''InstanceId'')))) (\<lambda>ids.
       unless (ids = []) (andthen (if py_truth (dget_or data ''force'' PNone) then unprotect_all call ids else lift (Inr True)) (\<lambda>free.
         unless (\<not> free) (ask_ignoring stop_refused call ''stop_instances'' [(''InstanceIds'', PList ids)]))))))))"

definition suspend_process :: "'w service \<Rightarrow> pydict \<Rightarrow> pydict list \<Rightarrow> ('w, unit) eff" where
  "suspend_process call data asgs = each (suspend_one call data) asgs"

definition resume_instances :: "'w service \<Rightarrow> pydict \<Rightarrow> ('w, unit) eff" where
  "resume_instances call a =
     andthen (lift (rbind (rbind (dindex a ''Instances'') py_iter) (rmap (\<lambda>i. tag_field i ''InstanceId'')))) (\<lambda>ids.
     unless (ids = []) (ask call ''start_instances'' [(''InstanceIds'', PList ids)]))"

definition resume_asg :: "'w service \<Rightarrow> pydict \<Rightarrow> pydict \<Rightarrow> ('w, unit) eff" where
  "resume_asg call data a =
     andthen (lift (processes_of data)) (\<lambda>ps.
     andthen (lift (dindex a ''AutoScalingGroupName'')) (\<lambda>name.
     ask call ''resume_processes'' [(''ScalingProcesses'', PList (map PStr ps)), (''AutoScalingGroupName'', name)]))"

text \<open>The instances of all groups first, then, after a delay, the processes of all groups.\<close>

definition resume_process :: "'w service \<Rightarrow> pydict \<Rightarrow> pydict list \<Rightarrow> ('w, unit) eff" where
  "resume_process call data asgs =
     andthen (lift (rfilter (\<lambda>a. rbind (dindex a ''SuspendedProcesses'') (\<lambda>v. Inr (py_truth v))) asgs)) (\<lambda>found.
     andthen (each_logged (resume_instances call) found) (\<lambda>_. each_logged (resume_asg call data) found))"

section \<open>Deletion and settings\<close>

definition asg_delete :: "'w service \<Rightarrow> pydict \<Rightarrow> pydict list \<Rightarrow> ('w, unit) eff" where
  "asg_delete call data asgs = each (\<lambda>a. andthen (lift (dindex a ''AutoScalingGroupName'')) (\<lambda>name.
     ask_ignoring [''ValidationError''] call ''delete_auto_scaling_group''
       [(''AutoScalingGroupName'', name), (''ForceDelete'', dget_or data ''force'' (PBool False))])) asgs"

definition settings_map :: "(string, string) odict" where
  "settings_map = [(''default-cooldown'', ''DefaultCooldown''), (''max-instance-lifetime'', ''MaxInstanceLifetime''),
     (''new-instances-protected-from-scale-in'', ''NewInstancesProtectedFromScaleIn''), (''capacity-rebalance'', ''CapacityRebalance'')]"

definition update_validate :: "pydict \<Rightarrow> unit res" where
  "update_validate data = (if list_ex (dhas data) (dkeys settings_map) then Inr () else Inl PolicyValidationError)"

definition update_settings :: "pydict \<Rightarrow> pydict" where
  "update_settings data = concat (map (\<lambda>(k, p). case dget data k of None \<Rightarrow> [] | Some v \<Rightarrow> [(p, v)]) settings_map)"

definition asg_update :: "'w service \<Rightarrow> pydict \<Rightarrow> pydict list \<Rightarrow> ('w, unit) eff" where
  "asg_update call data asgs w = (case run_batches (\<lambda>a. andthen (lift (dindex a ''AutoScalingGroupName'')) (\<lambda>name.
       ask call ''update_auto_scaling_group'' ((''AutoScalingGroupName'', name) # update_settings data))) asgs None w of
      (None, w') \<Rightarrow> (Inr (), w')
    | (Some e, w') \<Rightarrow> (Inl e, w'))"

definition launch_config_delete :: "'w service \<Rightarrow> pydict list \<Rightarrow> ('w, unit) eff" where
  "launch_config_delete call configs = each (\<lambda>c. andthen (lift (dindex c ''LaunchConfigurationName'')) (\<lambda>name.
     ask_ignoring [''ValidationError''] call ''delete_launch_configuration'' [(''LaunchConfigurationName'', name)])) configs"

section \<open>Facts\<close>

subsection \<open>Sizes saved and restored\<close>

lemma str_of_int_chars: "c \<in> set (str_of_int i) \<Longrightarrow> c = CHR ''-'' \<or> is_digit c"
  using str_of_nat_digits by (auto simp: str_of_int_def list_all_iff split: if_splits)

lemma not_digits: "\<not> is_digit CHR '';''" "\<not> is_digit CHR ''=''"
  by (simp_all add: is_digit_def)

lemma plain_number: "CHR '';'' \<notin> set (str_of_int i)" "CHR ''='' \<notin> set (str_of_int i)"
  using str_of_int_chars not_digits by fastforce+

definition size_field :: "string \<times> int \<Rightarrow> string" where
  "size_field p = fst p @ ''='' @ str_of_int (snd p)"

lemma restore_size_field:
  "k \<in> set asg_params \<Longrightarrow> restore_field u (size_field (k, i)) = Inr (dput k (PInt i) u)"
  by (auto simp: restore_field_def size_field_def split_char_append split_char_no_sep plain_number int_of_str_of_int asg_params_def)

lemma restore_size_fields:
  "set (map fst ps) \<subseteq> set asg_params \<Longrightarrow>
   rfold restore_field u (map size_field ps) = Inr (dupdate u (map (\<lambda>(k, i). (k, PInt i)) ps))"
  by (induction ps arbitrary: u) (auto simp: restore_size_field)

lemma fields_plain: "set (map fst ps) \<subseteq> set asg_params \<Longrightarrow> f \<in> set (map size_field ps) \<Longrightarrow> CHR '';'' \<notin> set f"
  using plain_number by (auto simp: size_field_def asg_params_def)

text \<open>Fields listed in another order are those of the pairs in another order.\<close>

lemma reordered_fields: "mset ys = mset (map size_field ps) \<Longrightarrow> \<exists>qs. ys = map size_field qs \<and> mset qs = mset ps"
proof (induction ys arbitrary: ps)
  case (Cons y ys)
  then have "y \<in> set (map size_field ps)" by (metis list.set_intros(1) set_mset_mset)
  then obtain p where p: "p \<in> set ps" "y = size_field p" by auto
  have "image_mset size_field (mset ps) = add_mset (size_field p) (mset ys)" using Cons.prems p by simp
  then have "mset (map size_field (remove1 p ps)) = mset ys" using p by (simp add: image_mset_Diff)
  then obtain qs where "ys = map size_field qs" "mset qs = mset (remove1 p ps)"
    using Cons.IH[of "remove1 p ps"] by auto
  then have "y # ys = map size_field (p # qs)" "mset (p # qs) = mset ps" using p by simp_all
  then show ?case by (intro exI[of _ "p # qs"] conjI)
qed simp

text \<open>C13: The sizes of a group that are saved in a tag, in whatever order they are listed, are those a group with this tag
  is given when its sizes are restored from it, whatever else the tags and the group hold.\<close>

theorem sizes_restored:
  assumes "dget a ''MinSize'' = Some (PInt i)" "dget a ''MaxSize'' = Some (PInt j)" "dget a ''DesiredCapacity'' = Some (PInt k)"
    and "saved_sizes order a = Inr s" "\<And>xs. mset (order xs) = mset xs"
    and "dget data ''restore-options-tag'' = Some (PStr t)" "asg_tag_map b = Inr tags" "dget tags t = Some (PStr s)"
    and "dget b ''Instances'' = Some (PList is)" "dget b ''AutoScalingGroupName'' = Some name"
  shows "\<exists>u. resize_update data b = Inr u \<and>
    (\<forall>p. dget u p = (if p \<in> set asg_params then dget a p else None))"
proof -
  let ?ps = "[(''MinSize'', i), (''MaxSize'', j), (''DesiredCapacity'', k)]"
  have s: "s = join '';'' (order (map size_field ?ps))"
    using assms(1-4) by (simp add: saved_sizes_def asg_params_def dindex_def percent_d_def size_field_def)
  obtain qs where qs: "order (map size_field ?ps) = map size_field qs" "mset qs = mset ?ps"
    using reordered_fields assms(5) by blast
  have firsts: "mset (map fst qs) = mset asg_params" by (simp add: qs(2) asg_params_def)
  have keys: "set (map fst qs) = set asg_params" "distinct (map fst qs)" "qs \<noteq> []"
    by (rule mset_eq_setD[OF firsts], simp add: mset_eq_imp_distinct_iff[OF firsts] asg_params_def,
        rule notI, use firsts in \<open>simp add: asg_params_def\<close>)
  have split: "split_char CHR '';'' s = map size_field qs"
    unfolding s qs(1) by (rule split_char_join) (use keys fields_plain[of qs] in simp_all)
  let ?us = "map (\<lambda>(k, i). (k, PInt i)) qs"
  have "resize_update data b = Inr (dupdate [] ?us)"
    using assms(6-10) keys(1) by (simp add: resize_update_def dindex_def restored_sizes_def split restore_size_fields)
  moreover have "dget (dupdate [] ?us) p = (if p \<in> set asg_params then dget a p else None)" for p
  proof -
    have "map fst ?us = map fst qs" by auto
    then have d: "dwf ?us" using keys(2) by (simp only: dwf_def dkeys_def)
    then have "dget (dupdate [] ?us) p = dget ?us p" by (simp add: dget_dupdate)
    also have "\<dots> = (if p \<in> set asg_params then dget a p else None)"
    proof (cases "p \<in> set asg_params")
      case True
      then obtain v where v: "(p, v) \<in> set ?ps" "dget a p = Some (PInt v)" using assms(1-3) by (auto simp: asg_params_def)
      then have "(p, PInt v) \<in> set ?us" using mset_eq_setD[OF qs(2)] by force
      with d have "dget ?us p = Some (PInt v)" by (simp add: dwf_def dkeys_def)
      with True v show ?thesis by simp
    next
      case False
      then have "p \<notin> set (dkeys ?us)" using keys(1) \<open>map fst ?us = map fst qs\<close> by (simp add: dkeys_def)
      with False show ?thesis by (simp add: dget_None_iff)
    qed
    finally show ?thesis .
  qed
  ultimately show ?thesis by blast
qed

definition ex_asg_sized :: pydict where
  "ex_asg_sized = [(''MinSize'', PInt 1), (''MaxSize'', PInt 12), (''DesiredCapacity'', PInt 3)]"

definition ex_asg_saved :: pydict where
  "ex_asg_saved = [(''AutoScalingGroupName'', PStr ''x''), (''Instances'', PList []), (''MinSize'', PInt 0),
     (''Tags'', PList [PDict [(''Key'', PStr ''before''), (''Value'', PStr ''DesiredCapacity=3;MaxSize=12;MinSize=1'')]])]"

theorem sizes_restored_witness:
  "\<exists>u. resize_update [(''restore-options-tag'', PStr ''before'')] ex_asg_saved = Inr u \<and> dget u ''MaxSize'' = Some (PInt 12) \<and>
     dget u ''Instances'' = None"
proof -
  have a: "dget ex_asg_sized ''MinSize'' = Some (PInt 1)" "dget ex_asg_sized ''MaxSize'' = Some (PInt 12)"
    "dget ex_asg_sized ''DesiredCapacity'' = Some (PInt 3)"
    "saved_sizes rev ex_asg_sized = Inr ''DesiredCapacity=3;MaxSize=12;MinSize=1''"
    by code_simp+
  have order: "mset (rev xs) = mset xs" for xs :: "string list" by simp
  have b: "dget [(''restore-options-tag'', PStr ''before'')] ''restore-options-tag'' = Some (PStr ''before'')"
    "asg_tag_map ex_asg_saved = Inr [(''before'', PStr ''DesiredCapacity=3;MaxSize=12;MinSize=1'')]"
    "dget [(''before'', PStr ''DesiredCapacity=3;MaxSize=12;MinSize=1'')] ''before'' = Some (PStr ''DesiredCapacity=3;MaxSize=12;MinSize=1'')"
    "dget ex_asg_saved ''Instances'' = Some (PList [])" "dget ex_asg_saved ''AutoScalingGroupName'' = Some (PStr ''x'')"
    by code_simp+
  from sizes_restored[OF a order b] a(2) show ?thesis by (auto simp: asg_params_def)
qed

subsection \<open>Tags of instances\<close>

lemma count_distinct_lists:
  "list_all distinct kss \<Longrightarrow> count_list (concat kss) k = length (filter (\<lambda>ks. k \<in> set ks) kss)"
proof (induction kss)
  case (Cons ks kss)
  have "distinct ks \<Longrightarrow> count_list ks k = (if k \<in> set ks then 1 else 0)" by (induction ks) auto
  with Cons show ?case by simp
qed simp

lemma everywhere_iff: "list_all distinct kss \<Longrightarrow> length kss \<le> count_list (concat kss) k \<longleftrightarrow> list_all (\<lambda>ks. k \<in> set ks) kss"
  using filter_full[of "\<lambda>ks. k \<in> set ks" kss] length_filter_le[of "\<lambda>ks. k \<in> set ks" kss]
  by (simp add: count_distinct_lists order_antisym_conv eq_commute[of "length kss"])

lemma pruned_iff:
  assumes "list_all distinct kss"
  shows "k \<in> set (keys_to_prune tag_set kss) \<longleftrightarrow>
    (\<exists>ks \<in> set kss. k \<in> set ks) \<and> \<not> (list_all (\<lambda>ks. k \<in> set ks) kss \<and> k \<in> set tag_set)"
  using everywhere_iff[OF assms] by (auto simp: keys_to_prune_def Let_def)

text \<open>What instances have after some keys are deleted and the tags of the group written.\<close>

definition instance_after :: "string list \<Rightarrow> (string \<rightharpoonup> pyval) \<Rightarrow> (string \<rightharpoonup> pyval) \<Rightarrow> string \<rightharpoonup> pyval" where
  "instance_after pruned tags old = (\<lambda>k. if k \<in> set pruned then None else old k) ++ tags"



text \<open>The error of tagging groups is never raised.\<close>

lemma each_logged_returns: "fst (each_logged f rs w) = Inr ()"
  by (induction rs arbitrary: w) simp_all

lemma tag_errors_swallowed:
  "asg_tag_spec data = Inr spec \<Longrightarrow> asg_tag_sets E params spec asgs = Inr sets \<Longrightarrow>
   fst (asg_tag_process call E params data asgs w) = Inr ()"
  by (simp add: asg_tag_process_def each_logged_returns)

text \<open>With nothing to prune, tags are deleted all the same, with no key.\<close>

lemma nothing_to_prune:
  "rmap own_keys instances = Inr kss \<Longrightarrow> keys_to_prune tag_set kss = [] \<Longrightarrow> rmap (\<lambda>i. dindex i ''InstanceId'') instances = Inr ids \<Longrightarrow>
   prune_instance_tags recorder False tag_set instances w =
     (Inr (), w @ [(''delete_instance_tags'', [(''Resources'', PList ids), (''Tags'', PList [])])])"
  by (simp add: prune_instance_tags_def)

end
