(* ===== verification/Values_From.thy ===== *)
theory Values_From
  imports Caches Utils_Data "HOL-Library.List_Lexorder" "HOL-Library.Char_ord" "HOL-Library.Product_Lexorder"
begin

text \<open>
  Values a filter takes from a URL (\<open>c7n/resolver.py\<close>): what a URI is resolved by, how its
  contents are read as JSON, CSV or text, and the cache that keeps both the contents and the
  values. A set is the list of its members in order of first appearance.
\<close>

section \<open>The network\<close>

datatype body = Text string | Bytes string

text \<open>
  What lies outside: parsing of URLs and query strings, requests over HTTP (the encoding and
  body of the answer), objects of S3 by region and parameters, handlers registered for
  other schemes, the bytes of texts, the digest, and DynamoDB's pages of rows.
\<close>

record web =
  wb_url :: "string \<Rightarrow> (string \<times> string \<times> string \<times> string) res"
  wb_query :: "string \<Rightarrow> (string \<times> string) list res"
  wb_open :: "string \<Rightarrow> pydict \<Rightarrow> (string option \<times> string) res"
  wb_object :: "string option \<Rightarrow> (string, string) odict \<Rightarrow> body res"
  wb_providers :: "(string, string \<Rightarrow> pyval res) odict"
  wb_unzip :: "string \<Rightarrow> string res"
  wb_utf8 :: "string \<Rightarrow> string res"
  wb_digest :: "string \<Rightarrow> string"
  wb_json :: "string \<Rightarrow> pyval res"
  wb_rows :: "string \<Rightarrow> pydict list list res"

section \<open>Keys of the cache\<close>

datatype vf_key = UriKey string | UriDigestKey string string | ValueKey "pyval list"

text \<open>\<open>json.dumps\<close> of a string: the text is ASCII, other characters are escaped.\<close>

definition json_escapes :: "char \<Rightarrow> char option" where
  "json_escapes c =
     (if c = CHR 0x22 then Some (CHR 0x22) else if c = CHR 0x5C then Some (CHR 0x5C)
      else if c = CHR 0x0A then Some (CHR ''n'') else if c = CHR 0x0D then Some (CHR ''r'')
      else if c = CHR 0x09 then Some (CHR ''t'') else if c = CHR 0x08 then Some (CHR ''b'')
      else if c = CHR 0x0C then Some (CHR ''f'') else None)"

definition hex_digit :: "nat \<Rightarrow> char" where
  "hex_digit n = (if n < 10 then char_of (48 + n) else char_of (87 + n))"

definition json_char :: "char \<Rightarrow> string" where
  "json_char c = (case json_escapes c of
      Some e \<Rightarrow> [CHR 0x5C, e]
    | None \<Rightarrow> let n = of_char c :: nat in
        if 32 \<le> n \<and> n < 127 then [c]
        else [CHR 0x5C, CHR ''u'', CHR ''0'', CHR ''0'', hex_digit (n div 16), hex_digit (n mod 16)])"

definition json_string :: "string \<Rightarrow> string" where
  "json_string s = CHR 0x22 # concat (map json_char s) @ [CHR 0x22]"

definition json_pair :: "string \<times> string \<Rightarrow> string" where
  "json_pair p = ''['' @ json_string (fst p) @ '','' @ json_string (snd p) @ '']''"

definition json_pairs :: "(string \<times> string) list \<Rightarrow> string" where
  "json_pairs ps = ''['' @ join '','' (map json_pair ps) @ '']''"

text \<open>The values of headers are strings, as the schema has it.\<close>

definition canonical_headers :: "pydict \<Rightarrow> (string \<times> string) list res" where
  "canonical_headers h = rbind (rmap (\<lambda>(k, v). case v of PStr s \<Rightarrow> Inr (lower k, s) | _ \<Rightarrow> Inl TypeError) h) (\<lambda>ps. Inr (sort ps))"

definition get_cache_key :: "web \<Rightarrow> string \<Rightarrow> pyval \<Rightarrow> vf_key res" where
  "get_cache_key W uri headers =
     (if \<not> py_truth headers then Inr (UriKey uri)
      else case headers of
          PDict h \<Rightarrow> rbind (canonical_headers h) (\<lambda>ps. Inr (UriDigestKey uri (wb_digest W (json_pairs ps))))
        | _ \<Rightarrow> Inl AttributeError)"

section \<open>Resolving\<close>

definition handle_response_encoding :: "web \<Rightarrow> string option \<times> string \<Rightarrow> string res" where
  "handle_response_encoding W response = (case response of (encoding, data) \<Rightarrow>
     if encoding \<noteq> Some ''gzip'' then wb_utf8 W data else rbind (wb_unzip W data) (wb_utf8 W))"

definition name_ends :: "string \<Rightarrow> string \<Rightarrow> bool" where
  "name_ends suffix s = starts_with (rev s) (rev suffix)"

definition packed_name :: "string \<Rightarrow> bool" where
  "packed_name k = list_ex (\<lambda>e. name_ends e (lower k)) [''.gz'', ''.zip'', ''.gzip'']"

definition s3_params :: "web \<Rightarrow> string \<Rightarrow> (string, string) odict res" where
  "s3_params W uri =
     rbind (wb_url W uri) (\<lambda>(scheme, netloc, path, query).
     let params = [(''Bucket'', netloc), (''Key'', drop 1 path)]
     in if query = [] then Inr params
        else rbind (wb_query W query) (\<lambda>qs. Inr (dupdate params (dupdate [] qs))))"

definition get_s3_uri :: "web \<Rightarrow> string \<Rightarrow> string res" where
  "get_s3_uri W uri =
     rbind (s3_params W uri) (\<lambda>params.
     let region = dget params ''region''; params = ddel ''region'' params
     in rbind (wb_object W region params) (\<lambda>b.
        rbind (dindex params ''Key'') (\<lambda>k.
        if packed_name k
        then (case b of Bytes s \<Rightarrow> rbind (wb_unzip W s) (wb_utf8 W) | Text s \<Rightarrow> Inl TypeError)
        else (case b of Text s \<Rightarrow> Inr s | Bytes s \<Rightarrow> wb_utf8 W s))))"

text \<open>The request of a URI with headers, which accepts a packed answer.\<close>

definition request_headers :: "pyval \<Rightarrow> pydict res" where
  "request_headers headers = (case headers of
      PDict h \<Rightarrow> Inr (dput ''Accept-Encoding'' (PStr ''gzip'') h) | _ \<Rightarrow> Inl TypeError)"

definition fetch_uri :: "web \<Rightarrow> string \<Rightarrow> pyval \<Rightarrow> pyval res" where
  "fetch_uri W uri headers =
     rbind (wb_url W uri) (\<lambda>(scheme, netloc, path, query).
     if starts_with uri ''s3://'' then rbind (get_s3_uri W uri) (\<lambda>s. Inr (PStr s))
     else if scheme \<in> {''http'', ''https'', ''file''}
     then rbind (request_headers headers) (\<lambda>h. rbind (wb_open W uri h) (\<lambda>response.
          rbind (handle_response_encoding W response) (\<lambda>s. Inr (PStr s))))
     else case dget (wb_providers W) scheme of
         Some handler \<Rightarrow> handler uri
       | None \<Rightarrow> Inl ValueError)"

text \<open>What was saved as None counts as absent.\<close>

definition known :: "('c \<Rightarrow> vf_key \<Rightarrow> pyval option) \<Rightarrow> 'c \<Rightarrow> vf_key \<Rightarrow> pyval option" where
  "known cget c k = (case cget c k of Some v \<Rightarrow> if v = PNone then None else Some v | None \<Rightarrow> None)"

definition resolve :: "('c \<Rightarrow> vf_key \<Rightarrow> pyval option) \<Rightarrow> ('c \<Rightarrow> vf_key \<Rightarrow> pyval \<Rightarrow> 'c) \<Rightarrow> web \<Rightarrow> string \<Rightarrow> pyval \<Rightarrow> 'c \<Rightarrow> (pyval \<times> 'c) res" where
  "resolve cget csave W uri headers c =
     rbind (get_cache_key W uri headers) (\<lambda>k.
     case known cget c k of
       Some v \<Rightarrow> Inr (v, c)
     | None \<Rightarrow> rbind (fetch_uri W uri headers) (\<lambda>v. Inr (v, csave c k v)))"

section \<open>Reading CSV\<close>

text \<open>\<open>io.StringIO\<close> read by lines, which keep their newline.\<close>

fun io_lines :: "string \<Rightarrow> string list" where
  "io_lines [] = []"
| "io_lines (c # cs) =
     (if c = CHR 0x0A then [c] # io_lines cs
      else case io_lines cs of [] \<Rightarrow> [[c]]
        | l # ls \<Rightarrow> (c # l) # ls)"

text \<open>
  \<open>csv.reader\<close> with its usual dialect: a state, the field being read and the fields of the row
  before it. A character is None at the end of a line. A newline in the middle of a line
  (a carriage return that others follow) is an error of the module.
\<close>

datatype csv_state = StartRecord | StartField | InField | InQuoted | QuoteInQuoted | EatNewline

record csv_reader =
  cs_state :: csv_state
  cs_field :: string
  cs_row :: "string list"

definition csv_start :: csv_reader where
  "csv_start = \<lparr>cs_state = StartRecord, cs_field = [], cs_row = []\<rparr>"

definition save_field :: "csv_state \<Rightarrow> csv_reader \<Rightarrow> csv_reader" where
  "save_field st r = r\<lparr>cs_state := st, cs_field := [], cs_row := cs_row r @ [cs_field r]\<rparr>"

definition add_char :: "csv_state \<Rightarrow> char \<Rightarrow> csv_reader \<Rightarrow> csv_reader" where
  "add_char st c r = r\<lparr>cs_state := st, cs_field := cs_field r @ [c]\<rparr>"

definition is_newline :: "char \<Rightarrow> bool" where
  "is_newline c \<longleftrightarrow> c = CHR 0x0A \<or> c = CHR 0x0D"

definition csv_in_field :: "char option \<Rightarrow> csv_reader \<Rightarrow> csv_reader" where
  "csv_in_field oc r = (case oc of
      None \<Rightarrow> save_field StartRecord r
    | Some c \<Rightarrow> if is_newline c then save_field EatNewline r
        else if c = CHR '','' then save_field StartField r else add_char InField c r)"

definition csv_start_field :: "char option \<Rightarrow> csv_reader \<Rightarrow> csv_reader" where
  "csv_start_field oc r = (if oc = Some (CHR 0x22) then r\<lparr>cs_state := InQuoted\<rparr> else csv_in_field oc r)"

definition csv_char :: "csv_reader \<Rightarrow> char option \<Rightarrow> csv_reader res" where
  "csv_char r oc = (case cs_state r of
      StartRecord \<Rightarrow> (case oc of
          None \<Rightarrow> Inr r
        | Some c \<Rightarrow> Inr (if is_newline c then r\<lparr>cs_state := EatNewline\<rparr> else csv_start_field oc r))
    | StartField \<Rightarrow> Inr (csv_start_field oc r)
    | InField \<Rightarrow> Inr (csv_in_field oc r)
    | InQuoted \<Rightarrow> Inr (case oc of
          None \<Rightarrow> r
        | Some c \<Rightarrow> if c = CHR 0x22 then r\<lparr>cs_state := QuoteInQuoted\<rparr> else add_char InQuoted c r)
    | QuoteInQuoted \<Rightarrow> Inr (if oc = Some (CHR 0x22) then add_char InQuoted (CHR 0x22) r else csv_in_field oc r)
    | EatNewline \<Rightarrow> (case oc of
          None \<Rightarrow> Inr (r\<lparr>cs_state := StartRecord\<rparr>)
        | Some c \<Rightarrow> if is_newline c then Inr r else Inl ExternalError))"

definition csv_line :: "csv_reader \<Rightarrow> string \<Rightarrow> csv_reader res" where
  "csv_line r l = rfold csv_char r (map Some l @ [None])"

text \<open>The rows of some lines, and whether reading them ended with an error.\<close>

fun csv_rows :: "csv_reader \<Rightarrow> string list \<Rightarrow> string list list \<times> bool" where
  "csv_rows r [] =
     (if cs_field r \<noteq> [] \<or> cs_state r = InQuoted then ([cs_row r @ [cs_field r]], False) else ([], False))"
| "csv_rows r (l # ls) = (case csv_line r l of
      Inl e \<Rightarrow> ([], True)
    | Inr r' \<Rightarrow> if cs_state r' = StartRecord
        then (let (rows, bad) = csv_rows csv_start ls in (cs_row r' # rows, bad))
        else csv_rows r' ls)"

definition csv_read :: "string \<Rightarrow> string list list \<times> bool" where
  "csv_read contents = csv_rows csv_start (io_lines contents)"

section \<open>Values\<close>

text \<open>\<open>set(...)\<close> of strings.\<close>

definition string_set :: "string list \<Rightarrow> pyval" where
  "string_set ss = PList (map PStr (rev (remdups (rev ss))))"

text \<open>\<open>_get_resource_values\<close>.\<close>

definition get_resource_values :: "ext \<Rightarrow> pydict \<Rightarrow> pyval \<Rightarrow> pyval res" where
  "get_resource_values E data d =
     rbind (dindex data ''expr'') (\<lambda>e.
     rbind (case e of PStr s \<Rightarrow> ext_jmes E s d | _ \<Rightarrow> Inl TypeError) (\<lambda>res.
     if is_list res then rbind (py_set res) (\<lambda>xs. Inr (PList xs)) else Inr res))"

text \<open>\<open>os.path.splitext\<close>: the last dot of the last part of a path, unless only dots come before it.\<close>

definition splitext_ext :: "string \<Rightarrow> string" where
  "splitext_ext p =
     (let name = rev (takeWhile (\<lambda>c. c \<noteq> CHR ''/'') (rev p)); rest = dropWhile (\<lambda>c. c = CHR ''.'') name
      in if CHR ''.'' \<in> set rest then CHR ''.'' # rev (takeWhile (\<lambda>c. c \<noteq> CHR ''.'') (rev rest)) else [])"

definition supported_formats :: "string list" where
  "supported_formats = [''json'', ''txt'', ''csv'', ''csv2dict'']"

definition url_of :: "pydict \<Rightarrow> string res" where
  "url_of data = rbind (dindex data ''url'') (\<lambda>u. case u of PStr s \<Rightarrow> Inr s | _ \<Rightarrow> Inl TypeError)"

definition format_of :: "pydict \<Rightarrow> string \<Rightarrow> pyval" where
  "format_of data url =
     (let ext = splitext_ext url
      in if ext = [] \<or> py_truth (dget_or data ''format'' PNone) then dget_or data ''format'' (PStr []) else PStr (drop 1 ext))"

definition supported :: "pyval \<Rightarrow> string res" where
  "supported f = (case f of PStr s \<Rightarrow> if s \<in> set supported_formats then Inr s else Inl ValueError | _ \<Rightarrow> Inl ValueError)"

definition get_contents ::
  "('c \<Rightarrow> vf_key \<Rightarrow> pyval option) \<Rightarrow> ('c \<Rightarrow> vf_key \<Rightarrow> pyval \<Rightarrow> 'c) \<Rightarrow> ext \<Rightarrow> web \<Rightarrow> pydict \<Rightarrow> 'c \<Rightarrow> (string \<times> string \<times> 'c) res" where
  "get_contents cget csave E W data c =
     rbind (url_of data) (\<lambda>url.
     rbind (supported (format_of data url)) (\<lambda>f.
     rbind (resolve cget csave W url (dget_or data ''headers'' (PDict [])) c) (\<lambda>(v, c').
       Inr (py_str E v, f, c'))))"

text \<open>\<open>{x[0]: list(x[1:]) for x in zip(*rows)}\<close>: the columns of the rows, up to the shortest.\<close>

definition csv_columns :: "string list list \<Rightarrow> string list list" where
  "csv_columns rows = (if rows = [] then []
     else map (\<lambda>i. map (\<lambda>r. r ! i) rows) [0 ..< Min (set (map length rows))])"

definition csv_dict :: "string list list \<Rightarrow> (string, string list) odict" where
  "csv_dict rows = fold (\<lambda>x d. dput (hd x) (tl x) d) (csv_columns (filter (\<lambda>r. r \<noteq> []) rows)) []"

definition strings :: "string list \<Rightarrow> pyval" where
  "strings ss = PList (map PStr ss)"

text \<open>\<open>d[i]\<close> of a row.\<close>

definition row_index :: "int \<Rightarrow> string list \<Rightarrow> string res" where
  "row_index i d =
     (let n = int (length d); j = (if i < 0 then i + n else i)
      in if 0 \<le> j \<and> j < n then Inr (d ! nat j) else Inl IndexError)"

definition whole :: "string list list \<times> bool \<Rightarrow> string list list res" where
  "whole rb = (if snd rb then Inl ExternalError else Inr (fst rb))"

definition csv_values :: "ext \<Rightarrow> pydict \<Rightarrow> string \<Rightarrow> pyval res" where
  "csv_values E data contents =
     (let rb = csv_read contents
      in case dget_or data ''expr'' PNone of
           PInt i \<Rightarrow> rbind (rmap (row_index i) (filter (\<lambda>d. d \<noteq> []) (fst rb))) (\<lambda>ss. rbind (whole rb) (\<lambda>_. Inr (string_set ss)))
         | PBool b \<Rightarrow> rbind (rmap (row_index (if b then 1 else 0)) (filter (\<lambda>d. d \<noteq> []) (fst rb))) (\<lambda>ss.
             rbind (whole rb) (\<lambda>_. Inr (string_set ss)))
         | _ \<Rightarrow> rbind (whole rb) (\<lambda>rows.
             if dhas data ''expr'' then get_resource_values E data (PList (map strings rows))
             else Inr (string_set (concat rows))))"

definition csv2dict_values :: "ext \<Rightarrow> pydict \<Rightarrow> string \<Rightarrow> pyval res" where
  "csv2dict_values E data contents =
     rbind (whole (csv_read contents)) (\<lambda>rows.
     let d = csv_dict rows
     in if dhas data ''expr'' then get_resource_values E data (PDict (map (\<lambda>(k, v). (k, strings v)) d))
        else Inr (string_set (concat (dvalues d))))"

definition read_values :: "ext \<Rightarrow> web \<Rightarrow> pydict \<Rightarrow> string \<Rightarrow> string \<Rightarrow> pyval res" where
  "read_values E W data contents f =
     (if f = ''json''
      then rbind (wb_json W contents) (\<lambda>d. if dhas data ''expr'' then get_resource_values E data d else Inr d)
      else if f = ''csv2dict'' then csv2dict_values E data contents
      else if f = ''csv'' then csv_values E data contents
      else Inr (string_set (map strip (io_lines contents))))"

text \<open>
  \<open>_get_ddb_values\<close>: from the first row with one column on, rows stand for the value of their
  first column.
\<close>

fun ddb_rows :: "bool \<Rightarrow> pydict list \<Rightarrow> (bool \<times> pyval list) res" where
  "ddb_rows single [] = Inr (single, [])"
| "ddb_rows single (r # rs) =
     (let single = (single \<or> length r = 1)
      in rbind (if single then (case r of [] \<Rightarrow> Inl IndexError | (k, v) # _ \<Rightarrow> Inr v) else Inr (PDict r)) (\<lambda>x.
         rbind (ddb_rows single rs) (\<lambda>(single', xs). Inr (single', x # xs))))"

definition get_ddb_values :: "ext \<Rightarrow> web \<Rightarrow> pydict \<Rightarrow> pyval res" where
  "get_ddb_values E W data =
     rbind (dindex data ''query'') (\<lambda>q.
     if \<not> py_truth q then Inr PNone
     else case q of
         PStr s \<Rightarrow>
           if \<not> starts_with (lower s) ''select'' then Inr PNone
           else rbind (wb_rows W s) (\<lambda>pages.
                rbind (ddb_rows False (concat pages)) (\<lambda>(single, results).
                if \<not> single \<or> py_truth (dget_or data ''expr'' PNone) then get_resource_values E data (PList results)
                else Inr (PList results)))
       | _ \<Rightarrow> Inl AttributeError)"

text \<open>\<open>_get_values\<close> and \<open>get_values\<close>.\<close>

definition get_url_values ::
  "('c \<Rightarrow> vf_key \<Rightarrow> pyval option) \<Rightarrow> ('c \<Rightarrow> vf_key \<Rightarrow> pyval \<Rightarrow> 'c) \<Rightarrow> ext \<Rightarrow> web \<Rightarrow> pydict \<Rightarrow> 'c \<Rightarrow> (pyval \<times> 'c) res" where
  "get_url_values cget csave E W data c =
     rbind (get_contents cget csave E W data c) (\<lambda>(contents, f, c').
     rbind (read_values E W data contents f) (\<lambda>v. Inr (v, c')))"

definition values_key :: "pydict \<Rightarrow> vf_key" where
  "values_key data = ValueKey (map (\<lambda>k. dget_or data k PNone) [''url'', ''format'', ''expr'', ''headers'', ''query''])"

definition get_values ::
  "('c \<Rightarrow> vf_key \<Rightarrow> pyval option) \<Rightarrow> ('c \<Rightarrow> vf_key \<Rightarrow> pyval \<Rightarrow> 'c) \<Rightarrow> ext \<Rightarrow> web \<Rightarrow> pydict \<Rightarrow> 'c \<Rightarrow> (pyval \<times> 'c) res" where
  "get_values cget csave E W data c =
     (case known cget c (values_key data) of
        Some v \<Rightarrow> Inr (v, c)
      | None \<Rightarrow>
          rbind (url_of data) (\<lambda>url.
          rbind (if url = ''dynamodb'' then rbind (get_ddb_values E W data) (\<lambda>v. Inr (v, c))
                 else get_url_values cget csave E W data c) (\<lambda>(v, c').
            Inr (v, csave c' (values_key data) v))))"

section \<open>A key stands for the headers it was made of\<close>

definition unescape :: "char \<Rightarrow> char" where
  "unescape e = (if e = CHR ''n'' then CHR 0x0A else if e = CHR ''r'' then CHR 0x0D else if e = CHR ''t'' then CHR 0x09
     else if e = CHR ''b'' then CHR 0x08 else if e = CHR ''f'' then CHR 0x0C else e)"

definition unhex :: "char \<Rightarrow> nat" where
  "unhex c = (let n = of_char c in if n < 58 then n - 48 else n - 87)"

definition next_char :: "string \<Rightarrow> char \<times> string" where
  "next_char s =
     (if hd s \<noteq> CHR 0x5C then (hd s, tl s)
      else if s ! 1 = CHR ''u'' then (char_of (16 * unhex (s ! 4) + unhex (s ! 5)), drop 6 s)
      else (unescape (s ! 1), drop 2 s))"

lemma unhex_all: "list_all (\<lambda>n. unhex (hex_digit n) = n) [0 ..< 16]"
  by code_simp

lemma unhex_digit: "n < 16 \<Longrightarrow> unhex (hex_digit n) = n"
  using unhex_all unfolding list_all_iff by simp

lemma json_escapes_undone:
  "json_escapes c = Some e \<Longrightarrow> unescape e = c \<and> e \<noteq> CHR ''u''"
  by (auto simp: json_escapes_def unescape_def split: if_splits)

lemma next_json_char: "next_char (json_char c @ x) = (c, x)"
proof (cases "json_escapes c")
  case (Some e)
  with json_escapes_undone[OF Some] show ?thesis by (simp add: json_char_def next_char_def)
next
  case None
  then have plain: "c \<noteq> CHR 0x5C" by (auto simp: json_escapes_def)
  have "(of_char c :: nat) < 256" by simp
  then have "(of_char c :: nat) div 16 < 16" by (simp add: less_mult_imp_div_less)
  then have "16 * unhex (hex_digit (of_char c div 16)) + unhex (hex_digit (of_char c mod 16)) = (of_char c :: nat)"
    by (simp add: unhex_digit)
  then show ?thesis using None plain by (simp add: json_char_def next_char_def Let_def)
qed

lemma json_char_inj:
  assumes "json_char c @ x = json_char d @ y"
  shows "c = d \<and> x = y"
proof -
  have "(c, x) = (d, y)" using next_json_char[of c x] next_json_char[of d y] unfolding assms by (rule trans[OF sym])
  then show ?thesis by simp
qed

lemma json_char_hd: "json_char c \<noteq> [] \<and> hd (json_char c) \<noteq> CHR 0x22"
proof (cases "json_escapes c")
  case None
  then have "c \<noteq> CHR 0x22" by (auto simp: json_escapes_def)
  with None show ?thesis by (simp add: json_char_def Let_def)
qed (simp add: json_char_def)

lemma json_char_no_quote: "CHR 0x22 # x \<noteq> json_char c @ y"
  using json_char_hd[of c] by (cases "json_char c") auto

lemma json_chars_inj:
  "concat (map json_char s) @ CHR 0x22 # x = concat (map json_char t) @ CHR 0x22 # y \<Longrightarrow> s = t \<and> x = y"
proof (induction s arbitrary: t)
  case Nil
  then show ?case using json_char_no_quote by (cases t) simp_all
next
  case (Cons c s)
  show ?case
  proof (cases t)
    case Nil
    with Cons.prems json_char_no_quote[of y c] show ?thesis by (simp add: eq_commute)
  next
    case (Cons d t')
    with Cons.prems have "json_char c @ concat (map json_char s) @ CHR 0x22 # x = json_char d @ concat (map json_char t') @ CHR 0x22 # y"
      by simp
    from json_char_inj[OF this] Cons.IH[of t'] Cons show ?thesis by simp
  qed
qed

lemma json_string_inj:
  assumes "json_string s @ x = json_string t @ y"
  shows "s = t \<and> x = y"
proof (rule json_chars_inj)
  show "concat (map json_char s) @ CHR 0x22 # x = concat (map json_char t) @ CHR 0x22 # y"
    using assms unfolding json_string_def append_Cons append.assoc append_Nil by (rule list.inject[THEN iffD1, THEN conjunct2])
qed

lemma json_pair_inj:
  assumes "json_pair p @ x = json_pair q @ y"
  shows "p = q \<and> x = y"
proof -
  have "json_string (fst p) @ CHR '','' # json_string (snd p) @ CHR '']'' # x =
      json_string (fst q) @ CHR '','' # json_string (snd q) @ CHR '']'' # y"
    using assms unfolding json_pair_def append_Cons append.assoc append_Nil by (rule list.inject[THEN iffD1, THEN conjunct2])
  from json_string_inj[OF this] have fst_eq: "fst p = fst q"
    and rest: "json_string (snd p) @ CHR '']'' # x = json_string (snd q) @ CHR '']'' # y"
    by (rule conjunct1, blast dest: list.inject[THEN iffD1])
  from json_string_inj[OF rest] fst_eq show ?thesis by (simp only: prod_eq_iff list.inject simp_thms)
qed

lemma join_Cons: "join sep (s # ss) = s @ concat (map (\<lambda>t. sep @ t) ss)"
  by (induction ss arbitrary: s) simp_all

lemma json_tail_inj:
  "concat (map (\<lambda>t. '','' @ t) (map json_pair ps)) @ '']'' = concat (map (\<lambda>t. '','' @ t) (map json_pair qs)) @ '']'' \<Longrightarrow> ps = qs"
proof (induction ps arbitrary: qs)
  case Nil
  then show ?case by (cases qs) auto
next
  case (Cons p ps)
  then obtain q qs' where qs: "qs = q # qs'" by (cases qs) auto
  with Cons.prems have "json_pair p @ concat (map (\<lambda>t. '','' @ t) (map json_pair ps)) @ '']'' =
      json_pair q @ concat (map (\<lambda>t. '','' @ t) (map json_pair qs')) @ '']''" by simp
  from json_pair_inj[OF this] Cons.IH[of qs'] qs show ?case by simp
qed

lemma json_pairs_Cons:
  "json_pairs (p # ps) = CHR ''['' # json_pair p @ concat (map (\<lambda>t. '','' @ t) (map json_pair ps)) @ '']''"
  by (simp add: json_pairs_def join_Cons)

lemma json_pairs_empty: "json_pairs ps = json_pairs [] \<longleftrightarrow> ps = []"
  by (cases ps) (simp_all add: json_pairs_Cons, simp add: json_pairs_def json_pair_def)

lemma json_pairs_inj:
  assumes same: "json_pairs ps = json_pairs qs"
  shows "ps = qs"
proof (cases ps)
  case Nil
  with same have "json_pairs qs = json_pairs []" by (simp only:)
  with Nil show ?thesis by (simp only: json_pairs_empty)
next
  case (Cons p ps')
  show ?thesis
  proof (cases qs)
    case Nil
    with same have "json_pairs ps = json_pairs []" by (simp only:)
    with Nil show ?thesis by (simp only: json_pairs_empty)
  next
    case (Cons q qs')
    from same have "json_pair p @ concat (map (\<lambda>t. '','' @ t) (map json_pair ps')) @ '']'' =
        json_pair q @ concat (map (\<lambda>t. '','' @ t) (map json_pair qs')) @ '']''"
      unfolding Cons \<open>ps = p # ps'\<close> json_pairs_Cons by (rule list.inject[THEN iffD1, THEN conjunct2])
    from json_pair_inj[OF this] json_tail_inj[of ps' qs'] Cons \<open>ps = p # ps'\<close> show ?thesis by simp
  qed
qed

section \<open>The caches change nothing\<close>

text \<open>Headers as the schema has them, and values without nulls.\<close>

definition headers_ok :: "pyval \<Rightarrow> bool" where
  "headers_ok h = (case h of PDict d \<Rightarrow> list_all (\<lambda>(k, v). is_str v) d | _ \<Rightarrow> False)"

definition vf_keys :: "string list" where
  "vf_keys = [''url'', ''format'', ''expr'', ''headers'', ''query'']"

definition values_ok :: "pydict \<Rightarrow> bool" where
  "values_ok data \<longleftrightarrow> list_all (\<lambda>k. dget data k \<noteq> Some PNone) vf_keys \<and> headers_ok (dget_or data ''headers'' (PDict []))"

text \<open>Without any cache.\<close>

definition fresh_values :: "ext \<Rightarrow> web \<Rightarrow> pydict \<Rightarrow> pyval res" where
  "fresh_values E W data =
     rbind (url_of data) (\<lambda>url.
     if url = ''dynamodb'' then get_ddb_values E W data
     else rbind (supported (format_of data url)) (\<lambda>f.
          rbind (fetch_uri W url (dget_or data ''headers'' (PDict []))) (\<lambda>v. read_values E W data (py_str E v) f)))"

text \<open>
  What is relied on: no two texts have the same digest, and a server does not distinguish
  headers by the case of their names or their order.
\<close>

definition digest_ok :: "web \<Rightarrow> bool" where
  "digest_ok W \<longleftrightarrow> inj (wb_digest W)"

definition names_insensitive :: "web \<Rightarrow> bool" where
  "names_insensitive W \<longleftrightarrow> (\<forall>u h h'. headers_ok (PDict h) \<longrightarrow> headers_ok (PDict h') \<longrightarrow> canonical_headers h = canonical_headers h' \<longrightarrow>
     wb_open W u (dput ''Accept-Encoding'' (PStr ''gzip'') h) = wb_open W u (dput ''Accept-Encoding'' (PStr ''gzip'') h'))"

lemma headers_total: "headers_ok (PDict h) \<Longrightarrow> \<exists>ps. canonical_headers h = Inr ps"
proof -
  assume "headers_ok (PDict h)"
  then have "\<exists>qs. rmap (\<lambda>(k, v). case v of PStr s \<Rightarrow> Inr (lower k, s) | _ \<Rightarrow> Inl TypeError) h = Inr qs"
    by (induction h) (auto simp: headers_ok_def is_str_def split: pyval.splits)
  then show ?thesis by (auto simp: canonical_headers_def)
qed

lemma headers_ok_dict: "headers_ok h \<Longrightarrow> \<exists>d. h = PDict d"
  by (cases h) (simp_all add: headers_ok_def)

lemma key_total: "headers_ok h \<Longrightarrow> \<exists>k. get_cache_key W u h = Inr k"
  using headers_ok_dict[of h] headers_total by (fastforce simp: get_cache_key_def)

lemma uri_key_not_values: "get_cache_key W u h = Inr k \<Longrightarrow> k \<noteq> ValueKey vs"
  by (cases h) (auto simp: get_cache_key_def rbind_eq_Inr split: if_splits)

lemma same_key_same_answer:
  assumes "digest_ok W" "names_insensitive W" and ok: "headers_ok h" "headers_ok h'"
    and key: "get_cache_key W u h = Inr k" "get_cache_key W u' h' = Inr k"
  shows "fetch_uri W u h = fetch_uri W u' h'"
proof -
  obtain d d' where d: "h = PDict d" "h' = PDict d'" using ok headers_ok_dict by metis
  obtain ps ps' where ps: "canonical_headers d = Inr ps" "canonical_headers d' = Inr ps'"
    using ok headers_total unfolding d by metis
  show ?thesis
  proof (cases "d = []")
    case True
    with key d ps show ?thesis by (cases "d' = []") (auto simp: get_cache_key_def)
  next
    case False
    with key d ps have nonempty: "d' \<noteq> []" and u: "u = u'" and "wb_digest W (json_pairs ps) = wb_digest W (json_pairs ps')"
      by (auto simp: get_cache_key_def split: if_splits)
    with assms(1) have "ps = ps'" using json_pairs_inj by (auto simp: digest_ok_def dest: injD)
    with assms(2) ok d ps have "wb_open W u (dput ''Accept-Encoding'' (PStr ''gzip'') d) =
        wb_open W u (dput ''Accept-Encoding'' (PStr ''gzip'') d')" unfolding names_insensitive_def by metis
    then have ans: "rbind (request_headers h) (\<lambda>h. rbind (wb_open W u' h) g) = rbind (request_headers h') (\<lambda>h. rbind (wb_open W u' h) g)" for g
      by (simp add: request_headers_def d u)
    show ?thesis unfolding fetch_uri_def u ans by (rule refl)
  qed
qed

lemma dget_by_or: "dget d k \<noteq> Some PNone \<Longrightarrow> dget d' k \<noteq> Some PNone \<Longrightarrow> dget_or d k PNone = dget_or d' k PNone \<Longrightarrow> dget d k = dget d' k"
  by (auto simp: dget_or_def split: option.splits)

lemma same_values_key:
  assumes "values_ok d" "values_ok d'" "values_key d = values_key d'" "k \<in> set vf_keys"
  shows "dget d k = dget d' k"
  using assms dget_by_or[of d k d'] by (auto simp: values_ok_def vf_keys_def values_key_def)

lemma fresh_by_key:
  assumes "values_ok d" "values_ok d'" "values_key d = values_key d'"
  shows "fresh_values E W d = fresh_values E W d'"
proof -
  have g: "dget d ''url'' = dget d' ''url''" "dget d ''format'' = dget d' ''format''" "dget d ''expr'' = dget d' ''expr''"
    "dget d ''headers'' = dget d' ''headers''" "dget d ''query'' = dget d' ''query''"
    using same_values_key[OF assms] by (simp_all add: vf_keys_def)
  then have expr: "get_resource_values E d = get_resource_values E d'"
    by (simp add: get_resource_values_def dindex_def fun_eq_iff)
  have ddb: "get_ddb_values E W d = get_ddb_values E W d'"
    unfolding get_ddb_values_def dindex_def dget_or_def g expr by (rule refl)
  have read: "read_values E W d = read_values E W d'"
    unfolding read_values_def csv2dict_values_def csv_values_def dhas_dget dget_or_def g expr by (rule refl)
  show ?thesis
    unfolding fresh_values_def format_of_def url_of_def dindex_def dget_or_def g ddb read by (rule refl)
qed

lemma resolve_eq:
  "get_cache_key W u h = Inr k \<Longrightarrow> resolve cget csave W u h c =
     (case known cget c k of Some v \<Rightarrow> Inr (v, c) | None \<Rightarrow> rbind (fetch_uri W u h) (\<lambda>v. Inr (v, csave c k v)))"
  by (simp add: resolve_def)

text \<open>The entries of a cache agree with what fetching gives.\<close>

definition entries_agree :: "('c \<Rightarrow> vf_key \<Rightarrow> pyval option) \<Rightarrow> ext \<Rightarrow> web \<Rightarrow> 'c \<Rightarrow> bool" where
  "entries_agree cget E W c \<longleftrightarrow>
     (\<forall>u h k v. headers_ok h \<longrightarrow> get_cache_key W u h = Inr k \<longrightarrow> known cget c k = Some v \<longrightarrow> fetch_uri W u h = Inr v) \<and>
     (\<forall>d v. values_ok d \<longrightarrow> known cget c (values_key d) = Some v \<longrightarrow> fresh_values E W d = Inr v)"

text \<open>Any cache of contents and values.\<close>

locale values_cache = cache cget csave
  for cget :: "'c \<Rightarrow> vf_key \<Rightarrow> pyval option" and csave :: "'c \<Rightarrow> vf_key \<Rightarrow> pyval \<Rightarrow> 'c"
begin

lemma known_save: "known cget (csave c k v) m = Some x \<Longrightarrow> m = k \<and> x = v \<or> known cget c m = Some x"
  using honest[of c k v m] by (auto simp: known_def split: option.splits if_splits)

lemma agrees_save_contents:
  assumes "digest_ok W" "names_insensitive W" "entries_agree cget E W c" "headers_ok h" "get_cache_key W u h = Inr k" "fetch_uri W u h = Inr v"
  shows "entries_agree cget E W (csave c k v)"
  unfolding entries_agree_def
proof (intro conjI allI impI)
  fix u' h' m x
  assume h': "headers_ok h'" "get_cache_key W u' h' = Inr m" and x: "known cget (csave c k v) m = Some x"
  from known_save[OF x] show "fetch_uri W u' h' = Inr x"
  proof
    assume "m = k \<and> x = v"
    with same_key_same_answer[OF assms(1,2,4) h'(1) assms(5)] h'(2) assms(6) show ?thesis by simp
  next
    assume "known cget c m = Some x"
    with assms(3) h' show ?thesis unfolding entries_agree_def by blast
  qed
next
  fix d x
  assume d: "values_ok d" and x: "known cget (csave c k v) (values_key d) = Some x"
  from uri_key_not_values[OF assms(5)] have "values_key d \<noteq> k" unfolding values_key_def by metis
  with known_save[OF x] assms(3) d show "fresh_values E W d = Inr x" unfolding entries_agree_def by blast
qed

lemma agrees_save_values:
  assumes "entries_agree cget E W c" "values_ok d" "fresh_values E W d = Inr v"
  shows "entries_agree cget E W (csave c (values_key d) v)"
  unfolding entries_agree_def
proof (intro conjI allI impI)
  fix u h m x
  assume h: "headers_ok h" "get_cache_key W u h = Inr m" and x: "known cget (csave c (values_key d) v) m = Some x"
  from uri_key_not_values[OF h(2)] have "m \<noteq> values_key d" unfolding values_key_def by metis
  with known_save[OF x] assms(1) h show "fetch_uri W u h = Inr x" unfolding entries_agree_def by blast
next
  fix d' x
  assume d': "values_ok d'" and x: "known cget (csave c (values_key d) v) (values_key d') = Some x"
  from known_save[OF x] show "fresh_values E W d' = Inr x"
  proof
    assume "values_key d' = values_key d \<and> x = v"
    with fresh_by_key[OF d' assms(2)] assms(3) show ?thesis by simp
  next
    assume "known cget c (values_key d') = Some x"
    with assms(1) d' show ?thesis unfolding entries_agree_def by blast
  qed
qed

lemma resolve_fresh:
  assumes "digest_ok W" "names_insensitive W" "entries_agree cget E W c" "headers_ok h"
  shows "rbind (resolve cget csave W u h c) (\<lambda>r. Inr (fst r)) = fetch_uri W u h \<and>
    (\<forall>v c'. resolve cget csave W u h c = Inr (v, c') \<longrightarrow> entries_agree cget E W c')"
proof -
  obtain k where k: "get_cache_key W u h = Inr k" using key_total[OF assms(4)] by blast
  show ?thesis
  proof (cases "known cget c k")
    case (Some v)
    with assms(3,4) k have "fetch_uri W u h = Inr v" unfolding entries_agree_def by blast
    with Some assms(3) show ?thesis by (simp add: resolve_eq[OF k])
  next
    case None
    show ?thesis
    proof (cases "fetch_uri W u h")
      case (Inl e)
      with None show ?thesis by (simp add: resolve_eq[OF k])
    next
      case (Inr v)
      with None agrees_save_contents[OF assms k Inr] show ?thesis by (simp add: resolve_eq[OF k])
    qed
  qed
qed

lemma url_values_fresh:
  assumes "digest_ok W" "names_insensitive W" "entries_agree cget E W c" "values_ok d" "url_of d = Inr u" "u \<noteq> ''dynamodb''"
  shows "rbind (get_url_values cget csave E W d c) (\<lambda>r. Inr (fst r)) = fresh_values E W d \<and>
    (\<forall>v c'. get_url_values cget csave E W d c = Inr (v, c') \<longrightarrow> entries_agree cget E W c')"
proof (cases "supported (format_of d u)")
  case (Inl e)
  with assms(5,6) show ?thesis by (simp add: get_url_values_def get_contents_def fresh_values_def)
next
  case (Inr f)
  let ?h = "dget_or d ''headers'' (PDict [])"
  have h: "headers_ok ?h" using assms(4) by (simp add: values_ok_def)
  show ?thesis
  proof (cases "resolve cget csave W u ?h c")
    case (Inl e)
    with resolve_fresh[OF assms(1-3) h, of u] have "fetch_uri W u ?h = Inl e" by (simp add: eq_commute)
    with Inl Inr assms(5,6) show ?thesis by (simp add: get_url_values_def get_contents_def fresh_values_def)
  next
    case res: (Inr r)
    obtain v c' where r: "r = (v, c')" by (cases r)
    from resolve_fresh[OF assms(1-3) h, of u] res r have v: "fetch_uri W u ?h = Inr v" "entries_agree cget E W c'" by simp_all
    have "get_url_values cget csave E W d c = rbind (read_values E W d (py_str E v) f) (\<lambda>x. Inr (x, c'))"
      by (simp add: get_url_values_def get_contents_def assms(5) Inr res r)
    moreover have "fresh_values E W d = read_values E W d (py_str E v) f"
      using assms(6) by (simp add: fresh_values_def assms(5) Inr v)
    ultimately show ?thesis using v(2) by (cases "read_values E W d (py_str E v) f") simp_all
  qed
qed

lemma values_fresh:
  assumes "digest_ok W" "names_insensitive W" "entries_agree cget E W c" "values_ok d"
  shows "rbind (get_values cget csave E W d c) (\<lambda>r. Inr (fst r)) = fresh_values E W d \<and>
    (\<forall>v c'. get_values cget csave E W d c = Inr (v, c') \<longrightarrow> entries_agree cget E W c')"
proof (cases "known cget c (values_key d)")
  case (Some v)
  with assms(3,4) have "fresh_values E W d = Inr v" unfolding entries_agree_def by blast
  with Some assms(3) show ?thesis by (simp add: get_values_def)
next
  case unknown: None
  show ?thesis
  proof (cases "url_of d")
    case (Inl e)
    with unknown show ?thesis by (simp add: get_values_def fresh_values_def)
  next
    case (Inr u)
    define m where "m = (if u = ''dynamodb'' then rbind (get_ddb_values E W d) (\<lambda>v. Inr (v, c)) else get_url_values cget csave E W d c)"
    have m: "rbind m (\<lambda>r. Inr (fst r)) = fresh_values E W d \<and> (\<forall>v c'. m = Inr (v, c') \<longrightarrow> entries_agree cget E W c')"
    proof (cases "u = ''dynamodb''")
      case True
      with Inr assms(3) show ?thesis by (cases "get_ddb_values E W d") (simp_all add: m_def fresh_values_def)
    qed (use url_values_fresh[OF assms Inr] in \<open>simp add: m_def\<close>)
    have g: "get_values cget csave E W d c = rbind m (\<lambda>(v, c'). Inr (v, csave c' (values_key d) v))"
      by (simp add: get_values_def unknown Inr m_def)
    show ?thesis
    proof (cases m)
      case (Inl e)
      with m g show ?thesis by simp
    next
      case res: (Inr r)
      obtain v c' where r: "r = (v, c')" by (cases r)
      with m res have v: "fresh_values E W d = Inr v" "entries_agree cget E W c'" by simp_all
      with agrees_save_values[OF v(2) assms(4) v(1)] g res r show ?thesis by simp
    qed
  qed
qed

end

interpretation null_values: values_cache null_get null_save ..

interpretation mem_values: values_cache mem_get mem_save ..

interpretation sql_values: values_cache "sql_get now" "sql_save now" for now ..

section \<open>The properties\<close>

text \<open>C17: with any entries of the SQLite cache that agree with what fetching gives, the values of a
  filter are those it would get without a cache, and the entries it leaves agree again; the
  contents fetched with one caller's headers are given to no caller with others. Relied on
  are the digest and that servers look neither at the case of header names nor their order.\<close>

theorem values_from_cache:
  assumes "digest_ok W" "names_insensitive W" "entries_agree (sql_get now) E W c" "values_ok d"
  shows "rbind (get_values (sql_get now) (sql_save now) E W d c) (\<lambda>r. Inr (fst r)) = fresh_values E W d \<and>
    (\<forall>v c'. get_values (sql_get now) (sql_save now) E W d c = Inr (v, c') \<longrightarrow> entries_agree (sql_get now) E W c')"
  by (rule sql_values.values_fresh[OF assms])

definition ex_web :: web where
  "ex_web = \<lparr>wb_url = (\<lambda>u. Inr (''https'', ''host'', ''/owners.txt'', [])), wb_query = (\<lambda>q. Inr []),
     wb_open = (\<lambda>u h. Inr (None, ''ann'' @ [CHR 0x0A] @ ''bob '' @ [CHR 0x0A] @ ''ann'')),
     wb_object = (\<lambda>r p. Inl ClientError), wb_providers = [], wb_unzip = Inr, wb_utf8 = Inr, wb_digest = id,
     wb_json = (\<lambda>s. Inl ValueError), wb_rows = (\<lambda>q. Inr [])\<rparr>"

definition ex_contents :: pyval where
  "ex_contents = PStr (''ann'' @ [CHR 0x0A] @ ''bob '' @ [CHR 0x0A] @ ''ann'')"

definition ex_values_cache :: "(vf_key, pyval) sql_cache" where
  "ex_values_cache = \<lparr>sc_rows = [(UriKey ''https://host/owners.txt'', (ex_contents, 8))], sc_sqlite = True, sc_open = True, sc_period = 15\<rparr>"

definition ex_values_data :: pydict where
  "ex_values_data = [(''url'', PStr ''https://host/owners.txt'')]"

lemma ex_values_entries:
  "sql_get 10 ex_values_cache k = (if k = UriKey ''https://host/owners.txt'' then Some ex_contents else None)"
  by (simp add: sql_get_def ex_values_cache_def)

lemma ex_values_agree: "entries_agree (sql_get 10) (ext0 0) ex_web ex_values_cache"
  unfolding entries_agree_def
proof (intro conjI allI impI)
  fix u h k v
  assume h: "headers_ok h" and k: "get_cache_key ex_web u h = Inr k" and v: "known (sql_get 10) ex_values_cache k = Some v"
  have kv: "k = UriKey ''https://host/owners.txt''" "v = ex_contents"
    using v by (auto simp: known_def ex_values_entries split: if_splits)
  obtain d where d: "h = PDict d" using headers_ok_dict[OF h] by blast
  have u: "u = ''https://host/owners.txt''" "d = []"
    using k kv(1) unfolding d by (auto simp: get_cache_key_def rbind_eq_Inr split: if_splits)
  have "fetch_uri ex_web ''https://host/owners.txt'' (PDict []) = Inr ex_contents" by code_simp
  then show "fetch_uri ex_web u h = Inr v" by (simp only: u d kv(2))
next
  fix d v
  assume "known (sql_get 10) ex_values_cache (values_key d) = Some v"
  then show "fresh_values (ext0 0) ex_web d = Inr v" by (simp add: known_def ex_values_entries values_key_def)
qed

lemma values_from_cache_witness:
  "rbind (get_values (sql_get 10) (sql_save 10) (ext0 0) ex_web ex_values_data ex_values_cache) (\<lambda>r. Inr (fst r)) =
    Inr (PList [PStr ''ann'', PStr ''bob''])"
proof -
  have "digest_ok ex_web" "names_insensitive ex_web" "values_ok ex_values_data"
    by (simp_all add: digest_ok_def names_insensitive_def ex_web_def values_ok_def ex_values_data_def vf_keys_def headers_ok_def dget_or_def)
  moreover have "fresh_values (ext0 0) ex_web ex_values_data = Inr (PList [PStr ''ann'', PStr ''bob''])" by code_simp
  ultimately show ?thesis using values_from_cache[OF _ _ ex_values_agree, of ex_values_data] by simp
qed

section \<open>What the reading shows\<close>

text \<open>A query of several columns needs an expression, though the code means to do without.\<close>

lemma several_columns_need_expr:
  assumes "dget data ''query'' = Some (PStr q)" "starts_with (lower q) ''select''" "q \<noteq> []"
    and "wb_rows W q = Inr pages" "list_all (\<lambda>r. length r \<noteq> 1) (concat pages)" "dget data ''expr'' = None"
  shows "get_ddb_values E W data = Inl KeyError"
proof -
  have rows: "list_all (\<lambda>r. length r \<noteq> 1) rs \<Longrightarrow> \<exists>xs. ddb_rows False rs = Inr (False, xs)" for rs
    by (induction rs) (auto simp: Let_def)
  from rows[OF assms(5)] obtain xs where "ddb_rows False (concat pages) = Inr (False, xs)" by blast
  with assms show ?thesis by (simp add: get_ddb_values_def dindex_def get_resource_values_def)
qed

section \<open>CSV read back\<close>

text \<open>Rows written with every field in quotes.\<close>

definition csv_double :: "char \<Rightarrow> string" where
  "csv_double c = (if c = CHR 0x22 then [c, c] else [c])"

definition csv_quoted :: "string \<Rightarrow> string" where
  "csv_quoted s = CHR 0x22 # concat (map csv_double s) @ [CHR 0x22]"

definition csv_written :: "string list list \<Rightarrow> string" where
  "csv_written rows = concat (map (\<lambda>r. join '','' (map csv_quoted r) @ [CHR 0x0A]) rows)"

lemma rfold_append: "rfold f s (xs @ ys) = rbind (rfold f s xs) (\<lambda>t. rfold f t ys)"
  by (induction xs arbitrary: s) (simp_all add: rbind_assoc)

lemma csv_body:
  "cs_state r = InQuoted \<Longrightarrow> rfold csv_char r (map Some (concat (map csv_double s))) = Inr (r\<lparr>cs_field := cs_field r @ s\<rparr>)"
proof (induction s arbitrary: r)
  case (Cons c s)
  then show ?case by (simp add: csv_double_def csv_char_def add_char_def)
qed simp

lemma csv_field:
  assumes "cs_state r \<in> {StartRecord, StartField}" "cs_field r = []"
  shows "rfold csv_char r (map Some (csv_quoted f) @ os) = rfold csv_char (r\<lparr>cs_state := QuoteInQuoted, cs_field := f\<rparr>) os"
proof -
  have start: "csv_char r (Some (CHR 0x22)) = Inr (r\<lparr>cs_state := InQuoted\<rparr>)"
    using assms by (auto simp: csv_char_def csv_start_field_def is_newline_def)
  have stop: "csv_char (r\<lparr>cs_state := InQuoted, cs_field := f\<rparr>) (Some (CHR 0x22)) = Inr (r\<lparr>cs_state := QuoteInQuoted, cs_field := f\<rparr>)"
    by (simp add: csv_char_def)
  show ?thesis
    using csv_body[of "r\<lparr>cs_state := InQuoted\<rparr>" f] assms(2)
    by (simp add: csv_quoted_def start stop rfold_append)
qed

lemma csv_fields:
  "cs_state r \<in> {StartRecord, StartField} \<Longrightarrow> cs_field r = [] \<Longrightarrow> fs \<noteq> [] \<Longrightarrow>
   rfold csv_char r (map Some (join '','' (map csv_quoted fs)) @ [Some (CHR 0x0A), None]) =
     Inr \<lparr>cs_state = StartRecord, cs_field = [], cs_row = cs_row r @ fs\<rparr>"
proof (induction fs arbitrary: r)
  case (Cons f fs)
  let ?r = "r\<lparr>cs_state := QuoteInQuoted, cs_field := f\<rparr>"
  show ?case
  proof (cases fs)
    case Nil
    have line: "csv_char ?r (Some CHR 0x0A) = Inr (save_field EatNewline ?r)"
      by (simp add: csv_char_def csv_in_field_def is_newline_def)
    have over: "csv_char (save_field EatNewline ?r) None = Inr \<lparr>cs_state = StartRecord, cs_field = [], cs_row = cs_row r @ [f]\<rparr>"
      by (simp add: csv_char_def save_field_def)
    show ?thesis by (simp add: Nil csv_field[OF Cons.prems(1,2)] line over)
  next
    case more: (Cons g gs)
    have comma: "csv_char ?r (Some CHR '','') = Inr (save_field StartField ?r)"
      by (simp add: csv_char_def csv_in_field_def is_newline_def)
    show ?thesis
      using Cons.IH[of "save_field StartField ?r"] more
      by (simp add: csv_field[OF Cons.prems(1,2)] comma save_field_def)
  qed
qed simp

lemma io_lines_append: "CHR 0x0A \<notin> set l \<Longrightarrow> io_lines (l @ CHR 0x0A # s) = (l @ [CHR 0x0A]) # io_lines s"
  by (induction l) auto

lemma csv_quoted_set: "set (csv_quoted f) = insert (CHR 0x22) (set f)"
  by (auto simp: csv_quoted_def csv_double_def split: if_splits)

lemma csv_read_written:
  assumes "list_all (\<lambda>r. r \<noteq> [] \<and> list_all (\<lambda>f. CHR 0x0A \<notin> set f) r) rows"
  shows "csv_read (csv_written rows) = (rows, False)"
  using assms
proof (induction rows)
  case (Cons r rows)
  have plain: "CHR 0x0A \<notin> set (join '','' (map csv_quoted r))"
    using Cons.prems by (cases r) (auto simp: join_Cons csv_quoted_set list_all_iff)
  from Cons.prems csv_fields[of csv_start r]
  have "csv_line csv_start (join '','' (map csv_quoted r) @ [CHR 0x0A]) = Inr \<lparr>cs_state = StartRecord, cs_field = [], cs_row = r\<rparr>"
    by (simp add: csv_line_def csv_start_def)
  with Cons plain show ?case
    by (simp add: csv_read_def csv_written_def io_lines_append)
qed (simp add: csv_read_def csv_written_def csv_start_def)

text \<open>A column of a CSV, written with its fields in quotes whatever commas and quotes they have,
  is read as the set of that column's fields, in order of first appearance.\<close>

theorem csv_column_read:
  assumes "list_all (\<lambda>r. r \<noteq> [] \<and> i < length r \<and> list_all (\<lambda>f. CHR 0x0A \<notin> set f) r) rows"
    and "dget data ''expr'' = Some (PInt (int i))"
  shows "read_values E W data (csv_written rows) ''csv'' = Inr (string_set (map (\<lambda>r. r ! i) rows))"
proof -
  have rows: "csv_read (csv_written rows) = (rows, False)"
    using assms(1) by (intro csv_read_written) (simp add: list_all_iff)
  have nonempty: "filter (\<lambda>d. d \<noteq> []) rows = rows"
    using assms(1) by (simp add: list_all_iff)
  have column: "rmap (row_index (int i)) rows = Inr (map (\<lambda>r. r ! i) rows)"
    using assms(1) by (intro rmap_pure) (simp add: list_all_iff row_index_def Let_def)
  show ?thesis
    using assms(2) by (simp add: read_values_def csv_values_def rows nonempty column whole_def dget_or_def)
qed

lemma csv_column_read_witness:
  "read_values (ext0 0) ex_web [(''expr'', PInt 1)] (csv_written [[''1'', ''a,b''], [''2'', [CHR 0x22]], [''3'', ''a,b'']]) ''csv'' =
    Inr (PList [PStr ''a,b'', PStr [CHR 0x22]])"
proof -
  have "list_all (\<lambda>r. r \<noteq> [] \<and> 1 < length r \<and> list_all (\<lambda>f. CHR 0x0A \<notin> set f) r) [[''1'', ''a,b''], [''2'', [CHR 0x22]], [''3'', ''a,b'']]"
    by simp
  from csv_column_read[OF this, of "[(''expr'', PInt 1)]"] show ?thesis by (simp add: string_set_def)
qed

end
