(* ===== verification/Ebs.thy ===== *)
theory Ebs
  imports Service Tag_Moves Metrics
begin

text \<open>
  Volumes (\<open>c7n/resources/ebs.py\<close>): finding them past ids the service does not know, encrypting
  those of an instance by replacing them, copying the tags of instances, changing their size
  and type, and the filters that say which can be changed. Waiters are requests named
  \<open>wait:...\<close>; a pause between two requests is not modelled.
\<close>

section \<open>Lookup past unknown ids\<close>

text \<open>\<open>msg[msg.find(q) + 1:msg.rfind(q)]\<close>.\<close>

definition between_quotes :: "char \<Rightarrow> string \<Rightarrow> string" where
  "between_quotes q msg =
     (if q \<notin> set msg then butlast msg
      else let first = length (takeWhile (\<lambda>c. c \<noteq> q) msg); after = length (takeWhile (\<lambda>c. c \<noteq> q) (rev msg))
           in drop (first + 1) (take (length msg - 1 - after) msg))"

definition extract_bad :: "string \<Rightarrow> string \<Rightarrow> string \<Rightarrow> string \<Rightarrow> string option" where
  "extract_bad not_found malformed code msg =
     (if code = not_found then Some (between_quotes (CHR 0x27) msg)
      else if code = malformed then Some (between_quotes (CHR 0x22) msg)
      else None)"

definition extract_bad_snapshot :: "string \<Rightarrow> string \<Rightarrow> string option" where
  "extract_bad_snapshot = extract_bad ''InvalidSnapshot.NotFound'' ''InvalidSnapshotID.Malformed''"

definition extract_bad_volume :: "string \<Rightarrow> string \<Rightarrow> string option" where
  "extract_bad_volume = extract_bad ''InvalidVolume.NotFound'' ''InvalidVolumeID.Malformed''"

datatype lookup_answer = Found "pydict list" | Refused string string | Failed pyerr

text \<open>The loop ends: a round that goes on has removed an id.\<close>

function get_past_bad :: "(string \<Rightarrow> string \<Rightarrow> string option) \<Rightarrow> (string list \<Rightarrow> lookup_answer) \<Rightarrow> string list \<Rightarrow> pydict list res" where
  "get_past_bad bad source ids =
     (if ids = [] then Inr []
      else case source ids of
          Found rs \<Rightarrow> Inr rs
        | Failed e \<Rightarrow> Inl e
        | Refused code msg \<Rightarrow>
            (case bad code msg of
               None \<Rightarrow> Inl ClientError
             | Some i \<Rightarrow> if i = [] then Inl ClientError
                 else if i \<in> set ids then get_past_bad bad source (remove1 i ids) else Inl ValueError))"
  by pat_completeness auto
termination
  by (relation "measure (\<lambda>(bad, source, ids). length ids)") (auto simp: length_remove1 length_pos_if_in_set intro: diff_less)

declare get_past_bad.simps [simp del]

section \<open>Encryption\<close>

text \<open>\<open>wait_on_resource\<close>: three times, whatever the exception.\<close>

definition thrice :: "('w, 'a) eff \<Rightarrow> ('w, 'a) eff" where
  "thrice m = (\<lambda>w. case m w of
      (Inr a, w1) \<Rightarrow> (Inr a, w1)
    | (Inl e, w1) \<Rightarrow> (case m w1 of (Inr a, w2) \<Rightarrow> (Inr a, w2) | (Inl e, w2) \<Rightarrow> m w2))"

definition wait_on :: "'w service \<Rightarrow> string \<Rightarrow> string \<Rightarrow> pyval \<Rightarrow> ('w, unit) eff" where
  "wait_on call waiter k i = thrice (ask call (''wait:'' @ waiter) [(k, PList [i])])"

definition first_attachment :: "pydict \<Rightarrow> string \<Rightarrow> pyval res" where
  "first_attachment v k = rbind (dindex v ''Attachments'') (\<lambda>a. case a of
      PList (x # xs) \<Rightarrow> tag_field x k | PList [] \<Rightarrow> Inl IndexError | _ \<Rightarrow> Inl TypeError)"

definition encryption_key :: "'w service \<Rightarrow> pydict \<Rightarrow> ('w, pyval) eff" where
  "encryption_key call data =
     andthen (answer_field call ''describe_key'' [(''KeyId'', dget_or data ''key'' PNone)] ''KeyMetadata'') (\<lambda>m. lift (tag_field m ''KeyId''))"

text \<open>\<open>m[k]\<close> of a dictionary whose keys are values.\<close>

definition pindex :: "(pyval \<times> 'a) list \<Rightarrow> pyval \<Rightarrow> 'a res" where
  "pindex m k = (case find (\<lambda>(w, a). py_eq k w) m of None \<Rightarrow> Inl KeyError | Some (w, a) \<Rightarrow> Inr a)"

text \<open>\<open>stop_instance\<close>: None for one that is going away.\<close>

definition stop_instance :: "'w service \<Rightarrow> (pyval \<times> pydict) list \<Rightarrow> pyval \<Rightarrow> ('w, bool option) eff" where
  "stop_instance call instances i =
     andthen (lift (rbind (rbind (pindex instances i) (\<lambda>d. dindex d ''State'')) (\<lambda>s. tag_field s ''Name''))) (\<lambda>state.
     if is_text state ''shutting-down'' \<or> is_text state ''terminated'' then lift (Inr None)
     else if is_text state ''running''
     then andthen (ask call ''stop_instances'' [(''InstanceIds'', PList [i])]) (\<lambda>_.
          andthen (wait_on call ''instance_stopped'' ''InstanceIds'' i) (\<lambda>_. lift (Inr (Some True))))
     else lift (Inr (Some False)))"

definition mk_kv :: "string \<Rightarrow> pyval \<Rightarrow> pyval" where
  "mk_kv k v = PDict [(''Key'', PStr k), (''Value'', v)]"

definition tag_transient :: "'w service \<Rightarrow> pyval \<Rightarrow> ('w, unit) eff" where
  "tag_transient call s = ask call ''create_tags'' [(''Resources'', PList [s]), (''Tags'', PList [mk_kv ''maid-crypto-remediation'' (PStr ''true'')])]"

definition volume_tags :: "pydict \<Rightarrow> pyval \<Rightarrow> pyval list res" where
  "volume_tags v i =
     rbind (dindex v ''VolumeId'') (\<lambda>vid.
     rbind (first_attachment v ''Device'') (\<lambda>device.
     case dget_or v ''Tags'' (PList []) of
       PList ts \<Rightarrow> Inr ([mk_kv ''maid-crypt-remediation'' i, mk_kv ''maid-origin-volume'' vid, mk_kv ''maid-instance-device'' device] @ ts)
     | _ \<Rightarrow> Inl TypeError))"

text \<open>What the new volume is created with.\<close>

definition new_volume :: "pydict \<Rightarrow> pyval \<Rightarrow> pydict res" where
  "new_volume v snapshot =
     rbind (dindex v ''Size'') (\<lambda>size. rbind (dindex v ''VolumeType'') (\<lambda>kind. rbind (dindex v ''AvailabilityZone'') (\<lambda>zone.
       Inr [(''Size'', size), (''VolumeType'', kind), (''SnapshotId'', snapshot), (''AvailabilityZone'', zone), (''Encrypted'', PBool True)])))"

text \<open>A snapshot of the volume and an encrypted copy of it.\<close>

definition encrypted_snapshot :: "'w service \<Rightarrow> pydict \<Rightarrow> pyval \<Rightarrow> ('w, pyval \<times> pyval) eff" where
  "encrypted_snapshot call v key =
     andthen (lift (dindex v ''VolumeId'')) (\<lambda>vid.
     andthen (answer_field call ''create_snapshot'' [(''VolumeId'', vid), (''Description'', PStr ''maid transient snapshot for encryption'')] ''SnapshotId'') (\<lambda>s1.
     andthen (tag_transient call s1) (\<lambda>_.
     andthen (wait_on call ''snapshot_completed'' ''SnapshotIds'' s1) (\<lambda>_.
     andthen (lift (rbind (dindex v ''AvailabilityZone'') text_of)) (\<lambda>zone.
     andthen (answer_field call ''copy_snapshot'' [(''SourceSnapshotId'', s1), (''SourceRegion'', PStr (butlast zone)),
         (''Description'', PStr ''maid transient snapshot for encryption''), (''Encrypted'', PBool True), (''KmsKeyId'', key)] ''SnapshotId'') (\<lambda>s2.
     andthen (tag_transient call s2) (\<lambda>_.
     andthen (wait_on call ''snapshot_completed'' ''SnapshotIds'' s2) (\<lambda>_.
       lift (Inr (s1, s2))))))))))"

text \<open>The volume from that copy, tagged so that it can be recovered.\<close>

definition volume_from :: "'w service \<Rightarrow> pydict \<Rightarrow> pyval \<Rightarrow> pyval \<Rightarrow> pyval \<Rightarrow> ('w, pyval) eff" where
  "volume_from call v i s1 s2 =
     andthen (lift (new_volume v s2)) (\<lambda>params.
     andthen (answer_field call ''create_volume'' params ''VolumeId'') (\<lambda>new.
     andthen (lift (volume_tags v i)) (\<lambda>ts.
     andthen (ask call ''create_tags'' [(''Resources'', PList [new]), (''Tags'', PList ts)]) (\<lambda>_.
     andthen (wait_on call ''volume_available'' ''VolumeIds'' new) (\<lambda>_.
     andthen (each (\<lambda>s. ask call ''delete_snapshot'' [(''SnapshotId'', s)]) [s1, s2]) (\<lambda>_.
       lift (Inr new)))))))"

definition create_encrypted_volume :: "'w service \<Rightarrow> pydict \<Rightarrow> pyval \<Rightarrow> pyval \<Rightarrow> ('w, pyval) eff" where
  "create_encrypted_volume call v key i = andthen (encrypted_snapshot call v key) (\<lambda>(s1, s2). volume_from call v i s1 s2)"

definition attach_request :: "pyval \<Rightarrow> pyval \<Rightarrow> pyval \<Rightarrow> request" where
  "attach_request i new device = (''attach_volume'', [(''InstanceId'', i), (''VolumeId'', new), (''Device'', device)])"

definition swap_volume :: "'w service \<Rightarrow> pyval \<Rightarrow> pydict \<times> pyval \<Rightarrow> ('w, unit) eff" where
  "swap_volume call i p = (case p of (v, new) \<Rightarrow>
     andthen (lift (dindex v ''VolumeId'')) (\<lambda>vid.
     andthen (ask call ''detach_volume'' [(''InstanceId'', i), (''VolumeId'', vid)]) (\<lambda>_.
     andthen (lift (first_attachment v ''Device'')) (\<lambda>device.
     andthen (ask call (fst (attach_request i new device)) (snd (attach_request i new device))) (\<lambda>_.
     andthen (lift (first_attachment v ''DeleteOnTermination'')) (\<lambda>ends.
     unless (\<not> py_truth ends) (ask call ''modify_instance_attribute'' [(''InstanceId'', i),
       (''BlockDeviceMappings'', PList [PDict [(''DeviceName'', device),
          (''Ebs'', PDict [(''VolumeId'', new), (''DeleteOnTermination'', PBool True)])]])])))))))"

definition transient_keys :: "pyval list" where
  "transient_keys = map (\<lambda>k. PDict [(''Key'', PStr k)]) [''maid-crypt-remediation'', ''maid-origin-volume'', ''maid-instance-device'']"

definition delete_old :: "'w service \<Rightarrow> pydict \<Rightarrow> ('w, unit) eff" where
  "delete_old call v = andthen (lift (dindex v ''VolumeId'')) (\<lambda>vid. ask call ''delete_volume'' [(''VolumeId'', vid)])"

text \<open>The instance starts again, the old volumes go, and the tags of the new ones.\<close>

definition finish_encryption :: "'w service \<Rightarrow> pyval \<Rightarrow> pydict list \<Rightarrow> bool \<Rightarrow> (pydict \<times> pyval) list \<Rightarrow> ('w, unit) eff" where
  "finish_encryption call i vs was_running paired =
     andthen (unless (\<not> was_running) (ask call ''start_instances'' [(''InstanceIds'', PList [i])])) (\<lambda>_.
     andthen (each (delete_old call) vs) (\<lambda>_.
       each (\<lambda>(v, new). ask call ''delete_tags'' [(''Resources'', PList [new]), (''Tags'', PList transient_keys)]) paired))"

definition create_pair :: "'w service \<Rightarrow> pyval \<Rightarrow> pyval \<Rightarrow> pydict \<Rightarrow> ('w, pydict \<times> pyval) eff" where
  "create_pair call key i v = andthen (create_encrypted_volume call v key i) (\<lambda>new. lift (Inr (v, new)))"

definition replace_volumes :: "'w service \<Rightarrow> pyval \<Rightarrow> pyval \<Rightarrow> pydict list \<Rightarrow> bool \<Rightarrow> ('w, unit) eff" where
  "replace_volumes call key i vs was_running =
     andthen (each_value (create_pair call key i) vs) (\<lambda>paired.
     andthen (each (swap_volume call i) paired) (\<lambda>_. finish_encryption call i vs was_running paired))"

text \<open>\<open>process_volume\<close>: all the volumes are created before the instance is touched.\<close>

definition encrypt_instance :: "'w service \<Rightarrow> pydict \<Rightarrow> (pyval \<times> pydict) list \<Rightarrow> pyval \<Rightarrow> pydict list \<Rightarrow> ('w, unit) eff" where
  "encrypt_instance call data instances i vs =
     andthen (encryption_key call data) (\<lambda>key.
     andthen (stop_instance call instances i) (\<lambda>running.
     case running of None \<Rightarrow> lift (Inr ()) | Some was_running \<Rightarrow> replace_volumes call key i vs was_running))"

text \<open>The filter reads \<open>not encrypted or not attached\<close>.\<close>

definition to_encrypt :: "pydict \<Rightarrow> bool res" where
  "to_encrypt v = rbind (dindex v ''Encrypted'') (\<lambda>e.
     if \<not> py_truth e then Inr True else rbind (dindex v ''Attachments'') (\<lambda>a. Inr (\<not> py_truth a)))"

definition by_instance :: "pydict list \<Rightarrow> (pyval \<times> pydict list) list res" where
  "by_instance vs = rfold (\<lambda>m v. rbind (first_attachment v ''InstanceId'') (\<lambda>i.
     if hashable i then Inr (vput i v m) else Inl TypeError)) [] vs"

text \<open>\<open>{i['InstanceId']: i for i in instances}\<close>: a later one comes first here.\<close>

definition instances_by_id :: "pydict list \<Rightarrow> (pyval \<times> pydict) list res" where
  "instances_by_id ds = rbind (rmap (\<lambda>d. rbind (dindex d ''InstanceId'') (\<lambda>i. if hashable i then Inr (i, d) else Inl TypeError)) ds) (\<lambda>ps. Inr (rev ps))"

definition encrypt_process :: "'w service \<Rightarrow> (pyval list \<Rightarrow> ('w, pydict list) eff) \<Rightarrow> pydict \<Rightarrow> pydict list \<Rightarrow> ('w, unit) eff" where
  "encrypt_process call get data volumes =
     andthen (lift (rbind (rfilter to_encrypt volumes) by_instance)) (\<lambda>groups.
     andthen (get (map fst groups)) (\<lambda>found.
     andthen (lift (instances_by_id found)) (\<lambda>instances.
       each_logged (\<lambda>(i, vs). encrypt_instance call data instances i vs) groups)))"

section \<open>Tags of instances\<close>

definition extant_tags :: "pydict \<Rightarrow> pydict res" where
  "extant_tags v = rbind (tag_list v) (rfold (\<lambda>d t. rbind (tag_key t) (\<lambda>k. rbind (tag_field t ''Value'') (\<lambda>x. Inr (dput k x d)))) [])"

text \<open>Whether a tag of the instance is one to copy.\<close>

definition copies :: "pydict \<Rightarrow> pydict \<Rightarrow> pyval \<Rightarrow> bool res" where
  "copies data extant t =
     (let only = dget_or data ''tags'' (PList [])
      in rbind (tag_key t) (\<lambda>k.
         rbind (if py_truth only then rbind (py_iter only) (\<lambda>ks. Inr (mem_eq (PStr k) ks)) else Inr True) (\<lambda>wanted.
         if \<not> wanted then Inr False
         else rbind (case dget extant k of None \<Rightarrow> Inr False | Some x \<Rightarrow> rbind (tag_field t ''Value'') (\<lambda>y. Inr (py_eq y x))) (\<lambda>same.
              Inr (\<not> same \<and> \<not> starts_with k ''aws:'')))))"

definition get_volume_tags :: "(int \<Rightarrow> string) \<Rightarrow> pydict \<Rightarrow> pydict \<Rightarrow> pydict \<Rightarrow> pyval \<Rightarrow> pyval list res" where
  "get_volume_tags isoformat data volume inst attachment =
     rbind (extant_tags volume) (\<lambda>extant.
     rbind (rbind (py_iter (dget_or inst ''Tags'' (PTuple []))) (rfilter (copies data extant))) (\<lambda>copy.
     rbind (case dget extant ''LastAttachInstance'' of
         None \<Rightarrow> Inr False
       | Some x \<Rightarrow> rbind (tag_field attachment ''InstanceId'') (\<lambda>i. Inr (py_eq x i))) (\<lambda>current.
     if current then Inr copy
     else rbind (rbind (tag_field attachment ''AttachTime'') (\<lambda>t. case t of PDate d \<Rightarrow> Inr d | _ \<Rightarrow> Inl AttributeError)) (\<lambda>d.
          rbind (tag_field attachment ''InstanceId'') (\<lambda>i.
            Inr (copy @ [mk_kv ''LastAttachTime'' (PStr (isoformat d)), mk_kv ''LastAttachInstance'' i]))))))"

text \<open>\<open>v['Attachments'][0]\<close> as a whole.\<close>

definition attachment_of :: "pydict \<Rightarrow> pyval res" where
  "attachment_of v = rbind (dindex v ''Attachments'') (\<lambda>a. case a of
      PList (x # xs) \<Rightarrow> Inr x | PList [] \<Rightarrow> Inl IndexError | _ \<Rightarrow> Inl TypeError)"

definition tag_volume :: "'w service \<Rightarrow> (int \<Rightarrow> string) \<Rightarrow> bool \<Rightarrow> pydict \<Rightarrow> pydict \<Rightarrow> pydict \<Rightarrow> ('w, unit) eff" where
  "tag_volume call isoformat dryrun data inst v =
     andthen (lift (rbind (attachment_of v) (get_volume_tags isoformat data v inst))) (\<lambda>copy.
     unless (copy = [] \<or> 40 < length copy) (andthen (lift (dindex v ''VolumeId'')) (\<lambda>vid.
       ask_ignoring [''InvalidVolume.NotFound''] call ''create_tags''
         [(''Resources'', PList [vid]), (''Tags'', PList copy), (''DryRun'', PBool dryrun)])))"

definition attached_somewhere :: "pydict \<Rightarrow> bool res" where
  "attached_somewhere v = rbind (dindex v ''Attachments'') (\<lambda>a. Inr (py_truth a))"

definition volumes_by_instance :: "pydict list \<Rightarrow> (pyval \<times> pydict list) list res" where
  "volumes_by_instance vs = rfold (\<lambda>m v. rbind (attachment_of v) (\<lambda>a. case a of
       PDict d \<Rightarrow> (case dget d ''InstanceId'' of None \<Rightarrow> Inr m
         | Some i \<Rightarrow> if hashable i then Inr (vput i v m) else Inl TypeError)
     | _ \<Rightarrow> Inl TypeError)) [] vs"

text \<open>
  The instances found, in descending order of their ids; those asked for are the ones of the
  groups. What fails for one is logged.
\<close>

definition copy_instance_tags ::
  "'w service \<Rightarrow> (pyval list \<Rightarrow> ('w, pydict list) eff) \<Rightarrow> (int \<Rightarrow> string) \<Rightarrow> (pyval list \<Rightarrow> pyval list) \<Rightarrow> bool \<Rightarrow> pydict \<Rightarrow>
   pydict list \<Rightarrow> ('w, unit) eff" where
  "copy_instance_tags call get isoformat descending dryrun data volumes =
     andthen (lift (rbind (rfilter attached_somewhere volumes) volumes_by_instance)) (\<lambda>groups.
     andthen (get (map fst groups)) (\<lambda>found.
     andthen (lift (instances_by_id found)) (\<lambda>instances.
       each_logged (\<lambda>i. andthen (lift (pindex instances i)) (\<lambda>inst. andthen (lift (pindex groups i)) (\<lambda>vs.
         each (tag_volume call isoformat dryrun data inst) vs))) (descending (map fst instances)))))"

section \<open>Changing volumes\<close>

definition names_modifyable :: "pydict \<Rightarrow> bool res" where
  "names_modifyable policy = rbind (py_iter (dget_or policy ''filters'' (PTuple []))) (\<lambda>fs. Inr (mem_eq (PStr ''modifyable'') fs))"

definition resize_validate :: "pydict \<Rightarrow> pydict \<Rightarrow> unit res" where
  "resize_validate policy data =
     rbind (names_modifyable policy) (\<lambda>named.
     if \<not> named then Inl PolicyValidationError
     else rbind (op_lt (dget_or data ''size-percent'' (PInt 100)) (PInt 100)) (\<lambda>smaller.
          if smaller \<and> \<not> py_truth (dget_or data ''shrink'' (PBool False)) then Inl PolicyValidationError else Inr ()))"

text \<open>\<open>int(a * p / 100.0)\<close>.\<close>

definition scaled :: "pyval \<Rightarrow> pyval \<Rightarrow> int res" where
  "scaled a p = rbind (num_mul a p) (\<lambda>x. rbind (num_truediv x (PFloat (Fin 100))) to_int)"

text \<open>The operations per second a volume has when none are noted, and the fewest it can have.\<close>

definition iops_bounds :: "pyval \<Rightarrow> (int \<times> int) option" where
  "iops_bounds kind = (if is_text kind ''io1'' \<or> is_text kind ''io2'' then Some (10, 100)
     else if is_text kind ''gp3'' then Some (3000, 3000) else None)"

definition iops_param :: "pyval \<Rightarrow> pyval \<Rightarrow> pydict \<Rightarrow> pydict res" where
  "iops_param percent kind r = (case (if py_truth percent then iops_bounds kind else None) of
      None \<Rightarrow> Inr []
    | Some (base, least) \<Rightarrow>
        rbind (to_int (dget_or r ''Iops'' (PInt base))) (\<lambda>b.
        rbind (scaled (PInt b) percent) (\<lambda>n. Inr [(''Iops'', PInt (max n least))])))"

definition size_param :: "pyval \<Rightarrow> pydict \<Rightarrow> pydict res" where
  "size_param percent r =
     (if \<not> py_truth percent then Inr []
      else rbind (dindex r ''Size'') (\<lambda>size. rbind (scaled size percent) (\<lambda>n. Inr [(''Size'', PInt (max n 1))])))"

definition modify_volume_params :: "pydict \<Rightarrow> pydict \<Rightarrow> pydict res" where
  "modify_volume_params data r =
     (let kind = dget_or data ''volume-type'' PNone
      in rbind (dindex r ''VolumeId'') (\<lambda>vid.
         rbind (if py_truth kind then Inr kind else dindex r ''VolumeType'') (\<lambda>target.
         rbind (iops_param (dget_or data ''iops-percent'' PNone) target r) (\<lambda>iops.
         rbind (size_param (dget_or data ''size-percent'' PNone) r) (\<lambda>size.
           Inr ([(''VolumeId'', vid)] @ iops @ size @ (if py_truth kind then [(''VolumeType'', kind)] else [])))))))"

definition modify_volumes :: "'w service \<Rightarrow> pydict \<Rightarrow> pydict list \<Rightarrow> ('w, unit) eff" where
  "modify_volumes call data = each (\<lambda>r. andthen (lift (modify_volume_params data r)) (ask call ''modify_volume''))"

text \<open>\<open>ModifyableVolume\<close>.\<close>

definition older_generation :: "string list" where
  "older_generation = [''m1.small'', ''m1.medium'', ''m1.large'', ''m1.xlarge'', ''c1.medium'', ''c1.xlarge'', ''cc2.8xlarge'',
     ''m2.xlarge'', ''m2.2xlarge'', ''m2.4xlarge'', ''cr1.8xlarge'', ''hi1.4xlarge'', ''hs1.8xlarge'', ''cg1.4xlarge'', ''t1.micro'',
     ''m3.large'', ''m3.xlarge'', ''m3.2xlarge'']"

text \<open>The first of November 2016.\<close>

definition marker_date :: int where
  "marker_date = 1477958400000000"

datatype volume_kind = Unsupported | Unattached | TooOld | Attached

definition volume_kind_of :: "pydict \<Rightarrow> volume_kind res" where
  "volume_kind_of r =
     rbind (dindex r ''VolumeType'') (\<lambda>kind.
     if is_text kind ''standard'' then rbind (dindex r ''VolumeId'') (\<lambda>_. Inr Unsupported)
     else if \<not> py_truth (dget_or r ''Attachments'' PNone) then Inr Unattached
     else rbind (rbind (attachment_of r) (\<lambda>a. tag_field a ''AttachTime'')) (\<lambda>t.
          rbind (op_lt t (PDate marker_date)) (\<lambda>old.
          if old then rbind (dindex r ''VolumeId'') (\<lambda>_. Inr TooOld) else Inr Attached)))"

text \<open>\<open>instance_map.pop(i)\<close> for the instances found: the volumes of those of a newer generation.\<close>

definition take_group :: "(pyval \<times> 'a) list \<Rightarrow> pyval \<Rightarrow> ('a \<times> (pyval \<times> 'a) list) res" where
  "take_group m k = rbind (pindex m k) (\<lambda>a. Inr (a, filter (\<lambda>(w, _). \<not> py_eq k w) m))"

fun newer_groups :: "(pyval \<times> pydict list) list \<Rightarrow> pydict list \<Rightarrow> pydict list res" where
  "newer_groups groups [] = Inr []"
| "newer_groups groups (i # ds) =
     rbind (dindex i ''InstanceType'') (\<lambda>kind.
     rbind (dindex i ''InstanceId'') (\<lambda>k.
     rbind (take_group groups k) (\<lambda>(vs, groups').
     rbind (if mem_eq kind (map PStr older_generation)
            then rbind (rmap (\<lambda>v. dindex v ''VolumeId'') vs) (\<lambda>_. Inr []) else Inr vs) (\<lambda>kept.
     rbind (newer_groups groups' ds) (\<lambda>more. Inr (kept @ more))))))"

definition modifying_query :: "pyval list \<Rightarrow> pydict" where
  "modifying_query ids = [(''Filters'', PList [
     PDict [(''Name'', PStr ''volume-id''), (''Values'', PList ids)],
     PDict [(''Name'', PStr ''modification-state''), (''Values'', PList (map PStr [''modifying'', ''optimizing'', ''failed'']))]])]"

definition modifying_set :: "'w service \<Rightarrow> pydict list \<Rightarrow> ('w, pyval list) eff" where
  "modifying_set call vs =
     andthen (lift (rmap (\<lambda>v. dindex v ''VolumeId'') vs)) (\<lambda>ids.
     andthen (fetch_answer call ''describe_volumes_modifications'' (modifying_query ids)) (\<lambda>answer.
     lift (rbind (dict_of answer) (\<lambda>d. rbind (py_iter (dget_or d ''VolumesModifications'' (PTuple []))) (rmap (\<lambda>m. tag_field m ''VolumeId''))))))"

definition modifyable :: "'w service \<Rightarrow> (pyval list \<Rightarrow> ('w, pydict list) eff) \<Rightarrow> pydict list \<Rightarrow> ('w, pydict list) eff" where
  "modifyable call get rs =
     andthen (lift (rmap (\<lambda>r. rbind (volume_kind_of r) (\<lambda>k. Inr (r, k))) rs)) (\<lambda>kinds.
     let unattached = map fst (filter (\<lambda>(r, k). k = Unattached) kinds); attached = map fst (filter (\<lambda>(r, k). k = Attached) kinds)
     in andthen (lift (by_instance attached)) (\<lambda>groups.
        andthen (get (map fst groups)) (\<lambda>found.
        andthen (lift (newer_groups groups found)) (\<lambda>newer.
        let candidates = unattached @ newer
        in andthen (lift (chunks 197 candidates)) (\<lambda>sets.
           andthen (each_value (modifying_set call) sets) (\<lambda>mss.
           lift (rfilter (\<lambda>r. rbind (dindex r ''VolumeId'') (\<lambda>i. Inr (\<not> mem_eq i (concat mss)))) candidates)))))))"

section \<open>Other actions and filters\<close>

definition snapshot_tags :: "pydict \<Rightarrow> pydict \<Rightarrow> pyval list res" where
  "snapshot_tags data r =
     (let given = dget_or data ''tags'' (PDict []); copy = dget_or data ''copy-tags'' (PList [])
      in coalesce_copy_user_tags r
           (if py_truth copy then copy else dget_or data ''copy-volume-tags'' (PBool True))
           (if py_truth given then given else PDict [(''custodian_snapshot'', PStr [])]))"

definition snapshot_validate :: "pydict \<Rightarrow> unit res" where
  "snapshot_validate data =
     (if py_truth (dget_or data ''copy-tags'' PNone) \<and> dhas data ''copy-volume-tags'' then Inl PolicyValidationError else Inr ())"

definition snapshot_volume :: "'w service \<Rightarrow> string \<Rightarrow> pydict \<Rightarrow> pydict \<Rightarrow> ('w, unit) eff" where
  "snapshot_volume call policy_name data v =
     andthen (lift (dindex v ''VolumeId'')) (\<lambda>vid.
     andthen (lift (snapshot_tags data v)) (\<lambda>tags.
     let given = dget_or data ''description'' PNone
     in ask_ignoring [''InvalidVolume.NotFound''] call ''create_snapshot''
          [(''VolumeId'', vid),
           (''Description'', if py_truth given then given else PStr (''Automated snapshot by c7n - '' @ policy_name)),
           (''TagSpecifications'', PList [PDict [(''ResourceType'', PStr ''snapshot''), (''Tags'', PList tags)]])]))"

definition snapshot_volumes :: "'w service \<Rightarrow> string \<Rightarrow> pydict \<Rightarrow> pydict list \<Rightarrow> ('w, unit) eff" where
  "snapshot_volumes call policy_name data = each (snapshot_volume call policy_name data)"

text \<open>Deletion; what fails with the error of an absent volume counts as done, at any step.\<close>

definition delete_one :: "'w service \<Rightarrow> pydict \<Rightarrow> pydict \<Rightarrow> ('w, unit) eff" where
  "delete_one call data v =
     andthen (lift (if py_truth (dget_or data ''force'' PNone) then rbind (dindex v ''Attachments'') py_len else Inr 0)) (\<lambda>n.
     andthen (lift (dindex v ''VolumeId'')) (\<lambda>vid. \<lambda>w.
     let gone = (\<lambda>m rest w. case m w of
           (Returned a, w') \<Rightarrow> rest w'
         | (ClientErr c, w') \<Rightarrow> (if c = ''InvalidVolume.NotFound'' then Inr () else Inl ClientError, w')
         | (OtherErr e, w') \<Rightarrow> (Inl e, w'));
         delete = gone (call (''delete_volume'', [(''VolumeId'', vid)])) (\<lambda>w. (Inr (), w))
     in if n = 0 then delete w
        else gone (call (''detach_volume'', [(''VolumeId'', vid), (''Force'', PBool True)]))
               (gone (call (''wait:volume_available'', [(''VolumeIds'', PList [vid])])) delete) w))"

definition delete_volumes :: "'w service \<Rightarrow> pydict \<Rightarrow> pydict list \<Rightarrow> ('w, unit) eff" where
  "delete_volumes call data = each_logged (delete_one call data)"

definition detach_volumes :: "'w service \<Rightarrow> pydict \<Rightarrow> pydict list \<Rightarrow> ('w, unit) eff" where
  "detach_volumes call data = each (\<lambda>v. andthen (lift (py_iter (dget_or v ''Attachments'' (PList [])))) (\<lambda>as.
     each (\<lambda>a. andthen (lift (tag_field a ''InstanceId'')) (\<lambda>i. andthen (lift (tag_field a ''VolumeId'')) (\<lambda>vid.
       ask call ''detach_volume'' [(''InstanceId'', i), (''VolumeId'', vid), (''Force'', dget_or data ''force'' (PBool False))]))) as))"

text \<open>\<open>FaultTolerantSnapshots\<close>, with the volumes the advisor flags.\<close>

definition fault_tolerant :: "pyval list \<Rightarrow> pydict \<Rightarrow> pydict list \<Rightarrow> pydict list res" where
  "fault_tolerant flagged data = rfilter (\<lambda>r. rbind (dindex r ''VolumeId'') (\<lambda>i.
     Inr (mem_eq i flagged \<noteq> py_truth (dget_or data ''tolerant'' (PBool True)))))"

section \<open>No volume is deleted before its copy is attached\<close>

text \<open>A service with the requests it was sent so far.\<close>

definition logged :: "'w service \<Rightarrow> ('w \<times> request list) service" where
  "logged call q s = (case call q (fst s) of (a, w') \<Rightarrow> (a, (w', snd s @ [q])))"

text \<open>An effect that only adds to the log, and nothing of some name.\<close>

definition without :: "string \<Rightarrow> ('w \<times> request list, 'a) eff \<Rightarrow> bool" where
  "without name m \<longleftrightarrow> (\<forall>s. \<exists>qs. snd (snd (m s)) = snd s @ qs \<and> list_all (\<lambda>q. fst q \<noteq> name) qs)"

named_theorems without_intros "effects without requests of a name"

lemma withoutI: "(\<And>s. \<exists>qs. snd (snd (m s)) = snd s @ qs \<and> list_all (\<lambda>q. fst q \<noteq> name) qs) \<Longrightarrow> without name m"
  by (simp add: without_def)

lemma withoutE:
  assumes "without name m" "m s = (r, s')"
  obtains qs where "snd s' = snd s @ qs" "list_all (\<lambda>q. fst q \<noteq> name) qs"
proof -
  obtain qs where "snd (snd (m s)) = snd s @ qs" "list_all (\<lambda>q. fst q \<noteq> name) qs"
    using assms(1) unfolding without_def by blast
  with assms(2) that show thesis by simp
qed

lemma without_lift [without_intros]: "without name (lift r)"
  by (rule withoutI) simp

lemma without_andthen [without_intros]:
  assumes "without name m" "\<And>a. without name (f a)"
  shows "without name (andthen m f)"
proof (rule withoutI)
  fix s
  obtain r s' where m: "m s = (r, s')" by (cases "m s")
  obtain qs where qs: "snd s' = snd s @ qs" "list_all (\<lambda>q. fst q \<noteq> name) qs" by (rule withoutE[OF assms(1) m])
  show "\<exists>qs. snd (snd (andthen m f s)) = snd s @ qs \<and> list_all (\<lambda>q. fst q \<noteq> name) qs"
  proof (cases r)
    case (Inl e)
    with m qs show ?thesis by (auto simp: andthen_def)
  next
    case (Inr a)
    obtain r2 s2 where f: "f a s' = (r2, s2)" by (cases "f a s'")
    obtain ps where ps: "snd s2 = snd s' @ ps" "list_all (\<lambda>q. fst q \<noteq> name) ps" by (rule withoutE[OF assms(2) f])
    with m qs Inr f show ?thesis by (auto simp: andthen_def intro!: exI[of _ "qs @ ps"])
  qed
qed

lemma without_unless [without_intros]: "without name m \<Longrightarrow> without name (unless b m)"
  by (cases b) (simp_all add: without_lift)

lemma without_ask_ignoring [without_intros]: "n \<noteq> name \<Longrightarrow> without name (ask_ignoring codes (logged call) n params)"
  by (rule withoutI) (auto simp: ask_ignoring_def logged_def split: prod.splits attempt.splits)

lemma without_ask [without_intros]: "n \<noteq> name \<Longrightarrow> without name (ask (logged call) n params)"
  unfolding ask_def by (rule without_ask_ignoring)

lemma without_fetch [without_intros]: "n \<noteq> name \<Longrightarrow> without name (fetch_answer (logged call) n params)"
  by (rule withoutI) (auto simp: fetch_answer_def logged_def split: prod.splits attempt.splits)

lemma without_answer_field [without_intros]: "n \<noteq> name \<Longrightarrow> without name (answer_field (logged call) n params k)"
  unfolding answer_field_def by (intro without_intros)

lemma without_thrice [without_intros]:
  assumes "without name m"
  shows "without name (thrice m)"
proof (rule withoutI)
  fix s
  obtain r1 s1 where 1: "m s = (r1, s1)" by (cases "m s")
  obtain r2 s2 where 2: "m s1 = (r2, s2)" by (cases "m s1")
  obtain r3 s3 where 3: "m s2 = (r3, s3)" by (cases "m s2")
  obtain q1 where q1: "snd s1 = snd s @ q1" "list_all (\<lambda>q. fst q \<noteq> name) q1" by (rule withoutE[OF assms 1])
  obtain q2 where q2: "snd s2 = snd s1 @ q2" "list_all (\<lambda>q. fst q \<noteq> name) q2" by (rule withoutE[OF assms 2])
  obtain q3 where q3: "snd s3 = snd s2 @ q3" "list_all (\<lambda>q. fst q \<noteq> name) q3" by (rule withoutE[OF assms 3])
  have "snd (snd (thrice m s)) \<in> {snd s1, snd s2, snd s3}"
    by (cases r1; cases r2) (simp_all add: thrice_def 1 2 3)
  then show "\<exists>qs. snd (snd (thrice m s)) = snd s @ qs \<and> list_all (\<lambda>q. fst q \<noteq> name) qs"
    using q1 q2 q3 by auto
qed

lemma without_wait [without_intros]: "''wait:'' @ waiter \<noteq> name \<Longrightarrow> without name (wait_on (logged call) waiter k i)"
  unfolding wait_on_def by (intro without_thrice without_ask)

lemma without_each [without_intros]: "(\<And>x. without name (f x)) \<Longrightarrow> without name (each f xs)"
  by (induction xs) (simp_all add: without_lift without_andthen)

lemma without_each_value [without_intros]: "(\<And>x. without name (f x)) \<Longrightarrow> without name (each_value f xs)"
  by (induction xs) (simp_all add: without_lift without_andthen)

lemma andthen_done: "andthen m f s = (Inr b, s') \<Longrightarrow> \<exists>a s1. m s = (Inr a, s1) \<and> f a s1 = (Inr b, s')"
  by (auto simp: andthen_def split: prod.splits sum.splits)

text \<open>What is asked is in the log from then on.\<close>

lemma log_kept: "without name m \<Longrightarrow> m s = (r, s') \<Longrightarrow> q \<in> set (snd s) \<Longrightarrow> q \<in> set (snd s')"
  by (erule (1) withoutE) simp

lemma log_kept_andthen:
  "andthen m f s = (r, s') \<Longrightarrow> q \<in> set (snd s) \<Longrightarrow> without name m \<Longrightarrow> (\<And>a. without name (f a)) \<Longrightarrow> q \<in> set (snd s')"
  by (rule log_kept[OF without_andthen])

lemma ask_logged: "ask (logged call) n params s = (r, s') \<Longrightarrow> (n, params) \<in> set (snd s')"
  by (auto simp: ask_def ask_ignoring_def logged_def split: prod.splits attempt.splits)

lemma fetch_logged: "fetch_answer (logged call) n params s = (r, s') \<Longrightarrow> (n, params) \<in> set (snd s')"
  by (auto simp: fetch_answer_def logged_def split: prod.splits attempt.splits)

lemma answer_field_logged: "answer_field (logged call) n params k s = (Inr v, s') \<Longrightarrow> (n, params) \<in> set (snd s')"
  unfolding answer_field_def by (drule andthen_done) (auto dest: fetch_logged)

text \<open>A request made in the end was not made by a part that makes none of its name, so that part succeeded.\<close>

lemma past_part:
  assumes "without name m" "andthen m f s = (r, s')" "q \<in> set (snd s')" "fst q = name" "list_all (\<lambda>q. fst q \<noteq> name) (snd s)"
  obtains a s1 where "m s = (Inr a, s1)" "f a s1 = (r, s')" "list_all (\<lambda>q. fst q \<noteq> name) (snd s1)"
proof -
  obtain r1 s1 where m: "m s = (r1, s1)" by (cases "m s")
  obtain qs where qs: "snd s1 = snd s @ qs" "list_all (\<lambda>q. fst q \<noteq> name) qs" by (rule withoutE[OF assms(1) m])
  with assms(5) have none: "list_all (\<lambda>q. fst q \<noteq> name) (snd s1)" by simp
  show thesis
  proof (cases r1)
    case (Inl e)
    with m assms(2) have "s' = s1" by (simp add: andthen_def)
    with none assms(3,4) show ?thesis by (auto simp: list_all_iff)
  next
    case (Inr a)
    with m assms(2) none that show ?thesis by (simp add: andthen_def)
  qed
qed

lemma each_logged_requests:
  assumes "\<And>x s u s'. f x s = (Inr u, s') \<Longrightarrow> \<exists>q. C x q \<and> q \<in> set (snd s')" "\<And>x. without name (f x)"
  shows "each f xs s = (Inr u, s') \<Longrightarrow> \<forall>x\<in>set xs. \<exists>q. C x q \<and> q \<in> set (snd s')"
proof (induction xs arbitrary: s)
  case (Cons x xs)
  from andthen_done[OF Cons.prems[unfolded each.simps]] obtain a s1 where x: "f x s = (Inr a, s1)" and xs: "each f xs s1 = (Inr u, s')"
    by blast
  from assms(1)[OF x] log_kept[OF without_each[OF assms(2)] xs] Cons.IH[OF xs] show ?case by auto
qed simp

lemma each_value_requests:
  assumes "\<And>x s y s'. f x s = (Inr y, s') \<Longrightarrow> \<exists>q. C x y q \<and> q \<in> set (snd s')" "\<And>x. without name (f x)"
  shows "each_value f xs s = (Inr ys, s') \<Longrightarrow> list_all2 (\<lambda>x y. \<exists>q. C x y q \<and> q \<in> set (snd s')) xs ys"
proof (induction xs arbitrary: s ys)
  case (Cons x xs)
  from andthen_done[OF Cons.prems[unfolded each_value.simps]] obtain y s1 where x: "f x s = (Inr y, s1)"
    and rest: "andthen (each_value f xs) (\<lambda>as. lift (Inr (y # as))) s1 = (Inr ys, s')" by blast
  from andthen_done[OF rest] obtain zs where xs: "each_value f xs s1 = (Inr zs, s')" and ys: "ys = y # zs" by auto
  from assms(1)[OF x] log_kept[OF without_each_value[OF assms(2)] xs] Cons.IH[OF xs] show ?case by (auto simp: ys)
qed simp

lemma tag_transient_without [without_intros]: "name \<noteq> ''create_tags'' \<Longrightarrow> without name (tag_transient (logged call) s)"
  unfolding tag_transient_def by (rule without_ask) simp

lemma snapshot_without [without_intros]: "without ''delete_volume'' (encrypted_snapshot (logged call) v key)"
  unfolding encrypted_snapshot_def by (intro without_intros) simp_all

lemma volume_from_without [without_intros]: "without ''delete_volume'' (volume_from (logged call) v i s1 s2)"
  unfolding volume_from_def by (intro without_intros) simp_all

lemma create_without [without_intros]: "without ''delete_volume'' (create_encrypted_volume (logged call) v key i)"
  unfolding create_encrypted_volume_def by (intro without_intros) (simp add: volume_from_without split: prod.split)

lemma pair_without [without_intros]: "without ''delete_volume'' (create_pair (logged call) key i v)"
  unfolding create_pair_def by (intro without_intros)

lemma finish_grows: "without ''none'' (finish_encryption (logged call) i vs was paired)"
  unfolding finish_encryption_def delete_old_def case_prod_beta by (intro without_intros) simp_all

lemma swap_without [without_intros]: "without ''delete_volume'' (swap_volume (logged call) i p)"
  unfolding swap_volume_def attach_request_def by (cases p) (simp only: prod.case, intro without_intros, simp_all)

lemma stop_without [without_intros]: "without ''delete_volume'' (stop_instance (logged call) instances i)"
proof -
  have "without ''delete_volume'' (ask (logged call) ''stop_instances'' [(''InstanceIds'', PList [i])])"
    by (rule without_ask) simp
  then show ?thesis unfolding stop_instance_def by (auto intro!: without_intros)
qed

lemma key_without [without_intros]: "without ''delete_volume'' (encryption_key (logged call) data)"
  unfolding encryption_key_def by (intro without_intros) simp

lemma volume_from_requests:
  assumes "volume_from (logged call) v i s1 s2 s = (Inr new, s')"
  shows "\<exists>q. new_volume v s2 = Inr q \<and> (''create_volume'', q) \<in> set (snd s')"
proof -
  from andthen_done[OF assms[unfolded volume_from_def]] obtain q where q: "new_volume v s2 = Inr q"
    and rest: "andthen (answer_field (logged call) ''create_volume'' q ''VolumeId'') (\<lambda>new.
      andthen (lift (volume_tags v i)) (\<lambda>ts.
      andthen (ask (logged call) ''create_tags'' [(''Resources'', PList [new]), (''Tags'', PList ts)]) (\<lambda>_.
      andthen (wait_on (logged call) ''volume_available'' ''VolumeIds'' new) (\<lambda>_.
      andthen (each (\<lambda>s. ask (logged call) ''delete_snapshot'' [(''SnapshotId'', s)]) [s1, s2]) (\<lambda>_.
        lift (Inr new)))))) s = (Inr new, s')" by auto
  from andthen_done[OF rest] obtain a t where a: "answer_field (logged call) ''create_volume'' q ''VolumeId'' s = (Inr a, t)"
    and last: "andthen (lift (volume_tags v i)) (\<lambda>ts.
      andthen (ask (logged call) ''create_tags'' [(''Resources'', PList [a]), (''Tags'', PList ts)]) (\<lambda>_.
      andthen (wait_on (logged call) ''volume_available'' ''VolumeIds'' a) (\<lambda>_.
      andthen (each (\<lambda>s. ask (logged call) ''delete_snapshot'' [(''SnapshotId'', s)]) [s1, s2]) (\<lambda>_.
        lift (Inr a))))) t = (Inr new, s')" by blast
  have "(''create_volume'', q) \<in> set (snd s')"
    by (rule log_kept_andthen[OF last answer_field_logged[OF a], where name = "''delete_volume''"]) (intro without_intros; simp)+
  with q show ?thesis by blast
qed

lemma create_requests:
  assumes "create_encrypted_volume (logged call) v key i s = (Inr new, s')"
  shows "\<exists>snapshot q. new_volume v snapshot = Inr q \<and> (''create_volume'', q) \<in> set (snd s')"
proof -
  from andthen_done[OF assms[unfolded create_encrypted_volume_def]] obtain s1 s2 t
    where "volume_from (logged call) v i s1 s2 t = (Inr new, s')" by auto
  from volume_from_requests[OF this] show ?thesis by blast
qed

lemma swap_requests:
  assumes "swap_volume (logged call) i (v, new) s = (Inr u, s')"
  shows "\<exists>device. first_attachment v ''Device'' = Inr device \<and> attach_request i new device \<in> set (snd s')"
proof -
  let ?last = "\<lambda>device. andthen (lift (first_attachment v ''DeleteOnTermination'')) (\<lambda>ends.
     unless (\<not> py_truth ends) (ask (logged call) ''modify_instance_attribute'' [(''InstanceId'', i),
       (''BlockDeviceMappings'', PList [PDict [(''DeviceName'', device),
          (''Ebs'', PDict [(''VolumeId'', new), (''DeleteOnTermination'', PBool True)])]])]))"
  from andthen_done[OF assms[unfolded swap_volume_def prod.case]] obtain vid s1 where
    "andthen (ask (logged call) ''detach_volume'' [(''InstanceId'', i), (''VolumeId'', vid)]) (\<lambda>_.
     andthen (lift (first_attachment v ''Device'')) (\<lambda>device.
     andthen (ask (logged call) (fst (attach_request i new device)) (snd (attach_request i new device))) (\<lambda>_. ?last device))) s1 = (Inr u, s')"
    by blast
  from andthen_done[OF this] obtain s2 where
    "andthen (lift (first_attachment v ''Device'')) (\<lambda>device.
     andthen (ask (logged call) (fst (attach_request i new device)) (snd (attach_request i new device))) (\<lambda>_. ?last device)) s2 = (Inr u, s')"
    by blast
  from andthen_done[OF this] obtain device where d: "first_attachment v ''Device'' = Inr device" and
    rest: "andthen (ask (logged call) (fst (attach_request i new device)) (snd (attach_request i new device))) (\<lambda>_. ?last device) s2 = (Inr u, s')"
    by auto
  from andthen_done[OF rest] obtain b s3 where
    attach: "ask (logged call) (fst (attach_request i new device)) (snd (attach_request i new device)) s2 = (Inr b, s3)"
    and last: "?last device s3 = (Inr u, s')" by blast
  have "attach_request i new device \<in> set (snd s3)" using ask_logged[OF attach] by simp
  then have "attach_request i new device \<in> set (snd s')"
    by (rule log_kept_andthen[OF last, where name = "''delete_volume''"]) (intro without_intros; simp)+
  with d show ?thesis by blast
qed


text \<open>What has been asked for a volume: an encrypted one of its size and kind, in its place.\<close>

definition replaced :: "request list \<Rightarrow> pyval \<Rightarrow> pydict \<Rightarrow> bool" where
  "replaced asked i v \<longleftrightarrow> (\<exists>new device snapshot q.
     new_volume v snapshot = Inr q \<and> (''create_volume'', q) \<in> set asked \<and>
     first_attachment v ''Device'' = Inr device \<and> attach_request i new device \<in> set asked)"

lemma replaced_more: "replaced asked i v \<Longrightarrow> set asked \<subseteq> set asked' \<Longrightarrow> replaced asked' i v"
  unfolding replaced_def by blast

lemma before_first:
  assumes "xs @ ys = pre @ d # post" "d \<notin> set xs"
  shows "set xs \<subseteq> set pre"
  using assms by (auto simp: append_eq_append_conv2 append_eq_Cons_conv)

lemma pairs_replaced:
  assumes created: "each_value (create_pair (logged call) key i) vs s = (Inr paired, s1)"
    and swapped: "each (swap_volume (logged call) i) paired s1 = (Inr u, s2)"
  shows "list_all (replaced (snd s2) i) vs"
proof -
  have made: "list_all2 (\<lambda>v p. \<exists>q. (\<exists>new snapshot q'. p = (v, new) \<and> new_volume v snapshot = Inr q' \<and> q = (''create_volume'', q')) \<and> q \<in> set (snd s1)) vs paired"
  proof (rule each_value_requests[OF _ _ created, where name = "''delete_volume''"])
    fix v s y s'
    assume "create_pair (logged call) key i v s = (Inr y, s')"
    from andthen_done[OF this[unfolded create_pair_def]] obtain new where new: "create_encrypted_volume (logged call) v key i s = (Inr new, s')" and y: "y = (v, new)"
      by auto
    from create_requests[OF new] y
    show "\<exists>q. (\<exists>new snapshot q'. y = (v, new) \<and> new_volume v snapshot = Inr q' \<and> q = (''create_volume'', q')) \<and> q \<in> set (snd s')"
      by blast
  qed (intro without_intros)
  have put: "\<forall>p\<in>set paired. \<exists>q. (\<exists>device. first_attachment (fst p) ''Device'' = Inr device \<and> q = attach_request i (snd p) device) \<and> q \<in> set (snd s2)"
  proof (rule each_logged_requests[OF _ swap_without swapped])
    fix p s u s'
    assume "swap_volume (logged call) i p s = (Inr u, s')"
    then have "swap_volume (logged call) i (fst p, snd p) s = (Inr u, s')" by simp
    from swap_requests[OF this]
    show "\<exists>q. (\<exists>device. first_attachment (fst p) ''Device'' = Inr device \<and> q = attach_request i (snd p) device) \<and> q \<in> set (snd s')"
      by blast
  qed
  obtain qs where more: "snd s2 = snd s1 @ qs" by (rule withoutE[OF without_each[OF swap_without] swapped])
  show ?thesis
    unfolding list_all_iff
  proof
    fix v
    assume "v \<in> set vs"
    with made obtain new snapshot q where m: "(v, new) \<in> set paired" "new_volume v snapshot = Inr q" "(''create_volume'', q) \<in> set (snd s1)"
      unfolding list_all2_conv_all_nth in_set_conv_nth by (metis nth_mem)
    from put m(1) obtain device where "first_attachment v ''Device'' = Inr device" "attach_request i new device \<in> set (snd s2)" by fastforce
    with m(2,3) more show "replaced (snd s2) i v" unfolding replaced_def by auto
  qed
qed


text \<open>A cloud that numbers what it creates, and may refuse to create volumes.\<close>

fun ex_cloud :: "bool \<Rightarrow> nat service" where
  "ex_cloud full (name, params) n =
     (if name = ''describe_key'' then (Returned (PDict [(''KeyMetadata'', PDict [(''KeyId'', PStr ''k-1'')])]), n)
      else if name \<in> {''create_snapshot'', ''copy_snapshot''}
      then (Returned (PDict [(''SnapshotId'', PStr (''snap-'' @ str_of_nat n))]), n + 1)
      else if name = ''create_volume''
      then (if full then (ClientErr ''VolumeLimitExceeded'', n) else (Returned (PDict [(''VolumeId'', PStr (''vol-'' @ str_of_nat n))]), n + 1))
      else (Returned PNone, n))"

definition ex_volume :: pydict where
  "ex_volume = [(''VolumeId'', PStr ''vol-a''), (''Size'', PInt 8), (''VolumeType'', PStr ''gp3''), (''AvailabilityZone'', PStr ''eu-west-1a''),
     (''Attachments'', PList [PDict [(''InstanceId'', PStr ''i-1''), (''Device'', PStr ''sda''), (''DeleteOnTermination'', PBool True)]])]"

definition ex_encryption :: "bool \<Rightarrow> unit res \<times> nat \<times> request list" where
  "ex_encryption full = encrypt_instance (logged (ex_cloud full)) [(''key'', PStr ''alias'')]
     [(PStr ''i-1'', [(''State'', PDict [(''Name'', PStr ''running'')])])] (PStr ''i-1'') [ex_volume] (0, [])"

lemma ex_encryption_deletes:
  "length (snd (snd (ex_encryption False))) = 20" "fst (snd (snd (ex_encryption False)) ! 18) = ''delete_volume''"
  by code_simp+


text \<open>When a volume cannot be created, the instance that was stopped for it is not started again.\<close>

lemma left_stopped:
  "fst (ex_encryption True) = Inl ClientError"
  "list_ex (\<lambda>q. fst q = ''stop_instances'') (snd (snd (ex_encryption True)))"
  "list_all (\<lambda>q. fst q \<noteq> ''start_instances'') (snd (snd (ex_encryption True)))"
  by code_simp+

text \<open>One volume that is attached to nothing, encrypted or not, and none is encrypted.\<close>

lemma by_instance_error:
  assumes "v \<in> set vs" "first_attachment v ''InstanceId'' = Inl e"
  shows "\<exists>e. rfold (\<lambda>m v. rbind (first_attachment v ''InstanceId'') (\<lambda>i.
     if hashable i then Inr (vput i v m) else Inl TypeError)) m vs = Inl e"
  using assms
proof (induction vs arbitrary: m)
  case (Cons u vs)
  show ?case
  proof (cases "rbind (first_attachment u ''InstanceId'') (\<lambda>i. if hashable i then Inr (vput i u m) else Inl TypeError)")
    case (Inl e')
    then show ?thesis by simp
  next
    case (Inr m')
    then have "u \<noteq> v" using assms(2) by auto
    with Cons Inr show ?thesis by simp
  qed
qed simp

lemma unattached_ends_all:
  assumes "rfilter to_encrypt volumes = Inr vs" "v \<in> set vs" "dget v ''Attachments'' = Some (PList [])"
  shows "\<exists>e. encrypt_process call get data volumes w = (Inl e, w)"
proof -
  have "first_attachment v ''InstanceId'' = Inl IndexError" using assms(3) by (simp add: first_attachment_def dindex_def)
  from by_instance_error[OF assms(2) this] obtain e where "by_instance vs = Inl e" unfolding by_instance_def by blast
  then show ?thesis by (simp add: encrypt_process_def assms(1))
qed

section \<open>Sizes\<close>

text \<open>A whole number below a number stays below its rounding.\<close>

lemma round_double_at_least:
  assumes "of_nat n \<le> x" "x \<le> of_nat b" "b < 2 ^ 53"
  shows "\<exists>r. round_double x = Fin r \<and> of_nat n \<le> r"
proof (cases "x = 0")
  case True
  with assms(1) show ?thesis by (simp add: round_double_def)
next
  case False
  have "(0::rat) \<le> of_nat n" by simp
  with assms(1) False have pos: "0 < x" by linarith
  have b53: "(of_nat b :: rat) < 2 ^ 53" using assms(3)
    by (metis of_nat_less_iff of_nat_numeral of_nat_power)
  define k where "k = max (ilog2 \<bar>x\<bar> - 52) (- 1074)"
  have k: "k \<le> 0" using ilog2_le_52[OF pos] b53 assms(2) pos by (simp add: k_def)
  obtain m :: int where m: "(of_nat n :: rat) / pow2 k = of_int m" using scale_whole[OF k] by blast
  have "of_int m \<le> x / pow2 k" using assms(1) by (simp add: m[symmetric] divide_right_mono)
  then have "m \<le> round_even (x / pow2 k)" by (rule round_even_ge)
  then have "of_int m * pow2 k \<le> of_int (round_even (x / pow2 k)) * pow2 k" by simp
  moreover have "of_int m * pow2 k = of_nat n" using m by (simp add: field_simps)
  ultimately have low: "of_nat n \<le> of_int (round_even (x / pow2 k)) * pow2 k" by simp
  obtain r where r: "round_double x = Fin r" using round_double_bounded[of x b] pos assms(2,3) by auto
  have "r = of_int (round_even (x / pow2 k)) * pow2 k"
    using r False by (simp add: round_double_def Let_def k_def split: if_splits)
  with r low show ?thesis by simp
qed

lemma scaled_at_least:
  assumes "0 \<le> n" "100 \<le> p" "n * p < 2 ^ 53"
  shows "\<exists>m. scaled (PInt n) (PInt p) = Inr m \<and> n \<le> m"
proof -
  define N where "N = nat (n * p)"
  have np: "0 \<le> n * p" using assms(1,2) by simp
  then have N: "(of_int (n * p) :: rat) = of_nat N" by (simp add: N_def)
  have N53: "N < 2 ^ 53" using assms(3) np unfolding N_def by (simp add: nat_less_iff)
  have "n * 100 \<le> n * p" using assms(1,2) by (intro mult_left_mono)
  then have "(of_int (n * 100) :: rat) \<le> of_int (n * p)" by (simp only: of_int_le_iff)
  then have "of_nat (nat n) \<le> (of_nat N / 100 :: rat)" using assms(1) N by simp
  moreover have "(of_nat N / 100 :: rat) \<le> of_nat N" by simp
  ultimately obtain r where r: "round_double (of_nat N / 100) = Fin r" "of_nat (nat n) \<le> r"
    using round_double_at_least[of "nat n" "of_nat N / 100" N] N53 by auto
  have double: "to_double (PInt (n * p)) = Inr (Fin (of_nat N))"
    using round_double_nat[OF N53] N by (simp add: to_double_def num_of_def)
  have hundred: "to_double (PFloat (Fin 100)) = Inr (Fin 100)" by (simp add: to_double_def num_of_def)
  have "scaled (PInt n) (PInt p) = to_int (PFloat (Fin r))"
    by (simp add: scaled_def num_mul_def num_truediv_def int_of_def double hundred r(1))
  moreover have "0 \<le> r" using r(2) of_nat_0_le_iff[of "nat n", where 'a = rat] by linarith
  moreover have "n \<le> \<lfloor>r\<rfloor>" using r(2) assms(1) by (simp add: le_floor_iff)
  ultimately show ?thesis by (simp add: to_int_def)
qed

lemma op_lt_int: "op_lt (PInt a) (PInt b) = Inr (a < b)"
  by (auto simp: op_lt_def cmp_with_def unparsed_def num_ord_def num_of_def ord_of_def)

text \<open>C22: an action that passes validation and does not ask for shrinking makes no volume smaller,
  however its percentage is rounded in floating point.\<close>

theorem never_shrinks:
  assumes "resize_validate policy data = Inr ()" "dget data ''shrink'' = None"
    and "dget data ''size-percent'' = Some (PInt p)"
    and "dget r ''Size'' = Some (PInt n)" "0 \<le> n" "n * p < 2 ^ 53"
    and "modify_volume_params data r = Inr params"
  shows "\<exists>m. dget params ''Size'' = Some (PInt m) \<and> n \<le> m"
proof -
  have p: "100 \<le> p"
    using assms(1,2,3) by (auto simp: resize_validate_def rbind_eq_Inr dget_or_def op_lt_int split: if_splits)
  obtain m where m: "scaled (PInt n) (PInt p) = Inr m" "n \<le> m"
    using scaled_at_least[OF assms(5) p assms(6)] by blast
  have size: "size_param (PInt p) r = Inr [(''Size'', PInt (max m 1))]"
    using p by (simp add: size_param_def dindex_def assms(4) m(1))
  have other: "iops_param q k r = Inr iops \<Longrightarrow> dget iops ''Size'' = None" for q k iops
    by (auto simp: iops_param_def rbind_eq_Inr split: option.splits)
  from assms(7) size assms(3) obtain vid iops target where
    "iops_param (dget_or data ''iops-percent'' PNone) target r = Inr iops"
    "dget params ''Size'' = dget ([(''VolumeId'', vid)] @ iops @ [(''Size'', PInt (max m 1))] @
       (if py_truth (dget_or data ''volume-type'' PNone) then [(''VolumeType'', dget_or data ''volume-type'' PNone)] else [])) ''Size''"
    by (auto simp: modify_volume_params_def Let_def rbind_eq_Inr dget_or_def)
  with other m(2) show ?thesis by (auto simp: map_add_def split: option.splits)
qed

lemma never_shrinks_witness:
  "\<exists>m. dget [(''VolumeId'', PStr ''vol-1''), (''Size'', PInt 12)] ''Size'' = Some (PInt m) \<and> 10 \<le> m"
proof -
  have valid: "resize_validate [(''filters'', PList [PStr ''modifyable''])] [(''size-percent'', PInt 120)] = Inr ()"
    by (simp add: resize_validate_def names_modifyable_def dget_or_def op_lt_int mem_eq_def)
  have s: "scaled (PInt 10) (PInt 120) = Inr 12"
    using round_double_nat[of 1200] round_double_nat[of 12]
    by (simp add: scaled_def num_mul_def num_truediv_def int_of_def to_double_def num_of_def to_int_def)
  have params: "modify_volume_params [(''size-percent'', PInt 120)]
      [(''VolumeId'', PStr ''vol-1''), (''Size'', PInt 10), (''VolumeType'', PStr ''gp2'')] =
      Inr [(''VolumeId'', PStr ''vol-1''), (''Size'', PInt 12)]"
    by (simp add: modify_volume_params_def iops_param_def size_param_def dget_or_def dindex_def s)
  from never_shrinks[OF valid _ _ _ _ _ params, of 120 10] show ?thesis by simp
qed

text \<open>The filter is asked for by its bare name; as a dictionary it is not recognized.\<close>

lemma modifyable_as_dict:
  "resize_validate [(''filters'', PList [PDict [(''type'', PStr ''modifyable'')]])] data = Inl PolicyValidationError"
  by (simp add: resize_validate_def names_modifyable_def dget_or_def mem_eq_def)

section \<open>Copying tags\<close>

definition text_tags :: "(string \<times> string) list \<Rightarrow> pyval list" where
  "text_tags ps = map (\<lambda>(k, x). mk_kv k (PStr x)) ps"

text \<open>The volume once some tags are created on it: one of the same key is replaced.\<close>

definition tagged :: "pydict \<Rightarrow> pyval list \<Rightarrow> pydict res" where
  "tagged v copy = rbind (extant_tags v) (\<lambda>extant.
     rbind (rfold (\<lambda>d t. rbind (tag_key t) (\<lambda>k. rbind (tag_field t ''Value'') (\<lambda>x. Inr (dput k x d)))) extant copy) (\<lambda>d.
       Inr (dput ''Tags'' (PList (map (\<lambda>(k, x). mk_kv k x) d)) v)))"

lemma mk_kv_fields [simp]: "tag_key (mk_kv k x) = Inr k" "tag_field (mk_kv k x) ''Value'' = Inr x"
  by (simp_all add: mk_kv_def tag_key_def tag_field_def dindex_def)

lemma put_tags:
  "rfold (\<lambda>d t. rbind (tag_key t) (\<lambda>k. rbind (tag_field t ''Value'') (\<lambda>x. Inr (dput k x d)))) d (map (\<lambda>(k, x). mk_kv k x) ps) =
     Inr (dupdate d ps)"
  by (induction ps arbitrary: d) auto

lemma dupdate_disjoint: "dwf (d @ e) \<Longrightarrow> dupdate d e = d @ e"
proof (induction e arbitrary: d)
  case (Cons p e)
  obtain k x where p: "p = (k, x)" by (cases p)
  with Cons.prems have "k \<notin> set (dkeys d)" by (auto simp: dwf_def dkeys_def)
  then have "dput k x d = d @ [(k, x)]" by (induction d) (auto simp: dkeys_def)
  with Cons p show ?case by simp
qed simp

lemma extant_put: "dwf d \<Longrightarrow> extant_tags (dput ''Tags'' (PList (map (\<lambda>(k, x). mk_kv k x) d)) v) = Inr d"
  using dupdate_disjoint[of "[]" d] by (simp add: extant_tags_def tag_list_def dget_or_def put_tags)

definition to_copy :: "pyval list \<Rightarrow> pydict \<Rightarrow> string \<times> string \<Rightarrow> bool" where
  "to_copy only extant p = (case p of (k, x) \<Rightarrow>
     (only = [] \<or> mem_eq (PStr k) only) \<and> (case dget extant k of None \<Rightarrow> True | Some y \<Rightarrow> \<not> py_eq (PStr x) y) \<and> \<not> starts_with k ''aws:'')"

lemma copies_text:
  "dget_or data ''tags'' (PList []) = PList only \<Longrightarrow> copies data extant (mk_kv k (PStr x)) = Inr (to_copy only extant (k, x))"
  by (auto simp: copies_def Let_def to_copy_def split: option.splits)

lemma copies_tags:
  assumes "dget_or data ''tags'' (PList []) = PList only"
  shows "rfilter (copies data extant) (text_tags own) = Inr (text_tags (filter (to_copy only extant) own))"
proof -
  have "rfilter (copies data extant) (text_tags own) =
      Inr (filter (\<lambda>t. copies data extant t = Inr True) (text_tags own))"
    by (rule rfilter_pure) (auto simp: text_tags_def copies_text[OF assms])
  also have "filter (\<lambda>t. copies data extant t = Inr True) (text_tags own) = text_tags (filter (to_copy only extant) own)"
    by (induction own) (auto simp: text_tags_def copies_text[OF assms])
  finally show ?thesis .
qed

definition pairs :: "(string \<times> string) list \<Rightarrow> pydict" where
  "pairs ps = map (\<lambda>(k, x). (k, PStr x)) ps"

lemma text_tags_pairs: "text_tags ps = map (\<lambda>(k, x). mk_kv k x) (pairs ps)"
  by (simp add: text_tags_def pairs_def case_prod_beta comp_def)

lemma dwf_pairs: "dwf (pairs ps) \<longleftrightarrow> distinct (map fst ps)"
  by (simp add: pairs_def dwf_def dkeys_def case_prod_beta comp_def)

lemma dget_pairs: "distinct (map fst ps) \<Longrightarrow> (k, x) \<in> set ps \<Longrightarrow> dget (pairs ps) k = Some (PStr x)"
  by (rule map_of_is_SomeI) (force simp: pairs_def case_prod_beta comp_def)+

lemma dget_pairs_None: "k \<notin> fst ` set ps \<Longrightarrow> dget (pairs ps) k = None"
  by (force simp: pairs_def map_of_eq_None_iff)

lemma extant_dwf: "extant_tags v = Inr d \<Longrightarrow> dwf d"
proof -
  have "rfold (\<lambda>d t. rbind (tag_key t) (\<lambda>k. rbind (tag_field t ''Value'') (\<lambda>x. Inr (dput k x d)))) d0 ts = Inr d \<Longrightarrow> dwf d0 \<Longrightarrow> dwf d" for d0 ts
    by (induction ts arbitrary: d0) (auto simp: rbind_eq_Inr)
  then show "extant_tags v = Inr d \<Longrightarrow> dwf d" by (auto simp: extant_tags_def rbind_eq_Inr)
qed

text \<open>Nothing is left to copy once what there was to copy is there.\<close>

lemma nothing_left:
  assumes "distinct (map fst own)" "dwf (pairs extra)" "fst ` set extra \<inter> fst ` set own = {}" "dwf extant"
  shows "filter (to_copy only (dupdate extant (pairs (filter (to_copy only extant) own @ extra)))) own = []"
proof (rule filter_False, rule ballI)
  let ?chosen = "filter (to_copy only extant) own"
  let ?d = "dupdate extant (pairs (?chosen @ extra))"
  fix p
  assume p: "p \<in> set own"
  obtain k x where kx: "p = (k, x)" by (cases p)
  have keys: "distinct (map fst (?chosen @ extra))"
    using assms(1,2,3) by (auto simp: distinct_map_filter dwf_pairs)
  then have get: "dget ?d k = (dget extant ++ dget (pairs (?chosen @ extra))) k"
    using dget_dupdate[of "pairs (?chosen @ extra)" extant] by (simp only: dwf_pairs)
  show "\<not> to_copy only ?d p"
  proof (cases "to_copy only extant p")
    case True
    with p kx keys have "dget (pairs (?chosen @ extra)) k = Some (PStr x)" by (intro dget_pairs) auto
    with get have "dget ?d k = Some (PStr x)" by simp
    with kx show ?thesis by (simp add: to_copy_def)
  next
    case False
    have "k \<notin> fst ` set (?chosen @ extra)"
    proof
      assume "k \<in> fst ` set (?chosen @ extra)"
      then consider y where "(k, y) \<in> set own" "to_copy only extant (k, y)" | "k \<in> fst ` set extra" by auto
      then show False
      proof cases
        case 1
        with p kx assms(1) have "y = x" by (metis eq_key_imp_eq_value)
        with 1 False kx show ?thesis by simp
      next
        case 2
        with p kx assms(3) show ?thesis by force
      qed
    qed
    with get have "dget ?d k = dget extant k" by (simp add: dget_pairs_None map_add_def)
    with False kx show ?thesis by (simp add: to_copy_def)
  qed
qed

lemma instance_tags_copied:
  assumes "dget_or data ''tags'' (PList []) = PList only" "dget inst ''Tags'' = Some (PList (text_tags own))"
  shows "rbind (py_iter (dget_or inst ''Tags'' (PTuple []))) (rfilter (copies data ext)) = Inr (text_tags (filter (to_copy only ext) own))"
  using copies_tags[OF assms(1)] assms(2) by (simp add: dget_or_def)

text \<open>What is copied: tags of the instance and, unless they are there, the two of the attachment.\<close>

lemma copied_parts:
  assumes "get_volume_tags isoformat data v inst att = Inr copy" "extant_tags v = Inr extant"
    and own: "rbind (py_iter (dget_or inst ''Tags'' (PTuple []))) (rfilter (copies data extant)) = Inr (text_tags chosen)"
    and i: "tag_field att ''InstanceId'' = Inr (PStr i)"
    and apart: "''LastAttachTime'' \<notin> fst ` set own" "''LastAttachInstance'' \<notin> fst ` set own"
  obtains extra where "copy = text_tags (chosen @ extra)" "dwf (pairs extra)" "fst ` set extra \<inter> fst ` set own = {}"
    "(case dget extant ''LastAttachInstance'' of None \<Rightarrow> False | Some x \<Rightarrow> py_eq x (PStr i)) = (extra = [])"
    "extra = [] \<or> dget (pairs extra) ''LastAttachInstance'' = Some (PStr i)"
proof (cases "case dget extant ''LastAttachInstance'' of None \<Rightarrow> False | Some x \<Rightarrow> py_eq x (PStr i)")
  case True
  with assms(1) have "copy = text_tags chosen"
    by (auto simp: get_volume_tags_def assms(2) own i split: option.splits)
  with True that[of "[]"] show ?thesis by (simp add: pairs_def)
next
  case False
  with assms(1) obtain t where "copy = text_tags chosen @ [mk_kv ''LastAttachTime'' (PStr (isoformat t)), mk_kv ''LastAttachInstance'' (PStr i)]"
    by (auto simp: get_volume_tags_def assms(2) own i rbind_eq_Inr split: option.splits pyval.splits)
  then have "copy = text_tags (chosen @ [(''LastAttachTime'', isoformat t), (''LastAttachInstance'', i)])" by (simp add: text_tags_def)
  from that[OF this] False apart show ?thesis by (simp add: pairs_def dwf_def dkeys_def)
qed

text \<open>C23: after the tags to copy from an instance have been created on a volume there is nothing left
  to copy, as long as the instance has no tags named as the two that note the attachment: the
  action asks for nothing when it runs again.\<close>

theorem tags_settle:
  assumes "dget_or data ''tags'' (PList []) = PList only"
    and "dget inst ''Tags'' = Some (PList (text_tags own))" "distinct (map fst own)"
    and "list_all (\<lambda>(k, x). k \<noteq> ''LastAttachTime'' \<and> k \<noteq> ''LastAttachInstance'') own"
    and "tag_field att ''InstanceId'' = Inr (PStr i)"
    and "get_volume_tags isoformat data v inst att = Inr copy" "tagged v copy = Inr v'"
  shows "get_volume_tags isoformat data v' inst att = Inr []"
proof -
  obtain extant where extant: "extant_tags v = Inr extant" using assms(7) by (auto simp: tagged_def rbind_eq_Inr)
  let ?chosen = "filter (to_copy only extant) own"
  note own = instance_tags_copied[OF assms(1,2)]
  have apart: "''LastAttachTime'' \<notin> fst ` set own" "''LastAttachInstance'' \<notin> fst ` set own"
    using assms(4) by (auto simp: list_all_iff)
  obtain extra where extra: "copy = text_tags (?chosen @ extra)" "dwf (pairs extra)" "fst ` set extra \<inter> fst ` set own = {}"
    and current: "(case dget extant ''LastAttachInstance'' of None \<Rightarrow> False | Some x \<Rightarrow> py_eq x (PStr i)) = (extra = [])"
      "extra = [] \<or> dget (pairs extra) ''LastAttachInstance'' = Some (PStr i)"
    by (rule copied_parts[OF assms(6) extant own assms(5) apart])
  let ?d = "dupdate extant (pairs (?chosen @ extra))"
  have wf: "dwf extant" by (rule extant_dwf[OF extant])
  have "v' = dput ''Tags'' (PList (map (\<lambda>(k, x). mk_kv k x) ?d)) v"
    using assms(7) unfolding tagged_def extant rbind_Inr extra(1) text_tags_pairs put_tags by simp
  then have now: "extant_tags v' = Inr ?d" using extant_put[OF dwf_dupdate[OF wf]] by simp
  have "dwf (pairs (?chosen @ extra))"
    using assms(3) extra(2,3) by (auto simp: dwf_pairs distinct_map_filter)
  then have "dget ?d ''LastAttachInstance'' = (dget extant ++ dget (pairs (?chosen @ extra))) ''LastAttachInstance''"
    by (simp add: dget_dupdate)
  moreover have "dget (pairs (?chosen @ extra)) ''LastAttachInstance'' = dget (pairs extra) ''LastAttachInstance''"
    using dget_pairs_None[of "''LastAttachInstance''" ?chosen] apart by (force simp: pairs_def map_add_def split: option.splits)
  ultimately have "case dget ?d ''LastAttachInstance'' of None \<Rightarrow> False | Some x \<Rightarrow> py_eq x (PStr i)"
    using current by (cases "extra = []") (auto simp: pairs_def map_add_def split: option.splits)
  then show ?thesis
    using nothing_left[OF assms(3) extra(2,3) wf, of only]
    by (auto simp: get_volume_tags_def now own assms(5) text_tags_def split: option.splits)
qed

definition ex_tagged_volume :: pydict where
  "ex_tagged_volume = [(''VolumeId'', PStr ''vol-a''), (''Tags'', PList (text_tags [(''env'', ''test''), (''team'', ''blue'')]))]"

definition ex_attachment :: pyval where
  "ex_attachment = PDict [(''InstanceId'', PStr ''i-1''), (''AttachTime'', PDate 0)]"

definition ex_settled_volume :: pydict where
  "ex_settled_volume = [(''VolumeId'', PStr ''vol-a''), (''Tags'', PList (text_tags [(''env'', ''dev''), (''team'', ''blue''),
     (''LastAttachTime'', ''then''), (''LastAttachInstance'', ''i-1'')]))]"

lemma tags_settle_witness:
  "get_volume_tags (\<lambda>t. ''then'') [] ex_settled_volume [(''Tags'', PList (text_tags [(''env'', ''dev''), (''team'', ''blue'')]))] ex_attachment = Inr []"
proof -
  let ?own = "[(''env'', ''dev''), (''team'', ''blue'')]"
  have copy: "get_volume_tags (\<lambda>t. ''then'') [] ex_tagged_volume [(''Tags'', PList (text_tags ?own))] ex_attachment =
      Inr (text_tags [(''env'', ''dev''), (''LastAttachTime'', ''then''), (''LastAttachInstance'', ''i-1'')])"
    by code_simp
  have put: "tagged ex_tagged_volume (text_tags [(''env'', ''dev''), (''LastAttachTime'', ''then''), (''LastAttachInstance'', ''i-1'')]) =
      Inr ex_settled_volume" by code_simp
  have i: "tag_field ex_attachment ''InstanceId'' = Inr (PStr ''i-1'')" by (simp add: ex_attachment_def tag_field_def dindex_def)
  show ?thesis
    by (rule tags_settle[OF _ _ _ _ i copy put, where only = "[]" and own = ?own]) (simp_all add: dget_or_def)
qed

end
