(* ===== verification/Ec2_Actions.thy ===== *)
theory Ec2_Actions
  imports Service Tag_Moves Lookups
begin

text \<open>
  Actions on instances (\<open>c7n/resources/ec2.py\<close>): starting, stopping, rebooting, terminating,
  resizing, monitoring, metadata options, profiles, tags of spot requests and snapshots. A
  request is one that the manager retries where the code says so.
\<close>

section \<open>Operations on several instances\<close>

text \<open>
  An operation on instances by their ids, which may be refused with a code and a message. The
  regular expression \<open>'(i-.*?)'\<close> finds an id in a message.
\<close>

datatype op_answer = Done | Denied string string | Broken pyerr

type_synonym 'w op = "string list \<Rightarrow> 'w \<Rightarrow> op_answer \<times> 'w"

fun upto_quote :: "string \<Rightarrow> string option" where
  "upto_quote [] = None"
| "upto_quote (c # cs) = (if c = CHR 0x27 then Some [] else if c = CHR 0x0A then None else map_option ((#) c) (upto_quote cs))"

fun quoted_instance :: "string \<Rightarrow> string option" where
  "quoted_instance [] = None"
| "quoted_instance (c # cs) =
     (case (if c = CHR 0x27 \<and> starts_with cs ''i-'' then upto_quote cs else None) of
        Some i \<Rightarrow> Some i
      | None \<Rightarrow> quoted_instance cs)"

definition extract_instance_id :: "string \<Rightarrow> string res" where
  "extract_instance_id msg = (case quoted_instance msg of None \<Rightarrow> Inl ValueError | Some i \<Rightarrow> Inr i)"

definition drop_instance :: "string \<Rightarrow> string list \<Rightarrow> string list res" where
  "drop_instance msg ids = rbind (extract_instance_id msg) (\<lambda>i. if i \<in> set ids then Inr (remove1 i ids) else Inl ValueError)"

lemma drop_instance_shorter:
  assumes "drop_instance msg ids = Inr ids'"
  shows "length ids' < length ids"
proof -
  from assms obtain i where i: "i \<in> set ids" "ids' = remove1 i ids"
    by (auto simp: drop_instance_def rbind_eq_Inr split: if_splits)
  then have "0 < length ids" by (cases ids) simp_all
  with i show ?thesis by (simp add: length_remove1)
qed

definition instance_ids :: "pydict list \<Rightarrow> string list res" where
  "instance_ids rs = rmap (\<lambda>r. rbind (dindex r ''InstanceId'') text_of) rs"

definition in_states :: "ext \<Rightarrow> string list \<Rightarrow> pydict list \<Rightarrow> pydict list res" where
  "in_states E states rs = element_filter E ''State.Name'' (map PStr states) rs"

definition with_volumes :: "pydict list \<Rightarrow> pydict list res" where
  "with_volumes = rfilter (\<lambda>i. rbind (rbind (dindex i ''BlockDeviceMappings'') py_len) (\<lambda>n. Inr (0 < n)))"

section \<open>Starting\<close>

text \<open>
  The codes are a tuple in a tuple, for the comma after them, and no code is equal to a tuple:
  nothing is retried and the test on a code that was retried in vain never holds.
\<close>

definition start_retryable :: "pyval list" where
  "start_retryable = [PTuple (map PStr [''InsufficientInstanceCapacity'', ''RequestLimitExceeded'', ''Client.RequestLimitExceeded'',
     ''Server.InsufficientInstanceCapacity''])]"

function start_set :: "'w op \<Rightarrow> string list \<Rightarrow> ('w, bool) eff" where
  "start_set oper ids w =
     (if ids = [] then (Inr False, w)
      else case oper ids w of
          (Done, w') \<Rightarrow> (Inr False, w')
        | (Broken e, w') \<Rightarrow> (Inl e, w')
        | (Denied code msg, w') \<Rightarrow>
            if mem_eq (PStr code) start_retryable then (Inr True, w')
            else if code = ''IncorrectInstanceState''
            then (case drop_instance msg ids of Inl e \<Rightarrow> (Inl e, w') | Inr ids' \<Rightarrow> start_set oper ids' w')
            else (Inl ClientError, w'))"
  by pat_completeness auto
termination
  by (relation "measure (\<lambda>(oper, ids, w). length ids)") (auto dest: drop_instance_shorter)

declare start_set.simps [simp del]

text \<open>\<open>for x in xs: s = f(s, x)\<close>.\<close>

fun fold_eff :: "('s \<Rightarrow> 'x \<Rightarrow> ('w, 's) eff) \<Rightarrow> 's \<Rightarrow> 'x list \<Rightarrow> ('w, 's) eff" where
  "fold_eff f s [] = lift (Inr s)"
| "fold_eff f s (x # xs) = andthen (f s x) (\<lambda>s'. fold_eff f s' xs)"

definition place_key :: "ext \<Rightarrow> pyval \<Rightarrow> pyval \<Rightarrow> string" where
  "place_key E itype izone = py_str E itype @ '' '' @ py_str E izone"

definition start_batch :: "ext \<Rightarrow> 'w op \<Rightarrow> pyval \<Rightarrow> pyval \<Rightarrow> (string, string list) odict \<Rightarrow> pydict list \<Rightarrow> ('w, (string, string list) odict) eff" where
  "start_batch E oper itype izone failures batch =
     andthen (lift (instance_ids batch)) (\<lambda>ids.
     andthen (start_set oper ids) (\<lambda>fails.
       lift (Inr (if fails then dput (place_key E itype izone) ids failures else failures))))"

definition ec2_start :: "ext \<Rightarrow> 'w op \<Rightarrow> pydict list \<Rightarrow> ('w, unit) eff" where
  "ec2_start E oper rs =
     andthen (lift (rbind (in_states E [''stopped''] rs) with_volumes)) (\<lambda>instances.
     unless (instances = [])
       (andthen (lift (group_by instances ''InstanceType'')) (\<lambda>types.
        andthen (fold_eff (\<lambda>failures (itype, ts).
          andthen (lift (group_by ts ''Placement.AvailabilityZone'')) (\<lambda>zones.
            fold_eff (\<lambda>failures (izone, zs).
              andthen (lift (chunks 10 zs)) (\<lambda>batches. fold_eff (start_batch E oper itype izone) failures batches)) failures zones)) [] types) (\<lambda>failures.
        lift (if failures = [] then Inr () else Inl RuntimeError)))))"

section \<open>Stopping\<close>

definition drop_protection :: "'w service \<Rightarrow> string \<Rightarrow> pydict \<Rightarrow> ('w, unit) eff" where
  "drop_protection call attribute i =
     andthen (lift (dindex i ''InstanceId'')) (\<lambda>k.
       ask_ignoring [''IncorrectInstanceState''] call ''modify_instance_attribute''
         [(''InstanceId'', k), (''Attribute'', PStr attribute), (''Value'', PStr ''false'')])"

definition not_spot :: "pydict list \<Rightarrow> pydict list" where
  "not_spot = filter (\<lambda>i. \<not> is_text (dget_or i ''InstanceLifecycle'' PNone) ''spot'')"

definition disable_protection :: "'w service \<Rightarrow> bool \<Rightarrow> pydict list \<Rightarrow> ('w, unit) eff" where
  "disable_protection call terminating instances = each (\<lambda>i.
     andthen (drop_protection call ''disableApiStop'' i) (\<lambda>_.
     unless (\<not> terminating) (drop_protection call ''disableApiTermination'' i))) instances"

text \<open>
  \<open>_run_instances_op\<close>. After an instance in another state is taken out of the ids the error is
  raised all the same. The loop may go on for ever, so that it returns is part of what is
  proved.
\<close>

partial_function (option) run_instances_op ::
  "'w service \<Rightarrow> bool \<Rightarrow> bool \<Rightarrow> 'w op \<Rightarrow> pydict list \<Rightarrow> string list \<Rightarrow> 'w \<Rightarrow> (unit res \<times> 'w) option" where
  "run_instances_op call force terminating oper instances ids w =
     (if instances = [] then Some (Inr (), w)
      else case oper ids w of
          (Done, w') \<Rightarrow> Some (Inr (), w')
        | (Broken e, w') \<Rightarrow> Some (Inl e, w')
        | (Denied code msg, w') \<Rightarrow>
            if code = ''IncorrectInstanceState''
            then Some (rbind (drop_instance msg ids) (\<lambda>_. Inl ClientError), w')
            else if code = ''OperationNotPermitted'' \<and> force
            then (case disable_protection call terminating (not_spot instances) w' of
                (Inl e, w'') \<Rightarrow> Some (Inl e, w'')
              | (Inr _, w'') \<Rightarrow> run_instances_op call force terminating oper instances ids w'')
            else Some (Inl ClientError, w'))"

text \<open>The root device decides; without one an instance counts as ephemeral.\<close>

fun root_is_ephemeral :: "pyval list \<Rightarrow> bool res" where
  "root_is_ephemeral [] = Inr True"
| "root_is_ephemeral (bd # bds) =
     rbind (tag_field bd ''DeviceName'') (\<lambda>n.
     if mem_eq n (map PStr [''/dev/sda1'', ''/dev/xvda'', ''xvda''])
     then rbind (dict_of bd) (\<lambda>d. Inr (\<not> dhas d ''Ebs''))
     else root_is_ephemeral bds)"

definition is_ephemeral :: "pydict \<Rightarrow> bool res" where
  "is_ephemeral i = rbind (py_iter (dget_or i ''BlockDeviceMappings'' (PList []))) root_is_ephemeral"

definition split_on_storage :: "pydict list \<Rightarrow> (pydict list \<times> pydict list) res" where
  "split_on_storage rs = rbind (rmap (\<lambda>i. rbind (is_ephemeral i) (\<lambda>b. Inr (i, b))) rs) (\<lambda>ps.
     Inr (map fst (filter snd ps), map fst (filter (\<lambda>p. \<not> snd p) ps)))"

text \<open>The statuses are those found, in order, so they are of other instances once one has none.\<close>

definition split_on_hibernate :: "ext \<Rightarrow> pydict list \<Rightarrow> (pydict list \<times> pydict list) res" where
  "split_on_hibernate E rs =
     rbind (rbind (ext_jmes E ''[].HibernationOptions.Configured'' (PList (map PDict rs))) py_iter) (\<lambda>statuses.
     let ps = zip statuses rs
     in Inr (map snd (filter (\<lambda>(s, i). s = PBool True) ps), map snd (filter (\<lambda>(s, i). s \<noteq> PBool True) ps)))"

text \<open>Effects that may not return, one after the other.\<close>

definition maybe_then :: "('w \<Rightarrow> ('a res \<times> 'w) option) \<Rightarrow> ('a \<Rightarrow> 'w \<Rightarrow> ('b res \<times> 'w) option) \<Rightarrow> 'w \<Rightarrow> ('b res \<times> 'w) option" where
  "maybe_then m f w = (case m w of
      None \<Rightarrow> None | Some (Inl e, w') \<Rightarrow> Some (Inl e, w') | Some (Inr a, w') \<Rightarrow> f a w')"

definition surely :: "('w, 'a) eff \<Rightarrow> 'w \<Rightarrow> ('a res \<times> 'w) option" where
  "surely m w = Some (m w)"

datatype op_kind = StopOp | HibernateOp | TerminateOp

definition run_op :: "'w service \<Rightarrow> (op_kind \<Rightarrow> 'w op) \<Rightarrow> bool \<Rightarrow> op_kind \<Rightarrow> pydict list \<Rightarrow> 'w \<Rightarrow> (unit res \<times> 'w) option" where
  "run_op call opers force kind rs =
     maybe_then (surely (lift (instance_ids rs))) (\<lambda>ids. run_instances_op call force (kind = TerminateOp) (opers kind) rs ids)"

definition ec2_stop :: "ext \<Rightarrow> 'w service \<Rightarrow> (op_kind \<Rightarrow> 'w op) \<Rightarrow> pydict \<Rightarrow> pydict list \<Rightarrow> 'w \<Rightarrow> (pydict list res \<times> 'w) option" where
  "ec2_stop E call opers data rs =
     (let flag = (\<lambda>k. py_truth (dget_or data k (PBool False))); run = run_op call opers (flag ''force'')
      in maybe_then (surely (lift (in_states E [''running''] rs))) (\<lambda>instances.
         if instances = [] then surely (lift (Inr []))
         else maybe_then (surely (lift (split_on_storage instances))) (\<lambda>(ephemeral, persistent).
              maybe_then (if flag ''terminate-ephemeral'' \<and> ephemeral \<noteq> [] then run TerminateOp ephemeral else surely (lift (Inr ()))) (\<lambda>_.
              maybe_then (if persistent = [] then surely (lift (Inr ()))
                 else if flag ''hibernate''
                 then maybe_then (surely (lift (split_on_hibernate E persistent))) (\<lambda>(enabled, disabled).
                      maybe_then (if enabled \<noteq> [] then run HibernateOp enabled else surely (lift (Inr ()))) (\<lambda>_. run StopOp disabled))
                 else run StopOp persistent) (\<lambda>_. surely (lift (Inr instances)))))))"

section \<open>Rebooting, terminating, resizing\<close>

definition reboot_retryable :: "pyval list" where
  "reboot_retryable = [PTuple (map PStr [''InsufficientInstanceCapacity'', ''RequestLimitExceeded'', ''Client.RequestLimitExceeded''])]"

definition reboot_set :: "'w op \<Rightarrow> pydict list \<Rightarrow> ('w, bool) eff" where
  "reboot_set oper rs = andthen (lift (instance_ids rs)) (\<lambda>ids w. case oper ids w of
      (Done, w') \<Rightarrow> (Inr False, w')
    | (Broken e, w') \<Rightarrow> (Inl e, w')
    | (Denied code msg, w') \<Rightarrow> (if mem_eq (PStr code) reboot_retryable then Inr True else Inl ClientError, w'))"

text \<open>Failures are a list, whose \<open>values\<close> are then asked for.\<close>

definition ec2_reboot :: "ext \<Rightarrow> 'w op \<Rightarrow> pydict list \<Rightarrow> ('w, unit) eff" where
  "ec2_reboot E oper rs =
     andthen (lift (rbind (in_states E [''running''] rs) with_volumes)) (\<lambda>instances.
     unless (instances = []) (andthen (lift (chunks 10 instances)) (\<lambda>batches.
       andthen (fold_eff (\<lambda>failed batch. andthen (reboot_set oper batch) (\<lambda>b. lift (Inr (failed \<or> b)))) False batches) (\<lambda>failed.
       lift (if failed then Inl AttributeError else Inr ())))))"

definition disable_deletion_protection :: "'w service \<Rightarrow> pydict list \<Rightarrow> ('w, unit) eff" where
  "disable_deletion_protection call = each (\<lambda>i.
     andthen (drop_protection call ''disableApiTermination'' i) (\<lambda>_. drop_protection call ''disableApiStop'' i))"

definition once :: "'w op \<Rightarrow> string list \<Rightarrow> ('w, string option) eff" where
  "once oper ids w = (case oper ids w of
      (Done, w') \<Rightarrow> (Inr None, w') | (Broken e, w') \<Rightarrow> (Inl e, w') | (Denied code msg, w') \<Rightarrow> (Inr (Some code), w'))"

definition terminate_set :: "'w service \<Rightarrow> 'w op \<Rightarrow> bool \<Rightarrow> pydict list \<Rightarrow> ('w, unit) eff" where
  "terminate_set call oper force rs =
     andthen (lift (instance_ids rs)) (\<lambda>ids.
     andthen (once oper ids) (\<lambda>refused. case refused of
         None \<Rightarrow> lift (Inr ())
       | Some code \<Rightarrow>
           if code = ''OperationNotPermitted'' \<and> force
           then andthen (disable_deletion_protection call (not_spot rs)) (\<lambda>_.
                andthen (once oper ids) (\<lambda>again. lift (if again = None then Inr () else Inl ClientError)))
           else lift (Inl ClientError)))"

definition ec2_terminate :: "ext \<Rightarrow> 'w service \<Rightarrow> 'w op \<Rightarrow> pydict \<Rightarrow> pydict list \<Rightarrow> ('w, unit) eff" where
  "ec2_terminate E call oper data rs =
     andthen (lift (in_states E [''running'', ''stopped'', ''pending'', ''stopping''] rs)) (\<lambda>instances.
     unless (instances = []) (andthen (lift (chunks 100 instances)) (each (terminate_set call oper (py_truth (dget_or data ''force'' PNone))))))"

definition recommendation_key :: string where
  "recommendation_key = ''c7n:cost_optimize''"

definition target_type :: "pydict \<Rightarrow> pydict \<Rightarrow> pyval res" where
  "target_type data i =
     (let recommended = dget_or i recommendation_key PNone
      in rbind (if py_truth recommended then rbind (tag_field recommended ''actionType'') (\<lambda>a. Inr (is_text a ''Rightsize'')) else Inr False) (\<lambda>b.
         if b then tag_field recommended ''recommendedResourceSummary''
         else rbind (dict_of (dget_or data ''type-map'' (PDict []))) (\<lambda>types.
              rbind (rbind (dindex i ''InstanceType'') text_of) (\<lambda>t. Inr (dget_or types t (dget_or data ''default'' PNone))))))"

definition resize_instance :: "'w service \<Rightarrow> pydict \<Rightarrow> pydict \<Rightarrow> ('w, unit) eff" where
  "resize_instance call data i =
     andthen (lift (target_type data i)) (\<lambda>new.
     andthen (lift (dindex i ''InstanceId'')) (\<lambda>k.
     andthen (lift (dindex i ''InstanceType'')) (\<lambda>old.
     unless (\<not> py_truth new \<or> py_eq new old) (rescue ClientError
       (ask call ''modify_instance_attribute'' [(''InstanceId'', k), (''InstanceType'', PDict [(''Value'', new)])])
       (lift (Inr ()))))))"

definition ids_request :: "'w service \<Rightarrow> string \<Rightarrow> pydict list \<Rightarrow> ('w, unit) eff" where
  "ids_request call name rs = andthen (lift (rmap (\<lambda>i. dindex i ''InstanceId'') rs)) (\<lambda>ids. ask call name [(''InstanceIds'', PList ids)])"

definition ec2_resize :: "ext \<Rightarrow> 'w service \<Rightarrow> (op_kind \<Rightarrow> 'w op) \<Rightarrow> pydict \<Rightarrow> pydict list \<Rightarrow> 'w \<Rightarrow> (pydict list res \<times> 'w) option" where
  "ec2_resize E call opers data rs =
     maybe_then (surely (lift (in_states E [''stopped''] rs))) (\<lambda>stopped.
     maybe_then (surely (lift (in_states E [''running''] rs))) (\<lambda>running.
     let restart = (py_truth (dget_or data ''restart'' PNone) \<and> running \<noteq> [])
     in maybe_then (if restart then ec2_stop E call opers [(''terminate-ephemeral'', PBool False)] running else surely (lift (Inr []))) (\<lambda>_.
        surely (andthen (unless (\<not> restart) (rescue ClientError (ids_request call ''wait:instance_stopped'' running) (lift (Inr ())))) (\<lambda>_.
          andthen (each (resize_instance call data) (stopped @ running)) (\<lambda>_.
          andthen (unless (\<not> restart) (ids_request call ''start_instances'' running)) (\<lambda>_.
            lift (Inr (stopped @ running)))))))))"

section \<open>Monitoring and metadata\<close>

definition monitoring_op :: "pydict \<Rightarrow> string res" where
  "monitoring_op data =
     (let state = dget_or data ''state'' PNone
      in if is_text state ''enable'' then Inr ''monitor_instances''
         else if is_text state ''disable'' then Inr ''unmonitor_instances'' else Inl KeyError)"

definition set_monitoring :: "'w service \<Rightarrow> pydict \<Rightarrow> pydict list \<Rightarrow> ('w, unit) eff" where
  "set_monitoring call data rs =
     andthen (lift (chunks 20 rs)) (each (\<lambda>batch.
       andthen (lift (monitoring_op data)) (\<lambda>name.
       andthen (lift (rmap (\<lambda>i. dindex i ''InstanceId'') batch)) (\<lambda>ids.
         ask_ignoring [''InvalidInstanceId.NotFound''] call name [(''InstanceIds'', PList ids)]))))"

definition metadata_values :: "(string \<times> string \<times> pyval list) list" where
  "metadata_values = [(''HttpEndpoint'', ''endpoint'', map PStr [''enabled'', ''disabled'']),
     (''HttpTokens'', ''tokens'', map PStr [''required'', ''optional'']),
     (''InstanceMetadataTags'', ''metadata-tags'', map PStr [''enabled'', ''disabled'']),
     (''HttpPutResponseHopLimit'', ''hop-limit'', map PInt [1..64])]"

definition metadata_params :: "pydict \<Rightarrow> pydict" where
  "metadata_params data = filter_empty (map (\<lambda>(k, d, vs). (k, dget_or data d PNone)) metadata_values)"

text \<open>The other values of an option: the given one is removed from those allowed.\<close>

definition other_values :: "string \<Rightarrow> pyval \<Rightarrow> pyval list res" where
  "other_values k v = (case dget metadata_values k of
      None \<Rightarrow> Inl KeyError
    | Some (d, vs) \<Rightarrow> if mem_eq v vs then (case dropWhile (\<lambda>x. \<not> py_eq x v) vs of
          [] \<Rightarrow> Inr vs | _ # rest \<Rightarrow> Inr (takeWhile (\<lambda>x. \<not> py_eq x v) vs @ rest)) else Inl ValueError)"

text \<open>Each option narrows down what is left by the ones before it.\<close>

fun narrow :: "ext \<Rightarrow> pydict \<Rightarrow> pydict list \<Rightarrow> pydict list res" where
  "narrow E [] rs = Inr rs"
| "narrow E ((k, v) # ps) rs =
     rbind (other_values k v) (\<lambda>vs. rbind (element_filter E (''MetadataOptions.'' @ k) vs rs) (narrow E ps))"

definition set_metadata_access :: "ext \<Rightarrow> 'w service \<Rightarrow> pydict \<Rightarrow> pydict list \<Rightarrow> ('w, unit) eff" where
  "set_metadata_access E call data rs =
     (let params = metadata_params data
      in andthen (lift (narrow E params rs)) (each (\<lambda>r.
           andthen (lift (dindex r ''InstanceId'')) (\<lambda>i.
             ask_ignoring [''InvalidInstanceId.NotFound''] call ''modify_instance_metadata_options'' ((''InstanceId'', i) # params)))))"

section \<open>Profiles\<close>

type_synonym association = "pyval \<times> pyval \<times> pyval"

definition association_of :: "pyval \<Rightarrow> association res" where
  "association_of a =
     rbind (tag_field a ''InstanceId'') (\<lambda>i. rbind (tag_field a ''AssociationId'') (\<lambda>k.
     rbind (rbind (tag_field a ''IamInstanceProfile'') (\<lambda>p. tag_field p ''Arn'')) (\<lambda>arn. Inr (i, k, arn))))"

text \<open>The associations of the instances that have a profile, a later one first.\<close>

definition profile_associations :: "'w service \<Rightarrow> pydict list \<Rightarrow> ('w, association list) eff" where
  "profile_associations call rs =
     (let with_profile = filter (\<lambda>i. py_truth (dget_or i ''IamInstanceProfile'' PNone)) rs
      in if with_profile = [] then lift (Inr [])
         else andthen (lift (rmap (\<lambda>i. dindex i ''InstanceId'') with_profile)) (\<lambda>ids.
              andthen (fetch_answer call ''describe_iam_instance_profile_associations'' [(''Filters'', PList [
                 PDict [(''Name'', PStr ''instance-id''), (''Values'', PList ids)],
                 PDict [(''Name'', PStr ''state''), (''Values'', PList [PStr ''associating'', PStr ''associated''])]])]) (\<lambda>answer.
              andthen (lift (rbind (rbind (dict_of answer) (\<lambda>d. py_iter (dget_or d ''IamInstanceProfileAssociations'' (PTuple []))))
                 (rmap association_of))) (\<lambda>as. lift (Inr (rev as))))))"

definition profile_request :: "pyval \<Rightarrow> pyval" where
  "profile_request name = PDict [(''Name'', name)]"

definition profile_one :: "'w service \<Rightarrow> pyval \<Rightarrow> association list \<Rightarrow> pydict \<Rightarrow> ('w, unit) eff" where
  "profile_one call name associations i =
     andthen (lift (dindex i ''InstanceId'')) (\<lambda>k.
     case find (\<lambda>(w, _). py_eq k w) associations of
       None \<Rightarrow>
         if py_truth name
         then ask call ''associate_iam_instance_profile'' [(''IamInstanceProfile'', profile_request name), (''InstanceId'', k)]
         else lift (if name = PNone then Inr () else Inl KeyError)
     | Some (w, aid, arn) \<Rightarrow>
         andthen (lift (if py_truth name then rbind (text_of name) (\<lambda>n. rbind (text_of arn) (\<lambda>a. Inr (ends_with a (''/'' @ n)))) else Inr False)) (\<lambda>same.
         if same then lift (Inr ())
         else if name = PNone then ask call ''disassociate_iam_instance_profile'' [(''AssociationId'', aid)]
         else ask call ''replace_iam_instance_profile_association'' [(''IamInstanceProfile'', profile_request name), (''AssociationId'', aid)]))"

definition set_instance_profile :: "ext \<Rightarrow> 'w service \<Rightarrow> pydict \<Rightarrow> pydict list \<Rightarrow> ('w, pydict list) eff" where
  "set_instance_profile E call data rs =
     andthen (lift (in_states E [''running'', ''pending'', ''stopped'', ''stopping''] rs)) (\<lambda>instances.
     if instances = [] then lift (Inr [])
     else andthen (profile_associations call instances) (\<lambda>associations.
          andthen (each (profile_one call (dget_or data ''name'' PNone) associations) instances) (\<lambda>_. lift (Inr instances))))"

section \<open>Tags of spot requests\<close>

definition spot_dict :: "pydict \<Rightarrow> pydict res" where
  "spot_dict r = rbind (py_iter (dget_or r ''Tags'' (PList [])))
     (rfold (\<lambda>d t. rbind (tag_key t) (\<lambda>k. rbind (tag_field t ''Value'') (\<lambda>v. Inr (dput k v d)))) [])"

text \<open>The keys asked for that the request does not have are deleted from those it has.\<close>

definition wanted_spot_tags :: "pyval \<Rightarrow> pydict \<Rightarrow> pydict res" where
  "wanted_spot_tags only tags =
     (if \<not> py_truth only then Inr tags
      else rbind (py_set only) (\<lambda>ks.
           if filter (\<lambda>k. \<not> mem_eq k (map PStr (dkeys tags))) ks = [] then Inr tags else Inl KeyError))"

text \<open>An instance is noted once for each tag it lacks, also when it would have too many.\<close>

definition differing_tags :: "pydict \<Rightarrow> pydict \<Rightarrow> string list" where
  "differing_tags wanted own = map fst (filter (\<lambda>(k, v). case dget own k of None \<Rightarrow> True | Some w \<Rightarrow> \<not> py_eq w v) wanted)"

definition spot_updates :: "pydict \<Rightarrow> pydict list \<Rightarrow> pyval list res" where
  "spot_updates wanted rs = rbind (rmap (\<lambda>i. rbind (spot_dict i) (\<lambda>own.
     rbind (dindex i ''InstanceId'') (\<lambda>k. Inr (map (\<lambda>_. k) (differing_tags wanted own))))) rs) (\<lambda>kss. Inr (concat kss))"

definition tag_spot_instances :: "'w service \<Rightarrow> bool \<Rightarrow> pydict \<Rightarrow> pydict \<Rightarrow> pydict list \<Rightarrow> ('w, pyval list) eff" where
  "tag_spot_instances call dryrun data request rs =
     andthen (lift (rbind (dindex request ''Tags'') (\<lambda>_. spot_dict request))) (\<lambda>tags.
     andthen (lift (wanted_spot_tags (dget_or data ''only_tags'' (PList [])) (filter (\<lambda>(k, v). \<not> starts_with k ''aws:'') tags))) (\<lambda>wanted.
     andthen (lift (spot_updates wanted rs)) (\<lambda>ids.
     andthen (lift (chunks 20 ids)) (\<lambda>batches.
     andthen (each (\<lambda>b. ask call ''create_tags'' [(''DryRun'', PBool dryrun), (''Resources'', PList b),
        (''Tags'', PList (map (\<lambda>(k, v). PDict [(''Key'', PStr k), (''Value'', v)]) wanted))]) batches) (\<lambda>_. lift (Inr ids))))))"

definition by_request :: "pydict list \<Rightarrow> (pyval \<times> pydict list) list res" where
  "by_request rs = rfold (\<lambda>m i. rbind (dindex i ''SpotInstanceRequestId'') (\<lambda>k. if hashable k then Inr (vput k i m) else Inl TypeError)) [] rs"

definition requests_of :: "pyval \<Rightarrow> pydict list res" where
  "requests_of answer = rbind (rbind (dict_of answer) (\<lambda>d. py_iter (dget_or d ''SpotInstanceRequests'' (PList [])))) (rmap dict_of)"

definition propagate_spot_tags :: "'w service \<Rightarrow> bool \<Rightarrow> pydict \<Rightarrow> pydict list \<Rightarrow> ('w, pyval list) eff" where
  "propagate_spot_tags call dryrun data rs =
     andthen (lift (rfilter (\<lambda>i. rbind (dindex i ''InstanceLifecycle'') (\<lambda>l. Inr (is_text l ''spot''))) rs)) (\<lambda>spots.
     if spots = [] then lift (Inr [])
     else andthen (lift (by_request spots)) (\<lambda>groups.
          andthen (fetch_answer call ''describe_spot_instance_requests'' [(''Filters'', PList [
             PDict [(''Name'', PStr ''spot-instance-request-id''), (''Values'', PList (map fst groups))]])]) (\<lambda>answer.
          andthen (lift (requests_of answer)) (\<lambda>requests.
          fold_eff (\<lambda>updated r.
            if \<not> py_truth (dget_or r ''Tags'' PNone) then lift (Inr updated)
            else andthen (lift (dindex r ''SpotInstanceRequestId'')) (\<lambda>k.
                 andthen (lift (case find (\<lambda>(w, vs). py_eq k w) groups of None \<Rightarrow> Inl KeyError | Some (w, vs) \<Rightarrow> Inr vs)) (\<lambda>vs.
                 andthen (tag_spot_instances call dryrun data r vs) (\<lambda>ids. lift (Inr (updated @ ids)))))) [] requests))))"

section \<open>Snapshots and alarms\<close>

fun name_in :: "pyval list \<Rightarrow> pyval res" where
  "name_in [] = Inr (PStr ''-'')"
| "name_in (t # ts) = rbind (tag_field t ''Key'') (\<lambda>k. if is_text k ''Name'' then tag_field t ''Value'' else name_in ts)"

definition name_tag :: "pydict \<Rightarrow> pyval res" where
  "name_tag r = rbind (tag_list r) name_in"

definition instance_snapshot_params :: "ext \<Rightarrow> pydict \<Rightarrow> pydict \<Rightarrow> pydict res" where
  "instance_snapshot_params E data r =
     rbind (name_tag r) (\<lambda>name. rbind (dindex r ''InstanceId'') (\<lambda>i.
     let params = [(''Description'', PStr (''Snapshot Created for '' @ py_str E i @ '' ('' @ py_str E name @ '')'')),
         (''InstanceSpecification'', PDict [(''ExcludeBootVolume'', dget_or data ''exclude-boot'' (PBool False)), (''InstanceId'', i)])];
         given = dget_or data ''tags'' (PDict [])
     in if dhas data ''copy-tags''
        then rbind (coalesce_copy_user_tags r (dget_or data ''copy-tags'' (PList []))
               (if py_truth given then given else PDict [(''custodian_snapshot'', PStr [])])) (\<lambda>tags.
             Inr (params @ [(''TagSpecifications'', PList [PDict [(''ResourceType'', PStr ''snapshot''), (''Tags'', PList tags)]])]))
        else if py_truth (dget_or data ''copy-volume-tags'' (PBool True)) then Inr (params @ [(''CopyTagsFromSource'', PStr ''volume'')])
        else Inr params))"

text \<open>The ids of the snapshots are noted on the instance; some refusals are only logged.\<close>

definition snapshot_instance :: "ext \<Rightarrow> 'w service \<Rightarrow> pydict \<Rightarrow> pydict \<Rightarrow> ('w, pydict) eff" where
  "snapshot_instance E call data r =
     andthen (lift (instance_snapshot_params E data r)) (\<lambda>params w. case call (''create_snapshots'', params) w of
         (Returned v, w') \<Rightarrow>
           (rbind (rbind (tag_field v ''Snapshots'') py_iter) (\<lambda>ss. rbind (rmap (\<lambda>s. tag_field s ''SnapshotId'') ss) (\<lambda>ids.
              Inr (dput ''c7n:snapshots'' (PList ids) r))), w')
       | (ClientErr c, w') \<Rightarrow>
           (if c \<in> {''InvalidInstanceId.NotFound'', ''ConcurrentSnapshotLimitExceeded'', ''IncorrectState''} then Inr r else Inl ClientError, w')
       | (OtherErr e, w') \<Rightarrow> (Inl e, w'))"

text \<open>All are tried; the last exception is raised in the end.\<close>

fun snapshot_each :: "(pydict \<Rightarrow> ('w, pydict) eff) \<Rightarrow> pyerr option \<Rightarrow> pydict list \<Rightarrow> 'w \<Rightarrow> (pydict list \<times> unit res) \<times> 'w" where
  "snapshot_each f err [] w = (([], case err of None \<Rightarrow> Inr () | Some e \<Rightarrow> Inl e), w)"
| "snapshot_each f err (r # rs) w = (case f r w of
      (Inl e, w1) \<Rightarrow> (case snapshot_each f (Some e) rs w1 of ((rs', out), w2) \<Rightarrow> ((r # rs', out), w2))
    | (Inr r', w1) \<Rightarrow> (case snapshot_each f err rs w1 of ((rs', out), w2) \<Rightarrow> ((r' # rs', out), w2)))"

definition ec2_snapshot :: "ext \<Rightarrow> 'w service \<Rightarrow> pydict \<Rightarrow> pydict list \<Rightarrow> 'w \<Rightarrow> (pydict list \<times> unit res) \<times> 'w" where
  "ec2_snapshot E call data = snapshot_each (snapshot_instance E call data) None"

definition recover_alarm :: "ext \<Rightarrow> string \<Rightarrow> pydict \<Rightarrow> pydict res" where
  "recover_alarm E part i =
     rbind (dindex i ''InstanceId'') (\<lambda>k.
     rbind (rbind (rbind (dindex i ''Placement'') (\<lambda>p. tag_field p ''AvailabilityZone'')) text_of) (\<lambda>zone.
       Inr [(''AlarmName'', PStr (''recover-'' @ py_str E k)), (''AlarmDescription'', PStr (''Auto Recover '' @ py_str E k)),
            (''ActionsEnabled'', PBool True),
            (''AlarmActions'', PList [PStr (''arn:'' @ part @ '':automate:'' @ butlast zone @ '':ec2:recover'')]),
            (''MetricName'', PStr ''StatusCheckFailed_System''), (''Namespace'', PStr ''AWS/EC2''), (''Statistic'', PStr ''Minimum''),
            (''Dimensions'', PList [PDict [(''Name'', PStr ''InstanceId''), (''Value'', k)]]),
            (''Period'', PInt 60), (''EvaluationPeriods'', PInt 2), (''Threshold'', PInt 0),
            (''ComparisonOperator'', PStr ''GreaterThanThreshold'')]))"

text \<open>\<open>outside_groups\<close> is the value filter for instances in no auto scaling group.\<close>

definition autorecover :: "ext \<Rightarrow> 'w service \<Rightarrow> string \<Rightarrow> (pydict list \<Rightarrow> pydict list res) \<Rightarrow> pydict list \<Rightarrow> ('w, unit) eff" where
  "autorecover E call part outside_groups rs =
     andthen (lift (rbind (in_states E [''running'', ''stopped'', ''pending'', ''stopping''] rs) outside_groups)) (each (\<lambda>i.
       andthen (lift (recover_alarm E part i)) (ask call ''put_metric_alarm'')))"

section \<open>What the loops do\<close>

text \<open>No code is the tuple the codes are in: what the action means to report as a failure it raises.\<close>

lemma nothing_retryable: "\<not> mem_eq (PStr code) start_retryable" "\<not> mem_eq (PStr code) reboot_retryable"
  by (simp_all add: start_retryable_def reboot_retryable_def mem_eq_def)

lemma start_never_fails: "fst (start_set oper ids w) \<noteq> Inr True"
proof (induction oper ids w rule: start_set.induct)
  case (1 oper ids w)
  show ?case
    using 1 by (subst start_set.simps) (auto simp: nothing_retryable split: prod.splits op_answer.splits sum.splits)
qed

lemma capacity_raised:
  "ids \<noteq> [] \<Longrightarrow> oper ids w = (Denied ''InsufficientInstanceCapacity'' msg, w') \<Longrightarrow> start_set oper ids w = (Inl ClientError, w')"
  by (subst start_set.simps) (simp add: nothing_retryable)

lemma reboot_never_reports: "fst (reboot_set oper rs w) \<noteq> Inr True"
  by (auto simp: reboot_set_def andthen_def lift_def nothing_retryable split: prod.splits op_answer.splits sum.splits)

text \<open>An instance in another state: its id is taken out, and the error raised.\<close>

lemma other_state_raised:
  assumes "instances \<noteq> []" "oper ids w = (Denied ''IncorrectInstanceState'' msg, w')"
  shows "\<exists>e. run_instances_op call force terminating oper instances ids w = Some (Inl e, w')"
proof (cases "drop_instance msg ids")
  case (Inl e)
  with assms show ?thesis by (subst run_instances_op.simps) simp
next
  case (Inr ids')
  with assms show ?thesis by (subst run_instances_op.simps) simp
qed

text \<open>Forced, against a service that goes on refusing, the loop does not end.\<close>

lemma refused_for_ever:
  fixes oper :: "'w op"
  assumes "\<And>ids w. \<exists>msg w'. oper ids w = (Denied ''OperationNotPermitted'' msg, w')" "instances \<noteq> []"
    and "\<And>w. \<exists>w'. disable_protection call terminating (not_spot instances) w = (Inr (), w')"
  shows "run_instances_op call True terminating oper instances ids w = None"
proof -
  have never: "c = call \<and> f \<and> t = terminating \<and> op' = oper \<and> is' = instances \<longrightarrow> False"
    if "run_instances_op c f t op' is' ids w = Some y" for c f t op' is' ids w y
    using that
  proof (rule run_instances_op.raw_induct[rotated])
    fix rec :: "'w service \<Rightarrow> bool \<Rightarrow> bool \<Rightarrow> 'w op \<Rightarrow> pydict list \<Rightarrow> string list \<Rightarrow> 'w \<Rightarrow> (unit res \<times> 'w) option"
    fix c f t op' is' ids w y
    assume IH: "\<And>c f t op' is' ids w y. rec c f t op' is' ids w = Some y \<Longrightarrow>
        c = call \<and> f \<and> t = terminating \<and> op' = oper \<and> is' = instances \<longrightarrow> False"
    assume body: "(if is' = [] then Some (Inr (), w)
      else case op' ids w of
          (Done, w') \<Rightarrow> Some (Inr (), w')
        | (Denied code msg, w') \<Rightarrow>
            if code = ''IncorrectInstanceState''
            then Some (rbind (drop_instance msg ids) (\<lambda>_. Inl ClientError), w')
            else if code = ''OperationNotPermitted'' \<and> f
            then (case disable_protection c t (not_spot is') w' of
                (Inl e, w'') \<Rightarrow> Some (Inl e, w'')
              | (Inr _, w'') \<Rightarrow> rec c f t op' is' ids w'')
            else Some (Inl ClientError, w')
        | (Broken e, w') \<Rightarrow> Some (Inl e, w')) = Some y"
    show "c = call \<and> f \<and> t = terminating \<and> op' = oper \<and> is' = instances \<longrightarrow> False"
    proof (intro impI)
      assume same: "c = call \<and> f \<and> t = terminating \<and> op' = oper \<and> is' = instances"
      obtain msg w1 where w1: "oper ids w = (Denied ''OperationNotPermitted'' msg, w1)" using assms(1) by blast
      obtain w2 where "disable_protection call terminating (not_spot instances) w1 = (Inr (), w2)" using assms(3) by blast
      with body same w1 assms(2) have "rec c f t op' is' ids w2 = Some y" by simp
      from IH[OF this] same show False by blast
    qed
  qed
  show ?thesis
  proof (cases "run_instances_op call True terminating oper instances ids w")
    case (Some y)
    from never[OF this] show ?thesis by simp
  qed
qed

text \<open>Forcing instances to stop or terminate ends when the operation is not refused once more for
  protection after the protections were dropped: it is asked for at most twice.\<close>

theorem forced_op_ends:
  assumes "\<And>w. fst (disable_protection call terminating (not_spot instances) w) = Inr ()"
    and "\<And>w code msg. fst (oper ids (snd (disable_protection call terminating (not_spot instances) w))) = Denied code msg \<Longrightarrow>
      code \<noteq> ''OperationNotPermitted''"
  shows "\<exists>r. run_instances_op call True terminating oper instances ids w = Some r"
proof -
  have second: "\<exists>r. run_instances_op call True terminating oper instances ids w1 = Some r"
    if w1: "\<And>code msg. fst (oper ids w1) = Denied code msg \<Longrightarrow> code \<noteq> ''OperationNotPermitted''" for w1
    using w1 by (subst run_instances_op.simps) (auto split: prod.splits op_answer.splits)
  show ?thesis
  proof (cases "\<exists>msg. fst (oper ids w) = Denied ''OperationNotPermitted'' msg")
    case False
    then show ?thesis by (intro second) auto
  next
    case True
    then obtain msg w1 where w1: "oper ids w = (Denied ''OperationNotPermitted'' msg, w1)" by (metis prod.collapse)
    obtain w2 where w2: "disable_protection call terminating (not_spot instances) w1 = (Inr (), w2)"
      using assms(1)[of w1] by (metis prod.collapse)
    have "\<exists>r. run_instances_op call True terminating oper instances ids w2 = Some r"
      using assms(2)[of w1] w2 by (intro second) simp
    then show ?thesis by (subst run_instances_op.simps) (simp add: w1 w2)
  qed
qed

section \<open>Profiles are set\<close>

text \<open>A cloud with the profile each instance has; associations are named by the instance.\<close>

definition cloud_arn :: "string \<Rightarrow> string" where
  "cloud_arn n = ''arn:aws:iam::1:instance-profile/'' @ n"

definition asked_ids :: "pydict \<Rightarrow> pyval list" where
  "asked_ids params = (case dget params ''Filters'' of
      Some (PList (PDict f # _)) \<Rightarrow> (case dget f ''Values'' of Some (PList vs) \<Rightarrow> vs | _ \<Rightarrow> [])
    | _ \<Rightarrow> [])"

definition asked_profile :: "pydict \<Rightarrow> string option" where
  "asked_profile params = (case dget params ''IamInstanceProfile'' of
      Some (PDict p) \<Rightarrow> (case dget p ''Name'' of Some (PStr n) \<Rightarrow> Some n | _ \<Rightarrow> None) | _ \<Rightarrow> None)"

definition asked_instance :: "pydict \<Rightarrow> string option" where
  "asked_instance params = (case dget params ''InstanceId'' of
      Some (PStr i) \<Rightarrow> Some i
    | _ \<Rightarrow> (case dget params ''AssociationId'' of Some (PStr a) \<Rightarrow> Some (drop 6 a) | _ \<Rightarrow> None))"

definition cloud_association :: "string \<times> string \<Rightarrow> pyval" where
  "cloud_association p = PDict [(''InstanceId'', PStr (fst p)), (''AssociationId'', PStr (''assoc-'' @ fst p)),
     (''IamInstanceProfile'', PDict [(''Arn'', PStr (snd p))])]"

definition profile_cloud :: "(string, string) odict service" where
  "profile_cloud q st = (case q of (name, params) \<Rightarrow>
     if name = ''describe_iam_instance_profile_associations''
     then (Returned (PDict [(''IamInstanceProfileAssociations'',
        PList (map cloud_association (filter (\<lambda>p. mem_eq (PStr (fst p)) (asked_ids params)) st)))]), st)
     else case (asked_instance params, asked_profile params) of
         (Some i, Some n) \<Rightarrow>
           if name = (if dhas st i then ''replace_iam_instance_profile_association'' else ''associate_iam_instance_profile'')
           then (Returned PNone, dput i (cloud_arn n) st) else (ClientErr ''IncorrectState'', st)
       | (Some i, None) \<Rightarrow>
           if name = ''disassociate_iam_instance_profile'' \<and> dhas st i then (Returned PNone, ddel i st) else (ClientErr ''IncorrectState'', st)
       | _ \<Rightarrow> (ClientErr ''MissingParameter'', st))"

definition set_profile :: "string option \<Rightarrow> string option \<Rightarrow> string option" where
  "set_profile name old = (case name of
      None \<Rightarrow> None
    | Some n \<Rightarrow> (case old of None \<Rightarrow> Some (cloud_arn n) | Some arn \<Rightarrow> Some (if ends_with arn (''/'' @ n) then arn else cloud_arn n)))"

definition profile_value :: "string option \<Rightarrow> pyval" where
  "profile_value name = (case name of None \<Rightarrow> PNone | Some n \<Rightarrow> PStr n)"

lemma profile_one_cloud:
  assumes "dget r ''InstanceId'' = Some (PStr i)" "name \<noteq> Some []"
    and found: "find (\<lambda>(w, _). py_eq (PStr i) w) as = map_option (\<lambda>arn. (PStr i, PStr (''assoc-'' @ i), PStr arn)) (dget st i)"
  shows "\<exists>st'. profile_one profile_cloud (profile_value name) as r st = (Inr (), st') \<and>
    dget st' = (dget st)(i := set_profile name (dget st i))"
proof (cases "dget st i")
  case None
  then show ?thesis
    using assms
    by (cases name)
       (auto simp: profile_one_def dindex_def profile_value_def set_profile_def ask_def ask_ignoring_def profile_cloud_def
          asked_instance_def asked_profile_def profile_request_def dhas_dget)
next
  case (Some arn)
  then show ?thesis
    using assms
    by (cases name)
       (auto simp: profile_one_def dindex_def profile_value_def set_profile_def ask_def ask_ignoring_def profile_cloud_def text_of_def
          asked_instance_def asked_profile_def profile_request_def dhas_dget)
qed

lemma profiles_each:
  assumes "list_all (\<lambda>r. dget r ''InstanceId'' = Some (PStr (inst r)) \<and>
      find (\<lambda>(w, _). py_eq (PStr (inst r)) w) as = map_option (\<lambda>arn. (PStr (inst r), PStr (''assoc-'' @ inst r), PStr arn)) (dget st (inst r))) rs"
    and "distinct (map inst rs)" "name \<noteq> Some []"
  shows "\<exists>st'. each (profile_one profile_cloud (profile_value name) as) rs st = (Inr (), st') \<and>
    dget st' = (\<lambda>i. if i \<in> inst ` set rs then set_profile name (dget st i) else dget st i)"
  using assms(1,2)
proof (induction rs arbitrary: st)
  case Nil
  then show ?case by (simp add: fun_eq_iff)
next
  case (Cons r rs)
  from Cons.prems(1) have here: "dget r ''InstanceId'' = Some (PStr (inst r))"
    "find (\<lambda>(w, _). py_eq (PStr (inst r)) w) as = map_option (\<lambda>arn. (PStr (inst r), PStr (''assoc-'' @ inst r), PStr arn)) (dget st (inst r))"
    by simp_all
  from profile_one_cloud[OF here(1) assms(3) here(2)] obtain st1 where
    one: "profile_one profile_cloud (profile_value name) as r st = (Inr (), st1)" and st1: "dget st1 = (dget st)(inst r := set_profile name (dget st (inst r)))"
    by blast
  have same: "dget st1 (inst x) = dget st (inst x)" if "x \<in> set rs" for x
    using that Cons.prems(2) st1 by (metis (no_types, lifting) distinct.simps(2) fun_upd_other imageI list.set_map list.simps(9))
  with Cons.prems(1) have rest: "list_all (\<lambda>r. dget r ''InstanceId'' = Some (PStr (inst r)) \<and>
      find (\<lambda>(w, _). py_eq (PStr (inst r)) w) as = map_option (\<lambda>arn. (PStr (inst r), PStr (''assoc-'' @ inst r), PStr arn)) (dget st1 (inst r))) rs"
    by (simp add: list_all_iff)
  from Cons.IH[OF rest] Cons.prems(2) obtain st' where
    "each (profile_one profile_cloud (profile_value name) as) rs st1 = (Inr (), st')"
    "dget st' = (\<lambda>i. if i \<in> inst ` set rs then set_profile name (dget st1 i) else dget st1 i)" by auto
  with one st1 Cons.prems(2) show ?case by (auto simp: andthen_def fun_eq_iff)
qed

lemma find_association:
  "dwf st \<Longrightarrow> mem_eq (PStr i) ids \<or> dget st i = None \<Longrightarrow>
   find (\<lambda>(w, _). py_eq (PStr i) w) (rev (map (\<lambda>p. (PStr (fst p), PStr (''assoc-'' @ fst p), PStr (snd p))) (filter (\<lambda>p. mem_eq (PStr (fst p)) ids) st))) =
     map_option (\<lambda>arn. (PStr i, PStr (''assoc-'' @ i), PStr arn)) (dget st i)"
proof (induction st)
  case (Cons p st)
  obtain j arn where p: "p = (j, arn)" by (cases p)
  from Cons.prems(1) p have "dwf st" and new: "dget st j = None" by (auto simp: dwf_def dkeys_def map_of_eq_None_iff)
  with Cons p show ?case by (cases "j = i"; cases "dget st i") (auto simp: find_snoc)
qed simp

lemma associations_read: "rmap association_of (map cloud_association ps) = Inr (map (\<lambda>p. (PStr (fst p), PStr (''assoc-'' @ fst p), PStr (snd p))) ps)"
  by (induction ps) (simp_all add: association_of_def cloud_association_def tag_field_def dindex_def)

lemma associations_found:
  assumes "list_all (\<lambda>r. dget r ''InstanceId'' = Some (PStr (inst r))) rs" "dwf st"
    and "list_all (\<lambda>r. py_truth (dget_or r ''IamInstanceProfile'' PNone) = dhas st (inst r)) rs"
  obtains as where "profile_associations profile_cloud rs st = (Inr as, st)"
    "list_all (\<lambda>r. find (\<lambda>(w, _). py_eq (PStr (inst r)) w) as =
       map_option (\<lambda>arn. (PStr (inst r), PStr (''assoc-'' @ inst r), PStr arn)) (dget st (inst r))) rs"
proof (cases "filter (\<lambda>i. py_truth (dget_or i ''IamInstanceProfile'' PNone)) rs = []")
  case True
  then have "list_all (\<lambda>r. dget st (inst r) = None) rs" using assms(3) by (auto simp: list_all_iff filter_empty_conv dhas_dget)
  with True that[of "[]"] show ?thesis by (auto simp: profile_associations_def list_all_iff)
next
  case False
  let ?with = "filter (\<lambda>i. py_truth (dget_or i ''IamInstanceProfile'' PNone)) rs"
  let ?ids = "map (\<lambda>i. PStr (inst i)) ?with"
  let ?as = "map (\<lambda>p. (PStr (fst p), PStr (''assoc-'' @ fst p), PStr (snd p))) (filter (\<lambda>p. mem_eq (PStr (fst p)) ?ids) st)"
  have ids: "rmap (\<lambda>i. dindex i ''InstanceId'') ?with = Inr ?ids"
    using assms(1) by (intro rmap_pure) (auto simp: list_all_iff dindex_def)
  have answer: "rbind (dict_of (PDict [(''IamInstanceProfileAssociations'', PList xs)])) (\<lambda>d. py_iter (dget_or d ''IamInstanceProfileAssociations'' (PTuple []))) = Inr xs"
    for xs by (simp add: dict_of_def dget_or_def)
  have run: "profile_associations profile_cloud rs st = (Inr (rev ?as), st)"
    by (simp add: answer profile_associations_def False ids fetch_answer_def andthen_def profile_cloud_def asked_ids_def associations_read)
  have asked: "mem_eq (PStr (inst r)) ?ids \<or> dget st (inst r) = None" if "r \<in> set rs" for r
    using that assms(3) by (auto simp: mem_eq_def list_ex_iff list_all_iff dhas_dget)
  show ?thesis
    by (rule that[OF run], unfold list_all_iff, rule ballI, rule find_association[OF assms(2) asked])
qed

lemma set_profile_right: "case set_profile name old of None \<Rightarrow> name = None | Some arn \<Rightarrow> \<exists>n. name = Some n \<and> ends_with arn (''/'' @ n)"
  by (auto simp: set_profile_def ends_with_def cloud_arn_def starts_with_prefix split: option.splits)


definition ex_states :: ext where
  "ex_states = (ext0 0)\<lparr>ext_jmes := (\<lambda>e v. Inr (PList [PStr ''running'']))\<rparr>"

definition ex_profiled :: "pydict list" where
  "ex_profiled = [[(''InstanceId'', PStr ''i-1''), (''IamInstanceProfile'', PDict [(''Id'', PStr ''p'')])], [(''InstanceId'', PStr ''i-2'')]]"

definition ex_inst :: "pydict \<Rightarrow> string" where
  "ex_inst r = (case dget r ''InstanceId'' of Some (PStr i) \<Rightarrow> i | _ \<Rightarrow> [])"


section \<open>Tags of spot requests\<close>

text \<open>A key asked for that the request does not have is an error, and the others are not left out.\<close>

lemma missing_spot_key:
  assumes "py_truth only" "py_set only = Inr ks" "k \<in> set ks" "\<not> mem_eq k (map PStr (dkeys tags))"
  shows "wanted_spot_tags only tags = Inl KeyError"
  using assms by (auto simp: wanted_spot_tags_def filter_empty_conv)

lemma spot_keys_not_restricted: "wanted_spot_tags only tags = Inr wanted \<Longrightarrow> wanted = tags"
  by (auto simp: wanted_spot_tags_def rbind_eq_Inr split: if_splits)

text \<open>An instance is listed once for every tag that differs.\<close>

lemma listed_for_every_tag:
  "spot_dict i = Inr own \<Longrightarrow> dget i ''InstanceId'' = Some k \<Longrightarrow>
   spot_updates wanted [i] = Inr (replicate (length (differing_tags wanted own)) k)"
  by (simp add: spot_updates_def dindex_def map_replicate_const)

section \<open>Options of metadata\<close>

text \<open>Only instances all of whose options differ from those given are changed: one that has one of
  them right keeps the others wrong.\<close>

lemma one_right_left_alone:
  assumes "narrow E ps rs = Inr kept" "r \<in> set kept" "(k, v) \<in> set ps"
  shows "\<exists>vs rs' kept'. other_values k v = Inr vs \<and> element_filter E (''MetadataOptions.'' @ k) vs rs' = Inr kept' \<and> r \<in> set kept'"
  using assms
proof (induction ps arbitrary: rs)
  case (Cons p ps)
  obtain k' v' where p: "p = (k', v')" by (cases p)
  from Cons.prems(1) p obtain vs rs' where here: "other_values k' v' = Inr vs"
    "element_filter E (''MetadataOptions.'' @ k') vs rs = Inr rs'" and rest: "narrow E ps rs' = Inr kept"
    by (auto simp: rbind_eq_Inr)
  have sub: "narrow E ps qs = Inr kept \<Longrightarrow> set kept \<subseteq> set qs" for qs
  proof (induction ps arbitrary: qs)
    case (Cons p ps)
    obtain a b where "p = (a, b)" by (cases p)
    with Cons.prems obtain us qs' where "element_filter E (''MetadataOptions.'' @ a) us qs = Inr qs'" "narrow E ps qs' = Inr kept"
      by (auto simp: rbind_eq_Inr)
    with Cons.IH[of qs'] show ?case using rfilter_Inr_set unfolding element_filter_def Let_def by fastforce
  qed simp
  show ?case
  proof (cases "(k, v) = p")
    case True
    with p here sub[OF rest] Cons.prems(2) show ?thesis by blast
  next
    case False
    with Cons.prems(3) Cons.IH[OF rest Cons.prems(2)] show ?thesis by simp
  qed
qed simp

section \<open>Hibernation\<close>

text \<open>Where an instance has no status the list of statuses is shorter: some instances are on neither side.\<close>

lemma hibernate_split_loses:
  assumes "ext_jmes E ''[].HibernationOptions.Configured'' (PList (map PDict rs)) = Inr (PList statuses)" "length statuses < length rs"
    and "split_on_hibernate E rs = Inr (enabled, disabled)"
  shows "length enabled + length disabled < length rs"
proof -
  let ?ps = "zip statuses rs"
  have "enabled = map snd (filter (\<lambda>(s, i). s = PBool True) ?ps)" "disabled = map snd (filter (\<lambda>(s, i). s \<noteq> PBool True) ?ps)"
    using assms(1,3) by (simp_all add: split_on_hibernate_def Let_def)
  moreover have sides: "(\<lambda>(s, i). s = PBool True) = (\<lambda>p. fst p = PBool True)" "(\<lambda>(s, i). s \<noteq> PBool True) = (\<lambda>p. \<not> fst p = PBool True)"
    by (auto simp: fun_eq_iff)
  ultimately have "length enabled + length disabled = length (filter (\<lambda>p. fst p = PBool True) ?ps) + length (filter (\<lambda>p. \<not> fst p = PBool True) ?ps)"
    by (simp only: sides length_map)
  also have "\<dots> = length ?ps" by (rule sum_length_filter_compl)
  finally show ?thesis using assms(2) by simp
qed

end
