(* ===== verification/Archives.thy ===== *)
theory Archives
  imports Utils_Aws Tags
begin

text \<open>
  The code archive of a function (\<open>c7n/mu.py\<close>): a zip file that is filled while it is open and
  read once it is closed, and the frozen list of the packages it needs. Bytes are strings; the
  files on disk, the importer, the zip format and the metadata of packages are arguments.
\<close>

section \<open>The archive\<close>

record zip_info =
  zi_name :: string
  zi_attr :: int
  zi_compressed :: bool
  zi_system :: int

definition zip_info_of :: "string \<Rightarrow> zip_info" where
  "zip_info_of fname = \<lparr>zi_name = fname, zi_attr = 0, zi_compressed = False, zi_system = 0\<rparr>"

text \<open>\<open>0o644 << 16\<close>: others may read.\<close>

definition zinfo :: "string \<Rightarrow> zip_info" where
  "zinfo fname = (zip_info_of fname)\<lparr>zi_attr := push_bit 16 420\<rparr>"

datatype zip_dest = Path string | Info zip_info

definition create_zinfo :: "zip_dest \<Rightarrow> zip_info" where
  "create_zinfo d = (case d of Path s \<Rightarrow> zinfo s | Info i \<Rightarrow> i)\<lparr>zi_compressed := True, zi_system := 3\<rparr>"

record archive =
  ar_entries :: "(zip_info \<times> string) list"
  ar_closed :: bool

definition new_archive :: archive where
  "new_archive = \<lparr>ar_entries = [], ar_closed = False\<rparr>"

definition add_contents :: "zip_dest \<Rightarrow> string \<Rightarrow> archive \<Rightarrow> archive res" where
  "add_contents dest contents a =
     (if ar_closed a then Inl AssertionError
      else Inr (a\<lparr>ar_entries := ar_entries a @ [(create_zinfo dest, contents)]\<rparr>))"

definition basename :: "string \<Rightarrow> string" where
  "basename p = last (split_char CHR ''/'' p)"

definition add_file :: "(string \<Rightarrow> string option) \<Rightarrow> string \<Rightarrow> string option \<Rightarrow> archive \<Rightarrow> archive res" where
  "add_file files src dest a =
     (let d = (case dest of None \<Rightarrow> basename src | Some d \<Rightarrow> if d = [] then basename src else d)
      in case files src of None \<Rightarrow> Inl ExternalError | Some contents \<Rightarrow> add_contents (Path d) contents a)"

definition add_py_file :: "(string \<Rightarrow> string option) \<Rightarrow> string \<Rightarrow> string option \<Rightarrow> archive \<Rightarrow> archive res" where
  "add_py_file files src dest = add_file files (if ends_with src ''.pyc'' then butlast src else src) dest"

text \<open>A directory as it is walked, from its top: names of files and directories.\<close>

datatype dir_tree = Dir (dir_files: "string list") (dir_subs: "(string \<times> dir_tree) list")

fun walk_package :: "string \<Rightarrow> string \<Rightarrow> dir_tree \<Rightarrow> (string \<times> string \<times> string list) list" where
  "walk_package path rel (Dir fs subs) =
     (path, rel, fs) # concat (map (\<lambda>(n, t). if n = ''__pycache__'' then [] else walk_package (path_join1 path n) (path_join1 rel n) t) subs)"

definition skipped :: "(string \<Rightarrow> bool) option \<Rightarrow> string \<Rightarrow> string \<Rightarrow> bool" where
  "skipped ignore dest f \<longleftrightarrow>
     (case ignore of None \<Rightarrow> False | Some g \<Rightarrow> g dest) \<or> ends_with f ''.pyc'' \<or> ends_with f ''.c''"

definition add_found :: "(string \<Rightarrow> string option) \<Rightarrow> (string \<Rightarrow> bool) option \<Rightarrow> archive \<Rightarrow> string \<times> string \<times> string list \<Rightarrow> archive res" where
  "add_found files ignore a = (\<lambda>(root, arc_prefix, fs). rfold (\<lambda>a f.
     let dest_path = path_join1 arc_prefix f
     in if skipped ignore dest_path f then Inr a else add_file files (path_join1 root f) (Some dest_path) a) a fs)"

text \<open>The path is absolute and has no slash at its end.\<close>

definition add_directory :: "(string \<Rightarrow> string option) \<Rightarrow> (string \<Rightarrow> bool) option \<Rightarrow> string \<Rightarrow> dir_tree \<Rightarrow> archive \<Rightarrow> archive res" where
  "add_directory files ignore path tree a = rfold (add_found files ignore) a (walk_package path (basename path) tree)"

text \<open>An imported module: its \<open>__path__\<close> and its \<open>__file__\<close>.\<close>

record py_module =
  pm_path :: "string list option"
  pm_file :: "string option"

record disk =
  dk_files :: "string \<Rightarrow> string option"
  dk_tree :: "string \<Rightarrow> dir_tree"
  dk_list :: "string \<Rightarrow> string list"

definition dirname :: "string \<Rightarrow> string" where
  "dirname p = join ''/'' (butlast (split_char CHR ''/'' p))"

definition add_namespace :: "disk \<Rightarrow> string \<Rightarrow> string list \<Rightarrow> archive \<Rightarrow> archive res" where
  "add_namespace D module_name dirs a = (case dirs of
      [] \<Rightarrow> Inl IndexError
    | d # _ \<Rightarrow> rfold (\<lambda>a f.
        if starts_with f module_name \<and> ends_with f ''-nspkg.pth'' then add_file (dk_files D) (path_join1 (dirname d) f) None a else Inr a)
        a (dk_list D (dirname d)))"

definition source_path :: "disk \<Rightarrow> string \<Rightarrow> string res" where
  "source_path D path =
     (if ends_with path ''.pyc''
      then if dk_files D (butlast path) = None then Inl ValueError else Inr (butlast path)
      else Inr path)"

definition add_module :: "disk \<Rightarrow> (string \<Rightarrow> py_module res) \<Rightarrow> (string \<Rightarrow> bool) option \<Rightarrow> archive \<Rightarrow> string \<Rightarrow> archive res" where
  "add_module D importer ignore a module_name =
     rbind (importer module_name) (\<lambda>m. case pm_path m of
         Some dirs \<Rightarrow>
           rbind (rfold (\<lambda>a d. add_directory (dk_files D) ignore d (dk_tree D d) a) a dirs) (\<lambda>a.
           if pm_file m = None then add_namespace D module_name dirs a else Inr a)
       | None \<Rightarrow> (case pm_file m of
           None \<Rightarrow> Inr a
         | Some f \<Rightarrow> rbind (source_path D f) (\<lambda>p.
             if ends_with p ''.py'' then add_file (dk_files D) p None a else Inl ValueError)))"

definition add_modules :: "disk \<Rightarrow> (string \<Rightarrow> py_module res) \<Rightarrow> (string \<Rightarrow> bool) option \<Rightarrow> string list \<Rightarrow> archive \<Rightarrow> archive res" where
  "add_modules D importer ignore modules a = rfold (add_module D importer ignore) a modules"

definition close_archive :: "archive \<Rightarrow> archive" where
  "close_archive a = a\<lparr>ar_closed := True\<rparr>"

text \<open>What is read of the closed file; \<open>zipped\<close> writes the format.\<close>

definition get_bytes :: "((zip_info \<times> string) list \<Rightarrow> string) \<Rightarrow> archive \<Rightarrow> string res" where
  "get_bytes zipped a = (if ar_closed a then Inr (zipped (ar_entries a)) else Inl AssertionError)"

definition archive_size :: "((zip_info \<times> string) list \<Rightarrow> string) \<Rightarrow> archive \<Rightarrow> nat res" where
  "archive_size zipped a = (if ar_closed a then Inr (length (zipped (ar_entries a))) else Inl ValueError)"

definition get_filenames :: "archive \<Rightarrow> string list res" where
  "get_filenames a = (if ar_closed a then Inr (map (zi_name \<circ> fst) (ar_entries a)) else Inl AssertionError)"

text \<open>The digest of a file that is read in blocks.\<close>

function feed :: "('h \<Rightarrow> string \<Rightarrow> 'h) \<Rightarrow> nat \<Rightarrow> 'h \<Rightarrow> string \<Rightarrow> 'h" where
  "feed update blocksize h data =
     (if data = [] \<or> blocksize = 0 then h else feed update blocksize (update h (take blocksize data)) (drop blocksize data))"
  by pat_completeness auto
termination
  by (relation "measure (\<lambda>(update, blocksize, h, data). length data)") auto

declare feed.simps [simp del]

definition checksum :: "('h \<Rightarrow> string \<Rightarrow> 'h) \<Rightarrow> ('h \<Rightarrow> string) \<Rightarrow> 'h \<Rightarrow> nat \<Rightarrow> string \<Rightarrow> string" where
  "checksum update digest hasher blocksize data = digest (feed update blocksize hasher data)"

definition get_checksum ::
  "((zip_info \<times> string) list \<Rightarrow> string) \<Rightarrow> (string \<Rightarrow> string) \<Rightarrow> ('h \<Rightarrow> string \<Rightarrow> 'h) \<Rightarrow> ('h \<Rightarrow> string) \<Rightarrow> 'h \<Rightarrow> archive \<Rightarrow> string res" where
  "get_checksum zipped encoder update digest hasher a =
     rbind (get_bytes zipped a) (\<lambda>bs. Inr (encoder (checksum update digest hasher 65536 bs)))"

section \<open>What is put in it\<close>

definition custodian_modules :: "string list option \<Rightarrow> string list" where
  "custodian_modules packages = (case packages of
      None \<Rightarrow> [''c7n'']
    | Some ps \<Rightarrow> sort (remdups (filter (\<lambda>p. p \<noteq> []) (''c7n'' # ps))))"

definition custodian_archive :: "disk \<Rightarrow> (string \<Rightarrow> py_module res) \<Rightarrow> string list option \<Rightarrow> archive res" where
  "custodian_archive D importer packages = add_modules D importer None (custodian_modules packages) new_archive"

text \<open>The options that a deployed policy keeps; an output directory only when it is a URL.\<close>

definition get_exec_options :: "pydict \<Rightarrow> pydict res" where
  "get_exec_options options =
     rbind (rfold (\<lambda>d k. rbind (dindex options k) (\<lambda>v. Inr (if py_truth v then dput k v d else d))) []
       [''log_group'', ''tracer'', ''output_dir'', ''metrics_enabled'']) (\<lambda>d.
     case dget d ''output_dir'' of
       None \<Rightarrow> Inr d
     | Some (PStr s) \<Rightarrow> Inr (if has_substr s ''://'' then d else ddel ''output_dir'' d)
     | Some v \<Rightarrow> Inl TypeError)"

definition handler_source :: string where
  "handler_source = concat (map (\<lambda>l. l @ [CHR 0x0A])
     [''from c7n import handler'', [], ''def run(event, context):'', ''    return handler.dispatch_event(event, context)'', []])"

definition policy_archive :: "(pyval \<Rightarrow> string) \<Rightarrow> pydict \<Rightarrow> pydict \<Rightarrow> archive \<Rightarrow> archive res" where
  "policy_archive dumps options data a =
     rbind (get_exec_options options) (\<lambda>opts.
     rbind (add_contents (Path ''config.json'') (dumps (PDict [(''execution-options'', PDict opts), (''policies'', PList [PDict data])])) a) (\<lambda>a.
     rbind (add_contents (Path ''custodian_policy.py'') handler_source a) (\<lambda>a. Inr (close_archive a))))"

section \<open>Frozen requirements\<close>

text \<open>A requirement starts with the name of a package; none is the empty string.\<close>

definition name_char :: "char \<Rightarrow> bool" where
  "name_char c \<longleftrightarrow> is_alpha c \<or> is_digit c \<or> c \<in> set ''-_.''"

definition requirement_name :: "string \<Rightarrow> string" where
  "requirement_name r =
     (let n = length (takeWhile name_char r); idx = (if n = length r then n - 1 else n)
      in take (if idx + 1 = length r then idx + 1 else idx) r)"

definition optional_dep :: "string \<Rightarrow> bool" where
  "optional_dep r \<longleftrightarrow> has_substr r '';'' \<and> has_substr r ''extra''"

text \<open>One requirement in the loop, where \<open>rec\<close> is the call for its package.\<close>

definition gather_requirement :: "(string \<Rightarrow> string list \<Rightarrow> string list res) \<Rightarrow> string list \<Rightarrow> string list \<Rightarrow> string \<Rightarrow> string list res" where
  "gather_requirement rec ignore deps r =
     (if optional_dep r then Inr deps
      else let pkg_name = requirement_name r
           in if pkg_name \<in> set ignore \<or> pkg_name \<in> set deps then Inr deps
              else rbind (rec pkg_name deps) (\<lambda>deps. Inr (deps @ [pkg_name])))"

text \<open>
  The first argument is the depth the interpreter's stack has left; past it the error is a
  \<open>RecursionError\<close>, which is a \<open>RuntimeError\<close>.
\<close>

fun package_deps :: "nat \<Rightarrow> (string \<Rightarrow> string list option) \<Rightarrow> string list \<Rightarrow> string \<Rightarrow> string list \<Rightarrow> string list res" where
  "package_deps 0 metadata ignore package deps = Inl RuntimeError"
| "package_deps (Suc n) metadata ignore package deps = (case metadata package of
      None \<Rightarrow> Inr deps
    | Some pdeps \<Rightarrow> rfold (gather_requirement (\<lambda>p ds. package_deps n metadata ignore p ds) ignore) deps pdeps)"

definition generate_requirements ::
  "nat \<Rightarrow> (string \<Rightarrow> string list option) \<Rightarrow> (string \<Rightarrow> string option) \<Rightarrow> string list \<Rightarrow> string list \<Rightarrow> string list \<Rightarrow> bool \<Rightarrow> string res" where
  "generate_requirements depth metadata version packages ignore exclude include_self =
     rbind (rfold (\<lambda>deps p. package_deps depth metadata ignore p deps) [] packages) (\<lambda>deps.
     let ds = filter (\<lambda>d. d \<notin> set exclude) (sort (if include_self then remdups (deps @ packages) else deps));
         line = (\<lambda>d. case version d of None \<Rightarrow> [] | Some v \<Rightarrow> [d @ ''=='' @ v])
     in Inr (join [CHR 0x0A] (concat (map line ds))))"

section \<open>Facts\<close>

text \<open>The digest of blocks is that of the whole, for a hasher that is fed bytes in order.\<close>

lemma feed_whole:
  assumes "\<And>h x y. update (update h x) y = update h (x @ y)" "\<And>h. update h [] = h" "0 < blocksize"
  shows "feed update blocksize h data = update h data"
  using assms
proof (induction update blocksize h data rule: feed.induct)
  case (1 update blocksize h data)
  show ?case
  proof (cases "data = []")
    case False
    then have "feed update blocksize h data = feed update blocksize (update h (take blocksize data)) (drop blocksize data)"
      using 1(4) by (subst feed.simps) simp
    also have "\<dots> = update (update h (take blocksize data)) (drop blocksize data)"
      using False 1(4) by (intro 1(1)) (simp_all add: 1(2,3))
    finally show ?thesis by (simp add: 1(2))
  qed (simp add: feed.simps 1(3))
qed

text \<open>Nothing is added to a closed archive, and nothing read of an open one.\<close>

lemma closed_archive_kept:
  "ar_closed a \<Longrightarrow> add_contents dest contents a = Inl AssertionError"
  "ar_closed a \<Longrightarrow> policy_archive dumps options data a = Inr a' \<Longrightarrow> False"
  by (auto simp: add_contents_def policy_archive_def rbind_eq_Inr)

lemma policy_archive_files:
  assumes "policy_archive dumps options data a = Inr a'"
  shows "ar_closed a' \<and> get_filenames a' = Inr (map (zi_name \<circ> fst) (ar_entries a) @ [''config.json'', ''custodian_policy.py''])"
  using assms by (auto simp: policy_archive_def rbind_eq_Inr add_contents_def create_zinfo_def zinfo_def zip_info_of_def
      close_archive_def get_filenames_def split: if_splits)

text \<open>Every entry can be read by others, whoever wrote it.\<close>

definition readable :: "archive \<Rightarrow> bool" where
  "readable a \<longleftrightarrow> list_all (\<lambda>(i, c). zi_attr i = push_bit 16 420 \<and> zi_compressed i \<and> zi_system i = 3) (ar_entries a)"

lemma add_file_readable:
  "add_file files src dest a = Inr a' \<Longrightarrow> readable a \<Longrightarrow> readable a'"
  by (auto simp: add_file_def add_contents_def readable_def create_zinfo_def zinfo_def zip_info_of_def Let_def
      split: option.splits if_splits)

lemma add_directory_readable:
  assumes "add_directory files ignore path tree a = Inr a'" "readable a"
  shows "readable a'"
proof -
  have "readable b'" if "add_found files ignore b x = Inr b'" "readable b" for b x b'
  proof -
    obtain root prefix fs where x: "x = (root, prefix, fs)" by (cases x)
    from that(1) have "rfold (\<lambda>a f. let dest_path = path_join1 prefix f
        in if skipped ignore dest_path f then Inr a else add_file files (path_join1 root f) (Some dest_path) a) b fs = Inr b'"
      by (simp add: add_found_def x)
    then show ?thesis
      by (rule rfold_keeps[where I = readable, OF _ that(2)]) (auto simp: Let_def split: if_splits intro: add_file_readable)
  qed
  from rfold_keeps[where I = readable, OF assms(1)[unfolded add_directory_def] assms(2)] this show ?thesis by blast
qed

section \<open>Dependencies\<close>

text \<open>The packages one needs directly, and all that it needs.\<close>

definition needs :: "(string \<Rightarrow> string list option) \<Rightarrow> string list \<Rightarrow> string \<Rightarrow> string set" where
  "needs metadata ignore p = (case metadata p of None \<Rightarrow> {}
     | Some rs \<Rightarrow> set (map requirement_name (filter (\<lambda>r. \<not> optional_dep r) rs)) - set ignore)"

definition needs_rel :: "(string \<Rightarrow> string list option) \<Rightarrow> string list \<Rightarrow> (string \<times> string) set" where
  "needs_rel metadata ignore = {(p, q). q \<in> needs metadata ignore p}"

definition closed_deps :: "(string \<Rightarrow> string list option) \<Rightarrow> string list \<Rightarrow> string set \<Rightarrow> bool" where
  "closed_deps metadata ignore ds \<longleftrightarrow> needs_rel metadata ignore `` ds \<subseteq> ds"

lemma closed_deps_reach: "closed_deps m ig ds \<Longrightarrow> q \<in> ds \<Longrightarrow> (needs_rel m ig)\<^sup>* `` {q} \<subseteq> ds"
proof
  fix x assume c: "closed_deps m ig ds" "q \<in> ds" and "x \<in> (needs_rel m ig)\<^sup>* `` {q}"
  then have "(q, x) \<in> (needs_rel m ig)\<^sup>*" by simp
  then show "x \<in> ds" by (induction rule: rtrancl_induct) (use c in \<open>auto simp: closed_deps_def\<close>)
qed

lemma closed_deps_add: "closed_deps m ig ds \<Longrightarrow> closed_deps m ig (ds \<union> (needs_rel m ig)\<^sup>* `` {q})"
  unfolding closed_deps_def by (auto intro: rtrancl_into_rtrancl)

lemma reach_one: "R\<^sup>+ `` {q} \<union> {q} = R\<^sup>* `` {q}"
  by (auto simp: rtrancl_eq_or_trancl)

lemma ranked_trancl:
  assumes "\<And>p q. q \<in> needs m ig p \<Longrightarrow> rank q < (rank p :: nat)" "(p, q) \<in> (needs_rel m ig)\<^sup>+"
  shows "rank q < rank p"
  using assms(2) by (induction rule: trancl_induct) (use assms(1) in \<open>fastforce simp: needs_rel_def\<close>)+

text \<open>What one call gathers, and one pass over requirements.\<close>

definition gathers :: "(string \<Rightarrow> string list option) \<Rightarrow> string list \<Rightarrow> string list \<Rightarrow> string set \<Rightarrow> string list res \<Rightarrow> bool" where
  "gathers m ig deps qs r \<longleftrightarrow> (\<exists>ds. r = Inr ds \<and> distinct ds \<and> closed_deps m ig (set ds) \<and> set ds = set deps \<union> (needs_rel m ig)\<^sup>* `` qs)"

definition required :: "string list \<Rightarrow> string list \<Rightarrow> string set" where
  "required ig rs = set (map requirement_name (filter (\<lambda>r. \<not> optional_dep r) rs)) - set ig"

lemma gather_requirement_gathers:
  assumes "\<And>q deps. rank q < n \<Longrightarrow> distinct deps \<Longrightarrow> closed_deps m ig (set deps) \<Longrightarrow>
      \<exists>ds. package_deps n m ig q deps = Inr ds \<and> distinct ds \<and> set ds = set deps \<union> (needs_rel m ig)\<^sup>+ `` {q}"
    and "\<And>p q. q \<in> needs m ig p \<Longrightarrow> rank q < (rank p :: nat)"
    and "\<And>q. q \<in> required ig [r] \<Longrightarrow> rank q < n" "distinct deps" "closed_deps m ig (set deps)"
  shows "gathers m ig deps (required ig [r]) (gather_requirement (package_deps n m ig) ig deps r)"
proof (cases "optional_dep r \<or> requirement_name r \<in> set ig \<or> requirement_name r \<in> set deps")
  case True
  then have "gather_requirement (package_deps n m ig) ig deps r = Inr deps" by (auto simp: gather_requirement_def Let_def)
  moreover have "(needs_rel m ig)\<^sup>* `` required ig [r] \<subseteq> set deps"
    using True closed_deps_reach[OF assms(5)] by (auto simp: required_def)
  ultimately show ?thesis using assms(4,5) by (auto simp: gathers_def)
next
  case False
  let ?q = "requirement_name r"
  have q: "required ig [r] = {?q}" using False by (auto simp: required_def)
  obtain ds where ds: "package_deps n m ig ?q deps = Inr ds" "distinct ds" "set ds = set deps \<union> (needs_rel m ig)\<^sup>+ `` {?q}"
    using assms(1)[OF _ assms(4,5), of ?q] assms(3)[of ?q] q by blast
  have "(?q, ?q) \<notin> (needs_rel m ig)\<^sup>+" using ranked_trancl[of m ig rank ?q ?q, OF assms(2)] by blast
  then have new: "?q \<notin> set ds" using False ds(3) by simp
  have all: "set (ds @ [?q]) = set deps \<union> (needs_rel m ig)\<^sup>* `` {?q}"
    by (simp only: set_append ds(3) Un_assoc reach_one list.set(1) list.set(2))
  have "gather_requirement (package_deps n m ig) ig deps r = Inr (ds @ [?q])" using False ds(1) by (simp add: gather_requirement_def Let_def)
  moreover have "closed_deps m ig (set (ds @ [?q]))" unfolding all by (rule closed_deps_add[OF assms(5)])
  ultimately show ?thesis unfolding gathers_def q using new ds(2) all by (intro exI[of _ "ds @ [?q]"] conjI) simp_all
qed

lemma gather_all:
  assumes "\<And>q deps. rank q < n \<Longrightarrow> distinct deps \<Longrightarrow> closed_deps m ig (set deps) \<Longrightarrow>
      \<exists>ds. package_deps n m ig q deps = Inr ds \<and> distinct ds \<and> set ds = set deps \<union> (needs_rel m ig)\<^sup>+ `` {q}"
    and ranked: "\<And>p q. q \<in> needs m ig p \<Longrightarrow> rank q < (rank p :: nat)"
    and "\<And>q. q \<in> required ig rs \<Longrightarrow> rank q < n" "distinct deps" "closed_deps m ig (set deps)"
  shows "gathers m ig deps (required ig rs) (rfold (gather_requirement (package_deps n m ig) ig) deps rs)"
  using assms(3,4,5)
proof (induction rs arbitrary: deps)
  case Nil
  then show ?case by (simp add: gathers_def required_def)
next
  case (Cons r rs)
  have split: "required ig (r # rs) = required ig [r] \<union> required ig rs" by (auto simp: required_def)
  have "gathers m ig deps (required ig [r]) (gather_requirement (package_deps n m ig) ig deps r)"
    by (rule gather_requirement_gathers[where rank = rank, OF assms(1) ranked _ Cons.prems(2,3)]) (use Cons.prems(1) split in auto)
  then obtain d1 where d1: "gather_requirement (package_deps n m ig) ig deps r = Inr d1" "distinct d1" "closed_deps m ig (set d1)"
    "set d1 = set deps \<union> (needs_rel m ig)\<^sup>* `` required ig [r]" by (auto simp: gathers_def)
  have "gathers m ig d1 (required ig rs) (rfold (gather_requirement (package_deps n m ig) ig) d1 rs)"
    by (rule Cons.IH[OF _ d1(2,3)]) (use Cons.prems(1) split in auto)
  with d1 show ?case by (auto simp: gathers_def split)
qed

lemma package_deps_reach:
  assumes "\<And>p q. q \<in> needs m ig p \<Longrightarrow> rank q < (rank p :: nat)" "rank p < n" "distinct deps" "closed_deps m ig (set deps)"
  shows "\<exists>ds. package_deps n m ig p deps = Inr ds \<and> distinct ds \<and> set ds = set deps \<union> (needs_rel m ig)\<^sup>+ `` {p}"
  using assms(2,3,4)
proof (induction n arbitrary: p deps)
  case (Suc n)
  show ?case
  proof (cases "m p")
    case None
    then have none: "(p, x) \<notin> needs_rel m ig" for x by (simp add: needs_rel_def needs_def)
    have "(needs_rel m ig)\<^sup>+ `` {p} = {}" by (auto simp: none dest: tranclD)
    with None Suc.prems(2) show ?thesis by simp
  next
    case (Some rs)
    have rel: "needs_rel m ig `` {p} = required ig rs" by (auto simp: needs_rel_def needs_def Some required_def Image_def)
    have lower: "rank q < n" if "q \<in> required ig rs" for q
      using that assms(1)[of q p] Suc.prems(1) by (simp add: needs_def Some required_def)
    have "gathers m ig deps (required ig rs) (rfold (gather_requirement (package_deps n m ig) ig) deps rs)"
      by (rule gather_all[where rank = rank, OF Suc.IH assms(1) lower Suc.prems(2,3)]) assumption
    moreover have "(needs_rel m ig)\<^sup>* `` required ig rs = (needs_rel m ig)\<^sup>+ `` {p}"
      unfolding rel[symmetric] trancl_unfold_left by auto
    moreover have "package_deps (Suc n) m ig p deps = rfold (gather_requirement (package_deps n m ig) ig) deps rs"
      by (simp add: Some)
    ultimately show ?thesis by (auto simp: gathers_def)
  qed
qed simp

text \<open>C27: when packages need one another in ranks below the depth of the stack, what is gathered for a
  package is all that it needs, directly or not, each once.\<close>

theorem requirements_reach:
  assumes "\<And>p q. q \<in> needs metadata ignore p \<Longrightarrow> rank q < (rank p :: nat)" "rank package < depth"
  shows "\<exists>ds. package_deps depth metadata ignore package [] = Inr ds \<and> distinct ds \<and>
    set ds = (needs_rel metadata ignore)\<^sup>+ `` {package}"
proof -
  have "\<exists>ds. package_deps depth metadata ignore package [] = Inr ds \<and> distinct ds \<and>
    set ds = set [] \<union> (needs_rel metadata ignore)\<^sup>+ `` {package}"
    by (rule package_deps_reach[where rank = rank, OF assms]) (simp_all add: closed_deps_def)
  then show ?thesis by simp
qed

definition some_metadata :: "string \<Rightarrow> string list option" where
  "some_metadata p = (if p = ''c7n'' then Some [''boto3 (>=1.12)'', ''jsonschema'']
     else if p = ''boto3'' then Some [''botocore<2'', ''awscrt ; extra == crt''] else None)"

lemma some_metadata_needs:
  "needs some_metadata [] p = (if p = ''c7n'' then {''boto3'', ''jsonschema''} else if p = ''boto3'' then {''botocore''} else {})"
proof -
  have "map requirement_name (filter (\<lambda>r. \<not> optional_dep r) [''boto3 (>=1.12)'', ''jsonschema'']) = [''boto3'', ''jsonschema'']"
    "map requirement_name (filter (\<lambda>r. \<not> optional_dep r) [''botocore<2'', ''awscrt ; extra == crt'']) = [''botocore'']" by code_simp+
  then show ?thesis by (simp add: needs_def some_metadata_def)
qed

lemma requirements_reach_witness:
  "\<exists>ds. package_deps 3 some_metadata [] ''c7n'' [] = Inr ds \<and> set ds = {''boto3'', ''jsonschema'', ''botocore''}"
proof -
  let ?rank = "\<lambda>p :: string. if p = ''c7n'' then 2 else if p = ''boto3'' then (1::nat) else 0"
  have "q \<in> needs some_metadata [] p \<Longrightarrow> ?rank q < ?rank p" for p q by (auto simp: some_metadata_needs split: if_splits)
  from requirements_reach[where metadata = some_metadata and ignore = "[]" and rank = ?rank and depth = 3 and package = "''c7n''", OF this] obtain ds where
    ds: "package_deps 3 some_metadata [] ''c7n'' [] = Inr ds" by auto
  moreover have "package_deps 3 some_metadata [] ''c7n'' [] = Inr [''botocore'', ''boto3'', ''jsonschema'']" by code_simp
  ultimately show ?thesis by auto
qed

text \<open>Packages that need each other end in a \<open>RecursionError\<close>, however deep the stack.\<close>

lemma cyclic_requirements:
  assumes "metadata p = Some [q]" "metadata q = Some [p]" "requirement_name p = p" "requirement_name q = q"
    "\<not> optional_dep p" "\<not> optional_dep q" "p \<noteq> q" "p \<notin> set deps" "q \<notin> set deps"
  shows "package_deps n metadata [] p deps = Inl RuntimeError \<and> package_deps n metadata [] q deps = Inl RuntimeError"
  using assms by (induction n) (simp_all add: gather_requirement_def)

end
