(* ===== verification/Lambda_Functions.thy ===== *)
theory Lambda_Functions
  imports Service Archives
begin

text \<open>
  Functions and their deployment (\<open>c7n/mu.py\<close>): what a function or a policy asks for, the
  differences with what is deployed, and publishing, which creates the function or updates its
  code, tags, architecture, configuration and concurrency, then its alias. Waiters are requests
  named \<open>wait:...\<close>. What an archive is read as is given: its digest and its bytes.
\<close>

section \<open>What a function is\<close>

record lambda_func =
  lf_name :: pyval
  lf_description :: pyval
  lf_handler :: pyval
  lf_memory_size :: pyval
  lf_timeout :: pyval
  lf_runtime :: pyval
  lf_role :: pyval
  lf_layers :: pyval
  lf_concurrency :: pyval
  lf_security_groups :: pyval
  lf_subnets :: pyval
  lf_dead_letter :: pyval
  lf_environment :: pyval
  lf_kms_key_arn :: pyval
  lf_tracing :: pyval
  lf_tags :: pyval
  lf_architectures :: pyval

definition LAMBDA_EMPTY_VALUES :: pydict where
  "LAMBDA_EMPTY_VALUES = [
     (''Environment'', PDict [(''Variables'', PDict [])]),
     (''DeadLetterConfig'', PDict []),
     (''TracingConfig'', PDict [(''Mode'', PStr ''PassThrough'')]),
     (''VpcConfig'', PDict [(''SubnetIds'', PList []), (''SecurityGroupIds'', PList [])]),
     (''KMSKeyArn'', PStr [])]"

definition empty_value :: "string \<Rightarrow> pyval" where
  "empty_value k = dget_or LAMBDA_EMPTY_VALUES k PNone"

definition optional_parts :: "pydict \<Rightarrow> pyval \<Rightarrow> lambda_func \<Rightarrow> lambda_func" where
  "optional_parts d architectures f = f\<lparr>
     lf_layers := dget_or d ''layers'' (PTuple []), lf_concurrency := dget_or d ''concurrency'' PNone,
     lf_security_groups := dget_or d ''security_groups'' PNone, lf_subnets := dget_or d ''subnets'' PNone,
     lf_dead_letter := dget_or d ''dead_letter_config'' (empty_value ''DeadLetterConfig''),
     lf_environment := dget_or d ''environment'' (empty_value ''Environment''),
     lf_kms_key_arn := dget_or d ''kms_key_arn'' (PStr []),
     lf_tracing := dget_or d ''tracing_config'' (empty_value ''TracingConfig''),
     lf_tags := dget_or d ''tags'' (PDict []), lf_architectures := architectures\<rparr>"

definition bare_function :: lambda_func where
  "bare_function = \<lparr>lf_name = PNone, lf_description = PNone, lf_handler = PNone, lf_memory_size = PNone, lf_timeout = PNone,
     lf_runtime = PNone, lf_role = PNone, lf_layers = PNone, lf_concurrency = PNone, lf_security_groups = PNone, lf_subnets = PNone,
     lf_dead_letter = PNone, lf_environment = PNone, lf_kms_key_arn = PNone, lf_tracing = PNone, lf_tags = PNone, lf_architectures = PNone\<rparr>"

text \<open>A function from its data; the architectures are those of an abstract property, None.\<close>

definition lambda_function :: "pydict \<Rightarrow> lambda_func res" where
  "lambda_function d =
     (if list_all (dhas d) [''name'', ''handler'', ''memory_size'', ''timeout'', ''role'', ''runtime'', ''description'']
      then let v = (\<lambda>k. dget_or d k PNone)
           in Inr (optional_parts d PNone (bare_function\<lparr>lf_name := v ''name'', lf_description := v ''description'',
                lf_handler := v ''handler'', lf_memory_size := v ''memory_size'', lf_timeout := v ''timeout'',
                lf_runtime := v ''runtime'', lf_role := v ''role''\<rparr>))
      else Inl ValueError)"

definition policy_architectures :: "string \<Rightarrow> pyval" where
  "policy_architectures machine =
     PList [PStr (if lower machine \<in> {''aarch64'', ''arm64''} then ''arm64'' else ''x86_64'')]"

definition policy_lambda :: "ext \<Rightarrow> string \<Rightarrow> string \<Rightarrow> pydict \<Rightarrow> lambda_func res" where
  "policy_lambda E machine pname data =
     rbind (rbind (dindex data ''mode'') dict_of) (\<lambda>mode.
     Inr (optional_parts mode (policy_architectures machine) (bare_function\<lparr>
       lf_name := PStr (py_str E (dget_or mode ''function-prefix'' (PStr ''custodian-'')) @ pname),
       lf_description := dget_or data ''description'' (PStr ''cloud-custodian lambda policy''),
       lf_handler := dget_or mode ''handler'' (PStr ''custodian_policy.run''),
       lf_role := dget_or mode ''role'' (PStr []),
       lf_runtime := dget_or mode ''runtime'' (PStr ''python3.11''),
       lf_memory_size := dget_or mode ''memory'' (PInt 512),
       lf_timeout := dget_or mode ''timeout'' (PInt 900)\<rparr>)))"

definition get_config :: "lambda_func \<Rightarrow> pydict res" where
  "get_config f =
     rbind (tag_field (lf_environment f) ''Variables'') (\<lambda>variables.
     let conf = [(''FunctionName'', lf_name f), (''MemorySize'', lf_memory_size f), (''Role'', lf_role f),
           (''Description'', lf_description f), (''Runtime'', lf_runtime f), (''Handler'', lf_handler f),
           (''Timeout'', lf_timeout f), (''TracingConfig'', lf_tracing f), (''KMSKeyArn'', lf_kms_key_arn f),
           (''DeadLetterConfig'', lf_dead_letter f), (''VpcConfig'', empty_value ''VpcConfig''), (''Tags'', lf_tags f)];
         conf = (if py_truth (lf_layers f) then dput ''Layers'' (lf_layers f) conf else conf);
         conf = (if py_truth variables then dput ''Environment'' (lf_environment f) conf else conf);
         conf = (if py_truth (lf_subnets f) \<and> py_truth (lf_security_groups f)
                 then dput ''VpcConfig'' (PDict [(''SubnetIds'', lf_subnets f), (''SecurityGroupIds'', lf_security_groups f)]) conf
                 else conf)
     in Inr (if py_truth (lf_architectures f) then dput ''Architectures'' (lf_architectures f) conf else conf))"

section \<open>Differences\<close>

text \<open>Lists of layers are lists of texts.\<close>

definition sorted_texts :: "pyval \<Rightarrow> string list res" where
  "sorted_texts v = rbind (py_iter v) (\<lambda>xs. rbind (rmap text_of xs) (\<lambda>ts. Inr (sort ts)))"

definition layers_differ :: "pyval \<Rightarrow> pyval \<Rightarrow> bool res" where
  "layers_differ old new =
     rbind (sorted_texts new) (\<lambda>ns.
     rbind (rbind (py_iter old) (rmap (\<lambda>l. tag_field l ''Arn''))) (\<lambda>arns.
     rbind (sorted_texts (PList arns)) (\<lambda>os. Inr (ns \<noteq> os))))"

definition key_set :: "pyval \<Rightarrow> string \<Rightarrow> pyval list res" where
  "key_set v k = rbind (rbind (tag_field v k) py_iter) (\<lambda>xs. py_set (PList xs))"

definition lists_differ :: "pyval \<Rightarrow> pyval \<Rightarrow> string \<Rightarrow> bool res" where
  "lists_differ old new k = rbind (key_set old k) (\<lambda>a. rbind (key_set new k) (\<lambda>b. Inr (\<not> same_set a b)))"

definition placed_differ :: "pyval \<Rightarrow> pyval \<Rightarrow> string \<Rightarrow> bool res" where
  "placed_differ old new k =
     rbind (field_get old k PNone) (\<lambda>a. rbind (field_get new k PNone) (\<lambda>b.
       Inr ((py_truth a \<or> py_truth b) \<and> \<not> py_eq a b)))"

text \<open>The key is noted once for each part that differs.\<close>

definition vpc_changes :: "pyval \<Rightarrow> pyval \<Rightarrow> string list res" where
  "vpc_changes old new =
     rbind (rfilter (lists_differ old new) [''SubnetIds'', ''SecurityGroupIds'']) (\<lambda>as.
     rbind (rfilter (placed_differ old new) [''VpcId'', ''Ipv6AllowedForDualStack'']) (\<lambda>bs.
       Inr (map (\<lambda>_. ''VpcConfig'') (as @ bs))))"

text \<open>A role may be given by its name only.\<close>

definition role_differs :: "pyval \<Rightarrow> pyval \<Rightarrow> bool res" where
  "role_differs old new =
     (if py_eq new old then Inr False
      else case old of
          PStr s \<Rightarrow> (case split_max CHR ''/'' 1 s of
              [_, n] \<Rightarrow> Inr (\<not> py_eq (PStr n) new)
            | _ \<Rightarrow> Inl IndexError)
        | _ \<Rightarrow> Inl AttributeError)"

definition noted :: "string \<Rightarrow> bool res \<Rightarrow> string list res" where
  "noted k r = rbind r (\<lambda>b. Inr (if b then [k] else []))"

definition key_changes :: "pydict \<Rightarrow> string \<times> pyval \<Rightarrow> string list res" where
  "key_changes old = (\<lambda>(k, new). case dget old k of
      Some w \<Rightarrow>
        if k = ''Layers'' \<and> py_truth new then noted k (layers_differ w new)
        else if k = ''VpcConfig'' \<and> py_truth new then vpc_changes w new
        else if k = ''Role'' then noted k (role_differs w new)
        else Inr (if py_eq new w then [] else [k])
    | None \<Rightarrow> Inr (case dget LAMBDA_EMPTY_VALUES k of
          Some w \<Rightarrow> if py_eq w new then [] else [k]
        | None \<Rightarrow> [k]))"

definition delta_function :: "pydict \<Rightarrow> pydict \<Rightarrow> string list res" where
  "delta_function old new = rbind (rmap (key_changes old) new) (\<lambda>css. Inr (concat css))"

text \<open>The keys to remove are a set; they are listed in the order of the old tags.\<close>

definition diff_tags :: "pydict \<Rightarrow> pydict \<Rightarrow> pydict \<times> string list" where
  "diff_tags old new =
     (filter (\<lambda>(k, v). case dget old k of None \<Rightarrow> True | Some w \<Rightarrow> \<not> py_eq w v) new,
      filter (\<lambda>k. \<not> dhas new k) (dkeys old))"

definition normalize_arn :: "pyval \<Rightarrow> pyval" where
  "normalize_arn v = (case v of
      PStr s \<Rightarrow> PStr (if 6 < count_char s (CHR '':'') then hd (rsplit1 (CHR '':'') s) else s)
    | _ \<Rightarrow> v)"

section \<open>Requests that may find nothing\<close>

definition resource_exists :: "'w service \<Rightarrow> string \<Rightarrow> string \<Rightarrow> pydict \<Rightarrow> ('w, pydict option) eff" where
  "resource_exists call not_found name params = (\<lambda>w. case call (name, params) w of
      (Returned v, w') \<Rightarrow> (if py_truth v then rbind (dict_of v) (\<lambda>d. Inr (Some d)) else Inr None, w')
    | (ClientErr c, w') \<Rightarrow> (if c = not_found then Inr None else Inl ClientError, w')
    | (OtherErr e, w') \<Rightarrow> (Inl e, w'))"

definition no_resource :: string where
  "no_resource = ''ResourceNotFoundException''"

definition get_function :: "'w service \<Rightarrow> pyval \<Rightarrow> pyval \<Rightarrow> ('w, pydict option) eff" where
  "get_function call name qualifier = resource_exists call no_resource ''get_function''
     ((''FunctionName'', name) # (if py_truth qualifier then [(''Qualifier'', qualifier)] else []))"

section \<open>Parts of an update\<close>

record built =
  bt_sha :: pyval
  bt_bytes :: pyval
  bt_path :: pyval

definition name_of :: "lambda_func \<Rightarrow> string \<times> pyval" where
  "name_of f = (''FunctionName'', lf_name f)"

text \<open>Each says whether anything changed; a new limit on concurrency does not count.\<close>

definition update_concurrency :: "'w service \<Rightarrow> pydict option \<Rightarrow> lambda_func \<Rightarrow> ('w, bool) eff" where
  "update_concurrency call existing f =
     andthen (lift (case existing of None \<Rightarrow> Inr PNone
       | Some d \<Rightarrow> field_get (dget_or d ''Concurrency'' (PDict [])) ''ReservedConcurrentExecutions'' PNone)) (\<lambda>e.
     if py_eq e (lf_concurrency f) then lift (Inr False)
     else if e \<noteq> PNone \<and> lf_concurrency f = PNone
     then andthen (ask call ''delete_function_concurrency'' [name_of f]) (\<lambda>_. lift (Inr True))
     else andthen (ask call ''put_function_concurrency'' [name_of f, (''ReservedConcurrentExecutions'', lf_concurrency f)]) (\<lambda>_. lift (Inr False)))"

definition default_architectures :: pyval where
  "default_architectures = PList [PStr ''x86_64'']"

definition code_params :: "lambda_func \<Rightarrow> pydict \<Rightarrow> pydict \<Rightarrow> pydict" where
  "code_params f extra code_ref = dupdate ([name_of f, (''Publish'', PBool True)] @ extra) code_ref"

definition update_architecture :: "'w service \<Rightarrow> lambda_func \<Rightarrow> pydict \<Rightarrow> pyval \<Rightarrow> pydict \<Rightarrow> ('w, bool) eff" where
  "update_architecture call f existing new code_ref =
     andthen (lift (field_get (dget_or existing ''Configuration'' (PDict [])) ''Architectures'' default_architectures)) (\<lambda>old.
     if py_eq old new then lift (Inr False)
     else andthen (ask call ''update_function_code'' (code_params f [(''Architectures'', new)] code_ref)) (\<lambda>_. lift (Inr True)))"

definition update_tags :: "'w service \<Rightarrow> pydict \<Rightarrow> pyval \<Rightarrow> ('w, bool) eff" where
  "update_tags call existing new =
     andthen (lift (rbind (dindex existing ''Configuration'') (\<lambda>c. tag_field c ''FunctionArn''))) (\<lambda>arn.
     andthen (lift (rbind (dict_of new) (\<lambda>n. rbind (dict_of (dget_or existing ''Tags'' (PDict []))) (\<lambda>d. Inr (diff_tags d n))))) (\<lambda>(add, remove).
     let base = (''Resource'', normalize_arn arn)
     in andthen (unless (add = []) (ask call ''tag_resource'' [base, (''Tags'', PDict add)])) (\<lambda>_.
        andthen (unless (remove = []) (ask call ''untag_resource'' [base, (''TagKeys'', PList (map PStr remove))])) (\<lambda>_.
        lift (Inr (add \<noteq> [] \<or> remove \<noteq> []))))))"

definition wait_function :: "'w service \<Rightarrow> string \<Rightarrow> lambda_func \<Rightarrow> ('w, unit) eff" where
  "wait_function call waiter f = ask call (''wait:'' @ waiter) [name_of f]"

definition update_code :: "'w service \<Rightarrow> built \<Rightarrow> lambda_func \<Rightarrow> pydict \<Rightarrow> pydict \<Rightarrow> ('w, pyval \<times> bool) eff" where
  "update_code call b f code_ref old =
     andthen (lift (dindex old ''CodeSha256'')) (\<lambda>sha.
     if py_eq (bt_sha b) sha then lift (Inr (PDict old, False))
     else andthen (fetch_answer call ''update_function_code'' (code_params f [] code_ref)) (\<lambda>result.
          andthen (wait_function call ''function_updated'' f) (\<lambda>_. lift (Inr (result, True)))))"

definition update_configuration :: "'w service \<Rightarrow> pydict \<Rightarrow> pydict \<Rightarrow> pyval \<Rightarrow> ('w, pyval \<times> bool) eff" where
  "update_configuration call old conf result =
     andthen (lift (delta_function old conf)) (\<lambda>changes.
     if changes = [] then lift (Inr (result, False))
     else andthen (fetch_answer call ''update_function_configuration'' conf) (\<lambda>r. lift (Inr (r, True))))"

definition plain_config :: "pydict \<Rightarrow> pydict" where
  "plain_config conf = ddel ''Architectures'' (ddel ''Tags'' conf)"

definition update_function :: "'w service \<Rightarrow> built \<Rightarrow> lambda_func \<Rightarrow> pyval \<Rightarrow> pydict \<Rightarrow> pydict \<Rightarrow> ('w, pyval \<times> bool) eff" where
  "update_function call b f role code_ref existing =
     andthen (lift (rbind (dindex existing ''Configuration'') dict_of)) (\<lambda>old.
     andthen (update_code call b f code_ref old) (\<lambda>(result, c1).
     andthen (lift (get_config f)) (\<lambda>conf0.
     let conf = dput ''Role'' role conf0
     in andthen (update_tags call existing (dget_or conf ''Tags'' (PDict []))) (\<lambda>c2.
        andthen (update_architecture call f existing (dget_or conf ''Architectures'' default_architectures) code_ref) (\<lambda>c3.
        andthen (update_configuration call old (plain_config conf) result) (\<lambda>(result, c4).
        andthen (update_concurrency call (Some existing) f) (\<lambda>c5.
          lift (Inr (result, c1 \<or> c2 \<or> c3 \<or> c4 \<or> c5)))))))))"

definition create_function :: "'w service \<Rightarrow> lambda_func \<Rightarrow> pyval \<Rightarrow> pydict \<Rightarrow> ('w, pyval) eff" where
  "create_function call f role code_ref =
     andthen (lift (get_config f)) (\<lambda>conf.
     andthen (fetch_answer call ''create_function'' (dupdate conf [(''Publish'', PBool True), (''Code'', PDict code_ref), (''Role'', role)])) (\<lambda>result.
     andthen (update_concurrency call None f) (\<lambda>_.
     andthen (wait_function call ''function_active'' f) (\<lambda>_. lift (Inr result)))))"

section \<open>Publishing\<close>

definition upload_func :: "'w service \<Rightarrow> ext \<Rightarrow> string \<Rightarrow> lambda_func \<Rightarrow> built \<Rightarrow> ('w, string \<times> string) eff" where
  "upload_func call E s3_uri f b =
     andthen (lift (parse_s3 s3_uri)) (\<lambda>(path, bucket, key_prefix).
     let key = key_prefix @ ''/'' @ py_str E (lf_name f)
     in andthen (ask call ''upload_file'' [(''Filename'', bt_path b), (''Bucket'', PStr bucket), (''Key'', PStr key),
          (''ExtraArgs'', PDict [(''ServerSideEncryption'', PStr ''AES256'')])]) (\<lambda>_. lift (Inr (bucket, key))))"

definition code_reference :: "'w service \<Rightarrow> ext \<Rightarrow> string \<Rightarrow> lambda_func \<Rightarrow> built \<Rightarrow> ('w, pydict) eff" where
  "code_reference call E s3_uri f b =
     (if s3_uri \<noteq> []
      then andthen (upload_func call E s3_uri f b) (\<lambda>(bucket, key). lift (Inr [(''S3Bucket'', PStr bucket), (''S3Key'', PStr key)]))
      else lift (Inr [(''ZipFile'', bt_bytes b)]))"

definition create_or_update ::
  "'w service \<Rightarrow> ext \<Rightarrow> built \<Rightarrow> lambda_func \<Rightarrow> pyval \<Rightarrow> string \<Rightarrow> pyval \<Rightarrow> ('w, pyval \<times> bool \<times> pydict option) eff" where
  "create_or_update call E b f role s3_uri qualifier =
     (let role = (if py_truth (lf_role f) then lf_role f else role)
      in if \<not> py_truth role then lift (Inl AssertionError)
      else andthen (get_function call (lf_name f) qualifier) (\<lambda>existing.
           andthen (code_reference call E s3_uri f b) (\<lambda>code_ref.
           case existing of
             Some d \<Rightarrow> andthen (update_function call b f role code_ref d) (\<lambda>(result, changed). lift (Inr (result, changed, existing)))
           | None \<Rightarrow> andthen (create_function call f role code_ref) (\<lambda>result. lift (Inr (result, True, None))))))"

definition publish_alias :: "'w service \<Rightarrow> pyval \<Rightarrow> pyval \<Rightarrow> ('w, pyval) eff" where
  "publish_alias call result alias =
     (if \<not> py_truth alias then lift (tag_field result ''FunctionArn'')
      else
        andthen (lift (tag_field result ''FunctionName'')) (\<lambda>name.
        andthen (lift (tag_field result ''Version'')) (\<lambda>version.
        let params = [(''FunctionName'', name), (''Name'', alias), (''FunctionVersion'', version)]
        in andthen (resource_exists call no_resource ''get_alias'' [(''FunctionName'', name), (''Name'', alias)]) (\<lambda>exists. case exists of
             None \<Rightarrow> answer_field call ''create_alias'' params ''AliasArn''
           | Some d \<Rightarrow>
               andthen (lift (rbind (dindex d ''FunctionVersion'') (\<lambda>v.
                  if py_eq v version then rbind (dindex d ''Name'') (\<lambda>n. Inr (py_eq n alias)) else Inr False))) (\<lambda>same.
               if same then lift (dindex d ''AliasArn'') else answer_field call ''update_alias'' params ''AliasArn'')))))"

record deployed =
  dp_func :: lambda_func
  dp_arn :: pyval
  dp_alias :: pyval

definition publish ::
  "'w service \<Rightarrow> ext \<Rightarrow> built \<Rightarrow> (deployed \<Rightarrow> pydict option \<Rightarrow> ('w, unit) eff) list \<Rightarrow> lambda_func \<Rightarrow> pyval \<Rightarrow> pyval \<Rightarrow> string \<Rightarrow>
   ('w, pyval) eff" where
  "publish call E b events f alias role s3_uri =
     andthen (create_or_update call E b f role s3_uri alias) (\<lambda>(result, changed, existing).
     andthen (lift (tag_field result ''FunctionArn'')) (\<lambda>arn.
     andthen (if \<not> py_truth alias then lift (Inr arn)
       else if changed then publish_alias call result alias
       else lift (Inr (PStr (py_str E arn @ '':'' @ py_str E alias)))) (\<lambda>a.
     andthen (each (\<lambda>add. add \<lparr>dp_func = f, dp_arn = arn, dp_alias = a\<rparr> existing) events) (\<lambda>_. lift (Inr result)))))"

definition remove_function :: "'w service \<Rightarrow> (lambda_func \<Rightarrow> ('w, unit) eff) list \<Rightarrow> lambda_func \<Rightarrow> ('w, unit) eff" where
  "remove_function call removals f =
     andthen (each (\<lambda>remove. remove f) removals) (\<lambda>_. ask_ignoring [no_resource] call ''delete_function'' [name_of f])"

definition list_functions :: "string \<Rightarrow> pydict list \<Rightarrow> pydict list res" where
  "list_functions pre pages =
     rbind (rmap (\<lambda>rp. rbind (py_iter (dget_or rp ''Functions'' (PList []))) (rmap dict_of)) pages) (\<lambda>fss.
     rfilter (\<lambda>f. if pre = [] then Inr True
       else rbind (rbind (dindex f ''FunctionName'') text_of) (\<lambda>n. Inr (starts_with n pre))) (concat fss))"

section \<open>Facts on differences\<close>

text \<open>Values that equal themselves, as those of configurations do.\<close>

fun plain_value :: "pyval \<Rightarrow> bool" where
  "plain_value (PList xs) = list_all plain_value xs"
| "plain_value (PDict d) = (dwf d \<and> list_all (\<lambda>(k, v). plain_value v) d)"
| "plain_value PNone = True"
| "plain_value (PBool b) = True"
| "plain_value (PInt i) = True"
| "plain_value (PStr s) = True"
| "plain_value _ = False"

lemma plain_value_eq: "plain_value v \<Longrightarrow> py_eq v v"
proof (induction v rule: plain_value.induct)
  case (1 xs)
  then show ?case by (auto simp: list_all_iff list_all2_same)
next
  case (2 d)
  have "case dget d k of None \<Rightarrow> False | Some w \<Rightarrow> py_eq v w" if "(k, v) \<in> set d" for k v
  proof -
    have "dget d k = Some v" using that 2(2) by (simp add: dwf_def dkeys_def)
    moreover have "py_eq v v" using 2 that by (auto simp: list_all_iff)
    ultimately show ?thesis by simp
  qed
  then show ?case by (auto simp: list_all_iff)
qed (simp_all add: num_eq_def num_of_def)

text \<open>Adding and removing what differs between two sets of tags makes the one the other.\<close>

lemma tags_settled:
  assumes "dwf old" "dwf new" "list_all is_str (dvalues old)" "list_all is_str (dvalues new)"
    and "diff_tags old new = (add, remove)"
  shows "dget (fold ddel remove (dupdate old add)) = dget new"
proof -
  have removed: "dget (fold ddel ks d) k = (if k \<in> set ks then None else dget d k)" for ks :: "string list" and d :: pydict and k
    by (induction ks arbitrary: d) auto
  have add: "add = filter (\<lambda>(k, v). case dget old k of None \<Rightarrow> True | Some w \<Rightarrow> \<not> py_eq w v) new"
    and remove: "remove = filter (\<lambda>k. \<not> dhas new k) (dkeys old)" using assms(5) by (simp_all add: diff_tags_def)
  have wf: "dwf add" using assms(2) unfolding add dwf_def dkeys_def by (simp add: distinct_map_filter)
  show ?thesis
  proof
    fix k
    show "dget (fold ddel remove (dupdate old add)) k = dget new k"
    proof (cases "dget new k")
      case None
      then have "k \<notin> set (dkeys add)" unfolding add by (auto simp: dget_None_iff dkeys_def)
      then have "dget add k = None" by (simp add: dget_None_iff)
      moreover have "k \<in> set remove \<or> dget old k = None" using None by (auto simp: remove dhas_dget dget_None_iff)
      ultimately show ?thesis using None by (auto simp: removed dget_dupdate[OF wf] map_add_def)
    next
      case (Some v)
      then have kept: "k \<notin> set remove" by (auto simp: remove dhas_dget)
      have "(k, v) \<in> set new" using Some by (rule map_of_SomeD)
      then have textual: "is_str v" using assms(4) by (force simp: list_all_iff dvalues_def)
      show ?thesis
      proof (cases "dget add k")
        case None
        then have "(k, v) \<notin> set add" using wf by (auto simp: dwf_def dkeys_def)
        with \<open>(k, v) \<in> set new\<close> obtain w where w: "dget old k = Some w" "py_eq w v"
          unfolding add by (auto split: option.splits)
        then have "is_str w" using assms(3) by (force simp: list_all_iff dvalues_def dest: map_of_SomeD)
        with textual w(2) have "w = v" by (auto simp: is_str_def split: pyval.splits)
        with w None kept Some show ?thesis by (simp add: removed dget_dupdate[OF wf] map_add_def)
      next
        case (Some u)
        then have "(k, u) \<in> set new" unfolding add by (auto dest: map_of_SomeD)
        with \<open>(k, v) \<in> set new\<close> assms(2) have "u = v" by (auto simp: dwf_def dkeys_def dest: eq_key_imp_eq_value)
        with Some kept \<open>dget new k = Some v\<close> show ?thesis by (simp add: removed dget_dupdate[OF wf] map_add_def)
      qed
    qed
  qed
qed

lemma diff_tags_none:
  assumes "dget old = dget new" "dwf new" "list_all is_str (dvalues new)"
  shows "diff_tags old new = ([], [])"
proof -
  have "\<not> (case dget old k of None \<Rightarrow> True | Some w \<Rightarrow> \<not> py_eq w v)" if "(k, v) \<in> set new" for k v
  proof -
    have "dget old k = Some v" using that assms(1,2) by (simp add: dwf_def dkeys_def)
    moreover have "is_str v" using that assms(3) by (force simp: list_all_iff dvalues_def)
    ultimately show ?thesis by (auto simp: is_str_def split: pyval.splits)
  qed
  moreover have "dhas new k" if "k \<in> set (dkeys old)" for k
    using that assms(1) by (metis dget_None_iff dhas_dget)
  ultimately show ?thesis by (auto simp: diff_tags_def filter_empty_conv)
qed

lemma key_changes_same:
  "plain_value v \<Longrightarrow> k \<noteq> ''Layers'' \<Longrightarrow> k \<noteq> ''VpcConfig'' \<Longrightarrow> dget old k = Some v \<Longrightarrow> key_changes old (k, v) = Inr []"
  by (simp add: key_changes_def role_differs_def noted_def plain_value_eq)

lemma text_list: "rmap text_of (map PStr ss) = Inr ss"
  by (induction ss) (simp_all add: text_of_def)

lemma key_changes_layers:
  assumes "dget old ''Layers'' = Some (PList (map (\<lambda>l. PDict [(''Arn'', PStr l)]) ls))"
  shows "key_changes old (''Layers'', PList (map PStr ls)) = Inr []"
proof -
  have arns: "rmap (\<lambda>l. tag_field l ''Arn'') (map (\<lambda>l. PDict [(''Arn'', PStr l)]) ls) = Inr (map PStr ls)"
    by (induction ls) (simp_all add: tag_field_def dindex_def)
  have "layers_differ (PList (map (\<lambda>l. PDict [(''Arn'', PStr l)]) ls)) (PList (map PStr ls)) = Inr False"
    by (simp add: layers_differ_def sorted_texts_def text_list arns)
  then show ?thesis using assms by (cases ls) (simp_all add: key_changes_def noted_def)
qed

lemma hashable_texts: "list_all hashable (map PStr ss)"
  by (induction ss) simp_all

lemma same_set_self: "list_all (\<lambda>x. py_eq x x) xs \<Longrightarrow> same_set xs xs"
  by (auto simp: same_set_def mem_eq_def list_all_iff list_ex_iff)

lemma dedup_map_texts: "list_all (\<lambda>x. py_eq x x) (dedup (map PStr ss))"
proof -
  have "set (dedup xs) \<subseteq> set xs" for xs by (induction xs) auto
  then show ?thesis by (fastforce simp: list_all_iff)
qed

lemma key_changes_vpc:
  assumes "dget old ''VpcConfig'' = Some (PDict [(''SubnetIds'', PList (map PStr as)), (''SecurityGroupIds'', PList (map PStr bs))])"
  shows "key_changes old (''VpcConfig'', PDict [(''SubnetIds'', PList (map PStr as)), (''SecurityGroupIds'', PList (map PStr bs))]) = Inr []"
  using assms
  by (simp add: key_changes_def vpc_changes_def lists_differ_def key_set_def tag_field_def dindex_def py_set_def hashable_texts
      same_set_self[OF dedup_map_texts] placed_differ_def field_get_def dget_or_def)

lemma delta_none: "(\<And>p. p \<in> set new \<Longrightarrow> key_changes old p = Inr []) \<Longrightarrow> delta_function old new = Inr []"
proof -
  assume "\<And>p. p \<in> set new \<Longrightarrow> key_changes old p = Inr []"
  then have "rmap (key_changes old) new = Inr (map (\<lambda>_. []) new)" by (rule rmap_pure)
  then show ?thesis by (simp add: delta_function_def)
qed

text \<open>A key that is no longer in the configuration stays as it was deployed.\<close>

lemma dropped_key_kept: "delta_function (old @ [(''Environment'', v)]) new = delta_function old new" if "''Environment'' \<notin> set (dkeys new)"
proof -
  have "key_changes (old @ [(''Environment'', v)]) p = key_changes old p" if p: "p \<in> set new" for p
  proof -
    obtain k w where kw: "p = (k, w)" by (cases p)
    with p have "k \<in> set (dkeys new)" by (force simp: dkeys_def)
    then have "k \<noteq> ''Environment''" using \<open>''Environment'' \<notin> set (dkeys new)\<close> by blast
    then have "dget (old @ [(''Environment'', v)]) k = dget old k" by (simp add: map_add_def split: option.splits)
    then show ?thesis by (simp add: kw key_changes_def)
  qed
  then have "rmap (key_changes (old @ [(''Environment'', v)])) new = rmap (key_changes old) new" by (intro rmap_cong) simp_all
  then show ?thesis by (simp add: delta_function_def)
qed

section \<open>A deployment that is in line\<close>

text \<open>What a publication wants of a function that is there, in the answer that describes it.\<close>

definition in_line :: "built \<Rightarrow> lambda_func \<Rightarrow> pyval \<Rightarrow> pydict \<Rightarrow> bool" where
  "in_line b f role d \<longleftrightarrow> (case (dget d ''Configuration'', get_config f) of
      (Some (PDict old), Inr conf0) \<Rightarrow>
        (let conf = dput ''Role'' role conf0
         in dhas old ''FunctionArn'' \<and>
            (case dget old ''CodeSha256'' of Some sha \<Rightarrow> py_eq (bt_sha b) sha | None \<Rightarrow> False) \<and>
            (case (dget_or conf ''Tags'' (PDict []), dget_or d ''Tags'' (PDict [])) of
               (PDict new, PDict tags) \<Rightarrow> diff_tags tags new = ([], []) | _ \<Rightarrow> False) \<and>
            py_eq (dget_or old ''Architectures'' default_architectures) (dget_or conf ''Architectures'' default_architectures) \<and>
            delta_function old (plain_config conf) = Inr [] \<and>
            (case dget_or d ''Concurrency'' (PDict []) of
               PDict c \<Rightarrow> py_eq (dget_or c ''ReservedConcurrentExecutions'' PNone) (lf_concurrency f) | _ \<Rightarrow> False))
    | _ \<Rightarrow> False)"

lemma update_function_quiet:
  assumes "in_line b f role d"
  shows "\<exists>old. update_function call b f role code_ref d w = (Inr (PDict old, False), w) \<and> dget d ''Configuration'' = Some (PDict old)"
proof -
  obtain old conf0 where old: "dget d ''Configuration'' = Some (PDict old)" and conf0: "get_config f = Inr conf0"
    using assms by (auto simp: in_line_def split: option.splits pyval.splits sum.splits)
  let ?conf = "dput ''Role'' role conf0"
  obtain new tags c arn sha where facts: "dget old ''FunctionArn'' = Some arn" "dget old ''CodeSha256'' = Some sha" "py_eq (bt_sha b) sha"
    "dget_or ?conf ''Tags'' (PDict []) = PDict new" "dget_or d ''Tags'' (PDict []) = PDict tags" "diff_tags tags new = ([], [])"
    "py_eq (dget_or old ''Architectures'' default_architectures) (dget_or ?conf ''Architectures'' default_architectures)"
    "delta_function old (plain_config ?conf) = Inr []" "dget_or d ''Concurrency'' (PDict []) = PDict c"
    "py_eq (dget_or c ''ReservedConcurrentExecutions'' PNone) (lf_concurrency f)"
    using assms by (auto simp: in_line_def old conf0 Let_def dhas_dget split: option.splits pyval.splits)
  have "dindex d ''Configuration'' = Inr (PDict old)" "dget_or d ''Configuration'' (PDict []) = PDict old"
    using old by (simp_all add: dindex_def dget_or_def)
  then show ?thesis using facts old conf0
    by (simp add: update_function_def dict_of_def update_code_def dindex_def update_tags_def tag_field_def Let_def
        update_architecture_def field_get_def update_configuration_def update_concurrency_def andthen_def lift_def)
qed

lemma get_function_found:
  assumes "call (''get_function'', (''FunctionName'', name) # (if py_truth qualifier then [(''Qualifier'', qualifier)] else [])) w = (Returned (PDict d), w1)"
    and "d \<noteq> []"
  shows "get_function call name qualifier w = (Inr (Some d), w1)"
  using assms by (cases d) (simp_all add: get_function_def resource_exists_def dict_of_def)

text \<open>Publishing a function whose code, tags, architecture, configuration and concurrency are as they
  are wanted asks for nothing but its description, whatever the service would answer.\<close>

theorem publish_quiet:
  assumes "call (''get_function'', (''FunctionName'', lf_name f) # (if py_truth qualifier then [(''Qualifier'', qualifier)] else [])) w = (Returned (PDict d), w1)"
    and "in_line b f (if py_truth (lf_role f) then lf_role f else role) d" "py_truth (lf_role f) \<or> py_truth role"
  shows "\<exists>result. create_or_update call E b f role [] qualifier w = (Inr (result, False, Some d), w1)"
proof -
  have "d \<noteq> []" using assms(2) by (auto simp: in_line_def)
  then have get: "get_function call (lf_name f) qualifier w = (Inr (Some d), w1)"
    by (rule get_function_found[where call = call and w = w, rotated]) (rule assms(1))
  obtain old where run: "update_function call b f (if py_truth (lf_role f) then lf_role f else role) [(''ZipFile'', bt_bytes b)] d w1 = (Inr (PDict old, False), w1)"
    using update_function_quiet[where call = call and w = w1 and code_ref = "[(''ZipFile'', bt_bytes b)]", OF assms(2)] by auto
  have "py_truth (if py_truth (lf_role f) then lf_role f else role)" using assms(3) by auto
  then have "create_or_update call E b f role [] qualifier w = (Inr (PDict old, False, Some d), w1)"
    unfolding create_or_update_def Let_def
    by (simp add: andthen_apply[where m = "get_function call (lf_name f) qualifier" and w = w, OF get] code_reference_def andthen_apply[where m = "update_function call b f (if py_truth (lf_role f) then lf_role f else role) [(''ZipFile'', bt_bytes b)] d" and w = w1, OF run] del: if_split)
  then show ?thesis by blast
qed

section \<open>A cloud with one function\<close>

record cloud_function =
  cf_sha :: string
  cf_config :: pydict
  cf_tags :: pydict
  cf_arch :: pyval
  cf_conc :: pyval

definition described_value :: "string \<Rightarrow> pyval \<Rightarrow> pyval" where
  "described_value k v = (if k = ''Layers'' then (case v of PList ls \<Rightarrow> PList (map (\<lambda>l. PDict [(''Arn'', l)]) ls) | _ \<Rightarrow> v) else v)"

definition described_config :: "pydict \<Rightarrow> pydict" where
  "described_config = map (\<lambda>(k, v). (k, described_value k v))"

definition config_answer :: "cloud_function \<Rightarrow> pydict" where
  "config_answer c = [(''FunctionArn'', PStr ''arn:aws:lambda:us-east-1:1:function:f''), (''Version'', PStr ''$LATEST''),
     (''CodeSha256'', PStr (cf_sha c)), (''Architectures'', cf_arch c)] @ described_config (cf_config c)"

definition describe_function :: "cloud_function \<Rightarrow> pydict" where
  "describe_function c = [(''Configuration'', PDict (config_answer c)), (''Tags'', PDict (cf_tags c)),
     (''Concurrency'', PDict (if cf_conc c = PNone then [] else [(''ReservedConcurrentExecutions'', cf_conc c)]))]"

definition dict_param :: "pydict \<Rightarrow> string \<Rightarrow> pydict" where
  "dict_param params k = (case dget params k of Some (PDict d) \<Rightarrow> d | _ \<Rightarrow> [])"

definition text_params :: "pydict \<Rightarrow> string \<Rightarrow> string list" where
  "text_params params k = (case dget params k of Some (PList vs) \<Rightarrow> concat (map (\<lambda>v. case v of PStr s \<Rightarrow> [s] | _ \<Rightarrow> []) vs) | _ \<Rightarrow> [])"

definition updated_function :: "(pyval \<Rightarrow> string) \<Rightarrow> string \<Rightarrow> pydict \<Rightarrow> cloud_function \<Rightarrow> cloud_function" where
  "updated_function hash name params c =
     (if name = ''update_function_code''
      then c\<lparr>cf_sha := hash (dget_or params ''ZipFile'' PNone), cf_arch := dget_or params ''Architectures'' (cf_arch c)\<rparr>
      else if name = ''tag_resource'' then c\<lparr>cf_tags := dupdate (cf_tags c) (dict_param params ''Tags'')\<rparr>
      else if name = ''untag_resource'' then c\<lparr>cf_tags := fold ddel (text_params params ''TagKeys'') (cf_tags c)\<rparr>
      else if name = ''update_function_configuration'' then c\<lparr>cf_config := dupdate (cf_config c) params\<rparr>
      else if name = ''put_function_concurrency'' then c\<lparr>cf_conc := dget_or params ''ReservedConcurrentExecutions'' PNone\<rparr>
      else if name = ''delete_function_concurrency'' then c\<lparr>cf_conc := PNone\<rparr>
      else c)"

definition created_function :: "(pyval \<Rightarrow> string) \<Rightarrow> pydict \<Rightarrow> cloud_function" where
  "created_function hash params =
     \<lparr>cf_sha = hash (dget_or (dict_param params ''Code'') ''ZipFile'' PNone),
      cf_config = ddel ''Code'' (ddel ''Publish'' (ddel ''Architectures'' (ddel ''Tags'' params))),
      cf_tags = dict_param params ''Tags'', cf_arch = dget_or params ''Architectures'' default_architectures, cf_conc = PNone\<rparr>"

definition lambda_cloud :: "(pyval \<Rightarrow> string) \<Rightarrow> cloud_function option service" where
  "lambda_cloud hash q st = (case q of (name, params) \<Rightarrow> (case st of
      None \<Rightarrow> if name = ''create_function''
        then let c = created_function hash params in (Returned (PDict (config_answer c)), Some c)
        else (ClientErr no_resource, None)
    | Some c \<Rightarrow> let c' = updated_function hash name params c
        in (Returned (PDict (if name = ''get_function'' then describe_function c' else config_answer c')), Some c')))"

lemma andthen_value:
  assumes "andthen m f w = (Inr b, w')"
  obtains a w1 where "m w = (Inr a, w1)" "f a w1 = (Inr b, w')"
  using assms by (auto simp: andthen_def split: prod.splits sum.splits)

lemma fetch_cloud: "fetch_answer (lambda_cloud hash) name params (Some c) =
  (Inr (PDict (if name = ''get_function'' then describe_function c else config_answer (updated_function hash name params c))),
   Some (updated_function hash name params c))"
  by (simp add: fetch_answer_def lambda_cloud_def Let_def updated_function_def)

lemma ask_cloud: "ask (lambda_cloud hash) name params (Some c) = (Inr (), Some (updated_function hash name params c))"
  by (simp add: ask_def ask_ignoring_def lambda_cloud_def Let_def)

text \<open>What each part of an update leaves in the cloud.\<close>

lemma update_code_cloud:
  assumes "update_code (lambda_cloud hash) b f [(''ZipFile'', bt_bytes b)] (config_answer c) (Some c) = (Inr r, st)"
    and "bt_sha b = PStr (hash (bt_bytes b))"
  shows "st = Some (c\<lparr>cf_sha := hash (bt_bytes b)\<rparr>)"
  using assms
  by (auto simp: update_code_def config_answer_def dindex_def andthen_def lift_def fetch_cloud wait_function_def ask_cloud
      updated_function_def code_params_def name_of_def dget_or_def split: if_splits)

lemma text_params_texts [simp]: "concat (map ((\<lambda>v. case v of PStr s \<Rightarrow> [s] | _ \<Rightarrow> []) \<circ> PStr) ks) = ks"
  by (induction ks) simp_all

lemma update_tags_cloud:
  assumes "update_tags (lambda_cloud hash) (describe_function c0) (PDict new) (Some c) = (Inr r, st)"
    and "cf_tags c0 = cf_tags c"
  shows "\<exists>add remove. diff_tags (cf_tags c) new = (add, remove) \<and> st = Some (c\<lparr>cf_tags := fold ddel remove (dupdate (cf_tags c) add)\<rparr>)"
proof -
  obtain add remove where diff: "diff_tags (cf_tags c) new = (add, remove)" by (cases "diff_tags (cf_tags c) new")
  have "update_tags (lambda_cloud hash) (describe_function c0) (PDict new) (Some c) =
      (Inr (add \<noteq> [] \<or> remove \<noteq> []), Some (c\<lparr>cf_tags := fold ddel remove (dupdate (cf_tags c) add)\<rparr>))"
    by (cases "add = []"; cases "remove = []")
      (simp_all add: update_tags_def describe_function_def dindex_def tag_field_def config_answer_def dict_of_def assms(2) diff dget_or_def
        andthen_def lift_def Let_def ask_cloud updated_function_def dict_param_def text_params_def)
  with assms(1) diff show ?thesis by simp
qed

lemma update_architecture_cloud:
  assumes "update_architecture (lambda_cloud hash) f (describe_function c0) new [(''ZipFile'', z)] (Some c) = (Inr r, st)"
    and "cf_arch c0 = cf_arch c" "cf_sha c = hash z" "py_eq new new"
  shows "\<exists>a. py_eq a new \<and> st = Some (c\<lparr>cf_arch := a\<rparr>)"
proof (cases "py_eq (cf_arch c) new")
  case True
  with assms(1,2) have "st = Some (c\<lparr>cf_arch := cf_arch c\<rparr>)"
    by (simp add: update_architecture_def describe_function_def dget_or_def field_get_def config_answer_def lift_def andthen_def)
  with True show ?thesis by blast
next
  case False
  with assms(1,2,3) have "st = Some (c\<lparr>cf_arch := new\<rparr>)"
    by (auto simp: update_architecture_def describe_function_def dget_or_def field_get_def config_answer_def lift_def andthen_def ask_cloud
        updated_function_def code_params_def name_of_def)
  with assms(4) show ?thesis by blast
qed

lemma update_configuration_cloud:
  assumes "update_configuration (lambda_cloud hash) old conf result (Some c) = (Inr r, st)"
  shows "delta_function old conf = Inr [] \<and> st = Some c \<or> st = Some (c\<lparr>cf_config := dupdate (cf_config c) conf\<rparr>)"
  using assms
  by (auto simp: update_configuration_def andthen_def lift_def fetch_cloud updated_function_def split: sum.splits if_splits)

lemma update_concurrency_cloud:
  assumes "update_concurrency (lambda_cloud hash) (Some (describe_function c0)) f (Some c) = (Inr r, st)"
    and "cf_conc c0 = cf_conc c" "py_eq (lf_concurrency f) (lf_concurrency f)"
  shows "\<exists>v. py_eq v (lf_concurrency f) \<and> st = Some (c\<lparr>cf_conc := v\<rparr>)"
proof -
  have run: "st = Some (c\<lparr>cf_conc := if py_eq (cf_conc c) (lf_concurrency f) then cf_conc c else lf_concurrency f\<rparr>)"
    using assms(1,2)
    by (cases "cf_conc c = PNone")
      (auto simp: update_concurrency_def describe_function_def dget_or_def field_get_def lift_def andthen_def ask_cloud updated_function_def
        name_of_def split: if_splits)
  show ?thesis unfolding run using assms(3) by (cases "py_eq (cf_conc c) (lf_concurrency f)") auto
qed

section \<open>Publishing settles\<close>

definition texts_value :: "pyval \<Rightarrow> bool" where
  "texts_value v = (case v of PList xs \<Rightarrow> list_all is_str xs | _ \<Rightarrow> \<not> py_truth v)"

definition tags_value :: "pyval \<Rightarrow> bool" where
  "tags_value v = (case v of PDict d \<Rightarrow> dwf d \<and> list_all is_str (dvalues d) | _ \<Rightarrow> False)"

text \<open>What the schema of a policy's mode lets through.\<close>

definition tidy :: "lambda_func \<Rightarrow> bool" where
  "tidy f \<longleftrightarrow> list_all plain_value [lf_name f, lf_role f, lf_memory_size f, lf_description f, lf_runtime f, lf_handler f, lf_timeout f,
       lf_tracing f, lf_kms_key_arn f, lf_dead_letter f, lf_environment f, lf_architectures f, lf_concurrency f] \<and>
     list_all texts_value [lf_layers f, lf_subnets f, lf_security_groups f] \<and> tags_value (lf_tags f)"

text \<open>Keys that descriptions and requests have beside those of the configuration.\<close>

definition answer_keys :: "string list" where
  "answer_keys = [''FunctionArn'', ''Version'', ''CodeSha256'', ''Code'', ''Publish'']"

definition steady_entry :: "string \<times> pyval \<Rightarrow> bool" where
  "steady_entry = (\<lambda>(k, v). k \<notin> set answer_keys \<and>
     (k = ''Layers'' \<longrightarrow> (\<exists>ls. v = PList (map PStr ls))) \<and>
     (k = ''VpcConfig'' \<longrightarrow> (\<exists>a b. v = PDict [(''SubnetIds'', PList (map PStr a)), (''SecurityGroupIds'', PList (map PStr b))])) \<and>
     (k \<notin> {''Layers'', ''VpcConfig''} \<longrightarrow> plain_value v))"

lemma all_strs: "list_all is_str xs \<Longrightarrow> \<exists>ss. xs = map PStr ss"
proof (induction xs)
  case (Cons x xs)
  then obtain s ss where "x = PStr s" "xs = map PStr ss" by (auto simp: is_str_def split: pyval.splits)
  then have "x # xs = map PStr (s # ss)" by simp
  then show ?case by (rule exI)
qed simp

lemma texts_value_list: "texts_value v \<Longrightarrow> py_truth v \<Longrightarrow> \<exists>ss. v = PList (map PStr ss)"
  by (cases v) (auto simp: texts_value_def dest: all_strs)

lemma plain_str: "is_str v \<Longrightarrow> plain_value v"
  by (cases v) (simp_all add: is_str_def)

lemma plain_tags:
  assumes "tags_value v"
  shows "plain_value v"
proof (cases v)
  case (PDict d)
  with assms have "dwf d" "list_all is_str (dvalues d)" by (simp_all add: tags_value_def)
  moreover have "list_all (\<lambda>(k, v). plain_value v) d"
    using \<open>list_all is_str (dvalues d)\<close> by (fastforce simp: list_all_iff dvalues_def intro: plain_str)
  ultimately show ?thesis by (simp add: PDict)
qed (use assms in \<open>simp_all add: tags_value_def\<close>)

lemma set_dput: "set (dput k v d) \<subseteq> insert (k, v) (set d)"
proof (induction d)
  case (Cons p d)
  then show ?case by (cases p) auto
qed simp

lemma steady_dput: "list_all steady_entry d \<Longrightarrow> steady_entry (k, v) \<Longrightarrow> list_all steady_entry (dput k v d)"
  using set_dput[of k v d] by (auto simp: list_all_iff)

definition base_config :: "lambda_func \<Rightarrow> pydict" where
  "base_config f = [(''FunctionName'', lf_name f), (''MemorySize'', lf_memory_size f), (''Role'', lf_role f),
     (''Description'', lf_description f), (''Runtime'', lf_runtime f), (''Handler'', lf_handler f),
     (''Timeout'', lf_timeout f), (''TracingConfig'', lf_tracing f), (''KMSKeyArn'', lf_kms_key_arn f),
     (''DeadLetterConfig'', lf_dead_letter f), (''VpcConfig'', empty_value ''VpcConfig''), (''Tags'', lf_tags f)]"

definition added :: "bool \<Rightarrow> string \<Rightarrow> pyval \<Rightarrow> pydict \<Rightarrow> pydict" where
  "added b k v d = (if b then dput k v d else d)"

definition vpc_value :: "lambda_func \<Rightarrow> pyval" where
  "vpc_value f = PDict [(''SubnetIds'', lf_subnets f), (''SecurityGroupIds'', lf_security_groups f)]"

lemma get_config_added:
  assumes "get_config f = Inr conf"
  shows "\<exists>b. conf = added (py_truth (lf_architectures f)) ''Architectures'' (lf_architectures f)
    (added (py_truth (lf_subnets f) \<and> py_truth (lf_security_groups f)) ''VpcConfig'' (vpc_value f)
    (added b ''Environment'' (lf_environment f) (added (py_truth (lf_layers f)) ''Layers'' (lf_layers f) (base_config f))))"
  using assms unfolding get_config_def rbind_eq_Inr Let_def added_def base_config_def vpc_value_def by blast

lemma added_facts:
  "dwf d \<Longrightarrow> dwf (added b k v d)"
  "list_all steady_entry d \<Longrightarrow> (b \<Longrightarrow> steady_entry (k, v)) \<Longrightarrow> list_all steady_entry (added b k v d)"
  "dget (added b k v d) j = (if b \<and> j = k then Some v else dget d j)"
  by (simp_all add: added_def steady_dput)

lemma base_config_steady: "tidy f \<Longrightarrow> list_all steady_entry (base_config f)"
  by (simp add: base_config_def steady_entry_def answer_keys_def tidy_def plain_tags empty_value_def LAMBDA_EMPTY_VALUES_def dget_or_def exI[of _ "[]"])

lemma get_config_entries:
  assumes conf: "get_config f = Inr conf" and f: "tidy f" and role: "plain_value role"
  shows "dwf (dput ''Role'' role conf)" "list_all steady_entry (dput ''Role'' role conf)"
    "dget conf ''Tags'' = Some (lf_tags f)" "plain_value (dget_or conf ''Architectures'' default_architectures)"
proof -
  obtain b where c: "conf = added (py_truth (lf_architectures f)) ''Architectures'' (lf_architectures f)
    (added (py_truth (lf_subnets f) \<and> py_truth (lf_security_groups f)) ''VpcConfig'' (vpc_value f)
    (added b ''Environment'' (lf_environment f) (added (py_truth (lf_layers f)) ''Layers'' (lf_layers f) (base_config f))))"
    using get_config_added[OF conf] by blast
  have plain: "plain_value (lf_architectures f)" "plain_value (lf_environment f)"
    and lists: "texts_value (lf_layers f)" "texts_value (lf_subnets f)" "texts_value (lf_security_groups f)"
    using f by (simp_all add: tidy_def)
  have entries: "steady_entry (''Architectures'', lf_architectures f)" "steady_entry (''Environment'', lf_environment f)"
    "py_truth (lf_layers f) \<Longrightarrow> steady_entry (''Layers'', lf_layers f)"
    "py_truth (lf_subnets f) \<and> py_truth (lf_security_groups f) \<Longrightarrow> steady_entry (''VpcConfig'', vpc_value f)"
    "steady_entry (''Role'', role)"
    using plain role texts_value_list[OF lists(1)] texts_value_list[OF lists(2)] texts_value_list[OF lists(3)]
    by (simp_all add: steady_entry_def answer_keys_def vpc_value_def)
  show "dwf (dput ''Role'' role conf)"
    unfolding c by (intro dwf_dput added_facts(1)) (simp add: base_config_def dwf_def)
  show "list_all steady_entry (dput ''Role'' role conf)"
    unfolding c by (intro steady_dput added_facts(2) base_config_steady f entries) simp_all
  show "dget conf ''Tags'' = Some (lf_tags f)"
    unfolding c by (simp add: added_facts(3) base_config_def)
  show "plain_value (dget_or conf ''Architectures'' default_architectures)"
    unfolding c by (simp add: dget_or_def added_facts(3) base_config_def default_architectures_def plain)
qed

lemma key_changes_steady:
  assumes "steady_entry (k, v)" "dget old k = Some (described_value k v)"
  shows "key_changes old (k, v) = Inr []"
proof -
  consider "k = ''Layers''" | "k = ''VpcConfig''" | "k \<noteq> ''Layers''" "k \<noteq> ''VpcConfig''" by blast
  then show ?thesis
  proof cases
    case 1
    then have "\<exists>ls. v = PList (map PStr ls)" using assms(1) by (simp add: steady_entry_def)
    then obtain ls where v: "v = PList (map PStr ls)" ..
    have "map (\<lambda>l. PDict [(''Arn'', l)]) (map PStr ls) = map (\<lambda>l. PDict [(''Arn'', PStr l)]) ls" by simp
    then have "dget old ''Layers'' = Some (PList (map (\<lambda>l. PDict [(''Arn'', PStr l)]) ls))"
      using assms(2) by (simp add: 1 v described_value_def)
    then show ?thesis unfolding 1 v by (rule key_changes_layers)
  next
    case 2
    then have "\<exists>a b. v = PDict [(''SubnetIds'', PList (map PStr a)), (''SecurityGroupIds'', PList (map PStr b))]"
      using assms(1) by (simp add: steady_entry_def)
    then obtain a b where v: "v = PDict [(''SubnetIds'', PList (map PStr a)), (''SecurityGroupIds'', PList (map PStr b))]"
      by (elim exE)
    have "dget old ''VpcConfig'' = Some v" using assms(2) by (simp add: 2 described_value_def)
    then show ?thesis unfolding 2 v by (rule key_changes_vpc)
  next
    case 3
    then have "plain_value v" "described_value k v = v" using assms(1) by (simp_all add: steady_entry_def described_value_def)
    with 3 assms(2) show ?thesis by (intro key_changes_same) simp_all
  qed
qed

lemma dget_described: "dget (described_config c) k = map_option (described_value k) (dget c k)"
  by (induction c) (auto simp: described_config_def)

text \<open>The differences with a described function depend on its configuration alone.\<close>

lemma plain_config_entries:
  assumes "list_all steady_entry conf" "(k, v) \<in> set (plain_config conf)"
  shows "steady_entry (k, v) \<and> k \<notin> set answer_keys \<and> k \<noteq> ''Architectures''"
proof -
  have "(k, v) \<in> set conf" "k \<noteq> ''Architectures''" using assms(2) by (simp_all add: plain_config_def ddel_def)
  moreover have "steady_entry (k, v)" using assms(1) \<open>(k, v) \<in> set conf\<close> by (simp add: list_all_iff)
  moreover from this have "k \<notin> set answer_keys" by (simp add: steady_entry_def)
  ultimately show ?thesis by simp
qed

lemma delta_config_answer:
  assumes "list_all steady_entry conf"
  shows "delta_function (config_answer c) (plain_config conf) = delta_function (described_config (cf_config c)) (plain_config conf)"
proof -
  have "key_changes (config_answer c) p = key_changes (described_config (cf_config c)) p" if p: "p \<in> set (plain_config conf)" for p
  proof -
    obtain k v where kv: "p = (k, v)" by (cases p)
    from plain_config_entries[OF assms p[unfolded kv]]
    have "dget (config_answer c) k = dget (described_config (cf_config c)) k" by (simp add: config_answer_def answer_keys_def)
    then show ?thesis by (simp add: kv key_changes_def)
  qed
  then have "rmap (key_changes (config_answer c)) (plain_config conf) = rmap (key_changes (described_config (cf_config c))) (plain_config conf)"
    by (intro rmap_cong) simp_all
  then show ?thesis by (simp add: delta_function_def)
qed

lemma delta_of_stored:
  assumes "list_all steady_entry conf" "\<And>k v. (k, v) \<in> set (plain_config conf) \<Longrightarrow> dget cfg k = Some v"
  shows "delta_function (described_config cfg) (plain_config conf) = Inr []"
proof (rule delta_none)
  fix p assume p: "p \<in> set (plain_config conf)"
  obtain k v where kv: "p = (k, v)" by (cases p)
  have "dget (described_config cfg) k = Some (described_value k v)" using assms(2) p kv by (simp add: dget_described)
  then show "key_changes (described_config cfg) p = Inr []"
    unfolding kv using plain_config_entries[OF assms(1) p[unfolded kv]] by (intro key_changes_steady) simp_all
qed

lemma dget_entry: "dwf d \<Longrightarrow> (k, v) \<in> set d \<Longrightarrow> dget d k = Some v"
  by (simp add: dwf_def dkeys_def)

lemma plain_config_wf: "dwf conf \<Longrightarrow> dwf (plain_config conf)"
  by (simp add: plain_config_def)

lemma delta_after_update:
  assumes "list_all steady_entry conf" "dwf conf"
  shows "delta_function (described_config (dupdate cfg (plain_config conf))) (plain_config conf) = Inr []"
  using plain_config_wf[OF assms(2)]
  by (intro delta_of_stored[OF assms(1)]) (simp add: dget_dupdate dget_entry map_add_find_right)

lemma delta_after_create:
  assumes "list_all steady_entry (dput ''Role'' role conf)" "dwf (dput ''Role'' role conf)"
    and params: "params = dupdate conf [(''Publish'', x), (''Code'', y), (''Role'', role)]"
  shows "delta_function (described_config (ddel ''Code'' (ddel ''Publish'' (ddel ''Architectures'' (ddel ''Tags'' params)))))
    (plain_config (dput ''Role'' role conf)) = Inr []"
proof (rule delta_of_stored[OF assms(1)])
  fix k v assume kv: "(k, v) \<in> set (plain_config (dput ''Role'' role conf))"
  have "dget (plain_config (dput ''Role'' role conf)) k = Some v" by (rule dget_entry[OF plain_config_wf[OF assms(2)] kv])
  moreover have "k \<noteq> ''Code''" "k \<noteq> ''Publish''" using plain_config_entries[OF assms(1) kv] by (simp_all add: answer_keys_def)
  ultimately show "dget (ddel ''Code'' (ddel ''Publish'' (ddel ''Architectures'' (ddel ''Tags'' params)))) k = Some v"
    unfolding params plain_config_def by (simp split: if_splits)
qed

text \<open>What is in line, said of the cloud.\<close>

definition cloud_in_line :: "(pyval \<Rightarrow> string) \<Rightarrow> built \<Rightarrow> lambda_func \<Rightarrow> pydict \<Rightarrow> cloud_function \<Rightarrow> bool" where
  "cloud_in_line hash b f conf c \<longleftrightarrow>
     cf_sha c = hash (bt_bytes b) \<and> (case lf_tags f of PDict new \<Rightarrow> diff_tags (cf_tags c) new = ([], []) | _ \<Rightarrow> False) \<and>
     py_eq (cf_arch c) (dget_or conf ''Architectures'' default_architectures) \<and>
     delta_function (described_config (cf_config c)) (plain_config conf) = Inr [] \<and> py_eq (cf_conc c) (lf_concurrency f)"

lemma cloud_in_line_described:
  assumes conf: "get_config f = Inr conf0" and f: "tidy f" "plain_value role" and b: "bt_sha b = PStr (hash (bt_bytes b))"
    and c: "cloud_in_line hash b f (dput ''Role'' role conf0) c"
  shows "in_line b f role (describe_function c)"
proof -
  note entries = get_config_entries[OF conf f]
  obtain new where new: "lf_tags f = PDict new" "diff_tags (cf_tags c) new = ([], [])"
    using c by (auto simp: cloud_in_line_def split: pyval.splits)
  have "dget_or (dput ''Role'' role conf0) ''Tags'' (PDict []) = PDict new" using entries(3) new(1) by (simp add: dget_or_def)
  moreover have "delta_function (config_answer c) (plain_config (dput ''Role'' role conf0)) = Inr []"
    using c by (simp add: cloud_in_line_def delta_config_answer[OF entries(2)])
  moreover have "dget (config_answer c) ''CodeSha256'' = Some (PStr (cf_sha c))" "dget_or (config_answer c) ''Architectures'' default_architectures = cf_arch c"
    "dhas (config_answer c) ''FunctionArn''" by (simp_all add: config_answer_def dget_or_def dhas_dget)
  moreover have "cf_conc c = PNone \<Longrightarrow> lf_concurrency f = PNone" using c by (auto simp: cloud_in_line_def)
  ultimately show ?thesis using c new b
    by (simp add: in_line_def describe_function_def conf Let_def dget_or_def cloud_in_line_def)
qed

lemma update_function_cloud:
  assumes run: "update_function (lambda_cloud hash) b f role [(''ZipFile'', bt_bytes b)] (describe_function c) (Some c) = (Inr r, st)"
    and conf: "get_config f = Inr conf0" and f: "tidy f" "plain_value role" and sha: "bt_sha b = PStr (hash (bt_bytes b))"
    and tags: "dwf (cf_tags c)" "list_all is_str (dvalues (cf_tags c))"
  shows "\<exists>c'. st = Some c' \<and> cloud_in_line hash b f (dput ''Role'' role conf0) c'"
proof -
  let ?conf = "dput ''Role'' role conf0" and ?call = "lambda_cloud hash" and ?code = "[(''ZipFile'', bt_bytes b)]" and ?d = "describe_function c"
  note entries = get_config_entries[OF conf f]
  obtain new where new: "lf_tags f = PDict new" "dwf new" "list_all is_str (dvalues new)"
    using f(1) by (auto simp: tidy_def tags_value_def split: pyval.splits)
  have old: "rbind (dindex ?d ''Configuration'') dict_of = Inr (config_answer c)" by (simp add: describe_function_def dindex_def dict_of_def)
  have wanted: "dget_or ?conf ''Tags'' (PDict []) = PDict new" using entries(3) new(1) by (simp add: dget_or_def)
  from run obtain r1 b1 s1 b2 s2 b3 s3 r4 b4 s4 b5 where
    s1: "update_code ?call b f ?code (config_answer c) (Some c) = (Inr (r1, b1), s1)"
    and s2: "update_tags ?call ?d (PDict new) s1 = (Inr b2, s2)"
    and s3: "update_architecture ?call f ?d (dget_or ?conf ''Architectures'' default_architectures) ?code s2 = (Inr b3, s3)"
    and s4: "update_configuration ?call (config_answer c) (plain_config ?conf) r1 s3 = (Inr (r4, b4), s4)"
    and s5: "update_concurrency ?call (Some ?d) f s4 = (Inr b5, st)"
    unfolding update_function_def old conf Let_def andthen_lift wanted
    by (elim andthen_value) (auto simp: wanted elim!: andthen_value split: prod.splits)
  obtain c1 where c1: "s1 = Some c1" "c1 = c\<lparr>cf_sha := hash (bt_bytes b)\<rparr>" using update_code_cloud[OF s1 sha] by blast
  obtain add remove where diff: "diff_tags (cf_tags c) new = (add, remove)"
    and "s2 = Some (c1\<lparr>cf_tags := fold ddel remove (dupdate (cf_tags c) add)\<rparr>)"
    using update_tags_cloud[OF s2[unfolded c1(1)]] by (auto simp: c1(2))
  then obtain c2 where c2: "s2 = Some c2" "c2 = c1\<lparr>cf_tags := fold ddel remove (dupdate (cf_tags c) add)\<rparr>" by blast
  obtain a where a: "py_eq a (dget_or ?conf ''Architectures'' default_architectures)" "s3 = Some (c2\<lparr>cf_arch := a\<rparr>)"
    using update_architecture_cloud[OF s3[unfolded c2(1)]] plain_value_eq[OF entries(4)] by (auto simp: c2(2) c1(2) dget_or_def)
  have s4': "delta_function (config_answer c) (plain_config ?conf) = Inr [] \<and> s4 = Some (c2\<lparr>cf_arch := a\<rparr>) \<or>
      s4 = Some (c2\<lparr>cf_arch := a, cf_config := dupdate (cf_config c) (plain_config ?conf)\<rparr>)"
    using update_configuration_cloud[OF s4[unfolded a(2)]] by (auto simp: c2(2) c1(2))
  then obtain c4 where c4: "s4 = Some c4" "cf_sha c4 = hash (bt_bytes b)" "cf_tags c4 = fold ddel remove (dupdate (cf_tags c) add)"
    "cf_arch c4 = a" "cf_conc c4 = cf_conc c" "delta_function (described_config (cf_config c4)) (plain_config ?conf) = Inr []"
    using delta_config_answer[OF entries(2), of c] delta_after_update[OF entries(2,1), of "cf_config c"] by (auto simp: c2(2) c1(2))
  have "plain_value (lf_concurrency f)" using f(1) by (simp add: tidy_def)
  from update_concurrency_cloud[OF s5[unfolded c4(1)] _ plain_value_eq[OF this]] obtain v where
    v: "py_eq v (lf_concurrency f)" "st = Some (c4\<lparr>cf_conc := v\<rparr>)" by (auto simp: c4(5))
  have "dget (cf_tags c4) = dget new" unfolding c4(3) by (rule tags_settled[OF tags(1) new(2) tags(2) new(3) diff])
  then have "diff_tags (cf_tags c4) new = ([], [])" by (rule diff_tags_none[OF _ new(2,3)])
  then have "cloud_in_line hash b f ?conf (c4\<lparr>cf_conc := v\<rparr>)"
    using c4 v(1) a(1) new(1) by (simp add: cloud_in_line_def)
  with v(2) show ?thesis by blast
qed


lemma created_concurrency:
  assumes "update_concurrency (lambda_cloud hash) None f (Some c) = (Inr r, st)" "cf_conc c = PNone"
  shows "st = Some (c\<lparr>cf_conc := lf_concurrency f\<rparr>)"
proof (cases "lf_concurrency f = PNone")
  case True
  with assms show ?thesis by (cases c) (simp add: update_concurrency_def lift_def andthen_def)
next
  case False
  with assms show ?thesis
    by (simp add: update_concurrency_def lift_def andthen_def ask_cloud updated_function_def name_of_def dget_or_def)
qed

lemma create_function_cloud:
  assumes run: "create_function (lambda_cloud hash) f role [(''ZipFile'', bt_bytes b)] None = (Inr r, st)"
    and conf: "get_config f = Inr conf0" and f: "tidy f" "plain_value role"
  shows "\<exists>c'. st = Some c' \<and> cloud_in_line hash b f (dput ''Role'' role conf0) c'"
proof -
  note entries = get_config_entries[OF conf f]
  obtain new where new: "lf_tags f = PDict new" "dwf new" "list_all is_str (dvalues new)"
    using f(1) by (auto simp: tidy_def tags_value_def split: pyval.splits)
  let ?params = "dupdate conf0 [(''Publish'', PBool True), (''Code'', PDict [(''ZipFile'', bt_bytes b)]), (''Role'', role)]"
  let ?c = "created_function hash ?params"
  have created: "fetch_answer (lambda_cloud hash) ''create_function'' ?params None = (Inr (PDict (config_answer ?c)), Some ?c)"
    by (simp add: fetch_answer_def lambda_cloud_def Let_def)
  from run obtain w1 w2 u where w1: "fetch_answer (lambda_cloud hash) ''create_function'' ?params None = (Inr r, w1)"
    and w2: "update_concurrency (lambda_cloud hash) None f w1 = (Inr u, w2)" and st: "wait_function (lambda_cloud hash) ''function_active'' f w2 = (Inr (), st)"
    unfolding create_function_def conf andthen_lift by (elim andthen_value) auto
  have "w1 = Some ?c" using w1 created by simp
  from created_concurrency[OF w2[unfolded this]] have "w2 = Some (?c\<lparr>cf_conc := lf_concurrency f\<rparr>)" by (simp add: created_function_def)
  with st have st: "st = Some (?c\<lparr>cf_conc := lf_concurrency f\<rparr>)" by (simp add: wait_function_def ask_cloud updated_function_def)
  have "plain_value (lf_concurrency f)" using f(1) by (simp add: tidy_def)
  moreover have "cf_tags ?c = new" using entries(3) new(1) by (simp add: created_function_def dict_param_def)
  moreover have "cf_sha ?c = hash (bt_bytes b)" by (simp add: created_function_def dict_param_def dget_or_def)
  moreover have "cf_arch ?c = dget_or (dput ''Role'' role conf0) ''Architectures'' default_architectures"
    by (simp add: created_function_def dget_or_def)
  moreover have "plain_value (dget_or (dput ''Role'' role conf0) ''Architectures'' default_architectures)"
    using entries(4) by (simp add: dget_or_def)
  moreover have "delta_function (described_config (cf_config ?c)) (plain_config (dput ''Role'' role conf0)) = Inr []"
    using delta_after_create[OF entries(2,1) refl] by (simp add: created_function_def)
  ultimately have "cloud_in_line hash b f (dput ''Role'' role conf0) (?c\<lparr>cf_conc := lf_concurrency f\<rparr>)"
    using new diff_tags_none[OF refl new(2,3)] by (simp add: cloud_in_line_def plain_value_eq)
  with st show ?thesis by blast
qed


lemma published_cloud:
  assumes run: "create_or_update (lambda_cloud hash) E b f role [] qualifier st = (Inr r, st')"
    and f: "tidy f" "plain_value role" and sha: "bt_sha b = PStr (hash (bt_bytes b))"
    and st: "case st of None \<Rightarrow> True | Some c \<Rightarrow> dwf (cf_tags c) \<and> list_all is_str (dvalues (cf_tags c))"
  shows "\<exists>c. st' = Some c \<and> in_line b f (if py_truth (lf_role f) then lf_role f else role) (describe_function c)"
proof -
  let ?role = "if py_truth (lf_role f) then lf_role f else role" and ?call = "lambda_cloud hash"
  have role: "plain_value ?role" using f by (simp add: tidy_def)
  have truth: "py_truth ?role" using run unfolding create_or_update_def Let_def by (cases "py_truth ?role") (simp_all add: lift_def del: if_split)
  have run: "andthen (get_function ?call (lf_name f) qualifier) (\<lambda>existing. case existing of
      Some d \<Rightarrow> andthen (update_function ?call b f ?role [(''ZipFile'', bt_bytes b)] d) (\<lambda>(result, changed). lift (Inr (result, changed, existing)))
    | None \<Rightarrow> andthen (create_function ?call f ?role [(''ZipFile'', bt_bytes b)]) (\<lambda>result. lift (Inr (result, True, None)))) st = (Inr r, st')"
    using run truth unfolding create_or_update_def Let_def code_reference_def
    by (simp del: if_split cong: option.case_cong)
  have "\<exists>conf0 c. get_config f = Inr conf0 \<and> st' = Some c \<and> cloud_in_line hash b f (dput ''Role'' ?role conf0) c"
  proof (cases st)
    case None
    have get: "get_function ?call (lf_name f) qualifier None = (Inr None, None)"
      by (simp add: get_function_def resource_exists_def lambda_cloud_def)
    from run obtain u where create: "create_function ?call f ?role [(''ZipFile'', bt_bytes b)] None = (Inr u, st')"
      unfolding None by (rule andthen_value) (auto simp: get elim!: andthen_value)
    then obtain conf0 where conf: "get_config f = Inr conf0"
      by (cases "get_config f") (simp_all add: create_function_def)
    from create_function_cloud[OF create conf f(1) role] conf show ?thesis by blast
  next
    case (Some c)
    have get: "get_function ?call (lf_name f) qualifier (Some c) = (Inr (Some (describe_function c)), Some c)"
      by (rule get_function_found) (simp_all add: lambda_cloud_def Let_def updated_function_def describe_function_def)
    from run obtain u where update: "update_function ?call b f ?role [(''ZipFile'', bt_bytes b)] (describe_function c) (Some c) = (Inr u, st')"
      unfolding Some by (rule andthen_value) (auto simp: get elim!: andthen_value)
    have "\<exists>conf0. get_config f = Inr conf0"
    proof (cases "get_config f")
      case (Inl e)
      from update show ?thesis unfolding update_function_def Inl by (auto elim!: andthen_value)
    qed simp
    then obtain conf0 where conf: "get_config f = Inr conf0" ..
    from update_function_cloud[OF update conf f(1) role sha] st conf show ?thesis by (simp add: Some)
  qed
  then obtain conf0 c where conf: "get_config f = Inr conf0" "st' = Some c" "cloud_in_line hash b f (dput ''Role'' ?role conf0) c" by blast
  from cloud_in_line_described[OF conf(1) f(1) role sha conf(3)] conf(2) show ?thesis by blast
qed



definition some_hash :: "pyval \<Rightarrow> string" where
  "some_hash v = (case v of PStr s \<Rightarrow> rev s | _ \<Rightarrow> [])"

definition some_function :: lambda_func where
  "some_function = optional_parts [(''layers'', PList [PStr ''l2'', PStr ''l1'']), (''subnets'', PList [PStr ''s1'']),
       (''security_groups'', PList [PStr ''g1'']), (''concurrency'', PInt 2), (''tags'', PDict [(''env'', PStr ''prod'')])]
     (policy_architectures ''AArch64'')
     (bare_function\<lparr>lf_name := PStr ''custodian-p'', lf_description := PStr ''d'', lf_handler := PStr ''custodian_policy.run'', lf_role := PStr [],
       lf_runtime := PStr ''python3.11'', lf_memory_size := PInt 512, lf_timeout := PInt 900\<rparr>)"

definition some_deployed :: cloud_function where
  "some_deployed = \<lparr>cf_sha = ''old'', cf_config = [(''Role'', PStr ''arn:aws:iam::1:role/other''), (''MemorySize'', PInt 128)],
     cf_tags = [(''env'', PStr ''dev''), (''stale'', PStr ''1'')], cf_arch = default_architectures, cf_conc = PNone\<rparr>"

definition some_built :: built where
  "some_built = \<lparr>bt_sha = PStr (some_hash (PStr ''code'')), bt_bytes = PStr ''code'', bt_path = PStr ''/tmp/a''\<rparr>"

definition some_publication :: "cloud_function option \<Rightarrow> pyerr + pyval \<times> bool \<times> pydict option \<times> cloud_function option" where
  "some_publication st = (case create_or_update (lambda_cloud some_hash) (ext0 0) some_built some_function (PStr ''arn:aws:iam::1:role/c7n'') [] PNone st of
      (Inl e, st') \<Rightarrow> Inl e | (Inr (v, b, d), st') \<Rightarrow> Inr (v, b, d, st'))"

lemma some_publication_runs: "case some_publication (Some some_deployed) of Inr (v, changed, d, st') \<Rightarrow> changed \<and> st' \<noteq> Some some_deployed | Inl e \<Rightarrow> False"
  by code_simp


section \<open>Cases that go wrong\<close>

text \<open>The answer to a new architecture, a published version, is dropped: the alias gets the version there was.\<close>

lemma architecture_alias_stale:
  assumes "update_code call b f code_ref old w = (Inr (PDict old, False), w)" "rbind (dindex d ''Configuration'') dict_of = Inr old"
    and "get_config f = Inr conf0" "update_tags call d (dget_or (dput ''Role'' role conf0) ''Tags'' (PDict [])) w = (Inr False, w)"
    and "update_architecture call f d (dget_or (dput ''Role'' role conf0) ''Architectures'' default_architectures) code_ref w = (Inr True, w1)"
    and "delta_function old (plain_config (dput ''Role'' role conf0)) = Inr []" "update_concurrency call (Some d) f w1 = (Inr c, w2)"
  shows "update_function call b f role code_ref d w = (Inr (PDict old, True), w2)"
  using assms by (simp add: update_function_def andthen_def lift_def Let_def update_configuration_def)

text \<open>A deployed role given without a path is compared by what follows a slash it does not have.\<close>

lemma role_without_path: "CHR ''/'' \<notin> set s \<Longrightarrow> \<not> py_eq new (PStr s) \<Longrightarrow> role_differs (PStr s) new = Inl IndexError"
proof -
  assume s: "CHR ''/'' \<notin> set s" "\<not> py_eq new (PStr s)"
  have "split_max CHR ''/'' 1 s = [s]" using s(1) by (induction s) auto
  with s(2) show ?thesis by (simp add: role_differs_def)
qed

end
