(* ===== verification/Lambda_Events.thy ===== *)
theory Lambda_Events
  imports Lambda_Functions Policy_Runs
begin

text \<open>
  What invokes a deployed function (\<open>c7n/mu.py\<close>): rules on events, schedules, custom actions of
  Security Hub, notifications of buckets, log groups, queues and topics, and config rules; each is
  added to a function, and removed with it or from it. \<open>json.dumps\<close> is an argument. Lists of the
  policy's data that rendering appends to are not followed: what is appended is made a set.
\<close>

section \<open>Shared parts\<close>

text \<open>A call in one of the module's retries; a request refused past them has its code.\<close>

definition retried :: "string list \<Rightarrow> nat \<Rightarrow> 'w service \<Rightarrow> string \<Rightarrow> pydict \<Rightarrow> 'w \<Rightarrow> pyval attempt \<times> 'w" where
  "retried codes n call name params w = (case attempts (call (name, params)) codes [] n w of
      (Value v, w') \<Rightarrow> (Returned v, w')
    | (Raised c, w') \<Rightarrow> (ClientErr c, w')
    | (RaisedOther e, w') \<Rightarrow> (OtherErr e, w')
    | (_, w') \<Rightarrow> (Returned PNone, w'))"

definition LambdaRetry :: "'w service \<Rightarrow> 'w service" where
  "LambdaRetry call = (\<lambda>(name, params). retried [''InsufficientPermissionsException'', ''InvalidParameterValueException''] 5 call name params)"

definition LambdaConflictRetry :: "'w service \<Rightarrow> 'w service" where
  "LambdaConflictRetry call = (\<lambda>(name, params). retried [''ResourceConflictException''] 3 call name params)"

definition RuleRetry :: "'w service \<Rightarrow> 'w service" where
  "RuleRetry call = (\<lambda>(name, params). retried [''ResourceNotFoundException''] 2 call name params)"

definition conflict :: string where
  "conflict = ''ResourceConflictException''"

text \<open>Any refusal is passed over.\<close>

definition attempt_only :: "('w, unit) eff \<Rightarrow> ('w, unit) eff" where
  "attempt_only m = rescue ClientError m (lift (Inr ()))"

definition remove_invocation :: "'w service \<Rightarrow> lambda_func \<Rightarrow> bool \<Rightarrow> ('w, unit) eff" where
  "remove_invocation call f remove_permission =
     unless (\<not> remove_permission)
       (ask_ignoring [no_resource] (LambdaConflictRetry call) ''remove_permission'' [name_of f, (''StatementId'', lf_name f)])"

definition differs_at :: "pydict \<Rightarrow> pydict \<Rightarrow> string \<Rightarrow> bool" where
  "differs_at src tgt k = (\<not> py_eq (dget_or src k PNone) (dget_or tgt k PNone))"

section \<open>Rules on events\<close>

definition cwe_get :: "'w service \<Rightarrow> pyval \<Rightarrow> ('w, pydict option) eff" where
  "cwe_get call rule_name = resource_exists call no_resource ''describe_rule'' [(''Name'', rule_name)]"

definition cwe_delta :: "pydict \<Rightarrow> pydict \<Rightarrow> bool" where
  "cwe_delta src tgt = list_ex (differs_at src tgt) [''State'', ''EventPattern'', ''ScheduleExpression'']"

text \<open>One event of a trail: its name, and its source when it is known.\<close>

definition trail_event :: "pyval \<Rightarrow> (pyval \<times> pyval option) res" where
  "trail_event e = (case e of
      PDict d \<Rightarrow> rbind (dindex d ''event'') (\<lambda>name. rbind (dindex d ''source'') (\<lambda>source. Inr (name, Some source)))
    | PStr s \<Rightarrow> Inr (e, case dget trail_events s of None \<Rightarrow> None | Some (ids, source) \<Rightarrow> Some (PStr source))
    | _ \<Rightarrow> if hashable e then Inr (e, None) else Inl TypeError)"

definition resolve_cloudtrail_payload :: "pydict \<Rightarrow> pydict \<Rightarrow> pydict res" where
  "resolve_cloudtrail_payload data payload =
     rbind (py_iter (dget_or data ''sources'' (PList []))) (\<lambda>given.
     rbind (rbind (py_iter (dget_or data ''events'' PNone)) (rmap trail_event)) (\<lambda>es.
     rbind (py_set (PList (given @ concat (map (\<lambda>(n, s). case s of None \<Rightarrow> [] | Some v \<Rightarrow> [v]) es)))) (\<lambda>sources.
       Inr (dput ''detail'' (PDict [(''eventSource'', PList sources), (''eventName'', PList (map fst es))]) payload))))"

definition ASG_EVENT_MAPPING :: "(string, string) odict" where
  "ASG_EVENT_MAPPING = [(''launch-success'', ''EC2 Instance Launch Successful''), (''launch-failure'', ''EC2 Instance Launch Unsuccessful''),
     (''terminate-success'', ''EC2 Instance Terminate Successful''), (''terminate-failure'', ''EC2 Instance Terminate Unsuccessful'')]"

definition asg_event :: "pyval \<Rightarrow> pyval res" where
  "asg_event e = (case e of
      PStr s \<Rightarrow> Inr (case dget ASG_EVENT_MAPPING s of None \<Rightarrow> e | Some t \<Rightarrow> PStr t)
    | _ \<Rightarrow> if hashable e then Inr e else Inl TypeError)"

definition from_source :: "string \<Rightarrow> string list \<Rightarrow> pydict \<Rightarrow> pydict" where
  "from_source source kinds payload =
     (let p = dput ''source'' (PList [PStr source]) payload
      in if kinds = [] then p else dput ''detail-type'' (PList (map PStr kinds)) p)"

definition trail_payload :: "pydict \<Rightarrow> pydict \<Rightarrow> pydict res" where
  "trail_payload data payload =
     rbind (resolve_cloudtrail_payload data (dput ''detail-type'' (PList [PStr ''AWS API Call via CloudTrail'']) payload)) (\<lambda>p.
     rbind (rbind (dindex p ''detail'') (\<lambda>d. tag_field d ''eventSource'')) (\<lambda>sources.
     rbind (py_in (PStr ''signin.amazonaws.com'') sources) (\<lambda>signin.
       Inr (if signin then dput ''detail-type'' (PList [PStr ''AWS Console Sign In via CloudTrail'']) p else p))))"

definition phd_payload :: "pydict \<Rightarrow> pydict \<Rightarrow> pydict res" where
  "phd_payload data payload =
     (let p = from_source ''aws.health'' [] payload
      in rbind (dict_of (dget_or p ''detail'' (PDict []))) (\<lambda>detail.
         let events = dget_or data ''events'' PNone; categories = dget_or data ''categories'' (PList [])
         in rbind (if py_truth events then rbind (py_iter events) (\<lambda>es. Inr (dput ''eventTypeCode'' (PList es) detail)) else Inr detail) (\<lambda>detail.
            let detail = (if py_truth categories then dput ''eventTypeCategory'' categories detail else detail)
            in Inr (if detail = [] then ddel ''detail'' p else dput ''detail'' (PDict detail) p))))"

definition guard_payload :: "pydict \<Rightarrow> pydict \<Rightarrow> pydict" where
  "guard_payload data payload =
     (let p = from_source ''aws.guardduty'' [''GuardDuty Finding''] payload
      in case dget data ''resource-filter'' of
           None \<Rightarrow> p
         | Some r \<Rightarrow> dput ''detail'' (PDict [(''resource'', PDict [(''resourceType'', PList [r])])]) p)"

definition asg_payload :: "pydict \<Rightarrow> pydict \<Rightarrow> pydict res" where
  "asg_payload data payload =
     rbind (rbind (py_iter (dget_or data ''events'' (PList []))) (rmap asg_event)) (\<lambda>es.
       Inr (dput ''detail-type'' (PList es) (from_source ''aws.autoscaling'' [] payload)))"

definition event_payload :: "pydict \<Rightarrow> pydict \<Rightarrow> pydict res" where
  "event_payload data payload =
     (let kind = (\<lambda>s. is_text (dget_or data ''type'' PNone) s)
      in if kind ''cloudtrail'' then trail_payload data payload
         else if kind ''guard-duty'' then Inr (guard_payload data payload)
         else if kind ''ec2-instance-state''
         then Inr (dput ''detail'' (PDict [(''state'', dget_or data ''events'' (PList []))])
                (from_source ''aws.ec2'' [''EC2 Instance State-change Notification''] payload))
         else if kind ''asg-instance-state'' then asg_payload data payload
         else if kind ''phd'' then phd_payload data payload
         else if kind ''hub-finding'' then Inr (from_source ''aws.securityhub'' [''Security Hub Findings - Imported''] payload)
         else if kind ''hub-action''
         then Inr (from_source ''aws.securityhub'' [''Security Hub Findings - Custom Action'', ''Security Hub Insight Results''] payload)
         else if kind ''periodic'' then Inr payload
         else Inl ValueError)"

definition render_event_pattern :: "(pyval \<Rightarrow> string) \<Rightarrow> pydict \<Rightarrow> string option res" where
  "render_event_pattern dumps data =
     (let pattern = dget_or data ''pattern'' PNone
      in rbind (if py_truth pattern then dict_of pattern else Inr []) (\<lambda>pat.
         rbind (event_payload data (dupdate [] pat)) (\<lambda>payload.
         if payload = [] then Inr None
         else rbind (if py_truth pattern then merge_dict payload pat else Inr payload) (\<lambda>p. Inr (Some (dumps (PDict p)))))))"

definition cwe_params :: "(pyval \<Rightarrow> string) \<Rightarrow> pydict \<Rightarrow> lambda_func \<Rightarrow> pydict res" where
  "cwe_params dumps data f =
     rbind (render_event_pattern dumps data) (\<lambda>pattern.
     let schedule = dget_or data ''schedule'' PNone
     in Inr ([(''Name'', lf_name f), (''Description'', lf_description f), (''State'', PStr ''ENABLED'')] @
          (case pattern of None \<Rightarrow> [] | Some p \<Rightarrow> if p = [] then [] else [(''EventPattern'', PStr p)]) @
          (if py_truth schedule then [(''ScheduleExpression'', schedule)] else [])))"

text \<open>The rule there is when it has what is wanted, one that is put otherwise.\<close>

definition put_rule :: "'w service \<Rightarrow> pydict option \<Rightarrow> pydict \<Rightarrow> ('w, pyval) eff" where
  "put_rule call rule params = (case rule of
      Some r \<Rightarrow> if cwe_delta r params then answer_field call ''put_rule'' params ''RuleArn'' else lift (dindex r ''Arn'')
    | None \<Rightarrow> answer_field call ''put_rule'' params ''RuleArn'')"

definition cwe_add :: "'w service \<Rightarrow> (pyval \<Rightarrow> string) \<Rightarrow> pydict \<Rightarrow> deployed \<Rightarrow> ('w, bool) eff" where
  "cwe_add call dumps data p =
     (let f = dp_func p; func_arn = normalize_arn (dp_arn p)
      in andthen (lift (cwe_params dumps data f)) (\<lambda>params.
         andthen (cwe_get call (lf_name f)) (\<lambda>rule.
         andthen (put_rule call rule params) (\<lambda>rule_arn.
         andthen (ask_ignoring [conflict] call ''add_permission'' [name_of f, (''StatementId'', lf_name f), (''SourceArn'', rule_arn),
             (''Action'', PStr ''lambda:InvokeFunction''), (''Principal'', PStr ''events.amazonaws.com'')]) (\<lambda>_.
         andthen (answer_field (RuleRetry call) ''list_targets_by_rule'' [(''Rule'', lf_name f)] ''Targets'') (\<lambda>targets.
         andthen (lift (rbind (rbind (py_iter targets) (rmap (\<lambda>t. tag_field t ''Arn''))) (\<lambda>arns. Inr (list_ex (\<lambda>a. py_eq func_arn a) arns)))) (\<lambda>found.
         if found then lift (Inr False)
         else andthen (ask call ''put_targets'' [(''Rule'', lf_name f), (''Targets'', PList [PDict [(''Id'', lf_name f), (''Arn'', func_arn)]])]) (\<lambda>_.
              lift (Inr True)))))))))"

text \<open>\<open>update\<close> calls \<open>add\<close> without its third argument, of a rule as of a schedule.\<close>

definition cwe_update :: "('w, unit) eff" where
  "cwe_update = lift (Inl TypeError)"

definition cwe_switch :: "'w service \<Rightarrow> string \<Rightarrow> lambda_func \<Rightarrow> ('w, unit) eff" where
  "cwe_switch call request f = attempt_only (ask call request [(''Name'', lf_name f)])"

definition cwe_pause :: "'w service \<Rightarrow> lambda_func \<Rightarrow> ('w, unit) eff" where
  "cwe_pause call = cwe_switch call ''disable_rule''"

definition cwe_resume :: "'w service \<Rightarrow> lambda_func \<Rightarrow> ('w, unit) eff" where
  "cwe_resume call = cwe_switch call ''enable_rule''"

definition remove_targets :: "'w service \<Rightarrow> pyval \<Rightarrow> ('w, unit) eff" where
  "remove_targets call rule =
     andthen (answer_field call ''list_targets_by_rule'' [(''Rule'', rule)] ''Targets'') (\<lambda>targets.
     if py_truth targets
     then andthen (lift (rbind (py_iter targets) (rmap (\<lambda>t. tag_field t ''Id'')))) (\<lambda>ids.
          ask call ''remove_targets'' [(''Rule'', rule), (''Ids'', PList ids)])
     else lift (Inr ()))"

definition cwe_remove :: "'w service \<Rightarrow> lambda_func \<Rightarrow> bool \<Rightarrow> ('w, bool) eff" where
  "cwe_remove call f func_deleted =
     andthen (cwe_get call (lf_name f)) (\<lambda>rule.
     if rule = None then lift (Inr False)
     else andthen (attempt_only (remove_targets call (lf_name f))) (\<lambda>_.
          andthen (ask call ''delete_rule'' [(''Name'', lf_name f)]) (\<lambda>_.
          andthen (remove_invocation call f (\<not> func_deleted)) (\<lambda>_. lift (Inr True)))))"

section \<open>Schedules\<close>

definition default_group :: pyval where
  "default_group = PStr ''default''"

definition schedule_get :: "'w service \<Rightarrow> pyval \<Rightarrow> pyval \<Rightarrow> ('w, pydict option) eff" where
  "schedule_get call name grp = resource_exists call no_resource ''get_schedule'' [(''Name'', name), (''GroupName'', grp)]"

definition schedule_delta :: "pydict \<Rightarrow> pydict \<Rightarrow> bool res" where
  "schedule_delta src tgt =
     (if list_ex (differs_at src tgt) [''State'', ''StartDate'', ''EndDate'', ''ScheduleExpression'', ''ScheduleExpressionTimezone'', ''Description'', ''GroupName'']
      then Inr True
      else rbind (dict_of (dget_or src ''Target'' (PDict []))) (\<lambda>a. rbind (dict_of (dget_or tgt ''Target'' (PDict []))) (\<lambda>b.
             Inr (list_ex (differs_at a b) [''Arn'', ''RoleArn'']))))"

definition schedule_params :: "pydict \<Rightarrow> deployed \<Rightarrow> pydict" where
  "schedule_params data p =
     [(''Name'', lf_name (dp_func p)), (''Description'', lf_description (dp_func p)), (''State'', PStr ''ENABLED''),
      (''FlexibleTimeWindow'', PDict [(''Mode'', PStr ''OFF'')]), (''ScheduleExpression'', dget_or data ''schedule'' PNone),
      (''ScheduleExpressionTimezone'', dget_or data ''timezone'' (PStr ''Etc/UTC'')), (''GroupName'', dget_or data ''group-name'' default_group),
      (''Target'', PDict [(''Arn'', normalize_arn (dp_arn p)), (''RoleArn'', dget_or data ''scheduler-role'' PNone)])]"

text \<open>\<open>^name=[a-zA-Z0-9-_]{1,64}:group=([0-9a-zA-Z-_.]{1,64})$\<close>, where a newline may come last.\<close>

definition schedule_char :: "char \<Rightarrow> bool" where
  "schedule_char c \<longleftrightarrow> is_alpha c \<or> is_digit c \<or> c = CHR ''-'' \<or> c = CHR ''_''"

definition group_char :: "char \<Rightarrow> bool" where
  "group_char c \<longleftrightarrow> schedule_char c \<or> c = CHR ''.''"

definition schedule_tag_group :: "string \<Rightarrow> string option" where
  "schedule_tag_group s =
     (if \<not> starts_with s ''name='' then None
      else let rest = drop 5 s; name = takeWhile schedule_char rest; after = drop (length name) rest
           in if name = [] \<or> 64 < length name \<or> \<not> starts_with after '':group='' then None
              else let tail = drop 7 after; grp = takeWhile group_char tail; end_part = drop (length grp) tail
                   in if grp = [] \<or> 64 < length grp \<or> end_part \<notin> {[], [CHR 0x0A]} then None else Some grp)"

definition previous_group :: "pydict option \<Rightarrow> string option res" where
  "previous_group existing = (case existing of
      None \<Rightarrow> Inr None
    | Some d \<Rightarrow> rbind (field_get (dget_or d ''Tags'' (PDict [])) ''custodian-schedule'' PNone) (\<lambda>t.
        if t = PNone then Inr None else rbind (text_of t) (\<lambda>s. Inr (schedule_tag_group s))))"

definition schedule_add :: "'w service \<Rightarrow> pydict \<Rightarrow> deployed \<Rightarrow> pydict option \<Rightarrow> ('w, bool) eff" where
  "schedule_add call data p existing =
     (let params = schedule_params data p; name = lf_name (dp_func p); grp = dget_or data ''group-name'' default_group
      in andthen (schedule_get call name grp) (\<lambda>schedule.
         andthen (case schedule of
             None \<Rightarrow> ask call ''create_schedule'' params
           | Some s \<Rightarrow> andthen (lift (schedule_delta s params)) (\<lambda>b. unless (\<not> b) (ask call ''update_schedule'' params))) (\<lambda>_.
         andthen (lift (previous_group existing)) (\<lambda>previous.
         andthen (case previous of
             None \<Rightarrow> lift (Inr ())
           | Some g \<Rightarrow> unless (py_eq (PStr g) grp) (ask call ''delete_schedule'' [(''Name'', name), (''GroupName'', PStr g)])) (\<lambda>_.
         lift (Inr True))))))"

definition schedule_keys :: "string list" where
  "schedule_keys = [''ActionAfterCompletion'', ''ClientToken'', ''Description'', ''EndDate'', ''FlexibleTimeWindow'', ''GroupName'', ''KmsKeyArn'', ''Name'',
     ''ScheduleExpression'', ''ScheduleExpressionTimezone'', ''StartDate'', ''State'', ''Target'']"

definition update_schedule :: "'w service \<Rightarrow> pydict \<Rightarrow> ('w, unit) eff" where
  "update_schedule call schedule = ask call ''update_schedule'' (filter (\<lambda>(k, v). k \<in> set schedule_keys) schedule)"

text \<open>The state of a schedule that is not there is set all the same, on False.\<close>

definition schedule_switch :: "'w service \<Rightarrow> string \<Rightarrow> pydict \<Rightarrow> lambda_func \<Rightarrow> ('w, unit) eff" where
  "schedule_switch call state data f =
     attempt_only (andthen (schedule_get call (lf_name f) (dget_or data ''group-name'' default_group)) (\<lambda>schedule. case schedule of
         None \<Rightarrow> lift (Inl TypeError)
       | Some s \<Rightarrow> update_schedule call (dput ''State'' (PStr state) s)))"

definition schedule_pause :: "'w service \<Rightarrow> pydict \<Rightarrow> lambda_func \<Rightarrow> ('w, unit) eff" where
  "schedule_pause call = schedule_switch call ''DISABLED''"

definition schedule_resume :: "'w service \<Rightarrow> pydict \<Rightarrow> lambda_func \<Rightarrow> ('w, unit) eff" where
  "schedule_resume call = schedule_switch call ''ENABLED''"

text \<open>Whether there is one is asked of the default group.\<close>

definition schedule_remove :: "'w service \<Rightarrow> pydict \<Rightarrow> lambda_func \<Rightarrow> ('w, bool) eff" where
  "schedule_remove call data f =
     andthen (schedule_get call (lf_name f) default_group) (\<lambda>schedule.
     if schedule = None then lift (Inr False)
     else andthen (ask call ''delete_schedule'' [(''Name'', lf_name f), (''GroupName'', dget_or data ''group-name'' default_group)]) (\<lambda>_. lift (Inr True)))"

section \<open>Custom actions of Security Hub\<close>

record hub_policy =
  hp_name :: string
  hp_region :: string
  hp_account :: string
  hp_resource :: string
  hp_data :: pydict

definition hub_arn :: "hub_policy \<Rightarrow> string" where
  "hub_arn p = ''arn:aws:securityhub:'' @ hp_region p @ '':'' @ hp_account p @ '':action/custom/'' @ hp_name p"

definition hub_data :: "hub_policy \<Rightarrow> pydict \<Rightarrow> pydict" where
  "hub_data p mode = dput ''pattern'' (PDict [(''resources'', PList [PStr (hub_arn p)])]) mode"

definition hub_delta :: "pydict \<Rightarrow> pydict \<Rightarrow> bool res" where
  "hub_delta src tgt = rany (\<lambda>k. rbind (dindex src k) (\<lambda>a. rbind (dindex tgt k) (\<lambda>b. Inr (\<not> py_eq a b)))) [''Name'', ''Description'']"

definition hub_get :: "'w service \<Rightarrow> hub_policy \<Rightarrow> pyval \<Rightarrow> ('w, pydict option \<times> pyval option) eff" where
  "hub_get call p name =
     andthen (cwe_get call name) (\<lambda>subscriber.
     andthen (fetch_answer call ''describe_action_targets'' [(''ActionTargetArns'', PList [PStr (hub_arn p)])]) (\<lambda>answer.
     andthen (lift (rbind (field_get answer ''ActionTargets'' (PTuple [])) py_iter)) (\<lambda>actions.
     if 1 < length actions then lift (Inl AssertionError)
     else lift (Inr (subscriber, case actions of a # _ \<Rightarrow> if py_truth a then Some a else None | [] \<Rightarrow> None)))))"

definition or_value :: "pyval \<Rightarrow> pyval \<Rightarrow> pyval" where
  "or_value a b = (if py_truth a then a else b)"

definition hub_params :: "hub_policy \<Rightarrow> pydict res" where
  "hub_params p =
     (let titled = dget_or (hp_data p) ''title'' PNone; kind = last (split_char CHR ''.'' (hp_resource p));
          description = or_value (dget_or (hp_data p) ''description'' PNone) (or_value titled (PStr (hp_name p)))
      in rbind (case description of PStr s \<Rightarrow> Inr (strip s) | _ \<Rightarrow> Inl AttributeError) (\<lambda>d.
         Inr [(''Name'', or_value titled (PStr (title kind @ '' '' @ hp_name p))), (''Description'', PStr (take 500 d)), (''Id'', PStr (hp_name p))]))"

text \<open>\<open>add_rule\<close> is the call \<open>self.cwe.add(func)\<close>.\<close>

definition hub_add_with :: "('w, unit) eff \<Rightarrow> 'w service \<Rightarrow> hub_policy \<Rightarrow> lambda_func \<Rightarrow> ('w, pyval) eff" where
  "hub_add_with add_rule call p f =
     andthen add_rule (\<lambda>_.
     andthen (hub_get call p (lf_name f)) (\<lambda>(event, action).
     andthen (lift (hub_params p)) (\<lambda>params. case action of
         None \<Rightarrow> andthen (fetch_answer call ''create_action_target'' params) (\<lambda>r. lift (field_get r ''ActionTargetArn'' PNone))
       | Some a \<Rightarrow>
           let params = ddel ''Id'' params
           in andthen (lift (rbind (dict_of a) (\<lambda>d. hub_delta d params))) (\<lambda>b.
              andthen (unless (\<not> b) (ask call ''update_action_target'' ((''ActionTargetArn'', PStr (hub_arn p)) # params))) (\<lambda>_.
              lift (Inr (PStr (hub_arn p))))))))"

text \<open>The call lacks the third argument.\<close>

definition hub_add :: "'w service \<Rightarrow> hub_policy \<Rightarrow> lambda_func \<Rightarrow> ('w, pyval) eff" where
  "hub_add = hub_add_with cwe_update"

definition hub_update :: "'w service \<Rightarrow> hub_policy \<Rightarrow> lambda_func \<Rightarrow> ('w, unit) eff" where
  "hub_update call p f = andthen cwe_update (\<lambda>_. andthen (hub_add call p f) (\<lambda>_. lift (Inr ())))"

definition hub_remove :: "'w service \<Rightarrow> hub_policy \<Rightarrow> lambda_func \<Rightarrow> bool \<Rightarrow> ('w, unit) eff" where
  "hub_remove call p f func_deleted =
     andthen (cwe_remove call f func_deleted) (\<lambda>_. ask call ''delete_action_target'' [(''ActionTargetArn'', PStr (hub_arn p))])"

section \<open>Notifications of buckets\<close>

definition notify_delta :: "pydict \<Rightarrow> pydict \<Rightarrow> bool" where
  "notify_delta src tgt = list_ex (differs_at src tgt) [''Id'', ''LambdaFunctionArn'', ''Events'', ''Filters'']"

text \<open>The configuration, the notifications of functions in it, and the place of the function's, the last of its name.\<close>

definition get_notifies :: "'w service \<Rightarrow> pyval \<Rightarrow> lambda_func \<Rightarrow> ('w, pydict \<times> pyval list \<times> pydict option) eff" where
  "get_notifies call bucket f =
     andthen (fetch_answer call ''get_bucket_notification_configuration'' [(''Bucket'', bucket)]) (\<lambda>answer.
     andthen (lift (dict_of answer)) (\<lambda>notifies.
     andthen (lift (py_iter (dget_or notifies ''LambdaFunctionConfigurations'' (PList [])))) (\<lambda>fs.
     andthen (lift (rfilter (\<lambda>c. rbind (tag_field c ''Id'') (\<lambda>i. Inr (py_eq i (lf_name f)))) fs)) (\<lambda>mine.
     andthen (lift (if mine = [] then Inr None else rbind (dict_of (last mine)) (\<lambda>d. Inr (Some d)))) (\<lambda>found.
     lift (Inr (notifies, fs, found)))))))"

text \<open>\<open>list.remove\<close>.\<close>

fun remove_value :: "pyval \<Rightarrow> pyval list \<Rightarrow> pyval list" where
  "remove_value v [] = []"
| "remove_value v (x # xs) = (if py_eq x v then xs else x # remove_value v xs)"

definition put_notifies :: "'w service \<Rightarrow> pyval \<Rightarrow> pydict \<Rightarrow> ('w, unit) eff" where
  "put_notifies call bucket notifies =
     ask call ''put_bucket_notification_configuration'' [(''Bucket'', bucket), (''NotificationConfiguration'', PDict notifies)]"

text \<open>With filters given the attribute \<open>filters\<close> is read, which there is not.\<close>

definition notify_params :: "pydict \<Rightarrow> deployed \<Rightarrow> pydict res" where
  "notify_params data p =
     (if py_truth (dget_or data ''filters'' PNone) then Inl AttributeError
      else Inr [(''Id'', lf_name (dp_func p)), (''LambdaFunctionArn'', normalize_arn (dp_arn p)),
             (''Events'', dget_or data ''events'' (PList [PStr ''s3:ObjectCreated:*'']))])"

definition bucket_permission :: "ext \<Rightarrow> pydict \<Rightarrow> pyval \<Rightarrow> lambda_func \<Rightarrow> pydict" where
  "bucket_permission E data bucket f =
     [name_of f, (''StatementId'', bucket), (''Action'', PStr ''lambda:InvokeFunction''), (''Principal'', PStr ''s3.amazonaws.com'')] @
     (let account = dget_or data ''account_s3'' PNone
      in if py_truth account then [(''SourceAccount'', account), (''SourceArn'', PStr ''arn:aws:s3:::*'')]
         else [(''SourceArn'', PStr (''arn:aws:s3:::'' @ py_str E bucket))])"

definition bucket_add :: "'w service \<Rightarrow> ext \<Rightarrow> pydict \<Rightarrow> pydict \<Rightarrow> deployed \<Rightarrow> ('w, bool) eff" where
  "bucket_add call E data bucket p =
     andthen (lift (dindex bucket ''Name'')) (\<lambda>name.
     andthen (get_notifies call name (dp_func p)) (\<lambda>(notifies, fs, found).
     andthen (lift (notify_params data p)) (\<lambda>params.
     if (case found of None \<Rightarrow> False | Some d \<Rightarrow> \<not> notify_delta d params) then lift (Inr False)
     else
       let left = (case found of None \<Rightarrow> fs | Some d \<Rightarrow> remove_value (PDict d) fs)
       in andthen (ask_ignoring [conflict] call ''add_permission'' (bucket_permission E data name (dp_func p))) (\<lambda>_.
          andthen (put_notifies call name (dput ''LambdaFunctionConfigurations'' (PList (left @ [PDict params])) (ddel ''ResponseMetadata'' notifies))) (\<lambda>_.
          lift (Inr True))))))"

definition bucket_remove :: "'w service \<Rightarrow> pydict \<Rightarrow> lambda_func \<Rightarrow> bool \<Rightarrow> ('w, bool) eff" where
  "bucket_remove call bucket f func_deleted =
     andthen (lift (dindex bucket ''Name'')) (\<lambda>name.
     andthen (get_notifies call name f) (\<lambda>(notifies, fs, found). case found of
         None \<Rightarrow> lift (Inr False)
       | Some d \<Rightarrow>
           andthen (unless func_deleted (ask_ignoring [no_resource] call ''remove_permission'' [name_of f, (''StatementId'', name)])) (\<lambda>_.
           andthen (lift (if dhas notifies ''ResponseMetadata'' then Inr () else Inl KeyError)) (\<lambda>_.
           andthen (put_notifies call name (ddel ''ResponseMetadata'' (dput ''LambdaFunctionConfigurations'' (PList (remove_value (PDict d) fs)) notifies))) (\<lambda>_.
           lift (Inr True))))))"

section \<open>Log groups\<close>

definition log_statement :: "pyval \<Rightarrow> pyval res" where
  "log_statement name = rbind (text_of name) (\<lambda>s. Inr (PStr (map (\<lambda>c. if c = CHR ''/'' then CHR ''-'' else c) (drop 1 s))))"

definition arn_region :: "pyval \<Rightarrow> string res" where
  "arn_region arn = rbind (text_of arn) (\<lambda>s. case split_max (CHR '':'') 4 s of
      _ # _ # _ # region # _ \<Rightarrow> Inr region | _ \<Rightarrow> Inl IndexError)"

definition log_add_one :: "'w service \<Rightarrow> pyval \<Rightarrow> deployed \<Rightarrow> pydict \<Rightarrow> ('w, unit) eff" where
  "log_add_one call filter_pattern p g =
     andthen (lift (dindex g ''logGroupName'')) (\<lambda>name.
     andthen (lift (dindex g ''arn'')) (\<lambda>arn.
     andthen (lift (arn_region arn)) (\<lambda>region.
     andthen (lift (log_statement name)) (\<lambda>statement.
     andthen (ask_ignoring [conflict] call ''add_permission'' [name_of (dp_func p), (''StatementId'', statement), (''SourceArn'', arn),
        (''Action'', PStr ''lambda:InvokeFunction''), (''Principal'', PStr (''logs.'' @ region @ ''.amazonaws.com''))]) (\<lambda>_.
       ask call ''put_subscription_filter'' [(''logGroupName'', name), (''filterName'', lf_name (dp_func p)), (''filterPattern'', filter_pattern),
         (''destinationArn'', or_value (dp_alias p) (dp_arn p))])))))"

definition log_add :: "'w service \<Rightarrow> pydict list \<Rightarrow> pyval \<Rightarrow> deployed \<Rightarrow> ('w, unit) eff" where
  "log_add call log_groups filter_pattern p = each (log_add_one call filter_pattern p) log_groups"

text \<open>Whether a request found what it removes; the exception of the one client is not that of another.\<close>

definition found_one :: "'w service \<Rightarrow> string \<Rightarrow> pydict \<Rightarrow> ('w, bool) eff" where
  "found_one call name params = (\<lambda>w. case call (name, params) w of
      (Returned v, w') \<Rightarrow> (Inr True, w')
    | (ClientErr c, w') \<Rightarrow> (if c = no_resource then Inr False else Inl ClientError, w')
    | (OtherErr e, w') \<Rightarrow> (Inl e, w'))"

definition log_remove_one :: "'w service \<Rightarrow> lambda_func \<Rightarrow> bool \<Rightarrow> pydict \<Rightarrow> ('w, bool) eff" where
  "log_remove_one call f func_deleted g =
     andthen (lift (dindex g ''logGroupName'')) (\<lambda>name.
     andthen (if func_deleted then lift (Inr False)
        else andthen (lift (log_statement name)) (\<lambda>statement. found_one call ''remove_permission'' [name_of f, (''StatementId'', statement)])) (\<lambda>_.
     andthen (ask call ''delete_subscription_filter'' [(''logGroupName'', name), (''filterName'', lf_name f)]) (\<lambda>_. lift (Inr True))))"

definition log_remove :: "'w service \<Rightarrow> pydict list \<Rightarrow> lambda_func \<Rightarrow> bool \<Rightarrow> ('w, bool) eff" where
  "log_remove call log_groups f func_deleted =
     andthen (each_value (log_remove_one call f func_deleted) log_groups) (\<lambda>bs. lift (Inr (list_ex id bs)))"

section \<open>Queues\<close>

text \<open>The mappings of the function by the source of their events; a later one of a source wins.\<close>

definition event_mappings :: "'w service \<Rightarrow> lambda_func \<Rightarrow> ('w, (pyval \<times> pydict) list) eff" where
  "event_mappings call f =
     andthen (fetch_answer call ''list_event_source_mappings'' [name_of f]) (\<lambda>answer.
     lift (rbind (rbind (field_get answer ''EventSourceMappings'' (PTuple [])) py_iter) (\<lambda>ms.
       rbind (rmap (\<lambda>m. rbind (dict_of m) (\<lambda>d. rbind (dindex d ''EventSourceArn'') (\<lambda>a.
         if hashable a then Inr (a, d) else Inl TypeError))) ms) (\<lambda>ps. Inr (rev ps)))))"

definition mapping_of :: "(pyval \<times> pydict) list \<Rightarrow> pyval \<Rightarrow> pydict option" where
  "mapping_of ms a = (case find (\<lambda>(b, d). py_eq a b) ms of None \<Rightarrow> None | Some (b, d) \<Rightarrow> Some d)"

definition skip_mapping :: "pyval \<Rightarrow> pydict \<Rightarrow> bool res" where
  "skip_mapping batch_size m =
     rbind (dindex m ''State'') (\<lambda>s. if is_text s ''Enabled'' then Inr True
       else rbind (dindex m ''BatchSize'') (\<lambda>b. Inr (\<not> py_eq b batch_size)))"

text \<open>The loop returns in its first round that does not skip.\<close>

fun sqs_add_from :: "'w service \<Rightarrow> pyval \<Rightarrow> lambda_func \<Rightarrow> (pyval \<times> pydict) list \<Rightarrow> pyval list \<Rightarrow> ('w, bool) eff" where
  "sqs_add_from call batch_size f ms [] = lift (Inr False)"
| "sqs_add_from call batch_size f ms (q # qs) = (case mapping_of ms q of
      None \<Rightarrow> andthen (ask call ''create_event_source_mapping'' [name_of f, (''EventSourceArn'', q), (''BatchSize'', batch_size)]) (\<lambda>_. lift (Inr True))
    | Some m \<Rightarrow>
        andthen (lift (skip_mapping batch_size m)) (\<lambda>skip.
        if skip then sqs_add_from call batch_size f ms qs
        else andthen (lift (dindex m ''UUID'')) (\<lambda>uuid.
             andthen (ask call ''update_event_source_mapping'' [(''UUID'', uuid), (''Enabled'', PBool True), (''BatchSize'', batch_size)]) (\<lambda>_. lift (Inr True)))))"

definition sqs_add :: "'w service \<Rightarrow> pyval list \<Rightarrow> pyval \<Rightarrow> lambda_func \<Rightarrow> ('w, bool) eff" where
  "sqs_add call queue_arns batch_size f = andthen (event_mappings call f) (\<lambda>ms. sqs_add_from call batch_size f ms queue_arns)"

definition sqs_remove_one :: "'w service \<Rightarrow> (pyval \<times> pydict) list \<Rightarrow> pyval \<Rightarrow> ('w, bool) eff" where
  "sqs_remove_one call ms q = (case mapping_of ms q of
      None \<Rightarrow> lift (Inr False)
    | Some m \<Rightarrow> andthen (lift (dindex m ''UUID'')) (\<lambda>uuid. andthen (ask call ''delete_event_source_mapping'' [(''UUID'', uuid)]) (\<lambda>_. lift (Inr True))))"

definition sqs_remove :: "'w service \<Rightarrow> pyval list \<Rightarrow> lambda_func \<Rightarrow> ('w, bool) eff" where
  "sqs_remove call queue_arns f =
     andthen (event_mappings call f) (\<lambda>ms. andthen (each_value (sqs_remove_one call ms) queue_arns) (\<lambda>bs. lift (Inr (list_ex id bs))))"

section \<open>Topics\<close>

text \<open>Region, name and the id of the statement.\<close>

definition parse_topic :: "string \<Rightarrow> (string \<times> string \<times> string) res" where
  "parse_topic arn = (case split_char (CHR '':'') arn of
      _ # _ # _ # region # _ # name # _ \<Rightarrow> Inr (region, name, ''sns-topic-'' @ name)
    | _ \<Rightarrow> Inl IndexError)"

definition sns_add_one :: "'w service \<Rightarrow> deployed \<Rightarrow> string \<Rightarrow> ('w, unit) eff" where
  "sns_add_one call p arn =
     andthen (lift (parse_topic arn)) (\<lambda>(region, name, statement).
     andthen (ask_ignoring [conflict] call ''add_permission'' [name_of (dp_func p), (''StatementId'', PStr statement), (''SourceArn'', PStr arn),
        (''Action'', PStr ''lambda:InvokeFunction''), (''Principal'', PStr ''sns.amazonaws.com'')]) (\<lambda>_.
       ask call ''subscribe'' [(''TopicArn'', PStr arn), (''Protocol'', PStr ''lambda''), (''Endpoint'', dp_arn p)]))"

definition sns_add :: "'w service \<Rightarrow> string list \<Rightarrow> deployed \<Rightarrow> ('w, unit) eff" where
  "sns_add call topic_arns p = each (sns_add_one call p) topic_arns"

text \<open>The first subscription of the function, over the pages of the topic's, which are taken whole.\<close>

fun find_subscription :: "pyval \<Rightarrow> pyval list \<Rightarrow> pyval option res" where
  "find_subscription endpoint [] = Inr None"
| "find_subscription endpoint (s # ss) =
     rbind (tag_field s ''Endpoint'') (\<lambda>e.
     if py_eq e endpoint then rbind (tag_field s ''SubscriptionArn'') (\<lambda>a. Inr (Some a)) else find_subscription endpoint ss)"

definition first_subscription :: "pyval \<Rightarrow> pyval list \<Rightarrow> pyval option res" where
  "first_subscription endpoint pages =
     rbind (rmap (\<lambda>pg. rbind (tag_field pg ''Subscriptions'') py_iter) pages) (\<lambda>sss. find_subscription endpoint (concat sss))"

definition sns_remove_one :: "'w service \<Rightarrow> deployed \<Rightarrow> bool \<Rightarrow> string \<Rightarrow> ('w, unit) eff" where
  "sns_remove_one call p func_deleted arn =
     andthen (lift (parse_topic arn)) (\<lambda>(region, name, statement).
     andthen (unless func_deleted (ask_ignoring [no_resource] call ''remove_permission'' [name_of (dp_func p), (''StatementId'', PStr statement)])) (\<lambda>_.
     andthen (fetch_answer call ''list_subscriptions_by_topic'' [(''TopicArn'', PStr arn)]) (\<lambda>pages.
     andthen (lift (rbind (py_iter pages) (first_subscription (dp_arn p)))) (\<lambda>found. case found of
         None \<Rightarrow> lift (Inr ())
       | Some s \<Rightarrow> ask_ignoring [''NotFound''] call ''unsubscribe'' [(''SubscriptionArn'', s)]))))"

definition sns_remove :: "'w service \<Rightarrow> string list \<Rightarrow> deployed \<Rightarrow> bool \<Rightarrow> ('w, unit) eff" where
  "sns_remove call topic_arns p func_deleted = each (sns_remove_one call p func_deleted) topic_arns"

text \<open>Topics of a bucket's notifications; one is made when none gets new objects. The policy is text.\<close>

definition topic_policy :: "pyval \<Rightarrow> pyval" where
  "topic_policy arn = PDict [(''Statement'', PList [PDict [(''Action'', PStr ''SNS:Publish''), (''Effect'', PStr ''Allow''), (''Resource'', arn),
     (''Principal'', PDict [(''Service'', PStr ''s3.amazonaws.com'')])]])]"

definition created_event :: pyval where
  "created_event = PStr ''s3:ObjectCreated:*''"

definition create_topic :: "'w service \<Rightarrow> (pyval \<Rightarrow> string) \<Rightarrow> pyval \<Rightarrow> pydict \<Rightarrow> pyval list \<Rightarrow> ('w, pyval list) eff" where
  "create_topic call dumps bucket notifies topics =
     andthen (answer_field call ''create_topic'' [(''Name'', bucket)] ''TopicArn'') (\<lambda>arn.
     andthen (ask call ''set_topic_attributes'' [(''TopicArn'', arn), (''AttributeName'', PStr ''Policy''), (''AttributeValue'', PStr (dumps (topic_policy arn)))]) (\<lambda>_.
     let topics = topics @ [PDict [(''TopicArn'', arn), (''Events'', PList [created_event])]]
     in andthen (put_notifies call bucket (dput ''TopicConfigurations'' (PList topics) notifies)) (\<lambda>_. lift (Inr [arn]))))"

definition get_topic :: "'w service \<Rightarrow> (pyval \<Rightarrow> string) \<Rightarrow> pydict \<Rightarrow> ('w, pyval list) eff" where
  "get_topic call dumps bucket =
     andthen (lift (rbind (dindex bucket ''Notification'') dict_of)) (\<lambda>notifies.
     andthen (lift (py_iter (dget_or notifies ''TopicConfigurations'' (PList [])))) (\<lambda>topics.
     andthen (lift (rbind (rfilter (\<lambda>t. rbind (tag_field t ''Events'') (py_in created_event)) topics) (rmap (\<lambda>t. tag_field t ''TopicArn'')))) (\<lambda>arns.
     if arns \<noteq> [] then lift (Inr arns)
     else andthen (lift (dindex bucket ''Name'')) (\<lambda>name. create_topic call dumps name notifies topics))))"

section \<open>Config rules\<close>

definition readonly_fields :: "string list" where
  "readonly_fields = [''ConfigRuleArn'', ''ConfigRuleId'', ''CreatedBy'', ''RuleEvaluationVisibility'']"

text \<open>The types a policy's resource has in Config and in CloudFormation, or neither.\<close>

definition config_type_of :: "string option \<times> string option \<Rightarrow> pydict \<Rightarrow> string res" where
  "config_type_of types data = (case types of
      (Some c, _) \<Rightarrow> Inr c
    | (None, Some t) \<Rightarrow> if dhas data ''schedule'' then Inr t else Inl PyException
    | (None, None) \<Rightarrow> Inl PyException)"

definition source_detail :: "string \<Rightarrow> pyval" where
  "source_detail message = PList [PDict [(''EventSource'', PStr ''aws.config''), (''MessageType'', PStr message)]]"

text \<open>Of a function that is not a policy's (\<open>None\<close>) the scope is filled in before there is one.\<close>

definition rule_scope :: "(string option \<times> string option) option \<Rightarrow> pydict \<Rightarrow> pydict res" where
  "rule_scope types data = (case types of
      None \<Rightarrow> Inl KeyError
    | Some ts \<Rightarrow> rbind (config_type_of ts data) (\<lambda>t.
        Inr (if is_text (dget_or data ''type'' PNone) ''config-poll-rule'' then []
             else [(''Scope'', PDict [(''ComplianceResourceTypes'', PList [PStr t])])])))"

definition get_rule_params :: "(string option \<times> string option) option \<Rightarrow> pydict \<Rightarrow> deployed \<Rightarrow> pydict res" where
  "get_rule_params types data p =
     rbind (rule_scope types data) (\<lambda>scope.
     let schedule = dget_or data ''schedule'' PNone;
         message = (if py_truth schedule then ''ScheduledNotification'' else ''ConfigurationItemChangeNotification'')
     in Inr ([(''ConfigRuleName'', lf_name (dp_func p)), (''Description'', lf_description (dp_func p)),
          (''Source'', PDict [(''Owner'', PStr ''CUSTOM_LAMBDA''), (''SourceIdentifier'', normalize_arn (dp_arn p)), (''SourceDetails'', source_detail message)])] @
        scope @ (if py_truth schedule then [(''MaximumExecutionFrequency'', schedule)] else [])))"

definition rule_get :: "'w service \<Rightarrow> pyval \<Rightarrow> ('w, pydict option) eff" where
  "rule_get call name =
     andthen (resource_exists call ''NoSuchConfigRuleException'' ''describe_config_rules'' [(''ConfigRuleNames'', PList [name])]) (\<lambda>rules. case rules of
         None \<Rightarrow> lift (Inr None)
       | Some d \<Rightarrow> lift (rbind (rbind (dindex d ''ConfigRules'') py_iter) (\<lambda>rs. case rs of
           [] \<Rightarrow> Inl IndexError | r # _ \<Rightarrow> rbind (dict_of r) (\<lambda>r. Inr (if r = [] then None else Some r)))))"

definition rule_delta :: "pydict \<Rightarrow> pydict \<Rightarrow> bool res" where
  "rule_delta rule params =
     (if differs_at rule params ''Scope'' then Inr True
      else rbind (dindex rule ''Source'') (\<lambda>a. rbind (dindex params ''Source'') (\<lambda>b.
        if \<not> py_eq a b then Inr True
        else rbind (case dget params ''MaximumExecutionFrequency'' of
              None \<Rightarrow> Inr False
            | Some m \<Rightarrow> rbind (dindex rule ''MaximumExecutionFrequency'') (\<lambda>r. Inr (\<not> py_eq r m))) (\<lambda>often.
          if often then Inr True
          else Inr (\<not> py_eq (dget_or rule ''Description'' (PStr [])) (dget_or params ''Description'' (PStr [])))))))"

definition arn_account :: "pyval \<Rightarrow> string res" where
  "arn_account arn = (case arn of
      PStr s \<Rightarrow> (case split_char (CHR '':'') s of _ # _ # _ # _ # a # _ \<Rightarrow> Inr a | _ \<Rightarrow> Inl IndexError)
    | _ \<Rightarrow> Inl AttributeError)"

definition put_config_rule :: "'w service \<Rightarrow> pydict \<Rightarrow> ('w, unit) eff" where
  "put_config_rule call rule = ask (LambdaRetry call) ''put_config_rule'' [(''ConfigRule'', PDict rule)]"

definition rule_add :: "'w service \<Rightarrow> (string option \<times> string option) option \<Rightarrow> pydict \<Rightarrow> deployed \<Rightarrow> ('w, unit) eff" where
  "rule_add call types data p =
     (let f = dp_func p
      in andthen (rule_get call (lf_name f)) (\<lambda>rule.
         andthen (lift (get_rule_params types data p)) (\<lambda>params. case rule of
             Some r \<Rightarrow> andthen (lift (rule_delta r params)) (\<lambda>b.
               unless (\<not> b) (put_config_rule call (dupdate (fold ddel readonly_fields r) params)))
           | None \<Rightarrow>
               andthen (lift (arn_account (dp_arn p))) (\<lambda>account.
               andthen (ask_ignoring [conflict] call ''add_permission'' [name_of f, (''StatementId'', lf_name f), (''SourceAccount'', PStr account),
                  (''Action'', PStr ''lambda:InvokeFunction''), (''Principal'', PStr ''config.amazonaws.com'')]) (\<lambda>_.
                 put_config_rule call params)))))"

definition rule_remove :: "'w service \<Rightarrow> lambda_func \<Rightarrow> bool \<Rightarrow> ('w, bool) eff" where
  "rule_remove call f func_deleted =
     andthen (rule_get call (lf_name f)) (\<lambda>rule.
     if rule = None then lift (Inr False)
     else andthen (ask_ignoring [''NoSuchConfigRuleException''] call ''delete_config_rule'' [(''ConfigRuleName'', lf_name f)]) (\<lambda>_.
          andthen (remove_invocation call f (\<not> func_deleted)) (\<lambda>_. lift (Inr True))))"

section \<open>The source of a policy\<close>

datatype event_source = ConfigRuleSource | HubSource | ScheduleSource | RuleSource

definition event_source_of :: "pydict \<Rightarrow> event_source res" where
  "event_source_of mode =
     rbind (dindex mode ''type'') (\<lambda>t.
       Inr (if is_text t ''config-rule'' \<or> is_text t ''config-poll-rule'' then ConfigRuleSource
            else if is_text t ''hub-action'' then HubSource
            else if is_text t ''schedule'' then ScheduleSource
            else RuleSource))"

section \<open>Rules settle\<close>

text \<open>A cloud with one rule and its targets.\<close>

record rule_cloud =
  rc_rule :: "pydict option"
  rc_targets :: "pyval list"

definition rule_answer :: pyval where
  "rule_answer = PDict [(''RuleArn'', PStr ''arn:aws:events:us-east-1:1:rule/r'')]"

definition rule_events :: "rule_cloud service" where
  "rule_events q st = (case q of (name, params) \<Rightarrow>
     if name = ''put_rule''
     then (Returned rule_answer, st\<lparr>rc_rule := Some (params @ [(''Arn'', PStr ''arn:aws:events:us-east-1:1:rule/r'')])\<rparr>)
     else if name = ''add_permission'' then (ClientErr conflict, st)
     else (case rc_rule st of
         None \<Rightarrow> (ClientErr no_resource, st)
       | Some r \<Rightarrow>
           if name = ''describe_rule'' then (Returned (PDict r), st)
           else if name = ''list_targets_by_rule'' then (Returned (PDict [(''Targets'', PList (rc_targets st))]), st)
           else if name = ''put_targets''
           then (Returned PNone, st\<lparr>rc_targets := rc_targets st @ (case dget params ''Targets'' of Some (PList ts) \<Rightarrow> ts | _ \<Rightarrow> [])\<rparr>)
           else (Returned PNone, st)))"

definition rule_there :: "pydict \<Rightarrow> pyval \<Rightarrow> rule_cloud \<Rightarrow> bool" where
  "rule_there params arn st \<longleftrightarrow>
     (case rc_rule st of None \<Rightarrow> False | Some r \<Rightarrow> r \<noteq> [] \<and> \<not> cwe_delta r params \<and> dhas r ''Arn'') \<and>
     (\<exists>arns. rmap (\<lambda>t. tag_field t ''Arn'') (rc_targets st) = Inr arns \<and> list_ex (\<lambda>a. py_eq arn a) arns)"

lemma retried_ok: "call (name, params) w = (Returned v, w') \<Longrightarrow> 0 < n \<Longrightarrow> retried codes n call name params w = (Returned v, w')"
  by (cases n) (simp_all add: retried_def)

lemma rule_listed:
  assumes "rc_rule st = Some r"
  shows "answer_field (RuleRetry rule_events) ''list_targets_by_rule'' ps ''Targets'' st = (Inr (PList (rc_targets st)), st)"
proof -
  have call: "rule_events (''list_targets_by_rule'', ps) st = (Returned (PDict [(''Targets'', PList (rc_targets st))]), st)"
    by (simp add: rule_events_def assms)
  have retry: "retried codes 2 rule_events ''list_targets_by_rule'' ps st = (Returned (PDict [(''Targets'', PList (rc_targets st))]), st)" for codes
    by (rule retried_ok, rule call, simp)
  show ?thesis
    by (simp add: answer_field_def fetch_answer_def RuleRetry_def retry andthen_def lift_def tag_field_def dindex_def)
qed

lemma rule_permitted: "ask_ignoring [conflict] rule_events ''add_permission'' ps st = (Inr (), st)"
  by (simp add: ask_ignoring_def rule_events_def)

lemma rule_got: "case rc_rule st of None \<Rightarrow> True | Some r \<Rightarrow> r \<noteq> [] \<Longrightarrow> cwe_get rule_events n st = (Inr (rc_rule st), st)"
  by (cases "rc_rule st") (auto simp: cwe_get_def resource_exists_def rule_events_def dict_of_def)

lemma cwe_add_there:
  assumes "cwe_params dumps data (dp_func p) = Inr params" "rule_there params (normalize_arn (dp_arn p)) st"
  shows "cwe_add rule_events dumps data p st = (Inr False, st)"
proof -
  obtain r where r: "rc_rule st = Some r" "r \<noteq> []" "\<not> cwe_delta r params" "dhas r ''Arn''"
    using assms(2) by (auto simp: rule_there_def split: option.splits)
  obtain arns where arns: "rmap (\<lambda>t. tag_field t ''Arn'') (rc_targets st) = Inr arns" "list_ex (\<lambda>a. py_eq (normalize_arn (dp_arn p)) a) arns"
    using assms(2) by (auto simp: rule_there_def)
  obtain a where a: "dindex r ''Arn'' = Inr a" using r(4) by (auto simp: dindex_def dhas_dget)
  have get: "cwe_get rule_events (lf_name (dp_func p)) st = (Inr (Some r), st)" using rule_got[of st] r by simp
  have put: "put_rule rule_events (Some r) params st = (Inr a, st)" by (simp add: put_rule_def r(3) a)
  show ?thesis
    by (simp add: cwe_add_def Let_def assms(1) andthen_def lift_def get put rule_permitted rule_listed[OF r(1)] arns)
qed

lemma cwe_params_plain:
  assumes "cwe_params dumps data f = Inr params" "plain_value (dget_or data ''schedule'' PNone)"
  shows "\<not> cwe_delta (params @ [(''Arn'', v)]) params"
proof -
  let ?schedule = "dget_or data ''schedule'' PNone"
  obtain pattern where params: "params = [(''Name'', lf_name f), (''Description'', lf_description f), (''State'', PStr ''ENABLED'')] @
      (case pattern of None \<Rightarrow> [] | Some p \<Rightarrow> if p = [] then [] else [(''EventPattern'', PStr p)]) @
      (if py_truth ?schedule then [(''ScheduleExpression'', ?schedule)] else [])"
    using assms(1) unfolding cwe_params_def rbind_eq_Inr Let_def by blast
  have "dget_or params ''State'' PNone = PStr ''ENABLED''" by (simp add: params dget_or_def)
  moreover have "dget_or params ''EventPattern'' PNone \<in> insert PNone (range PStr)"
    by (cases pattern) (auto simp: params dget_or_def)
  moreover have "dget_or params ''ScheduleExpression'' PNone \<in> {PNone, ?schedule}"
    by (cases pattern) (auto simp: params dget_or_def)
  ultimately have self: "py_eq (dget_or params k PNone) (dget_or params k PNone)" if "k \<in> set [''State'', ''EventPattern'', ''ScheduleExpression'']" for k
    using that plain_value_eq[OF assms(2)] by (auto simp: dget_or_def)
  have "dget_or (params @ [(''Arn'', v)]) k PNone = dget_or params k PNone" if "k \<noteq> ''Arn''" for k
    using that by (simp add: dget_or_def map_add_def split: option.splits)
  then show ?thesis using self by (simp add: cwe_delta_def differs_at_def)
qed


lemma put_rule_cloud:
  assumes "put_rule rule_events (rc_rule st) params st = (Inr a, st1)" "\<And>v. \<not> cwe_delta (params @ [(''Arn'', v)]) params"
    and "case rc_rule st of None \<Rightarrow> True | Some r \<Rightarrow> r \<noteq> [] \<and> dhas r ''Arn''"
  shows "rc_targets st1 = rc_targets st \<and> (\<exists>r. rc_rule st1 = Some r \<and> r \<noteq> [] \<and> \<not> cwe_delta r params \<and> dhas r ''Arn'')"
proof -
  have put: "st1 = st\<lparr>rc_rule := Some (params @ [(''Arn'', PStr ''arn:aws:events:us-east-1:1:rule/r'')])\<rparr> \<or>
      st1 = st \<and> (\<exists>r. rc_rule st = Some r \<and> \<not> cwe_delta r params)"
    using assms(1) by (auto simp: put_rule_def answer_field_def fetch_answer_def rule_events_def andthen_def lift_def rule_answer_def tag_field_def
        dindex_def split: option.splits if_splits)
  then show ?thesis
  proof
    assume "st1 = st\<lparr>rc_rule := Some (params @ [(''Arn'', PStr ''arn:aws:events:us-east-1:1:rule/r'')])\<rparr>"
    then show ?thesis using assms(2) by (simp add: dhas_def dkeys_def)
  next
    assume "st1 = st \<and> (\<exists>r. rc_rule st = Some r \<and> \<not> cwe_delta r params)"
    then show ?thesis using assms(3) by auto
  qed
qed

lemma rmap_snoc: "rmap f xs = Inr ys \<Longrightarrow> f x = Inr y \<Longrightarrow> rmap f (xs @ [x]) = Inr (ys @ [y])"
  by (induction xs arbitrary: ys) (auto simp: rbind_eq_Inr)

lemma cwe_add_leaves:
  assumes run: "cwe_add rule_events dumps data p st = (Inr b, st')" and schedule: "plain_value (dget_or data ''schedule'' PNone)"
    and arn: "dp_arn p = PStr arn" and st: "case rc_rule st of None \<Rightarrow> True | Some r \<Rightarrow> r \<noteq> [] \<and> dhas r ''Arn''"
  shows "\<exists>params. cwe_params dumps data (dp_func p) = Inr params \<and> rule_there params (normalize_arn (dp_arn p)) st'"
proof -
  let ?arn = "normalize_arn (dp_arn p)" and ?n = "lf_name (dp_func p)"
  have got: "cwe_get rule_events ?n st = (Inr (rc_rule st), st)" using rule_got[of st] st by (auto split: option.splits)
  obtain params where params: "cwe_params dumps data (dp_func p) = Inr params"
    using run by (cases "cwe_params dumps data (dp_func p)") (simp_all add: cwe_add_def Let_def)
  from run obtain a st1 where put: "put_rule rule_events (rc_rule st) params st = (Inr a, st1)"
    by (auto simp: cwe_add_def Let_def params andthen_def lift_def got split: prod.splits sum.splits)
  obtain r where r: "rc_targets st1 = rc_targets st" "rc_rule st1 = Some r" "r \<noteq> []" "\<not> cwe_delta r params" "dhas r ''Arn''"
    using put_rule_cloud[OF put cwe_params_plain[OF params schedule] st] by blast
  obtain arns where arns: "rmap (\<lambda>t. tag_field t ''Arn'') (rc_targets st1) = Inr arns"
    using run by (cases "rmap (\<lambda>t. tag_field t ''Arn'') (rc_targets st1)")
      (simp_all add: cwe_add_def Let_def params andthen_def lift_def got put rule_permitted rule_listed[OF r(2)])
  have plain: "py_eq ?arn ?arn" by (simp add: normalize_arn_def arn)
  have "rule_there params ?arn st'"
  proof (cases "list_ex (\<lambda>a. py_eq ?arn a) arns")
    case True
    with run have "st' = st1"
      by (simp add: cwe_add_def Let_def params andthen_def lift_def got put rule_permitted rule_listed[OF r(2)] arns)
    with True r arns show ?thesis by (simp add: rule_there_def)
  next
    case False
    with run have "st' = st1\<lparr>rc_targets := rc_targets st1 @ [PDict [(''Id'', ?n), (''Arn'', ?arn)]]\<rparr>"
      by (simp add: cwe_add_def Let_def params andthen_def lift_def got put rule_permitted rule_listed[OF r(2)] arns ask_def ask_ignoring_def
          rule_events_def r(2))
    moreover have "rmap (\<lambda>t. tag_field t ''Arn'') (rc_targets st1 @ [PDict [(''Id'', ?n), (''Arn'', ?arn)]]) = Inr (arns @ [?arn])"
      by (rule rmap_snoc[OF arns]) (simp add: tag_field_def dindex_def)
    ultimately show ?thesis using r plain by (simp add: rule_there_def)
  qed
  with params show ?thesis by blast
qed


definition some_dp :: deployed where
  "some_dp = \<lparr>dp_func = bare_function\<lparr>lf_name := PStr ''custodian-p'', lf_description := PStr ''d''\<rparr>,
     dp_arn = PStr ''arn:aws:lambda:us-east-1:1:function:custodian-p:prod'', dp_alias = PNone\<rparr>"

definition some_mode :: pydict where
  "some_mode = [(''type'', PStr ''cloudtrail''), (''events'', PList [PStr ''CreateBucket'', PStr ''ConsoleLogin''])]"

definition some_rules :: rule_cloud where
  "some_rules = \<lparr>rc_rule = Some [(''State'', PStr ''DISABLED''), (''Arn'', PStr ''a'')], rc_targets = [PDict [(''Arn'', PStr ''other'')]]\<rparr>"

lemma some_rule_added: "fst (cwe_add rule_events (\<lambda>v. ''{}'') some_mode some_dp some_rules) = Inr True"
  by code_simp


section \<open>Tags of schedules\<close>

lemma takeWhile_then: "list_all P xs \<Longrightarrow> ys = [] \<or> \<not> P (hd ys) \<Longrightarrow> takeWhile P (xs @ ys) = xs"
  by (induction xs) (auto simp: takeWhile_eq_Nil_iff)

text \<open>The tag a schedule is deployed with, and the one that is read when it is deployed again.\<close>

definition schedule_tag :: "string \<Rightarrow> string \<Rightarrow> string" where
  "schedule_tag name grp = ''name='' @ name @ '':group='' @ grp"

definition schedule_word :: "(char \<Rightarrow> bool) \<Rightarrow> string \<Rightarrow> bool" where
  "schedule_word P s \<longleftrightarrow> list_all P s \<and> s \<noteq> [] \<and> length s \<le> 64"

text \<open>C36: the group that was noted in the tag of a schedule is read back from it, so the schedule that is
  left behind in another group is found.\<close>

theorem schedule_group_read:
  assumes "schedule_word schedule_char name" "schedule_word group_char grp"
  shows "previous_group (Some [(''Tags'', PDict [(''custodian-schedule'', PStr (schedule_tag name grp))])]) = Inr (Some grp)"
proof -
  have colon: "\<not> schedule_char (CHR '':'')" by code_simp
  have drop: "drop 5 (schedule_tag name grp) = name @ '':group='' @ grp" and start: "starts_with (schedule_tag name grp) ''name=''"
    by (simp_all add: schedule_tag_def)
  have name: "takeWhile schedule_char (name @ CHR '':'' # CHR ''g'' # CHR ''r'' # CHR ''o'' # CHR ''u'' # CHR ''p'' # CHR ''='' # grp) = name"
    using assms(1) colon by (intro takeWhile_then) (simp_all add: schedule_word_def)
  have grp: "takeWhile group_char grp = grp"
    using assms(2) takeWhile_then[of group_char grp "[]"] by (simp add: schedule_word_def)
  have "schedule_tag_group (schedule_tag name grp) = Some grp"
    using assms by (simp add: schedule_tag_group_def Let_def start drop name grp schedule_word_def)
  then show ?thesis by (simp add: previous_group_def dget_or_def field_get_def text_of_def)
qed

lemma schedule_group_read_witness:
  "previous_group (Some [(''Tags'', PDict [(''custodian-schedule'', PStr (schedule_tag ''custodian-off'' ''team.a''))])]) = Inr (Some ''team.a'')"
proof -
  have "schedule_word schedule_char ''custodian-off''" "schedule_word group_char ''team.a''" by code_simp+
  then show ?thesis by (rule schedule_group_read)
qed

section \<open>Cases that go wrong\<close>

text \<open>The first queue without a mapping ends the loop, whatever queues follow.\<close>

lemma sqs_first_queue_only:
  assumes "mapping_of ms q = None"
  shows "sqs_add_from call n f ms (q # qs) = sqs_add_from call n f ms [q]"
  using assms by simp

text \<open>A mapping that is disabled and of another size is left as it is, as one that is enabled is.\<close>

lemma sqs_disabled_kept:
  assumes "mapping_of ms q = Some m" "dget m ''State'' = Some (PStr ''Disabled'')" "dget m ''BatchSize'' = Some (PInt 5)"
  shows "sqs_add_from call (PInt 10) f ms [q] w = (Inr False, w)"
  using assms by (simp add: skip_mapping_def dindex_def is_text_def num_eq_def num_of_def)

text \<open>A schedule in a group of its own is not removed, as it is looked for in the default group.\<close>

lemma other_group_left:
  assumes "call (''get_schedule'', [(''Name'', lf_name f), (''GroupName'', default_group)]) w = (ClientErr no_resource, w')"
  shows "schedule_remove call data f w = (Inr False, w')"
  using assms by (simp add: schedule_remove_def schedule_get_def resource_exists_def andthen_def lift_def)

lemma hub_action_never_added: "hub_add call p f w = (Inl TypeError, w)"
  by (simp add: hub_add_def hub_add_with_def cwe_update_def)

lemma plain_function_has_no_rule: "get_rule_params None data p = Inl KeyError"
  by (simp add: get_rule_params_def rule_scope_def)

lemma bucket_filters_fail: "py_truth (dget_or data ''filters'' PNone) \<Longrightarrow> notify_params data p = Inl AttributeError"
  by (simp add: notify_params_def)

lemma missing_schedule_not_paused:
  assumes "call (''get_schedule'', [(''Name'', lf_name f), (''GroupName'', dget_or data ''group-name'' default_group)]) w = (ClientErr no_resource, w')"
  shows "schedule_pause call data f w = (Inl TypeError, w')"
  using assms by (simp add: schedule_pause_def schedule_switch_def attempt_only_def rescue_def schedule_get_def resource_exists_def andthen_def lift_def)

text \<open>What Config sets itself is never sent back to it.\<close>

lemma readonly_dropped:
  assumes "get_rule_params types data p = Inr params" "k \<in> set readonly_fields"
  shows "dget (dupdate (fold ddel readonly_fields r) params) k = None"
proof -
  have "k \<notin> set (dkeys params)"
    using assms by (auto simp: get_rule_params_def rule_scope_def rbind_eq_Inr Let_def readonly_fields_def split: option.splits if_splits)
  moreover have "k \<notin> set (dkeys (fold ddel readonly_fields r))"
    using assms(2) by (auto simp: readonly_fields_def dkeys_ddel)
  ultimately have "k \<notin> set (dkeys (dupdate (fold ddel readonly_fields r) params))" by (simp add: dkeys_dupdate)
  then show ?thesis by (simp add: dget_None_iff)
qed

end
